(* ===== verification/Prelude.thy ===== *)
theory Prelude
  imports Main "HOL-Library.Word"
begin

text \<open>
  Shared vocabulary of the development: the C++ integer types at their width, checked
  \<^verbatim>\<open>std::map\<close> and \<^verbatim>\<open>std::multimap\<close> containers kept as sorted association lists, signed
  wrap-around, and two interfaces used by several components: the contract of an ordered
  dictionary and the invariant rule of a state machine.
\<close>

unbundle bit_operations_syntax

named_theorems smap_simps \<open>lookup, membership and key-set equations of the std::map model\<close>
named_theorems wf_intros \<open>preservation of the well-formedness invariants\<close>

section \<open>Machine integers\<close>

type_synonym u8 = "8 word"
type_synonym u16 = "16 word"
type_synonym u32 = "32 word"
type_synonym u64 = "64 word"

lemma unat_u8_less [simp]: "unat (b :: u8) < 256"
  using unsigned_less [of b, where ?'a = nat] by simp

lemma unat_u16_less [simp]: "unat (w :: u16) < 65536"
  using unsigned_less [of w, where ?'a = nat] by simp

lemma unat_u32_less [simp]: "unat (w :: u32) < 4294967296"
  using unsigned_less [of w, where ?'a = nat] by simp

lemma unat_u64_less [simp]: "unat (w :: u64) < 18446744073709551616"
  using unsigned_less [of w, where ?'a = nat] by simp

lemma unat_u32_add: "unat (a + b :: u32) = unat a + unat b" if "unat a + unat b < 4294967296"
  using that by (simp add: unat_word_ariths)

lemma unat_u64_add: "unat (a + b :: u64) = unat a + unat b" if "unat a + unat b < 18446744073709551616"
  using that by (simp add: unat_word_ariths)

lemma unat_of_nat_u32: "n < 4294967296 \<Longrightarrow> unat (of_nat n :: u32) = n"
  by (simp add: unat_of_nat)

lemma unat_word_of_int_u32: "0 \<le> i \<Longrightarrow> i < 4294967296 \<Longrightarrow> unat (word_of_int i :: u32) = nat i"
  unfolding unat_eq_nat_uint uint_word_of_int_eq by (subst take_bit_int_eq_self) simp_all

text \<open>
  \<^verbatim>\<open>int32\<close> values are kept as \<open>int\<close>; an operation that can leave the range is wrapped
  explicitly in two's complement, as the compilers the server is built with do.
\<close>

definition wrap32 :: "int \<Rightarrow> int" where
  "wrap32 x = signed_take_bit 31 x"

definition in_int32 :: "int \<Rightarrow> bool" where
  "in_int32 x \<longleftrightarrow> - 2147483648 \<le> x \<and> x \<le> 2147483647"

lemma wrap32_id [simp]: "in_int32 x \<Longrightarrow> wrap32 x = x"
  unfolding wrap32_def in_int32_def by (rule signed_take_bit_int_eq_self) simp_all

lemma in_int32_wrap32 [simp, intro]: "in_int32 (wrap32 x)"
  using signed_take_bit_int_greater_eq_minus_exp [of 31 x] signed_take_bit_int_less_exp [of 31 x]
  by (simp add: wrap32_def in_int32_def)

section \<open>Bytes of a packet\<close>

text \<open>What \<^verbatim>\<open>operator<<\<close> appends for a 32-bit and a 64-bit value on the little-endian wire.\<close>

definition p32 :: "u32 \<Rightarrow> u8 list" where
  "p32 x = [ucast x, ucast (drop_bit 8 x), ucast (drop_bit 16 x), ucast (drop_bit 24 x)]"

definition pguid :: "u64 \<Rightarrow> u8 list" where
  "pguid g = map (\<lambda>i. ucast (drop_bit (8 * i) g)) [0, 1, 2, 3, 4, 5, 6, 7]"

text \<open>What a client reads back: the bytes put together again, lowest first.\<close>

definition rd :: "u8 list \<Rightarrow> 'a::len word" where
  "rd bs = foldr (\<lambda>b acc. ucast b OR push_bit 8 acc) bs 0"

lemma rd_Nil: "rd [] = 0"
  by (simp add: rd_def)

lemma bit_rd_Cons:
  "bit (rd (b # bs) :: 'a::len word) n \<longleftrightarrow>
     n < LENGTH('a) \<and> (if n < 8 then bit b n else bit (rd bs :: 'a word) (n - 8))"
  by (auto simp: rd_def bit_simps dest: bit_imp_le_length)

lemma rd_p32 [simp]: "rd (p32 x) = x"
proof (rule bit_word_eqI)
  fix n assume "n < LENGTH(32)"
  then show "bit (rd (p32 x) :: u32) n \<longleftrightarrow> bit x n"
    unfolding p32_def by (auto simp: bit_rd_Cons rd_Nil bit_simps)
qed

lemma rd_pguid [simp]: "rd (pguid x) = x"
proof (rule bit_word_eqI)
  fix n assume "n < LENGTH(64)"
  then show "bit (rd (pguid x) :: u64) n \<longleftrightarrow> bit x n"
    unfolding pguid_def list.map by (auto simp: bit_rd_Cons rd_Nil bit_simps)
qed

lemma length_p32 [simp]: "length (p32 x) = 4"
  by (simp add: p32_def)

lemma length_pguid [simp]: "length (pguid x) = 8"
  by (simp add: pguid_def)

section \<open>Outcomes of C++ code\<close>

text \<open>
  A call returns a value, throws, or runs into undefined behaviour (an out-of-bounds
  access, a null dereference, a division by zero). The three are kept apart, so that a
  theorem can say that the last one does not happen.
\<close>

datatype ('e, 'a) outcome = Ok 'a | Throw 'e | Undefined

primrec obind :: "('e, 'a) outcome \<Rightarrow> ('a \<Rightarrow> ('e, 'b) outcome) \<Rightarrow> ('e, 'b) outcome" where
  "obind (Ok x) f = f x"
| "obind (Throw e) f = Throw e"
| "obind Undefined f = Undefined"

lemma obind_Ok_iff: "obind r f = Ok y \<longleftrightarrow> (\<exists>x. r = Ok x \<and> f x = Ok y)"
  by (cases r) auto

lemma obind_Undefined_iff:
  "obind r f = Undefined \<longleftrightarrow> r = Undefined \<or> (\<exists>x. r = Ok x \<and> f x = Undefined)"
  by (cases r) auto

lemma obind_assoc: "obind (obind r f) g = obind r (\<lambda>x. obind (f x) g)"
  by (cases r) auto

lemma length_filter_filter_le: "length (filter P (filter Q xs)) \<le> length (filter P xs)"
  by (induction xs) auto

section \<open>std::map as a sorted association list\<close>

type_synonym ('k, 'v) smap = "('k \<times> 'v) list"

text \<open>
  \<^verbatim>\<open>m[k] = v\<close> overwrites in place or inserts at the position the key order gives;
  \<^verbatim>\<open>erase\<close> removes the node; \<^verbatim>\<open>find\<close> is \<^term>\<open>map_of\<close>; iteration is the list order.
\<close>

fun sm_put :: "'k::linorder \<Rightarrow> 'v \<Rightarrow> ('k, 'v) smap \<Rightarrow> ('k, 'v) smap" where
  "sm_put k v [] = [(k, v)]"
| "sm_put k v ((k', v') # m) =
     (if k < k' then (k, v) # (k', v') # m
      else if k = k' then (k, v) # m
      else (k', v') # sm_put k v m)"

definition sm_erase :: "'k \<Rightarrow> ('k, 'v) smap \<Rightarrow> ('k, 'v) smap" where
  "sm_erase k m = filter (\<lambda>e. fst e \<noteq> k) m"

definition sm_find :: "('k, 'v) smap \<Rightarrow> 'k \<Rightarrow> 'v option" where
  "sm_find m k = map_of m k"

definition sm_has :: "('k, 'v) smap \<Rightarrow> 'k \<Rightarrow> bool" where
  "sm_has m k \<longleftrightarrow> sm_find m k \<noteq> None"

text \<open>\<^verbatim>\<open>operator[]\<close> on the right of an assignment inserts a default value when the key is absent.\<close>

definition sm_touch :: "'v \<Rightarrow> 'k::linorder \<Rightarrow> ('k, 'v) smap \<Rightarrow> ('k, 'v) smap" where
  "sm_touch d k m = (if sm_has m k then m else sm_put k d m)"

text \<open>Updating the value a reference or iterator points at: only if the key is present.\<close>

definition sm_adjust :: "'k \<Rightarrow> ('v \<Rightarrow> 'v) \<Rightarrow> ('k, 'v) smap \<Rightarrow> ('k, 'v) smap" where
  "sm_adjust k f m = map (\<lambda>(k', v). (k', if k' = k then f v else v)) m"

definition sm_ok :: "('k::linorder, 'v) smap \<Rightarrow> bool" where
  "sm_ok m \<longleftrightarrow> sorted_wrt (<) (map fst m)"

lemma sm_ok_Nil [simp, wf_intros]: "sm_ok []"
  by (simp add: sm_ok_def)

lemma sm_ok_Cons [simp]: "sm_ok ((k, v) # m) \<longleftrightarrow> (\<forall>e \<in> set m. k < fst e) \<and> sm_ok m"
  by (simp add: sm_ok_def)

lemma sm_find_Nil [simp, smap_simps]: "sm_find [] k = None"
  by (simp add: sm_find_def)

lemma sm_find_put [simp, smap_simps]:
  "sm_find (sm_put k v m) k' = (if k' = k then Some v else sm_find m k')"
  unfolding sm_find_def by (induction m) auto

lemma sm_find_erase [simp, smap_simps]:
  "sm_find (sm_erase k m) k' = (if k' = k then None else sm_find m k')"
  unfolding sm_find_def sm_erase_def by (induction m) auto

lemma sm_find_adjust [simp, smap_simps]:
  "sm_find (sm_adjust k f m) k' =
     (if k' = k then map_option f (sm_find m k') else sm_find m k')"
  unfolding sm_find_def sm_adjust_def by (induction m) auto

lemma sm_find_touch [simp, smap_simps]:
  "sm_find (sm_touch d k m) k' =
     (if k' = k \<and> sm_find m k = None then Some d else sm_find m k')"
  by (auto simp: sm_touch_def sm_has_def)

lemma sm_has_simps [simp, smap_simps]:
  "\<not> sm_has [] k'"
  "sm_has (sm_put k v m) k' \<longleftrightarrow> k' = k \<or> sm_has m k'"
  "sm_has (sm_erase k m) k' \<longleftrightarrow> k' \<noteq> k \<and> sm_has m k'"
  "sm_has (sm_adjust k f m) k' \<longleftrightarrow> sm_has m k'"
  "sm_has (sm_touch d k m) k' \<longleftrightarrow> k' = k \<or> sm_has m k'"
  by (auto simp: sm_has_def)

lemma set_sm_put: "set (sm_put k v m) \<subseteq> insert (k, v) (set m)"
  by (induction m) (auto split: if_splits)

lemma sm_ok_put [simp, wf_intros]: "sm_ok m \<Longrightarrow> sm_ok (sm_put k v m)"
proof (induction m)
  case (Cons e m)
  obtain k' v' where e: "e = (k', v')" by (cases e)
  show ?case
  proof (cases "k < k'")
    case True
    with Cons.prems show ?thesis by (auto simp: e)
  next
    case False
    have "\<forall>x \<in> set (sm_put k v m). k' < fst x" if "k' < k"
      using that Cons.prems set_sm_put [of k v m] by (auto simp: e)
    with False Cons show ?thesis by (auto simp: e)
  qed
qed simp

lemma sm_ok_erase [simp, wf_intros]: "sm_ok m \<Longrightarrow> sm_ok (sm_erase k m)"
  by (induction m) (auto simp: sm_erase_def)

lemma sm_ok_adjust [simp, wf_intros]: "sm_ok m \<Longrightarrow> sm_ok (sm_adjust k f m)"
  by (simp add: sm_ok_def sm_adjust_def case_prod_beta comp_def)

lemma sm_ok_touch [simp, wf_intros]: "sm_ok m \<Longrightarrow> sm_ok (sm_touch d k m)"
  by (simp add: sm_touch_def)

lemma sm_ok_distinct: "sm_ok m \<Longrightarrow> distinct (map fst m)"
  by (simp add: sm_ok_def strict_sorted_iff)

lemma sm_find_in_set: "sm_find m k = Some v \<Longrightarrow> (k, v) \<in> set m"
  unfolding sm_find_def by (rule map_of_SomeD)

lemma sm_find_iff: "sm_ok m \<Longrightarrow> sm_find m k = Some v \<longleftrightarrow> (k, v) \<in> set m"
  unfolding sm_find_def by (simp add: sm_ok_distinct)

lemma sm_has_iff_key: "sm_has m k \<longleftrightarrow> k \<in> fst ` set m"
  by (simp add: sm_has_def sm_find_def map_of_eq_None_iff)

lemma fst_set_sm_put [simp]: "fst ` set (sm_put k v m) = insert k (fst ` set m)"
  using sm_has_simps(2) [of k v m] by (auto simp: sm_has_iff_key set_eq_iff)

lemma sm_has_set: "(k, v) \<in> set m \<Longrightarrow> sm_has m k"
  by (force simp: sm_has_iff_key)

lemma length_sm_put: "length (sm_put k v m) = (if sm_has m k then length m else Suc (length m))"
  if "sm_ok m"
  using that
proof (induction m)
  case (Cons e m)
  obtain k' v' where e: "e = (k', v')" by (cases e)
  with Cons.prems have "k < k' \<Longrightarrow> \<not> sm_has m k" by (fastforce simp: sm_has_iff_key)
  with Cons e show ?case by (auto simp: sm_has_def sm_find_def)
qed simp

lemma sm_put_nonempty [simp]: "sm_put k v m \<noteq> []"
  by (cases m) (auto split: if_splits)

lemma sm_erase_absent [simp]: "\<not> sm_has m k \<Longrightarrow> sm_erase k m = m"
  unfolding sm_erase_def sm_has_iff_key by (rule filter_True) force

text \<open>Totals over the values of a map.\<close>

definition sm_total :: "('v \<Rightarrow> nat) \<Rightarrow> ('k, 'v) smap \<Rightarrow> nat" where
  "sm_total f m = sum_list (map (f \<circ> snd) m)"

definition sm_share :: "('v \<Rightarrow> nat) \<Rightarrow> ('k, 'v) smap \<Rightarrow> 'k \<Rightarrow> nat" where
  "sm_share f m k = (case sm_find m k of None \<Rightarrow> 0 | Some v \<Rightarrow> f v)"

lemma sm_total_Nil [simp]: "sm_total f [] = 0"
  by (simp add: sm_total_def)

lemma sm_total_Cons [simp]: "sm_total f ((k, v) # m) = f v + sm_total f m"
  by (simp add: sm_total_def)

lemma sm_share_above: "\<forall>e \<in> set m. k < fst e \<Longrightarrow> sm_share f m (k :: 'k::linorder) = 0"
proof -
  assume "\<forall>e \<in> set m. k < fst e"
  then have "\<not> sm_has m k" by (force simp: sm_has_iff_key)
  then show ?thesis by (simp add: sm_share_def sm_has_def)
qed

lemma sm_share_Cons [simp]: "sm_share f ((k', v) # m) k = (if k' = k then f v else sm_share f m k)"
  by (simp add: sm_share_def sm_find_def)

lemma sm_total_put: "sm_ok m \<Longrightarrow> sm_total f (sm_put k v m) + sm_share f m k = sm_total f m + f v"
proof (induction m)
  case (Cons e m)
  obtain k' v' where e: "e = (k', v')" by (cases e)
  show ?case
  proof (cases "k < k'")
    case True
    with Cons.prems have "\<forall>x \<in> set m. k < fst x" by (auto simp: e)
    with True show ?thesis using sm_share_above [of m k f] by (auto simp: e)
  next
    case False
    with Cons show ?thesis by (auto simp: e)
  qed
qed (simp add: sm_share_def)

lemma sm_total_erase: "sm_ok m \<Longrightarrow> sm_total f (sm_erase k m) + sm_share f m k = sm_total f m"
proof (induction m)
  case (Cons e m)
  obtain k' v' where e: "e = (k', v')" by (cases e)
  have "sm_erase k m = m" if "k = k'"
    using that Cons.prems by (auto simp: e sm_erase_def filter_id_conv)
  then show ?case using Cons by (auto simp: e sm_erase_def)
qed (simp add: sm_share_def sm_erase_def)

lemma sm_share_Some: "sm_find m k = Some v \<Longrightarrow> sm_share f m k = f v"
  by (simp add: sm_share_def)

lemma sm_share_None: "\<not> sm_has m k \<Longrightarrow> sm_share f m k = 0"
  by (simp add: sm_share_def sm_has_def)

section \<open>The contract of an ordered dictionary\<close>

text \<open>
  What a client of \<^verbatim>\<open>std::map\<close> relies on: what \<^verbatim>\<open>find\<close> returns after a write or an erase, that
  the nodes are exactly the stored pairs, and that they are visited in key order. The
  counting lemmas are proved once here; they carry the size limits the managers enforce by
  walking a whole map.
\<close>

locale ordered_map =
  fixes find :: "'m \<Rightarrow> 'k::linorder \<Rightarrow> 'v option"
    and put :: "'k \<Rightarrow> 'v \<Rightarrow> 'm \<Rightarrow> 'm"
    and erase :: "'k \<Rightarrow> 'm \<Rightarrow> 'm"
    and nodes :: "'m \<Rightarrow> ('k \<times> 'v) list"
    and ok :: "'m \<Rightarrow> bool"
  assumes find_put: "find (put k v m) k' = (if k' = k then Some v else find m k')"
    and find_erase: "find (erase k m) k' = (if k' = k then None else find m k')"
    and nodes_iff: "ok m \<Longrightarrow> (k, v) \<in> set (nodes m) \<longleftrightarrow> find m k = Some v"
    and nodes_sorted: "ok m \<Longrightarrow> sorted_wrt (<) (map fst (nodes m))"
    and ok_put: "ok m \<Longrightarrow> ok (put k v m)"
    and ok_erase: "ok m \<Longrightarrow> ok (erase k m)"
begin

definition hits :: "('v \<Rightarrow> bool) \<Rightarrow> 'm \<Rightarrow> 'k set" where
  "hits P m = {k. \<exists>v. find m k = Some v \<and> P v}"

lemma distinct_nodes: "ok m \<Longrightarrow> distinct (map fst (nodes m))"
  using nodes_sorted by (simp add: strict_sorted_iff)

lemma hits_nodes: "ok m \<Longrightarrow> hits P m = fst ` set (filter (P \<circ> snd) (nodes m))"
  using nodes_iff by (force simp: hits_def)

lemma finite_hits: "ok m \<Longrightarrow> finite (hits P m)"
  by (simp add: hits_nodes)

lemma count_hits: "ok m \<Longrightarrow> length (filter (P \<circ> snd) (nodes m)) = card (hits P m)"
  by (metis distinct_card distinct_nodes distinct_map_filter hits_nodes length_map set_map)

lemma hits_put: "hits P (put k v m) = (if P v then insert k (hits P m) else hits P m - {k})"
  by (auto simp: hits_def find_put split: if_splits)

lemma hits_erase: "hits P (erase k m) = hits P m - {k}"
  by (auto simp: hits_def find_erase split: if_splits)

text \<open>Writing one node moves the count of nodes with a property by at most one.\<close>

lemma count_put:
  assumes "ok m"
  shows "length (filter (P \<circ> snd) (nodes (put k v m))) =
     (if P v then (if k \<in> hits P m then card (hits P m) else Suc (card (hits P m)))
      else card (hits P m - {k}))"
  using assms finite_hits [of m P]
  by (simp add: count_hits ok_put hits_put card_insert_if)

lemma count_put_le:
  assumes "ok m"
  shows "length (filter (P \<circ> snd) (nodes (put k v m))) \<le> Suc (length (filter (P \<circ> snd) (nodes m)))"
proof -
  have "card (hits P m - {k}) \<le> card (hits P m)"
    using finite_hits [OF assms] by (intro card_mono) auto
  with assms show ?thesis by (simp add: count_put count_hits)
qed

lemma count_erase_le:
  assumes "ok m"
  shows "length (filter (P \<circ> snd) (nodes (erase k m))) \<le> length (filter (P \<circ> snd) (nodes m))"
  using assms finite_hits [OF assms, of P]
  by (simp add: count_hits ok_erase hits_erase card_mono)

end

lemma sm_find_nodes: "sm_ok m \<Longrightarrow> (k, v) \<in> set m \<longleftrightarrow> sm_find m k = Some v"
  by (simp add: sm_find_iff)

interpretation sm: ordered_map sm_find sm_put sm_erase "\<lambda>m. m" sm_ok
  by unfold_locales (auto simp: sm_find_iff, simp_all add: sm_ok_def [symmetric])

section \<open>State machines and their invariants\<close>

text \<open>
  A component with several operations is a step relation. The rule every component uses:
  what holds at the start and is kept by each step holds in all reachable states; the
  extended contract adds a quantity that no step increases.
\<close>

locale machine =
  fixes init :: "'s \<Rightarrow> bool"
    and step :: "'s \<Rightarrow> 's \<Rightarrow> bool"
    and inv :: "'s \<Rightarrow> bool"
  assumes inv_init: "init s \<Longrightarrow> inv s"
    and inv_step: "step s t \<Longrightarrow> inv s \<Longrightarrow> inv t"
begin

lemma inv_steps: "rtranclp step s t \<Longrightarrow> inv s \<Longrightarrow> inv t"
  by (induction rule: rtranclp_induct) (auto intro: inv_step)

lemma inv_reachable: "init s \<Longrightarrow> rtranclp step s t \<Longrightarrow> inv t"
  by (blast intro: inv_init inv_steps)

end

locale metered_machine = machine +
  fixes meter :: "'s \<Rightarrow> 'n::order"
  assumes meter_step: "step s t \<Longrightarrow> inv s \<Longrightarrow> meter t \<le> meter s"
begin

lemma meter_steps: "rtranclp step s t \<Longrightarrow> inv s \<Longrightarrow> meter t \<le> meter s"
proof (induction rule: rtranclp_induct)
  case (step t u)
  then have "inv t" by (blast intro: inv_steps)
  with step show ?case by (blast intro: meter_step order_trans)
qed simp

end

end
