(* ===== verification/Wire.thy ===== *)
theory Wire
  imports Prelude
begin

text \<open>
  \<^verbatim>\<open>src/shared/ByteBuffer.h\<close>: the packet buffer every opcode handler reads from and writes
  to. The state is the read cursor, the write cursor and the storage; reads past the end
  throw, a write into an overgrown buffer throws, and an access outside the storage is
  undefined behaviour. \<^verbatim>\<open>size_t\<close> is 64 bits wide, so the bound checks add modulo
  \<open>2 ^ 64\<close>. \<^verbatim>\<open>EndianConvert\<close> is the identity on the little-endian build that is modelled.
  The interface at the end (\<open>codec\<close>) is what the stream operators of one type promise;
  the operators on vectors, lists and maps are verified against it.
\<close>

section \<open>State\<close>

datatype bb_error =
    ByteBufferException bool nat nat nat \<comment> \<open>add, pos, esize, size\<close>
  | AssertFailed

record byte_buffer =
  bb_rpos :: nat
  bb_wpos :: nat
  bb_storage :: "u8 list"

type_synonym 'a bb_res = "(bb_error, 'a) outcome"

abbreviation bb_size :: "byte_buffer \<Rightarrow> nat" where
  "bb_size b \<equiv> length (bb_storage b)"

definition bb_new :: byte_buffer where
  "bb_new = \<lparr>bb_rpos = 0, bb_wpos = 0, bb_storage = []\<rparr>"

definition bb_clear :: "byte_buffer \<Rightarrow> byte_buffer" where
  "bb_clear b = b\<lparr>bb_storage := [], bb_rpos := 0, bb_wpos := 0\<rparr>"

definition bb_set_rpos :: "nat \<Rightarrow> byte_buffer \<Rightarrow> byte_buffer" where
  "bb_set_rpos r b = b\<lparr>bb_rpos := r\<rparr>"

definition bb_set_wpos :: "nat \<Rightarrow> byte_buffer \<Rightarrow> byte_buffer" where
  "bb_set_wpos w b = b\<lparr>bb_wpos := w\<rparr>"

definition bb_rfinish :: "byte_buffer \<Rightarrow> byte_buffer" where
  "bb_rfinish b = b\<lparr>bb_rpos := bb_wpos b\<rparr>"

text \<open>\<^verbatim>\<open>size_t\<close> addition.\<close>

definition add64 :: "nat \<Rightarrow> nat \<Rightarrow> nat" where
  "add64 m n = (m + n) mod 2 ^ 64"

section \<open>Integers as bytes\<close>

fun le_bytes :: "nat \<Rightarrow> nat \<Rightarrow> u8 list" where
  "le_bytes 0 x = []"
| "le_bytes (Suc n) x = word_of_nat x # le_bytes n (x div 256)"

fun le_val :: "u8 list \<Rightarrow> nat" where
  "le_val [] = 0"
| "le_val (b # bs) = unat b + 256 * le_val bs"

lemma length_le_bytes [simp]: "length (le_bytes n x) = n"
  by (induction n arbitrary: x) auto

lemma le_val_le_bytes: "le_val (le_bytes n x) = x mod 256 ^ n"
proof (induction n arbitrary: x)
  case (Suc n)
  have "x mod 256 ^ Suc n = x mod 256 + 256 * (x div 256 mod 256 ^ n)"
    by (metis add.commute mod_mult2_eq power_Suc)
  with Suc show ?case by (simp add: unat_of_nat)
qed simp

lemma le_val_less: "le_val bs < 256 ^ length bs"
proof (induction bs)
  case (Cons b bs)
  have "unat b < 256" by (rule unat_u8_less)
  moreover from Cons have "256 * le_val bs + 256 \<le> 256 * 256 ^ length bs" by simp
  ultimately have "unat b + 256 * le_val bs < 256 * 256 ^ length bs" by linarith
  then show ?case by simp
qed simp

section \<open>Reading\<close>

definition bb_read_skip :: "nat \<Rightarrow> byte_buffer \<Rightarrow> byte_buffer bb_res" where
  "bb_read_skip skip b =
     (if add64 (bb_rpos b) skip > bb_size b
      then Throw (ByteBufferException False (bb_rpos b) skip (bb_size b))
      else Ok (b\<lparr>bb_rpos := add64 (bb_rpos b) skip\<rparr>))"

text \<open>The bytes \<open>[pos, pos + n)\<close> of the storage; outside it the access is undefined.\<close>

definition bb_slice :: "nat \<Rightarrow> nat \<Rightarrow> byte_buffer \<Rightarrow> (u8 list) bb_res" where
  "bb_slice pos n b =
     (if pos + n \<le> bb_size b then Ok (take n (drop pos (bb_storage b))) else Undefined)"

definition bb_read_at :: "nat \<Rightarrow> nat \<Rightarrow> byte_buffer \<Rightarrow> nat bb_res" where
  "bb_read_at pos n b =
     (if add64 pos n > bb_size b
      then Throw (ByteBufferException False pos n (bb_size b))
      else obind (bb_slice pos n b) (\<lambda>bs. Ok (le_val bs)))"

definition bb_read :: "nat \<Rightarrow> byte_buffer \<Rightarrow> (nat \<times> byte_buffer) bb_res" where
  "bb_read n b =
     obind (bb_read_at (bb_rpos b) n b)
       (\<lambda>r. Ok (r, b\<lparr>bb_rpos := add64 (bb_rpos b) n\<rparr>))"

definition bb_read_bytes :: "nat \<Rightarrow> byte_buffer \<Rightarrow> (u8 list \<times> byte_buffer) bb_res" where
  "bb_read_bytes len b =
     (if add64 (bb_rpos b) len > bb_size b
      then Throw (ByteBufferException False (bb_rpos b) len (bb_size b))
      else obind (bb_slice (bb_rpos b) len b)
             (\<lambda>bs. Ok (bs, b\<lparr>bb_rpos := add64 (bb_rpos b) len\<rparr>)))"

definition bb_get_u8 :: "byte_buffer \<Rightarrow> (u8 \<times> byte_buffer) bb_res" where
  "bb_get_u8 b = obind (bb_read 1 b) (\<lambda>(r, b'). Ok (word_of_nat r, b'))"

definition bb_get_u16 :: "byte_buffer \<Rightarrow> (u16 \<times> byte_buffer) bb_res" where
  "bb_get_u16 b = obind (bb_read 2 b) (\<lambda>(r, b'). Ok (word_of_nat r, b'))"

definition bb_get_u32 :: "byte_buffer \<Rightarrow> (u32 \<times> byte_buffer) bb_res" where
  "bb_get_u32 b = obind (bb_read 4 b) (\<lambda>(r, b'). Ok (word_of_nat r, b'))"

definition bb_get_u64 :: "byte_buffer \<Rightarrow> (u64 \<times> byte_buffer) bb_res" where
  "bb_get_u64 b = obind (bb_read 8 b) (\<lambda>(r, b'). Ok (word_of_nat r, b'))"

text \<open>\<^verbatim>\<open>read<char>() > 0\<close>: \<^verbatim>\<open>char\<close> is signed, so a byte from 128 up reads as false.\<close>

definition bb_get_bool :: "byte_buffer \<Rightarrow> (bool \<times> byte_buffer) bb_res" where
  "bb_get_bool b = obind (bb_get_u8 b) (\<lambda>(c, b'). Ok (0 < sint c, b'))"

definition bb_index :: "nat \<Rightarrow> byte_buffer \<Rightarrow> u8 bb_res" where
  "bb_index pos b = obind (bb_read_at pos 1 b) (\<lambda>r. Ok (word_of_nat r))"

text \<open>
  The string operator reads characters while the cursor is inside the storage and stops at
  the terminator; the characters read so far are the accumulator.
\<close>

function bb_get_chars :: "u8 list \<Rightarrow> byte_buffer \<Rightarrow> (u8 list \<times> byte_buffer) bb_res" where
  "bb_get_chars acc b =
     (if bb_rpos b < bb_size b
      then let c = bb_storage b ! bb_rpos b;
               b' = b\<lparr>bb_rpos := Suc (bb_rpos b)\<rparr>
           in if c = 0 then Ok (acc, b') else bb_get_chars (acc @ [c]) b'
      else Ok (acc, b))"
  by pat_completeness auto
termination
  by (relation "measure (\<lambda>(acc, b). bb_size b - bb_rpos b)") auto

declare bb_get_chars.simps [simp del]

definition bb_get_string :: "byte_buffer \<Rightarrow> (u8 list \<times> byte_buffer) bb_res" where
  "bb_get_string b = bb_get_chars [] b"

definition bb_skip_string :: "byte_buffer \<Rightarrow> byte_buffer bb_res" where
  "bb_skip_string b = obind (bb_get_string b) (\<lambda>(_, b'). Ok b')"

text \<open>The eight mark bits of a packed guid, lowest first.\<close>

fun bb_pack_loop :: "nat list \<Rightarrow> u8 \<Rightarrow> u64 \<Rightarrow> byte_buffer \<Rightarrow> (u64 \<times> byte_buffer) bb_res" where
  "bb_pack_loop [] guidmark guid b = Ok (guid, b)"
| "bb_pack_loop (i # is) guidmark guid b =
     (if guidmark AND push_bit i 1 \<noteq> 0
      then obind (bb_get_u8 b)
             (\<lambda>(bit, b'). bb_pack_loop is guidmark (guid OR push_bit (i * 8) (ucast bit)) b')
      else bb_pack_loop is guidmark guid b)"

definition bb_readPackGUID :: "byte_buffer \<Rightarrow> (u64 \<times> byte_buffer) bb_res" where
  "bb_readPackGUID b =
     obind (bb_get_u8 b) (\<lambda>(guidmark, b'). bb_pack_loop [0..<8] guidmark 0 b')"

section \<open>Writing\<close>

text \<open>\<^verbatim>\<open>std::vector::resize\<close>: cut, or filled up with zeros.\<close>

definition bb_resized :: "nat \<Rightarrow> u8 list \<Rightarrow> u8 list" where
  "bb_resized n st = take n st @ replicate (n - length st) 0"

definition bb_resize :: "nat \<Rightarrow> byte_buffer \<Rightarrow> byte_buffer" where
  "bb_resize newsize b =
     (let st = bb_resized newsize (bb_storage b)
      in b\<lparr>bb_storage := st, bb_rpos := 0, bb_wpos := length st\<rparr>)"

text \<open>\<^verbatim>\<open>memcpy\<close> of \<open>src\<close> to position \<open>pos\<close> of the storage.\<close>

definition bb_memcpy :: "nat \<Rightarrow> u8 list \<Rightarrow> u8 list \<Rightarrow> (u8 list) bb_res" where
  "bb_memcpy pos src st =
     (if pos + length src \<le> length st
      then Ok (take pos st @ src @ drop (pos + length src) st) else Undefined)"

definition bb_append :: "u8 list \<Rightarrow> byte_buffer \<Rightarrow> byte_buffer bb_res" where
  "bb_append src b =
     (if src = [] then Ok b
      else if \<not> bb_size b < 10000000 then Throw AssertFailed
      else let need = add64 (bb_wpos b) (length src);
               st = (if bb_size b < need then bb_resized need (bb_storage b) else bb_storage b)
           in obind (bb_memcpy (bb_wpos b) src st)
                (\<lambda>st'. Ok (b\<lparr>bb_storage := st', bb_wpos := need\<rparr>)))"

definition bb_put_at :: "nat \<Rightarrow> u8 list \<Rightarrow> byte_buffer \<Rightarrow> byte_buffer bb_res" where
  "bb_put_at pos src b =
     (if add64 pos (length src) > bb_size b
      then Throw (ByteBufferException True pos (length src) (bb_size b))
      else obind (bb_memcpy pos src (bb_storage b)) (\<lambda>st'. Ok (b\<lparr>bb_storage := st'\<rparr>)))"

definition bb_put_at_u32 :: "nat \<Rightarrow> u32 \<Rightarrow> byte_buffer \<Rightarrow> byte_buffer bb_res" where
  "bb_put_at_u32 pos v b = bb_put_at pos (le_bytes 4 (unat v)) b"

definition bb_put_u8 :: "u8 \<Rightarrow> byte_buffer \<Rightarrow> byte_buffer bb_res" where
  "bb_put_u8 v b = bb_append (le_bytes 1 (unat v)) b"

definition bb_put_u16 :: "u16 \<Rightarrow> byte_buffer \<Rightarrow> byte_buffer bb_res" where
  "bb_put_u16 v b = bb_append (le_bytes 2 (unat v)) b"

definition bb_put_u32 :: "u32 \<Rightarrow> byte_buffer \<Rightarrow> byte_buffer bb_res" where
  "bb_put_u32 v b = bb_append (le_bytes 4 (unat v)) b"

definition bb_put_u64 :: "u64 \<Rightarrow> byte_buffer \<Rightarrow> byte_buffer bb_res" where
  "bb_put_u64 v b = bb_append (le_bytes 8 (unat v)) b"

definition bb_put_bool :: "bool \<Rightarrow> byte_buffer \<Rightarrow> byte_buffer bb_res" where
  "bb_put_bool v b = bb_append [if v then 1 else 0] b"

text \<open>The characters of a \<^verbatim>\<open>std::string\<close>, then the terminator, in two appends.\<close>

definition bb_put_string :: "u8 list \<Rightarrow> byte_buffer \<Rightarrow> byte_buffer bb_res" where
  "bb_put_string str b = obind (bb_append str b) (bb_append [0])"

definition bb_append_string :: "u8 list \<Rightarrow> byte_buffer \<Rightarrow> byte_buffer bb_res" where
  "bb_append_string str b = bb_append (str @ [0]) b"

definition bb_append_buffer :: "byte_buffer \<Rightarrow> byte_buffer \<Rightarrow> byte_buffer bb_res" where
  "bb_append_buffer buffer b =
     (if bb_wpos buffer \<noteq> 0
      then obind (bb_slice 0 (bb_wpos buffer) buffer) (\<lambda>src. bb_append src b)
      else Ok b)"

text \<open>
  The packing loop of \<^verbatim>\<open>appendPackGUID\<close>: byte \<open>i\<close> of what is left of the guid is stored, and
  marked, when it is not zero. The result is the mark byte and the stored bytes.
\<close>

function bb_guid_loop :: "nat \<Rightarrow> u64 \<Rightarrow> u8 \<Rightarrow> u8 list \<Rightarrow> u8 \<times> u8 list" where
  "bb_guid_loop i guid mark bytes =
     (if guid = 0 then (mark, bytes)
      else if guid AND 255 \<noteq> 0
      then bb_guid_loop (Suc i) (drop_bit 8 guid) (mark OR push_bit i 1) (bytes @ [ucast (guid AND 255)])
      else bb_guid_loop (Suc i) (drop_bit 8 guid) mark bytes)"
  by pat_completeness auto

lemma drop_bit_8_decreases:
  assumes "(guid :: u64) \<noteq> 0"
  shows "unat (drop_bit 8 guid) < unat guid"
proof -
  have "unat (drop_bit 8 guid) = unat guid div 256"
    by (simp add: drop_bit_eq_div unat_div)
  moreover have "0 < unat guid" using assms by (simp add: unat_gt_0)
  ultimately show ?thesis by simp
qed

termination bb_guid_loop
  by (relation "measure (\<lambda>(i, guid, mark, bytes). unat guid)")
     (auto simp: drop_bit_8_decreases)

declare bb_guid_loop.simps [simp del]

definition bb_appendPackGUID :: "u64 \<Rightarrow> byte_buffer \<Rightarrow> byte_buffer bb_res" where
  "bb_appendPackGUID guid b =
     (case bb_guid_loop 0 guid 0 [] of (mark, bytes) \<Rightarrow> bb_append (mark # bytes) b)"

section \<open>Containers on the wire\<close>

fun bb_put_all :: "('a \<Rightarrow> byte_buffer \<Rightarrow> byte_buffer bb_res) \<Rightarrow> 'a list \<Rightarrow> byte_buffer \<Rightarrow> byte_buffer bb_res" where
  "bb_put_all put [] b = Ok b"
| "bb_put_all put (x # xs) b = obind (put x b) (bb_put_all put xs)"

definition bb_put_list :: "('a \<Rightarrow> byte_buffer \<Rightarrow> byte_buffer bb_res) \<Rightarrow> 'a list \<Rightarrow> byte_buffer \<Rightarrow> byte_buffer bb_res" where
  "bb_put_list put v b = obind (bb_put_u32 (word_of_nat (length v)) b) (bb_put_all put v)"

fun bb_get_all :: "(byte_buffer \<Rightarrow> ('a \<times> byte_buffer) bb_res) \<Rightarrow> nat \<Rightarrow> 'a list \<Rightarrow> byte_buffer \<Rightarrow> ('a list \<times> byte_buffer) bb_res" where
  "bb_get_all get 0 acc b = Ok (acc, b)"
| "bb_get_all get (Suc n) acc b = obind (get b) (\<lambda>(x, b'). bb_get_all get n (acc @ [x]) b')"

definition bb_get_list :: "(byte_buffer \<Rightarrow> ('a \<times> byte_buffer) bb_res) \<Rightarrow> byte_buffer \<Rightarrow> ('a list \<times> byte_buffer) bb_res" where
  "bb_get_list get b = obind (bb_get_u32 b) (\<lambda>(vsize, b'). bb_get_all get (unat vsize) [] b')"

definition bb_put_pair :: "('k \<Rightarrow> byte_buffer \<Rightarrow> byte_buffer bb_res) \<Rightarrow> ('v \<Rightarrow> byte_buffer \<Rightarrow> byte_buffer bb_res) \<Rightarrow> 'k \<times> 'v \<Rightarrow> byte_buffer \<Rightarrow> byte_buffer bb_res" where
  "bb_put_pair putk putv e b = obind (putk (fst e) b) (putv (snd e))"

definition bb_put_map :: "('k \<Rightarrow> byte_buffer \<Rightarrow> byte_buffer bb_res) \<Rightarrow> ('v \<Rightarrow> byte_buffer \<Rightarrow> byte_buffer bb_res) \<Rightarrow> ('k, 'v) smap \<Rightarrow> byte_buffer \<Rightarrow> byte_buffer bb_res" where
  "bb_put_map putk putv m b = obind (bb_put_u32 (word_of_nat (length m)) b) (bb_put_all (bb_put_pair putk putv) m)"

text \<open>\<^verbatim>\<open>std::map::insert\<close> leaves a present key alone.\<close>

fun bb_get_entries :: "(byte_buffer \<Rightarrow> ('k::linorder \<times> byte_buffer) bb_res) \<Rightarrow> (byte_buffer \<Rightarrow> ('v \<times> byte_buffer) bb_res) \<Rightarrow> nat \<Rightarrow> ('k, 'v) smap \<Rightarrow> byte_buffer \<Rightarrow> (('k, 'v) smap \<times> byte_buffer) bb_res" where
  "bb_get_entries getk getv 0 m b = Ok (m, b)"
| "bb_get_entries getk getv (Suc n) m b =
     obind (getk b) (\<lambda>(k, b1). obind (getv b1) (\<lambda>(v, b2). bb_get_entries getk getv n (sm_touch v k m) b2))"

definition bb_get_map :: "(byte_buffer \<Rightarrow> ('k::linorder \<times> byte_buffer) bb_res) \<Rightarrow> (byte_buffer \<Rightarrow> ('v \<times> byte_buffer) bb_res) \<Rightarrow> byte_buffer \<Rightarrow> (('k, 'v) smap \<times> byte_buffer) bb_res" where
  "bb_get_map getk getv b = obind (bb_get_u32 b) (\<lambda>(msize, b'). bb_get_entries getk getv (unat msize) [] b')"

section \<open>Bound checks\<close>

text \<open>
  A cursor inside a storage that fits in half the address space: what every packet built or
  received by the server satisfies.
\<close>

definition bb_cursor_ok :: "byte_buffer \<Rightarrow> bool" where
  "bb_cursor_ok b \<longleftrightarrow> bb_rpos b \<le> bb_size b \<and> bb_size b < 2 ^ 63"

abbreviation bb_unread :: "byte_buffer \<Rightarrow> u8 list" where
  "bb_unread b \<equiv> drop (bb_rpos b) (bb_storage b)"

abbreviation bb_advance :: "nat \<Rightarrow> byte_buffer \<Rightarrow> byte_buffer" where
  "bb_advance n b \<equiv> b\<lparr>bb_rpos := bb_rpos b + n\<rparr>"

lemma add64_id [simp]: "m + n < 2 ^ 64 \<Longrightarrow> add64 m n = m + n"
  by (simp add: add64_def)

lemma bb_read_at_simps:
  assumes "pos + n < 2 ^ 64"
  shows "bb_read_at pos n b =
     (if pos + n \<le> bb_size b then Ok (le_val (take n (drop pos (bb_storage b))))
      else Throw (ByteBufferException False pos n (bb_size b)))"
  using assms by (simp add: bb_read_at_def bb_slice_def)

lemma bb_read_simps:
  assumes "bb_rpos b + n < 2 ^ 64"
  shows "bb_read n b =
     (if bb_rpos b + n \<le> bb_size b then Ok (le_val (take n (bb_unread b)), bb_advance n b)
      else Throw (ByteBufferException False (bb_rpos b) n (bb_size b)))"
  using assms by (simp add: bb_read_def bb_read_at_simps)

lemma bb_read_bytes_simps:
  assumes "bb_rpos b + n < 2 ^ 64"
  shows "bb_read_bytes n b =
     (if bb_rpos b + n \<le> bb_size b then Ok (take n (bb_unread b), bb_advance n b)
      else Throw (ByteBufferException False (bb_rpos b) n (bb_size b)))"
  using assms by (simp add: bb_read_bytes_def bb_slice_def)

text \<open>
  A safe reader, from a good cursor, never leaves the storage: it succeeds, with a good
  cursor that has not moved back over an unchanged storage, or it throws.
\<close>

definition bb_safe :: "(byte_buffer \<Rightarrow> ('a \<times> byte_buffer) bb_res) \<Rightarrow> bool" where
  "bb_safe get \<longleftrightarrow> (\<forall>b. bb_cursor_ok b \<longrightarrow>
     get b \<noteq> Undefined \<and>
     (\<forall>x b'. get b = Ok (x, b') \<longrightarrow>
        bb_cursor_ok b' \<and> bb_storage b' = bb_storage b \<and> bb_rpos b \<le> bb_rpos b'))"

named_theorems bb_safe_intros \<open>the readers that are safe, and what keeps them safe\<close>

lemma bb_safe_read [bb_safe_intros]: "n < 2 ^ 63 \<Longrightarrow> bb_safe (bb_read n)"
  by (auto simp: bb_safe_def bb_cursor_ok_def bb_read_simps)

lemma bb_safe_read_bytes [bb_safe_intros]: "n < 2 ^ 63 \<Longrightarrow> bb_safe (bb_read_bytes n)"
  by (auto simp: bb_safe_def bb_cursor_ok_def bb_read_bytes_simps)

lemma bb_safe_return [bb_safe_intros]: "bb_safe (\<lambda>b. Ok (x, b))"
  by (simp add: bb_safe_def)

lemma bb_safe_Ok:
  "bb_safe get \<Longrightarrow> bb_cursor_ok b \<Longrightarrow> get b = Ok (x, b') \<Longrightarrow>
     bb_cursor_ok b' \<and> bb_storage b' = bb_storage b \<and> bb_rpos b \<le> bb_rpos b'"
  unfolding bb_safe_def by blast

lemma bb_safe_not_Undefined: "bb_safe get \<Longrightarrow> bb_cursor_ok b \<Longrightarrow> get b \<noteq> Undefined"
  unfolding bb_safe_def by blast

lemma bb_safeI:
  assumes "\<And>b. bb_cursor_ok b \<Longrightarrow> get b \<noteq> Undefined"
    and "\<And>b x b'. bb_cursor_ok b \<Longrightarrow> get b = Ok (x, b') \<Longrightarrow>
      bb_cursor_ok b' \<and> bb_storage b' = bb_storage b \<and> bb_rpos b \<le> bb_rpos b'"
  shows "bb_safe get"
  using assms unfolding bb_safe_def by blast

lemma bb_safe_bind [bb_safe_intros]:
  assumes f: "bb_safe f" and g: "\<And>x. bb_safe (g x)"
  shows "bb_safe (\<lambda>b. obind (f b) (\<lambda>(x, b'). g x b'))"
proof (rule bb_safeI)
  fix b
  assume b: "bb_cursor_ok b"
  show "obind (f b) (\<lambda>(x, b'). g x b') \<noteq> Undefined"
    using bb_safe_not_Undefined [OF f b] bb_safe_Ok [OF f b] bb_safe_not_Undefined [OF g]
    by (auto simp: obind_Undefined_iff)
next
  fix b y b''
  assume b: "bb_cursor_ok b" and "obind (f b) (\<lambda>(x, b'). g x b') = Ok (y, b'')"
  then obtain x b' where fb: "f b = Ok (x, b')" and gb: "g x b' = Ok (y, b'')"
    by (auto simp: obind_Ok_iff)
  from bb_safe_Ok [OF f b fb] have b': "bb_cursor_ok b'" by simp
  show "bb_cursor_ok b'' \<and> bb_storage b'' = bb_storage b \<and> bb_rpos b \<le> bb_rpos b''"
    using bb_safe_Ok [OF f b fb] bb_safe_Ok [OF g b' gb] by simp
qed

lemma bb_safe_ints [bb_safe_intros]:
  "bb_safe bb_get_u8" "bb_safe bb_get_u16" "bb_safe bb_get_u32" "bb_safe bb_get_u64"
  unfolding bb_get_u8_def bb_get_u16_def bb_get_u32_def bb_get_u64_def
  by (rule bb_safe_bind [OF bb_safe_read bb_safe_return]; simp)+

lemma bb_safe_bool [bb_safe_intros]: "bb_safe bb_get_bool"
  unfolding bb_get_bool_def by (rule bb_safe_intros)+

lemma bb_get_chars_Ok:
  "bb_rpos b \<le> bb_size b \<Longrightarrow> \<exists>s b'. bb_get_chars acc b = Ok (s, b') \<and>
     bb_storage b' = bb_storage b \<and> bb_rpos b \<le> bb_rpos b' \<and> bb_rpos b' \<le> bb_size b"
proof (induction acc b rule: bb_get_chars.induct)
  case (1 acc b)
  show ?case
  proof (cases "bb_rpos b < bb_size b \<and> bb_storage b ! bb_rpos b \<noteq> 0")
    case True
    with "1.IH" [OF _ refl refl]
    obtain s b' where "bb_get_chars (acc @ [bb_storage b ! bb_rpos b]) (b\<lparr>bb_rpos := Suc (bb_rpos b)\<rparr>) = Ok (s, b')"
      "bb_storage b' = bb_storage b" "Suc (bb_rpos b) \<le> bb_rpos b'" "bb_rpos b' \<le> bb_size b"
      by (force simp: Suc_le_eq)
    with True show ?thesis by (simp add: bb_get_chars.simps [of acc b] Let_def)
  next
    case False
    with "1.prems" show ?thesis by (auto simp: bb_get_chars.simps [of acc b] Let_def)
  qed
qed

lemma bb_safe_string [bb_safe_intros]: "bb_safe bb_get_string"
  using bb_get_chars_Ok [of _ "[]"]
  by (fastforce simp: bb_safe_def bb_cursor_ok_def bb_get_string_def)

lemma bb_loops_funs:
  "bb_pack_loop [] mark guid = (\<lambda>b. Ok (guid, b))"
  "bb_pack_loop (i # is) mark guid =
     (if mark AND push_bit i 1 \<noteq> 0
      then \<lambda>b. obind (bb_get_u8 b)
             (\<lambda>(bit, b'). bb_pack_loop is mark (guid OR push_bit (i * 8) (ucast bit)) b')
      else bb_pack_loop is mark guid)"
  "bb_get_all get 0 acc = (\<lambda>b. Ok (acc, b))"
  "bb_get_all get (Suc n) acc = (\<lambda>b. obind (get b) (\<lambda>(x, b'). bb_get_all get n (acc @ [x]) b'))"
  "bb_get_entries getk getv 0 m = (\<lambda>b. Ok (m, b))"
  "bb_get_entries getk getv (Suc n) m =
     (\<lambda>b. obind (getk b) (\<lambda>(k, b1). obind (getv b1) (\<lambda>(v, b2). bb_get_entries getk getv n (sm_touch v k m) b2)))"
  by (simp_all add: fun_eq_iff)

lemma bb_safe_pack_loop [bb_safe_intros]: "bb_safe (bb_pack_loop is mark guid)"
proof (induction "is" arbitrary: guid)
  case (Cons i "is")
  then show ?case unfolding bb_loops_funs by (auto intro!: bb_safe_bind bb_safe_ints)
qed (simp add: bb_loops_funs bb_safe_return)

lemma bb_safe_readPackGUID [bb_safe_intros]: "bb_safe bb_readPackGUID"
  unfolding bb_readPackGUID_def by (intro bb_safe_intros)

lemma bb_safe_get_all [bb_safe_intros]: "bb_safe get \<Longrightarrow> bb_safe (bb_get_all get n acc)"
  by (induction n arbitrary: acc) (auto simp: bb_loops_funs intro!: bb_safe_bind bb_safe_return)

lemma bb_safe_get_list [bb_safe_intros]: "bb_safe get \<Longrightarrow> bb_safe (bb_get_list get)"
  unfolding bb_get_list_def by (intro bb_safe_bind bb_safe_ints bb_safe_get_all)

lemma bb_safe_get_entries [bb_safe_intros]:
  "bb_safe getk \<Longrightarrow> bb_safe getv \<Longrightarrow> bb_safe (bb_get_entries getk getv n m)"
  by (induction n arbitrary: m) (auto simp: bb_loops_funs intro!: bb_safe_bind bb_safe_return)

lemma bb_safe_get_map [bb_safe_intros]:
  "bb_safe getk \<Longrightarrow> bb_safe getv \<Longrightarrow> bb_safe (bb_get_map getk getv)"
  unfolding bb_get_map_def by (intro bb_safe_bind bb_safe_ints bb_safe_get_entries)

section \<open>The contract of a stream operator pair\<close>

text \<open>
  \<open>enc x\<close> is what \<open>put\<close> appends at the end of a buffer with room for it, and what \<open>get\<close>
  consumes, whatever follows. Under this contract the container operators satisfy the
  contract again, so that nesting them round-trips.
\<close>

definition bb_push :: "u8 list \<Rightarrow> byte_buffer \<Rightarrow> byte_buffer" where
  "bb_push bs b = b\<lparr>bb_storage := bb_storage b @ bs, bb_wpos := bb_wpos b + length bs\<rparr>"

definition bb_room :: "nat \<Rightarrow> byte_buffer \<Rightarrow> bool" where
  "bb_room n b \<longleftrightarrow> bb_wpos b = bb_size b \<and> bb_size b + n < 10000000"

lemma bb_push_simps [simp]:
  "bb_rpos (bb_push bs b) = bb_rpos b" "bb_storage (bb_push bs b) = bb_storage b @ bs"
  "bb_wpos (bb_push bs b) = bb_wpos b + length bs"
  "bb_push cs (bb_push bs b) = bb_push (bs @ cs) b" "bb_push [] b = b"
  by (simp_all add: bb_push_def)

lemma bb_room_push: "bb_room (length bs + n) b \<Longrightarrow> bb_room n (bb_push bs b)"
  by (simp add: bb_room_def)

lemma bb_room_mono: "bb_room n b \<Longrightarrow> m \<le> n \<Longrightarrow> bb_room m b"
  by (simp add: bb_room_def)

lemma bb_append_at_end: "bb_room (length src) b \<Longrightarrow> bb_append src b = Ok (bb_push src b)"
  by (auto simp: bb_append_def bb_room_def bb_push_def Let_def bb_resized_def bb_memcpy_def)

lemma bb_unread_advance: "bb_unread b = bs @ r \<Longrightarrow> bb_unread (bb_advance (length bs) b) = r"
  by (metis add.commute append_eq_conv_conj byte_buffer.select_convs(1,3)
      byte_buffer.simps(6) byte_buffer.update_convs(1) byte_buffer.surjective drop_drop)

lemma bb_cursor_advance:
  assumes "bb_cursor_ok b" and "bb_unread b = bs @ r"
  shows "bb_cursor_ok (bb_advance (length bs) b)"
proof -
  have "length (bb_unread b) = length bs + length r" using assms(2) by simp
  with assms(1) show ?thesis by (auto simp: bb_cursor_ok_def)
qed

locale codec =
  fixes enc :: "'a \<Rightarrow> u8 list"
    and good :: "'a \<Rightarrow> bool"
    and put :: "'a \<Rightarrow> byte_buffer \<Rightarrow> byte_buffer bb_res"
    and get :: "byte_buffer \<Rightarrow> ('a \<times> byte_buffer) bb_res"
  assumes put_enc: "bb_room (length (enc x)) b \<Longrightarrow> put x b = Ok (bb_push (enc x) b)"
    and get_enc: "good x \<Longrightarrow> bb_cursor_ok b \<Longrightarrow> bb_unread b = enc x @ r \<Longrightarrow>
      get b = Ok (x, bb_advance (length (enc x)) b)"
begin

definition enc_all :: "'a list \<Rightarrow> u8 list" where
  "enc_all xs = concat (map enc xs)"

lemma put_all: "bb_room (length (enc_all xs)) b \<Longrightarrow> bb_put_all put xs b = Ok (bb_push (enc_all xs) b)"
proof (induction xs arbitrary: b)
  case (Cons x xs)
  from Cons.prems have "bb_room (length (enc x)) b" and
    "bb_room (length (enc_all xs)) (bb_push (enc x) b)"
    by (auto simp: enc_all_def bb_room_def)
  with Cons.IH show ?case by (simp add: put_enc enc_all_def)
qed (simp add: enc_all_def)

lemma get_all:
  "\<forall>x \<in> set xs. good x \<Longrightarrow> bb_cursor_ok b \<Longrightarrow> bb_unread b = enc_all xs @ r \<Longrightarrow>
     bb_get_all get (length xs) acc b = Ok (acc @ xs, bb_advance (length (enc_all xs)) b)"
proof (induction xs arbitrary: b acc)
  case (Cons x xs)
  let ?b = "bb_advance (length (enc x)) b"
  from Cons.prems(3) have u: "bb_unread b = enc x @ (enc_all xs @ r)" by (simp add: enc_all_def)
  have "get b = Ok (x, ?b)" using Cons.prems u by (intro get_enc) auto
  moreover have "bb_get_all get (length xs) (acc @ [x]) ?b =
      Ok ((acc @ [x]) @ xs, bb_advance (length (enc_all xs)) ?b)"
    using Cons.prems bb_unread_advance [OF u] bb_cursor_advance [OF Cons.prems(2) u]
    by (intro Cons.IH) auto
  ultimately show ?case by (simp add: enc_all_def add.assoc)
qed (simp add: enc_all_def)

text \<open>A round trip through a fresh packet, one value or a sequence of them.\<close>

lemma put_get:
  assumes "good x" and "length (enc x) < 10000000"
  shows "obind (put x bb_new) get =
     Ok (x, bb_advance (length (enc x)) (bb_push (enc x) bb_new))"
proof -
  have "put x bb_new = Ok (bb_push (enc x) bb_new)"
    using assms by (intro put_enc) (simp add: bb_room_def bb_new_def)
  moreover have "get (bb_push (enc x) bb_new) =
      Ok (x, bb_advance (length (enc x)) (bb_push (enc x) bb_new))"
    using assms by (intro get_enc [of _ _ "[]"]) (simp_all add: bb_new_def bb_cursor_ok_def)
  ultimately show ?thesis by simp
qed

end

lemma word_of_nat_le_val:
  assumes "bb_cursor_ok b" and "bb_unread b = le_bytes n x @ r" and "n < 2 ^ 62"
  shows "bb_read n b = Ok (x mod 256 ^ n, bb_advance n b)"
proof -
  have "length (bb_unread b) = n + length r" using assms(2) by simp
  with assms(1) have "bb_rpos b + n \<le> bb_size b" "bb_size b < 2 ^ 63"
    by (auto simp: bb_cursor_ok_def)
  with assms(2) show ?thesis by (simp add: bb_read_simps le_val_le_bytes)
qed

lemma bb_get_ints_enc:
  assumes "bb_cursor_ok b"
  shows "bb_unread b = le_bytes 1 (unat v1) @ r \<Longrightarrow> bb_get_u8 b = Ok (v1, bb_advance 1 b)"
    and "bb_unread b = le_bytes 2 (unat v2) @ r \<Longrightarrow> bb_get_u16 b = Ok (v2, bb_advance 2 b)"
    and "bb_unread b = le_bytes 4 (unat v4) @ r \<Longrightarrow> bb_get_u32 b = Ok (v4, bb_advance 4 b)"
    and "bb_unread b = le_bytes 8 (unat v8) @ r \<Longrightarrow> bb_get_u64 b = Ok (v8, bb_advance 8 b)"
  using assms
  by (simp_all add: bb_get_u8_def bb_get_u16_def bb_get_u32_def bb_get_u64_def word_of_nat_le_val
      del: le_bytes.simps)

interpretation u8c: codec "\<lambda>v. le_bytes 1 (unat v)" "\<lambda>_. True" bb_put_u8 bb_get_u8
  by unfold_locales (simp_all add: bb_put_u8_def bb_append_at_end bb_get_ints_enc del: le_bytes.simps)

interpretation u16c: codec "\<lambda>v. le_bytes 2 (unat v)" "\<lambda>_. True" bb_put_u16 bb_get_u16
  by unfold_locales (simp_all add: bb_put_u16_def bb_append_at_end bb_get_ints_enc del: le_bytes.simps)

interpretation u32c: codec "\<lambda>v. le_bytes 4 (unat v)" "\<lambda>_. True" bb_put_u32 bb_get_u32
  by unfold_locales (simp_all add: bb_put_u32_def bb_append_at_end bb_get_ints_enc del: le_bytes.simps)

interpretation u64c: codec "\<lambda>v. le_bytes 8 (unat v)" "\<lambda>_. True" bb_put_u64 bb_get_u64
  by unfold_locales (simp_all add: bb_put_u64_def bb_append_at_end bb_get_ints_enc del: le_bytes.simps)

lemma unat_word_of_nat_u32: "n < 4294967296 \<Longrightarrow> unat (word_of_nat n :: u32) = n"
  by (simp add: unat_of_nat)

lemma bb_get_u32_count:
  assumes "bb_cursor_ok b" and "bb_unread b = le_bytes 4 n @ r" and "n < 4294967296"
  shows "bb_get_u32 b = Ok (word_of_nat n, bb_advance 4 b)"
  using bb_get_ints_enc(3) [OF assms(1), of "word_of_nat n" r] assms
  by (simp add: unat_word_of_nat_u32 del: le_bytes.simps)

lemma bb_put_u32_count:
  "n < 4294967296 \<Longrightarrow> bb_room 4 b \<Longrightarrow> bb_put_u32 (word_of_nat n) b = Ok (bb_push (le_bytes 4 n) b)"
  by (simp add: u32c.put_enc unat_word_of_nat_u32 del: le_bytes.simps)

context codec begin

definition enc_list :: "'a list \<Rightarrow> u8 list" where
  "enc_list xs = le_bytes 4 (length xs mod 4294967296) @ enc_all xs"

definition good_list :: "'a list \<Rightarrow> bool" where
  "good_list xs \<longleftrightarrow> length xs < 4294967296 \<and> (\<forall>x \<in> set xs. good x)"

lemma put_list:
  assumes "bb_room (length (enc_list xs)) b"
  shows "bb_put_list put xs b = Ok (bb_push (enc_list xs) b)"
proof -
  let ?w = "word_of_nat (length xs) :: u32"
  have n: "unat ?w = length xs mod 4294967296" by (simp add: unat_of_nat)
  have "bb_put_u32 ?w b = Ok (bb_push (le_bytes 4 (unat ?w)) b)"
    using assms by (intro u32c.put_enc) (simp add: enc_list_def bb_room_def)
  moreover have "bb_room (length (enc_all xs)) (bb_push (le_bytes 4 (unat ?w)) b)"
    using assms by (simp add: enc_list_def bb_room_def)
  ultimately show ?thesis
    by (simp add: bb_put_list_def put_all enc_list_def n del: le_bytes.simps)
qed

lemma get_list:
  assumes "good_list xs" and "bb_cursor_ok b" and "bb_unread b = enc_list xs @ r"
  shows "bb_get_list get b = Ok (xs, bb_advance (length (enc_list xs)) b)"
proof -
  have n: "length xs < 4294967296" using assms(1) by (simp add: good_list_def)
  let ?h = "le_bytes 4 (length xs)"
  have u: "bb_unread b = ?h @ (enc_all xs @ r)"
    using assms(3) n by (simp add: enc_list_def del: le_bytes.simps)
  have "bb_get_u32 b = Ok (word_of_nat (length xs), bb_advance 4 b)"
    by (rule bb_get_u32_count [OF assms(2) u n])
  moreover have "bb_get_all get (length xs) [] (bb_advance 4 b) =
      Ok ([] @ xs, bb_advance (length (enc_all xs)) (bb_advance 4 b))"
    using assms(1) bb_unread_advance [OF u] bb_cursor_advance [OF assms(2) u]
    by (intro get_all) (simp_all add: good_list_def del: le_bytes.simps)
  ultimately show ?thesis
    using n by (simp add: bb_get_list_def unat_word_of_nat_u32 enc_list_def add.assoc)
qed

lemma codec_list: "codec enc_list good_list (bb_put_list put) (bb_get_list get)"
  by unfold_locales (rule put_list get_list; assumption)+

end

interpretation u32_list: codec u32c.enc_list u32c.good_list "bb_put_list bb_put_u32" "bb_get_list bb_get_u32"
  by (rule u32c.codec_list)

subsection \<open>Strings\<close>

definition enc_string :: "u8 list \<Rightarrow> u8 list" where
  "enc_string str = str @ [0]"

lemma bb_get_chars_enc:
  "0 \<notin> set str \<Longrightarrow> bb_unread b = str @ 0 # r \<Longrightarrow>
     bb_get_chars acc b = Ok (acc @ str, bb_advance (Suc (length str)) b)"
proof (induction str arbitrary: acc b)
  case Nil
  then have "bb_rpos b < bb_size b" "bb_storage b ! bb_rpos b = 0"
    by (metis append_Nil drop_eq_Nil linorder_not_less list.distinct(1),
        metis append_Nil hd_drop_conv_nth drop_eq_Nil linorder_not_less list.distinct(1) list.sel(1))
  then show ?case by (simp add: bb_get_chars.simps [of acc b] Let_def)
next
  case (Cons c str)
  let ?b = "bb_advance 1 b"
  from Cons.prems have b: "bb_rpos b < bb_size b" "bb_storage b ! bb_rpos b = c"
    by (metis append_Cons drop_eq_Nil linorder_not_less list.distinct(1),
        metis append_Cons hd_drop_conv_nth drop_eq_Nil linorder_not_less list.distinct(1) list.sel(1))
  have "bb_unread ?b = str @ 0 # r"
    using Cons.prems(2) bb_unread_advance [of b "[c]" "str @ 0 # r"] by simp
  with Cons have "bb_get_chars (acc @ [c]) ?b = Ok ((acc @ [c]) @ str, bb_advance (Suc (length str)) ?b)"
    by (intro Cons.IH) auto
  with b Cons.prems(1) show ?case by (simp add: bb_get_chars.simps [of acc b] Let_def)
qed

interpretation stringc: codec enc_string "\<lambda>str. 0 \<notin> set str" bb_put_string bb_get_string
proof
  fix x b
  assume "bb_room (length (enc_string x)) b"
  then have "bb_room (length x) b" "bb_room (length [0 :: u8]) (bb_push x b)"
    by (simp_all add: enc_string_def bb_room_def)
  then have "bb_append x b = Ok (bb_push x b)"
    "bb_append [0] (bb_push x b) = Ok (bb_push [0] (bb_push x b))"
    by (blast intro: bb_append_at_end)+
  then show "bb_put_string x b = Ok (bb_push (enc_string x) b)"
    by (simp add: bb_put_string_def enc_string_def)
next
  fix x b r
  assume "0 \<notin> set x" "bb_cursor_ok b" "bb_unread b = enc_string x @ r"
  then show "bb_get_string b = Ok (x, bb_advance (length (enc_string x)) b)"
    using bb_get_chars_enc [of x b r "[]"] by (simp add: bb_get_string_def enc_string_def)
qed

interpretation string_list: codec stringc.enc_list stringc.good_list "bb_put_list bb_put_string" "bb_get_list bb_get_string"
  by (rule stringc.codec_list)

subsection \<open>Packed guids\<close>

definition guid_bytes :: "u64 \<Rightarrow> u8 \<times> u8 list" where
  "guid_bytes guid = bb_guid_loop 0 guid 0 []"

definition enc_guid :: "u64 \<Rightarrow> u8 list" where
  "enc_guid guid = fst (guid_bytes guid) # snd (guid_bytes guid)"

lemma mark_bit: "(mark :: u8) AND push_bit i 1 \<noteq> 0 \<longleftrightarrow> bit mark i"
  by (simp only: bit_iff_and_push_bit_not_eq_0)

lemma bb_pack_loop_none:
  "\<forall>i \<in> set is. \<not> bit mark i \<Longrightarrow> bb_pack_loop is mark acc b = Ok (acc, b)"
proof (induction "is")
  case (Cons i "is")
  then have "\<not> mark AND push_bit i 1 \<noteq> 0" by (simp only: mark_bit) simp
  with Cons show ?case by simp
qed simp

lemma guid_split_byte: "(guid AND 255) OR push_bit 8 (drop_bit 8 guid) = (guid :: u64)"
proof -
  have "guid AND 255 = take_bit 8 guid"
    by (simp add: take_bit_eq_mask mask_eq_exp_minus_1)
  then show ?thesis
    by (simp add: bit_eq_iff bit_simps) (metis add_diff_inverse_nat linorder_not_less)
qed

lemma ucast_low_byte: "(ucast (ucast (guid AND 255) :: u8) :: u64) = guid AND 255"
proof -
  have "guid AND 255 = take_bit 8 guid"
    by (simp add: take_bit_eq_mask mask_eq_exp_minus_1)
  then show ?thesis by (auto simp: bit_eq_iff bit_simps)
qed

text \<open>
  The packing loop from byte \<open>i\<close> on: the mark bits below \<open>i\<close> stay, the stored bytes grow by
  at most \<open>8 - i\<close>, and the reading loop from bit \<open>i\<close> on gives back exactly what was packed.
\<close>

lemma bb_guid_loop_spec:
  assumes "drop_bit (8 * (8 - i)) guid = 0" and "i \<le> 8" and "\<forall>j \<ge> i. \<not> bit mark j"
  shows "\<exists>m nz. bb_guid_loop i guid mark bytes = (m, bytes @ nz) \<and> length nz \<le> 8 - i \<and>
     (\<forall>j < i. bit m j \<longleftrightarrow> bit mark j) \<and>
     (\<forall>acc b r. bb_cursor_ok b \<longrightarrow> bb_unread b = nz @ r \<longrightarrow>
        bb_pack_loop [i..<8] m acc b = Ok (acc OR push_bit (i * 8) guid, bb_advance (length nz) b))"
  using assms
proof (induction i guid mark bytes rule: bb_guid_loop.induct)
  case (1 i guid mark bytes)
  show ?case
  proof (cases "guid = 0")
    case True
    then have "bb_guid_loop i guid mark bytes = (mark, bytes @ [])"
      by (simp add: bb_guid_loop.simps)
    moreover have "bb_pack_loop [i..<8] mark acc b = Ok (acc, b)" for acc b
      using "1.prems"(3) by (intro bb_pack_loop_none) auto
    ultimately show ?thesis
      using True by (intro exI [of _ mark] exI [of _ "[]"]) simp
  next
    case False
    then have i: "i < 8"
      using "1.prems" by (cases "i = 8") auto
    then have up: "[i..<8] = i # [Suc i..<8]" by (simp add: upt_conv_Cons)
    have z: "drop_bit (8 * (8 - Suc i)) (drop_bit 8 guid) = 0"
    proof -
      have "8 * (8 - Suc i) + 8 = 8 * (8 - i)" using i by simp
      then have "drop_bit (8 * (8 - Suc i)) (drop_bit 8 guid) = drop_bit (8 * (8 - i)) guid"
        by (simp add: drop_bit_drop_bit)
      with "1.prems"(1) show ?thesis by simp
    qed
    show ?thesis
    proof (cases "guid AND 255 = 0")
      case True
      have guid: "push_bit 8 (drop_bit 8 guid) = guid"
        using guid_split_byte [of guid] True by simp
      have "\<not> guid AND 255 \<noteq> 0" "Suc i \<le> 8" "\<forall>j \<ge> Suc i. \<not> bit mark j"
        using True i "1.prems"(3) by auto
      from "1.IH"(2) [OF False this(1) z this(2,3)]
      obtain m nz where IH: "bb_guid_loop (Suc i) (drop_bit 8 guid) mark bytes = (m, bytes @ nz)"
        "length nz \<le> 8 - Suc i" "\<forall>j < Suc i. bit m j \<longleftrightarrow> bit mark j"
        "\<forall>acc b r. bb_cursor_ok b \<longrightarrow> bb_unread b = nz @ r \<longrightarrow>
           bb_pack_loop [Suc i..<8] m acc b =
             Ok (acc OR push_bit (Suc i * 8) (drop_bit 8 guid), bb_advance (length nz) b)"
        by (elim exE conjE) (rule that)
      have "\<not> bit m i" using IH(3) "1.prems"(3) by auto
      then have skip: "bb_pack_loop [i..<8] m acc b = bb_pack_loop [Suc i..<8] m acc b" for acc b
        by (simp only: up bb_pack_loop.simps mark_bit if_False)
      have shift: "push_bit (Suc i * 8) (drop_bit 8 guid) = push_bit (i * 8) guid"
        using guid by (simp only: mult_Suc add.commute [of 8] push_bit_push_bit [symmetric])
      have "\<forall>acc b r. bb_cursor_ok b \<longrightarrow> bb_unread b = nz @ r \<longrightarrow>
          bb_pack_loop [i..<8] m acc b = Ok (acc OR push_bit (i * 8) guid, bb_advance (length nz) b)"
        using IH(4) unfolding skip shift .
      with IH(1-3) False True show ?thesis
        by (intro exI [of _ m] exI [of _ nz]) (simp add: bb_guid_loop.simps [of i guid])
    next
      case byte: False
      let ?c = "ucast (guid AND 255) :: u8"
      let ?mark = "mark OR push_bit i 1"
      have mk: "\<forall>j \<ge> Suc i. \<not> bit ?mark j" "bit ?mark i" "\<forall>j < i. bit ?mark j \<longleftrightarrow> bit mark j"
        using "1.prems"(3) i by (auto simp: bit_simps bit_1_iff)
      have "Suc i \<le> 8" using i by simp
      from "1.IH"(1) [OF False byte z this mk(1)]
      obtain m nz where IH: "bb_guid_loop (Suc i) (drop_bit 8 guid) ?mark (bytes @ [?c]) = (m, (bytes @ [?c]) @ nz)"
        "length nz \<le> 8 - Suc i" "\<forall>j < Suc i. bit m j \<longleftrightarrow> bit ?mark j"
        "\<forall>acc b r. bb_cursor_ok b \<longrightarrow> bb_unread b = nz @ r \<longrightarrow>
           bb_pack_loop [Suc i..<8] m acc b =
             Ok (acc OR push_bit (Suc i * 8) (drop_bit 8 guid), bb_advance (length nz) b)"
        by (elim exE conjE) (rule that)
      have m: "bit m i" using IH(3) mk(2) by simp
      have "bb_pack_loop [i..<8] m acc b =
          Ok (acc OR push_bit (i * 8) guid, bb_advance (length (?c # nz)) b)"
        if b: "bb_cursor_ok b" and u: "bb_unread b = (?c # nz) @ r" for acc b r
      proof -
        have u': "bb_unread b = [?c] @ (nz @ r)" using u by simp
        have "bb_get_u8 b = Ok (?c, bb_advance 1 b)"
          using bb_get_ints_enc(1) [OF b, of ?c "nz @ r"] u by simp
        moreover have "bb_pack_loop [Suc i..<8] m (acc OR push_bit (i * 8) (guid AND 255)) (bb_advance 1 b) =
            Ok ((acc OR push_bit (i * 8) (guid AND 255)) OR push_bit (Suc i * 8) (drop_bit 8 guid),
                bb_advance (length nz) (bb_advance 1 b))"
          using bb_cursor_advance [OF b u'] bb_unread_advance [OF u'] by (intro IH(4) [rule_format]) auto
        moreover have "push_bit (i * 8) (guid AND 255) OR push_bit (Suc i * 8) (drop_bit 8 guid) =
            push_bit (i * 8) guid"
          using guid_split_byte [of guid]
          by (simp only: mult_Suc add.commute [of 8] push_bit_push_bit [symmetric] push_bit_or [symmetric])
        moreover have "bb_pack_loop [i..<8] m acc b =
            obind (bb_get_u8 b) (\<lambda>(c, b'). bb_pack_loop [Suc i..<8] m (acc OR push_bit (i * 8) (ucast c)) b')"
          using m by (simp only: up bb_pack_loop.simps mark_bit if_True)
        ultimately show ?thesis by (simp add: ucast_low_byte or.assoc)
      qed
      then have "\<forall>acc b r. bb_cursor_ok b \<longrightarrow> bb_unread b = (?c # nz) @ r \<longrightarrow>
          bb_pack_loop [i..<8] m acc b = Ok (acc OR push_bit (i * 8) guid, bb_advance (length (?c # nz)) b)"
        by blast
      moreover have "bb_guid_loop i guid mark bytes = (m, bytes @ ?c # nz)"
        using IH(1) False byte by (simp add: bb_guid_loop.simps [of i guid])
      moreover have "length (?c # nz) \<le> 8 - i" "\<forall>j < i. bit m j \<longleftrightarrow> bit mark j"
        using IH(2,3) i mk(3) by auto
      ultimately show ?thesis by blast
    qed
  qed
qed

lemma guid_bytes_spec:
  "length (snd (guid_bytes guid)) \<le> 8"
  "bb_cursor_ok b \<Longrightarrow> bb_unread b = snd (guid_bytes guid) @ r \<Longrightarrow>
     bb_pack_loop [0..<8] (fst (guid_bytes guid)) 0 b =
       Ok (guid, bb_advance (length (snd (guid_bytes guid))) b)"
proof -
  have "drop_bit (8 * (8 - 0)) guid = 0" by (simp add: bit_eq_iff bit_simps)
  then obtain m nz where "bb_guid_loop 0 guid 0 [] = (m, [] @ nz)" "length nz \<le> 8 - 0"
    "\<forall>acc b r. bb_cursor_ok b \<longrightarrow> bb_unread b = nz @ r \<longrightarrow>
       bb_pack_loop [0..<8] m acc b = Ok (acc OR push_bit (0 * 8) guid, bb_advance (length nz) b)"
    using bb_guid_loop_spec [of 0 guid 0 "[]"] by auto
  then show "length (snd (guid_bytes guid)) \<le> 8"
    and "bb_cursor_ok b \<Longrightarrow> bb_unread b = snd (guid_bytes guid) @ r \<Longrightarrow>
      bb_pack_loop [0..<8] (fst (guid_bytes guid)) 0 b =
        Ok (guid, bb_advance (length (snd (guid_bytes guid))) b)"
    by (simp_all add: guid_bytes_def)
qed

interpretation guidc: codec enc_guid "\<lambda>_. True" bb_appendPackGUID bb_readPackGUID
proof
  fix x b
  assume "bb_room (length (enc_guid x)) b"
  then show "bb_appendPackGUID x b = Ok (bb_push (enc_guid x) b)"
    using bb_append_at_end [of "enc_guid x" b]
    by (simp add: bb_appendPackGUID_def enc_guid_def guid_bytes_def case_prod_beta)
next
  fix x b r
  assume b: "bb_cursor_ok b" and u: "bb_unread b = enc_guid x @ r"
  then have u': "bb_unread b = [fst (guid_bytes x)] @ (snd (guid_bytes x) @ r)"
    by (simp add: enc_guid_def)
  have "bb_get_u8 b = Ok (fst (guid_bytes x), bb_advance 1 b)"
    using bb_get_ints_enc(1) [OF b, of "fst (guid_bytes x)"] u' by simp
  moreover have "bb_pack_loop [0..<8] (fst (guid_bytes x)) 0 (bb_advance 1 b) =
      Ok (x, bb_advance (length (snd (guid_bytes x))) (bb_advance 1 b))"
    using bb_cursor_advance [OF b u'] bb_unread_advance [OF u'] by (intro guid_bytes_spec(2)) auto
  ultimately show "bb_readPackGUID b = Ok (x, bb_advance (length (enc_guid x)) b)"
    by (simp add: bb_readPackGUID_def enc_guid_def del: upt.simps)
qed

interpretation guid_list: codec guidc.enc_list guidc.good_list "bb_put_list bb_appendPackGUID" "bb_get_list bb_readPackGUID"
  by (rule guidc.codec_list)

subsection \<open>Pairs and maps\<close>

locale map_codec =
  k: codec enck goodk putk getk + v: codec encv goodv putv getv
  for enck :: "'k::linorder \<Rightarrow> u8 list" and goodk putk getk
    and encv :: "'v \<Rightarrow> u8 list" and goodv putv getv
begin

definition enc_pair :: "'k \<times> 'v \<Rightarrow> u8 list" where
  "enc_pair e = enck (fst e) @ encv (snd e)"

definition enc_pairs :: "('k \<times> 'v) list \<Rightarrow> u8 list" where
  "enc_pairs m = concat (map enc_pair m)"

definition enc_map :: "('k, 'v) smap \<Rightarrow> u8 list" where
  "enc_map m = le_bytes 4 (length m mod 4294967296) @ enc_pairs m"

definition good_map :: "('k, 'v) smap \<Rightarrow> bool" where
  "good_map m \<longleftrightarrow> length m < 4294967296 \<and> sm_ok m \<and> (\<forall>(k, v) \<in> set m. goodk k \<and> goodv v)"

lemma put_pairs: "bb_room (length (enc_pairs m)) b \<Longrightarrow>
  bb_put_all (bb_put_pair putk putv) m b = Ok (bb_push (enc_pairs m) b)"
proof (induction m arbitrary: b)
  case (Cons e m)
  from Cons.prems have "bb_room (length (enck (fst e))) b"
    "bb_room (length (encv (snd e))) (bb_push (enck (fst e)) b)"
    "bb_room (length (enc_pairs m)) (bb_push (encv (snd e)) (bb_push (enck (fst e)) b))"
    by (auto simp: enc_pairs_def enc_pair_def bb_room_def)
  with Cons.IH show ?case
    by (simp add: bb_put_pair_def k.put_enc v.put_enc enc_pairs_def enc_pair_def)
qed (simp add: enc_pairs_def)

lemma touch_last: "\<forall>e \<in> set m. fst e < k \<Longrightarrow> sm_touch v k m = m @ [(k, v)]"
proof -
  assume lt: "\<forall>e \<in> set m. fst e < k"
  then have "\<not> sm_has m k" by (auto simp: sm_has_iff_key)
  moreover from lt have "sm_put k v m = m @ [(k, v)]" by (induction m) auto
  ultimately show ?thesis by (simp add: sm_touch_def)
qed

lemma get_entries:
  "sm_ok (acc @ m) \<Longrightarrow> \<forall>(k, v) \<in> set m. goodk k \<and> goodv v \<Longrightarrow> bb_cursor_ok b \<Longrightarrow>
   bb_unread b = enc_pairs m @ r \<Longrightarrow>
     bb_get_entries getk getv (length m) acc b = Ok (acc @ m, bb_advance (length (enc_pairs m)) b)"
proof (induction m arbitrary: b acc)
  case (Cons e m)
  obtain k v where e: "e = (k, v)" by (cases e)
  from Cons.prems(4) have u: "bb_unread b = enck k @ (encv v @ (enc_pairs m @ r))"
    by (simp add: e enc_pairs_def enc_pair_def)
  note b1 = bb_cursor_advance [OF Cons.prems(3) u] and u1 = bb_unread_advance [OF u]
  note b2 = bb_cursor_advance [OF b1 u1] and u2 = bb_unread_advance [OF u1]
  have "getk b = Ok (k, bb_advance (length (enck k)) b)"
    using Cons.prems u by (intro k.get_enc) (auto simp: e)
  moreover have "getv (bb_advance (length (enck k)) b) =
      Ok (v, bb_advance (length (encv v)) (bb_advance (length (enck k)) b))"
    using Cons.prems b1 u1 by (intro v.get_enc) (auto simp: e)
  moreover have "sm_touch v k acc = acc @ [(k, v)]"
    using Cons.prems(1) by (intro touch_last) (auto simp: sm_ok_def sorted_wrt_append e)
  moreover have "bb_get_entries getk getv (length m) (acc @ [(k, v)])
      (bb_advance (length (encv v)) (bb_advance (length (enck k)) b)) =
      Ok ((acc @ [(k, v)]) @ m, bb_advance (length (enc_pairs m))
        (bb_advance (length (encv v)) (bb_advance (length (enck k)) b)))"
    using Cons.prems b2 u2 by (intro Cons.IH) (auto simp: e)
  ultimately show ?case by (simp add: e enc_pairs_def enc_pair_def add.assoc)
qed (simp add: enc_pairs_def)

lemma put_map:
  assumes "bb_room (length (enc_map m)) b"
  shows "bb_put_map putk putv m b = Ok (bb_push (enc_map m) b)"
proof -
  let ?w = "word_of_nat (length m) :: u32"
  have n: "unat ?w = length m mod 4294967296" by (simp add: unat_of_nat)
  have "bb_put_u32 ?w b = Ok (bb_push (le_bytes 4 (unat ?w)) b)"
    using assms by (intro u32c.put_enc) (simp add: enc_map_def bb_room_def)
  moreover have "bb_room (length (enc_pairs m)) (bb_push (le_bytes 4 (unat ?w)) b)"
    using assms by (simp add: enc_map_def bb_room_def)
  ultimately show ?thesis
    by (simp add: bb_put_map_def put_pairs enc_map_def n del: le_bytes.simps)
qed

lemma get_map:
  assumes "good_map m" and "bb_cursor_ok b" and "bb_unread b = enc_map m @ r"
  shows "bb_get_map getk getv b = Ok (m, bb_advance (length (enc_map m)) b)"
proof -
  have n: "length m < 4294967296" and m: "sm_ok m" using assms(1) by (simp_all add: good_map_def)
  have u: "bb_unread b = le_bytes 4 (length m) @ (enc_pairs m @ r)"
    using assms(3) n by (simp add: enc_map_def del: le_bytes.simps)
  have "bb_get_u32 b = Ok (word_of_nat (length m), bb_advance 4 b)"
    by (rule bb_get_u32_count [OF assms(2) u n])
  moreover have "bb_get_entries getk getv (length m) [] (bb_advance 4 b) =
      Ok ([] @ m, bb_advance (length (enc_pairs m)) (bb_advance 4 b))"
    using assms(1) m bb_unread_advance [OF u] bb_cursor_advance [OF assms(2) u]
    by (intro get_entries) (simp_all add: good_map_def del: le_bytes.simps)
  ultimately show ?thesis
    using n by (simp add: bb_get_map_def unat_word_of_nat_u32 enc_map_def add.assoc)
qed

lemma codec_map: "codec enc_map good_map (bb_put_map putk putv) (bb_get_map getk getv)"
  by unfold_locales (rule put_map get_map; assumption)+

end

interpretation u32_map: map_codec "\<lambda>v. le_bytes 4 (unat v)" "\<lambda>_. True" bb_put_u32 bb_get_u32
  "\<lambda>v. le_bytes 4 (unat v)" "\<lambda>_. True" bb_put_u32 bb_get_u32 ..

interpretation u32_map_codec: codec u32_map.enc_map u32_map.good_map
  "bb_put_map bb_put_u32 bb_put_u32" "bb_get_map bb_get_u32 bb_get_u32"
  by (rule u32_map.codec_map)

section \<open>Properties\<close>

text \<open>C24: A packed guid survives the wire. Whatever the 64-bit guid, appending it to a fresh
packet and reading it back gives the same guid, consumes the packet exactly, and takes one
mark byte and at most eight more.\<close>

theorem packed_guid_roundtrip:
  "\<exists>b'. obind (bb_appendPackGUID guid bb_new) bb_readPackGUID = Ok (guid, b') \<and>
     bb_rpos b' = bb_size b' \<and> 1 \<le> bb_size b' \<and> bb_size b' \<le> 9"
proof -
  have "length (enc_guid guid) \<le> 9"
    using guid_bytes_spec(1) [of guid] by (simp add: enc_guid_def)
  with guidc.put_get [of guid] show ?thesis by (simp add: bb_new_def enc_guid_def)
qed

lemma length_enc_guids: "length (guidc.enc_all gs) \<le> 9 * length gs"
proof (induction gs)
  case (Cons g gs)
  have "length (enc_guid g) \<le> 9" using guid_bytes_spec(1) [of g] by (simp add: enc_guid_def)
  with Cons show ?case by (simp add: guidc.enc_all_def)
qed (simp add: guidc.enc_all_def)

text \<open>A counted list of packed guids survives the wire: the reader of the list operator
gives back the same guids in the same order and stops exactly at the end of what the writer
appended.\<close>

theorem guid_list_roundtrip:
  assumes "length gs \<le> 1000000"
  shows "\<exists>b'. obind (bb_put_list bb_appendPackGUID gs bb_new) (bb_get_list bb_readPackGUID) = Ok (gs, b') \<and>
     bb_rpos b' = bb_size b'"
proof -
  have "guidc.good_list gs" using assms by (simp add: guidc.good_list_def)
  moreover have "length (guidc.enc_list gs) < 10000000"
    using assms length_enc_guids [of gs] by (simp add: guidc.enc_list_def)
  ultimately show ?thesis using guid_list.put_get [of gs] by (simp add: bb_new_def)
qed

lemma guid_list_roundtrip_witness:
  "\<exists>b'. obind (bb_put_list bb_appendPackGUID [7, 0, 65536] bb_new) (bb_get_list bb_readPackGUID) =
     Ok ([7, 0, 65536], b') \<and> bb_rpos b' = bb_size b'"
  using guid_list_roundtrip [of "[7, 0, 65536]"] by simp

lemma length_enc_u32_pairs: "length (u32_map.enc_pairs m) = 8 * length m"
  by (induction m) (simp_all add: u32_map.enc_pairs_def u32_map.enc_pair_def del: le_bytes.simps)

text \<open>A map with sorted, distinct keys survives the wire: the reader, which inserts entry by
entry without overwriting, rebuilds the same map.\<close>

theorem u32_map_roundtrip:
  assumes "sm_ok m" and "length m \<le> 1000000"
  shows "\<exists>b'. obind (bb_put_map bb_put_u32 bb_put_u32 m bb_new) (bb_get_map bb_get_u32 bb_get_u32) = Ok (m, b') \<and>
     bb_rpos b' = bb_size b'"
proof -
  have "u32_map.good_map m" using assms by (auto simp: u32_map.good_map_def)
  moreover have "length (u32_map.enc_map m) < 10000000"
    using assms by (simp add: u32_map.enc_map_def length_enc_u32_pairs del: le_bytes.simps)
  ultimately show ?thesis using u32_map_codec.put_get [of m] by (simp add: bb_new_def)
qed

lemma u32_map_roundtrip_witness:
  "\<exists>b'. obind (bb_put_map bb_put_u32 bb_put_u32 [(1, 10), (5, 20)] bb_new) (bb_get_map bb_get_u32 bb_get_u32) =
     Ok ([(1, 10), (5, 20)], b') \<and> bb_rpos b' = bb_size b'"
  using u32_map_roundtrip [of "[(1, 10), (5, 20)]"] by simp

text \<open>C22: No packet content makes a reader touch memory outside the storage. From a cursor inside
the storage, the integer, boolean, string, packed guid, list and map readers either throw or
succeed, leave the storage alone, and move the cursor forward to a place still inside it.\<close>

theorem packet_readers_safe:
  "bb_safe bb_get_u8 \<and> bb_safe bb_get_u16 \<and> bb_safe bb_get_u32 \<and> bb_safe bb_get_u64 \<and>
   bb_safe bb_get_bool \<and> bb_safe bb_get_string \<and> bb_safe bb_readPackGUID \<and>
   bb_safe (bb_get_list bb_readPackGUID) \<and> bb_safe (bb_get_map bb_readPackGUID bb_get_string)"
  by (intro conjI bb_safe_intros)

text \<open>A block read from a good cursor returns exactly the next \<open>n\<close> bytes when they are there,
and otherwise throws the exception that records cursor, size asked for and size held.\<close>

theorem block_read_exact:
  assumes "bb_cursor_ok b" and "n < 2 ^ 63"
  shows "bb_read_bytes n b =
     (if n \<le> length (bb_unread b) then Ok (take n (bb_unread b), bb_advance n b)
      else Throw (ByteBufferException False (bb_rpos b) n (bb_size b)))"
  using assms by (auto simp: bb_read_bytes_simps bb_cursor_ok_def)

lemma block_read_exact_witness:
  "bb_read_bytes 2 \<lparr>bb_rpos = 1, bb_wpos = 4, bb_storage = [9, 8, 7, 6]\<rparr> =
     Ok ([8, 7], \<lparr>bb_rpos = 3, bb_wpos = 4, bb_storage = [9, 8, 7, 6]\<rparr>)"
  using block_read_exact [of "\<lparr>bb_rpos = 1, bb_wpos = 4, bb_storage = [9, 8, 7, 6]\<rparr>" 2]
  by (simp add: bb_cursor_ok_def)

end
