(* ===== verification/Guids.thy ===== *)
theory Guids
  imports Wire
begin

text \<open>
  \<^verbatim>\<open>src/game/ObjectGuid.h\<close> and \<^verbatim>\<open>ObjectGuid.cpp\<close>: the 64-bit object identifier with its type,
  entry and counter fields, and the generators that hand counters out. Types with an entry
  share the low 48 bits between entry and counter; the others give the counter 32 bits.
\<close>

section \<open>The identifier\<close>

type_synonym object_guid = u64
type_synonym high_guid = u32

definition HIGHGUID_ITEM :: high_guid where "HIGHGUID_ITEM = 0x4000"
definition HIGHGUID_PLAYER :: high_guid where "HIGHGUID_PLAYER = 0x0000"
definition HIGHGUID_GAMEOBJECT :: high_guid where "HIGHGUID_GAMEOBJECT = 0xF110"
definition HIGHGUID_TRANSPORT :: high_guid where "HIGHGUID_TRANSPORT = 0xF120"
definition HIGHGUID_UNIT :: high_guid where "HIGHGUID_UNIT = 0xF130"
definition HIGHGUID_PET :: high_guid where "HIGHGUID_PET = 0xF140"
definition HIGHGUID_DYNAMICOBJECT :: high_guid where "HIGHGUID_DYNAMICOBJECT = 0xF100"
definition HIGHGUID_CORPSE :: high_guid where "HIGHGUID_CORPSE = 0xF101"
definition HIGHGUID_MO_TRANSPORT :: high_guid where "HIGHGUID_MO_TRANSPORT = 0x1FC0"

lemmas high_defs = HIGHGUID_ITEM_def HIGHGUID_PLAYER_def HIGHGUID_GAMEOBJECT_def
  HIGHGUID_TRANSPORT_def HIGHGUID_UNIT_def HIGHGUID_PET_def HIGHGUID_DYNAMICOBJECT_def
  HIGHGUID_CORPSE_def HIGHGUID_MO_TRANSPORT_def

datatype type_id = TYPEID_OBJECT | TYPEID_ITEM | TYPEID_CONTAINER | TYPEID_UNIT
  | TYPEID_PLAYER | TYPEID_GAMEOBJECT | TYPEID_DYNAMICOBJECT | TYPEID_CORPSE

definition HasEntry :: "high_guid \<Rightarrow> bool" where
  "HasEntry high =
     (if high = HIGHGUID_ITEM \<or> high = HIGHGUID_PLAYER \<or> high = HIGHGUID_DYNAMICOBJECT \<or>
         high = HIGHGUID_CORPSE \<or> high = HIGHGUID_MO_TRANSPORT then False else True)"

definition guid_of_entry :: "high_guid \<Rightarrow> u32 \<Rightarrow> u32 \<Rightarrow> object_guid" where
  "guid_of_entry hi entry counter =
     (if counter \<noteq> 0 then ucast counter OR push_bit 24 (ucast entry) OR push_bit 48 (ucast hi) else 0)"

definition guid_of_counter :: "high_guid \<Rightarrow> u32 \<Rightarrow> object_guid" where
  "guid_of_counter hi counter =
     (if counter \<noteq> 0 then ucast counter OR push_bit 48 (ucast hi) else 0)"

definition GetHigh :: "object_guid \<Rightarrow> high_guid" where
  "GetHigh g = ucast (drop_bit 48 g AND 0x0000FFFF)"

definition GetEntry :: "object_guid \<Rightarrow> u32" where
  "GetEntry g = (if HasEntry (GetHigh g) then ucast (drop_bit 24 g AND 0x0000000000FFFFFF) else 0)"

definition GetCounter :: "object_guid \<Rightarrow> u32" where
  "GetCounter g =
     (if HasEntry (GetHigh g) then ucast (g AND 0x0000000000FFFFFF)
      else ucast (g AND 0x00000000FFFFFFFF))"

definition GetMaxCounter :: "high_guid \<Rightarrow> u32" where
  "GetMaxCounter high = (if HasEntry high then 0x00FFFFFF else 0xFFFFFFFF)"

definition guid_IsEmpty :: "object_guid \<Rightarrow> bool" where
  "guid_IsEmpty g \<longleftrightarrow> g = 0"

definition guid_IsPlayer :: "object_guid \<Rightarrow> bool" where
  "guid_IsPlayer g \<longleftrightarrow> \<not> guid_IsEmpty g \<and> GetHigh g = HIGHGUID_PLAYER"

definition guid_IsCreature :: "object_guid \<Rightarrow> bool" where
  "guid_IsCreature g \<longleftrightarrow> GetHigh g = HIGHGUID_UNIT"

definition guid_IsPet :: "object_guid \<Rightarrow> bool" where
  "guid_IsPet g \<longleftrightarrow> GetHigh g = HIGHGUID_PET"

definition guid_IsAnyTypeCreature :: "object_guid \<Rightarrow> bool" where
  "guid_IsAnyTypeCreature g \<longleftrightarrow> guid_IsCreature g \<or> guid_IsPet g"

definition guid_IsUnit :: "object_guid \<Rightarrow> bool" where
  "guid_IsUnit g \<longleftrightarrow> guid_IsAnyTypeCreature g \<or> guid_IsPlayer g"

definition guid_IsItem :: "object_guid \<Rightarrow> bool" where
  "guid_IsItem g \<longleftrightarrow> GetHigh g = HIGHGUID_ITEM"

definition guid_IsGameObject :: "object_guid \<Rightarrow> bool" where
  "guid_IsGameObject g \<longleftrightarrow> GetHigh g = HIGHGUID_GAMEOBJECT"

definition guid_IsCorpse :: "object_guid \<Rightarrow> bool" where
  "guid_IsCorpse g \<longleftrightarrow> GetHigh g = HIGHGUID_CORPSE"

definition guid_GetTypeId :: "high_guid \<Rightarrow> type_id" where
  "guid_GetTypeId high =
     (if high = HIGHGUID_ITEM then TYPEID_ITEM
      else if high = HIGHGUID_UNIT then TYPEID_UNIT
      else if high = HIGHGUID_PET then TYPEID_UNIT
      else if high = HIGHGUID_PLAYER then TYPEID_PLAYER
      else if high = HIGHGUID_GAMEOBJECT then TYPEID_GAMEOBJECT
      else if high = HIGHGUID_DYNAMICOBJECT then TYPEID_DYNAMICOBJECT
      else if high = HIGHGUID_CORPSE then TYPEID_CORPSE
      else if high = HIGHGUID_MO_TRANSPORT then TYPEID_GAMEOBJECT
      else TYPEID_OBJECT)"

definition GetTypeName :: "high_guid \<Rightarrow> string" where
  "GetTypeName high =
     (if high = HIGHGUID_ITEM then ''Item''
      else if high = HIGHGUID_PLAYER then ''Player''
      else if high = HIGHGUID_GAMEOBJECT then ''Gameobject''
      else if high = HIGHGUID_TRANSPORT then ''Transport''
      else if high = HIGHGUID_UNIT then ''Creature''
      else if high = HIGHGUID_PET then ''Pet''
      else if high = HIGHGUID_DYNAMICOBJECT then ''DynObject''
      else if high = HIGHGUID_CORPSE then ''Corpse''
      else if high = HIGHGUID_MO_TRANSPORT then ''MoTransport''
      else ''<unknown>'')"

subsection \<open>Streaming\<close>

definition bb_put_guid :: "object_guid \<Rightarrow> byte_buffer \<Rightarrow> byte_buffer bb_res" where
  "bb_put_guid guid b = bb_put_u64 guid b"

definition bb_get_guid :: "byte_buffer \<Rightarrow> (object_guid \<times> byte_buffer) bb_res" where
  "bb_get_guid b = bb_get_u64 b"

interpretation raw_guidc: codec "\<lambda>v. le_bytes 8 (unat v)" "\<lambda>_. True" bb_put_guid bb_get_guid
  using u64c.codec_axioms by (simp add: bb_put_guid_def [abs_def] bb_get_guid_def [abs_def])

text \<open>\<^verbatim>\<open>PackedGuid\<close> owns a buffer that \<^verbatim>\<open>Set\<close> rewrites from position 0; streaming it out appends
the part of the buffer below its write cursor.\<close>

definition PackedGuid_new :: "object_guid \<Rightarrow> byte_buffer bb_res" where
  "PackedGuid_new guid = bb_appendPackGUID guid bb_new"

definition PackedGuid_Set :: "object_guid \<Rightarrow> byte_buffer \<Rightarrow> byte_buffer bb_res" where
  "PackedGuid_Set guid p = bb_appendPackGUID guid (bb_set_wpos 0 p)"

definition bb_put_packed :: "byte_buffer \<Rightarrow> byte_buffer \<Rightarrow> byte_buffer bb_res" where
  "bb_put_packed guid buf = bb_append_buffer guid buf"

section \<open>Fields round-trip\<close>

lemma bit_u32_less:
  assumes "unat (w :: u32) < 2 ^ n" and "bit w i"
  shows "i < n"
proof -
  have "take_bit n w = w"
    using assms(1) by (simp add: word_unat_eq_iff unsigned_take_bit_eq take_bit_nat_eq_self_iff)
  with assms(2) show ?thesis by (metis bit_take_bit_iff)
qed

lemma bit_high_less: "(hi :: u32) < 0x10000 \<Longrightarrow> bit hi i \<Longrightarrow> i < 16"
  by (rule bit_u32_less) (simp_all add: word_less_nat_alt)

lemma bit_entry_less: "(entry :: u32) < 0x1000000 \<Longrightarrow> bit entry i \<Longrightarrow> i < 24"
  by (rule bit_u32_less) (simp_all add: word_less_nat_alt)

lemma bit_counter_less: "bit (counter :: u32) i \<Longrightarrow> i < 32"
  using bit_imp_le_length by fastforce

lemma and_mask_take: "(g :: u64) AND 0xFFFF = take_bit 16 g" "g AND 0xFFFFFF = take_bit 24 g"
  "g AND 0xFFFFFFFF = take_bit 32 g"
  by (simp_all add: take_bit_eq_mask mask_eq_exp_minus_1)

lemmas guid_bits = bit_eq_iff bit_simps and_mask_take

lemma GetHigh_of_entry:
  assumes "hi < 0x10000" and "entry < 0x1000000" and "counter \<noteq> 0"
  shows "GetHigh (guid_of_entry hi entry counter) = hi"
proof -
  have "bit (GetHigh (guid_of_entry hi entry counter)) n \<longleftrightarrow> bit hi n" for n
    using assms(3) bit_high_less [OF assms(1), of n] bit_entry_less [OF assms(2), of "24 + n"]
      bit_counter_less [of counter "48 + n"]
    by (auto simp: GetHigh_def guid_of_entry_def and_mask_take bit_simps)
  then show ?thesis by (simp add: bit_eq_iff)
qed

lemma GetHigh_of_counter:
  assumes "hi < 0x10000" and "counter \<noteq> 0"
  shows "GetHigh (guid_of_counter hi counter) = hi"
proof -
  have "bit (GetHigh (guid_of_counter hi counter)) n \<longleftrightarrow> bit hi n" for n
    using assms(2) bit_high_less [OF assms(1), of n] bit_counter_less [of counter "48 + n"]
    by (auto simp: GetHigh_def guid_of_counter_def and_mask_take bit_simps)
  then show ?thesis by (simp add: bit_eq_iff)
qed

lemma GetEntry_of_entry:
  assumes "hi < 0x10000" and "entry < 0x1000000" and "counter < 0x1000000" and "counter \<noteq> 0"
    and "HasEntry hi"
  shows "GetEntry (guid_of_entry hi entry counter) = entry"
proof -
  have "bit (GetEntry (guid_of_entry hi entry counter)) n \<longleftrightarrow> bit entry n" for n
    using assms(4,5) bit_entry_less [OF assms(2), of n] bit_entry_less [OF assms(3), of "24 + n"]
    by (auto simp: GetEntry_def GetHigh_of_entry [OF assms(1,2,4)])
       (auto simp: guid_of_entry_def and_mask_take bit_simps)
  then show ?thesis by (simp add: bit_eq_iff)
qed

lemma GetCounter_of_entry:
  assumes "hi < 0x10000" and "entry < 0x1000000" and "counter < 0x1000000" and "counter \<noteq> 0"
    and "HasEntry hi"
  shows "GetCounter (guid_of_entry hi entry counter) = counter"
proof -
  have "bit (GetCounter (guid_of_entry hi entry counter)) n \<longleftrightarrow> bit counter n" for n
    using assms(4,5) bit_entry_less [OF assms(3), of n]
    by (auto simp: GetCounter_def GetHigh_of_entry [OF assms(1,2,4)])
       (auto simp: guid_of_entry_def and_mask_take bit_simps)
  then show ?thesis by (simp add: bit_eq_iff)
qed

lemma GetCounter_of_counter:
  assumes "hi < 0x10000" and "counter \<noteq> 0" and "\<not> HasEntry hi"
  shows "GetCounter (guid_of_counter hi counter) = counter"
proof -
  have "bit (GetCounter (guid_of_counter hi counter)) n \<longleftrightarrow> bit counter n" for n
    using assms(2,3) bit_counter_less [of counter n]
    by (auto simp: GetCounter_def GetHigh_of_counter [OF assms(1,2)])
       (auto simp: guid_of_counter_def and_mask_take bit_simps)
  then show ?thesis by (simp add: bit_eq_iff)
qed

section \<open>Counter generators\<close>

text \<open>
  \<^verbatim>\<open>ObjectGuidGenerator\<close>: freed counters are reused first in the order they were freed, then
  fresh ones are issued. Running out asks the world to stop (\<open>gg_stopped\<close>), but the call
  still returns and increments.
\<close>

record guid_generator =
  gg_high :: high_guid
  gg_nextGuid :: u32
  gg_freedGuids :: "u32 list"
  gg_stopped :: bool

definition gg_new :: "high_guid \<Rightarrow> u32 \<Rightarrow> guid_generator" where
  "gg_new high start =
     \<lparr>gg_high = high, gg_nextGuid = start, gg_freedGuids = [], gg_stopped = False\<rparr>"

definition gg_Generate :: "guid_generator \<Rightarrow> u32 \<times> guid_generator" where
  "gg_Generate s =
     (case gg_freedGuids s of
        g # rest \<Rightarrow> (g, s\<lparr>gg_freedGuids := rest\<rparr>)
      | [] \<Rightarrow>
          (let stop = gg_nextGuid s \<ge> GetMaxCounter (gg_high s) - 1
           in (gg_nextGuid s,
               s\<lparr>gg_stopped := gg_stopped s \<or> stop, gg_nextGuid := gg_nextGuid s + 1\<rparr>)))"

definition GENERATE_RANGE_SIZE :: u32 where "GENERATE_RANGE_SIZE = 100"

definition gg_GenerateRange :: "guid_generator \<Rightarrow> u32 \<times> u32 \<times> guid_generator" where
  "gg_GenerateRange s =
     (let stop = gg_nextGuid s \<ge> GetMaxCounter (gg_high s) - GENERATE_RANGE_SIZE;
          first = gg_nextGuid s;
          last = gg_nextGuid s + GENERATE_RANGE_SIZE
      in (first, last, s\<lparr>gg_stopped := gg_stopped s \<or> stop, gg_nextGuid := last\<rparr>))"

definition gg_FreeGuid :: "u32 \<Rightarrow> guid_generator \<Rightarrow> guid_generator" where
  "gg_FreeGuid g s = s\<lparr>gg_freedGuids := gg_freedGuids s @ [g]\<rparr>"

text \<open>
  The generator and its clients: \<open>gs_live\<close> is the set of counters handed out and not yet
  given back. A client frees only counters it holds.
\<close>

record guid_system =
  gs_gen :: guid_generator
  gs_live :: "u32 set"

definition gs_init :: "guid_system \<Rightarrow> bool" where
  "gs_init s \<longleftrightarrow> (\<exists>high. s = \<lparr>gs_gen = gg_new high 1, gs_live = {}\<rparr>)"

inductive guid_step :: "guid_system \<Rightarrow> guid_system \<Rightarrow> bool" where
  generate: "gg_Generate (gs_gen s) = (g, gen) \<Longrightarrow>
    guid_step s (s\<lparr>gs_gen := gen, gs_live := insert g (gs_live s)\<rparr>)"
| generate_range: "gg_GenerateRange (gs_gen s) = (lo, hi, gen) \<Longrightarrow>
    guid_step s (s\<lparr>gs_gen := gen, gs_live := gs_live s \<union> {lo..<hi}\<rparr>)"
| free: "g \<in> gs_live s \<Longrightarrow>
    guid_step s (s\<lparr>gs_gen := gg_FreeGuid g (gs_gen s), gs_live := gs_live s - {g}\<rparr>)"

inductive_cases guid_stepE: "guid_step s t"

definition gs_inv :: "guid_system \<Rightarrow> bool" where
  "gs_inv s \<longleftrightarrow> gg_stopped (gs_gen s) \<or>
     (1 \<le> gg_nextGuid (gs_gen s) \<and> gg_nextGuid (gs_gen s) \<le> GetMaxCounter (gg_high (gs_gen s)) \<and>
      distinct (gg_freedGuids (gs_gen s)) \<and>
      set (gg_freedGuids (gs_gen s)) \<inter> gs_live s = {} \<and>
      (\<forall>g \<in> set (gg_freedGuids (gs_gen s)) \<union> gs_live s. 1 \<le> g \<and> g < gg_nextGuid (gs_gen s)))"

lemma GetMaxCounter_ge: "0x00FFFFFF \<le> GetMaxCounter high"
  by (simp add: GetMaxCounter_def)

lemma add_below_max:
  assumes "unat n + unat k \<le> unat (GetMaxCounter high)" and "0 < unat (k :: u32)"
  shows "n < n + k" and "n + k \<le> GetMaxCounter high"
proof -
  have "unat (n + k) = unat n + unat k"
    using assms(1) unat_u32_less [of "GetMaxCounter high"] by (intro unat_u32_add) linarith
  then show "n < n + k" and "n + k \<le> GetMaxCounter high"
    using assms by (simp_all add: word_less_nat_alt word_le_nat_alt)
qed

lemma unat_GetMaxCounter: "unat (GetMaxCounter high) = (if HasEntry high then 16777215 else 4294967295)"
  by (simp add: GetMaxCounter_def)

lemma next_guid_fits:
  assumes "\<not> GetMaxCounter high - 1 \<le> n"
  shows "n < n + 1" and "n + 1 \<le> GetMaxCounter high"
proof -
  have "unat n + unat (1 :: u32) \<le> unat (GetMaxCounter high)"
    using assms by (simp add: unat_GetMaxCounter) (simp add: GetMaxCounter_def word_le_nat_alt split: if_splits)
  from add_below_max [OF this] show "n < n + 1" and "n + 1 \<le> GetMaxCounter high" by simp_all
qed

lemma next_range_fits:
  assumes "\<not> GetMaxCounter high - GENERATE_RANGE_SIZE \<le> n"
  shows "n < n + GENERATE_RANGE_SIZE" and "n + GENERATE_RANGE_SIZE \<le> GetMaxCounter high"
proof -
  have "unat n + unat GENERATE_RANGE_SIZE \<le> unat (GetMaxCounter high)"
    using assms by (simp add: unat_GetMaxCounter GENERATE_RANGE_SIZE_def)
      (simp add: GetMaxCounter_def word_le_nat_alt split: if_splits)
  from add_below_max [OF this] show "n < n + GENERATE_RANGE_SIZE"
    and "n + GENERATE_RANGE_SIZE \<le> GetMaxCounter high"
    by (simp_all add: GENERATE_RANGE_SIZE_def)
qed

lemma gs_inv_init: "gs_init s \<Longrightarrow> gs_inv s"
  using GetMaxCounter_ge order_trans [of 1 "0x00FFFFFF :: u32"]
  by (auto simp: gs_init_def gs_inv_def gg_new_def)

lemma gs_inv_step: "guid_step s t \<Longrightarrow> gs_inv s \<Longrightarrow> gs_inv t"
proof (induction rule: guid_step.induct)
  case (generate s g gen)
  let ?n = "gg_nextGuid (gs_gen s)"
  show ?case
  proof (cases "gg_freedGuids (gs_gen s)")
    case Nil
    have gen: "g = ?n" "gen = gs_gen s\<lparr>gg_stopped := gg_stopped (gs_gen s) \<or>
        ?n \<ge> GetMaxCounter (gg_high (gs_gen s)) - 1, gg_nextGuid := ?n + 1\<rparr>"
      using generate(1) Nil by (auto simp: gg_Generate_def Let_def)
    show ?thesis
    proof (cases "gg_stopped gen")
      case False
      then have fits: "?n < ?n + 1" "?n + 1 \<le> GetMaxCounter (gg_high (gs_gen s))"
        using next_guid_fits [of "gg_high (gs_gen s)" ?n] by (simp_all add: gen)
      from False generate(2) have "1 \<le> ?n" "\<forall>g \<in> gs_live s. 1 \<le> g \<and> g < ?n"
        by (auto simp: gs_inv_def gen)
      with fits Nil show ?thesis by (auto simp: gs_inv_def gen)
    qed (simp add: gs_inv_def)
  next
    case (Cons f fs)
    with generate show ?thesis by (auto simp: gs_inv_def gg_Generate_def)
  qed
next
  case (generate_range s lo hi gen)
  let ?n = "gg_nextGuid (gs_gen s)"
  have gen: "lo = ?n" "hi = ?n + GENERATE_RANGE_SIZE"
    "gen = gs_gen s\<lparr>gg_stopped := gg_stopped (gs_gen s) \<or>
        ?n \<ge> GetMaxCounter (gg_high (gs_gen s)) - GENERATE_RANGE_SIZE,
      gg_nextGuid := ?n + GENERATE_RANGE_SIZE\<rparr>"
    using generate_range(1) by (auto simp: gg_GenerateRange_def Let_def)
  show ?case
  proof (cases "gg_stopped gen")
    case False
    then have fits: "?n < ?n + GENERATE_RANGE_SIZE"
        "?n + GENERATE_RANGE_SIZE \<le> GetMaxCounter (gg_high (gs_gen s))"
      using next_range_fits [of "gg_high (gs_gen s)" ?n] by (simp_all add: gen)
    from False generate_range(2) have n: "1 \<le> ?n" and
      old: "\<forall>g \<in> set (gg_freedGuids (gs_gen s)) \<union> gs_live s. 1 \<le> g \<and> g < ?n"
      and sep: "distinct (gg_freedGuids (gs_gen s))" "set (gg_freedGuids (gs_gen s)) \<inter> gs_live s = {}"
      by (auto simp: gs_inv_def gen)
    have "\<forall>g \<in> set (gg_freedGuids (gs_gen s)) \<union> (gs_live s \<union> {?n..<?n + GENERATE_RANGE_SIZE}).
        1 \<le> g \<and> g < ?n + GENERATE_RANGE_SIZE"
      using old n fits(1) by (auto intro: order_trans order.strict_trans)
    moreover have "set (gg_freedGuids (gs_gen s)) \<inter> (gs_live s \<union> {?n..<?n + GENERATE_RANGE_SIZE}) = {}"
    proof -
      have "\<not> ?n \<le> g" if "g \<in> set (gg_freedGuids (gs_gen s))" for g
        using old that by (auto simp: not_le)
      with sep(2) show ?thesis by auto
    qed
    moreover have "1 \<le> ?n + GENERATE_RANGE_SIZE"
      using n fits(1) by (meson order.strict_implies_order order_trans)
    ultimately show ?thesis using fits(2) sep(1) by (auto simp: gs_inv_def gen)
  qed (simp add: gs_inv_def)
next
  case (free g s)
  then show ?case by (auto simp: gs_inv_def gg_FreeGuid_def)
qed

interpretation guids: machine gs_init guid_step gs_inv
  by unfold_locales (rule gs_inv_init, assumption, rule gs_inv_step)

section \<open>Properties\<close>

text \<open>The three fields packed into an identifier come back out. For a type with an entry part,
any 24-bit entry and non-zero 24-bit counter are recovered; for a type without one, any
non-zero 32-bit counter is.\<close>

theorem guid_fields_roundtrip:
  assumes "hi < 0x10000" and "entry < 0x1000000" and "counter \<noteq> 0"
    and "HasEntry hi \<Longrightarrow> counter < 0x1000000"
  shows "let g = (if HasEntry hi then guid_of_entry hi entry counter else guid_of_counter hi counter)
     in GetHigh g = hi \<and> GetCounter g = counter \<and> GetEntry g = (if HasEntry hi then entry else 0)"
  using assms
  by (simp add: Let_def GetHigh_of_entry GetHigh_of_counter GetCounter_of_entry
      GetCounter_of_counter GetEntry_of_entry)
     (simp add: GetEntry_def GetHigh_of_counter)

lemma guid_fields_roundtrip_witness:
  "GetHigh (guid_of_entry 0xF130 12345 77) = 0xF130 \<and> GetCounter (guid_of_entry 0xF130 12345 77) = 77 \<and>
   GetEntry (guid_of_entry 0xF130 12345 77) = 12345"
  using guid_fields_roundtrip [of "0xF130" 12345 77]
  by (simp add: Let_def HasEntry_def high_defs)

text \<open>C38: A generator never hands out a counter that is in use. In every reachable state of a
generator started at 1, a counter returned by \<open>Generate\<close> without the overflow shutdown is
not the empty one, is within the range of the type, and is held by no client.\<close>

theorem generated_guid_unused:
  assumes "gs_init s0" and "rtranclp guid_step s0 s"
    and "gg_Generate (gs_gen s) = (g, gen)" and "\<not> gg_stopped gen"
  shows "g \<noteq> 0 \<and> g \<le> GetMaxCounter (gg_high (gs_gen s)) \<and> g \<notin> gs_live s"
proof -
  have inv: "gs_inv s" using assms(1,2) by (rule guids.inv_reachable)
  have "\<not> gg_stopped (gs_gen s)"
    using assms(3,4) by (auto simp: gg_Generate_def Let_def split: list.splits)
  with inv assms(3) show ?thesis
    by (fastforce simp: gs_inv_def gg_Generate_def Let_def split: list.splits)
qed

definition guid_sample :: guid_system where
  "guid_sample = \<lparr>gs_gen = \<lparr>gg_high = HIGHGUID_UNIT, gg_nextGuid = 3, gg_freedGuids = [1], gg_stopped = False\<rparr>, gs_live = {2}\<rparr>"

lemma guid_sample_steps: "rtranclp guid_step \<lparr>gs_gen = gg_new HIGHGUID_UNIT 1, gs_live = {}\<rparr> guid_sample"
proof -
  let ?g = "\<lambda>n fr. \<lparr>gg_high = HIGHGUID_UNIT, gg_nextGuid = n, gg_freedGuids = fr, gg_stopped = False\<rparr>"
  have a: "gg_Generate (?g 1 []) = (1, ?g 2 [])" "gg_Generate (?g 2 []) = (2, ?g 3 [])"
    by (simp_all add: gg_Generate_def GetMaxCounter_def HasEntry_def high_defs Let_def word_le_nat_alt)
  have n: "gg_new HIGHGUID_UNIT 1 = ?g 1 []" by (simp add: gg_new_def)
  have 1: "guid_step \<lparr>gs_gen = ?g 1 [], gs_live = {}\<rparr> \<lparr>gs_gen = ?g 2 [], gs_live = {1}\<rparr>"
    using generate [of "\<lparr>gs_gen = ?g 1 [], gs_live = {}\<rparr>"] a(1) by simp
  have 2: "guid_step \<lparr>gs_gen = ?g 2 [], gs_live = {1}\<rparr> \<lparr>gs_gen = ?g 3 [], gs_live = {2, 1}\<rparr>"
    using generate [of "\<lparr>gs_gen = ?g 2 [], gs_live = {1}\<rparr>"] a(2) by simp
  have "gg_FreeGuid 1 (?g 3 []) = ?g 3 [1]" by (simp add: gg_FreeGuid_def)
  moreover have "{2, 1 :: u32} - {1} = {2}" by auto
  ultimately have 3: "guid_step \<lparr>gs_gen = ?g 3 [], gs_live = {2, 1}\<rparr> guid_sample"
    using free [of 1 "\<lparr>gs_gen = ?g 3 [], gs_live = {2, 1}\<rparr>"] by (simp add: guid_sample_def)
  show ?thesis unfolding n by (meson 1 2 3 converse_rtranclp_into_rtranclp rtranclp.rtrancl_refl)
qed

lemma generated_guid_unused_witness:
  "fst (gg_Generate (gs_gen guid_sample)) = 1 \<and> 1 \<notin> gs_live guid_sample \<and> 2 \<in> gs_live guid_sample"
proof -
  have init: "gs_init \<lparr>gs_gen = gg_new HIGHGUID_UNIT 1, gs_live = {}\<rparr>" by (auto simp: gs_init_def)
  have gen: "gg_Generate (gs_gen guid_sample) =
      (1, \<lparr>gg_high = HIGHGUID_UNIT, gg_nextGuid = 3, gg_freedGuids = [], gg_stopped = False\<rparr>)"
    by (simp add: gg_Generate_def guid_sample_def)
  then show ?thesis
    using generated_guid_unused [OF init guid_sample_steps gen] by (simp add: guid_sample_def)
qed

lemma bb_append_rewind:
  assumes "src \<noteq> []" and "length src < 2 ^ 32" and "bb_size p < 10000000"
  shows "\<exists>q rest. bb_append src (bb_set_wpos 0 p) = Ok q \<and> bb_wpos q = length src \<and>
     bb_storage q = src @ rest \<and> bb_size q = max (length src) (bb_size p)"
  using assms
  by (auto simp: bb_append_def bb_set_wpos_def Let_def bb_memcpy_def bb_resized_def)

lemma enc_guid_length: "enc_guid g \<noteq> []" "length (enc_guid g) \<le> 9"
  using guid_bytes_spec(1) [of g] by (simp_all add: enc_guid_def)

lemma PackedGuid_Set_spec:
  assumes "bb_size p < 10000000"
  shows "\<exists>q rest. PackedGuid_Set g p = Ok q \<and> bb_wpos q = length (enc_guid g) \<and>
     bb_storage q = enc_guid g @ rest \<and> bb_size q = max (length (enc_guid g)) (bb_size p)"
  using bb_append_rewind [of "enc_guid g" p] enc_guid_length [of g] assms
  by (simp add: PackedGuid_Set_def bb_appendPackGUID_def enc_guid_def guid_bytes_def case_prod_beta)

text \<open>Rewriting a packed guid in place is clean. After \<open>Set\<close>, streaming the packed guid into a
fresh packet and reading it back gives the guid set last and consumes the packet, although
the private buffer may still hold bytes of a longer predecessor.\<close>

theorem packed_guid_set_streams_last:
  "\<exists>p q pkt b'. PackedGuid_new g1 = Ok p \<and> PackedGuid_Set g2 p = Ok q \<and>
     bb_put_packed q bb_new = Ok pkt \<and> bb_readPackGUID pkt = Ok (g2, b') \<and> bb_rpos b' = bb_size pkt"
proof -
  let ?p = "bb_push (enc_guid g1) bb_new" and ?pkt = "bb_push (enc_guid g2) bb_new"
  have p: "PackedGuid_new g1 = Ok ?p"
    using enc_guid_length [of g1]
    by (simp add: PackedGuid_new_def guidc.put_enc bb_room_def bb_new_def)
  obtain q rest where q: "PackedGuid_Set g2 ?p = Ok q" "bb_wpos q = length (enc_guid g2)"
      "bb_storage q = enc_guid g2 @ rest"
    using PackedGuid_Set_spec [of ?p g2] enc_guid_length [of g1] by (auto simp: bb_new_def)
  have "bb_put_packed q bb_new = Ok ?pkt"
    using q enc_guid_length [of g2]
    by (simp add: bb_put_packed_def bb_append_buffer_def bb_slice_def bb_append_at_end bb_room_def bb_new_def)
  moreover have "bb_readPackGUID ?pkt = Ok (g2, bb_advance (length (enc_guid g2)) ?pkt)"
    using enc_guid_length [of g2]
    by (intro guidc.get_enc [of _ _ "[]"]) (simp_all add: bb_new_def bb_cursor_ok_def)
  ultimately show ?thesis using p q(1) by (auto simp: bb_new_def)
qed

end
