(* ===== verification/Containers.thy ===== *)
theory Containers
  imports Prelude
begin

text \<open>
  Two containers the rest of the server is built on. \<^verbatim>\<open>src/framework/Utilities/LinkedList.h\<close> is
  the intrusive doubly linked list behind every reference manager; it is modelled over an
  explicit store, because its operations are pointer writes whose order and aliasing matter.
  \<^verbatim>\<open>src/shared/LockedQueue.h\<close> is the queue packets and callbacks cross threads in.
\<close>

section \<open>The intrusive list over a store\<close>

type_synonym ptr = nat

record ll_node =
  iNext :: "ptr option"
  iPrev :: "ptr option"

type_synonym ll_store = "ptr \<Rightarrow> ll_node"

definition ll_free :: ll_node where
  "ll_free = \<lparr>iNext = None, iPrev = None\<rparr>"

record ll_head =
  iFirst :: ptr
  iLast :: ptr
  iSize :: u32

text \<open>Field writes; each reads the store as the writes before it have left it.\<close>

abbreviation set_next :: "ptr \<Rightarrow> ptr option \<Rightarrow> ll_store \<Rightarrow> ll_store" where
  "set_next p q h \<equiv> h(p := (h p)\<lparr>iNext := q\<rparr>)"

abbreviation set_prev :: "ptr \<Rightarrow> ptr option \<Rightarrow> ll_store \<Rightarrow> ll_store" where
  "set_prev p q h \<equiv> h(p := (h p)\<lparr>iPrev := q\<rparr>)"

definition ll_hasNext :: "ll_store \<Rightarrow> ptr \<Rightarrow> bool" where
  "ll_hasNext h p \<longleftrightarrow> (case iNext (h p) of None \<Rightarrow> False | Some n \<Rightarrow> iNext (h n) \<noteq> None)"

definition ll_hasPrev :: "ll_store \<Rightarrow> ptr \<Rightarrow> bool" where
  "ll_hasPrev h p \<longleftrightarrow> (case iPrev (h p) of None \<Rightarrow> False | Some n \<Rightarrow> iPrev (h n) \<noteq> None)"

definition ll_isInList :: "ll_store \<Rightarrow> ptr \<Rightarrow> bool" where
  "ll_isInList h p \<longleftrightarrow> iNext (h p) \<noteq> None \<and> iPrev (h p) \<noteq> None"

definition ll_next :: "ll_store \<Rightarrow> ptr \<Rightarrow> ptr option" where
  "ll_next h p = (if ll_hasNext h p then iNext (h p) else None)"

definition ll_prev :: "ll_store \<Rightarrow> ptr \<Rightarrow> ptr option" where
  "ll_prev h p = (if ll_hasPrev h p then iPrev (h p) else None)"

definition ll_delink :: "ptr \<Rightarrow> ll_store \<Rightarrow> ll_store" where
  "ll_delink p h =
     (if ll_isInList h p
      then let h1 = set_prev (the (iNext (h p))) (iPrev (h p)) h;
               h2 = set_next (the (iPrev (h1 p))) (iNext (h1 p)) h1;
               h3 = set_next p None h2
           in set_prev p None h3
      else h)"

text \<open>\<open>None\<close> is the dereference of a null neighbour.\<close>

definition ll_insertBefore :: "ptr \<Rightarrow> ptr \<Rightarrow> ll_store \<Rightarrow> ll_store option" where
  "ll_insertBefore this pElem h =
     (let h1 = set_next pElem (Some this) h;
          h2 = set_prev pElem (iPrev (h1 this)) h1
      in case iPrev (h2 this) of
           None \<Rightarrow> None
         | Some q \<Rightarrow> Some (set_prev this (Some pElem) (set_next q (Some pElem) h2)))"

definition ll_insertAfter :: "ptr \<Rightarrow> ptr \<Rightarrow> ll_store \<Rightarrow> ll_store option" where
  "ll_insertAfter this pElem h =
     (let h1 = set_prev pElem (Some this) h;
          h2 = set_next pElem (iNext (h1 this)) h1
      in case iNext (h2 this) of
           None \<Rightarrow> None
         | Some q \<Rightarrow> Some (set_next this (Some pElem) (set_prev q (Some pElem) h2)))"

definition ll_construct :: "ll_head \<Rightarrow> ll_store \<Rightarrow> ll_store" where
  "ll_construct lh h =
     set_prev (iLast lh) (Some (iFirst lh))
       (set_next (iFirst lh) (Some (iLast lh)) (h(iFirst lh := ll_free, iLast lh := ll_free)))"

definition ll_isEmpty :: "ll_head \<Rightarrow> ll_store \<Rightarrow> bool option" where
  "ll_isEmpty lh h =
     (case iNext (h (iFirst lh)) of None \<Rightarrow> None | Some q \<Rightarrow> Some (\<not> ll_isInList h q))"

definition ll_getFirst :: "ll_head \<Rightarrow> ll_store \<Rightarrow> ptr option option" where
  "ll_getFirst lh h =
     map_option (\<lambda>e. if e then None else iNext (h (iFirst lh))) (ll_isEmpty lh h)"

definition ll_getLast :: "ll_head \<Rightarrow> ll_store \<Rightarrow> ptr option option" where
  "ll_getLast lh h =
     map_option (\<lambda>e. if e then None else iPrev (h (iLast lh))) (ll_isEmpty lh h)"

definition ll_insertFirst :: "ll_head \<Rightarrow> ptr \<Rightarrow> ll_store \<Rightarrow> ll_store option" where
  "ll_insertFirst lh pElem h = ll_insertAfter (iFirst lh) pElem h"

definition ll_insertLast :: "ll_head \<Rightarrow> ptr \<Rightarrow> ll_store \<Rightarrow> ll_store option" where
  "ll_insertLast lh pElem h = ll_insertBefore (iLast lh) pElem h"

text \<open>The counting walk of \<^verbatim>\<open>getSize\<close>; on a store that is not a list it need not stop.\<close>

partial_function (option) ll_count :: "ll_store \<Rightarrow> ptr option \<Rightarrow> u32 \<Rightarrow> u32 option" where
  "ll_count h e result =
     (case e of None \<Rightarrow> Some result | Some p \<Rightarrow> ll_count h (ll_next h p) (result + 1))"

definition ll_getSize :: "ll_head \<Rightarrow> ll_store \<Rightarrow> u32 option" where
  "ll_getSize lh h =
     (if iSize lh = 0
      then (case ll_getFirst lh h of None \<Rightarrow> None | Some e \<Rightarrow> ll_count h e 0)
      else Some (iSize lh))"

section \<open>What the list represents\<close>

definition ll_linked :: "ll_store \<Rightarrow> ptr \<Rightarrow> ptr \<Rightarrow> bool" where
  "ll_linked h a b \<longleftrightarrow> iNext (h a) = Some b \<and> iPrev (h b) = Some a"

text \<open>The elements \<open>xs\<close>, in order, between the two sentinels of the head.\<close>

definition ll_rep :: "ll_head \<Rightarrow> ptr list \<Rightarrow> ll_store \<Rightarrow> bool" where
  "ll_rep lh xs h \<longleftrightarrow>
     distinct (iFirst lh # xs @ [iLast lh]) \<and>
     iPrev (h (iFirst lh)) = None \<and> iNext (h (iLast lh)) = None \<and>
     successively (ll_linked h) (iFirst lh # xs @ [iLast lh])"

lemma successively_frame:
  "successively P ps \<Longrightarrow>
   (\<And>a b. a \<in> set (butlast ps) \<Longrightarrow> b \<in> set (tl ps) \<Longrightarrow> P a b \<Longrightarrow> Q a b) \<Longrightarrow> successively Q ps"
proof (induction ps rule: induct_list012)
  case (3 x y zs)
  have "successively Q (y # zs)"
  proof (rule "3.IH"(2))
    show "successively P (y # zs)" using "3.prems"(1) by simp
    fix a b
    assume "a \<in> set (butlast (y # zs))" "b \<in> set (tl (y # zs))" "P a b"
    then show "Q a b" by (intro "3.prems"(2)) auto
  qed
  moreover have "Q x y" using "3.prems" by simp
  ultimately show ?case by simp
qed simp_all

text \<open>
  One splice covers both insertions: a node put between two neighbours \<open>a\<close> and \<open>b\<close>.
\<close>

definition ll_splice :: "ptr \<Rightarrow> ptr \<Rightarrow> ptr \<Rightarrow> ll_store \<Rightarrow> ll_store" where
  "ll_splice a p b h =
     h(p := \<lparr>iNext = Some b, iPrev = Some a\<rparr>, a := (h a)\<lparr>iNext := Some p\<rparr>, b := (h b)\<lparr>iPrev := Some p\<rparr>)"

lemma ll_node_eqI: "iNext x = iNext y \<Longrightarrow> iPrev x = iPrev y \<Longrightarrow> x = (y :: ll_node)"
  by simp

lemma ll_insertAfter_splice:
  "iNext (h a) = Some b \<Longrightarrow> distinct [a, p, b] \<Longrightarrow> ll_insertAfter a p h = Some (ll_splice a p b h)"
  by (auto simp: ll_insertAfter_def ll_splice_def Let_def fun_eq_iff)

lemma ll_insertBefore_splice:
  "iPrev (h b) = Some a \<Longrightarrow> distinct [a, p, b] \<Longrightarrow> ll_insertBefore b p h = Some (ll_splice a p b h)"
  by (auto simp: ll_insertBefore_def ll_splice_def Let_def fun_eq_iff)

lemma splice_linked:
  assumes "successively (ll_linked h) (ps @ qs)" and "ps \<noteq> []" and "qs \<noteq> []"
    and "distinct (ps @ qs)" and "p \<notin> set (ps @ qs)"
  shows "successively (ll_linked (ll_splice (last ps) p (hd qs) h)) (ps @ p # qs)"
proof -
  let ?h = "ll_splice (last ps) p (hd qs) h"
  have ps: "ps = butlast ps @ [last ps]" and qs: "qs = hd qs # tl qs"
    using assms(2,3) by simp_all
  have d: "last ps \<notin> set (butlast ps)" "hd qs \<notin> set (tl qs)"
    using assms(4) ps qs by (metis distinct_append not_distinct_conv_prefix distinct.simps(2))+
  have mem: "last ps \<in> set ps" "hd qs \<in> set qs" using assms(2,3) by simp_all
  have "successively (ll_linked ?h) ps"
  proof (rule successively_frame)
    show "successively (ll_linked h) ps" using assms(1) by (simp add: successively_append_iff)
    fix a b
    assume "a \<in> set (butlast ps)" "b \<in> set (tl ps)" "ll_linked h a b"
    moreover from this have "a \<in> set ps" "b \<in> set ps" "a \<noteq> last ps"
      using d(1) by (auto dest: in_set_butlastD list.set_sel(2) [OF assms(2)])
    ultimately show "ll_linked ?h a b"
      using assms(4,5) mem by (auto simp: ll_linked_def ll_splice_def)
  qed
  moreover have "successively (ll_linked ?h) qs"
  proof (rule successively_frame)
    show "successively (ll_linked h) qs" using assms(1) by (simp add: successively_append_iff)
    fix a b
    assume "a \<in> set (butlast qs)" "b \<in> set (tl qs)" "ll_linked h a b"
    moreover from this have "a \<in> set qs" "b \<in> set qs" "b \<noteq> hd qs"
      using d(2) by (auto dest: in_set_butlastD list.set_sel(2) [OF assms(3)])
    ultimately show "ll_linked ?h a b"
      using assms(4,5) mem by (auto simp: ll_linked_def ll_splice_def)
  qed
  moreover have "ll_linked ?h (last ps) p" "ll_linked ?h p (hd qs)"
    using assms(4,5) mem by (auto simp: ll_linked_def ll_splice_def)
  ultimately show ?thesis
    using assms(2,3) by (simp add: successively_append_iff successively_Cons)
qed

definition ll_cut :: "ptr \<Rightarrow> ptr \<Rightarrow> ptr \<Rightarrow> ll_store \<Rightarrow> ll_store" where
  "ll_cut a p b h = h(a := (h a)\<lparr>iNext := Some b\<rparr>, b := (h b)\<lparr>iPrev := Some a\<rparr>, p := ll_free)"

lemma ll_delink_cut:
  "iPrev (h p) = Some a \<Longrightarrow> iNext (h p) = Some b \<Longrightarrow> distinct [a, p, b] \<Longrightarrow>
     ll_delink p h = ll_cut a p b h"
  by (auto simp: ll_delink_def ll_cut_def ll_isInList_def ll_free_def Let_def fun_eq_iff)

lemma cut_linked:
  assumes "successively (ll_linked h) (ps @ p # qs)" and "ps \<noteq> []" and "qs \<noteq> []"
    and "distinct (ps @ p # qs)"
  shows "successively (ll_linked (ll_cut (last ps) p (hd qs) h)) (ps @ qs)"
proof -
  let ?h = "ll_cut (last ps) p (hd qs) h"
  have mem: "last ps \<in> set ps" "hd qs \<in> set qs" using assms(2,3) by simp_all
  have d: "last ps \<notin> set (butlast ps)" "hd qs \<notin> set (tl qs)"
    using assms(2-4) by (metis append_butlast_last_id distinct_append not_distinct_conv_prefix,
        metis distinct.simps(2) distinct_append list.collapse)
  have "successively (ll_linked ?h) ps"
  proof (rule successively_frame)
    show "successively (ll_linked h) ps" using assms(1) by (simp add: successively_append_iff)
    fix a b
    assume "a \<in> set (butlast ps)" "b \<in> set (tl ps)" "ll_linked h a b"
    moreover from this have "a \<in> set ps" "b \<in> set ps" "a \<noteq> last ps"
      using d(1) by (auto dest: in_set_butlastD list.set_sel(2) [OF assms(2)])
    ultimately show "ll_linked ?h a b"
      using assms(4) mem by (auto simp: ll_linked_def ll_cut_def)
  qed
  moreover have "successively (ll_linked ?h) qs"
  proof (rule successively_frame)
    show "successively (ll_linked h) qs"
      using assms(1) by (auto simp: successively_append_iff successively_Cons)
    fix a b
    assume "a \<in> set (butlast qs)" "b \<in> set (tl qs)" "ll_linked h a b"
    moreover from this have "a \<in> set qs" "b \<in> set qs" "b \<noteq> hd qs"
      using d(2) by (auto dest: in_set_butlastD list.set_sel(2) [OF assms(3)])
    ultimately show "ll_linked ?h a b"
      using assms(4) mem by (auto simp: ll_linked_def ll_cut_def)
  qed
  moreover have "ll_linked ?h (last ps) (hd qs)"
    using assms(4) mem by (auto simp: ll_linked_def ll_cut_def)
  ultimately show ?thesis using assms(2,3) by (simp add: successively_append_iff)
qed

lemma linked_neighbours:
  assumes "successively (ll_linked h) (ps @ p # qs)" and "ps \<noteq> []" and "qs \<noteq> []"
  shows "iPrev (h p) = Some (last ps)" and "iNext (h p) = Some (hd qs)"
  using assms by (auto simp: successively_append_iff successively_Cons ll_linked_def)

section \<open>Refinement\<close>

lemma ll_rep_construct:
  "iFirst lh \<noteq> iLast lh \<Longrightarrow> ll_rep lh [] (ll_construct lh h)"
  by (auto simp: ll_rep_def ll_construct_def ll_free_def ll_linked_def)

lemma ll_rep_insertFirst:
  assumes "ll_rep lh xs h" and "p \<notin> set (iFirst lh # xs @ [iLast lh])"
  shows "\<exists>h'. ll_insertFirst lh p h = Some h' \<and> ll_rep lh (p # xs) h'"
proof -
  let ?f = "iFirst lh" and ?qs = "xs @ [iLast lh]"
  let ?h = "ll_splice ?f p (hd ?qs) h"
  have s: "successively (ll_linked h) ([?f] @ ?qs)" and d: "distinct ([?f] @ ?qs)"
    using assms(1) by (simp_all add: ll_rep_def)
  have b: "iNext (h ?f) = Some (hd ?qs)" "hd ?qs \<in> set ?qs"
    using s by (cases xs; simp add: ll_linked_def)+
  have "ll_insertFirst lh p h = Some ?h"
    using b d assms(2) unfolding ll_insertFirst_def by (intro ll_insertAfter_splice) auto
  moreover have "successively (ll_linked ?h) ([?f] @ p # ?qs)"
    using splice_linked [OF s _ _ d] assms(2) by simp
  moreover have "iPrev (?h ?f) = None" "iNext (?h (iLast lh)) = None"
    using assms b d by (auto simp: ll_rep_def ll_splice_def)
  ultimately show ?thesis using assms by (auto simp: ll_rep_def)
qed

lemma ll_rep_insertLast:
  assumes "ll_rep lh xs h" and "p \<notin> set (iFirst lh # xs @ [iLast lh])"
  shows "\<exists>h'. ll_insertLast lh p h = Some h' \<and> ll_rep lh (xs @ [p]) h'"
proof -
  let ?l = "iLast lh" and ?ps = "iFirst lh # xs"
  let ?h = "ll_splice (last ?ps) p ?l h"
  have s: "successively (ll_linked h) (?ps @ [?l])" and d: "distinct (?ps @ [?l])"
    using assms(1) by (simp_all add: ll_rep_def)
  have a: "iPrev (h ?l) = Some (last ?ps)" "last ?ps \<in> set ?ps"
    using s by (simp only: successively_append_iff) (auto simp: ll_linked_def)
  have "ll_insertLast lh p h = Some ?h"
    using a d assms(2) unfolding ll_insertLast_def by (intro ll_insertBefore_splice) auto
  moreover have "successively (ll_linked ?h) (?ps @ p # [?l])"
    using splice_linked [OF s _ _ d] assms(2) by simp
  moreover have "iPrev (?h (iFirst lh)) = None" "iNext (?h ?l) = None"
    using assms a d by (auto simp: ll_rep_def ll_splice_def split: if_splits)
  ultimately show ?thesis using assms by (auto simp: ll_rep_def)
qed

lemma ll_rep_delink:
  assumes "ll_rep lh (xs @ p # ys) h"
  shows "ll_rep lh (xs @ ys) (ll_delink p h) \<and> \<not> ll_isInList (ll_delink p h) p"
proof -
  let ?ps = "iFirst lh # xs" and ?qs = "ys @ [iLast lh]"
  let ?h = "ll_cut (last ?ps) p (hd ?qs) h"
  have s: "successively (ll_linked h) (?ps @ p # ?qs)" and d: "distinct (?ps @ p # ?qs)"
    using assms by (simp_all add: ll_rep_def)
  have mem: "last ?ps \<in> set ?ps" "hd ?qs \<in> set ?qs" by (auto simp: hd_append)
  have "ll_delink p h = ?h"
    using linked_neighbours [OF s] d mem by (intro ll_delink_cut) auto
  moreover have "successively (ll_linked ?h) (?ps @ ?qs)"
    using cut_linked [OF s _ _ d] by simp
  moreover have "iPrev (?h (iFirst lh)) = None" "iNext (?h (iLast lh)) = None"
    using assms mem d by (auto simp: ll_rep_def ll_cut_def ll_free_def)
  moreover have "\<not> ll_isInList ?h p" by (simp add: ll_isInList_def ll_cut_def ll_free_def)
  ultimately show ?thesis using d by (auto simp: ll_rep_def)
qed

lemma ll_count_chain:
  "successively (ll_linked h) (p # xs @ [l]) \<Longrightarrow> iNext (h l) = None \<Longrightarrow>
     ll_count h (Some p) r = Some (r + 1 + word_of_nat (length xs))"
proof (induction xs arbitrary: p r)
  case Nil
  then have "ll_next h p = None" by (simp add: ll_next_def ll_hasNext_def ll_linked_def)
  then show ?case by (simp add: ll_count.simps)
next
  case (Cons x xs)
  then have next_p: "iNext (h p) = Some x" by (simp add: ll_linked_def)
  have "iNext (h x) \<noteq> None" using Cons.prems by (cases xs) (auto simp: ll_linked_def)
  with next_p have "ll_next h p = Some x" by (simp add: ll_next_def ll_hasNext_def)
  with Cons show ?case by (subst ll_count.simps) (simp add: add.assoc)
qed

lemma ll_rep_empty:
  "ll_rep lh xs h \<Longrightarrow> ll_isEmpty lh h = Some (xs = [])"
  by (cases xs; cases "tl xs") (auto simp: ll_rep_def ll_isEmpty_def ll_isInList_def ll_linked_def)

lemma ll_rep_getFirst:
  "ll_rep lh xs h \<Longrightarrow> ll_getFirst lh h = Some (case xs of [] \<Rightarrow> None | x # _ \<Rightarrow> Some x)"
  by (cases xs) (auto simp: ll_getFirst_def ll_rep_empty, simp add: ll_rep_def ll_linked_def)

lemma ll_rep_getSize:
  assumes "ll_rep lh xs h" and "iSize lh = 0"
  shows "ll_getSize lh h = Some (word_of_nat (length xs))"
proof (cases xs)
  case Nil
  with assms show ?thesis by (simp add: ll_getSize_def ll_rep_getFirst ll_count.simps)
next
  case (Cons x ys)
  with assms have "successively (ll_linked h) (x # ys @ [iLast lh])" "iNext (h (iLast lh)) = None"
    by (simp_all add: ll_rep_def)
  from ll_count_chain [OF this, of 0] Cons assms show ?thesis
    by (simp add: ll_getSize_def ll_rep_getFirst)
qed

text \<open>Sequences of operations, on the store and on the list it represents.\<close>

datatype ll_op = Insert_first ptr | Insert_last ptr | Delink ptr

fun ll_exec :: "ll_head \<Rightarrow> ll_op \<Rightarrow> ll_store \<Rightarrow> ll_store option" where
  "ll_exec lh (Insert_first p) h = ll_insertFirst lh p h"
| "ll_exec lh (Insert_last p) h = ll_insertLast lh p h"
| "ll_exec lh (Delink p) h = Some (ll_delink p h)"

fun ll_exec_all :: "ll_head \<Rightarrow> ll_op list \<Rightarrow> ll_store \<Rightarrow> ll_store option" where
  "ll_exec_all lh [] h = Some h"
| "ll_exec_all lh (op # ops) h = Option.bind (ll_exec lh op h) (ll_exec_all lh ops)"

fun ll_spec :: "ll_op \<Rightarrow> ptr list \<Rightarrow> ptr list" where
  "ll_spec (Insert_first p) xs = p # xs"
| "ll_spec (Insert_last p) xs = xs @ [p]"
| "ll_spec (Delink p) xs = remove1 p xs"

text \<open>The client's side: insert only nodes that are in no list, unlink only linked ones.\<close>

fun ll_legal :: "ll_head \<Rightarrow> ll_op \<Rightarrow> ptr list \<Rightarrow> bool" where
  "ll_legal lh (Insert_first p) xs \<longleftrightarrow> p \<notin> set (iFirst lh # xs @ [iLast lh])"
| "ll_legal lh (Insert_last p) xs \<longleftrightarrow> p \<notin> set (iFirst lh # xs @ [iLast lh])"
| "ll_legal lh (Delink p) xs \<longleftrightarrow> p \<in> set xs"

fun ll_legal_all :: "ll_head \<Rightarrow> ll_op list \<Rightarrow> ptr list \<Rightarrow> bool" where
  "ll_legal_all lh [] xs \<longleftrightarrow> True"
| "ll_legal_all lh (op # ops) xs \<longleftrightarrow> ll_legal lh op xs \<and> ll_legal_all lh ops (ll_spec op xs)"

lemma ll_exec_refines:
  assumes "ll_rep lh xs h" and "ll_legal lh op xs"
  shows "\<exists>h'. ll_exec lh op h = Some h' \<and> ll_rep lh (ll_spec op xs) h'"
proof (cases op)
  case (Insert_first p)
  with assms show ?thesis using ll_rep_insertFirst [of lh xs h p] by simp
next
  case (Insert_last p)
  with assms show ?thesis using ll_rep_insertLast [of lh xs h p] by simp
next
  case (Delink p)
  with assms(2) obtain us vs where xs: "xs = us @ p # vs" "p \<notin> set us"
    by (auto dest: split_list_first)
  with assms(1) Delink show ?thesis using ll_rep_delink [of lh us p vs h] by (simp add: remove1_append)
qed

section \<open>The locked queue\<close>

text \<open>
  Each guarded operation runs under the queue's mutex, so it is one step; \<^verbatim>\<open>peek\<close> and \<^verbatim>\<open>lock\<close>
  keep the mutex until \<^verbatim>\<open>unlock\<close>. An operation that has to wait for the mutex is \<open>None\<close>.
\<close>

record 'a locked_queue =
  lq_queue :: "'a list"
  lq_canceled :: bool
  lq_locked :: bool

definition lq_new :: "'a locked_queue" where
  "lq_new = \<lparr>lq_queue = [], lq_canceled = False, lq_locked = False\<rparr>"

definition lq_guard :: "'a locked_queue \<Rightarrow> 'b \<Rightarrow> 'b option" where
  "lq_guard q r = (if lq_locked q then None else Some r)"

definition lq_add :: "'a \<Rightarrow> 'a locked_queue \<Rightarrow> 'a locked_queue option" where
  "lq_add item q = lq_guard q (q\<lparr>lq_queue := lq_queue q @ [item]\<rparr>)"

definition lq_next :: "'a locked_queue \<Rightarrow> ('a option \<times> 'a locked_queue) option" where
  "lq_next q = lq_guard q
     (case lq_queue q of [] \<Rightarrow> (None, q) | x # rest \<Rightarrow> (Some x, q\<lparr>lq_queue := rest\<rparr>))"

text \<open>With a checker that refuses the front element, it stays and nothing is returned.\<close>

definition lq_next_checked :: "('a \<Rightarrow> bool) \<Rightarrow> 'a locked_queue \<Rightarrow> ('a option \<times> 'a locked_queue) option" where
  "lq_next_checked check q = lq_guard q
     (case lq_queue q of [] \<Rightarrow> (None, q)
      | x # rest \<Rightarrow> if \<not> check x then (None, q) else (Some x, q\<lparr>lq_queue := rest\<rparr>))"

definition lq_lock :: "'a locked_queue \<Rightarrow> 'a locked_queue option" where
  "lq_lock q = lq_guard q (q\<lparr>lq_locked := True\<rparr>)"

definition lq_unlock :: "'a locked_queue \<Rightarrow> 'a locked_queue" where
  "lq_unlock q = q\<lparr>lq_locked := False\<rparr>"

definition lq_peek :: "'a locked_queue \<Rightarrow> ((unit, 'a) outcome \<times> 'a locked_queue) option" where
  "lq_peek q = map_option
     (\<lambda>q'. (case lq_queue q' of [] \<Rightarrow> Undefined | x # _ \<Rightarrow> Ok x, q')) (lq_lock q)"

definition lq_cancel :: "'a locked_queue \<Rightarrow> 'a locked_queue option" where
  "lq_cancel q = lq_guard q (q\<lparr>lq_canceled := True\<rparr>)"

definition lq_cancelled :: "'a locked_queue \<Rightarrow> bool option" where
  "lq_cancelled q = lq_guard q (lq_canceled q)"

definition lq_empty_unsafe :: "'a locked_queue \<Rightarrow> bool" where
  "lq_empty_unsafe q \<longleftrightarrow> lq_queue q = []"

definition lq_empty :: "'a locked_queue \<Rightarrow> bool option" where
  "lq_empty q = lq_guard q (lq_queue q = [])"

text \<open>
  The contract consumers rely on: what is taken out, in order, is a prefix of what was put
  in, and what is left is the rest, for any interleaving of producers and consumers.
\<close>

locale fifo =
  fixes enq :: "'a \<Rightarrow> 'q \<Rightarrow> 'q option"
    and deq :: "'q \<Rightarrow> ('a option \<times> 'q) option"
    and items :: "'q \<Rightarrow> 'a list"
  assumes enq_items: "enq x q = Some q' \<Longrightarrow> items q' = items q @ [x]"
    and deq_some: "deq q = Some (Some x, q') \<Longrightarrow> items q = x # items q'"
    and deq_none: "deq q = Some (None, q') \<Longrightarrow> items q' = items q"
begin

text \<open>A run: \<open>Inl x\<close> enqueues, \<open>Inr ()\<close> dequeues; the result is what was put in and taken out.\<close>

fun run :: "('a + unit) list \<Rightarrow> 'q \<Rightarrow> ('a list \<times> 'a list \<times> 'q) option" where
  "run [] q = Some ([], [], q)"
| "run (Inl x # es) q =
     (case enq x q of None \<Rightarrow> None
      | Some q' \<Rightarrow> map_option (\<lambda>(ins, outs, r). (x # ins, outs, r)) (run es q'))"
| "run (Inr u # es) q =
     (case deq q of None \<Rightarrow> None
      | Some (y, q') \<Rightarrow> map_option (\<lambda>(ins, outs, r).
          (ins, (case y of None \<Rightarrow> outs | Some x \<Rightarrow> x # outs), r)) (run es q'))"

lemma run_order: "run es q = Some (ins, outs, r) \<Longrightarrow> items q @ ins = outs @ items r"
proof (induction es q arbitrary: ins outs r rule: run.induct)
  case (2 x es q)
  then obtain q' ins' where q': "enq x q = Some q'" "run es q' = Some (ins', outs, r)" "ins = x # ins'"
    by (auto split: option.splits)
  with 2 have "items q' @ ins' = outs @ items r" by auto
  with enq_items [OF q'(1)] q'(3) show ?case by simp
next
  case (3 u es q)
  then obtain y q' outs' where q': "deq q = Some (y, q')" "run es q' = Some (ins, outs', r)"
    "outs = (case y of None \<Rightarrow> outs' | Some x \<Rightarrow> x # outs')"
    by (auto split: option.splits)
  with 3 have "items q' @ ins = outs' @ items r" by auto
  with q' deq_some [of q _ q'] deq_none [of q q'] show ?case by (cases y) auto
qed simp

end

interpretation lq: fifo lq_add lq_next lq_queue
  by unfold_locales (auto simp: lq_add_def lq_next_def lq_guard_def split: if_splits list.splits)

interpretation lqc: fifo lq_add "lq_next_checked check" lq_queue for check
  by unfold_locales (auto simp: lq_add_def lq_next_checked_def lq_guard_def split: if_splits list.splits)

text \<open>
  A schedule of the queue: producers add, consumers take with a checker. The result is what
  was added, what was taken, and the queue at the end.
\<close>

datatype 'a lq_event = Add 'a | Take

fun lq_run :: "('a \<Rightarrow> bool) \<Rightarrow> 'a lq_event list \<Rightarrow> 'a locked_queue \<Rightarrow> ('a list \<times> 'a list \<times> 'a locked_queue) option" where
  "lq_run check [] q = Some ([], [], q)"
| "lq_run check (Add x # es) q =
     (case lq_add x q of None \<Rightarrow> None
      | Some q' \<Rightarrow> map_option (\<lambda>(ins, outs, r). (x # ins, outs, r)) (lq_run check es q'))"
| "lq_run check (Take # es) q =
     (case lq_next_checked check q of None \<Rightarrow> None
      | Some (y, q') \<Rightarrow> map_option (\<lambda>(ins, outs, r).
          (ins, (case y of None \<Rightarrow> outs | Some x \<Rightarrow> x # outs), r)) (lq_run check es q'))"

definition lq_code :: "'a lq_event \<Rightarrow> 'a + unit" where
  "lq_code e = (case e of Add x \<Rightarrow> Inl x | Take \<Rightarrow> Inr ())"

lemma lq_run_code: "lq_run check es q = lqc.run check (map lq_code es) q"
  by (induction check es q rule: lq_run.induct) (simp_all add: lq_code_def split: option.splits prod.splits)

section \<open>Properties\<close>

text \<open>C21: The intrusive list implements a sequence. Starting from a constructed head, any legal
sequence of \<open>insertFirst\<close>, \<open>insertLast\<close> and \<open>delink\<close> dereferences no null pointer, leaves the
two chains of pointers consistent, represents the list the abstract operations give, and
\<open>getSize\<close> then counts it.\<close>

theorem intrusive_list_refines_sequence:
  assumes "iFirst lh \<noteq> iLast lh" and "iSize lh = 0" and "ll_legal_all lh ops []"
  shows "\<exists>h'. ll_exec_all lh ops (ll_construct lh h) = Some h' \<and>
     ll_rep lh (fold ll_spec ops []) h' \<and>
     ll_getSize lh h' = Some (word_of_nat (length (fold ll_spec ops [])))"
proof -
  have "ll_rep lh xs g \<Longrightarrow> ll_legal_all lh ops xs \<Longrightarrow>
      \<exists>h'. ll_exec_all lh ops g = Some h' \<and> ll_rep lh (fold ll_spec ops xs) h'" for xs g
  proof (induction ops arbitrary: xs g)
    case (Cons op ops)
    then obtain g' where "ll_exec lh op g = Some g'" "ll_rep lh (ll_spec op xs) g'"
      using ll_exec_refines by fastforce
    with Cons show ?case by simp
  qed simp
  from this [OF ll_rep_construct [OF assms(1)] assms(3)] ll_rep_getSize [OF _ assms(2)]
  show ?thesis by blast
qed

lemma intrusive_list_refines_sequence_witness:
  "\<exists>h'. ll_exec_all \<lparr>iFirst = 0, iLast = 1, iSize = 0\<rparr> [Insert_last 5, Insert_first 6, Delink 5]
      (ll_construct \<lparr>iFirst = 0, iLast = 1, iSize = 0\<rparr> (\<lambda>_. ll_free)) = Some h' \<and>
    ll_rep \<lparr>iFirst = 0, iLast = 1, iSize = 0\<rparr> [6] h'"
  using intrusive_list_refines_sequence [of "\<lparr>iFirst = 0, iLast = 1, iSize = 0\<rparr>"
      "[Insert_last 5, Insert_first 6, Delink 5]" "\<lambda>_. ll_free"] by auto

text \<open>The locked queue is first-in first-out and loses nothing. For any interleaving of adds
and takes that is not blocked, and whatever the checker refuses, the elements taken out
followed by those still queued are exactly the elements queued at the start followed by
those added, in order.\<close>

theorem locked_queue_fifo:
  assumes "lq_run check es q = Some (ins, outs, r)"
  shows "lq_queue q @ ins = outs @ lq_queue r"
  using assms unfolding lq_run_code by (rule lqc.run_order)

lemma locked_queue_fifo_witness:
  "lq_queue (lq_new :: nat locked_queue) @ [3, 4] = [3] @ [4]"
proof -
  have "lq_run (\<lambda>x. x \<noteq> 4) [Add 3, Add 4, Take, Take] (lq_new :: nat locked_queue) =
      Some ([3, 4], [3], \<lparr>lq_queue = [4], lq_canceled = False, lq_locked = False\<rparr>)"
    by (simp add: lq_new_def lq_add_def lq_next_checked_def lq_guard_def)
  from locked_queue_fifo [OF this] show ?thesis by simp
qed

end
