(* ===== verification/Timers.thy ===== *)
theory Timers
  imports Prelude
begin

text \<open>
  \<^verbatim>\<open>src/shared/Timer.h\<close> and the clock part of \<^verbatim>\<open>src/shared/Util.cpp\<close>: the millisecond clock that
  wraps every 49 days, the difference of two readings, and the four timers every update
  loop is built from. \<^verbatim>\<open>time_t\<close> is a signed 64-bit count kept as \<open>int\<close>: no timer of the server
  reaches its bounds. The 32-bit timers keep their width.
\<close>

section \<open>The clock\<close>

definition getMSTimeDiff :: "u32 \<Rightarrow> u32 \<Rightarrow> u32" where
  "getMSTimeDiff oldMSTime newMSTime =
     (if oldMSTime > newMSTime
      then let diff_1 = (0xFFFFFFFF - oldMSTime) + newMSTime;
               diff_2 = oldMSTime - newMSTime
           in min diff_1 diff_2
      else newMSTime - oldMSTime)"

text \<open>
  \<open>diff\<close> is the number of milliseconds since the server started, as the operating system
  gives it; the clock is that number modulo \<open>2 ^ 32 - 1\<close>.
\<close>

definition getMSTime :: "nat \<Rightarrow> u32" where
  "getMSTime diff = word_of_nat (diff mod 0xFFFFFFFF)"

record world_timer =
  wt_iTime :: u32
  wt_iPrevTime :: u32

text \<open>One tick, with the milliseconds since the start as its argument.\<close>

definition wt_tick :: "nat \<Rightarrow> world_timer \<Rightarrow> u32 \<times> world_timer" where
  "wt_tick diff t =
     (let t1 = t\<lparr>wt_iPrevTime := wt_iTime t\<rparr>; t2 = t1\<lparr>wt_iTime := getMSTime diff\<rparr>
      in (getMSTimeDiff (wt_iPrevTime t2) (wt_iTime t2), t2))"

section \<open>Timers\<close>

record interval_timer =
  it_interval :: int
  it_current :: int

definition it_new :: interval_timer where
  "it_new = \<lparr>it_interval = 0, it_current = 0\<rparr>"

definition it_Update :: "int \<Rightarrow> interval_timer \<Rightarrow> interval_timer" where
  "it_Update diff t =
     (let c = it_current t + diff in t\<lparr>it_current := (if c < 0 then 0 else c)\<rparr>)"

definition it_Passed :: "interval_timer \<Rightarrow> bool" where
  "it_Passed t \<longleftrightarrow> it_current t \<ge> it_interval t"

definition it_Reset :: "interval_timer \<Rightarrow> interval_timer" where
  "it_Reset t =
     (if it_current t \<ge> it_interval t then t\<lparr>it_current := it_current t - it_interval t\<rparr> else t)"

definition it_SetCurrent :: "int \<Rightarrow> interval_timer \<Rightarrow> interval_timer" where
  "it_SetCurrent c t = t\<lparr>it_current := c\<rparr>"

definition it_SetInterval :: "int \<Rightarrow> interval_timer \<Rightarrow> interval_timer" where
  "it_SetInterval i t = t\<lparr>it_interval := i\<rparr>"

record short_interval_timer =
  sit_interval :: u32
  sit_current :: u32

definition sit_new :: short_interval_timer where
  "sit_new = \<lparr>sit_interval = 0, sit_current = 0\<rparr>"

definition sit_Update :: "u32 \<Rightarrow> short_interval_timer \<Rightarrow> short_interval_timer" where
  "sit_Update diff t = t\<lparr>sit_current := sit_current t + diff\<rparr>"

definition sit_Passed :: "short_interval_timer \<Rightarrow> bool" where
  "sit_Passed t \<longleftrightarrow> sit_current t \<ge> sit_interval t"

definition sit_Reset :: "short_interval_timer \<Rightarrow> short_interval_timer" where
  "sit_Reset t =
     (if sit_current t \<ge> sit_interval t then t\<lparr>sit_current := sit_current t - sit_interval t\<rparr> else t)"

text \<open>The trackers count down and have passed at zero or below.\<close>

record time_tracker =
  tt_expiryTime :: int

definition tt_Update :: "int \<Rightarrow> time_tracker \<Rightarrow> time_tracker" where
  "tt_Update diff t = t\<lparr>tt_expiryTime := tt_expiryTime t - diff\<rparr>"

definition tt_Passed :: "time_tracker \<Rightarrow> bool" where
  "tt_Passed t \<longleftrightarrow> tt_expiryTime t \<le> 0"

definition tt_Reset :: "int \<Rightarrow> time_tracker \<Rightarrow> time_tracker" where
  "tt_Reset interval t = t\<lparr>tt_expiryTime := interval\<rparr>"

record short_time_tracker =
  stt_expiryTime :: int

definition stt_Update :: "int \<Rightarrow> short_time_tracker \<Rightarrow> short_time_tracker" where
  "stt_Update diff t = t\<lparr>stt_expiryTime := wrap32 (stt_expiryTime t - diff)\<rparr>"

definition stt_Passed :: "short_time_tracker \<Rightarrow> bool" where
  "stt_Passed t \<longleftrightarrow> stt_expiryTime t \<le> 0"

definition stt_Reset :: "int \<Rightarrow> short_time_tracker \<Rightarrow> short_time_tracker" where
  "stt_Reset interval t = t\<lparr>stt_expiryTime := interval\<rparr>"

text \<open>The update loops of the server: advance, and if the interval has passed, fire and reset.\<close>

definition sit_tick :: "u32 \<Rightarrow> short_interval_timer \<Rightarrow> bool \<times> short_interval_timer" where
  "sit_tick d t =
     (let t' = sit_Update d t in if sit_Passed t' then (True, sit_Reset t') else (False, t'))"

fun sit_ticks :: "u32 list \<Rightarrow> short_interval_timer \<Rightarrow> nat \<times> short_interval_timer" where
  "sit_ticks [] t = (0, t)"
| "sit_ticks (d # ds) t =
     (case sit_tick d t of (fired, t') \<Rightarrow>
        (case sit_ticks ds t' of (n, t'') \<Rightarrow> ((if fired then Suc n else n), t'')))"

fun sit_fits :: "u32 list \<Rightarrow> short_interval_timer \<Rightarrow> bool" where
  "sit_fits [] t \<longleftrightarrow> True"
| "sit_fits (d # ds) t \<longleftrightarrow> unat (sit_current t) + unat d < 4294967296 \<and> sit_fits ds (snd (sit_tick d t))"

section \<open>The contract of a periodic timer\<close>

text \<open>
  The update loops all read: advance, and if the interval has passed, fire and \<^verbatim>\<open>Reset\<close>.
  \<^verbatim>\<open>Reset\<close> subtracts the interval once, so that the remainder is carried over. \<open>fits\<close> bounds
  what a timer of limited width can be advanced by.
\<close>

locale periodic_timer =
  fixes update :: "'d \<Rightarrow> 't \<Rightarrow> 't" and passed :: "'t \<Rightarrow> bool" and reset :: "'t \<Rightarrow> 't"
    and current :: "'t \<Rightarrow> int" and interval :: "'t \<Rightarrow> int" and delta :: "'d \<Rightarrow> int"
    and fits :: "'t \<Rightarrow> 'd \<Rightarrow> bool"
  assumes current_update: "fits t d \<Longrightarrow> current (update d t) = current t + delta d"
    and interval_update: "interval (update d t) = interval t"
    and passed_iff: "passed t \<longleftrightarrow> interval t \<le> current t"
    and current_reset: "passed t \<Longrightarrow> current (reset t) = current t - interval t"
    and interval_reset: "interval (reset t) = interval t"
begin

definition tick :: "'d \<Rightarrow> 't \<Rightarrow> bool \<times> 't" where
  "tick d t = (let t' = update d t in if passed t' then (True, reset t') else (False, t'))"

fun ticks :: "'d list \<Rightarrow> 't \<Rightarrow> nat \<times> 't" where
  "ticks [] t = (0, t)"
| "ticks (d # ds) t =
     (case tick d t of (fired, t') \<Rightarrow>
        (case ticks ds t' of (n, t'') \<Rightarrow> ((if fired then Suc n else n), t'')))"

fun all_fit :: "'d list \<Rightarrow> 't \<Rightarrow> bool" where
  "all_fit [] t \<longleftrightarrow> True"
| "all_fit (d # ds) t \<longleftrightarrow> fits t d \<and> all_fit ds (snd (tick d t))"

lemma tick_current:
  "fits t d \<Longrightarrow> current (snd (tick d t)) = current t + delta d - (if fst (tick d t) then interval t else 0)"
  by (auto simp: tick_def Let_def current_update current_reset interval_update)

lemma tick_interval: "interval (snd (tick d t)) = interval t"
  by (simp add: tick_def Let_def interval_update interval_reset)

text \<open>No time is lost: what was fed in is what was fired plus what is left over.\<close>

lemma ticks_account:
  "all_fit ds t \<Longrightarrow>
     current t + sum_list (map delta ds) = current (snd (ticks ds t)) + interval t * int (fst (ticks ds t))"
proof (induction ds arbitrary: t)
  case (Cons d ds)
  then have "current (snd (tick d t)) + sum_list (map delta ds) =
      current (snd (ticks ds (snd (tick d t)))) + interval t * int (fst (ticks ds (snd (tick d t))))"
    by (simp add: tick_interval)
  with Cons.prems tick_current [of t d] show ?case
    by (auto simp: case_prod_beta algebra_simps)
qed simp

end

interpretation it: periodic_timer it_Update it_Passed it_Reset it_current it_interval "\<lambda>d. d"
  "\<lambda>t d. 0 \<le> it_current t + d"
  by unfold_locales (auto simp: it_Update_def it_Passed_def it_Reset_def Let_def)

lemma uint_u32_add: "uint (a :: u32) + uint b < 4294967296 \<Longrightarrow> uint (a + b) = uint a + uint b"
  by (simp add: uint_word_ariths)

interpretation sit: periodic_timer sit_Update sit_Passed sit_Reset "\<lambda>t. uint (sit_current t)"
  "\<lambda>t. uint (sit_interval t)" uint "\<lambda>t d. uint (sit_current t) + uint d < 4294967296"
proof
  fix t :: short_interval_timer and d
  assume "uint (sit_current t) + uint (d :: u32) < 4294967296"
  then show "uint (sit_current (sit_Update d t)) = uint (sit_current t) + uint d"
    by (simp add: sit_Update_def uint_u32_add)
next
  fix t :: short_interval_timer
  assume "sit_Passed t"
  then have "sit_interval t \<le> sit_current t" by (simp add: sit_Passed_def)
  then show "uint (sit_current (sit_Reset t)) = uint (sit_current t) - uint (sit_interval t)"
    using uint_minus_simple_alt [of "sit_interval t" "sit_current t"] by (simp add: sit_Reset_def)
qed (simp_all add: sit_Update_def sit_Passed_def sit_Reset_def word_le_def)

lemma sit_tick_eq: "sit_tick d t = sit.tick d t"
  by (simp add: sit_tick_def sit.tick_def)

lemma sit_ticks_eq: "sit_ticks ds t = sit.ticks ds t"
  by (induction ds arbitrary: t) (simp_all add: sit_tick_eq)

lemma sit_fits_eq: "sit_fits ds t = sit.all_fit ds t"
proof (induction ds arbitrary: t)
  case (Cons d ds)
  have "unat (sit_current t) + unat d < 4294967296 \<longleftrightarrow> uint (sit_current t) + uint d < 4294967296"
    unfolding uint_nat by linarith
  with Cons show ?case by (simp only: sit_fits.simps sit.all_fit.simps sit_tick_eq)
qed simp

section \<open>Properties\<close>

lemma mod_add_wrap:
  fixes a e M :: nat
  assumes "a < M" and "e < M"
  shows "(a + e) mod M = (if a + e < M then a + e else a + e - M)"
proof (cases "a + e < M")
  case False
  then have "(a + e) mod M = (a + e - M) mod M" by (simp add: le_mod_geq)
  with assms False show ?thesis by simp
qed simp

lemma unat_getMSTime: "unat (getMSTime ms) = ms mod 4294967295"
proof -
  have "ms mod 4294967295 < 4294967295" by simp
  then have "ms mod 4294967295 < 4294967296" by linarith
  then show ?thesis by (simp add: getMSTime_def unat_of_nat)
qed

lemma unat_max_minus: "unat (0xFFFFFFFF - a :: u32) = 4294967295 - unat a"
proof -
  have "unat (0xFFFFFFFF :: u32) = 4294967295" by simp
  moreover have "a \<le> 0xFFFFFFFF"
    unfolding word_le_nat_alt calculation using unat_u32_less [of a] by linarith
  ultimately show ?thesis by (simp only: unat_sub)
qed

text \<open>C39: Elapsed time is measured exactly across the clock's wrap. The clock counts modulo
\<open>2 ^ 32 - 1\<close>; for any two readings less than \<open>2 ^ 31 - 1\<close> milliseconds apart, whether or not
the clock has wrapped between them, the difference is the time that has passed.\<close>

theorem ms_diff_exact:
  assumes "e < 2147483647"
  shows "unat (getMSTimeDiff (getMSTime ms) (getMSTime (ms + e))) = e"
proof -
  let ?M = "4294967295 :: nat"
  let ?a = "ms mod ?M" and ?b = "(ms + e) mod ?M"
  have a: "?a < ?M" by simp
  have b: "?b = (if ?a + e < ?M then ?a + e else ?a + e - ?M)"
  proof -
    have "?b = (?a + e) mod ?M" by (simp only: mod_add_left_eq)
    moreover have "e < ?M" using assms by linarith
    ultimately show ?thesis using mod_add_wrap [OF a] by (simp only: mod_less if_True)
  qed
  show ?thesis
  proof (cases "?a + e < ?M")
    case True
    then have le: "getMSTime ms \<le> getMSTime (ms + e)"
      using b by (simp only: word_le_nat_alt unat_getMSTime if_True)
    then have "getMSTimeDiff (getMSTime ms) (getMSTime (ms + e)) = getMSTime (ms + e) - getMSTime ms"
      by (simp add: getMSTimeDiff_def not_less)
    then show ?thesis using le b True by (simp only: unat_sub unat_getMSTime if_True)
  next
    case False
    then have b': "?b = ?a + e - ?M" using b by simp
    let ?x = "getMSTime ms" and ?y = "getMSTime (ms + e)"
    have lt: "?y < ?x"
      using b' False a assms unfolding word_less_nat_alt unat_getMSTime by linarith
    have d1: "unat ((0xFFFFFFFF - ?x) + ?y) = e"
    proof -
      have "unat (0xFFFFFFFF - ?x) + unat ?y = e"
        unfolding unat_max_minus unat_getMSTime using b' False a assms by linarith
      then show ?thesis using assms unat_u32_add [of "0xFFFFFFFF - ?x" ?y] by linarith
    qed
    have d2: "unat (?x - ?y) = ?M - e"
      unfolding unat_sub [OF less_imp_le [OF lt]] unat_getMSTime
      using b' False a assms by linarith
    have "(0xFFFFFFFF - ?x) + ?y \<le> ?x - ?y"
      unfolding word_le_nat_alt d1 d2 using assms by linarith
    then have "getMSTimeDiff ?x ?y = (0xFFFFFFFF - ?x) + ?y"
      using lt by (simp only: getMSTimeDiff_def Let_def if_True min_def)
    then show ?thesis by (simp only: d1)
  qed
qed

lemma ms_diff_exact_witness:
  "unat (getMSTimeDiff (getMSTime 4294967290) (getMSTime (4294967290 + 60))) = 60 \<and>
   getMSTime (4294967290 + 60) < getMSTime 4294967290"
  using ms_diff_exact [of 60 4294967290] by (simp add: getMSTime_def)

text \<open>A periodic timer loses no time. Over any sequence of updates that stay within the 32-bit
counter, the time fed in plus the time on the counter at the start is the time left on it at
the end plus one interval per firing: a late update is made up for by the remainder carried
over.\<close>

theorem short_timer_accounts:
  assumes "sit_fits ds t" and "sit_ticks ds t = (n, t')"
  shows "uint (sit_current t) + sum_list (map uint ds) =
     uint (sit_current t') + uint (sit_interval t) * int n"
  using sit.ticks_account [of ds t] assms by (simp add: sit_ticks_eq sit_fits_eq)

lemma short_timer_accounts_witness:
  "sit_ticks [600, 700, 900] \<lparr>sit_interval = 1000, sit_current = 0\<rparr> =
     (2, \<lparr>sit_interval = 1000, sit_current = 200\<rparr>) \<and>
   (0::int) + 2200 = 200 + 1000 * 2"
proof -
  have "sit_ticks [600, 700, 900] \<lparr>sit_interval = 1000, sit_current = 0\<rparr> =
      (2, \<lparr>sit_interval = 1000, sit_current = 200\<rparr>)"
    by (simp add: sit_tick_def sit_Update_def sit_Passed_def sit_Reset_def word_le_nat_alt)
  moreover have "sit_fits [600, 700, 900] \<lparr>sit_interval = 1000, sit_current = 0\<rparr>"
    by (simp add: sit_tick_def sit_Update_def sit_Passed_def sit_Reset_def word_le_nat_alt)
  ultimately show ?thesis
    using short_timer_accounts [of "[600, 700, 900]" "\<lparr>sit_interval = 1000, sit_current = 0\<rparr>"] by simp
qed

end
