(* ===== verification/Events.thy ===== *)
theory Events
  imports Prelude "HOL-Library.Monad_Syntax"
begin

text \<open>
  The per-object event queue of \<^verbatim>\<open>src/framework/Utilities/EventProcessor.{h,cpp}\<close>. The
  \<^verbatim>\<open>std::multimap\<close> from planned time to event is a list sorted by key in which an insertion
  goes behind the entries of equal key. What an event's virtual \<^verbatim>\<open>Execute\<close> does to its
  processor is a parameter: whether it is finished, and the calls it makes (\<^verbatim>\<open>AddEvent\<close>,
  \<^verbatim>\<open>KillAllEvents\<close>, setting \<^verbatim>\<open>to_Abort\<close> of a queued event). The main loop of \<^verbatim>\<open>Update\<close> is a
  partial function, since an event that re-adds itself at the current time makes it run for
  ever. A log records what was executed, aborted and destroyed, in order.
\<close>

section \<open>Events and the processor\<close>

record basic_event =
  ev_id :: nat
  ev_to_Abort :: bool
  ev_addTime :: u64
  ev_execTime :: u64

definition ev_new :: "nat \<Rightarrow> basic_event" where
  "ev_new i = \<lparr>ev_id = i, ev_to_Abort = False, ev_addTime = 0, ev_execTime = 0\<rparr>"

datatype ev_entry = Executed nat u64 | Aborted nat u64 | Deleted nat

record event_processor =
  ep_time :: u64
  ep_events :: "(u64 \<times> basic_event) list"
  ep_aborting :: bool
  ep_log :: "ev_entry list"

definition ep_new :: event_processor where
  "ep_new = \<lparr>ep_time = 0, ep_events = [], ep_aborting = False, ep_log = []\<rparr>"

fun mm_insert :: "u64 \<Rightarrow> 'v \<Rightarrow> (u64 \<times> 'v) list \<Rightarrow> (u64 \<times> 'v) list" where
  "mm_insert k v [] = [(k, v)]"
| "mm_insert k v ((k', v') # m) =
     (if k < k' then (k, v) # (k', v') # m else (k', v') # mm_insert k v m)"

definition ep_AddEvent :: "basic_event \<Rightarrow> u64 \<Rightarrow> bool \<Rightarrow> event_processor \<Rightarrow> event_processor" where
  "ep_AddEvent ev e_time set_addtime p =
     (let ev1 = (if set_addtime then ev\<lparr>ev_addTime := ep_time p\<rparr> else ev);
          ev2 = ev1\<lparr>ev_execTime := e_time\<rparr>
      in p\<lparr>ep_events := mm_insert e_time ev2 (ep_events p)\<rparr>)"

definition ep_CalculateTime :: "u64 \<Rightarrow> event_processor \<Rightarrow> u64" where
  "ep_CalculateTime t_offset p = ep_time p + t_offset"

text \<open>
  \<^verbatim>\<open>KillAllEvents\<close>: the pass over the queue marks and aborts every event and destroys the ones
  that may be destroyed; unless forced, exactly those also leave the queue. A forced call
  clears the queue.
\<close>

fun ep_kill_loop :: "(basic_event \<Rightarrow> bool) \<Rightarrow> bool \<Rightarrow> u64 \<Rightarrow> (u64 \<times> basic_event) list \<Rightarrow>
    (u64 \<times> basic_event) list \<times> ev_entry list" where
  "ep_kill_loop deletable force now [] = ([], [])"
| "ep_kill_loop deletable force now ((k, ev) # es) =
     (let ev' = ev\<lparr>ev_to_Abort := True\<rparr>;
          (rest, log) = ep_kill_loop deletable force now es
      in if force \<or> deletable ev'
         then ((if force then (k, ev') # rest else rest), Aborted (ev_id ev) now # Deleted (ev_id ev) # log)
         else ((k, ev') # rest, Aborted (ev_id ev) now # log))"

definition ep_KillAllEvents :: "(basic_event \<Rightarrow> bool) \<Rightarrow> bool \<Rightarrow> event_processor \<Rightarrow> event_processor" where
  "ep_KillAllEvents deletable force p =
     (let (es, log) = ep_kill_loop deletable force (ep_time p) (ep_events p)
      in p\<lparr>ep_aborting := True, ep_events := (if force then [] else es), ep_log := ep_log p @ log\<rparr>)"

text \<open>Code outside the processor sets \<^verbatim>\<open>to_Abort\<close> through its own pointer to a queued event.\<close>

definition ep_mark_abort :: "nat \<Rightarrow> event_processor \<Rightarrow> event_processor" where
  "ep_mark_abort i p = p\<lparr>ep_events := map (\<lambda>(k, ev). (k, if ev_id ev = i then ev\<lparr>ev_to_Abort := True\<rparr> else ev)) (ep_events p)\<rparr>"

datatype ev_call = Call_Add basic_event u64 bool | Call_Kill bool | Call_Abort nat

primrec ep_call :: "(basic_event \<Rightarrow> bool) \<Rightarrow> ev_call \<Rightarrow> event_processor \<Rightarrow> event_processor" where
  "ep_call deletable (Call_Add ev t s) p = ep_AddEvent ev t s p"
| "ep_call deletable (Call_Kill force) p = ep_KillAllEvents deletable force p"
| "ep_call deletable (Call_Abort i) p = ep_mark_abort i p"

type_synonym ev_exec = "basic_event \<Rightarrow> event_processor \<Rightarrow> u32 \<Rightarrow> bool \<times> ev_call list"

definition ep_log_add :: "ev_entry list \<Rightarrow> event_processor \<Rightarrow> event_processor" where
  "ep_log_add es p = p\<lparr>ep_log := ep_log p @ es\<rparr>"

text \<open>One pass of the main loop: the event has already been taken out of the queue.\<close>

definition ep_dispatch :: "(basic_event \<Rightarrow> bool) \<Rightarrow> ev_exec \<Rightarrow> u32 \<Rightarrow> basic_event \<Rightarrow> event_processor \<Rightarrow> event_processor" where
  "ep_dispatch deletable exec p_time ev p =
     (if \<not> ev_to_Abort ev then
        (let (finished, calls) = exec ev p p_time;
             p' = fold (ep_call deletable) calls (ep_log_add [Executed (ev_id ev) (ep_time p)] p)
         in if finished then ep_log_add [Deleted (ev_id ev)] p' else p')
      else ep_log_add [Aborted (ev_id ev) (ep_time p), Deleted (ev_id ev)] p)"

partial_function (option) ep_loop ::
    "(basic_event \<Rightarrow> bool) \<Rightarrow> ev_exec \<Rightarrow> u32 \<Rightarrow> event_processor \<Rightarrow> event_processor option" where
  [code]: "ep_loop deletable exec p_time p =
     (case ep_events p of
        [] \<Rightarrow> Some p
      | (k, ev) # es \<Rightarrow>
          (if k \<le> ep_time p
           then ep_loop deletable exec p_time (ep_dispatch deletable exec p_time ev (p\<lparr>ep_events := es\<rparr>))
           else Some p))"

definition ep_Update :: "(basic_event \<Rightarrow> bool) \<Rightarrow> ev_exec \<Rightarrow> u32 \<Rightarrow> event_processor \<Rightarrow> event_processor option" where
  "ep_Update deletable exec p_time p =
     ep_loop deletable exec p_time (p\<lparr>ep_time := ep_time p + ucast p_time\<rparr>)"

section \<open>The queue is sorted by planned time\<close>

definition ep_sorted :: "event_processor \<Rightarrow> bool" where
  "ep_sorted p \<longleftrightarrow> sorted (map fst (ep_events p))"

lemma set_mm_insert [simp]: "set (mm_insert k v m) = insert (k, v) (set m)"
  by (induction k v m rule: mm_insert.induct) auto

lemma sorted_mm_insert: "sorted (map fst m) \<Longrightarrow> sorted (map fst (mm_insert k v m))"
  by (induction k v m rule: mm_insert.induct) (auto intro: less_imp_le order_trans simp: not_less)

lemma mm_insert_behind:
  "sorted (map fst m) \<Longrightarrow> mm_insert k v m = takeWhile (\<lambda>e. fst e \<le> k) m @ (k, v) # dropWhile (\<lambda>e. fst e \<le> k) m"
  by (induction m) (auto simp: not_less)

lemma kill_loop_forced: "fst (ep_kill_loop d True now es) = map (\<lambda>(k, ev). (k, ev\<lparr>ev_to_Abort := True\<rparr>)) es"
  by (induction es) (auto simp: Let_def case_prod_beta)

lemma kill_loop_kept:
  "fst (ep_kill_loop d False now es) =
     filter (\<lambda>e. \<not> d (snd e)) (map (\<lambda>(k, ev). (k, ev\<lparr>ev_to_Abort := True\<rparr>)) es)"
  by (induction es) (auto simp: Let_def case_prod_beta)

lemma sorted_map_fst_filter: "sorted (map fst es) \<Longrightarrow> sorted (map fst (filter P es))"
  by (rule sorted_filter)

lemma ep_call_time [simp]: "ep_time (ep_call d c p) = ep_time p"
  by (cases c) (simp_all add: ep_AddEvent_def ep_KillAllEvents_def ep_mark_abort_def Let_def case_prod_beta)

lemma map_fst_marked: "map fst (map (\<lambda>(k, ev). (k, f ev)) es) = map fst es"
  by (simp add: case_prod_beta comp_def)

lemma ep_KillAllEvents_events:
  "ep_events (ep_KillAllEvents d force p) =
     (if force then [] else
      filter (\<lambda>e. \<not> d (snd e)) (map (\<lambda>(k, ev). (k, ev\<lparr>ev_to_Abort := True\<rparr>)) (ep_events p)))"
  by (simp add: ep_KillAllEvents_def Let_def case_prod_beta kill_loop_kept)

lemma ep_call_sorted [wf_intros]: "ep_sorted p \<Longrightarrow> ep_sorted (ep_call d c p)"
proof (cases c)
  case (Call_Kill force)
  assume "ep_sorted p"
  then have "sorted (map fst (map (\<lambda>(k, ev). (k, ev\<lparr>ev_to_Abort := True\<rparr>)) (ep_events p)))"
    unfolding map_fst_marked by (simp add: ep_sorted_def)
  then show ?thesis
    using Call_Kill sorted_map_fst_filter
    by (cases force) (simp_all add: ep_sorted_def ep_KillAllEvents_events del: map_map filter_map)
qed (simp_all add: ep_sorted_def ep_AddEvent_def Let_def sorted_mm_insert ep_mark_abort_def
    map_fst_marked del: map_map)

lemma ep_calls_time [simp]: "ep_time (fold (ep_call d) cs p) = ep_time p"
  by (induction cs arbitrary: p) simp_all

lemma ep_calls_sorted [wf_intros]: "ep_sorted p \<Longrightarrow> ep_sorted (fold (ep_call d) cs p)"
  by (induction cs arbitrary: p) (simp_all add: wf_intros)

lemma ep_log_add_simps [simp]:
  "ep_time (ep_log_add es p) = ep_time p" "ep_events (ep_log_add es p) = ep_events p"
  "ep_sorted (ep_log_add es p) \<longleftrightarrow> ep_sorted p" "ep_log (ep_log_add es p) = ep_log p @ es"
  by (simp_all add: ep_log_add_def ep_sorted_def)

lemma ep_dispatch_time [simp]: "ep_time (ep_dispatch d exec t ev p) = ep_time p"
  by (simp add: ep_dispatch_def Let_def case_prod_beta)

lemma ep_dispatch_sorted [wf_intros]: "ep_sorted p \<Longrightarrow> ep_sorted (ep_dispatch d exec t ev p)"
  by (simp add: ep_dispatch_def Let_def case_prod_beta wf_intros)

section \<open>Termination of the main loop\<close>

text \<open>Calls that leave nothing new to do at the time \<open>now\<close>: what they add is planned later.\<close>

primrec adds_later :: "u64 \<Rightarrow> ev_call \<Rightarrow> bool" where
  "adds_later now (Call_Add ev t s) \<longleftrightarrow> now < t"
| "adds_later now (Call_Kill force) \<longleftrightarrow> True"
| "adds_later now (Call_Abort i) \<longleftrightarrow> True"

definition exec_later :: "ev_exec \<Rightarrow> bool" where
  "exec_later exec \<longleftrightarrow> (\<forall>ev p t. list_all (adds_later (ep_time p)) (snd (exec ev p t)))"

definition ep_due :: "event_processor \<Rightarrow> nat" where
  "ep_due p = length (filter (\<lambda>e. fst e \<le> ep_time p) (ep_events p))"

lemma filter_mm_insert: "\<not> P (k, v) \<Longrightarrow> filter P (mm_insert k v m) = filter P m"
  by (induction m) auto

lemma length_filter_marked:
  "length (filter (\<lambda>e. Q (fst e)) (map (\<lambda>(k, ev). (k, f ev)) es)) = length (filter (\<lambda>e. Q (fst e)) es)"
  by (induction es) auto

lemma ep_call_due: "adds_later (ep_time p) c \<Longrightarrow> ep_due (ep_call d c p) \<le> ep_due p"
proof (cases c)
  case (Call_Add ev t s)
  assume "adds_later (ep_time p) c"
  then show ?thesis using Call_Add by (simp add: ep_due_def ep_AddEvent_def Let_def filter_mm_insert)
next
  case (Call_Kill force)
  let ?m = "map (\<lambda>(k, ev). (k, ev\<lparr>ev_to_Abort := True\<rparr>)) (ep_events p)"
  have "length (filter (\<lambda>e. fst e \<le> ep_time p) (filter (\<lambda>e. \<not> d (snd e)) ?m)) \<le>
      length (filter (\<lambda>e. fst e \<le> ep_time p) ?m)"
    by (rule length_filter_filter_le)
  moreover have "length (filter (\<lambda>e. fst e \<le> ep_time p) ?m) = ep_due p"
    unfolding ep_due_def by (rule length_filter_marked)
  moreover have "ep_time (ep_KillAllEvents d force p) = ep_time p"
    using ep_call_time [of d c p] Call_Kill by simp
  ultimately show ?thesis
    using Call_Kill unfolding ep_due_def [of "ep_call d c p"]
    by (cases force)
      (simp_all add: ep_KillAllEvents_events del: filter_filter filter_map length_filter_map)
next
  case (Call_Abort i)
  have "ep_due (ep_mark_abort i p) = ep_due p"
    unfolding ep_due_def ep_mark_abort_def
    by (simp del: length_filter_map) (rule length_filter_marked)
  with Call_Abort show ?thesis by simp
qed

lemma ep_calls_due: "list_all (adds_later (ep_time p)) cs \<Longrightarrow> ep_due (fold (ep_call d) cs p) \<le> ep_due p"
proof (induction cs arbitrary: p)
  case (Cons c cs)
  then have "ep_due (fold (ep_call d) cs (ep_call d c p)) \<le> ep_due (ep_call d c p)" by simp
  also have "\<dots> \<le> ep_due p" using Cons.prems ep_call_due by simp
  finally show ?case by simp
qed simp

lemma ep_due_log [simp]: "ep_due (ep_log_add es p) = ep_due p"
  by (simp add: ep_due_def)

lemma ep_dispatch_due: "exec_later exec \<Longrightarrow> ep_due (ep_dispatch d exec t ev p) \<le> ep_due p"
  using ep_calls_due [of "ep_log_add [Executed (ev_id ev) (ep_time p)] p" "snd (exec ev p t)" d]
  by (simp add: ep_dispatch_def Let_def case_prod_beta exec_later_def)

definition ep_nothing_due :: "event_processor \<Rightarrow> bool" where
  "ep_nothing_due p \<longleftrightarrow> (\<forall>e \<in> set (ep_events p). ep_time p < fst e)"

lemma ep_loop_returns:
  assumes "exec_later exec" and "ep_sorted p"
  shows "\<exists>q. ep_loop d exec t p = Some q \<and> ep_time q = ep_time p \<and> ep_sorted q \<and> ep_nothing_due q"
  using assms(2)
proof (induction "ep_due p" arbitrary: p rule: less_induct)
  case less
  show ?case
  proof (cases "\<exists>k ev es. ep_events p = (k, ev) # es \<and> k \<le> ep_time p")
    case True
    then obtain k ev es where p: "ep_events p = (k, ev) # es" "k \<le> ep_time p" by blast
    let ?p = "ep_dispatch d exec t ev (p\<lparr>ep_events := es\<rparr>)"
    have "ep_due ?p \<le> ep_due (p\<lparr>ep_events := es\<rparr>)" by (rule ep_dispatch_due [OF assms(1)])
    also have "\<dots> < ep_due p" using p by (simp add: ep_due_def)
    finally have "ep_due ?p < ep_due p" .
    moreover have "ep_sorted ?p"
      using less.prems p by (intro ep_dispatch_sorted) (simp add: ep_sorted_def)
    ultimately show ?thesis
      using less.hyps [of ?p] p by (simp add: ep_loop.simps [of d exec t p])
  next
    case False
    then have stop: "ep_loop d exec t p = Some p"
      by (subst ep_loop.simps) (auto split: list.split)
    have "ep_nothing_due p"
    proof (cases "ep_events p")
      case (Cons e es)
      with False less.prems show ?thesis
        by (cases e) (auto simp: ep_nothing_due_def ep_sorted_def not_le intro: less_le_trans)
    qed (simp add: ep_nothing_due_def)
    with stop less.prems show ?thesis by simp
  qed
qed

section \<open>Order of execution\<close>

text \<open>Handlers that only plan further events, and plan them later than the current time.\<close>

definition exec_adds_later :: "ev_exec \<Rightarrow> bool" where
  "exec_adds_later exec \<longleftrightarrow>
     (\<forall>ev p t c. c \<in> set (snd (exec ev p t)) \<longrightarrow> (\<exists>e k s. c = Call_Add e k s \<and> ep_time p < k))"

definition ep_due_prefix :: "event_processor \<Rightarrow> (u64 \<times> basic_event) list" where
  "ep_due_prefix p = takeWhile (\<lambda>e. fst e \<le> ep_time p) (ep_events p)"

fun ep_handled :: "ev_entry list \<Rightarrow> nat list" where
  "ep_handled [] = []"
| "ep_handled (Executed i t # es) = i # ep_handled es"
| "ep_handled (Aborted i t # es) = i # ep_handled es"
| "ep_handled (Deleted i # es) = ep_handled es"

lemma ep_handled_append [simp]: "ep_handled (as @ bs) = ep_handled as @ ep_handled bs"
  by (induction as rule: ep_handled.induct) simp_all

lemma takeWhile_mm_insert:
  "now < k \<Longrightarrow> takeWhile (\<lambda>e. fst e \<le> now) (mm_insert k v m) = takeWhile (\<lambda>e. fst e \<le> now) m"
  by (induction m) (auto simp: not_le intro: less_trans)

lemma ep_adds_keep:
  assumes "\<forall>c \<in> set cs. \<exists>e k s. c = Call_Add e k s \<and> ep_time p < k"
  shows "ep_due_prefix (fold (ep_call d) cs p) = ep_due_prefix p \<and> ep_log (fold (ep_call d) cs p) = ep_log p"
  using assms
proof (induction cs arbitrary: p)
  case (Cons c cs)
  then obtain e k s where c: "c = Call_Add e k s" "ep_time p < k" by auto
  then have "ep_due_prefix (ep_call d c p) = ep_due_prefix p" "ep_log (ep_call d c p) = ep_log p"
    by (simp_all add: ep_due_prefix_def ep_AddEvent_def Let_def takeWhile_mm_insert)
  with Cons show ?case by simp
qed simp

lemma ep_dispatch_adds:
  assumes "exec_adds_later exec"
  shows "ep_due_prefix (ep_dispatch d exec t ev p) = ep_due_prefix p \<and>
     ep_handled (ep_log (ep_dispatch d exec t ev p)) = ep_handled (ep_log p) @ [ev_id ev]"
proof -
  let ?p = "ep_log_add [Executed (ev_id ev) (ep_time p)] p"
  have "\<forall>c \<in> set (snd (exec ev p t)). \<exists>e k s. c = Call_Add e k s \<and> ep_time ?p < k"
    using assms by (simp add: exec_adds_later_def)
  from ep_adds_keep [OF this, of d] show ?thesis
    by (auto simp: ep_dispatch_def Let_def case_prod_beta ep_due_prefix_def)
qed

lemma exec_adds_later_weaken: "exec_adds_later exec \<Longrightarrow> exec_later exec"
  by (fastforce simp: exec_adds_later_def exec_later_def list_all_iff)

lemma ep_loop_handles:
  assumes "exec_adds_later exec"
  shows "ep_loop d exec t p = Some q \<Longrightarrow>
     ep_handled (ep_log q) = ep_handled (ep_log p) @ map (ev_id \<circ> snd) (ep_due_prefix p)"
proof (induction "ep_due_prefix p" arbitrary: p)
  case Nil
  then have "ep_loop d exec t p = Some p"
    by (subst ep_loop.simps) (auto simp: ep_due_prefix_def split: list.split if_splits)
  with Nil show ?case by (simp add: ep_due_prefix_def)
next
  case (Cons e due)
  obtain k ev where e: "e = (k, ev)" by (cases e)
  with Cons.hyps(2) obtain es where p: "ep_events p = (k, ev) # es" "k \<le> ep_time p"
      and due: "due = ep_due_prefix (p\<lparr>ep_events := es\<rparr>)"
    by (cases "ep_events p") (auto simp: ep_due_prefix_def split: if_splits)
  let ?p = "ep_dispatch d exec t ev (p\<lparr>ep_events := es\<rparr>)"
  have "ep_loop d exec t ?p = Some q"
    using Cons.prems p by (simp add: ep_loop.simps [of d exec t p])
  with Cons.hyps(1) [of ?p] due ep_dispatch_adds [OF assms, of d t ev "p\<lparr>ep_events := es\<rparr>"]
  have "ep_handled (ep_log q) = ep_handled (ep_log ?p) @ map (ev_id \<circ> snd) due" by simp
  then show ?case
    using ep_dispatch_adds [OF assms, of d t ev "p\<lparr>ep_events := es\<rparr>"] Cons.hyps(2) [symmetric]
    by (simp add: e)
qed

section \<open>Aborted events never execute\<close>

definition ep_all_aborted :: "event_processor \<Rightarrow> bool" where
  "ep_all_aborted p \<longleftrightarrow> (\<forall>e \<in> set (ep_events p). ev_to_Abort (snd e))"

fun ep_executed :: "ev_entry list \<Rightarrow> nat list" where
  "ep_executed [] = []"
| "ep_executed (Executed i t # es) = i # ep_executed es"
| "ep_executed (Aborted i t # es) = ep_executed es"
| "ep_executed (Deleted i # es) = ep_executed es"

lemma ep_executed_append [simp]: "ep_executed (as @ bs) = ep_executed as @ ep_executed bs"
  by (induction as rule: ep_executed.induct) simp_all

lemma ep_kill_all_aborted: "ep_all_aborted (ep_KillAllEvents d force p)"
  by (auto simp: ep_all_aborted_def ep_KillAllEvents_events)

lemma kill_loop_executes_none [simp]: "ep_executed (snd (ep_kill_loop d force now es)) = []"
  by (induction es) (auto simp: Let_def case_prod_beta)

lemma ep_loop_aborted:
  "ep_all_aborted p \<Longrightarrow> \<exists>q. ep_loop d exec t p = Some q \<and> ep_executed (ep_log q) = ep_executed (ep_log p)"
proof (induction "ep_events p" arbitrary: p)
  case Nil
  then show ?case by (simp add: ep_loop.simps)
next
  case (Cons e es)
  obtain k ev where e: "e = (k, ev)" by (cases e)
  let ?p = "ep_dispatch d exec t ev (p\<lparr>ep_events := es\<rparr>)"
  have ab: "ev_to_Abort ev" using Cons.prems Cons.hyps(2) [symmetric] by (simp add: ep_all_aborted_def e)
  then have p: "?p = ep_log_add [Aborted (ev_id ev) (ep_time p), Deleted (ev_id ev)] (p\<lparr>ep_events := es\<rparr>)"
    by (simp add: ep_dispatch_def)
  have "ep_all_aborted ?p" "es = ep_events ?p"
    using Cons.prems Cons.hyps(2) [symmetric] by (simp_all add: p ep_all_aborted_def)
  from Cons.hyps(1) [OF this(2,1)] obtain q where
    "ep_loop d exec t ?p = Some q" "ep_executed (ep_log q) = ep_executed (ep_log p)"
    by (auto simp: p)
  then show ?case
    using Cons.hyps(2) [symmetric] by (simp add: ep_loop.simps [of d exec t p] e)
qed

section \<open>Properties\<close>

text \<open>C33: \<^verbatim>\<open>Update\<close> returns and leaves nothing due. If what handlers add is planned later than the
time of the update (whatever else they do: abort events, kill the queue), the main loop ends,
and every event still queued is planned after the new time, with the queue still sorted.\<close>

theorem event_update_returns:
  assumes "exec_later exec" and "ep_sorted p"
  shows "\<exists>q. ep_Update d exec t p = Some q \<and> ep_time q = ep_time p + ucast t \<and>
     ep_sorted q \<and> ep_nothing_due q"
  using ep_loop_returns [OF assms(1), of "p\<lparr>ep_time := ep_time p + ucast t\<rparr>" d t] assms(2)
  by (simp add: ep_Update_def ep_sorted_def)

text \<open>An event that re-adds itself, at a time of the queue's clock where no wrap can occur.\<close>

definition exec_sample :: ev_exec where
  "exec_sample ev p t =
     (if ep_time p < 1000 then (False, [Call_Add ev (ep_CalculateTime 500 p) True, Call_Kill (ev_id ev = 9)])
      else (True, []))"

lemma exec_sample_later: "exec_later exec_sample"
proof -
  have "now < 500 + now" if "now < 1000" for now :: u64
  proof -
    have "unat now < 1000" using that by (simp add: word_less_nat_alt)
    then have "unat (500 + now) = 500 + unat now" by (subst unat_u64_add) simp_all
    then show ?thesis by (simp add: word_less_nat_alt)
  qed
  then show ?thesis
    by (simp add: exec_later_def exec_sample_def ep_CalculateTime_def add.commute)
qed

lemma event_update_returns_witness:
  "\<exists>q. ep_Update (\<lambda>ev. False) exec_sample 100 (ep_AddEvent (ev_new 3) 50 True ep_new) = Some q \<and>
     ep_nothing_due q"
proof -
  have "ep_sorted (ep_AddEvent (ev_new 3) 50 True ep_new)"
    by (simp add: ep_sorted_def ep_AddEvent_def ep_new_def Let_def)
  from event_update_returns [OF exec_sample_later this, of "\<lambda>ev. False" 100] show ?thesis by blast
qed

text \<open>C18: An update handles exactly the events that are due, once each, in order of planned time and,
for equal times, in order of insertion: when handlers only plan later events, the events
executed or aborted during the update are the due prefix of the queue, in queue order.\<close>

theorem event_update_in_order:
  assumes "exec_adds_later exec" and "ep_sorted p"
  shows "\<exists>q. ep_Update d exec t p = Some q \<and>
     ep_handled (ep_log q) = ep_handled (ep_log p) @
       map (ev_id \<circ> snd) (takeWhile (\<lambda>e. fst e \<le> ep_time p + ucast t) (ep_events p))"
  using ep_loop_returns [OF exec_adds_later_weaken [OF assms(1)], of "p\<lparr>ep_time := ep_time p + ucast t\<rparr>" d t]
    ep_loop_handles [OF assms(1), of d t "p\<lparr>ep_time := ep_time p + ucast t\<rparr>"] assms(2)
  by (auto simp: ep_Update_def ep_sorted_def ep_due_prefix_def)

definition exec_once :: ev_exec where
  "exec_once ev p t = (if ep_time p < 1000 then (True, [Call_Add (ev_new 7) 2000 True]) else (True, []))"

lemma event_update_in_order_witness:
  "\<exists>q. ep_Update (\<lambda>ev. True) exec_once 100
        (ep_AddEvent (ev_new 2) 60 True (ep_AddEvent (ev_new 1) 60 True (ep_AddEvent (ev_new 3) 50 True ep_new))) = Some q \<and>
     ep_handled (ep_log q) = [3, 1, 2]"
proof -
  have "exec_adds_later exec_once"
    by (auto simp: exec_adds_later_def exec_once_def intro: less_trans [of _ 1000] split: if_splits)
  moreover have "ep_sorted (ep_AddEvent (ev_new 2) 60 True (ep_AddEvent (ev_new 1) 60 True (ep_AddEvent (ev_new 3) 50 True ep_new)))"
    by (simp add: ep_sorted_def ep_AddEvent_def ep_new_def Let_def)
  ultimately show ?thesis
    using event_update_in_order [of exec_once _ "\<lambda>ev. True" 100]
    by (fastforce simp: ep_AddEvent_def ep_new_def ev_new_def Let_def)
qed

text \<open>A killed event never executes. \<^verbatim>\<open>KillAllEvents\<close> aborts everything queued; the events that cannot
be destroyed yet stay queued, and whenever a later update reaches them it aborts them and
does not call their handler, however far the clock advances.\<close>

theorem killed_events_never_execute:
  "\<exists>q. ep_Update d exec t (ep_KillAllEvents d force p) = Some q \<and>
     ep_executed (ep_log q) = ep_executed (ep_log p)"
proof -
  let ?p = "(ep_KillAllEvents d force p)\<lparr>ep_time := ep_time (ep_KillAllEvents d force p) + ucast t\<rparr>"
  have "ep_all_aborted ?p" using ep_kill_all_aborted [of d force p] by (simp add: ep_all_aborted_def)
  from ep_loop_aborted [OF this, of d exec t] show ?thesis
    by (auto simp: ep_Update_def ep_KillAllEvents_def Let_def case_prod_beta)
qed

end
