(* ===== verification/Float32.thy ===== *)
theory Float32
  imports Complex_Main Prelude
begin

text \<open>
  IEEE 754 binary32 arithmetic as the server's \<^verbatim>\<open>float\<close> expressions use it: a finite value is
  an exact rational, each operation is the exact one followed by rounding to nearest, ties to
  even, with 24 significant bits, gradual underflow at \<open>2 ^ -149\<close> and overflow to infinity at
  \<open>2 ^ 128\<close>. The sign of zero is not kept (no modelled code divides by a zero of either sign or
  prints one). Conversions to integers truncate; out of the range of the conversion C++ leaves
  the result open, and the model returns what the \<^verbatim>\<open>cvttss2si\<close> instruction yields.
\<close>

section \<open>Binary exponents\<close>

definition pow2 :: "int \<Rightarrow> rat" where
  "pow2 e = (if 0 \<le> e then 2 ^ nat e else 1 / 2 ^ nat (- e))"

lemma pow2_powi: "pow2 e = 2 powi e"
  by (simp add: pow2_def power_int_def inverse_eq_divide power_one_over)

lemma pow2_pos [simp]: "0 < pow2 e"
  by (simp add: pow2_def)

lemma pow2_abs [simp]: "\<bar>pow2 e\<bar> = pow2 e"
  by (simp add: less_imp_le)

lemma pow2_nonzero [simp]: "pow2 e \<noteq> 0"
  using pow2_pos [of e] by linarith

lemma pow2_add: "pow2 (a + b) = pow2 a * pow2 b"
  by (simp add: pow2_powi power_int_add)

lemma pow2_mono: "a \<le> b \<Longrightarrow> pow2 a \<le> pow2 b"
  by (simp add: pow2_powi power_int_increasing)

lemma pow2_strict_mono: "a < b \<Longrightarrow> pow2 a < pow2 b"
  by (simp add: pow2_powi power_int_strict_increasing)

text \<open>The number of binary digits of a positive integer.\<close>

function nbits :: "int \<Rightarrow> int" where
  "nbits n = (if n \<le> 0 then 0 else 1 + nbits (n div 2))"
  by auto

termination nbits by (relation "measure nat") simp_all

declare nbits.simps [simp del]

definition ilog2 :: "rat \<Rightarrow> int" where
  "ilog2 q =
     (case quotient_of q of (a, b) \<Rightarrow>
        let d = nbits a - nbits b in if pow2 d \<le> q then d else d - 1)"

lemma nbits_nonneg: "0 \<le> nbits n"
  by (induction n rule: nbits.induct) (subst nbits.simps, simp)

lemma nbits_half: "0 < n \<Longrightarrow> nbits n = 1 + nbits (n div 2)"
  by (subst nbits.simps) simp

lemma nbits_0 [simp]: "nbits 0 = 0"
  by (subst nbits.simps) simp

lemma pow2_double: "pow2 (1 + e) = 2 * pow2 e"
  by (simp add: pow2_powi power_int_add)

lemma nbits_pow2: "0 < n \<Longrightarrow> pow2 (nbits n - 1) \<le> of_int n \<and> of_int n < pow2 (nbits n)"
proof (induction n rule: nbits.induct)
  case (1 n)
  show ?case
  proof (cases "n = 1")
    case True
    then show ?thesis by (simp add: nbits_half pow2_def)
  next
    case False
    let ?m = "n div 2"
    have m: "0 < ?m" "2 * ?m \<le> n" "n \<le> 2 * ?m + 1" using 1 False by linarith+
    with 1 have ih: "pow2 (nbits ?m - 1) \<le> of_int ?m" "of_int ?m < pow2 (nbits ?m)" by auto
    have nb: "nbits n = 1 + nbits ?m" using 1 by (intro nbits_half) simp
    have nn: "0 \<le> nbits ?m" by (rule nbits_nonneg)
    then have "of_int ?m < (of_int (2 ^ nat (nbits ?m)) :: rat)" using ih(2) by (simp add: pow2_def)
    then have "?m + 1 \<le> 2 ^ nat (nbits ?m)" by (simp only: of_int_less_iff)
    then have "of_int (?m + 1) \<le> (of_int (2 ^ nat (nbits ?m)) :: rat)" by (simp only: of_int_le_iff)
    then have "of_int ?m + 1 \<le> pow2 (nbits ?m)" using nn by (simp add: pow2_def)
    moreover have "of_int n \<le> (2 * of_int ?m + 1 :: rat)" "(2 * of_int ?m :: rat) \<le> of_int n"
      using m(2,3) of_int_le_iff [of n "2 * ?m + 1", where ?'a = rat] of_int_le_iff [of "2 * ?m" n, where ?'a = rat]
      by simp_all
    moreover have "pow2 (nbits ?m) = 2 * pow2 (nbits ?m - 1)" using pow2_double [of "nbits ?m - 1"] by simp
    ultimately show ?thesis using ih(1) unfolding nb pow2_double by simp
  qed
qed

lemma ilog2_bounds:
  assumes "0 < q"
  shows "pow2 (ilog2 q) \<le> q" and "q < pow2 (ilog2 q + 1)"
proof -
  obtain a b where ab: "quotient_of q = (a, b)" by (cases "quotient_of q")
  have b: "0 < b" using quotient_of_denom_pos [OF ab] .
  have q: "q = of_int a / of_int b" using quotient_of_div [OF ab] .
  have a: "0 < a" using assms b by (simp add: q zero_less_divide_iff)
  let ?x = "nbits a" and ?y = "nbits b"
  let ?d = "?x - ?y"
  have A: "pow2 (?x - 1) \<le> of_int a" "of_int a < pow2 (?x)"
    using nbits_pow2 [of a] a by simp_all
  have B: "pow2 (?y - 1) \<le> of_int b" "of_int b < pow2 (?y)"
    using nbits_pow2 [of b] b by simp_all
  have qb: "q * of_int b = of_int a" using b by (simp add: q)
  have low: "pow2 (?d - 1) \<le> q"
  proof -
    have "pow2 (?d - 1) * of_int b \<le> pow2 (?d - 1) * pow2 (?y)"
      using B(2) by (simp add: less_imp_le)
    also have "\<dots> = pow2 (?x - 1)" using pow2_add [of "?d - 1" "?y"] by simp
    also have "\<dots> \<le> q * of_int b" using A(1) qb by simp
    finally show ?thesis using b by simp
  qed
  have high: "q < pow2 (?d + 1)"
  proof -
    have "q * of_int b < pow2 (?x)" using A(2) qb by simp
    also have "\<dots> = pow2 (?d + 1) * pow2 (?y - 1)" using pow2_add [of "?d + 1" "?y - 1"] by simp
    also have "\<dots> \<le> pow2 (?d + 1) * of_int b" using B(1) by (simp add: less_imp_le)
    finally show ?thesis using b by simp
  qed
  show "pow2 (ilog2 q) \<le> q" "q < pow2 (ilog2 q + 1)"
    using low high by (auto simp: ilog2_def ab Let_def not_le)
qed

section \<open>Rounding\<close>

definition rne :: "rat \<Rightarrow> int" where
  "rne x =
     (let f = \<lfloor>x\<rfloor>; r = x - of_int f
      in if r < 1 / 2 then f else if 1 / 2 < r then f + 1 else if even f then f else f + 1)"

lemma rne_error: "\<bar>of_int (rne x) - x\<bar> \<le> 1 / 2"
proof -
  have "of_int \<lfloor>x\<rfloor> \<le> x" "x < of_int \<lfloor>x\<rfloor> + 1" by linarith+
  then show ?thesis unfolding rne_def Let_def by (auto simp: abs_le_iff)
qed

lemma rne_ge: "of_int n \<le> x \<Longrightarrow> n \<le> rne x"
proof -
  assume "of_int n \<le> x"
  then have "n \<le> \<lfloor>x\<rfloor>" by (simp add: le_floor_iff)
  then show ?thesis by (auto simp: rne_def Let_def)
qed

lemma rne_le: "x \<le> of_int n \<Longrightarrow> rne x \<le> n"
proof -
  assume le: "x \<le> of_int n"
  show ?thesis
  proof (cases "x = of_int n")
    case True
    then show ?thesis by (simp add: rne_def)
  next
    case False
    with le have "x < of_int n" by simp
    then have "\<lfloor>x\<rfloor> < n" by (simp add: floor_less_iff)
    then show ?thesis by (auto simp: rne_def Let_def)
  qed
qed

datatype f32 = Fin rat | Inf bool | NaN

definition ulp_exp :: "rat \<Rightarrow> int" where
  "ulp_exp q = max (ilog2 \<bar>q\<bar> - 23) (- 149)"

definition round32 :: "rat \<Rightarrow> f32" where
  "round32 q =
     (if q = 0 then Fin 0
      else let e = ulp_exp q; v = of_int (rne (q / pow2 e)) * pow2 e
           in if pow2 128 \<le> \<bar>v\<bar> then Inf (q < 0) else Fin v)"

definition f_int :: "int \<Rightarrow> f32" where
  "f_int n = round32 (of_int n)"

fun f_mul :: "f32 \<Rightarrow> f32 \<Rightarrow> f32" where
  "f_mul (Fin x) (Fin y) = round32 (x * y)"
| "f_mul (Fin x) (Inf s) = (if x = 0 then NaN else Inf (s \<noteq> (x < 0)))"
| "f_mul (Inf s) (Fin x) = (if x = 0 then NaN else Inf (s \<noteq> (x < 0)))"
| "f_mul (Inf s) (Inf t) = Inf (s \<noteq> t)"
| "f_mul NaN y = NaN"
| "f_mul x NaN = NaN"

fun f_add :: "f32 \<Rightarrow> f32 \<Rightarrow> f32" where
  "f_add (Fin x) (Fin y) = round32 (x + y)"
| "f_add (Fin x) (Inf s) = Inf s"
| "f_add (Inf s) (Fin x) = Inf s"
| "f_add (Inf s) (Inf t) = (if s = t then Inf s else NaN)"
| "f_add NaN y = NaN"
| "f_add x NaN = NaN"

fun f_div :: "f32 \<Rightarrow> f32 \<Rightarrow> f32" where
  "f_div (Fin x) (Fin y) = (if y = 0 then (if x = 0 then NaN else Inf (x < 0)) else round32 (x / y))"
| "f_div (Fin x) (Inf s) = Fin 0"
| "f_div (Inf s) (Fin x) = Inf (s \<noteq> (x < 0))"
| "f_div (Inf s) (Inf t) = NaN"
| "f_div NaN y = NaN"
| "f_div x NaN = NaN"

fun f_less :: "f32 \<Rightarrow> f32 \<Rightarrow> bool" where
  "f_less (Fin x) (Fin y) \<longleftrightarrow> x < y"
| "f_less (Fin x) (Inf s) \<longleftrightarrow> \<not> s"
| "f_less (Inf s) (Fin x) \<longleftrightarrow> s"
| "f_less (Inf s) (Inf t) \<longleftrightarrow> s \<and> \<not> t"
| "f_less NaN y \<longleftrightarrow> False"
| "f_less x NaN \<longleftrightarrow> False"

text \<open>Truncation towards zero.\<close>

definition trunc :: "rat \<Rightarrow> int" where
  "trunc q = (if q < 0 then - \<lfloor>- q\<rfloor> else \<lfloor>q\<rfloor>)"

fun f_to_int32 :: "f32 \<Rightarrow> int" where
  "f_to_int32 (Fin q) = (if in_int32 (trunc q) then trunc q else - 2147483648)"
| "f_to_int32 _ = - 2147483648"

text \<open>\<^verbatim>\<open>uint32(f)\<close> goes through the 64-bit conversion and keeps the low half.\<close>

fun f_to_u32 :: "f32 \<Rightarrow> u32" where
  "f_to_u32 (Fin q) = (if - 9223372036854775808 \<le> trunc q \<and> trunc q < 9223372036854775808 then word_of_int (trunc q) else 0)"
| "f_to_u32 _ = 0"

section \<open>Laws of rounding\<close>

lemma ulp_exp_bounds:
  assumes "\<bar>q\<bar> < pow2 k" and "q \<noteq> 0" and "- 125 \<le> k"
  shows "ulp_exp q \<le> k - 24"
proof -
  have "pow2 (ilog2 \<bar>q\<bar>) < pow2 k" using ilog2_bounds(1) [of "\<bar>q\<bar>"] assms by simp
  then have "ilog2 \<bar>q\<bar> < k" using pow2_mono [of k "ilog2 \<bar>q\<bar>"] by linarith
  then show ?thesis using assms(3) by (simp add: ulp_exp_def)
qed

text \<open>Integers of up to 24 bits are on the grid of everything not larger, so that rounding
cannot cross them.\<close>

lemma round32_between:
  assumes "\<bar>q\<bar> < 16777216" and "of_int a \<le> q" and "q \<le> of_int b"
  shows "\<exists>v. round32 q = Fin v \<and> of_int a \<le> v \<and> v \<le> of_int b \<and> \<bar>v\<bar> \<le> 16777216"
proof (cases "q = 0")
  case True
  with assms show ?thesis by (simp add: round32_def)
next
  case False
  let ?e = "ulp_exp q"
  have p24: "pow2 24 = 16777216" by (simp add: pow2_def)
  have e: "?e \<le> 0" using ulp_exp_bounds [of q 24] assms(1) False by (simp add: p24)
  have grid: "of_int n / pow2 ?e = of_int (n * 2 ^ nat (- ?e))" for n :: int
    using e by (cases "?e = 0") (simp_all add: pow2_def)
  define v where "v = of_int (rne (q / pow2 ?e)) * pow2 ?e"
  have lower: "of_int n \<le> v" if "of_int n \<le> q" for n :: int
  proof -
    have "of_int (n * 2 ^ nat (- ?e)) \<le> q / pow2 ?e"
      using that by (simp only: grid [symmetric] divide_right_mono less_imp_le pow2_pos)
    then have "of_int (n * 2 ^ nat (- ?e)) \<le> (of_int (rne (q / pow2 ?e)) :: rat)"
      using rne_ge by (simp only: of_int_le_iff)
    then show ?thesis by (simp only: grid [symmetric] v_def pos_divide_le_eq pow2_pos)
  qed
  have upper: "v \<le> of_int n" if "q \<le> of_int n" for n :: int
  proof -
    have "q / pow2 ?e \<le> of_int (n * 2 ^ nat (- ?e))"
      using that by (simp only: grid [symmetric] divide_right_mono less_imp_le pow2_pos)
    then have "(of_int (rne (q / pow2 ?e)) :: rat) \<le> of_int (n * 2 ^ nat (- ?e))"
      using rne_le by (simp only: of_int_le_iff)
    then show ?thesis by (simp only: grid [symmetric] v_def pos_le_divide_eq pow2_pos)
  qed
  have v: "- 16777216 \<le> v" "v \<le> 16777216"
    using lower [of "- 16777216"] upper [of 16777216] assms(1) by (simp_all add: abs_less_iff)
  moreover have "pow2 24 < pow2 128" by (rule pow2_strict_mono) simp
  ultimately have "\<not> pow2 128 \<le> \<bar>v\<bar>" by (simp add: p24 abs_le_iff)
  then have "round32 q = Fin v" using False by (simp add: round32_def Let_def v_def)
  with v lower [OF assms(2)] upper [OF assms(3)] show ?thesis by (auto simp: abs_le_iff)
qed

lemma round32_exact: "\<bar>n\<bar> < 16777216 \<Longrightarrow> round32 (of_int n) = Fin (of_int n)"
proof -
  assume "\<bar>n\<bar> < 16777216"
  then have "of_int \<bar>n\<bar> < (of_int 16777216 :: rat)" by (simp only: of_int_less_iff)
  then have "\<bar>of_int n\<bar> < (16777216 :: rat)" by simp
  from round32_between [OF this, of n n] show ?thesis by force
qed

lemma f_int_exact: "\<bar>n\<bar> < 16777216 \<Longrightarrow> f_int n = Fin (of_int n)"
  by (simp add: f_int_def round32_exact)

text \<open>The relative error of one rounding, for values in the normal range.\<close>

lemma round32_error:
  assumes "q = 0 \<or> pow2 (- 126) \<le> \<bar>q\<bar>" and "\<bar>q\<bar> < pow2 127"
  shows "\<exists>v. round32 q = Fin v \<and> \<bar>v - q\<bar> \<le> \<bar>q\<bar> / 16777216"
proof (cases "q = 0")
  case True
  then show ?thesis by (simp add: round32_def)
next
  case False
  let ?l = "ilog2 \<bar>q\<bar>" and ?e = "ulp_exp q"
  have l: "pow2 ?l \<le> \<bar>q\<bar>" "\<bar>q\<bar> < pow2 (?l + 1)" using ilog2_bounds [of "\<bar>q\<bar>"] False by simp_all
  have "- 126 \<le> ?l"
  proof (rule ccontr)
    assume "\<not> ?thesis"
    then have "pow2 (?l + 1) \<le> pow2 (- 126)" by (intro pow2_mono) simp
    with l(2) assms(1) False show False by simp
  qed
  then have e: "?e = ?l - 23" by (simp add: ulp_exp_def)
  define v where "v = of_int (rne (q / pow2 ?e)) * pow2 ?e"
  have "v - q = (of_int (rne (q / pow2 ?e)) - q / pow2 ?e) * pow2 ?e"
    by (simp add: v_def left_diff_distrib)
  then have "\<bar>v - q\<bar> = \<bar>of_int (rne (q / pow2 ?e)) - q / pow2 ?e\<bar> * pow2 ?e"
    by (simp add: abs_mult)
  also have "\<dots> \<le> 1 / 2 * pow2 ?e" using rne_error by (intro mult_right_mono) (simp_all add: less_imp_le)
  also have "\<dots> = pow2 (- 24) * pow2 ?l"
    unfolding e by (simp add: pow2_add diff_conv_add_uminus del: add_uminus_conv_diff) (simp add: pow2_def)
  also have "\<dots> \<le> \<bar>q\<bar> / 16777216" using l(1) by (simp add: pow2_def)
  finally have err: "\<bar>v - q\<bar> \<le> \<bar>q\<bar> / 16777216" .
  then have "\<bar>v\<bar> \<le> \<bar>q\<bar> + \<bar>q\<bar> / 16777216" by linarith
  also have "\<dots> < pow2 128" using assms(2) by (simp add: pow2_def)
  finally have "round32 q = Fin v" using False by (simp add: round32_def Let_def v_def)
  with err show ?thesis by blast
qed

text \<open>A coarse bound that also covers the subnormal range.\<close>

lemma round32_upper:
  assumes "0 \<le> q" and "q < pow2 127"
  shows "\<exists>v. round32 q = Fin v \<and> 0 \<le> v \<and> v \<le> 101 / 100 * q + 1 / 100"
proof (cases "pow2 (- 126) \<le> q")
  case True
  then obtain v where "round32 q = Fin v" "\<bar>v - q\<bar> \<le> \<bar>q\<bar> / 16777216"
    using round32_error [of q] assms by auto
  moreover have "\<bar>q\<bar> = q" using assms(1) by simp
  ultimately show ?thesis using assms(1) by (intro exI [of _ v] conjI) (simp_all only: abs_le_iff, linarith+)
next
  case False
  have "pow2 (- 126) < 1" by code_simp
  then show ?thesis
  proof (cases "q = 0")
    case True
    then show ?thesis by (simp add: round32_def)
  next
    case nz: False
    let ?e = "ulp_exp q"
    have "ilog2 \<bar>q\<bar> < - 126"
    proof (rule ccontr)
      assume "\<not> ?thesis"
      then have "pow2 (- 126) \<le> pow2 (ilog2 \<bar>q\<bar>)" by (intro pow2_mono) simp
      with False ilog2_bounds(1) [of "\<bar>q\<bar>"] nz assms(1) show False by simp
    qed
    then have e: "?e = - 149" by (simp add: ulp_exp_def)
    define v where "v = of_int (rne (q / pow2 ?e)) * pow2 ?e"
    have "v - q = (of_int (rne (q / pow2 ?e)) - q / pow2 ?e) * pow2 ?e"
      by (simp add: v_def left_diff_distrib)
    then have "\<bar>v - q\<bar> = \<bar>of_int (rne (q / pow2 ?e)) - q / pow2 ?e\<bar> * pow2 ?e"
      by (simp add: abs_mult)
    also have "\<dots> \<le> 1 / 2 * pow2 ?e" using rne_error by (intro mult_right_mono) (simp_all add: less_imp_le)
    also have "\<dots> \<le> 1 / 100" unfolding e by code_simp
    finally have err: "v - q \<le> 1 / 100" by (simp only: abs_le_iff)
    have "0 \<le> rne (q / pow2 ?e)"
      using assms(1) by (intro rne_ge) (simp add: less_imp_le)
    then have v0: "0 \<le> v" by (simp add: v_def less_imp_le)
    have "v \<le> q + 1 / 100" using err by linarith
    also have "\<dots> < pow2 128" using False \<open>pow2 (- 126) < 1\<close> by (simp add: pow2_def)
    finally have "round32 q = Fin v" using nz v0 by (simp add: round32_def Let_def v_def)
    moreover have "v \<le> 101 / 100 * q + 1 / 100" using err assms(1) by linarith
    ultimately show ?thesis using v0 by blast
  qed
qed

lemma trunc_between: "of_int a \<le> q \<Longrightarrow> q \<le> of_int b \<Longrightarrow> a \<le> trunc q \<and> trunc q \<le> b"
  unfolding trunc_def by (auto simp: le_floor_iff floor_le_iff, linarith+)

lemma trunc_of_int [simp]: "trunc (of_int n) = n"
  using trunc_between [of n "of_int n" n] by simp

lemma f_less_NaN [simp]: "\<not> f_less x NaN" "\<not> f_less NaN x"
  by (cases x; simp)+

end
