(* ===== verification/Formulas.thy ===== *)
theory Formulas
  imports Float32
begin

text \<open>
  Experience for a kill: \<^verbatim>\<open>src/game/Formulas.h\<close> (namespace \<^verbatim>\<open>XP\<close>), the damage-origin modifier
  of \<^verbatim>\<open>src/game/Objects/Creature.h\<close>, and the distribution among a group of
  \<^verbatim>\<open>src/game/Group/Group.cpp\<close>. Levels and points are 32-bit words, with the unsigned
  subtractions of the source; the factors are binary32 values.
\<close>

section \<open>Level bands\<close>

datatype xp_color = RED | ORANGE | YELLOW | GREEN | GRAY

definition GetGrayLevel :: "u32 \<Rightarrow> u32" where
  "GetGrayLevel pl_level =
     (if pl_level \<le> 5 then 0
      else if pl_level \<le> 39 then pl_level - 5 - pl_level div 10
      else pl_level - 1 - pl_level div 5)"

definition GetColorCode :: "u32 \<Rightarrow> u32 \<Rightarrow> xp_color" where
  "GetColorCode pl_level mob_level =
     (if mob_level \<ge> pl_level + 5 then RED
      else if mob_level \<ge> pl_level + 3 then ORANGE
      else if mob_level \<ge> pl_level - 2 then YELLOW
      else if mob_level > GetGrayLevel pl_level then GREEN
      else GRAY)"

definition GetZeroDifference :: "u32 \<Rightarrow> u32" where
  "GetZeroDifference pl_level =
     (if pl_level < 8 then 5
      else if pl_level < 10 then 6
      else if pl_level < 12 then 7
      else if pl_level < 16 then 8
      else if pl_level < 20 then 9
      else if pl_level < 30 then 11
      else if pl_level < 40 then 12
      else if pl_level < 45 then 13
      else if pl_level < 50 then 14
      else if pl_level < 55 then 15
      else if pl_level < 60 then 16
      else 17)"

section \<open>Base gain\<close>

definition f_u32 :: "u32 \<Rightarrow> f32" where
  "f_u32 w = f_int (uint w)"

definition BaseGainLevelFactor :: "u32 \<Rightarrow> u32 \<Rightarrow> f32" where
  "BaseGainLevelFactor pl_level victim_level =
     (if victim_level \<ge> pl_level then
        (let nLevelDiff = victim_level - pl_level;
             nLevelDiff' = (if nLevelDiff > 4 then 4 else nLevelDiff)
         in f_add (Fin 1) (f_mul (round32 (5 / 100)) (f_u32 nLevelDiff')))
      else
        (let gray_level = GetGrayLevel pl_level
         in if victim_level > gray_level then
              (let ZD = GetZeroDifference pl_level
               in f_div (f_u32 (ZD + victim_level - pl_level)) (f_u32 ZD))
            else Fin 0))"

definition BaseGain :: "u32 \<Rightarrow> u32 \<Rightarrow> u32" where
  "BaseGain pl_level mob_level =
     f_to_u32 (f_mul (f_u32 (pl_level * 5 + 45)) (BaseGainLevelFactor pl_level mob_level))"

section \<open>The killed unit\<close>

text \<open>
  What the formulas read of the victim; \<open>xv_pet\<close> and \<open>xv_rank\<close> are what \<^verbatim>\<open>IsElite\<close> reads
  (ranks 0 and 4 are the normal and the rare one), the last two fields are the damage counters
  kept by \<^verbatim>\<open>CountDamageTaken\<close>.
\<close>

record xp_victim =
  xv_is_unit :: bool
  xv_created_by_spell :: u32
  xv_extra_no_xp :: bool
  xv_no_kill_reward :: bool
  xv_level :: u32
  xv_pet :: bool
  xv_rank :: u32
  xv_playerDamageTaken :: u32
  xv_nonPlayerDamageTaken :: u32

definition IsElite :: "xp_victim \<Rightarrow> bool" where
  "IsElite v \<longleftrightarrow> \<not> xv_pet v \<and> xv_rank v \<noteq> 0 \<and> xv_rank v \<noteq> 4"

definition CountDamageTaken :: "u32 \<Rightarrow> bool \<Rightarrow> xp_victim \<Rightarrow> xp_victim" where
  "CountDamageTaken damage fromPlayerOrSelf v =
     (if fromPlayerOrSelf then v\<lparr>xv_playerDamageTaken := xv_playerDamageTaken v + damage\<rparr>
      else v\<lparr>xv_nonPlayerDamageTaken := xv_nonPlayerDamageTaken v + damage\<rparr>)"

definition ResetDamageTakenOrigin :: "xp_victim \<Rightarrow> xp_victim" where
  "ResetDamageTakenOrigin v = v\<lparr>xv_playerDamageTaken := 0, xv_nonPlayerDamageTaken := 0\<rparr>"

definition IsLootAllowedDueToDamageOrigin :: "xp_victim \<Rightarrow> bool" where
  "IsLootAllowedDueToDamageOrigin v \<longleftrightarrow> 65 * xv_playerDamageTaken v > 35 * xv_nonPlayerDamageTaken v"

definition GetXPModifierDueToDamageOrigin :: "xp_victim \<Rightarrow> f32" where
  "GetXPModifierDueToDamageOrigin v =
     (if \<not> IsLootAllowedDueToDamageOrigin v then Fin 0
      else f_div (f_u32 (xv_playerDamageTaken v)) (f_u32 (xv_playerDamageTaken v + xv_nonPlayerDamageTaken v)))"

definition xp_excluded :: "xp_victim \<Rightarrow> bool" where
  "xp_excluded v \<longleftrightarrow>
     xv_is_unit v \<and> (xv_created_by_spell v \<noteq> 0 \<or> xv_extra_no_xp v \<or> xv_no_kill_reward v)"

text \<open>\<open>rate\<close> is the configured \<^verbatim>\<open>CONFIG_FLOAT_RATE_XP_KILL\<close>.\<close>

definition Gain :: "f32 \<Rightarrow> u32 \<Rightarrow> xp_victim \<Rightarrow> u32" where
  "Gain rate pl_level u =
     (if xp_excluded u then 0
      else let xp_gain = BaseGain pl_level (xv_level u)
           in if xp_gain = 0 then 0
              else let xp_gain1 =
                     (if xv_is_unit u then
                        (let doubled = (if IsElite u then xp_gain * 2 else xp_gain)
                         in f_to_u32 (f_mul (f_u32 doubled) (GetXPModifierDueToDamageOrigin u)))
                      else xp_gain)
                   in f_to_u32 (f_mul (f_u32 xp_gain1) rate))"

definition PetGain :: "f32 \<Rightarrow> u32 \<Rightarrow> xp_victim \<Rightarrow> u32" where
  "PetGain rate pet_level u =
     (if xp_excluded u then 0
      else let xp_gain = BaseGain pet_level (xv_level u)
           in if xp_gain = 0 then 0
              else let xp_gain1 = (if xv_is_unit u \<and> IsElite u then xp_gain * 2 else xp_gain)
                   in f_to_u32 (f_mul (f_u32 xp_gain1) rate))"

definition xp_in_group_rate :: "u32 \<Rightarrow> bool \<Rightarrow> f32" where
  "xp_in_group_rate count isRaid =
     (if isRaid then Fin 1
      else if count = 0 \<or> count = 1 \<or> count = 2 then Fin 1
      else if count = 3 then round32 (1166 / 1000)
      else if count = 4 then round32 (13 / 10)
      else round32 (14 / 10))"

section \<open>Group members at a kill\<close>

record xp_member =
  xm_id :: nat
  xm_level :: u32
  xm_alive :: bool
  xm_in_world :: bool
  xm_near :: bool  \<comment> \<open>\<^verbatim>\<open>IsAtGroupRewardDistance\<close> of the victim\<close>

record xp_kill_data =
  kd_count :: u32
  kd_sum_level :: u32
  kd_max :: "xp_member option"
  kd_not_gray :: "xp_member option"

definition kd_raise :: "xp_member \<Rightarrow> xp_member option \<Rightarrow> xp_member option" where
  "kd_raise p best =
     (case best of None \<Rightarrow> Some p | Some b \<Rightarrow> if xm_level b < xm_level p then Some p else Some b)"

definition GetDataForXPAtKill_helper :: "xp_member \<Rightarrow> u32 \<Rightarrow> xp_kill_data \<Rightarrow> xp_kill_data" where
  "GetDataForXPAtKill_helper p victim_level d =
     d\<lparr>kd_sum_level := kd_sum_level d + xm_level p,
       kd_max := kd_raise p (kd_max d),
       kd_not_gray := (if victim_level > GetGrayLevel (xm_level p)
                       then kd_raise p (kd_not_gray d) else kd_not_gray d)\<rparr>"

definition kd_visit :: "u32 \<Rightarrow> xp_member \<Rightarrow> xp_kill_data \<Rightarrow> xp_kill_data" where
  "kd_visit victim_level p d =
     GetDataForXPAtKill_helper p victim_level (d\<lparr>kd_count := kd_count d + 1\<rparr>)"

definition is_additional :: "xp_member \<Rightarrow> xp_member option \<Rightarrow> bool" where
  "is_additional p additional \<longleftrightarrow> (case additional of None \<Rightarrow> False | Some a \<Rightarrow> xm_id a = xm_id p)"

definition GetDataForXPAtKill :: "xp_member list \<Rightarrow> u32 \<Rightarrow> xp_member option \<Rightarrow> xp_kill_data" where
  "GetDataForXPAtKill members victim_level additional =
     (let d = fold (\<lambda>p d.
            if \<not> xm_alive p \<or> \<not> xm_in_world p then d
            else if is_additional p additional then d
            else if \<not> xm_near p then d
            else kd_visit victim_level p d) members
          \<lparr>kd_count = 0, kd_sum_level = 0, kd_max = None, kd_not_gray = None\<rparr>
      in case additional of
           None \<Rightarrow> d
         | Some a \<Rightarrow> if xm_near a then kd_visit victim_level a d else d)"

text \<open>The points one member is given; no call of \<^verbatim>\<open>GiveXP\<close> is None.\<close>

definition RewardGroupAtKill_helper :: "bool \<Rightarrow> f32 \<Rightarrow> xp_kill_data \<Rightarrow> u32 \<Rightarrow> xp_member \<Rightarrow> u32 option" where
  "RewardGroupAtKill_helper PvP group_rate d xp p =
     (if PvP then None
      else let rate = f_div (f_mul group_rate (f_u32 (xm_level p))) (f_u32 (kd_sum_level d))
           in case kd_not_gray d of
                None \<Rightarrow> None
              | Some ng \<Rightarrow>
                  if xm_alive p \<and> xm_level p \<le> xm_level ng
                  then Some (if map_option xm_id (kd_max d) = Some (xm_id ng)
                             then f_to_u32 (f_mul (f_u32 xp) rate)
                             else f_to_u32 (f_add (f_div (f_mul (f_u32 xp) rate) (Fin 2)) (Fin 1)))
                  else None)"

definition RewardGroupAtKill ::
    "f32 \<Rightarrow> bool \<Rightarrow> bool \<Rightarrow> xp_member list \<Rightarrow> xp_victim \<Rightarrow> xp_member option \<Rightarrow> (nat \<times> u32) list" where
  "RewardGroupAtKill cfg_rate PvP is_raid members victim player_tap =
     (let d = GetDataForXPAtKill members (xv_level victim) player_tap
      in case kd_max d of
           None \<Rightarrow> []
         | Some m \<Rightarrow>
             (let xp = (case kd_not_gray d of None \<Rightarrow> 0
                        | Some ng \<Rightarrow> if PvP then 0 else Gain cfg_rate (xm_level ng) victim);
                  group_rate = xp_in_group_rate (kd_count d) (if PvP then False else is_raid);
                  reward = (\<lambda>p. case RewardGroupAtKill_helper PvP group_rate d xp p of
                                  None \<Rightarrow> [] | Some x \<Rightarrow> [(xm_id p, x)])
              in concat (map (\<lambda>p. if \<not> xm_in_world p \<or> is_additional p player_tap \<or> \<not> xm_near p
                                  then [] else reward p) members)
                 @ (case player_tap of None \<Rightarrow> [] | Some a \<Rightarrow> if xm_near a then reward a else [])))"

section \<open>Facts about the level bands\<close>

lemma f_u32_exact: "unat w < 16777216 \<Longrightarrow> f_u32 w = Fin (of_nat (unat w))"
proof -
  assume "unat w < 16777216"
  then have "uint w < 16777216" unfolding uint_nat by linarith
  moreover have "0 \<le> uint w" by simp
  ultimately show ?thesis unfolding f_u32_def by (subst f_int_exact) simp_all
qed

lemma unat_gray: "unat (GetGrayLevel p) =
    (if unat p \<le> 5 then 0 else if unat p \<le> 39 then unat p - 5 - unat p div 10 else unat p - 1 - unat p div 5)"
  if "unat p < 4000000000"
proof -
  have "unat (p - 5 - p div 10) = unat p - 5 - unat p div 10" if "5 < unat p"
  proof -
    have "5 \<le> p" using that by (simp add: word_le_nat_alt)
    then have s: "unat (p - 5) = unat p - 5" by (simp add: unat_sub)
    moreover have "p div 10 \<le> p - 5"
      using that s by (simp add: word_le_nat_alt unat_div)
    ultimately show ?thesis by (simp add: unat_sub unat_div)
  qed
  moreover have "unat (p - 1 - p div 5) = unat p - 1 - unat p div 5" if "5 < unat p"
  proof -
    have "1 \<le> p" using that by (simp add: word_le_nat_alt)
    then have s: "unat (p - 1) = unat p - 1" by (simp add: unat_sub)
    moreover have "p div 5 \<le> p - 1"
      using that s by (simp add: word_le_nat_alt unat_div)
    ultimately show ?thesis by (simp add: unat_sub unat_div)
  qed
  ultimately show ?thesis by (simp add: GetGrayLevel_def word_le_nat_alt)
qed


lemma gray_zero_difference:
  assumes "unat p \<le> 84"
  shows "unat p \<le> unat (GetGrayLevel p) + unat (GetZeroDifference p)"
proof -
  have "\<forall>n \<in> set [0..<85]. n \<le> unat (GetGrayLevel (of_nat n)) + unat (GetZeroDifference (of_nat n))"
    by code_simp
  from bspec [OF this, of "unat p"] show ?thesis using assms by simp
qed

lemma unat_zero_difference: "5 \<le> unat (GetZeroDifference p) \<and> unat (GetZeroDifference p) \<le> 17"
  by (simp add: GetZeroDifference_def)

lemma f_mul_Fin: "\<bar>x * y\<bar> < 16777216 \<Longrightarrow> of_int a \<le> x * y \<Longrightarrow> x * y \<le> of_int b \<Longrightarrow>
    \<exists>v. f_mul (Fin x) (Fin y) = Fin v \<and> of_int a \<le> v \<and> v \<le> of_int b"
  using round32_between [of "x * y" a b] by auto

lemma factor_above:
  assumes "p \<le> m"
  shows "\<exists>f. BaseGainLevelFactor p m = Fin f \<and> 1 \<le> f \<and> f \<le> 2"
proof -
  define n where "n = (if m - p > 4 then 4 else m - p)"
  define k where "k = unat n"
  have k: "k \<le> 4" by (auto simp: k_def n_def word_less_nat_alt not_less)
  then have fn: "f_u32 n = Fin (of_nat k)" and n: "(of_nat k :: rat) \<le> 4"
    using f_u32_exact [of n] by (simp_all add: k_def [symmetric])
  have c: "round32 (1 / 20) = Fin (13421773 / 268435456)" by code_simp
  let ?x = "13421773 / 268435456 * of_nat k :: rat"
  have x: "0 \<le> ?x" "?x \<le> 1" using n by simp_all
  then obtain v where v: "round32 ?x = Fin v" "0 \<le> v" "v \<le> 1"
    using round32_between [of ?x 0 1] by auto
  then obtain f where f: "round32 (1 + v) = Fin f" "1 \<le> f" "f \<le> 2"
    using round32_between [of "1 + v" 1 2] by auto
  have "f_mul (round32 (1 / 20)) (Fin (of_nat k)) = Fin v" using v(1) by (simp only: c f_mul.simps)
  with f show ?thesis
    using assms by (simp add: BaseGainLevelFactor_def Let_def fn n_def [symmetric] del: f_mul.simps)
qed

lemma factor_below:
  assumes "m < p" and "GetGrayLevel p < m" and "unat p \<le> 84"
  shows "\<exists>f. BaseGainLevelFactor p m = Fin f \<and> 1 / 18 \<le> f \<and> f \<le> 1"
proof -
  let ?Z = "GetZeroDifference p"
  have z: "5 \<le> unat ?Z" "unat ?Z \<le> 17" using unat_zero_difference by blast+
  have lt: "unat m < unat p" "unat (GetGrayLevel p) < unat m"
    using assms by (simp_all add: word_less_nat_alt)
  have le: "unat p < unat ?Z + unat m" using gray_zero_difference [OF assms(3)] lt by linarith
  have s: "unat (?Z + m) = unat ?Z + unat m" using z lt assms(3) by (intro unat_u32_add) linarith
  then have "p \<le> ?Z + m" using le by (simp add: word_le_nat_alt)
  then have k: "unat (?Z + m - p) = unat ?Z + unat m - unat p" by (simp add: unat_sub s)
  define k where "k = unat ?Z + unat m - unat p"
  define z where "z = unat ?Z"
  have kb: "1 \<le> k" "k < z" "z \<le> 17" using le lt z by (simp_all add: k_def z_def)
  let ?q = "of_nat k / of_nat z :: rat"
  have qb: "1 / 17 \<le> ?q" "?q \<le> 1"
  proof -
    have "1 / 17 \<le> 1 / (of_nat z :: rat)" using kb by (simp add: frac_le)
    also have "\<dots> \<le> ?q" using kb by (intro divide_right_mono) simp_all
    finally show "1 / 17 \<le> ?q" .
    show "?q \<le> 1" using kb by simp
  qed
  obtain v where v: "round32 ?q = Fin v" "v \<le> 1"
    using round32_between [of ?q 0 1] qb by auto
  have p126: "pow2 (- 126) \<le> 1 / 17" "1 < pow2 127" by code_simp+
  then have "pow2 (- 126) \<le> \<bar>?q\<bar>" "\<bar>?q\<bar> < pow2 127" using qb by linarith+
  then obtain v' where "round32 ?q = Fin v'" "\<bar>v' - ?q\<bar> \<le> \<bar>?q\<bar> / 16777216"
    using round32_error [of ?q] by blast
  then have "1 / 18 \<le> v" using v(1) qb by (simp add: abs_le_iff)
  moreover have "BaseGainLevelFactor p m = round32 ?q"
  proof -
    have "f_u32 (?Z + m - p) = Fin (of_nat k)" "f_u32 ?Z = Fin (of_nat z)"
      using f_u32_exact [of "?Z + m - p"] f_u32_exact [of ?Z] kb
      by (simp_all add: k [folded k_def] z_def [symmetric])
    moreover have "\<not> p \<le> m" using assms(1) by (simp add: not_le)
    ultimately show ?thesis
      using assms kb by (simp add: BaseGainLevelFactor_def Let_def)
  qed
  ultimately show ?thesis using v by simp
qed

lemma unat_base_xp: "unat p \<le> 84 \<Longrightarrow> unat (p * 5 + 45 :: u32) = unat p * 5 + 45"
  by (simp add: unat_word_ariths)

lemma base_gain_from_factor:
  assumes "BaseGainLevelFactor p m = Fin f" and "1 / 18 \<le> f" and "f \<le> 2" and "1 \<le> unat p" and "unat p \<le> 84"
  shows "2 \<le> unat (BaseGain p m) \<and> unat (BaseGain p m) \<le> 2 * (5 * unat p + 45)"
proof -
  define n where "n = 5 * unat p + 45"
  have n: "50 \<le> n" "n \<le> 465" using assms(4,5) by (simp_all add: n_def)
  have "unat (p * 5 + 45 :: u32) = n" using assms(5) by (simp add: unat_base_xp n_def)
  then have b: "f_u32 (p * 5 + 45) = Fin (of_nat n)" using n f_u32_exact [of "p * 5 + 45"] by simp
  have bb: "50 \<le> (of_nat n :: rat)" "(of_nat n :: rat) \<le> 465" using n by simp_all
  have "50 * (1 / 18) \<le> of_nat n * f" using bb assms(2) by (intro mult_mono) simp_all
  moreover have up: "of_nat n * f \<le> of_nat n * 2" using bb assms(3) by (intro mult_left_mono) simp_all
  moreover from up bb have "of_nat n * f \<le> 930" by linarith
  ultimately have lo: "2 \<le> of_nat n * f" "\<bar>of_nat n * f\<bar> < 16777216" by linarith+
  have hi: "of_nat n * f \<le> of_int (2 * int n)" using up by simp
  from f_mul_Fin [OF lo(2) _ hi, of 2] lo(1) obtain v where
    v: "f_mul (Fin (of_nat n)) (Fin f) = Fin v" "of_int 2 \<le> v" "v \<le> of_int (2 * int n)" by auto
  have t: "2 \<le> trunc v" "trunc v \<le> 2 * int n" using trunc_between [OF v(2,3)] by simp_all
  then have "BaseGain p m = word_of_int (trunc v)"
    using n by (simp add: BaseGain_def b assms(1) v(1) del: f_mul.simps)
  moreover have "unat (word_of_int (trunc v) :: u32) = nat (trunc v)"
    using t n by (intro unat_word_of_int_u32) linarith+
  ultimately have "unat (BaseGain p m) = nat (trunc v)" by simp
  with t show ?thesis unfolding n_def [symmetric] by linarith
qed

lemma base_gain_not_gray:
  assumes "1 \<le> unat p" and "unat p \<le> 84" and "GetGrayLevel p < m"
  shows "2 \<le> unat (BaseGain p m) \<and> unat (BaseGain p m) \<le> 2 * (5 * unat p + 45)"
proof (cases "p \<le> m")
  case True
  from factor_above [OF this] obtain f where "BaseGainLevelFactor p m = Fin f" "1 \<le> f" "f \<le> 2" by blast
  with assms show ?thesis by (intro base_gain_from_factor [of p m f]) simp_all
next
  case False
  then have "m < p" by simp
  from factor_below [OF this assms(3,2)] obtain f where "BaseGainLevelFactor p m = Fin f" "1 / 18 \<le> f" "f \<le> 1" by blast
  with assms show ?thesis by (intro base_gain_from_factor [of p m f]) simp_all
qed

lemma f_mul_zero [simp]: "f_to_u32 (f_mul x (Fin 0)) = 0"
  by (cases x) (simp_all add: round32_def trunc_def)

lemma base_gain_gray:
  assumes "m \<le> GetGrayLevel p" and "m < p"
  shows "BaseGain p m = 0"
proof -
  have "\<not> p \<le> m" "\<not> GetGrayLevel p < m" using assms by (simp_all add: not_le not_less)
  then show ?thesis by (simp only: BaseGain_def BaseGainLevelFactor_def if_False Let_def f_mul_zero)
qed


section \<open>Facts about the group data\<close>

definition kd_counted :: "xp_member list \<Rightarrow> xp_member option \<Rightarrow> xp_member list" where
  "kd_counted members additional =
     filter (\<lambda>p. xm_alive p \<and> xm_in_world p \<and> \<not> is_additional p additional \<and> xm_near p) members
     @ (case additional of None \<Rightarrow> [] | Some a \<Rightarrow> if xm_near a then [a] else [])"

definition kd_best :: "xp_member list \<Rightarrow> xp_member option \<Rightarrow> bool" where
  "kd_best ps best \<longleftrightarrow>
     (case best of None \<Rightarrow> ps = [] | Some b \<Rightarrow> b \<in> set ps \<and> (\<forall>p \<in> set ps. xm_level p \<le> xm_level b))"

lemma kd_best_raise: "kd_best ps best \<Longrightarrow> kd_best (ps @ [p]) (kd_raise p best)"
  unfolding kd_best_def kd_raise_def
  by (auto split: option.splits intro: less_imp_le order_trans simp: not_less)

definition kd_summary :: "u32 \<Rightarrow> xp_member list \<Rightarrow> xp_kill_data \<Rightarrow> bool" where
  "kd_summary vl ps d \<longleftrightarrow>
     kd_count d = of_nat (length ps) \<and> kd_sum_level d = sum_list (map xm_level ps) \<and>
     kd_best ps (kd_max d) \<and> kd_best (filter (\<lambda>p. vl > GetGrayLevel (xm_level p)) ps) (kd_not_gray d)"

lemma kd_visit_summary: "kd_summary vl ps d \<Longrightarrow> kd_summary vl (ps @ [p]) (kd_visit vl p d)"
  by (simp add: kd_summary_def kd_visit_def GetDataForXPAtKill_helper_def kd_best_raise)

lemma kd_fold_summary:
  "kd_summary vl ps d \<Longrightarrow>
   kd_summary vl (ps @ filter (\<lambda>p. xm_alive p \<and> xm_in_world p \<and> \<not> is_additional p a \<and> xm_near p) ms)
     (fold (\<lambda>p d. if \<not> xm_alive p \<or> \<not> xm_in_world p then d else if is_additional p a then d
                  else if \<not> xm_near p then d else kd_visit vl p d) ms d)"
proof (induction ms arbitrary: ps d)
  case (Cons p ms)
  show ?case
    using Cons.IH [of "ps @ [p]" "kd_visit vl p d"] Cons.IH [of ps d] Cons.prems
      kd_visit_summary [OF Cons.prems, of p]
    by auto
qed simp

section \<open>Properties\<close>

text \<open>C26: Killing gives experience exactly when the victim is not gray to the killer: for every player
level up to 84 (the level cap is 60) and every victim, the base gain is zero if and only if
the victim's level does not exceed the gray level, and it is never more than twice the
points of an even-level kill, in the binary32 arithmetic of the formula.\<close>

theorem base_gain_iff_not_gray:
  assumes "1 \<le> unat p" and "unat p \<le> 84"
  shows "(BaseGain p m \<noteq> 0) = (GetGrayLevel p < m) \<and> unat (BaseGain p m) \<le> 2 * (5 * unat p + 45)"
proof (cases "GetGrayLevel p < m")
  case True
  have "BaseGain p m \<noteq> 0" using base_gain_not_gray [OF assms True] by auto
  with True base_gain_not_gray [OF assms True] show ?thesis by simp
next
  case False
  have "unat (GetGrayLevel p) < unat p"
    using assms by (simp add: unat_gray)
  then have "m < p" using False by (simp add: word_less_nat_alt)
  with False base_gain_gray [of m p] show ?thesis by (simp add: not_less)
qed

lemma base_gain_iff_not_gray_witness:
  "(BaseGain 60 48 \<noteq> 0) = (GetGrayLevel 60 < 48) \<and> GetGrayLevel 60 = 47 \<and> BaseGain 60 48 = 101"
proof -
  have "BaseGain 60 48 = 101" by code_simp
  moreover have "GetGrayLevel 60 = 47" by code_simp
  ultimately show ?thesis using base_gain_iff_not_gray [of 60 48] by simp
qed

text \<open>From level 2 on the colour shown for a victim agrees with the experience formula: a victim is
gray exactly when killing it gives nothing.\<close>

theorem gray_color_iff_no_gain:
  assumes "2 \<le> unat p" and "unat p \<le> 84" and "1 \<le> unat m"
  shows "GetColorCode p m = GRAY \<longleftrightarrow> BaseGain p m = 0"
proof -
  have "unat (GetGrayLevel p) \<le> unat p - 2"
    using assms by (simp add: unat_gray) linarith
  moreover have "2 \<le> p" using assms(1) by (simp add: word_le_nat_alt)
  ultimately have "GetGrayLevel p \<le> p - 2" by (simp add: word_le_nat_alt unat_sub)
  moreover have "unat (p + 5) = unat p + 5" "unat (p + 3) = unat p + 3"
    using assms by (simp_all add: unat_u32_add)
  then have "p - 2 \<le> p + 3" "p + 3 \<le> p + 5"
    using \<open>2 \<le> p\<close> by (simp_all add: word_le_nat_alt unat_sub)
  moreover have "GetGrayLevel p < p - 2 \<or> GetGrayLevel p = 0"
  proof (cases "unat p \<le> 5")
    case True
    then show ?thesis by (simp add: GetGrayLevel_def word_le_nat_alt)
  next
    case False
    then have "unat (GetGrayLevel p) < unat p - 2" using assms by (simp add: unat_gray) linarith
    then show ?thesis using \<open>2 \<le> p\<close> by (simp add: word_less_nat_alt unat_sub)
  qed
  moreover have "0 < m" using assms(3) by (simp add: word_less_nat_alt)
  ultimately have "GetColorCode p m = GRAY \<longleftrightarrow> \<not> GetGrayLevel p < m"
    unfolding GetColorCode_def by (auto simp: not_less not_le)
  moreover have "BaseGain p m = 0 \<longleftrightarrow> \<not> GetGrayLevel p < m"
    using base_gain_gray [of m p] base_gain_not_gray [of p m] assms calculation
      \<open>GetGrayLevel p \<le> p - 2\<close>
  proof -
    have "m < p" if "\<not> GetGrayLevel p < m"
    proof -
      have "p - 2 < p" using \<open>2 \<le> p\<close> assms(1) by (simp add: word_less_nat_alt unat_sub)
      with that \<open>GetGrayLevel p \<le> p - 2\<close> show ?thesis by (auto simp: not_less)
    qed
    then show ?thesis
      using base_gain_gray [of m p] base_gain_not_gray [of p m] assms by (fastforce simp: not_less)
  qed
  ultimately show ?thesis by simp
qed

lemma gray_color_iff_no_gain_witness:
  "GetColorCode 20 13 = GRAY \<and> BaseGain 20 13 = 0 \<and> GetColorCode 20 14 = GREEN \<and> BaseGain 20 14 \<noteq> 0"
proof -
  have c: "GetColorCode 20 13 = GRAY" "GetColorCode 20 14 = GREEN" by code_simp+
  with gray_color_iff_no_gain [of 20 13] gray_color_iff_no_gain [of 20 14] show ?thesis by simp
qed

text \<open>At level 1 the unsigned \<^verbatim>\<open>pl_level - 2\<close> wraps, so that an even-level victim is not YELLOW.\<close>

lemma color_code_level_one: "GetColorCode 1 1 = GREEN \<and> GetColorCode 2 2 = YELLOW"
  by code_simp

text \<open>No points without the players' share of the damage: while the counters are below 60 million,
a creature to which players dealt at most 35 percent of the damage gives nothing, whatever
the rate, the levels and its rank.\<close>

theorem no_gain_without_damage_share:
  assumes "unat (xv_playerDamageTaken u) < 60000000" and "unat (xv_nonPlayerDamageTaken u) < 60000000"
    and "100 * unat (xv_playerDamageTaken u) \<le>
      35 * (unat (xv_playerDamageTaken u) + unat (xv_nonPlayerDamageTaken u))"
    and "xv_is_unit u"
  shows "Gain rate p u = 0"
proof -
  have m: "unat (c * w :: u32) = unat c * unat w" if "unat c * unat w < 4294967296" for c w
    using that by (simp add: unat_word_ariths)
  have "unat (65 * xv_playerDamageTaken u) = 65 * unat (xv_playerDamageTaken u)"
    "unat (35 * xv_nonPlayerDamageTaken u) = 35 * unat (xv_nonPlayerDamageTaken u)"
    using assms(1,2) by (subst m; simp)+
  moreover have "65 * unat (xv_playerDamageTaken u) \<le> 35 * unat (xv_nonPlayerDamageTaken u)"
    using assms(3) by simp
  ultimately have "\<not> IsLootAllowedDueToDamageOrigin u"
    unfolding IsLootAllowedDueToDamageOrigin_def word_less_nat_alt by simp
  then have "GetXPModifierDueToDamageOrigin u = Fin 0" by (simp add: GetXPModifierDueToDamageOrigin_def)
  moreover have "f_to_u32 (f_mul (f_u32 0) rate) = 0"
    by (cases rate) (simp_all add: f_u32_def f_int_def round32_def trunc_def)
  ultimately show ?thesis using assms(4) by (simp add: Gain_def Let_def)
qed

lemma no_gain_without_damage_share_witness:
  "Gain (Fin 5) 60 \<lparr>xv_is_unit = True, xv_created_by_spell = 0, xv_extra_no_xp = False, xv_no_kill_reward = False,
     xv_level = 60, xv_pet = False, xv_rank = 1, xv_playerDamageTaken = 35, xv_nonPlayerDamageTaken = 65\<rparr> = 0"
  by (rule no_gain_without_damage_share) simp_all

text \<open>C35: The group data of a kill is what its names say: over the members that are alive, in the world
and near, with the tapping player counted once and in any condition, the count and the sum
of levels are exact, and the two members kept have the highest level among all of them and
among those the victim is not gray to; each is absent only when there is no such member.\<close>

theorem group_kill_data_correct:
  "kd_summary victim_level (kd_counted members additional) (GetDataForXPAtKill members victim_level additional)"
proof -
  have "kd_summary victim_level [] \<lparr>kd_count = 0, kd_sum_level = 0, kd_max = None, kd_not_gray = None\<rparr>"
    by (simp add: kd_summary_def kd_best_def)
  from kd_fold_summary [OF this, of additional members] show ?thesis
    by (auto simp: GetDataForXPAtKill_def kd_counted_def Let_def split: option.split intro: kd_visit_summary)
qed

end
