(* ===== verification/Auction.thy ===== *)
theory Auction
  imports Float32 Guids
begin

text \<open>
  The auction house: \<^verbatim>\<open>src/game/AuctionHouse/AuctionHouseMgr.{h,cpp}\<close>, the client requests of
  \<^verbatim>\<open>src/game/Handlers/AuctionHouseHandler.cpp\<close>, the auction ids of \<^verbatim>\<open>ObjectMgr\<close> and the purse of
  \<^verbatim>\<open>Player.h\<close>. The state holds what these functions read and write: the money of the players in
  the world, the account of every character that exists, carried items, sent mails, the items
  held by the manager, the three houses, the ids in use, the rows of the \<^verbatim>\<open>auction\<close> table, and
  the packets sent. Item GUIDs are their counters. The configuration and the DBC stores are a
  record that every operation takes; what the session checks against the rest of the world (an
  auctioneer in reach, the rank of the account) is in the session record.
\<close>

section \<open>Data\<close>

record auction_house =
  ah_houseId :: u32
  ah_faction :: u32
  ah_depositPercent :: u32
  ah_cutPercent :: u32

record auction_item =
  it_guid :: u32
  it_entry :: u32
  it_count :: u32
  it_sellPrice :: u32
  it_tradable :: bool
  it_conjured :: bool
  it_duration :: u32
  it_enchantment :: u32
  it_randomProperty :: u32
  it_suffixFactor :: u32
  it_charges :: u32
  it_class :: u32
  it_subClass :: u32
  it_inventoryType :: u32
  it_quality :: u32
  it_requiredLevel :: u32

record auction_entry =
  ae_Id :: u32
  ae_itemGuidLow :: u32
  ae_itemTemplate :: u32
  ae_owner :: u32
  ae_startbid :: u32
  ae_bid :: u32
  ae_buyout :: u32
  ae_lockedIp :: string
  ae_depositTime :: int
  ae_expireTime :: int
  ae_bidder :: u32
  ae_deposit :: u32
  ae_house :: auction_house

record ah_config =
  ac_two_side :: bool
  ac_gm_trades :: bool
  ac_deposit_min :: u32
  ac_rate_deposit :: f32
  ac_rate_cut :: f32
  ac_rate_time :: f32
  ac_store :: "u32 \<Rightarrow> auction_house option"
  ac_faction_mask :: "u32 \<Rightarrow> u32 option"

datatype auctioneer = Npc u32 | Self

record ah_session =
  ss_guid :: u32
  ss_account :: u32
  ss_security :: nat
  ss_address :: string
  ss_team :: u32
  ss_access :: int  \<comment> \<open>\<^verbatim>\<open>GetAuctionAccessMode\<close>\<close>
  ss_command :: bool  \<comment> \<open>may use the \<open>auction\<close> command\<close>
  ss_npc :: "object_guid \<Rightarrow> u32 option"  \<comment> \<open>faction of an auctioneer in reach\<close>

datatype ah_subject = Outbidded | Won | Successful | Expired | CancelledToBidder | Canceled

record ah_mail =
  ml_receiver :: u32
  ml_subject :: ah_subject
  ml_money :: u32
  ml_item :: "auction_item option"

datatype ah_side = Alliance | Horde | Neutral

datatype auction_error =
  AUCTION_OK | AUCTION_ERR_INVENTORY | AUCTION_ERR_DATABASE | AUCTION_ERR_NOT_ENOUGH_MONEY |
  AUCTION_ERR_ITEM_NOT_FOUND | AUCTION_ERR_HIGHER_BID | AUCTION_ERR_BID_INCREMENT |
  AUCTION_ERR_BID_OWN | AUCTION_ERR_RESTRICTED_ACCOUNT

datatype auction_action = AUCTION_STARTED | AUCTION_REMOVED | AUCTION_BID_PLACED

primrec error_code :: "auction_error \<Rightarrow> u32" where
  "error_code AUCTION_OK = 0"
| "error_code AUCTION_ERR_INVENTORY = 1"
| "error_code AUCTION_ERR_DATABASE = 2"
| "error_code AUCTION_ERR_NOT_ENOUGH_MONEY = 3"
| "error_code AUCTION_ERR_ITEM_NOT_FOUND = 4"
| "error_code AUCTION_ERR_HIGHER_BID = 5"
| "error_code AUCTION_ERR_BID_INCREMENT = 7"
| "error_code AUCTION_ERR_BID_OWN = 10"
| "error_code AUCTION_ERR_RESTRICTED_ACCOUNT = 13"

primrec action_code :: "auction_action \<Rightarrow> u32" where
  "action_code AUCTION_STARTED = 0"
| "action_code AUCTION_REMOVED = 1"
| "action_code AUCTION_BID_PLACED = 2"

datatype ah_opcode =
  MSG_AUCTION_HELLO | SMSG_AUCTION_COMMAND_RESULT | SMSG_AUCTION_BIDDER_NOTIFICATION |
  SMSG_AUCTION_OWNER_NOTIFICATION | SMSG_AUCTION_REMOVED_NOTIFICATION |
  SMSG_AUCTION_BIDDER_LIST_RESULT | SMSG_AUCTION_OWNER_LIST_RESULT | SMSG_AUCTION_LIST_RESULT

record ah_packet =
  pk_to :: u32
  pk_opcode :: ah_opcode
  pk_data :: "u8 list"

record ah_world =
  aw_money :: "(u32, u32) smap"
  aw_account :: "(u32, u32) smap"
  aw_bags :: "(u32, u32 \<times> auction_item) smap"
  aw_mail :: "ah_mail list"
  aw_items :: "(u32, auction_item) smap"
  aw_alliance :: "(u32, auction_entry) smap"
  aw_horde :: "(u32, auction_entry) smap"
  aw_neutral :: "(u32, auction_entry) smap"
  aw_used :: "u32 list"
  aw_next :: u32
  aw_out :: "ah_packet list"
  aw_crashed :: bool  \<comment> \<open>a null pointer has been dereferenced\<close>

section \<open>The purse\<close>

definition MAX_MONEY_AMOUNT :: int where "MAX_MONEY_AMOUNT = 0x7FFFFFFE"

text \<open>The argument is an \<^verbatim>\<open>int32\<close>; the comparisons and the sum are on \<^verbatim>\<open>uint32\<close>.\<close>

definition money_after :: "int \<Rightarrow> u32 \<Rightarrow> u32" where
  "money_after d money =
     (if d < 0
      then (if money > word_of_int (- d) then money + word_of_int d else 0)
      else (if money < word_of_int (MAX_MONEY_AMOUNT - d) then money + word_of_int d
            else word_of_int MAX_MONEY_AMOUNT))"

definition GetMoney :: "u32 \<Rightarrow> ah_world \<Rightarrow> u32" where
  "GetMoney pl w = (case sm_find (aw_money w) pl of None \<Rightarrow> 0 | Some m \<Rightarrow> m)"

definition ModifyMoney :: "u32 \<Rightarrow> int \<Rightarrow> ah_world \<Rightarrow> ah_world" where
  "ModifyMoney pl d w = w\<lparr>aw_money := sm_put pl (money_after d (GetMoney pl w)) (aw_money w)\<rparr>"

text \<open>\<^verbatim>\<open>-int32(x)\<close>.\<close>

definition minus_int32 :: "u32 \<Rightarrow> int" where
  "minus_int32 x = wrap32 (- wrap32 (uint x))"

section \<open>Players\<close>

definition online :: "u32 \<Rightarrow> ah_world \<Rightarrow> bool" where
  "online g w \<longleftrightarrow> sm_has (aw_money w) g"

definition GetPlayerAccountIdByGUID :: "u32 \<Rightarrow> ah_world \<Rightarrow> u32" where
  "GetPlayerAccountIdByGUID g w = (case sm_find (aw_account w) g of None \<Rightarrow> 0 | Some a \<Rightarrow> a)"

definition receiver_exists :: "u32 \<Rightarrow> ah_world \<Rightarrow> bool" where
  "receiver_exists g w \<longleftrightarrow> online g w \<or> GetPlayerAccountIdByGUID g w \<noteq> 0"

definition send_mail :: "u32 \<Rightarrow> ah_subject \<Rightarrow> u32 \<Rightarrow> auction_item option \<Rightarrow> ah_world \<Rightarrow> ah_world" where
  "send_mail g subj money it w =
     w\<lparr>aw_mail := aw_mail w @ [\<lparr>ml_receiver = g, ml_subject = subj, ml_money = money, ml_item = it\<rparr>]\<rparr>"

definition send_packet :: "u32 \<Rightarrow> ah_opcode \<Rightarrow> u8 list \<Rightarrow> ah_world \<Rightarrow> ah_world" where
  "send_packet g op bytes w = w\<lparr>aw_out := aw_out w @ [\<lparr>pk_to = g, pk_opcode = op, pk_data = bytes\<rparr>]\<rparr>"

section \<open>Auction ids\<close>

text \<open>\<^verbatim>\<open>lower_bound\<close> and the walk over the run of used ids.\<close>

fun skip_used :: "u32 list \<Rightarrow> u32 \<Rightarrow> u32" where
  "skip_used [] nxt = nxt"
| "skip_used (u # us) nxt = (if u = nxt then skip_used us (nxt + 1) else nxt)"

definition GenerateAuctionID :: "ah_world \<Rightarrow> u32 \<times> ah_world" where
  "GenerateAuctionID w =
     (let nxt = skip_used (dropWhile (\<lambda>u. u < aw_next w) (aw_used w)) (aw_next w)
      in (nxt, w\<lparr>aw_used := insort_insert nxt (aw_used w), aw_next := nxt + 1\<rparr>))"

definition FreeAuctionID :: "u32 \<Rightarrow> ah_world \<Rightarrow> ah_world" where
  "FreeAuctionID i w = w\<lparr>aw_used := removeAll i (aw_used w)\<rparr>"

section \<open>The houses\<close>

definition get_house :: "ah_side \<Rightarrow> ah_world \<Rightarrow> (u32, auction_entry) smap" where
  "get_house s w = (case s of Alliance \<Rightarrow> aw_alliance w | Horde \<Rightarrow> aw_horde w | Neutral \<Rightarrow> aw_neutral w)"

definition set_house :: "ah_side \<Rightarrow> (u32, auction_entry) smap \<Rightarrow> ah_world \<Rightarrow> ah_world" where
  "set_house s m w =
     (case s of Alliance \<Rightarrow> w\<lparr>aw_alliance := m\<rparr> | Horde \<Rightarrow> w\<lparr>aw_horde := m\<rparr> | Neutral \<Rightarrow> w\<lparr>aw_neutral := m\<rparr>)"

definition AddAuction :: "ah_side \<Rightarrow> auction_entry \<Rightarrow> ah_world \<Rightarrow> ah_world" where
  "AddAuction s a w = set_house s (sm_put (ae_Id a) a (get_house s w)) w"

definition GetAuction :: "ah_side \<Rightarrow> u32 \<Rightarrow> ah_world \<Rightarrow> auction_entry option" where
  "GetAuction s i w = sm_find (get_house s w) i"

definition RemoveAuction :: "ah_side \<Rightarrow> u32 \<Rightarrow> ah_world \<Rightarrow> bool \<times> ah_world" where
  "RemoveAuction s i w =
     (if sm_has (get_house s w) i
      then (True, FreeAuctionID i (set_house s (sm_erase i (get_house s w)) w))
      else (False, w))"

definition GetAItem :: "u32 \<Rightarrow> ah_world \<Rightarrow> auction_item option" where
  "GetAItem i w = sm_find (aw_items w) i"

definition AddAItem :: "auction_item \<Rightarrow> ah_world \<Rightarrow> ah_world" where
  "AddAItem it w = w\<lparr>aw_items := sm_put (it_guid it) it (aw_items w)\<rparr>"

definition RemoveAItem :: "u32 \<Rightarrow> ah_world \<Rightarrow> bool \<times> ah_world" where
  "RemoveAItem i w =
     (if sm_has (aw_items w) i then (True, w\<lparr>aw_items := sm_erase i (aw_items w)\<rparr>) else (False, w))"

definition GetAuctionHouseTeam :: "auction_house \<Rightarrow> u32" where
  "GetAuctionHouseTeam h =
     (if ah_houseId h = 1 \<or> ah_houseId h = 2 \<or> ah_houseId h = 3 then 469
      else if ah_houseId h = 4 \<or> ah_houseId h = 5 \<or> ah_houseId h = 6 then 67
      else 0)"

definition GetAuctionsMap :: "ah_config \<Rightarrow> auction_house \<Rightarrow> ah_side" where
  "GetAuctionsMap cfg h =
     (if ac_two_side cfg then Neutral
      else if GetAuctionHouseTeam h = 469 then Alliance
      else if GetAuctionHouseTeam h = 67 then Horde
      else Neutral)"

text \<open>The house id of a faction template: the city factions by number, others by their mask.\<close>

definition faction_house :: "ah_config \<Rightarrow> u32 \<Rightarrow> u32" where
  "faction_house cfg f =
     (if f = 12 then 1 else if f = 29 then 6 else if f = 55 then 2 else if f = 68 then 4
      else if f = 80 then 3 else if f = 104 then 5 else if f = 120 then 7 else if f = 474 then 7
      else if f = 534 then 2 else if f = 855 then 7
      else case ac_faction_mask cfg f of
             None \<Rightarrow> 7
           | Some ourMask \<Rightarrow> if ourMask AND 2 \<noteq> 0 then 1 else if ourMask AND 4 \<noteq> 0 then 6 else 7)"

definition GetAuctionHouseEntry_faction :: "ah_config \<Rightarrow> u32 \<Rightarrow> auction_house option" where
  "GetAuctionHouseEntry_faction cfg f = ac_store cfg (faction_house cfg f)"

definition GetAuctionHouseEntry :: "ah_config \<Rightarrow> ah_session \<Rightarrow> auctioneer \<Rightarrow> auction_house option" where
  "GetAuctionHouseEntry cfg ss u =
     (let houseid =
        (if ac_two_side cfg then 1
         else case u of
                Npc f \<Rightarrow> faction_house cfg f
              | Self \<Rightarrow>
                  if ss_access ss > 0 then 7
                  else if ss_team ss = 469 then (if ss_access ss = 0 then 1 else 6)
                  else if ss_team ss = 67 then (if ss_access ss = 0 then 6 else 1)
                  else 1)
      in ac_store cfg houseid)"

definition GetCheckedAuctionHouseForAuctioneer ::
    "ah_config \<Rightarrow> ah_session \<Rightarrow> object_guid \<Rightarrow> auction_house option" where
  "GetCheckedAuctionHouseForAuctioneer cfg ss guid =
     (if guid = guid_of_counter HIGHGUID_PLAYER (ss_guid ss)
      then (if ss_access ss = 0 \<and> \<not> ss_command ss then None else GetAuctionHouseEntry cfg ss Self)
      else case ss_npc ss guid of
             None \<Rightarrow> None
           | Some f \<Rightarrow> GetAuctionHouseEntry cfg ss (Npc f))"

section \<open>Prices\<close>

definition fl_u32 :: "u32 \<Rightarrow> f32" where
  "fl_u32 w = f_int (uint w)"

definition GetAuctionDeposit :: "ah_config \<Rightarrow> auction_house \<Rightarrow> u32 \<Rightarrow> auction_item \<Rightarrow> u32" where
  "GetAuctionDeposit cfg h time it =
     (let deposit = fl_u32 (it_sellPrice it * it_count it * (time div 7200));
          deposit1 = f_div (f_mul deposit (fl_u32 (ah_depositPercent h))) (Fin 100);
          min_deposit = fl_u32 (ac_deposit_min cfg);
          deposit2 = (if f_less deposit1 min_deposit then min_deposit else deposit1)
      in f_to_u32 (f_mul deposit2 (ac_rate_deposit cfg)))"

definition GetAuctionCut :: "ah_config \<Rightarrow> auction_entry \<Rightarrow> u32" where
  "GetAuctionCut cfg a =
     f_to_u32 (f_div (f_mul (fl_u32 (ah_cutPercent (ae_house a) * ae_bid a)) (ac_rate_cut cfg)) (Fin 100))"

definition GetAuctionOutBid :: "auction_entry \<Rightarrow> u32" where
  "GetAuctionOutBid a = (let outbid = (ae_bid a div 100) * 5 in if outbid = 0 then 1 else outbid)"

section \<open>Packets\<close>

definition pplayer :: "u32 \<Rightarrow> u8 list" where
  "pplayer low = pguid (guid_of_counter HIGHGUID_PLAYER low)"

definition SendAuctionHello :: "ah_session \<Rightarrow> object_guid \<Rightarrow> auction_house option \<Rightarrow> ah_world \<Rightarrow> ah_world" where
  "SendAuctionHello ss guid entry w =
     (case entry of
        None \<Rightarrow> w\<lparr>aw_crashed := True\<rparr>
      | Some h \<Rightarrow> send_packet (ss_guid ss) MSG_AUCTION_HELLO (pguid guid @ p32 (ah_houseId h)) w)"

definition HandleAuctionHelloOpcode :: "ah_config \<Rightarrow> ah_session \<Rightarrow> object_guid \<Rightarrow> ah_world \<Rightarrow> ah_world" where
  "HandleAuctionHelloOpcode cfg ss guid w =
     (case ss_npc ss guid of
        None \<Rightarrow> w
      | Some f \<Rightarrow> SendAuctionHello ss guid (GetAuctionHouseEntry cfg ss (Npc f)) w)"

text \<open>The reads through a null entry that some answers would make are kept: they crash.\<close>

definition SendAuctionCommandResult ::
    "u32 \<Rightarrow> auction_entry option \<Rightarrow> auction_action \<Rightarrow> auction_error \<Rightarrow> u32 \<Rightarrow> ah_world \<Rightarrow> ah_world" where
  "SendAuctionCommandResult to auc act err invError w =
     (let hd_bytes = p32 (case auc of None \<Rightarrow> 0 | Some a \<Rightarrow> ae_Id a) @ p32 (action_code act) @ p32 (error_code err);
          tail_bytes =
            (case err of
               AUCTION_OK \<Rightarrow>
                 (if act = AUCTION_BID_PLACED then map_option (\<lambda>a. p32 (GetAuctionOutBid a)) auc else Some [])
             | AUCTION_ERR_INVENTORY \<Rightarrow> Some (p32 invError)
             | AUCTION_ERR_HIGHER_BID \<Rightarrow>
                 map_option (\<lambda>a. pplayer (ae_bidder a) @ p32 (ae_bid a) @ p32 (GetAuctionOutBid a)) auc
             | _ \<Rightarrow> Some [])
      in case tail_bytes of
           None \<Rightarrow> w\<lparr>aw_crashed := True\<rparr>
         | Some bytes \<Rightarrow> send_packet to SMSG_AUCTION_COMMAND_RESULT (hd_bytes @ bytes) w)"

definition random_id :: "auction_entry \<Rightarrow> ah_world \<Rightarrow> u32" where
  "random_id a w = (case GetAItem (ae_itemGuidLow a) w of None \<Rightarrow> 0 | Some it \<Rightarrow> it_randomProperty it)"

definition SendAuctionBidderNotification :: "u32 \<Rightarrow> auction_entry \<Rightarrow> bool \<Rightarrow> ah_world \<Rightarrow> ah_world" where
  "SendAuctionBidderNotification to a won w =
     send_packet to SMSG_AUCTION_BIDDER_NOTIFICATION
       (p32 (ah_houseId (ae_house a)) @ p32 (ae_Id a) @ pplayer (ae_bidder a)
        @ p32 (if won then 0 else ae_bid a) @ p32 (GetAuctionOutBid a) @ p32 (ae_itemTemplate a)
        @ p32 (random_id a w)) w"

definition SendAuctionOwnerNotification :: "u32 \<Rightarrow> auction_entry \<Rightarrow> bool \<Rightarrow> ah_world \<Rightarrow> ah_world" where
  "SendAuctionOwnerNotification to a sold w =
     send_packet to SMSG_AUCTION_OWNER_NOTIFICATION
       (p32 (ae_Id a) @ p32 (ae_bid a) @ p32 (GetAuctionOutBid a)
        @ (if \<not> sold then pplayer (ae_bidder a) else pguid 0) @ p32 (ae_itemTemplate a)
        @ p32 (random_id a w)) w"

definition SendAuctionRemovedNotification :: "u32 \<Rightarrow> auction_entry \<Rightarrow> ah_world \<Rightarrow> ah_world" where
  "SendAuctionRemovedNotification to a w =
     send_packet to SMSG_AUCTION_REMOVED_NOTIFICATION
       (p32 (ae_Id a) @ p32 (ae_itemTemplate a) @ p32 (random_id a w)) w"

section \<open>Mails\<close>

definition SendAuctionOutbiddedMail :: "auction_entry \<Rightarrow> ah_world \<Rightarrow> ah_world" where
  "SendAuctionOutbiddedMail a w =
     (if receiver_exists (ae_bidder a) w then
        (let w1 = (if online (ae_bidder a) w then SendAuctionBidderNotification (ae_bidder a) a False w else w)
         in send_mail (ae_bidder a) Outbidded (ae_bid a) None w1)
      else w)"

definition SendAuctionCancelledToBidderMail :: "auction_entry \<Rightarrow> ah_world \<Rightarrow> ah_world" where
  "SendAuctionCancelledToBidderMail a w =
     (if receiver_exists (ae_bidder a) w then
        (let w1 = (if online (ae_bidder a) w then SendAuctionRemovedNotification (ae_bidder a) a w else w)
         in send_mail (ae_bidder a) CancelledToBidder (ae_bid a) None w1)
      else w)"

definition SendAuctionWonMail :: "auction_entry \<Rightarrow> ah_world \<Rightarrow> ah_world" where
  "SendAuctionWonMail a w =
     (case GetAItem (ae_itemGuidLow a) w of
        None \<Rightarrow> w
      | Some it \<Rightarrow>
          if receiver_exists (ae_bidder a) w then
            (let w1 = (if online (ae_bidder a) w then SendAuctionBidderNotification (ae_bidder a) a True w
                       else snd (RemoveAItem (it_guid it) w))
             in send_mail (ae_bidder a) Won 0 (Some it) w1)
          else snd (RemoveAItem (it_guid it) w))"

definition SendAuctionSuccessfulMail :: "ah_config \<Rightarrow> auction_entry \<Rightarrow> ah_world \<Rightarrow> ah_world" where
  "SendAuctionSuccessfulMail cfg a w =
     (if receiver_exists (ae_owner a) w then
        (let auctionCut = GetAuctionCut cfg a;
             profit = ae_bid a + ae_deposit a - auctionCut;
             w1 = (if online (ae_owner a) w then SendAuctionOwnerNotification (ae_owner a) a True w else w)
         in send_mail (ae_owner a) Successful profit None w1)
      else w)"

definition SendAuctionExpiredMail :: "auction_entry \<Rightarrow> ah_world \<Rightarrow> ah_world" where
  "SendAuctionExpiredMail a w =
     (case GetAItem (ae_itemGuidLow a) w of
        None \<Rightarrow> w
      | Some it \<Rightarrow>
          if receiver_exists (ae_owner a) w then
            (let w1 = (if online (ae_owner a) w then SendAuctionOwnerNotification (ae_owner a) a False w
                       else snd (RemoveAItem (it_guid it) w))
             in send_mail (ae_owner a) Expired 0 (Some it) w1)
          else snd (RemoveAItem (it_guid it) w))"

section \<open>Selling\<close>

definition EQUIP_ERR_OK :: u32 where "EQUIP_ERR_OK = 0"
definition EQUIP_ERR_ITEM_NOT_FOUND :: u32 where "EQUIP_ERR_ITEM_NOT_FOUND = 23"

definition GetItemByGuid :: "u32 \<Rightarrow> u32 \<Rightarrow> ah_world \<Rightarrow> auction_item option" where
  "GetItemByGuid pl g w =
     (case sm_find (aw_bags w) g of None \<Rightarrow> None | Some (holder, it) \<Rightarrow> if holder = pl then Some it else None)"

definition sell_refused :: "u32 \<Rightarrow> auction_error \<Rightarrow> u32 \<Rightarrow> ah_world \<Rightarrow> ah_world" where
  "sell_refused pl err invError w = SendAuctionCommandResult pl None AUCTION_STARTED err invError w"

definition create_auction ::
    "ah_config \<Rightarrow> ah_session \<Rightarrow> auction_house \<Rightarrow> auction_item \<Rightarrow> u32 \<Rightarrow> u32 \<Rightarrow> u32 \<Rightarrow> u32 \<Rightarrow> int \<Rightarrow> ah_world \<Rightarrow> ah_world" where
  "create_auction cfg ss h it bid buyout secs deposit now w =
     (let w1 = ModifyMoney (ss_guid ss) (minus_int32 deposit) w;
          auction_time = f_to_u32 (f_mul (fl_u32 secs) (ac_rate_time cfg));
          (i, w2) = GenerateAuctionID w1;
          a = \<lparr>ae_Id = i, ae_itemGuidLow = it_guid it, ae_itemTemplate = it_entry it, ae_owner = ss_guid ss,
               ae_startbid = bid, ae_bid = 0, ae_buyout = buyout, ae_lockedIp = ss_address ss,
               ae_depositTime = now, ae_expireTime = now + uint auction_time, ae_bidder = 0,
               ae_deposit = deposit, ae_house = h\<rparr>;
          w3 = AddAuction (GetAuctionsMap cfg h) a w2;
          w4 = AddAItem it w3;
          w5 = w4\<lparr>aw_bags := sm_erase (it_guid it) (aw_bags w4)\<rparr>
      in SendAuctionCommandResult (ss_guid ss) (Some a) AUCTION_STARTED AUCTION_OK EQUIP_ERR_OK w5)"

definition HandleAuctionSellItem ::
    "ah_config \<Rightarrow> ah_session \<Rightarrow> object_guid \<Rightarrow> u32 \<Rightarrow> u32 \<Rightarrow> u32 \<Rightarrow> u32 \<Rightarrow> int \<Rightarrow> ah_world \<Rightarrow> ah_world" where
  "HandleAuctionSellItem cfg ss auctioneerGuid itemGuid bid buyout etime now w =
     (if bid = 0 \<or> etime = 0 then w
      else if bid > 2000000000 \<or> buyout > 2000000000 then w
      else if buyout \<noteq> 0 \<and> bid > buyout then w
      else if \<not> ac_gm_trades cfg \<and> ss_security ss > 0 then w
      else case GetCheckedAuctionHouseForAuctioneer cfg ss auctioneerGuid of
        None \<Rightarrow> w
      | Some h \<Rightarrow>
        (let secs = etime * 60; pl = ss_guid ss in
         if secs \<noteq> 7200 \<and> secs \<noteq> 28800 \<and> secs \<noteq> 86400 then w
         else if itemGuid = 0 then w
         else if GetAItem itemGuid w \<noteq> None
         then sell_refused pl AUCTION_ERR_INVENTORY EQUIP_ERR_ITEM_NOT_FOUND w
         else case GetItemByGuid pl itemGuid w of
           None \<Rightarrow> sell_refused pl AUCTION_ERR_INVENTORY EQUIP_ERR_ITEM_NOT_FOUND w
         | Some it \<Rightarrow>
           if \<not> it_tradable it then sell_refused pl AUCTION_ERR_INVENTORY EQUIP_ERR_ITEM_NOT_FOUND w
           else if it_conjured it \<or> it_duration it \<noteq> 0
           then sell_refused pl AUCTION_ERR_INVENTORY EQUIP_ERR_ITEM_NOT_FOUND w
           else (let deposit = GetAuctionDeposit cfg h secs it in
                 if GetMoney pl w < deposit then sell_refused pl AUCTION_ERR_NOT_ENOUGH_MONEY EQUIP_ERR_OK w
                 else create_auction cfg ss h it bid buyout secs deposit now w)))"

section \<open>Bidding\<close>

text \<open>The two ways a price is taken: the difference from a bidder raising his own bid, the whole
price from a new one, with the money of the old bidder mailed back.\<close>

definition take_price :: "u32 \<Rightarrow> u32 \<Rightarrow> auction_entry \<Rightarrow> ah_world \<Rightarrow> ah_world" where
  "take_price pl price a w =
     (if pl = ae_bidder a then ModifyMoney pl (minus_int32 (price - ae_bid a)) w
      else let w1 = ModifyMoney pl (minus_int32 price) w
           in if ae_bidder a \<noteq> 0 then SendAuctionOutbiddedMail a w1 else w1)"

definition place_bid :: "u32 \<Rightarrow> ah_side \<Rightarrow> u32 \<Rightarrow> u32 \<Rightarrow> auction_entry \<Rightarrow> ah_world \<Rightarrow> ah_world" where
  "place_bid pl s i price a w =
     (let w1 = take_price pl price a w;
          a' = a\<lparr>ae_bidder := pl, ae_bid := price\<rparr>;
          w2 = set_house s (sm_put i a' (get_house s w1)) w1;
          w3 = (if online (ae_owner a) w then SendAuctionOwnerNotification (ae_owner a) a' False w2 else w2)
      in SendAuctionCommandResult pl (Some a') AUCTION_BID_PLACED AUCTION_OK EQUIP_ERR_OK w3)"

definition buy_out :: "ah_config \<Rightarrow> u32 \<Rightarrow> ah_side \<Rightarrow> u32 \<Rightarrow> auction_entry \<Rightarrow> ah_world \<Rightarrow> ah_world" where
  "buy_out cfg pl s i a w =
     (let w1 = take_price pl (ae_buyout a) a w;
          a' = a\<lparr>ae_bidder := pl, ae_bid := ae_buyout a\<rparr>;
          w2 = set_house s (sm_put i a' (get_house s w1)) w1;
          w3 = SendAuctionSuccessfulMail cfg a' w2;
          w4 = SendAuctionWonMail a' w3;
          w5 = SendAuctionCommandResult pl (Some a') AUCTION_BID_PLACED AUCTION_OK EQUIP_ERR_OK w4;
          w6 = snd (RemoveAItem (ae_itemGuidLow a) w5)
      in snd (RemoveAuction s (ae_Id a) w6))"

definition HandleAuctionPlaceBid ::
    "ah_config \<Rightarrow> ah_session \<Rightarrow> object_guid \<Rightarrow> u32 \<Rightarrow> u32 \<Rightarrow> ah_world \<Rightarrow> ah_world" where
  "HandleAuctionPlaceBid cfg ss auctioneerGuid auctionId price w =
     (if \<not> ac_gm_trades cfg \<and> ss_security ss > 0 then w
      else if auctionId = 0 \<or> price = 0 then w
      else case GetCheckedAuctionHouseForAuctioneer cfg ss auctioneerGuid of
        None \<Rightarrow> w
      | Some h \<Rightarrow>
        (let s = GetAuctionsMap cfg h; pl = ss_guid ss in
         case GetAuction s auctionId w of
           None \<Rightarrow> SendAuctionCommandResult pl None AUCTION_BID_PLACED AUCTION_ERR_ITEM_NOT_FOUND EQUIP_ERR_OK w
         | Some a \<Rightarrow>
           if ae_owner a = pl
           then SendAuctionCommandResult pl None AUCTION_BID_PLACED AUCTION_ERR_BID_OWN EQUIP_ERR_OK w
           else if \<not> online (ae_owner a) w \<and> GetPlayerAccountIdByGUID (ae_owner a) w = ss_account ss
           then SendAuctionCommandResult pl None AUCTION_BID_PLACED AUCTION_ERR_BID_OWN EQUIP_ERR_OK w
           else if price < ae_startbid a then w
           else if price \<le> ae_bid a
           then SendAuctionCommandResult pl (Some a) AUCTION_BID_PLACED AUCTION_ERR_HIGHER_BID EQUIP_ERR_OK w
           else if (price < ae_buyout a \<or> ae_buyout a = 0) \<and> price < ae_bid a + GetAuctionOutBid a
           then SendAuctionCommandResult pl (Some a) AUCTION_BID_PLACED AUCTION_ERR_BID_INCREMENT EQUIP_ERR_OK w
           else if price > GetMoney pl w then w
           else if price < ae_buyout a \<or> ae_buyout a = 0 then place_bid pl s auctionId price a w
           else buy_out cfg pl s auctionId a w))"

section \<open>Cancelling\<close>

definition cancel_auction :: "ah_session \<Rightarrow> ah_side \<Rightarrow> auction_entry \<Rightarrow> auction_item \<Rightarrow> ah_world \<Rightarrow> ah_world" where
  "cancel_auction ss s a it w =
     (let w1 = send_mail (ss_guid ss) Canceled 0 (Some it) w;
          w2 = SendAuctionCommandResult (ss_guid ss) (Some a) AUCTION_REMOVED AUCTION_OK EQUIP_ERR_OK w1;
          w3 = snd (RemoveAItem (ae_itemGuidLow a) w2)
      in snd (RemoveAuction s (ae_Id a) w3))"

definition HandleAuctionRemoveItem ::
    "ah_config \<Rightarrow> ah_session \<Rightarrow> object_guid \<Rightarrow> u32 \<Rightarrow> ah_world \<Rightarrow> ah_world" where
  "HandleAuctionRemoveItem cfg ss auctioneerGuid auctionId w =
     (case GetCheckedAuctionHouseForAuctioneer cfg ss auctioneerGuid of
        None \<Rightarrow> w
      | Some h \<Rightarrow>
        (let s = GetAuctionsMap cfg h; pl = ss_guid ss in
         case GetAuction s auctionId w of
           None \<Rightarrow> SendAuctionCommandResult pl None AUCTION_REMOVED AUCTION_ERR_DATABASE EQUIP_ERR_OK w
         | Some a \<Rightarrow>
           if ae_owner a \<noteq> pl
           then SendAuctionCommandResult pl None AUCTION_REMOVED AUCTION_ERR_DATABASE EQUIP_ERR_OK w
           else case GetAItem (ae_itemGuidLow a) w of
             None \<Rightarrow> SendAuctionCommandResult pl None AUCTION_REMOVED AUCTION_ERR_INVENTORY EQUIP_ERR_ITEM_NOT_FOUND w
           | Some it \<Rightarrow>
             if ae_bidder a > 0 then
               (let auctionCut = GetAuctionCut cfg a in
                if GetMoney pl w < auctionCut then w
                else cancel_auction ss s a it
                       (ModifyMoney pl (minus_int32 auctionCut) (SendAuctionCancelledToBidderMail a w)))
             else cancel_auction ss s a it w))"

section \<open>Expiry\<close>

definition unlock_ip :: "int \<Rightarrow> auction_entry \<Rightarrow> auction_entry" where
  "unlock_ip curTime a = (if ae_depositTime a + 300 < curTime then a\<lparr>ae_lockedIp := []\<rparr> else a)"

definition Update_one :: "ah_config \<Rightarrow> int \<Rightarrow> ah_side \<Rightarrow> u32 \<times> auction_entry \<Rightarrow> ah_world \<Rightarrow> ah_world" where
  "Update_one cfg curTime s e w =
     (case e of (i, a0) \<Rightarrow>
       let a = unlock_ip curTime a0;
           w1 = set_house s (sm_put i a (get_house s w)) w
       in if curTime > ae_expireTime a then
            (let w2 = (if ae_bidder a = 0 then SendAuctionExpiredMail a w1
                       else SendAuctionWonMail a (SendAuctionSuccessfulMail cfg a w1));
                 w3 = snd (RemoveAItem (ae_itemGuidLow a) w2)
             in snd (RemoveAuction s i w3))
          else w1)"

definition Update_house :: "ah_config \<Rightarrow> int \<Rightarrow> ah_side \<Rightarrow> ah_world \<Rightarrow> ah_world" where
  "Update_house cfg curTime s w = fold (Update_one cfg curTime s) (get_house s w) w"

definition AuctionHouseMgr_Update :: "ah_config \<Rightarrow> int \<Rightarrow> ah_world \<Rightarrow> ah_world" where
  "AuctionHouseMgr_Update cfg curTime w =
     Update_house cfg curTime Neutral (Update_house cfg curTime Alliance (Update_house cfg curTime Horde w))"

section \<open>Listing\<close>

text \<open>The bytes of one auction, None when the item is missing; \<open>now\<close> is \<^verbatim>\<open>time(NULL)\<close>.\<close>

definition BuildAuctionInfo :: "int \<Rightarrow> ah_world \<Rightarrow> auction_entry \<Rightarrow> u8 list option" where
  "BuildAuctionInfo now w a =
     (case GetAItem (ae_itemGuidLow a) w of
        None \<Rightarrow> None
      | Some it \<Rightarrow> Some (
          p32 (ae_Id a) @ p32 (it_entry it) @ p32 (it_enchantment it) @ p32 (it_randomProperty it)
          @ p32 (it_suffixFactor it) @ p32 (it_count it) @ p32 (it_charges it) @ pplayer (ae_owner a)
          @ p32 (ae_startbid a) @ p32 (if ae_bid a \<noteq> 0 then GetAuctionOutBid a else 0) @ p32 (ae_buyout a)
          @ p32 (word_of_int ((ae_expireTime a - now) * 1000)) @ pplayer (ae_bidder a) @ p32 (ae_bid a)))"

text \<open>The packet under construction, the number of auctions in it and the number that match.\<close>

type_synonym ah_page = "u8 list \<times> nat \<times> nat"

definition list_own :: "int \<Rightarrow> ah_world \<Rightarrow> (auction_entry \<Rightarrow> bool) \<Rightarrow> nat \<Rightarrow> auction_entry \<Rightarrow> ah_page \<Rightarrow> ah_page" where
  "list_own now w match listfrom a pg =
     (case pg of (data, count, totalcount) \<Rightarrow>
        if match a then
          (if count < 50 \<and> totalcount + 1 > listfrom then
             (case BuildAuctionInfo now w a of
                None \<Rightarrow> (data, count, totalcount + 1)
              | Some bytes \<Rightarrow> (data @ bytes, count + 1, totalcount + 1))
           else (data, count, totalcount + 1))
        else pg)"

definition BuildListBidderItems :: "int \<Rightarrow> ah_world \<Rightarrow> ah_side \<Rightarrow> u32 \<Rightarrow> nat \<Rightarrow> ah_page \<Rightarrow> ah_page" where
  "BuildListBidderItems now w s pl listfrom pg =
     fold (list_own now w (\<lambda>a. ae_bidder a = pl) listfrom) (map snd (get_house s w)) pg"

definition BuildListOwnerItems :: "int \<Rightarrow> ah_world \<Rightarrow> ah_side \<Rightarrow> u32 \<Rightarrow> nat \<Rightarrow> ah_page \<Rightarrow> ah_page" where
  "BuildListOwnerItems now w s pl listfrom pg =
     fold (list_own now w (\<lambda>a. ae_owner a = pl) listfrom) (map snd (get_house s w)) pg"

record ah_query =
  qy_levelmin :: u32
  qy_levelmax :: u32
  qy_usable :: u32
  qy_listfrom :: nat
  qy_slot :: u32
  qy_main :: u32
  qy_sub :: u32
  qy_quality :: u32
  qy_name :: string

text \<open>\<open>usable\<close> stands for \<^verbatim>\<open>CanUseItem\<close> and the recipe check, \<open>named\<close> for the localised name search.\<close>

definition query_matches ::
    "(auction_item \<Rightarrow> bool) \<Rightarrow> (auction_item \<Rightarrow> string \<Rightarrow> bool) \<Rightarrow> string \<Rightarrow> ah_query \<Rightarrow> ah_world \<Rightarrow> auction_entry \<Rightarrow> bool" where
  "query_matches usable named clientIp q w a =
     (case GetAItem (ae_itemGuidLow a) w of
        None \<Rightarrow> False
      | Some it \<Rightarrow>
          \<not> (qy_main q \<noteq> 0xFFFFFFFF \<and> it_class it \<noteq> qy_main q) \<and>
          \<not> (qy_sub q \<noteq> 0xFFFFFFFF \<and> it_subClass it \<noteq> qy_sub q) \<and>
          \<not> (qy_slot q \<noteq> 0xFFFFFFFF \<and> it_inventoryType it \<noteq> qy_slot q) \<and>
          \<not> (qy_quality q \<noteq> 0xFFFFFFFF \<and> it_quality it < qy_quality q) \<and>
          \<not> (qy_levelmin q \<noteq> 0 \<and> (it_requiredLevel it < qy_levelmin q \<or>
               (qy_levelmax q \<noteq> 0 \<and> it_requiredLevel it > qy_levelmax q))) \<and>
          \<not> (qy_usable q \<noteq> 0 \<and> \<not> usable it) \<and>
          \<not> (ae_lockedIp a \<noteq> [] \<and> ae_lockedIp a \<noteq> clientIp) \<and>
          (qy_name q = [] \<or> named it (qy_name q)))"

definition query_is_empty :: "ah_query \<Rightarrow> bool" where
  "query_is_empty q \<longleftrightarrow>
     qy_main q = 0xFFFFFFFF \<and> qy_sub q = 0xFFFFFFFF \<and> qy_slot q = 0xFFFFFFFF \<and> qy_quality q = 0xFFFFFFFF \<and>
     qy_levelmin q = 0 \<and> qy_levelmax q = 0 \<and> qy_usable q = 0 \<and> qy_name q = []"

fun list_all_from :: "int \<Rightarrow> ah_world \<Rightarrow> auction_entry list \<Rightarrow> ah_page \<Rightarrow> ah_page" where
  "list_all_from now w [] pg = pg"
| "list_all_from now w (a # as) (data, count, totalcount) =
     (let data' = data @ (case BuildAuctionInfo now w a of None \<Rightarrow> [] | Some bytes \<Rightarrow> bytes)
      in if count + 1 \<ge> 50 then (data', count + 1, totalcount)
         else list_all_from now w as (data', count + 1, totalcount))"

definition list_match :: "int \<Rightarrow> ah_world \<Rightarrow> (auction_entry \<Rightarrow> bool) \<Rightarrow> nat \<Rightarrow> auction_entry \<Rightarrow> ah_page \<Rightarrow> ah_page" where
  "list_match now w match listfrom a pg =
     (case pg of (data, count, totalcount) \<Rightarrow>
        if match a then
          (if count < 50 \<and> totalcount \<ge> listfrom
           then (data @ (case BuildAuctionInfo now w a of None \<Rightarrow> [] | Some bytes \<Rightarrow> bytes), count + 1, totalcount + 1)
           else (data, count, totalcount + 1))
        else pg)"

definition BuildListAuctionItems ::
    "(auction_item \<Rightarrow> bool) \<Rightarrow> (auction_item \<Rightarrow> string \<Rightarrow> bool) \<Rightarrow> int \<Rightarrow> ah_world \<Rightarrow> ah_side \<Rightarrow> string \<Rightarrow> ah_query \<Rightarrow> ah_page \<Rightarrow> ah_page" where
  "BuildListAuctionItems usable named now w s clientIp q pg =
     (if query_is_empty q then
        (case pg of (data, count, totalcount) \<Rightarrow>
           let as = map snd (get_house s w); pg' = (data, count, length as)
           in if qy_listfrom q < length as then list_all_from now w (drop (qy_listfrom q) as) pg' else pg')
      else fold (list_match now w (query_matches usable named clientIp q w) (qy_listfrom q))
             (map snd (get_house s w)) pg)"

definition finish_list :: "ah_opcode \<Rightarrow> u32 \<Rightarrow> ah_page \<Rightarrow> ah_world \<Rightarrow> ah_world" where
  "finish_list op to pg w =
     (case pg of (data, count, totalcount) \<Rightarrow>
        send_packet to op (p32 (of_nat count) @ data @ p32 (of_nat totalcount)) w)"

definition HandleAuctionListBidderItems ::
    "ah_config \<Rightarrow> ah_session \<Rightarrow> object_guid \<Rightarrow> nat \<Rightarrow> u32 list \<Rightarrow> int \<Rightarrow> ah_world \<Rightarrow> ah_world" where
  "HandleAuctionListBidderItems cfg ss auctioneerGuid listfrom outbidded now w =
     (case GetCheckedAuctionHouseForAuctioneer cfg ss auctioneerGuid of
        None \<Rightarrow> w
      | Some h \<Rightarrow>
        (let s = GetAuctionsMap cfg h;
             pg = fold (\<lambda>i pg. case GetAuction s i w of None \<Rightarrow> pg | Some a \<Rightarrow> list_own now w (\<lambda>_. True) listfrom a pg)
                    outbidded ([], 0, 0)
         in finish_list SMSG_AUCTION_BIDDER_LIST_RESULT (ss_guid ss)
              (BuildListBidderItems now w s (ss_guid ss) listfrom pg) w))"

definition HandleAuctionListOwnerItems ::
    "ah_config \<Rightarrow> ah_session \<Rightarrow> object_guid \<Rightarrow> nat \<Rightarrow> int \<Rightarrow> ah_world \<Rightarrow> ah_world" where
  "HandleAuctionListOwnerItems cfg ss auctioneerGuid listfrom now w =
     (case GetCheckedAuctionHouseForAuctioneer cfg ss auctioneerGuid of
        None \<Rightarrow> w
      | Some h \<Rightarrow>
        finish_list SMSG_AUCTION_OWNER_LIST_RESULT (ss_guid ss)
          (BuildListOwnerItems now w (GetAuctionsMap cfg h) (ss_guid ss) listfrom ([], 0, 0)) w)"

text \<open>The search task: \<open>ready\<close> is what \<^verbatim>\<open>run\<close> checks of the session when it is executed.\<close>

definition AuctionQueryTask_run ::
    "(auction_item \<Rightarrow> bool) \<Rightarrow> (auction_item \<Rightarrow> string \<Rightarrow> bool) \<Rightarrow> bool \<Rightarrow> ah_session \<Rightarrow> ah_side \<Rightarrow> ah_query \<Rightarrow> int \<Rightarrow> ah_world \<Rightarrow> ah_world" where
  "AuctionQueryTask_run usable named ready ss s q now w =
     (if ready
      then finish_list SMSG_AUCTION_LIST_RESULT (ss_guid ss)
             (BuildListAuctionItems usable named now w s (ss_address ss) q ([], 0, 0)) w
      else w)"

end
