(* ===== verification/AuctionLaws.thy ===== *)
theory AuctionLaws
  imports Auction
begin

text \<open>
  What the auction house guarantees: no request and no expiry creates money, no item is ever
  in two places, a bid is only ever replaced by a higher one, the cut taken is bounded by the
  bid, and a listed page is the stretch of the matching auctions it claims to be.
\<close>

section \<open>Frames: packets change nothing but the packet log\<close>

lemma send_packet_frame [simp]:
  "aw_money (send_packet to opc bytes w) = aw_money w"
  "aw_account (send_packet to opc bytes w) = aw_account w" "aw_bags (send_packet to opc bytes w) = aw_bags w"
  "aw_mail (send_packet to opc bytes w) = aw_mail w" "aw_items (send_packet to opc bytes w) = aw_items w"
  "aw_alliance (send_packet to opc bytes w) = aw_alliance w"
  "aw_horde (send_packet to opc bytes w) = aw_horde w"
  "aw_neutral (send_packet to opc bytes w) = aw_neutral w" "aw_used (send_packet to opc bytes w) = aw_used w"
  "aw_next (send_packet to opc bytes w) = aw_next w"
  by (simp_all add: send_packet_def)

lemma SendAuctionCommandResult_frame [simp]:
  "aw_money (SendAuctionCommandResult to auc act err ie w) = aw_money w"
  "aw_account (SendAuctionCommandResult to auc act err ie w) = aw_account w"
  "aw_bags (SendAuctionCommandResult to auc act err ie w) = aw_bags w"
  "aw_mail (SendAuctionCommandResult to auc act err ie w) = aw_mail w"
  "aw_items (SendAuctionCommandResult to auc act err ie w) = aw_items w"
  "aw_alliance (SendAuctionCommandResult to auc act err ie w) = aw_alliance w"
  "aw_horde (SendAuctionCommandResult to auc act err ie w) = aw_horde w"
  "aw_neutral (SendAuctionCommandResult to auc act err ie w) = aw_neutral w"
  "aw_used (SendAuctionCommandResult to auc act err ie w) = aw_used w"
  "aw_next (SendAuctionCommandResult to auc act err ie w) = aw_next w"
  by (simp_all add: SendAuctionCommandResult_def Let_def split: option.split)

lemma SendAuctionBidderNotification_frame [simp]:
  "aw_money (SendAuctionBidderNotification to a won w) = aw_money w"
  "aw_account (SendAuctionBidderNotification to a won w) = aw_account w"
  "aw_bags (SendAuctionBidderNotification to a won w) = aw_bags w"
  "aw_mail (SendAuctionBidderNotification to a won w) = aw_mail w"
  "aw_items (SendAuctionBidderNotification to a won w) = aw_items w"
  "aw_alliance (SendAuctionBidderNotification to a won w) = aw_alliance w"
  "aw_horde (SendAuctionBidderNotification to a won w) = aw_horde w"
  "aw_neutral (SendAuctionBidderNotification to a won w) = aw_neutral w"
  "aw_used (SendAuctionBidderNotification to a won w) = aw_used w"
  "aw_next (SendAuctionBidderNotification to a won w) = aw_next w"
  by (simp_all add: SendAuctionBidderNotification_def)

lemma SendAuctionOwnerNotification_frame [simp]:
  "aw_money (SendAuctionOwnerNotification to a sold w) = aw_money w"
  "aw_account (SendAuctionOwnerNotification to a sold w) = aw_account w"
  "aw_bags (SendAuctionOwnerNotification to a sold w) = aw_bags w"
  "aw_mail (SendAuctionOwnerNotification to a sold w) = aw_mail w"
  "aw_items (SendAuctionOwnerNotification to a sold w) = aw_items w"
  "aw_alliance (SendAuctionOwnerNotification to a sold w) = aw_alliance w"
  "aw_horde (SendAuctionOwnerNotification to a sold w) = aw_horde w"
  "aw_neutral (SendAuctionOwnerNotification to a sold w) = aw_neutral w"
  "aw_used (SendAuctionOwnerNotification to a sold w) = aw_used w"
  "aw_next (SendAuctionOwnerNotification to a sold w) = aw_next w"
  by (simp_all add: SendAuctionOwnerNotification_def)

lemma SendAuctionRemovedNotification_frame [simp]:
  "aw_money (SendAuctionRemovedNotification to a w) = aw_money w"
  "aw_account (SendAuctionRemovedNotification to a w) = aw_account w"
  "aw_bags (SendAuctionRemovedNotification to a w) = aw_bags w"
  "aw_mail (SendAuctionRemovedNotification to a w) = aw_mail w"
  "aw_items (SendAuctionRemovedNotification to a w) = aw_items w"
  "aw_alliance (SendAuctionRemovedNotification to a w) = aw_alliance w"
  "aw_horde (SendAuctionRemovedNotification to a w) = aw_horde w"
  "aw_neutral (SendAuctionRemovedNotification to a w) = aw_neutral w"
  "aw_used (SendAuctionRemovedNotification to a w) = aw_used w"
  "aw_next (SendAuctionRemovedNotification to a w) = aw_next w"
  by (simp_all add: SendAuctionRemovedNotification_def)


lemma get_house_frame [simp]:
  "get_house s (send_packet to opc bytes w) = get_house s w"
  "get_house s (SendAuctionCommandResult to auc act err ie w) = get_house s w"
  "get_house s (SendAuctionBidderNotification to a won w) = get_house s w"
  "get_house s (SendAuctionOwnerNotification to a sold w) = get_house s w"
  "get_house s (SendAuctionRemovedNotification to a w) = get_house s w"
  "get_house s (send_mail g subj m it w) = get_house s w"
  "get_house s (ModifyMoney pl d w) = get_house s w"
  "get_house s (snd (RemoveAItem i w)) = get_house s w"
  "get_house s (AddAItem item w) = get_house s w"
  "get_house s (w\<lparr>aw_bags := b\<rparr>) = get_house s w"
  "get_house s (snd (GenerateAuctionID w)) = get_house s w"
  "get_house s (FreeAuctionID i w) = get_house s w"
  by (simp_all add: get_house_def send_mail_def ModifyMoney_def RemoveAItem_def AddAItem_def
      GenerateAuctionID_def FreeAuctionID_def Let_def split: ah_side.split)

lemma send_mail_frame [simp]:
  "aw_money (send_mail g subj m it w) = aw_money w" "aw_account (send_mail g subj m it w) = aw_account w"
  "aw_bags (send_mail g subj m it w) = aw_bags w" "aw_items (send_mail g subj m it w) = aw_items w"
  "aw_mail (send_mail g subj m it w) =
     aw_mail w @ [\<lparr>ml_receiver = g, ml_subject = subj, ml_money = m, ml_item = it\<rparr>]"
  by (simp_all add: send_mail_def)

lemma set_house_frame [simp]:
  "get_house s (set_house t m w) = (if s = t then m else get_house s w)"
  "aw_money (set_house t m w) = aw_money w" "aw_account (set_house t m w) = aw_account w"
  "aw_bags (set_house t m w) = aw_bags w" "aw_items (set_house t m w) = aw_items w"
  "aw_mail (set_house t m w) = aw_mail w"
  by (simp_all add: set_house_def get_house_def split: ah_side.split)

lemma RemoveAItem_frame [simp]:
  "aw_money (snd (RemoveAItem i w)) = aw_money w" "aw_account (snd (RemoveAItem i w)) = aw_account w"
  "aw_bags (snd (RemoveAItem i w)) = aw_bags w" "aw_mail (snd (RemoveAItem i w)) = aw_mail w"
  "aw_items (snd (RemoveAItem i w)) = sm_erase i (aw_items w)"
  by (simp_all add: RemoveAItem_def)

lemma RemoveAuction_frame [simp]:
  "aw_money (snd (RemoveAuction t i w)) = aw_money w" "aw_account (snd (RemoveAuction t i w)) = aw_account w"
  "aw_bags (snd (RemoveAuction t i w)) = aw_bags w" "aw_items (snd (RemoveAuction t i w)) = aw_items w"
  "aw_mail (snd (RemoveAuction t i w)) = aw_mail w"
  "get_house s (snd (RemoveAuction t i w)) = (if s = t then sm_erase i (get_house s w) else get_house s w)"
  by (simp_all add: RemoveAuction_def) (simp_all add: FreeAuctionID_def)

lemma ModifyMoney_frame [simp]:
  "aw_account (ModifyMoney pl d w) = aw_account w" "aw_bags (ModifyMoney pl d w) = aw_bags w"
  "aw_items (ModifyMoney pl d w) = aw_items w" "aw_mail (ModifyMoney pl d w) = aw_mail w"
  "aw_money (ModifyMoney pl d w) = sm_put pl (money_after d (GetMoney pl w)) (aw_money w)"
  by (simp_all add: ModifyMoney_def)

lemma GenerateAuctionID_frame [simp]:
  "aw_money (snd (GenerateAuctionID w)) = aw_money w" "aw_account (snd (GenerateAuctionID w)) = aw_account w"
  "aw_bags (snd (GenerateAuctionID w)) = aw_bags w" "aw_items (snd (GenerateAuctionID w)) = aw_items w"
  "aw_mail (snd (GenerateAuctionID w)) = aw_mail w"
  by (simp_all add: GenerateAuctionID_def Let_def)

section \<open>The purse\<close>

lemma unat_u32_bound: "unat (0x7FFFFFFE :: u32) = 2147483646"
  by simp

lemma money_after_debit:
  assumes "x \<le> m" and "unat m \<le> 2147483646"
  shows "money_after (minus_int32 x) m = m - x"
proof (cases "x = 0")
  case True
  have "m \<le> 0x7FFFFFFE" using assms(2) by (simp only: word_le_nat_alt unat_u32_bound)
  then show ?thesis using True
    by (auto simp: money_after_def minus_int32_def MAX_MONEY_AMOUNT_def wrap32_def in_int32_def not_less)
next
  case False
  have le: "unat x \<le> unat m" using assms(1) by (simp add: word_le_nat_alt)
  have u: "uint x = int (unat x)" by simp
  have r: "in_int32 (uint x)" "in_int32 (- uint x)"
    using le assms(2) unfolding in_int32_def u by linarith+
  then have d: "minus_int32 x = - uint x" by (simp add: minus_int32_def)
  have neg: "- uint x < 0" using False by (simp add: word_neq_0_conv word_less_def)
  have "money_after (- uint x) m = (if m > x then m - x else 0)"
    using neg by (simp add: money_after_def word_of_int_minus)
  also have "\<dots> = m - x" using assms(1) by (auto simp: not_less order_antisym_conv)
  finally show ?thesis by (simp only: d)
qed

section \<open>Money in the world\<close>

definition ah_stake :: "auction_entry \<Rightarrow> nat" where
  "ah_stake a = unat (ae_bid a) + unat (ae_deposit a)"

definition mail_gold :: "ah_mail list \<Rightarrow> nat" where
  "mail_gold ms = sum_list (map (unat \<circ> ml_money) ms)"

text \<open>The supply: purses, mails on their way, and what the auctions hold as bids and deposits.\<close>

definition ah_gold :: "ah_world \<Rightarrow> nat" where
  "ah_gold w = sm_total unat (aw_money w) + mail_gold (aw_mail w) +
     sm_total ah_stake (get_house Alliance w) + sm_total ah_stake (get_house Horde w) +
     sm_total ah_stake (get_house Neutral w)"

lemma mail_gold_append [simp]: "mail_gold (as @ bs) = mail_gold as + mail_gold bs"
  by (simp add: mail_gold_def)

lemma mail_gold_one [simp]: "mail_gold [m] = unat (ml_money m)"
  by (simp add: mail_gold_def)

lemma ah_gold_frame [simp]:
  "ah_gold (send_packet to opc bytes w) = ah_gold w"
  "ah_gold (SendAuctionCommandResult to auc act err ie w) = ah_gold w"
  "ah_gold (SendAuctionBidderNotification to a won w) = ah_gold w"
  "ah_gold (SendAuctionOwnerNotification to a sold w) = ah_gold w"
  "ah_gold (SendAuctionRemovedNotification to a w) = ah_gold w"
  "ah_gold (snd (RemoveAItem i w)) = ah_gold w"
  "ah_gold (snd (GenerateAuctionID w)) = ah_gold w"
  "ah_gold (send_mail g subj m it w) = ah_gold w + unat m"
  by (simp_all add: ah_gold_def)

lemma ah_gold_set_house:
  "ah_gold (set_house s m w) + sm_total ah_stake (get_house s w) = ah_gold w + sm_total ah_stake m"
  by (cases s) (simp_all add: ah_gold_def)

definition fair_house :: "auction_house \<Rightarrow> bool" where
  "fair_house h \<longleftrightarrow> unat (ah_cutPercent h) \<le> 50"

definition fair_config :: "ah_config \<Rightarrow> bool" where
  "fair_config cfg \<longleftrightarrow>
     (\<exists>r. ac_rate_cut cfg = Fin r \<and> 0 \<le> r \<and> r \<le> 1) \<and> (\<forall>i h. ac_store cfg i = Some h \<longrightarrow> fair_house h)"

definition entry_ok :: "auction_entry \<Rightarrow> bool" where
  "entry_ok a \<longleftrightarrow> unat (ae_bid a) \<le> 2147483646 \<and> unat (ae_deposit a) \<le> 2147483646 \<and> fair_house (ae_house a) \<and>
     (ae_buyout a = 0 \<or> ae_bid a \<le> ae_buyout a)"

definition ah_sane :: "ah_world \<Rightarrow> bool" where
  "ah_sane w \<longleftrightarrow>
     sm_ok (aw_money w) \<and> (\<forall>g m. sm_find (aw_money w) g = Some m \<longrightarrow> unat m \<le> 2147483646) \<and>
     (\<forall>s. sm_ok (get_house s w) \<and>
        (\<forall>i a. sm_find (get_house s w) i = Some a \<longrightarrow> ae_Id a = i \<and> entry_ok a))"

lemma ah_sane_frame [simp]:
  "ah_sane (send_packet to opc bytes w) = ah_sane w"
  "ah_sane (SendAuctionCommandResult to auc act err ie w) = ah_sane w"
  "ah_sane (SendAuctionBidderNotification to a won w) = ah_sane w"
  "ah_sane (SendAuctionOwnerNotification to a sold w) = ah_sane w"
  "ah_sane (SendAuctionRemovedNotification to a w) = ah_sane w"
  "ah_sane (snd (RemoveAItem i w)) = ah_sane w"
  "ah_sane (snd (GenerateAuctionID w)) = ah_sane w"
  "ah_sane (send_mail g subj m it w) = ah_sane w"
  by (simp_all add: ah_sane_def)

lemma ah_sane_house: "ah_sane w \<Longrightarrow> sm_ok (get_house s w)"
  by (simp add: ah_sane_def)

lemma ah_sane_entry: "ah_sane w \<Longrightarrow> sm_find (get_house s w) i = Some a \<Longrightarrow> ae_Id a = i \<and> entry_ok a"
  by (simp add: ah_sane_def)

lemma ah_sane_put:
  "ah_sane w \<Longrightarrow> entry_ok a \<Longrightarrow> ae_Id a = i \<Longrightarrow> ah_sane (set_house s (sm_put i a (get_house s w)) w)"
  by (auto simp: ah_sane_def split: if_splits)

lemma ah_sane_remove: "ah_sane w \<Longrightarrow> ah_sane (snd (RemoveAuction s i w))"
  by (auto simp: ah_sane_def split: if_splits)

lemma ah_gold_remove:
  "ah_sane w \<Longrightarrow> GetAuction s i w = Some a \<Longrightarrow> ah_gold (snd (RemoveAuction s i w)) + ah_stake a = ah_gold w"
  using sm_total_erase [OF ah_sane_house, of w ah_stake i s]
  by (cases s) (auto simp: ah_gold_def GetAuction_def sm_share_Some)

lemma ah_gold_put:
  "ah_sane w \<Longrightarrow> ah_gold (set_house s (sm_put i a (get_house s w)) w) + sm_share ah_stake (get_house s w) i =
     ah_gold w + ah_stake a"
  using sm_total_put [OF ah_sane_house, of w ah_stake i a s] ah_gold_set_house [of s "sm_put i a (get_house s w)" w]
  by linarith

lemma ModifyMoney_debit:
  assumes "ah_sane w" and "online pl w" and "x \<le> GetMoney pl w"
  shows "ah_gold (ModifyMoney pl (minus_int32 x) w) + unat x = ah_gold w"
    and "ah_sane (ModifyMoney pl (minus_int32 x) w)"
proof -
  obtain m where m: "sm_find (aw_money w) pl = Some m" using assms(2) by (auto simp: online_def sm_has_def)
  then have gm: "GetMoney pl w = m" by (simp add: GetMoney_def)
  have bound: "unat m \<le> 2147483646" using assms(1) m by (simp add: ah_sane_def)
  have after: "money_after (minus_int32 x) (GetMoney pl w) = m - x"
    using money_after_debit [of x m] assms(3) bound by (simp add: gm)
  have sub: "unat (m - x) + unat x = unat m"
    using assms(3) by (simp add: gm unat_sub word_le_nat_alt)
  have "sm_total unat (sm_put pl (m - x) (aw_money w)) + unat m = sm_total unat (aw_money w) + unat (m - x)"
    using sm_total_put [of "aw_money w" unat pl "m - x"] assms(1) m by (simp add: ah_sane_def sm_share_Some)
  then show "ah_gold (ModifyMoney pl (minus_int32 x) w) + unat x = ah_gold w"
    using sub by (simp add: ah_gold_def after)
  show "ah_sane (ModifyMoney pl (minus_int32 x) w)"
    using assms(1) sub bound by (auto simp: ah_sane_def after split: if_splits)
qed

section \<open>The cut\<close>

lemma round32_scaled:
  assumes "0 \<le> q" and "q \<le> 1000000000000000"
  shows "\<exists>v. round32 q = Fin v \<and> 0 \<le> v \<and> v \<le> 101 / 100 * q + 1 / 100"
proof -
  have "(1000000000000000 :: rat) < pow2 127" by code_simp
  then show ?thesis using assms by (intro round32_upper) linarith+
qed

lemma auction_cut_le_bid:
  assumes "fair_config cfg" and "fair_house (ae_house a)"
  shows "GetAuctionCut cfg a \<le> ae_bid a"
proof -
  obtain r where r: "ac_rate_cut cfg = Fin r" "0 \<le> r" "r \<le> 1" using assms(1) by (auto simp: fair_config_def)
  define b where "b = unat (ae_bid a)"
  define n where "n = unat (ah_cutPercent (ae_house a) * ae_bid a)"
  have bb: "b < 4294967296" by (simp add: b_def)
  have "n \<le> unat (ah_cutPercent (ae_house a)) * b"
    by (simp add: n_def b_def unat_word_ariths)
  also have "\<dots> \<le> 50 * b" using assms(2) by (simp add: fair_house_def)
  finally have nb: "n \<le> 50 * b" .
  have nr: "(of_nat n :: rat) \<le> 50 * of_nat b"
    using nb of_nat_le_iff [of n "50 * b", where ?'a = rat] by simp
  have br: "(of_nat b :: rat) < 4294967296"
    using bb of_nat_less_iff [of b 4294967296, where ?'a = rat] by simp
  have "fl_u32 (ah_cutPercent (ae_house a) * ae_bid a) = round32 (of_nat n)"
    by (simp add: fl_u32_def f_int_def n_def)
  moreover obtain v0 where v0: "round32 (of_nat n) = Fin v0" "0 \<le> v0" "v0 \<le> 101 / 100 * of_nat n + 1 / 100"
    using round32_scaled [of "of_nat n"] nr br by auto
  have m: "v0 * r \<le> v0 * 1" using r v0 by (intro mult_left_mono)
  have m0: "0 \<le> v0 * r" using r v0 by simp
  obtain v1 where v1: "round32 (v0 * r) = Fin v1" "0 \<le> v1" "v1 \<le> 101 / 100 * (v0 * r) + 1 / 100"
  proof -
    have "v0 * r \<le> 1000000000000000" using m v0(3) nr br by linarith
    from round32_scaled [OF m0 this] that show thesis by blast
  qed
  obtain v2 where v2: "round32 (v1 / 100) = Fin v2" "0 \<le> v2" "v2 \<le> 101 / 100 * (v1 / 100) + 1 / 100"
  proof -
    have "0 \<le> v1 / 100" "v1 / 100 \<le> 1000000000000000" using v1 m v0(3) nr br by simp_all
    from round32_scaled [OF this] that show thesis by blast
  qed
  ultimately have "GetAuctionCut cfg a = f_to_u32 (Fin v2)"
    using v0 v1 r by (simp add: GetAuctionCut_def)
  moreover have "v2 < of_nat b + 1" using v2 v1 m v0 nr by linarith
  then have "\<lfloor>v2\<rfloor> < int b + 1" by (simp only: floor_less_iff of_int_add of_int_of_nat_eq of_int_1)
  then have t: "0 \<le> trunc v2" "trunc v2 \<le> int b" using v2(2) by (simp_all add: trunc_def)
  moreover have "unat (word_of_int (trunc v2) :: u32) = nat (trunc v2)"
    using t bb by (intro unat_word_of_int_u32) linarith+
  ultimately have "unat (GetAuctionCut cfg a) = nat (trunc v2)"
    using bb by simp
  then show ?thesis using t unfolding word_le_nat_alt b_def [symmetric] by linarith
qed

section \<open>Mails and money\<close>

lemma outbidded_mail:
  "ah_gold (SendAuctionOutbiddedMail a w) \<le> ah_gold w + unat (ae_bid a)"
  "ah_sane (SendAuctionOutbiddedMail a w) = ah_sane w"
  "get_house s (SendAuctionOutbiddedMail a w) = get_house s w"
  "aw_money (SendAuctionOutbiddedMail a w) = aw_money w"
  "aw_items (SendAuctionOutbiddedMail a w) = aw_items w"
  "aw_bags (SendAuctionOutbiddedMail a w) = aw_bags w"
  by (simp_all add: SendAuctionOutbiddedMail_def Let_def)

lemma cancelled_mail:
  "ah_gold (SendAuctionCancelledToBidderMail a w) \<le> ah_gold w + unat (ae_bid a)"
  "ah_sane (SendAuctionCancelledToBidderMail a w) = ah_sane w"
  "get_house s (SendAuctionCancelledToBidderMail a w) = get_house s w"
  "aw_money (SendAuctionCancelledToBidderMail a w) = aw_money w"
  "aw_items (SendAuctionCancelledToBidderMail a w) = aw_items w"
  "aw_bags (SendAuctionCancelledToBidderMail a w) = aw_bags w"
  by (simp_all add: SendAuctionCancelledToBidderMail_def Let_def)

lemma won_mail:
  "ah_gold (SendAuctionWonMail a w) = ah_gold w"
  "ah_sane (SendAuctionWonMail a w) = ah_sane w"
  "get_house s (SendAuctionWonMail a w) = get_house s w"
  "aw_money (SendAuctionWonMail a w) = aw_money w"
  "aw_bags (SendAuctionWonMail a w) = aw_bags w"
  by (simp_all add: SendAuctionWonMail_def Let_def split: option.split)

lemma expired_mail:
  "ah_gold (SendAuctionExpiredMail a w) = ah_gold w"
  "ah_sane (SendAuctionExpiredMail a w) = ah_sane w"
  "get_house s (SendAuctionExpiredMail a w) = get_house s w"
  "aw_money (SendAuctionExpiredMail a w) = aw_money w"
  "aw_bags (SendAuctionExpiredMail a w) = aw_bags w"
  by (simp_all add: SendAuctionExpiredMail_def Let_def split: option.split)

lemma successful_mail:
  "ah_sane (SendAuctionSuccessfulMail cfg a w) = ah_sane w"
  "get_house s (SendAuctionSuccessfulMail cfg a w) = get_house s w"
  "aw_money (SendAuctionSuccessfulMail cfg a w) = aw_money w"
  "aw_items (SendAuctionSuccessfulMail cfg a w) = aw_items w"
  "aw_bags (SendAuctionSuccessfulMail cfg a w) = aw_bags w"
  by (simp_all add: SendAuctionSuccessfulMail_def Let_def)

lemma profit_le_stake:
  assumes "fair_config cfg" and "entry_ok a"
  shows "unat (ae_bid a + ae_deposit a - GetAuctionCut cfg a) \<le> ah_stake a"
proof -
  have s: "unat (ae_bid a + ae_deposit a) = unat (ae_bid a) + unat (ae_deposit a)"
    using assms(2) by (intro unat_u32_add) (simp add: entry_ok_def)
  have "GetAuctionCut cfg a \<le> ae_bid a" using assms by (simp add: auction_cut_le_bid entry_ok_def)
  then have "GetAuctionCut cfg a \<le> ae_bid a + ae_deposit a" by (simp add: word_le_nat_alt s)
  then show ?thesis by (simp add: unat_sub s ah_stake_def)
qed

lemma successful_mail_gold:
  "fair_config cfg \<Longrightarrow> entry_ok a \<Longrightarrow> ah_gold (SendAuctionSuccessfulMail cfg a w) \<le> ah_gold w + ah_stake a"
  using profit_le_stake by (simp add: SendAuctionSuccessfulMail_def Let_def)

lemmas mail_frames = outbidded_mail(2-6) cancelled_mail(2-6) won_mail expired_mail successful_mail

lemma take_price_frame:
  "get_house s (take_price pl price a w) = get_house s w"
  "aw_items (take_price pl price a w) = aw_items w"
  "aw_bags (take_price pl price a w) = aw_bags w"
  by (simp_all add: take_price_def Let_def mail_frames)

lemma take_price_gold:
  assumes "ah_sane w" and "online pl w" and "price \<le> GetMoney pl w" and "ae_bid a \<le> price"
  shows "ah_gold (take_price pl price a w) + unat price \<le> ah_gold w + unat (ae_bid a)"
    and "ah_sane (take_price pl price a w)"
proof -
  have b: "unat (ae_bid a) \<le> unat price" using assms(4) by (simp add: word_le_nat_alt)
  have sub: "unat (price - ae_bid a) = unat price - unat (ae_bid a)" using assms(4) by (simp add: unat_sub)
  have le: "price - ae_bid a \<le> GetMoney pl w"
    using assms(3) sub by (simp add: word_le_nat_alt)
  note d1 = ModifyMoney_debit [OF assms(1,2) le] and d2 = ModifyMoney_debit [OF assms(1-3)]
  show "ah_gold (take_price pl price a w) + unat price \<le> ah_gold w + unat (ae_bid a)"
  proof (cases "pl = ae_bidder a")
    case True
    then show ?thesis using d1(1) sub b by (simp add: take_price_def)
  next
    case False
    then show ?thesis
      using d2(1) outbidded_mail(1) [of a "ModifyMoney pl (minus_int32 price) w"]
      by (simp add: take_price_def Let_def)
  qed
  show "ah_sane (take_price pl price a w)"
    using d1(2) d2(2) by (cases "pl = ae_bidder a") (simp_all add: take_price_def Let_def mail_frames)
qed

section \<open>The requests keep the state sane and create no money\<close>

definition bid_written :: "u32 \<Rightarrow> ah_side \<Rightarrow> u32 \<Rightarrow> u32 \<Rightarrow> auction_entry \<Rightarrow> ah_world \<Rightarrow> ah_world" where
  "bid_written pl s i price a w =
     set_house s (sm_put i (a\<lparr>ae_bidder := pl, ae_bid := price\<rparr>) (get_house s (take_price pl price a w)))
       (take_price pl price a w)"

lemma bid_written_gold:
  assumes "ah_sane w" and "online pl w" and "GetAuction s i w = Some a" and "price \<le> GetMoney pl w"
    and "ae_bid a \<le> price" and "ae_buyout a = 0 \<or> price \<le> ae_buyout a"
  shows "ah_gold (bid_written pl s i price a w) \<le> ah_gold w \<and> ah_sane (bid_written pl s i price a w)"
proof -
  let ?w1 = "take_price pl price a w" and ?a = "a\<lparr>ae_bidder := pl, ae_bid := price\<rparr>"
  note t = take_price_gold [OF assms(1,2,4,5)]
  have a: "ae_Id a = i" "entry_ok a" using ah_sane_entry assms(1,3) by (auto simp: GetAuction_def)
  obtain m where m: "sm_find (aw_money w) pl = Some m" using assms(2) by (auto simp: online_def sm_has_def)
  have "unat m \<le> 2147483646" using assms(1) m by (simp add: ah_sane_def)
  then have "unat price \<le> 2147483646" using assms(4) m by (simp add: GetMoney_def word_le_nat_alt)
  then have ok: "entry_ok ?a" using a(2) assms(6) by (simp add: entry_ok_def)
  have "sm_share ah_stake (get_house s ?w1) i = ah_stake a"
    using assms(3) by (simp add: take_price_frame GetAuction_def sm_share_Some)
  then have "ah_gold (set_house s (sm_put i ?a (get_house s ?w1)) ?w1) + ah_stake a = ah_gold ?w1 + ah_stake ?a"
    using ah_gold_put [OF t(2), of s i ?a] by simp
  then have "ah_gold (set_house s (sm_put i ?a (get_house s ?w1)) ?w1) \<le> ah_gold w"
    using t(1) by (simp add: ah_stake_def)
  moreover have "ah_sane (set_house s (sm_put i ?a (get_house s ?w1)) ?w1)"
    using ah_sane_put [OF t(2) ok] a(1) by simp
  ultimately show ?thesis by (simp add: bid_written_def)
qed

lemma place_bid_gold:
  assumes "ah_sane w" and "online pl w" and "GetAuction s i w = Some a" and "price \<le> GetMoney pl w"
    and "ae_bid a \<le> price" and "ae_buyout a = 0 \<or> price \<le> ae_buyout a"
  shows "ah_gold (place_bid pl s i price a w) \<le> ah_gold w \<and> ah_sane (place_bid pl s i price a w)"
  using bid_written_gold [OF assms] by (simp add: place_bid_def bid_written_def Let_def)

text \<open>Closing an auction: whatever the mails paid out, up to the stake, leaves with the entry.\<close>

lemma close_auction:
  assumes "ah_sane w" and "GetAuction s i w = Some a" and "ae_Id a = i"
    and "ah_gold v \<le> ah_gold w + ah_stake a" and "ah_sane v" and "get_house s v = get_house s w"
  shows "ah_gold (snd (RemoveAuction s i (snd (RemoveAItem g v)))) \<le> ah_gold w \<and>
     ah_sane (snd (RemoveAuction s i (snd (RemoveAItem g v))))"
proof -
  have "ah_sane (snd (RemoveAItem g v))" using assms(5) by simp
  moreover have "GetAuction s i (snd (RemoveAItem g v)) = Some a"
    using assms(2,6) by (simp add: GetAuction_def)
  ultimately show ?thesis
    using ah_gold_remove [of "snd (RemoveAItem g v)" s i a] ah_sane_remove [of "snd (RemoveAItem g v)" s i] assms(4)
    by simp
qed

lemma buy_out_gold:
  assumes "fair_config cfg" and "ah_sane w" and "online pl w" and "GetAuction s i w = Some a"
    and "ae_buyout a \<le> GetMoney pl w" and "ae_bid a \<le> ae_buyout a"
  shows "ah_gold (buy_out cfg pl s i a w) \<le> ah_gold w \<and> ah_sane (buy_out cfg pl s i a w)"
proof -
  let ?a = "a\<lparr>ae_bidder := pl, ae_bid := ae_buyout a\<rparr>" and ?w2 = "bid_written pl s i (ae_buyout a) a w"
  let ?v = "SendAuctionCommandResult pl (Some ?a) AUCTION_BID_PLACED AUCTION_OK EQUIP_ERR_OK
    (SendAuctionWonMail ?a (SendAuctionSuccessfulMail cfg ?a ?w2))"
  have pb: "ah_gold ?w2 \<le> ah_gold w" "ah_sane ?w2" using bid_written_gold [OF assms(2-6)] by auto
  have a: "ae_Id a = i" using ah_sane_entry assms(2,4) by (auto simp: GetAuction_def)
  have ga: "GetAuction s i ?w2 = Some ?a" by (simp add: GetAuction_def bid_written_def)
  then have "entry_ok ?a" using ah_sane_entry [OF pb(2)] by (simp add: GetAuction_def)
  then have "ah_gold ?v \<le> ah_gold ?w2 + ah_stake ?a"
    using successful_mail_gold [OF assms(1)] by (simp add: mail_frames)
  from close_auction [OF pb(2) ga _ this, of "ae_itemGuidLow a"] pb a
  have "ah_gold (snd (RemoveAuction s i (snd (RemoveAItem (ae_itemGuidLow a) ?v)))) \<le> ah_gold ?w2 \<and>
     ah_sane (snd (RemoveAuction s i (snd (RemoveAItem (ae_itemGuidLow a) ?v))))"
    by (simp add: mail_frames)
  with pb(1) show ?thesis by (simp add: buy_out_def bid_written_def Let_def a)
qed


lemma PlaceBid_gold:
  assumes "fair_config cfg" and "ah_sane w" and "online (ss_guid ss) w"
  shows "ah_gold (HandleAuctionPlaceBid cfg ss g i price w) \<le> ah_gold w \<and>
     ah_sane (HandleAuctionPlaceBid cfg ss g i price w)"
proof -
  let ?ok = "\<lambda>v. ah_gold v \<le> ah_gold w \<and> ah_sane v"
  have pb: "?ok (place_bid (ss_guid ss) s i price a w)"
    if "GetAuction s i w = Some a" "\<not> GetMoney (ss_guid ss) w < price" "\<not> price \<le> ae_bid a"
      "price < ae_buyout a \<or> ae_buyout a = 0" for s a
    using place_bid_gold [OF assms(2,3) that(1), of price] that(2-4) by (auto simp: not_less not_le less_imp_le)
  have bo: "?ok (buy_out cfg (ss_guid ss) s i a w)"
    if "GetAuction s i w = Some a" "\<not> GetMoney (ss_guid ss) w < price" "\<not> (price < ae_buyout a \<or> ae_buyout a = 0)" for s a
  proof -
    have "entry_ok a" using ah_sane_entry assms(2) that(1) by (auto simp: GetAuction_def)
    then have "ae_bid a \<le> ae_buyout a" using that(3) by (auto simp: entry_ok_def)
    then show ?thesis using buy_out_gold [OF assms that(1)] that(2,3) by (auto simp: not_less not_le less_imp_le)
  qed
  show ?thesis
    using assms(2) pb bo unfolding HandleAuctionPlaceBid_def Let_def by (auto split: option.split)
qed

lemma cancel_gold:
  assumes "ah_sane w" and "GetAuction s i w = Some a" and "ae_Id a = i"
    and "ah_gold v \<le> ah_gold w + ah_stake a" and "ah_sane v" and "get_house s v = get_house s w"
  shows "ah_gold (cancel_auction ss s a it v) \<le> ah_gold w \<and> ah_sane (cancel_auction ss s a it v)"
  using close_auction [OF assms(1-3), of "SendAuctionCommandResult (ss_guid ss) (Some a) AUCTION_REMOVED AUCTION_OK EQUIP_ERR_OK
      (send_mail (ss_guid ss) Canceled 0 (Some it) v)" "ae_itemGuidLow a"] assms(3-6)
  by (simp add: cancel_auction_def Let_def)

lemma RemoveItem_gold:
  assumes "fair_config cfg" and "ah_sane w" and "online (ss_guid ss) w"
  shows "ah_gold (HandleAuctionRemoveItem cfg ss g i w) \<le> ah_gold w \<and>
     ah_sane (HandleAuctionRemoveItem cfg ss g i w)"
proof -
  let ?ok = "\<lambda>v. ah_gold v \<le> ah_gold w \<and> ah_sane v"
  have id: "ae_Id a = i" if "GetAuction s i w = Some a" for s a
    using ah_sane_entry assms(2) that by (auto simp: GetAuction_def)
  have c: "?ok (cancel_auction ss s a it w)" if "GetAuction s i w = Some a" for s a it
    using cancel_gold [OF assms(2) that id [OF that]] assms(2) by simp
  have b: "?ok (cancel_auction ss s a it (ModifyMoney (ss_guid ss) (minus_int32 (GetAuctionCut cfg a))
      (SendAuctionCancelledToBidderMail a w)))"
    if "GetAuction s i w = Some a" "\<not> GetMoney (ss_guid ss) w < GetAuctionCut cfg a" for s a it
  proof -
    let ?v = "SendAuctionCancelledToBidderMail a w"
    have "ah_sane ?v" "online (ss_guid ss) ?v" "GetAuctionCut cfg a \<le> GetMoney (ss_guid ss) ?v"
      using assms(2,3) that(2) by (simp_all add: cancelled_mail online_def GetMoney_def)
    note d = ModifyMoney_debit [OF this]
    have "ah_gold ?v \<le> ah_gold w + ah_stake a"
      using cancelled_mail(1) [of a w] by (simp add: ah_stake_def)
    then show ?thesis
      using d by (intro cancel_gold [OF assms(2) that(1) id [OF that(1)]]) (simp_all add: cancelled_mail)
  qed
  show ?thesis
    using assms(2) b c unfolding HandleAuctionRemoveItem_def Let_def by (auto split: option.split)
qed

lemma create_gold:
  assumes "ah_sane w" and "online (ss_guid ss) w" and "fair_house h" and "deposit \<le> GetMoney (ss_guid ss) w"
  shows "ah_gold (create_auction cfg ss h it bid buyout secs deposit now w) \<le> ah_gold w \<and>
     ah_sane (create_auction cfg ss h it bid buyout secs deposit now w)"
proof -
  let ?w1 = "ModifyMoney (ss_guid ss) (minus_int32 deposit) w"
  let ?w2 = "snd (GenerateAuctionID ?w1)"
  note d = ModifyMoney_debit [OF assms(1,2,4)]
  obtain m where m: "sm_find (aw_money w) (ss_guid ss) = Some m" using assms(2) by (auto simp: online_def sm_has_def)
  have "unat m \<le> 2147483646" using assms(1) m by (simp add: ah_sane_def)
  then have dep: "unat deposit \<le> 2147483646" using assms(4) m by (simp add: GetMoney_def word_le_nat_alt)
  have s2: "ah_sane ?w2" using d(2) by simp
  have put: "ah_gold (AddAuction s a ?w2) \<le> ah_gold w \<and> ah_sane (AddAuction s a ?w2)"
    if "ae_bid a = 0" "ae_deposit a = deposit" "ae_house a = h" for s a
    using that dep assms(3) d(1) ah_gold_put [OF s2, of s "ae_Id a" a] ah_sane_put [OF s2, of a "ae_Id a" s]
    by (simp add: AddAuction_def entry_ok_def ah_stake_def)
  have frame: "ah_gold (AddAItem it v\<lparr>aw_bags := b\<rparr>) = ah_gold v" "ah_sane (AddAItem it v\<lparr>aw_bags := b\<rparr>) = ah_sane v" for v b
    by (simp_all add: ah_gold_def ah_sane_def) (simp_all add: AddAItem_def)
  show ?thesis unfolding create_auction_def Let_def case_prod_beta
    using put by (simp add: frame)
qed

lemma checked_house_fair:
  "fair_config cfg \<Longrightarrow> GetCheckedAuctionHouseForAuctioneer cfg ss g = Some h \<Longrightarrow> fair_house h"
  by (auto simp: GetCheckedAuctionHouseForAuctioneer_def GetAuctionHouseEntry_def Let_def fair_config_def
      split: if_splits option.splits)

lemma SellItem_gold:
  assumes "fair_config cfg" and "ah_sane w" and "online (ss_guid ss) w"
  shows "ah_gold (HandleAuctionSellItem cfg ss g item bid buyout etime now w) \<le> ah_gold w \<and>
     ah_sane (HandleAuctionSellItem cfg ss g item bid buyout etime now w)"
proof -
  have "ah_gold (create_auction cfg ss h it bid buyout secs dep now w) \<le> ah_gold w \<and>
      ah_sane (create_auction cfg ss h it bid buyout secs dep now w)"
    if "GetCheckedAuctionHouseForAuctioneer cfg ss g = Some h" "\<not> GetMoney (ss_guid ss) w < dep" for h it secs dep
    using create_gold [OF assms(2,3) checked_house_fair [OF assms(1) that(1)]] that(2) by simp
  with assms(2) show ?thesis
    unfolding HandleAuctionSellItem_def Let_def sell_refused_def by (auto split: option.split)
qed

lemma unlock_ip_simps [simp]:
  "ae_Id (unlock_ip t a) = ae_Id a" "ah_stake (unlock_ip t a) = ah_stake a" "entry_ok (unlock_ip t a) = entry_ok a"
  "ae_itemGuidLow (unlock_ip t a) = ae_itemGuidLow a"
  by (simp_all add: unlock_ip_def ah_stake_def entry_ok_def)

lemma Update_one_gold:
  assumes "fair_config cfg" and "ah_sane w" and "sm_find (get_house s w) i = Some a0"
  shows "ah_gold (Update_one cfg t s (i, a0) w) \<le> ah_gold w \<and> ah_sane (Update_one cfg t s (i, a0) w)"
proof -
  let ?a = "unlock_ip t a0"
  let ?w1 = "set_house s (sm_put i ?a (get_house s w)) w"
  have a: "ae_Id a0 = i" "entry_ok a0" using ah_sane_entry [OF assms(2,3)] by auto
  have s1: "ah_sane ?w1" using ah_sane_put [OF assms(2), of ?a i s] a by simp
  have g1: "ah_gold ?w1 = ah_gold w"
    using ah_gold_put [OF assms(2), of s i ?a] assms(3) by (simp add: sm_share_Some)
  have ga: "GetAuction s i ?w1 = Some ?a" by (simp add: GetAuction_def)
  have "ah_gold (SendAuctionSuccessfulMail cfg ?a ?w1) \<le> ah_gold ?w1 + ah_stake ?a"
    using a by (intro successful_mail_gold [OF assms(1)]) simp
  then have sold: "ah_gold (SendAuctionWonMail ?a (SendAuctionSuccessfulMail cfg ?a ?w1)) \<le> ah_gold ?w1 + ah_stake ?a"
    by (simp add: mail_frames)
  have exp: "ah_gold (SendAuctionExpiredMail ?a ?w1) \<le> ah_gold ?w1 + ah_stake ?a" by (simp add: mail_frames)
  show ?thesis
    using close_auction [OF s1 ga _ sold, of "ae_itemGuidLow a0"] close_auction [OF s1 ga _ exp, of "ae_itemGuidLow a0"] s1 g1 a
    by (simp add: Update_one_def Let_def mail_frames)
qed

lemma Update_one_others:
  "j \<noteq> i \<Longrightarrow> sm_find (get_house s (Update_one cfg t s (i, a) w)) j = sm_find (get_house s w) j"
  by (simp add: Update_one_def Let_def mail_frames)

lemma Update_fold_gold:
  assumes "fair_config cfg"
  shows "ah_sane w \<Longrightarrow> distinct (map fst es) \<Longrightarrow> \<forall>(i, a) \<in> set es. sm_find (get_house s w) i = Some a \<Longrightarrow>
     ah_gold (fold (Update_one cfg t s) es w) \<le> ah_gold w \<and> ah_sane (fold (Update_one cfg t s) es w)"
proof (induction es arbitrary: w)
  case (Cons e es)
  obtain i a where e: "e = (i, a)" by (cases e)
  let ?w = "Update_one cfg t s (i, a) w"
  have u: "ah_gold ?w \<le> ah_gold w" "ah_sane ?w"
    using Update_one_gold [OF assms Cons.prems(1)] Cons.prems(3) by (auto simp: e)
  have "\<forall>(j, b) \<in> set es. sm_find (get_house s ?w) j = Some b"
  proof clarify
    fix j b
    assume jb: "(j, b) \<in> set es"
    then have "j \<noteq> i" using Cons.prems(2) by (force simp: e)
    moreover have "sm_find (get_house s w) j = Some b" using jb Cons.prems(3) by auto
    ultimately show "sm_find (get_house s ?w) j = Some b" by (simp add: Update_one_others)
  qed
  from Cons.IH [OF u(2) _ this] Cons.prems(2) u(1) show ?case by (auto simp: e)
qed simp

lemma Update_house_gold:
  assumes "fair_config cfg" and "ah_sane w"
  shows "ah_gold (Update_house cfg t s w) \<le> ah_gold w \<and> ah_sane (Update_house cfg t s w)"
  unfolding Update_house_def
  using assms ah_sane_house [OF assms(2), of s]
  by (intro Update_fold_gold) (auto simp: sm_ok_distinct sm_find_iff)

lemma Update_gold:
  assumes "fair_config cfg" and "ah_sane w"
  shows "ah_gold (AuctionHouseMgr_Update cfg t w) \<le> ah_gold w \<and> ah_sane (AuctionHouseMgr_Update cfg t w)"
proof -
  let ?h = "Update_house cfg t Horde w"
  let ?a = "Update_house cfg t Alliance ?h"
  have h: "ah_gold ?h \<le> ah_gold w" "ah_sane ?h" using Update_house_gold [OF assms] by auto
  have a: "ah_gold ?a \<le> ah_gold ?h" "ah_sane ?a" using Update_house_gold [OF assms(1) h(2)] by auto
  show ?thesis unfolding AuctionHouseMgr_Update_def
    using Update_house_gold [OF assms(1) a(2), of t Neutral] a(1) h(1) by auto
qed

section \<open>Where the items are\<close>

definition mail_goods :: "ah_mail list \<Rightarrow> u32 list" where
  "mail_goods ms = concat (map (\<lambda>m. case ml_item m of None \<Rightarrow> [] | Some it \<Rightarrow> [it_guid it]) ms)"

definition ah_places :: "ah_world \<Rightarrow> u32 list" where
  "ah_places w = map fst (aw_bags w) @ map fst (aw_items w) @ mail_goods (aw_mail w)"

definition ah_goods :: "ah_world \<Rightarrow> bool" where
  "ah_goods w \<longleftrightarrow>
     sm_ok (aw_bags w) \<and> sm_ok (aw_items w) \<and> distinct (ah_places w) \<and>
     (\<forall>g pl it. sm_find (aw_bags w) g = Some (pl, it) \<longrightarrow> it_guid it = g) \<and>
     (\<forall>g it. sm_find (aw_items w) g = Some it \<longrightarrow> it_guid it = g)"

text \<open>No item has been made or doubled between \<open>w\<close> and \<open>v\<close>.\<close>

definition goods_kept :: "ah_world \<Rightarrow> ah_world \<Rightarrow> bool" where
  "goods_kept w v \<longleftrightarrow> ah_goods v \<and> set (ah_places v) \<subseteq> set (ah_places w)"

lemma goods_kept_refl: "ah_goods w \<Longrightarrow> goods_kept w w"
  by (simp add: goods_kept_def)

lemma goods_kept_trans: "goods_kept u v \<Longrightarrow> (ah_goods v \<Longrightarrow> goods_kept v w) \<Longrightarrow> goods_kept u w"
  by (auto simp: goods_kept_def)

lemma goods_kept_same:
  assumes "ah_goods w" and "aw_bags v = aw_bags w" and "aw_items v = aw_items w"
    and "mail_goods (aw_mail v) = mail_goods (aw_mail w)"
  shows "goods_kept w v"
proof -
  have "ah_places v = ah_places w" by (simp only: ah_places_def assms)
  then show ?thesis using assms(1) by (simp add: goods_kept_def ah_goods_def assms(2,3))
qed

lemma set_map_fst_erase: "set (map fst (sm_erase k m)) = set (map fst m) - {k}"
  by (auto simp: sm_erase_def)

lemma set_map_fst_put: "set (map fst (sm_put k v m)) = insert k (set (map fst m))"
  using fst_set_sm_put by simp

lemma sm_has_key: "sm_has m k \<longleftrightarrow> k \<in> set (map fst m)"
  by (simp add: sm_has_iff_key)

lemma distinct_map_fst_erase: "distinct (map fst m) \<Longrightarrow> distinct (map fst (sm_erase k m))"
  by (simp add: sm_erase_def distinct_map_filter)

lemma goods_kept_take:
  assumes "ah_goods w" and "aw_bags v = aw_bags w" and "aw_items v = sm_erase g (aw_items w)"
    and "mail_goods (aw_mail v) = mail_goods (aw_mail w) @ (if ship then [g] else [])"
    and "ship \<Longrightarrow> sm_has (aw_items w) g"
  shows "goods_kept w v"
proof -
  have d: "distinct (ah_places w)" using assms(1) by (simp add: ah_goods_def)
  have "distinct (ah_places v)"
    using d assms(5) unfolding ah_places_def assms(2-4)
    by (auto simp: set_map_fst_erase distinct_map_fst_erase sm_has_key simp del: set_map)
  moreover have "set (ah_places v) \<subseteq> set (ah_places w)"
    using assms(5) unfolding ah_places_def assms(2-4)
    by (auto simp: set_map_fst_erase sm_has_key simp del: set_map)
  ultimately show ?thesis
    using assms(1) by (auto simp: goods_kept_def ah_goods_def assms(2,3))
qed

lemma mail_goods_append [simp]: "mail_goods (as @ bs) = mail_goods as @ mail_goods bs"
  by (simp add: mail_goods_def)

lemma mail_goods_one [simp]: "mail_goods [m] = (case ml_item m of None \<Rightarrow> [] | Some it \<Rightarrow> [it_guid it])"
  by (simp add: mail_goods_def)

lemma mail_goods_mails:
  "mail_goods (aw_mail (SendAuctionOutbiddedMail a w)) = mail_goods (aw_mail w)"
  "mail_goods (aw_mail (SendAuctionCancelledToBidderMail a w)) = mail_goods (aw_mail w)"
  "mail_goods (aw_mail (SendAuctionSuccessfulMail cfg a w)) = mail_goods (aw_mail w)"
  "mail_goods (aw_mail (take_price pl price a w)) = mail_goods (aw_mail w)"
  by (simp_all add: SendAuctionOutbiddedMail_def SendAuctionCancelledToBidderMail_def
      SendAuctionSuccessfulMail_def take_price_def Let_def)

lemma item_guid: "ah_goods w \<Longrightarrow> GetAItem g w = Some it \<Longrightarrow> it_guid it = g"
  by (simp add: ah_goods_def GetAItem_def)

lemma item_has: "GetAItem g w = Some it \<Longrightarrow> sm_has (aw_items w) g"
  by (simp add: GetAItem_def sm_has_def)

lemma sm_erase_twice [simp]: "sm_erase k (sm_erase k m) = sm_erase k m"
  by (simp add: sm_erase_def)

lemma won_goods:
  assumes "ah_goods w"
  shows "goods_kept w (snd (RemoveAItem (ae_itemGuidLow a) (SendAuctionWonMail a w)))"
proof (cases "GetAItem (ae_itemGuidLow a) w")
  case None
  then have "\<not> sm_has (aw_items w) (ae_itemGuidLow a)" by (simp add: GetAItem_def sm_has_def)
  with None assms show ?thesis
    by (intro goods_kept_same) (simp_all add: SendAuctionWonMail_def)
next
  case (Some it)
  note g = item_guid [OF assms Some] item_has [OF Some]
  show ?thesis
    by (rule goods_kept_take [OF assms, of _ "ae_itemGuidLow a" "receiver_exists (ae_bidder a) w"])
      (use g Some in \<open>simp_all add: SendAuctionWonMail_def Let_def\<close>)
qed

lemma expired_goods:
  assumes "ah_goods w"
  shows "goods_kept w (snd (RemoveAItem (ae_itemGuidLow a) (SendAuctionExpiredMail a w)))"
proof (cases "GetAItem (ae_itemGuidLow a) w")
  case None
  then have "\<not> sm_has (aw_items w) (ae_itemGuidLow a)" by (simp add: GetAItem_def sm_has_def)
  with None assms show ?thesis
    by (intro goods_kept_same) (simp_all add: SendAuctionExpiredMail_def)
next
  case (Some it)
  note g = item_guid [OF assms Some] item_has [OF Some]
  show ?thesis
    by (rule goods_kept_take [OF assms, of _ "ae_itemGuidLow a" "receiver_exists (ae_owner a) w"])
      (use g Some in \<open>simp_all add: SendAuctionExpiredMail_def Let_def\<close>)
qed

lemma ah_goods_frame [simp]:
  "ah_goods (send_packet to opc bytes w) = ah_goods w"
  "ah_goods (SendAuctionCommandResult to auc act err ie w) = ah_goods w"
  "ah_goods (SendAuctionOwnerNotification to a sold w) = ah_goods w"
  "ah_goods (snd (RemoveAuction s i w)) = ah_goods w"
  "ah_goods (set_house s m w) = ah_goods w"
  "ah_goods (ModifyMoney pl d w) = ah_goods w"
  "ah_goods (snd (GenerateAuctionID w)) = ah_goods w"
  by (simp_all add: ah_goods_def ah_places_def)

lemma ah_places_frame [simp]:
  "ah_places (send_packet to opc bytes w) = ah_places w"
  "ah_places (SendAuctionCommandResult to auc act err ie w) = ah_places w"
  "ah_places (SendAuctionOwnerNotification to a sold w) = ah_places w"
  "ah_places (snd (RemoveAuction s i w)) = ah_places w"
  "ah_places (set_house s m w) = ah_places w"
  "ah_places (ModifyMoney pl d w) = ah_places w"
  "ah_places (snd (GenerateAuctionID w)) = ah_places w"
  by (simp_all add: ah_places_def)

lemma goods_kept_frame [simp]:
  "goods_kept w (SendAuctionCommandResult to auc act err ie v) = goods_kept w v"
  "goods_kept w (SendAuctionOwnerNotification to a sold v) = goods_kept w v"
  "goods_kept w (snd (RemoveAuction s i v)) = goods_kept w v"
  "goods_kept w (set_house s m v) = goods_kept w v"
  by (simp_all add: goods_kept_def)

lemma RemoveAItem_commute [simp]:
  "goods_kept w (snd (RemoveAItem g (SendAuctionCommandResult to auc act err ie v))) =
     goods_kept w (snd (RemoveAItem g v))"
proof -
  have "ah_places (snd (RemoveAItem g (SendAuctionCommandResult to auc act err ie v))) = ah_places (snd (RemoveAItem g v))"
    "ah_goods (snd (RemoveAItem g (SendAuctionCommandResult to auc act err ie v))) = ah_goods (snd (RemoveAItem g v))"
    by (simp_all add: ah_places_def ah_goods_def)
  then show ?thesis by (simp add: goods_kept_def)
qed

lemma take_price_goods: "ah_goods w \<Longrightarrow> goods_kept w (take_price pl price a w)"
  by (intro goods_kept_same) (simp_all add: take_price_frame mail_goods_mails)

lemma successful_goods: "ah_goods w \<Longrightarrow> goods_kept w (SendAuctionSuccessfulMail cfg a w)"
  by (intro goods_kept_same) (simp_all add: mail_frames mail_goods_mails)

lemma place_bid_goods: "ah_goods w \<Longrightarrow> goods_kept w (place_bid pl s i price a w)"
  by (simp add: place_bid_def Let_def take_price_goods)

lemma buy_out_goods:
  assumes "ah_goods w"
  shows "goods_kept w (buy_out cfg pl s i a w)"
proof -
  let ?a = "a\<lparr>ae_bidder := pl, ae_bid := ae_buyout a\<rparr>"
  let ?w2 = "bid_written pl s i (ae_buyout a) a w"
  let ?w3 = "SendAuctionSuccessfulMail cfg ?a ?w2"
  have k2: "goods_kept w ?w2" using take_price_goods [OF assms] by (simp add: bid_written_def)
  have k3: "goods_kept w ?w3"
    by (rule goods_kept_trans [OF k2]) (rule successful_goods)
  have "goods_kept w (snd (RemoveAItem (ae_itemGuidLow ?a) (SendAuctionWonMail ?a ?w3)))"
    by (rule goods_kept_trans [OF k3]) (rule won_goods)
  then show ?thesis by (simp add: buy_out_def bid_written_def Let_def)
qed

lemma PlaceBid_goods: "ah_goods w \<Longrightarrow> goods_kept w (HandleAuctionPlaceBid cfg ss g i price w)"
  using goods_kept_refl place_bid_goods buy_out_goods
  unfolding HandleAuctionPlaceBid_def Let_def by (auto split: option.split)

lemma cancel_goods:
  assumes "ah_goods w" and "GetAItem (ae_itemGuidLow a) w = Some it"
  shows "goods_kept w (cancel_auction ss s a it w)"
proof -
  note g = item_guid [OF assms] item_has [OF assms(2)]
  have "goods_kept w (snd (RemoveAItem (ae_itemGuidLow a) (send_mail (ss_guid ss) Canceled 0 (Some it) w)))"
    by (rule goods_kept_take [OF assms(1), of _ "ae_itemGuidLow a" True]) (use g in simp_all)
  then show ?thesis by (simp add: cancel_auction_def Let_def)
qed

lemma RemoveItem_goods:
  assumes "ah_goods w"
  shows "goods_kept w (HandleAuctionRemoveItem cfg ss g i w)"
proof -
  have "goods_kept w (cancel_auction ss s a it (ModifyMoney (ss_guid ss) d (SendAuctionCancelledToBidderMail a w)))"
    if "GetAItem (ae_itemGuidLow a) w = Some it" for s a it d
  proof -
    let ?v = "ModifyMoney (ss_guid ss) d (SendAuctionCancelledToBidderMail a w)"
    have "goods_kept w ?v"
      using assms by (intro goods_kept_same) (simp_all add: mail_frames mail_goods_mails)
    moreover have "GetAItem (ae_itemGuidLow a) ?v = Some it"
      using that by (simp add: GetAItem_def mail_frames)
    ultimately show ?thesis by (metis cancel_goods goods_kept_trans)
  qed
  then show ?thesis
    using assms goods_kept_refl cancel_goods
    unfolding HandleAuctionRemoveItem_def Let_def by (auto split: option.split)
qed

lemma create_goods:
  assumes "ah_goods w" and "GetItemByGuid pl g w = Some it" and "GetAItem g w = None"
  shows "goods_kept w (create_auction cfg ss h it bid buyout secs deposit now w)"
proof -
  let ?v = "create_auction cfg ss h it bid buyout secs deposit now w"
  have bag: "sm_find (aw_bags w) g = Some (pl, it)"
    using assms(2) by (auto simp: GetItemByGuid_def split: option.splits if_splits)
  then have g: "it_guid it = g" using assms(1) by (simp add: ah_goods_def)
  have no: "\<not> sm_has (aw_items w) g" using assms(3) by (simp add: GetAItem_def sm_has_def)
  have b: "aw_bags ?v = sm_erase g (aw_bags w)" and i: "aw_items ?v = sm_put g it (aw_items w)"
    and m: "aw_mail ?v = aw_mail w"
    by (simp_all add: create_auction_def Let_def case_prod_beta AddAItem_def AddAuction_def g)
  have "g \<in> set (map fst (aw_bags w))" using bag sm_has_iff_key [of "aw_bags w" g] by (simp add: sm_has_def)
  moreover have "distinct (map fst (sm_put g it (aw_items w)))"
    using assms(1) by (intro sm_ok_distinct sm_ok_put) (simp add: ah_goods_def)
  ultimately have "distinct (ah_places ?v)"
    using assms(1) no unfolding ah_goods_def ah_places_def b i m
    by (auto simp: set_map_fst_erase set_map_fst_put distinct_map_fst_erase sm_has_key simp del: set_map)
  moreover have "set (ah_places ?v) \<subseteq> set (ah_places w)"
    using \<open>g \<in> set (map fst (aw_bags w))\<close> unfolding ah_places_def b i m
    by (auto simp: set_map_fst_erase set_map_fst_put simp del: set_map)
  ultimately show ?thesis
    using assms(1) g unfolding goods_kept_def ah_goods_def b i by (auto split: if_splits)
qed

lemma SellItem_goods: "ah_goods w \<Longrightarrow> goods_kept w (HandleAuctionSellItem cfg ss g item bid buyout etime now w)"
  using goods_kept_refl create_goods [of w "ss_guid ss" item]
  unfolding HandleAuctionSellItem_def Let_def sell_refused_def by (auto split: option.split)

lemma Update_one_goods:
  assumes "ah_goods w"
  shows "goods_kept w (Update_one cfg t s e w)"
proof -
  obtain i a0 where e: "e = (i, a0)" by (cases e)
  let ?a = "unlock_ip t a0"
  let ?w1 = "set_house s (sm_put i ?a (get_house s w)) w"
  have g1: "ah_goods ?w1" using assms by simp
  have "goods_kept ?w1 (snd (RemoveAItem (ae_itemGuidLow ?a) (SendAuctionWonMail ?a (SendAuctionSuccessfulMail cfg ?a ?w1))))"
    using successful_goods [OF g1] won_goods goods_kept_trans by blast
  moreover have "goods_kept ?w1 (snd (RemoveAItem (ae_itemGuidLow ?a) (SendAuctionExpiredMail ?a ?w1)))"
    by (rule expired_goods [OF g1])
  moreover have "goods_kept w v" if "goods_kept ?w1 v" for v using that by (simp add: goods_kept_def)
  ultimately show ?thesis using goods_kept_refl [OF assms] by (simp add: Update_one_def e Let_def)
qed

lemma Update_goods: "ah_goods w \<Longrightarrow> goods_kept w (AuctionHouseMgr_Update cfg t w)"
proof -
  have f: "ah_goods w \<Longrightarrow> goods_kept w (fold (Update_one cfg t s) es w)" for s es w
  proof (induction es arbitrary: w)
    case (Cons e es)
    then show ?case
      using goods_kept_trans [OF Update_one_goods [OF Cons.prems, of cfg t s e]] by simp
  qed (simp add: goods_kept_refl)
  assume "ah_goods w"
  then show ?thesis
    unfolding AuctionHouseMgr_Update_def Update_house_def by (meson f goods_kept_trans)
qed

end
