(* ===== verification/AuctionProps.thy ===== *)
theory AuctionProps
  imports AuctionLaws
begin

text \<open>
  The auction house as a state machine whose steps are the client requests and the periodic
  update, and the properties that rest on it: conservation of money and of items, the rule of
  bidding, auction ids and listed pages.
\<close>

section \<open>The machine\<close>

definition ah_inv :: "ah_world \<Rightarrow> bool" where
  "ah_inv w \<longleftrightarrow> ah_sane w \<and> ah_goods w"

inductive ah_step :: "ah_config \<Rightarrow> ah_world \<Rightarrow> ah_world \<Rightarrow> bool" for cfg where
  step_sell: "online (ss_guid ss) w \<Longrightarrow>
    ah_step cfg w (HandleAuctionSellItem cfg ss g item bid buyout etime now w)"
| step_bid: "online (ss_guid ss) w \<Longrightarrow> ah_step cfg w (HandleAuctionPlaceBid cfg ss g i price w)"
| step_remove: "online (ss_guid ss) w \<Longrightarrow> ah_step cfg w (HandleAuctionRemoveItem cfg ss g i w)"
| step_update: "ah_step cfg w (AuctionHouseMgr_Update cfg t w)"

definition ah_fair_step :: "ah_config \<Rightarrow> ah_world \<Rightarrow> ah_world \<Rightarrow> bool" where
  "ah_fair_step cfg w v \<longleftrightarrow> fair_config cfg \<and> ah_step cfg w v"

lemma ah_fair_step_kept:
  assumes "ah_fair_step cfg w v" and "ah_inv w"
  shows "ah_inv v \<and> ah_gold v \<le> ah_gold w \<and> goods_kept w v"
proof -
  have f: "fair_config cfg" and s: "ah_sane w" and g: "ah_goods w"
    using assms by (auto simp: ah_fair_step_def ah_inv_def)
  have "ah_gold v \<le> ah_gold w \<and> ah_sane v \<and> goods_kept w v"
    using assms(1) unfolding ah_fair_step_def
    by (auto elim!: ah_step.cases simp: SellItem_gold [OF f s] SellItem_goods [OF g] PlaceBid_gold [OF f s]
        PlaceBid_goods [OF g] RemoveItem_gold [OF f s] RemoveItem_goods [OF g] Update_gold [OF f s] Update_goods [OF g])
  then show ?thesis by (simp add: ah_inv_def goods_kept_def)
qed

interpretation ah: metered_machine ah_inv "ah_fair_step cfg" ah_inv ah_gold for cfg
  by unfold_locales (auto dest: ah_fair_step_kept)

lemma fair_steps: "rtranclp (ah_step cfg) w v \<Longrightarrow> fair_config cfg \<Longrightarrow> rtranclp (ah_fair_step cfg) w v"
  by (induction rule: rtranclp_induct) (auto simp: ah_fair_step_def intro: rtranclp.rtrancl_into_rtrancl)

lemma goods_kept_steps:
  "rtranclp (ah_fair_step cfg) w v \<Longrightarrow> ah_inv w \<Longrightarrow> goods_kept w v \<and> ah_inv v"
proof (induction rule: rtranclp_induct)
  case base
  then show ?case by (simp add: goods_kept_refl ah_inv_def)
next
  case (step u v)
  then show ?case using ah_fair_step_kept [of cfg u v] goods_kept_trans by blast
qed

section \<open>A sample world\<close>

definition cfg0 :: ah_config where
  "cfg0 = \<lparr>ac_two_side = False, ac_gm_trades = True, ac_deposit_min = 1, ac_rate_deposit = Fin 1,
     ac_rate_cut = Fin 1, ac_rate_time = Fin 1,
     ac_store = (\<lambda>i. if i \<in> {1, 6, 7} then Some \<lparr>ah_houseId = i, ah_faction = 0,
        ah_depositPercent = (if i = 7 then 25 else 5), ah_cutPercent = (if i = 7 then 15 else 5)\<rparr> else None),
     ac_faction_mask = (\<lambda>f. None)\<rparr>"

definition ss0 :: "u32 \<Rightarrow> ah_session" where
  "ss0 g = \<lparr>ss_guid = g, ss_account = g + 100, ss_security = 0, ss_address = ''10.0.0.1'', ss_team = 469,
     ss_access = 0, ss_command = False, ss_npc = (\<lambda>n. if n = 5 then Some 12 else None)\<rparr>"

definition item0 :: auction_item where
  "item0 = \<lparr>it_guid = 40, it_entry = 2589, it_count = 20, it_sellPrice = 13, it_tradable = True,
     it_conjured = False, it_duration = 0, it_enchantment = 0, it_randomProperty = 0, it_suffixFactor = 0,
     it_charges = 0, it_class = 7, it_subClass = 0, it_inventoryType = 0, it_quality = 1, it_requiredLevel = 0\<rparr>"

definition world0 :: ah_world where
  "world0 = \<lparr>aw_money = [(1, 5000), (2, 9000)], aw_account = [(1, 101), (2, 102)], aw_bags = [(40, 1, item0)],
     aw_mail = [], aw_items = [], aw_alliance = [], aw_horde = [], aw_neutral = [], aw_used = [], aw_next = 1,
     aw_out = [], aw_crashed = False\<rparr>"

definition world1 :: ah_world where
  "world1 = HandleAuctionSellItem cfg0 (ss0 1) 5 40 100 2000 120 0 world0"

definition world2 :: ah_world where
  "world2 = HandleAuctionPlaceBid cfg0 (ss0 2) 5 1 700 world1"

lemma cfg0_fair: "fair_config cfg0"
  by (auto simp: fair_config_def cfg0_def fair_house_def)

lemma world0_inv: "ah_inv world0"
  unfolding ah_inv_def ah_sane_def ah_goods_def ah_places_def
  by (auto simp: world0_def get_house_def item0_def sm_find_def mail_goods_def split: ah_side.split if_splits)

lemma world0_online: "online (ss_guid (ss0 1)) world0" "online (ss_guid (ss0 2)) world0"
  by code_simp+

lemma world1_step: "ah_step cfg0 world0 world1"
  unfolding world1_def by (intro step_sell world0_online)

lemma world1_online: "online (ss_guid (ss0 2)) world1"
  by code_simp

lemma world2_step: "ah_step cfg0 world1 world2"
  unfolding world2_def by (intro step_bid world1_online)

lemma world2_steps: "rtranclp (ah_step cfg0) world0 world2"
  using world1_step world2_step by (meson rtranclp.intros)

section \<open>Bidding\<close>

lemma bid_written_entries:
  "sm_find (get_house t (bid_written pl s i price a w)) j = Some b \<Longrightarrow>
     (t = s \<and> j = i \<and> b = a\<lparr>ae_bidder := pl, ae_bid := price\<rparr>) \<or> sm_find (get_house t w) j = Some b"
  by (auto simp: bid_written_def take_price_frame split: if_splits)

lemma place_bid_entries:
  "sm_find (get_house t (place_bid pl s i price a w)) j = Some b \<Longrightarrow>
     (t = s \<and> j = i \<and> b = a\<lparr>ae_bidder := pl, ae_bid := price\<rparr>) \<or> sm_find (get_house t w) j = Some b"
  using bid_written_entries [of t pl s i price a w j b] by (simp add: place_bid_def bid_written_def Let_def split: if_splits)

lemma buy_out_entries:
  assumes "ae_Id a = i" and "sm_find (get_house t (buy_out cfg pl s i a w)) j = Some b"
  shows "sm_find (get_house t w) j = Some b"
  using assms by (auto simp: buy_out_def Let_def mail_frames take_price_frame split: if_splits)

text \<open>What a request may have done to an entry that is still listed.\<close>

definition outbids :: "u32 \<Rightarrow> u32 \<Rightarrow> auction_entry \<Rightarrow> auction_entry \<Rightarrow> bool" where
  "outbids pl price a b \<longleftrightarrow>
     b = a\<lparr>ae_bidder := pl, ae_bid := price\<rparr> \<and> ae_owner a \<noteq> pl \<and> ae_startbid a \<le> price \<and> ae_bid a < price \<and>
     ae_bid a + GetAuctionOutBid a \<le> price \<and> (ae_buyout a = 0 \<or> price < ae_buyout a)"

lemma PlaceBid_entries:
  assumes "ah_sane w" and "sm_find (get_house t (HandleAuctionPlaceBid cfg ss g i price w)) j = Some b"
  shows "\<exists>a. sm_find (get_house t w) j = Some a \<and> (b = a \<or> (j = i \<and> outbids (ss_guid ss) price a b \<and> price \<le> GetMoney (ss_guid ss) w))"
proof (cases "sm_find (get_house t w) j = Some b")
  case False
  let ?pl = "ss_guid ss"
  obtain h a where h: "GetCheckedAuctionHouseForAuctioneer cfg ss g = Some h" "GetAuction (GetAuctionsMap cfg h) i w = Some a"
    using assms(2) False by (auto simp: HandleAuctionPlaceBid_def Let_def split: option.splits if_splits)
  have id: "ae_Id a = i" using ah_sane_entry assms(1) h(2) by (auto simp: GetAuction_def)
  have nb: "sm_find (get_house t (buy_out cfg ?pl (GetAuctionsMap cfg h) i a w)) j \<noteq> Some b"
    using buy_out_entries [OF id] False by blast
  have "ae_owner a \<noteq> ?pl \<and> \<not> price < ae_startbid a \<and> \<not> price \<le> ae_bid a \<and>
      \<not> ((price < ae_buyout a \<or> ae_buyout a = 0) \<and> price < ae_bid a + GetAuctionOutBid a) \<and> \<not> price > GetMoney ?pl w \<and>
      (price < ae_buyout a \<or> ae_buyout a = 0) \<and>
      sm_find (get_house t (place_bid ?pl (GetAuctionsMap cfg h) i price a w)) j = Some b"
    using assms(2) False nb h by (auto simp: HandleAuctionPlaceBid_def Let_def split: if_splits)
  moreover from this place_bid_entries [of t ?pl "GetAuctionsMap cfg h" i price a w j b] False
  have "t = GetAuctionsMap cfg h" "j = i" "b = a\<lparr>ae_bidder := ?pl, ae_bid := price\<rparr>" by auto
  ultimately show ?thesis using h(2) by (auto simp: outbids_def GetAuction_def not_less not_le)
qed auto

section \<open>Auction ids\<close>

lemma skip_used_fresh:
  assumes "sorted us" and "distinct us" and "\<forall>u \<in> set us. nxt \<le> u" and "unat nxt + length us < 4294967296"
  shows "skip_used us nxt \<notin> set us \<and> nxt \<le> skip_used us nxt"
  using assms
proof (induction us arbitrary: nxt)
  case (Cons u us)
  show ?case
  proof (cases "u = nxt")
    case True
    have s: "unat (nxt + 1) = unat nxt + 1" using Cons.prems(4) by (subst unat_u32_add) simp_all
    have "\<forall>v \<in> set us. nxt + 1 \<le> v"
    proof
      fix v assume "v \<in> set us"
      then have "nxt \<le> v" "nxt \<noteq> v" using Cons.prems(2,3) True by auto
      then have "nxt < v" by simp
      then show "nxt + 1 \<le> v" using s by (simp add: word_le_nat_alt word_less_nat_alt)
    qed
    then have "skip_used us (nxt + 1) \<notin> set us \<and> nxt + 1 \<le> skip_used us (nxt + 1)"
      using Cons.prems s by (intro Cons.IH) auto
    moreover have "nxt < nxt + 1" using s by (simp add: word_less_nat_alt)
    ultimately show ?thesis using True by auto
  next
    case False
    then have "nxt < u" using Cons.prems(3) by auto
    moreover have "\<forall>v \<in> set us. u \<le> v" using Cons.prems(1) by simp
    ultimately show ?thesis using False by auto
  qed
qed simp

lemma dropWhile_less_ge: "sorted us \<Longrightarrow> \<forall>u \<in> set (dropWhile (\<lambda>u. u < (n :: 'a::linorder)) us). n \<le> u"
  by (induction us) (auto simp: not_less intro: order_trans)

section \<open>Pages\<close>

text \<open>A page: at most 50 of the matching auctions, from the one asked for, and how many match.\<close>

definition info_bytes :: "int \<Rightarrow> ah_world \<Rightarrow> auction_entry \<Rightarrow> u8 list" where
  "info_bytes now w a = (case BuildAuctionInfo now w a of None \<Rightarrow> [] | Some bytes \<Rightarrow> bytes)"

definition page_of :: "int \<Rightarrow> ah_world \<Rightarrow> nat \<Rightarrow> auction_entry list \<Rightarrow> ah_page" where
  "page_of now w listfrom ms =
     (let shown = take 50 (drop listfrom ms) in (concat (map (info_bytes now w) shown), length shown, length ms))"

lemma page_of_snoc:
  "match a \<Longrightarrow> list_match now w match lf a (page_of now w lf ms) = page_of now w lf (ms @ [a])"
  "\<not> match a \<Longrightarrow> list_match now w match lf a (page_of now w lf ms) = page_of now w lf ms"
  by (auto simp: list_match_def page_of_def Let_def info_bytes_def min_def split: option.split)

lemma list_match_page:
  "fold (list_match now w match lf) as (page_of now w lf ms) = page_of now w lf (ms @ filter match as)"
  by (induction as arbitrary: ms) (auto simp: page_of_snoc)

lemma list_all_from_page:
  "count < 50 \<Longrightarrow> list_all_from now w as (data, count, tot) =
     (data @ concat (map (info_bytes now w) (take (50 - count) as)), count + min (50 - count) (length as), tot)"
proof (induction as arbitrary: data count)
  case (Cons a as)
  show ?case
  proof (cases "count + 1 \<ge> 50")
    case True
    then have "50 - count = Suc 0" using Cons.prems by simp
    then show ?thesis using True by (simp add: Let_def info_bytes_def)
  next
    case False
    then have "50 - count = Suc (50 - (count + 1))" by simp
    then show ?thesis using False Cons.IH [of "count + 1"] by (simp add: Let_def info_bytes_def)
  qed
qed simp

section \<open>Properties\<close>

text \<open>C1: The auction house creates no money. Over any sequence of sales, bids, buyouts, cancellations
and updates, from any consistent state, the money in the purses, in the mails and staked in
the auctions never grows, when the configured cut rate is at most 1 and no house takes more
than half; the 32-bit sums of the pay-outs and the signed debits of the purses do not wrap.\<close>

theorem auction_no_gold_created:
  assumes "fair_config cfg" and "ah_inv w" and "rtranclp (ah_step cfg) w v"
  shows "ah_gold v \<le> ah_gold w"
  using ah.meter_steps [OF fair_steps [OF assms(3,1)] assms(2)] .

lemma auction_no_gold_created_witness:
  "ah_gold world2 \<le> ah_gold world0 \<and> ah_gold world0 = 14000 \<and> GetMoney 2 world2 = 8300"
proof -
  have "ah_gold world0 = 14000" by (simp add: ah_gold_def world0_def get_house_def mail_gold_def)
  moreover have "GetMoney 2 world2 = 8300" by code_simp
  ultimately show ?thesis using auction_no_gold_created [OF cfg0_fair world0_inv world2_steps] by simp
qed

lemma ah_step_goods: "ah_step cfg w v \<Longrightarrow> ah_goods w \<Longrightarrow> goods_kept w v"
  by (auto elim!: ah_step.cases simp: SellItem_goods PlaceBid_goods RemoveItem_goods Update_goods)

lemma goods_steps: "rtranclp (ah_step cfg) w v \<Longrightarrow> ah_goods w \<Longrightarrow> goods_kept w v"
proof (induction rule: rtranclp_induct)
  case base
  then show ?case by (rule goods_kept_refl)
next
  case (step u v)
  then show ?case using ah_step_goods goods_kept_trans by blast
qed

text \<open>C2: Items are neither doubled nor made. Take a state in which every item is in one place only (a
bag, the auction manager or one mail) and the auction manager has every item under its own
number. Over any sequence of requests and updates, whatever the rates of the server and of its
auction houses are, every item stays in one place only, and every item that is somewhere was
somewhere before.\<close>

theorem auction_items_unique:
  assumes "ah_goods w" and "rtranclp (ah_step cfg) w v"
  shows "distinct (ah_places v) \<and> set (ah_places v) \<subseteq> set (ah_places w)"
  using goods_steps [OF assms(2,1)] by (simp add: goods_kept_def ah_goods_def)

lemma auction_items_unique_witness:
  "distinct (ah_places world2) \<and> set (ah_places world2) \<subseteq> {40} \<and> map fst (aw_items world2) = [40]"
proof -
  have "set (ah_places world0) = {40}" "map fst (aw_items world2) = [40]" by code_simp+
  moreover have "ah_goods world0" using world0_inv by (simp add: ah_inv_def)
  ultimately show ?thesis using auction_items_unique [OF _ world2_steps] by simp
qed

text \<open>C29: A bid is only ever replaced by a higher one. After a bid request, every auction still listed is
either unchanged, or it is the one bid on, by somebody else than its owner who has the money,
with the new price at least the starting bid, above the old bid by at least the minimal
increment, below the buyout, and nothing else of the entry changed.\<close>

theorem bids_only_rise:
  assumes "ah_sane w" and "sm_find (get_house t (HandleAuctionPlaceBid cfg ss g i price w)) j = Some b"
  shows "\<exists>a. sm_find (get_house t w) j = Some a \<and>
     (b = a \<or> (j = i \<and> outbids (ss_guid ss) price a b \<and> price \<le> GetMoney (ss_guid ss) w))"
  using PlaceBid_entries [OF assms] .

lemma bids_only_rise_witness:
  "\<exists>a b. sm_find (get_house Alliance world1) 1 = Some a \<and> sm_find (get_house Alliance world2) 1 = Some b \<and>
     ae_bid a = 0 \<and> ae_bid b = 700 \<and> outbids 2 700 a b"
proof -
  have sane: "ah_sane world1"
    using ah_fair_step_kept [of cfg0 world0 world1] cfg0_fair world0_inv world1_step
    by (simp add: ah_fair_step_def ah_inv_def)
  have e: "map_option ae_bid (sm_find (get_house Alliance world1) 1) = Some 0"
    "map_option ae_bid (sm_find (get_house Alliance world2) 1) = Some 700" "ss_guid (ss0 2) = 2" by code_simp+
  then obtain b where b: "sm_find (get_house Alliance world2) 1 = Some b" "ae_bid b = 700" by auto
  with e bids_only_rise [OF sane, of Alliance cfg0 "ss0 2" 5 1 700 1 b] show ?thesis
    by (auto simp: world2_def [symmetric])
qed

lemma listed_entry_ok:
  assumes "fair_config cfg" and "ah_inv w0" and "rtranclp (ah_step cfg) w0 w" and "sm_find (get_house s w) i = Some a"
  shows "entry_ok a"
  using goods_kept_steps [OF fair_steps [OF assms(3,1)] assms(2)] ah_sane_entry assms(4) by (auto simp: ah_inv_def)

text \<open>C31: The seller of a sold auction is never cheated by arithmetic. The cut rate of the server is at most
1, every house takes at most half (both are configuration and data, not checked by the code), and
the auction is one that is listed after any sequence of steps from a consistent state. Then the
mail to a seller that exists is one mail, without an item, about a successful auction, whose money
together with the cut is exactly the bid and the deposit, and the cut is at most the bid, although
the product of percentage and bid is taken modulo \<open>2 ^ 32\<close> and the rest of the computation is
rounded to binary32; nobody's purse changes.\<close>

theorem seller_profit_exact:
  assumes "fair_config cfg" and "ah_inv w0" and "rtranclp (ah_step cfg) w0 w" and "sm_find (get_house s w) i = Some a"
    and "receiver_exists (ae_owner a) w"
  shows "\<exists>m. aw_mail (SendAuctionSuccessfulMail cfg a w) = aw_mail w @ [m] \<and> ml_receiver m = ae_owner a \<and>
     ml_subject m = Successful \<and> ml_item m = None \<and> GetAuctionCut cfg a \<le> ae_bid a \<and>
     unat (ml_money m) + unat (GetAuctionCut cfg a) = unat (ae_bid a) + unat (ae_deposit a) \<and>
     aw_money (SendAuctionSuccessfulMail cfg a w) = aw_money w"
proof -
  have ok: "entry_ok a" by (rule listed_entry_ok [OF assms(1-4)])
  let ?m = "\<lparr>ml_receiver = ae_owner a, ml_subject = Successful, ml_money = ae_bid a + ae_deposit a - GetAuctionCut cfg a, ml_item = None\<rparr>"
  have s: "unat (ae_bid a + ae_deposit a) = unat (ae_bid a) + unat (ae_deposit a)"
    using ok by (intro unat_u32_add) (simp add: entry_ok_def)
  have c: "GetAuctionCut cfg a \<le> ae_bid a" using assms(1) ok by (simp add: auction_cut_le_bid entry_ok_def)
  then have "GetAuctionCut cfg a \<le> ae_bid a + ae_deposit a" by (simp add: word_le_nat_alt s)
  then have "unat (ml_money ?m) + unat (GetAuctionCut cfg a) = unat (ae_bid a) + unat (ae_deposit a)"
    by (simp add: unat_sub s word_le_nat_alt)
  moreover have "aw_mail (SendAuctionSuccessfulMail cfg a w) = aw_mail w @ [?m]"
    using assms(5) by (simp add: SendAuctionSuccessfulMail_def Let_def send_mail_def SendAuctionOwnerNotification_def send_packet_def)
  ultimately show ?thesis using c by (intro exI [of _ ?m]) (simp add: successful_mail)
qed

lemma seller_profit_exact_witness:
  "\<exists>m. ml_receiver m = 1 \<and> unat (ml_money m) = 678 \<and>
     (\<exists>a. sm_find (get_house Alliance world2) 1 = Some a \<and> aw_mail (SendAuctionSuccessfulMail cfg0 a world2) = aw_mail world2 @ [m])"
proof -
  have "map_option (\<lambda>a. (ae_owner a, unat (ae_bid a), unat (ae_deposit a), unat (GetAuctionCut cfg0 a)))
      (sm_find (get_house Alliance world2) 1) = Some (1, 700, 13, 35)" by code_simp
  then obtain a where a: "sm_find (get_house Alliance world2) 1 = Some a" "ae_owner a = 1" "unat (ae_bid a) = 700"
    "unat (ae_deposit a) = 13" "unat (GetAuctionCut cfg0 a) = 35" by auto
  have "receiver_exists 1 world2" by code_simp
  then have "receiver_exists (ae_owner a) world2" by (simp add: a(2))
  from seller_profit_exact [OF cfg0_fair world0_inv world2_steps a(1) this] a show ?thesis by auto
qed

definition entry0 :: "u32 \<Rightarrow> auction_entry" where
  "entry0 price = \<lparr>ae_Id = 1, ae_itemGuidLow = 40, ae_itemTemplate = 2589, ae_owner = 1, ae_startbid = 1,
     ae_bid = price, ae_buyout = 0, ae_lockedIp = [], ae_depositTime = 0, ae_expireTime = 0, ae_bidder = 2,
     ae_deposit = 30, ae_house = \<lparr>ah_houseId = 7, ah_faction = 0, ah_depositPercent = 25, ah_cutPercent = 15\<rparr>\<rparr>"

text \<open>The product \<^verbatim>\<open>cutPercent * bid\<close> is a 32-bit one: at 15 percent the cut of a bid of 28633 gold is
nothing at all, while the bid one copper below pays in full. Bids up to 200000 gold are accepted.\<close>

lemma auction_cut_wraps:
  "GetAuctionCut cfg0 (entry0 286331153) = 42949672 \<and> GetAuctionCut cfg0 (entry0 286331154) = 0"
  by code_simp

text \<open>A generated auction id is not in use: as long as the counter does not reach the end of its 32
bits, the id is not below the counter and not among the ids in use, whichever ids have been
freed before.\<close>

theorem generated_auction_id_fresh:
  assumes "sorted (aw_used w)" and "distinct (aw_used w)" and "unat (aw_next w) + length (aw_used w) < 4294967296"
  shows "fst (GenerateAuctionID w) \<notin> set (aw_used w) \<and> aw_next w \<le> fst (GenerateAuctionID w) \<and>
     fst (GenerateAuctionID w) \<in> set (aw_used (snd (GenerateAuctionID w)))"
proof -
  let ?us = "dropWhile (\<lambda>u. u < aw_next w) (aw_used w)"
  have split: "set (aw_used w) = set (takeWhile (\<lambda>u. u < aw_next w) (aw_used w)) \<union> set ?us"
    by (metis set_append takeWhile_dropWhile_id)
  have ge: "\<forall>u \<in> set ?us. aw_next w \<le> u"
    using assms(1) by (rule dropWhile_less_ge)
  have "length ?us \<le> length (aw_used w)" by (rule length_dropWhile_le)
  then have f: "skip_used ?us (aw_next w) \<notin> set ?us \<and> aw_next w \<le> skip_used ?us (aw_next w)"
    using assms ge by (intro skip_used_fresh) (auto intro: sorted_dropWhile)
  have "\<forall>u \<in> set (takeWhile (\<lambda>u. u < aw_next w) (aw_used w)). u < aw_next w" using set_takeWhileD by fastforce
  then have "skip_used ?us (aw_next w) \<notin> set (aw_used w)" using f split by fastforce
  then show ?thesis using f by (simp add: GenerateAuctionID_def Let_def set_insort_insert)
qed

lemma generated_auction_id_fresh_witness:
  "fst (GenerateAuctionID (world0\<lparr>aw_used := [2, 4, 5, 9], aw_next := 4\<rparr>)) = 6 \<and>
   6 \<notin> set (aw_used (world0\<lparr>aw_used := [2, 4, 5, 9], aw_next := 4\<rparr>))"
proof -
  have "fst (GenerateAuctionID (world0\<lparr>aw_used := [2, 4, 5, 9], aw_next := 4\<rparr>)) = 6" by code_simp
  with generated_auction_id_fresh [of "world0\<lparr>aw_used := [2, 4, 5, 9], aw_next := 4\<rparr>"] show ?thesis by simp
qed

text \<open>C36: A searched page is what it claims to be: the auctions that match, in order of their ids, from
the position asked for and at most 50 of them, with the number shown and the number of all
matches. The search without criteria takes a different path with the same result, except that
it lists every auction, also the ones locked to another address.\<close>

theorem auction_search_page:
  "BuildListAuctionItems usable named now w s clientIp q ([], 0, 0) =
     page_of now w (qy_listfrom q)
       (if query_is_empty q then map snd (get_house s w)
        else filter (query_matches usable named clientIp q w) (map snd (get_house s w)))"
proof (cases "query_is_empty q")
  case True
  show ?thesis
    using True by (auto simp: BuildListAuctionItems_def page_of_def Let_def list_all_from_page min_def)
next
  case False
  have "([], 0, 0) = page_of now w (qy_listfrom q) []" by (simp add: page_of_def)
  then show ?thesis
    using False list_match_page [of now w _ "qy_listfrom q" "map snd (get_house s w)" "[]"]
    by (simp add: BuildListAuctionItems_def)
qed

end
