(* ===== verification/Reputation.thy ===== *)
theory Reputation
  imports Float32
begin

text \<open>
  The reputation of a player with the factions: \<^verbatim>\<open>src/game/ReputationMgr.{h,cpp}\<close>. The manager
  is the map from reputation list id to faction state and the map of forced reactions; the
  player, the faction store and the spillover table are a record of what the code reads.
  \<^verbatim>\<open>int32\<close> values are kept as integers with their wrap-around, flags as 32-bit words. The call
  \<^verbatim>\<open>Player::ReputationChanged\<close>, which completes quests, is not part of the model.
\<close>

section \<open>Ranks\<close>

datatype reputation_rank =
  REP_HATED | REP_HOSTILE | REP_UNFRIENDLY | REP_NEUTRAL | REP_FRIENDLY | REP_HONORED | REP_REVERED | REP_EXALTED

primrec rank_code :: "reputation_rank \<Rightarrow> nat" where
  "rank_code REP_HATED = 0"
| "rank_code REP_HOSTILE = 1"
| "rank_code REP_UNFRIENDLY = 2"
| "rank_code REP_NEUTRAL = 3"
| "rank_code REP_FRIENDLY = 4"
| "rank_code REP_HONORED = 5"
| "rank_code REP_REVERED = 6"
| "rank_code REP_EXALTED = 7"

lemma rank_code_inject: "rank_code r = rank_code s \<Longrightarrow> r = s"
  by (cases r; cases s) simp_all

instantiation reputation_rank :: linorder
begin

definition less_eq_reputation_rank :: "reputation_rank \<Rightarrow> reputation_rank \<Rightarrow> bool" where
  "less_eq_reputation_rank r s \<longleftrightarrow> rank_code r \<le> rank_code s"

definition less_reputation_rank :: "reputation_rank \<Rightarrow> reputation_rank \<Rightarrow> bool" where
  "less_reputation_rank r s \<longleftrightarrow> rank_code r < rank_code s"

instance
  by standard (auto simp: less_eq_reputation_rank_def less_reputation_rank_def intro: rank_code_inject)

end

definition rank_of :: "nat \<Rightarrow> reputation_rank" where
  "rank_of i = [REP_HATED, REP_HOSTILE, REP_UNFRIENDLY, REP_NEUTRAL, REP_FRIENDLY, REP_HONORED, REP_REVERED, REP_EXALTED] ! i"

definition Reputation_Cap :: int where "Reputation_Cap = 42999"
definition Reputation_Bottom :: int where "Reputation_Bottom = - 42000"

definition PointsInRank :: "int list" where
  "PointsInRank = [36000, 3000, 3000, 3000, 6000, 12000, 21000, 1000]"

text \<open>The loop from the highest rank down; the list holds the indices still to visit.\<close>

fun rank_loop :: "nat list \<Rightarrow> int \<Rightarrow> int \<Rightarrow> reputation_rank" where
  "rank_loop [] limit standing = REP_HATED"
| "rank_loop (i # is) limit standing =
     (let limit' = limit - PointsInRank ! i
      in if standing \<ge> limit' then rank_of i else rank_loop is limit' standing)"

definition ReputationToRank :: "int \<Rightarrow> reputation_rank" where
  "ReputationToRank standing = rank_loop [7, 6, 5, 4, 3, 2, 1, 0] (Reputation_Cap + 1) standing"

section \<open>Data\<close>

definition FACTION_FLAG_VISIBLE :: u32 where "FACTION_FLAG_VISIBLE = 0x01"
definition FACTION_FLAG_AT_WAR :: u32 where "FACTION_FLAG_AT_WAR = 0x02"
definition FACTION_FLAG_HIDDEN :: u32 where "FACTION_FLAG_HIDDEN = 0x04"
definition FACTION_FLAG_INVISIBLE_FORCED :: u32 where "FACTION_FLAG_INVISIBLE_FORCED = 0x08"
definition FACTION_FLAG_PEACE_FORCED :: u32 where "FACTION_FLAG_PEACE_FORCED = 0x10"
definition FACTION_FLAG_INACTIVE :: u32 where "FACTION_FLAG_INACTIVE = 0x20"

lemmas faction_flags = FACTION_FLAG_VISIBLE_def FACTION_FLAG_AT_WAR_def FACTION_FLAG_HIDDEN_def
  FACTION_FLAG_INVISIBLE_FORCED_def FACTION_FLAG_PEACE_FORCED_def FACTION_FLAG_INACTIVE_def

record faction_state =
  fs_ID :: u32
  fs_ReputationListID :: u32
  fs_Flags :: u32
  fs_Standing :: int
  fs_needSend :: bool
  fs_needSave :: bool

record faction_entry =
  fe_ID :: u32
  fe_reputationListID :: int
  fe_raceMask :: "u32 list"
  fe_classMask :: "u32 list"
  fe_baseValue :: "int list"
  fe_flags :: "u32 list"

record rep_spillover =
  sp_faction :: "u32 list"
  sp_rate :: "f32 list"
  sp_rank :: "u32 list"

record rep_env =
  re_store :: "u32 \<Rightarrow> faction_entry option"
  re_rows :: nat
  re_spillover :: "u32 \<Rightarrow> rep_spillover option"
  re_raceMask :: u32
  re_classMask :: u32
  re_loading :: bool  \<comment> \<open>\<^verbatim>\<open>PlayerLoading\<close> of the session\<close>

datatype rep_opcode =
  SMSG_SET_FORCED_REACTIONS | SMSG_SET_FACTION_STANDING | SMSG_INITIALIZE_FACTIONS | SMSG_SET_FACTION_VISIBLE

record reputation_mgr =
  rm_factions :: "(u32, faction_state) smap"
  rm_forced :: "(u32, reputation_rank) smap"
  rm_out :: "(rep_opcode \<times> u8 list) list"

definition rm_send :: "rep_opcode \<Rightarrow> u8 list \<Rightarrow> reputation_mgr \<Rightarrow> reputation_mgr" where
  "rm_send op bytes m = m\<lparr>rm_out := rm_out m @ [(op, bytes)]\<rparr>"

text \<open>The bytes of an \<^verbatim>\<open>int32\<close> cast to \<^verbatim>\<open>uint32\<close>.\<close>

definition pint :: "int \<Rightarrow> u8 list" where
  "pint i = p32 (word_of_int i)"

section \<open>Reading\<close>

fun index_fit :: "(u32 \<times> u32) list \<Rightarrow> nat \<Rightarrow> u32 \<Rightarrow> u32 \<Rightarrow> nat option" where
  "index_fit [] i rm cm = None"
| "index_fit ((r, c) # ms) i rm cm =
     (if (r = 0 \<or> r AND rm \<noteq> 0) \<and> (c = 0 \<or> c AND cm \<noteq> 0) then Some i else index_fit ms (Suc i) rm cm)"

definition GetIndexFitTo :: "faction_entry \<Rightarrow> u32 \<Rightarrow> u32 \<Rightarrow> nat option" where
  "GetIndexFitTo e rm cm = index_fit (zip (fe_raceMask e) (fe_classMask e)) 0 rm cm"

definition GetBaseReputation :: "rep_env \<Rightarrow> faction_entry option \<Rightarrow> int" where
  "GetBaseReputation env fe =
     (case fe of None \<Rightarrow> 0
      | Some e \<Rightarrow> (case GetIndexFitTo e (re_raceMask env) (re_classMask env) of
                    None \<Rightarrow> 0 | Some idx \<Rightarrow> fe_baseValue e ! idx))"

definition GetDefaultStateFlags :: "rep_env \<Rightarrow> faction_entry option \<Rightarrow> u32" where
  "GetDefaultStateFlags env fe =
     (case fe of None \<Rightarrow> 0
      | Some e \<Rightarrow> (case GetIndexFitTo e (re_raceMask env) (re_classMask env) of
                    None \<Rightarrow> 0 | Some idx \<Rightarrow> fe_flags e ! idx))"

definition list_id :: "faction_entry \<Rightarrow> u32" where
  "list_id e = word_of_int (fe_reputationListID e)"

definition GetState :: "faction_entry \<Rightarrow> reputation_mgr \<Rightarrow> faction_state option" where
  "GetState e m = (if fe_reputationListID e \<ge> 0 then sm_find (rm_factions m) (list_id e) else None)"

definition GetReputation :: "rep_env \<Rightarrow> faction_entry option \<Rightarrow> reputation_mgr \<Rightarrow> int" where
  "GetReputation env fe m =
     (case fe of None \<Rightarrow> 0
      | Some e \<Rightarrow> (case GetState e m of
                    None \<Rightarrow> 0
                  | Some f \<Rightarrow> wrap32 (GetBaseReputation env fe + fs_Standing f)))"

definition GetReputation_id :: "rep_env \<Rightarrow> u32 \<Rightarrow> reputation_mgr \<Rightarrow> int" where
  "GetReputation_id env i m = (case re_store env i of None \<Rightarrow> 0 | Some e \<Rightarrow> GetReputation env (Some e) m)"

definition GetRank :: "rep_env \<Rightarrow> faction_entry option \<Rightarrow> reputation_mgr \<Rightarrow> reputation_rank" where
  "GetRank env fe m = ReputationToRank (GetReputation env fe m)"

definition GetBaseRank :: "rep_env \<Rightarrow> faction_entry option \<Rightarrow> reputation_rank" where
  "GetBaseRank env fe = ReputationToRank (GetBaseReputation env fe)"

text \<open>\<^verbatim>\<open>Player::GetReputationRank\<close>.\<close>

definition GetReputationRank :: "rep_env \<Rightarrow> u32 \<Rightarrow> reputation_mgr \<Rightarrow> reputation_rank" where
  "GetReputationRank env i m = GetRank env (re_store env i) m"

definition ApplyForceReaction :: "u32 \<Rightarrow> reputation_rank \<Rightarrow> bool \<Rightarrow> reputation_mgr \<Rightarrow> reputation_mgr" where
  "ApplyForceReaction i rank apply_it m =
     m\<lparr>rm_forced := (if apply_it then sm_put i rank (rm_forced m) else sm_erase i (rm_forced m))\<rparr>"

definition GetForcedRankIfAny :: "u32 \<Rightarrow> reputation_mgr \<Rightarrow> reputation_rank option" where
  "GetForcedRankIfAny faction m = sm_find (rm_forced m) faction"

section \<open>One faction\<close>

definition is_hidden :: "faction_state \<Rightarrow> bool" where
  "is_hidden f \<longleftrightarrow> fs_Flags f AND (FACTION_FLAG_INVISIBLE_FORCED OR FACTION_FLAG_HIDDEN) \<noteq> 0"

definition has_flag :: "u32 \<Rightarrow> faction_state \<Rightarrow> bool" where
  "has_flag fl f \<longleftrightarrow> fs_Flags f AND fl \<noteq> 0"

definition fs_touch :: "u32 \<Rightarrow> faction_state \<Rightarrow> faction_state" where
  "fs_touch flags f = f\<lparr>fs_Flags := flags, fs_needSend := True, fs_needSave := True\<rparr>"

text \<open>Whether the faction has just become visible is what \<^verbatim>\<open>SendVisible\<close> reports.\<close>

definition fs_SetVisible :: "faction_state \<Rightarrow> faction_state \<times> bool" where
  "fs_SetVisible f =
     (if is_hidden f then (f, False)
      else if has_flag FACTION_FLAG_VISIBLE f then (f, False)
      else (fs_touch (fs_Flags f OR FACTION_FLAG_VISIBLE) f, True))"

definition fs_SetAtWar :: "bool \<Rightarrow> faction_state \<Rightarrow> faction_state" where
  "fs_SetAtWar atWar f =
     (if atWar \<and> has_flag FACTION_FLAG_PEACE_FORCED f \<and> ReputationToRank (fs_Standing f) > REP_HATED then f
      else if has_flag FACTION_FLAG_AT_WAR f = atWar then f
      else fs_touch (if atWar then fs_Flags f OR FACTION_FLAG_AT_WAR
                     else fs_Flags f AND NOT FACTION_FLAG_AT_WAR) f)"

definition fs_SetInactive :: "bool \<Rightarrow> faction_state \<Rightarrow> faction_state" where
  "fs_SetInactive inactive f =
     (if inactive \<and> (is_hidden f \<or> \<not> has_flag FACTION_FLAG_VISIBLE f) then f
      else if has_flag FACTION_FLAG_INACTIVE f = inactive then f
      else fs_touch (if inactive then fs_Flags f OR FACTION_FLAG_INACTIVE
                     else fs_Flags f AND NOT FACTION_FLAG_INACTIVE) f)"

definition SendVisible :: "rep_env \<Rightarrow> faction_state \<Rightarrow> reputation_mgr \<Rightarrow> reputation_mgr" where
  "SendVisible env f m =
     (if re_loading env then m else rm_send SMSG_SET_FACTION_VISIBLE (p32 (fs_ReputationListID f)) m)"

definition put_visible :: "rep_env \<Rightarrow> u32 \<Rightarrow> faction_state \<Rightarrow> reputation_mgr \<Rightarrow> reputation_mgr" where
  "put_visible env k f m =
     (case fs_SetVisible f of (f', shown) \<Rightarrow>
        let m1 = m\<lparr>rm_factions := sm_put k f' (rm_factions m)\<rparr>
        in if shown then SendVisible env f' m1 else m1)"

definition SetVisible :: "rep_env \<Rightarrow> faction_entry \<Rightarrow> reputation_mgr \<Rightarrow> reputation_mgr" where
  "SetVisible env e m =
     (if fe_reputationListID e < 0 then m
      else case sm_find (rm_factions m) (list_id e) of
             None \<Rightarrow> m
           | Some f \<Rightarrow> put_visible env (list_id e) f m)"

definition SetVisible_template :: "rep_env \<Rightarrow> u32 \<Rightarrow> reputation_mgr \<Rightarrow> reputation_mgr" where
  "SetVisible_template env faction m =
     (if faction = 0 then m
      else case re_store env faction of None \<Rightarrow> m | Some e \<Rightarrow> SetVisible env e m)"

definition SetAtWar :: "u32 \<Rightarrow> bool \<Rightarrow> reputation_mgr \<Rightarrow> reputation_mgr" where
  "SetAtWar k on m =
     (case sm_find (rm_factions m) k of
        None \<Rightarrow> m
      | Some f \<Rightarrow> if is_hidden f then m else m\<lparr>rm_factions := sm_put k (fs_SetAtWar on f) (rm_factions m)\<rparr>)"

definition SetInactive :: "u32 \<Rightarrow> bool \<Rightarrow> reputation_mgr \<Rightarrow> reputation_mgr" where
  "SetInactive k on m =
     (case sm_find (rm_factions m) k of
        None \<Rightarrow> m
      | Some f \<Rightarrow> m\<lparr>rm_factions := sm_put k (fs_SetInactive on f) (rm_factions m)\<rparr>)"

section \<open>Changing a standing\<close>

definition clamp_standing :: "int \<Rightarrow> int" where
  "clamp_standing s = (if s > Reputation_Cap then Reputation_Cap else if s < Reputation_Bottom then Reputation_Bottom else s)"

definition SetOneFactionReputation ::
    "rep_env \<Rightarrow> faction_entry \<Rightarrow> int \<Rightarrow> bool \<Rightarrow> reputation_mgr \<Rightarrow> bool \<times> reputation_mgr" where
  "SetOneFactionReputation env e standing incremental m =
     (case sm_find (rm_factions m) (list_id e) of
        None \<Rightarrow> (False, m)
      | Some f \<Rightarrow>
          (let BaseRep = GetBaseReputation env (Some e);
               wanted = (if incremental then wrap32 (standing + wrap32 (fs_Standing f + BaseRep)) else standing);
               s = clamp_standing wanted;
               f1 = f\<lparr>fs_Standing := s - BaseRep, fs_needSend := True, fs_needSave := True\<rparr>;
               m1 = put_visible env (list_id e) f1 m;
               f2 = fst (fs_SetVisible f1);
               f3 = (if ReputationToRank s \<le> REP_HOSTILE then fs_SetAtWar True f2 else f2)
           in (True, m1\<lparr>rm_factions := sm_put (list_id e) f3 (rm_factions m1)\<rparr>)))"

definition send_others :: "u32 \<Rightarrow> (u32, faction_state) smap \<Rightarrow> u8 list" where
  "send_others self fs =
     concat (map (\<lambda>f. p32 (fs_ReputationListID f) @ pint (fs_Standing f))
       (filter (\<lambda>f. fs_needSend f \<and> fs_ReputationListID f \<noteq> self) (map snd fs)))"

definition count_others :: "u32 \<Rightarrow> (u32, faction_state) smap \<Rightarrow> u32" where
  "count_others self fs =
     of_nat (length (filter (\<lambda>f. fs_needSend f \<and> fs_ReputationListID f \<noteq> self) (map snd fs)))"

definition clear_send :: "(u32, faction_state) smap \<Rightarrow> (u32, faction_state) smap" where
  "clear_send fs = map (\<lambda>(k, f). (k, f\<lparr>fs_needSend := False\<rparr>)) fs"

definition SendState :: "faction_state \<Rightarrow> reputation_mgr \<Rightarrow> reputation_mgr" where
  "SendState f m =
     (let self = fs_ReputationListID f;
          bytes = p32 (1 + count_others self (rm_factions m)) @ p32 self @ pint (fs_Standing f)
                  @ send_others self (rm_factions m)
      in rm_send SMSG_SET_FACTION_STANDING bytes (m\<lparr>rm_factions := clear_send (rm_factions m)\<rparr>))"

text \<open>The four spillover slots, in order. A faction id that the store does not know is dereferenced
as a null pointer by the source.\<close>

fun spill_loop :: "rep_env \<Rightarrow> int \<Rightarrow> bool \<Rightarrow> (u32 \<times> f32 \<times> u32) list \<Rightarrow> reputation_mgr \<Rightarrow> (unit, reputation_mgr) outcome" where
  "spill_loop env standing incremental [] m = Ok m"
| "spill_loop env standing incremental ((fac, rate, rank) # rest) m =
     (if fac \<noteq> 0 \<and> rank_code (GetReputationRank env fac m) \<le> unat rank then
        (let spilloverRep = f_to_int32 (f_mul (f_int standing) rate)
         in case re_store env fac of
              None \<Rightarrow> Undefined
            | Some e \<Rightarrow>
                spill_loop env standing incremental rest
                  (snd (SetOneFactionReputation env e spilloverRep incremental m)))
      else spill_loop env standing incremental rest m)"

definition spill_slots :: "rep_spillover \<Rightarrow> (u32 \<times> f32 \<times> u32) list" where
  "spill_slots sp = take 4 (zip (sp_faction sp) (zip (sp_rate sp) (sp_rank sp)))"

definition SetReputation ::
    "rep_env \<Rightarrow> faction_entry \<Rightarrow> int \<Rightarrow> bool \<Rightarrow> reputation_mgr \<Rightarrow> (unit, bool \<times> reputation_mgr) outcome" where
  "SetReputation env e standing incremental m =
     obind (case re_spillover env (fe_ID e) of
              None \<Rightarrow> Ok m
            | Some sp \<Rightarrow> spill_loop env standing incremental (spill_slots sp) m)
       (\<lambda>m1. case sm_find (rm_factions m1) (list_id e) of
               None \<Rightarrow> Ok (False, m1)
             | Some f0 \<Rightarrow>
                 (case SetOneFactionReputation env e standing incremental m1 of (res, m2) \<Rightarrow>
                    (case sm_find (rm_factions m2) (list_id e) of
                       None \<Rightarrow> Undefined
                     | Some f \<Rightarrow> Ok (res, SendState f m2))))"

section \<open>Packets with the whole list\<close>

definition SendForceReactions :: "reputation_mgr \<Rightarrow> reputation_mgr" where
  "SendForceReactions m =
     rm_send SMSG_SET_FORCED_REACTIONS
       (p32 (of_nat (length (rm_forced m)))
        @ concat (map (\<lambda>(i, r). p32 i @ p32 (of_nat (rank_code r))) (rm_forced m))) m"

text \<open>The loop \<^verbatim>\<open>for (; a != target; a++)\<close> runs as often as the 32-bit distance says.\<close>

definition absent_slots :: "u32 \<Rightarrow> u32 \<Rightarrow> u8 list" where
  "absent_slots a target = concat (replicate (unat (target - a)) (0 # p32 0))"

fun initial_slots :: "u32 \<Rightarrow> (u32, faction_state) smap \<Rightarrow> u32 \<times> u8 list" where
  "initial_slots a [] = (a, [])"
| "initial_slots a ((k, f) # fs) =
     (case initial_slots (k + 1) fs of (a', bytes) \<Rightarrow>
        (a', absent_slots a k @ ucast (fs_Flags f) # pint (fs_Standing f) @ bytes))"

definition SendInitialReputations :: "reputation_mgr \<Rightarrow> reputation_mgr" where
  "SendInitialReputations m =
     (case initial_slots 0 (rm_factions m) of (a, bytes) \<Rightarrow>
        rm_send SMSG_INITIALIZE_FACTIONS (p32 0x40 @ bytes @ absent_slots a 64)
          (m\<lparr>rm_factions := clear_send (rm_factions m)\<rparr>))"

section \<open>Loading and saving\<close>

definition new_faction :: "rep_env \<Rightarrow> faction_entry \<Rightarrow> faction_state" where
  "new_faction env e =
     \<lparr>fs_ID = fe_ID e, fs_ReputationListID = list_id e, fs_Flags = GetDefaultStateFlags env (Some e),
      fs_Standing = 0, fs_needSend = True, fs_needSave = True\<rparr>"

definition Initialize :: "rep_env \<Rightarrow> reputation_mgr \<Rightarrow> reputation_mgr" where
  "Initialize env m =
     m\<lparr>rm_factions :=
        fold (\<lambda>i fs. case re_store env (of_nat i) of
                None \<Rightarrow> fs
              | Some e \<Rightarrow> if fe_reputationListID e \<ge> 0 then sm_put (list_id e) (new_faction env e) fs else fs)
          [1..<re_rows env] []\<rparr>"

text \<open>\<^verbatim>\<open>operator[]\<close> makes a faction state for an unknown list id; its members are indeterminate, here zero.\<close>

definition zero_state :: faction_state where
  "zero_state = \<lparr>fs_ID = 0, fs_ReputationListID = 0, fs_Flags = 0, fs_Standing = 0, fs_needSend = False, fs_needSave = False\<rparr>"

definition load_flags :: "u32 \<Rightarrow> faction_state \<Rightarrow> faction_state \<times> bool" where
  "load_flags db f =
     (let (f1, shown) = (if db AND FACTION_FLAG_VISIBLE \<noteq> 0 then fs_SetVisible f else (f, False));
          f2 = (if db AND FACTION_FLAG_INACTIVE \<noteq> 0 then fs_SetInactive True f1 else f1);
          f3 = (if db AND FACTION_FLAG_AT_WAR \<noteq> 0 then fs_SetAtWar True f2
                else if has_flag FACTION_FLAG_VISIBLE f2 then fs_SetAtWar False f2 else f2)
      in (f3, shown))"

definition load_row :: "rep_env \<Rightarrow> u32 \<times> u32 \<times> u32 \<Rightarrow> reputation_mgr \<Rightarrow> reputation_mgr" where
  "load_row env row m =
     (case row of (i, standing, db) \<Rightarrow>
        (case re_store env i of
           None \<Rightarrow> m
         | Some e \<Rightarrow>
             if fe_reputationListID e < 0 then m
             else
               (let k = list_id e;
                    f = (case sm_find (rm_factions m) k of None \<Rightarrow> zero_state | Some f \<Rightarrow> f);
                    f0 = f\<lparr>fs_Standing := sint standing\<rparr>;
                    (f1, shown) = load_flags db f0;
                    m1 = (if shown then SendVisible env f1 m else m);
                    rank = ReputationToRank (wrap32 (GetBaseReputation env (Some e) + fs_Standing f1));
                    f2 = (if rank \<le> REP_HOSTILE then fs_SetAtWar True f1 else f1);
                    f3 = (if fs_Flags f2 = db then f2\<lparr>fs_needSend := False, fs_needSave := False\<rparr> else f2)
                in m1\<lparr>rm_factions := sm_put k f3 (rm_factions m1)\<rparr>)))"

definition LoadFromDB :: "rep_env \<Rightarrow> (u32 \<times> u32 \<times> u32) list \<Rightarrow> reputation_mgr \<Rightarrow> reputation_mgr" where
  "LoadFromDB env rows m = fold (load_row env) rows (Initialize env m)"

text \<open>The rows of one player; a changed state replaces the row of its faction.\<close>

definition SaveToDB :: "reputation_mgr \<Rightarrow> (u32, u32 \<times> u32) smap \<Rightarrow> reputation_mgr \<times> (u32, u32 \<times> u32) smap" where
  "SaveToDB m table =
     (m\<lparr>rm_factions := map (\<lambda>(k, f). (k, f\<lparr>fs_needSave := False\<rparr>)) (rm_factions m)\<rparr>,
      fold (\<lambda>f t. if fs_needSave f then sm_put (fs_ID f) (word_of_int (fs_Standing f), fs_Flags f) t else t)
        (map snd (rm_factions m)) table)"

section \<open>Ranks in numbers\<close>

lemma rank_bands:
  "ReputationToRank s =
     (if s \<ge> 42000 then REP_EXALTED else if s \<ge> 21000 then REP_REVERED else if s \<ge> 9000 then REP_HONORED
      else if s \<ge> 3000 then REP_FRIENDLY else if s \<ge> 0 then REP_NEUTRAL else if s \<ge> - 3000 then REP_UNFRIENDLY
      else if s \<ge> - 6000 then REP_HOSTILE else REP_HATED)"
  by (simp add: ReputationToRank_def PointsInRank_def rank_of_def Reputation_Cap_def)

lemma rank_mono: "s \<le> t \<Longrightarrow> ReputationToRank s \<le> ReputationToRank t"
  by (auto simp: rank_bands less_eq_reputation_rank_def)

section \<open>Flags, bit by bit\<close>

lemma flag_bits:
  "FACTION_FLAG_VISIBLE = 2 ^ 0" "FACTION_FLAG_AT_WAR = 2 ^ 1" "FACTION_FLAG_HIDDEN = 2 ^ 2"
  "FACTION_FLAG_INVISIBLE_FORCED = 2 ^ 3" "FACTION_FLAG_PEACE_FORCED = 2 ^ 4" "FACTION_FLAG_INACTIVE = 2 ^ 5"
  by (simp_all add: faction_flags)

lemma has_flag_bit: "has_flag (2 ^ n) f \<longleftrightarrow> bit (fs_Flags f) n"
  by (simp add: has_flag_def and_exp_eq_0_iff_not_bit)

lemma has_flag_bits:
  "has_flag FACTION_FLAG_VISIBLE f \<longleftrightarrow> bit (fs_Flags f) 0"
  "has_flag FACTION_FLAG_AT_WAR f \<longleftrightarrow> bit (fs_Flags f) 1"
  "has_flag FACTION_FLAG_PEACE_FORCED f \<longleftrightarrow> bit (fs_Flags f) 4"
  "has_flag FACTION_FLAG_INACTIVE f \<longleftrightarrow> bit (fs_Flags f) 5"
  unfolding flag_bits by (rule has_flag_bit)+

lemma is_hidden_bits: "is_hidden f \<longleftrightarrow> bit (fs_Flags f) 2 \<or> bit (fs_Flags f) 3"
proof -
  have "fs_Flags f AND (2 ^ 3 OR 2 ^ 2) = 0 \<longleftrightarrow> fs_Flags f AND 2 ^ 3 = 0 \<and> fs_Flags f AND 2 ^ 2 = 0"
    by (simp only: bit.conj_disj_distrib or_eq_0_iff)
  then show ?thesis by (simp only: is_hidden_def flag_bits and_exp_eq_0_iff_not_bit) blast
qed

lemma bit_or_exp: "n < 32 \<Longrightarrow> bit (x OR 2 ^ n :: u32) m \<longleftrightarrow> bit x m \<or> m = n"
  by (auto simp: bit_simps)

lemma bit_and_not_exp: "bit (x AND NOT (2 ^ n) :: u32) m \<longleftrightarrow> bit x m \<and> m \<noteq> n"
  by (auto simp: bit_simps dest: bit_imp_le_length)

text \<open>Only the three player-controlled bits ever differ from the default flags \<open>d\<close>, and the visible one
not for a hidden faction.\<close>

definition flags_ok :: "u32 \<Rightarrow> faction_state \<Rightarrow> bool" where
  "flags_ok d f \<longleftrightarrow>
     (\<forall>n. n \<noteq> 0 \<and> n \<noteq> 1 \<and> n \<noteq> 5 \<longrightarrow> bit (fs_Flags f) n = bit d n) \<and>
     (bit d 2 \<or> bit d 3 \<longrightarrow> bit (fs_Flags f) 0 = bit d 0)"

lemma flags_ok_touch [simp]: "fs_Flags (fs_touch fl f) = fl"
  by (simp add: fs_touch_def)

lemma fs_touch_other [simp]:
  "fs_Standing (fs_touch fl f) = fs_Standing f" "fs_ID (fs_touch fl f) = fs_ID f"
  "fs_ReputationListID (fs_touch fl f) = fs_ReputationListID f"
  by (simp_all add: fs_touch_def)

lemma flags_ok_set:
  assumes "flags_ok d f" and "n = 1 \<or> n = 5 \<or> n = 0 \<and> \<not> is_hidden f"
  shows "flags_ok d (fs_touch (fs_Flags f OR 2 ^ n) f)"
proof -
  have b: "bit (fs_Flags f OR 2 ^ n) m \<longleftrightarrow> bit (fs_Flags f) m \<or> m = n" for m
    using assms(2) by (intro bit_or_exp) auto
  show ?thesis
    using assms unfolding flags_ok_def flags_ok_touch b is_hidden_bits by auto
qed

lemma flags_ok_clear:
  assumes "flags_ok d f" and "n = 1 \<or> n = 5"
  shows "flags_ok d (fs_touch (fs_Flags f AND NOT (2 ^ n)) f)"
  using assms unfolding flags_ok_def flags_ok_touch bit_and_not_exp by auto

lemma flags_ok_consts:
  "flags_ok d f \<Longrightarrow> \<not> is_hidden f \<Longrightarrow> flags_ok d (fs_touch (fs_Flags f OR FACTION_FLAG_VISIBLE) f)"
  "flags_ok d f \<Longrightarrow> flags_ok d (fs_touch (fs_Flags f OR FACTION_FLAG_AT_WAR) f)"
  "flags_ok d f \<Longrightarrow> flags_ok d (fs_touch (fs_Flags f OR FACTION_FLAG_INACTIVE) f)"
  "flags_ok d f \<Longrightarrow> flags_ok d (fs_touch (fs_Flags f AND NOT FACTION_FLAG_AT_WAR) f)"
  "flags_ok d f \<Longrightarrow> flags_ok d (fs_touch (fs_Flags f AND NOT FACTION_FLAG_INACTIVE) f)"
  unfolding flag_bits by (rule flags_ok_set flags_ok_clear; simp)+

lemma flags_ok_visible: "flags_ok d f \<Longrightarrow> flags_ok d (fst (fs_SetVisible f))"
  by (simp add: fs_SetVisible_def flags_ok_consts)

lemma flags_ok_war: "flags_ok d f \<Longrightarrow> flags_ok d (fs_SetAtWar on f)"
  by (simp add: fs_SetAtWar_def flags_ok_consts)

lemma flags_ok_inactive: "flags_ok d f \<Longrightarrow> flags_ok d (fs_SetInactive on f)"
  by (simp add: fs_SetInactive_def flags_ok_consts)

lemma visible_peace:
  "has_flag FACTION_FLAG_PEACE_FORCED (fst (fs_SetVisible f)) = has_flag FACTION_FLAG_PEACE_FORCED f"
proof -
  have "bit (fs_Flags f OR FACTION_FLAG_VISIBLE) 4 = bit (fs_Flags f) 4"
    unfolding flag_bits by (subst bit_or_exp) simp_all
  then show ?thesis by (simp add: has_flag_bits(3) fs_SetVisible_def)
qed

lemma war_set:
  assumes "\<not> has_flag FACTION_FLAG_PEACE_FORCED f"
  shows "has_flag FACTION_FLAG_AT_WAR (fs_SetAtWar True f)"
proof -
  have "bit (fs_Flags f OR FACTION_FLAG_AT_WAR) 1"
    unfolding flag_bits by (subst bit_or_exp) simp_all
  then have "has_flag FACTION_FLAG_AT_WAR (fs_touch (fs_Flags f OR FACTION_FLAG_AT_WAR) f)"
    by (simp add: has_flag_bits(2))
  with assms show ?thesis by (simp add: fs_SetAtWar_def)
qed

lemma fs_other_fields [simp]:
  "fs_Standing (fst (fs_SetVisible f)) = fs_Standing f" "fs_ID (fst (fs_SetVisible f)) = fs_ID f"
  "fs_ReputationListID (fst (fs_SetVisible f)) = fs_ReputationListID f"
  "fs_Standing (fs_SetAtWar on f) = fs_Standing f" "fs_ID (fs_SetAtWar on f) = fs_ID f"
  "fs_ReputationListID (fs_SetAtWar on f) = fs_ReputationListID f"
  "fs_Standing (fs_SetInactive on f) = fs_Standing f" "fs_ID (fs_SetInactive on f) = fs_ID f"
  "fs_ReputationListID (fs_SetInactive on f) = fs_ReputationListID f"
  by (simp_all add: fs_SetVisible_def fs_SetAtWar_def fs_SetInactive_def)

section \<open>The invariant\<close>

definition rep_env_ok :: "rep_env \<Rightarrow> bool" where
  "rep_env_ok env \<longleftrightarrow>
     (\<forall>i e. re_store env i = Some e \<longrightarrow>
        fe_ID e = i \<and> fe_reputationListID e < 2147483648 \<and>
        Reputation_Bottom \<le> GetBaseReputation env (Some e) \<and> GetBaseReputation env (Some e) \<le> Reputation_Cap) \<and>
     (\<forall>i j e e'. re_store env i = Some e \<longrightarrow> re_store env j = Some e' \<longrightarrow> fe_reputationListID e \<ge> 0 \<longrightarrow>
        list_id e = list_id e' \<longrightarrow> e = e')"

definition fs_ok :: "rep_env \<Rightarrow> u32 \<Rightarrow> faction_state \<Rightarrow> bool" where
  "fs_ok env k f \<longleftrightarrow>
     (\<exists>i e. re_store env i = Some e \<and> fe_reputationListID e \<ge> 0 \<and> list_id e = k \<and> fs_ID f = fe_ID e \<and>
        fs_ReputationListID f = k \<and>
        Reputation_Bottom \<le> GetBaseReputation env (Some e) + fs_Standing f \<and>
        GetBaseReputation env (Some e) + fs_Standing f \<le> Reputation_Cap \<and>
        flags_ok (GetDefaultStateFlags env (Some e)) f)"

definition rep_inv :: "rep_env \<Rightarrow> reputation_mgr \<Rightarrow> bool" where
  "rep_inv env m \<longleftrightarrow>
     sm_ok (rm_factions m) \<and> (\<forall>k f. sm_find (rm_factions m) k = Some f \<longrightarrow> fs_ok env k f)"

lemma rep_inv_put: "rep_inv env m \<Longrightarrow> fs_ok env k f \<Longrightarrow> rm_factions m' = sm_put k f (rm_factions m) \<Longrightarrow> rep_inv env m'"
  by (simp add: rep_inv_def)

lemma rep_inv_same: "rm_factions m' = rm_factions m \<Longrightarrow> rep_inv env m' = rep_inv env m"
  by (simp add: rep_inv_def)

lemma rm_factions_send [simp]:
  "rm_factions (rm_send op bytes m) = rm_factions m" "rm_factions (SendVisible env f m) = rm_factions m"
  by (simp_all add: rm_send_def SendVisible_def)

lemma rm_factions_put_visible [simp]:
  "rm_factions (put_visible env k f m) = sm_put k (fst (fs_SetVisible f)) (rm_factions m)"
  by (simp add: put_visible_def Let_def case_prod_beta)

lemma fs_ok_visible: "fs_ok env k f \<Longrightarrow> fs_ok env k (fst (fs_SetVisible f))"
  unfolding fs_ok_def fs_other_fields by (blast intro: flags_ok_visible)

lemma fs_ok_war: "fs_ok env k f \<Longrightarrow> fs_ok env k (fs_SetAtWar on f)"
  unfolding fs_ok_def fs_other_fields by (blast intro: flags_ok_war)

lemma fs_ok_inactive: "fs_ok env k f \<Longrightarrow> fs_ok env k (fs_SetInactive on f)"
  unfolding fs_ok_def fs_other_fields by (blast intro: flags_ok_inactive)

lemma fs_ok_marks [simp]:
  "fs_ok env k (f\<lparr>fs_needSend := b\<rparr>) = fs_ok env k f" "fs_ok env k (f\<lparr>fs_needSave := b\<rparr>) = fs_ok env k f"
  by (simp_all add: fs_ok_def flags_ok_def)

lemma sm_put_twice [simp]: "sm_put k v (sm_put k u m) = sm_put k v m"
  by (induction m) auto

lemma clamp_range: "Reputation_Bottom \<le> clamp_standing s \<and> clamp_standing s \<le> Reputation_Cap"
  by (simp add: clamp_standing_def Reputation_Bottom_def Reputation_Cap_def)

text \<open>The state \<^verbatim>\<open>SetOneFactionReputation\<close> leaves for its faction.\<close>

definition one_state :: "rep_env \<Rightarrow> faction_entry \<Rightarrow> int \<Rightarrow> faction_state \<Rightarrow> faction_state" where
  "one_state env e s f =
     (let f2 = fst (fs_SetVisible (f\<lparr>fs_Standing := s - GetBaseReputation env (Some e), fs_needSend := True, fs_needSave := True\<rparr>))
      in if ReputationToRank s \<le> REP_HOSTILE then fs_SetAtWar True f2 else f2)"

definition wanted_standing :: "rep_env \<Rightarrow> faction_entry \<Rightarrow> int \<Rightarrow> bool \<Rightarrow> faction_state \<Rightarrow> int" where
  "wanted_standing env e s incremental f =
     clamp_standing (if incremental then wrap32 (s + wrap32 (fs_Standing f + GetBaseReputation env (Some e))) else s)"

lemma SetOne_factions:
  "sm_find (rm_factions m) (list_id e) = Some f \<Longrightarrow>
     fst (SetOneFactionReputation env e s inc m) \<and>
     rm_factions (snd (SetOneFactionReputation env e s inc m)) =
       sm_put (list_id e) (one_state env e (wanted_standing env e s inc f) f) (rm_factions m)"
  by (simp add: SetOneFactionReputation_def one_state_def wanted_standing_def Let_def)

lemma one_state_ok:
  assumes "rep_env_ok env" and "fs_ok env k f" and "re_store env i = Some e" and "list_id e = k"
    and "Reputation_Bottom \<le> s" and "s \<le> Reputation_Cap"
  shows "fs_ok env k (one_state env e s f)"
proof -
  obtain j e' where e': "re_store env j = Some e'" "fe_reputationListID e' \<ge> 0" "list_id e' = k"
    "fs_ID f = fe_ID e'" "fs_ReputationListID f = k" "flags_ok (GetDefaultStateFlags env (Some e')) f"
    using assms(2) unfolding fs_ok_def by blast
  have eq: "e' = e" using assms(1,3,4) e'(1-3) unfolding rep_env_ok_def by metis
  have "flags_ok (GetDefaultStateFlags env (Some e)) (f\<lparr>fs_Standing := s - GetBaseReputation env (Some e)\<rparr>)"
    using e'(6) unfolding eq flags_ok_def by simp
  then have "fs_ok env k (f\<lparr>fs_Standing := s - GetBaseReputation env (Some e)\<rparr>)"
    unfolding fs_ok_def using e'(2,4,5) assms(3-6) unfolding eq
    by (intro exI [of _ i] exI [of _ e] conjI) simp_all
  then have "fs_ok env k (f\<lparr>fs_Standing := s - GetBaseReputation env (Some e), fs_needSend := True, fs_needSave := True\<rparr>)"
    by simp
  then show ?thesis by (simp add: one_state_def Let_def fs_ok_visible fs_ok_war)
qed

lemma SetOne_inv:
  assumes "rep_env_ok env" and "rep_inv env m" and "re_store env i = Some e"
  shows "rep_inv env (snd (SetOneFactionReputation env e s inc m))"
proof (cases "sm_find (rm_factions m) (list_id e)")
  case None
  then show ?thesis using assms(2) by (simp add: SetOneFactionReputation_def)
next
  case (Some f)
  then have "fs_ok env (list_id e) f" using assms(2) by (simp add: rep_inv_def)
  then have "fs_ok env (list_id e) (one_state env e (wanted_standing env e s inc f) f)"
    using assms(1,3) clamp_range by (intro one_state_ok) (auto simp: wanted_standing_def)
  then show ?thesis using SetOne_factions [OF Some] by (intro rep_inv_put [OF assms(2)]) auto
qed

lemma spill_inv:
  assumes "rep_env_ok env"
  shows "rep_inv env m \<Longrightarrow> spill_loop env s inc slots m = Ok m' \<Longrightarrow> rep_inv env m'"
proof (induction slots arbitrary: m)
  case (Cons slot slots)
  obtain fac rate rank where slot: "slot = (fac, rate, rank)" by (cases slot)
  show ?case
  proof (cases "fac \<noteq> 0 \<and> rank_code (GetReputationRank env fac m) \<le> unat rank")
    case True
    then obtain e where e: "re_store env fac = Some e"
      using Cons.prems(2) by (auto simp: slot Let_def split: option.splits)
    have "rep_inv env (snd (SetOneFactionReputation env e (f_to_int32 (f_mul (f_int s) rate)) inc m))"
      by (rule SetOne_inv [OF assms Cons.prems(1) e])
    with Cons True e show ?thesis by (simp add: slot Let_def)
  next
    case False
    with Cons show ?thesis by (auto simp: slot Let_def split: if_splits)
  qed
qed simp

lemma sm_find_map_values: "sm_find (map (\<lambda>(k, v). (k, g v)) m) k = map_option g (sm_find m k)"
  unfolding sm_find_def by (induction m) auto

lemma sm_ok_map_values: "sm_ok (map (\<lambda>(k, v). (k, g v)) m) = sm_ok m"
  by (simp add: sm_ok_def case_prod_beta comp_def)

lemma rep_inv_clear: "rep_inv env m \<Longrightarrow> rep_inv env (m\<lparr>rm_factions := clear_send (rm_factions m)\<rparr>)"
  by (auto simp: rep_inv_def clear_send_def sm_find_map_values sm_ok_map_values)

lemma SendState_inv: "rep_inv env m \<Longrightarrow> rep_inv env (SendState f m)"
  using rep_inv_clear [of env m] by (simp add: SendState_def Let_def rep_inv_def)

lemma SetReputation_inv:
  assumes "rep_env_ok env" and "rep_inv env m" and "re_store env i = Some e"
    and "SetReputation env e s inc m = Ok (r, m')"
  shows "rep_inv env m'"
proof -
  obtain m1 where m1: "(case re_spillover env (fe_ID e) of None \<Rightarrow> Ok m
      | Some sp \<Rightarrow> spill_loop env s inc (spill_slots sp) m) = Ok m1"
    and rest: "(case sm_find (rm_factions m1) (list_id e) of None \<Rightarrow> Ok (False, m1)
      | Some f0 \<Rightarrow> (case SetOneFactionReputation env e s inc m1 of (res, m2) \<Rightarrow>
          (case sm_find (rm_factions m2) (list_id e) of None \<Rightarrow> Undefined | Some f \<Rightarrow> Ok (res, SendState f m2))))
        = (Ok (r, m') :: (unit, bool \<times> reputation_mgr) outcome)"
    using assms(4) unfolding SetReputation_def obind_Ok_iff by auto
  have i1: "rep_inv env m1"
    using m1 assms(2) spill_inv [OF assms(1,2)] by (auto split: option.splits)
  have "rep_inv env (snd (SetOneFactionReputation env e s inc m1))" by (rule SetOne_inv [OF assms(1) i1 assms(3)])
  with rest i1 SendState_inv show ?thesis by (auto simp: case_prod_beta split: option.splits)
qed


section \<open>The machine\<close>

inductive rep_step :: "rep_env \<Rightarrow> reputation_mgr \<Rightarrow> reputation_mgr \<Rightarrow> bool" for env where
  rep_set: "re_store env i = Some e \<Longrightarrow> SetReputation env e s inc m = Ok (r, m') \<Longrightarrow> rep_step env m m'"
| rep_visible: "rep_step env m (SetVisible env e m)"
| rep_war: "rep_step env m (SetAtWar k on m)"
| rep_inactive: "rep_step env m (SetInactive k on m)"
| rep_force: "rep_step env m (ApplyForceReaction i rank on m)"
| rep_initial: "rep_step env m (SendInitialReputations m)"
| rep_reactions: "rep_step env m (SendForceReactions m)"

lemma Initialize_fold_inv:
  assumes "rep_env_ok env"
  shows "sm_ok fs \<Longrightarrow> (\<And>k f. sm_find fs k = Some f \<Longrightarrow> fs_ok env k f) \<Longrightarrow>
    rep_inv env (m\<lparr>rm_factions := fold (\<lambda>i fs. case re_store env (of_nat i) of None \<Rightarrow> fs
        | Some e \<Rightarrow> if fe_reputationListID e \<ge> 0 then sm_put (list_id e) (new_faction env e) fs else fs) is fs\<rparr>)"
proof (induction "is" arbitrary: fs)
  case Nil
  then show ?case by (simp add: rep_inv_def)
next
  case (Cons i "is")
  have new: "fs_ok env (list_id e) (new_faction env e)" if "re_store env (of_nat i) = Some e" "fe_reputationListID e \<ge> 0" for e
    unfolding fs_ok_def using that assms
    by (intro exI [of _ "of_nat i"] exI [of _ e] conjI) (auto simp: new_faction_def flags_ok_def rep_env_ok_def)
  show ?case
    using Cons.prems new by (auto split: option.split intro!: Cons.IH split: if_splits)
qed

lemma Initialize_inv: "rep_env_ok env \<Longrightarrow> rep_inv env (Initialize env m)"
  unfolding Initialize_def by (rule Initialize_fold_inv) simp_all

lemma rep_step_inv:
  assumes "rep_env_ok env" and "rep_step env m m'" and "rep_inv env m"
  shows "rep_inv env m'"
  using assms(2)
proof cases
  case (rep_set i e s inc r)
  then show ?thesis using SetReputation_inv [OF assms(1,3)] by blast
next
  case (rep_visible e)
  then show ?thesis using assms(3)
    by (auto simp: SetVisible_def rep_inv_def fs_ok_visible split: option.split)
next
  case (rep_war k on)
  then show ?thesis using assms(3) by (auto simp: SetAtWar_def rep_inv_def fs_ok_war split: option.split)
next
  case (rep_inactive k on)
  then show ?thesis using assms(3) by (auto simp: SetInactive_def rep_inv_def fs_ok_inactive split: option.split)
next
  case (rep_force i rank on)
  then show ?thesis using assms(3) by (simp add: ApplyForceReaction_def rep_inv_def)
next
  case rep_initial
  then show ?thesis using rep_inv_clear [OF assms(3)]
    by (simp add: SendInitialReputations_def case_prod_beta rep_inv_def)
next
  case rep_reactions
  then show ?thesis using assms(3) by (simp add: SendForceReactions_def rep_inv_def)
qed

section \<open>Saving, loading and the life of a character\<close>

text \<open>The store answers only for the ids of its rows, and there is no faction 0.\<close>

definition rep_store_ok :: "rep_env \<Rightarrow> bool" where
  "rep_store_ok env \<longleftrightarrow> rep_env_ok env \<and> (\<forall>i e. re_store env i = Some e \<longrightarrow> i \<noteq> 0 \<and> unat i < re_rows env)"

definition rep_row_ok :: "rep_env \<Rightarrow> u32 \<Rightarrow> u32 \<Rightarrow> bool" where
  "rep_row_ok env i s \<longleftrightarrow>
     (\<exists>e. re_store env i = Some e \<and> fe_reputationListID e \<ge> 0 \<and>
        Reputation_Bottom \<le> GetBaseReputation env (Some e) + sint s \<and> GetBaseReputation env (Some e) + sint s \<le> Reputation_Cap)"

definition all_listed :: "rep_env \<Rightarrow> reputation_mgr \<Rightarrow> bool" where
  "all_listed env m \<longleftrightarrow>
     (\<forall>i e. re_store env i = Some e \<longrightarrow> fe_reputationListID e \<ge> 0 \<longrightarrow> sm_find (rm_factions m) (list_id e) \<noteq> None)"

definition init_faction :: "rep_env \<Rightarrow> nat \<Rightarrow> (u32, faction_state) smap \<Rightarrow> (u32, faction_state) smap" where
  "init_faction env i fs = (case re_store env (of_nat i) of None \<Rightarrow> fs
     | Some e \<Rightarrow> if fe_reputationListID e \<ge> 0 then sm_put (list_id e) (new_faction env e) fs else fs)"

lemma init_faction_keys:
  "sm_find (init_faction env i fs) k \<noteq> None \<longleftrightarrow> sm_find fs k \<noteq> None \<or>
     (\<exists>e. re_store env (of_nat i) = Some e \<and> fe_reputationListID e \<ge> 0 \<and> list_id e = k)"
  by (auto simp: init_faction_def split: option.split)

lemma Initialize_fold_keys:
  "sm_find (fold (init_faction env) is fs) k \<noteq> None \<longleftrightarrow> sm_find fs k \<noteq> None \<or>
     (\<exists>i \<in> set is. \<exists>e. re_store env (of_nat i) = Some e \<and> fe_reputationListID e \<ge> 0 \<and> list_id e = k)"
  by (induction "is" arbitrary: fs) (simp, simp only: fold_simps init_faction_keys list.set bex_simps, blast)

lemma Initialize_factions: "rm_factions (Initialize env m) = fold (init_faction env) [1..<re_rows env] []"
  by (simp add: Initialize_def init_faction_def [abs_def])

lemma Initialize_listed: "rep_store_ok env \<Longrightarrow> all_listed env (Initialize env m)"
  unfolding all_listed_def
proof (intro allI impI)
  fix i e assume ok: "rep_store_ok env" and e: "re_store env i = Some e" "fe_reputationListID e \<ge> 0"
  have "i \<noteq> 0" "unat i < re_rows env" using ok e(1) by (auto simp: rep_store_ok_def)
  then have "unat i \<in> set [1..<re_rows env]" by (simp add: unat_gt_0 Suc_le_eq)
  then show "sm_find (rm_factions (Initialize env m)) (list_id e) \<noteq> None"
    unfolding Initialize_factions Initialize_fold_keys using e by (intro disjI2 bexI [of _ "unat i"] exI [of _ e]) simp_all
qed

lemma load_flags_fields [simp]:
  "fs_Standing (fst (load_flags db f)) = fs_Standing f" "fs_ID (fst (load_flags db f)) = fs_ID f"
  "fs_ReputationListID (fst (load_flags db f)) = fs_ReputationListID f"
  by (simp_all add: load_flags_def Let_def case_prod_beta)

lemma flags_ok_load: "flags_ok d f \<Longrightarrow> flags_ok d (fst (load_flags db f))"
  by (simp add: load_flags_def Let_def case_prod_beta flags_ok_visible flags_ok_inactive flags_ok_war)

lemma fs_ok_load: "fs_ok env k f \<Longrightarrow> fs_ok env k (fst (load_flags db f))"
  unfolding fs_ok_def load_flags_fields by (blast intro: flags_ok_load)

lemma fs_ok_standing:
  assumes "rep_env_ok env" and "fs_ok env k f" and "re_store env i = Some e" and "list_id e = k"
    and "Reputation_Bottom \<le> GetBaseReputation env (Some e) + s" and "GetBaseReputation env (Some e) + s \<le> Reputation_Cap"
  shows "fs_ok env k (f\<lparr>fs_Standing := s\<rparr>)"
proof -
  obtain j e' where e': "re_store env j = Some e'" "fe_reputationListID e' \<ge> 0" "list_id e' = k"
    "fs_ID f = fe_ID e'" "fs_ReputationListID f = k" "flags_ok (GetDefaultStateFlags env (Some e')) f"
    using assms(2) unfolding fs_ok_def by blast
  have eq: "e' = e" using assms(1,3,4) e'(1-3) unfolding rep_env_ok_def by metis
  have "flags_ok (GetDefaultStateFlags env (Some e)) (f\<lparr>fs_Standing := s\<rparr>)" using e'(6) unfolding eq flags_ok_def by simp
  then show ?thesis
    unfolding fs_ok_def using e'(2,4,5) assms(3-6) unfolding eq by (intro exI [of _ i] exI [of _ e] conjI) simp_all
qed

lemma load_row_ok:
  assumes env: "rep_env_ok env" and inv: "rep_inv env m" and listed: "all_listed env m" and row: "rep_row_ok env i s"
  shows "rep_inv env (load_row env (i, s, db) m) \<and> all_listed env (load_row env (i, s, db) m)"
proof -
  obtain e where e: "re_store env i = Some e" "fe_reputationListID e \<ge> 0"
    "Reputation_Bottom \<le> GetBaseReputation env (Some e) + sint s" "GetBaseReputation env (Some e) + sint s \<le> Reputation_Cap"
    using row by (auto simp: rep_row_ok_def)
  obtain f where f: "sm_find (rm_factions m) (list_id e) = Some f" using listed e(1,2) by (auto simp: all_listed_def)
  have "fs_ok env (list_id e) f" using inv f by (simp add: rep_inv_def)
  then have "fs_ok env (list_id e) (f\<lparr>fs_Standing := sint s\<rparr>)" by (intro fs_ok_standing [OF env _ e(1) refl e(3,4)])
  then have l: "fs_ok env (list_id e) (fst (load_flags db (f\<lparr>fs_Standing := sint s\<rparr>)))" by (rule fs_ok_load)
  define f1 where "f1 = fst (load_flags db (f\<lparr>fs_Standing := sint s\<rparr>))"
  define f2 where "f2 = (if ReputationToRank (wrap32 (GetBaseReputation env (Some e) + fs_Standing f1)) \<le> REP_HOSTILE
    then fs_SetAtWar True f1 else f1)"
  define f3 where "f3 = (if fs_Flags f2 = db then f2\<lparr>fs_needSend := False, fs_needSave := False\<rparr> else f2)"
  have "fs_ok env (list_id e) f1" using l by (simp add: f1_def)
  then have "fs_ok env (list_id e) f2" by (simp add: f2_def fs_ok_war)
  then have ok3: "fs_ok env (list_id e) f3" by (simp add: f3_def)
  have "rm_factions (load_row env (i, s, db) m) = sm_put (list_id e) f3 (rm_factions m)"
    using e(1,2) f by (simp add: load_row_def Let_def case_prod_beta f1_def f2_def f3_def)
  note f3 = ok3 this
  have "rep_inv env (load_row env (i, s, db) m)" by (rule rep_inv_put [OF inv f3])
  moreover have "all_listed env (load_row env (i, s, db) m)" using listed by (simp add: all_listed_def f3(2))
  ultimately show ?thesis by simp
qed

lemma load_rows_ok:
  assumes env: "rep_env_ok env"
  shows "rep_inv env m \<Longrightarrow> all_listed env m \<Longrightarrow> \<forall>(i, s, db) \<in> set rows. rep_row_ok env i s \<Longrightarrow>
    rep_inv env (fold (load_row env) rows m) \<and> all_listed env (fold (load_row env) rows m)"
proof (induction rows arbitrary: m)
  case (Cons row rows)
  obtain i s db where row: "row = (i, s, db)" by (cases row)
  then have "rep_row_ok env i s" using Cons.prems(3) by simp
  then show ?case using load_row_ok [OF env Cons.prems(1,2)] Cons.IH Cons.prems(3) unfolding row by simp
qed simp

text \<open>
  The life of a character: besides the steps on the manager, its states are saved to the table
  \<^verbatim>\<open>character_reputation\<close>, and at a login a new manager is loaded from the rows, in any order. The
  standings are those of the table; the flags of the rows may be anything.
\<close>

inductive rep_life :: "rep_env \<Rightarrow> reputation_mgr \<times> (u32, u32 \<times> u32) smap \<Rightarrow> reputation_mgr \<times> (u32, u32 \<times> u32) smap \<Rightarrow> bool" for env where
  life_step: "rep_step env m m' \<Longrightarrow> rep_life env (m, t) (m', t)"
| life_save: "SaveToDB m t = (m', t') \<Longrightarrow> rep_life env (m, t) (m', t')"
| life_load: "(\<And>i s fl. (i, s, fl) \<in> set rows \<Longrightarrow> \<exists>fl'. sm_find t i = Some (s, fl')) \<Longrightarrow>
    rep_life env (m, t) (LoadFromDB (env\<lparr>re_loading := loading\<rparr>) rows m0, t)"

definition life_inv :: "rep_env \<Rightarrow> reputation_mgr \<times> (u32, u32 \<times> u32) smap \<Rightarrow> bool" where
  "life_inv env mt \<longleftrightarrow> rep_store_ok env \<and> rep_inv env (fst mt) \<and> all_listed env (fst mt) \<and>
     (\<forall>i s fl. sm_find (snd mt) i = Some (s, fl) \<longrightarrow> rep_row_ok env i s)"

lemma re_loading_irrelevant [simp]:
  "GetBaseReputation (env\<lparr>re_loading := b\<rparr>) fe = GetBaseReputation env fe"
  "GetDefaultStateFlags (env\<lparr>re_loading := b\<rparr>) fe = GetDefaultStateFlags env fe"
  by (simp_all add: GetBaseReputation_def GetDefaultStateFlags_def split: option.split)

lemma re_loading_props [simp]:
  "rep_env_ok (env\<lparr>re_loading := b\<rparr>) = rep_env_ok env" "rep_store_ok (env\<lparr>re_loading := b\<rparr>) = rep_store_ok env"
  "rep_inv (env\<lparr>re_loading := b\<rparr>) m = rep_inv env m" "all_listed (env\<lparr>re_loading := b\<rparr>) m = all_listed env m"
  "rep_row_ok (env\<lparr>re_loading := b\<rparr>) i s = rep_row_ok env i s"
  by (simp_all add: rep_env_ok_def rep_store_ok_def rep_inv_def fs_ok_def all_listed_def rep_row_ok_def)

lemma spill_keys: "sm_find (rm_factions m) k \<noteq> None \<Longrightarrow> spill_loop env s inc slots m = Ok m' \<Longrightarrow> sm_find (rm_factions m') k \<noteq> None"
proof (induction slots arbitrary: m)
  case (Cons slot slots)
  obtain fac rate rank where slot: "slot = (fac, rate, rank)" by (cases slot)
  have one: "sm_find (rm_factions (snd (SetOneFactionReputation env e x inc m))) k \<noteq> None" for e x
    using Cons.prems(1) SetOne_factions [of m e _ env x inc]
    by (cases "sm_find (rm_factions m) (list_id e)") (auto simp: SetOneFactionReputation_def)
  show ?case
  proof (cases "fac \<noteq> 0 \<and> rank_code (GetReputationRank env fac m) \<le> unat rank")
    case True
    then obtain e where e: "re_store env fac = Some e"
      using Cons.prems(2) by (auto simp: slot Let_def split: option.splits)
    show ?thesis
      by (rule Cons.IH [OF one [of e "f_to_int32 (f_mul (f_int s) rate)"]]) (use Cons.prems(2) True e in \<open>simp add: slot Let_def\<close>)
  next
    case False
    show ?thesis by (rule Cons.IH [OF Cons.prems(1)]) (use Cons.prems(2) False in \<open>auto simp: slot Let_def split: if_splits\<close>)
  qed
qed simp

lemma rep_step_keys:
  assumes "rep_step env m m'" and k: "sm_find (rm_factions m) k \<noteq> None"
  shows "sm_find (rm_factions m') k \<noteq> None"
  using assms(1)
proof cases
  case (rep_set i e s inc r)
  obtain m1 where m1: "(case re_spillover env (fe_ID e) of None \<Rightarrow> Ok m
      | Some sp \<Rightarrow> spill_loop env s inc (spill_slots sp) m) = Ok m1"
    and rest: "(case sm_find (rm_factions m1) (list_id e) of None \<Rightarrow> Ok (False, m1)
      | Some f0 \<Rightarrow> (case SetOneFactionReputation env e s inc m1 of (res, m2) \<Rightarrow>
          (case sm_find (rm_factions m2) (list_id e) of None \<Rightarrow> Undefined | Some f \<Rightarrow> Ok (res, SendState f m2))))
        = (Ok (r, m') :: (unit, bool \<times> reputation_mgr) outcome)"
    using rep_set(2) unfolding SetReputation_def obind_Ok_iff by auto
  have k1: "sm_find (rm_factions m1) k \<noteq> None"
    using m1 k spill_keys [OF k, of env s inc _ m1] by (cases "re_spillover env (fe_ID e)") simp_all
  have send: "sm_find (rm_factions (SendState f m2)) k \<noteq> None \<longleftrightarrow> sm_find (rm_factions m2) k \<noteq> None" for f m2
    by (simp add: SendState_def Let_def clear_send_def sm_find_map_values)
  show ?thesis
    using rest k1 send SetOne_factions [of m1 e _ env s inc] by (auto simp: case_prod_beta split: option.splits)
next
  case (rep_visible e)
  then show ?thesis using k by (auto simp: SetVisible_def split: option.split)
next
  case (rep_war x on)
  then show ?thesis using k by (auto simp: SetAtWar_def split: option.split)
next
  case (rep_inactive x on)
  then show ?thesis using k by (auto simp: SetInactive_def split: option.split)
next
  case (rep_force i rank on)
  then show ?thesis using k by (simp add: ApplyForceReaction_def)
next
  case rep_initial
  then show ?thesis using k by (simp add: SendInitialReputations_def case_prod_beta clear_send_def sm_find_map_values)
next
  case rep_reactions
  then show ?thesis using k by (simp add: SendForceReactions_def)
qed

lemma saved_row_ok:
  assumes env: "rep_env_ok env" and f: "fs_ok env k f"
  shows "rep_row_ok env (fs_ID f) (word_of_int (fs_Standing f))"
proof -
  obtain i e where e: "re_store env i = Some e" "fe_reputationListID e \<ge> 0" "fs_ID f = fe_ID e"
    "Reputation_Bottom \<le> GetBaseReputation env (Some e) + fs_Standing f"
    "GetBaseReputation env (Some e) + fs_Standing f \<le> Reputation_Cap"
    using f unfolding fs_ok_def by blast
  have i: "fe_ID e = i" "Reputation_Bottom \<le> GetBaseReputation env (Some e)" "GetBaseReputation env (Some e) \<le> Reputation_Cap"
    using env e(1) unfolding rep_env_ok_def by blast+
  have b: "- 2147483648 \<le> fs_Standing f" "fs_Standing f < 2147483648"
    using e(4,5) i(2,3) by (simp_all add: Reputation_Bottom_def Reputation_Cap_def)
  have "sint (word_of_int (fs_Standing f) :: u32) = fs_Standing f"
    using b by (simp add: sint_sbintrunc' signed_take_bit_int_eq_self)
  then show ?thesis using e i(1) by (auto simp: rep_row_ok_def)
qed

lemma save_fold_ok:
  "(\<forall>f \<in> set fs. rep_row_ok env (fs_ID f) (word_of_int (fs_Standing f))) \<Longrightarrow>
    (\<And>i s fl. sm_find t i = Some (s, fl) \<Longrightarrow> rep_row_ok env i s) \<Longrightarrow>
    sm_find (fold (\<lambda>f t. if fs_needSave f then sm_put (fs_ID f) (word_of_int (fs_Standing f), fs_Flags f) t else t) fs t) i = Some (s, fl) \<Longrightarrow>
    rep_row_ok env i s"
proof (induction fs arbitrary: t)
  case (Cons f fs)
  let ?t = "if fs_needSave f then sm_put (fs_ID f) (word_of_int (fs_Standing f), fs_Flags f) t else t"
  show ?case
  proof (rule Cons.IH [of ?t])
    show "rep_row_ok env j x" if "sm_find ?t j = Some (x, y)" for j x y
      using that Cons.prems(1,2) by (auto split: if_splits)
  qed (use Cons.prems in simp_all)
qed simp

lemma life_inv_step: "rep_life env mt mt' \<Longrightarrow> life_inv env mt \<Longrightarrow> life_inv env mt'"
proof (induction rule: rep_life.induct)
  case (life_step m m' t)
  then show ?case using rep_step_inv [of env m m'] rep_step_keys [of env m m']
    by (simp add: life_inv_def rep_store_ok_def all_listed_def)
next
  case (life_save m t m' t')
  then have inv: "rep_store_ok env" "rep_inv env m" "all_listed env m" "\<And>i s fl. sm_find t i = Some (s, fl) \<Longrightarrow> rep_row_ok env i s"
    by (auto simp: life_inv_def)
  have m': "m' = m\<lparr>rm_factions := map (\<lambda>(k, f). (k, f\<lparr>fs_needSave := False\<rparr>)) (rm_factions m)\<rparr>"
    and t': "t' = fold (\<lambda>f t. if fs_needSave f then sm_put (fs_ID f) (word_of_int (fs_Standing f), fs_Flags f) t else t)
        (map snd (rm_factions m)) t"
    using life_save(1) by (auto simp: SaveToDB_def)
  have "rep_inv env m'" "all_listed env m'"
    using inv(2,3) by (auto simp: rep_inv_def all_listed_def m' sm_find_map_values sm_ok_map_values)
  moreover have each: "\<forall>f \<in> set (map snd (rm_factions m)). rep_row_ok env (fs_ID f) (word_of_int (fs_Standing f))"
  proof
    fix f assume "f \<in> set (map snd (rm_factions m))"
    then obtain k where "(k, f) \<in> set (rm_factions m)" by auto
    then have "sm_find (rm_factions m) k = Some f" using inv(2) by (simp add: rep_inv_def sm_find_def sm_ok_distinct)
    then show "rep_row_ok env (fs_ID f) (word_of_int (fs_Standing f))"
      using inv(1,2) by (intro saved_row_ok) (auto simp: rep_inv_def rep_store_ok_def)
  qed
  moreover have "rep_row_ok env i s" if "sm_find t' i = Some (s, fl)" for i s fl
    by (rule save_fold_ok [OF each _ that [unfolded t']]) (rule inv(4))
  ultimately show ?case using inv(1) by (simp add: life_inv_def)
next
  case (life_load rows t m loading m0)
  let ?env = "env\<lparr>re_loading := loading\<rparr>"
  have inv: "rep_store_ok env" "\<And>i s fl. sm_find t i = Some (s, fl) \<Longrightarrow> rep_row_ok env i s"
    using life_load(2) by (auto simp: life_inv_def)
  have env: "rep_env_ok ?env" "rep_store_ok ?env" using inv(1) by (simp_all add: rep_store_ok_def)
  have rows: "\<forall>(i, s, db) \<in> set rows. rep_row_ok ?env i s" using life_load(1) inv(2) by fastforce
  show ?case
    using load_rows_ok [OF env(1) Initialize_inv [OF env(1)] Initialize_listed [OF env(2)] rows] inv
    by (simp add: life_inv_def LoadFromDB_def)
qed

definition life_start :: "rep_env \<Rightarrow> reputation_mgr \<times> (u32, u32 \<times> u32) smap \<Rightarrow> bool" where
  "life_start env mt \<longleftrightarrow> rep_store_ok env \<and> (\<exists>m0. mt = (Initialize env m0, []))"

lemma life_start_inv: "life_start env mt \<Longrightarrow> life_inv env mt"
  by (auto simp: life_start_def life_inv_def rep_store_ok_def Initialize_inv Initialize_listed)

interpretation life: machine "life_start env" "rep_life env" "life_inv env" for env
  by unfold_locales (auto intro: life_start_inv life_inv_step)

section \<open>The initial list\<close>

definition slot_bytes :: "(u32, faction_state) smap \<Rightarrow> nat \<Rightarrow> u8 list" where
  "slot_bytes fs i =
     (case sm_find fs (of_nat i) of None \<Rightarrow> 0 # p32 0 | Some f \<Rightarrow> ucast (fs_Flags f) # pint (fs_Standing f))"

lemma absent_slots_range:
  assumes "a \<le> b" and "b \<le> 64" and "\<And>i. a \<le> i \<Longrightarrow> i < b \<Longrightarrow> sm_find fs (of_nat i) = None"
  shows "absent_slots (of_nat a) (of_nat b) = concat (map (slot_bytes fs) [a..<b])"
proof -
  have u: "unat (of_nat n :: u32) = n" if "n \<le> 64" for n using that by (simp add: unat_of_nat_u32)
  have "unat (of_nat b - of_nat a :: u32) = b - a"
    using assms(1,2) u [of a] u [of b] by (simp add: unat_sub word_le_nat_alt)
  moreover have "map (slot_bytes fs) [a..<b] = replicate (b - a) (0 # p32 0)"
    using assms(3) by (intro replicate_eqI) (auto simp: slot_bytes_def)
  ultimately show ?thesis by (simp add: absent_slots_def)
qed

lemma initial_slots_spec:
  assumes "sm_ok fs" and "\<forall>(k, f) \<in> set fs. a \<le> unat k \<and> unat k < 64" and "a \<le> 64"
  shows "snd (initial_slots (of_nat a) fs) @ absent_slots (fst (initial_slots (of_nat a) fs)) 64 =
     concat (map (slot_bytes fs) [a..<64])"
  using assms
proof (induction fs arbitrary: a)
  case Nil
  then show ?case using absent_slots_range [of a 64 "[]"] by simp
next
  case (Cons e fs)
  obtain k f where e: "e = (k, f)" by (cases e)
  let ?n = "unat k"
  have n: "a \<le> ?n" "?n < 64" using Cons.prems(2) by (auto simp: e)
  have above: "\<forall>(k', f') \<in> set fs. Suc ?n \<le> unat k' \<and> unat k' < 64"
  proof clarify
    fix k' f' assume "(k', f') \<in> set fs"
    then show "Suc ?n \<le> unat k' \<and> unat k' < 64"
      using Cons.prems(1,2) by (force simp: e word_less_nat_alt)
  qed
  have ih: "snd (initial_slots (of_nat (Suc ?n)) fs) @ absent_slots (fst (initial_slots (of_nat (Suc ?n)) fs)) 64 =
      concat (map (slot_bytes fs) [Suc ?n..<64])"
    using Cons.prems(1) above n by (intro Cons.IH) (auto simp: e)
  have none: "sm_find (e # fs) (of_nat i) = None" if "a \<le> i" "i < ?n" for i
  proof -
    have ui: "unat (of_nat i :: u32) = i" using that n by (simp add: unat_of_nat_u32)
    have "\<not> sm_has (e # fs) (of_nat i)"
      using above that by (auto simp: sm_has_iff_key e word_unat_eq_iff ui)
    then show ?thesis by (simp add: sm_has_def)
  qed
  have abs: "absent_slots (of_nat a) k = concat (map (slot_bytes (e # fs)) [a..<?n])"
    using absent_slots_range [of a ?n "e # fs"] n none by simp
  have same: "map (slot_bytes fs) [Suc ?n..<64] = map (slot_bytes (e # fs)) [Suc ?n..<64]"
  proof (rule map_cong [OF refl])
    fix i assume "i \<in> set [Suc ?n..<64]"
    then have "(of_nat i :: u32) \<noteq> k" by (auto simp: word_unat_eq_iff unat_of_nat_u32)
    then show "slot_bytes fs i = slot_bytes (e # fs) i" by (simp add: slot_bytes_def sm_find_def e)
  qed
  have here: "slot_bytes (e # fs) ?n = ucast (fs_Flags f) # pint (fs_Standing f)"
    by (simp add: slot_bytes_def sm_find_def e)
  have "[a..<64] = [a..<?n] @ ?n # [Suc ?n..<64]"
    using n by (metis upt_conv_Cons upt_add_eq_append le_add_diff_inverse less_imp_le)
  then show ?case
    using ih by (simp add: e [symmetric]) (simp add: e case_prod_beta abs [unfolded e] here [unfolded e] same [unfolded e] add.commute)
qed


section \<open>A sample player\<close>

text \<open>Two factions whose spillover reaches each other, one of them with a base reputation.\<close>

definition rep_faction :: "u32 \<Rightarrow> int \<Rightarrow> int \<Rightarrow> u32 \<Rightarrow> faction_entry" where
  "rep_faction i lid base fl =
     \<lparr>fe_ID = i, fe_reputationListID = lid, fe_raceMask = [0, 0, 0, 0], fe_classMask = [0, 0, 0, 0],
      fe_baseValue = [base, 0, 0, 0], fe_flags = [fl, 0, 0, 0]\<rparr>"

definition env0 :: rep_env where
  "env0 = \<lparr>re_store = (\<lambda>i. if i = 1 then Some (rep_faction 1 5 3000 0x11) else if i = 2 then Some (rep_faction 2 9 0 0)
               else if i = 3 then Some (rep_faction 3 12 0 0x04) else None),
     re_rows = 4,
     re_spillover = (\<lambda>i. if i = 1 then Some \<lparr>sp_faction = [2, 0, 0, 0], sp_rate = [Fin (1 / 2), Fin 0, Fin 0, Fin 0],
        sp_rank = [7, 0, 0, 0]\<rparr> else None),
     re_raceMask = 1, re_classMask = 1, re_loading = False\<rparr>"

definition mgr0 :: reputation_mgr where
  "mgr0 = Initialize env0 \<lparr>rm_factions = [], rm_forced = [], rm_out = []\<rparr>"

definition mgr1 :: reputation_mgr where
  "mgr1 = (case SetReputation env0 (rep_faction 1 5 3000 0x11) 50000 True mgr0 of
             Ok (r, m) \<Rightarrow> m | _ \<Rightarrow> mgr0)"

lemma env0_ok: "rep_env_ok env0"
proof -
  have "GetBaseReputation env0 (Some (rep_faction i lid base fl)) = base" for i lid base fl
    by (simp add: GetBaseReputation_def GetIndexFitTo_def rep_faction_def)
  then show ?thesis
    by (auto simp: rep_env_ok_def env0_def Reputation_Cap_def Reputation_Bottom_def split: if_splits)
      (auto simp: rep_faction_def list_id_def)
qed

lemma mgr1_step: "rep_step env0 mgr0 mgr1"
proof -
  have "(case SetReputation env0 (rep_faction 1 5 3000 0x11) 50000 True mgr0 of Ok x \<Rightarrow> True | _ \<Rightarrow> False)"
    by code_simp
  then obtain r m where "SetReputation env0 (rep_faction 1 5 3000 0x11) 50000 True mgr0 = Ok (r, m)"
    by (cases "SetReputation env0 (rep_faction 1 5 3000 0x11) 50000 True mgr0") auto
  then show ?thesis
    by (intro rep_set [of env0 1]) (auto simp: env0_def mgr1_def)
qed

text \<open>A sample life: a change, the save, and a login with rows whose flags have been tampered with.\<close>

lemma env0_store_ok: "rep_store_ok env0"
  by (auto simp: rep_store_ok_def env0_ok) (auto simp: env0_def split: if_splits)

definition no_mgr :: reputation_mgr where "no_mgr = \<lparr>rm_factions = [], rm_forced = [], rm_out = []\<rparr>"

definition table1 :: "(u32, u32 \<times> u32) smap" where "table1 = snd (SaveToDB mgr1 [])"

definition rows1 :: "(u32 \<times> u32 \<times> u32) list" where
  "rows1 = map (\<lambda>(i, s, fl). (i, s, fl OR 0x21)) table1"

definition mgr3 :: reputation_mgr where
  "mgr3 = LoadFromDB (env0\<lparr>re_loading := True\<rparr>) rows1 no_mgr"

lemma mgr3_life: "(rep_life env0)\<^sup>*\<^sup>* (Initialize env0 no_mgr, []) (mgr3, table1)"
proof -
  have 1: "rep_life env0 (Initialize env0 no_mgr, []) (mgr1, [])"
    using life_step [OF mgr1_step] by (simp add: mgr0_def no_mgr_def)
  have 2: "rep_life env0 (mgr1, []) (fst (SaveToDB mgr1 []), table1)"
    by (rule life_save) (simp add: table1_def)
  have "list_all (\<lambda>(i, s, fl). case sm_find table1 i of None \<Rightarrow> False | Some (s', fl') \<Rightarrow> s' = s) rows1" by code_simp
  then have rows: "\<exists>fl'. sm_find table1 i = Some (s, fl')" if "(i, s, fl) \<in> set rows1" for i s fl
    using that by (fastforce simp: list_all_iff split: option.splits)
  have 3: "rep_life env0 (fst (SaveToDB mgr1 []), table1) (mgr3, table1)"
    unfolding mgr3_def by (rule life_load [OF rows])
  show ?thesis by (meson 1 2 3 converse_rtranclp_into_rtranclp rtranclp.rtrancl_refl)
qed

section \<open>Properties\<close>

text \<open>The rank of a standing is the band it lies in: the loop that subtracts the points of each rank
from the cap computes the thresholds of the game, for every \<open>int32\<close> and beyond the caps too.\<close>

theorem reputation_rank_bands:
  "ReputationToRank s =
     (if s \<ge> 42000 then REP_EXALTED else if s \<ge> 21000 then REP_REVERED else if s \<ge> 9000 then REP_HONORED
      else if s \<ge> 3000 then REP_FRIENDLY else if s \<ge> 0 then REP_NEUTRAL else if s \<ge> - 3000 then REP_UNFRIENDLY
      else if s \<ge> - 6000 then REP_HOSTILE else REP_HATED)"
  by (rule rank_bands)

text \<open>C8: Reputations stay within bounds. The faction store is well formed: an id it answers for is not 0,
is in its range and is the id of the row, no two factions share a list id, list ids are below
\<open>2 ^ 31\<close>, and the player's base reputations are within the bounds. From the first login of a
character, after any sequence of changes with their spillover, war and visibility settings, and of
saving and loading (from rows with these standings and any flags), the reputation with every
faction is between -42000 and 42999; with a faction that is tracked it is exactly the base plus the
standing, so the 32-bit sum does not wrap; and every state is one of the faction whose list id it
is stored under.\<close>

theorem reputation_bounded:
  assumes "rep_store_ok env" and "(rep_life env)\<^sup>*\<^sup>* (Initialize env m0, []) (m, t)" and "re_store env i = Some e"
  shows "- 42000 \<le> GetReputation env (Some e) m \<and> GetReputation env (Some e) m \<le> 42999 \<and>
    (\<forall>f. GetState e m = Some f \<longrightarrow> GetReputation env (Some e) m = GetBaseReputation env (Some e) + fs_Standing f) \<and>
    (\<forall>k f. sm_find (rm_factions m) k = Some f \<longrightarrow> fs_ReputationListID f = k \<and>
       (\<exists>e'. re_store env (fs_ID f) = Some e' \<and> fe_reputationListID e' \<ge> 0 \<and> list_id e' = k))"
proof -
  have env: "rep_env_ok env" using assms(1) by (simp add: rep_store_ok_def)
  have "life_inv env (m, t)" by (rule life.inv_reachable [OF _ assms(2)]) (auto simp: life_start_def assms(1))
  then have inv: "rep_inv env m" by (simp add: life_inv_def)
  have sum: "GetReputation env (Some e) m = GetBaseReputation env (Some e) + fs_Standing f \<and>
      - 42000 \<le> GetReputation env (Some e) m \<and> GetReputation env (Some e) m \<le> 42999" if s: "GetState e m = Some f" for f
  proof -
    have f: "fe_reputationListID e \<ge> 0" "sm_find (rm_factions m) (list_id e) = Some f"
      using s by (auto simp: GetState_def split: if_splits)
    have "fs_ok env (list_id e) f" using inv f(2) by (simp add: rep_inv_def)
    then obtain j e' where e': "re_store env j = Some e'" "fe_reputationListID e' \<ge> 0" "list_id e' = list_id e"
      "Reputation_Bottom \<le> GetBaseReputation env (Some e') + fs_Standing f"
      "GetBaseReputation env (Some e') + fs_Standing f \<le> Reputation_Cap"
      unfolding fs_ok_def by blast
    then have "e' = e" using env assms(3) unfolding rep_env_ok_def by metis
    then have "- 42000 \<le> GetBaseReputation env (Some e) + fs_Standing f"
      "GetBaseReputation env (Some e) + fs_Standing f \<le> 42999"
      using e' by (simp_all add: Reputation_Bottom_def Reputation_Cap_def)
    then show ?thesis using s by (simp add: GetReputation_def in_int32_def)
  qed
  have ids: "fs_ReputationListID f = k \<and> (\<exists>e'. re_store env (fs_ID f) = Some e' \<and> fe_reputationListID e' \<ge> 0 \<and> list_id e' = k)"
    if "sm_find (rm_factions m) k = Some f" for k f
  proof -
    have "fs_ok env k f" using inv that by (simp add: rep_inv_def)
    then show ?thesis using env unfolding fs_ok_def rep_env_ok_def by metis
  qed
  have "- 42000 \<le> GetReputation env (Some e) m \<and> GetReputation env (Some e) m \<le> 42999"
    using sum by (cases "GetState e m") (simp_all add: GetReputation_def)
  then show ?thesis using sum ids by blast
qed

lemma reputation_bounded_witness:
  "GetReputation env0 (Some (rep_faction 1 5 3000 0x11)) mgr3 = 42999 \<and>
   GetReputation env0 (Some (rep_faction 2 9 0 0)) mgr3 = 25000 \<and>
   GetReputation env0 (Some (rep_faction 2 9 0 0)) mgr3 \<le> 42999"
proof -
  have "re_store env0 2 = Some (rep_faction 2 9 0 0)" by (simp add: env0_def)
  moreover have "GetReputation env0 (Some (rep_faction 1 5 3000 0x11)) mgr3 = 42999"
    "GetReputation env0 (Some (rep_faction 2 9 0 0)) mgr3 = 25000" by code_simp+
  ultimately show ?thesis using reputation_bounded [OF env0_store_ok mgr3_life] by blast
qed

text \<open>C34: A hidden faction stays hidden. Over any life of a character as for the bounds, on a well-formed faction
store, each faction with a list id has a state, whose flags differ from the defaults only in the
visible, at-war and inactive bits, and the visible bit of a faction that is hidden or forced
invisible is what it was by default, also when the flags of the rows it is loaded from have it
visible.\<close>

theorem hidden_factions_stay_hidden:
  assumes "rep_store_ok env" and "(rep_life env)\<^sup>*\<^sup>* (Initialize env m0, []) (m, t)"
    and "re_store env i = Some e" and "fe_reputationListID e \<ge> 0"
  shows "\<exists>f. sm_find (rm_factions m) (list_id e) = Some f \<and> flags_ok (GetDefaultStateFlags env (Some e)) f"
proof -
  have env: "rep_env_ok env" using assms(1) by (simp add: rep_store_ok_def)
  have "life_inv env (m, t)" by (rule life.inv_reachable [OF _ assms(2)]) (auto simp: life_start_def assms(1))
  then have inv: "rep_inv env m" "all_listed env m" by (simp_all add: life_inv_def)
  obtain f where f: "sm_find (rm_factions m) (list_id e) = Some f" using inv(2) assms(3,4) by (auto simp: all_listed_def)
  then have "fs_ok env (list_id e) f" using inv(1) by (simp add: rep_inv_def)
  then obtain j e' where e': "re_store env j = Some e'" "fe_reputationListID e' \<ge> 0" "list_id e' = list_id e"
    "flags_ok (GetDefaultStateFlags env (Some e')) f"
    unfolding fs_ok_def by blast
  then have "e' = e" using env assms(3) unfolding rep_env_ok_def by metis
  with f e' show ?thesis by simp
qed

lemma hidden_factions_stay_hidden_witness:
  "\<exists>f. sm_find (rm_factions mgr3) 12 = Some f \<and> flags_ok 4 f \<and> \<not> bit (fs_Flags f) 0 \<and>
     (\<exists>s fl. (3, s, fl) \<in> set rows1 \<and> bit fl 0)"
proof -
  have e: "re_store env0 3 = Some (rep_faction 3 12 0 0x04)" "fe_reputationListID (rep_faction 3 12 0 0x04) \<ge> 0"
    by (simp_all add: env0_def rep_faction_def)
  have l: "list_id (rep_faction 3 12 0 0x04) = 12" by (simp add: list_id_def rep_faction_def)
  have d: "GetDefaultStateFlags env0 (Some (rep_faction 3 12 0 0x04)) = 4" by code_simp
  obtain f where f: "sm_find (rm_factions mgr3) 12 = Some f" "flags_ok 4 f"
    using hidden_factions_stay_hidden [OF env0_store_ok mgr3_life e] unfolding l d by blast
  have "bit (fs_Flags f) 0 = bit (4 :: u32) 0" using f(2) by (simp add: flags_ok_def bit_simps)
  moreover have "list_ex (\<lambda>(i, s, fl). i = 3 \<and> bit fl 0) rows1" by code_simp
  then have "\<exists>s fl. (3, s, fl) \<in> set rows1 \<and> bit fl 0" by (auto simp: list_ex_iff)
  ultimately show ?thesis using f by (simp add: bit_simps)
qed

text \<open>What one change does to its faction: the reputation becomes the wanted value, added to the old
one or not, and clamped; the state is marked for the client and the database; a hostile or hated
result declares war unless peace is forced; every other faction is untouched.\<close>

theorem set_one_reputation_effect:
  assumes "sm_find (rm_factions m) (list_id e) = Some f" and "fe_reputationListID e \<ge> 0"
  shows "\<exists>f'. SetOneFactionReputation env e s inc m = (True, snd (SetOneFactionReputation env e s inc m)) \<and>
     sm_find (rm_factions (snd (SetOneFactionReputation env e s inc m))) (list_id e) = Some f' \<and>
     GetReputation env (Some e) (snd (SetOneFactionReputation env e s inc m)) = wanted_standing env e s inc f \<and>
     fs_needSend f' \<and> fs_needSave f' \<and>
     (wanted_standing env e s inc f < - 3000 \<and> \<not> has_flag FACTION_FLAG_PEACE_FORCED f \<longrightarrow> has_flag FACTION_FLAG_AT_WAR f') \<and>
     (\<forall>k. k \<noteq> list_id e \<longrightarrow>
        sm_find (rm_factions (snd (SetOneFactionReputation env e s inc m))) k = sm_find (rm_factions m) k)"
proof -
  let ?s = "wanted_standing env e s inc f" and ?m = "snd (SetOneFactionReputation env e s inc m)"
  let ?f = "one_state env e ?s f"
  note S = SetOne_factions [OF assms(1), of env s inc]
  have find: "sm_find (rm_factions ?m) (list_id e) = Some ?f" using S by simp
  have st: "fs_Standing ?f = ?s - GetBaseReputation env (Some e)" by (simp add: one_state_def Let_def)
  have "in_int32 ?s" using clamp_range [of "if inc then wrap32 (s + wrap32 (fs_Standing f + GetBaseReputation env (Some e))) else s"]
    by (simp add: wanted_standing_def Reputation_Bottom_def Reputation_Cap_def in_int32_def)
  then have rep: "GetReputation env (Some e) ?m = ?s"
    using find assms(2) by (simp add: GetReputation_def GetState_def st)
  have marks: "fs_needSend ?f \<and> fs_needSave ?f"
    by (simp add: one_state_def Let_def fs_SetVisible_def fs_SetAtWar_def fs_touch_def)
  have war: "has_flag FACTION_FLAG_AT_WAR ?f" if "?s < - 3000" "\<not> has_flag FACTION_FLAG_PEACE_FORCED f"
  proof -
    have hostile: "ReputationToRank ?s \<le> REP_HOSTILE" using that(1) by (auto simp: rank_bands less_eq_reputation_rank_def)
    let ?f2 = "fst (fs_SetVisible (f\<lparr>fs_Standing := ?s - GetBaseReputation env (Some e), fs_needSend := True, fs_needSave := True\<rparr>))"
    have peace: "\<not> has_flag FACTION_FLAG_PEACE_FORCED ?f2"
      using that(2) unfolding visible_peace by (simp add: has_flag_def)
    have "has_flag FACTION_FLAG_AT_WAR (fs_SetAtWar True ?f2)"
      by (rule war_set [OF peace])
    then show ?thesis using hostile by (simp add: one_state_def Let_def)
  qed
  have eq: "SetOneFactionReputation env e s inc m = (True, ?m)" using S by (simp add: prod_eq_iff)
  show ?thesis using find rep marks war S eq by (intro exI [of _ ?f]) auto
qed

lemma set_one_reputation_effect_witness:
  "\<exists>f'. sm_find (rm_factions (snd (SetOneFactionReputation env0 (rep_faction 2 9 0 0) (- 4000) True mgr0))) 9 = Some f' \<and>
     has_flag FACTION_FLAG_AT_WAR f' \<and>
     GetReputation env0 (Some (rep_faction 2 9 0 0)) (snd (SetOneFactionReputation env0 (rep_faction 2 9 0 0) (- 4000) True mgr0)) = - 4000"
proof -
  have l: "list_id (rep_faction 2 9 0 0) = 9" "fe_reputationListID (rep_faction 2 9 0 0) \<ge> 0"
    by (simp_all add: list_id_def rep_faction_def)
  have f: "sm_find (rm_factions mgr0) (list_id (rep_faction 2 9 0 0)) = Some (new_faction env0 (rep_faction 2 9 0 0))"
    by code_simp
  have "wanted_standing env0 (rep_faction 2 9 0 0) (- 4000) True (new_faction env0 (rep_faction 2 9 0 0)) = - 4000"
    "\<not> has_flag FACTION_FLAG_PEACE_FORCED (new_faction env0 (rep_faction 2 9 0 0))" by code_simp+
  with set_one_reputation_effect [OF f l(2), of env0 "- 4000" True] show ?thesis
    unfolding l by auto
qed

text \<open>\<^verbatim>\<open>SetAtWar\<close> ranks the relative standing, without the base reputation: with a base of 3000 a player
who is hostile but not hated can declare war on a faction that forces peace.\<close>

lemma peace_ignores_base:
  "let m = snd (SetOneFactionReputation env0 (rep_faction 1 5 3000 0x11) (- 5000) False mgr0)
   in GetRank env0 (Some (rep_faction 1 5 3000 0x11)) m = REP_HOSTILE \<and>
      map_option (has_flag FACTION_FLAG_AT_WAR) (sm_find (rm_factions m) 5) = Some True"
  by code_simp

text \<open>The initial reputation packet has 64 slots of five bytes, whatever factions are tracked: slot
\<open>i\<close> holds the flags and the standing of the faction with list id \<open>i\<close>, and zeros if there is
none. In particular the loops that fill the gaps end, provided the list ids are below 64.\<close>

theorem initial_reputations_layout:
  assumes "sm_ok (rm_factions m)" and "\<forall>(k, f) \<in> set (rm_factions m). unat k < 64"
  shows "rm_out (SendInitialReputations m) =
     rm_out m @ [(SMSG_INITIALIZE_FACTIONS, p32 0x40 @ concat (map (slot_bytes (rm_factions m)) [0..<64]))]"
  using initial_slots_spec [of "rm_factions m" 0] assms
  by (simp add: SendInitialReputations_def case_prod_beta rm_send_def)

lemma initial_reputations_layout_witness:
  "map fst (rm_factions mgr0) = [5, 9, 12] \<and>
   rm_out (SendInitialReputations mgr0) =
     rm_out mgr0 @ [(SMSG_INITIALIZE_FACTIONS, p32 0x40 @ concat (map (slot_bytes (rm_factions mgr0)) [0..<64]))]"
proof -
  have k: "map fst (rm_factions mgr0) = [5, 9, 12]" by code_simp
  then have "sm_ok (rm_factions mgr0)" by (simp add: sm_ok_def)
  moreover have "\<forall>k \<in> set (map fst (rm_factions mgr0)). unat k < 64" unfolding k by simp
  ultimately show ?thesis using initial_reputations_layout [of mgr0] k by (auto simp: case_prod_beta)
qed

end
