(* ===== verification/Social.thy ===== *)
theory Social
  imports Guids
begin

text \<open>
  Friend and ignore lists: \<^verbatim>\<open>src/game/SocialMgr.{h,cpp}\<close> and the five client requests that
  change or read them in \<^verbatim>\<open>src/game/Handlers/MiscHandler.cpp\<close>. The state is the manager's
  map from player to social list, the database table \<^verbatim>\<open>character_social\<close> and the packets
  sent; the players online, the name cache and the configuration are a record of what the
  code reads. The table is a list of rows, so that the SQL statements act on it as written.
\<close>

section \<open>Data\<close>

datatype friend_status =
  FRIEND_STATUS_OFFLINE | FRIEND_STATUS_ONLINE | FRIEND_STATUS_AFK | FRIEND_STATUS_UNK3 | FRIEND_STATUS_DND

primrec status_code :: "friend_status \<Rightarrow> u8" where
  "status_code FRIEND_STATUS_OFFLINE = 0"
| "status_code FRIEND_STATUS_ONLINE = 1"
| "status_code FRIEND_STATUS_AFK = 2"
| "status_code FRIEND_STATUS_UNK3 = 3"
| "status_code FRIEND_STATUS_DND = 4"

definition SOCIAL_FLAG_FRIEND :: u32 where "SOCIAL_FLAG_FRIEND = 0x01"
definition SOCIAL_FLAG_IGNORED :: u32 where "SOCIAL_FLAG_IGNORED = 0x02"
definition SOCIALMGR_FRIEND_LIMIT :: u32 where "SOCIALMGR_FRIEND_LIMIT = 50"
definition SOCIALMGR_IGNORE_LIMIT :: u32 where "SOCIALMGR_IGNORE_LIMIT = 25"

record friend_info =
  fi_Status :: friend_status
  fi_Flags :: u32
  fi_Area :: u32
  fi_Level :: u32
  fi_Class :: u32

definition FriendInfo :: "u32 \<Rightarrow> friend_info" where
  "FriendInfo flags =
     \<lparr>fi_Status = FRIEND_STATUS_OFFLINE, fi_Flags = flags, fi_Area = 0, fi_Level = 0, fi_Class = 0\<rparr>"

text \<open>The results of a request the code sends back, with their protocol numbers.\<close>

datatype friends_result =
  FRIEND_LIST_FULL | FRIEND_ONLINE | FRIEND_OFFLINE | FRIEND_NOT_FOUND | FRIEND_REMOVED
| FRIEND_ADDED_ONLINE | FRIEND_ADDED_OFFLINE | FRIEND_ALREADY | FRIEND_SELF | FRIEND_ENEMY
| FRIEND_IGNORE_FULL | FRIEND_IGNORE_SELF | FRIEND_IGNORE_NOT_FOUND | FRIEND_IGNORE_ALREADY
| FRIEND_IGNORE_ADDED | FRIEND_IGNORE_REMOVED

primrec result_code :: "friends_result \<Rightarrow> u8" where
  "result_code FRIEND_LIST_FULL = 0x01"
| "result_code FRIEND_ONLINE = 0x02"
| "result_code FRIEND_OFFLINE = 0x03"
| "result_code FRIEND_NOT_FOUND = 0x04"
| "result_code FRIEND_REMOVED = 0x05"
| "result_code FRIEND_ADDED_ONLINE = 0x06"
| "result_code FRIEND_ADDED_OFFLINE = 0x07"
| "result_code FRIEND_ALREADY = 0x08"
| "result_code FRIEND_SELF = 0x09"
| "result_code FRIEND_ENEMY = 0x0A"
| "result_code FRIEND_IGNORE_FULL = 0x0B"
| "result_code FRIEND_IGNORE_SELF = 0x0C"
| "result_code FRIEND_IGNORE_NOT_FOUND = 0x0D"
| "result_code FRIEND_IGNORE_ALREADY = 0x0E"
| "result_code FRIEND_IGNORE_ADDED = 0x0F"
| "result_code FRIEND_IGNORE_REMOVED = 0x10"

type_synonym player_social_map = "(u32, friend_info) smap"

text \<open>\<^verbatim>\<open>m_masterPlayer\<close> is the low GUID of the player the pointer was set to, if it was.\<close>

record player_social =
  ps_lowGuid :: u32
  ps_map :: player_social_map
  ps_master :: "u32 option"

definition PlayerSocial_new :: player_social where
  "PlayerSocial_new = \<lparr>ps_lowGuid = 0, ps_map = [], ps_master = None\<rparr>"

text \<open>What the code reads of a \<^verbatim>\<open>MasterPlayer\<close> and of its session.\<close>

record master_player =
  mp_guid :: u32
  mp_team :: u32
  mp_security :: u32
  mp_afk :: bool
  mp_dnd :: bool
  mp_zone :: u32
  mp_level :: u32
  mp_class :: u32
  mp_gm_rank :: u32

text \<open>
  The players online by low GUID, the configuration, and two look-ups the handlers make: the
  normal form of a name, and the GUID and team the name cache holds for it.
\<close>

record social_env =
  se_player :: "u32 \<Rightarrow> master_player option"
  se_two_side_who :: bool
  se_gm_level_in_who :: u32
  se_two_side_friend :: bool
  se_normalize :: "u8 list \<Rightarrow> u8 list option"
  se_cache :: "u8 list \<Rightarrow> (u32 \<times> u32) option"

text \<open>Rows of \<^verbatim>\<open>character_social\<close>: guid, friend, flags.\<close>

type_synonym social_table = "(u32 \<times> u32 \<times> u32) list"

datatype social_opcode = SMSG_FRIEND_LIST | SMSG_IGNORE_LIST | SMSG_FRIEND_STATUS

type_synonym social_packet = "social_opcode \<times> u8 list"

record social_world =
  sw_social :: "(u32, player_social) smap"
  sw_table :: social_table
  sw_out :: "(u32 \<times> social_packet) list"

section \<open>The statements on the table\<close>

definition sql_insert :: "u32 \<Rightarrow> u32 \<Rightarrow> u32 \<Rightarrow> social_table \<Rightarrow> social_table" where
  "sql_insert guid fr flags rows = rows @ [(guid, fr, flags)]"

definition sql_update :: "(u32 \<Rightarrow> u32) \<Rightarrow> u32 \<Rightarrow> u32 \<Rightarrow> social_table \<Rightarrow> social_table" where
  "sql_update f guid fr rows =
     map (\<lambda>(g, x, flags). (g, x, if g = guid \<and> x = fr then f flags else flags)) rows"

definition sql_delete :: "u32 \<Rightarrow> u32 \<Rightarrow> social_table \<Rightarrow> social_table" where
  "sql_delete guid fr rows = filter (\<lambda>(g, x, flags). \<not> (g = guid \<and> x = fr)) rows"

text \<open>\<^verbatim>\<open>SELECT friend, flags FROM character_social WHERE guid = ...\<close>\<close>

definition sql_rows :: "u32 \<Rightarrow> social_table \<Rightarrow> (u32 \<times> u32) list" where
  "sql_rows guid rows = map snd (filter (\<lambda>r. fst r = guid) rows)"

section \<open>PlayerSocial\<close>

definition has_flag :: "u32 \<Rightarrow> u32 \<Rightarrow> bool" where
  "has_flag flags f \<longleftrightarrow> flags AND f \<noteq> 0"

definition GetNumberOfSocialsWithFlag :: "u32 \<Rightarrow> player_social \<Rightarrow> u32" where
  "GetNumberOfSocialsWithFlag flag ps =
     fold (\<lambda>e counter. if has_flag (fi_Flags (snd e)) flag then counter + 1 else counter) (ps_map ps) 0"

definition flag_for :: "bool \<Rightarrow> u32" where
  "flag_for ignore = (if ignore then SOCIAL_FLAG_IGNORED else SOCIAL_FLAG_FRIEND)"

definition AddToSocialList ::
  "object_guid \<Rightarrow> bool \<Rightarrow> player_social \<Rightarrow> social_table \<Rightarrow> bool \<times> player_social \<times> social_table" where
  "AddToSocialList friend_guid ignore ps rows =
     (if (if ignore
          then SOCIALMGR_IGNORE_LIMIT \<le> GetNumberOfSocialsWithFlag SOCIAL_FLAG_IGNORED ps
          else SOCIALMGR_FRIEND_LIMIT \<le> GetNumberOfSocialsWithFlag SOCIAL_FLAG_FRIEND ps)
      then (False, ps, rows)
      else
        (let flag = flag_for ignore; low = GetCounter friend_guid
         in case sm_find (ps_map ps) low of
              Some _ \<Rightarrow>
                (True,
                 ps\<lparr>ps_map := sm_adjust low (\<lambda>fi. fi\<lparr>fi_Flags := fi_Flags fi OR flag\<rparr>) (ps_map ps)\<rparr>,
                 sql_update (\<lambda>flags. flags OR flag) (ps_lowGuid ps) low rows)
            | None \<Rightarrow>
                (True,
                 ps\<lparr>ps_map := sm_put low (FriendInfo (0 OR flag)) (ps_map ps)\<rparr>,
                 sql_insert (ps_lowGuid ps) low flag rows)))"

definition RemoveFromSocialList ::
  "object_guid \<Rightarrow> bool \<Rightarrow> player_social \<Rightarrow> social_table \<Rightarrow> player_social \<times> social_table" where
  "RemoveFromSocialList friend_guid ignore ps rows =
     (let low = GetCounter friend_guid; flag = flag_for ignore
      in case sm_find (ps_map ps) low of
           None \<Rightarrow> (ps, rows)
         | Some fi \<Rightarrow>
             (let flags = fi_Flags fi AND NOT flag
              in if flags = 0
                 then (ps\<lparr>ps_map := sm_erase low (ps_map ps)\<rparr>, sql_delete (ps_lowGuid ps) low rows)
                 else (ps\<lparr>ps_map := sm_adjust low (\<lambda>fi. fi\<lparr>fi_Flags := flags\<rparr>) (ps_map ps)\<rparr>,
                       sql_update (\<lambda>fl. fl AND NOT flag) (ps_lowGuid ps) low rows)))"

definition HasFriend :: "object_guid \<Rightarrow> player_social \<Rightarrow> bool" where
  "HasFriend friend_guid ps =
     (case sm_find (ps_map ps) (GetCounter friend_guid) of
        Some fi \<Rightarrow> has_flag (fi_Flags fi) SOCIAL_FLAG_FRIEND | None \<Rightarrow> False)"

definition HasIgnore :: "object_guid \<Rightarrow> player_social \<Rightarrow> bool" where
  "HasIgnore ignore_guid ps =
     (case sm_find (ps_map ps) (GetCounter ignore_guid) of
        Some fi \<Rightarrow> has_flag (fi_Flags fi) SOCIAL_FLAG_IGNORED | None \<Rightarrow> False)"

section \<open>SocialMgr\<close>

text \<open>\<^verbatim>\<open>MasterPlayer::IsVisibleGloballyFor\<close>; the pointer comparison is one of GUIDs.\<close>

definition IsVisibleGloballyFor :: "master_player \<Rightarrow> master_player \<Rightarrow> bool" where
  "IsVisibleGloballyFor pl viewer =
     (if mp_guid viewer = mp_guid pl then True
      else
        (let security = (ucast (mp_security viewer) :: u8)
         in if 0 < security then mp_gm_rank pl \<le> ucast security else True))"

text \<open>
  \<^verbatim>\<open>GetFriendInfo\<close>: the social list is the one of the asking player. A player not on that list
  leaves the information as it was.
\<close>

definition friend_online :: "social_env \<Rightarrow> master_player \<Rightarrow> master_player \<Rightarrow> bool" where
  "friend_online env player pFriend \<longleftrightarrow>
     (0 < mp_security player \<or>
        (mp_team pFriend = mp_team player \<or> se_two_side_who env) \<and> mp_security pFriend \<le> se_gm_level_in_who env) \<and>
     IsVisibleGloballyFor pFriend player"

definition GetFriendInfo ::
  "social_env \<Rightarrow> master_player \<Rightarrow> player_social_map \<Rightarrow> u32 \<Rightarrow> friend_info \<Rightarrow> friend_info" where
  "GetFriendInfo env player social friend_lowguid fi =
     (if sm_has social friend_lowguid
      then
        (case se_player env friend_lowguid of
           Some pFriend \<Rightarrow>
             (if friend_online env player pFriend
              then fi\<lparr>fi_Status := (if mp_dnd pFriend then FRIEND_STATUS_DND
                                     else if mp_afk pFriend then FRIEND_STATUS_AFK
                                     else FRIEND_STATUS_ONLINE),
                      fi_Area := mp_zone pFriend, fi_Level := mp_level pFriend, fi_Class := mp_class pFriend\<rparr>
              else fi\<lparr>fi_Status := FRIEND_STATUS_OFFLINE, fi_Area := 0, fi_Level := 0, fi_Class := 0\<rparr>)
         | None \<Rightarrow> fi\<lparr>fi_Status := FRIEND_STATUS_OFFLINE, fi_Area := 0, fi_Level := 0, fi_Class := 0\<rparr>)
      else fi)"

text \<open>
  \<^verbatim>\<open>SendFriendList\<close> walks the map, refreshes every friend in place and appends it. The
  refresh never adds or removes a node, so the membership test of \<^verbatim>\<open>GetFriendInfo\<close> is made
  on the map the walk started from.
\<close>

definition friend_entry :: "u32 \<Rightarrow> friend_info \<Rightarrow> u8 list" where
  "friend_entry low fi =
     pguid (guid_of_counter HIGHGUID_PLAYER low) @ [status_code (fi_Status fi)] @
     (if status_code (fi_Status fi) \<noteq> 0 then p32 (fi_Area fi) @ p32 (fi_Level fi) @ p32 (fi_Class fi) else [])"

fun friend_walk ::
  "social_env \<Rightarrow> master_player \<Rightarrow> player_social_map \<Rightarrow> player_social_map \<Rightarrow> player_social_map \<times> u8 list" where
  "friend_walk env player social [] = ([], [])"
| "friend_walk env player social ((low, fi) # m) =
     (let (m', bytes) = friend_walk env player social m
      in if has_flag (fi_Flags fi) SOCIAL_FLAG_FRIEND
         then (let fi' = GetFriendInfo env player social low fi
               in ((low, fi') # m', friend_entry low fi' @ bytes))
         else ((low, fi) # m', bytes))"

definition friend_list_packet ::
  "social_env \<Rightarrow> master_player \<Rightarrow> player_social \<Rightarrow> player_social_map \<times> social_packet" where
  "friend_list_packet env player ps =
     (let size = GetNumberOfSocialsWithFlag SOCIAL_FLAG_FRIEND ps;
          (m, bytes) = friend_walk env player (ps_map ps) (ps_map ps)
      in (m, SMSG_FRIEND_LIST, ucast size # bytes))"

definition ignore_list_packet :: "player_social \<Rightarrow> social_packet" where
  "ignore_list_packet ps =
     (SMSG_IGNORE_LIST,
      ucast (GetNumberOfSocialsWithFlag SOCIAL_FLAG_IGNORED ps) #
      concat (map (\<lambda>e. if has_flag (fi_Flags (snd e)) SOCIAL_FLAG_IGNORED
                       then pguid (guid_of_counter HIGHGUID_PLAYER (fst e)) else []) (ps_map ps)))"

text \<open>
  The two calls: a list whose \<^verbatim>\<open>m_masterPlayer\<close> is not set fails the \<^verbatim>\<open>ASSERT\<close>.
\<close>

definition social_send :: "u32 \<Rightarrow> social_packet \<Rightarrow> social_world \<Rightarrow> social_world" where
  "social_send low pkt w = w\<lparr>sw_out := sw_out w @ [(low, pkt)]\<rparr>"

definition social_store :: "u32 \<Rightarrow> player_social \<Rightarrow> social_world \<Rightarrow> social_world" where
  "social_store low ps w = w\<lparr>sw_social := sm_put low ps (sw_social w)\<rparr>"

definition ps_player :: "social_env \<Rightarrow> player_social \<Rightarrow> master_player option" where
  "ps_player env ps = (case ps_master ps of None \<Rightarrow> None | Some low \<Rightarrow> se_player env low)"

definition SendFriendList :: "social_env \<Rightarrow> u32 \<Rightarrow> social_world \<Rightarrow> (unit, social_world) outcome" where
  "SendFriendList env low w =
     (case sm_find (sw_social w) low of
        None \<Rightarrow> Undefined
      | Some ps \<Rightarrow>
          (case ps_player env ps of
             None \<Rightarrow> Throw ()
           | Some plr \<Rightarrow>
               (let (m, pkt) = friend_list_packet env plr ps
                in Ok (social_send (mp_guid plr) pkt (social_store low (ps\<lparr>ps_map := m\<rparr>) w)))))"

definition SendIgnoreList :: "social_env \<Rightarrow> u32 \<Rightarrow> social_world \<Rightarrow> (unit, social_world) outcome" where
  "SendIgnoreList env low w =
     (case sm_find (sw_social w) low of
        None \<Rightarrow> Undefined
      | Some ps \<Rightarrow>
          (case ps_player env ps of
             None \<Rightarrow> Throw ()
           | Some plr \<Rightarrow> Ok (social_send (mp_guid plr) (ignore_list_packet ps) w)))"

definition MakeFriendStatusPacket :: "friends_result \<Rightarrow> u32 \<Rightarrow> u8 list" where
  "MakeFriendStatusPacket result guid = [result_code result] @ pguid (guid_of_counter HIGHGUID_PLAYER guid)"

text \<open>
  \<^verbatim>\<open>BroadcastToFriendListers\<close>: the players that have the given one on their friend list, are
  online and may see it.
\<close>

definition lister_sees :: "social_env \<Rightarrow> master_player \<Rightarrow> player_social \<Rightarrow> master_player \<Rightarrow> bool" where
  "lister_sees env player ps pFriend \<longleftrightarrow>
     (case sm_find (ps_map ps) (mp_guid player) of
        None \<Rightarrow> False | Some fi \<Rightarrow> has_flag (fi_Flags fi) SOCIAL_FLAG_FRIEND) \<and>
     (0 < mp_security pFriend \<or>
        (mp_team pFriend = mp_team player \<or> se_two_side_who env) \<and> mp_security player \<le> se_gm_level_in_who env) \<and>
     IsVisibleGloballyFor player pFriend"

fun broadcast_loop ::
  "social_env \<Rightarrow> master_player \<Rightarrow> social_packet \<Rightarrow> (u32, player_social) smap \<Rightarrow> social_world \<Rightarrow> social_world" where
  "broadcast_loop env player pkt [] w = w"
| "broadcast_loop env player pkt ((low, ps) # m) w =
     broadcast_loop env player pkt m
       (case se_player env low of
          None \<Rightarrow> w
        | Some pFriend \<Rightarrow> if lister_sees env player ps pFriend then social_send (mp_guid pFriend) pkt w else w)"

definition BroadcastToFriendListers ::
  "social_env \<Rightarrow> master_player \<Rightarrow> social_packet \<Rightarrow> social_world \<Rightarrow> social_world" where
  "BroadcastToFriendListers env player pkt w = broadcast_loop env player pkt (sw_social w) w"

definition status_data :: "friends_result \<Rightarrow> friend_info \<Rightarrow> u8 list" where
  "status_data result fi =
     (case result of
        FRIEND_ADDED_ONLINE \<Rightarrow> [status_code (fi_Status fi)] @ p32 (fi_Area fi) @ p32 (fi_Level fi) @ p32 (fi_Class fi)
      | FRIEND_ONLINE \<Rightarrow> [status_code (fi_Status fi)] @ p32 (fi_Area fi) @ p32 (fi_Level fi) @ p32 (fi_Class fi)
      | _ \<Rightarrow> [])"

definition social_of :: "u32 \<Rightarrow> social_world \<Rightarrow> player_social_map" where
  "social_of low w = (case sm_find (sw_social w) low of None \<Rightarrow> [] | Some ps \<Rightarrow> ps_map ps)"

definition SendFriendStatus ::
  "social_env \<Rightarrow> master_player \<Rightarrow> friends_result \<Rightarrow> object_guid \<Rightarrow> bool \<Rightarrow> social_world \<Rightarrow> social_world" where
  "SendFriendStatus env player result friend_guid broadcast w =
     (let low = GetCounter friend_guid;
          fi = GetFriendInfo env player (social_of (mp_guid player) w) low (FriendInfo 0);
          pkt = (SMSG_FRIEND_STATUS, MakeFriendStatusPacket result low @ status_data result fi)
      in if broadcast then BroadcastToFriendListers env player pkt w
         else social_send (mp_guid player) pkt w)"

definition RemovePlayerSocial :: "u32 \<Rightarrow> social_world \<Rightarrow> social_world" where
  "RemovePlayerSocial guid w = w\<lparr>sw_social := sm_erase guid (sw_social w)\<rparr>"

text \<open>
  \<^verbatim>\<open>LoadFromDB\<close>: the rows of the query in the order the database returns them, with the two
  counters. No result (\<^verbatim>\<open>NULL\<close>) is the empty list.
\<close>

fun load_rows :: "(u32 \<times> u32) list \<Rightarrow> u32 \<Rightarrow> u32 \<Rightarrow> player_social_map \<Rightarrow> player_social_map" where
  "load_rows [] friendCounter ignoreCounter m = m"
| "load_rows ((friend_guid, flags) # rows) friendCounter ignoreCounter m =
     (if has_flag flags SOCIAL_FLAG_IGNORED \<and> SOCIALMGR_IGNORE_LIMIT \<le> ignoreCounter
      then load_rows rows friendCounter ignoreCounter m
      else if has_flag flags SOCIAL_FLAG_FRIEND \<and> SOCIALMGR_FRIEND_LIMIT \<le> friendCounter
      then load_rows rows friendCounter ignoreCounter m
      else if has_flag flags SOCIAL_FLAG_IGNORED
      then load_rows rows friendCounter (ignoreCounter + 1) (sm_put friend_guid (FriendInfo flags) m)
      else load_rows rows (friendCounter + 1) ignoreCounter (sm_put friend_guid (FriendInfo flags) m))"

definition LoadFromDB :: "(u32 \<times> u32) list \<Rightarrow> object_guid \<Rightarrow> social_world \<Rightarrow> social_world" where
  "LoadFromDB result guid w =
     (let low = GetCounter guid;
          social = (case sm_find (sw_social w) low of None \<Rightarrow> PlayerSocial_new | Some ps \<Rightarrow> ps)
      in social_store low (social\<lparr>ps_lowGuid := low, ps_map := load_rows result 0 0 (ps_map social)\<rparr>) w)"

definition SetMasterPlayer :: "u32 \<Rightarrow> u32 option \<Rightarrow> social_world \<Rightarrow> social_world" where
  "SetMasterPlayer low m w = w\<lparr>sw_social := sm_adjust low (\<lambda>ps. ps\<lparr>ps_master := m\<rparr>) (sw_social w)\<rparr>"

section \<open>The client requests\<close>

text \<open>
  The handlers of the session of \<open>me\<close>; \<^verbatim>\<open>GetSocial()\<close> is a pointer into the manager's map, so
  a missing entry is undefined behaviour.
\<close>

definition SEC_MODERATOR :: u32 where "SEC_MODERATOR = 1"

definition HandleFriendListOpcode :: "social_env \<Rightarrow> master_player \<Rightarrow> social_world \<Rightarrow> (unit, social_world) outcome" where
  "HandleFriendListOpcode env me w = SendFriendList env (mp_guid me) w"

definition HandleAddFriendOpcode ::
  "social_env \<Rightarrow> master_player \<Rightarrow> u8 list \<Rightarrow> social_world \<Rightarrow> (unit, social_world) outcome" where
  "HandleAddFriendOpcode env me friendName w =
     (case se_normalize env friendName of
        None \<Rightarrow> Ok w
      | Some name \<Rightarrow>
          (case se_cache env name of
             None \<Rightarrow> Ok w
           | Some (low, team) \<Rightarrow>
               (let friendGuid = guid_of_counter HIGHGUID_PLAYER low
                in if friendGuid = 0
                   then Ok (SendFriendStatus env me FRIEND_NOT_FOUND friendGuid False w)
                   else if friendGuid = guid_of_counter HIGHGUID_PLAYER (mp_guid me)
                   then Ok (SendFriendStatus env me FRIEND_SELF friendGuid False w)
                   else if mp_team me \<noteq> team \<and> \<not> se_two_side_friend env \<and> mp_security me < SEC_MODERATOR
                   then Ok (SendFriendStatus env me FRIEND_ENEMY friendGuid False w)
                   else
                     (case sm_find (sw_social w) (mp_guid me) of
                        None \<Rightarrow> Undefined
                      | Some ps \<Rightarrow>
                          (if HasFriend friendGuid ps
                           then Ok (SendFriendStatus env me FRIEND_ALREADY friendGuid False w)
                           else
                             (let added = (case se_player env low of
                                             Some pFriend \<Rightarrow>
                                               if IsVisibleGloballyFor pFriend me then FRIEND_ADDED_ONLINE
                                               else FRIEND_ADDED_OFFLINE
                                           | None \<Rightarrow> FRIEND_ADDED_OFFLINE);
                                  (ok, ps', rows) = AddToSocialList friendGuid False ps (sw_table w);
                                  w' = social_store (mp_guid me) ps' (w\<lparr>sw_table := rows\<rparr>)
                              in Ok (SendFriendStatus env me (if ok then added else FRIEND_LIST_FULL)
                                       friendGuid False w')))))))"

definition HandleAddIgnoreOpcode ::
  "social_env \<Rightarrow> master_player \<Rightarrow> u8 list \<Rightarrow> social_world \<Rightarrow> (unit, social_world) outcome" where
  "HandleAddIgnoreOpcode env me ignoreName w =
     (case se_normalize env ignoreName of
        None \<Rightarrow> Ok w
      | Some name \<Rightarrow>
          (case se_cache env name of
             None \<Rightarrow> Ok w
           | Some (low, team) \<Rightarrow>
               (let ignoreGuid = guid_of_counter HIGHGUID_PLAYER low
                in if ignoreGuid = 0
                   then Ok (SendFriendStatus env me FRIEND_IGNORE_NOT_FOUND ignoreGuid False w)
                   else if ignoreGuid = guid_of_counter HIGHGUID_PLAYER (mp_guid me)
                   then Ok (SendFriendStatus env me FRIEND_IGNORE_SELF ignoreGuid False w)
                   else
                     (case sm_find (sw_social w) (mp_guid me) of
                        None \<Rightarrow> Undefined
                      | Some ps \<Rightarrow>
                          (if HasIgnore ignoreGuid ps
                           then Ok (SendFriendStatus env me FRIEND_IGNORE_ALREADY ignoreGuid False w)
                           else
                             (let (ok, ps', rows) = AddToSocialList ignoreGuid True ps (sw_table w);
                                  w' = social_store (mp_guid me) ps' (w\<lparr>sw_table := rows\<rparr>)
                              in Ok (SendFriendStatus env me (if ok then FRIEND_IGNORE_ADDED else FRIEND_IGNORE_FULL)
                                       ignoreGuid False w')))))))"

definition remove_listed ::
  "social_env \<Rightarrow> master_player \<Rightarrow> object_guid \<Rightarrow> bool \<Rightarrow> friends_result \<Rightarrow> social_world \<Rightarrow> (unit, social_world) outcome" where
  "remove_listed env me guid ignore result w =
     (case sm_find (sw_social w) (mp_guid me) of
        None \<Rightarrow> Undefined
      | Some ps \<Rightarrow>
          (let (ps', rows) = RemoveFromSocialList guid ignore ps (sw_table w)
           in Ok (SendFriendStatus env me result guid False
                    (social_store (mp_guid me) ps' (w\<lparr>sw_table := rows\<rparr>)))))"

definition HandleDelFriendOpcode ::
  "social_env \<Rightarrow> master_player \<Rightarrow> object_guid \<Rightarrow> social_world \<Rightarrow> (unit, social_world) outcome" where
  "HandleDelFriendOpcode env me guid w = remove_listed env me guid False FRIEND_REMOVED w"

definition HandleDelIgnoreOpcode ::
  "social_env \<Rightarrow> master_player \<Rightarrow> object_guid \<Rightarrow> social_world \<Rightarrow> (unit, social_world) outcome" where
  "HandleDelIgnoreOpcode env me guid w = remove_listed env me guid True FRIEND_IGNORE_REMOVED w"

section \<open>Flags\<close>

lemmas social_flags = SOCIAL_FLAG_FRIEND_def SOCIAL_FLAG_IGNORED_def flag_for_def

lemma has_flag_or: "has_flag (a OR b) f \<longleftrightarrow> has_flag a f \<or> has_flag b f"
  unfolding has_flag_def bit.conj_disj_distrib2 by (auto simp: or_eq_0_iff)

lemma has_flag_and: "has_flag (a AND b) f \<Longrightarrow> has_flag a f"
proof -
  have "(a AND b) AND f = (a AND f) AND b" by (simp add: ac_simps)
  then show "has_flag (a AND b) f \<Longrightarrow> has_flag a f" by (auto simp: has_flag_def)
qed

text \<open>The flags the two operations write: friend, ignored, or both.\<close>

definition listed_flags :: "u32 \<Rightarrow> bool" where
  "listed_flags fl \<longleftrightarrow>
     fl = SOCIAL_FLAG_FRIEND \<or> fl = SOCIAL_FLAG_IGNORED \<or> fl = (SOCIAL_FLAG_FRIEND OR SOCIAL_FLAG_IGNORED)"

lemma listed_flags_or [simp]: "listed_flags fl \<Longrightarrow> listed_flags (fl OR flag_for i)"
  by (auto simp: listed_flags_def social_flags)

lemma listed_flags_for [simp]: "listed_flags (flag_for i)"
  by (auto simp: listed_flags_def social_flags)

lemma listed_flags_andnot: "listed_flags fl \<Longrightarrow> fl AND NOT (flag_for i) \<noteq> 0 \<Longrightarrow> listed_flags (fl AND NOT (flag_for i))"
  by (auto simp: listed_flags_def social_flags)

lemma listed_flags_cases:
  "listed_flags fl \<Longrightarrow> has_flag fl SOCIAL_FLAG_FRIEND \<or> has_flag fl SOCIAL_FLAG_IGNORED"
  by (auto simp: listed_flags_def has_flag_def social_flags)

lemma has_flag_for [simp]:
  "has_flag (flag_for i) SOCIAL_FLAG_FRIEND \<longleftrightarrow> \<not> i"
  "has_flag (flag_for i) SOCIAL_FLAG_IGNORED \<longleftrightarrow> i"
  by (auto simp: has_flag_def social_flags)

section \<open>Counting\<close>

definition marked :: "('v \<Rightarrow> bool) \<Rightarrow> ('k \<Rightarrow> 'v option) \<Rightarrow> 'k set" where
  "marked P m = {k. \<exists>v. m k = Some v \<and> P v}"

lemma marked_upd: "marked P (m(k \<mapsto> v)) = (if P v then insert k (marked P m) else marked P m - {k})"
  by (auto simp: marked_def split: if_splits)

lemma marked_rows:
  assumes "distinct (map fst rs)"
  shows "length (filter (\<lambda>r. P (snd r)) rs) = card (marked P (map_of rs))"
proof -
  have "marked P (map_of rs) = fst ` set (filter (\<lambda>r. P (snd r)) rs)"
    using assms by (force simp: marked_def)
  with assms show ?thesis
    by (metis distinct_card distinct_map_filter length_map set_map)
qed

lemma finite_marked [simp]: "finite (marked P (map_of rs))"
  by (rule finite_subset [OF _ finite_dom_map_of [of rs]]) (auto simp: marked_def)

lemma count_fold:
  "fold (\<lambda>e c. if P e then c + 1 else c) m (c :: u32) = c + of_nat (length (filter P m))"
  by (induction m arbitrary: c) (auto simp: algebra_simps)

lemma number_of_socials:
  "GetNumberOfSocialsWithFlag flag ps =
     of_nat (length (filter (\<lambda>e. has_flag (fi_Flags (snd e)) flag) (ps_map ps)))"
  by (simp add: GetNumberOfSocialsWithFlag_def count_fold)

section \<open>The lists and their table\<close>

text \<open>
  The abstract view of a player's list: friend to flags. A loaded list \<open>mirrors\<close> its rows when
  both give the same map; the table is well formed when no player has two rows for one
  friend, every row is a friend, an ignore or both, and the limits hold.
\<close>

definition mirrors :: "player_social \<Rightarrow> (u32 \<times> u32) list \<Rightarrow> bool" where
  "mirrors ps rs \<longleftrightarrow> sm_ok (ps_map ps) \<and> (\<forall>f. map_option fi_Flags (sm_find (ps_map ps) f) = map_of rs f)"

definition rows_ok :: "(u32 \<times> u32) list \<Rightarrow> bool" where
  "rows_ok rs \<longleftrightarrow> distinct (map fst rs) \<and> (\<forall>r \<in> set rs. listed_flags (snd r)) \<and>
     length (filter (\<lambda>r. has_flag (snd r) SOCIAL_FLAG_FRIEND) rs) \<le> 50 \<and>
     length (filter (\<lambda>r. has_flag (snd r) SOCIAL_FLAG_IGNORED) rs) \<le> 25"

definition social_ok :: "social_world \<Rightarrow> bool" where
  "social_ok w \<longleftrightarrow> (\<forall>g. rows_ok (sql_rows g (sw_table w))) \<and>
     (\<forall>g ps. sm_find (sw_social w) g = Some ps \<longrightarrow> ps_lowGuid ps = g \<and> mirrors ps (sql_rows g (sw_table w)))"

lemma mirrors_count:
  assumes "mirrors ps rs" "rows_ok rs"
  shows "length (filter (\<lambda>e. has_flag (fi_Flags (snd e)) flag) (ps_map ps)) =
         length (filter (\<lambda>r. has_flag (snd r) flag) rs)"
proof -
  have "length (filter (\<lambda>e. has_flag (fi_Flags (snd e)) flag) (ps_map ps)) =
      card (sm.hits (\<lambda>fi. has_flag (fi_Flags fi) flag) (ps_map ps))"
    using sm.count_hits [of "ps_map ps" "\<lambda>fi. has_flag (fi_Flags fi) flag"] assms
    by (simp add: mirrors_def comp_def)
  also have "sm.hits (\<lambda>fi. has_flag (fi_Flags fi) flag) (ps_map ps) = marked (\<lambda>fl. has_flag fl flag) (map_of rs)"
  proof (rule set_eqI)
    fix k
    have "map_option fi_Flags (sm_find (ps_map ps) k) = map_of rs k"
      using assms by (simp add: mirrors_def)
    then show "k \<in> sm.hits (\<lambda>fi. has_flag (fi_Flags fi) flag) (ps_map ps) \<longleftrightarrow>
        k \<in> marked (\<lambda>fl. has_flag fl flag) (map_of rs)"
      by (cases "sm_find (ps_map ps) k"; cases "map_of rs k") (simp_all add: sm.hits_def marked_def)
  qed
  finally show ?thesis
    using assms marked_rows [of rs "\<lambda>fl. has_flag fl flag"] by (simp only: rows_ok_def)
qed

lemma sql_rows_insert [simp]:
  "sql_rows g (sql_insert g' f fl rows) = sql_rows g rows @ (if g = g' then [(f, fl)] else [])"
  by (simp add: sql_rows_def sql_insert_def)

lemma sql_rows_update [simp]:
  "sql_rows g (sql_update h g' f rows) =
     (if g = g' then map (\<lambda>(x, fl). (x, if x = f then h fl else fl)) (sql_rows g rows) else sql_rows g rows)"
  unfolding sql_rows_def sql_update_def by (induction rows) auto

lemma sql_rows_delete [simp]:
  "sql_rows g (sql_delete g' f rows) =
     (if g = g' then filter (\<lambda>r. fst r \<noteq> f) (sql_rows g rows) else sql_rows g rows)"
  unfolding sql_rows_def sql_delete_def by (induction rows) auto

lemma map_of_append_new: "f \<notin> fst ` set rs \<Longrightarrow> map_of (rs @ [(f, fl)]) = (map_of rs)(f \<mapsto> fl)"
  by (auto simp: fun_eq_iff map_add_def dom_map_of_conv_image_fst split: option.splits)
     (metis domI dom_map_of_conv_image_fst)

lemma map_of_modified:
  "map_of (map (\<lambda>(x, fl). (x, if x = f then h fl else fl)) rs) x =
     (if x = f then map_option h (map_of rs x) else map_of rs x)"
  by (induction rs) auto

lemma map_of_deleted: "map_of (filter (\<lambda>r. fst r \<noteq> f) rs) x = (if x = f then None else map_of rs x)"
  by (induction rs) auto

section \<open>The two operations keep the list, the limits and the table together\<close>

definition row_mod :: "u32 \<Rightarrow> (u32 \<Rightarrow> u32) \<Rightarrow> (u32 \<times> u32) list \<Rightarrow> (u32 \<times> u32) list" where
  "row_mod f h rs = map (\<lambda>(x, fl). (x, if x = f then h fl else fl)) rs"

lemma row_mod_keys [simp]: "map fst (row_mod f h rs) = map fst rs"
  by (simp add: row_mod_def case_prod_beta comp_def)

lemma row_mod_absent: "f \<notin> fst ` set rs \<Longrightarrow> row_mod f h rs = rs"
  unfolding row_mod_def by (rule map_idI) force

lemma count_row_mod:
  "distinct (map fst rs) \<Longrightarrow>
     length (filter (\<lambda>r. P (snd r)) (row_mod f h rs)) \<le> Suc (length (filter (\<lambda>r. P (snd r)) rs))"
proof (induction rs)
  case (Cons r rs)
  show ?case
  proof (cases "fst r = f")
    case True
    with Cons.prems have "row_mod f h rs = rs" by (intro row_mod_absent) simp
    then show ?thesis by (cases r) (simp add: row_mod_def)
  next
    case False
    with Cons show ?thesis by (cases r) (simp add: row_mod_def)
  qed
qed (simp add: row_mod_def)

lemma count_row_mod_mono:
  "(\<And>fl. P (h fl) \<Longrightarrow> P fl) \<Longrightarrow>
     length (filter (\<lambda>r. P (snd r)) (row_mod f h rs)) \<le> length (filter (\<lambda>r. P (snd r)) rs)"
  by (induction rs) (auto simp: row_mod_def le_SucI split: if_splits)

lemma row_mod_or_other:
  "has_flag (fl OR flag_for i) (flag_for (\<not> i)) \<longleftrightarrow> has_flag fl (flag_for (\<not> i))"
  unfolding has_flag_or by (cases i) (simp_all add: has_flag_def social_flags)

definition list_limit :: "bool \<Rightarrow> nat" where
  "list_limit ignore = (if ignore then 25 else 50)"

lemma rows_ok_iff:
  "rows_ok rs \<longleftrightarrow> distinct (map fst rs) \<and> (\<forall>r \<in> set rs. listed_flags (snd r)) \<and>
     (\<forall>i. length (filter (\<lambda>r. has_flag (snd r) (flag_for i)) rs) \<le> list_limit i)"
  by (auto simp: rows_ok_def list_limit_def flag_for_def all_bool_eq)

lemma rows_ok_insert:
  assumes "rows_ok rs" "f \<notin> fst ` set rs"
    and "length (filter (\<lambda>r. has_flag (snd r) (flag_for i)) rs) < list_limit i"
  shows "rows_ok (rs @ [(f, flag_for i)])"
  using assms by (cases i) (auto simp: rows_ok_def list_limit_def flag_for_def listed_flags_def,
    simp_all add: has_flag_def social_flags)

lemma rows_ok_row_mod_or:
  assumes ok: "rows_ok rs"
    and room: "length (filter (\<lambda>r. has_flag (snd r) (flag_for i)) rs) < list_limit i"
  shows "rows_ok (row_mod f (\<lambda>fl. fl OR flag_for i) rs)"
  unfolding rows_ok_iff
proof (intro conjI allI)
  let ?rs = "row_mod f (\<lambda>fl. fl OR flag_for i) rs"
  show "distinct (map fst ?rs)" using ok by (simp add: rows_ok_def)
  show "\<forall>r \<in> set ?rs. listed_flags (snd r)"
    using ok by (fastforce simp: rows_ok_def row_mod_def)
  fix j
  show "length (filter (\<lambda>r. has_flag (snd r) (flag_for j)) ?rs) \<le> list_limit j"
  proof (cases "j = i")
    case True
    with ok room count_row_mod [of rs "\<lambda>fl. has_flag fl (flag_for i)" f "\<lambda>fl. fl OR flag_for i"]
    show ?thesis by (simp add: rows_ok_def)
  next
    case False
    then have "j = (\<not> i)" by auto
    moreover have "length (filter (\<lambda>r. has_flag (snd r) (flag_for (\<not> i))) ?rs) \<le>
        length (filter (\<lambda>r. has_flag (snd r) (flag_for (\<not> i))) rs)"
      by (rule count_row_mod_mono) (simp add: row_mod_or_other)
    moreover have "length (filter (\<lambda>r. has_flag (snd r) (flag_for (\<not> i))) rs) \<le> list_limit (\<not> i)"
      using ok unfolding rows_ok_iff by blast
    ultimately show ?thesis by simp
  qed
qed

lemma rows_ok_row_mod_andnot:
  assumes ok: "rows_ok rs" and fl: "map_of rs f = Some fl" "fl AND NOT (flag_for i) \<noteq> 0"
  shows "rows_ok (row_mod f (\<lambda>fl. fl AND NOT (flag_for i)) rs)"
  unfolding rows_ok_iff
proof (intro conjI allI)
  let ?rs = "row_mod f (\<lambda>fl. fl AND NOT (flag_for i)) rs"
  show "distinct (map fst ?rs)" using ok by (simp add: rows_ok_def)
  have same: "x = fl" if "(f, x) \<in> set rs" for x
    using that ok fl by (simp add: rows_ok_def)
  have each: "listed_flags x" if "(y, x) \<in> set rs" for y x
    using that ok by (auto simp: rows_ok_def)
  show "\<forall>r \<in> set ?rs. listed_flags (snd r)"
  proof
    fix r assume "r \<in> set ?rs"
    then obtain y x where yx: "(y, x) \<in> set rs" "r = (y, if y = f then x AND NOT (flag_for i) else x)"
      unfolding row_mod_def by auto
    show "listed_flags (snd r)"
    proof (cases "y = f")
      case True
      with yx same have "x = fl" by simp
      with True yx fl(2) each [OF yx(1)] listed_flags_andnot [of fl i] show ?thesis by simp
    qed (use yx each in simp)
  qed
  fix j
  have "length (filter (\<lambda>r. has_flag (snd r) (flag_for j)) ?rs) \<le>
      length (filter (\<lambda>r. has_flag (snd r) (flag_for j)) rs)"
    by (rule count_row_mod_mono) (rule has_flag_and)
  also have "\<dots> \<le> list_limit j" using ok by (simp add: rows_ok_iff)
  finally show "length (filter (\<lambda>r. has_flag (snd r) (flag_for j)) ?rs) \<le> list_limit j" .
qed

lemma rows_ok_filter: "rows_ok rs \<Longrightarrow> rows_ok (filter Q rs)"
  unfolding rows_ok_iff
  by (auto simp: distinct_map_filter simp del: filter_filter intro: order_trans [OF length_filter_filter_le])

lemma sql_rows_update_mod:
  "sql_rows g (sql_update h g' f rows) =
     (if g = g' then row_mod f h (sql_rows g rows) else sql_rows g rows)"
  by (simp add: row_mod_def)

lemma limit_check:
  assumes "mirrors ps rs" "rows_ok rs"
  shows "(if i then SOCIALMGR_IGNORE_LIMIT \<le> GetNumberOfSocialsWithFlag SOCIAL_FLAG_IGNORED ps
          else SOCIALMGR_FRIEND_LIMIT \<le> GetNumberOfSocialsWithFlag SOCIAL_FLAG_FRIEND ps) \<longleftrightarrow>
         list_limit i \<le> length (filter (\<lambda>r. has_flag (snd r) (flag_for i)) rs)"
proof -
  define n where "n = length (filter (\<lambda>r. has_flag (snd r) (flag_for i)) rs)"
  have n: "n \<le> list_limit i" using assms by (simp add: rows_ok_iff n_def)
  have number: "GetNumberOfSocialsWithFlag (flag_for i) ps = of_nat n"
    using mirrors_count [OF assms] by (simp add: number_of_socials n_def)
  have "unat (of_nat n :: u32) = n"
    by (rule unat_of_nat_u32) (use n in \<open>simp add: list_limit_def split: if_splits\<close>)
  then have "(of_nat (list_limit i) :: u32) \<le> of_nat n \<longleftrightarrow> list_limit i \<le> n"
    by (simp add: word_le_nat_alt list_limit_def)
  then show ?thesis using number
    by (cases i) (simp_all add: n_def list_limit_def flag_for_def SOCIALMGR_IGNORE_LIMIT_def SOCIALMGR_FRIEND_LIMIT_def)
qed

lemma mirrors_key: "mirrors ps rs \<Longrightarrow> f \<in> fst ` set rs \<longleftrightarrow> sm_find (ps_map ps) f \<noteq> None"
  unfolding mirrors_def
  by (metis map_of_eq_None_iff map_option_is_None)

lemma mirrors_row: "mirrors ps rs \<Longrightarrow> sm_find (ps_map ps) f = Some fi \<Longrightarrow> map_of rs f = Some (fi_Flags fi)"
  unfolding mirrors_def by (metis option.simps(9))

lemma AddToSocialList_keeps:
  assumes run: "AddToSocialList fg i ps rows = (r, ps', rows')"
    and mir: "mirrors ps (sql_rows (ps_lowGuid ps) rows)"
    and ok: "\<And>g. rows_ok (sql_rows g rows)"
  shows "mirrors ps' (sql_rows (ps_lowGuid ps) rows')" "rows_ok (sql_rows g rows')"
    "g \<noteq> ps_lowGuid ps \<Longrightarrow> sql_rows g rows' = sql_rows g rows"
    "ps_lowGuid ps' = ps_lowGuid ps" "ps_master ps' = ps_master ps"
proof -
  let ?g = "ps_lowGuid ps" and ?f = "GetCounter fg"
  let ?rs = "sql_rows ?g rows"
  note check = limit_check [OF mir ok, of i]
  have all: "mirrors ps' (sql_rows ?g rows') \<and> rows_ok (sql_rows ?g rows') \<and>
      (\<forall>g. g \<noteq> ?g \<longrightarrow> sql_rows g rows' = sql_rows g rows) \<and> ps_lowGuid ps' = ?g \<and> ps_master ps' = ps_master ps"
  proof (cases "list_limit i \<le> length (filter (\<lambda>r. has_flag (snd r) (flag_for i)) ?rs)")
    case True
    with run check have "ps' = ps" "rows' = rows" by (simp_all add: AddToSocialList_def)
    with mir ok show ?thesis by simp
  next
    case False
    then have room: "length (filter (\<lambda>r. has_flag (snd r) (flag_for i)) ?rs) < list_limit i" by simp
    show ?thesis
    proof (cases "sm_find (ps_map ps) ?f")
      case None
      have ps': "ps' = ps\<lparr>ps_map := sm_put ?f (FriendInfo (0 OR flag_for i)) (ps_map ps)\<rparr>"
        and rows': "rows' = sql_insert ?g ?f (flag_for i) rows"
        using run False check None by (simp_all add: AddToSocialList_def Let_def)
      have absent: "?f \<notin> fst ` set ?rs" using mirrors_key [OF mir, of ?f] None by simp
      have "mirrors ps' (sql_rows ?g rows')"
        using mir by (auto simp: ps' rows' mirrors_def map_of_append_new [OF absent] FriendInfo_def simp del: map_of_append)
      moreover have "rows_ok (sql_rows ?g rows')"
        using rows_ok_insert [OF ok absent room] by (simp add: rows')
      ultimately show ?thesis by (simp add: ps' rows')
    next
      case (Some fi)
      have ps': "ps' = ps\<lparr>ps_map := sm_adjust ?f (\<lambda>fi. fi\<lparr>fi_Flags := fi_Flags fi OR flag_for i\<rparr>) (ps_map ps)\<rparr>"
        and rows': "rows' = sql_update (\<lambda>fl. fl OR flag_for i) ?g ?f rows"
        using run False check Some by (simp_all add: AddToSocialList_def Let_def)
      have "mirrors ps' (sql_rows ?g rows')"
        using mir mirrors_row [OF mir Some]
        by (auto simp: ps' rows' mirrors_def map_of_modified Some)
      moreover have "rows_ok (sql_rows ?g rows')"
        using rows_ok_row_mod_or [OF ok room] by (simp add: rows' row_mod_def)
      ultimately show ?thesis by (simp add: ps' rows')
    qed
  qed
  with ok [of g] show "mirrors ps' (sql_rows (ps_lowGuid ps) rows')" "rows_ok (sql_rows g rows')"
    "g \<noteq> ps_lowGuid ps \<Longrightarrow> sql_rows g rows' = sql_rows g rows"
    "ps_lowGuid ps' = ps_lowGuid ps" "ps_master ps' = ps_master ps"
    by (cases "g = ?g"; simp)+
qed

lemma RemoveFromSocialList_keeps:
  assumes run: "RemoveFromSocialList fg i ps rows = (ps', rows')"
    and mir: "mirrors ps (sql_rows (ps_lowGuid ps) rows)"
    and ok: "\<And>g. rows_ok (sql_rows g rows)"
  shows "mirrors ps' (sql_rows (ps_lowGuid ps) rows')" "rows_ok (sql_rows g rows')"
    "g \<noteq> ps_lowGuid ps \<Longrightarrow> sql_rows g rows' = sql_rows g rows"
    "ps_lowGuid ps' = ps_lowGuid ps" "ps_master ps' = ps_master ps"
proof -
  let ?g = "ps_lowGuid ps" and ?f = "GetCounter fg"
  let ?rs = "sql_rows ?g rows"
  have all: "mirrors ps' (sql_rows ?g rows') \<and> rows_ok (sql_rows ?g rows') \<and>
      (\<forall>g. g \<noteq> ?g \<longrightarrow> sql_rows g rows' = sql_rows g rows) \<and> ps_lowGuid ps' = ?g \<and> ps_master ps' = ps_master ps"
  proof (cases "sm_find (ps_map ps) ?f")
    case None
    with run mir ok show ?thesis by (simp add: RemoveFromSocialList_def)
  next
    case (Some fi)
    note row = mirrors_row [OF mir Some]
    show ?thesis
    proof (cases "fi_Flags fi AND NOT (flag_for i) = 0")
      case True
      have ps': "ps' = ps\<lparr>ps_map := sm_erase ?f (ps_map ps)\<rparr>" and rows': "rows' = sql_delete ?g ?f rows"
        using run True Some by (simp_all add: RemoveFromSocialList_def Let_def)
      have "mirrors ps' (sql_rows ?g rows')"
        using mir by (auto simp: ps' rows' mirrors_def map_of_deleted)
      moreover have "rows_ok (sql_rows ?g rows')"
        using rows_ok_filter [OF ok] by (simp add: rows')
      ultimately show ?thesis by (simp add: ps' rows')
    next
      case False
      have ps': "ps' = ps\<lparr>ps_map := sm_adjust ?f (\<lambda>x. x\<lparr>fi_Flags := fi_Flags fi AND NOT (flag_for i)\<rparr>) (ps_map ps)\<rparr>"
        and rows': "rows' = sql_update (\<lambda>fl. fl AND NOT (flag_for i)) ?g ?f rows"
        using run False Some by (simp_all add: RemoveFromSocialList_def Let_def)
      have "mirrors ps' (sql_rows ?g rows')"
        using mir row by (auto simp: ps' rows' mirrors_def map_of_modified Some)
      moreover have "rows_ok (sql_rows ?g rows')"
        using rows_ok_row_mod_andnot [OF ok row False] by (simp add: rows' row_mod_def)
      ultimately show ?thesis by (simp add: ps' rows')
    qed
  qed
  with ok [of g] show "mirrors ps' (sql_rows (ps_lowGuid ps) rows')" "rows_ok (sql_rows g rows')"
    "g \<noteq> ps_lowGuid ps \<Longrightarrow> sql_rows g rows' = sql_rows g rows"
    "ps_lowGuid ps' = ps_lowGuid ps" "ps_master ps' = ps_master ps"
    by (cases "g = ?g"; simp)+
qed

end
