(* ===== verification/SocialProps.thy ===== *)
theory SocialProps
  imports Social "HOL-Library.Multiset"
begin

text \<open>
  The step relation of the social lists (every request of a client, login, logout) with its
  invariant, the meaning of the two list operations, what a client reads out of the friend
  list packet, and who learns that a player is online.
\<close>

section \<open>Loading from the table\<close>

lemma listed_flags_split:
  "listed_flags fl \<Longrightarrow> \<not> has_flag fl SOCIAL_FLAG_IGNORED \<Longrightarrow> has_flag fl SOCIAL_FLAG_FRIEND"
  using listed_flags_cases by blast

lemma FriendInfo_flags [simp]: "fi_Flags (FriendInfo fl) = fl"
  by (simp add: FriendInfo_def)

text \<open>Rows within the limits are all taken over, in whatever order they arrive.\<close>

lemma load_rows_complete:
  assumes "\<forall>r \<in> set rs. listed_flags (snd r)"
    and "unat fc + length (filter (\<lambda>r. has_flag (snd r) SOCIAL_FLAG_FRIEND) rs) \<le> 50"
    and "unat ic + length (filter (\<lambda>r. has_flag (snd r) SOCIAL_FLAG_IGNORED) rs) \<le> 25"
  shows "load_rows rs fc ic m = fold (\<lambda>(f, fl). sm_put f (FriendInfo fl)) rs m"
  using assms
proof (induction rs arbitrary: fc ic m)
  case (Cons r rs)
  obtain f fl where r: "r = (f, fl)" by (cases r)
  have ig: "\<not> SOCIALMGR_IGNORE_LIMIT \<le> ic" "unat (ic + 1) = unat ic + 1" if "has_flag fl SOCIAL_FLAG_IGNORED"
    using that Cons.prems(3) unat_u32_add [of ic 1]
    by (simp_all add: r SOCIALMGR_IGNORE_LIMIT_def word_le_nat_alt)
  have fr: "\<not> SOCIALMGR_FRIEND_LIMIT \<le> fc" "unat (fc + 1) = unat fc + 1" if "has_flag fl SOCIAL_FLAG_FRIEND"
    using that Cons.prems(2) unat_u32_add [of fc 1]
    by (simp_all add: r SOCIALMGR_FRIEND_LIMIT_def word_le_nat_alt)
  show ?case
  proof (cases "has_flag fl SOCIAL_FLAG_IGNORED")
    case True
    with ig fr Cons.prems show ?thesis
      by (auto simp: r intro!: Cons.IH split: if_splits)
  next
    case False
    with Cons.prems(1) have "has_flag fl SOCIAL_FLAG_FRIEND" by (simp add: r listed_flags_split)
    with False fr Cons.prems show ?thesis by (auto simp: r intro!: Cons.IH)
  qed
qed simp

lemma fold_put_find:
  "distinct (map fst rs) \<Longrightarrow>
     sm_find (fold (\<lambda>(f, fl). sm_put f (FriendInfo fl)) rs m) x =
     (case map_of rs x of Some fl \<Rightarrow> Some (FriendInfo fl) | None \<Rightarrow> sm_find m x)"
proof (induction rs arbitrary: m)
  case (Cons r rs)
  then have "map_of rs (fst r) = None" by (simp add: map_of_eq_None_iff)
  with Cons show ?case by (cases r) (auto split: option.splits)
qed simp

lemma fold_put_ok: "sm_ok m \<Longrightarrow> sm_ok (fold (\<lambda>(f, fl). sm_put f (FriendInfo fl)) rs m)"
  by (induction rs arbitrary: m) (auto simp: case_prod_beta)

lemma rows_ok_perm:
  assumes "mset rs = mset ss" "rows_ok ss"
  shows "rows_ok rs" "map_of rs = map_of ss"
proof -
  have len: "length (filter P rs) = length (filter P ss)" for P
    using assms(1) by (metis mset_filter size_mset)
  have keys: "distinct (map fst rs)"
    using assms by (metis mset_map mset_eq_imp_distinct_iff rows_ok_def)
  have same: "set rs = set ss" using assms(1) by (rule mset_eq_setD)
  from len keys same assms(2) show "rows_ok rs" by (simp add: rows_ok_def)
  show "map_of rs = map_of ss"
    using keys same assms(2) by (intro map_of_inject_set [THEN iffD2]) (simp_all add: rows_ok_def)
qed

lemma load_rows_mirrors:
  assumes res: "mset res = mset rs" and ok: "rows_ok rs"
    and old: "sm_ok m" "\<And>f. sm_find m f = None \<or> map_of rs f \<noteq> None"
  shows "mirrors (ps\<lparr>ps_lowGuid := g, ps_map := load_rows res 0 0 m\<rparr>) rs"
proof -
  note perm = rows_ok_perm [OF res ok]
  have "load_rows res 0 0 m = fold (\<lambda>(f, fl). sm_put f (FriendInfo fl)) res m"
    using perm(1) by (intro load_rows_complete) (auto simp: rows_ok_def)
  moreover have "map_option fi_Flags (sm_find (fold (\<lambda>(f, fl). sm_put f (FriendInfo fl)) res m) x) = map_of rs x" for x
  proof -
    have "distinct (map fst res)" using perm(1) by (simp add: rows_ok_def)
    from fold_put_find [OF this, of m x] show ?thesis
      using old(2) [of x] by (auto simp: perm(2) FriendInfo_flags split: option.splits)
  qed
  ultimately show ?thesis using old(1) by (simp add: mirrors_def fold_put_ok)
qed

section \<open>The state machine\<close>

text \<open>
  One step is one request of some client, a login (the rows come in any order), a logout, or
  a status message. The players online and the configuration may differ at every step.
\<close>

inductive social_step :: "social_world \<Rightarrow> social_world \<Rightarrow> bool" where
  add_friend: "HandleAddFriendOpcode env me name w = Ok w' \<Longrightarrow> social_step w w'"
| del_friend: "HandleDelFriendOpcode env me guid w = Ok w' \<Longrightarrow> social_step w w'"
| add_ignore: "HandleAddIgnoreOpcode env me name w = Ok w' \<Longrightarrow> social_step w w'"
| del_ignore: "HandleDelIgnoreOpcode env me guid w = Ok w' \<Longrightarrow> social_step w w'"
| friend_list: "HandleFriendListOpcode env me w = Ok w' \<Longrightarrow> social_step w w'"
| ignore_list: "SendIgnoreList env low w = Ok w' \<Longrightarrow> social_step w w'"
| status: "social_step w (SendFriendStatus env pl result guid broadcast w)"
| login: "mset res = mset (sql_rows (GetCounter guid) (sw_table w)) \<Longrightarrow> social_step w (LoadFromDB res guid w)"
| attach: "social_step w (SetMasterPlayer low m w)"
| logout: "social_step w (RemovePlayerSocial low w)"

inductive_cases social_stepE: "social_step w w'"

lemma social_send_frame [simp]:
  "sw_social (social_send low pkt w) = sw_social w" "sw_table (social_send low pkt w) = sw_table w"
  by (simp_all add: social_send_def)

lemma broadcast_loop_frame [simp]:
  "sw_social (broadcast_loop env pl pkt m w) = sw_social w"
  "sw_table (broadcast_loop env pl pkt m w) = sw_table w"
  by (induction env pl pkt m w rule: broadcast_loop.induct) (auto split: option.splits)

lemma SendFriendStatus_frame [simp]:
  "sw_social (SendFriendStatus env pl r g b w) = sw_social w"
  "sw_table (SendFriendStatus env pl r g b w) = sw_table w"
  by (simp_all add: SendFriendStatus_def BroadcastToFriendListers_def Let_def)

lemma social_ok_frame:
  "sw_social w = sw_social w' \<Longrightarrow> sw_table w = sw_table w' \<Longrightarrow> social_ok w \<longleftrightarrow> social_ok w'"
  by (simp add: social_ok_def)

lemma social_ok_status [simp]: "social_ok (SendFriendStatus env pl r g b w) \<longleftrightarrow> social_ok w"
  by (rule social_ok_frame) simp_all

lemma social_ok_send [simp]: "social_ok (social_send low pkt w) \<longleftrightarrow> social_ok w"
  by (rule social_ok_frame) simp_all

lemma social_ok_find:
  "social_ok w \<Longrightarrow> sm_find (sw_social w) g = Some ps \<Longrightarrow>
     ps_lowGuid ps = g \<and> mirrors ps (sql_rows g (sw_table w)) \<and> (\<forall>h. rows_ok (sql_rows h (sw_table w)))"
  by (simp add: social_ok_def)

lemma social_ok_store:
  assumes "social_ok w" "\<And>h. rows_ok (sql_rows h rows)"
    and "\<And>h. h \<noteq> g \<Longrightarrow> sql_rows h rows = sql_rows h (sw_table w)"
    and "ps_lowGuid ps = g" "mirrors ps (sql_rows g rows)"
  shows "social_ok (social_store g ps (w\<lparr>sw_table := rows\<rparr>))"
  using assms by (auto simp: social_ok_def social_store_def)

lemma social_ok_add:
  assumes ok: "social_ok w" and find: "sm_find (sw_social w) g = Some ps"
    and run: "AddToSocialList fg i ps (sw_table w) = (r, ps', rows)"
  shows "social_ok (social_store g ps' (w\<lparr>sw_table := rows\<rparr>))"
proof -
  have g: "ps_lowGuid ps = g" and rows: "\<And>h. rows_ok (sql_rows h (sw_table w))"
    and mir: "mirrors ps (sql_rows (ps_lowGuid ps) (sw_table w))"
    using social_ok_find [OF ok find] by simp_all
  show ?thesis
    using AddToSocialList_keeps [OF run mir rows] unfolding g by (intro social_ok_store [OF ok]) simp_all
qed

lemma social_ok_remove:
  assumes ok: "social_ok w" and find: "sm_find (sw_social w) g = Some ps"
    and run: "RemoveFromSocialList fg i ps (sw_table w) = (ps', rows)"
  shows "social_ok (social_store g ps' (w\<lparr>sw_table := rows\<rparr>))"
proof -
  have g: "ps_lowGuid ps = g" and rows: "\<And>h. rows_ok (sql_rows h (sw_table w))"
    and mir: "mirrors ps (sql_rows (ps_lowGuid ps) (sw_table w))"
    using social_ok_find [OF ok find] by simp_all
  show ?thesis
    using RemoveFromSocialList_keeps [OF run mir rows] unfolding g by (intro social_ok_store [OF ok]) simp_all
qed

lemma social_ok_added:
  assumes "social_ok w" "sm_find (sw_social w) g = Some ps"
  shows "social_ok (social_store g (fst (snd (AddToSocialList fg i ps (sw_table w))))
           (w\<lparr>sw_table := snd (snd (AddToSocialList fg i ps (sw_table w)))\<rparr>))"
  by (rule social_ok_add [OF assms]) (simp add: prod_eq_iff)

lemma social_ok_deleted:
  assumes "social_ok w" "sm_find (sw_social w) g = Some ps"
  shows "social_ok (social_store g (fst (RemoveFromSocialList fg i ps (sw_table w)))
           (w\<lparr>sw_table := snd (RemoveFromSocialList fg i ps (sw_table w))\<rparr>))"
  by (rule social_ok_remove [OF assms]) (simp add: prod_eq_iff)

lemma GetFriendInfo_flags [simp]: "fi_Flags (GetFriendInfo env pl s low fi) = fi_Flags fi"
  by (simp add: GetFriendInfo_def split: option.splits)

lemma friend_walk_flags:
  "map (\<lambda>e. (fst e, fi_Flags (snd e))) (fst (friend_walk env pl s m)) = map (\<lambda>e. (fst e, fi_Flags (snd e))) m"
  by (induction env pl s m rule: friend_walk.induct) (auto simp: Let_def case_prod_beta)

lemma mirrors_same_flags:
  assumes "map (\<lambda>e. (fst e, fi_Flags (snd e))) m' = map (\<lambda>e. (fst e, fi_Flags (snd e))) (ps_map ps)"
    and "mirrors ps rs"
  shows "mirrors (ps\<lparr>ps_map := m'\<rparr>) rs"
proof -
  have "map fst m' = map fst (ps_map ps)"
    using arg_cong [OF assms(1), of "map fst"] by (simp add: comp_def)
  moreover have look: "map_option fi_Flags (sm_find m f) = map_of (map (\<lambda>e. (fst e, fi_Flags (snd e))) m) f" for m f
    by (induction m) (auto simp: sm_find_def)
  have "map_option fi_Flags (sm_find m' f) = map_option fi_Flags (sm_find (ps_map ps) f)" for f
    by (simp only: look assms(1))
  ultimately show ?thesis using assms by (simp add: mirrors_def sm_ok_def)
qed

lemma social_ok_friend_list:
  assumes ok: "social_ok w" and run: "SendFriendList env low w = Ok w'"
  shows "social_ok w'"
proof -
  obtain ps plr where find: "sm_find (sw_social w) low = Some ps"
    and w': "w' = (let (m, pkt) = friend_list_packet env plr ps
                   in social_send (mp_guid plr) pkt (social_store low (ps\<lparr>ps_map := m\<rparr>) w))"
    using run by (auto simp: SendFriendList_def Let_def case_prod_beta split: option.splits)
  define m where "m = fst (friend_walk env plr (ps_map ps) (ps_map ps))"
  have flags: "map (\<lambda>e. (fst e, fi_Flags (snd e))) m = map (\<lambda>e. (fst e, fi_Flags (snd e))) (ps_map ps)"
    unfolding m_def by (rule friend_walk_flags)
  note at = social_ok_find [OF ok find]
  have "social_ok (social_store low (ps\<lparr>ps_map := m\<rparr>) (w\<lparr>sw_table := sw_table w\<rparr>))"
    using at mirrors_same_flags [OF flags] by (intro social_ok_store [OF ok]) simp_all
  then show ?thesis by (simp add: w' friend_list_packet_def Let_def case_prod_beta m_def)
qed

lemma social_ok_load:
  assumes ok: "social_ok w" and res: "mset res = mset (sql_rows (GetCounter guid) (sw_table w))"
  shows "social_ok (LoadFromDB res guid w)"
proof -
  let ?low = "GetCounter guid"
  define ps where "ps = (case sm_find (sw_social w) ?low of None \<Rightarrow> PlayerSocial_new | Some ps \<Rightarrow> ps)"
  have rows: "rows_ok (sql_rows h (sw_table w))" for h using ok by (simp add: social_ok_def)
  have "sm_ok (ps_map ps) \<and> (\<forall>f. sm_find (ps_map ps) f = None \<or> map_of (sql_rows ?low (sw_table w)) f \<noteq> None)"
  proof (cases "sm_find (sw_social w) ?low")
    case None
    then show ?thesis by (simp add: ps_def PlayerSocial_new_def)
  next
    case (Some p)
    then have "mirrors p (sql_rows ?low (sw_table w))" using social_ok_find [OF ok Some] by simp
    then show ?thesis using Some by (auto simp: ps_def mirrors_def) (metis not_None_eq option.simps(9))
  qed
  then have "mirrors (ps\<lparr>ps_lowGuid := ?low, ps_map := load_rows res 0 0 (ps_map ps)\<rparr>) (sql_rows ?low (sw_table w))"
    by (intro load_rows_mirrors [OF res rows]) blast+
  then have "social_ok (social_store ?low (ps\<lparr>ps_lowGuid := ?low, ps_map := load_rows res 0 0 (ps_map ps)\<rparr>)
      (w\<lparr>sw_table := sw_table w\<rparr>))"
    by (intro social_ok_store [OF ok]) (simp_all add: rows)
  then show ?thesis by (simp add: LoadFromDB_def Let_def ps_def)
qed

lemma social_ok_removed:
  assumes ok: "social_ok w" and run: "remove_listed env me g i r w = Ok w'"
  shows "social_ok w'"
  using run by (auto simp: remove_listed_def case_prod_beta Let_def split: option.splits
    intro!: social_ok_deleted [OF ok])

lemma social_ok_attach: "social_ok w \<Longrightarrow> social_ok (SetMasterPlayer low m w)"
  by (auto simp: social_ok_def SetMasterPlayer_def mirrors_def split: if_splits)

lemma social_ok_logout: "social_ok w \<Longrightarrow> social_ok (RemovePlayerSocial low w)"
  by (auto simp: social_ok_def RemovePlayerSocial_def split: if_splits)

lemma social_ok_add_friend:
  assumes ok: "social_ok w" and run: "HandleAddFriendOpcode env me name w = Ok w'"
  shows "social_ok w'"
  using run ok unfolding HandleAddFriendOpcode_def
  by (auto simp: case_prod_beta Let_def split: option.splits if_splits intro!: social_ok_added [OF ok])

lemma social_ok_add_ignore:
  assumes ok: "social_ok w" and run: "HandleAddIgnoreOpcode env me name w = Ok w'"
  shows "social_ok w'"
  using run ok unfolding HandleAddIgnoreOpcode_def
  by (auto simp: case_prod_beta Let_def split: option.splits if_splits intro!: social_ok_added [OF ok])

lemma social_ok_step: "social_step w w' \<Longrightarrow> social_ok w \<Longrightarrow> social_ok w'"
proof (erule social_stepE; (unfold HandleDelFriendOpcode_def HandleDelIgnoreOpcode_def HandleFriendListOpcode_def)?)
qed (auto intro: social_ok_add_friend social_ok_add_ignore social_ok_removed social_ok_friend_list
      social_ok_load social_ok_attach social_ok_logout simp: SendIgnoreList_def split: option.splits)

text \<open>At start-up no list is loaded; the table is whatever earlier runs left, within the limits.\<close>

definition social_start :: "social_world \<Rightarrow> bool" where
  "social_start w \<longleftrightarrow> sw_social w = [] \<and> (\<forall>g. rows_ok (sql_rows g (sw_table w)))"

interpretation so: machine social_start social_step social_ok
  by unfold_locales (simp add: social_start_def social_ok_def, rule social_ok_step)

text \<open>A list that is loaded keeps the limits even when the table does not: see the two counters.\<close>

definition only_friend :: "friend_info \<Rightarrow> bool" where
  "only_friend fi \<longleftrightarrow> has_flag (fi_Flags fi) SOCIAL_FLAG_FRIEND \<and> \<not> has_flag (fi_Flags fi) SOCIAL_FLAG_IGNORED"

definition is_ignored :: "friend_info \<Rightarrow> bool" where
  "is_ignored fi \<longleftrightarrow> has_flag (fi_Flags fi) SOCIAL_FLAG_IGNORED"

lemma count_put_one: "length (filter (\<lambda>e. P (snd e)) (sm_put k v m)) \<le> length (filter (\<lambda>e. P (snd e)) m) + (if P v then 1 else 0)"
  by (induction m) auto

lemma load_rows_within:
  assumes "length (filter (\<lambda>e. only_friend (snd e)) m) \<le> min 50 (unat fc)" and "length (filter (\<lambda>e. is_ignored (snd e)) m) \<le> unat ic"
    and "unat ic \<le> 25" and "unat fc + length rs < 2 ^ 32"
  shows "length (filter (\<lambda>e. only_friend (snd e)) (load_rows rs fc ic m)) \<le> 50 \<and>
    length (filter (\<lambda>e. is_ignored (snd e)) (load_rows rs fc ic m)) \<le> 25"
  using assms
proof (induction rs arbitrary: fc ic m)
  case (Cons r rs)
  obtain f fl where r: "r = (f, fl)" by (cases r)
  let ?m = "sm_put f (FriendInfo fl) m"
  note F = count_put_one [of only_friend f "FriendInfo fl" m] and I = count_put_one [of is_ignored f "FriendInfo fl" m]
  have fc: "unat (fc + 1) = unat fc + 1" using Cons.prems(4) by (simp add: unat_u32_add)
  show ?case
  proof (cases "has_flag fl SOCIAL_FLAG_IGNORED")
    case ig: True
    show ?thesis
    proof (cases "SOCIALMGR_IGNORE_LIMIT \<le> ic \<or> has_flag fl SOCIAL_FLAG_FRIEND \<and> SOCIALMGR_FRIEND_LIMIT \<le> fc")
      case True
      then have "load_rows (r # rs) fc ic m = load_rows rs fc ic m" using ig by (auto simp: r)
      then show ?thesis using Cons.IH [OF Cons.prems(1-3)] Cons.prems(4) by simp
    next
      case False
      then have ic: "unat ic < 25" by (simp add: SOCIALMGR_IGNORE_LIMIT_def word_le_nat_alt not_le)
      then have ic1: "unat (ic + 1) = unat ic + 1" by (simp add: unat_u32_add)
      have "load_rows (r # rs) fc ic m = load_rows rs fc (ic + 1) ?m" using ig False by (auto simp: r)
      moreover have "length (filter (\<lambda>e. only_friend (snd e)) ?m) \<le> min 50 (unat fc)"
        using F Cons.prems(1) ig by (simp add: only_friend_def)
      moreover have "length (filter (\<lambda>e. is_ignored (snd e)) ?m) \<le> unat (ic + 1)"
        using I Cons.prems(2) ic1 by (simp split: if_splits)
      ultimately show ?thesis using Cons.IH [of ?m fc "ic + 1"] Cons.prems(4) ic ic1 by simp
    qed
  next
    case ni: False
    show ?thesis
    proof (cases "has_flag fl SOCIAL_FLAG_FRIEND \<and> SOCIALMGR_FRIEND_LIMIT \<le> fc")
      case True
      then have "load_rows (r # rs) fc ic m = load_rows rs fc ic m" using ni by (auto simp: r)
      then show ?thesis using Cons.IH [OF Cons.prems(1-3)] Cons.prems(4) by simp
    next
      case False
      have "load_rows (r # rs) fc ic m = load_rows rs (fc + 1) ic ?m" using ni False by (auto simp: r)
      moreover have "length (filter (\<lambda>e. only_friend (snd e)) ?m) \<le> min 50 (unat (fc + 1))"
      proof (cases "has_flag fl SOCIAL_FLAG_FRIEND")
        case True
        then have "unat fc < 50" using False by (simp add: SOCIALMGR_FRIEND_LIMIT_def word_le_nat_alt not_le)
        then show ?thesis using F Cons.prems(1) fc by (simp split: if_splits)
      next
        case nf: False
        have "length (filter (\<lambda>e. only_friend (snd e)) ?m) \<le> length (filter (\<lambda>e. only_friend (snd e)) m)"
          using F nf by (simp add: only_friend_def)
        also note Cons.prems(1)
        finally show ?thesis unfolding fc by linarith
      qed
      moreover have "length (filter (\<lambda>e. is_ignored (snd e)) ?m) \<le> unat ic"
        using I Cons.prems(2) ni by (simp add: is_ignored_def)
      ultimately show ?thesis using Cons.IH [of ?m "fc + 1" ic] Cons.prems(3,4) fc by simp
    qed
  qed
qed (use assms in simp)

lemma fresh_load_within:
  assumes "sm_find (sw_social v) (GetCounter guid) = None" and "length res < 2 ^ 32"
    and "sm_find (sw_social (LoadFromDB res guid v)) (GetCounter guid) = Some q"
  shows "length (filter (\<lambda>e. only_friend (snd e)) (ps_map q)) \<le> 50 \<and> length (filter (\<lambda>e. is_ignored (snd e)) (ps_map q)) \<le> 25"
proof -
  have "ps_map q = load_rows res 0 0 []"
    using assms(1,3) by (auto simp: LoadFromDB_def Let_def social_store_def PlayerSocial_new_def)
  then show ?thesis using load_rows_within [of "[]" 0 0 res] assms(2) by simp
qed

text \<open>
  C12: whatever requests, logins and logouts happen, every loaded list has at most 50 friends
  and 25 ignored players, and agrees with the rows of \<^verbatim>\<open>character_social\<close>: the same players
  with the same flags, so that nothing is lost or gained when it is loaded again. This holds from a
  table in which each player's rows name each other player once, as a friend, as ignored or as
  both, with at most 50 friends and 25 ignored. Rows of any other kind are cut at the load: of
  those a player has who is not loaded, at most 50 that are friends alone and at most 25 that are
  ignored, with or without being friends, get into the list.
\<close>

theorem social_lists_within_limits:
  assumes "social_start w" and "social_step\<^sup>*\<^sup>* w w'" and "sm_find (sw_social w') g = Some ps"
    and "sm_find (sw_social v) (GetCounter guid) = None" and "length res < 2 ^ 32"
    and "sm_find (sw_social (LoadFromDB res guid v)) (GetCounter guid) = Some q"
  shows "length (filter (\<lambda>e. has_flag (fi_Flags (snd e)) SOCIAL_FLAG_FRIEND) (ps_map ps)) \<le> 50 \<and>
         length (filter (\<lambda>e. has_flag (fi_Flags (snd e)) SOCIAL_FLAG_IGNORED) (ps_map ps)) \<le> 25 \<and>
         map_option fi_Flags (sm_find (ps_map ps) f) = map_of (sql_rows g (sw_table w')) f \<and>
         length (filter (\<lambda>e. only_friend (snd e)) (ps_map q)) \<le> 50 \<and> length (filter (\<lambda>e. is_ignored (snd e)) (ps_map q)) \<le> 25"
proof -
  have "social_ok w'" using assms(1,2) by (rule so.inv_reachable)
  from social_ok_find [OF this assms(3)]
  have mir: "mirrors ps (sql_rows g (sw_table w'))" and ok: "rows_ok (sql_rows g (sw_table w'))" by simp_all
  with mirrors_count [OF mir ok] fresh_load_within [OF assms(4-6)] show ?thesis
    by (simp add: rows_ok_def mirrors_def)
qed

definition sample_table :: social_table where
  "sample_table = [(7, 9, 1), (7, 11, 2), (8, 7, 3)]"

definition sample_world :: social_world where
  "sample_world = \<lparr>sw_social = [], sw_table = sample_table, sw_out = []\<rparr>"

lemma sample_start: "social_start sample_world"
proof -
  have "rows_ok (sql_rows g sample_table)" for g
    by (cases "g = 7"; cases "g = 8")
       (simp_all add: sql_rows_def sample_table_def rows_ok_def listed_flags_def has_flag_def social_flags)
  then show ?thesis by (simp add: social_start_def sample_world_def)
qed

lemma sample_login: "social_step sample_world (LoadFromDB [(11, 2), (9, 1)] 7 sample_world)"
proof (rule login)
  have "sql_rows (GetCounter 7) (sw_table sample_world) = [(9, 1), (11, 2)]" by code_simp
  then show "mset [(11, 2), (9, 1)] = mset (sql_rows (GetCounter 7) (sw_table sample_world))" by simp
qed

definition sample_full :: "(u32 \<times> u32) list" where
  "sample_full = map (\<lambda>i. (of_nat i, 2)) [1..<28]"

definition sample_ignore_env :: social_env where
  "sample_ignore_env = \<lparr>se_player = (\<lambda>_. None), se_two_side_who = True, se_gm_level_in_who = 0, se_two_side_friend = True,
     se_normalize = Some, se_cache = (\<lambda>n. Some (30, 469))\<rparr>"

definition sample_ignorer :: master_player where
  "sample_ignorer = \<lparr>mp_guid = 7, mp_team = 469, mp_security = 0, mp_afk = False, mp_dnd = False, mp_zone = 1, mp_level = 10,
     mp_class = 1, mp_gm_rank = 0\<rparr>"

definition sample_friended :: social_world where
  "sample_friended =
     (case HandleAddIgnoreOpcode sample_ignore_env sample_ignorer [1] (LoadFromDB [(11, 2), (9, 1)] 7 sample_world) of Ok w \<Rightarrow> w | _ \<Rightarrow> sample_world)"

lemma sample_friended_steps: "social_step\<^sup>*\<^sup>* sample_world sample_friended"
proof -
  have "(case HandleAddIgnoreOpcode sample_ignore_env sample_ignorer [1] (LoadFromDB [(11, 2), (9, 1)] 7 sample_world) of Ok w \<Rightarrow> True | _ \<Rightarrow> False)"
    by code_simp
  then have "HandleAddIgnoreOpcode sample_ignore_env sample_ignorer [1] (LoadFromDB [(11, 2), (9, 1)] 7 sample_world) = Ok sample_friended"
    by (auto simp: sample_friended_def split: outcome.splits)
  then have "social_step (LoadFromDB [(11, 2), (9, 1)] 7 sample_world) sample_friended" by (rule add_ignore)
  then show ?thesis using sample_login by (meson converse_rtranclp_into_rtranclp rtranclp.rtrancl_refl)
qed

theorem social_lists_within_limits_witness:
  "\<exists>ps q. sm_find (sw_social sample_friended) 7 = Some ps \<and> map fst (ps_map ps) = [9, 11, 30] \<and>
     length (filter (\<lambda>e. has_flag (fi_Flags (snd e)) SOCIAL_FLAG_IGNORED) (ps_map ps)) \<le> 25 \<and>
     sql_rows 7 (sw_table sample_friended) = [(9, 1), (11, 2), (30, 2)] \<and>
     sm_find (sw_social (LoadFromDB sample_full 5 sample_world)) 5 = Some q \<and> length (ps_map q) = 25 \<and>
     length (filter (\<lambda>e. is_ignored (snd e)) (ps_map q)) \<le> 25"
proof -
  have "map_option (\<lambda>ps. map fst (ps_map ps)) (sm_find (sw_social sample_friended) 7) = Some [9, 11, 30]" by code_simp
  then obtain ps where ps: "sm_find (sw_social sample_friended) 7 = Some ps" "map fst (ps_map ps) = [9, 11, 30]" by auto
  have rows: "sql_rows 7 (sw_table sample_friended) = [(9, 1), (11, 2), (30, 2)]" by code_simp
  have c1: "GetCounter 5 = 5" by code_simp
  have c2: "sm_find (sw_social sample_world) (GetCounter 5) = None" by code_simp
  have c3: "length sample_full < 2 ^ 32" by (simp add: sample_full_def)
  have "map_option (\<lambda>q. length (ps_map q)) (sm_find (sw_social (LoadFromDB sample_full 5 sample_world)) 5) = Some 25" by code_simp
  then obtain q where q: "sm_find (sw_social (LoadFromDB sample_full 5 sample_world)) 5 = Some q" "length (ps_map q) = 25" by auto
  have q': "sm_find (sw_social (LoadFromDB sample_full 5 sample_world)) (GetCounter 5) = Some q" using q(1) by (simp only: c1)
  note lim = social_lists_within_limits [OF sample_start sample_friended_steps ps(1) c2 c3 q']
  have "length (filter (\<lambda>e. has_flag (fi_Flags (snd e)) SOCIAL_FLAG_IGNORED) (ps_map ps)) \<le> 25"
    "length (filter (\<lambda>e. is_ignored (snd e)) (ps_map q)) \<le> 25"
    using lim by blast+
  then show ?thesis by (intro exI conjI) (rule ps q rows | assumption)+
qed

section \<open>What the operations do\<close>

definition listed :: "bool \<Rightarrow> object_guid \<Rightarrow> player_social \<Rightarrow> bool" where
  "listed ignore guid ps = (if ignore then HasIgnore guid ps else HasFriend guid ps)"

lemma listed_iff:
  "listed i g ps \<longleftrightarrow> (\<exists>fi. sm_find (ps_map ps) (GetCounter g) = Some fi \<and> has_flag (fi_Flags fi) (flag_for i))"
  by (auto simp: listed_def HasFriend_def HasIgnore_def flag_for_def split: option.splits)

lemma has_flag_for_iff [simp]: "has_flag (flag_for i) (flag_for j) \<longleftrightarrow> i = j"
  by (cases i; cases j) (simp_all add: has_flag_def social_flags)

lemma has_flag_andnot: "has_flag (fl AND NOT (flag_for i)) (flag_for j) \<longleftrightarrow> has_flag fl (flag_for j) \<and> j \<noteq> i"
proof -
  have "(fl AND NOT (flag_for i)) AND flag_for j = fl AND (NOT (flag_for i) AND flag_for j)" by (simp add: ac_simps)
  moreover have "NOT (flag_for i) AND flag_for j = (if i = j then 0 else flag_for j)"
    by (cases i; cases j) (simp_all add: social_flags)
  ultimately show ?thesis by (simp add: has_flag_def)
qed

lemma listed_remove:
  assumes "RemoveFromSocialList g i ps rows = (ps', rows')"
  shows "listed j h ps' \<longleftrightarrow> listed j h ps \<and> \<not> (j = i \<and> GetCounter h = GetCounter g)"
proof (cases "sm_find (ps_map ps) (GetCounter g)")
  case None
  then show ?thesis using assms by (auto simp: RemoveFromSocialList_def listed_iff)
next
  case (Some fi)
  have gone: "\<not> has_flag (fi_Flags fi) (flag_for j)" if "fi_Flags fi AND NOT (flag_for i) = 0" "j \<noteq> i"
    using has_flag_andnot [of "fi_Flags fi" i j] that by (simp add: has_flag_def)
  show ?thesis
    using assms Some gone
    by (auto simp: RemoveFromSocialList_def Let_def listed_iff has_flag_andnot split: if_splits)
qed

text \<open>
  C37: adding to a list succeeds exactly below the limit and then changes one thing, the
  membership that was asked for; a refusal changes nothing, in memory or in the table.
  Removing takes back exactly that membership, so an ignore entry survives the end of a
  friendship and the other way round.
\<close>

theorem social_list_operations:
  assumes "AddToSocialList g i ps rows = (r, ps', rows')" and "RemoveFromSocialList g i ps rows = (ps'', rows'')"
  shows "(r \<longleftrightarrow> GetNumberOfSocialsWithFlag (flag_for i) ps < (if i then SOCIALMGR_IGNORE_LIMIT else SOCIALMGR_FRIEND_LIMIT)) \<and>
         (listed j h ps' \<longleftrightarrow> listed j h ps \<or> r \<and> j = i \<and> GetCounter h = GetCounter g) \<and>
         (r \<or> ps' = ps \<and> rows' = rows) \<and>
         (listed j h ps'' \<longleftrightarrow> listed j h ps \<and> \<not> (j = i \<and> GetCounter h = GetCounter g))"
proof (intro conjI)
  show "r \<longleftrightarrow> GetNumberOfSocialsWithFlag (flag_for i) ps < (if i then SOCIALMGR_IGNORE_LIMIT else SOCIALMGR_FRIEND_LIMIT)"
    "r \<or> ps' = ps \<and> rows' = rows"
    using assms(1)
    by (auto simp: AddToSocialList_def Let_def flag_for_def not_le [symmetric] split: if_splits option.splits)
  show "listed j h ps' \<longleftrightarrow> listed j h ps \<or> r \<and> j = i \<and> GetCounter h = GetCounter g"
    using assms(1)
    by (auto simp: AddToSocialList_def Let_def listed_iff has_flag_or FriendInfo_flags
        split: if_splits option.splits)
  show "listed j h ps'' \<longleftrightarrow> listed j h ps \<and> \<not> (j = i \<and> GetCounter h = GetCounter g)"
    by (rule listed_remove [OF assms(2)])
qed

theorem social_list_operations_witness:
  "let ps = \<lparr>ps_lowGuid = 7, ps_map = [(9, FriendInfo 1)], ps_master = None\<rparr>;
       (r, ps', rows') = AddToSocialList 9 True ps [(7, 9, 1)]
   in r \<and> listed True 9 ps' \<and> listed False 9 ps' \<and> rows' = [(7, 9, 3)]"
proof -
  define ps where "ps = \<lparr>ps_lowGuid = 7, ps_map = [(9 :: u32, FriendInfo 1)], ps_master = None\<rparr>"
  define ps' where "ps' = \<lparr>ps_lowGuid = 7, ps_map = [(9 :: u32, FriendInfo 3)], ps_master = None\<rparr>"
  have add: "AddToSocialList 9 True ps [(7, 9, 1)] = (True, ps', [(7, 9, 3)])"
    unfolding ps_def ps'_def by code_simp
  have del: "RemoveFromSocialList 9 True ps [(7, 9, 1)] = (ps, [(7, 9, 1)])"
    unfolding ps_def by code_simp
  have "listed False 9 ps" unfolding ps_def by code_simp
  with social_list_operations [OF add del, of True 9] social_list_operations [OF add del, of False 9] add
  show ?thesis by (simp add: ps_def [symmetric] Let_def)
qed

section \<open>The friend list packet\<close>

text \<open>The client's side: as many entries as the first byte says, and nothing after them.\<close>

fun read_friends :: "nat \<Rightarrow> u8 list \<Rightarrow> (u64 \<times> u8 \<times> u32 \<times> u32 \<times> u32) list option" where
  "read_friends 0 bs = (if bs = [] then Some [] else None)"
| "read_friends (Suc n) bs =
     (if length bs < 9 then None
      else if bs ! 8 = 0 then map_option ((#) (rd (take 8 bs), 0, 0, 0, 0)) (read_friends n (drop 9 bs))
      else if length bs < 21 then None
      else map_option ((#) (rd (take 8 bs), bs ! 8, rd (take 4 (drop 9 bs)), rd (take 4 (drop 13 bs)),
                            rd (take 4 (drop 17 bs)))) (read_friends n (drop 21 bs)))"

definition shown_friend :: "u32 \<Rightarrow> friend_info \<Rightarrow> u64 \<times> u8 \<times> u32 \<times> u32 \<times> u32" where
  "shown_friend low fi =
     (guid_of_counter HIGHGUID_PLAYER low, status_code (fi_Status fi), fi_Area fi, fi_Level fi, fi_Class fi)"

lemma read_friend_entry:
  assumes "fi_Status fi = FRIEND_STATUS_OFFLINE \<Longrightarrow> fi_Area fi = 0 \<and> fi_Level fi = 0 \<and> fi_Class fi = 0"
  shows "read_friends (Suc n) (friend_entry low fi @ bs) = map_option ((#) (shown_friend low fi)) (read_friends n bs)"
proof (cases "fi_Status fi = FRIEND_STATUS_OFFLINE")
  case True
  with assms show ?thesis by (simp add: friend_entry_def shown_friend_def nth_append)
next
  case False
  then have "status_code (fi_Status fi) \<noteq> 0" by (cases "fi_Status fi") simp_all
  then show ?thesis by (simp add: friend_entry_def shown_friend_def nth_append)
qed

lemma GetFriendInfo_offline:
  "sm_has s low \<Longrightarrow> fi_Status (GetFriendInfo env pl s low fi) = FRIEND_STATUS_OFFLINE \<Longrightarrow>
     fi_Area (GetFriendInfo env pl s low fi) = 0 \<and> fi_Level (GetFriendInfo env pl s low fi) = 0 \<and>
     fi_Class (GetFriendInfo env pl s low fi) = 0"
  by (auto simp: GetFriendInfo_def split: option.splits if_splits)

lemma read_friend_walk:
  assumes "\<forall>e \<in> set m. sm_has s (fst e)"
  shows "read_friends (length (filter (\<lambda>e. has_flag (fi_Flags (snd e)) SOCIAL_FLAG_FRIEND) m)) (snd (friend_walk env pl s m)) =
         Some (map (\<lambda>e. shown_friend (fst e) (GetFriendInfo env pl s (fst e) (snd e)))
                (filter (\<lambda>e. has_flag (fi_Flags (snd e)) SOCIAL_FLAG_FRIEND) m))"
  using assms
  by (induction env pl s m rule: friend_walk.induct)
     (simp_all add: Let_def case_prod_beta read_friend_entry GetFriendInfo_offline del: read_friends.simps(2))

text \<open>
  C40: a client that reads SMSG_FRIEND_LIST finds as many entries as the count byte says and
  nothing behind them, one for each player marked as a friend, in GUID order, with the state
  the server computed for him. This needs the list to have less than 256 friends, which the
  limit of 50 gives.
\<close>

theorem friend_list_readable:
  assumes "length (filter (\<lambda>e. has_flag (fi_Flags (snd e)) SOCIAL_FLAG_FRIEND) (ps_map ps)) < 256"
    and "friend_list_packet env pl ps = (m, op, n # bytes)"
  shows "op = SMSG_FRIEND_LIST \<and>
         read_friends (unat n) bytes =
           Some (map (\<lambda>e. shown_friend (fst e) (GetFriendInfo env pl (ps_map ps) (fst e) (snd e)))
                  (filter (\<lambda>e. has_flag (fi_Flags (snd e)) SOCIAL_FLAG_FRIEND) (ps_map ps)))"
proof -
  define k where "k = length (filter (\<lambda>e. has_flag (fi_Flags (snd e)) SOCIAL_FLAG_FRIEND) (ps_map ps))"
  have n: "n = ucast (of_nat k :: u32)" and op: "op = SMSG_FRIEND_LIST"
    and bytes: "bytes = snd (friend_walk env pl (ps_map ps) (ps_map ps))"
    using assms(2) by (auto simp: friend_list_packet_def number_of_socials k_def Let_def case_prod_beta)
  have "unat (of_nat k :: u32) = k" using assms(1) by (intro unat_of_nat_u32) (simp add: k_def)
  then have "unat n = k" using assms(1) by (simp add: n unsigned_ucast_eq unsigned_take_bit_eq k_def [symmetric] take_bit_eq_mod)
  moreover have all: "\<forall>e \<in> set (ps_map ps). sm_has (ps_map ps) (fst e)" by (auto intro: sm_has_set)
  ultimately show ?thesis using read_friend_walk [OF all, of env pl] by (simp add: op bytes k_def)
qed

section \<open>Who learns that a player is online\<close>

lemma broadcast_loop_out:
  assumes "\<And>low p. se_player env low = Some p \<Longrightarrow> mp_guid p = low"
  shows "sw_out (broadcast_loop env pl pkt m w) =
     sw_out w @ map (\<lambda>e. (fst e, pkt)) (filter (\<lambda>e. case se_player env (fst e) of
       None \<Rightarrow> False | Some p \<Rightarrow> lister_sees env pl (snd e) p) m)"
  using assms
  by (induction env pl pkt m w rule: broadcast_loop.induct) (auto simp: social_send_def split: option.splits)

text \<open>
  A status message about a player reaches exactly the online listers whose own friend
  list would show him online at that moment; in particular a plain player is never told
  about a member of the staff above the configured level.
\<close>

theorem status_message_agrees_with_list:
  assumes "\<And>low p. se_player env low = Some p \<Longrightarrow> mp_guid p = low"
    and "sm_ok (sw_social w)" and "sm_find (sw_social w) g = Some ps"
    and "se_player env g = Some viewer" and "se_player env (mp_guid pl) = Some pl"
    and "sm_find (ps_map ps) (mp_guid pl) = Some fi"
  shows "((g, pkt) \<in> set (drop (length (sw_out w)) (sw_out (BroadcastToFriendListers env pl pkt w))) \<longleftrightarrow>
            has_flag (fi_Flags fi) SOCIAL_FLAG_FRIEND \<and>
            fi_Status (GetFriendInfo env viewer (ps_map ps) (mp_guid pl) fi) \<noteq> FRIEND_STATUS_OFFLINE) \<and>
         (mp_security viewer = 0 \<and> mp_security pl > se_gm_level_in_who env \<longrightarrow>
            (g, pkt) \<notin> set (drop (length (sw_out w)) (sw_out (BroadcastToFriendListers env pl pkt w))))"
proof -
  have reach: "(g, pkt) \<in> set (drop (length (sw_out w)) (sw_out (BroadcastToFriendListers env pl pkt w))) \<longleftrightarrow>
      lister_sees env pl ps viewer"
    using assms(3,4)
    by (auto simp: BroadcastToFriendListers_def broadcast_loop_out [OF assms(1)] sm_find_iff [OF assms(2), symmetric]
        intro!: image_eqI [of _ _ "(g, ps)"])
  moreover have "lister_sees env pl ps viewer \<longleftrightarrow> has_flag (fi_Flags fi) SOCIAL_FLAG_FRIEND \<and>
      fi_Status (GetFriendInfo env viewer (ps_map ps) (mp_guid pl) fi) \<noteq> FRIEND_STATUS_OFFLINE"
    using assms(5,6) by (auto simp: lister_sees_def GetFriendInfo_def friend_online_def sm_has_def)
  moreover have "\<not> lister_sees env pl ps viewer" if "mp_security viewer = 0" "mp_security pl > se_gm_level_in_who env"
    using that by (auto simp: lister_sees_def)
  ultimately show ?thesis by blast
qed

definition sample_pl :: "u32 \<Rightarrow> u32 \<Rightarrow> master_player" where
  "sample_pl g sec = \<lparr>mp_guid = g, mp_team = 469, mp_security = sec, mp_afk = False, mp_dnd = False,
     mp_zone = 12, mp_level = 60, mp_class = 1, mp_gm_rank = 0\<rparr>"

definition sample_social_env :: social_env where
  "sample_social_env = \<lparr>se_player = (\<lambda>g. if g = 7 \<or> g = 8 then Some (sample_pl g 0) else if g = 9 then Some (sample_pl 9 3) else None),
     se_two_side_who = False, se_gm_level_in_who = 0, se_two_side_friend = False,
     se_normalize = Some, se_cache = (\<lambda>name. if name = [71] then Some (9, 469) else Some (8, 469))\<rparr>"

definition sample_social :: player_social where
  "sample_social = \<lparr>ps_lowGuid = 7, ps_map = [(8, FriendInfo 1), (9, FriendInfo 1), (11, FriendInfo 2)], ps_master = Some 7\<rparr>"

theorem friend_list_readable_witness:
  "read_friends 2 (tl (snd (snd (friend_list_packet sample_social_env (sample_pl 7 0) sample_social)))) =
     Some [(8, 1, 12, 60, 1), (9, 0, 0, 0, 0)]"
proof -
  obtain m op n bytes where pkt: "friend_list_packet sample_social_env (sample_pl 7 0) sample_social = (m, op, n # bytes)"
    by (auto simp: friend_list_packet_def Let_def case_prod_beta)
  have few: "length (filter (\<lambda>e. has_flag (fi_Flags (snd e)) SOCIAL_FLAG_FRIEND) (ps_map sample_social)) < 256"
    by (simp add: sample_social_def FriendInfo_def has_flag_def social_flags)
  have "hd (snd (snd (friend_list_packet sample_social_env (sample_pl 7 0) sample_social))) = 2"
    by code_simp
  then have n: "n = 2" by (simp add: pkt)
  have "map (\<lambda>e. shown_friend (fst e) (GetFriendInfo sample_social_env (sample_pl 7 0) (ps_map sample_social) (fst e) (snd e)))
      (filter (\<lambda>e. has_flag (fi_Flags (snd e)) SOCIAL_FLAG_FRIEND) (ps_map sample_social)) =
      [(8, 1, 12, 60, 1), (9, 0, 0, 0, 0)]"
    by code_simp
  with friend_list_readable [OF few pkt] show ?thesis by (simp add: pkt n)
qed

theorem status_message_agrees_with_list_witness:
  "let w = \<lparr>sw_social = [(7, sample_social)], sw_table = [], sw_out = []\<rparr>; pkt = (SMSG_FRIEND_STATUS, [2])
   in (7, pkt) \<in> set (sw_out (BroadcastToFriendListers sample_social_env (sample_pl 8 0) pkt w)) \<and>
      (7, pkt) \<notin> set (sw_out (BroadcastToFriendListers sample_social_env (sample_pl 9 3) pkt w))"
proof -
  define w where "w = \<lparr>sw_social = [(7, sample_social)], sw_table = [], sw_out = []\<rparr>"
  define pkt where "pkt = (SMSG_FRIEND_STATUS, [2 :: u8])"
  have env: "mp_guid p = low" if "se_player sample_social_env low = Some p" for low p
    using that by (auto simp: sample_social_env_def sample_pl_def split: if_splits)
  have ok: "sm_ok (sw_social w)" "sm_find (sw_social w) 7 = Some sample_social"
    by (simp_all add: w_def sm_find_def)
  have pl: "se_player sample_social_env 7 = Some (sample_pl 7 0)"
    "se_player sample_social_env (mp_guid (sample_pl 8 0)) = Some (sample_pl 8 0)"
    "se_player sample_social_env (mp_guid (sample_pl 9 3)) = Some (sample_pl 9 3)"
    by (simp_all add: sample_social_env_def sample_pl_def)
  have fi: "sm_find (ps_map sample_social) (mp_guid (sample_pl 8 0)) = Some (FriendInfo 1)"
    "sm_find (ps_map sample_social) (mp_guid (sample_pl 9 3)) = Some (FriendInfo 1)"
    by (simp_all add: sample_social_def sample_pl_def sm_find_def)
  have shown: "has_flag (fi_Flags (FriendInfo 1)) SOCIAL_FLAG_FRIEND"
    "fi_Status (GetFriendInfo sample_social_env (sample_pl 7 0) (ps_map sample_social) (mp_guid (sample_pl 8 0)) (FriendInfo 1))
       \<noteq> FRIEND_STATUS_OFFLINE"
    "mp_security (sample_pl 7 0) = 0 \<and> mp_security (sample_pl 9 3) > se_gm_level_in_who sample_social_env"
    by code_simp+
  have out: "drop (length (sw_out w)) xs = xs" for xs by (simp add: w_def)
  have "(7, pkt) \<in> set (sw_out (BroadcastToFriendListers sample_social_env (sample_pl 8 0) pkt w))"
    using status_message_agrees_with_list [OF env ok pl(1,2) fi(1), of pkt] shown(1,2) unfolding out by blast
  moreover have "(7, pkt) \<notin> set (sw_out (BroadcastToFriendListers sample_social_env (sample_pl 9 3) pkt w))"
    using status_message_agrees_with_list [OF env ok pl(1,3) fi(2), of pkt] shown(3) unfolding out by blast
  ultimately show ?thesis by (simp add: w_def pkt_def Let_def)
qed

text \<open>
  A request to add a friend answers "added, online" from the GM rank alone, so that a plain
  player learns that a member of the staff is online although the data behind it, and every
  later list, show him offline.
\<close>

lemma add_friend_reveals_staff:
  "let w = \<lparr>sw_social = [(7, sample_social\<lparr>ps_map := []\<rparr>)], sw_table = [], sw_out = []\<rparr>
   in (case HandleAddFriendOpcode sample_social_env (sample_pl 7 0) [71] w of Ok w' \<Rightarrow> sw_out w' | _ \<Rightarrow> []) =
        [(7, SMSG_FRIEND_STATUS, [6] @ pguid 9 @ [0] @ p32 0 @ p32 0 @ p32 0)]"
  by code_simp

end
