(* ===== verification/Channel.thy ===== *)
theory Channel
  imports Social "HOL-Library.List_Lexorder" "HOL-Library.Sublist"
begin

text \<open>
  Chat channels: \<^verbatim>\<open>src/game/Chat/Channel.{h,cpp}\<close> and \<^verbatim>\<open>src/game/Chat/ChannelMgr.cpp\<close>. The state
  is the channel with its members and bans, the players whose own channel list holds it, and
  the packets sent. Players found by GUID or by name, the name cache, the DBC store of the
  built-in channels and the configuration are a record of what the code reads. Text
  conversion (UTF-8, letter case) is a parameter. Strings are lists of bytes without the
  terminator.
\<close>

section \<open>Notifications\<close>

datatype chat_notify =
  CHAT_JOINED_NOTICE | CHAT_LEFT_NOTICE | CHAT_YOU_JOINED_NOTICE
| CHAT_YOU_LEFT_NOTICE | CHAT_WRONG_PASSWORD_NOTICE | CHAT_NOT_MEMBER_NOTICE
| CHAT_NOT_MODERATOR_NOTICE | CHAT_PASSWORD_CHANGED_NOTICE | CHAT_OWNER_CHANGED_NOTICE
| CHAT_PLAYER_NOT_FOUND_NOTICE | CHAT_NOT_OWNER_NOTICE | CHAT_CHANNEL_OWNER_NOTICE
| CHAT_MODE_CHANGE_NOTICE | CHAT_ANNOUNCEMENTS_ON_NOTICE | CHAT_ANNOUNCEMENTS_OFF_NOTICE
| CHAT_MODERATION_ON_NOTICE | CHAT_MODERATION_OFF_NOTICE | CHAT_MUTED_NOTICE
| CHAT_PLAYER_KICKED_NOTICE | CHAT_BANNED_NOTICE | CHAT_PLAYER_BANNED_NOTICE
| CHAT_PLAYER_UNBANNED_NOTICE | CHAT_PLAYER_NOT_BANNED_NOTICE | CHAT_PLAYER_ALREADY_MEMBER_NOTICE
| CHAT_INVITE_NOTICE | CHAT_INVITE_WRONG_FACTION_NOTICE | CHAT_WRONG_FACTION_NOTICE
| CHAT_INVALID_NAME_NOTICE | CHAT_NOT_MODERATED_NOTICE | CHAT_PLAYER_INVITED_NOTICE
| CHAT_PLAYER_INVITE_BANNED_NOTICE | CHAT_THROTTLED_NOTICE

primrec notify_code :: "chat_notify \<Rightarrow> u8" where
  "notify_code CHAT_JOINED_NOTICE = 0x00"
| "notify_code CHAT_LEFT_NOTICE = 0x01"
| "notify_code CHAT_YOU_JOINED_NOTICE = 0x02"
| "notify_code CHAT_YOU_LEFT_NOTICE = 0x03"
| "notify_code CHAT_WRONG_PASSWORD_NOTICE = 0x04"
| "notify_code CHAT_NOT_MEMBER_NOTICE = 0x05"
| "notify_code CHAT_NOT_MODERATOR_NOTICE = 0x06"
| "notify_code CHAT_PASSWORD_CHANGED_NOTICE = 0x07"
| "notify_code CHAT_OWNER_CHANGED_NOTICE = 0x08"
| "notify_code CHAT_PLAYER_NOT_FOUND_NOTICE = 0x09"
| "notify_code CHAT_NOT_OWNER_NOTICE = 0x0A"
| "notify_code CHAT_CHANNEL_OWNER_NOTICE = 0x0B"
| "notify_code CHAT_MODE_CHANGE_NOTICE = 0x0C"
| "notify_code CHAT_ANNOUNCEMENTS_ON_NOTICE = 0x0D"
| "notify_code CHAT_ANNOUNCEMENTS_OFF_NOTICE = 0x0E"
| "notify_code CHAT_MODERATION_ON_NOTICE = 0x0F"
| "notify_code CHAT_MODERATION_OFF_NOTICE = 0x10"
| "notify_code CHAT_MUTED_NOTICE = 0x11"
| "notify_code CHAT_PLAYER_KICKED_NOTICE = 0x12"
| "notify_code CHAT_BANNED_NOTICE = 0x13"
| "notify_code CHAT_PLAYER_BANNED_NOTICE = 0x14"
| "notify_code CHAT_PLAYER_UNBANNED_NOTICE = 0x15"
| "notify_code CHAT_PLAYER_NOT_BANNED_NOTICE = 0x16"
| "notify_code CHAT_PLAYER_ALREADY_MEMBER_NOTICE = 0x17"
| "notify_code CHAT_INVITE_NOTICE = 0x18"
| "notify_code CHAT_INVITE_WRONG_FACTION_NOTICE = 0x19"
| "notify_code CHAT_WRONG_FACTION_NOTICE = 0x1A"
| "notify_code CHAT_INVALID_NAME_NOTICE = 0x1B"
| "notify_code CHAT_NOT_MODERATED_NOTICE = 0x1C"
| "notify_code CHAT_PLAYER_INVITED_NOTICE = 0x1D"
| "notify_code CHAT_PLAYER_INVITE_BANNED_NOTICE = 0x1E"
| "notify_code CHAT_THROTTLED_NOTICE = 0x1F"

datatype chan_opcode = SMSG_CHANNEL_NOTIFY | SMSG_CHANNEL_LIST | SMSG_MESSAGECHAT

type_synonym chan_packet = "chan_opcode \<times> u8 list"

definition pstr :: "u8 list \<Rightarrow> u8 list" where
  "pstr str = str @ [0]"

text \<open>A literal of the source as bytes.\<close>

definition lit :: "string \<Rightarrow> u8 list" where
  "lit cs = map of_char cs"

section \<open>Flags\<close>

definition CHANNEL_FLAG_CUSTOM :: u8 where "CHANNEL_FLAG_CUSTOM = 0x01"
definition CHANNEL_FLAG_TRADE :: u8 where "CHANNEL_FLAG_TRADE = 0x04"
definition CHANNEL_FLAG_NOT_LFG :: u8 where "CHANNEL_FLAG_NOT_LFG = 0x08"
definition CHANNEL_FLAG_GENERAL :: u8 where "CHANNEL_FLAG_GENERAL = 0x10"
definition CHANNEL_FLAG_CITY :: u8 where "CHANNEL_FLAG_CITY = 0x20"
definition CHANNEL_FLAG_LFG :: u8 where "CHANNEL_FLAG_LFG = 0x40"

definition CHANNEL_DBC_FLAG_ZONE_DEP :: u32 where "CHANNEL_DBC_FLAG_ZONE_DEP = 0x00002"
definition CHANNEL_DBC_FLAG_TRADE :: u32 where "CHANNEL_DBC_FLAG_TRADE = 0x00008"
definition CHANNEL_DBC_FLAG_CITY_ONLY2 :: u32 where "CHANNEL_DBC_FLAG_CITY_ONLY2 = 0x00020"
definition CHANNEL_DBC_FLAG_LFG :: u32 where "CHANNEL_DBC_FLAG_LFG = 0x40000"

definition MEMBER_FLAG_OWNER :: u8 where "MEMBER_FLAG_OWNER = 0x01"
definition MEMBER_FLAG_MODERATOR :: u8 where "MEMBER_FLAG_MODERATOR = 0x02"
definition MEMBER_FLAG_MUTED :: u8 where "MEMBER_FLAG_MUTED = 0x08"

definition SEC_GAMEMASTER :: u32 where "SEC_GAMEMASTER = 3"

lemmas member_flags = MEMBER_FLAG_OWNER_def MEMBER_FLAG_MODERATOR_def MEMBER_FLAG_MUTED_def

section \<open>State\<close>

record player_info =
  pi_player :: object_guid
  pi_flags :: u8

definition PlayerInfo_new :: player_info where
  "PlayerInfo_new = \<lparr>pi_player = 0, pi_flags = 0\<rparr>"

definition pi_HasFlag :: "u8 \<Rightarrow> player_info \<Rightarrow> bool" where
  "pi_HasFlag flag i \<longleftrightarrow> pi_flags i AND flag \<noteq> 0"

definition pi_IsOwner :: "player_info \<Rightarrow> bool" where
  "pi_IsOwner i \<longleftrightarrow> pi_flags i AND MEMBER_FLAG_OWNER \<noteq> 0"

definition pi_IsModerator :: "player_info \<Rightarrow> bool" where
  "pi_IsModerator i \<longleftrightarrow> pi_flags i AND MEMBER_FLAG_MODERATOR \<noteq> 0"

definition pi_IsMuted :: "player_info \<Rightarrow> bool" where
  "pi_IsMuted i \<longleftrightarrow> pi_flags i AND MEMBER_FLAG_MUTED \<noteq> 0"

definition pi_SetOwner :: "bool \<Rightarrow> player_info \<Rightarrow> player_info" where
  "pi_SetOwner state i =
     i\<lparr>pi_flags := (if state then pi_flags i OR MEMBER_FLAG_OWNER else pi_flags i AND NOT MEMBER_FLAG_OWNER)\<rparr>"

definition pi_SetModerator :: "bool \<Rightarrow> player_info \<Rightarrow> player_info" where
  "pi_SetModerator state i =
     i\<lparr>pi_flags := (if state then pi_flags i OR MEMBER_FLAG_MODERATOR else pi_flags i AND NOT MEMBER_FLAG_MODERATOR)\<rparr>"

definition pi_SetMuted :: "bool \<Rightarrow> player_info \<Rightarrow> player_info" where
  "pi_SetMuted state i =
     i\<lparr>pi_flags := (if state then pi_flags i OR MEMBER_FLAG_MUTED else pi_flags i AND NOT MEMBER_FLAG_MUTED)\<rparr>"

text \<open>
  \<^verbatim>\<open>cs_joined\<close> lists the players whose \<^verbatim>\<open>m_channels\<close> holds this channel, once per occurrence;
  \<^verbatim>\<open>cs_out\<close> is what was sent and to whom. The other fields are the members of the class.
\<close>

record chan_state =
  ch_area_dependant :: bool
  ch_announce :: bool
  ch_moderate :: bool
  ch_levelRestricted :: bool
  ch_name :: "u8 list"
  ch_password :: "u8 list"
  ch_flags :: u8
  ch_securityLevel :: u8
  ch_channelId :: u32
  ch_ownerGuid :: object_guid
  ch_players :: "(object_guid, player_info) smap"
  ch_banned :: "object_guid set"
  cs_joined :: "object_guid list"
  cs_out :: "(object_guid \<times> chan_packet) list"

text \<open>What the code reads of a player (\<^verbatim>\<open>Player\<close> when \<open>cp_node\<close>, else \<^verbatim>\<open>MasterPlayer\<close>) and of the session.\<close>

record chan_player =
  cp_guid :: object_guid
  cp_name :: "u8 list"
  cp_team :: u32
  cp_security :: u32
  cp_guild :: u32
  cp_level :: u32
  cp_social :: player_social
  cp_tag :: u8
  cp_accountFlags :: u32
  cp_maxLevel :: u32
  cp_node :: bool

record chat_entry =
  cc_ChannelID :: u32
  cc_flags :: u32
  cc_pattern :: "u8 list list"

text \<open>
  \<open>ce_node_*\<close>, \<open>ce_master_*\<close>: the players the object accessor finds by GUID and by name, in
  both of its tables; \<open>ce_world_*\<close>: the look-ups of \<^verbatim>\<open>ObjectMgr::GetPlayer\<close>, players in the
  world only; \<open>ce_visible a b\<close>: \<open>a\<close> is globally visible for \<open>b\<close>.
\<close>

record chan_env =
  ce_node_guid :: "object_guid \<Rightarrow> chan_player option"
  ce_node_name :: "u8 list \<Rightarrow> chan_player option"
  ce_master_guid :: "object_guid \<Rightarrow> chan_player option"
  ce_master_name :: "u8 list \<Rightarrow> chan_player option"
  ce_world_guid :: "object_guid \<Rightarrow> chan_player option"
  ce_world_name :: "u8 list \<Rightarrow> chan_player option"
  ce_visible :: "object_guid \<Rightarrow> object_guid \<Rightarrow> bool"
  ce_name_of :: "object_guid \<Rightarrow> u8 list option"
  ce_entries :: "chat_entry list"
  ce_normalize :: "u8 list \<Rightarrow> u8 list option"
  ce_wlower :: "u8 list \<Rightarrow> u32 list"
  ce_two_side :: bool
  ce_silent_gm :: bool
  ce_gm_level_in_who :: u32
  ce_mute_vanish_level :: u32
  ce_gm_join_opposite :: bool
  ce_invite_min_level :: u32

section \<open>Built-in channels\<close>

text \<open>
  \<^verbatim>\<open>GetChannelEntryFor\<close>: the first entry one of whose non-empty patterns, less the first
  \<^verbatim>\<open>%s\<close>, occurs in the name.
\<close>

fun remove_first :: "u8 list \<Rightarrow> u8 list \<Rightarrow> u8 list" where
  "remove_first x [] = []"
| "remove_first x (c # cs) = (if prefix x (c # cs) then drop (length x) (c # cs) else c # remove_first x cs)"

definition pattern_matches :: "u8 list \<Rightarrow> u8 list \<Rightarrow> bool" where
  "pattern_matches name entryName \<longleftrightarrow> entryName \<noteq> [] \<and> sublist (remove_first (lit ''%s'') entryName) name"

definition GetChannelEntryFor :: "chan_env \<Rightarrow> u8 list \<Rightarrow> chat_entry option" where
  "GetChannelEntryFor env name = find (\<lambda>ch. list_ex (pattern_matches name) (cc_pattern ch)) (ce_entries env)"

text \<open>The constructor.\<close>

definition Channel_new :: "chan_env \<Rightarrow> u8 list \<Rightarrow> chan_state" where
  "Channel_new env name =
     (let base = \<lparr>ch_area_dependant = True, ch_announce = True, ch_moderate = False, ch_levelRestricted = True,
                  ch_name = name, ch_password = [], ch_flags = 0, ch_securityLevel = 0, ch_channelId = 0,
                  ch_ownerGuid = 0, ch_players = [], ch_banned = {}, cs_joined = [], cs_out = []\<rparr>
      in case GetChannelEntryFor env name of
           Some ch \<Rightarrow>
             base\<lparr>ch_channelId := cc_ChannelID ch, ch_announce := False,
                  ch_flags := CHANNEL_FLAG_GENERAL
                    OR (if cc_flags ch AND CHANNEL_DBC_FLAG_TRADE \<noteq> 0 then CHANNEL_FLAG_TRADE else 0)
                    OR (if cc_flags ch AND CHANNEL_DBC_FLAG_CITY_ONLY2 \<noteq> 0 then CHANNEL_FLAG_CITY else 0)
                    OR (if cc_flags ch AND CHANNEL_DBC_FLAG_LFG \<noteq> 0 then CHANNEL_FLAG_LFG else CHANNEL_FLAG_NOT_LFG)\<rparr>
         | None \<Rightarrow>
             (let m_name = (case ce_normalize env name of None \<Rightarrow> name | Some n \<Rightarrow> n); s = base\<lparr>ch_name := m_name\<rparr>
              in if m_name = lit ''World'' then s\<lparr>ch_flags := CHANNEL_FLAG_GENERAL, ch_announce := False\<rparr>
                 else if m_name = lit ''China'' \<or> m_name = [0xE4, 0xB8, 0xAD, 0xE5, 0x9B, 0xBD]
                 then s\<lparr>ch_flags := CHANNEL_FLAG_CUSTOM, ch_announce := False\<rparr>
                 else s\<lparr>ch_flags := CHANNEL_FLAG_CUSTOM, ch_levelRestricted := False\<rparr>))"

definition IsConstant :: "chan_state \<Rightarrow> bool" where
  "IsConstant s \<longleftrightarrow> ch_channelId s \<noteq> 0"

definition IsLFG :: "chan_state \<Rightarrow> bool" where
  "IsLFG s \<longleftrightarrow> ch_flags s AND CHANNEL_FLAG_LFG \<noteq> 0"

definition ch_HasFlag :: "u8 \<Rightarrow> chan_state \<Rightarrow> bool" where
  "ch_HasFlag flag s \<longleftrightarrow> ch_flags s AND flag \<noteq> 0"

definition GetNumPlayers :: "chan_state \<Rightarrow> u32" where
  "GetNumPlayers s = of_nat (length (ch_players s))"

definition SetAnnounce :: "bool \<Rightarrow> chan_state \<Rightarrow> chan_state" where
  "SetAnnounce b s = s\<lparr>ch_announce := b\<rparr>"

definition SetSecurityLevel :: "u8 \<Rightarrow> chan_state \<Rightarrow> chan_state" where
  "SetSecurityLevel sec s = s\<lparr>ch_securityLevel := sec\<rparr>"

definition IsOn :: "object_guid \<Rightarrow> chan_state \<Rightarrow> bool" where
  "IsOn who s \<longleftrightarrow> sm_has (ch_players s) who"

definition IsBanned :: "object_guid \<Rightarrow> chan_state \<Rightarrow> bool" where
  "IsBanned guid s \<longleftrightarrow> guid \<in> ch_banned s"

definition GetPlayerFlags :: "object_guid \<Rightarrow> chan_state \<Rightarrow> u8" where
  "GetPlayerFlags p s = (case sm_find (ch_players s) p of None \<Rightarrow> 0 | Some i \<Rightarrow> pi_flags i)"

text \<open>\<^verbatim>\<open>m_players[p]\<close> read where \<open>p\<close> is known to be on the channel.\<close>

definition info_of :: "object_guid \<Rightarrow> chan_state \<Rightarrow> player_info" where
  "info_of p s = (case sm_find (ch_players s) p of None \<Rightarrow> PlayerInfo_new | Some i \<Rightarrow> i)"

text \<open>A write through \<^verbatim>\<open>m_players[p]\<close>: a default entry is inserted first when there is none.\<close>

definition on_player :: "object_guid \<Rightarrow> (player_info \<Rightarrow> player_info) \<Rightarrow> chan_state \<Rightarrow> chan_state" where
  "on_player p f s = s\<lparr>ch_players := sm_adjust p f (sm_touch PlayerInfo_new p (ch_players s))\<rparr>"

section \<open>Sending\<close>

definition GetPlayer :: "chan_env \<Rightarrow> object_guid \<Rightarrow> chan_state \<Rightarrow> chan_player option" where
  "GetPlayer env guid s = (if ch_area_dependant s then ce_node_guid env guid else ce_master_guid env guid)"

definition GetPlayer_name :: "chan_env \<Rightarrow> u8 list \<Rightarrow> chan_state \<Rightarrow> chan_player option" where
  "GetPlayer_name env name s = (if ch_area_dependant s then ce_node_name env name else ce_master_name env name)"

definition chan_send :: "object_guid \<Rightarrow> chan_packet \<Rightarrow> chan_state \<Rightarrow> chan_state" where
  "chan_send g pkt s = s\<lparr>cs_out := cs_out s @ [(g, pkt)]\<rparr>"

definition SendToOne :: "chan_env \<Rightarrow> chan_packet \<Rightarrow> object_guid \<Rightarrow> chan_state \<Rightarrow> chan_state" where
  "SendToOne env pkt who s =
     (case GetPlayer env who s of None \<Rightarrow> s | Some plr \<Rightarrow> chan_send (cp_guid plr) pkt s)"

fun send_all_loop ::
  "chan_env \<Rightarrow> chan_packet \<Rightarrow> object_guid \<Rightarrow> (object_guid \<times> player_info) list \<Rightarrow> chan_state \<Rightarrow> chan_state" where
  "send_all_loop env pkt p [] s = s"
| "send_all_loop env pkt p ((k, i) # m) s =
     send_all_loop env pkt p m
       (case GetPlayer env k s of
          None \<Rightarrow> s
        | Some plr \<Rightarrow> if HasIgnore p (cp_social plr) then s else chan_send (cp_guid plr) pkt s)"

definition SendToAll :: "chan_env \<Rightarrow> chan_packet \<Rightarrow> object_guid \<Rightarrow> chan_state \<Rightarrow> chan_state" where
  "SendToAll env pkt p s = send_all_loop env pkt p (ch_players s) s"

section \<open>Packets\<close>

definition MakeNotifyPacket :: "chat_notify \<Rightarrow> chan_state \<Rightarrow> u8 list" where
  "MakeNotifyPacket notify_type s = [notify_code notify_type] @ pstr (ch_name s)"

definition MakeJoined :: "object_guid \<Rightarrow> chan_state \<Rightarrow> chan_packet" where
  "MakeJoined guid s = (SMSG_CHANNEL_NOTIFY, MakeNotifyPacket CHAT_JOINED_NOTICE s @ pguid guid)"

definition MakeLeft :: "object_guid \<Rightarrow> chan_state \<Rightarrow> chan_packet" where
  "MakeLeft guid s = (SMSG_CHANNEL_NOTIFY, MakeNotifyPacket CHAT_LEFT_NOTICE s @ pguid guid)"

definition MakeYouJoined :: "chan_state \<Rightarrow> chan_packet" where
  "MakeYouJoined s = (SMSG_CHANNEL_NOTIFY, MakeNotifyPacket CHAT_YOU_JOINED_NOTICE s @ [ch_flags s] @ p32 (ch_channelId s) @ p32 0)"

definition MakeYouLeft :: "chan_state \<Rightarrow> chan_packet" where
  "MakeYouLeft s = (SMSG_CHANNEL_NOTIFY, MakeNotifyPacket CHAT_YOU_LEFT_NOTICE s @ p32 (ch_channelId s) @ [0])"

definition MakeWrongPassword :: "chan_state \<Rightarrow> chan_packet" where
  "MakeWrongPassword s = (SMSG_CHANNEL_NOTIFY, MakeNotifyPacket CHAT_WRONG_PASSWORD_NOTICE s)"

definition MakeNotMember :: "chan_state \<Rightarrow> chan_packet" where
  "MakeNotMember s = (SMSG_CHANNEL_NOTIFY, MakeNotifyPacket CHAT_NOT_MEMBER_NOTICE s)"

definition MakeNotModerator :: "chan_state \<Rightarrow> chan_packet" where
  "MakeNotModerator s = (SMSG_CHANNEL_NOTIFY, MakeNotifyPacket CHAT_NOT_MODERATOR_NOTICE s)"

definition MakePasswordChanged :: "object_guid \<Rightarrow> chan_state \<Rightarrow> chan_packet" where
  "MakePasswordChanged guid s = (SMSG_CHANNEL_NOTIFY, MakeNotifyPacket CHAT_PASSWORD_CHANGED_NOTICE s @ pguid guid)"

definition MakeOwnerChanged :: "object_guid \<Rightarrow> chan_state \<Rightarrow> chan_packet" where
  "MakeOwnerChanged guid s = (SMSG_CHANNEL_NOTIFY, MakeNotifyPacket CHAT_OWNER_CHANGED_NOTICE s @ pguid guid)"

definition MakePlayerNotFound :: "u8 list \<Rightarrow> chan_state \<Rightarrow> chan_packet" where
  "MakePlayerNotFound name s = (SMSG_CHANNEL_NOTIFY, MakeNotifyPacket CHAT_PLAYER_NOT_FOUND_NOTICE s @ pstr name)"

definition MakeNotOwner :: "chan_state \<Rightarrow> chan_packet" where
  "MakeNotOwner s = (SMSG_CHANNEL_NOTIFY, MakeNotifyPacket CHAT_NOT_OWNER_NOTICE s)"

definition MakeChannelOwner :: "chan_env \<Rightarrow> chan_state \<Rightarrow> chan_packet" where
  "MakeChannelOwner env s =
     (let name = (case ce_name_of env (ch_ownerGuid s) of
                    None \<Rightarrow> lit ''PLAYER_NOT_FOUND''
                  | Some n \<Rightarrow> if n = [] then lit ''PLAYER_NOT_FOUND'' else n)
      in (SMSG_CHANNEL_NOTIFY, MakeNotifyPacket CHAT_CHANNEL_OWNER_NOTICE s
            @ pstr (if IsConstant s \<or> ch_ownerGuid s = 0 then lit ''Nobody'' else name)))"

definition MakeModeChange :: "object_guid \<Rightarrow> u8 \<Rightarrow> chan_state \<Rightarrow> chan_packet" where
  "MakeModeChange guid oldflags s = (SMSG_CHANNEL_NOTIFY, MakeNotifyPacket CHAT_MODE_CHANGE_NOTICE s @ pguid guid @ [oldflags] @ [GetPlayerFlags guid s])"

definition MakeAnnouncementsOn :: "object_guid \<Rightarrow> chan_state \<Rightarrow> chan_packet" where
  "MakeAnnouncementsOn guid s = (SMSG_CHANNEL_NOTIFY, MakeNotifyPacket CHAT_ANNOUNCEMENTS_ON_NOTICE s @ pguid guid)"

definition MakeAnnouncementsOff :: "object_guid \<Rightarrow> chan_state \<Rightarrow> chan_packet" where
  "MakeAnnouncementsOff guid s = (SMSG_CHANNEL_NOTIFY, MakeNotifyPacket CHAT_ANNOUNCEMENTS_OFF_NOTICE s @ pguid guid)"

definition MakeModerationOn :: "object_guid \<Rightarrow> chan_state \<Rightarrow> chan_packet" where
  "MakeModerationOn guid s = (SMSG_CHANNEL_NOTIFY, MakeNotifyPacket CHAT_MODERATION_ON_NOTICE s @ pguid guid)"

definition MakeModerationOff :: "object_guid \<Rightarrow> chan_state \<Rightarrow> chan_packet" where
  "MakeModerationOff guid s = (SMSG_CHANNEL_NOTIFY, MakeNotifyPacket CHAT_MODERATION_OFF_NOTICE s @ pguid guid)"

definition MakeMuted :: "chan_state \<Rightarrow> chan_packet" where
  "MakeMuted s = (SMSG_CHANNEL_NOTIFY, MakeNotifyPacket CHAT_MUTED_NOTICE s)"

definition MakePlayerKicked :: "object_guid \<Rightarrow> object_guid \<Rightarrow> chan_state \<Rightarrow> chan_packet" where
  "MakePlayerKicked bad good s = (SMSG_CHANNEL_NOTIFY, MakeNotifyPacket CHAT_PLAYER_KICKED_NOTICE s @ pguid bad @ pguid good)"

definition MakeBanned :: "chan_state \<Rightarrow> chan_packet" where
  "MakeBanned s = (SMSG_CHANNEL_NOTIFY, MakeNotifyPacket CHAT_BANNED_NOTICE s)"

definition MakePlayerBanned :: "object_guid \<Rightarrow> object_guid \<Rightarrow> chan_state \<Rightarrow> chan_packet" where
  "MakePlayerBanned bad good s = (SMSG_CHANNEL_NOTIFY, MakeNotifyPacket CHAT_PLAYER_BANNED_NOTICE s @ pguid bad @ pguid good)"

definition MakePlayerUnbanned :: "object_guid \<Rightarrow> object_guid \<Rightarrow> chan_state \<Rightarrow> chan_packet" where
  "MakePlayerUnbanned bad good s = (SMSG_CHANNEL_NOTIFY, MakeNotifyPacket CHAT_PLAYER_UNBANNED_NOTICE s @ pguid bad @ pguid good)"

definition MakePlayerAlreadyMember :: "object_guid \<Rightarrow> chan_state \<Rightarrow> chan_packet" where
  "MakePlayerAlreadyMember guid s = (SMSG_CHANNEL_NOTIFY, MakeNotifyPacket CHAT_PLAYER_ALREADY_MEMBER_NOTICE s @ pguid guid)"

definition MakeInvite :: "object_guid \<Rightarrow> chan_state \<Rightarrow> chan_packet" where
  "MakeInvite guid s = (SMSG_CHANNEL_NOTIFY, MakeNotifyPacket CHAT_INVITE_NOTICE s @ pguid guid)"

definition MakeInviteWrongFaction :: "chan_state \<Rightarrow> chan_packet" where
  "MakeInviteWrongFaction s = (SMSG_CHANNEL_NOTIFY, MakeNotifyPacket CHAT_INVITE_WRONG_FACTION_NOTICE s)"

definition MakePlayerInvited :: "u8 list \<Rightarrow> chan_state \<Rightarrow> chan_packet" where
  "MakePlayerInvited name s = (SMSG_CHANNEL_NOTIFY, MakeNotifyPacket CHAT_PLAYER_INVITED_NOTICE s @ pstr name)"

section \<open>Owner\<close>

text \<open>
  \<^verbatim>\<open>SetOwner(guid, exclaim)\<close>. A new owner who is not on the channel is entered by
  \<^verbatim>\<open>operator[]\<close>.
\<close>

definition SetOwner :: "chan_env \<Rightarrow> object_guid \<Rightarrow> bool \<Rightarrow> chan_state \<Rightarrow> chan_state" where
  "SetOwner env guid exclaim s =
     (case GetPlayer env guid s of
        None \<Rightarrow> s
      | Some newp \<Rightarrow>
          (if ch_HasFlag CHANNEL_FLAG_GENERAL s \<and> cp_security newp < SEC_GAMEMASTER then s
           else
             (let s1 = (if ch_ownerGuid s \<noteq> 0
                        then s\<lparr>ch_players := sm_adjust (ch_ownerGuid s) (pi_SetOwner False) (ch_players s)\<rparr> else s);
                  s2 = s1\<lparr>ch_ownerGuid := guid\<rparr>
              in if guid \<noteq> 0
                 then (let oldFlag = GetPlayerFlags guid s2;
                           s3 = on_player guid (pi_SetOwner True) s2;
                           s4 = SendToAll env (MakeModeChange guid oldFlag s3) 0 s3
                       in if exclaim then SendToAll env (MakeOwnerChanged guid s4) 0 s4 else s4)
                 else s2)))"

section \<open>Joining and leaving\<close>

definition announces :: "chan_env \<Rightarrow> chan_player option \<Rightarrow> chan_state \<Rightarrow> bool" where
  "announces env plr s \<longleftrightarrow> ch_announce s \<and>
     (case plr of None \<Rightarrow> True | Some x \<Rightarrow> cp_security x < SEC_GAMEMASTER \<or> \<not> ce_silent_gm env)"

definition JoinedChannel :: "object_guid \<Rightarrow> chan_state \<Rightarrow> chan_state" where
  "JoinedChannel g s = s\<lparr>cs_joined := cs_joined s @ [g]\<rparr>"

definition LeftChannel :: "object_guid \<Rightarrow> chan_state \<Rightarrow> chan_state" where
  "LeftChannel g s = s\<lparr>cs_joined := filter (\<lambda>x. x \<noteq> g) (cs_joined s)\<rparr>"

definition refused_by_level :: "chan_player option \<Rightarrow> chan_state \<Rightarrow> bool" where
  "refused_by_level plr s \<longleftrightarrow> ch_securityLevel s \<noteq> 0 \<and>
     (case plr of None \<Rightarrow> True | Some x \<Rightarrow> cp_security x < ucast (ch_securityLevel s))"

definition enter_channel :: "chan_env \<Rightarrow> object_guid \<Rightarrow> chan_state \<Rightarrow> chan_state" where
  "enter_channel env p s =
     (let s1 = s\<lparr>ch_players := sm_put p \<lparr>pi_player = p, pi_flags = 0\<rparr> (ch_players s)\<rparr>;
          s2 = SendToOne env (MakeYouJoined s1) p s1
      in if ch_HasFlag CHANNEL_FLAG_CUSTOM s2 \<and> \<not> IsConstant s2 \<and> ch_ownerGuid s2 = 0
         then on_player p (pi_SetModerator True) (SetOwner env p (1 < length (ch_players s2)) s2)
         else s2)"

definition Join :: "chan_env \<Rightarrow> object_guid \<Rightarrow> u8 list \<Rightarrow> chan_state \<Rightarrow> chan_state" where
  "Join env p pass s =
     (if IsOn p s then (if IsConstant s then s else SendToOne env (MakePlayerAlreadyMember p s) p s)
      else if IsBanned p s then SendToOne env (MakeBanned s) p s
      else if ch_password s \<noteq> [] \<and> pass \<noteq> ch_password s then SendToOne env (MakeWrongPassword s) p s
      else
        (let plr = GetPlayer env p s
         in if refused_by_level plr s then SendToOne env (MakeWrongPassword s) p s
            else if (case plr of None \<Rightarrow> False | Some x \<Rightarrow> cp_node x \<and> cp_guild x \<noteq> 0 \<and> ch_flags s = 0x38) then s
            else
              (let s1 = (case plr of None \<Rightarrow> s | Some x \<Rightarrow> if cp_node x then JoinedChannel (cp_guid x) s else s);
                   s2 = (if announces env plr s1 then SendToAll env (MakeJoined p s1) 0 s1 else s1)
               in enter_channel env p s2)))"

text \<open>A leaving player that cannot be found is dereferenced when a reply was asked for.\<close>

definition leave_rest :: "chan_env \<Rightarrow> object_guid \<Rightarrow> chan_player option \<Rightarrow> chan_state \<Rightarrow> chan_state" where
  "leave_rest env p plr s =
     (let changeowner = pi_IsOwner (info_of p s);
          s1 = s\<lparr>ch_players := sm_erase p (ch_players s)\<rparr>;
          s2 = (if announces env plr s1 then SendToAll env (MakeLeft p s1) 0 s1 else s1)
      in if changeowner
         then SetOwner env (case ch_players s2 of [] \<Rightarrow> 0 | (k, i) # m \<Rightarrow> pi_player i) True s2
         else s2)"

definition Leave :: "chan_env \<Rightarrow> object_guid \<Rightarrow> bool \<Rightarrow> chan_state \<Rightarrow> (unit, chan_state) outcome" where
  "Leave env p send s =
     (if \<not> IsOn p s then Ok (if send then SendToOne env (MakeNotMember s) p s else s)
      else
        (let plr = GetPlayer env p s
         in if send
            then (case plr of
                    None \<Rightarrow> Undefined
                  | Some x \<Rightarrow> Ok (leave_rest env p plr (LeftChannel (cp_guid x) (SendToOne env (MakeYouLeft s) p s))))
            else Ok (leave_rest env p plr s)))"

section \<open>Moderation\<close>

definition session_security :: "chan_player option \<Rightarrow> u32" where
  "session_security plr = (case plr of None \<Rightarrow> 0 | Some x \<Rightarrow> cp_security x)"

definition remove_player :: "chan_env \<Rightarrow> object_guid \<Rightarrow> object_guid \<Rightarrow> bool \<Rightarrow> chan_state \<Rightarrow> chan_state" where
  "remove_player env good bad ban s =
     (let changeowner = (ch_ownerGuid s = bad);
          new_ban = (ban \<and> \<not> IsBanned bad s);
          s1 = (if new_ban then s\<lparr>ch_banned := insert bad (ch_banned s)\<rparr> else s);
          pkt = (if new_ban then MakePlayerBanned bad good s1 else MakePlayerKicked bad good s1);
          s2 = SendToAll env pkt 0 s1;
          s3 = LeftChannel bad (s2\<lparr>ch_players := sm_erase bad (ch_players s2)\<rparr>)
      in if changeowner then SetOwner env (if ch_players s3 \<noteq> [] then good else 0) True s3 else s3)"

definition KickOrBan :: "chan_env \<Rightarrow> object_guid \<Rightarrow> u8 list \<Rightarrow> bool \<Rightarrow> chan_state \<Rightarrow> chan_state" where
  "KickOrBan env good badname ban s =
     (let sec = session_security (GetPlayer env good s)
      in if \<not> IsOn good s then SendToOne env (MakeNotMember s) good s
         else if \<not> pi_IsModerator (info_of good s) \<and> sec < SEC_GAMEMASTER
         then SendToOne env (MakeNotModerator s) good s
         else
           (case ce_world_name env badname of
              None \<Rightarrow> SendToOne env (MakePlayerNotFound badname s) good s
            | Some bad \<Rightarrow>
                (if \<not> IsOn (cp_guid bad) s then SendToOne env (MakePlayerNotFound badname s) good s
                 else if sec < SEC_GAMEMASTER \<and> cp_guid bad = ch_ownerGuid s \<and> good \<noteq> ch_ownerGuid s
                 then SendToOne env (MakeNotOwner s) good s
                 else remove_player env good (cp_guid bad) ban s)))"

definition UnBan :: "chan_env \<Rightarrow> object_guid \<Rightarrow> u8 list \<Rightarrow> chan_state \<Rightarrow> chan_state" where
  "UnBan env good badname s =
     (let sec = session_security (GetPlayer env good s)
      in if \<not> IsOn good s then SendToOne env (MakeNotMember s) good s
         else if \<not> pi_IsModerator (info_of good s) \<and> sec < SEC_GAMEMASTER
         then SendToOne env (MakeNotModerator s) good s
         else
           (case ce_world_name env badname of
              None \<Rightarrow> SendToOne env (MakePlayerNotFound badname s) good s
            | Some bad \<Rightarrow>
                (if \<not> IsBanned (cp_guid bad) s then SendToOne env (MakePlayerNotFound badname s) good s
                 else
                   (let s1 = s\<lparr>ch_banned := ch_banned s - {cp_guid bad}\<rparr>
                    in SendToAll env (MakePlayerUnbanned (cp_guid bad) good s1) 0 s1))))"

definition Password :: "chan_env \<Rightarrow> object_guid \<Rightarrow> u8 list \<Rightarrow> chan_state \<Rightarrow> chan_state" where
  "Password env p pass s =
     (let sec = session_security (GetPlayer env p s)
      in if \<not> IsOn p s then SendToOne env (MakeNotMember s) p s
         else if \<not> pi_IsModerator (info_of p s) \<and> sec < SEC_GAMEMASTER
         then SendToOne env (MakeNotModerator s) p s
         else (let s1 = s\<lparr>ch_password := pass\<rparr> in SendToAll env (MakePasswordChanged p s1) 0 s1))"

definition SetModerator :: "chan_env \<Rightarrow> object_guid \<Rightarrow> bool \<Rightarrow> chan_state \<Rightarrow> chan_state" where
  "SetModerator env p state s =
     (let s0 = s\<lparr>ch_players := sm_touch PlayerInfo_new p (ch_players s)\<rparr>
      in if pi_IsModerator (info_of p s0) \<noteq> state
         then (let oldFlag = GetPlayerFlags p s0; s1 = on_player p (pi_SetModerator state) s0
               in SendToAll env (MakeModeChange p oldFlag s1) 0 s1)
         else s0)"

definition SetMute :: "chan_env \<Rightarrow> object_guid \<Rightarrow> bool \<Rightarrow> chan_state \<Rightarrow> chan_state" where
  "SetMute env p state s =
     (let s0 = s\<lparr>ch_players := sm_touch PlayerInfo_new p (ch_players s)\<rparr>
      in if pi_IsMuted (info_of p s0) \<noteq> state
         then (let oldFlag = GetPlayerFlags p s0; s1 = on_player p (pi_SetMuted state) s0
               in SendToAll env (MakeModeChange p oldFlag s1) 0 s1)
         else s0)"

text \<open>
  \<^verbatim>\<open>SetMode\<close>. The copy \<^verbatim>\<open>PlayerInfo inf = m_players[...]\<close> is not used, but reading it enters the
  named player on the channel before the test that he is on it.
\<close>

definition SetMode :: "chan_env \<Rightarrow> object_guid \<Rightarrow> u8 list \<Rightarrow> bool \<Rightarrow> bool \<Rightarrow> chan_state \<Rightarrow> chan_state" where
  "SetMode env p p2n md state s =
     (case GetPlayer env p s of
        None \<Rightarrow> s
      | Some plr \<Rightarrow>
          (if \<not> IsOn p s then SendToOne env (MakeNotMember s) p s
           else if \<not> pi_IsModerator (info_of p s) \<and> cp_security plr < SEC_GAMEMASTER
           then SendToOne env (MakeNotModerator s) p s
           else
             (case GetPlayer_name env p2n s of
                None \<Rightarrow> SendToOne env (MakePlayerNotFound p2n s) p s
              | Some newp \<Rightarrow>
                  (let g = cp_guid newp;
                       s1 = s\<lparr>ch_players := sm_touch PlayerInfo_new g (ch_players s)\<rparr>
                   in if p = ch_ownerGuid s1 \<and> g = ch_ownerGuid s1 \<and> md then s1
                      else if \<not> IsOn g s1 then SendToOne env (MakePlayerNotFound p2n s1) p s1
                      else if (cp_security plr < SEC_GAMEMASTER \<or> cp_security newp < SEC_GAMEMASTER) \<and>
                              cp_team plr \<noteq> cp_team newp \<and> \<not> ce_two_side env
                      then SendToOne env (MakePlayerNotFound p2n s1) p s1
                      else if ch_ownerGuid s1 = g \<and> ch_ownerGuid s1 \<noteq> p
                      then SendToOne env (MakeNotOwner s1) p s1
                      else if md
                      then (if ch_HasFlag CHANNEL_FLAG_GENERAL s1 \<and> cp_security newp < SEC_GAMEMASTER then s1
                            else SetModerator env g state s1)
                      else SetMute env g state s1))))"

definition SetOwner_name :: "chan_env \<Rightarrow> object_guid \<Rightarrow> u8 list \<Rightarrow> chan_state \<Rightarrow> chan_state" where
  "SetOwner_name env p newname s =
     (case GetPlayer env p s of
        None \<Rightarrow> s
      | Some plr \<Rightarrow>
          (if \<not> IsOn p s then SendToOne env (MakeNotMember s) p s
           else if cp_security plr < SEC_GAMEMASTER \<and> p \<noteq> ch_ownerGuid s
           then SendToOne env (MakeNotOwner s) p s
           else
             (case ce_world_name env newname of
                None \<Rightarrow> SendToOne env (MakePlayerNotFound newname s) p s
              | Some newp \<Rightarrow>
                  (if \<not> IsOn (cp_guid newp) s then SendToOne env (MakePlayerNotFound newname s) p s
                   else if cp_team newp \<noteq> cp_team plr \<and> \<not> ce_two_side env
                   then SendToOne env (MakePlayerNotFound newname s) p s
                   else if ch_HasFlag CHANNEL_FLAG_GENERAL s \<and> cp_security newp < SEC_GAMEMASTER then s
                   else SetOwner env (cp_guid newp) True (on_player (cp_guid newp) (pi_SetModerator True) s)))))"

definition SendWhoOwner :: "chan_env \<Rightarrow> object_guid \<Rightarrow> chan_state \<Rightarrow> chan_state" where
  "SendWhoOwner env p s =
     (if \<not> IsOn p s then SendToOne env (MakeNotMember s) p s else SendToOne env (MakeChannelOwner env s) p s)"

definition Announce :: "chan_env \<Rightarrow> object_guid \<Rightarrow> chan_state \<Rightarrow> chan_state" where
  "Announce env p s =
     (let sec = session_security (GetPlayer env p s)
      in if \<not> IsOn p s then SendToOne env (MakeNotMember s) p s
         else if \<not> pi_IsModerator (info_of p s) \<and> sec < SEC_GAMEMASTER
         then SendToOne env (MakeNotModerator s) p s
         else
           (let s1 = s\<lparr>ch_announce := \<not> ch_announce s\<rparr>
            in SendToAll env (if ch_announce s1 then MakeAnnouncementsOn p s1 else MakeAnnouncementsOff p s1) 0 s1))"

definition Moderate :: "chan_env \<Rightarrow> object_guid \<Rightarrow> chan_state \<Rightarrow> chan_state" where
  "Moderate env p s =
     (let sec = session_security (GetPlayer env p s)
      in if \<not> IsOn p s then SendToOne env (MakeNotMember s) p s
         else if \<not> pi_IsModerator (info_of p s) \<and> sec < SEC_GAMEMASTER
         then SendToOne env (MakeNotModerator s) p s
         else
           (let s1 = s\<lparr>ch_moderate := \<not> ch_moderate s\<rparr>
            in SendToAll env (if ch_moderate s1 then MakeModerationOn p s1 else MakeModerationOff p s1) 0 s1))"

section \<open>Listing, speaking, inviting\<close>

text \<open>
  \<^verbatim>\<open>List\<close>: the asking player is a \<^verbatim>\<open>MasterPlayer\<close> or a \<^verbatim>\<open>Player\<close>, and the members are looked up in
  the table of that kind. The count overwrites a placeholder in front of the entries.
\<close>

definition list_shows :: "chan_env \<Rightarrow> chan_player \<Rightarrow> object_guid \<Rightarrow> bool" where
  "list_shows env player g =
     (case (if cp_node player then ce_world_guid env g else ce_master_guid env g) of
        None \<Rightarrow> False
      | Some plr \<Rightarrow> (0 < cp_security player \<or> cp_security plr \<le> ce_gm_level_in_who env) \<and>
                    ce_visible env (cp_guid plr) (cp_guid player))"

fun list_loop :: "chan_env \<Rightarrow> chan_player \<Rightarrow> (object_guid \<times> player_info) list \<Rightarrow> u8 list \<Rightarrow> u32 \<Rightarrow> u8 list \<times> u32" where
  "list_loop env player [] data count = (data, count)"
| "list_loop env player ((k, i) # m) data count =
     (if list_shows env player k then list_loop env player m (data @ pguid k @ [pi_flags i]) (count + 1)
      else list_loop env player m data count)"

definition List :: "chan_env \<Rightarrow> chan_player \<Rightarrow> chan_state \<Rightarrow> chan_state" where
  "List env player s =
     (let p = cp_guid player
      in if \<not> IsOn p s then SendToOne env (MakeNotMember s) p s
         else
           (let start = [1] @ pstr (ch_name s) @ [ch_flags s];
                (data, count) = list_loop env player (ch_players s) [] 0
            in SendToOne env (SMSG_CHANNEL_LIST, start @ p32 count @ data) p s))"

definition LANG_UNIVERSAL :: u32 where "LANG_UNIVERSAL = 0"
definition CHAT_MSG_CHANNEL :: u8 where "CHAT_MSG_CHANNEL = 0x0E"
definition ACCOUNT_FLAG_MUTED_FROM_PUBLIC_CHANNELS :: u32 where "ACCOUNT_FLAG_MUTED_FROM_PUBLIC_CHANNELS = 0x1"

definition say_packet :: "chan_player option \<Rightarrow> object_guid \<Rightarrow> u8 list \<Rightarrow> u32 \<Rightarrow> chan_state \<Rightarrow> chan_packet" where
  "say_packet plr p what lang s =
     (SMSG_MESSAGECHAT,
      [CHAT_MSG_CHANNEL] @ p32 lang @ pstr (ch_name s) @ p32 0 @ pguid p @ p32 (of_nat (length what) + 1)
      @ pstr what @ [case plr of None \<Rightarrow> 0 | Some x \<Rightarrow> cp_tag x])"

definition Say :: "chan_env \<Rightarrow> object_guid \<Rightarrow> u8 list option \<Rightarrow> u32 \<Rightarrow> bool \<Rightarrow> chan_state \<Rightarrow> chan_state" where
  "Say env p what lang skipCheck s =
     (case what of
        None \<Rightarrow> s
      | Some msg \<Rightarrow>
          (let lang = (if ce_two_side env then LANG_UNIVERSAL else lang);
               plr = GetPlayer env p s;
               sec = session_security plr
           in if \<not> skipCheck \<and> \<not> IsOn p s then SendToOne env (MakeNotMember s) p s
              else if \<not> skipCheck \<and> pi_IsMuted (info_of p s) then SendToOne env (MakeMuted s) p s
              else if \<not> skipCheck \<and> ch_moderate s \<and> \<not> pi_IsModerator (info_of p s) \<and> sec < SEC_GAMEMASTER
              then SendToOne env (MakeNotModerator s) p s
              else
                (let pkt = say_packet plr p msg lang s;
                     to_all = SendToAll env pkt (if \<not> skipCheck \<and> \<not> pi_IsModerator (info_of p s) then p else 0) s
                 in case plr of
                      Some x \<Rightarrow>
                        if \<not> skipCheck \<and> cp_accountFlags x AND ACCOUNT_FLAG_MUTED_FROM_PUBLIC_CHANNELS \<noteq> 0 \<and>
                           cp_maxLevel x < ce_mute_vanish_level env
                        then chan_send (cp_guid x) pkt s else to_all
                    | None \<Rightarrow> to_all)))"

definition Invite :: "chan_env \<Rightarrow> object_guid \<Rightarrow> u8 list \<Rightarrow> chan_state \<Rightarrow> chan_state" where
  "Invite env p newname s =
     (if \<not> IsOn p s then SendToOne env (MakeNotMember s) p s
      else
        (case GetPlayer_name env newname s of
           None \<Rightarrow> SendToOne env (MakePlayerNotFound newname s) p s
         | Some newp \<Rightarrow>
             (case GetPlayer env p s of
                None \<Rightarrow> s
              | Some plr \<Rightarrow>
                  (if cp_team newp \<noteq> cp_team plr \<and> \<not> ce_two_side env
                   then SendToOne env (MakeInviteWrongFaction s) p s
                   else if IsOn (cp_guid newp) s
                   then SendToOne env (MakePlayerAlreadyMember (cp_guid newp) s) p s
                   else
                     (let s1 = (if \<not> HasIgnore p (cp_social newp)
                                then SendToOne env (MakeInvite p s) (cp_guid newp) s else s)
                      in SendToOne env (MakePlayerInvited (cp_name newp) s1) p s1)))))"

section \<open>The channel manager\<close>

text \<open>
  One manager per faction; a channel is found under its lower-cased wide name. A returned
  \<^verbatim>\<open>Channel*\<close> is that key. The packets a deleted channel had sent are kept with those of the
  manager.
\<close>

type_synonym chan_key = "u32 list"

record chan_mgr =
  cm_channels :: "(chan_key, chan_state) smap"
  cm_out :: "(object_guid \<times> chan_packet) list"

definition GetJoinChannel :: "chan_env \<Rightarrow> u8 list \<Rightarrow> bool \<Rightarrow> chan_mgr \<Rightarrow> chan_key option \<times> chan_mgr" where
  "GetJoinChannel env name allowAreaDependantChans cm =
     (let wname = ce_wlower env name
      in if \<not> sm_has (cm_channels cm) wname
         then (if \<not> allowAreaDependantChans \<and>
                  (case GetChannelEntryFor env name of None \<Rightarrow> False | Some ch \<Rightarrow> cc_flags ch AND CHANNEL_DBC_FLAG_ZONE_DEP \<noteq> 0)
               then (None, cm)
               else (Some wname, cm\<lparr>cm_channels := sm_put wname (Channel_new env name) (cm_channels cm)\<rparr>))
         else (Some wname, cm))"

definition MakeNotOnPacket :: "u8 list \<Rightarrow> chan_packet" where
  "MakeNotOnPacket name = (SMSG_CHANNEL_NOTIFY, [notify_code CHAT_NOT_MEMBER_NOTICE] @ pstr name)"

definition GetChannel :: "chan_env \<Rightarrow> u8 list \<Rightarrow> object_guid \<Rightarrow> bool \<Rightarrow> chan_mgr \<Rightarrow> chan_key option \<times> chan_mgr" where
  "GetChannel env name p pkt cm =
     (let wname = ce_wlower env name
      in if sm_has (cm_channels cm) wname then (Some wname, cm)
         else (None, if pkt then cm\<lparr>cm_out := cm_out cm @ [(p, MakeNotOnPacket name)]\<rparr> else cm))"

definition mgr_LeftChannel :: "chan_env \<Rightarrow> u8 list \<Rightarrow> chan_mgr \<Rightarrow> chan_mgr" where
  "mgr_LeftChannel env name cm =
     (let wname = ce_wlower env name
      in case sm_find (cm_channels cm) wname of
           None \<Rightarrow> cm
         | Some ch \<Rightarrow>
             (if GetNumPlayers ch = 0 \<and> \<not> IsConstant ch \<and> ch_securityLevel ch = 0
              then cm\<lparr>cm_channels := sm_erase wname (cm_channels cm), cm_out := cm_out cm @ cs_out ch\<rparr> else cm))"

definition mgr_run :: "chan_key \<Rightarrow> (chan_state \<Rightarrow> chan_state) \<Rightarrow> chan_mgr \<Rightarrow> chan_mgr" where
  "mgr_run k f cm = cm\<lparr>cm_channels := sm_adjust k f (cm_channels cm)\<rparr>"

definition default_channels :: "(u8 list \<times> u8) list" where
  "default_channels =
     [(lit ''Warden'', 3), (lit ''Anticrash'', 3), (lit ''Antiflood'', 3), (lit ''ItemsCheck'', 3),
      (lit ''GoldDupe'', 3), (lit ''SAC'', 3), (lit ''MailsAC'', 3), (lit ''BotsDetector'', 3),
      (lit ''ChatSpam'', 1), (lit ''LowLevelBots'', 3)]"

definition CreateDefaultChannels :: "chan_env \<Rightarrow> chan_mgr \<Rightarrow> chan_mgr" where
  "CreateDefaultChannels env cm =
     (let cm1 = fold (\<lambda>(name, sec) cm.
            case GetJoinChannel env name True cm of
              (Some k, cm') \<Rightarrow> mgr_run k (SetSecurityLevel sec) cm' | (None, cm') \<Rightarrow> cm') default_channels cm
      in cm1\<lparr>cm_channels := map (\<lambda>(k, ch). (k, SetAnnounce False ch)) (cm_channels cm1)\<rparr>)"

datatype faction_mgr = AllianceChannelMgr | HordeChannelMgr

definition HORDE :: u32 where "HORDE = 67"
definition ALLIANCE :: u32 where "ALLIANCE = 469"

definition channelMgr :: "chan_env \<Rightarrow> u32 \<Rightarrow> faction_mgr option" where
  "channelMgr env team =
     (if ce_two_side env then Some AllianceChannelMgr
      else if team = ALLIANCE then Some AllianceChannelMgr
      else if team = HORDE then Some HordeChannelMgr
      else None)"

end
