(* ===== verification/ChannelHandlers.thy ===== *)
theory ChannelHandlers
  imports Channel
begin

text \<open>
  The client requests of \<^verbatim>\<open>src/game/Handlers/ChannelHandler.cpp\<close> over the two channel managers.
  \<open>me\<close> is what \<^verbatim>\<open>GetPlayerPointer()\<close> returns, \<open>node\<close> the answer of \<^verbatim>\<open>IsNode()\<close>; a request
  passed on by \<^verbatim>\<open>ForwardPacketToNode\<close> is recorded.
\<close>

record chat_world =
  cw_mgr :: "faction_mgr \<Rightarrow> chan_mgr"
  cw_forwarded :: "object_guid list"

definition set_mgr :: "faction_mgr \<Rightarrow> chan_mgr \<Rightarrow> chat_world \<Rightarrow> chat_world" where
  "set_mgr f cm w = w\<lparr>cw_mgr := (cw_mgr w)(f := cm)\<rparr>"

definition ForwardPacketToNode :: "chan_player \<Rightarrow> chat_world \<Rightarrow> chat_world" where
  "ForwardPacketToNode me w = w\<lparr>cw_forwarded := cw_forwarded w @ [cp_guid me]\<rparr>"

definition opposite_mgr :: "chan_env \<Rightarrow> chan_player \<Rightarrow> faction_mgr option" where
  "opposite_mgr env me = channelMgr env (if cp_team me = ALLIANCE then HORDE else ALLIANCE)"

definition HandleJoinChannelOpcode ::
  "chan_env \<Rightarrow> chan_player \<Rightarrow> bool \<Rightarrow> u8 list \<Rightarrow> u8 list \<Rightarrow> chat_world \<Rightarrow> chat_world" where
  "HandleJoinChannelOpcode env me node channelname pass w =
     (if channelname = [] then w
      else
        (let w1 = (case channelMgr env (cp_team me) of
                     None \<Rightarrow> w
                   | Some f \<Rightarrow>
                       (case GetJoinChannel env channelname node (cw_mgr w f) of
                          (Some k, cm) \<Rightarrow> set_mgr f (mgr_run k (Join env (cp_guid me) pass) cm) w
                        | (None, cm) \<Rightarrow> ForwardPacketToNode me (set_mgr f cm w)))
         in if 0 < cp_security me \<and> ce_gm_join_opposite env
            then (case opposite_mgr env me of
                    None \<Rightarrow> w1
                  | Some f \<Rightarrow>
                      (case GetJoinChannel env channelname True (cw_mgr w1 f) of
                         (Some k, cm) \<Rightarrow>
                           set_mgr f
                             (mgr_run k (\<lambda>ch. if ch_securityLevel ch = 0 then Join env (cp_guid me) pass ch else ch) cm) w1
                       | (None, cm) \<Rightarrow> set_mgr f cm w1))
            else w1))"

text \<open>\<^verbatim>\<open>Leave\<close> on the found channel; its undefined case is passed up.\<close>

definition mgr_leave :: "chan_env \<Rightarrow> object_guid \<Rightarrow> chan_key \<Rightarrow> chan_mgr \<Rightarrow> (unit, chan_mgr) outcome" where
  "mgr_leave env p k cm =
     (case sm_find (cm_channels cm) k of
        None \<Rightarrow> Undefined
      | Some ch \<Rightarrow> obind (Leave env p True ch) (\<lambda>ch'. Ok (mgr_run k (\<lambda>_. ch') cm)))"

definition leave_one ::
  "chan_env \<Rightarrow> chan_player \<Rightarrow> bool \<Rightarrow> u8 list \<Rightarrow> bool \<Rightarrow> faction_mgr \<Rightarrow> chat_world \<Rightarrow> (unit, chat_world) outcome" where
  "leave_one env me node channelname forward f w =
     obind
       (case GetChannel env channelname (cp_guid me) node (cw_mgr w f) of
          (Some k, cm) \<Rightarrow> obind (mgr_leave env (cp_guid me) k cm) (\<lambda>cm'. Ok (set_mgr f cm' w))
        | (None, cm) \<Rightarrow> Ok (if forward then ForwardPacketToNode me (set_mgr f cm w) else set_mgr f cm w))
       (\<lambda>w1. Ok (set_mgr f (mgr_LeftChannel env channelname (cw_mgr w1 f)) w1))"

definition HandleLeaveChannelOpcode ::
  "chan_env \<Rightarrow> chan_player \<Rightarrow> bool \<Rightarrow> u8 list \<Rightarrow> chat_world \<Rightarrow> (unit, chat_world) outcome" where
  "HandleLeaveChannelOpcode env me node channelname w =
     (if channelname = [] then Ok w
      else
        obind (case channelMgr env (cp_team me) of
                 None \<Rightarrow> Ok w | Some f \<Rightarrow> leave_one env me node channelname True f w)
          (\<lambda>w1. if 0 < cp_security me \<and> ce_gm_join_opposite env
                then (case opposite_mgr env me of
                        None \<Rightarrow> Ok w1 | Some f \<Rightarrow> leave_one env me node channelname False f w1)
                else Ok w1))"

text \<open>The shape the other handlers share: find the channel, run the operation, or pass the packet on.\<close>

definition with_channel ::
  "chan_env \<Rightarrow> chan_player \<Rightarrow> bool \<Rightarrow> u8 list \<Rightarrow> (chan_state \<Rightarrow> chan_state) \<Rightarrow> chat_world \<Rightarrow> chat_world" where
  "with_channel env me node channelname oper w =
     (case channelMgr env (cp_team me) of
        None \<Rightarrow> w
      | Some f \<Rightarrow>
          (case GetChannel env channelname (cp_guid me) node (cw_mgr w f) of
             (Some k, cm) \<Rightarrow> set_mgr f (mgr_run k oper cm) w
           | (None, cm) \<Rightarrow> ForwardPacketToNode me (set_mgr f cm w)))"

text \<open>Handlers with the name of another player stop when the name cannot be normalised.\<close>

definition with_named ::
  "chan_env \<Rightarrow> chan_player \<Rightarrow> bool \<Rightarrow> u8 list \<Rightarrow> u8 list \<Rightarrow> (u8 list \<Rightarrow> chan_state \<Rightarrow> chan_state) \<Rightarrow> chat_world \<Rightarrow> chat_world" where
  "with_named env me node channelname name oper w =
     (case ce_normalize env name of None \<Rightarrow> w | Some otp \<Rightarrow> with_channel env me node channelname (oper otp) w)"

definition HandleChannelListOpcode ::
  "chan_env \<Rightarrow> chan_player \<Rightarrow> bool \<Rightarrow> u8 list \<Rightarrow> chat_world \<Rightarrow> chat_world" where
  "HandleChannelListOpcode env me node channelname w =
     with_channel env me node channelname (List env me) w"

definition HandleChannelPasswordOpcode ::
  "chan_env \<Rightarrow> chan_player \<Rightarrow> bool \<Rightarrow> u8 list \<Rightarrow> u8 list \<Rightarrow> chat_world \<Rightarrow> chat_world" where
  "HandleChannelPasswordOpcode env me node channelname pass w =
     with_channel env me node channelname (Password env (cp_guid me) pass) w"

definition HandleChannelSetOwnerOpcode ::
  "chan_env \<Rightarrow> chan_player \<Rightarrow> bool \<Rightarrow> u8 list \<Rightarrow> u8 list \<Rightarrow> chat_world \<Rightarrow> chat_world" where
  "HandleChannelSetOwnerOpcode env me node channelname newp w =
     with_named env me node channelname newp (SetOwner_name env (cp_guid me)) w"

definition HandleChannelOwnerOpcode ::
  "chan_env \<Rightarrow> chan_player \<Rightarrow> bool \<Rightarrow> u8 list \<Rightarrow> chat_world \<Rightarrow> chat_world" where
  "HandleChannelOwnerOpcode env me node channelname w =
     with_channel env me node channelname (SendWhoOwner env (cp_guid me)) w"

definition HandleChannelModeratorOpcode ::
  "chan_env \<Rightarrow> chan_player \<Rightarrow> bool \<Rightarrow> u8 list \<Rightarrow> u8 list \<Rightarrow> chat_world \<Rightarrow> chat_world" where
  "HandleChannelModeratorOpcode env me node channelname otp w =
     with_named env me node channelname otp (\<lambda>name. SetMode env (cp_guid me) name True True) w"

definition HandleChannelUnmoderatorOpcode ::
  "chan_env \<Rightarrow> chan_player \<Rightarrow> bool \<Rightarrow> u8 list \<Rightarrow> u8 list \<Rightarrow> chat_world \<Rightarrow> chat_world" where
  "HandleChannelUnmoderatorOpcode env me node channelname otp w =
     with_named env me node channelname otp (\<lambda>name. SetMode env (cp_guid me) name True False) w"

definition HandleChannelMuteOpcode ::
  "chan_env \<Rightarrow> chan_player \<Rightarrow> bool \<Rightarrow> u8 list \<Rightarrow> u8 list \<Rightarrow> chat_world \<Rightarrow> chat_world" where
  "HandleChannelMuteOpcode env me node channelname otp w =
     with_named env me node channelname otp (\<lambda>name. SetMode env (cp_guid me) name False True) w"

definition HandleChannelUnmuteOpcode ::
  "chan_env \<Rightarrow> chan_player \<Rightarrow> bool \<Rightarrow> u8 list \<Rightarrow> u8 list \<Rightarrow> chat_world \<Rightarrow> chat_world" where
  "HandleChannelUnmuteOpcode env me node channelname otp w =
     with_named env me node channelname otp (\<lambda>name. SetMode env (cp_guid me) name False False) w"

definition HandleChannelInviteOpcode ::
  "chan_env \<Rightarrow> chan_player \<Rightarrow> bool \<Rightarrow> u8 list \<Rightarrow> u8 list \<Rightarrow> chat_world \<Rightarrow> chat_world" where
  "HandleChannelInviteOpcode env me node channelname otp w =
     (case ce_normalize env otp of
        None \<Rightarrow> w
      | Some name \<Rightarrow>
          (if cp_level me < ce_invite_min_level env then w
           else with_channel env me node channelname (Invite env (cp_guid me) name) w))"

definition HandleChannelKickOpcode ::
  "chan_env \<Rightarrow> chan_player \<Rightarrow> bool \<Rightarrow> u8 list \<Rightarrow> u8 list \<Rightarrow> chat_world \<Rightarrow> chat_world" where
  "HandleChannelKickOpcode env me node channelname otp w =
     with_named env me node channelname otp (\<lambda>name. KickOrBan env (cp_guid me) name False) w"

definition HandleChannelBanOpcode ::
  "chan_env \<Rightarrow> chan_player \<Rightarrow> bool \<Rightarrow> u8 list \<Rightarrow> u8 list \<Rightarrow> chat_world \<Rightarrow> chat_world" where
  "HandleChannelBanOpcode env me node channelname otp w =
     with_named env me node channelname otp (\<lambda>name. KickOrBan env (cp_guid me) name True) w"

definition HandleChannelUnbanOpcode ::
  "chan_env \<Rightarrow> chan_player \<Rightarrow> bool \<Rightarrow> u8 list \<Rightarrow> u8 list \<Rightarrow> chat_world \<Rightarrow> chat_world" where
  "HandleChannelUnbanOpcode env me node channelname otp w =
     with_named env me node channelname otp (UnBan env (cp_guid me)) w"

definition HandleChannelAnnouncementsOpcode ::
  "chan_env \<Rightarrow> chan_player \<Rightarrow> bool \<Rightarrow> u8 list \<Rightarrow> chat_world \<Rightarrow> chat_world" where
  "HandleChannelAnnouncementsOpcode env me node channelname w =
     with_channel env me node channelname (Announce env (cp_guid me)) w"

definition HandleChannelModerateOpcode ::
  "chan_env \<Rightarrow> chan_player \<Rightarrow> bool \<Rightarrow> u8 list \<Rightarrow> chat_world \<Rightarrow> chat_world" where
  "HandleChannelModerateOpcode env me node channelname w =
     with_channel env me node channelname (Moderate env (cp_guid me)) w"

text \<open>A message of the server to a channel of both factions.\<close>

definition announce_one :: "chan_env \<Rightarrow> faction_mgr \<Rightarrow> u8 list \<Rightarrow> object_guid \<Rightarrow> u8 list option \<Rightarrow> chat_world \<Rightarrow> chat_world" where
  "announce_one env f name p message w =
     (case GetJoinChannel env name True (cw_mgr w f) of
        (Some k, cm) \<Rightarrow> set_mgr f (mgr_run k (Say env p message LANG_UNIVERSAL True) cm) w
      | (None, cm) \<Rightarrow> set_mgr f cm w)"

definition AnnounceBothFactionsChannel ::
  "chan_env \<Rightarrow> u8 list \<Rightarrow> object_guid \<Rightarrow> u8 list option \<Rightarrow> chat_world \<Rightarrow> chat_world" where
  "AnnounceBothFactionsChannel env channelName p message w =
     (let w1 = (case channelMgr env HORDE of None \<Rightarrow> w | Some f \<Rightarrow> announce_one env f channelName p message w)
      in if ce_two_side env then w1
         else (case channelMgr env ALLIANCE of None \<Rightarrow> w1 | Some f \<Rightarrow> announce_one env f channelName p message w1))"

end
