(* ===== verification/ChannelProps.thy ===== *)
theory ChannelProps
  imports ChannelHandlers
begin

text \<open>
  What the channel code guarantees: who may change a channel, the invariant of its members,
  owner and bans, the effect of a ban, who hears what is said, and what a client reads out of
  the member list. Two behaviours that break the invariant are shown on concrete runs.
\<close>

section \<open>Sending changes nothing but the packets sent\<close>

lemma chan_send_frame [simp]:
  "ch_area_dependant (chan_send g pkt s) = ch_area_dependant s"
  "ch_announce (chan_send g pkt s) = ch_announce s"
  "ch_moderate (chan_send g pkt s) = ch_moderate s"
  "ch_levelRestricted (chan_send g pkt s) = ch_levelRestricted s"
  "ch_name (chan_send g pkt s) = ch_name s"
  "ch_password (chan_send g pkt s) = ch_password s"
  "ch_flags (chan_send g pkt s) = ch_flags s"
  "ch_securityLevel (chan_send g pkt s) = ch_securityLevel s"
  "ch_channelId (chan_send g pkt s) = ch_channelId s"
  "ch_ownerGuid (chan_send g pkt s) = ch_ownerGuid s"
  "ch_players (chan_send g pkt s) = ch_players s"
  "ch_banned (chan_send g pkt s) = ch_banned s"
  "cs_joined (chan_send g pkt s) = cs_joined s"
  by (simp_all add: chan_send_def)

lemma SendToOne_frame [simp]:
  "ch_area_dependant (SendToOne env pkt who s) = ch_area_dependant s"
  "ch_announce (SendToOne env pkt who s) = ch_announce s"
  "ch_moderate (SendToOne env pkt who s) = ch_moderate s"
  "ch_levelRestricted (SendToOne env pkt who s) = ch_levelRestricted s"
  "ch_name (SendToOne env pkt who s) = ch_name s"
  "ch_password (SendToOne env pkt who s) = ch_password s"
  "ch_flags (SendToOne env pkt who s) = ch_flags s"
  "ch_securityLevel (SendToOne env pkt who s) = ch_securityLevel s"
  "ch_channelId (SendToOne env pkt who s) = ch_channelId s"
  "ch_ownerGuid (SendToOne env pkt who s) = ch_ownerGuid s"
  "ch_players (SendToOne env pkt who s) = ch_players s"
  "ch_banned (SendToOne env pkt who s) = ch_banned s"
  "cs_joined (SendToOne env pkt who s) = cs_joined s"
  by (simp_all add: SendToOne_def split: option.splits)

lemma send_all_loop_frame [simp]:
  "ch_area_dependant (send_all_loop env pkt p m s) = ch_area_dependant s"
  "ch_announce (send_all_loop env pkt p m s) = ch_announce s"
  "ch_moderate (send_all_loop env pkt p m s) = ch_moderate s"
  "ch_levelRestricted (send_all_loop env pkt p m s) = ch_levelRestricted s"
  "ch_name (send_all_loop env pkt p m s) = ch_name s"
  "ch_password (send_all_loop env pkt p m s) = ch_password s"
  "ch_flags (send_all_loop env pkt p m s) = ch_flags s"
  "ch_securityLevel (send_all_loop env pkt p m s) = ch_securityLevel s"
  "ch_channelId (send_all_loop env pkt p m s) = ch_channelId s"
  "ch_ownerGuid (send_all_loop env pkt p m s) = ch_ownerGuid s"
  "ch_players (send_all_loop env pkt p m s) = ch_players s"
  "ch_banned (send_all_loop env pkt p m s) = ch_banned s"
  "cs_joined (send_all_loop env pkt p m s) = cs_joined s"
  by (induction env pkt p m s rule: send_all_loop.induct) (simp_all split: option.splits)

lemma SendToAll_frame [simp]:
  "ch_area_dependant (SendToAll env pkt p s) = ch_area_dependant s"
  "ch_announce (SendToAll env pkt p s) = ch_announce s"
  "ch_moderate (SendToAll env pkt p s) = ch_moderate s"
  "ch_levelRestricted (SendToAll env pkt p s) = ch_levelRestricted s"
  "ch_name (SendToAll env pkt p s) = ch_name s"
  "ch_password (SendToAll env pkt p s) = ch_password s"
  "ch_flags (SendToAll env pkt p s) = ch_flags s"
  "ch_securityLevel (SendToAll env pkt p s) = ch_securityLevel s"
  "ch_channelId (SendToAll env pkt p s) = ch_channelId s"
  "ch_ownerGuid (SendToAll env pkt p s) = ch_ownerGuid s"
  "ch_players (SendToAll env pkt p s) = ch_players s"
  "ch_banned (SendToAll env pkt p s) = ch_banned s"
  "cs_joined (SendToAll env pkt p s) = cs_joined s"
  by (simp_all add: SendToAll_def)

section \<open>Well-formed channels\<close>

text \<open>
  Members are stored under their own GUID, only the recorded owner carries the owner flag,
  and nobody on the channel is banned from it.
\<close>

definition members_ok :: "(object_guid, player_info) smap \<Rightarrow> object_guid \<Rightarrow> bool" where
  "members_ok m ow \<longleftrightarrow> sm_ok m \<and>
     (\<forall>k i. sm_find m k = Some i \<longrightarrow> pi_player i = k \<and> (pi_IsOwner i \<longrightarrow> k = ow \<and> k \<noteq> 0))"

definition chan_ok :: "chan_state \<Rightarrow> bool" where
  "chan_ok s \<longleftrightarrow> members_ok (ch_players s) (ch_ownerGuid s) \<and> (\<forall>k \<in> ch_banned s. \<not> IsOn k s)"

lemma pi_player_updates [simp]:
  "pi_player (pi_SetOwner b i) = pi_player i" "pi_player (pi_SetModerator b i) = pi_player i"
  "pi_player (pi_SetMuted b i) = pi_player i"
  by (simp_all add: pi_SetOwner_def pi_SetModerator_def pi_SetMuted_def)

lemma owner_bit: "fl AND MEMBER_FLAG_OWNER \<noteq> 0 \<longleftrightarrow> bit (fl :: u8) 0"
  by (simp add: MEMBER_FLAG_OWNER_def and_one_eq odd_iff_mod_2_eq_one bit_0)

lemma pi_IsOwner_updates [simp]:
  "pi_IsOwner (pi_SetOwner b i) \<longleftrightarrow> b"
  "pi_IsOwner (pi_SetModerator b i) \<longleftrightarrow> pi_IsOwner i"
  "pi_IsOwner (pi_SetMuted b i) \<longleftrightarrow> pi_IsOwner i"
  unfolding pi_IsOwner_def owner_bit
  by (auto simp: pi_SetOwner_def pi_SetModerator_def pi_SetMuted_def member_flags bit_simps)

lemma on_player_frame [simp]:
  "ch_area_dependant (on_player p f s) = ch_area_dependant s"
  "ch_announce (on_player p f s) = ch_announce s"
  "ch_moderate (on_player p f s) = ch_moderate s"
  "ch_levelRestricted (on_player p f s) = ch_levelRestricted s"
  "ch_name (on_player p f s) = ch_name s"
  "ch_password (on_player p f s) = ch_password s"
  "ch_flags (on_player p f s) = ch_flags s"
  "ch_securityLevel (on_player p f s) = ch_securityLevel s"
  "ch_channelId (on_player p f s) = ch_channelId s"
  "ch_ownerGuid (on_player p f s) = ch_ownerGuid s"
  "ch_banned (on_player p f s) = ch_banned s"
  "cs_joined (on_player p f s) = cs_joined s"
  "cs_out (on_player p f s) = cs_out s"
  "ch_players (on_player p f s) = sm_adjust p f (sm_touch PlayerInfo_new p (ch_players s))"
  by (simp_all add: on_player_def)

lemma IsOn_players: "ch_players s = ch_players s' \<Longrightarrow> IsOn k s \<longleftrightarrow> IsOn k s'"
  by (simp add: IsOn_def)

lemma IsOn_frames [simp]:
  "IsOn k (chan_send g pkt s) = IsOn k s" "IsOn k (SendToOne env pkt who s) = IsOn k s"
  "IsOn k (SendToAll env pkt p s) = IsOn k s" "IsOn k (on_player p f s) \<longleftrightarrow> k = p \<or> IsOn k s"
  by (auto simp: IsOn_def)

lemma chan_ok_frame:
  "ch_players s = ch_players s' \<Longrightarrow> ch_ownerGuid s = ch_ownerGuid s' \<Longrightarrow> ch_banned s = ch_banned s' \<Longrightarrow>
     chan_ok s \<longleftrightarrow> chan_ok s'"
  by (simp add: chan_ok_def IsOn_def)

lemma chan_ok_frames [simp]:
  "chan_ok (chan_send g pkt s) = chan_ok s" "chan_ok (SendToOne env pkt who s) = chan_ok s"
  "chan_ok (SendToAll env pkt p s) = chan_ok s"
  "chan_ok (s\<lparr>ch_password := x\<rparr>) = chan_ok s" "chan_ok (s\<lparr>ch_announce := b\<rparr>) = chan_ok s"
  "chan_ok (s\<lparr>ch_moderate := b\<rparr>) = chan_ok s" "chan_ok (s\<lparr>cs_joined := js\<rparr>) = chan_ok s"
  by (rule chan_ok_frame; simp)+

lemma members_ok_adjust:
  assumes "members_ok m ow" "\<And>i. pi_player (f i) = pi_player i" "\<And>i. pi_IsOwner (f i) \<longleftrightarrow> pi_IsOwner i"
  shows "members_ok (sm_adjust k f m) ow"
  using assms by (auto simp: members_ok_def split: if_splits)

lemma members_ok_put: "members_ok m ow \<Longrightarrow> members_ok (sm_put k \<lparr>pi_player = k, pi_flags = 0\<rparr> m) ow"
  by (auto simp: members_ok_def pi_IsOwner_def split: if_splits)

lemma members_ok_erase: "members_ok m ow \<Longrightarrow> members_ok (sm_erase k m) ow"
  by (auto simp: members_ok_def split: if_splits)

lemma members_ok_new_owner:
  assumes "members_ok m ow" and "g \<noteq> 0"
  shows "members_ok (sm_adjust g (pi_SetOwner True) (if ow \<noteq> 0 then sm_adjust ow (pi_SetOwner False) m else m)) g"
  using assms by (auto simp: members_ok_def split: if_splits)

lemma sm_touch_present [simp]: "sm_has m k \<Longrightarrow> sm_touch d k m = m"
  by (simp add: sm_touch_def)

lemma SetOwner_IsOn [simp]: "guid = 0 \<or> IsOn guid s \<Longrightarrow> IsOn k (SetOwner env guid e s) \<longleftrightarrow> IsOn k s"
  by (auto simp: SetOwner_def Let_def IsOn_def split: option.splits)

lemma SetOwner_banned [simp]: "ch_banned (SetOwner env guid e s) = ch_banned s"
  by (simp add: SetOwner_def Let_def split: option.splits)

lemma SetOwner_members:
  assumes ok: "members_ok (ch_players s) (ch_ownerGuid s)" and on: "guid = 0 \<or> IsOn guid s"
  shows "members_ok (ch_players (SetOwner env guid e s)) (ch_ownerGuid (SetOwner env guid e s))"
proof (cases "GetPlayer env guid s")
  case (Some newp)
  have down: "members_ok (if ch_ownerGuid s \<noteq> 0 then sm_adjust (ch_ownerGuid s) (pi_SetOwner False) (ch_players s) else ch_players s) 0"
    using ok by (auto simp: members_ok_def split: if_splits)
  show ?thesis
    using Some ok on down members_ok_new_owner [OF ok, of guid]
    by (cases "guid = 0") (simp_all add: SetOwner_def Let_def IsOn_def split: if_splits)
qed (use ok in \<open>simp add: SetOwner_def\<close>)

lemma chan_ok_SetOwner: "chan_ok s \<Longrightarrow> guid = 0 \<or> IsOn guid s \<Longrightarrow> chan_ok (SetOwner env guid e s)"
  using SetOwner_members [of s guid env e] by (simp add: chan_ok_def)

lemma chan_ok_on_player:
  assumes "chan_ok s" "IsOn k s" "\<And>i. pi_player (f i) = pi_player i" "\<And>i. pi_IsOwner (f i) \<longleftrightarrow> pi_IsOwner i"
  shows "chan_ok (on_player k f s)"
  using assms members_ok_adjust [of "ch_players s" "ch_ownerGuid s" f k]
  by (auto simp: chan_ok_def IsOn_def)

section \<open>Every operation keeps the channel well formed\<close>

lemma chan_ok_joined [simp]:
  "chan_ok (JoinedChannel g s) = chan_ok s" "chan_ok (LeftChannel g s) = chan_ok s"
  "IsOn k (JoinedChannel g s) = IsOn k s" "IsOn k (LeftChannel g s) = IsOn k s"
  by (simp_all add: JoinedChannel_def LeftChannel_def chan_ok_def IsOn_def)

lemma chan_ok_enter:
  assumes ok: "chan_ok s" and new: "p \<notin> ch_banned s"
  shows "chan_ok (enter_channel env p s)" "IsOn k (enter_channel env p s) \<longleftrightarrow> k = p \<or> IsOn k s"
proof -
  define s1 where "s1 = s\<lparr>ch_players := sm_put p \<lparr>pi_player = p, pi_flags = 0\<rparr> (ch_players s)\<rparr>"
  have on: "IsOn x s1 \<longleftrightarrow> x = p \<or> IsOn x s" for x by (simp add: s1_def IsOn_def)
  have ok1: "chan_ok s1" using ok new on by (auto simp: chan_ok_def s1_def members_ok_put IsOn_def)
  let ?s2 = "SendToOne env (MakeYouJoined s1) p s1"
  have own: "chan_ok (SetOwner env p b ?s2)" "IsOn x (SetOwner env p b ?s2) \<longleftrightarrow> x = p \<or> IsOn x s" for b x
    using ok1 on by (simp_all add: chan_ok_SetOwner)
  show "chan_ok (enter_channel env p s)"
    using ok1 own by (auto simp: enter_channel_def Let_def s1_def [symmetric] intro!: chan_ok_on_player)
  show "IsOn k (enter_channel env p s) \<longleftrightarrow> k = p \<or> IsOn k s"
    using on own by (auto simp: enter_channel_def Let_def s1_def [symmetric])
qed

lemma chan_ok_Join: "chan_ok s \<Longrightarrow> chan_ok (Join env p pass s)"
  by (auto simp: Join_def Let_def IsBanned_def JoinedChannel_def intro!: chan_ok_enter split: option.splits)

lemma chan_ok_erase:
  assumes "chan_ok s"
  shows "chan_ok (s\<lparr>ch_players := sm_erase p (ch_players s)\<rparr>)"
  using assms by (auto simp: chan_ok_def members_ok_erase IsOn_def)

text \<open>The first entry of the member list is the entry of a member.\<close>

lemma first_member:
  assumes "members_ok m ow" "m = (k, i) # m'"
  shows "pi_player i = k"
  using assms by (auto simp: members_ok_def sm_find_def)

lemma chan_ok_leave_rest:
  assumes ok: "chan_ok s"
  shows "chan_ok (leave_rest env p plr s)" "IsOn k (leave_rest env p plr s) \<longleftrightarrow> k \<noteq> p \<and> IsOn k s"
proof -
  define s1 where "s1 = s\<lparr>ch_players := sm_erase p (ch_players s)\<rparr>"
  define s2 where "s2 = (if announces env plr s1 then SendToAll env (MakeLeft p s1) 0 s1 else s1)"
  define heir where "heir = (case ch_players s2 of [] \<Rightarrow> 0 | (k, i) # m \<Rightarrow> pi_player i)"
  have ok2: "chan_ok s2" using ok by (simp add: s2_def s1_def chan_ok_erase)
  have on2: "IsOn x s2 \<longleftrightarrow> x \<noteq> p \<and> IsOn x s" for x by (simp add: s2_def s1_def IsOn_def)
  have res: "leave_rest env p plr s = (if pi_IsOwner (info_of p s) then SetOwner env heir True s2 else s2)"
    by (simp add: leave_rest_def Let_def s1_def s2_def heir_def)
  have heir: "heir = 0 \<or> IsOn heir s2"
  proof (cases "ch_players s2")
    case (Cons e m)
    obtain k i where e: "e = (k, i)" by (cases e)
    have "pi_player i = k" using ok2 Cons by (intro first_member [of "ch_players s2" "ch_ownerGuid s2"]) (simp_all add: chan_ok_def e)
    with Cons e show ?thesis by (simp add: heir_def IsOn_def sm_has_def sm_find_def)
  qed (simp add: heir_def)
  show "chan_ok (leave_rest env p plr s)" using ok2 chan_ok_SetOwner [OF ok2 heir] by (simp add: res)
  show "IsOn k (leave_rest env p plr s) \<longleftrightarrow> k \<noteq> p \<and> IsOn k s" using heir on2 by (simp add: res)
qed

lemma chan_ok_Leave: "chan_ok s \<Longrightarrow> Leave env p send s = Ok s' \<Longrightarrow> chan_ok s'"
  by (auto simp: Leave_def Let_def intro!: chan_ok_leave_rest split: if_splits option.splits)

lemma chan_ok_remove_player:
  assumes ok: "chan_ok s" and "bad \<noteq> good" and on: "IsOn good s"
  shows "chan_ok (remove_player env good bad ban s)"
    "IsOn k (remove_player env good bad ban s) \<longleftrightarrow> k \<noteq> bad \<and> IsOn k s"
proof -
  define s1 where "s1 = (if ban \<and> \<not> IsBanned bad s then s\<lparr>ch_banned := insert bad (ch_banned s)\<rparr> else s)"
  define s3 where "s3 = s1\<lparr>ch_players := sm_erase bad (ch_players s1)\<rparr>"
  have on3: "IsOn x s3 \<longleftrightarrow> x \<noteq> bad \<and> IsOn x s" for x by (simp add: s3_def s1_def IsOn_def)
  have ok3: "chan_ok s3"
    using ok by (auto simp: chan_ok_def on3) (auto simp: s3_def s1_def members_ok_erase IsOn_def split: if_splits)
  define s4 where "s4 = LeftChannel bad (let s2 = SendToAll env
      (if ban \<and> \<not> IsBanned bad s then MakePlayerBanned bad good s1 else MakePlayerKicked bad good s1) 0 s1
      in s2\<lparr>ch_players := sm_erase bad (ch_players s2)\<rparr>)"
  have same: "ch_players s4 = ch_players s3" "ch_ownerGuid s4 = ch_ownerGuid s3" "ch_banned s4 = ch_banned s3"
    by (simp_all add: s4_def s3_def LeftChannel_def Let_def)
  have ok4: "chan_ok s4" and on4: "IsOn x s4 \<longleftrightarrow> x \<noteq> bad \<and> IsOn x s" for x
    using ok3 on3 same by (simp_all add: chan_ok_frame [OF same] IsOn_def)
  have res: "remove_player env good bad ban s =
      (if ch_ownerGuid s = bad then SetOwner env (if ch_players s4 \<noteq> [] then good else 0) True s4 else s4)"
    by (simp add: remove_player_def Let_def s4_def s1_def)
  have target: "(if ch_players s4 \<noteq> [] then good else 0) = 0 \<or> IsOn (if ch_players s4 \<noteq> [] then good else 0) s4"
    using on4 on assms(2) by simp
  show "chan_ok (remove_player env good bad ban s)"
    using ok4 chan_ok_SetOwner [OF ok4 target] by (simp add: res)
  show "IsOn k (remove_player env good bad ban s) \<longleftrightarrow> k \<noteq> bad \<and> IsOn k s"
    using target on4 by (simp add: res)
qed

lemma chan_ok_KickOrBan:
  assumes "chan_ok s" "\<And>bad. ce_world_name env name = Some bad \<Longrightarrow> cp_guid bad \<noteq> good"
  shows "chan_ok (KickOrBan env good name ban s)"
  using assms by (auto simp: KickOrBan_def Let_def split: option.splits intro!: chan_ok_remove_player)

lemma chan_ok_UnBan: "chan_ok s \<Longrightarrow> chan_ok (UnBan env good name s)"
  by (auto simp: UnBan_def Let_def chan_ok_def IsOn_def split: option.splits)

lemma chan_ok_SetModerator: "chan_ok s \<Longrightarrow> IsOn g s \<Longrightarrow> chan_ok (SetModerator env g b s)"
  by (simp add: SetModerator_def Let_def IsOn_def) (simp add: chan_ok_on_player IsOn_def)

lemma chan_ok_SetMute: "chan_ok s \<Longrightarrow> IsOn g s \<Longrightarrow> chan_ok (SetMute env g b s)"
  by (simp add: SetMute_def Let_def IsOn_def) (simp add: chan_ok_on_player IsOn_def)

lemma chan_ok_SetMode:
  assumes "chan_ok s" "\<And>x. GetPlayer_name env name s = Some x \<Longrightarrow> IsOn (cp_guid x) s"
  shows "chan_ok (SetMode env p name md b s)"
  using assms
  by (auto simp: SetMode_def Let_def IsOn_def split: option.splits
      intro!: chan_ok_SetModerator [unfolded IsOn_def] chan_ok_SetMute [unfolded IsOn_def])

lemma chan_ok_SetOwner_name: "chan_ok s \<Longrightarrow> chan_ok (SetOwner_name env p name s)"
  by (auto simp: SetOwner_name_def split: option.splits intro!: chan_ok_SetOwner chan_ok_on_player)

lemma chan_ok_speak:
  "chan_ok s \<Longrightarrow> chan_ok (Say env p what lang skip s)" "chan_ok s \<Longrightarrow> chan_ok (Invite env p name s)"
  "chan_ok s \<Longrightarrow> chan_ok (List env player s)" "chan_ok s \<Longrightarrow> chan_ok (SendWhoOwner env p s)"
  "chan_ok s \<Longrightarrow> chan_ok (Password env p pass s)" "chan_ok s \<Longrightarrow> chan_ok (Announce env p s)"
  "chan_ok s \<Longrightarrow> chan_ok (Moderate env p s)"
  by (simp_all add: Say_def Invite_def List_def SendWhoOwner_def Password_def Announce_def Moderate_def
      Let_def case_prod_beta split: option.splits)

section \<open>The state machine of a channel\<close>

text \<open>
  One step is one operation by anybody, with any players online. Two uses are left out: a
  kick or ban of oneself, and \<open>SetMode\<close> on a player who is not on the channel; both break
  the invariant (shown below).
\<close>

inductive chan_step :: "chan_state \<Rightarrow> chan_state \<Rightarrow> bool" where
  st_join: "chan_step s (Join env p pass s)"
| st_leave: "Leave env p send s = Ok s' \<Longrightarrow> chan_step s s'"
| st_kick: "(\<And>bad. ce_world_name env name = Some bad \<Longrightarrow> cp_guid bad \<noteq> good) \<Longrightarrow>
    chan_step s (KickOrBan env good name ban s)"
| st_unban: "chan_step s (UnBan env good name s)"
| st_password: "chan_step s (Password env p pass s)"
| st_mode: "(\<And>x. GetPlayer_name env name s = Some x \<Longrightarrow> IsOn (cp_guid x) s) \<Longrightarrow>
    chan_step s (SetMode env p name md b s)"
| st_owner: "chan_step s (SetOwner_name env p name s)"
| st_who: "chan_step s (SendWhoOwner env p s)"
| st_list: "chan_step s (List env player s)"
| st_announce: "chan_step s (Announce env p s)"
| st_moderate: "chan_step s (Moderate env p s)"
| st_say: "chan_step s (Say env p what lang skip s)"
| st_invite: "chan_step s (Invite env p name s)"

inductive_cases chan_stepE: "chan_step s s'"

lemma chan_ok_step: "chan_step s s' \<Longrightarrow> chan_ok s \<Longrightarrow> chan_ok s'"
  by (erule chan_stepE)
     (auto intro: chan_ok_Join chan_ok_Leave chan_ok_KickOrBan chan_ok_UnBan chan_ok_SetMode
       chan_ok_SetOwner_name chan_ok_speak)

definition chan_fresh :: "chan_state \<Rightarrow> bool" where
  "chan_fresh s \<longleftrightarrow> (\<exists>env name. s = Channel_new env name)"

lemma chan_ok_new: "chan_ok (Channel_new env name)"
  by (auto simp: Channel_new_def Let_def chan_ok_def members_ok_def split: option.splits)

interpretation cm: machine chan_fresh chan_step chan_ok
  by unfold_locales (auto simp: chan_fresh_def chan_ok_new intro: chan_ok_step)

text \<open>
  C6: on a channel that has been used in any way, apart from the two uses named above, at
  most one member carries the owner flag, and he is the owner the channel has on record;
  every entry of the member list is stored under the GUID it holds; and nobody who is banned
  is on the channel.
\<close>

theorem channel_members_consistent:
  assumes "chan_fresh s" and "chan_step\<^sup>*\<^sup>* s t" and "sm_find (ch_players t) k = Some i"
  shows "pi_player i = k \<and> (pi_IsOwner i \<longrightarrow> ch_ownerGuid t = k) \<and> \<not> IsBanned k t"
proof -
  have "chan_ok t" using assms(1,2) by (rule cm.inv_reachable)
  with assms(3) show ?thesis by (auto simp: chan_ok_def members_ok_def IsBanned_def IsOn_def sm_has_def)
qed

definition sample_cp :: "u64 \<Rightarrow> u32 \<Rightarrow> chan_player" where
  "sample_cp g sec =
     \<lparr>cp_guid = g, cp_name = [ucast g], cp_team = 469, cp_security = sec, cp_guild = 0, cp_level = 60,
      cp_social = PlayerSocial_new, cp_tag = 0, cp_accountFlags = 0, cp_maxLevel = 60, cp_node = True\<rparr>"

definition sample_find :: "u64 \<Rightarrow> chan_player option" where
  "sample_find g = (if g = 1 \<or> g = 2 \<or> g = 3 then Some (sample_cp g 0) else None)"

definition sample_name :: "u8 list \<Rightarrow> chan_player option" where
  "sample_name n = (case n of [c] \<Rightarrow> sample_find (ucast c) | _ \<Rightarrow> None)"

definition sample_chan_env :: chan_env where
  "sample_chan_env =
     \<lparr>ce_node_guid = sample_find, ce_node_name = sample_name, ce_master_guid = sample_find, ce_master_name = sample_name,
      ce_world_guid = sample_find, ce_world_name = sample_name, ce_visible = (\<lambda>a b. True), ce_name_of = (\<lambda>g. None),
      ce_entries = [], ce_normalize = Some, ce_wlower = map ucast, ce_two_side = False, ce_silent_gm = False,
      ce_gm_level_in_who = 0, ce_mute_vanish_level = 0, ce_gm_join_opposite = False, ce_invite_min_level = 0\<rparr>"

definition sample_chan :: chan_state where
  "sample_chan = Join sample_chan_env 2 [] (Join sample_chan_env 1 [] (Channel_new sample_chan_env [77]))"

lemma sample_chan_steps: "chan_step\<^sup>*\<^sup>* (Channel_new sample_chan_env [77]) sample_chan"
  unfolding sample_chan_def by (meson converse_rtranclp_into_rtranclp rtranclp.rtrancl_refl st_join)

theorem channel_members_consistent_witness:
  "let i = info_of 1 sample_chan in IsOn 1 sample_chan \<and> pi_player i = 1 \<and> pi_IsOwner i \<and> ch_ownerGuid sample_chan = 1"
proof -
  have fresh: "chan_fresh (Channel_new sample_chan_env [77])" by (auto simp: chan_fresh_def)
  have find: "sm_find (ch_players sample_chan) 1 = Some \<lparr>pi_player = 1, pi_flags = 3\<rparr>" by code_simp
  have "pi_IsOwner \<lparr>pi_player = 1, pi_flags = 3\<rparr>" by code_simp
  with channel_members_consistent [OF fresh sample_chan_steps find] find
  show ?thesis by (simp add: info_of_def IsOn_def sm_has_def)
qed

text \<open>
  The two uses left out. The owner of a channel with other members who bans himself is off the
  member list for a moment, then made owner again and entered on it, banned as he is.
  \<open>SetMode\<close> enters a player who never joined, even a banned one, under an empty GUID.
\<close>

lemma owner_ban_of_himself_re_enters:
  "let s = KickOrBan sample_chan_env 1 [1] True sample_chan in IsOn 1 s \<and> IsBanned 1 s \<and> pi_player (info_of 1 s) = 0"
  by code_simp

lemma set_mode_enters_non_member:
  "\<not> IsOn 3 sample_chan \<and> (let s = SetMode sample_chan_env 1 [3] False False sample_chan in IsOn 3 s \<and> pi_player (info_of 3 s) = 0)"
  by code_simp

section \<open>Who may change a channel\<close>

definition may_moderate :: "chan_env \<Rightarrow> object_guid \<Rightarrow> chan_state \<Rightarrow> bool" where
  "may_moderate env p s \<longleftrightarrow> IsOn p s \<and>
     (pi_IsModerator (info_of p s) \<or> SEC_GAMEMASTER \<le> session_security (GetPlayer env p s))"

text \<open>
  C16: nobody changes a channel who is not on it as a moderator or as a game master. Kicks,
  bans, unbans, password, moderator and mute rights, announcements and moderation asked for
  by anybody else leave the channel as it was; at most a refusal is sent back to him.
\<close>

theorem channel_changes_need_moderator:
  assumes "\<not> may_moderate env p s"
    and "t \<in> {KickOrBan env p name ban s, UnBan env p name s, Password env p pass s,
              SetMode env p name md b s, Announce env p s, Moderate env p s}"
  shows "t = s \<or> t = SendToOne env (MakeNotMember s) p s \<or> t = SendToOne env (MakeNotModerator s) p s"
proof (cases "IsOn p s")
  case False
  with assms(2) show ?thesis
    by (auto simp: KickOrBan_def UnBan_def Password_def SetMode_def Announce_def Moderate_def split: option.splits)
next
  case True
  with assms(1) have "\<not> pi_IsModerator (info_of p s)" "session_security (GetPlayer env p s) < SEC_GAMEMASTER"
    by (simp_all add: may_moderate_def not_le)
  with True assms(2) show ?thesis
    by (cases "GetPlayer env p s")
       (auto simp: KickOrBan_def UnBan_def Password_def SetMode_def Announce_def Moderate_def session_security_def)
qed

theorem channel_changes_need_moderator_witness:
  "ch_banned (KickOrBan sample_chan_env 2 [1] True sample_chan) = {} \<and> IsOn 1 (KickOrBan sample_chan_env 2 [1] True sample_chan)"
proof -
  have no: "\<not> may_moderate sample_chan_env 2 sample_chan" by code_simp
  have "IsOn 1 sample_chan" "ch_banned sample_chan = {}" by code_simp+
  with channel_changes_need_moderator [OF no, of "KickOrBan sample_chan_env 2 [1] True sample_chan" "[1]" True "[]" True True]
  show ?thesis by auto
qed

section \<open>Bans\<close>

text \<open>
  C28: a ban works. When a moderator bans another member, unless the member owns the channel
  and the moderator is not a game master, the member is off the channel and on the ban list and
  nobody else is added or removed. Whatever happens to the channel then, as long as the ban has
  not been lifted he is not on the channel, and whatever he tries to join with he only gets the
  notice that he is banned. The channel is one reached from a new one, and neither before nor after
  the ban does it see the two uses that \<open>chan_step\<close> leaves out: an owner who bans himself, and a
  change of the flags of a player who is not on the channel.
\<close>

theorem ban_keeps_out:
  assumes "chan_fresh s0" and "chan_step\<^sup>*\<^sup>* s0 s" and "may_moderate env good s" and "ce_world_name env name = Some bad"
    and "IsOn (cp_guid bad) s" and "cp_guid bad \<noteq> good"
    and "cp_guid bad \<noteq> ch_ownerGuid s \<or> SEC_GAMEMASTER \<le> session_security (GetPlayer env good s)"
    and "chan_step\<^sup>*\<^sup>* (KickOrBan env good name True s) u"
  shows "let t = KickOrBan env good name True s
         in IsBanned (cp_guid bad) t \<and> (IsOn k t \<longleftrightarrow> IsOn k s \<and> k \<noteq> cp_guid bad) \<and>
            (IsBanned (cp_guid bad) u \<longrightarrow>
               \<not> IsOn (cp_guid bad) u \<and> Join env' (cp_guid bad) pass u = SendToOne env' (MakeBanned u) (cp_guid bad) u)"
proof -
  have ok: "chan_ok s" using assms(1,2) by (rule cm.inv_reachable)
  let ?t = "remove_player env good (cp_guid bad) True s"
  have t: "KickOrBan env good name True s = ?t"
    using assms by (auto simp: KickOrBan_def may_moderate_def Let_def not_le)
  have on: "IsOn x ?t \<longleftrightarrow> x \<noteq> cp_guid bad \<and> IsOn x s" for x
    using ok assms by (intro chan_ok_remove_player) (simp_all add: may_moderate_def)
  have "\<not> IsBanned (cp_guid bad) s" using ok assms(5) by (auto simp: chan_ok_def IsBanned_def)
  then have banned: "IsBanned (cp_guid bad) ?t"
    by (simp add: remove_player_def IsBanned_def Let_def LeftChannel_def)
  have "chan_step s (KickOrBan env good name True s)" by (rule st_kick) (use assms(4,6) in simp)
  then have "chan_ok (KickOrBan env good name True s)" using ok by (rule chan_ok_step)
  then have "chan_ok u" by (rule cm.inv_steps [OF assms(8)])
  then have off: "\<not> IsOn (cp_guid bad) u" if "IsBanned (cp_guid bad) u" using that by (auto simp: chan_ok_def IsBanned_def)
  from on banned off show ?thesis unfolding Let_def t by (auto simp: Join_def Let_def)
qed

theorem ban_keeps_out_witness:
  "let t = KickOrBan sample_chan_env 1 [2] True sample_chan; u = Announce sample_chan_env 1 t
   in IsBanned 2 t \<and> IsOn 1 t \<and> IsBanned 2 u \<and> Join sample_chan_env 2 [] u = SendToOne sample_chan_env (MakeBanned u) 2 u"
proof -
  have fresh: "chan_fresh (Channel_new sample_chan_env [77])" by (auto simp: chan_fresh_def)
  have hyps: "may_moderate sample_chan_env 1 sample_chan" "IsOn 1 sample_chan" by code_simp+
  have bad: "ce_world_name sample_chan_env [2] = Some (sample_cp 2 0)" "IsOn (cp_guid (sample_cp 2 0)) sample_chan"
    "cp_guid (sample_cp 2 0) \<noteq> 1"
    "cp_guid (sample_cp 2 0) \<noteq> ch_ownerGuid sample_chan \<or> SEC_GAMEMASTER \<le> session_security (GetPlayer sample_chan_env 1 sample_chan)"
    "cp_guid (sample_cp 2 0) = 2"
    by code_simp+
  let ?t = "KickOrBan sample_chan_env 1 [2] True sample_chan"
  have u: "chan_step\<^sup>*\<^sup>* ?t (Announce sample_chan_env 1 ?t)" by (intro r_into_rtranclp st_announce)
  have still: "IsBanned 2 (Announce sample_chan_env 1 ?t)" by code_simp
  show ?thesis
    using ban_keeps_out [OF fresh sample_chan_steps hyps(1) bad(1-4) u, of 1 sample_chan_env "[]"] hyps(2) still
    unfolding bad(5) Let_def by simp
qed

section \<open>Who hears what is said\<close>

lemma GetPlayer_frame [simp]: "GetPlayer env g (chan_send x pkt s) = GetPlayer env g s"
  by (simp add: GetPlayer_def)

lemma send_all_loop_out:
  "cs_out (send_all_loop env pkt p m s) =
     cs_out s @ concat (map (\<lambda>e. case GetPlayer env (fst e) s of
       None \<Rightarrow> [] | Some plr \<Rightarrow> if HasIgnore p (cp_social plr) then [] else [(cp_guid plr, pkt)]) m)"
proof (induction m arbitrary: s)
  case (Cons e m)
  obtain k i where e: "e = (k, i)" by (cases e)
  show ?case
    by (auto simp: e Cons chan_send_def GetPlayer_def split: option.splits)
qed simp

definition hearers :: "chan_env \<Rightarrow> object_guid \<Rightarrow> chan_state \<Rightarrow> chan_player list" where
  "hearers env p s =
     filter (\<lambda>x. \<not> HasIgnore p (cp_social x)) (List.map_filter (\<lambda>e. GetPlayer env (fst e) s) (ch_players s))"

lemma SendToAll_out: "cs_out (SendToAll env pkt p s) = cs_out s @ map (\<lambda>x. (cp_guid x, pkt)) (hearers env p s)"
proof -
  have "concat (map (\<lambda>e. case GetPlayer env (fst e) s of
       None \<Rightarrow> [] | Some plr \<Rightarrow> if HasIgnore p (cp_social plr) then [] else [(cp_guid plr, pkt)]) m) =
     map (\<lambda>x. (cp_guid x, pkt)) (filter (\<lambda>x. \<not> HasIgnore p (cp_social x)) (List.map_filter (\<lambda>e. GetPlayer env (fst e) s) m))" for m
    by (induction m) (auto simp: map_filter_simps split: option.splits)
  then show ?thesis by (simp add: SendToAll_def send_all_loop_out hearers_def)
qed

definition may_speak :: "chan_env \<Rightarrow> object_guid \<Rightarrow> chan_state \<Rightarrow> bool" where
  "may_speak env p s \<longleftrightarrow> IsOn p s \<and> \<not> pi_IsMuted (info_of p s) \<and> (ch_moderate s \<longrightarrow> may_moderate env p s)"

definition account_muted :: "chan_env \<Rightarrow> chan_player option \<Rightarrow> bool" where
  "account_muted env plr \<longleftrightarrow>
     (case plr of None \<Rightarrow> False
      | Some x \<Rightarrow> cp_accountFlags x AND ACCOUNT_FLAG_MUTED_FROM_PUBLIC_CHANNELS \<noteq> 0 \<and> cp_maxLevel x < ce_mute_vanish_level env)"

text \<open>
  C27: what a player says reaches exactly those it should. A speaker who is not on the
  channel, is muted, or lacks the right to speak while the channel is moderated reaches
  nobody: the only thing sent is a refusal to him. Otherwise every member online hears him
  once, except those who ignore him; a moderator cannot be ignored. A muted account hears
  only itself.
\<close>

theorem channel_speech_delivery:
  assumes "new = drop (length (cs_out s)) (cs_out (Say env p (Some msg) lang False s))"
  shows "if \<not> may_speak env p s then \<forall>(g, op, bytes) \<in> set new. op = SMSG_CHANNEL_NOTIFY \<and> (\<exists>x. GetPlayer env p s = Some x \<and> g = cp_guid x)
         else map fst new =
            (if account_muted env (GetPlayer env p s) then [cp_guid (the (GetPlayer env p s))]
             else map cp_guid (hearers env (if pi_IsModerator (info_of p s) then 0 else p) s)) \<and>
            (\<forall>x \<in> set new. fst (snd x) = SMSG_MESSAGECHAT)"
proof (cases "may_speak env p s")
  case False
  then have "Say env p (Some msg) lang False s \<in>
      {SendToOne env (MakeNotMember s) p s, SendToOne env (MakeMuted s) p s, SendToOne env (MakeNotModerator s) p s}"
    by (auto simp: Say_def may_speak_def may_moderate_def Let_def not_le)
  then obtain bytes where "Say env p (Some msg) lang False s = SendToOne env (SMSG_CHANNEL_NOTIFY, bytes) p s"
    unfolding MakeNotMember_def MakeMuted_def MakeNotModerator_def by blast
  then show ?thesis using False
    by (auto simp: assms SendToOne_def chan_send_def split: option.splits)
next
  case True
  define pkt where "pkt = say_packet (GetPlayer env p s) p msg (if ce_two_side env then LANG_UNIVERSAL else lang) s"
  have said: "Say env p (Some msg) lang False s =
      (if account_muted env (GetPlayer env p s) then chan_send (cp_guid (the (GetPlayer env p s))) pkt s
       else SendToAll env pkt (if pi_IsModerator (info_of p s) then 0 else p) s)"
  proof -
    have on: "IsOn p s" "\<not> pi_IsMuted (info_of p s)" and mod: "\<not> (ch_moderate s \<and> \<not> pi_IsModerator (info_of p s) \<and> session_security (GetPlayer env p s) < SEC_GAMEMASTER)"
      using True unfolding may_speak_def may_moderate_def by (simp_all add: not_less)
    show ?thesis
      unfolding Say_def Let_def option.case simp_thms if_not_P [OF mod] pkt_def account_muted_def
      using on by (cases "GetPlayer env p s") simp_all
  qed
  have "fst pkt = SMSG_MESSAGECHAT" by (simp add: pkt_def say_packet_def)
  with True show ?thesis
    by (auto simp: assms said SendToAll_out chan_send_def)
qed

theorem channel_speech_delivery_witness:
  "map fst (drop (length (cs_out sample_chan)) (cs_out (Say sample_chan_env 2 (Some [72, 105]) 7 False sample_chan))) = [1, 2]"
proof -
  have hyps: "may_speak sample_chan_env 2 sample_chan" "\<not> account_muted sample_chan_env (GetPlayer sample_chan_env 2 sample_chan)"
    "map cp_guid (hearers sample_chan_env (if pi_IsModerator (info_of 2 sample_chan) then 0 else 2) sample_chan) = [1, 2]"
    by code_simp+
  from channel_speech_delivery [OF refl, of sample_chan_env 2 sample_chan "[72, 105]" 7] hyps
  show ?thesis by simp
qed

section \<open>The member list packet\<close>

lemma list_loop_acc:
  "list_loop env pl m data c =
     (data @ concat (map (\<lambda>e. pguid (fst e) @ [pi_flags (snd e)]) (filter (\<lambda>e. list_shows env pl (fst e)) m)),
      c + of_nat (length (filter (\<lambda>e. list_shows env pl (fst e)) m)))"
  by (induction m arbitrary: data c) (auto simp: algebra_simps)

fun read_members :: "nat \<Rightarrow> u8 list \<Rightarrow> (u64 \<times> u8) list option" where
  "read_members 0 bs = (if bs = [] then Some [] else None)"
| "read_members (Suc n) bs =
     (if length bs < 9 then None else map_option ((#) (rd (take 8 bs), bs ! 8)) (read_members n (drop 9 bs)))"

lemma read_members_write:
  "read_members (length m) (concat (map (\<lambda>e. pguid (fst e) @ [pi_flags (snd e)]) m)) =
     Some (map (\<lambda>e. (fst e, pi_flags (snd e))) m)"
  by (induction m) (simp_all add: nth_append)

text \<open>
  The member list a client receives is what it claims to be: after the header, the count
  that was patched in is the number of entries that follow, and the entries are the members
  the asking player may see, with their flags, in GUID order.
\<close>

theorem channel_list_readable:
  assumes "IsOn (cp_guid pl) s" and "GetPlayer env (cp_guid pl) s = Some pl"
    and "length (ch_players s) < 4294967296"
  shows "\<exists>count bytes. cs_out (List env pl s) =
           cs_out s @ [(cp_guid pl, SMSG_CHANNEL_LIST, [1] @ pstr (ch_name s) @ [ch_flags s] @ p32 count @ bytes)] \<and>
         read_members (unat count) bytes =
           Some (map (\<lambda>e. (fst e, pi_flags (snd e))) (filter (\<lambda>e. list_shows env pl (fst e)) (ch_players s)))"
proof -
  let ?shown = "filter (\<lambda>e. list_shows env pl (fst e)) (ch_players s)"
  have "length ?shown < 4294967296" using assms(3) length_filter_le [of "\<lambda>e. list_shows env pl (fst e)" "ch_players s"] by linarith
  then have "unat (of_nat (length ?shown) :: u32) = length ?shown" by (rule unat_of_nat_u32)
  moreover have "cs_out (List env pl s) = cs_out s @ [(cp_guid pl, SMSG_CHANNEL_LIST, [1] @ pstr (ch_name s) @ [ch_flags s]
      @ p32 (of_nat (length ?shown)) @ concat (map (\<lambda>e. pguid (fst e) @ [pi_flags (snd e)]) ?shown))]"
    using assms(1,2) by (simp add: List_def list_loop_acc SendToOne_def chan_send_def)
  ultimately show ?thesis
    using read_members_write [of ?shown] by (intro exI conjI) (assumption, simp)
qed

theorem channel_list_readable_witness:
  "\<exists>count bytes. cs_out (List sample_chan_env (sample_cp 2 0) sample_chan) =
       cs_out sample_chan @ [(2, SMSG_CHANNEL_LIST, [1] @ pstr [77] @ [1] @ p32 count @ bytes)] \<and>
     read_members (unat count) bytes = Some [(1, 3), (2, 0)]"
proof -
  have hyps: "IsOn (cp_guid (sample_cp 2 0)) sample_chan" "cp_guid (sample_cp 2 0) = 2"
    "GetPlayer sample_chan_env (cp_guid (sample_cp 2 0)) sample_chan = Some (sample_cp 2 0)"
    "ch_name sample_chan = [77]" "ch_flags sample_chan = 1"
    "map (\<lambda>e. (fst e, pi_flags (snd e))) (filter (\<lambda>e. list_shows sample_chan_env (sample_cp 2 0) (fst e)) (ch_players sample_chan)) = [(1, 3), (2, 0)]"
    by code_simp+
  have "length (ch_players sample_chan) = 2" by code_simp
  then have "length (ch_players sample_chan) < 4294967296" by simp
  from channel_list_readable [OF hyps(1,3) this] show ?thesis by (simp only: hyps)
qed

end
