(* ===== verification/GroupModel.thy ===== *)
theory GroupModel
  imports Channel
begin

text \<open>
  The data of parties and raids: \<^verbatim>\<open>src/game/Group/Group.h\<close>, the two group references of a
  player (\<^verbatim>\<open>GroupReference.h\<close>, \<^verbatim>\<open>Player.h\<close>), the two database tables, and the packets every
  operation sends. Groups are objects on an explicit store with addresses; players are found
  by GUID; a player who is between two maps exists without being in the world. Loot objects
  that rolls refer to are on a store of their own.
\<close>

section \<open>Data\<close>

type_synonym gaddr = nat
type_synonym laddr = nat

datatype roll_vote = ROLL_PASS | ROLL_NEED | ROLL_GREED | ROLL_NOT_EMITED_YET | ROLL_NOT_VALID

primrec vote_code :: "roll_vote \<Rightarrow> u8" where
  "vote_code ROLL_PASS = 0"
| "vote_code ROLL_NEED = 1"
| "vote_code ROLL_GREED = 2"
| "vote_code ROLL_NOT_EMITED_YET = 3"
| "vote_code ROLL_NOT_VALID = 4"

definition FREE_FOR_ALL :: u32 where "FREE_FOR_ALL = 0"
definition ROUND_ROBIN :: u32 where "ROUND_ROBIN = 1"
definition MASTER_LOOT :: u32 where "MASTER_LOOT = 2"
definition GROUP_LOOT :: u32 where "GROUP_LOOT = 3"
definition NEED_BEFORE_GREED :: u32 where "NEED_BEFORE_GREED = 4"

definition ITEM_QUALITY_UNCOMMON :: u32 where "ITEM_QUALITY_UNCOMMON = 2"

definition MAX_GROUP_SIZE :: nat where "MAX_GROUP_SIZE = 5"
definition MAX_RAID_SIZE :: nat where "MAX_RAID_SIZE = 40"
definition MAX_RAID_SUBGROUPS :: nat where "MAX_RAID_SUBGROUPS = MAX_RAID_SIZE div MAX_GROUP_SIZE"
definition TARGET_ICON_COUNT :: nat where "TARGET_ICON_COUNT = 8"

lemmas group_limits = MAX_GROUP_SIZE_def MAX_RAID_SIZE_def MAX_RAID_SUBGROUPS_def TARGET_ICON_COUNT_def

definition GROUP_UPDATE_FLAG_NONE :: u32 where "GROUP_UPDATE_FLAG_NONE = 0x00000000"
definition GROUP_UPDATE_FULL :: u32 where "GROUP_UPDATE_FULL = 0x001FFFFF"

definition TEAM_NONE :: u32 where "TEAM_NONE = 0"
definition TEAM_CROSSFACTION :: u32 where "TEAM_CROSSFACTION = 1"

text \<open>The fields of \<^verbatim>\<open>LootItem\<close> and \<^verbatim>\<open>Loot\<close> that rolls read or write.\<close>

record loot_item =
  li_itemid :: u32
  li_randomPropertyId :: u32
  li_count :: u8
  li_is_looted :: bool
  li_is_blocked :: bool
  li_freeforall :: bool
  li_is_underthreshold :: bool
  li_lootOwner :: object_guid

record loot =
  l_items :: "loot_item list"
  l_unlootedCount :: u8
  l_playersLooting :: "object_guid list"

text \<open>
  A roll; \<open>r_loot\<close> is the loot its validator reference is linked to, if it is. The votes are
  in the order the hash table iterates them.
\<close>

record roll =
  r_lootedTargetGUID :: object_guid
  r_itemid :: u32
  r_itemRandomPropId :: u32
  r_playerVote :: "(object_guid \<times> roll_vote) list"
  r_totalPlayersRolling :: u8
  r_totalNeed :: u8
  r_totalGreed :: u8
  r_totalPass :: u8
  r_itemSlot :: u8
  r_loot :: "laddr option"

record member_slot =
  ms_guid :: object_guid
  ms_name :: "u8 list"
  ms_group :: u8
  ms_assistant :: bool

datatype ref_kind = MainRef | OriginalRef

text \<open>
  A group. \<open>g_refs\<close> is the intrusive list of references linked to it, first to last; a
  reference is a player with the one of his two references it is. \<open>g_bg\<close> stands for
  \<^verbatim>\<open>m_bgGroup != NULL\<close>, \<open>g_raid\<close> for \<^verbatim>\<open>GROUPTYPE_RAID\<close>. The invitees are a set in the code.
\<close>

record group =
  g_Id :: u32
  g_slots :: "member_slot list"
  g_refs :: "(object_guid \<times> ref_kind) list"
  g_invitees :: "object_guid list"
  g_leaderGuid :: object_guid
  g_leaderName :: "u8 list"
  g_leaderLastOnline :: int
  g_mainTankGuid :: object_guid
  g_mainAssistantGuid :: object_guid
  g_raid :: bool
  g_bg :: bool
  g_icons :: "object_guid list"
  g_lootMethod :: u32
  g_lootThreshold :: u32
  g_looterGuid :: object_guid
  g_rolls :: "roll list"
  g_counts :: "u8 list option"
  g_team :: u32

definition Group_new :: group where
  "Group_new =
     \<lparr>g_Id = 0, g_slots = [], g_refs = [], g_invitees = [], g_leaderGuid = 0, g_leaderName = [],
      g_leaderLastOnline = 0, g_mainTankGuid = 0, g_mainAssistantGuid = 0, g_raid = False, g_bg = False,
      g_icons = replicate TARGET_ICON_COUNT 0, g_lootMethod = FREE_FOR_ALL,
      g_lootThreshold = ITEM_QUALITY_UNCOMMON, g_looterGuid = 0, g_rolls = [], g_counts = None,
      g_team = TEAM_NONE\<rparr>"

text \<open>A reference keeps its subgroup number when it is unlinked.\<close>

record group_ref =
  gr_target :: "gaddr option"
  gr_subGroup :: u8

definition GroupReference_new :: group_ref where
  "GroupReference_new = \<lparr>gr_target = None, gr_subGroup = 0\<rparr>"

record grp_player =
  gp_name :: "u8 list"
  gp_team :: u32
  gp_inWorld :: bool
  gp_session :: bool
  gp_logout :: bool
  gp_inBG :: bool
  gp_pvp :: bool
  gp_dead :: bool
  gp_ghost :: bool
  gp_ffa :: bool
  gp_afk :: bool
  gp_dnd :: bool
  gp_mapId :: u32
  gp_instanceId :: u32
  gp_leaderFlag :: bool
  gp_updateMask :: u32
  gp_invite :: "gaddr option"
  gp_group :: group_ref
  gp_orig :: group_ref

text \<open>Rows of the tables \<^verbatim>\<open>groups\<close> (by id) and \<^verbatim>\<open>group_member\<close>.\<close>

record group_row =
  row_leaderGuid :: u32
  row_mainTank :: u32
  row_mainAssistant :: u32
  row_lootMethod :: u32
  row_looterGuid :: u32
  row_lootThreshold :: u32
  row_icons :: "u64 list"
  row_isRaid :: bool

record member_row =
  mr_groupId :: u32
  mr_memberGuid :: u32
  mr_assistant :: bool
  mr_subgroup :: u8

datatype grp_opcode =
  SMSG_GROUP_LIST | SMSG_GROUP_UNINVITE | SMSG_GROUP_SET_LEADER | SMSG_GROUP_DESTROYED
| SMSG_GROUP_INVITE | SMSG_GROUP_DECLINE | SMSG_PARTY_COMMAND_RESULT | SMSG_PARTY_MEMBER_STATS
| MSG_RAID_TARGET_UPDATE | MSG_RAID_READY_CHECK | MSG_RANDOM_ROLL | MSG_MINIMAP_PING
| SMSG_LOOT_START_ROLL | SMSG_LOOT_ROLL | SMSG_LOOT_ROLL_WON | SMSG_LOOT_ALL_PASSED
| SMSG_LOOT_MASTER_LIST | SMSG_LOOT_REMOVED | SMSG_INVENTORY_CHANGE_FAILURE

type_synonym grp_packet = "grp_opcode \<times> u8 list"

text \<open>
  The state. \<open>gw_stored\<close> lists the items players received from rolls, \<open>gw_draws\<close> counts the
  random numbers drawn, and \<open>gw_fault\<close> is set when the code dereferences a dead pointer,
  leaves the range of an array or fails an assertion.
\<close>

record grp_world =
  gw_players :: "object_guid \<Rightarrow> grp_player option"
  gw_groups :: "gaddr \<Rightarrow> group option"
  gw_fresh :: gaddr
  gw_groupMap :: "u32 \<Rightarrow> gaddr option"
  gw_nextId :: u32
  gw_rows :: "u32 \<Rightarrow> group_row option"
  gw_members :: "member_row list"
  gw_loots :: "laddr \<Rightarrow> loot option"
  gw_stored :: "(object_guid \<times> u32 \<times> u8) list"
  gw_draws :: nat
  gw_out :: "(object_guid \<times> grp_packet) list"
  gw_fault :: bool

text \<open>What the code reads besides: clock, configuration, names, items, distances, inventories.\<close>

record grp_env =
  ge_time :: int
  ge_two_side :: bool
  ge_normalize :: "u8 list \<Rightarrow> u8 list option"
  ge_byName :: "u8 list \<Rightarrow> object_guid option"
  ge_cacheGuid :: "u8 list \<Rightarrow> object_guid"
  ge_cache :: "object_guid \<Rightarrow> (u8 list \<times> u32) option"
  ge_social :: "object_guid \<Rightarrow> player_social"
  ge_stats :: "object_guid \<Rightarrow> u8 list"
  ge_sees :: "object_guid \<Rightarrow> object_guid \<Rightarrow> bool"
  ge_urand :: "nat \<Rightarrow> u32 \<Rightarrow> u32 \<Rightarrow> u32"
  ge_quality :: "u32 \<Rightarrow> u32 option"
  ge_canUse :: "object_guid \<Rightarrow> u32 \<Rightarrow> bool"
  ge_allowed :: "object_guid \<Rightarrow> loot_item \<Rightarrow> object_guid \<Rightarrow> bool"
  ge_within :: "object_guid \<Rightarrow> object_guid \<Rightarrow> bool"
  ge_canStore :: "(object_guid \<times> u32 \<times> u8) list \<Rightarrow> object_guid \<Rightarrow> u32 \<Rightarrow> u8 \<Rightarrow> u8"
  ge_requiredLevel :: "u32 \<Rightarrow> u32"
  ge_tableOrder :: "(object_guid \<times> roll_vote) list \<Rightarrow> (object_guid \<times> roll_vote) list"

section \<open>The stores\<close>

definition FindPlayer :: "grp_world \<Rightarrow> object_guid \<Rightarrow> grp_player option" where
  "FindPlayer w guid =
     (if guid = 0 then None
      else case gw_players w guid of
             None \<Rightarrow> None | Some pl \<Rightarrow> if gp_inWorld pl then Some pl else None)"

definition FindPlayerByName :: "grp_env \<Rightarrow> grp_world \<Rightarrow> u8 list \<Rightarrow> (object_guid \<times> grp_player) option" where
  "FindPlayerByName env w name =
     (case ge_normalize env name of
        None \<Rightarrow> None
      | Some n \<Rightarrow>
          (case ge_byName env n of
             None \<Rightarrow> None
           | Some guid \<Rightarrow>
               (case gw_players w guid of
                  None \<Rightarrow> None | Some pl \<Rightarrow> if gp_inWorld pl then Some (guid, pl) else None)))"

definition upd_player :: "object_guid \<Rightarrow> (grp_player \<Rightarrow> grp_player) \<Rightarrow> grp_world \<Rightarrow> grp_world" where
  "upd_player p f w = w\<lparr>gw_players := (gw_players w)(p := map_option f (gw_players w p))\<rparr>"

definition upd_group :: "gaddr \<Rightarrow> (group \<Rightarrow> group) \<Rightarrow> grp_world \<Rightarrow> grp_world" where
  "upd_group a f w = w\<lparr>gw_groups := (gw_groups w)(a := map_option f (gw_groups w a))\<rparr>"

definition upd_loot :: "laddr \<Rightarrow> (loot \<Rightarrow> loot) \<Rightarrow> grp_world \<Rightarrow> grp_world" where
  "upd_loot a f w = w\<lparr>gw_loots := (gw_loots w)(a := map_option f (gw_loots w a))\<rparr>"

text \<open>The object a member function runs on.\<close>

definition this_group :: "gaddr \<Rightarrow> grp_world \<Rightarrow> group" where
  "this_group a w = (case gw_groups w a of Some g \<Rightarrow> g | None \<Rightarrow> Group_new)"

definition gsend :: "object_guid \<Rightarrow> grp_packet \<Rightarrow> grp_world \<Rightarrow> grp_world" where
  "gsend p pkt w = w\<lparr>gw_out := gw_out w @ [(p, pkt)]\<rparr>"

definition fault :: "grp_world \<Rightarrow> grp_world" where
  "fault w = w\<lparr>gw_fault := True\<rparr>"

section \<open>Group references of a player\<close>

definition get_ref :: "ref_kind \<Rightarrow> grp_player \<Rightarrow> group_ref" where
  "get_ref k pl = (case k of MainRef \<Rightarrow> gp_group pl | OriginalRef \<Rightarrow> gp_orig pl)"

definition set_ref :: "ref_kind \<Rightarrow> (group_ref \<Rightarrow> group_ref) \<Rightarrow> grp_player \<Rightarrow> grp_player" where
  "set_ref k f pl =
     (case k of MainRef \<Rightarrow> pl\<lparr>gp_group := f (gp_group pl)\<rparr> | OriginalRef \<Rightarrow> pl\<lparr>gp_orig := f (gp_orig pl)\<rparr>)"

definition ref_target :: "ref_kind \<Rightarrow> object_guid \<Rightarrow> grp_world \<Rightarrow> gaddr option" where
  "ref_target k p w = (case gw_players w p of None \<Rightarrow> None | Some pl \<Rightarrow> gr_target (get_ref k pl))"

definition unlink_ref :: "ref_kind \<Rightarrow> object_guid \<Rightarrow> grp_world \<Rightarrow> grp_world" where
  "unlink_ref k p w =
     (case ref_target k p w of
        None \<Rightarrow> w
      | Some a \<Rightarrow>
          upd_player p (set_ref k (\<lambda>r. r\<lparr>gr_target := None\<rparr>))
            (upd_group a (\<lambda>g. g\<lparr>g_refs := remove1 (p, k) (g_refs g)\<rparr>) w))"

definition link_ref :: "ref_kind \<Rightarrow> gaddr \<Rightarrow> object_guid \<Rightarrow> grp_world \<Rightarrow> grp_world" where
  "link_ref k a p w =
     upd_group a (\<lambda>g. g\<lparr>g_refs := (p, k) # g_refs g\<rparr>)
       (upd_player p (set_ref k (\<lambda>r. r\<lparr>gr_target := Some a\<rparr>)) (unlink_ref k p w))"

definition set_ref_subgroup :: "ref_kind \<Rightarrow> u8 \<Rightarrow> object_guid \<Rightarrow> grp_world \<Rightarrow> grp_world" where
  "set_ref_subgroup k sub p w = upd_player p (set_ref k (\<lambda>r. r\<lparr>gr_subGroup := sub\<rparr>)) w"

text \<open>\<^verbatim>\<open>SetGroup\<close> and \<^verbatim>\<open>SetOriginalGroup\<close>: the subgroup arrives as a signed byte and must not be negative.\<close>

definition SetGroupRef :: "ref_kind \<Rightarrow> (gaddr \<times> u8) option \<Rightarrow> object_guid \<Rightarrow> grp_world \<Rightarrow> grp_world" where
  "SetGroupRef k target p w =
     (case target of
        None \<Rightarrow> unlink_ref k p w
      | Some (a, sub) \<Rightarrow>
          if 128 \<le> sub then fault w else set_ref_subgroup k sub p (link_ref k a p w))"

definition GetGroup :: "object_guid \<Rightarrow> grp_world \<Rightarrow> gaddr option" where
  "GetGroup p w = ref_target MainRef p w"

definition GetOriginalGroup :: "object_guid \<Rightarrow> grp_world \<Rightarrow> gaddr option" where
  "GetOriginalGroup p w = ref_target OriginalRef p w"

definition ref_subgroup :: "ref_kind \<Rightarrow> object_guid \<Rightarrow> grp_world \<Rightarrow> u8" where
  "ref_subgroup k p w = (case gw_players w p of None \<Rightarrow> 0 | Some pl \<Rightarrow> gr_subGroup (get_ref k pl))"

definition SetBattleGroundRaid :: "gaddr \<Rightarrow> u8 \<Rightarrow> object_guid \<Rightarrow> grp_world \<Rightarrow> grp_world" where
  "SetBattleGroundRaid a sub p w =
     (let w1 = SetGroupRef OriginalRef
                 (case GetGroup p w of None \<Rightarrow> None | Some b \<Rightarrow> Some (b, ref_subgroup MainRef p w)) p w
      in set_ref_subgroup MainRef sub p (link_ref MainRef a p (unlink_ref MainRef p w1)))"

definition RemoveFromBattleGroundRaid :: "object_guid \<Rightarrow> grp_world \<Rightarrow> grp_world" where
  "RemoveFromBattleGroundRaid p w =
     (let w1 = unlink_ref MainRef p w;
          w2 = (case GetOriginalGroup p w1 of
                  None \<Rightarrow> w1
                | Some b \<Rightarrow> set_ref_subgroup MainRef (ref_subgroup OriginalRef p w1) p (link_ref MainRef b p w1))
      in SetGroupRef OriginalRef None p w2)"

definition SetGroupInvite :: "gaddr option \<Rightarrow> object_guid \<Rightarrow> grp_world \<Rightarrow> grp_world" where
  "SetGroupInvite a p w = upd_player p (\<lambda>pl. pl\<lparr>gp_invite := a\<rparr>) w"

definition UpdateGroupLeaderFlag :: "bool \<Rightarrow> object_guid \<Rightarrow> grp_world \<Rightarrow> grp_world" where
  "UpdateGroupLeaderFlag remove p w =
     (let leads = (case GetGroup p w of None \<Rightarrow> False | Some a \<Rightarrow> g_leaderGuid (this_group a w) = p)
      in upd_player p
           (\<lambda>pl. if gp_leaderFlag pl
                 then (if remove \<or> \<not> leads then pl\<lparr>gp_leaderFlag := False\<rparr> else pl)
                 else (if \<not> remove \<and> leads then pl\<lparr>gp_leaderFlag := True\<rparr> else pl)) w)"

section \<open>Accessors of a group\<close>

definition find_slot :: "object_guid \<Rightarrow> group \<Rightarrow> member_slot option" where
  "find_slot guid g = find (\<lambda>s. ms_guid s = guid) (g_slots g)"

definition IsMember :: "object_guid \<Rightarrow> group \<Rightarrow> bool" where
  "IsMember guid g \<longleftrightarrow> find_slot guid g \<noteq> None"

definition IsLeader :: "object_guid \<Rightarrow> group \<Rightarrow> bool" where
  "IsLeader guid g \<longleftrightarrow> g_leaderGuid g = guid"

definition IsAssistant :: "object_guid \<Rightarrow> group \<Rightarrow> bool" where
  "IsAssistant guid g = (case find_slot guid g of None \<Rightarrow> False | Some s \<Rightarrow> ms_assistant s)"

definition GetMemberGuid :: "u8 list \<Rightarrow> group \<Rightarrow> object_guid" where
  "GetMemberGuid name g = (case find (\<lambda>s. ms_name s = name) (g_slots g) of Some s \<Rightarrow> ms_guid s | None \<Rightarrow> 0)"

definition GetMemberGroup :: "object_guid \<Rightarrow> group \<Rightarrow> u8" where
  "GetMemberGroup guid g =
     (case find_slot guid g of None \<Rightarrow> of_nat (MAX_RAID_SUBGROUPS + 1) | Some s \<Rightarrow> ms_group s)"

definition GetMembersCount :: "group \<Rightarrow> nat" where
  "GetMembersCount g = length (g_slots g)"

definition GetMembersMinCount :: "group \<Rightarrow> nat" where
  "GetMembersMinCount g = (if g_bg g then 1 else 2)"

definition IsFull :: "group \<Rightarrow> bool" where
  "IsFull g \<longleftrightarrow> (if \<not> g_raid g then MAX_GROUP_SIZE \<le> length (g_slots g) else MAX_RAID_SIZE \<le> length (g_slots g))"

definition IsCreated :: "group \<Rightarrow> bool" where
  "IsCreated g \<longleftrightarrow> 0 < GetMembersCount g"

definition HasFreeSlotSubGroup :: "u8 \<Rightarrow> group \<Rightarrow> bool" where
  "HasFreeSlotSubGroup subgroup g =
     (case g_counts g of None \<Rightarrow> False | Some c \<Rightarrow> unat (c ! unat subgroup) < MAX_GROUP_SIZE)"

definition GetInvited :: "object_guid \<Rightarrow> group \<Rightarrow> object_guid option" where
  "GetInvited guid g = find (\<lambda>p. p = guid) (g_invitees g)"

definition GetInvited_name :: "u8 list \<Rightarrow> gaddr \<Rightarrow> grp_world \<Rightarrow> object_guid option" where
  "GetInvited_name name a w =
     find (\<lambda>p. case gw_players w p of None \<Rightarrow> False | Some pl \<Rightarrow> gp_name pl = name) (g_invitees (this_group a w))"

definition SameSubGroup :: "gaddr \<Rightarrow> object_guid \<Rightarrow> object_guid \<Rightarrow> grp_world \<Rightarrow> bool" where
  "SameSubGroup a p q w \<longleftrightarrow>
     gw_players w p \<noteq> None \<and> gw_players w q \<noteq> None \<and> GetGroup p w = Some a \<and> GetGroup q w = Some a \<and>
     ref_subgroup MainRef p w = ref_subgroup MainRef q w"

text \<open>Counters of the subgroups.\<close>

definition init_counts :: "member_slot list \<Rightarrow> u8 list" where
  "init_counts slots =
     fold (\<lambda>s c. c[unat (ms_group s) := c ! unat (ms_group s) + 1]) slots (replicate MAX_RAID_SUBGROUPS 0)"

definition SubGroupCounterIncrease :: "gaddr \<Rightarrow> u8 \<Rightarrow> grp_world \<Rightarrow> grp_world" where
  "SubGroupCounterIncrease a sub w =
     (case g_counts (this_group a w) of
        None \<Rightarrow> w
      | Some c \<Rightarrow>
          if unat sub < length c
          then upd_group a (\<lambda>g. g\<lparr>g_counts := Some (c[unat sub := c ! unat sub + 1])\<rparr>) w else fault w)"

definition SubGroupCounterDecrease :: "gaddr \<Rightarrow> u8 \<Rightarrow> grp_world \<Rightarrow> grp_world" where
  "SubGroupCounterDecrease a sub w =
     (case g_counts (this_group a w) of
        None \<Rightarrow> w
      | Some c \<Rightarrow>
          if unat sub < length c
          then upd_group a (\<lambda>g. g\<lparr>g_counts := Some (c[unat sub := c ! unat sub - 1])\<rparr>) w else fault w)"

definition initRaidSubGroupsCounter :: "gaddr \<Rightarrow> grp_world \<Rightarrow> grp_world" where
  "initRaidSubGroupsCounter a w =
     (let slots = g_slots (this_group a w)
      in if list_all (\<lambda>s. unat (ms_group s) < MAX_RAID_SUBGROUPS) slots
         then upd_group a (\<lambda>g. g\<lparr>g_counts := Some (init_counts slots)\<rparr>) w else fault w)"

section \<open>Packets to the members\<close>

definition GetGroupMemberStatus :: "grp_player option \<Rightarrow> u8" where
  "GetGroupMemberStatus member =
     (case member of
        None \<Rightarrow> 0
      | Some pl \<Rightarrow>
          if gp_session pl \<and> \<not> gp_logout pl
          then 0x01 OR (if gp_pvp pl then 0x02 else 0) OR (if gp_dead pl then 0x04 else 0) OR
               (if gp_ghost pl then 0x08 else 0) OR (if gp_ffa pl then 0x10 else 0) OR
               (if gp_afk pl then 0x40 else 0) OR (if gp_dnd pl then 0x80 else 0)
          else 0)"

definition slot_flags :: "member_slot \<Rightarrow> u8" where
  "slot_flags s = ms_group s OR (if ms_assistant s then 0x80 else 0)"

definition list_entry :: "grp_world \<Rightarrow> member_slot \<Rightarrow> u8 list" where
  "list_entry w s =
     pstr (ms_name s) @ pguid (ms_guid s) @ [GetGroupMemberStatus (FindPlayer w (ms_guid s))] @ [slot_flags s]"

definition group_list_bytes :: "grp_world \<Rightarrow> group \<Rightarrow> member_slot \<Rightarrow> u8 list" where
  "group_list_bytes w g s =
     [if g_raid g then 1 else 0] @ [slot_flags s] @ p32 (of_nat (GetMembersCount g) - 1) @
     concat (map (\<lambda>s2. if ms_guid s = ms_guid s2 then [] else list_entry w s2) (g_slots g)) @
     pguid (g_leaderGuid g) @
     (if (of_nat (GetMembersCount g) - 1 :: u32) \<noteq> 0
      then [ucast (g_lootMethod g)] @ pguid (g_looterGuid g) @ [ucast (g_lootThreshold g)] else [])"

definition update_packets :: "gaddr \<Rightarrow> grp_world \<Rightarrow> (object_guid \<times> grp_packet) list" where
  "update_packets a w =
     concat (map (\<lambda>s. case FindPlayer w (ms_guid s) of
                        None \<Rightarrow> []
                      | Some pl \<Rightarrow>
                          if gp_session pl \<and> gr_target (gp_group pl) = Some a
                          then [(ms_guid s, SMSG_GROUP_LIST, group_list_bytes w (this_group a w) s)] else [])
                 (g_slots (this_group a w)))"

definition SendUpdate :: "gaddr \<Rightarrow> grp_world \<Rightarrow> grp_world" where
  "SendUpdate a w = w\<lparr>gw_out := gw_out w @ update_packets a w\<rparr>"

text \<open>The empty list a player without a group gets.\<close>

definition empty_list :: grp_packet where
  "empty_list = (SMSG_GROUP_LIST, pguid 0 @ pguid 0 @ pguid 0)"

definition BroadcastPacket ::
  "gaddr \<Rightarrow> grp_packet \<Rightarrow> bool \<Rightarrow> u8 option \<Rightarrow> object_guid \<Rightarrow> grp_world \<Rightarrow> grp_world" where
  "BroadcastPacket a pkt ignorePlayersInBGRaid sub ignore w =
     w\<lparr>gw_out := gw_out w @ concat (map (\<lambda>(p, k).
          case gw_players w p of
            None \<Rightarrow> []
          | Some pl \<Rightarrow>
              if ignore \<noteq> 0 \<and> p = ignore \<or> ignorePlayersInBGRaid \<and> gr_target (gp_group pl) \<noteq> Some a then []
              else if gp_session pl \<and> (sub = None \<or> sub = Some (gr_subGroup (get_ref k pl))) then [(p, pkt)] else [])
          (g_refs (this_group a w)))\<rparr>"

definition UpdatePlayerOutOfRange :: "grp_env \<Rightarrow> gaddr \<Rightarrow> object_guid \<Rightarrow> grp_world \<Rightarrow> grp_world" where
  "UpdatePlayerOutOfRange env a p w =
     (case FindPlayer w p of
        None \<Rightarrow> w
      | Some pl \<Rightarrow>
          if gp_updateMask pl = GROUP_UPDATE_FLAG_NONE then w
          else w\<lparr>gw_out := gw_out w @
                 map (\<lambda>(q, k). (q, SMSG_PARTY_MEMBER_STATS, ge_stats env p))
                     (filter (\<lambda>(q, k). q \<noteq> p \<and> \<not> ge_sees env q p) (g_refs (this_group a w)))\<rparr>)"

definition BroadcastReadyCheck :: "gaddr \<Rightarrow> grp_packet \<Rightarrow> grp_world \<Rightarrow> grp_world" where
  "BroadcastReadyCheck a pkt w =
     (let g = this_group a w
      in w\<lparr>gw_out := gw_out w @ map (\<lambda>(p, k). (p, pkt)) (filter (\<lambda>(p, k).
            (case gw_players w p of None \<Rightarrow> False | Some pl \<Rightarrow> gp_session pl) \<and>
            (IsLeader p g \<or> IsAssistant p g)) (g_refs g))\<rparr>)"

section \<open>Database statements\<close>

definition sql_update_group :: "u32 \<Rightarrow> (group_row \<Rightarrow> group_row) \<Rightarrow> grp_world \<Rightarrow> grp_world" where
  "sql_update_group i f w = w\<lparr>gw_rows := (gw_rows w)(i := map_option f (gw_rows w i))\<rparr>"

definition sql_delete_group :: "u32 \<Rightarrow> grp_world \<Rightarrow> grp_world" where
  "sql_delete_group i w =
     w\<lparr>gw_rows := (gw_rows w)(i := None), gw_members := filter (\<lambda>r. mr_groupId r \<noteq> i) (gw_members w)\<rparr>"

text \<open>The primary key is (groupId, memberGuid); a second insertion of a key fails.\<close>

definition sql_insert_member :: "member_row \<Rightarrow> grp_world \<Rightarrow> grp_world" where
  "sql_insert_member r w =
     (if \<exists>x \<in> set (gw_members w). mr_groupId x = mr_groupId r \<and> mr_memberGuid x = mr_memberGuid r then w
      else w\<lparr>gw_members := gw_members w @ [r]\<rparr>)"

definition sql_delete_member :: "u32 \<Rightarrow> grp_world \<Rightarrow> grp_world" where
  "sql_delete_member low w = w\<lparr>gw_members := filter (\<lambda>r. mr_memberGuid r \<noteq> low) (gw_members w)\<rparr>"

definition sql_update_member :: "u32 \<Rightarrow> (member_row \<Rightarrow> member_row) \<Rightarrow> grp_world \<Rightarrow> grp_world" where
  "sql_update_member low f w =
     w\<lparr>gw_members := map (\<lambda>r. if mr_memberGuid r = low then f r else r) (gw_members w)\<rparr>"

end
