(* ===== verification/GroupLoot.thy ===== *)
theory GroupLoot
  imports GroupModel
begin

text \<open>
  The loot rolls of a group, \<^verbatim>\<open>src/game/Group/Group.cpp\<close> from \<^verbatim>\<open>SendLootStartRoll\<close> to
  \<^verbatim>\<open>CountTheRoll\<close>, and \<^verbatim>\<open>_removeRolls\<close>. An iterator into \<^verbatim>\<open>RollId\<close> is an index. Random numbers,
  items, distances and the room in a player's bags are read from the environment.
\<close>

section \<open>Packets\<close>

definition voters :: "roll \<Rightarrow> object_guid list" where
  "voters r = map fst (filter (\<lambda>e. snd e \<noteq> ROLL_NOT_VALID) (r_playerVote r))"

definition send_voters :: "roll \<Rightarrow> grp_packet \<Rightarrow> grp_world \<Rightarrow> grp_world" where
  "send_voters r pkt w =
     w\<lparr>gw_out := gw_out w @ map (\<lambda>p. (p, pkt))
         (filter (\<lambda>p. case FindPlayer w p of None \<Rightarrow> False | Some pl \<Rightarrow> gp_session pl) (voters r))\<rparr>"

definition SendLootStartRoll :: "u32 \<Rightarrow> roll \<Rightarrow> grp_world \<Rightarrow> grp_world" where
  "SendLootStartRoll CountDown r w =
     send_voters r (SMSG_LOOT_START_ROLL,
       pguid (r_lootedTargetGUID r) @ p32 (ucast (r_itemSlot r)) @ p32 (r_itemid r) @ p32 0 @
       p32 (r_itemRandomPropId r) @ p32 CountDown) w"

definition SendLootRoll :: "object_guid \<Rightarrow> u8 \<Rightarrow> u8 \<Rightarrow> roll \<Rightarrow> grp_world \<Rightarrow> grp_world" where
  "SendLootRoll targetGuid rollNumber rollType r w =
     send_voters r (SMSG_LOOT_ROLL,
       pguid (r_lootedTargetGUID r) @ p32 (ucast (r_itemSlot r)) @ pguid targetGuid @ p32 (r_itemid r) @ p32 0 @
       p32 (r_itemRandomPropId r) @ [rollNumber, rollType]) w"

definition SendLootRollWon :: "object_guid \<Rightarrow> u8 \<Rightarrow> roll_vote \<Rightarrow> roll \<Rightarrow> grp_world \<Rightarrow> grp_world" where
  "SendLootRollWon targetGuid rollNumber rollType r w =
     send_voters r (SMSG_LOOT_ROLL_WON,
       pguid (r_lootedTargetGUID r) @ p32 (ucast (r_itemSlot r)) @ p32 (r_itemid r) @ p32 0 @
       p32 (r_itemRandomPropId r) @ pguid targetGuid @ [rollNumber, vote_code rollType]) w"

definition SendLootAllPassed :: "roll \<Rightarrow> grp_world \<Rightarrow> grp_world" where
  "SendLootAllPassed r w =
     send_voters r (SMSG_LOOT_ALL_PASSED,
       pguid (r_lootedTargetGUID r) @ p32 (ucast (r_itemSlot r)) @ p32 (r_itemid r) @
       p32 (r_itemRandomPropId r) @ p32 0) w"

definition EQUIP_ERR_CANT_EQUIP_LEVEL_I :: u8 where "EQUIP_ERR_CANT_EQUIP_LEVEL_I = 1"
definition EQUIP_ERR_OK :: u8 where "EQUIP_ERR_OK = 0"

definition SendEquipError :: "grp_env \<Rightarrow> u8 \<Rightarrow> u32 \<Rightarrow> object_guid \<Rightarrow> grp_world \<Rightarrow> grp_world" where
  "SendEquipError env msg itemid p w =
     gsend p (SMSG_INVENTORY_CHANGE_FAILURE,
       [msg] @
       (if msg \<noteq> EQUIP_ERR_OK
        then (if msg = EQUIP_ERR_CANT_EQUIP_LEVEL_I then p32 (ge_requiredLevel env itemid) else []) @
             pguid 0 @ pguid 0 @ [0]
        else [])) w"

section \<open>Rolls of a group\<close>

definition the_roll :: "gaddr \<Rightarrow> nat \<Rightarrow> grp_world \<Rightarrow> roll" where
  "the_roll a i w = g_rolls (this_group a w) ! i"

definition upd_roll :: "gaddr \<Rightarrow> nat \<Rightarrow> (roll \<Rightarrow> roll) \<Rightarrow> grp_world \<Rightarrow> grp_world" where
  "upd_roll a i f w = upd_group a (\<lambda>g. g\<lparr>g_rolls := (g_rolls g)[i := f (g_rolls g ! i)]\<rparr>) w"

definition erase_roll :: "gaddr \<Rightarrow> nat \<Rightarrow> grp_world \<Rightarrow> grp_world" where
  "erase_roll a i w = upd_group a (\<lambda>g. g\<lparr>g_rolls := take i (g_rolls g) @ drop (Suc i) (g_rolls g)\<rparr>) w"

definition loot_items :: "laddr \<Rightarrow> grp_world \<Rightarrow> loot_item list" where
  "loot_items l w = (case gw_loots w l of None \<Rightarrow> [] | Some lo \<Rightarrow> l_items lo)"

definition upd_item :: "laddr \<Rightarrow> nat \<Rightarrow> (loot_item \<Rightarrow> loot_item) \<Rightarrow> grp_world \<Rightarrow> grp_world" where
  "upd_item l i f w =
     (if i < length (loot_items l w)
      then upd_loot l (\<lambda>lo. lo\<lparr>l_items := (l_items lo)[i := f (l_items lo ! i)]\<rparr>) w else fault w)"

definition NotifyItemRemoved :: "laddr \<Rightarrow> u8 \<Rightarrow> grp_world \<Rightarrow> grp_world" where
  "NotifyItemRemoved l lootIndex w =
     (let looters = (case gw_loots w l of None \<Rightarrow> [] | Some lo \<Rightarrow> l_playersLooting lo);
          here = filter (\<lambda>p. FindPlayer w p \<noteq> None) looters
      in upd_loot l (\<lambda>lo. lo\<lparr>l_playersLooting := here\<rparr>)
           (w\<lparr>gw_out := gw_out w @ map (\<lambda>p. (p, SMSG_LOOT_REMOVED, [lootIndex])) here\<rparr>))"

definition urand :: "grp_env \<Rightarrow> u32 \<Rightarrow> u32 \<Rightarrow> grp_world \<Rightarrow> u32 \<times> grp_world" where
  "urand env low high w = (ge_urand env (gw_draws w) low high, w\<lparr>gw_draws := gw_draws w + 1\<rparr>)"

section \<open>The end of a roll\<close>

text \<open>The loop over the votes: a draw for each voter of the kind, and the highest so far.\<close>

fun roll_loop ::
  "grp_env \<Rightarrow> roll_vote \<Rightarrow> roll \<Rightarrow> (object_guid \<times> roll_vote) list \<Rightarrow> u8 \<Rightarrow> object_guid \<Rightarrow> grp_world \<Rightarrow>
     u8 \<times> object_guid \<times> grp_world" where
  "roll_loop env kind r [] maxresul maxguid w = (maxresul, maxguid, w)"
| "roll_loop env kind r ((p, v) # votes) maxresul maxguid w =
     (if v \<noteq> kind then roll_loop env kind r votes maxresul maxguid w
      else
        (let (n, w1) = urand env 1 100 w;
             randomN = ucast n;
             w2 = SendLootRoll p randomN (vote_code v) r w1
         in if maxresul < randomN then roll_loop env kind r votes randomN p w2
            else roll_loop env kind r votes maxresul maxguid w2))"

text \<open>The winner gets the item, or the item is kept for him.\<close>

definition give_item :: "laddr \<Rightarrow> roll \<Rightarrow> object_guid \<Rightarrow> grp_world \<Rightarrow> grp_world" where
  "give_item l r p w =
     (let slot = unat (r_itemSlot r);
          w1 = NotifyItemRemoved l (r_itemSlot r) (upd_item l slot (\<lambda>it. it\<lparr>li_is_looted := True\<rparr>) w);
          w2 = upd_loot l (\<lambda>lo. lo\<lparr>l_unlootedCount := l_unlootedCount lo - 1\<rparr>) w1
      in w2\<lparr>gw_stored := gw_stored w2 @ [(p, r_itemid r, li_count (loot_items l w ! slot))]\<rparr>)"

definition award_need :: "grp_env \<Rightarrow> laddr \<Rightarrow> roll \<Rightarrow> object_guid \<Rightarrow> grp_world \<Rightarrow> grp_world" where
  "award_need env l r maxguid w =
     (let slot = unat (r_itemSlot r)
      in if \<not> slot < length (loot_items l w) then fault w
         else if (case FindPlayer w maxguid of None \<Rightarrow> False | Some pl \<Rightarrow> gp_session pl)
         then (let msg = ge_canStore env (gw_stored w) maxguid (r_itemid r) (li_count (loot_items l w ! slot))
               in if msg = EQUIP_ERR_OK then give_item l r maxguid w
                  else SendEquipError env msg (r_itemid r) maxguid
                         (upd_item l slot (\<lambda>it. it\<lparr>li_is_blocked := False, li_lootOwner := maxguid\<rparr>) w))
         else upd_item l slot (\<lambda>it. it\<lparr>li_lootOwner := maxguid\<rparr>) w)"

definition award_greed :: "grp_env \<Rightarrow> laddr \<Rightarrow> roll \<Rightarrow> object_guid \<Rightarrow> grp_world \<Rightarrow> grp_world" where
  "award_greed env l r maxguid w =
     (let slot = unat (r_itemSlot r)
      in if (case FindPlayer w maxguid of None \<Rightarrow> False | Some pl \<Rightarrow> gp_session pl)
         then (if \<not> slot < length (loot_items l w) then fault w
               else (let msg = ge_canStore env (gw_stored w) maxguid (r_itemid r) (li_count (loot_items l w ! slot))
                     in if msg = EQUIP_ERR_OK then give_item l r maxguid w
                        else SendEquipError env msg (r_itemid r) maxguid
                               (upd_item l slot (\<lambda>it. it\<lparr>li_is_blocked := False\<rparr>) w)))
         else w)"

definition settle_roll :: "grp_env \<Rightarrow> laddr \<Rightarrow> roll \<Rightarrow> grp_world \<Rightarrow> grp_world" where
  "settle_roll env l r w =
     (if 0 < r_totalNeed r
      then (case r_playerVote r of
              [] \<Rightarrow> w
            | (first, _) # _ \<Rightarrow>
                (let (maxresul, maxguid, w1) = roll_loop env ROLL_NEED r (r_playerVote r) 0 first w
                 in award_need env l r maxguid (SendLootRollWon maxguid maxresul ROLL_NEED r w1)))
      else if 0 < r_totalGreed r
      then (case r_playerVote r of
              [] \<Rightarrow> w
            | (first, _) # _ \<Rightarrow>
                (let (maxresul, maxguid, w1) = roll_loop env ROLL_GREED r (r_playerVote r) 0 first w
                 in award_greed env l r maxguid (SendLootRollWon maxguid maxresul ROLL_GREED r w1)))
      else upd_item l (unat (r_itemSlot r)) (\<lambda>it. it\<lparr>li_is_blocked := False\<rparr>) (SendLootAllPassed r w))"

definition CountTheRoll :: "grp_env \<Rightarrow> gaddr \<Rightarrow> nat \<Rightarrow> grp_world \<Rightarrow> grp_world" where
  "CountTheRoll env a i w =
     (case r_loot (the_roll a i w) of
        None \<Rightarrow> erase_roll a i w
      | Some l \<Rightarrow> erase_roll a i (settle_roll env l (the_roll a i w) w))"

section \<open>Votes\<close>

definition roll_over :: "roll \<Rightarrow> bool" where
  "roll_over r \<longleftrightarrow>
     unat (r_totalPlayersRolling r) \<le> unat (r_totalPass r) + unat (r_totalNeed r) + unat (r_totalGreed r)"

definition set_vote :: "object_guid \<Rightarrow> roll_vote \<Rightarrow> (object_guid \<times> roll_vote) list \<Rightarrow> (object_guid \<times> roll_vote) list" where
  "set_vote p v votes = map (\<lambda>(q, u). (q, if q = p then v else u)) votes"

definition cast_vote :: "object_guid \<Rightarrow> roll_vote \<Rightarrow> roll \<Rightarrow> roll" where
  "cast_vote p vote r =
     (case vote of
        ROLL_PASS \<Rightarrow> r\<lparr>r_totalPass := r_totalPass r + 1, r_playerVote := set_vote p ROLL_PASS (r_playerVote r)\<rparr>
      | ROLL_NEED \<Rightarrow> r\<lparr>r_totalNeed := r_totalNeed r + 1, r_playerVote := set_vote p ROLL_NEED (r_playerVote r)\<rparr>
      | ROLL_GREED \<Rightarrow> r\<lparr>r_totalGreed := r_totalGreed r + 1, r_playerVote := set_vote p ROLL_GREED (r_playerVote r)\<rparr>
      | _ \<Rightarrow> r)"

definition announce_vote :: "object_guid \<Rightarrow> roll_vote \<Rightarrow> roll \<Rightarrow> grp_world \<Rightarrow> grp_world" where
  "announce_vote p vote r w =
     (case vote of
        ROLL_PASS \<Rightarrow> SendLootRoll p 128 128 r w
      | ROLL_NEED \<Rightarrow> SendLootRoll p 0 0 r w
      | ROLL_GREED \<Rightarrow> SendLootRoll p 128 2 r w
      | _ \<Rightarrow> w)"

definition CountRollVote_at ::
  "grp_env \<Rightarrow> gaddr \<Rightarrow> object_guid \<Rightarrow> nat \<Rightarrow> roll_vote \<Rightarrow> grp_world \<Rightarrow> bool \<times> grp_world" where
  "CountRollVote_at env a playerGUID i vote w =
     (let r = the_roll a i w
      in if map_of (r_playerVote r) playerGUID = None then (True, w)
         else if (case r_loot r of None \<Rightarrow> False | Some l \<Rightarrow> loot_items l w = []) then (False, w)
         else (let w1 = upd_roll a i (cast_vote playerGUID vote) (announce_vote playerGUID vote r w)
               in if roll_over (the_roll a i w1) then (True, CountTheRoll env a i w1) else (False, w1)))"

definition roll_matches :: "object_guid \<Rightarrow> u32 \<Rightarrow> roll \<Rightarrow> bool" where
  "roll_matches lootedTarget itemSlot r \<longleftrightarrow>
     r_loot r \<noteq> None \<and> r_lootedTargetGUID r = lootedTarget \<and> ucast (r_itemSlot r) = itemSlot"

definition CountRollVote ::
  "grp_env \<Rightarrow> gaddr \<Rightarrow> object_guid \<Rightarrow> object_guid \<Rightarrow> u32 \<Rightarrow> roll_vote \<Rightarrow> grp_world \<Rightarrow> bool \<times> grp_world" where
  "CountRollVote env a p lootedTarget itemSlot vote w =
     (case find (\<lambda>i. roll_matches lootedTarget itemSlot (the_roll a i w)) [0..<length (g_rolls (this_group a w))] of
        None \<Rightarrow> (False, w)
      | Some i \<Rightarrow> (True, snd (CountRollVote_at env a p i vote w)))"

section \<open>The start of a roll\<close>

definition LOOT_ROLL_TIMEOUT :: u32 where "LOOT_ROLL_TIMEOUT = 1 * 60 * 1000"

definition put_vote :: "object_guid \<Rightarrow> roll_vote \<Rightarrow> (object_guid \<times> roll_vote) list \<Rightarrow> (object_guid \<times> roll_vote) list" where
  "put_vote p v votes = (if map_of votes p = None then votes @ [(p, v)] else set_vote p v votes)"

definition may_roll :: "grp_env \<Rightarrow> u32 \<Rightarrow> object_guid \<Rightarrow> loot_item \<Rightarrow> grp_world \<Rightarrow> object_guid \<Rightarrow> bool" where
  "may_roll env meth target it w p \<longleftrightarrow>
     (case gw_players w p of None \<Rightarrow> False | Some pl \<Rightarrow> gp_session pl \<and> gp_inWorld pl) \<and>
     (meth \<noteq> NEED_BEFORE_GREED \<or> ge_canUse env p (li_itemid it)) \<and> ge_allowed env p it target \<and>
     ge_within env p target"

definition new_roll :: "object_guid \<Rightarrow> loot_item \<Rightarrow> roll" where
  "new_roll target it =
     \<lparr>r_lootedTargetGUID = target, r_itemid = li_itemid it, r_itemRandomPropId = li_randomPropertyId it,
      r_playerVote = [], r_totalPlayersRolling = 0, r_totalNeed = 0, r_totalGreed = 0, r_totalPass = 0,
      r_itemSlot = 0, r_loot = None\<rparr>"

definition collect_rollers ::
  "grp_env \<Rightarrow> gaddr \<Rightarrow> object_guid \<Rightarrow> u32 \<Rightarrow> loot_item \<Rightarrow> grp_world \<Rightarrow> roll" where
  "collect_rollers env a target meth it w =
     (let r = fold (\<lambda>(p, k) r. if may_roll env meth target it w p
                               then r\<lparr>r_playerVote := put_vote p ROLL_NOT_EMITED_YET (r_playerVote r),
                                      r_totalPlayersRolling := r_totalPlayersRolling r + 1\<rparr>
                               else r)
                   (g_refs (this_group a w)) (new_roll target it)
      in r\<lparr>r_playerVote := ge_tableOrder env (r_playerVote r)\<rparr>)"

definition StartLootRoll ::
  "grp_env \<Rightarrow> gaddr \<Rightarrow> object_guid \<Rightarrow> u32 \<Rightarrow> laddr \<Rightarrow> u8 \<Rightarrow> grp_world \<Rightarrow> grp_world" where
  "StartLootRoll env a target meth l itemSlot w =
     (if length (loot_items l w) \<le> unat itemSlot then w
      else
        (let r = collect_rollers env a target meth (loot_items l w ! unat itemSlot) w;
             push = (\<lambda>r w. upd_group a (\<lambda>g. g\<lparr>g_rolls := g_rolls g @ [r]\<rparr>) w)
         in if 0 < r_totalPlayersRolling r
            then (let r1 = r\<lparr>r_loot := Some l, r_itemSlot := itemSlot\<rparr>
                  in if r_totalPlayersRolling r = 1
                     then (case r_playerVote r1 of
                             [] \<Rightarrow> fault w
                           | (p, _) # votes \<Rightarrow> push (r1\<lparr>r_playerVote := (p, ROLL_NEED) # votes\<rparr>) w)
                     else push r1 (upd_item l (unat itemSlot) (\<lambda>it. it\<lparr>li_is_blocked := True\<rparr>)
                                     (SendLootStartRoll LOOT_ROLL_TIMEOUT r1 w)))
            else w))"

text \<open>
  \<^verbatim>\<open>GroupLoot\<close> and \<^verbatim>\<open>NeedBeforeGreed\<close> differ in the method alone; a loot has at most sixteen
  items, so the counter of the loop does not wrap.
\<close>

definition loot_one :: "grp_env \<Rightarrow> gaddr \<Rightarrow> object_guid \<Rightarrow> u32 \<Rightarrow> laddr \<Rightarrow> nat \<Rightarrow> grp_world \<Rightarrow> grp_world" where
  "loot_one env a target meth l i w =
     (let it = loot_items l w ! i
      in if li_freeforall it then w
         else (case ge_quality env (li_itemid it) of
                 None \<Rightarrow> w
               | Some q \<Rightarrow>
                   if g_lootThreshold (this_group a w) \<le> q then StartLootRoll env a target meth l (of_nat i) w
                   else upd_item l i (\<lambda>it. it\<lparr>li_is_underthreshold := True\<rparr>) w))"

definition GroupLoot :: "grp_env \<Rightarrow> gaddr \<Rightarrow> object_guid \<Rightarrow> laddr \<Rightarrow> grp_world \<Rightarrow> grp_world" where
  "GroupLoot env a target l w =
     fold (\<lambda>i. loot_one env a target GROUP_LOOT l i) [0..<length (loot_items l w)] w"

definition NeedBeforeGreed :: "grp_env \<Rightarrow> gaddr \<Rightarrow> object_guid \<Rightarrow> laddr \<Rightarrow> grp_world \<Rightarrow> grp_world" where
  "NeedBeforeGreed env a target l w =
     fold (\<lambda>i. loot_one env a target NEED_BEFORE_GREED l i) [0..<length (loot_items l w)] w"

definition mark_under :: "grp_env \<Rightarrow> u32 \<Rightarrow> loot_item \<Rightarrow> loot_item" where
  "mark_under env threshold it =
     (case ge_quality env (li_itemid it) of
        None \<Rightarrow> it | Some q \<Rightarrow> if q < threshold then it\<lparr>li_is_underthreshold := True\<rparr> else it)"

definition MasterLoot :: "grp_env \<Rightarrow> gaddr \<Rightarrow> object_guid \<Rightarrow> laddr \<Rightarrow> grp_world \<Rightarrow> grp_world" where
  "MasterLoot env a target l w =
     (let g = this_group a w;
          w1 = upd_loot l (\<lambda>lo. lo\<lparr>l_items := map (mark_under env (g_lootThreshold g)) (l_items lo)\<rparr>) w;
          near = filter (\<lambda>(p, k). (case gw_players w p of None \<Rightarrow> False | Some pl \<Rightarrow> gp_inWorld pl) \<and>
                                  ge_within env p target) (g_refs g);
          pkt = (SMSG_LOOT_MASTER_LIST, of_nat (length near) # concat (map (\<lambda>(p, k). pguid p) near))
      in w1\<lparr>gw_out := gw_out w1 @ map (\<lambda>(p, k). (p, pkt)) near\<rparr>)"

section \<open>What rolls leave alone\<close>

lemma this_group_upd_group [simp]:
  "this_group b (upd_group a f w) =
     (if b = a \<and> gw_groups w a \<noteq> None then f (this_group a w) else this_group b w)"
  by (auto simp: this_group_def upd_group_def split: option.splits)

definition core :: "group \<Rightarrow> group" where
  "core g = g\<lparr>g_rolls := []\<rparr>"

definition same_core :: "grp_world \<Rightarrow> grp_world \<Rightarrow> bool" where
  "same_core w w' \<longleftrightarrow>
     gw_players w' = gw_players w \<and> gw_fresh w' = gw_fresh w \<and> gw_groupMap w' = gw_groupMap w \<and>
     gw_nextId w' = gw_nextId w \<and> gw_rows w' = gw_rows w \<and> gw_members w' = gw_members w \<and>
     map_option core \<circ> gw_groups w' = map_option core \<circ> gw_groups w"

lemma same_core_refl [simp]: "same_core w w"
  by (simp add: same_core_def)

lemma same_core_trans: "same_core w w' \<Longrightarrow> same_core w' w'' \<Longrightarrow> same_core w w''"
  by (simp add: same_core_def)

lemma same_core_player: "same_core w w' \<Longrightarrow> gw_players w' = gw_players w"
  by (simp add: same_core_def)

lemma same_core_FindPlayer: "same_core w w' \<Longrightarrow> FindPlayer w' p = FindPlayer w p"
  by (simp add: same_core_def FindPlayer_def)

lemma same_core_group:
  "same_core w w' \<Longrightarrow> gw_groups w' a = None \<longleftrightarrow> gw_groups w a = None"
  "same_core w w' \<Longrightarrow> gw_groups w' a = Some g' \<Longrightarrow> \<exists>g. gw_groups w a = Some g \<and> core g' = core g"
proof -
  assume "same_core w w'"
  then have eq: "map_option core (gw_groups w' a) = map_option core (gw_groups w a)"
    by (auto simp: same_core_def fun_eq_iff)
  then show "gw_groups w' a = None \<longleftrightarrow> gw_groups w a = None"
    by (metis option.map_disc_iff)
  show "gw_groups w' a = Some g' \<Longrightarrow> \<exists>g. gw_groups w a = Some g \<and> core g' = core g"
    using eq by (cases "gw_groups w a") auto
qed

lemma same_core_rolls [intro]: "same_core w (upd_group a (\<lambda>g. g\<lparr>g_rolls := f g\<rparr>) w)"
  by (cases "gw_groups w a") (auto simp: same_core_def upd_group_def core_def fun_eq_iff)

text \<open>Sending, drawing and changing loot leave players, groups and tables as they are.\<close>

definition quiet :: "grp_world \<Rightarrow> grp_world \<Rightarrow> bool" where
  "quiet w w' \<longleftrightarrow>
     gw_players w' = gw_players w \<and> gw_groups w' = gw_groups w \<and> gw_fresh w' = gw_fresh w \<and>
     gw_groupMap w' = gw_groupMap w \<and> gw_nextId w' = gw_nextId w \<and> gw_rows w' = gw_rows w \<and>
     gw_members w' = gw_members w"

lemma quiet_refl [simp]: "quiet w w"
  by (simp add: quiet_def)

lemma quiet_trans [trans]: "quiet w w' \<Longrightarrow> quiet w' w'' \<Longrightarrow> quiet w w''"
  by (simp add: quiet_def)

lemma quiet_this [simp]: "quiet w w' \<Longrightarrow> this_group a w' = this_group a w"
  by (simp add: quiet_def this_group_def)

lemma quiet_core: "quiet w w' \<Longrightarrow> same_core w w'"
  by (simp add: quiet_def same_core_def)

lemma quiet_prims [simp]:
  "quiet w (w'\<lparr>gw_out := x\<rparr>) \<longleftrightarrow> quiet w w'" "quiet w (w'\<lparr>gw_draws := n\<rparr>) \<longleftrightarrow> quiet w w'"
  "quiet w (w'\<lparr>gw_stored := y\<rparr>) \<longleftrightarrow> quiet w w'" "quiet w (fault w') \<longleftrightarrow> quiet w w'"
  "quiet w (upd_loot l f w') \<longleftrightarrow> quiet w w'" "quiet w (gsend p pkt w') \<longleftrightarrow> quiet w w'"
  by (auto simp: quiet_def fault_def upd_loot_def gsend_def)

lemma quiet_sends [simp]:
  "quiet w (send_voters r pkt w') \<longleftrightarrow> quiet w w'"
  "quiet w (SendLootStartRoll c r w') \<longleftrightarrow> quiet w w'"
  "quiet w (SendLootRoll g n t r w') \<longleftrightarrow> quiet w w'"
  "quiet w (SendLootRollWon g n v r w') \<longleftrightarrow> quiet w w'"
  "quiet w (SendLootAllPassed r w') \<longleftrightarrow> quiet w w'"
  "quiet w (SendEquipError env msg i p w') \<longleftrightarrow> quiet w w'"
  "quiet w (upd_item l j f w') \<longleftrightarrow> quiet w w'"
  "quiet w (NotifyItemRemoved l s w') \<longleftrightarrow> quiet w w'"
  "quiet w (announce_vote p v r w') \<longleftrightarrow> quiet w w'"
  by (simp_all add: send_voters_def SendLootStartRoll_def SendLootRoll_def SendLootRollWon_def
      SendLootAllPassed_def SendEquipError_def upd_item_def NotifyItemRemoved_def announce_vote_def Let_def
      split: roll_vote.split)

lemma quiet_roll_loop: "quiet w0 w \<Longrightarrow> quiet w0 (snd (snd (roll_loop env kind r votes m g w)))"
  by (induction env kind r votes m g w rule: roll_loop.induct)
     (auto simp: urand_def Let_def split: prod.splits)

lemma quiet_give_item [simp]: "quiet w (give_item l r p w') \<longleftrightarrow> quiet w w'"
  by (simp add: give_item_def Let_def)

lemma quiet_award [simp]:
  "quiet w (award_need env l r p w') \<longleftrightarrow> quiet w w'"
  "quiet w (award_greed env l r p w') \<longleftrightarrow> quiet w w'"
  by (simp_all add: award_need_def award_greed_def Let_def)

lemma quiet_settle: "quiet w (settle_roll env l r w)"
proof -
  have "quiet w w1" if "roll_loop env k r votes m g w = (x, y, w1)" for k votes m g x y w1
    using quiet_roll_loop [OF quiet_refl, of w env k r votes m g] that by simp
  then show ?thesis
    by (auto simp: settle_roll_def simp del: roll_loop.simps split: list.split prod.split)
qed

lemma this_group_settle [simp]: "this_group b (settle_roll env l r w) = this_group b w"
  by (rule quiet_this [OF quiet_settle])

lemma same_core_CountTheRoll: "same_core w (CountTheRoll env a i w)"
  unfolding CountTheRoll_def erase_roll_def
  by (auto split: option.split intro: same_core_trans [OF quiet_core [OF quiet_settle] same_core_rolls])

lemma rolls_upd_group [simp]:
  "g_rolls (this_group a (upd_group a (\<lambda>g. g\<lparr>g_rolls := f (g_rolls g)\<rparr>) w)) =
     (if gw_groups w a = None then [] else f (g_rolls (this_group a w)))"
  by (auto simp: this_group_def Group_new_def upd_group_def split: option.splits)

lemma no_rolls [simp]: "gw_groups w a = None \<Longrightarrow> g_rolls (this_group a w) = []"
  by (simp add: this_group_def Group_new_def)

lemma rolls_CountTheRoll:
  "g_rolls (this_group a (CountTheRoll env a i w)) =
     take i (g_rolls (this_group a w)) @ drop (Suc i) (g_rolls (this_group a w))"
proof -
  have "g_rolls (this_group a (erase_roll a i w')) =
      take i (g_rolls (this_group a w')) @ drop (Suc i) (g_rolls (this_group a w'))" for w'
    unfolding erase_roll_def by (cases "gw_groups w' a") (auto simp: this_group_def upd_group_def Group_new_def)
  then show ?thesis
    unfolding CountTheRoll_def by (auto split: option.split)
qed

lemma length_CountTheRoll:
  "i < length (g_rolls (this_group a w)) \<Longrightarrow>
     length (g_rolls (this_group a (CountTheRoll env a i w))) < length (g_rolls (this_group a w))"
  by (simp add: rolls_CountTheRoll)

lemma the_roll_settle [simp]: "the_roll a i (settle_roll env l r w) = the_roll a i w"
  by (simp add: the_roll_def)

section \<open>Loops over the rolls\<close>

text \<open>\<^verbatim>\<open>EndRoll\<close> starts over after each roll it ends.\<close>

function EndRoll_loop :: "grp_env \<Rightarrow> gaddr \<Rightarrow> laddr \<Rightarrow> nat \<Rightarrow> grp_world \<Rightarrow> grp_world" where
  "EndRoll_loop env a l i w =
     (if length (g_rolls (this_group a w)) \<le> i then w
      else if r_loot (the_roll a i w) = Some l then EndRoll_loop env a l 0 (CountTheRoll env a i w)
      else EndRoll_loop env a l (Suc i) w)"
  by pat_completeness auto
termination
proof (relation "measures [\<lambda>(env, a, l, i, w). length (g_rolls (this_group a w)),
                           \<lambda>(env, a, l, i, w). length (g_rolls (this_group a w)) - i]", goal_cases)
  case (2 env a l i w)
  then show ?case by (simp add: length_CountTheRoll)
qed simp_all

declare EndRoll_loop.simps [simp del]

definition EndRoll :: "grp_env \<Rightarrow> gaddr \<Rightarrow> laddr \<Rightarrow> grp_world \<Rightarrow> grp_world" where
  "EndRoll env a l w = EndRoll_loop env a l 0 w"

text \<open>\<^verbatim>\<open>_removeRolls\<close>: the vote of the player is taken back before the vote is counted again.\<close>

definition take_back :: "object_guid \<Rightarrow> roll_vote \<Rightarrow> roll \<Rightarrow> roll" where
  "take_back p v r =
     (let r1 = (if v = ROLL_GREED then r\<lparr>r_totalGreed := r_totalGreed r - 1\<rparr> else r);
          r2 = (if v = ROLL_NEED then r1\<lparr>r_totalNeed := r_totalNeed r1 - 1\<rparr> else r1);
          r3 = (if v = ROLL_PASS then r2\<lparr>r_totalPass := r_totalPass r2 - 1\<rparr> else r2);
          r4 = (if v \<noteq> ROLL_NOT_VALID then r3\<lparr>r_totalPlayersRolling := r_totalPlayersRolling r3 - 1\<rparr> else r3)
      in r4\<lparr>r_playerVote := filter (\<lambda>e. fst e \<noteq> p) (r_playerVote r4)\<rparr>)"

lemma votes_take_back [simp]: "r_playerVote (take_back p v r) = filter (\<lambda>e. fst e \<noteq> p) (r_playerVote r)"
  by (simp add: take_back_def Let_def)

lemma map_of_filter_neq [simp]: "map_of (filter (\<lambda>e. fst e \<noteq> p) xs) p = None"
  by (induction xs) auto

lemma the_roll_upd_roll [simp]:
  "i < length (g_rolls (this_group a w)) \<Longrightarrow> the_roll a i (upd_roll a i f w) = f (the_roll a i w)"
  by (cases "gw_groups w a") (auto simp: the_roll_def upd_roll_def)

lemma rolls_upd_roll [simp]:
  "g_rolls (this_group a (upd_roll a i f w)) =
     (g_rolls (this_group a w))[i := f (g_rolls (this_group a w) ! i)]"
  by (cases "gw_groups w a") (auto simp: upd_roll_def)

lemma removed_vote_not_counted:
  assumes "i < length (g_rolls (this_group a w))"
  shows "CountRollVote_at env a p i v (upd_roll a i (take_back p u) w) = (True, upd_roll a i (take_back p u) w)"
  using assms by (simp add: CountRollVote_at_def Let_def)

lemma length_filter_map_of: "map_of xs p = Some v \<Longrightarrow> length (filter (\<lambda>e. fst e \<noteq> p) xs) < length xs"
  by (induction xs) (auto split: if_splits simp: less_Suc_eq_le length_filter_le)

lemma rolls_measure:
  assumes "i < length rs" and "map_of (r_playerVote (rs ! i)) p = Some v"
  shows "(\<Sum>r\<leftarrow>rs[i := take_back p u (rs ! i)]. length (r_playerVote r)) < (\<Sum>r\<leftarrow>rs. length (r_playerVote r))"
  using assms
proof (induction rs arbitrary: i)
  case (Cons r rs)
  show ?case
  proof (cases i)
    case 0
    with Cons.prems show ?thesis by (simp add: length_filter_map_of)
  next
    case (Suc j)
    with Cons show ?thesis by simp
  qed
qed simp

function removeRolls_loop :: "grp_env \<Rightarrow> gaddr \<Rightarrow> object_guid \<Rightarrow> nat \<Rightarrow> grp_world \<Rightarrow> grp_world" where
  "removeRolls_loop env a p i w =
     (if length (g_rolls (this_group a w)) \<le> i then w
      else case map_of (r_playerVote (the_roll a i w)) p of
             None \<Rightarrow> removeRolls_loop env a p (Suc i) w
           | Some v \<Rightarrow>
               (case CountRollVote_at env a p i ROLL_NOT_EMITED_YET (upd_roll a i (take_back p v) w) of
                  (counted, w2) \<Rightarrow> if \<not> counted then removeRolls_loop env a p (Suc i) w2
                                   else removeRolls_loop env a p i w2))"
  by pat_completeness auto
termination
proof (relation "measures [\<lambda>(env, a, p, i, w). \<Sum>r\<leftarrow>g_rolls (this_group a w). length (r_playerVote r),
                           \<lambda>(env, a, p, i, w). length (g_rolls (this_group a w)) - i]", goal_cases)
  case 3
  then show ?case by (simp add: removed_vote_not_counted)
next
  case 4
  then show ?case by (simp add: removed_vote_not_counted rolls_measure the_roll_def)
qed simp_all

declare removeRolls_loop.simps [simp del]

definition removeRolls :: "grp_env \<Rightarrow> gaddr \<Rightarrow> object_guid \<Rightarrow> grp_world \<Rightarrow> grp_world" where
  "removeRolls env a p w = removeRolls_loop env a p 0 w"

end
