(* ===== verification/GroupOps.thy ===== *)
theory GroupOps
  imports GroupLoot
begin

text \<open>
  The operations of \<^verbatim>\<open>src/game/Group/Group.cpp\<close> on members, leader, invitations, subgroups,
  roles and target icons, loading from the database, and what \<^verbatim>\<open>Player.cpp\<close> does to its group.
  Instance bindings, quest objects and the values resent to clients are left out.
\<close>

section \<open>Invitations\<close>

definition RemoveInvite :: "gaddr \<Rightarrow> object_guid \<Rightarrow> grp_world \<Rightarrow> grp_world" where
  "RemoveInvite a p w =
     (if p \<in> set (g_invitees (this_group a w))
      then (let w1 = (case gw_players w p of
                        None \<Rightarrow> fault w | Some pl \<Rightarrow> if gp_invite pl = Some a then w else fault w)
            in SetGroupInvite None p (upd_group a (\<lambda>g. g\<lparr>g_invitees := removeAll p (g_invitees g)\<rparr>) w1))
      else w)"

definition RemoveAllInvites :: "gaddr \<Rightarrow> grp_world \<Rightarrow> grp_world" where
  "RemoveAllInvites a w =
     upd_group a (\<lambda>g. g\<lparr>g_invitees := []\<rparr>)
       (fold (\<lambda>p w. SetGroupInvite None p
                (case gw_players w p of
                   None \<Rightarrow> fault w | Some pl \<Rightarrow> if gp_invite pl = Some a then w else fault w))
             (g_invitees (this_group a w)) w)"

text \<open>The group of a player outside battlegrounds.\<close>

definition own_group :: "object_guid \<Rightarrow> grp_world \<Rightarrow> gaddr option" where
  "own_group p w =
     (case GetGroup p w of
        None \<Rightarrow> None
      | Some b \<Rightarrow> if g_bg (this_group b w) then GetOriginalGroup p w else Some b)"

definition AddInvite :: "gaddr \<Rightarrow> object_guid \<Rightarrow> grp_world \<Rightarrow> bool \<times> grp_world" where
  "AddInvite a p w =
     (case gw_players w p of
        None \<Rightarrow> (False, w)
      | Some pl \<Rightarrow>
          if gp_invite pl \<noteq> None then (False, w)
          else if own_group p w \<noteq> None then (False, w)
          else (True, SetGroupInvite (Some a) p
                        (upd_group a (\<lambda>g. g\<lparr>g_invitees := p # g_invitees g\<rparr>) (RemoveInvite a p w))))"

text \<open>The leader's flag on the client.\<close>

definition updateLeaderFlag :: "gaddr \<Rightarrow> bool \<Rightarrow> grp_world \<Rightarrow> grp_world" where
  "updateLeaderFlag a remove w =
     (let leader = g_leaderGuid (this_group a w)
      in case FindPlayer w leader of None \<Rightarrow> w | Some _ \<Rightarrow> UpdateGroupLeaderFlag remove leader w)"

definition AddLeaderInvite :: "gaddr \<Rightarrow> object_guid \<Rightarrow> grp_world \<Rightarrow> bool \<times> grp_world" where
  "AddLeaderInvite a p w =
     (case AddInvite a p w of
        (False, w1) \<Rightarrow> (False, w1)
      | (True, w1) \<Rightarrow>
          (let name = (case gw_players w1 p of None \<Rightarrow> [] | Some pl \<Rightarrow> gp_name pl);
               w2 = upd_group a (\<lambda>g. g\<lparr>g_leaderGuid := p, g_leaderName := name\<rparr>) (updateLeaderFlag a True w1)
           in (True, updateLeaderFlag a False w2)))"

section \<open>Members\<close>

text \<open>The reference a new member gets depends on the group he is already in.\<close>

definition join_link :: "gaddr \<Rightarrow> u8 \<Rightarrow> object_guid \<Rightarrow> grp_world \<Rightarrow> grp_world" where
  "join_link a sub p w =
     (if GetGroup p w \<noteq> None \<and> g_bg (this_group a w) then SetBattleGroundRaid a sub p w
      else if GetGroup p w \<noteq> None then SetGroupRef OriginalRef (Some (a, sub)) p w
      else SetGroupRef MainRef (Some (a, sub)) p w)"

definition drop_invite :: "object_guid \<Rightarrow> grp_world \<Rightarrow> grp_world" where
  "drop_invite p w =
     (case gw_players w p of
        None \<Rightarrow> w
      | Some pl \<Rightarrow>
          SetGroupInvite None p (case gp_invite pl of
                                   None \<Rightarrow> w | Some b \<Rightarrow> if gw_groups w b = None then fault w else RemoveInvite b p w))"

definition addMember_at ::
  "gaddr \<Rightarrow> object_guid \<Rightarrow> u8 list \<Rightarrow> bool \<Rightarrow> u8 \<Rightarrow> grp_world \<Rightarrow> bool \<times> grp_world" where
  "addMember_at a guid name isAssistant sub w =
     (if IsFull (this_group a w) then (False, w)
      else if guid = 0 then (False, w)
      else
        (let member = \<lparr>ms_guid = guid, ms_name = name, ms_group = sub, ms_assistant = isAssistant\<rparr>;
             w1 = SubGroupCounterIncrease a sub (upd_group a (\<lambda>g. g\<lparr>g_slots := g_slots g @ [member]\<rparr>) w);
             w2 = (case FindPlayer w guid of None \<Rightarrow> w1 | Some _ \<Rightarrow> join_link a sub guid (drop_invite guid w1));
             g = this_group a w2
         in (True, if \<not> g_bg g
                   then sql_insert_member \<lparr>mr_groupId = g_Id g, mr_memberGuid = GetCounter guid,
                                           mr_assistant = isAssistant, mr_subgroup = sub\<rparr> w2
                   else w2)))"

definition first_free :: "u8 list \<Rightarrow> nat option" where
  "first_free c = find (\<lambda>i. unat (c ! i) < MAX_GROUP_SIZE) [0..<MAX_RAID_SUBGROUPS]"

definition addMember :: "gaddr \<Rightarrow> object_guid \<Rightarrow> u8 list \<Rightarrow> grp_world \<Rightarrow> bool \<times> grp_world" where
  "addMember a guid name w =
     (case g_counts (this_group a w) of
        None \<Rightarrow> addMember_at a guid name False 0 w
      | Some c \<Rightarrow>
          (case first_free c of
             None \<Rightarrow> (False, w) | Some i \<Rightarrow> addMember_at a guid name False (of_nat i) w))"

definition team_with :: "u32 \<Rightarrow> u32 \<Rightarrow> u32" where
  "team_with t playerTeam =
     (let t1 = (if t = ALLIANCE \<and> playerTeam = HORDE \<or> t = HORDE \<and> playerTeam = ALLIANCE
                then TEAM_CROSSFACTION else t)
      in if t1 = TEAM_NONE then playerTeam else t1)"

definition AddMember :: "gaddr \<Rightarrow> object_guid \<Rightarrow> u8 list \<Rightarrow> grp_world \<Rightarrow> bool \<times> grp_world" where
  "AddMember a guid name w =
     (case addMember a guid name w of
        (False, w1) \<Rightarrow> (False, w1)
      | (True, w1) \<Rightarrow>
          (let w2 = SendUpdate a w1
           in (True, case FindPlayer w2 guid of
                       None \<Rightarrow> w2
                     | Some pl \<Rightarrow>
                         upd_player guid (\<lambda>pl. pl\<lparr>gp_updateMask := gp_updateMask pl OR GROUP_UPDATE_FULL\<rparr>)
                           (upd_group a (\<lambda>g. g\<lparr>g_team := team_with (g_team g) (gp_team pl)\<rparr>) w2))))"

definition leave_link :: "gaddr \<Rightarrow> object_guid \<Rightarrow> grp_world \<Rightarrow> grp_world" where
  "leave_link a p w =
     (if g_bg (this_group a w) then RemoveFromBattleGroundRaid p w
      else if GetOriginalGroup p w = Some a then SetGroupRef OriginalRef None p w
      else SetGroupRef MainRef None p w)"

section \<open>The leader\<close>

definition setLeader :: "grp_env \<Rightarrow> gaddr \<Rightarrow> object_guid \<Rightarrow> grp_world \<Rightarrow> grp_world" where
  "setLeader env a guid w =
     (case find_slot guid (this_group a w) of
        None \<Rightarrow> w
      | Some slot \<Rightarrow>
          (let g = this_group a w;
               w1 = (if g_bg g then w
                     else sql_update_group (g_Id g) (\<lambda>r. r\<lparr>row_leaderGuid := GetCounter (ms_guid slot)\<rparr>) w);
               w2 = upd_group a (\<lambda>g. g\<lparr>g_leaderGuid := ms_guid slot, g_leaderName := ms_name slot,
                                       g_leaderLastOnline := ge_time env\<rparr>) (updateLeaderFlag a True w1)
           in updateLeaderFlag a False w2))"

definition ChangeLeader :: "grp_env \<Rightarrow> gaddr \<Rightarrow> object_guid \<Rightarrow> grp_world \<Rightarrow> grp_world" where
  "ChangeLeader env a guid w =
     (case find_slot guid (this_group a w) of
        None \<Rightarrow> w
      | Some slot \<Rightarrow>
          SendUpdate a
            (BroadcastPacket a (SMSG_GROUP_SET_LEADER, pstr (ms_name slot)) True None 0 (setLeader env a guid w)))"

text \<open>The candidates, in the order of the slots: members online in this group, other than the leader.\<close>

definition candidate :: "gaddr \<Rightarrow> grp_world \<Rightarrow> member_slot \<Rightarrow> bool" where
  "candidate a w s \<longleftrightarrow>
     ms_guid s \<noteq> g_leaderGuid (this_group a w) \<and>
     (case FindPlayer w (ms_guid s) of
        None \<Rightarrow> False | Some pl \<Rightarrow> gp_session pl \<and> gr_target (gp_group pl) = Some a)"

fun pick_leader :: "gaddr \<Rightarrow> grp_world \<Rightarrow> member_slot list \<Rightarrow> object_guid \<Rightarrow> object_guid" where
  "pick_leader a w [] first = first"
| "pick_leader a w (s # ss) first =
     (if \<not> candidate a w s then pick_leader a w ss first
      else if g_raid (this_group a w) \<and> \<not> ms_assistant s
      then pick_leader a w ss (if guid_IsEmpty first then ms_guid s else first)
      else if guid_IsEmpty (ms_guid s) then first else ms_guid s)"

definition chooseLeader :: "grp_env \<Rightarrow> gaddr \<Rightarrow> bool \<Rightarrow> grp_world \<Rightarrow> grp_world" where
  "chooseLeader env a offline w =
     (let g = this_group a w
      in if GetMembersCount g < GetMembersMinCount g then w
         else
           (let chosen = pick_leader a w (g_slots g) 0
            in if offline \<and> guid_IsEmpty chosen then w
               else if guid_IsEmpty chosen \<and> g_slots g = [] then fault w
               else (let leader = (if guid_IsEmpty chosen then ms_guid (hd (g_slots g)) else chosen)
                     in if offline then ChangeLeader env a leader w else setLeader env a leader w)))"

definition UpdateOfflineLeader :: "grp_env \<Rightarrow> gaddr \<Rightarrow> int \<Rightarrow> u32 \<Rightarrow> grp_world \<Rightarrow> grp_world" where
  "UpdateOfflineLeader env a time delay w =
     (let g = this_group a w
      in if g_bg g then w
         else if time - g_leaderLastOnline g < uint delay \<or> FindPlayer w (g_leaderGuid g) \<noteq> None then w
         else chooseLeader env a True w)"

section \<open>Leaving\<close>

definition removeMember :: "grp_env \<Rightarrow> gaddr \<Rightarrow> object_guid \<Rightarrow> grp_world \<Rightarrow> bool \<times> grp_world" where
  "removeMember env a guid w =
     (let w1 = (case FindPlayer w guid of None \<Rightarrow> w | Some _ \<Rightarrow> leave_link a guid w);
          w2 = removeRolls env a guid w1;
          w3 = (case find_slot guid (this_group a w2) of
                  None \<Rightarrow> w2
                | Some slot \<Rightarrow>
                    upd_group a (\<lambda>g. g\<lparr>g_slots := remove1 slot (g_slots g)\<rparr>)
                      (SubGroupCounterDecrease a (ms_group slot) w2));
          w4 = (if g_bg (this_group a w3) then w3 else sql_delete_member (GetCounter guid) w3)
      in if g_leaderGuid (this_group a w4) = guid
         then (True, chooseLeader env a False (updateLeaderFlag a True w4))
         else (False, w4))"

text \<open>What a player who left is sent; he may still be in another group.\<close>

definition tell_left :: "object_guid \<Rightarrow> grp_world \<Rightarrow> grp_world" where
  "tell_left p w = (case GetGroup p w of Some b \<Rightarrow> SendUpdate b w | None \<Rightarrow> gsend p empty_list w)"

definition disband_one :: "gaddr \<Rightarrow> bool \<Rightarrow> object_guid \<Rightarrow> grp_world \<Rightarrow> grp_world" where
  "disband_one a hideDestroy p w =
     (case FindPlayer w p of
        None \<Rightarrow> w
      | Some pl \<Rightarrow>
          (let w1 = leave_link a p w
           in if \<not> gp_session pl then w1
              else tell_left p (if hideDestroy then w1 else gsend p (SMSG_GROUP_DESTROYED, []) w1)))"

definition Disband :: "gaddr \<Rightarrow> bool \<Rightarrow> grp_world \<Rightarrow> grp_world" where
  "Disband a hideDestroy w =
     (let w1 = fold (\<lambda>s. disband_one a hideDestroy (ms_guid s)) (g_slots (this_group a w)) w;
          w2 = RemoveAllInvites a (upd_group a (\<lambda>g. g\<lparr>g_rolls := [], g_slots := []\<rparr>) w1);
          g = this_group a w2;
          w3 = (if g_bg g then w2 else sql_delete_group (g_Id g) w2)
      in upd_group a (\<lambda>g. g\<lparr>g_leaderGuid := 0, g_leaderName := []\<rparr>) (updateLeaderFlag a True w3))"

definition RemoveMember :: "grp_env \<Rightarrow> gaddr \<Rightarrow> object_guid \<Rightarrow> u8 \<Rightarrow> grp_world \<Rightarrow> nat \<times> grp_world" where
  "RemoveMember env a guid meth w =
     (let g = this_group a w;
          w' = (if GetMembersMinCount g < GetMembersCount g
                then
                  (let (leaderChanged, w1) = removeMember env a guid w;
                       w2 = (case FindPlayer w1 guid of
                               None \<Rightarrow> w1
                             | Some _ \<Rightarrow>
                                 tell_left guid (if meth = 1 then gsend guid (SMSG_GROUP_UNINVITE, []) w1 else w1));
                       w3 = (if leaderChanged
                             then BroadcastPacket a (SMSG_GROUP_SET_LEADER, pstr (g_leaderName (this_group a w2)))
                                    True None 0 w2
                             else w2)
                   in SendUpdate a w3)
                else Disband a True w)
      in (length (g_slots (this_group a w')), w'))"

section \<open>The group object\<close>

definition new_group :: "grp_world \<Rightarrow> gaddr \<times> grp_world" where
  "new_group w =
     (gw_fresh w, w\<lparr>gw_groups := (gw_groups w)(gw_fresh w \<mapsto> Group_new), gw_fresh := gw_fresh w + 1\<rparr>)"

text \<open>\<^verbatim>\<open>delete\<close>: the destructor takes back the invitations and cuts the references.\<close>

definition invalidate_refs :: "gaddr \<Rightarrow> grp_world \<Rightarrow> grp_world" where
  "invalidate_refs a w =
     fold (\<lambda>(p, k). upd_player p (set_ref k (\<lambda>r. r\<lparr>gr_target := None\<rparr>))) (g_refs (this_group a w)) w"

definition delete_group :: "gaddr \<Rightarrow> grp_world \<Rightarrow> grp_world" where
  "delete_group a w =
     (let w1 = invalidate_refs a (RemoveAllInvites a w)
      in w1\<lparr>gw_groups := (gw_groups w1)(a := None)\<rparr>)"

definition AddGroup :: "gaddr \<Rightarrow> grp_world \<Rightarrow> grp_world" where
  "AddGroup a w = w\<lparr>gw_groupMap := (gw_groupMap w)(g_Id (this_group a w) \<mapsto> a)\<rparr>"

definition RemoveGroup :: "gaddr \<Rightarrow> grp_world \<Rightarrow> grp_world" where
  "RemoveGroup a w = w\<lparr>gw_groupMap := (gw_groupMap w)(g_Id (this_group a w) := None)\<rparr>"

definition group_row_of :: "group \<Rightarrow> group_row" where
  "group_row_of g =
     \<lparr>row_leaderGuid = GetCounter (g_leaderGuid g), row_mainTank = GetCounter (g_mainTankGuid g),
      row_mainAssistant = GetCounter (g_mainAssistantGuid g), row_lootMethod = g_lootMethod g,
      row_looterGuid = GetCounter (g_looterGuid g), row_lootThreshold = g_lootThreshold g,
      row_icons = g_icons g, row_isRaid = g_raid g\<rparr>"

text \<open>
  \<^verbatim>\<open>Create\<close>. The statements are in one transaction; when the first member cannot be added it
  is never committed.
\<close>

definition create_fields :: "grp_env \<Rightarrow> gaddr \<Rightarrow> object_guid \<Rightarrow> u8 list \<Rightarrow> grp_world \<Rightarrow> grp_world" where
  "create_fields env a guid name w =
     (let w1 = upd_group a (\<lambda>g. g\<lparr>g_leaderGuid := guid, g_leaderName := name, g_leaderLastOnline := ge_time env,
                                  g_raid := g_bg g\<rparr>) w;
          w2 = (if g_raid (this_group a w1) then initRaidSubGroupsCounter a w1 else w1)
      in upd_group a (\<lambda>g. g\<lparr>g_lootMethod := GROUP_LOOT, g_lootThreshold := ITEM_QUALITY_UNCOMMON,
                            g_looterGuid := guid\<rparr>) w2)"

definition create_rows :: "gaddr \<Rightarrow> grp_world \<Rightarrow> grp_world" where
  "create_rows a w =
     (if g_bg (this_group a w) then w
      else
        (let w1 = upd_group a (\<lambda>g. g\<lparr>g_Id := gw_nextId w\<rparr>) (w\<lparr>gw_nextId := gw_nextId w + 1\<rparr>);
             g = this_group a w1;
             w2 = sql_delete_group (g_Id g) w1
         in w2\<lparr>gw_rows := (gw_rows w2)(g_Id g \<mapsto> group_row_of g)\<rparr>))"

definition Create :: "grp_env \<Rightarrow> gaddr \<Rightarrow> object_guid \<Rightarrow> u8 list \<Rightarrow> grp_world \<Rightarrow> bool \<times> grp_world" where
  "Create env a guid name w =
     (case AddMember a guid name (create_rows a (create_fields env a guid name w)) of
        (False, w1) \<Rightarrow> (False, w1\<lparr>gw_rows := gw_rows w, gw_members := gw_members w\<rparr>)
      | (True, w1) \<Rightarrow> (True, updateLeaderFlag a False w1))"

section \<open>Raids\<close>

definition ConvertToRaid :: "gaddr \<Rightarrow> grp_world \<Rightarrow> grp_world" where
  "ConvertToRaid a w =
     (let w1 = initRaidSubGroupsCounter a (upd_group a (\<lambda>g. g\<lparr>g_raid := True\<rparr>) w);
          g = this_group a w1
      in SendUpdate a (if g_bg g then w1 else sql_update_group (g_Id g) (\<lambda>r. r\<lparr>row_isRaid := True\<rparr>) w1))"

text \<open>Writing through the iterator of a slot.\<close>

primrec upd_first :: "object_guid \<Rightarrow> (member_slot \<Rightarrow> member_slot) \<Rightarrow> member_slot list \<Rightarrow> member_slot list" where
  "upd_first guid f [] = []"
| "upd_first guid f (s # ss) = (if ms_guid s = guid then f s # ss else s # upd_first guid f ss)"

definition upd_slot :: "gaddr \<Rightarrow> object_guid \<Rightarrow> (member_slot \<Rightarrow> member_slot) \<Rightarrow> grp_world \<Rightarrow> grp_world" where
  "upd_slot a guid f w = upd_group a (\<lambda>g. g\<lparr>g_slots := upd_first guid f (g_slots g)\<rparr>) w"

definition setMembersGroup :: "gaddr \<Rightarrow> object_guid \<Rightarrow> u8 \<Rightarrow> grp_world \<Rightarrow> bool \<times> grp_world" where
  "setMembersGroup a guid sub w =
     (if \<not> IsMember guid (this_group a w) then (False, w)
      else
        (let w1 = SubGroupCounterIncrease a sub (upd_slot a guid (\<lambda>s. s\<lparr>ms_group := sub\<rparr>) w)
         in (True, if g_bg (this_group a w1) then w1
                   else sql_update_member (GetCounter guid) (\<lambda>r. r\<lparr>mr_subgroup := sub\<rparr>) w1)))"

definition ChangeMembersGroup_player :: "gaddr \<Rightarrow> object_guid \<Rightarrow> u8 \<Rightarrow> grp_world \<Rightarrow> grp_world" where
  "ChangeMembersGroup_player a p sub w =
     (if gw_players w p = None \<or> \<not> g_raid (this_group a w) then w
      else if ref_subgroup MainRef p w = sub then w
      else case setMembersGroup a p sub w of
             (False, w1) \<Rightarrow> w1
           | (True, w1) \<Rightarrow>
               (if GetGroup p w1 = Some a
                then SendUpdate a (SubGroupCounterDecrease a (ref_subgroup MainRef p w) (set_ref_subgroup MainRef sub p w1))
                else SendUpdate a (SubGroupCounterDecrease a (ref_subgroup OriginalRef p w1)
                                     (set_ref_subgroup OriginalRef sub p w1))))"

definition ChangeMembersGroup :: "gaddr \<Rightarrow> object_guid \<Rightarrow> u8 \<Rightarrow> grp_world \<Rightarrow> grp_world" where
  "ChangeMembersGroup a guid sub w =
     (if \<not> g_raid (this_group a w) then w
      else case FindPlayer w guid of
             None \<Rightarrow>
               (let prevSubGroup = GetMemberGroup guid (this_group a w)
                in if prevSubGroup = sub then w
                   else case setMembersGroup a guid sub w of
                          (False, w1) \<Rightarrow> w1
                        | (True, w1) \<Rightarrow> SendUpdate a (SubGroupCounterDecrease a prevSubGroup w1))
           | Some _ \<Rightarrow> ChangeMembersGroup_player a guid sub w)"

definition setAssistantFlag :: "gaddr \<Rightarrow> object_guid \<Rightarrow> bool \<Rightarrow> grp_world \<Rightarrow> bool \<times> grp_world" where
  "setAssistantFlag a guid state w =
     (if \<not> IsMember guid (this_group a w) then (False, w)
      else
        (let w1 = upd_slot a guid (\<lambda>s. s\<lparr>ms_assistant := state\<rparr>) w
         in (True, if g_bg (this_group a w1) then w1
                   else sql_update_member (GetCounter guid) (\<lambda>r. r\<lparr>mr_assistant := state\<rparr>) w1)))"

definition SetAssistant :: "gaddr \<Rightarrow> object_guid \<Rightarrow> bool \<Rightarrow> grp_world \<Rightarrow> grp_world" where
  "SetAssistant a guid state w =
     (if \<not> g_raid (this_group a w) then w
      else case setAssistantFlag a guid state w of
             (True, w1) \<Rightarrow> SendUpdate a w1 | (False, w1) \<Rightarrow> w1)"

text \<open>Main tank and main assistant call each other with the empty GUID.\<close>

definition write_tank :: "gaddr \<Rightarrow> object_guid \<Rightarrow> grp_world \<Rightarrow> grp_world" where
  "write_tank a guid w =
     (let w1 = upd_group a (\<lambda>g. g\<lparr>g_mainTankGuid := guid\<rparr>) w; g = this_group a w1
      in if g_bg g then w1 else sql_update_group (g_Id g) (\<lambda>r. r\<lparr>row_mainTank := GetCounter guid\<rparr>) w1)"

definition write_assistant :: "gaddr \<Rightarrow> object_guid \<Rightarrow> grp_world \<Rightarrow> grp_world" where
  "write_assistant a guid w =
     (let w1 = upd_group a (\<lambda>g. g\<lparr>g_mainAssistantGuid := guid\<rparr>) w; g = this_group a w1
      in if g_bg g then w1 else sql_update_group (g_Id g) (\<lambda>r. r\<lparr>row_mainAssistant := GetCounter guid\<rparr>) w1)"

function setMainTank :: "gaddr \<Rightarrow> object_guid \<Rightarrow> grp_world \<Rightarrow> bool \<times> grp_world"
  and setMainAssistant :: "gaddr \<Rightarrow> object_guid \<Rightarrow> grp_world \<Rightarrow> bool \<times> grp_world" where
  "setMainTank a guid w =
     (if g_mainTankGuid (this_group a w) = guid then (False, w)
      else if guid \<noteq> 0 \<and> \<not> IsMember guid (this_group a w) then (False, w)
      else (True, write_tank a guid
                    (if guid \<noteq> 0 \<and> g_mainAssistantGuid (this_group a w) = guid then snd (setMainAssistant a 0 w) else w)))"
| "setMainAssistant a guid w =
     (if g_mainAssistantGuid (this_group a w) = guid then (False, w)
      else if guid \<noteq> 0 \<and> \<not> IsMember guid (this_group a w) then (False, w)
      else (True, write_assistant a guid
                    (if guid \<noteq> 0 \<and> g_mainTankGuid (this_group a w) = guid then snd (setMainTank a 0 w) else w)))"
  by pat_completeness auto
termination
  by (relation "measure (\<lambda>x. case x of Inl (a, guid, w) \<Rightarrow> if guid = 0 then 0 else 1
                                      | Inr (a, guid, w) \<Rightarrow> if guid = 0 then 0 else 1)") simp_all

definition SetMainTank :: "gaddr \<Rightarrow> object_guid \<Rightarrow> grp_world \<Rightarrow> grp_world" where
  "SetMainTank a guid w =
     (if \<not> g_raid (this_group a w) then w
      else case setMainTank a guid w of (True, w1) \<Rightarrow> SendUpdate a w1 | (False, w1) \<Rightarrow> w1)"

definition SetMainAssistant :: "gaddr \<Rightarrow> object_guid \<Rightarrow> grp_world \<Rightarrow> grp_world" where
  "SetMainAssistant a guid w =
     (if \<not> g_raid (this_group a w) then w
      else case setMainAssistant a guid w of (True, w1) \<Rightarrow> SendUpdate a w1 | (False, w1) \<Rightarrow> w1)"

section \<open>Target icons\<close>

definition write_icon :: "gaddr \<Rightarrow> nat \<Rightarrow> object_guid \<Rightarrow> grp_world \<Rightarrow> grp_world" where
  "write_icon a i targetGuid w =
     BroadcastPacket a (MSG_RAID_TARGET_UPDATE, [0] @ [of_nat i] @ pguid targetGuid) True None 0
       (upd_group a (\<lambda>g. g\<lparr>g_icons := (g_icons g)[i := targetGuid]\<rparr>) w)"

function SetTargetIcon :: "gaddr \<Rightarrow> nat \<Rightarrow> object_guid \<Rightarrow> grp_world \<Rightarrow> grp_world" where
  "SetTargetIcon a i targetGuid w =
     (if TARGET_ICON_COUNT \<le> i then w
      else write_icon a i targetGuid
             (if targetGuid \<noteq> 0
              then fold (\<lambda>j w. if g_icons (this_group a w) ! j = targetGuid then SetTargetIcon a j 0 w else w)
                     [0..<TARGET_ICON_COUNT] w
              else w))"
  by pat_completeness auto
termination
  by (relation "measure (\<lambda>(a, i, targetGuid, w). if targetGuid = 0 then 0 else 1)") simp_all

declare SetTargetIcon.simps [simp del]

definition ClearTargetIcon :: "gaddr \<Rightarrow> object_guid \<Rightarrow> grp_world \<Rightarrow> grp_world" where
  "ClearTargetIcon a targetGuid w =
     (case find (\<lambda>i. g_icons (this_group a w) ! i = targetGuid) [0..<TARGET_ICON_COUNT] of
        None \<Rightarrow> w | Some i \<Rightarrow> SetTargetIcon a i 0 w)"

definition icon_list_bytes :: "group \<Rightarrow> u8 list" where
  "icon_list_bytes g =
     [1] @ concat (map (\<lambda>i. if g_icons g ! i = 0 then [] else [of_nat i] @ pguid (g_icons g ! i)) [0..<TARGET_ICON_COUNT])"

definition SendTargetIconList :: "gaddr \<Rightarrow> object_guid \<Rightarrow> grp_world \<Rightarrow> grp_world" where
  "SendTargetIconList a p w = gsend p (MSG_RAID_TARGET_UPDATE, icon_list_bytes (this_group a w)) w"

section \<open>Players coming and going\<close>

definition UpdatePlayerOnlineStatus :: "grp_env \<Rightarrow> gaddr \<Rightarrow> object_guid \<Rightarrow> bool \<Rightarrow> grp_world \<Rightarrow> grp_world" where
  "UpdatePlayerOnlineStatus env a p online w =
     (if gw_players w p = None \<or> \<not> IsMember p (this_group a w) then w
      else
        (let w1 = SendUpdate a w
         in if online
            then UpdatePlayerOutOfRange env a p
                   (upd_player p (\<lambda>pl. pl\<lparr>gp_updateMask := gp_updateMask pl OR GROUP_UPDATE_FULL\<rparr>) w1)
            else if IsLeader p (this_group a w1)
            then upd_group a (\<lambda>g. g\<lparr>g_leaderLastOnline := ge_time env\<rparr>) w1
            else w1))"

definition UninviteFromGroup :: "object_guid \<Rightarrow> grp_world \<Rightarrow> grp_world" where
  "UninviteFromGroup p w =
     (case gw_players w p of
        None \<Rightarrow> w
      | Some pl \<Rightarrow>
          (case gp_invite pl of
             None \<Rightarrow> w
           | Some a \<Rightarrow>
               if gw_groups w a = None then fault w
               else
                 (let w1 = RemoveInvite a p w
                  in if GetMembersCount (this_group a w1) \<le> 1
                     then delete_group a
                            (if IsCreated (this_group a w1) then RemoveGroup a (Disband a True w1)
                             else RemoveAllInvites a w1)
                     else w1)))"

definition RemoveFromGroup :: "grp_env \<Rightarrow> gaddr option \<Rightarrow> object_guid \<Rightarrow> grp_world \<Rightarrow> grp_world" where
  "RemoveFromGroup env target guid w =
     (case target of
        None \<Rightarrow> w
      | Some a \<Rightarrow>
          (case RemoveMember env a guid 0 w of
             (n, w1) \<Rightarrow> if n \<le> 1 then delete_group a (RemoveGroup a w1) else w1))"

definition ERR_PARTY_RESULT_OK :: u32 where "ERR_PARTY_RESULT_OK = 0"
definition ERR_BAD_PLAYER_NAME_S :: u32 where "ERR_BAD_PLAYER_NAME_S = 1"
definition ERR_TARGET_NOT_IN_GROUP_S :: u32 where "ERR_TARGET_NOT_IN_GROUP_S = 2"
definition ERR_GROUP_FULL :: u32 where "ERR_GROUP_FULL = 3"
definition ERR_ALREADY_IN_GROUP_S :: u32 where "ERR_ALREADY_IN_GROUP_S = 4"
definition ERR_NOT_IN_GROUP :: u32 where "ERR_NOT_IN_GROUP = 5"
definition ERR_NOT_LEADER :: u32 where "ERR_NOT_LEADER = 6"
definition ERR_PLAYER_WRONG_FACTION :: u32 where "ERR_PLAYER_WRONG_FACTION = 7"
definition ERR_IGNORING_YOU_S :: u32 where "ERR_IGNORING_YOU_S = 8"
definition ERR_INTERNAL_BATTLEGROUND :: u32 where "ERR_INTERNAL_BATTLEGROUND = 10"

lemmas party_results = ERR_PARTY_RESULT_OK_def ERR_BAD_PLAYER_NAME_S_def ERR_TARGET_NOT_IN_GROUP_S_def
  ERR_GROUP_FULL_def ERR_ALREADY_IN_GROUP_S_def ERR_NOT_IN_GROUP_def ERR_NOT_LEADER_def
  ERR_PLAYER_WRONG_FACTION_def ERR_IGNORING_YOU_S_def ERR_INTERNAL_BATTLEGROUND_def

definition CanUninviteFromGroup :: "object_guid \<Rightarrow> object_guid \<Rightarrow> grp_world \<Rightarrow> u32" where
  "CanUninviteFromGroup p uninvitedGuid w =
     (case GetGroup p w of
        None \<Rightarrow> ERR_NOT_IN_GROUP
      | Some a \<Rightarrow>
          (let g = this_group a w
           in if g_leaderGuid g = uninvitedGuid then ERR_NOT_LEADER
              else if \<not> IsLeader p g \<and> \<not> IsAssistant p g then ERR_NOT_LEADER
              else if (case gw_players w p of None \<Rightarrow> False | Some pl \<Rightarrow> gp_inBG pl) then ERR_INTERNAL_BATTLEGROUND
              else ERR_PARTY_RESULT_OK))"

text \<open>The row found at login is the first of the player's.\<close>

definition LoadGroup :: "object_guid \<Rightarrow> grp_world \<Rightarrow> grp_world" where
  "LoadGroup p w =
     UpdateGroupLeaderFlag False p
       (case find (\<lambda>r. mr_memberGuid r = GetCounter p) (gw_members w) of
          None \<Rightarrow> w
        | Some r \<Rightarrow>
            (case gw_groupMap w (mr_groupId r) of
               None \<Rightarrow> w
             | Some a \<Rightarrow> SetGroupRef MainRef (Some (a, GetMemberGroup p (this_group a w))) p w))"

section \<open>Loading the tables\<close>

definition LoadGroupFromDB :: "grp_env \<Rightarrow> gaddr \<Rightarrow> u32 \<Rightarrow> group_row \<Rightarrow> grp_world \<Rightarrow> bool \<times> grp_world" where
  "LoadGroupFromDB env a groupId row w =
     (let leader = guid_of_counter HIGHGUID_PLAYER (row_leaderGuid row);
          w1 = upd_group a (\<lambda>g. g\<lparr>g_Id := groupId, g_leaderGuid := leader\<rparr>) w
      in case ge_cache env leader of
           None \<Rightarrow> (False, w1)
         | Some (name, _) \<Rightarrow>
             (let w2 = upd_group a (\<lambda>g. g\<lparr>g_leaderName := name, g_leaderLastOnline := ge_time env,
                                          g_raid := row_isRaid row\<rparr>) w1;
                  w3 = (if row_isRaid row then initRaidSubGroupsCounter a w2 else w2)
              in (True, upd_group a (\<lambda>g. g\<lparr>g_mainTankGuid := guid_of_counter HIGHGUID_PLAYER (row_mainTank row),
                                           g_mainAssistantGuid := guid_of_counter HIGHGUID_PLAYER (row_mainAssistant row),
                                           g_lootMethod := ucast (ucast (row_lootMethod row) :: u8),
                                           g_looterGuid := guid_of_counter HIGHGUID_PLAYER (row_looterGuid row),
                                           g_lootThreshold := ucast (ucast (row_lootThreshold row) :: u16),
                                           g_icons := row_icons row\<rparr>) w3)))"

definition LoadMemberFromDB :: "grp_env \<Rightarrow> gaddr \<Rightarrow> u32 \<Rightarrow> u8 \<Rightarrow> bool \<Rightarrow> grp_world \<Rightarrow> bool \<times> grp_world" where
  "LoadMemberFromDB env a guidLow subgroup assistant w =
     (let guid = guid_of_counter HIGHGUID_PLAYER guidLow
      in case ge_cache env guid of
           None \<Rightarrow> (False, w)
         | Some (name, team) \<Rightarrow>
             (let member = \<lparr>ms_guid = guid, ms_name = name, ms_group = subgroup, ms_assistant = assistant\<rparr>;
                  w1 = SubGroupCounterIncrease a subgroup (upd_group a (\<lambda>g. g\<lparr>g_slots := g_slots g @ [member]\<rparr>) w)
              in (True, upd_group a (\<lambda>g. g\<lparr>g_team := team_with (g_team g) team\<rparr>) w1)))"

end
