(* ===== verification/GroupHandlers.thy ===== *)
theory GroupHandlers
  imports GroupOps
begin

text \<open>
  The requests of \<^verbatim>\<open>src/game/Handlers/GroupHandler.cpp\<close> that change or read groups, a player's
  login and logout as far as his group goes, the battleground raid a player is put into, and
  the loading of all groups. \<open>p\<close> is the player of the session; the packet has been read.
\<close>

section \<open>Answers\<close>

definition PARTY_OP_INVITE :: u32 where "PARTY_OP_INVITE = 0"
definition PARTY_OP_LEAVE :: u32 where "PARTY_OP_LEAVE = 2"

definition SendPartyResult :: "u32 \<Rightarrow> u8 list \<Rightarrow> u32 \<Rightarrow> object_guid \<Rightarrow> grp_world \<Rightarrow> grp_world" where
  "SendPartyResult operation member res p w =
     gsend p (SMSG_PARTY_COMMAND_RESULT, p32 operation @ pstr member @ p32 res) w"

section \<open>Invitation\<close>

text \<open>The end of the invitation request.\<close>

definition invite_sent :: "object_guid \<Rightarrow> grp_player \<Rightarrow> object_guid \<Rightarrow> u8 list \<Rightarrow> grp_world \<Rightarrow> grp_world" where
  "invite_sent p me q name w =
     SendPartyResult PARTY_OP_INVITE name ERR_PARTY_RESULT_OK p (gsend q (SMSG_GROUP_INVITE, pstr (gp_name me)) w)"

text \<open>A new group is not created, and not stored, before somebody accepts.\<close>

definition invite_new :: "object_guid \<Rightarrow> grp_player \<Rightarrow> object_guid \<Rightarrow> u8 list \<Rightarrow> grp_world \<Rightarrow> grp_world" where
  "invite_new p me q name w =
     (case new_group w of
        (a, w1) \<Rightarrow>
          (case AddLeaderInvite a p w1 of
             (False, w2) \<Rightarrow> delete_group a w2
           | (True, w2) \<Rightarrow>
               (case AddInvite a q w2 of
                  (False, w3) \<Rightarrow> delete_group a w3
                | (True, w3) \<Rightarrow> invite_sent p me q name w3)))"

definition invite_checked ::
  "object_guid \<Rightarrow> grp_player \<Rightarrow> object_guid \<Rightarrow> grp_player \<Rightarrow> u8 list \<Rightarrow> grp_world \<Rightarrow> grp_world" where
  "invite_checked p me q target name w =
     (if own_group q w \<noteq> None \<or> gp_invite target \<noteq> None
      then SendPartyResult PARTY_OP_INVITE name ERR_ALREADY_IN_GROUP_S p w
      else case own_group p w of
             None \<Rightarrow> invite_new p me q name w
           | Some a \<Rightarrow>
               (let g = this_group a w
                in if \<not> IsLeader p g \<and> \<not> IsAssistant p g then SendPartyResult PARTY_OP_INVITE [] ERR_NOT_LEADER p w
                   else if IsFull g then SendPartyResult PARTY_OP_INVITE [] ERR_GROUP_FULL p w
                   else (case AddInvite a q w of
                           (False, w1) \<Rightarrow> w1 | (True, w1) \<Rightarrow> invite_sent p me q name w1)))"

definition other_instance :: "grp_player \<Rightarrow> grp_player \<Rightarrow> bool" where
  "other_instance me target \<longleftrightarrow>
     1 < gp_mapId me \<and> gp_instanceId me \<noteq> 0 \<and> gp_instanceId target \<noteq> 0 \<and>
     gp_instanceId me \<noteq> gp_instanceId target \<and> gp_mapId me = gp_mapId target"

definition HandleGroupInviteOpcode :: "grp_env \<Rightarrow> object_guid \<Rightarrow> u8 list \<Rightarrow> grp_world \<Rightarrow> grp_world" where
  "HandleGroupInviteOpcode env p membername w =
     (case gw_players w p of
        None \<Rightarrow> w
      | Some me \<Rightarrow>
          (case ge_normalize env membername of
             None \<Rightarrow> SendPartyResult PARTY_OP_INVITE membername ERR_BAD_PLAYER_NAME_S p w
           | Some name \<Rightarrow>
               (case FindPlayerByName env w name of
                  None \<Rightarrow> SendPartyResult PARTY_OP_INVITE name ERR_BAD_PLAYER_NAME_S p w
                | Some (q, target) \<Rightarrow>
                    if \<not> ge_two_side env \<and> gp_team me \<noteq> gp_team target
                    then SendPartyResult PARTY_OP_INVITE name ERR_PLAYER_WRONG_FACTION p w
                    else if other_instance me target then w
                    else if HasIgnore p (ge_social env q)
                    then SendPartyResult PARTY_OP_INVITE name ERR_IGNORING_YOU_S p w
                    else invite_checked p me q target name w)))"

text \<open>Accepting: the group is created first when this is its first member besides the leader.\<close>

definition accept_created :: "grp_env \<Rightarrow> gaddr \<Rightarrow> grp_world \<Rightarrow> bool \<times> grp_world" where
  "accept_created env a w =
     (let g = this_group a w
      in if IsCreated g then (True, w)
         else
           (let w1 = (if FindPlayer w (g_leaderGuid g) = None then w else RemoveInvite a (g_leaderGuid g) w)
            in case Create env a (g_leaderGuid g) (g_leaderName g) w1 of
                 (False, w2) \<Rightarrow> (False, w2) | (True, w2) \<Rightarrow> (True, AddGroup a w2)))"

definition HandleGroupAcceptOpcode :: "grp_env \<Rightarrow> object_guid \<Rightarrow> grp_world \<Rightarrow> grp_world" where
  "HandleGroupAcceptOpcode env p w =
     (case gw_players w p of
        None \<Rightarrow> w
      | Some me \<Rightarrow>
          (case gp_invite me of
             None \<Rightarrow> w
           | Some a \<Rightarrow>
               if gw_groups w a = None then fault w
               else if g_leaderGuid (this_group a w) = p then w
               else
                 (let w1 = RemoveInvite a p w
                  in if IsFull (this_group a w1) then SendPartyResult PARTY_OP_INVITE [] ERR_GROUP_FULL p w1
                     else (case accept_created env a w1 of
                             (False, w2) \<Rightarrow> w2
                           | (True, w2) \<Rightarrow> snd (AddMember a p (gp_name me) w2)))))"

definition HandleGroupDeclineOpcode :: "object_guid \<Rightarrow> grp_world \<Rightarrow> grp_world" where
  "HandleGroupDeclineOpcode p w =
     (case gw_players w p of
        None \<Rightarrow> w
      | Some me \<Rightarrow>
          (case gp_invite me of
             None \<Rightarrow> w
           | Some a \<Rightarrow>
               if gw_groups w a = None then fault w
               else
                 (let leader = g_leaderGuid (this_group a w); w1 = UninviteFromGroup p w
                  in case FindPlayer w leader of
                       None \<Rightarrow> w1
                     | Some pl \<Rightarrow> if gp_session pl then gsend leader (SMSG_GROUP_DECLINE, pstr (gp_name me)) w1 else w1)))"

section \<open>Leaving and changing the group\<close>

definition HandleGroupUninviteGuidOpcode :: "grp_env \<Rightarrow> object_guid \<Rightarrow> object_guid \<Rightarrow> grp_world \<Rightarrow> grp_world" where
  "HandleGroupUninviteGuidOpcode env p guid w =
     (if guid = p then w
      else
        (let res = CanUninviteFromGroup p guid w
         in if res \<noteq> ERR_PARTY_RESULT_OK then SendPartyResult PARTY_OP_LEAVE [] res p w
            else case GetGroup p w of
                   None \<Rightarrow> w
                 | Some a \<Rightarrow>
                     if IsMember guid (this_group a w) then RemoveFromGroup env (Some a) guid w
                     else case GetInvited guid (this_group a w) of
                            Some q \<Rightarrow> UninviteFromGroup q w
                          | None \<Rightarrow> SendPartyResult PARTY_OP_LEAVE [] ERR_TARGET_NOT_IN_GROUP_S p w))"

definition HandleGroupUninviteOpcode :: "grp_env \<Rightarrow> object_guid \<Rightarrow> u8 list \<Rightarrow> grp_world \<Rightarrow> grp_world" where
  "HandleGroupUninviteOpcode env p membername w =
     (case ge_normalize env membername of
        None \<Rightarrow> w
      | Some name \<Rightarrow>
          (if (case gw_players w p of None \<Rightarrow> True | Some me \<Rightarrow> gp_name me = name) then w
           else case GetGroup p w of
                  None \<Rightarrow> w
                | Some a \<Rightarrow>
                    (let guid = GetMemberGuid name (this_group a w)
                     in if guid \<noteq> 0
                        then (let res = CanUninviteFromGroup p guid w
                              in if res \<noteq> ERR_PARTY_RESULT_OK then SendPartyResult PARTY_OP_LEAVE [] res p w
                                 else RemoveFromGroup env (Some a) guid w)
                        else case GetInvited_name name a w of
                               Some q \<Rightarrow>
                                 (let res = CanUninviteFromGroup p q w
                                  in if res \<noteq> ERR_PARTY_RESULT_OK then SendPartyResult PARTY_OP_LEAVE [] res p w
                                     else UninviteFromGroup q w)
                             | None \<Rightarrow> SendPartyResult PARTY_OP_LEAVE name ERR_TARGET_NOT_IN_GROUP_S p w)))"

definition HandleGroupSetLeaderOpcode :: "grp_env \<Rightarrow> object_guid \<Rightarrow> object_guid \<Rightarrow> grp_world \<Rightarrow> grp_world" where
  "HandleGroupSetLeaderOpcode env p guid w =
     (case GetGroup p w of
        None \<Rightarrow> w
      | Some a \<Rightarrow>
          if FindPlayer w guid = None \<or> \<not> IsLeader p (this_group a w) \<or> GetGroup guid w \<noteq> Some a then w
          else ChangeLeader env a guid w)"

definition in_battleground :: "object_guid \<Rightarrow> grp_world \<Rightarrow> bool" where
  "in_battleground p w = (case gw_players w p of None \<Rightarrow> False | Some pl \<Rightarrow> gp_inBG pl)"

definition name_of :: "object_guid \<Rightarrow> grp_world \<Rightarrow> u8 list" where
  "name_of p w = (case gw_players w p of None \<Rightarrow> [] | Some pl \<Rightarrow> gp_name pl)"

definition HandleGroupDisbandOpcode :: "grp_env \<Rightarrow> object_guid \<Rightarrow> grp_world \<Rightarrow> grp_world" where
  "HandleGroupDisbandOpcode env p w =
     (if GetGroup p w = None then w
      else if in_battleground p w then w
      else (let w1 = SendPartyResult PARTY_OP_LEAVE (name_of p w) ERR_PARTY_RESULT_OK p w
            in RemoveFromGroup env (GetGroup p w1) p w1))"

text \<open>The group a loot method or target icon request is about.\<close>

definition party_of :: "object_guid \<Rightarrow> grp_world \<Rightarrow> gaddr option" where
  "party_of p w =
     (case GetGroup p w of
        None \<Rightarrow> GetOriginalGroup p w
      | Some a \<Rightarrow> if g_bg (this_group a w) then GetOriginalGroup p w else Some a)"

definition HandleLootMethodOpcode ::
  "object_guid \<Rightarrow> u32 \<Rightarrow> object_guid \<Rightarrow> u32 \<Rightarrow> grp_world \<Rightarrow> grp_world" where
  "HandleLootMethodOpcode p lootMethod lootMaster lootThreshold w =
     (if 4 < lootMethod then w
      else case party_of p w of
             None \<Rightarrow> w
           | Some a \<Rightarrow>
               if \<not> IsLeader p (this_group a w) then w
               else SendUpdate a
                      (upd_group a (\<lambda>g. g\<lparr>g_lootMethod := lootMethod, g_looterGuid := lootMaster,
                                          g_lootThreshold := lootThreshold\<rparr>) w))"

definition vote_of_code :: "u8 \<Rightarrow> roll_vote" where
  "vote_of_code c = (if c = 0 then ROLL_PASS else if c = 1 then ROLL_NEED else if c = 2 then ROLL_GREED
                     else if c = 3 then ROLL_NOT_EMITED_YET else ROLL_NOT_VALID)"

definition HandleLootRoll :: "grp_env \<Rightarrow> object_guid \<Rightarrow> object_guid \<Rightarrow> u32 \<Rightarrow> u8 \<Rightarrow> grp_world \<Rightarrow> grp_world" where
  "HandleLootRoll env p lootedTarget itemSlot rollType w =
     (case GetGroup p w of
        None \<Rightarrow> w
      | Some a \<Rightarrow>
          if 3 \<le> rollType then w else snd (CountRollVote env a p lootedTarget itemSlot (vote_of_code rollType) w))"

definition HandleMinimapPingOpcode :: "object_guid \<Rightarrow> u32 \<Rightarrow> u32 \<Rightarrow> grp_world \<Rightarrow> grp_world" where
  "HandleMinimapPingOpcode p x y w =
     (case GetGroup p w of
        None \<Rightarrow> w
      | Some a \<Rightarrow> BroadcastPacket a (MSG_MINIMAP_PING, pguid p @ p32 x @ p32 y) True None p w)"

definition HandleRandomRollOpcode :: "grp_env \<Rightarrow> object_guid \<Rightarrow> u32 \<Rightarrow> u32 \<Rightarrow> grp_world \<Rightarrow> grp_world" where
  "HandleRandomRollOpcode env p minimum maximum w =
     (if minimum > maximum \<or> maximum > 10000 then w
      else
        (let (roll, w1) = urand env minimum maximum w;
             pkt = (MSG_RANDOM_ROLL, p32 minimum @ p32 maximum @ p32 roll @ pguid p)
         in case GetGroup p w1 of
              Some a \<Rightarrow> BroadcastPacket a pkt False None 0 w1 | None \<Rightarrow> gsend p pkt w1))"

definition HandleRaidTargetUpdateOpcode :: "object_guid \<Rightarrow> u8 \<Rightarrow> object_guid \<Rightarrow> grp_world \<Rightarrow> grp_world" where
  "HandleRaidTargetUpdateOpcode p x guid w =
     (case party_of p w of
        None \<Rightarrow> w
      | Some a \<Rightarrow>
          (let g = this_group a w
           in if x = 0xFF then SendTargetIconList a p w
              else if \<not> IsLeader p g \<and> \<not> IsAssistant p g then w
              else SetTargetIcon a (unat x) guid w))"

definition HandleGroupRaidConvertOpcode :: "object_guid \<Rightarrow> grp_world \<Rightarrow> grp_world" where
  "HandleGroupRaidConvertOpcode p w =
     (case GetGroup p w of
        None \<Rightarrow> w
      | Some a \<Rightarrow>
          (let g = this_group a w
           in if in_battleground p w then w
              else if \<not> IsLeader p g \<or> GetMembersCount g < GetMembersMinCount g then w
              else ConvertToRaid a (SendPartyResult PARTY_OP_INVITE [] ERR_PARTY_RESULT_OK p w)))"

definition HandleGroupChangeSubGroupOpcode :: "grp_env \<Rightarrow> object_guid \<Rightarrow> u8 list \<Rightarrow> u8 \<Rightarrow> grp_world \<Rightarrow> grp_world" where
  "HandleGroupChangeSubGroupOpcode env p name groupNr w =
     (if of_nat MAX_RAID_SUBGROUPS \<le> groupNr then w
      else case GetGroup p w of
             None \<Rightarrow> w
           | Some a \<Rightarrow>
               (let g = this_group a w
                in if \<not> IsLeader p g \<and> \<not> IsAssistant p g then w
                   else if \<not> HasFreeSlotSubGroup groupNr g then w
                   else case FindPlayerByName env w name of
                          Some (q, _) \<Rightarrow> ChangeMembersGroup_player a q groupNr w
                        | None \<Rightarrow>
                            (let guid = ge_cacheGuid env name
                             in if guid \<noteq> 0 then ChangeMembersGroup a guid groupNr w else w)))"

definition HandleGroupAssistantLeaderOpcode :: "object_guid \<Rightarrow> object_guid \<Rightarrow> u8 \<Rightarrow> grp_world \<Rightarrow> grp_world" where
  "HandleGroupAssistantLeaderOpcode p guid flag w =
     (case GetGroup p w of
        None \<Rightarrow> w
      | Some a \<Rightarrow> if \<not> IsLeader p (this_group a w) then w else SetAssistant a guid (flag \<noteq> 0) w)"

definition HandlePartyAssignmentOpcode :: "object_guid \<Rightarrow> u8 \<Rightarrow> u8 \<Rightarrow> object_guid \<Rightarrow> grp_world \<Rightarrow> grp_world" where
  "HandlePartyAssignmentOpcode p flag1 flag2 guid w =
     (case GetGroup p w of
        None \<Rightarrow> w
      | Some a \<Rightarrow>
          if \<not> IsLeader p (this_group a w) then w
          else (let w1 = (if flag1 = 1 then SetMainAssistant a guid w else w)
                in if flag2 = 1 then SetMainTank a guid w1 else w1))"

definition HandleRaidReadyCheckOpcode :: "object_guid \<Rightarrow> u8 option \<Rightarrow> grp_world \<Rightarrow> grp_world" where
  "HandleRaidReadyCheckOpcode p answer w =
     (case GetGroup p w of
        None \<Rightarrow> w
      | Some a \<Rightarrow>
          (let g = this_group a w
           in case answer of
                None \<Rightarrow>
                  if \<not> IsLeader p g \<and> \<not> IsAssistant p g then w
                  else BroadcastPacket a (MSG_RAID_READY_CHECK, []) False None 0 w
              | Some state \<Rightarrow>
                  (case FindPlayer w (g_leaderGuid g) of
                     None \<Rightarrow> w
                   | Some _ \<Rightarrow> gsend (g_leaderGuid g) (MSG_RAID_READY_CHECK, pguid p @ [state]) w)))"

section \<open>Login and logout\<close>

definition Player_login :: "grp_env \<Rightarrow> object_guid \<Rightarrow> grp_player \<Rightarrow> grp_world \<Rightarrow> grp_world" where
  "Player_login env p pl w =
     (let fresh = pl\<lparr>gp_invite := None, gp_group := GroupReference_new, gp_orig := GroupReference_new\<rparr>;
          w1 = LoadGroup p (w\<lparr>gw_players := (gw_players w)(p \<mapsto> fresh)\<rparr>)
      in case GetGroup p w1 of
           None \<Rightarrow> w1
         | Some a \<Rightarrow> if gw_groups w1 a = None then fault w1 else UpdatePlayerOnlineStatus env a p True w1)"

text \<open>The group's part of the logout, then the end of the player object, whose references are cut.\<close>

definition Player_logout :: "grp_env \<Rightarrow> object_guid \<Rightarrow> bool \<Rightarrow> grp_world \<Rightarrow> grp_world" where
  "Player_logout env p socket w =
     (let w1 = UninviteFromGroup p w;
          w2 = (case GetGroup p w1 of
                  None \<Rightarrow> w1
                | Some a \<Rightarrow> if \<not> g_raid (this_group a w1) \<and> socket then RemoveFromGroup env (Some a) p w1 else w1);
          w3 = (case GetGroup p w2 of None \<Rightarrow> w2 | Some a \<Rightarrow> UpdatePlayerOnlineStatus env a p False w2);
          w4 = unlink_ref OriginalRef p (unlink_ref MainRef p w3)
      in w4\<lparr>gw_players := (gw_players w4)(p := None)\<rparr>)"

section \<open>Loots\<close>

text \<open>\<^verbatim>\<open>Loot::clear\<close> cuts the references of the rolls on it; their rolls become invalid.\<close>

definition unlink_loot :: "laddr \<Rightarrow> roll \<Rightarrow> roll" where
  "unlink_loot l r = (if r_loot r = Some l then r\<lparr>r_loot := None\<rparr> else r)"

definition Loot_clear :: "laddr \<Rightarrow> grp_world \<Rightarrow> grp_world" where
  "Loot_clear l w =
     (let w1 = upd_loot l (\<lambda>lo. lo\<lparr>l_playersLooting := [], l_items := [], l_unlootedCount := 0\<rparr>) w
      in w1\<lparr>gw_groups := (\<lambda>a. map_option (\<lambda>g. g\<lparr>g_rolls := map (unlink_loot l) (g_rolls g)\<rparr>) (gw_groups w1 a))\<rparr>)"

text \<open>The timer of a creature's rolls has run out, or all looting is over.\<close>

definition StopGroupLoot :: "grp_env \<Rightarrow> u32 \<Rightarrow> laddr \<Rightarrow> grp_world \<Rightarrow> grp_world" where
  "StopGroupLoot env groupLootId l w =
     (if groupLootId = 0 then w
      else case gw_groupMap w groupLootId of None \<Rightarrow> w | Some a \<Rightarrow> EndRoll env a l w)"

section \<open>Battleground raids\<close>

text \<open>\<^verbatim>\<open>AddOrSetPlayerToCorrectBgGroup\<close>; \<open>raid\<close> is the raid the battleground has for the team.\<close>

definition AddOrSetPlayerToCorrectBgGroup ::
  "grp_env \<Rightarrow> object_guid \<Rightarrow> gaddr option \<Rightarrow> grp_world \<Rightarrow> gaddr \<times> grp_world" where
  "AddOrSetPlayerToCorrectBgGroup env p raid w =
     (case raid of
        Some a \<Rightarrow>
          (a, if IsMember p (this_group a w) then SetBattleGroundRaid a (GetMemberGroup p (this_group a w)) p w
              else (let w1 = snd (AddMember a p (name_of p w) w)
                    in case GetOriginalGroup p w1 of
                         None \<Rightarrow> w1
                       | Some b \<Rightarrow> if IsLeader p (this_group b w1) then ChangeLeader env a p w1 else w1))
      | None \<Rightarrow>
          (case new_group w of
             (a, w1) \<Rightarrow>
               (a, snd (Create env a p (name_of p w1) (upd_group a (\<lambda>g. g\<lparr>g_bg := True\<rparr>) w1)))))"

section \<open>Loading all groups\<close>

definition load_group_row :: "grp_env \<Rightarrow> u32 \<Rightarrow> grp_world \<Rightarrow> grp_world" where
  "load_group_row env groupId w =
     (case gw_rows w groupId of
        None \<Rightarrow> w
      | Some row \<Rightarrow>
          (case new_group w of
             (a, w1) \<Rightarrow>
               (case LoadGroupFromDB env a groupId row w1 of
                  (False, w2) \<Rightarrow> delete_group a (Disband a False w2)
                | (True, w2) \<Rightarrow> AddGroup a w2)))"

definition load_member_row :: "grp_env \<Rightarrow> member_row \<Rightarrow> grp_world \<Rightarrow> grp_world" where
  "load_member_row env r w =
     (case gw_groupMap w (mr_groupId r) of
        None \<Rightarrow> sql_delete_member (mr_memberGuid r) w
      | Some a \<Rightarrow>
          (case LoadMemberFromDB env a (mr_memberGuid r) (mr_subgroup r) (mr_assistant r) w of
             (True, w1) \<Rightarrow> w1 | (False, w1) \<Rightarrow> sql_delete_member (mr_memberGuid r) w1))"

definition clean_group :: "u32 \<Rightarrow> grp_world \<Rightarrow> grp_world" where
  "clean_group i w =
     (case gw_groupMap w i of
        None \<Rightarrow> w
      | Some a \<Rightarrow>
          if GetMembersCount (this_group a w) < 2
          then (let w1 = delete_group a (Disband a False w) in w1\<lparr>gw_groupMap := (gw_groupMap w1)(i := None)\<rparr>)
          else w)"

text \<open>
  The rows of \<^verbatim>\<open>groups\<close> come in any order (\<open>ids\<close>), the members ordered by group; the groups
  are then cleaned in the order of the map.
\<close>

definition LoadGroups :: "grp_env \<Rightarrow> u32 list \<Rightarrow> grp_world \<Rightarrow> grp_world" where
  "LoadGroups env ids w =
     (let w1 = fold (load_group_row env) ids w;
          w2 = fold (load_member_row env) (sort_key mr_groupId (gw_members w1)) w1
      in fold clean_group (sort ids) w2)"

end
