(* ===== verification/GroupLaws.thy ===== *)
theory GroupLaws
  imports GroupHandlers
begin

text \<open>
  What the primitive updates of \<^verbatim>\<open>GroupModel\<close> do to the views the invariants are stated on: the
  group at an address, the group, subgroup and invitation of a player, who is online, and the
  tables. Operations are unfolded to primitives and simplified to these views.
\<close>

section \<open>Views\<close>

definition online :: "object_guid \<Rightarrow> grp_world \<Rightarrow> bool" where
  "online p w \<longleftrightarrow> gw_players w p \<noteq> None"

definition inWorld :: "object_guid \<Rightarrow> grp_world \<Rightarrow> bool" where
  "inWorld p w \<longleftrightarrow> (case gw_players w p of None \<Rightarrow> False | Some pl \<Rightarrow> gp_inWorld pl)"

definition invite_of :: "object_guid \<Rightarrow> grp_world \<Rightarrow> gaddr option" where
  "invite_of p w = (case gw_players w p of None \<Rightarrow> None | Some pl \<Rightarrow> gp_invite pl)"

definition alive :: "gaddr \<Rightarrow> grp_world \<Rightarrow> bool" where
  "alive a w \<longleftrightarrow> gw_groups w a \<noteq> None"

lemmas view_defs = online_def inWorld_def invite_of_def alive_def GetGroup_def GetOriginalGroup_def
  ref_target_def ref_subgroup_def FindPlayer_def this_group_def

lemma not_alive_this: "\<not> alive a w \<Longrightarrow> this_group a w = Group_new"
  by (simp add: alive_def this_group_def)

lemma FindPlayer_iff: "FindPlayer w p \<noteq> None \<longleftrightarrow> p \<noteq> 0 \<and> inWorld p w"
  by (simp add: FindPlayer_def inWorld_def split: option.splits)

lemma FindPlayer_Some: "FindPlayer w p = Some pl \<Longrightarrow> gw_players w p = Some pl"
  by (auto simp: FindPlayer_def split: if_splits option.splits)

lemma inWorld_online: "inWorld p w \<Longrightarrow> online p w"
  by (simp add: inWorld_def online_def split: option.splits)

section \<open>Primitive updates\<close>

lemma views_quiet:
  assumes "gw_players w' = gw_players w"
  shows "online p w' = online p w" "inWorld p w' = inWorld p w" "invite_of p w' = invite_of p w"
    "GetGroup p w' = GetGroup p w" "GetOriginalGroup p w' = GetOriginalGroup p w"
    "ref_subgroup k p w' = ref_subgroup k p w" "FindPlayer w' p = FindPlayer w p"
    "ref_target k p w' = ref_target k p w"
  using assms by (simp_all add: view_defs)

lemma fields_upd_group [simp]:
  "gw_players (upd_group a f w) = gw_players w" "gw_fresh (upd_group a f w) = gw_fresh w"
  "gw_groupMap (upd_group a f w) = gw_groupMap w" "gw_nextId (upd_group a f w) = gw_nextId w"
  "gw_rows (upd_group a f w) = gw_rows w" "gw_members (upd_group a f w) = gw_members w"
  "gw_loots (upd_group a f w) = gw_loots w" "gw_fault (upd_group a f w) = gw_fault w"
  by (simp_all add: upd_group_def)

lemma alive_upd_group [simp]: "alive b (upd_group a f w) = alive b w"
  by (simp add: alive_def upd_group_def)

lemmas views_upd_group [simp] = views_quiet [OF fields_upd_group(1)]

lemma this_upd_group [simp]:
  "this_group b (upd_group a f w) = (if b = a \<and> alive a w then f (this_group a w) else this_group b w)"
  by (simp add: alive_def)

declare this_group_upd_group [simp del]

lemma fields_upd_player [simp]:
  "gw_groups (upd_player p f w) = gw_groups w" "gw_fresh (upd_player p f w) = gw_fresh w"
  "gw_groupMap (upd_player p f w) = gw_groupMap w" "gw_nextId (upd_player p f w) = gw_nextId w"
  "gw_rows (upd_player p f w) = gw_rows w" "gw_members (upd_player p f w) = gw_members w"
  "gw_loots (upd_player p f w) = gw_loots w" "gw_fault (upd_player p f w) = gw_fault w"
  "this_group a (upd_player p f w) = this_group a w" "alive a (upd_player p f w) = alive a w"
  by (simp_all add: upd_player_def this_group_def alive_def)

lemma online_upd_player [simp]: "online q (upd_player p f w) = online q w"
  by (auto simp: online_def upd_player_def)

lemma other_upd_player [simp]:
  assumes "q \<noteq> p"
  shows "inWorld q (upd_player p f w) = inWorld q w" "invite_of q (upd_player p f w) = invite_of q w"
    "GetGroup q (upd_player p f w) = GetGroup q w" "GetOriginalGroup q (upd_player p f w) = GetOriginalGroup q w"
    "ref_subgroup k q (upd_player p f w) = ref_subgroup k q w" "FindPlayer (upd_player p f w) q = FindPlayer w q"
    "ref_target k q (upd_player p f w) = ref_target k q w"
  using assms by (simp_all add: view_defs upd_player_def)

lemma gw_players_upd_player [simp]:
  "gw_players (upd_player p f w) q = (if q = p then map_option f (gw_players w p) else gw_players w q)"
  by (simp add: upd_player_def)

text \<open>Updates that leave the groups of a player alone.\<close>

definition keeps_links :: "(grp_player \<Rightarrow> grp_player) \<Rightarrow> bool" where
  "keeps_links f \<longleftrightarrow>
     (\<forall>pl. gp_group (f pl) = gp_group pl \<and> gp_orig (f pl) = gp_orig pl \<and> gp_inWorld (f pl) = gp_inWorld pl)"

lemma links_upd_player:
  assumes "keeps_links f"
  shows "GetGroup q (upd_player p f w) = GetGroup q w" "GetOriginalGroup q (upd_player p f w) = GetOriginalGroup q w"
    "ref_subgroup k q (upd_player p f w) = ref_subgroup k q w" "inWorld q (upd_player p f w) = inWorld q w"
    "ref_target k q (upd_player p f w) = ref_target k q w"
  using assms
  by (auto simp: keeps_links_def view_defs upd_player_def get_ref_def split: option.splits ref_kind.splits)

lemma keeps_links_simps [simp]:
  "keeps_links (\<lambda>pl. pl\<lparr>gp_invite := x\<rparr>)" "keeps_links (\<lambda>pl. pl\<lparr>gp_updateMask := h pl\<rparr>)"
  "keeps_links (\<lambda>pl. if gp_leaderFlag pl then (if c then pl\<lparr>gp_leaderFlag := False\<rparr> else pl)
                     else (if d then pl\<lparr>gp_leaderFlag := True\<rparr> else pl))"
  by (simp_all add: keeps_links_def)

lemma invite_upd_player:
  "(\<And>pl. gp_invite (f pl) = gp_invite pl) \<Longrightarrow> invite_of q (upd_player p f w) = invite_of q w"
  by (auto simp: invite_of_def upd_player_def split: option.splits)

lemma fields_SetGroupInvite [simp]:
  "gw_groups (SetGroupInvite x p w) = gw_groups w" "gw_fresh (SetGroupInvite x p w) = gw_fresh w"
  "gw_groupMap (SetGroupInvite x p w) = gw_groupMap w" "gw_nextId (SetGroupInvite x p w) = gw_nextId w"
  "gw_rows (SetGroupInvite x p w) = gw_rows w" "gw_members (SetGroupInvite x p w) = gw_members w"
  "gw_loots (SetGroupInvite x p w) = gw_loots w" "gw_fault (SetGroupInvite x p w) = gw_fault w"
  "this_group a (SetGroupInvite x p w) = this_group a w" "alive a (SetGroupInvite x p w) = alive a w"
  "online q (SetGroupInvite x p w) = online q w" "inWorld q (SetGroupInvite x p w) = inWorld q w"
  "GetGroup q (SetGroupInvite x p w) = GetGroup q w" "GetOriginalGroup q (SetGroupInvite x p w) = GetOriginalGroup q w"
  "ref_subgroup k q (SetGroupInvite x p w) = ref_subgroup k q w"
  "ref_target k q (SetGroupInvite x p w) = ref_target k q w"
  by (simp_all add: SetGroupInvite_def links_upd_player)

lemma invite_SetGroupInvite [simp]:
  "invite_of q (SetGroupInvite x p w) = (if q = p \<and> online p w then x else invite_of q w)"
  by (auto simp: SetGroupInvite_def invite_of_def upd_player_def online_def split: option.splits)

lemma fields_leaderFlag [simp]:
  "gw_groups (UpdateGroupLeaderFlag r p w) = gw_groups w" "gw_fresh (UpdateGroupLeaderFlag r p w) = gw_fresh w"
  "gw_groupMap (UpdateGroupLeaderFlag r p w) = gw_groupMap w" "gw_nextId (UpdateGroupLeaderFlag r p w) = gw_nextId w"
  "gw_rows (UpdateGroupLeaderFlag r p w) = gw_rows w" "gw_members (UpdateGroupLeaderFlag r p w) = gw_members w"
  "gw_loots (UpdateGroupLeaderFlag r p w) = gw_loots w" "gw_fault (UpdateGroupLeaderFlag r p w) = gw_fault w"
  "this_group a (UpdateGroupLeaderFlag r p w) = this_group a w" "alive a (UpdateGroupLeaderFlag r p w) = alive a w"
  "online q (UpdateGroupLeaderFlag r p w) = online q w" "inWorld q (UpdateGroupLeaderFlag r p w) = inWorld q w"
  "GetGroup q (UpdateGroupLeaderFlag r p w) = GetGroup q w"
  "GetOriginalGroup q (UpdateGroupLeaderFlag r p w) = GetOriginalGroup q w"
  "ref_subgroup k q (UpdateGroupLeaderFlag r p w) = ref_subgroup k q w"
  "ref_target k q (UpdateGroupLeaderFlag r p w) = ref_target k q w"
  by (simp_all add: UpdateGroupLeaderFlag_def Let_def links_upd_player)

lemma invite_leaderFlag [simp]: "invite_of q (UpdateGroupLeaderFlag r p w) = invite_of q w"
  by (simp add: UpdateGroupLeaderFlag_def Let_def invite_upd_player)

text \<open>\<open>same w w'\<close>: nothing the invariants speak of differs.\<close>

definition same :: "grp_world \<Rightarrow> grp_world \<Rightarrow> bool" where
  "same w w' \<longleftrightarrow>
     (\<forall>a. this_group a w' = this_group a w) \<and> (\<forall>a. alive a w' = alive a w) \<and>
     (\<forall>p. online p w' = online p w) \<and> (\<forall>p. inWorld p w' = inWorld p w) \<and>
     (\<forall>p. invite_of p w' = invite_of p w) \<and> (\<forall>p. GetGroup p w' = GetGroup p w) \<and>
     (\<forall>p. GetOriginalGroup p w' = GetOriginalGroup p w) \<and>
     (\<forall>p. ref_subgroup MainRef p w' = ref_subgroup MainRef p w) \<and>
     gw_fresh w' = gw_fresh w \<and> gw_groupMap w' = gw_groupMap w \<and> gw_nextId w' = gw_nextId w \<and>
     gw_rows w' = gw_rows w \<and> gw_members w' = gw_members w \<and> gw_loots w' = gw_loots w \<and>
     gw_fault w' = gw_fault w"

lemma same_refl [simp, intro]: "same w w"
  by (simp add: same_def)

lemma same_trans [trans]: "same w w' \<Longrightarrow> same w' w'' \<Longrightarrow> same w w''"
  by (simp add: same_def)

lemma same_out: "same w (w\<lparr>gw_out := x\<rparr>)"
  by (simp add: same_def view_defs)

lemma same_gsend [simp, intro]: "same w (gsend p pkt w)"
  unfolding gsend_def by (rule same_out)

lemma same_SendUpdate [simp, intro]: "same w (SendUpdate a w)"
  unfolding SendUpdate_def by (rule same_out)

lemma same_Broadcast [simp, intro]: "same w (BroadcastPacket a pkt i s g w)"
  unfolding BroadcastPacket_def by (rule same_out)

lemma same_leaderFlag [simp, intro]: "same w (UpdateGroupLeaderFlag r p w)"
  by (simp add: same_def)

lemma same_updateLeaderFlag [simp, intro]: "same w (updateLeaderFlag a r w)"
  by (auto simp: updateLeaderFlag_def Let_def split: option.splits)

lemma same_mask [simp, intro]: "same w (upd_player p (\<lambda>pl. pl\<lparr>gp_updateMask := h pl\<rparr>) w)"
  by (simp add: same_def links_upd_player invite_upd_player)

lemma same_tell_left [simp, intro]: "same w (tell_left p w)"
  by (auto simp: tell_left_def split: option.split)

lemma same_SendPartyResult [simp, intro]: "same w (SendPartyResult op name r p w)"
  by (simp add: SendPartyResult_def)


section \<open>Links\<close>

lemma set_ref_simps [simp]:
  "gp_inWorld (set_ref k f pl) = gp_inWorld pl" "gp_invite (set_ref k f pl) = gp_invite pl"
  "get_ref k (set_ref k f pl) = f (get_ref k pl)" "k \<noteq> l \<Longrightarrow> get_ref l (set_ref k f pl) = get_ref l pl"
  "gp_name (set_ref k f pl) = gp_name pl"
  by (cases k; cases l; simp add: set_ref_def get_ref_def)+

lemma views_set_ref [simp]:
  "inWorld q (upd_player p (set_ref k f) w) = inWorld q w"
  "invite_of q (upd_player p (set_ref k f) w) = invite_of q w"
  by (auto simp: inWorld_def invite_of_def upd_player_def split: option.splits)

lemma links_set_ref:
  "ref_target l q (upd_player p (set_ref k f) w) =
     (if q = p \<and> l = k then (case gw_players w p of None \<Rightarrow> None | Some pl \<Rightarrow> gr_target (f (get_ref k pl)))
      else ref_target l q w)"
  "ref_subgroup l q (upd_player p (set_ref k f) w) =
     (if q = p \<and> l = k then (case gw_players w p of None \<Rightarrow> 0 | Some pl \<Rightarrow> gr_subGroup (f (get_ref k pl)))
      else ref_subgroup l q w)"
  by (auto simp: ref_target_def ref_subgroup_def upd_player_def split: option.splits)

lemma fields_unlink [simp]:
  "gw_fresh (unlink_ref k p w) = gw_fresh w" "gw_groupMap (unlink_ref k p w) = gw_groupMap w"
  "gw_nextId (unlink_ref k p w) = gw_nextId w" "gw_rows (unlink_ref k p w) = gw_rows w"
  "gw_members (unlink_ref k p w) = gw_members w" "gw_loots (unlink_ref k p w) = gw_loots w"
  "gw_fault (unlink_ref k p w) = gw_fault w" "alive a (unlink_ref k p w) = alive a w"
  "online q (unlink_ref k p w) = online q w" "inWorld q (unlink_ref k p w) = inWorld q w"
  "invite_of q (unlink_ref k p w) = invite_of q w"
  by (auto simp: unlink_ref_def split: option.split)

lemma target_unlink [simp]:
  "ref_target l q (unlink_ref k p w) = (if q = p \<and> l = k then None else ref_target l q w)"
  by (auto simp: unlink_ref_def links_set_ref ref_target_def split: option.split)

lemma subgroup_unlink [simp]: "ref_subgroup l q (unlink_ref k p w) = ref_subgroup l q w"
  by (cases "k = l") (auto simp: unlink_ref_def links_set_ref ref_subgroup_def split: option.split)

lemma this_unlink:
  "this_group b (unlink_ref k p w) =
     (if ref_target k p w = Some b \<and> alive b w
      then (this_group b w)\<lparr>g_refs := remove1 (p, k) (g_refs (this_group b w))\<rparr> else this_group b w)"
  by (auto simp: unlink_ref_def split: option.split)

lemma fields_link [simp]:
  "gw_fresh (link_ref k a p w) = gw_fresh w" "gw_groupMap (link_ref k a p w) = gw_groupMap w"
  "gw_nextId (link_ref k a p w) = gw_nextId w" "gw_rows (link_ref k a p w) = gw_rows w"
  "gw_members (link_ref k a p w) = gw_members w" "gw_loots (link_ref k a p w) = gw_loots w"
  "gw_fault (link_ref k a p w) = gw_fault w" "alive b (link_ref k a p w) = alive b w"
  "online q (link_ref k a p w) = online q w" "inWorld q (link_ref k a p w) = inWorld q w"
  "invite_of q (link_ref k a p w) = invite_of q w"
  by (simp_all add: link_ref_def)

lemma target_link [simp]:
  "ref_target l q (link_ref k a p w) = (if q = p \<and> l = k \<and> online p w then Some a else ref_target l q w)"
  using fields_unlink(9) [of p k p w]
  by (auto simp: link_ref_def links_set_ref online_def split: option.splits)
     (auto simp: ref_target_def)

lemma subgroup_link [simp]: "ref_subgroup l q (link_ref k a p w) = ref_subgroup l q w"
proof -
  have "(case gw_players (unlink_ref k p w) p of None \<Rightarrow> 0 | Some pl \<Rightarrow> gr_subGroup (get_ref k pl)) = ref_subgroup k p w"
    using subgroup_unlink [of k p k p w] by (simp add: ref_subgroup_def)
  then show ?thesis by (simp add: link_ref_def links_set_ref cong: option.case_cong)
qed

lemma this_link:
  assumes "ref_target k p w = None"
  shows "this_group b (link_ref k a p w) =
     (if b = a \<and> alive a w then (this_group a w)\<lparr>g_refs := (p, k) # g_refs (this_group a w)\<rparr> else this_group b w)"
  using assms by (simp add: link_ref_def this_unlink)

lemma fields_set_sub [simp]:
  "gw_fresh (set_ref_subgroup k s p w) = gw_fresh w" "gw_groupMap (set_ref_subgroup k s p w) = gw_groupMap w"
  "gw_nextId (set_ref_subgroup k s p w) = gw_nextId w" "gw_rows (set_ref_subgroup k s p w) = gw_rows w"
  "gw_members (set_ref_subgroup k s p w) = gw_members w" "gw_loots (set_ref_subgroup k s p w) = gw_loots w"
  "gw_fault (set_ref_subgroup k s p w) = gw_fault w" "alive b (set_ref_subgroup k s p w) = alive b w"
  "online q (set_ref_subgroup k s p w) = online q w" "inWorld q (set_ref_subgroup k s p w) = inWorld q w"
  "invite_of q (set_ref_subgroup k s p w) = invite_of q w" "this_group b (set_ref_subgroup k s p w) = this_group b w"
  by (simp_all add: set_ref_subgroup_def)

lemma target_set_sub [simp]: "ref_target l q (set_ref_subgroup k s p w) = ref_target l q w"
  by (cases "k = l") (auto simp: set_ref_subgroup_def links_set_ref ref_target_def split: option.split)

lemma subgroup_set_sub [simp]:
  "ref_subgroup l q (set_ref_subgroup k s p w) = (if q = p \<and> l = k \<and> online p w then s else ref_subgroup l q w)"
  by (cases "k = l") (auto simp: set_ref_subgroup_def links_set_ref ref_subgroup_def online_def split: option.split)

lemmas target_views = GetGroup_def GetOriginalGroup_def

text \<open>\<^verbatim>\<open>_removeRolls\<close> takes the votes back and never ends a roll.\<close>

definition strip_votes :: "object_guid \<Rightarrow> roll \<Rightarrow> roll" where
  "strip_votes p r = (case map_of (r_playerVote r) p of None \<Rightarrow> r | Some v \<Rightarrow> take_back p v r)"

lemma strip_votes_idem: "map_of (r_playerVote r) p = None \<Longrightarrow> strip_votes p r = r"
  by (simp add: strip_votes_def)

lemma upd_group_id: "upd_group a (\<lambda>g. g) w = w"
  by (cases "gw_groups w a") (auto simp: upd_group_def fun_upd_idem)

lemma upd_group_cong:
  "(\<And>g. gw_groups w a = Some g \<Longrightarrow> f g = h g) \<Longrightarrow> upd_group a f w = upd_group a h w"
  by (cases "gw_groups w a") (auto simp: upd_group_def)

lemma upd_group_upd_group: "upd_group a f (upd_group a h w) = upd_group a (\<lambda>g. f (h g)) w"
  by (simp add: upd_group_def option.map_comp comp_def)

lemma removeRolls_loop_eq:
  "removeRolls_loop env a p i w =
     upd_group a (\<lambda>g. g\<lparr>g_rolls := take i (g_rolls g) @ map (strip_votes p) (drop i (g_rolls g))\<rparr>) w"
proof (induction env a p i w rule: removeRolls_loop.induct)
  case (1 env a p i w)
  let ?rs = "g_rolls (this_group a w)"
  show ?case
  proof (cases "length ?rs \<le> i")
    case True
    have "upd_group a (\<lambda>g. g\<lparr>g_rolls := take i (g_rolls g) @ map (strip_votes p) (drop i (g_rolls g))\<rparr>) w =
        upd_group a (\<lambda>g. g) w"
      by (rule upd_group_cong) (use True in \<open>simp add: this_group_def\<close>)
    with True show ?thesis by (subst removeRolls_loop.simps) (simp add: upd_group_id)
  next
    case False
    then have i: "i < length ?rs" by simp
    have split: "drop i rs = rs ! i # drop (Suc i) rs" "take (Suc i) rs = take i rs @ [rs ! i]"
      if "i < length rs" for rs :: "roll list"
      using that by (simp_all add: Cons_nth_drop_Suc take_Suc_conv_app_nth)
    show ?thesis
    proof (cases "map_of (r_playerVote (the_roll a i w)) p")
      case None
      then have "removeRolls_loop env a p i w = removeRolls_loop env a p (Suc i) w"
        using False by (subst removeRolls_loop.simps) simp
      also have "\<dots> = upd_group a (\<lambda>g. g\<lparr>g_rolls := take i (g_rolls g) @ map (strip_votes p) (drop i (g_rolls g))\<rparr>) w"
        unfolding 1(1) [OF False None]
        by (rule upd_group_cong) (use i None in \<open>simp add: this_group_def the_roll_def split strip_votes_idem\<close>)
      finally show ?thesis .
    next
      case (Some v)
      let ?w2 = "upd_roll a i (take_back p v) w"
      have step: "CountRollVote_at env a p i ROLL_NOT_EMITED_YET ?w2 = (True, ?w2)"
        using i by (rule removed_vote_not_counted)
      then have "removeRolls_loop env a p i w = removeRolls_loop env a p i ?w2"
        using False Some by (subst removeRolls_loop.simps) simp
      also have "\<dots> = upd_group a (\<lambda>g. g\<lparr>g_rolls := take i (g_rolls g) @ map (strip_votes p) (drop i (g_rolls g))\<rparr>) ?w2"
        using 1(3) [OF False Some step [symmetric]] by simp
      also have "\<dots> = upd_group a (\<lambda>g. g\<lparr>g_rolls := take i (g_rolls g) @ map (strip_votes p) (drop i (g_rolls g))\<rparr>) w"
        unfolding upd_roll_def upd_group_upd_group
        by (rule upd_group_cong)
           (use i Some in \<open>simp add: this_group_def the_roll_def split strip_votes_idem drop_update_swap
              strip_votes_def [of p "_ ! _"]\<close>)
      finally show ?thesis .
    qed
  qed
qed

lemma removeRolls_eq:
  "removeRolls env a p w = upd_group a (\<lambda>g. g\<lparr>g_rolls := map (strip_votes p) (g_rolls g)\<rparr>) w"
  by (simp add: removeRolls_def removeRolls_loop_eq)

section \<open>Tables and counters\<close>

text \<open>Updates of the tables and of the map of groups.\<close>

lemma views_members [simp]:
  "online p (w\<lparr>gw_members := x\<rparr>) = online p w"
  "inWorld p (w\<lparr>gw_members := x\<rparr>) = inWorld p w"
  "invite_of p (w\<lparr>gw_members := x\<rparr>) = invite_of p w"
  "GetGroup p (w\<lparr>gw_members := x\<rparr>) = GetGroup p w"
  "GetOriginalGroup p (w\<lparr>gw_members := x\<rparr>) = GetOriginalGroup p w"
  "ref_subgroup k p (w\<lparr>gw_members := x\<rparr>) = ref_subgroup k p w"
  "FindPlayer (w\<lparr>gw_members := x\<rparr>) p = FindPlayer w p"
  "ref_target k p (w\<lparr>gw_members := x\<rparr>) = ref_target k p w"
  "this_group a (w\<lparr>gw_members := x\<rparr>) = this_group a w"
  "alive a (w\<lparr>gw_members := x\<rparr>) = alive a w"
  by (simp_all add: view_defs)

lemma views_rows [simp]:
  "online p (w\<lparr>gw_rows := x\<rparr>) = online p w"
  "inWorld p (w\<lparr>gw_rows := x\<rparr>) = inWorld p w"
  "invite_of p (w\<lparr>gw_rows := x\<rparr>) = invite_of p w"
  "GetGroup p (w\<lparr>gw_rows := x\<rparr>) = GetGroup p w"
  "GetOriginalGroup p (w\<lparr>gw_rows := x\<rparr>) = GetOriginalGroup p w"
  "ref_subgroup k p (w\<lparr>gw_rows := x\<rparr>) = ref_subgroup k p w"
  "FindPlayer (w\<lparr>gw_rows := x\<rparr>) p = FindPlayer w p"
  "ref_target k p (w\<lparr>gw_rows := x\<rparr>) = ref_target k p w"
  "this_group a (w\<lparr>gw_rows := x\<rparr>) = this_group a w"
  "alive a (w\<lparr>gw_rows := x\<rparr>) = alive a w"
  by (simp_all add: view_defs)

lemma views_nextId [simp]:
  "online p (w\<lparr>gw_nextId := x\<rparr>) = online p w"
  "inWorld p (w\<lparr>gw_nextId := x\<rparr>) = inWorld p w"
  "invite_of p (w\<lparr>gw_nextId := x\<rparr>) = invite_of p w"
  "GetGroup p (w\<lparr>gw_nextId := x\<rparr>) = GetGroup p w"
  "GetOriginalGroup p (w\<lparr>gw_nextId := x\<rparr>) = GetOriginalGroup p w"
  "ref_subgroup k p (w\<lparr>gw_nextId := x\<rparr>) = ref_subgroup k p w"
  "FindPlayer (w\<lparr>gw_nextId := x\<rparr>) p = FindPlayer w p"
  "ref_target k p (w\<lparr>gw_nextId := x\<rparr>) = ref_target k p w"
  "this_group a (w\<lparr>gw_nextId := x\<rparr>) = this_group a w"
  "alive a (w\<lparr>gw_nextId := x\<rparr>) = alive a w"
  by (simp_all add: view_defs)

lemma views_groupMap [simp]:
  "online p (w\<lparr>gw_groupMap := x\<rparr>) = online p w"
  "inWorld p (w\<lparr>gw_groupMap := x\<rparr>) = inWorld p w"
  "invite_of p (w\<lparr>gw_groupMap := x\<rparr>) = invite_of p w"
  "GetGroup p (w\<lparr>gw_groupMap := x\<rparr>) = GetGroup p w"
  "GetOriginalGroup p (w\<lparr>gw_groupMap := x\<rparr>) = GetOriginalGroup p w"
  "ref_subgroup k p (w\<lparr>gw_groupMap := x\<rparr>) = ref_subgroup k p w"
  "FindPlayer (w\<lparr>gw_groupMap := x\<rparr>) p = FindPlayer w p"
  "ref_target k p (w\<lparr>gw_groupMap := x\<rparr>) = ref_target k p w"
  "this_group a (w\<lparr>gw_groupMap := x\<rparr>) = this_group a w"
  "alive a (w\<lparr>gw_groupMap := x\<rparr>) = alive a w"
  by (simp_all add: view_defs)

lemma views_out [simp]:
  "online p (w\<lparr>gw_out := x\<rparr>) = online p w"
  "inWorld p (w\<lparr>gw_out := x\<rparr>) = inWorld p w"
  "invite_of p (w\<lparr>gw_out := x\<rparr>) = invite_of p w"
  "GetGroup p (w\<lparr>gw_out := x\<rparr>) = GetGroup p w"
  "GetOriginalGroup p (w\<lparr>gw_out := x\<rparr>) = GetOriginalGroup p w"
  "ref_subgroup k p (w\<lparr>gw_out := x\<rparr>) = ref_subgroup k p w"
  "FindPlayer (w\<lparr>gw_out := x\<rparr>) p = FindPlayer w p"
  "ref_target k p (w\<lparr>gw_out := x\<rparr>) = ref_target k p w"
  "this_group a (w\<lparr>gw_out := x\<rparr>) = this_group a w"
  "alive a (w\<lparr>gw_out := x\<rparr>) = alive a w"
  by (simp_all add: view_defs)

lemma views_fault [simp]:
  "online p (w\<lparr>gw_fault := x\<rparr>) = online p w"
  "inWorld p (w\<lparr>gw_fault := x\<rparr>) = inWorld p w"
  "invite_of p (w\<lparr>gw_fault := x\<rparr>) = invite_of p w"
  "GetGroup p (w\<lparr>gw_fault := x\<rparr>) = GetGroup p w"
  "GetOriginalGroup p (w\<lparr>gw_fault := x\<rparr>) = GetOriginalGroup p w"
  "ref_subgroup k p (w\<lparr>gw_fault := x\<rparr>) = ref_subgroup k p w"
  "FindPlayer (w\<lparr>gw_fault := x\<rparr>) p = FindPlayer w p"
  "ref_target k p (w\<lparr>gw_fault := x\<rparr>) = ref_target k p w"
  "this_group a (w\<lparr>gw_fault := x\<rparr>) = this_group a w"
  "alive a (w\<lparr>gw_fault := x\<rparr>) = alive a w"
  by (simp_all add: view_defs)

lemma views_sql [simp]:
  "gw_players (sql_update_group i f w) = gw_players w" "gw_groups (sql_update_group i f w) = gw_groups w"
  "gw_players (sql_delete_group i w) = gw_players w" "gw_groups (sql_delete_group i w) = gw_groups w"
  "gw_players (sql_insert_member r w) = gw_players w" "gw_groups (sql_insert_member r w) = gw_groups w"
  "gw_players (sql_delete_member l w) = gw_players w" "gw_groups (sql_delete_member l w) = gw_groups w"
  "gw_players (sql_update_member l h w) = gw_players w" "gw_groups (sql_update_member l h w) = gw_groups w"
  by (simp_all add: sql_update_group_def sql_delete_group_def sql_insert_member_def sql_delete_member_def
      sql_update_member_def)

lemma groups_quiet:
  assumes "gw_groups w' = gw_groups w"
  shows "this_group a w' = this_group a w" "alive a w' = alive a w"
  using assms by (simp_all add: this_group_def alive_def)

lemmas views_sql_players [simp] =
  views_sql(1) [THEN views_quiet(1)] views_sql(1) [THEN views_quiet(2)] views_sql(1) [THEN views_quiet(3)]
  views_sql(1) [THEN views_quiet(4)] views_sql(1) [THEN views_quiet(5)] views_sql(1) [THEN views_quiet(6)]
  views_sql(1) [THEN views_quiet(7)]
  views_sql(3) [THEN views_quiet(1)] views_sql(3) [THEN views_quiet(2)] views_sql(3) [THEN views_quiet(3)]
  views_sql(3) [THEN views_quiet(4)] views_sql(3) [THEN views_quiet(5)] views_sql(3) [THEN views_quiet(6)]
  views_sql(3) [THEN views_quiet(7)]
  views_sql(5) [THEN views_quiet(1)] views_sql(5) [THEN views_quiet(2)] views_sql(5) [THEN views_quiet(3)]
  views_sql(5) [THEN views_quiet(4)] views_sql(5) [THEN views_quiet(5)] views_sql(5) [THEN views_quiet(6)]
  views_sql(5) [THEN views_quiet(7)]
  views_sql(7) [THEN views_quiet(1)] views_sql(7) [THEN views_quiet(2)] views_sql(7) [THEN views_quiet(3)]
  views_sql(7) [THEN views_quiet(4)] views_sql(7) [THEN views_quiet(5)] views_sql(7) [THEN views_quiet(6)]
  views_sql(7) [THEN views_quiet(7)]
  views_sql(9) [THEN views_quiet(1)] views_sql(9) [THEN views_quiet(2)] views_sql(9) [THEN views_quiet(3)]
  views_sql(9) [THEN views_quiet(4)] views_sql(9) [THEN views_quiet(5)] views_sql(9) [THEN views_quiet(6)]
  views_sql(9) [THEN views_quiet(7)]

lemmas views_sql_groups [simp] =
  views_sql(2) [THEN groups_quiet(1)] views_sql(2) [THEN groups_quiet(2)]
  views_sql(4) [THEN groups_quiet(1)] views_sql(4) [THEN groups_quiet(2)]
  views_sql(6) [THEN groups_quiet(1)] views_sql(6) [THEN groups_quiet(2)]
  views_sql(8) [THEN groups_quiet(1)] views_sql(8) [THEN groups_quiet(2)]
  views_sql(10) [THEN groups_quiet(1)] views_sql(10) [THEN groups_quiet(2)]

lemma fields_sql [simp]:
  "gw_fresh (sql_update_group i f w) = gw_fresh w" "gw_groupMap (sql_update_group i f w) = gw_groupMap w"
  "gw_nextId (sql_update_group i f w) = gw_nextId w" "gw_members (sql_update_group i f w) = gw_members w"
  "gw_loots (sql_update_group i f w) = gw_loots w" "gw_fault (sql_update_group i f w) = gw_fault w"
  "gw_fresh (sql_delete_group i w) = gw_fresh w" "gw_groupMap (sql_delete_group i w) = gw_groupMap w"
  "gw_nextId (sql_delete_group i w) = gw_nextId w"
  "gw_loots (sql_delete_group i w) = gw_loots w" "gw_fault (sql_delete_group i w) = gw_fault w"
  "gw_fresh (sql_insert_member r w) = gw_fresh w" "gw_groupMap (sql_insert_member r w) = gw_groupMap w"
  "gw_nextId (sql_insert_member r w) = gw_nextId w" "gw_rows (sql_insert_member r w) = gw_rows w"
  "gw_loots (sql_insert_member r w) = gw_loots w" "gw_fault (sql_insert_member r w) = gw_fault w"
  "gw_fresh (sql_delete_member l w) = gw_fresh w" "gw_groupMap (sql_delete_member l w) = gw_groupMap w"
  "gw_nextId (sql_delete_member l w) = gw_nextId w" "gw_rows (sql_delete_member l w) = gw_rows w"
  "gw_loots (sql_delete_member l w) = gw_loots w" "gw_fault (sql_delete_member l w) = gw_fault w"
  "gw_fresh (sql_update_member l h w) = gw_fresh w" "gw_groupMap (sql_update_member l h w) = gw_groupMap w"
  "gw_nextId (sql_update_member l h w) = gw_nextId w" "gw_rows (sql_update_member l h w) = gw_rows w"
  "gw_loots (sql_update_member l h w) = gw_loots w" "gw_fault (sql_update_member l h w) = gw_fault w"
  by (simp_all add: sql_update_group_def sql_delete_group_def sql_insert_member_def sql_delete_member_def
      sql_update_member_def)

lemma rows_sql [simp]:
  "gw_rows (sql_update_group i f w) = (gw_rows w)(i := map_option f (gw_rows w i))"
  "gw_rows (sql_delete_group i w) = (gw_rows w)(i := None)"
  "gw_members (sql_delete_group i w) = filter (\<lambda>r. mr_groupId r \<noteq> i) (gw_members w)"
  "gw_members (sql_delete_member l w) = filter (\<lambda>r. mr_memberGuid r \<noteq> l) (gw_members w)"
  "gw_members (sql_update_member l h w) = map (\<lambda>r. if mr_memberGuid r = l then h r else r) (gw_members w)"
  by (simp_all add: sql_update_group_def sql_delete_group_def sql_delete_member_def sql_update_member_def)

text \<open>A counter inside its array.\<close>

definition sub_in_range :: "u8 \<Rightarrow> group \<Rightarrow> bool" where
  "sub_in_range sub g \<longleftrightarrow> (case g_counts g of None \<Rightarrow> True | Some c \<Rightarrow> unat sub < length c)"

lemma counter_upd:
  assumes "sub_in_range sub (this_group a w)"
  shows "SubGroupCounterIncrease a sub w =
      upd_group a (\<lambda>g. g\<lparr>g_counts := map_option (\<lambda>c. c[unat sub := c ! unat sub + 1]) (g_counts g)\<rparr>) w"
    "SubGroupCounterDecrease a sub w =
      upd_group a (\<lambda>g. g\<lparr>g_counts := map_option (\<lambda>c. c[unat sub := c ! unat sub - 1]) (g_counts g)\<rparr>) w"
proof -
  have id: "upd_group a (\<lambda>g. g\<lparr>g_counts := map_option h (g_counts g)\<rparr>) w = w"
    if "g_counts (this_group a w) = None" for h :: "u8 list \<Rightarrow> u8 list"
    using that by (cases "gw_groups w a") (auto simp: upd_group_def this_group_def fun_upd_idem)
  have some: "upd_group a (\<lambda>g. g\<lparr>g_counts := map_option h (g_counts g)\<rparr>) w = upd_group a (\<lambda>g. g\<lparr>g_counts := Some (h c)\<rparr>) w"
    if "g_counts (this_group a w) = Some c" for h :: "u8 list \<Rightarrow> u8 list" and c
    using that by (intro upd_group_cong) (auto simp: this_group_def)
  show "SubGroupCounterIncrease a sub w =
      upd_group a (\<lambda>g. g\<lparr>g_counts := map_option (\<lambda>c. c[unat sub := c ! unat sub + 1]) (g_counts g)\<rparr>) w"
    "SubGroupCounterDecrease a sub w =
      upd_group a (\<lambda>g. g\<lparr>g_counts := map_option (\<lambda>c. c[unat sub := c ! unat sub - 1]) (g_counts g)\<rparr>) w"
    using assms
    by (auto simp: SubGroupCounterIncrease_def SubGroupCounterDecrease_def sub_in_range_def id some split: option.splits)
qed

end
