(* ===== verification/GroupInv.thy ===== *)
theory GroupInv
  imports GroupLaws
begin

text \<open>
  The invariant of groups, players and tables, and its preservation by the operations on
  members, invitations, leaders and subgroups. It is about servers without battleground raids
  and without players between maps; \<^verbatim>\<open>GroupProps\<close> shows what goes wrong with the latter.
\<close>

section \<open>The invariant\<close>

definition player_guid :: "object_guid \<Rightarrow> bool" where
  "player_guid p \<longleftrightarrow> p \<noteq> 0 \<and> guid_of_counter HIGHGUID_PLAYER (GetCounter p) = p"

definition in_sub :: "nat \<Rightarrow> member_slot list \<Rightarrow> nat" where
  "in_sub i slots = length (filter (\<lambda>s. unat (ms_group s) = i) slots)"

definition tally :: "u8 list \<Rightarrow> member_slot list \<Rightarrow> bool" where
  "tally c slots \<longleftrightarrow>
     length c = 8 \<and> (\<forall>i<8. unat (c ! i) = in_sub i slots \<and> in_sub i slots \<le> 5) \<and>
     (\<forall>s \<in> set slots. unat (ms_group s) < 8)"

definition counts_ok :: "group \<Rightarrow> bool" where
  "counts_ok g \<longleftrightarrow>
     (if g_raid g then g_counts g \<noteq> None \<and> tally (the (g_counts g)) (g_slots g)
      else g_counts g = None \<and> (\<forall>s \<in> set (g_slots g). ms_group s = 0) \<and> length (g_slots g) \<le> 5)"

definition icons_ok :: "object_guid list \<Rightarrow> bool" where
  "icons_ok icons \<longleftrightarrow> length icons = 8 \<and> distinct (filter (\<lambda>x. x \<noteq> 0) icons)"

definition group_ok :: "group \<Rightarrow> bool" where
  "group_ok g \<longleftrightarrow>
     distinct (map ms_guid (g_slots g)) \<and> (\<forall>s \<in> set (g_slots g). player_guid (ms_guid s)) \<and> \<not> g_bg g \<and>
     distinct (g_invitees g) \<and> counts_ok g \<and> (g_mainTankGuid g = 0 \<or> g_mainTankGuid g \<noteq> g_mainAssistantGuid g) \<and> icons_ok (g_icons g)"

definition member :: "gaddr \<Rightarrow> object_guid \<Rightarrow> grp_world \<Rightarrow> bool" where
  "member a p w \<longleftrightarrow> p \<in> ms_guid ` set (g_slots (this_group a w))"

definition mrow :: "group \<Rightarrow> member_slot \<Rightarrow> member_row" where
  "mrow g s = \<lparr>mr_groupId = g_Id g, mr_memberGuid = GetCounter (ms_guid s),
               mr_assistant = ms_assistant s, mr_subgroup = ms_group s\<rparr>"

definition players_ok :: "grp_world \<Rightarrow> bool" where
  "players_ok w \<longleftrightarrow> (\<forall>p. online p w \<longrightarrow> player_guid p \<and> inWorld p w \<and> GetOriginalGroup p w = None)"

definition links_ok :: "grp_world \<Rightarrow> bool" where
  "links_ok w \<longleftrightarrow>
     (\<forall>p a. GetGroup p w = Some a \<longleftrightarrow> online p w \<and> member a p w) \<and>
     (\<forall>a. \<forall>s \<in> set (g_slots (this_group a w)). online (ms_guid s) w \<longrightarrow> ref_subgroup MainRef (ms_guid s) w = ms_group s) \<and>
     (\<forall>a. distinct (g_refs (this_group a w)) \<and>
          (\<forall>p k. (p, k) \<in> set (g_refs (this_group a w)) \<longleftrightarrow> k = MainRef \<and> GetGroup p w = Some a)) \<and>
     (\<forall>a b p. member a p w \<longrightarrow> member b p w \<longrightarrow> a = b)"

definition invites_ok :: "grp_world \<Rightarrow> bool" where
  "invites_ok w \<longleftrightarrow>
     (\<forall>p a. invite_of p w = Some a \<longleftrightarrow> p \<in> set (g_invitees (this_group a w))) \<and>
     (\<forall>p. invite_of p w \<noteq> None \<longrightarrow> GetGroup p w = None)"

definition tables_ok :: "grp_world \<Rightarrow> bool" where
  "tables_ok w \<longleftrightarrow>
     (\<forall>r. r \<in> set (gw_members w) \<longleftrightarrow> (\<exists>a. \<exists>s \<in> set (g_slots (this_group a w)). r = mrow (this_group a w) s)) \<and>
     (\<forall>a b. g_slots (this_group a w) \<noteq> [] \<longrightarrow> g_slots (this_group b w) \<noteq> [] \<longrightarrow>
        g_Id (this_group a w) = g_Id (this_group b w) \<longrightarrow> a = b) \<and>
     (\<forall>a. g_slots (this_group a w) \<noteq> [] \<longrightarrow> g_Id (this_group a w) < gw_nextId w)"

text \<open>A roll that is linked to a loot is about one of its items.\<close>

definition rolls_ok :: "grp_world \<Rightarrow> bool" where
  "rolls_ok w \<longleftrightarrow>
     (\<forall>a. \<forall>r \<in> set (g_rolls (this_group a w)). \<forall>l. r_loot r = Some l \<longrightarrow> unat (r_itemSlot r) < length (loot_items l w))"

definition grp_base :: "grp_world \<Rightarrow> bool" where
  "grp_base w \<longleftrightarrow>
     (\<forall>a. group_ok (this_group a w)) \<and> (\<forall>a. alive a w \<longrightarrow> a < gw_fresh w) \<and>
     players_ok w \<and> links_ok w \<and> invites_ok w \<and> tables_ok w \<and> rolls_ok w \<and> \<not> gw_fault w"

text \<open>What holds of a group between two requests: it is being formed, or it is stored.\<close>

definition row_ok :: "group_row \<Rightarrow> group \<Rightarrow> bool" where
  "row_ok r g \<longleftrightarrow>
     row_leaderGuid r = GetCounter (g_leaderGuid g) \<and> row_isRaid r = g_raid g \<and>
     row_mainTank r = GetCounter (g_mainTankGuid g) \<and> row_mainAssistant r = GetCounter (g_mainAssistantGuid g)"

definition settled :: "gaddr \<Rightarrow> grp_world \<Rightarrow> bool" where
  "settled a w \<longleftrightarrow>
     (let g = this_group a w
      in (alive a w \<longrightarrow> g_slots g = [] \<longrightarrow>
            g_leaderGuid g \<in> set (g_invitees g) \<and> \<not> g_raid g \<and> g_mainTankGuid g = 0 \<and> g_mainAssistantGuid g = 0) \<and>
         (g_slots g \<noteq> [] \<longrightarrow>
            2 \<le> length (g_slots g) \<and>
            (\<exists>s \<in> set (g_slots g). ms_guid s = g_leaderGuid g \<and> ms_name s = g_leaderName g) \<and>
            gw_rows w (g_Id g) \<noteq> None \<and> row_ok (the (gw_rows w (g_Id g))) g) \<and>
         (\<forall>i. gw_groupMap w i = Some a \<longleftrightarrow> g_slots g \<noteq> [] \<and> g_Id g = i))"

definition rows_ok :: "grp_world \<Rightarrow> bool" where
  "rows_ok w \<longleftrightarrow> (\<forall>i. gw_rows w i \<noteq> None \<longrightarrow> gw_groupMap w i \<noteq> None)"

definition grp_ok :: "grp_world \<Rightarrow> bool" where
  "grp_ok w \<longleftrightarrow> grp_base w \<and> (\<forall>a. settled a w) \<and> rows_ok w"

lemmas base_defs = players_ok_def links_ok_def invites_ok_def tables_ok_def rolls_ok_def

section \<open>First consequences\<close>

lemma counter_inj: "player_guid p \<Longrightarrow> player_guid q \<Longrightarrow> GetCounter p = GetCounter q \<longleftrightarrow> p = q"
  by (metis player_guid_def)

lemma group_ok_new [simp]: "group_ok Group_new"
  by (simp add: group_ok_def Group_new_def counts_ok_def icons_ok_def TARGET_ICON_COUNT_def)

lemma group_ok_rolls [simp]: "group_ok (g\<lparr>g_rolls := x\<rparr>) = group_ok g"
  by (simp add: group_ok_def counts_ok_def)

lemma group_ok_refs [simp]: "group_ok (g\<lparr>g_refs := x\<rparr>) = group_ok g"
  by (simp add: group_ok_def counts_ok_def)

lemma group_ok_invitees: "group_ok g \<Longrightarrow> distinct x \<Longrightarrow> group_ok (g\<lparr>g_invitees := x\<rparr>)"
  by (simp add: group_ok_def counts_ok_def)

lemma IsMember_iff: "IsMember p g \<longleftrightarrow> p \<in> ms_guid ` set (g_slots g)"
  by (auto simp: IsMember_def find_slot_def find_None_iff)

lemma IsMember_this [simp]: "IsMember p (this_group a w) \<longleftrightarrow> member a p w"
  by (simp add: IsMember_iff member_def)

lemma member_alive: "member a p w \<Longrightarrow> alive a w"
  by (auto simp: member_def this_group_def alive_def Group_new_def split: option.splits)

lemma slots_alive: "g_slots (this_group a w) \<noteq> [] \<Longrightarrow> alive a w"
  by (auto simp: this_group_def alive_def Group_new_def split: option.splits)

lemma find_slot_Some:
  "find_slot p g = Some s \<Longrightarrow> s \<in> set (g_slots g) \<and> ms_guid s = p"
  by (auto simp: find_slot_def find_Some_iff)

lemma find_slot_member: "member a p w \<Longrightarrow> \<exists>s. find_slot p (this_group a w) = Some s"
  by (simp flip: IsMember_this add: IsMember_def)

lemma slot_unique:
  "group_ok g \<Longrightarrow> s \<in> set (g_slots g) \<Longrightarrow> t \<in> set (g_slots g) \<Longrightarrow> ms_guid s = ms_guid t \<Longrightarrow> s = t"
  by (auto simp: group_ok_def distinct_map inj_on_def)

lemma find_slot_eq: "group_ok g \<Longrightarrow> s \<in> set (g_slots g) \<Longrightarrow> find_slot (ms_guid s) g = Some s"
  by (metis IsMember_def IsMember_iff find_slot_Some image_eqI not_None_eq slot_unique)

lemma base_group: "grp_base w \<Longrightarrow> group_ok (this_group a w)"
  by (simp add: grp_base_def)

lemma base_FindPlayer: "grp_base w \<Longrightarrow> FindPlayer w p = gw_players w p"
  by (auto simp: grp_base_def players_ok_def online_def inWorld_def FindPlayer_def player_guid_def
      split: option.splits)

lemma base_same:
  assumes "same w w'"
  shows "grp_base w' \<longleftrightarrow> grp_base w" "settled a w' \<longleftrightarrow> settled a w" "rows_ok w' \<longleftrightarrow> rows_ok w" "member a p w' \<longleftrightarrow> member a p w"
proof -
  have m: "member a p w' \<longleftrightarrow> member a p w" for a p
    using assms by (simp add: same_def member_def)
  have l: "loot_items l w' = loot_items l w" for l
    using assms by (simp add: same_def loot_items_def)
  show "grp_base w' \<longleftrightarrow> grp_base w"
    using assms l by (simp add: same_def grp_base_def base_defs m)
  show "settled a w' \<longleftrightarrow> settled a w" "rows_ok w' \<longleftrightarrow> rows_ok w" "member a p w' \<longleftrightarrow> member a p w"
    using assms by (simp_all add: same_def settled_def rows_ok_def member_def)
qed

lemma ok_same: "same w w' \<Longrightarrow> grp_ok w \<Longrightarrow> grp_ok w'"
  by (simp add: grp_ok_def base_same)

lemma base_slot_guid: "grp_base w \<Longrightarrow> s \<in> set (g_slots (this_group a w)) \<Longrightarrow> player_guid (ms_guid s)"
  using base_group [of w a] by (simp add: group_ok_def)

lemma row_member:
  assumes "grp_base w" and "player_guid p" and "r \<in> set (gw_members w)" and "mr_memberGuid r = GetCounter p"
  shows "\<exists>a s. s \<in> set (g_slots (this_group a w)) \<and> ms_guid s = p \<and> r = mrow (this_group a w) s"
proof -
  have "tables_ok w" using assms(1) by (simp add: grp_base_def)
  then obtain a s where s: "s \<in> set (g_slots (this_group a w))" "r = mrow (this_group a w) s"
    using assms(3) unfolding tables_ok_def by blast
  with assms(4) have "GetCounter (ms_guid s) = GetCounter p" by (simp add: mrow_def)
  then have "ms_guid s = p" using counter_inj [OF base_slot_guid [OF assms(1) s(1)] assms(2)] by simp
  with s show ?thesis by blast
qed

lemma base_links:
  "grp_base w \<Longrightarrow> GetGroup p w = Some a \<longleftrightarrow> online p w \<and> member a p w"
  "grp_base w \<Longrightarrow> member a p w \<Longrightarrow> member b p w \<Longrightarrow> a = b"
  by (simp_all add: grp_base_def links_ok_def)

lemma base_subs:
  "grp_base w \<Longrightarrow> s \<in> set (g_slots (this_group a w)) \<Longrightarrow> online (ms_guid s) w \<Longrightarrow>
     ref_subgroup MainRef (ms_guid s) w = ms_group s"
  by (simp add: grp_base_def links_ok_def)

lemma base_rest: "grp_base w \<Longrightarrow> alive a w \<Longrightarrow> a < gw_fresh w" "grp_base w \<Longrightarrow> \<not> gw_fault w"
  by (simp_all add: grp_base_def)

lemma base_tables:
  assumes "grp_base w"
  shows "r \<in> set (gw_members w) \<longleftrightarrow> (\<exists>a. \<exists>s \<in> set (g_slots (this_group a w)). r = mrow (this_group a w) s)"
    "g_slots (this_group a w) \<noteq> [] \<Longrightarrow> g_slots (this_group b w) \<noteq> [] \<Longrightarrow>
       g_Id (this_group a w) = g_Id (this_group b w) \<Longrightarrow> a = b"
    "g_slots (this_group a w) \<noteq> [] \<Longrightarrow> g_Id (this_group a w) < gw_nextId w"
proof -
  have "tables_ok w" using assms by (simp add: grp_base_def)
  then show "r \<in> set (gw_members w) \<longleftrightarrow> (\<exists>a. \<exists>s \<in> set (g_slots (this_group a w)). r = mrow (this_group a w) s)"
    "g_slots (this_group a w) \<noteq> [] \<Longrightarrow> g_slots (this_group b w) \<noteq> [] \<Longrightarrow>
       g_Id (this_group a w) = g_Id (this_group b w) \<Longrightarrow> a = b"
    "g_slots (this_group a w) \<noteq> [] \<Longrightarrow> g_Id (this_group a w) < gw_nextId w"
    unfolding tables_ok_def by blast+
qed

lemma base_invites:
  "grp_base w \<Longrightarrow> invite_of p w = Some a \<longleftrightarrow> p \<in> set (g_invitees (this_group a w))"
  "grp_base w \<Longrightarrow> invite_of p w \<noteq> None \<Longrightarrow> GetGroup p w = None"
  by (simp_all add: grp_base_def invites_ok_def)

lemma base_online:
  assumes "grp_base w" and "online p w"
  shows "player_guid p" "inWorld p w" "GetOriginalGroup p w = None"
  using assms by (simp_all add: grp_base_def players_ok_def)

lemma rolls_ok_from:
  assumes "grp_base w" and "gw_loots w' = gw_loots w"
    and "\<And>a r'. r' \<in> set (g_rolls (this_group a w')) \<Longrightarrow>
           \<exists>r \<in> set (g_rolls (this_group a w)). r_loot r' = r_loot r \<and> r_itemSlot r' = r_itemSlot r"
  shows "rolls_ok w'"
proof -
  have old: "rolls_ok w" using assms(1) by (simp add: grp_base_def)
  have l: "loot_items l w' = loot_items l w" for l using assms(2) by (simp add: loot_items_def)
  show ?thesis
    unfolding rolls_ok_def l
  proof (intro allI ballI impI)
    fix a r' l assume r': "r' \<in> set (g_rolls (this_group a w'))" "r_loot r' = Some l"
    obtain r where "r \<in> set (g_rolls (this_group a w))" "r_loot r' = r_loot r" "r_itemSlot r' = r_itemSlot r"
      using assms(3) [OF r'(1)] by blast
    with old r'(2) show "unat (r_itemSlot r') < length (loot_items l w)" unfolding rolls_ok_def by metis
  qed
qed

lemma strip_votes_simps [simp]:
  "r_loot (strip_votes p r) = r_loot r" "r_itemSlot (strip_votes p r) = r_itemSlot r"
  by (simp_all add: strip_votes_def take_back_def Let_def split: option.split)

section \<open>Subgroup counters\<close>

lemma unat_u8_inc: "unat (x :: u8) < 255 \<Longrightarrow> unat (x + 1) = unat x + 1"
  by (simp add: unat_word_ariths)

lemma unat_u8_dec: "0 < unat (x :: u8) \<Longrightarrow> unat (x - 1) = unat x - 1"
  by (metis less_numeral_extra(3) unat_0 unat_minus_one)

lemma in_sub_simps [simp]:
  "in_sub i [] = 0"
  "in_sub i (s # xs) = (if unat (ms_group s) = i then Suc (in_sub i xs) else in_sub i xs)"
  "in_sub i (xs @ ys) = in_sub i xs + in_sub i ys"
  by (simp_all add: in_sub_def)

lemma in_sub_remove1:
  "s \<in> set xs \<Longrightarrow> in_sub i xs = in_sub i (remove1 s xs) + (if unat (ms_group s) = i then 1 else 0)"
  by (induction xs) auto

lemma tally_append:
  assumes "tally c xs" and "unat (ms_group s) < 8" and "unat (c ! unat (ms_group s)) < 5"
  shows "tally (c[unat (ms_group s) := c ! unat (ms_group s) + 1]) (xs @ [s])"
proof -
  have "unat (c[unat (ms_group s) := c ! unat (ms_group s) + 1] ! i) = in_sub i (xs @ [s]) \<and> in_sub i (xs @ [s]) \<le> 5"
    if "i < 8" for i
  proof (cases "i = unat (ms_group s)")
    case True
    then show ?thesis using assms that by (simp add: tally_def unat_u8_inc)
  next
    case False
    then show ?thesis using assms that by (simp add: tally_def)
  qed
  then show ?thesis using assms by (simp add: tally_def)
qed

lemma tally_remove1:
  assumes "tally c xs" and "s \<in> set xs"
  shows "tally (c[unat (ms_group s) := c ! unat (ms_group s) - 1]) (remove1 s xs)"
proof -
  have lt: "unat (ms_group s) < 8" using assms by (simp add: tally_def)
  have "unat (c[unat (ms_group s) := c ! unat (ms_group s) - 1] ! i) = in_sub i (remove1 s xs) \<and> in_sub i (remove1 s xs) \<le> 5"
    if i: "i < 8" for i
  proof -
    have c: "unat (c ! i) = in_sub i xs" "in_sub i xs \<le> 5" "length c = 8"
      using assms(1) i by (auto simp: tally_def)
    show ?thesis
    proof (cases "i = unat (ms_group s)")
      case True
      then have "in_sub i xs = in_sub i (remove1 s xs) + 1" using in_sub_remove1 [OF assms(2), of i] by simp
      with c True i show ?thesis by (simp add: unat_u8_dec)
    next
      case False
      then have "in_sub i xs = in_sub i (remove1 s xs)" using in_sub_remove1 [OF assms(2), of i] by auto
      with c False show ?thesis by simp
    qed
  qed
  moreover have "\<forall>x \<in> set (remove1 s xs). unat (ms_group x) < 8"
    using assms(1) by (meson notin_set_remove1 tally_def)
  ultimately show ?thesis using assms(1) by (simp add: tally_def)
qed

lemma fold_counts:
  assumes "length (c :: u8 list) = 8" and "\<forall>s \<in> set xs. unat (ms_group s) < 8" and "\<forall>i<8. unat (c ! i) + in_sub i xs \<le> 5"
  shows "length (fold (\<lambda>s c. c[unat (ms_group s) := c ! unat (ms_group s) + 1]) xs c) = 8 \<and>
    (\<forall>i<8. unat (fold (\<lambda>s c. c[unat (ms_group s) := c ! unat (ms_group s) + 1]) xs c ! i) = unat (c ! i) + in_sub i xs)"
  using assms
proof (induction xs arbitrary: c)
  case (Cons s xs)
  let ?c = "c[unat (ms_group s) := c ! unat (ms_group s) + 1]"
  have lt: "unat (ms_group s) < 8" using Cons.prems(2) by simp
  have "unat (c ! unat (ms_group s)) < 255" using Cons.prems(3) lt by fastforce
  then have c: "unat (?c ! i) = unat (c ! i) + (if unat (ms_group s) = i then 1 else 0)" if "i < 8" for i
    using that Cons.prems(1) lt unat_u8_inc [OF \<open>unat (c ! unat (ms_group s)) < 255\<close>]
    by (cases "i = unat (ms_group s)") simp_all
  have "unat (?c ! i) + in_sub i xs \<le> 5" if i: "i < 8" for i
    using Cons.prems(3) [rule_format, OF i] c [OF i] by (simp split: if_splits)
  then have "length (fold (\<lambda>s c. c[unat (ms_group s) := c ! unat (ms_group s) + 1]) xs ?c) = 8 \<and>
      (\<forall>i<8. unat (fold (\<lambda>s c. c[unat (ms_group s) := c ! unat (ms_group s) + 1]) xs ?c ! i) = unat (?c ! i) + in_sub i xs)"
    using Cons.IH [of ?c] Cons.prems by simp
  then show ?case using c by simp
qed simp

lemma in_sub_zero: "\<forall>s \<in> set xs. ms_group s = 0 \<Longrightarrow> in_sub i xs = (if i = 0 then length xs else 0)"
  by (induction xs) auto

lemma tally_init:
  assumes "\<forall>s \<in> set xs. ms_group s = 0" and "length xs \<le> 5"
  shows "tally (init_counts xs) xs"
proof -
  have "in_sub i xs \<le> 5" for i using assms by (simp add: in_sub_zero)
  then show ?thesis
    using fold_counts [of "replicate 8 0" xs] assms
    by (simp add: tally_def init_counts_def group_limits)
qed

lemma tally_recount:
  assumes "tally c xs"
  shows "tally (init_counts xs) xs"
  using fold_counts [of "replicate 8 0" xs] assms by (simp add: tally_def init_counts_def group_limits)

lemma upd_first_split:
  assumes "distinct (map ms_guid xs)" and "s \<in> set xs"
  shows "\<exists>ys zs. xs = ys @ s # zs \<and> upd_first (ms_guid s) f xs = ys @ f s # zs \<and>
      ms_guid s \<notin> ms_guid ` set ys \<and> ms_guid s \<notin> ms_guid ` set zs"
  using assms
proof (induction xs)
  case (Cons x xs)
  show ?case
  proof (cases "ms_guid x = ms_guid s")
    case True
    then have "x = s" using Cons.prems by (auto simp: image_iff)
    with Cons.prems show ?thesis by (intro exI [of _ "[]"] exI [of _ xs]) simp
  next
    case False
    then obtain ys zs where "xs = ys @ s # zs" "upd_first (ms_guid s) f xs = ys @ f s # zs"
      "ms_guid s \<notin> ms_guid ` set ys" "ms_guid s \<notin> ms_guid ` set zs"
      using Cons by fastforce
    with False show ?thesis by (intro exI [of _ "x # ys"] exI [of _ zs]) simp
  qed
qed simp

lemma tally_cong: "(\<And>i. in_sub i xs = in_sub i ys) \<Longrightarrow> set xs = set ys \<Longrightarrow> tally c xs = tally c ys"
  by (simp add: tally_def)

lemma tally_move:
  assumes "tally c xs" and "distinct (map ms_guid xs)" and "s \<in> set xs" and "unat sub < 8" and "unat (c ! unat sub) < 5"
    and "sub \<noteq> ms_group s"
  shows "tally (c[unat sub := c ! unat sub + 1, unat (ms_group s) := c[unat sub := c ! unat sub + 1] ! unat (ms_group s) - 1])
    (upd_first (ms_guid s) (\<lambda>s. s\<lparr>ms_group := sub\<rparr>) xs)"
proof -
  let ?t = "s\<lparr>ms_group := sub\<rparr>" and ?c = "c[unat sub := c ! unat sub + 1]"
  obtain ys zs where xs: "xs = ys @ s # zs" "upd_first (ms_guid s) (\<lambda>s. s\<lparr>ms_group := sub\<rparr>) xs = ys @ ?t # zs"
      and "ms_guid s \<notin> ms_guid ` set ys"
    using upd_first_split [OF assms(2,3)] by blast
  then have "s \<notin> set ys" by auto
  then have r: "remove1 s (xs @ [?t]) = ys @ zs @ [?t]" by (simp add: xs remove1_append)
  have "tally ?c (xs @ [?t])" using tally_append [of c xs ?t] assms by simp
  then have "tally (?c[unat (ms_group s) := ?c ! unat (ms_group s) - 1]) (remove1 s (xs @ [?t]))"
    by (rule tally_remove1) (use assms in simp)
  then have "tally (?c[unat (ms_group s) := ?c ! unat (ms_group s) - 1]) (ys @ zs @ [?t])" by (simp add: r)
  also have "tally (?c[unat (ms_group s) := ?c ! unat (ms_group s) - 1]) (ys @ zs @ [?t]) =
      tally (?c[unat (ms_group s) := ?c ! unat (ms_group s) - 1]) (ys @ ?t # zs)"
    by (rule tally_cong) auto
  finally show ?thesis unfolding xs(2) .
qed

end
