(* ===== verification/GroupSteps.thy ===== *)
theory GroupSteps
  imports GroupInv
begin

text \<open>
  Every operation on a group keeps the invariant \<open>grp_base\<close>; what it does to the views is
  stated first, so that the requests of \<^verbatim>\<open>GroupHandler.cpp\<close> can be followed step by step.
\<close>

section \<open>A member joins\<close>

definition has_room :: "u8 \<Rightarrow> group \<Rightarrow> bool" where
  "has_room sub g \<longleftrightarrow>
     (if g_raid g then unat sub < 8 \<and> unat (the (g_counts g) ! unat sub) < 5 else sub = 0 \<and> length (g_slots g) < 5)"

lemma has_room_range: "group_ok g \<Longrightarrow> has_room sub g \<Longrightarrow> sub_in_range sub g"
  by (auto simp: group_ok_def counts_ok_def has_room_def sub_in_range_def tally_def split: option.splits if_splits)

definition with_member :: "member_slot \<Rightarrow> group \<Rightarrow> group" where
  "with_member s g =
     g\<lparr>g_slots := g_slots g @ [s],
       g_counts := map_option (\<lambda>c. c[unat (ms_group s) := c ! unat (ms_group s) + 1]) (g_counts g)\<rparr>"

lemma group_ok_with_member:
  assumes "group_ok g" and "has_room (ms_group s) g" and "player_guid (ms_guid s)"
    and "ms_guid s \<notin> ms_guid ` set (g_slots g)"
  shows "group_ok (with_member s g)"
proof -
  have "tally (the (g_counts g)) (g_slots g)" "g_counts g \<noteq> None" if "g_raid g"
    using assms(1) that by (auto simp: group_ok_def counts_ok_def)
  then have "counts_ok (with_member s g)"
    using assms(1,2) by (auto simp: counts_ok_def with_member_def has_room_def group_ok_def tally_append)
  with assms show ?thesis by (auto simp: group_ok_def with_member_def)
qed

definition refs_add :: "object_guid \<Rightarrow> group \<Rightarrow> group" where
  "refs_add p g = g\<lparr>g_refs := (p, MainRef) # g_refs g\<rparr>"

lemma refs_add_simps [simp]:
  "g_slots (refs_add p g) = g_slots g" "g_Id (refs_add p g) = g_Id g" "g_invitees (refs_add p g) = g_invitees g"
  "g_refs (refs_add p g) = (p, MainRef) # g_refs g" "group_ok (refs_add p g) = group_ok g"
  "g_leaderGuid (refs_add p g) = g_leaderGuid g" "g_leaderName (refs_add p g) = g_leaderName g"
  "g_raid (refs_add p g) = g_raid g" "g_bg (refs_add p g) = g_bg g" "g_mainTankGuid (refs_add p g) = g_mainTankGuid g"
  "g_mainAssistantGuid (refs_add p g) = g_mainAssistantGuid g" "g_counts (refs_add p g) = g_counts g" "g_rolls (refs_add p g) = g_rolls g"
  by (simp_all add: refs_add_def)

lemma with_member_simps [simp]:
  "g_slots (with_member s g) = g_slots g @ [s]" "g_Id (with_member s g) = g_Id g"
  "g_invitees (with_member s g) = g_invitees g" "g_refs (with_member s g) = g_refs g"
  "g_leaderGuid (with_member s g) = g_leaderGuid g" "g_leaderName (with_member s g) = g_leaderName g"
  "g_raid (with_member s g) = g_raid g" "g_bg (with_member s g) = g_bg g"
  "g_mainTankGuid (with_member s g) = g_mainTankGuid g" "g_mainAssistantGuid (with_member s g) = g_mainAssistantGuid g"
  "g_rolls (with_member s g) = g_rolls g"
  by (simp_all add: with_member_def)

text \<open>What joining does, seen from the views: \<open>s\<close> is the new slot.\<close>

definition joined :: "gaddr \<Rightarrow> member_slot \<Rightarrow> grp_world \<Rightarrow> grp_world \<Rightarrow> bool" where
  "joined a s w w' \<longleftrightarrow>
     (\<forall>b. this_group b w' = (if b = a then refs_add (ms_guid s) (with_member s (this_group a w)) else this_group b w)) \<and>
     (\<forall>b. alive b w' = alive b w) \<and> (\<forall>q. online q w' = online q w) \<and> (\<forall>q. inWorld q w' = inWorld q w) \<and>
     (\<forall>q. invite_of q w' = invite_of q w) \<and> (\<forall>q. GetOriginalGroup q w' = GetOriginalGroup q w) \<and>
     (\<forall>q. GetGroup q w' = (if q = ms_guid s then Some a else GetGroup q w)) \<and>
     (\<forall>q. ref_subgroup MainRef q w' = (if q = ms_guid s then ms_group s else ref_subgroup MainRef q w)) \<and>
     gw_fresh w' = gw_fresh w \<and> gw_groupMap w' = gw_groupMap w \<and> gw_nextId w' = gw_nextId w \<and>
     gw_rows w' = gw_rows w \<and> gw_loots w' = gw_loots w \<and> gw_fault w' = gw_fault w \<and>
     set (gw_members w') = insert (mrow (this_group a w) s) (set (gw_members w))"

lemma no_invite_drop:
  "online p w \<Longrightarrow> invite_of p w = None \<Longrightarrow> drop_invite p w = SetGroupInvite None p w"
  by (auto simp: drop_invite_def online_def invite_of_def split: option.splits)

lemma addMember_at_joined:
  assumes base: "grp_base w" and p: "online p w" "GetGroup p w = None" "invite_of p w = None"
    and a: "alive a w" "\<not> IsFull (this_group a w)" "has_room sub (this_group a w)"
  shows "\<exists>w'. addMember_at a p name False sub w = (True, w') \<and>
     joined a \<lparr>ms_guid = p, ms_name = name, ms_group = sub, ms_assistant = False\<rparr> w w'"
proof -
  let ?g = "this_group a w" and ?s = "\<lparr>ms_guid = p, ms_name = name, ms_group = sub, ms_assistant = False\<rparr>"
  have ok: "group_ok ?g" and pl: "player_guid p" "inWorld p w" "p \<noteq> 0"
    using base p(1) by (auto simp: grp_base_def players_ok_def player_guid_def)
  have nobg: "\<not> g_bg ?g" using ok by (simp add: group_ok_def)
  have sub128: "\<not> 128 \<le> sub"
    using a(3) by (auto simp: has_room_def word_le_nat_alt split: if_splits)
  let ?w1 = "SubGroupCounterIncrease a sub (upd_group a (\<lambda>g. g\<lparr>g_slots := g_slots g @ [?s]\<rparr>) w)"
  have "sub_in_range sub (this_group a (upd_group a (\<lambda>g. g\<lparr>g_slots := g_slots g @ [?s]\<rparr>) w))"
    using has_room_range [OF ok a(3)] a(1) by (simp add: sub_in_range_def)
  then have w1: "?w1 = upd_group a (with_member ?s) w"
    by (simp add: counter_upd upd_group_upd_group with_member_def [abs_def])
  let ?v = "upd_group a (with_member ?s) w"
  let ?w2 = "join_link a sub p (drop_invite p ?v)"
  have join: "?w2 = set_ref_subgroup MainRef sub p (link_ref MainRef a p (SetGroupInvite None p ?v))"
    using p a(1) nobg sub128
    by (simp add: join_link_def no_invite_drop SetGroupRef_def)
  have views: "joined a ?s w (?w2\<lparr>gw_members := gw_members w @ [mrow ?g ?s]\<rparr>)"
    unfolding joined_def join using p a(1)
    by (auto simp: this_link target_views refs_add_def)
  have fp: "FindPlayer w p \<noteq> None" using pl FindPlayer_iff [of w p] by blast
  have notin: "\<not> (\<exists>x \<in> set (gw_members w). mr_memberGuid x = GetCounter p)"
  proof
    assume "\<exists>x \<in> set (gw_members w). mr_memberGuid x = GetCounter p"
    then obtain b t where "t \<in> set (g_slots (this_group b w))" "ms_guid t = p"
      using row_member [OF base pl(1)] by blast
    then have "member b p w" by (auto simp: member_def)
    then have "GetGroup p w = Some b" using base_links(1) [OF base] p(1) by blast
    with p(2) show False by simp
  qed
  have mem: "gw_members ?w2 = gw_members w" and this2: "g_bg (this_group a ?w2) = g_bg ?g" "g_Id (this_group a ?w2) = g_Id ?g"
    unfolding join using p a(1) by (simp_all add: this_link target_views)
  have "addMember_at a p name False sub w = (True, ?w2\<lparr>gw_members := gw_members w @ [mrow ?g ?s]\<rparr>)"
    using a(2) pl(3) fp nobg this2 mem notin
    by (auto simp: addMember_at_def Let_def w1 sql_insert_member_def mrow_def split: option.split)
  with views show ?thesis by blast
qed

text \<open>The id of a group that gets its first member must be new.\<close>

definition id_ready :: "gaddr \<Rightarrow> grp_world \<Rightarrow> bool" where
  "id_ready a w \<longleftrightarrow>
     g_Id (this_group a w) < gw_nextId w \<and>
     (\<forall>b. b \<noteq> a \<longrightarrow> g_slots (this_group b w) \<noteq> [] \<longrightarrow> g_Id (this_group b w) \<noteq> g_Id (this_group a w))"

lemma id_ready_member: "tables_ok w \<Longrightarrow> g_slots (this_group a w) \<noteq> [] \<Longrightarrow> id_ready a w"
  by (auto simp: id_ready_def tables_ok_def)

lemma base_joined:
  assumes base: "grp_base w" and join: "joined a s w w'" and p: "online (ms_guid s) w" "GetGroup (ms_guid s) w = None"
    "invite_of (ms_guid s) w = None"
    and a: "alive a w" "has_room (ms_group s) (this_group a w)" "id_ready a w"
  shows "grp_base w'"
proof -
  let ?p = "ms_guid s"
  have this': "this_group b w' = (if b = a then refs_add ?p (with_member s (this_group a w)) else this_group b w)" for b
    using join by (simp add: joined_def)
  have links: "links_ok w" and pl: "players_ok w" and inv: "invites_ok w" and tab: "tables_ok w"
    using base by (simp_all add: grp_base_def)
  have new: "\<not> member b ?p w" for b
    using base_links(1) [OF base, of ?p b] p by auto
  have pg: "player_guid ?p" using pl p by (simp add: players_ok_def)
  have mem: "member b q w' \<longleftrightarrow> member b q w \<or> b = a \<and> q = ?p" for b q
    by (auto simp: member_def this')
  have "group_ok (this_group b w')" for b
    using base_group [OF base] new [of a] a pg by (simp add: this' group_ok_with_member member_def)
  moreover have "players_ok w'"
    using pl join by (simp add: joined_def players_ok_def)
  moreover have "links_ok w'"
  proof -
    have "GetGroup q w' = Some b \<longleftrightarrow> online q w' \<and> member b q w'" for q b
      using links join p new by (auto simp: joined_def links_ok_def mem)
    moreover have "ref_subgroup MainRef (ms_guid t) w' = ms_group t"
      if "t \<in> set (g_slots (this_group b w'))" "online (ms_guid t) w'" for t b
    proof (cases "ms_guid t = ?p")
      case True
      have "t \<notin> set (g_slots (this_group b w))" using True new [of b] unfolding member_def by (metis image_eqI)
      then have "t = s" using that(1) by (auto simp: this' split: if_splits)
      with join show ?thesis by (simp add: joined_def)
    next
      case False
      then have "t \<in> set (g_slots (this_group b w))" using that(1) by (auto simp: this' split: if_splits)
      with False that(2) links join show ?thesis by (simp add: joined_def links_ok_def)
    qed
    moreover have "distinct (g_refs (this_group b w'))" for b
      using links p(2) by (auto simp: this' links_ok_def)
    moreover have "(q, k) \<in> set (g_refs (this_group b w')) \<longleftrightarrow> k = MainRef \<and> GetGroup q w' = Some b" for q k b
      using links join p(2) by (auto simp: this' links_ok_def joined_def)
    moreover have "b = c" if "member b q w'" "member c q w'" for b c q
      using that links new by (auto simp: mem links_ok_def)
    ultimately show ?thesis by (simp add: links_ok_def)
  qed
  moreover have "invites_ok w'"
  proof -
    have "invite_of q w' = Some b \<longleftrightarrow> q \<in> set (g_invitees (this_group b w'))" for q b
      using join base_invites(1) [OF base, of q b] by (simp add: this' joined_def)
    moreover have "GetGroup q w' = None" if "invite_of q w' \<noteq> None" for q
      using that join p(3) base_invites(2) [OF base, of q] by (auto simp: joined_def)
    ultimately show ?thesis by (simp add: invites_ok_def)
  qed
  moreover have "tables_ok w'"
  proof -
    have "r \<in> set (gw_members w') \<longleftrightarrow> (\<exists>b. \<exists>t \<in> set (g_slots (this_group b w')). r = mrow (this_group b w') t)" for r
    proof -
      have old: "r \<in> set (gw_members w) \<longleftrightarrow> (\<exists>b. \<exists>t \<in> set (g_slots (this_group b w)). r = mrow (this_group b w) t)"
        using tab by (simp add: tables_ok_def)
      have set': "r \<in> set (gw_members w') \<longleftrightarrow> r = mrow (this_group a w) s \<or> r \<in> set (gw_members w)"
        using join by (simp add: joined_def)
      have mr: "mrow (this_group b w') t = mrow (this_group b w) t" for b t
        by (simp add: mrow_def this')
      show ?thesis unfolding set' old mr by (auto simp: this')
    qed
    moreover have "b = c" if "g_slots (this_group b w') \<noteq> []" "g_slots (this_group c w') \<noteq> []"
      "g_Id (this_group b w') = g_Id (this_group c w')" for b c
      using that tab a(3) by (auto simp: this' tables_ok_def id_ready_def split: if_splits)
    moreover have "g_Id (this_group b w') < gw_nextId w'" if "g_slots (this_group b w') \<noteq> []" for b
      using that tab a(3) join by (auto simp: this' tables_ok_def id_ready_def joined_def split: if_splits)
    ultimately show ?thesis by (simp add: tables_ok_def)
  qed
  moreover have "rolls_ok w'"
    by (rule rolls_ok_from [OF base]) (use join in \<open>auto simp: this' joined_def split: if_splits\<close>)
  ultimately show ?thesis
    using base join by (simp add: grp_base_def joined_def)
qed

lemma sum_in_sub: "\<forall>s \<in> set xs. unat (ms_group s) < n \<Longrightarrow> (\<Sum>i<n. in_sub i xs) = length xs"
proof (induction xs)
  case (Cons s xs)
  have "(\<Sum>i<n. in_sub i (s # xs)) = (\<Sum>i<n. in_sub i xs + (if i = unat (ms_group s) then 1 else 0))"
    by (intro sum.cong) auto
  also have "\<dots> = Suc (length xs)" using Cons by (simp add: sum.distrib)
  finally show ?case by simp
qed simp

lemma not_full_free:
  assumes "tally c xs" and "length xs < 40"
  shows "\<exists>i. first_free c = Some i \<and> i < 8 \<and> unat (c ! i) < 5"
proof -
  have "\<exists>i<8. unat (c ! i) < 5"
  proof (rule ccontr)
    assume "\<not> (\<exists>i<8. unat (c ! i) < 5)"
    then have "5 \<le> unat (c ! i)" if "i < 8" for i using that not_less by blast
    then have "5 \<le> in_sub i xs" if "i < 8" for i using that assms(1) by (simp add: tally_def)
    then have "(\<Sum>i<8. in_sub i xs) \<ge> (\<Sum>i<8::nat. 5)" by (intro sum_mono) simp
    with assms show False using sum_in_sub [of xs 8] by (simp add: tally_def)
  qed
  then obtain j where j: "j < 8" "unat (c ! j) < 5" by blast
  have "first_free c \<noteq> None"
    unfolding first_free_def group_limits find_None_iff using j by auto
  then obtain i where i: "first_free c = Some i" by blast
  then have "i < 8" "unat (c ! i) < 5"
    unfolding first_free_def group_limits find_Some_iff by auto
  with i show ?thesis by blast
qed

text \<open>Changing fields the invariant does not speak of.\<close>

definition keeps_members :: "(group \<Rightarrow> group) \<Rightarrow> bool" where
  "keeps_members f \<longleftrightarrow>
     (\<forall>g. g_slots (f g) = g_slots g \<and> g_refs (f g) = g_refs g \<and> g_invitees (f g) = g_invitees g \<and>
          g_Id (f g) = g_Id g \<and> g_rolls (f g) = g_rolls g)"

lemma keeps_members_simps [simp]:
  "keeps_members (\<lambda>g. g\<lparr>g_team := t g\<rparr>)"
  "keeps_members (\<lambda>g. g\<lparr>g_leaderGuid := l, g_leaderName := n, g_leaderLastOnline := i\<rparr>)"
  "keeps_members (\<lambda>g. g\<lparr>g_leaderGuid := l, g_leaderName := n\<rparr>)"
  "keeps_members (\<lambda>g. g\<lparr>g_leaderLastOnline := i\<rparr>)"
  "keeps_members (\<lambda>g. g\<lparr>g_leaderGuid := l, g_leaderName := n, g_leaderLastOnline := i, g_raid := b g\<rparr>)"
  "keeps_members (\<lambda>g. g\<lparr>g_lootMethod := m, g_looterGuid := l, g_lootThreshold := h\<rparr>)"
  "keeps_members (\<lambda>g. g\<lparr>g_lootMethod := m, g_lootThreshold := h, g_looterGuid := l\<rparr>)"
  "keeps_members (\<lambda>g. g\<lparr>g_mainTankGuid := l\<rparr>)" "keeps_members (\<lambda>g. g\<lparr>g_mainAssistantGuid := l\<rparr>)"
  "keeps_members (\<lambda>g. g\<lparr>g_icons := u g\<rparr>)" "keeps_members (\<lambda>g. g\<lparr>g_raid := b g, g_counts := c g\<rparr>)"
  by (simp_all add: keeps_members_def)

lemma keeps_member: "keeps_members f \<Longrightarrow> member b p (upd_group a f w) = member b p w"
  by (simp add: keeps_members_def member_def)

lemma base_upd_group:
  assumes "grp_base w" and "keeps_members f" and "group_ok (f (this_group a w))"
  shows "grp_base (upd_group a f w)"
proof -
  have mr: "mrow (this_group b (upd_group a f w)) t = mrow (this_group b w) t" for b t
    using assms(2) by (simp add: mrow_def keeps_members_def)
  have fields: "g_slots (this_group b (upd_group a f w)) = g_slots (this_group b w)"
    "g_refs (this_group b (upd_group a f w)) = g_refs (this_group b w)"
    "g_invitees (this_group b (upd_group a f w)) = g_invitees (this_group b w)"
    "g_Id (this_group b (upd_group a f w)) = g_Id (this_group b w)"
    "g_rolls (this_group b (upd_group a f w)) = g_rolls (this_group b w)" for b
    using assms(2) by (simp_all add: keeps_members_def)
  have l: "loot_items l (upd_group a f w) = loot_items l w" for l by (simp add: loot_items_def)
  show ?thesis
    using assms(1,3) unfolding l grp_base_def base_defs mr fields keeps_member [OF assms(2)] by simp
qed

lemma AddMember_joined:
  assumes "grp_base w" and p: "online p w" "GetGroup p w = None" "invite_of p w = None"
    and a: "alive a w" "\<not> IsFull (this_group a w)"
  shows "\<exists>sub w1 t w'. AddMember a p name w = (True, w') \<and> has_room sub (this_group a w) \<and>
     joined a \<lparr>ms_guid = p, ms_name = name, ms_group = sub, ms_assistant = False\<rparr> w w1 \<and>
     same (upd_group a (\<lambda>g. g\<lparr>g_team := t\<rparr>) w1) w'"
proof -
  let ?g = "this_group a w"
  have ok: "counts_ok ?g" using base_group [OF assms(1), of a] by (simp add: group_ok_def)
  have "\<exists>sub. addMember a p name w = addMember_at a p name False sub w \<and> has_room sub ?g"
  proof (cases "g_raid ?g")
    case True
    then obtain c where c: "g_counts ?g = Some c" "tally c (g_slots ?g)" using ok by (auto simp: counts_ok_def)
    moreover have "length (g_slots ?g) < 40" using a(2) True by (simp add: IsFull_def group_limits)
    ultimately obtain i where "first_free c = Some i" "i < 8" "unat (c ! i) < 5" using not_full_free by blast
    with c True show ?thesis
      by (intro exI [of _ "of_nat i"]) (simp add: addMember_def has_room_def unat_of_nat)
  next
    case False
    then show ?thesis using ok a(2) by (auto simp: addMember_def has_room_def counts_ok_def IsFull_def group_limits)
  qed
  then obtain sub where sub: "addMember a p name w = addMember_at a p name False sub w" "has_room sub ?g" by blast
  then obtain w1 where w1: "addMember a p name w = (True, w1)"
      and j: "joined a \<lparr>ms_guid = p, ms_name = name, ms_group = sub, ms_assistant = False\<rparr> w w1"
    using addMember_at_joined [OF assms(1) p a, of sub name] by auto
  have "inWorld p w1" "p \<noteq> 0"
    using j base_online [OF assms(1) p(1)] by (auto simp: joined_def player_guid_def)
  then have "FindPlayer (SendUpdate a w1) p \<noteq> None"
    using FindPlayer_iff same_SendUpdate [of w1 a] by (metis same_def)
  then obtain pl where pl: "FindPlayer (SendUpdate a w1) p = Some pl" by blast
  let ?t = "team_with (g_team (this_group a w1)) (gp_team pl)"
  let ?w' = "upd_player p (\<lambda>pl. pl\<lparr>gp_updateMask := gp_updateMask pl OR GROUP_UPDATE_FULL\<rparr>)
               (upd_group a (\<lambda>g. g\<lparr>g_team := team_with (g_team g) (gp_team pl)\<rparr>) (SendUpdate a w1))"
  have "same (upd_group a (\<lambda>g. g\<lparr>g_team := ?t\<rparr>) w1) (upd_group a (\<lambda>g. g\<lparr>g_team := team_with (g_team g) (gp_team pl)\<rparr>) (SendUpdate a w1))"
    using same_SendUpdate [of w1 a] by (simp add: same_def)
  then have "same (upd_group a (\<lambda>g. g\<lparr>g_team := ?t\<rparr>) w1) ?w'"
    by (rule same_trans [OF _ same_mask])
  moreover have "AddMember a p name w = (True, ?w')"
    using w1 pl by (simp add: AddMember_def)
  ultimately show ?thesis using sub(2) j by blast
qed

section \<open>A member leaves\<close>

definition without :: "member_slot \<Rightarrow> group \<Rightarrow> group" where
  "without s g =
     g\<lparr>g_slots := remove1 s (g_slots g), g_refs := remove1 (ms_guid s, MainRef) (g_refs g),
       g_counts := map_option (\<lambda>c. c[unat (ms_group s) := c ! unat (ms_group s) - 1]) (g_counts g),
       g_rolls := map (strip_votes (ms_guid s)) (g_rolls g)\<rparr>"

lemma without_simps [simp]:
  "g_slots (without s g) = remove1 s (g_slots g)" "g_Id (without s g) = g_Id g"
  "g_invitees (without s g) = g_invitees g" "g_refs (without s g) = remove1 (ms_guid s, MainRef) (g_refs g)"
  "g_leaderGuid (without s g) = g_leaderGuid g" "g_leaderName (without s g) = g_leaderName g"
  "g_raid (without s g) = g_raid g" "g_bg (without s g) = g_bg g" "g_mainTankGuid (without s g) = g_mainTankGuid g"
  "g_mainAssistantGuid (without s g) = g_mainAssistantGuid g"
  "g_rolls (without s g) = map (strip_votes (ms_guid s)) (g_rolls g)"
  by (simp_all add: without_def)

lemma notin_set_remove1D: "x \<in> set (remove1 y xs) \<Longrightarrow> x \<in> set xs"
  using notin_set_remove1 by metis

lemma distinct_map_remove1: "distinct (map f xs) \<Longrightarrow> distinct (map f (remove1 x xs))"
  by (induction xs) (auto dest: notin_set_remove1D)

lemma group_ok_without:
  assumes "group_ok g" and "s \<in> set (g_slots g)"
  shows "group_ok (without s g)"
proof -
  have "tally (the (g_counts g)) (g_slots g)" "g_counts g \<noteq> None" if "g_raid g"
    using assms(1) that by (auto simp: group_ok_def counts_ok_def)
  then have "counts_ok (without s g)"
    using assms by (auto simp: counts_ok_def without_def group_ok_def tally_remove1 length_remove1
        dest: notin_set_remove1D)
  with assms(1) show ?thesis
    by (auto simp: group_ok_def without_def distinct_map_remove1 dest: notin_set_remove1D)
qed

lemma slot_range: "group_ok g \<Longrightarrow> s \<in> set (g_slots g) \<Longrightarrow> sub_in_range (ms_group s) g"
  by (auto simp: group_ok_def counts_ok_def sub_in_range_def tally_def split: option.splits if_splits)

definition left :: "gaddr \<Rightarrow> member_slot \<Rightarrow> grp_world \<Rightarrow> grp_world \<Rightarrow> bool" where
  "left a s w w' \<longleftrightarrow>
     (\<forall>b. this_group b w' = (if b = a then without s (this_group a w) else this_group b w)) \<and>
     (\<forall>b. alive b w' = alive b w) \<and> (\<forall>q. online q w' = online q w) \<and> (\<forall>q. inWorld q w' = inWorld q w) \<and>
     (\<forall>q. invite_of q w' = invite_of q w) \<and> (\<forall>q. GetOriginalGroup q w' = GetOriginalGroup q w) \<and>
     (\<forall>q. GetGroup q w' = (if q = ms_guid s then None else GetGroup q w)) \<and>
     (\<forall>q. ref_subgroup MainRef q w' = ref_subgroup MainRef q w) \<and>
     gw_fresh w' = gw_fresh w \<and> gw_groupMap w' = gw_groupMap w \<and> gw_nextId w' = gw_nextId w \<and>
     gw_rows w' = gw_rows w \<and> gw_loots w' = gw_loots w \<and> gw_fault w' = gw_fault w \<and>
     gw_members w' = filter (\<lambda>r. mr_memberGuid r \<noteq> GetCounter (ms_guid s)) (gw_members w)"

text \<open>The part of \<^verbatim>\<open>_removeMember\<close> before the leader is replaced.\<close>

definition remove_slot :: "grp_env \<Rightarrow> gaddr \<Rightarrow> object_guid \<Rightarrow> grp_world \<Rightarrow> grp_world" where
  "remove_slot env a guid w =
     (let w1 = (case FindPlayer w guid of None \<Rightarrow> w | Some _ \<Rightarrow> leave_link a guid w);
          w2 = removeRolls env a guid w1;
          w3 = (case find_slot guid (this_group a w2) of
                  None \<Rightarrow> w2
                | Some slot \<Rightarrow>
                    upd_group a (\<lambda>g. g\<lparr>g_slots := remove1 slot (g_slots g)\<rparr>)
                      (SubGroupCounterDecrease a (ms_group slot) w2))
      in if g_bg (this_group a w3) then w3 else sql_delete_member (GetCounter guid) w3)"

lemma removeMember_slot:
  "removeMember env a guid w =
     (let w4 = remove_slot env a guid w
      in if g_leaderGuid (this_group a w4) = guid
         then (True, chooseLeader env a False (updateLeaderFlag a True w4)) else (False, w4))"
  by (simp add: removeMember_def remove_slot_def Let_def)

lemma base_refs:
  assumes "grp_base w"
  shows "distinct (g_refs (this_group a w))"
    "(p, k) \<in> set (g_refs (this_group a w)) \<longleftrightarrow> k = MainRef \<and> GetGroup p w = Some a"
  using assms by (simp_all add: grp_base_def links_ok_def)

lemma remove_slot_left:
  assumes base: "grp_base w" and s: "s \<in> set (g_slots (this_group a w))"
  shows "left a s w (remove_slot env a (ms_guid s) w)"
proof -
  let ?p = "ms_guid s" and ?g = "this_group a w"
  have ok: "group_ok ?g" using base by (rule base_group)
  have mem: "member a ?p w" using s by (simp add: member_def)
  have al: "alive a w" using mem by (rule member_alive)
  let ?w1 = "case FindPlayer w ?p of None \<Rightarrow> w | Some _ \<Rightarrow> leave_link a ?p w"
  have w1: "?w1 = unlink_ref MainRef ?p w"
  proof (cases "online ?p w")
    case True
    have "\<not> g_bg ?g" using ok by (simp add: group_ok_def)
    then have "leave_link a ?p w = unlink_ref MainRef ?p w"
      using base_online [OF base True] by (simp add: leave_link_def SetGroupRef_def)
    moreover have "FindPlayer w ?p \<noteq> None"
      using True by (simp add: base_FindPlayer [OF base] online_def)
    ultimately show ?thesis by (auto split: option.split)
  next
    case False
    then have "FindPlayer w ?p = None" "ref_target MainRef ?p w = None"
      by (simp_all add: base_FindPlayer [OF base] online_def ref_target_def)
    then show ?thesis by (simp add: unlink_ref_def)
  qed
  let ?u = "unlink_ref MainRef ?p w"
  have this_u: "this_group b ?u = (if b = a then ?g\<lparr>g_refs := remove1 (?p, MainRef) (g_refs ?g)\<rparr> else this_group b w)" for b
  proof (cases "GetGroup ?p w = Some b")
    case True
    then have "b = a" using base_links [OF base] mem by blast
    with True al show ?thesis by (simp add: this_unlink GetGroup_def)
  next
    case False
    then have "(?p, MainRef) \<notin> set (g_refs (this_group b w))" using base_refs [OF base] by blast
    then have "(this_group b w)\<lparr>g_refs := remove1 (?p, MainRef) (g_refs (this_group b w))\<rparr> = this_group b w"
      by (simp add: remove1_idem)
    with False show ?thesis by (auto simp: this_unlink GetGroup_def)
  qed
  define w2 where "w2 = removeRolls env a ?p ?u"
  have w2: "w2 = upd_group a (\<lambda>g. g\<lparr>g_rolls := map (strip_votes ?p) (g_rolls g)\<rparr>) ?u"
    by (simp add: w2_def removeRolls_eq)
  have this2: "this_group b w2 = (if b = a then ?g\<lparr>g_refs := remove1 (?p, MainRef) (g_refs ?g), g_rolls := map (strip_votes ?p) (g_rolls ?g)\<rparr>
      else this_group b w)" for b
    using al by (simp add: w2 this_u)
  have al2: "alive b w2 = alive b w" for b by (simp add: w2)
  have slot: "find_slot ?p (this_group a w2) = Some s"
    using find_slot_eq [OF ok s] by (simp add: this2 find_slot_def)
  have rng: "sub_in_range (ms_group s) (this_group a w2)"
    using slot_range [OF ok s] by (simp add: this2 sub_in_range_def)
  define w3 where "w3 = upd_group a (\<lambda>g. g\<lparr>g_slots := remove1 s (g_slots g)\<rparr>) (SubGroupCounterDecrease a (ms_group s) w2)"
  have w3: "w3 = upd_group a (\<lambda>g. g\<lparr>g_counts := map_option (\<lambda>c. c[unat (ms_group s) := c ! unat (ms_group s) - 1]) (g_counts g),
      g_slots := remove1 s (g_slots g)\<rparr>) w2"
    by (simp add: w3_def counter_upd [OF rng] upd_group_upd_group)
  have this3: "this_group b w3 = (if b = a then without s ?g else this_group b w)" for b
    using al by (simp add: w3 this2 al2 without_def)
  have "\<not> g_bg (without s ?g)" using ok by (simp add: group_ok_def)
  then have "remove_slot env a ?p w = sql_delete_member (GetCounter ?p) w3"
    unfolding remove_slot_def Let_def w1 w2_def [symmetric] slot option.case w3_def [symmetric] this3 by simp
  moreover have "left a s w (sql_delete_member (GetCounter ?p) w3)"
    unfolding left_def by (simp add: this3) (simp add: w3 w2 target_views)
  ultimately show ?thesis by simp
qed

lemma base_left:
  assumes base: "grp_base w" and s: "s \<in> set (g_slots (this_group a w))" and l: "left a s w w'"
  shows "grp_base w'"
proof -
  let ?p = "ms_guid s" and ?g = "this_group a w"
  have ok: "group_ok ?g" using base by (rule base_group)
  have mem: "member a ?p w" using s by (simp add: member_def)
  have this': "this_group b w' = (if b = a then without s ?g else this_group b w)" for b
    using l by (simp add: left_def)
  have slots': "t \<in> set (g_slots (this_group b w')) \<longleftrightarrow> t \<in> set (g_slots (this_group b w)) \<and> ms_guid t \<noteq> ?p" for b t
  proof (cases "b = a")
    case True
    have "distinct (g_slots ?g)" using ok by (simp add: group_ok_def distinct_map)
    then show ?thesis using slot_unique [OF ok _ s] True by (auto simp: this')
  next
    case False
    have "ms_guid t \<noteq> ?p" if "t \<in> set (g_slots (this_group b w))"
      using that False base_links(2) [OF base mem, of b] unfolding member_def by (metis image_eqI)
    with False show ?thesis by (auto simp: this')
  qed
  have mem': "member b q w' \<longleftrightarrow> member b q w \<and> q \<noteq> ?p" for b q
  proof
    assume "member b q w'"
    then obtain t where "t \<in> set (g_slots (this_group b w'))" "ms_guid t = q" by (auto simp: member_def)
    then show "member b q w \<and> q \<noteq> ?p" using slots' by (auto simp: member_def)
  next
    assume "member b q w \<and> q \<noteq> ?p"
    then obtain t where "t \<in> set (g_slots (this_group b w))" "ms_guid t = q" "q \<noteq> ?p" by (auto simp: member_def)
    then show "member b q w'" using slots' by (auto simp: member_def)
  qed
  have "group_ok (this_group b w')" for b
    using base_group [OF base] group_ok_without [OF ok s] by (simp add: this')
  moreover have "players_ok w'"
    using l base_online [OF base] unfolding left_def players_ok_def by metis
  moreover have "links_ok w'"
  proof -
    have "GetGroup q w' = Some b \<longleftrightarrow> online q w' \<and> member b q w'" for q b
      using base_links(1) [OF base, of q b] l by (simp add: left_def mem')
    moreover have "ref_subgroup MainRef (ms_guid t) w' = ms_group t"
      if "t \<in> set (g_slots (this_group b w'))" "online (ms_guid t) w'" for t b
      using that l slots' [of t b] base_subs [OF base, of t b] by (simp add: left_def)
    moreover have "distinct (g_refs (this_group b w'))" for b
      using base_refs(1) [OF base] by (simp add: this')
    moreover have "(q, k) \<in> set (g_refs (this_group b w')) \<longleftrightarrow> k = MainRef \<and> GetGroup q w' = Some b" for q k b
    proof (cases "b = a")
      case True
      then show ?thesis using l base_refs(1) [OF base, of a] base_refs(2) [OF base, of q k a]
        by (auto simp: this' left_def)
    next
      case False
      then have "GetGroup ?p w \<noteq> Some b" using base_links [OF base] mem by blast
      with False show ?thesis using l base_refs(2) [OF base, of q k b] by (auto simp: this' left_def)
    qed
    moreover have "b = c" if "member b q w'" "member c q w'" for b c q
      using that base_links(2) [OF base] by (auto simp: mem')
    ultimately show ?thesis by (simp add: links_ok_def)
  qed
  moreover have "invites_ok w'"
  proof -
    have "invite_of q w' = Some b \<longleftrightarrow> q \<in> set (g_invitees (this_group b w'))" for q b
      using l base_invites(1) [OF base, of q b] by (simp add: this' left_def)
    moreover have "GetGroup q w' = None" if "invite_of q w' \<noteq> None" for q
      using that l base_invites(2) [OF base, of q] by (simp add: left_def)
    ultimately show ?thesis by (simp add: invites_ok_def)
  qed
  moreover have "tables_ok w'"
  proof -
    have mr: "mrow (this_group b w') t = mrow (this_group b w) t" for b t
      by (simp add: mrow_def this')
    have "r \<in> set (gw_members w') \<longleftrightarrow> (\<exists>b. \<exists>t \<in> set (g_slots (this_group b w')). r = mrow (this_group b w') t)" for r
    proof
      assume "r \<in> set (gw_members w')"
      then have r: "r \<in> set (gw_members w)" "mr_memberGuid r \<noteq> GetCounter ?p" using l by (auto simp: left_def)
      then obtain b t where "t \<in> set (g_slots (this_group b w))" "r = mrow (this_group b w) t"
        using base_tables(1) [OF base] by blast
      with r(2) show "\<exists>b. \<exists>t \<in> set (g_slots (this_group b w')). r = mrow (this_group b w') t"
        unfolding mr using slots' by (metis mrow_def member_row.select_convs(2))
    next
      assume "\<exists>b. \<exists>t \<in> set (g_slots (this_group b w')). r = mrow (this_group b w') t"
      then obtain b t where t': "t \<in> set (g_slots (this_group b w'))" and r: "r = mrow (this_group b w) t"
        unfolding mr by blast
      then have t: "t \<in> set (g_slots (this_group b w))" "ms_guid t \<noteq> ?p" "r = mrow (this_group b w) t"
        using slots' by simp_all
      then have "r \<in> set (gw_members w)" using base_tables(1) [OF base] by blast
      moreover have "mr_memberGuid r \<noteq> GetCounter ?p"
        using t counter_inj [OF base_slot_guid [OF base t(1)] base_slot_guid [OF base s]] by (simp add: mrow_def)
      ultimately show "r \<in> set (gw_members w')" using l by (simp add: left_def)
    qed
    moreover have ne: "g_slots (this_group b w) \<noteq> []" if "g_slots (this_group b w') \<noteq> []" for b
      using that slots' [of "hd (g_slots (this_group b w'))" b] by (metis hd_in_set list.set(1) empty_iff)
    moreover have id': "g_Id (this_group b w') = g_Id (this_group b w)" for b
      by (simp add: this')
    moreover have "b = c" if "g_slots (this_group b w') \<noteq> []" "g_slots (this_group c w') \<noteq> []"
      "g_Id (this_group b w') = g_Id (this_group c w')" for b c
      using base_tables(2) [OF base ne ne] that id' by metis
    moreover have "g_Id (this_group b w') < gw_nextId w'" if "g_slots (this_group b w') \<noteq> []" for b
      using base_tables(3) [OF base ne [OF that]] l id' by (simp add: left_def)
    ultimately show ?thesis unfolding tables_ok_def by blast
  qed
  moreover have "rolls_ok w'"
    by (rule rolls_ok_from [OF base]) (use l in \<open>auto simp: this' left_def split: if_splits\<close>)
  ultimately show ?thesis
    using base_rest [OF base] l by (simp add: grp_base_def left_def)
qed

end
