(* ===== verification/GroupMoves.thy ===== *)
theory GroupMoves
  imports GroupSteps
begin

text \<open>
  The remaining moves of the state: taking invitations back, ending a group, choosing a leader,
  and the subgroups. As in \<^verbatim>\<open>GroupSteps\<close>, the effect on the views comes first.
\<close>

section \<open>Updates and the relation same\<close>

lemma same_upd_group [intro]: "same w w' \<Longrightarrow> same (upd_group a f w) (upd_group a f w')"
  by (simp add: same_def)

lemma same_sql [intro]:
  "same w w' \<Longrightarrow> same (sql_update_group i g w) (sql_update_group i g w')"
  "same w w' \<Longrightarrow> same (sql_delete_group i w) (sql_delete_group i w')"
  "same w w' \<Longrightarrow> same (sql_delete_member l w) (sql_delete_member l w')"
  "same w w' \<Longrightarrow> same (sql_update_member l h w) (sql_update_member l h w')"
  by (simp_all add: same_def)

lemma same_SetGroupInvite [intro]: "same w w' \<Longrightarrow> same (SetGroupInvite x p w) (SetGroupInvite x p w')"
  by (simp add: same_def)

lemma same_unlink [intro]: "same w w' \<Longrightarrow> same (unlink_ref MainRef p w) (unlink_ref MainRef p w')"
  by (simp add: same_def this_unlink target_views)

lemma same_sym: "same w w' \<Longrightarrow> same w' w"
  by (simp add: same_def)

lemma base_sql_update_group [simp]: "grp_base (sql_update_group i f w) = grp_base w"
  by (simp add: grp_base_def base_defs member_def loot_items_def)

section \<open>Invitations\<close>

lemma RemoveInvite_eq:
  assumes "grp_base w"
  shows "RemoveInvite a p w =
     (if p \<in> set (g_invitees (this_group a w))
      then SetGroupInvite None p (upd_group a (\<lambda>g. g\<lparr>g_invitees := removeAll p (g_invitees g)\<rparr>) w) else w)"
proof -
  have "\<exists>pl. gw_players w p = Some pl \<and> gp_invite pl = Some a" if "p \<in> set (g_invitees (this_group a w))"
    using that base_invites(1) [OF assms, of p a] by (auto simp: invite_of_def split: option.splits)
  then show ?thesis by (auto simp: RemoveInvite_def)
qed

text \<open>One invitation less.\<close>

definition uninvited :: "gaddr \<Rightarrow> object_guid \<Rightarrow> grp_world \<Rightarrow> grp_world \<Rightarrow> bool" where
  "uninvited a p w w' \<longleftrightarrow>
     (\<forall>b. this_group b w' = (if b = a then (this_group a w)\<lparr>g_invitees := removeAll p (g_invitees (this_group a w))\<rparr>
                             else this_group b w)) \<and>
     (\<forall>b. alive b w' = alive b w) \<and> (\<forall>q. online q w' = online q w) \<and> (\<forall>q. inWorld q w' = inWorld q w) \<and>
     (\<forall>q. invite_of q w' = (if q = p then None else invite_of q w)) \<and>
     (\<forall>q. GetOriginalGroup q w' = GetOriginalGroup q w) \<and> (\<forall>q. GetGroup q w' = GetGroup q w) \<and>
     (\<forall>q. ref_subgroup MainRef q w' = ref_subgroup MainRef q w) \<and>
     gw_fresh w' = gw_fresh w \<and> gw_groupMap w' = gw_groupMap w \<and> gw_nextId w' = gw_nextId w \<and>
     gw_rows w' = gw_rows w \<and> gw_loots w' = gw_loots w \<and> gw_fault w' = gw_fault w \<and> gw_members w' = gw_members w"

lemma invite_online: "invite_of p w = Some a \<Longrightarrow> online p w"
  by (auto simp: invite_of_def online_def split: option.splits)

lemma invitee_alive: "p \<in> set (g_invitees (this_group a w)) \<Longrightarrow> alive a w"
  by (auto simp: this_group_def alive_def Group_new_def split: option.splits)

lemma RemoveInvite_uninvited:
  assumes "grp_base w" and "invite_of p w = Some a"
  shows "uninvited a p w (RemoveInvite a p w)"
proof -
  have p: "p \<in> set (g_invitees (this_group a w))" using assms base_invites(1) by blast
  with assms show ?thesis
    using invite_online [OF assms(2)] invitee_alive [OF p]
    by (simp add: RemoveInvite_eq uninvited_def)
qed

lemma base_uninvited:
  assumes base: "grp_base w" and u: "uninvited a p w w'" and i: "invite_of p w = Some a"
  shows "grp_base w'"
proof -
  let ?h = "\<lambda>b. if b = a then removeAll p (g_invitees (this_group a w)) else g_invitees (this_group b w)"
  have this': "this_group b w' = (this_group b w)\<lparr>g_invitees := ?h b\<rparr>" for b
    using u by (simp add: uninvited_def)
  have mem: "member b q w' = member b q w" for b q by (simp add: member_def this')
  have mr: "mrow (this_group b w') t = mrow (this_group b w) t" for b t by (simp add: mrow_def this')
  have "group_ok (this_group b w')" for b
  proof -
    have "distinct (?h b)" using base_group [OF base] by (simp add: group_ok_def distinct_removeAll)
    then show ?thesis unfolding this' by (rule group_ok_invitees [OF base_group [OF base]])
  qed
  moreover have "players_ok w'" using u base_online [OF base] unfolding uninvited_def players_ok_def by metis
  moreover have "links_ok w'"
    using base u unfolding grp_base_def links_ok_def mem by (simp add: this' uninvited_def)
  moreover have "invites_ok w'"
  proof -
    have "invite_of q w' = Some b \<longleftrightarrow> q \<in> set (g_invitees (this_group b w'))" for q b
      using u i base_invites(1) [OF base, of q b] by (auto simp: this' uninvited_def)
    moreover have "GetGroup q w' = None" if "invite_of q w' \<noteq> None" for q
      using that u base_invites(2) [OF base, of q] by (auto simp: uninvited_def split: if_splits)
    ultimately show ?thesis by (simp add: invites_ok_def)
  qed
  moreover have "tables_ok w'"
    using base u unfolding grp_base_def tables_ok_def mr by (simp add: this' uninvited_def)
  moreover have "rolls_ok w'"
    by (rule rolls_ok_from [OF base]) (use u in \<open>auto simp: this' uninvited_def\<close>)
  ultimately show ?thesis using base_rest [OF base] u by (simp add: grp_base_def uninvited_def)
qed

lemma fold_uninvite:
  assumes "distinct ps" and "\<forall>q \<in> set ps. invite_of q w = Some a"
  shows "fold (\<lambda>p w. SetGroupInvite None p
           (case gw_players w p of None \<Rightarrow> fault w | Some pl \<Rightarrow> if gp_invite pl = Some a then w else fault w)) ps w =
         fold (SetGroupInvite None) ps w"
  using assms
proof (induction ps arbitrary: w)
  case (Cons p ps)
  have "\<exists>pl. gw_players w p = Some pl \<and> gp_invite pl = Some a"
    using Cons.prems(2) by (auto simp: invite_of_def split: option.splits)
  then have "(case gw_players w p of None \<Rightarrow> fault w | Some pl \<Rightarrow> if gp_invite pl = Some a then w else fault w) = w"
    by auto
  moreover have "\<forall>q \<in> set ps. invite_of q (SetGroupInvite None p w) = Some a"
    using Cons.prems by auto
  ultimately show ?case using Cons by simp
qed simp

lemma fold_uninvite_views:
  assumes "\<forall>q \<in> set ps. online q w"
  shows "invite_of q (fold (SetGroupInvite None) ps w) = (if q \<in> set ps then None else invite_of q w)"
    "gw_groups (fold (SetGroupInvite None) ps w) = gw_groups w" "gw_fresh (fold (SetGroupInvite None) ps w) = gw_fresh w"
    "gw_groupMap (fold (SetGroupInvite None) ps w) = gw_groupMap w" "gw_nextId (fold (SetGroupInvite None) ps w) = gw_nextId w"
    "gw_rows (fold (SetGroupInvite None) ps w) = gw_rows w" "gw_members (fold (SetGroupInvite None) ps w) = gw_members w"
    "gw_loots (fold (SetGroupInvite None) ps w) = gw_loots w" "gw_fault (fold (SetGroupInvite None) ps w) = gw_fault w"
    "this_group b (fold (SetGroupInvite None) ps w) = this_group b w" "alive b (fold (SetGroupInvite None) ps w) = alive b w"
    "online q (fold (SetGroupInvite None) ps w) = online q w" "inWorld q (fold (SetGroupInvite None) ps w) = inWorld q w"
    "GetGroup q (fold (SetGroupInvite None) ps w) = GetGroup q w"
    "GetOriginalGroup q (fold (SetGroupInvite None) ps w) = GetOriginalGroup q w"
    "ref_subgroup k q (fold (SetGroupInvite None) ps w) = ref_subgroup k q w"
    "ref_target k q (fold (SetGroupInvite None) ps w) = ref_target k q w"
  using assms by (induction ps arbitrary: w) auto

lemma RemoveAllInvites_eq:
  assumes "distinct (g_invitees (this_group a w))" and "\<forall>q \<in> set (g_invitees (this_group a w)). invite_of q w = Some a"
  shows "RemoveAllInvites a w =
     upd_group a (\<lambda>g. g\<lparr>g_invitees := []\<rparr>) (fold (SetGroupInvite None) (g_invitees (this_group a w)) w)"
  unfolding RemoveAllInvites_def fold_uninvite [OF assms] ..

section \<open>The end of a group\<close>

text \<open>Taking leave of the members one by one unlinks the players who are online.\<close>

lemma disband_one_same:
  assumes "\<not> g_bg (this_group a w)" and "GetOriginalGroup p w = None" and "online p w \<longrightarrow> inWorld p w" and "p \<noteq> 0"
  shows "same (unlink_ref MainRef p w) (disband_one a hide p w)"
proof (cases "online p w")
  case True
  then obtain pl where pl: "FindPlayer w p = Some pl" using assms FindPlayer_iff [of w p] by blast
  have "leave_link a p w = unlink_ref MainRef p w"
    using assms by (simp add: leave_link_def SetGroupRef_def)
  then show ?thesis
    using pl by (auto simp: disband_one_def Let_def intro: same_trans [OF same_gsend same_tell_left])
next
  case False
  then have "FindPlayer w p = None" using FindPlayer_iff [of w p] inWorld_online by blast
  moreover have "unlink_ref MainRef p w = w"
    using False by (auto simp: unlink_ref_def ref_target_def online_def)
  ultimately show ?thesis by (simp add: disband_one_def)
qed

lemma fold_disband_same:
  assumes "\<not> g_bg (this_group a w)" and "\<forall>s \<in> set ss. GetOriginalGroup (ms_guid s) w = None"
    and "\<forall>s \<in> set ss. online (ms_guid s) w \<longrightarrow> inWorld (ms_guid s) w" and "\<forall>s \<in> set ss. ms_guid s \<noteq> 0"
  shows "same (fold (\<lambda>s. unlink_ref MainRef (ms_guid s)) ss w) (fold (\<lambda>s. disband_one a hide (ms_guid s)) ss w)"
  using assms
proof (induction ss arbitrary: w)
  case (Cons s ss)
  let ?u = "unlink_ref MainRef (ms_guid s) w" and ?d = "disband_one a hide (ms_guid s) w"
  have sm: "same ?u ?d" using Cons.prems by (intro disband_one_same) simp_all
  have fold_same: "same (fold (\<lambda>s. unlink_ref MainRef (ms_guid s)) xs u) (fold (\<lambda>s. unlink_ref MainRef (ms_guid s)) xs v)"
    if "same u v" for xs u v
    using that by (induction xs arbitrary: u v) (simp_all add: same_unlink)
  have "\<not> g_bg (this_group a ?d)" "\<forall>s \<in> set ss. GetOriginalGroup (ms_guid s) ?d = None"
    "\<forall>s \<in> set ss. online (ms_guid s) ?d \<longrightarrow> inWorld (ms_guid s) ?d"
    using Cons.prems sm by (auto simp: same_def this_unlink target_views)
  then have "same (fold (\<lambda>s. unlink_ref MainRef (ms_guid s)) ss ?d) (fold (\<lambda>s. disband_one a hide (ms_guid s)) ss ?d)"
    using Cons.prems by (intro Cons.IH) simp_all
  with fold_same [OF sm, of ss] show ?case by (auto intro: same_trans)
qed simp

lemma fold_unlink_views:
  "GetGroup q (fold (\<lambda>s. unlink_ref MainRef (ms_guid s)) ss w) = (if q \<in> ms_guid ` set ss then None else GetGroup q w)"
  "GetOriginalGroup q (fold (\<lambda>s. unlink_ref MainRef (ms_guid s)) ss w) = GetOriginalGroup q w"
  "ref_subgroup k q (fold (\<lambda>s. unlink_ref MainRef (ms_guid s)) ss w) = ref_subgroup k q w"
  "gw_fresh (fold (\<lambda>s. unlink_ref MainRef (ms_guid s)) ss w) = gw_fresh w"
  "gw_groupMap (fold (\<lambda>s. unlink_ref MainRef (ms_guid s)) ss w) = gw_groupMap w"
  "gw_nextId (fold (\<lambda>s. unlink_ref MainRef (ms_guid s)) ss w) = gw_nextId w"
  "gw_rows (fold (\<lambda>s. unlink_ref MainRef (ms_guid s)) ss w) = gw_rows w"
  "gw_members (fold (\<lambda>s. unlink_ref MainRef (ms_guid s)) ss w) = gw_members w"
  "gw_loots (fold (\<lambda>s. unlink_ref MainRef (ms_guid s)) ss w) = gw_loots w"
  "gw_fault (fold (\<lambda>s. unlink_ref MainRef (ms_guid s)) ss w) = gw_fault w"
  "alive b (fold (\<lambda>s. unlink_ref MainRef (ms_guid s)) ss w) = alive b w"
  "online q (fold (\<lambda>s. unlink_ref MainRef (ms_guid s)) ss w) = online q w"
  "inWorld q (fold (\<lambda>s. unlink_ref MainRef (ms_guid s)) ss w) = inWorld q w"
  "invite_of q (fold (\<lambda>s. unlink_ref MainRef (ms_guid s)) ss w) = invite_of q w"
  by (induction ss arbitrary: w) (auto simp: target_views)

text \<open>The references of the group that is left, and of the others.\<close>

lemma this_fold_unlink_other:
  assumes "\<forall>s \<in> set ss. GetGroup (ms_guid s) w \<noteq> Some b"
  shows "this_group b (fold (\<lambda>s. unlink_ref MainRef (ms_guid s)) ss w) = this_group b w"
  using assms
proof (induction ss arbitrary: w)
  case (Cons s ss)
  then have "\<forall>t \<in> set ss. GetGroup (ms_guid t) (unlink_ref MainRef (ms_guid s) w) \<noteq> Some b"
    by (simp add: target_views)
  then show ?case using Cons by (simp add: this_unlink target_views)
qed simp

lemma this_fold_unlink:
  assumes "distinct (g_refs (this_group a w))"
    and "\<forall>q k. (q, k) \<in> set (g_refs (this_group a w)) \<longleftrightarrow> k = MainRef \<and> GetGroup q w = Some a"
    and "\<forall>q. GetGroup q w = Some a \<longrightarrow> q \<in> ms_guid ` set ss"
  shows "this_group a (fold (\<lambda>s. unlink_ref MainRef (ms_guid s)) ss w) = (this_group a w)\<lparr>g_refs := []\<rparr>"
  using assms
proof (induction ss arbitrary: w)
  case Nil
  then have "g_refs (this_group a w) = []" by (cases "g_refs (this_group a w)") auto
  then show ?case by simp
next
  case (Cons s ss)
  let ?u = "unlink_ref MainRef (ms_guid s) w" and ?g = "this_group a w"
  have al: "alive a w" if "GetGroup q w = Some a" for q
  proof (rule ccontr)
    assume "\<not> alive a w"
    then have "g_refs ?g = []" by (simp add: not_alive_this Group_new_def)
    with that Cons.prems(2) show False by simp
  qed
  have g: "this_group a ?u = ?g\<lparr>g_refs := remove1 (ms_guid s, MainRef) (g_refs ?g)\<rparr>"
  proof (cases "GetGroup (ms_guid s) w = Some a")
    case True
    with al show ?thesis by (simp add: this_unlink target_views)
  next
    case False
    then have "(ms_guid s, MainRef) \<notin> set (g_refs ?g)" using Cons.prems(2) by simp
    with False show ?thesis by (simp add: this_unlink target_views remove1_idem)
  qed
  have "this_group a (fold (\<lambda>s. unlink_ref MainRef (ms_guid s)) ss ?u) = (this_group a ?u)\<lparr>g_refs := []\<rparr>"
  proof (rule Cons.IH)
    show "distinct (g_refs (this_group a ?u))" using Cons.prems(1) by (simp add: g)
    show "\<forall>q k. (q, k) \<in> set (g_refs (this_group a ?u)) \<longleftrightarrow> k = MainRef \<and> GetGroup q ?u = Some a"
      using Cons.prems(1,2) by (auto simp: g target_views)
    show "\<forall>q. GetGroup q ?u = Some a \<longrightarrow> q \<in> ms_guid ` set ss"
      using Cons.prems(3) by (auto simp: target_views split: if_splits)
  qed
  then show ?case by (simp add: g)
qed

text \<open>A group is gone: its members, its invitations, and its rows when it was created.\<close>

definition ended :: "gaddr \<Rightarrow> grp_world \<Rightarrow> grp_world \<Rightarrow> bool" where
  "ended a w w' \<longleftrightarrow>
     (let i = g_Id (this_group a w); created = (g_slots (this_group a w) \<noteq> [])
      in (\<forall>b. this_group b w' = (if b = a then Group_new else this_group b w)) \<and>
         (\<forall>b. alive b w' \<longleftrightarrow> b \<noteq> a \<and> alive b w) \<and> (\<forall>q. online q w' = online q w) \<and>
         (\<forall>q. inWorld q w' = inWorld q w) \<and>
         (\<forall>q. invite_of q w' = (if invite_of q w = Some a then None else invite_of q w)) \<and>
         (\<forall>q. GetOriginalGroup q w' = GetOriginalGroup q w) \<and>
         (\<forall>q. GetGroup q w' = (if GetGroup q w = Some a then None else GetGroup q w)) \<and>
         (\<forall>q. ref_subgroup MainRef q w' = ref_subgroup MainRef q w) \<and>
         gw_fresh w' = gw_fresh w \<and> gw_nextId w' = gw_nextId w \<and> gw_loots w' = gw_loots w \<and>
         gw_fault w' = gw_fault w \<and>
         gw_groupMap w' = (if created then (gw_groupMap w)(i := None) else gw_groupMap w) \<and>
         gw_rows w' = (if created then (gw_rows w)(i := None) else gw_rows w) \<and>
         gw_members w' = (if created then filter (\<lambda>r. mr_groupId r \<noteq> i) (gw_members w) else gw_members w))"

lemma delete_plain:
  assumes "g_invitees (this_group a w) = []" and "g_refs (this_group a w) = []"
  shows "same (w\<lparr>gw_groups := (gw_groups w)(a := None)\<rparr>) (delete_group a w)"
proof -
  have "RemoveAllInvites a w = upd_group a (\<lambda>g. g) w"
    unfolding RemoveAllInvites_def assms(1) fold_simps
    by (rule upd_group_cong) (use assms(1) in \<open>simp add: this_group_def\<close>)
  then have "RemoveAllInvites a w = w" by (simp add: upd_group_id)
  then show ?thesis using assms by (simp add: delete_group_def invalidate_refs_def)
qed

lemma views_groups_None [simp]:
  "this_group b (w\<lparr>gw_groups := (gw_groups w)(a := None)\<rparr>) = (if b = a then Group_new else this_group b w)"
  "alive b (w\<lparr>gw_groups := (gw_groups w)(a := None)\<rparr>) \<longleftrightarrow> b \<noteq> a \<and> alive b w"
  "online q (w\<lparr>gw_groups := x\<rparr>) = online q w" "inWorld q (w\<lparr>gw_groups := x\<rparr>) = inWorld q w"
  "invite_of q (w\<lparr>gw_groups := x\<rparr>) = invite_of q w" "GetGroup q (w\<lparr>gw_groups := x\<rparr>) = GetGroup q w"
  "GetOriginalGroup q (w\<lparr>gw_groups := x\<rparr>) = GetOriginalGroup q w"
  "ref_subgroup k q (w\<lparr>gw_groups := x\<rparr>) = ref_subgroup k q w"
  by (simp_all add: view_defs)

lemma forming_ended:
  assumes base: "grp_base w" and no: "g_slots (this_group a w) = []"
  shows "ended a w (delete_group a (RemoveAllInvites a w))"
proof -
  let ?g = "this_group a w"
  have inv: "distinct (g_invitees ?g)" "\<forall>q \<in> set (g_invitees ?g). invite_of q w = Some a"
    using base_group [OF base, of a] base_invites(1) [OF base] by (auto simp: group_ok_def)
  have "\<not> member a q w" for q using no by (simp add: member_def)
  then have links: "GetGroup q w \<noteq> Some a" for q using base_links(1) [OF base] by blast
  have refs: "g_refs ?g = []"
  proof (cases "g_refs ?g")
    case (Cons x xs)
    obtain q k where "x = (q, k)" by (cases x)
    with Cons have "(q, k) \<in> set (g_refs ?g)" by simp
    then have "GetGroup q w = Some a" using base_refs(2) [OF base] by blast
    with links show ?thesis by blast
  qed simp
  define v where "v = RemoveAllInvites a w"
  have on: "\<forall>q \<in> set (g_invitees ?g). online q w" using inv(2) invite_online by blast
  have v: "v = upd_group a (\<lambda>g. g\<lparr>g_invitees := []\<rparr>) (fold (SetGroupInvite None) (g_invitees ?g) w)"
    unfolding v_def by (rule RemoveAllInvites_eq [OF inv])
  have this_v: "this_group b v = (if b = a then ?g\<lparr>g_invitees := []\<rparr> else this_group b w)" for b
    using not_alive_this [of a w] by (auto simp: v fold_uninvite_views [OF on] Group_new_def)
  have inv_v: "invite_of q v = (if invite_of q w = Some a then None else invite_of q w)" for q
    using base_invites(1) [OF base, of q a] by (simp add: v fold_uninvite_views [OF on])
  have "same (v\<lparr>gw_groups := (gw_groups v)(a := None)\<rparr>) (delete_group a v)"
    by (rule delete_plain) (simp_all add: this_v refs)
  moreover have "ended a w (v\<lparr>gw_groups := (gw_groups v)(a := None)\<rparr>)"
    using no links by (simp add: ended_def Let_def this_v inv_v) (simp add: v fold_uninvite_views [OF on])
  ultimately show ?thesis unfolding v_def [symmetric] by (simp add: ended_def same_def)
qed

lemma created_ended:
  assumes base: "grp_base w" and ne: "g_slots (this_group a w) \<noteq> []"
  shows "ended a w (delete_group a (RemoveGroup a (Disband a hide w)))"
    and "g_slots (this_group a (Disband a hide w)) = []"
proof -
  let ?g = "this_group a w"
  have al: "alive a w" using ne by (rule slots_alive)
  have ok: "group_ok ?g" using base by (rule base_group)
  have nobg: "\<not> g_bg ?g" using ok by (simp add: group_ok_def)
  have inv: "distinct (g_invitees ?g)" "\<forall>q \<in> set (g_invitees ?g). invite_of q w = Some a"
    using ok base_invites(1) [OF base] by (auto simp: group_ok_def)
  have on: "\<forall>q \<in> set (g_invitees ?g). online q w" using inv(2) invite_online by blast
  have links: "GetGroup q w = Some a \<longleftrightarrow> online q w \<and> q \<in> ms_guid ` set (g_slots ?g)" for q
    using base_links(1) [OF base] by (simp add: member_def)
  define u where "u = fold (\<lambda>s. unlink_ref MainRef (ms_guid s)) (g_slots ?g) w"
  define w1 where "w1 = fold (\<lambda>s. disband_one a hide (ms_guid s)) (g_slots ?g) w"
  have orig: "GetOriginalGroup (ms_guid s) w = None" if "s \<in> set (g_slots ?g)" for s
    using base_online(3) [OF base, of "ms_guid s"]
    by (cases "online (ms_guid s) w") (auto simp: GetOriginalGroup_def ref_target_def online_def)
  have sm: "same u w1"
    unfolding u_def w1_def
    using nobg orig base_online(2) [OF base] base_slot_guid [OF base]
    by (intro fold_disband_same) (auto simp: player_guid_def)
  have this_u: "this_group b u = (if b = a then ?g\<lparr>g_refs := []\<rparr> else this_group b w)" for b
  proof (cases "b = a")
    case True
    then show ?thesis
      unfolding u_def using base_refs(2) [OF base, of _ _ a] base_refs(1) [OF base] links
      by (subst this_fold_unlink) auto
  next
    case False
    have "\<forall>s \<in> set (g_slots ?g). GetGroup (ms_guid s) w \<noteq> Some b"
    proof
      fix s assume "s \<in> set (g_slots ?g)"
      then have "member a (ms_guid s) w" by (simp add: member_def)
      then show "GetGroup (ms_guid s) w \<noteq> Some b" using False base_links [OF base] by blast
    qed
    then show ?thesis using False unfolding u_def by (simp add: this_fold_unlink_other)
  qed
  define v where "v = upd_group a (\<lambda>g. g\<lparr>g_rolls := [], g_slots := []\<rparr>) w1"
  have v: "this_group b v = (if b = a then ?g\<lparr>g_refs := [], g_rolls := [], g_slots := []\<rparr> else this_group b w)" for b
    using sm al by (simp add: v_def same_def this_u) (simp add: u_def fold_unlink_views)
  have inv_w1: "invite_of q v = invite_of q w" "online q v = online q w" for q
    using sm by (simp_all add: v_def same_def) (simp_all add: u_def fold_unlink_views)
  define w2 where "w2 = RemoveAllInvites a v"
  have on_v: "\<forall>q \<in> set (g_invitees ?g). online q v" using on by (simp add: inv_w1)
  have "RemoveAllInvites a v =
      upd_group a (\<lambda>g. g\<lparr>g_invitees := []\<rparr>) (fold (SetGroupInvite None) (g_invitees (this_group a v)) v)"
    by (rule RemoveAllInvites_eq) (use inv in \<open>simp_all add: v inv_w1\<close>)
  then have w2: "w2 = upd_group a (\<lambda>g. g\<lparr>g_invitees := []\<rparr>) (fold (SetGroupInvite None) (g_invitees ?g) v)"
    by (simp add: w2_def v)
  have al_v: "alive b v = alive b w" for b
    using sm by (simp add: v_def same_def) (simp add: u_def fold_unlink_views)
  have this2: "this_group b w2 = (if b = a then ?g\<lparr>g_refs := [], g_rolls := [], g_slots := [], g_invitees := []\<rparr>
      else this_group b w)" for b
    using al by (simp add: w2 fold_uninvite_views [OF on_v] v al_v)
  define w3 where "w3 = updateLeaderFlag a True (sql_delete_group (g_Id ?g) w2)"
  have s3: "same (sql_delete_group (g_Id ?g) w2) w3" by (simp add: w3_def)
  define w4 where "w4 = upd_group a (\<lambda>g. g\<lparr>g_leaderGuid := 0, g_leaderName := []\<rparr>) w3"
  have D: "Disband a hide w = w4"
    unfolding Disband_def w1_def [symmetric] Let_def v_def [symmetric] w2_def [symmetric] w4_def w3_def
    using nobg by (simp add: this2)
  have this4: "this_group b w4 = (if b = a then ?g\<lparr>g_refs := [], g_rolls := [], g_slots := [], g_invitees := [], g_leaderGuid := 0, g_leaderName := []\<rparr>
      else this_group b w)" for b
    using s3 al by (simp add: w4_def same_def this2) (simp add: w2 fold_uninvite_views [OF on_v] al_v)
  show "g_slots (this_group a (Disband a hide w)) = []" by (simp add: D this4)
  define w5 where "w5 = RemoveGroup a w4"
  have w5: "w5 = w4\<lparr>gw_groupMap := (gw_groupMap w4)(g_Id ?g := None)\<rparr>"
    by (simp add: w5_def RemoveGroup_def this4)
  have this5: "this_group b w5 = this_group b w4" for b by (simp add: w5)
  have "same (w5\<lparr>gw_groups := (gw_groups w5)(a := None)\<rparr>) (delete_group a w5)"
    by (rule delete_plain) (simp_all add: this5 this4)
  moreover have "ended a w (w5\<lparr>gw_groups := (gw_groups w5)(a := None)\<rparr>)"
  proof -
    have i: "invite_of q w2 = (if invite_of q w = Some a then None else invite_of q w)" for q
      using base_invites(1) [OF base, of q a] by (simp add: w2 fold_uninvite_views [OF on_v] v inv_w1)
    have g: "GetGroup q u = (if GetGroup q w = Some a then None else GetGroup q w)" for q
    proof (cases "q \<in> ms_guid ` set (g_slots ?g)")
      case True
      then have "GetGroup q w = Some a \<or> GetGroup q w = None"
        using links by (cases "online q w") (auto simp: GetGroup_def ref_target_def online_def)
      with True show ?thesis by (auto simp: u_def fold_unlink_views)
    next
      case False
      then show ?thesis using links by (simp add: u_def fold_unlink_views)
    qed
    have rest: "gw_fresh w2 = gw_fresh w" "gw_nextId w2 = gw_nextId w" "gw_loots w2 = gw_loots w" "gw_fault w2 = gw_fault w"
      "gw_groupMap w2 = gw_groupMap w" "gw_rows w2 = gw_rows w" "gw_members w2 = gw_members w"
      "online q w2 = online q w" "inWorld q w2 = inWorld q w" "GetOriginalGroup q w2 = GetOriginalGroup q w"
      "GetGroup q w2 = GetGroup q u" "ref_subgroup MainRef q w2 = ref_subgroup MainRef q w" "alive b w2 = alive b w" for q b
      using sm by (simp_all add: w2 fold_uninvite_views [OF on_v] al_v) (simp_all add: v_def same_def, simp_all add: u_def fold_unlink_views)
    show ?thesis
      unfolding ended_def Let_def
      using s3 ne by (simp add: this5 this4) (simp add: w5 w4_def same_def i g rest)
  qed
  ultimately show "ended a w (delete_group a (RemoveGroup a (Disband a hide w)))"
    unfolding D w5_def [symmetric] by (simp add: ended_def same_def)
qed

lemma base_ended:
  assumes base: "grp_base w" and e: "ended a w w'"
  shows "grp_base w'"
proof -
  let ?g = "this_group a w"
  have this': "this_group b w' = (if b = a then Group_new else this_group b w)" for b
    using e by (simp add: ended_def Let_def)
  have slots': "g_slots (this_group b w') = (if b = a then [] else g_slots (this_group b w))" for b
    by (simp add: this' Group_new_def)
  have mem': "member b q w' \<longleftrightarrow> b \<noteq> a \<and> member b q w" for b q
    by (simp add: member_def slots')
  have get': "GetGroup q w' = (if GetGroup q w = Some a then None else GetGroup q w)" for q
    using e by (simp add: ended_def Let_def)
  have inv': "invite_of q w' = (if invite_of q w = Some a then None else invite_of q w)" for q
    using e by (simp add: ended_def Let_def)
  have onl: "online q w' = online q w" "inWorld q w' = inWorld q w" "GetOriginalGroup q w' = GetOriginalGroup q w"
    "ref_subgroup MainRef q w' = ref_subgroup MainRef q w" for q
    using e by (simp_all add: ended_def Let_def)
  have "group_ok (this_group b w')" for b using base_group [OF base] by (simp add: this')
  moreover have "players_ok w'" using base_online [OF base] by (simp add: players_ok_def onl)
  moreover have "links_ok w'"
  proof -
    have "GetGroup q w' = Some b \<longleftrightarrow> online q w' \<and> member b q w'" for q b
      using base_links(1) [OF base, of q b] by (auto simp: get' mem' onl)
    moreover have "ref_subgroup MainRef (ms_guid t) w' = ms_group t"
      if "t \<in> set (g_slots (this_group b w'))" "online (ms_guid t) w'" for t b
      using that base_subs [OF base, of t b] by (simp add: slots' onl split: if_splits)
    moreover have "distinct (g_refs (this_group b w'))" for b
      using base_refs(1) [OF base] by (simp add: this' Group_new_def)
    moreover have "(q, k) \<in> set (g_refs (this_group b w')) \<longleftrightarrow> k = MainRef \<and> GetGroup q w' = Some b" for q k b
      using base_refs(2) [OF base, of q k b] by (auto simp: this' get' Group_new_def)
    moreover have "b = c" if "member b q w'" "member c q w'" for b c q
      using that base_links(2) [OF base] by (auto simp: mem')
    ultimately show ?thesis by (simp add: links_ok_def)
  qed
  moreover have "invites_ok w'"
  proof -
    have "invite_of q w' = Some b \<longleftrightarrow> q \<in> set (g_invitees (this_group b w'))" for q b
      using base_invites(1) [OF base, of q b] by (auto simp: this' inv' Group_new_def)
    moreover have "GetGroup q w' = None" if "invite_of q w' \<noteq> None" for q
      using that base_invites(2) [OF base, of q] by (auto simp: inv' get' split: if_splits)
    ultimately show ?thesis by (simp add: invites_ok_def)
  qed
  moreover have "tables_ok w'"
  proof -
    have mr: "mrow (this_group b w') t = mrow (this_group b w) t" if "b \<noteq> a" for b t
      using that by (simp add: this')
    have "r \<in> set (gw_members w') \<longleftrightarrow> (\<exists>b. \<exists>t \<in> set (g_slots (this_group b w')). r = mrow (this_group b w') t)" for r
    proof
      assume "r \<in> set (gw_members w')"
      then have r: "r \<in> set (gw_members w)" "g_slots ?g \<noteq> [] \<longrightarrow> mr_groupId r \<noteq> g_Id ?g"
        using e by (auto simp: ended_def Let_def split: if_splits)
      then obtain b t where t: "t \<in> set (g_slots (this_group b w))" "r = mrow (this_group b w) t"
        using base_tables(1) [OF base] by blast
      then have "b \<noteq> a" using r(2) by (auto simp: mrow_def)
      with t mr show "\<exists>b. \<exists>t \<in> set (g_slots (this_group b w')). r = mrow (this_group b w') t"
        by (metis slots')
    next
      assume "\<exists>b. \<exists>t \<in> set (g_slots (this_group b w')). r = mrow (this_group b w') t"
      then obtain b t where t: "b \<noteq> a" "t \<in> set (g_slots (this_group b w))" "r = mrow (this_group b w) t"
        using mr slots' by (metis empty_iff list.set(1))
      then have r: "r \<in> set (gw_members w)" using base_tables(1) [OF base] by blast
      have "mr_groupId r \<noteq> g_Id ?g" if "g_slots ?g \<noteq> []"
      proof
        assume "mr_groupId r = g_Id ?g"
        then have "g_Id (this_group b w) = g_Id ?g" using t(3) by (simp add: mrow_def)
        moreover have "g_slots (this_group b w) \<noteq> []" using t(2) by auto
        ultimately show False using base_tables(2) [OF base _ that] t(1) by blast
      qed
      with r e show "r \<in> set (gw_members w')" by (simp add: ended_def Let_def)
    qed
    moreover have "b = c" if "g_slots (this_group b w') \<noteq> []" "g_slots (this_group c w') \<noteq> []"
      "g_Id (this_group b w') = g_Id (this_group c w')" for b c
    proof -
      have "b \<noteq> a" "c \<noteq> a" using that slots' by auto
      with that show ?thesis using base_tables(2) [OF base, of b c] by (simp add: this')
    qed
    moreover have "g_Id (this_group b w') < gw_nextId w'" if "g_slots (this_group b w') \<noteq> []" for b
    proof -
      have "b \<noteq> a" using that slots' by auto
      with that show ?thesis using base_tables(3) [OF base, of b] e by (simp add: this' ended_def Let_def)
    qed
    ultimately show ?thesis unfolding tables_ok_def by blast
  qed
  moreover have "rolls_ok w'"
    by (rule rolls_ok_from [OF base]) (use e in \<open>auto simp: this' ended_def Let_def Group_new_def split: if_splits\<close>)
  ultimately show ?thesis
    using base_rest [OF base] e by (simp add: grp_base_def ended_def Let_def)
qed

text \<open>The other groups are not touched.\<close>

lemma settled_cong:
  assumes "this_group b w' = this_group b w" and "alive b w' = alive b w"
    and "g_slots (this_group b w) \<noteq> [] \<Longrightarrow> gw_rows w' (g_Id (this_group b w)) = gw_rows w (g_Id (this_group b w))"
    and "\<And>i. gw_groupMap w' i = Some b \<longleftrightarrow> gw_groupMap w i = Some b"
  shows "settled b w' = settled b w"
  using assms by (auto simp: settled_def Let_def)

lemma settled_map: "settled a w \<Longrightarrow> gw_groupMap w i = Some a \<longleftrightarrow> g_slots (this_group a w) \<noteq> [] \<and> g_Id (this_group a w) = i"
  by (simp add: settled_def Let_def)

lemma ok_ended:
  assumes ok: "grp_base w" "\<And>b. b \<noteq> a \<Longrightarrow> settled b w" "rows_ok w"
    and a: "\<And>i. gw_groupMap w i = Some a \<longleftrightarrow> g_slots (this_group a w) \<noteq> [] \<and> g_Id (this_group a w) = i"
    and e: "ended a w w'"
  shows "grp_ok w'"
proof -
  have "settled b w'" for b
  proof (cases "b = a")
    case True
    have "gw_groupMap w' i \<noteq> Some a" for i
      using e a [of i] by (auto simp: ended_def Let_def split: if_splits)
    moreover have "this_group a w' = Group_new" "\<not> alive a w'" using e by (simp_all add: ended_def Let_def)
    ultimately show ?thesis using True by (simp add: settled_def Group_new_def)
  next
    case False
    have id: "g_Id (this_group b w) \<noteq> g_Id (this_group a w)"
      if "g_slots (this_group a w) \<noteq> []" "g_slots (this_group b w) \<noteq> []"
      using base_tables(2) [OF ok(1), of b a] that False by blast
    have map: "gw_groupMap w' i = Some b \<longleftrightarrow> gw_groupMap w i = Some b" for i
    proof (cases "g_slots (this_group a w) = []")
      case True
      then show ?thesis using e by (simp add: ended_def Let_def)
    next
      case nn: False
      then have "gw_groupMap w (g_Id (this_group a w)) = Some a" using a by blast
      with nn False show ?thesis using e by (auto simp: ended_def Let_def)
    qed
    have "settled b w' = settled b w"
      by (rule settled_cong) (use e False id map in \<open>auto simp: ended_def Let_def\<close>)
    with ok(2) False show ?thesis by simp
  qed
  moreover have "rows_ok w'"
    using ok(3) e by (auto simp: rows_ok_def ended_def Let_def split: if_splits)
  ultimately show ?thesis using base_ended [OF ok(1) e] by (simp add: grp_ok_def)
qed

section \<open>Leaders\<close>

text \<open>The member of slot \<open>s\<close> becomes leader.\<close>

definition led :: "gaddr \<Rightarrow> member_slot \<Rightarrow> grp_world \<Rightarrow> grp_world \<Rightarrow> bool" where
  "led a s w w' \<longleftrightarrow>
     (\<exists>t. same (upd_group a (\<lambda>g. g\<lparr>g_leaderGuid := ms_guid s, g_leaderName := ms_name s, g_leaderLastOnline := t\<rparr>)
              (sql_update_group (g_Id (this_group a w)) (\<lambda>r. r\<lparr>row_leaderGuid := GetCounter (ms_guid s)\<rparr>) w)) w')"

lemma setLeader_led:
  assumes base: "grp_base w" and s: "s \<in> set (g_slots (this_group a w))"
  shows "led a s w (setLeader env a (ms_guid s) w)"
proof -
  let ?g = "this_group a w"
  have f: "find_slot (ms_guid s) ?g = Some s" using base_group [OF base] s by (rule find_slot_eq)
  have nobg: "\<not> g_bg ?g" using base_group [OF base, of a] by (simp add: group_ok_def)
  show ?thesis
    unfolding led_def setLeader_def f option.case Let_def
    using nobg by (intro exI [of _ "ge_time env"]) (auto intro!: same_trans [OF same_upd_group same_updateLeaderFlag])
qed

lemma led_same: "led a s w w' \<Longrightarrow> same w' w'' \<Longrightarrow> led a s w w''"
  unfolding led_def using same_trans by blast

lemma same_led: "same w w1 \<Longrightarrow> led a s w1 w' \<Longrightarrow> led a s w w'"
proof -
  assume sm: "same w w1" and "led a s w1 w'"
  then obtain t where "same (upd_group a (\<lambda>g. g\<lparr>g_leaderGuid := ms_guid s, g_leaderName := ms_name s, g_leaderLastOnline := t\<rparr>)
      (sql_update_group (g_Id (this_group a w1)) (\<lambda>r. r\<lparr>row_leaderGuid := GetCounter (ms_guid s)\<rparr>) w1)) w'"
    by (auto simp: led_def)
  moreover have "g_Id (this_group a w1) = g_Id (this_group a w)" using sm by (simp add: same_def)
  moreover have "same (upd_group a (\<lambda>g. g\<lparr>g_leaderGuid := ms_guid s, g_leaderName := ms_name s, g_leaderLastOnline := t\<rparr>)
      (sql_update_group (g_Id (this_group a w)) (\<lambda>r. r\<lparr>row_leaderGuid := GetCounter (ms_guid s)\<rparr>) w))
     (upd_group a (\<lambda>g. g\<lparr>g_leaderGuid := ms_guid s, g_leaderName := ms_name s, g_leaderLastOnline := t\<rparr>)
      (sql_update_group (g_Id (this_group a w)) (\<lambda>r. r\<lparr>row_leaderGuid := GetCounter (ms_guid s)\<rparr>) w1))"
    by (intro same_upd_group same_sql sm)
  ultimately show ?thesis unfolding led_def by (intro exI [of _ t]) (simp add: same_trans)
qed

lemma ChangeLeader_led:
  assumes base: "grp_base w" and s: "s \<in> set (g_slots (this_group a w))"
  shows "led a s w (ChangeLeader env a (ms_guid s) w)"
proof -
  have f: "find_slot (ms_guid s) (this_group a w) = Some s" using base_group [OF base] s by (rule find_slot_eq)
  show ?thesis
    unfolding ChangeLeader_def f option.case
    by (rule led_same [OF setLeader_led [OF assms]]) (rule same_trans [OF same_Broadcast same_SendUpdate])
qed

lemma base_led:
  assumes base: "grp_base w" and l: "led a s w w'"
  shows "grp_base w'"
proof -
  let ?r = "sql_update_group (g_Id (this_group a w)) (\<lambda>r. r\<lparr>row_leaderGuid := GetCounter (ms_guid s)\<rparr>) w"
  have "grp_base (upd_group a (\<lambda>g. g\<lparr>g_leaderGuid := ms_guid s, g_leaderName := ms_name s, g_leaderLastOnline := t\<rparr>) ?r)" for t
    using base base_group [OF base, of a] by (intro base_upd_group) (simp_all add: group_ok_def counts_ok_def)
  then show ?thesis using l base_same unfolding led_def by blast
qed

text \<open>Everything the invariant says of a created group, but for its leader.\<close>

definition stored :: "gaddr \<Rightarrow> grp_world \<Rightarrow> bool" where
  "stored a w \<longleftrightarrow>
     (let g = this_group a w
      in 2 \<le> length (g_slots g) \<and> gw_rows w (g_Id g) \<noteq> None \<and>
         (let r = the (gw_rows w (g_Id g))
          in row_isRaid r = g_raid g \<and> row_mainTank r = GetCounter (g_mainTankGuid g) \<and>
             row_mainAssistant r = GetCounter (g_mainAssistantGuid g)) \<and>
         (\<forall>i. gw_groupMap w i = Some a \<longleftrightarrow> g_Id g = i))"

lemma settled_iff_stored:
  assumes "g_slots (this_group a w) \<noteq> []"
  shows "settled a w \<longleftrightarrow> stored a w \<and>
     (\<exists>s \<in> set (g_slots (this_group a w)). ms_guid s = g_leaderGuid (this_group a w) \<and> ms_name s = g_leaderName (this_group a w)) \<and>
     row_leaderGuid (the (gw_rows w (g_Id (this_group a w)))) = GetCounter (g_leaderGuid (this_group a w))"
  using assms by (auto simp: settled_def stored_def Let_def row_ok_def)

lemma ok_led:
  assumes base: "grp_base w" and st: "stored a w" "\<And>b. b \<noteq> a \<Longrightarrow> settled b w" "rows_ok w"
    and s: "s \<in> set (g_slots (this_group a w))" and l: "led a s w w'"
  shows "grp_ok w'"
proof -
  let ?g = "this_group a w"
  have ne: "g_slots ?g \<noteq> []" using s by auto
  then have al: "alive a w" by (rule slots_alive)
  obtain t where sm: "same (upd_group a (\<lambda>g. g\<lparr>g_leaderGuid := ms_guid s, g_leaderName := ms_name s, g_leaderLastOnline := t\<rparr>)
      (sql_update_group (g_Id ?g) (\<lambda>r. r\<lparr>row_leaderGuid := GetCounter (ms_guid s)\<rparr>) w)) w'" (is "same ?w1 w'")
    using l by (auto simp: led_def)
  have "settled a ?w1"
  proof -
    have "g_slots (this_group a ?w1) \<noteq> []" using ne al by simp
    then show ?thesis
      using st(1) s al by (subst settled_iff_stored) (auto simp: stored_def Let_def)
  qed
  moreover have "settled b ?w1" if "b \<noteq> a" for b
  proof -
    have "g_Id (this_group b w) \<noteq> g_Id ?g" if "g_slots (this_group b w) \<noteq> []"
      using base_tables(2) [OF base that ne] \<open>b \<noteq> a\<close> by blast
    then have "settled b ?w1 = settled b w" using that by (intro settled_cong) auto
    with st(2) that show ?thesis by simp
  qed
  moreover have "rows_ok ?w1" using st(3) by (auto simp: rows_ok_def)
  ultimately have "(\<forall>b. settled b w') \<and> rows_ok w'"
    using base_same [OF sm] by metis
  then show ?thesis using base_led [OF base l] by (simp add: grp_ok_def)
qed

text \<open>The choice of a leader: the first candidate, in a raid the first assistant among them.\<close>

lemma pick_leader_eq:
  assumes "\<forall>s \<in> set ss. ms_guid s \<noteq> 0"
  shows "pick_leader a w ss first =
     (case find (\<lambda>s. candidate a w s \<and> (g_raid (this_group a w) \<longrightarrow> ms_assistant s)) ss of
        Some s \<Rightarrow> ms_guid s
      | None \<Rightarrow> if first \<noteq> 0 then first else case find (candidate a w) ss of Some s \<Rightarrow> ms_guid s | None \<Rightarrow> 0)"
  using assms
  by (induction ss arbitrary: first) (auto simp: guid_IsEmpty_def split: option.splits)

lemma find_set: "find P xs = Some x \<Longrightarrow> x \<in> set xs \<and> P x"
  by (auto simp: find_Some_iff)

lemma chooseLeader_led:
  assumes base: "grp_base w" and n: "2 \<le> length (g_slots (this_group a w))"
  shows "\<exists>s \<in> set (g_slots (this_group a w)). led a s w (chooseLeader env a False w)"
proof -
  let ?g = "this_group a w" and ?c = "pick_leader a w (g_slots (this_group a w)) 0"
  have nobg: "\<not> g_bg ?g" using base_group [OF base, of a] by (simp add: group_ok_def)
  have nz: "\<forall>s \<in> set (g_slots ?g). ms_guid s \<noteq> 0" using base_slot_guid [OF base] by (auto simp: player_guid_def)
  have ne: "g_slots ?g \<noteq> []" using n by auto
  have "\<exists>s \<in> set (g_slots ?g). chooseLeader env a False w = setLeader env a (ms_guid s) w"
  proof (cases "?c = 0")
    case True
    then have "chooseLeader env a False w = setLeader env a (ms_guid (hd (g_slots ?g))) w"
      using n nobg ne by (simp add: chooseLeader_def Let_def GetMembersCount_def GetMembersMinCount_def guid_IsEmpty_def)
    with ne show ?thesis by (metis hd_in_set)
  next
    case False
    then have "chooseLeader env a False w = setLeader env a ?c w"
      using n nobg ne by (simp add: chooseLeader_def Let_def GetMembersCount_def GetMembersMinCount_def guid_IsEmpty_def)
    moreover have "\<exists>s \<in> set (g_slots ?g). ms_guid s = ?c"
    proof -
      let ?f = "find (\<lambda>s. candidate a w s \<and> (g_raid ?g \<longrightarrow> ms_assistant s)) (g_slots ?g)"
      show ?thesis
      proof (cases ?f)
        case (Some s)
        then have "?c = ms_guid s" by (simp add: pick_leader_eq [OF nz])
        moreover have "s \<in> set (g_slots ?g)" using find_set [OF Some] by blast
        ultimately show ?thesis by (intro bexI [of _ s]) simp_all
      next
        case None
        then have c: "?c = (case find (candidate a w) (g_slots ?g) of Some s \<Rightarrow> ms_guid s | None \<Rightarrow> 0)"
          by (simp add: pick_leader_eq [OF nz])
        with False obtain s where s: "find (candidate a w) (g_slots ?g) = Some s"
          by (cases "find (candidate a w) (g_slots ?g)") auto
        with c have "?c = ms_guid s" by simp
        moreover have "s \<in> set (g_slots ?g)" using find_set [OF s] by blast
        ultimately show ?thesis by (intro bexI [of _ s]) simp_all
      qed
    qed
    ultimately show ?thesis by metis
  qed
  then show ?thesis using setLeader_led [OF base] by metis
qed

end
