(* ===== verification/GroupOk.thy ===== *)
theory GroupOk
  imports GroupMoves
begin

text \<open>
  The full invariant \<open>grp_ok\<close> (the group objects, the links, the invitations, the tables and the
  map of groups) is kept by every request of \<^verbatim>\<open>GroupHandler.cpp\<close>, by login and logout and by
  the timers.
\<close>

section \<open>Leaving\<close>

lemma RemoveMember_big:
  assumes base: "grp_base w" and s: "s \<in> set (g_slots (this_group a w))" and n: "2 < length (g_slots (this_group a w))"
  shows "\<exists>w1. left a s w w1 \<and> fst (RemoveMember env a (ms_guid s) meth w) = length (g_slots (this_group a w)) - 1 \<and>
     (if g_leaderGuid (this_group a w) = ms_guid s
      then \<exists>t \<in> set (g_slots (this_group a w1)). led a t w1 (snd (RemoveMember env a (ms_guid s) meth w))
      else same w1 (snd (RemoveMember env a (ms_guid s) meth w)))"
proof -
  let ?g = "this_group a w" and ?p = "ms_guid s"
  have nobg: "\<not> g_bg ?g" using base_group [OF base, of a] by (simp add: group_ok_def)
  define w1 where "w1 = remove_slot env a ?p w"
  have l: "left a s w w1" unfolding w1_def by (rule remove_slot_left [OF base s])
  have b1: "grp_base w1" by (rule base_left [OF base s l])
  have g1: "this_group a w1 = without s ?g" using l by (simp add: left_def)
  have len1: "length (g_slots (this_group a w1)) = length (g_slots ?g) - 1"
    using s by (simp add: g1 length_remove1)
  obtain c w2 where rm: "removeMember env a ?p w = (c, w2)" by (cases "removeMember env a ?p w")
  let ?t = "\<lambda>w. SendUpdate a (if c then BroadcastPacket a (SMSG_GROUP_SET_LEADER, pstr (g_leaderName (this_group a w))) True None 0 w else w)"
  define w3 where "w3 = (case FindPlayer w2 ?p of None \<Rightarrow> w2 | Some _ \<Rightarrow>
      tell_left ?p (if meth = 1 then gsend ?p (SMSG_GROUP_UNINVITE, []) w2 else w2))"
  have s23: "same w2 w3"
    unfolding w3_def by (auto split: option.split intro: same_trans [OF same_gsend same_tell_left])
  have R: "RemoveMember env a ?p meth w = (length (g_slots (this_group a (?t w3))), ?t w3)"
    unfolding RemoveMember_def Let_def using nobg n
    by (simp add: GetMembersMinCount_def GetMembersCount_def rm w3_def)
  have s3: "same w3 (?t w3)" by (auto intro: same_trans [OF same_Broadcast same_SendUpdate])
  have s2: "same w2 (snd (RemoveMember env a ?p meth w))"
    unfolding R by (simp add: same_trans [OF s23 s3])
  show ?thesis
  proof (cases "g_leaderGuid ?g = ?p")
    case True
    then have w2: "w2 = chooseLeader env a False (updateLeaderFlag a True w1)"
      using rm by (simp add: removeMember_slot Let_def w1_def [symmetric] g1)
    have su: "same w1 (updateLeaderFlag a True w1)" by simp
    have "2 \<le> length (g_slots (this_group a (updateLeaderFlag a True w1)))"
      using su len1 n by (simp add: same_def)
    then obtain t where t: "t \<in> set (g_slots (this_group a (updateLeaderFlag a True w1)))" "led a t (updateLeaderFlag a True w1) w2"
      using chooseLeader_led [of "updateLeaderFlag a True w1" a env] b1 base_same(1) [OF su] w2 by blast
    then have led: "led a t w1 (snd (RemoveMember env a ?p meth w))"
      using same_led [OF su] led_same s2 by blast
    have t1: "t \<in> set (g_slots (this_group a w1))" using t(1) su by (simp add: same_def)
    then have "alive a w1" by (intro slots_alive) auto
    then have "length (g_slots (this_group a (snd (RemoveMember env a ?p meth w)))) = length (g_slots ?g) - 1"
      using led len1 by (auto simp: led_def same_def)
    with True l led t1 R show ?thesis by (intro exI [of _ w1]) auto
  next
    case False
    then have w2: "w2 = w1" using rm by (simp add: removeMember_slot Let_def w1_def [symmetric] g1)
    then have "same w1 (snd (RemoveMember env a ?p meth w))" using s2 by simp
    moreover from this have "length (g_slots (this_group a (snd (RemoveMember env a ?p meth w)))) = length (g_slots ?g) - 1"
      using len1 by (simp add: same_def)
    ultimately show ?thesis using False l R by (intro exI [of _ w1]) auto
  qed
qed

lemma settled_left_other:
  assumes "left a s w w'" and "b \<noteq> a"
  shows "settled b w' = settled b w"
  by (rule settled_cong) (use assms in \<open>simp_all add: left_def\<close>)

lemma stored_left:
  assumes "settled a w" and "left a s w w'" and "s \<in> set (g_slots (this_group a w))" and "2 < length (g_slots (this_group a w))"
  shows "stored a w'"
proof -
  have "g_slots (this_group a w) \<noteq> []" using assms(3) by auto
  then have "stored a w" using assms(1) settled_iff_stored by blast
  with assms(2-4) show ?thesis by (auto simp: stored_def left_def Let_def length_remove1)
qed

lemma ok_parts:
  assumes "grp_ok w"
  shows "grp_base w" "settled a w" "rows_ok w"
  using assms by (simp_all add: grp_ok_def)

lemma ok_left:
  assumes ok: "grp_ok w" and s: "s \<in> set (g_slots (this_group a w))" and n: "2 < length (g_slots (this_group a w))"
    and l: "left a s w w'" and nl: "g_leaderGuid (this_group a w) \<noteq> ms_guid s"
  shows "grp_ok w'"
proof -
  have base: "grp_base w'" by (rule base_left [OF ok_parts(1) [OF ok] s l])
  have ne: "g_slots (this_group a w) \<noteq> []" using s by auto
  have st: "stored a w'" by (rule stored_left [OF ok_parts(2) [OF ok] l s n])
  then have ne': "g_slots (this_group a w') \<noteq> []" by (auto simp: stored_def Let_def)
  have "settled a w'"
  proof -
    obtain t where t: "t \<in> set (g_slots (this_group a w))" "ms_guid t = g_leaderGuid (this_group a w)"
      "ms_name t = g_leaderName (this_group a w)"
      and r: "row_leaderGuid (the (gw_rows w (g_Id (this_group a w)))) = GetCounter (g_leaderGuid (this_group a w))"
      using ok_parts(2) [OF ok, of a] unfolding settled_iff_stored [OF ne] by blast
    have "t \<noteq> s" using t(2) nl by metis
    moreover have g': "this_group a w' = without s (this_group a w)" "gw_rows w' = gw_rows w" using l by (simp_all add: left_def)
    ultimately have "t \<in> set (g_slots (this_group a w'))" using t(1) by simp
    moreover have "g_leaderGuid (this_group a w') = g_leaderGuid (this_group a w)"
      "g_leaderName (this_group a w') = g_leaderName (this_group a w)" "g_Id (this_group a w') = g_Id (this_group a w)"
      by (simp_all add: g')
    ultimately show ?thesis using t(2,3) r st g'(2) unfolding settled_iff_stored [OF ne'] by metis
  qed
  moreover have "settled b w'" if "b \<noteq> a" for b
    using settled_left_other [OF l that] ok_parts(2) [OF ok] by simp
  moreover have "rows_ok w'" using l ok_parts(3) [OF ok] by (simp add: rows_ok_def left_def)
  ultimately show ?thesis using base unfolding grp_ok_def by metis
qed

text \<open>The ways a member can leave: out of a larger group, which may get a new leader, or out of a pair.\<close>

lemma RemoveFromGroup_cases:
  assumes ok: "grp_ok w" and m: "member a p w"
  obtains s w1 where "s \<in> set (g_slots (this_group a w))" "p = ms_guid s" "2 < length (g_slots (this_group a w))"
      "left a s w w1" "g_leaderGuid (this_group a w) \<noteq> p" "same w1 (RemoveFromGroup env (Some a) p w)"
  | s w1 t where "s \<in> set (g_slots (this_group a w))" "p = ms_guid s" "2 < length (g_slots (this_group a w))"
      "left a s w w1" "g_leaderGuid (this_group a w) = p" "t \<in> set (g_slots (this_group a w1))"
      "led a t w1 (RemoveFromGroup env (Some a) p w)"
  | "length (g_slots (this_group a w)) = 2" "ended a w (RemoveFromGroup env (Some a) p w)"
proof -
  have base: "grp_base w" using ok by (rule ok_parts)
  obtain s where s: "s \<in> set (g_slots (this_group a w))" "p = ms_guid s" using m by (auto simp: member_def)
  have ne: "g_slots (this_group a w) \<noteq> []" using s by auto
  have len: "2 \<le> length (g_slots (this_group a w))"
    using ok_parts(2) [OF ok, of a] ne by (simp add: settled_def Let_def)
  show thesis
  proof (cases "2 < length (g_slots (this_group a w))")
    case True
    obtain w1 where l: "left a s w w1" and n: "fst (RemoveMember env a p 0 w) = length (g_slots (this_group a w)) - 1"
      and r: "if g_leaderGuid (this_group a w) = p
          then \<exists>t \<in> set (g_slots (this_group a w1)). led a t w1 (snd (RemoveMember env a p 0 w))
          else same w1 (snd (RemoveMember env a p 0 w))"
      using RemoveMember_big [OF base s(1) True, of env 0] unfolding s(2) by blast
    have eq: "RemoveFromGroup env (Some a) p w = snd (RemoveMember env a p 0 w)"
      using n True by (cases "RemoveMember env a p 0 w") (simp add: RemoveFromGroup_def)
    show thesis
    proof (cases "g_leaderGuid (this_group a w) = p")
      case lead: True
      then obtain t where "t \<in> set (g_slots (this_group a w1))" "led a t w1 (RemoveFromGroup env (Some a) p w)"
        using r unfolding eq by auto
      with s True l lead show thesis by (rule that(2))
    next
      case False
      then have "same w1 (RemoveFromGroup env (Some a) p w)" using r unfolding eq by simp
      with s True l False show thesis by (rule that(1))
    qed
  next
    case False
    have "\<not> g_bg (this_group a w)" using base_group [OF base, of a] by (simp add: group_ok_def)
    then have "RemoveMember env a p 0 w = (0, Disband a True w)"
      using False len created_ended(2) [OF base ne, of True]
      by (simp add: RemoveMember_def GetMembersMinCount_def GetMembersCount_def)
    then have "RemoveFromGroup env (Some a) p w = delete_group a (RemoveGroup a (Disband a True w))"
      by (simp add: RemoveFromGroup_def)
    then have "ended a w (RemoveFromGroup env (Some a) p w)" using created_ended(1) [OF base ne, of True] by simp
    moreover have "length (g_slots (this_group a w)) = 2" using False len by simp
    ultimately show thesis by (intro that(3))
  qed
qed

lemma ok_RemoveFromGroup:
  assumes ok: "grp_ok w" and m: "member a p w"
  shows "grp_ok (RemoveFromGroup env (Some a) p w)"
proof -
  have base: "grp_base w" using ok by (rule ok_parts)
  from ok m show ?thesis
  proof (cases rule: RemoveFromGroup_cases [where env = env])
    case (1 s w1)
    then have "grp_ok w1" using ok_left [OF ok] by simp
    with 1(6) show ?thesis by (rule ok_same)
  next
    case (2 s w1 t)
    have "rows_ok w1" using 2(4) ok_parts(3) [OF ok] by (simp add: rows_ok_def left_def)
    moreover have "settled b w1" if "b \<noteq> a" for b
      using settled_left_other [OF 2(4) that] ok_parts(2) [OF ok] by simp
    ultimately show ?thesis
      using ok_led [OF base_left [OF base 2(1,4)] stored_left [OF ok_parts(2) [OF ok] 2(4,1,3)] _ _ 2(6,7)] by blast
  next
    case 3
    with settled_map [OF ok_parts(2) [OF ok]] show ?thesis
      using ok_ended [OF base ok_parts(2) [OF ok] ok_parts(3) [OF ok]] by blast
  qed
qed

text \<open>Declining or losing an invitation.\<close>

lemma UninviteFromGroup_none: "invite_of p w = None \<Longrightarrow> UninviteFromGroup p w = w"
  by (auto simp: UninviteFromGroup_def invite_of_def split: option.splits)

lemma UninviteFromGroup_cases:
  assumes ok: "grp_ok w" and i: "invite_of p w = Some a"
  obtains w1 where "uninvited a p w w1" "2 \<le> length (g_slots (this_group a w))" "UninviteFromGroup p w = w1"
  | w1 where "uninvited a p w w1" "g_slots (this_group a w) = []" "ended a w1 (UninviteFromGroup p w)"
proof -
  have base: "grp_base w" using ok by (rule ok_parts)
  have p: "p \<in> set (g_invitees (this_group a w))" using i base_invites(1) [OF base] by blast
  have al: "alive a w" using p by (rule invitee_alive)
  define w1 where "w1 = RemoveInvite a p w"
  have u: "uninvited a p w w1" unfolding w1_def by (rule RemoveInvite_uninvited [OF base i])
  have b1: "grp_base w1" by (rule base_uninvited [OF base u i])
  have slots1: "g_slots (this_group a w1) = g_slots (this_group a w)" using u by (simp add: uninvited_def)
  have U: "UninviteFromGroup p w =
      (if length (g_slots (this_group a w)) \<le> 1
       then delete_group a (if g_slots (this_group a w) \<noteq> [] then RemoveGroup a (Disband a True w1) else RemoveAllInvites a w1)
       else w1)"
    using i al slots1
    by (auto simp: UninviteFromGroup_def invite_of_def alive_def GetMembersCount_def IsCreated_def w1_def Let_def
        split: option.splits)
  show thesis
  proof (cases "g_slots (this_group a w) = []")
    case True
    then have "ended a w1 (UninviteFromGroup p w)" using forming_ended [OF b1] slots1 by (simp add: U)
    with u True show thesis by (rule that(2))
  next
    case False
    then have "2 \<le> length (g_slots (this_group a w))"
      using ok_parts(2) [OF ok, of a] by (simp add: settled_def Let_def)
    then show thesis using u U by (intro that(1)) simp_all
  qed
qed

lemma settled_uninvited:
  assumes ok: "grp_ok w" and u: "uninvited a p w w'"
  shows "b \<noteq> a \<Longrightarrow> settled b w'" "rows_ok w'"
    "g_slots (this_group a w) \<noteq> [] \<or> g_leaderGuid (this_group a w) \<noteq> p \<Longrightarrow> settled a w'"
    "gw_groupMap w' i = Some a \<longleftrightarrow> g_slots (this_group a w') \<noteq> [] \<and> g_Id (this_group a w') = i"
proof -
  show "settled b w'" if "b \<noteq> a"
  proof -
    have "settled b w' = settled b w" by (rule settled_cong) (use u that in \<open>simp_all add: uninvited_def\<close>)
    with ok_parts(2) [OF ok] show ?thesis by simp
  qed
  show "rows_ok w'" using u ok_parts(3) [OF ok] by (simp add: rows_ok_def uninvited_def)
  show "settled a w'" if "g_slots (this_group a w) \<noteq> [] \<or> g_leaderGuid (this_group a w) \<noteq> p"
    using ok_parts(2) [OF ok, of a] u that by (auto simp: settled_def Let_def uninvited_def row_ok_def)
  show "gw_groupMap w' i = Some a \<longleftrightarrow> g_slots (this_group a w') \<noteq> [] \<and> g_Id (this_group a w') = i"
    using settled_map [OF ok_parts(2) [OF ok], of i a] u by (simp add: uninvited_def)
qed

lemma ok_uninvited:
  assumes ok: "grp_ok w" and i: "invite_of p w = Some a" and u: "uninvited a p w w'"
    and l: "g_slots (this_group a w) \<noteq> [] \<or> g_leaderGuid (this_group a w) \<noteq> p"
  shows "grp_ok w'"
  using base_uninvited [OF ok_parts(1) [OF ok] u i] settled_uninvited [OF ok u] l unfolding grp_ok_def by metis

lemma ok_UninviteFromGroup:
  assumes ok: "grp_ok w"
  shows "grp_ok (UninviteFromGroup p w)"
proof (cases "invite_of p w")
  case None
  with ok show ?thesis by (simp add: UninviteFromGroup_none)
next
  case (Some a)
  from ok Some show ?thesis
  proof (cases rule: UninviteFromGroup_cases)
    case (1 w1)
    then have "g_slots (this_group a w) \<noteq> []" by auto
    with 1 show ?thesis using ok_uninvited [OF ok Some 1(1)] by simp
  next
    case (2 w1)
    then show ?thesis
      using ok_ended [OF base_uninvited [OF ok_parts(1) [OF ok] 2(1) Some] settled_uninvited(1,2,4) [OF ok 2(1)]] by blast
  qed
qed

text \<open>Nobody is invited by somebody leaving or by an invitation lost.\<close>

lemma led_invite: "led a s w w' \<Longrightarrow> invite_of q w' = invite_of q w" "led a s w w' \<Longrightarrow> GetGroup q w' = GetGroup q w"
  by (auto simp: led_def same_def)

lemma RemoveFromGroup_invite:
  assumes "grp_ok w" and "member a p w" and "invite_of q w = None"
  shows "invite_of q (RemoveFromGroup env (Some a) p w) = None"
  using assms(1,2)
proof (cases rule: RemoveFromGroup_cases [where env = env])
  case (1 s w1)
  then show ?thesis using assms(3) by (simp add: left_def same_def)
next
  case (2 s w1 t)
  then show ?thesis using assms(3) led_invite(1) [OF 2(7)] by (simp add: left_def)
next
  case 3
  then show ?thesis using assms(3) by (simp add: ended_def Let_def)
qed

lemma UninviteFromGroup_invite:
  assumes ok: "grp_ok w"
  shows "invite_of p (UninviteFromGroup p w) = None"
proof (cases "invite_of p w")
  case None
  then show ?thesis by (simp add: UninviteFromGroup_none)
next
  case (Some a)
  from ok Some show ?thesis
    by (cases rule: UninviteFromGroup_cases) (auto simp: uninvited_def ended_def Let_def)
qed

end
