(* ===== verification/GroupChange.thy ===== *)
theory GroupChange
  imports GroupOk
begin

text \<open>
  Changes inside one group that leave its members alone: roles, target icons, loot rules,
  rolls, the raid conversion, subgroups and the assistants.
\<close>

section \<open>Fields of the group\<close>

text \<open>The fields a row of \<^verbatim>\<open>groups\<close> is compared with.\<close>

definition keeps_row :: "(group \<Rightarrow> group) \<Rightarrow> bool" where
  "keeps_row f \<longleftrightarrow>
     (\<forall>g. g_leaderGuid (f g) = g_leaderGuid g \<and> g_leaderName (f g) = g_leaderName g \<and> g_raid (f g) = g_raid g \<and>
          g_mainTankGuid (f g) = g_mainTankGuid g \<and> g_mainAssistantGuid (f g) = g_mainAssistantGuid g)"

lemma keeps_row_simps [simp]:
  "keeps_row (\<lambda>g. g\<lparr>g_team := t g\<rparr>)"
  "keeps_row (\<lambda>g. g\<lparr>g_leaderLastOnline := i\<rparr>)" "keeps_row (\<lambda>g. g\<lparr>g_icons := u g\<rparr>)"
  "keeps_row (\<lambda>g. g\<lparr>g_lootMethod := m, g_looterGuid := l, g_lootThreshold := h\<rparr>)"
  by (simp_all add: keeps_row_def)

lemma settled_upd_group:
  assumes "keeps_members f" and "keeps_row f"
  shows "settled b (upd_group a f w) = settled b w"
  using assms by (simp add: settled_def Let_def keeps_members_def keeps_row_def row_ok_def)

lemma ok_upd_group:
  assumes ok: "grp_ok w" and f: "keeps_members f" "keeps_row f" "group_ok (f (this_group a w))"
  shows "grp_ok (upd_group a f w)"
  using base_upd_group [OF ok_parts(1) [OF ok] f(1,3)] ok_parts [OF ok]
  by (simp add: grp_ok_def settled_upd_group f rows_ok_def)

text \<open>A field and its column change together.\<close>

lemma ok_upd_row:
  assumes ok: "grp_ok w" and ne: "g_slots (this_group a w) \<noteq> []"
    and f: "keeps_members f" "group_ok (f (this_group a w))" "g_leaderGuid (f (this_group a w)) = g_leaderGuid (this_group a w)"
      "g_leaderName (f (this_group a w)) = g_leaderName (this_group a w)"
    and h: "\<And>r. row_ok r (this_group a w) \<Longrightarrow> row_ok (h r) (f (this_group a w))"
  shows "grp_ok (sql_update_group (g_Id (this_group a w)) h (upd_group a f w))" (is "grp_ok ?w'")
proof -
  let ?g = "this_group a w"
  have al: "alive a w" using ne by (rule slots_alive)
  have base: "grp_base ?w'" using base_upd_group [OF ok_parts(1) [OF ok] f(1,2)] by simp
  have "settled b ?w'" for b
  proof (cases "b = a")
    case True
    have s: "settled a w" using ok by (rule ok_parts)
    then have "row_ok (h (the (gw_rows w (g_Id ?g)))) (f ?g)" using ne h by (simp add: settled_def Let_def)
    with s ne al f(1,3,4) True show ?thesis by (auto simp: settled_def Let_def keeps_members_def)
  next
    case False
    have "g_Id (this_group b w) \<noteq> g_Id ?g" if "g_slots (this_group b w) \<noteq> []"
      using base_tables(2) [OF ok_parts(1) [OF ok] that ne] False by blast
    then have "settled b ?w' = settled b w" using False by (intro settled_cong) auto
    with ok show ?thesis using ok_parts by simp
  qed
  moreover have "rows_ok ?w'" using ok_parts(3) [OF ok] by (auto simp: rows_ok_def)
  ultimately show ?thesis using base by (simp add: grp_ok_def)
qed

lemma ok_nobg: "grp_ok w \<Longrightarrow> \<not> g_bg (this_group a w)"
  using base_group [OF ok_parts(1), of w a] by (simp add: group_ok_def)

lemma ok_gsend [intro]: "grp_ok w \<Longrightarrow> grp_ok (gsend p pkt w)"
  by (rule ok_same [OF same_gsend])

lemma ok_SendUpdate [intro]: "grp_ok w \<Longrightarrow> grp_ok (SendUpdate a w)"
  by (rule ok_same [OF same_SendUpdate])

lemma ok_Broadcast [intro]: "grp_ok w \<Longrightarrow> grp_ok (BroadcastPacket a pkt i s g w)"
  by (rule ok_same [OF same_Broadcast])

lemma ok_result [intro]: "grp_ok w \<Longrightarrow> grp_ok (SendPartyResult op name r p w)"
  by (rule ok_same [OF same_SendPartyResult])

section \<open>Main tank and main assistant\<close>

lemma ok_write_tank:
  assumes "grp_ok w" and "g_slots (this_group a w) \<noteq> []" and "guid = 0 \<or> g_mainAssistantGuid (this_group a w) \<noteq> guid"
  shows "grp_ok (write_tank a guid w)"
proof -
  have g: "group_ok ((this_group a w)\<lparr>g_mainTankGuid := guid\<rparr>)"
    using base_group [OF ok_parts(1) [OF assms(1)], of a] assms(3) by (auto simp: group_ok_def counts_ok_def)
  have "grp_ok (sql_update_group (g_Id (this_group a w)) (\<lambda>r. r\<lparr>row_mainTank := GetCounter guid\<rparr>)
      (upd_group a (\<lambda>g. g\<lparr>g_mainTankGuid := guid\<rparr>) w))"
    by (rule ok_upd_row [OF assms(1,2)]) (simp_all add: g row_ok_def)
  then show ?thesis using ok_nobg [OF assms(1), of a] by (simp add: write_tank_def Let_def)
qed

lemma ok_write_assistant:
  assumes "grp_ok w" and "g_slots (this_group a w) \<noteq> []" and "guid = 0 \<or> g_mainTankGuid (this_group a w) \<noteq> guid"
  shows "grp_ok (write_assistant a guid w)"
proof -
  have g: "group_ok ((this_group a w)\<lparr>g_mainAssistantGuid := guid\<rparr>)"
    using base_group [OF ok_parts(1) [OF assms(1)], of a] assms(3) by (auto simp: group_ok_def counts_ok_def)
  have "grp_ok (sql_update_group (g_Id (this_group a w)) (\<lambda>r. r\<lparr>row_mainAssistant := GetCounter guid\<rparr>)
      (upd_group a (\<lambda>g. g\<lparr>g_mainAssistantGuid := guid\<rparr>) w))"
    by (rule ok_upd_row [OF assms(1,2)]) (simp_all add: g row_ok_def)
  then show ?thesis using ok_nobg [OF assms(1), of a] by (simp add: write_assistant_def Let_def)
qed

lemma write_fields [simp]:
  "g_mainTankGuid (this_group a (write_tank a guid w)) = (if alive a w then guid else g_mainTankGuid (this_group a w))"
  "g_mainAssistantGuid (this_group a (write_assistant a guid w)) = (if alive a w then guid else g_mainAssistantGuid (this_group a w))"
  "g_slots (this_group a (write_tank a guid w)) = g_slots (this_group a w)"
  "g_slots (this_group a (write_assistant a guid w)) = g_slots (this_group a w)"
  by (simp_all add: write_tank_def write_assistant_def Let_def)

declare setMainTank.simps [simp del] setMainAssistant.simps [simp del]

lemma setMain_zero:
  "setMainTank a 0 w = (if g_mainTankGuid (this_group a w) = 0 then (False, w) else (True, write_tank a 0 w))"
  "setMainAssistant a 0 w = (if g_mainAssistantGuid (this_group a w) = 0 then (False, w) else (True, write_assistant a 0 w))"
  by (simp_all add: setMainTank.simps setMainAssistant.simps)

lemma ok_setMain:
  assumes "grp_ok w" and "g_slots (this_group a w) \<noteq> []"
  shows "grp_ok (snd (setMainTank a guid w))" "grp_ok (snd (setMainAssistant a guid w))"
proof -
  have al: "alive a w" using assms(2) by (rule slots_alive)
  show "grp_ok (snd (setMainTank a guid w))"
  proof (cases "guid \<noteq> 0 \<and> g_mainAssistantGuid (this_group a w) = guid")
    case True
    then have "snd (setMainAssistant a 0 w) = write_assistant a 0 w" by (simp add: setMain_zero)
    moreover have "grp_ok (write_tank a guid (write_assistant a 0 w))"
      using assms al True by (intro ok_write_tank ok_write_assistant) auto
    ultimately show ?thesis using assms True by (simp add: setMainTank.simps [of a guid])
  next
    case False
    then show ?thesis using assms by (auto simp: setMainTank.simps [of a guid] intro!: ok_write_tank)
  qed
  show "grp_ok (snd (setMainAssistant a guid w))"
  proof (cases "guid \<noteq> 0 \<and> g_mainTankGuid (this_group a w) = guid")
    case True
    then have "snd (setMainTank a 0 w) = write_tank a 0 w" by (simp add: setMain_zero)
    moreover have "grp_ok (write_assistant a guid (write_tank a 0 w))"
      using assms al True by (intro ok_write_tank ok_write_assistant) auto
    ultimately show ?thesis using assms True by (simp add: setMainAssistant.simps [of a guid])
  next
    case False
    then show ?thesis using assms by (auto simp: setMainAssistant.simps [of a guid] intro!: ok_write_assistant)
  qed
qed

lemma ok_SetMain:
  assumes "grp_ok w" and "g_slots (this_group a w) \<noteq> []"
  shows "grp_ok (SetMainTank a guid w)" "grp_ok (SetMainAssistant a guid w)"
proof -
  have "grp_ok w1" if "setMainTank a guid w = (b, w1)" for b w1 using ok_setMain(1) [OF assms, of guid] that by simp
  then show "grp_ok (SetMainTank a guid w)"
    using assms(1) by (auto simp: SetMainTank_def split: prod.split bool.split)
  have "grp_ok w1" if "setMainAssistant a guid w = (b, w1)" for b w1 using ok_setMain(2) [OF assms, of guid] that by simp
  then show "grp_ok (SetMainAssistant a guid w)"
    using assms(1) by (auto simp: SetMainAssistant_def split: prod.split bool.split)
qed

section \<open>Target icons\<close>

lemma SetTargetIcon_zero:
  "SetTargetIcon a i 0 w = (if TARGET_ICON_COUNT \<le> i then w else write_icon a i 0 w)"
  by (simp add: SetTargetIcon.simps)

lemma write_icon_same:
  "same (upd_group a (\<lambda>g. g\<lparr>g_icons := (g_icons g)[i := t]\<rparr>) w) (write_icon a i t w)"
  by (simp add: write_icon_def)

text \<open>The icons on \<open>t\<close> are taken off one after the other.\<close>

definition clear_from :: "object_guid \<Rightarrow> nat list \<Rightarrow> object_guid list \<Rightarrow> object_guid list" where
  "clear_from t js icons = fold (\<lambda>j ic. if ic ! j = t then ic[j := 0] else ic) js icons"

lemma fold_clear:
  assumes "\<forall>j \<in> set js. j < TARGET_ICON_COUNT" and "alive a w"
  shows "same (upd_group a (\<lambda>g. g\<lparr>g_icons := clear_from t js (g_icons g)\<rparr>) w)
     (fold (\<lambda>j w. if g_icons (this_group a w) ! j = t then SetTargetIcon a j 0 w else w) js w)"
  using assms
proof (induction js arbitrary: w)
  case Nil
  then show ?case by (simp add: clear_from_def upd_group_id)
next
  case (Cons j js)
  let ?step = "\<lambda>j w. if g_icons (this_group a w) ! j = t then SetTargetIcon a j 0 w else w"
  let ?u = "upd_group a (\<lambda>g. g\<lparr>g_icons := if g_icons g ! j = t then (g_icons g)[j := 0] else g_icons g\<rparr>) w"
  have s1: "same ?u (?step j w)"
  proof (cases "g_icons (this_group a w) ! j = t")
    case True
    have "?u = upd_group a (\<lambda>g. g\<lparr>g_icons := (g_icons g)[j := 0]\<rparr>) w"
      by (rule upd_group_cong) (use True in \<open>simp add: this_group_def\<close>)
    then show ?thesis using True Cons.prems(1) write_icon_same [of a j 0 w] by (simp add: SetTargetIcon_zero)
  next
    case False
    have "?u = upd_group a (\<lambda>g. g) w"
      by (rule upd_group_cong) (use False in \<open>simp add: this_group_def\<close>)
    then show ?thesis using False by (simp add: upd_group_id)
  qed
  have "alive a (?step j w)" using s1 Cons.prems(2) by (simp add: same_def)
  then have "same (upd_group a (\<lambda>g. g\<lparr>g_icons := clear_from t js (g_icons g)\<rparr>) (?step j w)) (fold ?step js (?step j w))"
    using Cons by simp
  moreover have "same (upd_group a (\<lambda>g. g\<lparr>g_icons := clear_from t js (g_icons g)\<rparr>) ?u)
      (upd_group a (\<lambda>g. g\<lparr>g_icons := clear_from t js (g_icons g)\<rparr>) (?step j w))"
    using s1 by (rule same_upd_group)
  moreover have "upd_group a (\<lambda>g. g\<lparr>g_icons := clear_from t js (g_icons g)\<rparr>) ?u =
      upd_group a (\<lambda>g. g\<lparr>g_icons := clear_from t (j # js) (g_icons g)\<rparr>) w"
    by (simp add: upd_group_upd_group clear_from_def)
  ultimately show ?case by (auto intro: same_trans)
qed

lemma clear_from_length [simp]: "length (clear_from t js ic) = length ic"
  by (induction js arbitrary: ic) (simp_all add: clear_from_def)

lemma clear_from_nth:
  assumes "t \<noteq> 0" and "i < length ic" and "\<forall>j \<in> set js. j < length ic"
  shows "clear_from t js ic ! i = (if i \<in> set js \<and> ic ! i = t then 0 else ic ! i)"
  using assms
proof (induction js arbitrary: ic)
  case (Cons j js)
  let ?ic = "if ic ! j = t then ic[j := 0] else ic"
  have "clear_from t (j # js) ic = clear_from t js ?ic" by (simp add: clear_from_def)
  also have "clear_from t js ?ic ! i = (if i \<in> set js \<and> ?ic ! i = t then 0 else ?ic ! i)"
    using Cons.prems by (intro Cons.IH) auto
  finally show ?case using Cons.prems by (auto simp: nth_list_update)
qed (simp add: clear_from_def)

lemma clear_from_all:
  assumes "t \<noteq> 0" and "length ic = 8"
  shows "clear_from t [0..<TARGET_ICON_COUNT] ic = map (\<lambda>x. if x = t then 0 else x) ic"
proof (rule nth_equalityI)
  fix i assume "i < length (clear_from t [0..<TARGET_ICON_COUNT] ic)"
  then show "clear_from t [0..<TARGET_ICON_COUNT] ic ! i = map (\<lambda>x. if x = t then 0 else x) ic ! i"
    using assms by (simp add: clear_from_nth TARGET_ICON_COUNT_def)
qed simp

text \<open>The list of icons after the request.\<close>

definition icons_with :: "nat \<Rightarrow> object_guid \<Rightarrow> object_guid list \<Rightarrow> object_guid list" where
  "icons_with i t ic = (map (\<lambda>x. if x = t \<and> t \<noteq> 0 then 0 else x) ic)[i := t]"

lemma SetTargetIcon_same:
  assumes "length (g_icons (this_group a w)) = 8" and "i < 8" and "alive a w"
  shows "same (upd_group a (\<lambda>g. g\<lparr>g_icons := icons_with i t (g_icons g)\<rparr>) w) (SetTargetIcon a i t w)"
proof (cases "t = 0")
  case True
  then show ?thesis using assms write_icon_same [of a i 0 w]
    by (simp add: SetTargetIcon_zero TARGET_ICON_COUNT_def icons_with_def map_idI)
next
  case False
  define c where "c = fold (\<lambda>j w. if g_icons (this_group a w) ! j = t then SetTargetIcon a j 0 w else w) [0..<TARGET_ICON_COUNT] w"
  have "same (upd_group a (\<lambda>g. g\<lparr>g_icons := clear_from t [0..<TARGET_ICON_COUNT] (g_icons g)\<rparr>) w) c"
    unfolding c_def by (rule fold_clear) (simp_all add: assms(3))
  then have 1: "same (upd_group a (\<lambda>g. g\<lparr>g_icons := (g_icons g)[i := t]\<rparr>)
      (upd_group a (\<lambda>g. g\<lparr>g_icons := clear_from t [0..<TARGET_ICON_COUNT] (g_icons g)\<rparr>) w))
      (upd_group a (\<lambda>g. g\<lparr>g_icons := (g_icons g)[i := t]\<rparr>) c)"
    by (rule same_upd_group)
  have 2: "upd_group a (\<lambda>g. g\<lparr>g_icons := (g_icons g)[i := t]\<rparr>)
      (upd_group a (\<lambda>g. g\<lparr>g_icons := clear_from t [0..<TARGET_ICON_COUNT] (g_icons g)\<rparr>) w) =
      upd_group a (\<lambda>g. g\<lparr>g_icons := icons_with i t (g_icons g)\<rparr>) w"
    unfolding upd_group_upd_group
    by (rule upd_group_cong) (use False assms(1) in \<open>simp add: this_group_def clear_from_all icons_with_def\<close>)
  have "\<not> TARGET_ICON_COUNT \<le> i" using assms(2) by (simp add: TARGET_ICON_COUNT_def)
  then have 3: "SetTargetIcon a i t w = write_icon a i t c"
    using False unfolding c_def by (subst SetTargetIcon.simps) (simp only: if_False if_True not_False_eq_True)
  show ?thesis unfolding 3 by (rule same_trans [OF 1 [unfolded 2] write_icon_same])
qed

lemma distinct_filter_update:
  assumes "distinct (filter (\<lambda>x. x \<noteq> 0) xs)" and "t \<notin> set xs \<or> t = 0"
  shows "distinct (filter (\<lambda>x. x \<noteq> (0 :: object_guid)) (xs[i := t]))"
  using assms
proof (induction xs arbitrary: i)
  case (Cons x xs)
  have "set (xs[j := t]) \<subseteq> insert t (set xs)" for j by (rule set_update_subset_insert)
  with Cons show ?case by (cases i) (auto split: if_splits)
qed simp

lemma distinct_filter_clear:
  "distinct (filter (\<lambda>x. x \<noteq> 0) xs) \<Longrightarrow> distinct (filter (\<lambda>x. x \<noteq> (0 :: object_guid)) (map (\<lambda>x. if x = t \<and> t \<noteq> 0 then 0 else x) xs))"
  by (induction xs) auto

lemma icons_ok_with: "icons_ok ic \<Longrightarrow> icons_ok (icons_with i t ic)"
  unfolding icons_ok_def icons_with_def
  by (intro conjI distinct_filter_update distinct_filter_clear) auto

lemma ok_SetTargetIcon:
  assumes ok: "grp_ok w" and al: "alive a w"
  shows "grp_ok (SetTargetIcon a i t w)"
proof (cases "i < 8")
  case True
  have g: "group_ok (this_group a w)" by (rule base_group [OF ok_parts(1) [OF ok]])
  then have "grp_ok (upd_group a (\<lambda>g. g\<lparr>g_icons := icons_with i t (g_icons g)\<rparr>) w)"
    using ok by (intro ok_upd_group) (simp_all add: group_ok_def counts_ok_def icons_ok_with)
  then show ?thesis
    using ok_same [OF SetTargetIcon_same] g True al by (simp add: group_ok_def icons_ok_def)
next
  case False
  then show ?thesis using ok by (subst SetTargetIcon.simps) (simp add: TARGET_ICON_COUNT_def)
qed

section \<open>Loot rules and rolls\<close>

text \<open>Rolls change players, groups and tables in no way the invariant sees.\<close>

lemma core_fields:
  assumes "core g' = core g"
  shows "g' = g\<lparr>g_rolls := g_rolls g'\<rparr>"
proof -
  have "(core g')\<lparr>g_rolls := g_rolls g'\<rparr> = (core g)\<lparr>g_rolls := g_rolls g'\<rparr>" using assms by simp
  then show ?thesis by (simp add: core_def)
qed

lemma ok_same_core:
  assumes ok: "grp_ok w" and c: "same_core w w'" and f: "gw_fault w' = gw_fault w" and ro: "rolls_ok w'"
  shows "grp_ok w'"
proof -
  have this': "\<exists>r. this_group a w' = (this_group a w)\<lparr>g_rolls := r\<rparr>" for a
  proof (cases "gw_groups w' a")
    case None
    then have "gw_groups w a = None" using same_core_group(1) [OF c] by simp
    with None show ?thesis by (intro exI [of _ "[]"]) (simp add: this_group_def Group_new_def)
  next
    case (Some g')
    then obtain g where "gw_groups w a = Some g" "core g' = core g" using same_core_group(2) [OF c] by blast
    with Some show ?thesis using core_fields by (auto simp: this_group_def)
  qed
  then obtain R where R: "\<And>a. this_group a w' = (this_group a w)\<lparr>g_rolls := R a\<rparr>" by metis
  have al: "alive a w' = alive a w" for a using same_core_group(1) [OF c] by (simp add: alive_def)
  have v: "gw_players w' = gw_players w" "gw_fresh w' = gw_fresh w" "gw_groupMap w' = gw_groupMap w"
    "gw_nextId w' = gw_nextId w" "gw_rows w' = gw_rows w" "gw_members w' = gw_members w"
    using c by (simp_all add: same_core_def)
  have m: "member a p w' = member a p w" "mrow (this_group a w') s = mrow (this_group a w) s" for a p s
    by (simp_all add: member_def R mrow_def)
  have old: "rolls_ok w" using ok by (simp add: grp_ok_def grp_base_def)
  have pl: "players_ok w' = players_ok w" by (simp add: players_ok_def views_quiet [OF v(1)])
  have "links_ok w' = links_ok w"
    by (simp add: links_ok_def m views_quiet [OF v(1)]) (simp add: R)
  moreover have "invites_ok w' = invites_ok w"
    by (simp add: invites_ok_def views_quiet [OF v(1)]) (simp add: R)
  moreover have "tables_ok w' = tables_ok w"
    by (simp add: tables_ok_def m v) (simp add: R)
  moreover have "group_ok (this_group a w') = group_ok (this_group a w)" for a by (simp add: R)
  ultimately have "grp_base w' = grp_base w" using f ro old pl by (simp add: grp_base_def al v)
  moreover have "settled a w' = settled a w" for a
    by (simp add: settled_def Let_def R al v row_ok_def)
  moreover have "rows_ok w' = rows_ok w" by (simp add: rows_ok_def v)
  ultimately show ?thesis using ok by (simp add: grp_ok_def)
qed

end
