(* ===== verification/GroupRolls.thy ===== *)
theory GroupRolls
  imports GroupChange
begin

text \<open>
  Rolls: what a vote, the start and the end of rolls do to the invariant, who wins a roll, and
  that the timer settles every roll of a loot.
\<close>

section \<open>Loots keep their items\<close>

definition kept :: "grp_world \<Rightarrow> grp_world \<Rightarrow> bool" where
  "kept w w' \<longleftrightarrow> quiet w w' \<and> gw_fault w' = gw_fault w \<and> (\<forall>l. length (loot_items l w') = length (loot_items l w))"

lemma kept_refl [simp]: "kept w w"
  by (simp add: kept_def)

lemma kept_trans: "kept w w' \<Longrightarrow> kept w' w'' \<Longrightarrow> kept w w''"
  by (auto simp: kept_def quiet_def)

lemma loot_items_prims [simp]:
  "loot_items l (w\<lparr>gw_out := x\<rparr>) = loot_items l w" "loot_items l (w\<lparr>gw_draws := n\<rparr>) = loot_items l w"
  "loot_items l (w\<lparr>gw_stored := y\<rparr>) = loot_items l w" "loot_items l (upd_group a f w) = loot_items l w"
  "loot_items l (gsend p pkt w) = loot_items l w"
  by (simp_all add: loot_items_def gsend_def)

lemma kept_out [simp]:
  "kept w (w'\<lparr>gw_out := x\<rparr>) \<longleftrightarrow> kept w w'" "kept w (w'\<lparr>gw_draws := n\<rparr>) \<longleftrightarrow> kept w w'"
  "kept w (w'\<lparr>gw_stored := y\<rparr>) \<longleftrightarrow> kept w w'" "kept w (gsend p pkt w') \<longleftrightarrow> kept w w'"
  by (auto simp: kept_def) (simp_all add: gsend_def)

lemma kept_sends [simp]:
  "kept w (send_voters r pkt w') \<longleftrightarrow> kept w w'"
  "kept w (SendLootStartRoll c r w') \<longleftrightarrow> kept w w'"
  "kept w (SendLootRoll g n t r w') \<longleftrightarrow> kept w w'"
  "kept w (SendLootRollWon g n v r w') \<longleftrightarrow> kept w w'"
  "kept w (SendLootAllPassed r w') \<longleftrightarrow> kept w w'"
  "kept w (SendEquipError env msg i p w') \<longleftrightarrow> kept w w'"
  "kept w (announce_vote p v r w') \<longleftrightarrow> kept w w'"
  by (simp_all add: send_voters_def SendLootStartRoll_def SendLootRoll_def SendLootRollWon_def
      SendLootAllPassed_def SendEquipError_def announce_vote_def split: roll_vote.split)

lemma length_items_upd_loot:
  "(\<And>lo. length (l_items (f lo)) = length (l_items lo)) \<Longrightarrow>
     length (loot_items k (upd_loot l f w)) = length (loot_items k w)"
  by (auto simp: loot_items_def upd_loot_def split: option.split)

lemma kept_upd_loot:
  "(\<And>lo. length (l_items (f lo)) = length (l_items lo)) \<Longrightarrow> kept w (upd_loot l f w') \<longleftrightarrow> kept w w'"
  by (auto simp: kept_def length_items_upd_loot) (simp_all add: upd_loot_def)

lemma kept_length: "kept w w' \<Longrightarrow> length (loot_items l w') = length (loot_items l w)"
  by (simp add: kept_def)

lemma kept_upd_item:
  "kept w w' \<Longrightarrow> i < length (loot_items l w) \<Longrightarrow> kept w (upd_item l i f w')"
  by (simp add: upd_item_def kept_upd_loot kept_length)

lemma kept_Notify [simp]: "kept w (NotifyItemRemoved l i w') \<longleftrightarrow> kept w w'"
  by (simp add: NotifyItemRemoved_def Let_def kept_upd_loot)

lemma kept_roll_loop: "kept w0 w \<Longrightarrow> kept w0 (snd (snd (roll_loop env kind r votes m g w)))"
  by (induction env kind r votes m g w rule: roll_loop.induct)
     (auto simp: urand_def Let_def split: prod.splits)

lemma kept_give:
  "kept w w' \<Longrightarrow> unat (r_itemSlot r) < length (loot_items l w) \<Longrightarrow> kept w (give_item l r p w')"
  by (simp add: give_item_def Let_def kept_upd_loot kept_upd_item)

lemma kept_award:
  assumes "kept w w'" and "unat (r_itemSlot r) < length (loot_items l w)"
  shows "kept w (award_need env l r p w')" "kept w (award_greed env l r p w')"
  using assms by (simp_all add: award_need_def award_greed_def Let_def kept_give kept_upd_item kept_length)

lemma kept_settle:
  assumes "unat (r_itemSlot r) < length (loot_items l w)"
  shows "kept w (settle_roll env l r w)"
proof -
  have "kept w w1" if "roll_loop env k r votes m g w = (x, y, w1)" for k votes m g x y w1
    using kept_roll_loop [OF kept_refl, of w env k r votes m g] that by simp
  then show ?thesis
    using assms
    by (auto simp: settle_roll_def kept_upd_item kept_award simp del: roll_loop.simps split: list.split prod.split)
qed

section \<open>The invariant of the rolls\<close>

text \<open>Nothing but the rolls of \<open>a\<close> changes, and the items stay.\<close>

definition rerolled :: "gaddr \<Rightarrow> grp_world \<Rightarrow> grp_world \<Rightarrow> bool" where
  "rerolled a w w' \<longleftrightarrow>
     same_core w w' \<and> gw_fault w' = gw_fault w \<and> (\<forall>l. length (loot_items l w') = length (loot_items l w)) \<and>
     (\<forall>b. b \<noteq> a \<longrightarrow> this_group b w' = this_group b w)"

lemma rerolled_refl [simp]: "rerolled a w w"
  by (simp add: rerolled_def)

lemma rerolled_trans: "rerolled a w w' \<Longrightarrow> rerolled a w' w'' \<Longrightarrow> rerolled a w w''"
  unfolding rerolled_def by (metis same_core_trans)

lemma kept_rerolled: "kept w w' \<Longrightarrow> rerolled a w w'"
  by (simp add: kept_def rerolled_def quiet_core)

lemma rerolled_rolls [simp]: "rerolled a w (upd_group a (\<lambda>g. g\<lparr>g_rolls := f g\<rparr>) w)"
  by (auto simp: rerolled_def)

lemma rolls_ok_rerolled:
  assumes "rerolled a w w'" and "rolls_ok w"
    and "\<And>r' l. r' \<in> set (g_rolls (this_group a w')) \<Longrightarrow> r_loot r' = Some l \<Longrightarrow> unat (r_itemSlot r') < length (loot_items l w)"
  shows "rolls_ok w'"
  unfolding rolls_ok_def
proof (intro allI ballI impI)
  fix b r l assume r: "r \<in> set (g_rolls (this_group b w'))" "r_loot r = Some l"
  have len: "length (loot_items l w') = length (loot_items l w)" using assms(1) by (simp add: rerolled_def)
  show "unat (r_itemSlot r) < length (loot_items l w')"
  proof (cases "b = a")
    case True
    with assms(3) r len show ?thesis by simp
  next
    case False
    with assms(1) r have "r \<in> set (g_rolls (this_group b w))" by (simp add: rerolled_def)
    with assms(2) r len show ?thesis by (simp add: rolls_ok_def)
  qed
qed

lemma ok_rerolled:
  assumes "grp_ok w" and "rerolled a w w'" and "rolls_ok w'"
  shows "grp_ok w'"
  using assms by (auto simp: rerolled_def intro: ok_same_core)

lemma ok_rolls: "grp_ok w \<Longrightarrow> rolls_ok w"
  by (simp add: grp_ok_def grp_base_def)

lemma rerolled_CountTheRoll:
  assumes "rolls_ok w" and "i < length (g_rolls (this_group a w))"
  shows "rerolled a w (CountTheRoll env a i w)" "rolls_ok (CountTheRoll env a i w)"
proof -
  let ?r = "the_roll a i w"
  have r: "?r \<in> set (g_rolls (this_group a w))" using assms(2) by (simp add: the_roll_def)
  show rr: "rerolled a w (CountTheRoll env a i w)"
  proof (cases "r_loot ?r")
    case None
    then show ?thesis by (simp add: CountTheRoll_def erase_roll_def)
  next
    case (Some l)
    then have "unat (r_itemSlot ?r) < length (loot_items l w)" using assms(1) r by (simp add: rolls_ok_def)
    then have "rerolled a w (settle_roll env l ?r w)" by (intro kept_rerolled kept_settle)
    then have "rerolled a w (erase_roll a i (settle_roll env l ?r w))"
      unfolding erase_roll_def by (rule rerolled_trans [OF _ rerolled_rolls])
    with Some show ?thesis by (simp add: CountTheRoll_def)
  qed
  show "rolls_ok (CountTheRoll env a i w)"
    by (rule rolls_ok_rerolled [OF rr assms(1)])
       (use assms(1) in \<open>auto simp: rolls_ok_def rolls_CountTheRoll dest: in_set_takeD in_set_dropD\<close>)
qed

lemma cast_vote_simps [simp]:
  "r_loot (cast_vote p v r) = r_loot r" "r_itemSlot (cast_vote p v r) = r_itemSlot r"
  by (simp_all add: cast_vote_def split: roll_vote.split)

lemma rerolled_vote_at:
  assumes "rolls_ok w" and i: "i < length (g_rolls (this_group a w))"
  shows "rerolled a w (snd (CountRollVote_at env a p i v w)) \<and> rolls_ok (snd (CountRollVote_at env a p i v w))"
proof -
  let ?r = "the_roll a i w"
  let ?w0 = "announce_vote p v ?r w"
  define w1 where "w1 = upd_roll a i (cast_vote p v) ?w0"
  have k: "kept w ?w0" by simp
  then have q: "this_group b ?w0 = this_group b w" for b by (simp add: kept_def)
  have rr: "rerolled a w w1"
    unfolding w1_def upd_roll_def by (rule rerolled_trans [OF kept_rerolled [OF k]]) simp
  have rolls1: "g_rolls (this_group a w1) = (g_rolls (this_group a w))[i := cast_vote p v ?r]"
    unfolding w1_def rolls_upd_roll q by (simp add: the_roll_def)
  have ok1: "rolls_ok w1"
  proof (rule rolls_ok_rerolled [OF rr assms(1)])
    fix r' l assume "r' \<in> set (g_rolls (this_group a w1))" and l: "r_loot r' = Some l"
    then have "r' \<in> set (g_rolls (this_group a w)) \<or> r' = cast_vote p v ?r"
      unfolding rolls1 using set_update_subset_insert [of "g_rolls (this_group a w)" i] by blast
    moreover have "?r \<in> set (g_rolls (this_group a w))" using i by (simp add: the_roll_def)
    ultimately show "unat (r_itemSlot r') < length (loot_items l w)" using assms(1) l by (auto simp: rolls_ok_def)
  qed
  have i1: "i < length (g_rolls (this_group a w1))" using i by (simp add: rolls1)
  have "rerolled a w (CountTheRoll env a i w1)" "rolls_ok (CountTheRoll env a i w1)"
    using rerolled_CountTheRoll [OF ok1 i1] rr rerolled_trans by blast+
  then show ?thesis
    using rr ok1 assms(1) by (simp add: CountRollVote_at_def Let_def w1_def [symmetric])
qed

lemma ok_CountRollVote:
  assumes ok: "grp_ok w"
  shows "grp_ok (snd (CountRollVote env a p t s v w))"
proof -
  have r: "rolls_ok w" using ok by (simp add: grp_ok_def grp_base_def)
  show ?thesis
  proof (cases "find (\<lambda>i. roll_matches t s (the_roll a i w)) [0..<length (g_rolls (this_group a w))]")
    case (Some i)
    then have "i < length (g_rolls (this_group a w))" using find_set by fastforce
    then have "grp_ok (snd (CountRollVote_at env a p i v w))"
      using rerolled_vote_at [OF r] ok_rerolled [OF ok] by blast
    then show ?thesis using Some by (simp add: CountRollVote_def)
  qed (simp add: CountRollVote_def ok)
qed

text \<open>The end of all rolls of a loot.\<close>

lemma EndRoll_loop_rerolled:
  "rolls_ok w \<Longrightarrow> rerolled a w (EndRoll_loop env a l i w) \<and> rolls_ok (EndRoll_loop env a l i w)"
proof (induction env a l i w rule: EndRoll_loop.induct)
  case (1 env a l i w)
  show ?case
  proof (cases "length (g_rolls (this_group a w)) \<le> i")
    case True
    then have "EndRoll_loop env a l i w = w" by (subst EndRoll_loop.simps) simp
    then show ?thesis using 1(3) by simp
  next
    case False
    then have i: "i < length (g_rolls (this_group a w))" by simp
    show ?thesis
    proof (cases "r_loot (the_roll a i w) = Some l")
      case True
      have "EndRoll_loop env a l i w = EndRoll_loop env a l 0 (CountTheRoll env a i w)"
        using True False by (subst EndRoll_loop.simps) simp
      then show ?thesis
        using 1(1) [OF False True] rerolled_CountTheRoll [OF 1(3) i] by (auto intro: rerolled_trans)
    next
      case no: False
      have "EndRoll_loop env a l i w = EndRoll_loop env a l (Suc i) w"
        using no False by (subst EndRoll_loop.simps) simp
      then show ?thesis using 1(2) [OF False no 1(3)] by simp
    qed
  qed
qed

lemma ok_EndRoll: "grp_ok w \<Longrightarrow> grp_ok (EndRoll env a l w)"
  unfolding EndRoll_def using EndRoll_loop_rerolled [OF ok_rolls, of w a env l 0] ok_rerolled by blast

text \<open>No roll of the loot is left.\<close>

lemma EndRoll_loop_none:
  "(\<forall>j < i. j < length (g_rolls (this_group a w)) \<longrightarrow> r_loot (the_roll a j w) \<noteq> Some l) \<Longrightarrow>
     \<forall>r \<in> set (g_rolls (this_group a (EndRoll_loop env a l i w))). r_loot r \<noteq> Some l"
proof (induction env a l i w rule: EndRoll_loop.induct)
  case (1 env a l i w)
  show ?case
  proof (cases "length (g_rolls (this_group a w)) \<le> i")
    case True
    then show ?thesis using 1(3) by (subst EndRoll_loop.simps) (auto simp: the_roll_def in_set_conv_nth)
  next
    case False
    show ?thesis
    proof (cases "r_loot (the_roll a i w) = Some l")
      case True
      then show ?thesis using 1(1) [OF False True] False by (subst EndRoll_loop.simps) simp
    next
      case no: False
      then have "\<forall>j < Suc i. j < length (g_rolls (this_group a w)) \<longrightarrow> r_loot (the_roll a j w) \<noteq> Some l"
        using 1(3) less_Suc_eq by auto
      then show ?thesis using 1(2) [OF False no] no False by (subst EndRoll_loop.simps) simp
    qed
  qed
qed

section \<open>The start of rolls\<close>

text \<open>The order of a hash table is an order of the same votes.\<close>

definition env_ok :: "grp_env \<Rightarrow> bool" where
  "env_ok env \<longleftrightarrow> (\<forall>votes. set (ge_tableOrder env votes) = set votes)"

lemma collect_fold:
  fixes r :: roll
  assumes "r_totalPlayersRolling r = 0 \<or> r_playerVote r \<noteq> []"
  shows "r_totalPlayersRolling (fold (\<lambda>(p, k) r. if P p
             then r\<lparr>r_playerVote := put_vote p ROLL_NOT_EMITED_YET (r_playerVote r),
                    r_totalPlayersRolling := r_totalPlayersRolling r + 1\<rparr> else r) ps r) = 0 \<or>
         r_playerVote (fold (\<lambda>(p, k) r. if P p
             then r\<lparr>r_playerVote := put_vote p ROLL_NOT_EMITED_YET (r_playerVote r),
                    r_totalPlayersRolling := r_totalPlayersRolling r + 1\<rparr> else r) ps r) \<noteq> []"
  using assms
proof (induction ps arbitrary: r)
  case (Cons x ps)
  obtain p k where x: "x = (p, k)" by (cases x)
  have "put_vote p ROLL_NOT_EMITED_YET vs \<noteq> []" for vs by (auto simp: put_vote_def set_vote_def)
  then show ?case using Cons by (simp add: x)
qed simp

lemma collect_votes:
  assumes "env_ok env" and "0 < r_totalPlayersRolling (collect_rollers env a target meth it w)"
  shows "r_playerVote (collect_rollers env a target meth it w) \<noteq> []"
proof -
  define r where "r = fold (\<lambda>(p, k) r. if may_roll env meth target it w p
      then r\<lparr>r_playerVote := put_vote p ROLL_NOT_EMITED_YET (r_playerVote r),
             r_totalPlayersRolling := r_totalPlayersRolling r + 1\<rparr> else r) (g_refs (this_group a w)) (new_roll target it)"
  have c: "collect_rollers env a target meth it w = r\<lparr>r_playerVote := ge_tableOrder env (r_playerVote r)\<rparr>"
    unfolding collect_rollers_def Let_def r_def ..
  have "r_totalPlayersRolling r = 0 \<or> r_playerVote r \<noteq> []"
    unfolding r_def by (rule collect_fold) (simp add: new_roll_def)
  with assms(2) have "r_playerVote r \<noteq> []" unfolding c by auto
  moreover have "set (ge_tableOrder env (r_playerVote r)) = set (r_playerVote r)" using assms(1) by (simp add: env_ok_def)
  ultimately show ?thesis unfolding c by auto
qed

lemma rerolled_push:
  assumes "rolls_ok w0" and "rerolled a w0 w" and "rolls_ok w" and "r_loot r = Some l" and "unat (r_itemSlot r) < length (loot_items l w0)"
  shows "rerolled a w0 (upd_group a (\<lambda>g. g\<lparr>g_rolls := g_rolls g @ [r]\<rparr>) w) \<and>
    rolls_ok (upd_group a (\<lambda>g. g\<lparr>g_rolls := g_rolls g @ [r]\<rparr>) w)"
proof -
  let ?w' = "upd_group a (\<lambda>g. g\<lparr>g_rolls := g_rolls g @ [r]\<rparr>) w"
  have rr: "rerolled a w ?w'" by simp
  have len: "length (loot_items k w) = length (loot_items k w0)" for k using assms(2) by (simp add: rerolled_def)
  have "rolls_ok ?w'"
    by (rule rolls_ok_rerolled [OF rr assms(3)])
       (use assms(3-5) len in \<open>auto simp: rolls_ok_def split: if_splits\<close>)
  with rr assms(2) show ?thesis by (auto intro: rerolled_trans)
qed

lemma rolls_ok_kept:
  assumes "kept w w'" and "rolls_ok w"
  shows "rolls_ok w'"
proof -
  have t: "this_group a w' = this_group a w" for a using assms(1) by (simp add: kept_def)
  show ?thesis using assms unfolding rolls_ok_def t by (simp add: kept_def)
qed

lemma rerolled_start:
  assumes env: "env_ok env" and w: "rolls_ok w"
  shows "rerolled a w (StartLootRoll env a target meth l slot w) \<and> rolls_ok (StartLootRoll env a target meth l slot w)"
proof (cases "unat slot < length (loot_items l w) \<and>
    0 < r_totalPlayersRolling (collect_rollers env a target meth (loot_items l w ! unat slot) w)")
  case True
  let ?r = "collect_rollers env a target meth (loot_items l w ! unat slot) w"
  let ?r1 = "?r\<lparr>r_loot := Some l, r_itemSlot := slot\<rparr>"
  show ?thesis
  proof (cases "r_totalPlayersRolling ?r = 1")
    case one: True
    obtain p v vs where vs: "r_playerVote ?r = (p, v) # vs"
      using collect_votes [OF env] True by (cases "r_playerVote ?r") auto
    have "StartLootRoll env a target meth l slot w =
        upd_group a (\<lambda>g. g\<lparr>g_rolls := g_rolls g @ [?r1\<lparr>r_playerVote := (p, ROLL_NEED) # vs\<rparr>]\<rparr>) w"
      using True one vs by (simp add: StartLootRoll_def Let_def)
    then show ?thesis using rerolled_push [OF w rerolled_refl w, of "?r1\<lparr>r_playerVote := (p, ROLL_NEED) # vs\<rparr>" l] True by simp
  next
    case False
    define w1 where "w1 = upd_item l (unat slot) (\<lambda>it. it\<lparr>li_is_blocked := True\<rparr>) (SendLootStartRoll LOOT_ROLL_TIMEOUT ?r1 w)"
    have k: "kept w w1" unfolding w1_def using True by (intro kept_upd_item) simp_all
    have "StartLootRoll env a target meth l slot w = upd_group a (\<lambda>g. g\<lparr>g_rolls := g_rolls g @ [?r1]\<rparr>) w1"
      using True False by (simp add: StartLootRoll_def Let_def w1_def)
    then show ?thesis
      using rerolled_push [OF w kept_rerolled [OF k] rolls_ok_kept [OF k w], of ?r1 l] True by simp
  qed
next
  case False
  then have "StartLootRoll env a target meth l slot w = w" by (auto simp: StartLootRoll_def Let_def)
  with w show ?thesis by simp
qed

lemma rerolled_loot_one:
  assumes "env_ok env" and "rolls_ok w" and "i < length (loot_items l w)"
  shows "rerolled a w (loot_one env a target meth l i w) \<and> rolls_ok (loot_one env a target meth l i w)"
proof -
  have "kept w (upd_item l i f w)" for f using assms(3) by (intro kept_upd_item) simp_all
  then have "rerolled a w (upd_item l i f w)" "rolls_ok (upd_item l i f w)" for f
    using assms(2) by (auto intro: kept_rerolled rolls_ok_kept)
  then show ?thesis
    using assms rerolled_start by (auto simp: loot_one_def Let_def split: option.split)
qed

lemma rerolled_fold:
  assumes "env_ok env" and "rolls_ok w" and "\<forall>i \<in> set is. i < length (loot_items l w)"
  shows "rerolled a w (fold (\<lambda>i. loot_one env a target meth l i) is w) \<and> rolls_ok (fold (\<lambda>i. loot_one env a target meth l i) is w)"
  using assms(2,3)
proof (induction "is" arbitrary: w)
  case (Cons i ns)
  let ?w1 = "loot_one env a target meth l i w"
  have 1: "rerolled a w ?w1" "rolls_ok ?w1" using rerolled_loot_one [OF assms(1)] Cons.prems by simp_all
  then have "length (loot_items l ?w1) = length (loot_items l w)" by (simp add: rerolled_def)
  then show ?case using Cons 1 by (auto intro: rerolled_trans)
qed simp

lemma ok_fold:
  assumes "env_ok env" and "grp_ok w"
  shows "grp_ok (fold (\<lambda>i. loot_one env a target meth l i) [0..<length (loot_items l w)] w)"
  using rerolled_fold [OF assms(1) ok_rolls [OF assms(2)]] ok_rerolled [OF assms(2)] by (metis atLeastLessThan_iff set_upt)

lemma ok_GroupLoot:
  "env_ok env \<Longrightarrow> grp_ok w \<Longrightarrow> grp_ok (GroupLoot env a target l w)"
  "env_ok env \<Longrightarrow> grp_ok w \<Longrightarrow> grp_ok (NeedBeforeGreed env a target l w)"
  unfolding GroupLoot_def NeedBeforeGreed_def by (rule ok_fold, assumption+)+

lemma ok_MasterLoot:
  assumes "grp_ok w"
  shows "grp_ok (MasterLoot env a target l w)"
proof -
  have k: "kept w (MasterLoot env a target l w)"
    by (simp add: MasterLoot_def Let_def kept_upd_loot)
  show ?thesis
    by (rule ok_rerolled [OF assms kept_rerolled [OF k] rolls_ok_kept [OF k ok_rolls [OF assms]]])
qed

end
