(* ===== verification/GroupSub.thy ===== *)
theory GroupSub
  imports GroupChange
begin

text \<open>
  A member's slot is rewritten: subgroups and assistants. The slot, the counters of the
  subgroups, the player's reference and the row of \<^verbatim>\<open>group_member\<close> change together.
\<close>

section \<open>A slot is rewritten\<close>

definition reslot :: "member_slot \<Rightarrow> member_slot \<Rightarrow> u8 list option \<Rightarrow> group \<Rightarrow> group" where
  "reslot s s' c g = g\<lparr>g_slots := upd_first (ms_guid s) (\<lambda>_. s') (g_slots g), g_counts := c\<rparr>"

lemma reslot_simps [simp]:
  "g_slots (reslot s s' c g) = upd_first (ms_guid s) (\<lambda>_. s') (g_slots g)" "g_Id (reslot s s' c g) = g_Id g"
  "g_invitees (reslot s s' c g) = g_invitees g" "g_refs (reslot s s' c g) = g_refs g"
  "g_leaderGuid (reslot s s' c g) = g_leaderGuid g" "g_leaderName (reslot s s' c g) = g_leaderName g"
  "g_raid (reslot s s' c g) = g_raid g" "g_bg (reslot s s' c g) = g_bg g" "g_mainTankGuid (reslot s s' c g) = g_mainTankGuid g"
  "g_mainAssistantGuid (reslot s s' c g) = g_mainAssistantGuid g" "g_rolls (reslot s s' c g) = g_rolls g"
  "g_counts (reslot s s' c g) = c" "g_icons (reslot s s' c g) = g_icons g"
  by (simp_all add: reslot_def)

definition reslotted :: "gaddr \<Rightarrow> member_slot \<Rightarrow> member_slot \<Rightarrow> u8 list option \<Rightarrow> grp_world \<Rightarrow> grp_world \<Rightarrow> bool" where
  "reslotted a s s' c w w' \<longleftrightarrow>
     (\<forall>b. this_group b w' = (if b = a then reslot s s' c (this_group a w) else this_group b w)) \<and>
     (\<forall>b. alive b w' = alive b w) \<and> (\<forall>q. online q w' = online q w) \<and> (\<forall>q. inWorld q w' = inWorld q w) \<and>
     (\<forall>q. invite_of q w' = invite_of q w) \<and> (\<forall>q. GetOriginalGroup q w' = GetOriginalGroup q w) \<and>
     (\<forall>q. GetGroup q w' = GetGroup q w) \<and>
     (\<forall>q. online q w \<longrightarrow> ref_subgroup MainRef q w' = (if q = ms_guid s then ms_group s' else ref_subgroup MainRef q w)) \<and>
     gw_fresh w' = gw_fresh w \<and> gw_groupMap w' = gw_groupMap w \<and> gw_nextId w' = gw_nextId w \<and>
     gw_rows w' = gw_rows w \<and> gw_loots w' = gw_loots w \<and> gw_fault w' = gw_fault w \<and>
     (\<exists>h. h (mrow (this_group a w) s) = mrow (this_group a w) s' \<and>
        gw_members w' = map (\<lambda>r. if mr_memberGuid r = GetCounter (ms_guid s) then h r else r) (gw_members w))"

lemma reslotted_same: "reslotted a s s' c w w1 \<Longrightarrow> same w1 w' \<Longrightarrow> reslotted a s s' c w w'"
  unfolding reslotted_def same_def by simp

lemma set_reslot:
  assumes "group_ok g" and "s \<in> set (g_slots g)" and "ms_guid s' = ms_guid s"
  shows "t \<in> set (g_slots (reslot s s' c g)) \<longleftrightarrow> t = s' \<or> t \<in> set (g_slots g) \<and> ms_guid t \<noteq> ms_guid s"
    "map ms_guid (g_slots (reslot s s' c g)) = map ms_guid (g_slots g)"
proof -
  have d: "distinct (map ms_guid (g_slots g))" using assms(1) by (simp add: group_ok_def)
  obtain ys zs where "g_slots g = ys @ s # zs" "g_slots (reslot s s' c g) = ys @ s' # zs"
    and "ms_guid s \<notin> ms_guid ` set ys" "ms_guid s \<notin> ms_guid ` set zs"
    using upd_first_split [OF d assms(2), of "\<lambda>_. s'"] by auto
  moreover from this have "\<forall>t \<in> set ys. ms_guid t \<noteq> ms_guid s" "\<forall>t \<in> set zs. ms_guid t \<noteq> ms_guid s"
    by (metis image_eqI)+
  ultimately show "t \<in> set (g_slots (reslot s s' c g)) \<longleftrightarrow> t = s' \<or> t \<in> set (g_slots g) \<and> ms_guid t \<noteq> ms_guid s"
    "map ms_guid (g_slots (reslot s s' c g)) = map ms_guid (g_slots g)" using assms(3) by auto
qed

lemma base_reslotted:
  assumes base: "grp_base w" and s: "s \<in> set (g_slots (this_group a w))" and s': "ms_guid s' = ms_guid s"
    and ok': "counts_ok (reslot s s' c (this_group a w))" and r: "reslotted a s s' c w w'"
  shows "grp_base w'"
proof -
  let ?g = "this_group a w" and ?p = "ms_guid s"
  have ok: "group_ok ?g" using base by (rule base_group)
  have mem: "member a ?p w" using s by (simp add: member_def)
  have this': "this_group b w' = (if b = a then reslot s s' c ?g else this_group b w)" for b
    using r by (simp add: reslotted_def)
  have guids: "map ms_guid (g_slots (this_group b w')) = map ms_guid (g_slots (this_group b w))" for b
    using set_reslot(2) [OF ok s s'] by (simp add: this')
  then have guidset: "ms_guid ` set (g_slots (this_group b w')) = ms_guid ` set (g_slots (this_group b w))" for b
    by (metis list.set_map)
  have mem': "member b q w' = member b q w" for b q by (simp add: member_def guidset)
  have other: "ms_guid t \<noteq> ?p" if "t \<in> set (g_slots (this_group b w))" "b \<noteq> a" for b t
    using that base_links(2) [OF base mem, of b] unfolding member_def by (metis image_eqI)
  have slots': "t \<in> set (g_slots (this_group b w')) \<longleftrightarrow>
      b = a \<and> t = s' \<or> t \<in> set (g_slots (this_group b w)) \<and> ms_guid t \<noteq> ?p" for b t
    using set_reslot(1) [OF ok s s', of t c] other [of t b] by (auto simp: this')
  have "group_ok (this_group b w')" for b
  proof (cases "b = a")
    case True
    have "distinct (map ms_guid (g_slots (this_group a w')))" using ok by (simp add: guids group_ok_def)
    moreover have "\<forall>t \<in> set (g_slots (this_group a w')). player_guid (ms_guid t)"
      using base_slot_guid [OF base] s s' by (auto simp: slots')
    ultimately show ?thesis using True ok ok' by (simp add: group_ok_def this')
  qed (simp add: this' base_group [OF base])
  moreover have "players_ok w'" using base_online [OF base] r by (simp add: players_ok_def reslotted_def)
  moreover have "links_ok w'"
  proof -
    have "GetGroup q w' = Some b \<longleftrightarrow> online q w' \<and> member b q w'" for q b
      using base_links(1) [OF base, of q b] r by (simp add: mem' reslotted_def)
    moreover have "ref_subgroup MainRef (ms_guid t) w' = ms_group t"
      if "t \<in> set (g_slots (this_group b w'))" "online (ms_guid t) w'" for t b
      using that base_subs [OF base, of t b] r s' by (auto simp: slots' reslotted_def)
    moreover have "distinct (g_refs (this_group b w'))" for b
      using base_refs(1) [OF base] by (simp add: this')
    moreover have "(q, k) \<in> set (g_refs (this_group b w')) \<longleftrightarrow> k = MainRef \<and> GetGroup q w' = Some b" for q k b
      using base_refs(2) [OF base, of q k b] r by (cases "b = a") (simp_all add: this' reslotted_def)
    moreover have "b = d" if "member b q w'" "member d q w'" for b d q
      using that base_links(2) [OF base] by (simp add: mem')
    ultimately show ?thesis by (simp add: links_ok_def)
  qed
  moreover have "invites_ok w'"
    using base_invites [OF base] r by (simp add: invites_ok_def this' reslotted_def)
  moreover have "tables_ok w'"
  proof -
    have mr: "mrow (this_group b w') t = mrow (this_group b w) t" for b t
      by (simp add: mrow_def this')
    obtain h where h: "h (mrow ?g s) = mrow ?g s'"
      and m': "gw_members w' = map (\<lambda>r. if mr_memberGuid r = GetCounter ?p then h r else r) (gw_members w)"
      using r unfolding reslotted_def by blast
    have old: "x \<in> set (gw_members w) \<and> mr_memberGuid x = GetCounter ?p \<longleftrightarrow> x = mrow ?g s" for x
    proof
      assume x: "x \<in> set (gw_members w) \<and> mr_memberGuid x = GetCounter ?p"
      then obtain b t where t: "t \<in> set (g_slots (this_group b w))" "ms_guid t = ?p" "x = mrow (this_group b w) t"
        using row_member [OF base base_slot_guid [OF base s]] by blast
      then have "b = a" using other by blast
      then have "t = s" using t slot_unique [OF ok _ s, of t] by simp
      with t \<open>b = a\<close> show "x = mrow ?g s" by simp
    next
      assume "x = mrow ?g s"
      then show "x \<in> set (gw_members w) \<and> mr_memberGuid x = GetCounter ?p"
        using s base_tables(1) [OF base] by (auto simp: mrow_def)
    qed
    have rows': "x \<in> set (gw_members w') \<longleftrightarrow> x = mrow ?g s' \<or> x \<in> set (gw_members w) \<and> mr_memberGuid x \<noteq> GetCounter ?p" for x
    proof
      assume "x \<in> set (gw_members w')"
      then obtain y where "y \<in> set (gw_members w)" "x = (if mr_memberGuid y = GetCounter ?p then h y else y)"
        by (auto simp: m')
      then show "x = mrow ?g s' \<or> x \<in> set (gw_members w) \<and> mr_memberGuid x \<noteq> GetCounter ?p"
        using old [of y] h by (auto split: if_splits)
    next
      let ?f = "\<lambda>r. if mr_memberGuid r = GetCounter ?p then h r else r"
      assume "x = mrow ?g s' \<or> x \<in> set (gw_members w) \<and> mr_memberGuid x \<noteq> GetCounter ?p"
      then have "\<exists>y \<in> set (gw_members w). x = ?f y"
      proof
        assume "x = mrow ?g s'"
        then show ?thesis using old [of "mrow ?g s"] h by (intro bexI [of _ "mrow ?g s"]) auto
      next
        assume "x \<in> set (gw_members w) \<and> mr_memberGuid x \<noteq> GetCounter ?p"
        then show ?thesis by (intro bexI [of _ x]) auto
      qed
      then show "x \<in> set (gw_members w')" unfolding m' set_map image_iff .
    qed
    have "x \<in> set (gw_members w') \<longleftrightarrow> (\<exists>b. \<exists>t \<in> set (g_slots (this_group b w')). x = mrow (this_group b w') t)" for x
    proof
      assume "x \<in> set (gw_members w')"
      then consider "x = mrow ?g s'" | "x \<in> set (gw_members w)" "mr_memberGuid x \<noteq> GetCounter ?p"
        using rows' by blast
      then show "\<exists>b. \<exists>t \<in> set (g_slots (this_group b w')). x = mrow (this_group b w') t"
      proof cases
        case 1
        then show ?thesis unfolding mr using slots' by blast
      next
        case 2
        then obtain b t where "t \<in> set (g_slots (this_group b w))" "x = mrow (this_group b w) t"
          using base_tables(1) [OF base] by blast
        with 2(2) show ?thesis unfolding mr using slots' by (metis mrow_def member_row.select_convs(2))
      qed
    next
      assume "\<exists>b. \<exists>t \<in> set (g_slots (this_group b w')). x = mrow (this_group b w') t"
      then obtain b t where t: "t \<in> set (g_slots (this_group b w'))" "x = mrow (this_group b w) t"
        unfolding mr by blast
      show "x \<in> set (gw_members w')"
      proof (cases "b = a \<and> t = s'")
        case True
        with t show ?thesis by (simp add: rows')
      next
        case False
        then have t': "t \<in> set (g_slots (this_group b w))" "ms_guid t \<noteq> ?p" using t(1) slots' by blast+
        then have "x \<in> set (gw_members w)" using t(2) base_tables(1) [OF base] by blast
        moreover have "mr_memberGuid x \<noteq> GetCounter ?p"
          using t(2) t' counter_inj [OF base_slot_guid [OF base t'(1)] base_slot_guid [OF base s]] by (simp add: mrow_def)
        ultimately show ?thesis by (simp add: rows')
      qed
    qed
    moreover have ne: "g_slots (this_group b w') \<noteq> [] \<longleftrightarrow> g_slots (this_group b w) \<noteq> []" for b
      using guids [of b] by (metis map_is_Nil_conv)
    moreover have id': "g_Id (this_group b w') = g_Id (this_group b w)" for b by (simp add: this')
    moreover have "gw_nextId w' = gw_nextId w" using r by (simp add: reslotted_def)
    ultimately show ?thesis
      using base_tables(2,3) [OF base] unfolding tables_ok_def by simp
  qed
  moreover have "rolls_ok w'"
    by (rule rolls_ok_from [OF base]) (use r in \<open>auto simp: this' reslotted_def split: if_splits\<close>)
  ultimately show ?thesis
    using base_rest [OF base] r by (simp add: grp_base_def reslotted_def)
qed

lemma ok_reslotted:
  assumes ok: "grp_ok w" and s: "s \<in> set (g_slots (this_group a w))" and s': "ms_guid s' = ms_guid s" "ms_name s' = ms_name s"
    and ok': "counts_ok (reslot s s' c (this_group a w))" and r: "reslotted a s s' c w w'"
  shows "grp_ok w'"
proof -
  let ?g = "this_group a w"
  have base: "grp_base w" using ok by (rule ok_parts)
  have g': "this_group b w' = (if b = a then reslot s s' c ?g else this_group b w)" for b
    using r by (simp add: reslotted_def)
  have ne: "g_slots ?g \<noteq> []" using s by auto
  have len: "length (g_slots (reslot s s' c ?g)) = length (g_slots ?g)"
    using set_reslot(2) [OF base_group [OF base] s s'(1), of c] by (metis length_map)
  then have ne': "g_slots (this_group a w') \<noteq> []" using ne by (simp add: g') (metis length_0_conv)
  have "settled a w'"
  proof -
    have st: "stored a w" and r0: "row_leaderGuid (the (gw_rows w (g_Id ?g))) = GetCounter (g_leaderGuid ?g)"
      using ok_parts(2) [OF ok, of a] unfolding settled_iff_stored [OF ne] by blast+
    obtain t where t: "t \<in> set (g_slots ?g)" "ms_guid t = g_leaderGuid ?g" "ms_name t = g_leaderName ?g"
      using ok_parts(2) [OF ok, of a] unfolding settled_iff_stored [OF ne] by blast
    have rows: "gw_rows w' = gw_rows w" "gw_groupMap w' = gw_groupMap w" using r by (simp_all add: reslotted_def)
    have "stored a w'" using st len by (simp add: stored_def Let_def g' rows)
    moreover have "\<exists>x \<in> set (g_slots (this_group a w')). ms_guid x = g_leaderGuid ?g \<and> ms_name x = g_leaderName ?g"
    proof (cases "ms_guid t = ms_guid s")
      case True
      then have "t = s" using slot_unique [OF base_group [OF base] t(1) s] by simp
      then show ?thesis using t(2,3) s' set_reslot(1) [OF base_group [OF base] s s'(1), of s' c] by (intro bexI [of _ s']) (simp_all add: g')
    next
      case False
      then show ?thesis using t set_reslot(1) [OF base_group [OF base] s s'(1), of t c] by (intro bexI [of _ t]) (simp_all add: g')
    qed
    moreover have "g_leaderGuid (this_group a w') = g_leaderGuid ?g" "g_leaderName (this_group a w') = g_leaderName ?g"
      "g_Id (this_group a w') = g_Id ?g" by (simp_all add: g')
    ultimately show ?thesis unfolding settled_iff_stored [OF ne'] using r0 rows(1) by metis
  qed
  moreover have "settled b w'" if "b \<noteq> a" for b
  proof -
    have "settled b w' = settled b w" by (rule settled_cong) (use r that in \<open>simp_all add: reslotted_def\<close>)
    with ok_parts(2) [OF ok] show ?thesis by simp
  qed
  moreover have "rows_ok w'" using r ok_parts(3) [OF ok] by (simp add: rows_ok_def reslotted_def)
  ultimately show ?thesis using base_reslotted [OF base s s'(1) ok' r] unfolding grp_ok_def by metis
qed

section \<open>Assistants\<close>

lemma upd_first_const:
  "distinct (map ms_guid xs) \<Longrightarrow> s \<in> set xs \<Longrightarrow> upd_first (ms_guid s) f xs = upd_first (ms_guid s) (\<lambda>_. f s) xs"
proof (induction xs)
  case (Cons x xs)
  then show ?case by (cases "x = s") (auto simp: image_iff)
qed simp

lemma member_slot: "member a p w \<Longrightarrow> \<exists>s. s \<in> set (g_slots (this_group a w)) \<and> ms_guid s = p"
  by (auto simp: member_def)

lemma ok_SetAssistant:
  assumes ok: "grp_ok w"
  shows "grp_ok (SetAssistant a guid state w)"
proof (cases "g_raid (this_group a w) \<and> member a guid w")
  case True
  let ?g = "this_group a w"
  have base: "grp_base w" using ok by (rule ok_parts)
  have gok: "group_ok ?g" using base by (rule base_group)
  obtain s where s: "s \<in> set (g_slots ?g)" "guid = ms_guid s" using True member_slot by blast
  let ?s' = "s\<lparr>ms_assistant := state\<rparr>"
  have al: "alive a w" using True member_alive by blast
  have d: "distinct (map ms_guid (g_slots ?g))" using gok by (simp add: group_ok_def)
  define w1 where "w1 = sql_update_member (GetCounter guid) (\<lambda>r. r\<lparr>mr_assistant := state\<rparr>) (upd_slot a guid (\<lambda>s. s\<lparr>ms_assistant := state\<rparr>) w)"
  have "this_group a (upd_slot a guid (\<lambda>s. s\<lparr>ms_assistant := state\<rparr>) w) = reslot s ?s' (g_counts ?g) ?g"
    using al upd_first_const [OF d s(1)] by (simp add: upd_slot_def reslot_def s(2))
  then have g1: "this_group b w1 = (if b = a then reslot s ?s' (g_counts ?g) ?g else this_group b w)" for b
    by (simp add: w1_def) (simp add: upd_slot_def)
  have r: "reslotted a s ?s' (g_counts ?g) w w1"
    unfolding reslotted_def
    using base_subs [OF base s(1)]
    by (simp add: g1) (auto simp: w1_def upd_slot_def s(2) mrow_def intro!: exI [of _ "\<lambda>r. r\<lparr>mr_assistant := state\<rparr>"])
  have "in_sub i (g_slots (reslot s ?s' c ?g)) = in_sub i (g_slots ?g) \<and>
      ms_group ` set (g_slots (reslot s ?s' c ?g)) = ms_group ` set (g_slots ?g)" for i c
  proof -
    obtain ys zs where "g_slots ?g = ys @ s # zs" "g_slots (reslot s ?s' c ?g) = ys @ ?s' # zs"
      using upd_first_split [OF d s(1), of "\<lambda>_. ?s'"] by auto
    then show ?thesis by simp
  qed
  note counts = this
  have "tally c (g_slots (reslot s ?s' d ?g)) = tally c (g_slots ?g)" for c d
  proof -
    have alt: "tally c xs \<longleftrightarrow> length c = 8 \<and> (\<forall>i<8. unat (c ! i) = in_sub i xs \<and> in_sub i xs \<le> 5) \<and>
        (\<forall>x \<in> ms_group ` set xs. unat x < 8)" for xs by (simp add: tally_def)
    show ?thesis unfolding alt using counts [of _ d] by simp
  qed
  then have "counts_ok (reslot s ?s' (g_counts ?g) ?g)"
    using gok True by (auto simp: counts_ok_def group_ok_def reslot_def)
  then have ok1: "grp_ok w1" using ok_reslotted [OF ok s(1) _ _ _ r] by simp
  have "\<not> g_bg (this_group a (upd_slot a guid (\<lambda>s. s\<lparr>ms_assistant := state\<rparr>) w))"
    using ok_nobg [OF ok, of a] al by (simp add: upd_slot_def)
  then have "setAssistantFlag a guid state w = (True, w1)"
    using True by (simp add: setAssistantFlag_def Let_def w1_def)
  then show ?thesis using True ok1 by (simp add: SetAssistant_def ok_SendUpdate)
next
  case False
  then show ?thesis using ok by (auto simp: SetAssistant_def setAssistantFlag_def)
qed

section \<open>Subgroups\<close>

lemma set_ref_offline: "\<not> online p w \<Longrightarrow> set_ref_subgroup k sub p w = w"
  by (simp add: set_ref_subgroup_def upd_player_def online_def fun_upd_idem)

text \<open>The move of one slot to another subgroup that has room.\<close>

definition moved :: "gaddr \<Rightarrow> member_slot \<Rightarrow> u8 \<Rightarrow> grp_world \<Rightarrow> grp_world" where
  "moved a s sub w =
     SubGroupCounterDecrease a (ms_group s)
       (set_ref_subgroup MainRef sub (ms_guid s)
         (sql_update_member (GetCounter (ms_guid s)) (\<lambda>r. r\<lparr>mr_subgroup := sub\<rparr>)
           (SubGroupCounterIncrease a sub (upd_slot a (ms_guid s) (\<lambda>s. s\<lparr>ms_group := sub\<rparr>) w))))"

lemma ok_moved:
  assumes ok: "grp_ok w" and s: "s \<in> set (g_slots (this_group a w))" and sub: "unat sub < 8" "sub \<noteq> ms_group s"
    and c: "g_counts (this_group a w) = Some c" "unat (c ! unat sub) < 5"
  shows "grp_ok (moved a s sub w)"
proof -
  let ?g = "this_group a w" and ?p = "ms_guid s" and ?s' = "s\<lparr>ms_group := sub\<rparr>"
  let ?c' = "c[unat sub := c ! unat sub + 1, unat (ms_group s) := c[unat sub := c ! unat sub + 1] ! unat (ms_group s) - 1]"
  have base: "grp_base w" using ok by (rule ok_parts)
  have gok: "group_ok ?g" using base by (rule base_group)
  have al: "alive a w" using s by (intro slots_alive) auto
  have d: "distinct (map ms_guid (g_slots ?g))" using gok by (simp add: group_ok_def)
  have raid: "g_raid ?g" "tally c (g_slots ?g)" using gok c(1) by (auto simp: group_ok_def counts_ok_def split: if_splits)
  have len: "length c = 8" "unat (ms_group s) < 8" using raid(2) s by (auto simp: tally_def)
  define u where "u = upd_slot a ?p (\<lambda>s. s\<lparr>ms_group := sub\<rparr>) w"
  have gu: "this_group b u = (if b = a then reslot s ?s' (Some c) ?g else this_group b w)" for b
    using al upd_first_const [OF d s, of "\<lambda>s. s\<lparr>ms_group := sub\<rparr>"] c(1) by (simp add: u_def upd_slot_def reslot_def)
  have "sub_in_range sub (this_group a u)" by (simp add: gu sub_in_range_def len sub)
  then have inc: "SubGroupCounterIncrease a sub u = upd_group a (\<lambda>g. g\<lparr>g_counts := map_option (\<lambda>c. c[unat sub := c ! unat sub + 1]) (g_counts g)\<rparr>) u"
    by (rule counter_upd(1))
  define v where "v = set_ref_subgroup MainRef sub ?p (sql_update_member (GetCounter ?p) (\<lambda>r. r\<lparr>mr_subgroup := sub\<rparr>) (SubGroupCounterIncrease a sub u))"
  have alu: "alive b u = alive b w" for b by (simp add: u_def upd_slot_def)
  have gv: "this_group b v = (if b = a then reslot s ?s' (Some (c[unat sub := c ! unat sub + 1])) ?g else this_group b w)" for b
    using al by (simp add: v_def inc gu alu reslot_def)
  have alv: "alive b v = alive b w" for b by (simp add: v_def inc alu)
  have "sub_in_range (ms_group s) (this_group a v)" by (simp add: gv sub_in_range_def len)
  then have dec: "moved a s sub w = upd_group a (\<lambda>g. g\<lparr>g_counts := map_option (\<lambda>c. c[unat (ms_group s) := c ! unat (ms_group s) - 1]) (g_counts g)\<rparr>) v"
    by (simp add: moved_def u_def [symmetric] v_def [symmetric] counter_upd(2))
  have g': "this_group b (moved a s sub w) = (if b = a then reslot s ?s' (Some ?c') ?g else this_group b w)" for b
    using al by (simp add: dec gv alv) (simp add: reslot_def)
  define v0 where "v0 = sql_update_member (GetCounter ?p) (\<lambda>r. r\<lparr>mr_subgroup := sub\<rparr>) (SubGroupCounterIncrease a sub u)"
  have v: "v = set_ref_subgroup MainRef sub ?p v0" by (simp add: v_def v0_def)
  have "gw_players v0 = gw_players u" by (simp add: v0_def inc)
  then have pl: "gw_players v0 = gw_players w" by (simp add: u_def upd_slot_def)
  note q0 = views_quiet [OF pl]
  have rs: "ref_subgroup MainRef q v = (if q = ?p then sub else ref_subgroup MainRef q w)" if "online q w" for q
    using that by (auto simp: v set_ref_subgroup_def links_set_ref pl online_def q0)
  have links: "GetGroup q v = GetGroup q w" "GetOriginalGroup q v = GetOriginalGroup q w" "invite_of q v = invite_of q w"
    "inWorld q v = inWorld q w" "online q v = online q w" for q
    by (auto simp: v set_ref_subgroup_def links_set_ref GetGroup_def GetOriginalGroup_def q0 ref_target_def pl split: option.split)
  have rest: "gw_fresh v = gw_fresh w" "gw_groupMap v = gw_groupMap w" "gw_nextId v = gw_nextId w"
     "gw_rows v = gw_rows w" "gw_loots v = gw_loots w" "gw_fault v = gw_fault w"
     "gw_members v = map (\<lambda>r. if mr_memberGuid r = GetCounter ?p then r\<lparr>mr_subgroup := sub\<rparr> else r) (gw_members w)"
    by (simp_all add: v v0_def inc) (simp_all add: u_def upd_slot_def)
  have "reslotted a s ?s' (Some ?c') w (moved a s sub w)"
    unfolding reslotted_def
    by (simp add: g' del: this_upd_group)
       (auto simp: dec rs alv links rest mrow_def intro!: exI [of _ "\<lambda>r. r\<lparr>mr_subgroup := sub\<rparr>"])
  moreover have "counts_ok (reslot s ?s' (Some ?c') ?g)"
    using raid tally_move [OF raid(2) d s sub(1) c(2) sub(2)] upd_first_const [OF d s, of "\<lambda>s. s\<lparr>ms_group := sub\<rparr>"]
    by (simp add: counts_ok_def)
  ultimately show ?thesis using ok_reslotted [OF ok s, of ?s' "Some ?c'"] by simp
qed

lemma setMembersGroup_member:
  assumes "grp_ok w" and "s \<in> set (g_slots (this_group a w))"
  shows "setMembersGroup a (ms_guid s) sub w =
    (True, sql_update_member (GetCounter (ms_guid s)) (\<lambda>r. r\<lparr>mr_subgroup := sub\<rparr>)
             (SubGroupCounterIncrease a sub (upd_slot a (ms_guid s) (\<lambda>s. s\<lparr>ms_group := sub\<rparr>) w)))"
proof -
  have bg: "\<not> g_bg (this_group a w)" using assms(1) by (rule ok_nobg)
  have al: "alive a w" using assms(2) by (intro slots_alive) auto
  have "g_bg (this_group a (SubGroupCounterIncrease a sub v)) = g_bg (this_group a v)" for v
    by (auto simp: SubGroupCounterIncrease_def fault_def split: option.split)
  then have "\<not> g_bg (this_group a (SubGroupCounterIncrease a sub (upd_slot a (ms_guid s) (\<lambda>s. s\<lparr>ms_group := sub\<rparr>) w)))"
    using bg al by (simp add: upd_slot_def)
  moreover have "IsMember (ms_guid s) (this_group a w)" using assms(2) by (auto simp: IsMember_iff)
  ultimately show ?thesis by (simp add: setMembersGroup_def)
qed

lemma GetGroup_member: "grp_ok w \<Longrightarrow> online p w \<Longrightarrow> member a p w \<Longrightarrow> GetGroup p w = Some a"
  using base_links(1) ok_parts(1) by blast

lemma ok_ChangeMembersGroup:
  assumes ok: "grp_ok w" and sub: "unat sub < 8" "HasFreeSlotSubGroup sub (this_group a w)"
  shows "grp_ok (ChangeMembersGroup_player a p sub w)" "grp_ok (ChangeMembersGroup a p sub w)"
proof -
  let ?g = "this_group a w"
  have base: "grp_base w" using ok by (rule ok_parts)
  obtain c where c: "g_counts ?g = Some c" "unat (c ! unat sub) < 5"
    using sub(2) by (auto simp: HasFreeSlotSubGroup_def group_limits split: option.splits)
  have raid: "g_raid ?g" using base_group [OF base, of a] c(1) by (auto simp: group_ok_def counts_ok_def split: if_splits)
  show online: "grp_ok (ChangeMembersGroup_player a p sub w)" for p
  proof (cases "online p w \<and> member a p w \<and> ref_subgroup MainRef p w \<noteq> sub")
    case True
    obtain s where s: "s \<in> set (g_slots ?g)" "ms_guid s = p" using True member_slot by blast
    have r: "ref_subgroup MainRef p w = ms_group s" using base_subs [OF base s(1)] True s(2) by simp
    define v0 where "v0 = sql_update_member (GetCounter p) (\<lambda>r. r\<lparr>mr_subgroup := sub\<rparr>)
             (SubGroupCounterIncrease a sub (upd_slot a p (\<lambda>s. s\<lparr>ms_group := sub\<rparr>) w))"
    have pl: "gw_players v0 = gw_players w"
      by (auto simp: v0_def SubGroupCounterIncrease_def fault_def upd_slot_def split: option.split)
    have "GetGroup p v0 = Some a" using GetGroup_member [OF ok] True by (simp add: views_quiet [OF pl])
    moreover have "setMembersGroup a p sub w = (True, v0)"
      using setMembersGroup_member [OF ok s(1), of sub] by (simp add: s(2) v0_def)
    moreover have "gw_players w p \<noteq> None" using True by (simp add: online_def)
    ultimately have "ChangeMembersGroup_player a p sub w = SendUpdate a (moved a s sub w)"
      using True raid r by (auto simp: ChangeMembersGroup_player_def moved_def s(2) v0_def)
    moreover have "grp_ok (moved a s sub w)" using True r by (intro ok_moved [OF ok s(1) sub(1) _ c]) auto
    ultimately show ?thesis by (simp add: ok_SendUpdate)
  next
    case False
    then have "ChangeMembersGroup_player a p sub w = w"
      by (auto simp: ChangeMembersGroup_player_def online_def setMembersGroup_def)
    with ok show ?thesis by simp
  qed
  show "grp_ok (ChangeMembersGroup a p sub w)"
  proof (cases "FindPlayer w p")
    case (Some pl)
    then show ?thesis using online raid by (simp add: ChangeMembersGroup_def)
  next
    case None
    then have off: "\<not> online p w" using base_FindPlayer [OF base] by (simp add: online_def)
    show ?thesis
    proof (cases "member a p w \<and> GetMemberGroup p ?g \<noteq> sub")
      case True
      obtain s where s: "s \<in> set (g_slots ?g)" "ms_guid s = p" using True member_slot by blast
      have gm: "GetMemberGroup p ?g = ms_group s"
        using find_slot_eq [OF base_group [OF base] s(1)] s(2) by (simp add: GetMemberGroup_def)
      have "\<not> online p (sql_update_member (GetCounter p) (\<lambda>r. r\<lparr>mr_subgroup := sub\<rparr>)
             (SubGroupCounterIncrease a sub (upd_slot a p (\<lambda>s. s\<lparr>ms_group := sub\<rparr>) w)))"
        using off by (auto simp: online_def SubGroupCounterIncrease_def fault_def upd_slot_def split: option.split)
      then have "ChangeMembersGroup a p sub w = SendUpdate a (moved a s sub w)"
        using True raid None gm setMembersGroup_member [OF ok s(1), of sub]
        by (simp add: ChangeMembersGroup_def moved_def s(2) set_ref_offline Let_def)
      moreover have "grp_ok (moved a s sub w)" using True gm by (intro ok_moved [OF ok s(1) sub(1) _ c]) auto
      ultimately show ?thesis by (simp add: ok_SendUpdate)
    next
      case False
      then have "ChangeMembersGroup a p sub w = w"
        using None by (auto simp: ChangeMembersGroup_def setMembersGroup_def Let_def)
      with ok show ?thesis by simp
    qed
  qed
qed

section \<open>Conversion to a raid\<close>

lemma ok_ConvertToRaid:
  assumes ok: "grp_ok w" and ne: "g_slots (this_group a w) \<noteq> []"
  shows "grp_ok (ConvertToRaid a w)"
proof -
  let ?g = "this_group a w"
  have al: "alive a w" using ne by (rule slots_alive)
  have gok: "group_ok ?g" by (rule base_group [OF ok_parts(1) [OF ok]])
  have sub8: "\<forall>s \<in> set (g_slots ?g). unat (ms_group s) < 8" and t: "tally (init_counts (g_slots ?g)) (g_slots ?g)"
    using gok tally_init tally_recount by (auto simp: group_ok_def counts_ok_def tally_def split: if_splits)
  let ?f = "\<lambda>g. g\<lparr>g_raid := True, g_counts := Some (init_counts (g_slots g))\<rparr>"
  have "initRaidSubGroupsCounter a (upd_group a (\<lambda>g. g\<lparr>g_raid := True\<rparr>) w) = upd_group a (\<lambda>g. g\<lparr>g_raid := True, g_counts := Some (init_counts (g_slots ?g))\<rparr>) w"
    using sub8 al by (simp add: initRaidSubGroupsCounter_def Let_def list_all_iff group_limits upd_group_upd_group)
  moreover have "upd_group a (\<lambda>g. g\<lparr>g_raid := True, g_counts := Some (init_counts (g_slots ?g))\<rparr>) w = upd_group a ?f w"
    by (rule upd_group_cong) (simp add: this_group_def)
  ultimately have i: "initRaidSubGroupsCounter a (upd_group a (\<lambda>g. g\<lparr>g_raid := True\<rparr>) w) = upd_group a ?f w" by simp
  have g: "group_ok (?f ?g)" using gok t by (simp add: group_ok_def counts_ok_def)
  have "grp_ok (sql_update_group (g_Id ?g) (\<lambda>r. r\<lparr>row_isRaid := True\<rparr>) (upd_group a ?f w))"
    by (rule ok_upd_row [OF ok ne]) (use g in \<open>simp_all add: row_ok_def keeps_members_def\<close>)
  moreover have "ConvertToRaid a w = SendUpdate a (sql_update_group (g_Id ?g) (\<lambda>r. r\<lparr>row_isRaid := True\<rparr>) (upd_group a ?f w))"
    unfolding ConvertToRaid_def i Let_def using ok_nobg [OF ok, of a] al by simp
  ultimately show ?thesis by (simp add: ok_SendUpdate)
qed

end
