(* ===== verification/GroupJoin.thy ===== *)
theory GroupJoin
  imports GroupChange
begin

text \<open>
  Inviting and accepting, login and logout: the operations that make groups, members and links.
\<close>

section \<open>Inviting\<close>

definition invited :: "gaddr \<Rightarrow> object_guid \<Rightarrow> grp_world \<Rightarrow> grp_world \<Rightarrow> bool" where
  "invited a p w w' \<longleftrightarrow>
     (\<forall>b. this_group b w' = (if b = a then (this_group a w)\<lparr>g_invitees := p # g_invitees (this_group a w)\<rparr>
                             else this_group b w)) \<and>
     (\<forall>b. alive b w' = alive b w) \<and> (\<forall>q. online q w' = online q w) \<and> (\<forall>q. inWorld q w' = inWorld q w) \<and>
     (\<forall>q. invite_of q w' = (if q = p then Some a else invite_of q w)) \<and>
     (\<forall>q. GetOriginalGroup q w' = GetOriginalGroup q w) \<and> (\<forall>q. GetGroup q w' = GetGroup q w) \<and>
     (\<forall>q. ref_subgroup MainRef q w' = ref_subgroup MainRef q w) \<and>
     gw_fresh w' = gw_fresh w \<and> gw_groupMap w' = gw_groupMap w \<and> gw_nextId w' = gw_nextId w \<and>
     gw_rows w' = gw_rows w \<and> gw_loots w' = gw_loots w \<and> gw_fault w' = gw_fault w \<and> gw_members w' = gw_members w"

lemma own_group_base: "grp_base w \<Longrightarrow> own_group p w = GetGroup p w"
  using base_group by (auto simp: own_group_def group_ok_def split: option.split)

text \<open>An invitation is accepted from nobody who has one, or a group.\<close>

lemma AddInvite_cases:
  assumes base: "grp_base w" and al: "alive a w"
  obtains "AddInvite a p w = (False, w)"
  | w1 where "AddInvite a p w = (True, w1)" "invited a p w w1" "online p w" "invite_of p w = None" "GetGroup p w = None"
proof (cases "online p w \<and> invite_of p w = None \<and> GetGroup p w = None")
  case True
  then obtain pl where pl: "gw_players w p = Some pl" "gp_invite pl = None"
    by (auto simp: online_def invite_of_def split: option.splits)
  have "p \<notin> set (g_invitees (this_group a w))" using True base_invites(1) [OF base, of p a] by simp
  then have "RemoveInvite a p w = w" by (simp add: RemoveInvite_def)
  then have "AddInvite a p w = (True, SetGroupInvite (Some a) p (upd_group a (\<lambda>g. g\<lparr>g_invitees := p # g_invitees g\<rparr>) w))"
    using pl True own_group_base [OF base, of p] by (simp add: AddInvite_def)
  moreover have "invited a p w (SetGroupInvite (Some a) p (upd_group a (\<lambda>g. g\<lparr>g_invitees := p # g_invitees g\<rparr>) w))"
    using True al by (simp add: invited_def)
  ultimately show thesis using True by (intro that(2)) simp_all
next
  case False
  then have "AddInvite a p w = (False, w)"
    using own_group_base [OF base, of p]
    by (auto simp: AddInvite_def online_def invite_of_def split: option.splits)
  then show thesis by (rule that(1))
qed

lemma base_invited:
  assumes base: "grp_base w" and v: "invited a p w w'" and p: "online p w" "invite_of p w = None" "GetGroup p w = None"
  shows "grp_base w'"
proof -
  have this': "this_group b w' = (this_group b w)\<lparr>g_invitees := if b = a then p # g_invitees (this_group a w) else g_invitees (this_group b w)\<rparr>" for b
    using v by (simp add: invited_def)
  have mem: "member b q w' = member b q w" for b q by (simp add: member_def this')
  have mr: "mrow (this_group b w') t = mrow (this_group b w) t" for b t by (simp add: mrow_def this')
  have notin: "p \<notin> set (g_invitees (this_group b w))" for b using p(2) base_invites(1) [OF base, of p b] by simp
  have "group_ok (this_group b w')" for b
  proof -
    have "distinct (if b = a then p # g_invitees (this_group a w) else g_invitees (this_group b w))"
      using base_group [OF base, of a] base_group [OF base, of b] notin by (simp add: group_ok_def)
    then show ?thesis unfolding this' by (rule group_ok_invitees [OF base_group [OF base]])
  qed
  moreover have "players_ok w'" using v base_online [OF base] unfolding invited_def players_ok_def by metis
  moreover have "links_ok w'"
    using base v unfolding grp_base_def links_ok_def mem by (simp add: this' invited_def)
  moreover have "invites_ok w'"
  proof -
    have "invite_of q w' = Some b \<longleftrightarrow> q \<in> set (g_invitees (this_group b w'))" for q b
      using v base_invites(1) [OF base, of q b] notin by (auto simp: this' invited_def)
    moreover have "GetGroup q w' = None" if "invite_of q w' \<noteq> None" for q
      using that v p(3) base_invites(2) [OF base, of q] by (auto simp: invited_def split: if_splits)
    ultimately show ?thesis by (simp add: invites_ok_def)
  qed
  moreover have "tables_ok w'"
    using base v unfolding grp_base_def tables_ok_def mr by (simp add: this' invited_def)
  moreover have "rolls_ok w'"
    by (rule rolls_ok_from [OF base]) (use v in \<open>auto simp: this' invited_def\<close>)
  ultimately show ?thesis using base_rest [OF base] v by (simp add: grp_base_def invited_def)
qed

text \<open>Everything but the group \<open>a\<close>, which is being formed, is as it should be.\<close>

definition forming :: "gaddr \<Rightarrow> grp_world \<Rightarrow> bool" where
  "forming a w \<longleftrightarrow>
     grp_base w \<and> (\<forall>b. b \<noteq> a \<longrightarrow> settled b w) \<and> rows_ok w \<and> (\<forall>i. gw_groupMap w i \<noteq> Some a) \<and> alive a w \<and>
     g_slots (this_group a w) = [] \<and> \<not> g_raid (this_group a w) \<and> g_mainTankGuid (this_group a w) = 0 \<and>
     g_mainAssistantGuid (this_group a w) = 0"

lemma forming_same: "same w w' \<Longrightarrow> forming a w' = forming a w"
  using base_same [of w w'] by (simp add: forming_def) (simp add: same_def)

lemma forming_settled:
  assumes "grp_ok w" and "alive a w" and "g_slots (this_group a w) = []"
  shows "forming a w" "g_leaderGuid (this_group a w) \<in> set (g_invitees (this_group a w))"
  using assms by (simp_all add: grp_ok_def forming_def settled_def Let_def)

lemma forming_ok:
  assumes "forming a w" and "g_leaderGuid (this_group a w) \<in> set (g_invitees (this_group a w))"
  shows "grp_ok w"
proof -
  have "settled b w" for b
    using assms by (cases "b = a") (simp_all add: forming_def settled_def Let_def)
  then show ?thesis using assms(1) by (simp add: grp_ok_def forming_def)
qed

lemma settled_invited:
  assumes "invited a p w w'"
  shows "settled b w \<Longrightarrow> settled b w'" "rows_ok w' = rows_ok w"
proof -
  show "settled b w'" if s: "settled b w"
  proof (cases "b = a")
    case True
    then show ?thesis using assms s by (auto simp: invited_def settled_def Let_def row_ok_def)
  next
    case False
    have "settled b w' = settled b w" by (rule settled_cong) (use assms False in \<open>simp_all add: invited_def\<close>)
    with s show ?thesis by simp
  qed
  show "rows_ok w' = rows_ok w" using assms by (simp add: rows_ok_def invited_def)
qed

lemma forming_invited:
  assumes "forming a w" and v: "invited a p w w'" and p: "online p w" "invite_of p w = None" "GetGroup p w = None"
  shows "forming a w'"
  using assms base_invited [OF _ v p] settled_invited [OF v] by (simp add: forming_def) (simp add: invited_def)

lemma ok_invited:
  assumes "grp_ok w" and v: "invited a p w w'" and p: "online p w" "invite_of p w = None" "GetGroup p w = None"
  shows "grp_ok w'"
  using assms(1) base_invited [OF _ v p] settled_invited [OF v] by (simp add: grp_ok_def)

lemma ok_AddInvite:
  assumes "grp_ok w" and "alive a w"
  shows "grp_ok (snd (AddInvite a p w))"
  using ok_parts(1) [OF assms(1)] assms(2)
proof (cases rule: AddInvite_cases [where p = p])
  case 1
  with assms show ?thesis by simp
next
  case (2 w1)
  then show ?thesis using ok_invited [OF assms(1)] by simp
qed

text \<open>A new group object.\<close>

lemma new_group_forming:
  assumes ok: "grp_ok w"
  shows "forming (gw_fresh w) (snd (new_group w))" and "fst (new_group w) = gw_fresh w"
    and "invite_of q (snd (new_group w)) = invite_of q w" and "gw_players (snd (new_group w)) = gw_players w"
proof -
  let ?a = "gw_fresh w" and ?w' = "snd (new_group w)"
  have base: "grp_base w" using ok by (rule ok_parts)
  have na: "\<not> alive ?a w" using base_rest(1) [OF base, of ?a] by blast
  have pl: "gw_players ?w' = gw_players w" by (simp add: new_group_def)
  note v = views_quiet [OF pl]
  have this': "this_group b ?w' = this_group b w" for b
    using na by (auto simp: new_group_def this_group_def alive_def)
  have al: "alive b ?w' \<longleftrightarrow> alive b w \<or> b = ?a" for b by (auto simp: new_group_def alive_def)
  have rest: "gw_fresh ?w' = gw_fresh w + 1" "gw_groupMap ?w' = gw_groupMap w" "gw_nextId ?w' = gw_nextId w"
    "gw_rows ?w' = gw_rows w" "gw_members ?w' = gw_members w" "gw_loots ?w' = gw_loots w" "gw_fault ?w' = gw_fault w"
    by (simp_all add: new_group_def)
  have m: "member b q ?w' = member b q w" for b q by (simp add: member_def this')
  have l: "loot_items k ?w' = loot_items k w" for k by (simp add: loot_items_def rest)
  have "grp_base ?w'"
    using base na by (auto simp: grp_base_def base_defs m v this' rest al l less_Suc_eq)
  moreover have "settled b ?w'" if "b \<noteq> ?a" for b
  proof -
    have "settled b ?w' = settled b w" by (rule settled_cong) (use that in \<open>simp_all add: this' al rest\<close>)
    with ok_parts(2) [OF ok] show ?thesis by simp
  qed
  moreover have g: "this_group ?a w = Group_new" using na by (rule not_alive_this)
  moreover have "gw_groupMap w i \<noteq> Some ?a" for i
    using settled_map [OF ok_parts(2) [OF ok], of i ?a] g by (simp add: Group_new_def)
  ultimately show "forming ?a ?w'"
    using ok_parts(3) [OF ok] by (simp add: forming_def al this' rest rows_ok_def Group_new_def)
  show "fst (new_group w) = ?a" by (simp add: new_group_def)
  show "invite_of q ?w' = invite_of q w" by (simp add: v)
  show "gw_players ?w' = gw_players w" by (rule pl)
qed

text \<open>A group that was only being formed is deleted.\<close>

lemma RemoveAllInvites_idem: "RemoveAllInvites a (RemoveAllInvites a w) = RemoveAllInvites a w"
proof -
  have "g_invitees (this_group a (RemoveAllInvites a w)) = []"
    by (cases "gw_groups (RemoveAllInvites a w) a")
       (auto simp: RemoveAllInvites_def alive_def Group_new_def not_alive_this upd_group_def this_group_def split: option.splits)
  moreover have "upd_group a (\<lambda>g. g\<lparr>g_invitees := []\<rparr>) (RemoveAllInvites a w) = RemoveAllInvites a w"
    by (simp add: RemoveAllInvites_def upd_group_upd_group)
  ultimately show ?thesis by (simp add: RemoveAllInvites_def [of a "RemoveAllInvites a w"])
qed

lemma ok_delete_forming:
  assumes f: "forming a w"
  shows "grp_ok (delete_group a w)"
proof -
  have base: "grp_base w" and no: "g_slots (this_group a w) = []" using f by (simp_all add: forming_def)
  have "delete_group a (RemoveAllInvites a w) = delete_group a w"
    by (simp add: delete_group_def RemoveAllInvites_idem)
  then have "ended a w (delete_group a w)" using forming_ended [OF base no] by simp
  then show ?thesis
    using f by (intro ok_ended [OF base]) (simp_all add: forming_def)
qed

text \<open>The leader of a group being formed has its first invitation.\<close>

lemma AddLeaderInvite_forming:
  assumes f: "forming a w" and inv: "AddLeaderInvite a p w = (b, w')"
  shows "forming a w'" and "b \<Longrightarrow> grp_ok w'"
proof -
  have base: "grp_base w" and al: "alive a w" using f by (simp_all add: forming_def)
  from base al have "forming a w' \<and> (b \<longrightarrow> grp_ok w')"
  proof (cases rule: AddInvite_cases [where p = p])
    case 1
    then show ?thesis using f inv by (simp add: AddLeaderInvite_def)
  next
    case (2 w1)
    let ?n = "case gw_players w1 p of None \<Rightarrow> [] | Some pl \<Rightarrow> gp_name pl"
    let ?f = "\<lambda>g. g\<lparr>g_leaderGuid := p, g_leaderName := ?n\<rparr>"
    let ?w2 = "upd_group a ?f w1"
    have f1: "forming a w1" by (rule forming_invited [OF f 2(2-5)])
    have "grp_base ?w2" using f1 base_group [of w1 a] by (intro base_upd_group) (simp_all add: forming_def group_ok_def counts_ok_def)
    moreover have "settled c ?w2 = settled c w1" if "c \<noteq> a" for c
      using that by (intro settled_cong) simp_all
    ultimately have f2: "forming a ?w2" using f1 by (auto simp: forming_def rows_ok_def)
    have s: "same ?w2 w'"
      using inv 2(1) by (auto simp: AddLeaderInvite_def Let_def intro: same_trans [OF same_upd_group [OF same_updateLeaderFlag] same_updateLeaderFlag])
    then have f': "forming a w'" using f2 forming_same by blast
    have "g_leaderGuid (this_group a w') = p" "p \<in> set (g_invitees (this_group a w'))"
      using s 2(2) al by (simp_all add: same_def invited_def)
    with f' show ?thesis using forming_ok by simp
  qed
  then show "forming a w'" "b \<Longrightarrow> grp_ok w'" by simp_all
qed

lemma ok_invite_new:
  assumes ok: "grp_ok w"
  shows "grp_ok (invite_new p me q name w)"
proof -
  obtain a w1 where n: "new_group w = (a, w1)" by (cases "new_group w")
  have f1: "forming a w1" using new_group_forming(1,2) [OF ok] n by simp
  obtain b w2 where l: "AddLeaderInvite a p w1 = (b, w2)" by (cases "AddLeaderInvite a p w1")
  have f2: "forming a w2" by (rule AddLeaderInvite_forming(1) [OF f1 l])
  show ?thesis
  proof (cases b)
    case False
    then show ?thesis using n l ok_delete_forming [OF f2] by (simp add: invite_new_def)
  next
    case True
    have ok2: "grp_ok w2" by (rule AddLeaderInvite_forming(2) [OF f1 l True])
    have "grp_base w2" "alive a w2" using f2 by (simp_all add: forming_def)
    then show ?thesis
    proof (cases rule: AddInvite_cases [where p = q])
      case 1
      then show ?thesis using n l True ok_delete_forming [OF f2] by (simp add: invite_new_def)
    next
      case (2 w3)
      then have "grp_ok w3" using ok_invited [OF ok2] by simp
      then have "grp_ok (invite_sent p me q name w3)"
        unfolding invite_sent_def by (intro ok_same [OF same_trans [OF same_gsend same_SendPartyResult]])
      then show ?thesis using n l True 2(1) by (simp add: invite_new_def)
    qed
  qed
qed

lemma GetGroup_alive: "grp_base w \<Longrightarrow> GetGroup p w = Some a \<Longrightarrow> member a p w \<and> alive a w \<and> online p w"
  using base_links(1) member_alive by blast

lemma ok_invite_checked:
  assumes ok: "grp_ok w"
  shows "grp_ok (invite_checked p me q target name w)"
proof -
  have base: "grp_base w" using ok by (rule ok_parts)
  have sent: "grp_ok (invite_sent p me q name w1)" if "grp_ok w1" for w1
    using that unfolding invite_sent_def by (intro ok_same [OF same_trans [OF same_gsend same_SendPartyResult]])
  have "grp_ok w1" if "AddInvite a q w = (b, w1)" "GetGroup p w = Some a" for a b w1
    using ok_AddInvite [OF ok, of a q] GetGroup_alive [OF base that(2)] that(1) by simp
  then show ?thesis
    using ok sent
    by (auto simp: invite_checked_def own_group_base [OF base] Let_def ok_result ok_invite_new
        split: option.split prod.split bool.split)
qed

lemma ok_HandleGroupInvite: "grp_ok w \<Longrightarrow> grp_ok (HandleGroupInviteOpcode env p name w)"
  by (auto simp: HandleGroupInviteOpcode_def ok_result ok_invite_checked split: option.split)

section \<open>Accepting\<close>

text \<open>A group gets its id and its row.\<close>

definition created :: "gaddr \<Rightarrow> object_guid \<Rightarrow> u8 list \<Rightarrow> int \<Rightarrow> grp_world \<Rightarrow> grp_world" where
  "created a l name t w =
     (let w1 = upd_group a (\<lambda>g. g\<lparr>g_leaderGuid := l, g_leaderName := name, g_leaderLastOnline := t,
                   g_lootMethod := GROUP_LOOT, g_looterGuid := l, g_lootThreshold := ITEM_QUALITY_UNCOMMON, g_Id := gw_nextId w\<rparr>)
                 (w\<lparr>gw_nextId := gw_nextId w + 1\<rparr>)
      in w1\<lparr>gw_members := filter (\<lambda>r. mr_groupId r \<noteq> gw_nextId w) (gw_members w1),
            gw_rows := (gw_rows w1)(gw_nextId w \<mapsto> group_row_of (this_group a w1))\<rparr>)"

lemma create_eq:
  assumes "forming a w"
  shows "create_rows a (create_fields env a l name w) = created a l name (ge_time env) w"
proof -
  let ?g = "this_group a w"
  have g: "\<not> g_bg ?g" "\<not> g_raid ?g" and al: "alive a w"
    using assms base_group [of w a] by (auto simp: forming_def group_ok_def)
  define w1 where "w1 = upd_group a (\<lambda>g. g\<lparr>g_leaderGuid := l, g_leaderName := name, g_leaderLastOnline := ge_time env, g_raid := g_bg g\<rparr>) w"
  have "\<not> g_raid (this_group a w1)" using g al by (simp add: w1_def)
  then have c: "create_fields env a l name w =
      upd_group a (\<lambda>g. g\<lparr>g_lootMethod := GROUP_LOOT, g_lootThreshold := ITEM_QUALITY_UNCOMMON, g_looterGuid := l\<rparr>) w1"
    by (simp add: create_fields_def Let_def w1_def)
  have c2: "create_fields env a l name w =
      upd_group a (\<lambda>g. g\<lparr>g_leaderGuid := l, g_leaderName := name, g_leaderLastOnline := ge_time env,
        g_lootMethod := GROUP_LOOT, g_looterGuid := l, g_lootThreshold := ITEM_QUALITY_UNCOMMON\<rparr>) w"
    unfolding c w1_def upd_group_upd_group
  proof (rule upd_group_cong)
    fix x assume "gw_groups w a = Some x"
    then have "?g = x" by (simp add: this_group_def)
    with g have "g_raid x = g_bg x" by auto
    then show "x\<lparr>g_leaderGuid := l, g_leaderName := name, g_leaderLastOnline := ge_time env, g_raid := g_bg x,
        g_lootMethod := GROUP_LOOT, g_lootThreshold := ITEM_QUALITY_UNCOMMON, g_looterGuid := l\<rparr> =
      x\<lparr>g_leaderGuid := l, g_leaderName := name, g_leaderLastOnline := ge_time env,
        g_lootMethod := GROUP_LOOT, g_looterGuid := l, g_lootThreshold := ITEM_QUALITY_UNCOMMON\<rparr>"
      by (cases x) simp
  qed
  have nobg: "\<not> g_bg (this_group a (create_fields env a l name w))" using g al by (simp add: c2)
  have sw: "upd_group a f (u\<lparr>gw_nextId := i\<rparr>) = (upd_group a f u)\<lparr>gw_nextId := i\<rparr>" for f u i
    by (simp add: upd_group_def)
  show ?thesis
    using nobg al unfolding create_rows_def created_def
    by (simp add: Let_def c2 sw upd_group_upd_group sql_delete_group_def)
qed

definition header :: "u32 \<Rightarrow> object_guid \<Rightarrow> u8 list \<Rightarrow> int \<Rightarrow> group \<Rightarrow> group" where
  "header i l name t g =
     g\<lparr>g_leaderGuid := l, g_leaderName := name, g_leaderLastOnline := t,
       g_lootMethod := GROUP_LOOT, g_looterGuid := l, g_lootThreshold := ITEM_QUALITY_UNCOMMON, g_Id := i\<rparr>"

lemma header_simps [simp]:
  "g_slots (header i l name t g) = g_slots g" "g_Id (header i l name t g) = i"
  "g_invitees (header i l name t g) = g_invitees g" "g_refs (header i l name t g) = g_refs g"
  "g_leaderGuid (header i l name t g) = l" "g_leaderName (header i l name t g) = name"
  "g_raid (header i l name t g) = g_raid g" "g_mainTankGuid (header i l name t g) = g_mainTankGuid g"
  "g_mainAssistantGuid (header i l name t g) = g_mainAssistantGuid g" "g_rolls (header i l name t g) = g_rolls g"
  "group_ok (header i l name t g) = group_ok g"
  by (simp_all add: header_def group_ok_def counts_ok_def)

lemma created_views:
  assumes "alive a w"
  shows "this_group b (created a l name t w) = (if b = a then header (gw_nextId w) l name t (this_group a w) else this_group b w)"
    "alive b (created a l name t w) = alive b w" "gw_players (created a l name t w) = gw_players w"
    "gw_fresh (created a l name t w) = gw_fresh w" "gw_groupMap (created a l name t w) = gw_groupMap w"
    "gw_nextId (created a l name t w) = gw_nextId w + 1" "gw_loots (created a l name t w) = gw_loots w"
    "gw_fault (created a l name t w) = gw_fault w"
    "gw_members (created a l name t w) = filter (\<lambda>r. mr_groupId r \<noteq> gw_nextId w) (gw_members w)"
    "gw_rows (created a l name t w) = (gw_rows w)(gw_nextId w \<mapsto> group_row_of (header (gw_nextId w) l name t (this_group a w)))"
  using assms by (auto simp: created_def header_def Let_def upd_group_def this_group_def alive_def split: option.splits)

lemma base_created:
  assumes f: "forming a w" and n: "gw_nextId w < gw_nextId w + 1"
  shows "grp_base (created a l name t w)"
proof -
  have base: "grp_base w" and al: "alive a w" and no: "g_slots (this_group a w) = []" using f by (simp_all add: forming_def)
  note cv = created_views [OF al]
  note q = views_quiet [OF cv(3)]
  have fields: "g_slots (this_group b (created a l name t w)) = g_slots (this_group b w)"
    "g_refs (this_group b (created a l name t w)) = g_refs (this_group b w)"
    "g_invitees (this_group b (created a l name t w)) = g_invitees (this_group b w)"
    "g_rolls (this_group b (created a l name t w)) = g_rolls (this_group b w)" for b
    by (simp_all add: cv)
  have mem: "member b p (created a l name t w) = member b p w" for b p by (simp add: member_def fields)
  have "group_ok (this_group b (created a l name t w))" for b using base_group [OF base] by (simp add: cv)
  moreover have "players_ok (created a l name t w)" using base_online [OF base] by (simp add: players_ok_def q)
  moreover have "links_ok (created a l name t w)"
    using base unfolding grp_base_def links_ok_def mem fields q by blast
  moreover have "invites_ok (created a l name t w)"
    using base unfolding grp_base_def invites_ok_def fields q by blast
  moreover have "tables_ok (created a l name t w)"
  proof -
    have lt: "g_Id (this_group b w) < gw_nextId w" if "g_slots (this_group b w) \<noteq> []" for b
      using base_tables(3) [OF base that] .
    have ids: "mr_groupId r \<noteq> gw_nextId w" if rm: "r \<in> set (gw_members w)" for r
    proof -
      obtain b s where s: "s \<in> set (g_slots (this_group b w))" and r: "r = mrow (this_group b w) s"
        using rm base_tables(1) [OF base] by blast
      have "g_slots (this_group b w) \<noteq> []" using s by (metis empty_iff empty_set)
      then have "g_Id (this_group b w) < gw_nextId w" by (rule lt)
      then show ?thesis unfolding r mrow_def by simp
    qed
    then have mm: "set (gw_members (created a l name t w)) = set (gw_members w)" by (auto simp: cv)
    have mr: "mrow (this_group b (created a l name t w)) s = mrow (this_group b w) s" if "s \<in> set (g_slots (this_group b w))" for b s
      using that no by (cases "b = a") (simp_all add: cv mrow_def)
    have "r \<in> set (gw_members (created a l name t w)) \<longleftrightarrow>
        (\<exists>b. \<exists>s \<in> set (g_slots (this_group b (created a l name t w))). r = mrow (this_group b (created a l name t w)) s)" for r
      unfolding mm fields using base_tables(1) [OF base, of r] mr by metis
    moreover have gid: "g_Id (this_group b (created a l name t w)) = g_Id (this_group b w)" if "g_slots (this_group b w) \<noteq> []" for b
      using that no by (cases "b = a") (simp_all add: cv)
    moreover have "b = c" if "g_slots (this_group b w) \<noteq> []" "g_slots (this_group c w) \<noteq> []"
      "g_Id (this_group b (created a l name t w)) = g_Id (this_group c (created a l name t w))" for b c
      using that base_tables(2) [OF base that(1,2)] gid by metis
    moreover have "g_Id (this_group b (created a l name t w)) < gw_nextId (created a l name t w)"
      if "g_slots (this_group b w) \<noteq> []" for b
      unfolding gid [OF that] cv(6) using lt [OF that] n by (rule less_trans)
    ultimately show ?thesis unfolding tables_ok_def fields by blast
  qed
  moreover have "rolls_ok (created a l name t w)"
    by (rule rolls_ok_from [OF base]) (auto simp: cv(7) fields)
  ultimately show ?thesis using base_rest [OF base] by (simp add: grp_base_def cv)
qed

text \<open>The group while its first two members join.\<close>

definition stage :: "gaddr \<Rightarrow> grp_world \<Rightarrow> bool" where
  "stage a w \<longleftrightarrow>
     (let g = this_group a w
      in grp_base w \<and> (\<forall>b. b \<noteq> a \<longrightarrow> settled b w) \<and> alive a w \<and> id_ready a w \<and> \<not> g_raid g \<and>
         gw_rows w (g_Id g) \<noteq> None \<and> row_ok (the (gw_rows w (g_Id g))) g \<and>
         (\<forall>i. gw_rows w i \<noteq> None \<longrightarrow> i = g_Id g \<or> gw_groupMap w i \<noteq> None))"

lemma stage_created:
  assumes f: "forming a w" and n: "gw_nextId w < gw_nextId w + 1"
  shows "stage a (created a l name t w)"
proof -
  have base: "grp_base w" and al: "alive a w" and no: "g_slots (this_group a w) = []" using f by (simp_all add: forming_def)
  note cv = created_views [OF al]
  have lt: "g_Id (this_group b w) < gw_nextId w" if "g_slots (this_group b w) \<noteq> []" for b
    using base_tables(3) [OF base that] .
  have ne: "g_Id (this_group b w) \<noteq> gw_nextId w" if "g_slots (this_group b w) \<noteq> []" for b
    using lt [OF that] by (rule less_imp_neq)
  have "settled b (created a l name t w)" if "b \<noteq> a" for b
  proof -
    have "settled b (created a l name t w) = settled b w"
      by (rule settled_cong) (use that ne [of b] in \<open>simp_all add: cv\<close>)
    with f that show ?thesis by (simp add: forming_def)
  qed
  moreover have "id_ready a (created a l name t w)"
  proof -
    show ?thesis using n ne by (simp add: id_ready_def cv)
  qed
  moreover have "gw_groupMap w i \<noteq> None" if "gw_rows w i \<noteq> None" for i
    using f that by (simp add: forming_def rows_ok_def)
  ultimately show ?thesis
    using base_created [OF f n] f by (simp add: stage_def Let_def cv al row_ok_def group_row_of_def forming_def)
qed

lemma stage_same:
  assumes "same w w'"
  shows "stage a w' = stage a w"
  using base_same [OF assms] assms by (simp add: stage_def) (simp add: same_def id_ready_def)

lemma stage_AddMember:
  assumes st: "stage a w" and p: "online p w" "GetGroup p w = None" "invite_of p w = None"
    and nf: "length (g_slots (this_group a w)) < 5"
  shows "\<exists>w' s t. AddMember a p name w = (True, w') \<and> stage a w' \<and> ms_guid s = p \<and> ms_name s = name \<and>
     (let g = this_group a w; g' = this_group a w'
      in g_slots g' = g_slots g @ [s] \<and> g_leaderGuid g' = g_leaderGuid g \<and> g_leaderName g' = g_leaderName g \<and> g_Id g' = g_Id g) \<and>
     (\<forall>q. online q w' = online q w) \<and> (\<forall>q. q \<noteq> p \<longrightarrow> GetGroup q w' = GetGroup q w) \<and> (\<forall>q. invite_of q w' = invite_of q w) \<and>
     gw_groupMap w' = gw_groupMap w \<and> gw_rows w' = gw_rows w \<and> alive a w'"
proof -
  let ?g = "this_group a w"
  have base: "grp_base w" and al: "alive a w" and idr: "id_ready a w" and nr: "\<not> g_raid ?g"
    using st by (simp_all add: stage_def Let_def)
  have full: "\<not> IsFull ?g" using nr nf by (simp add: IsFull_def group_limits)
  obtain sub w1 t w' where am: "AddMember a p name w = (True, w')" "has_room sub ?g"
    and j: "joined a \<lparr>ms_guid = p, ms_name = name, ms_group = sub, ms_assistant = False\<rparr> w w1" (is "joined a ?s w w1")
    and s: "same (upd_group a (\<lambda>g. g\<lparr>g_team := t\<rparr>) w1) w'"
    using AddMember_joined [OF base p al full] by blast
  have b1: "grp_base w1" using base_joined [OF base j] p al am(2) idr by simp
  have g1: "this_group b w1 = (if b = a then refs_add p (with_member ?s ?g) else this_group b w)" for b
    using j by (simp add: joined_def)
  have al1: "alive b w1 = alive b w" for b using j by (simp add: joined_def)
  have "grp_base (upd_group a (\<lambda>g. g\<lparr>g_team := t\<rparr>) w1)"
    using b1 base_group [OF b1, of a] by (intro base_upd_group) (simp_all add: group_ok_def counts_ok_def)
  moreover have "settled b (upd_group a (\<lambda>g. g\<lparr>g_team := t\<rparr>) w1)" if "b \<noteq> a" for b
  proof -
    have "settled b (upd_group a (\<lambda>g. g\<lparr>g_team := t\<rparr>) w1) = settled b w"
      by (rule settled_cong) (use that j in \<open>simp_all add: g1 al1\<close>, simp_all add: joined_def)
    with st that show ?thesis by (simp add: stage_def Let_def)
  qed
  moreover have "id_ready a (upd_group a (\<lambda>g. g\<lparr>g_team := t\<rparr>) w1)"
    using idr j by (simp add: id_ready_def g1 al1) (simp add: joined_def)
  ultimately have "stage a (upd_group a (\<lambda>g. g\<lparr>g_team := t\<rparr>) w1)"
    using st j al by (simp add: stage_def Let_def g1 al1 row_ok_def) (simp add: joined_def)
  then have "stage a w'" using stage_same [OF s] by simp
  moreover have "g_slots (this_group a w') = g_slots ?g @ [?s]" "g_leaderGuid (this_group a w') = g_leaderGuid ?g"
    "g_leaderName (this_group a w') = g_leaderName ?g" "g_Id (this_group a w') = g_Id ?g"
    using s al by (simp_all add: same_def g1 al1)
  moreover have "online q w' = online q w" "q \<noteq> p \<Longrightarrow> GetGroup q w' = GetGroup q w" "invite_of q w' = invite_of q w"
    "gw_groupMap w' = gw_groupMap w" "gw_rows w' = gw_rows w" "alive a w'" for q
    using s j al by (simp_all add: same_def al1) (simp_all add: joined_def)
  ultimately show ?thesis using am(1) by (intro exI [of _ w'] exI [of _ ?s]) (simp add: Let_def)
qed

lemma stage_AddGroup:
  assumes st: "stage a w"
  shows "stage a (AddGroup a w)"
proof -
  let ?w' = "AddGroup a w"
  have ag: "?w' = w\<lparr>gw_groupMap := (gw_groupMap w)(g_Id (this_group a w) \<mapsto> a)\<rparr>" by (simp add: AddGroup_def)
  have "settled b ?w'" if b: "b \<noteq> a" for b
  proof -
    have s: "settled b w" using st b by (simp add: stage_def Let_def)
    have "gw_groupMap w (g_Id (this_group a w)) \<noteq> Some b"
      using st b settled_map [OF s] by (auto simp: stage_def Let_def id_ready_def)
    then have "settled b ?w' = settled b w" using b by (intro settled_cong) (auto simp: ag)
    with s show ?thesis by simp
  qed
  moreover have "grp_base ?w'"
    using st by (simp add: stage_def Let_def grp_base_def base_defs member_def ag loot_items_def)
  moreover have "gw_groupMap ?w' i \<noteq> None" if "gw_rows w i \<noteq> None" for i
    using st that unfolding stage_def Let_def ag by auto
  ultimately show ?thesis
    using st by (simp add: stage_def Let_def id_ready_def) (simp add: ag)
qed

lemma stage_ok:
  assumes st: "stage a w" and len: "2 \<le> length (g_slots (this_group a w))"
    and l: "\<exists>s \<in> set (g_slots (this_group a w)). ms_guid s = g_leaderGuid (this_group a w) \<and> ms_name s = g_leaderName (this_group a w)"
    and m: "\<And>i. gw_groupMap w i = Some a \<longleftrightarrow> g_Id (this_group a w) = i"
  shows "grp_ok w"
proof -
  have ne: "g_slots (this_group a w) \<noteq> []" using len by auto
  have "settled a w" using st len l m ne by (simp add: settled_def stage_def Let_def)
  then have "settled b w" for b using st by (cases "b = a") (simp_all add: stage_def Let_def)
  moreover have "gw_groupMap w (g_Id (this_group a w)) = Some a" using m by simp
  ultimately show ?thesis using st by (auto simp: grp_ok_def stage_def Let_def rows_ok_def)
qed

lemma ok_AddMember:
  assumes ok: "grp_ok w" and ne: "g_slots (this_group a w) \<noteq> []" and nf: "\<not> IsFull (this_group a w)"
    and p: "online p w" "GetGroup p w = None" "invite_of p w = None"
  shows "grp_ok (snd (AddMember a p name w))"
proof -
  let ?g = "this_group a w"
  have base: "grp_base w" using ok by (rule ok_parts)
  have al: "alive a w" using ne by (rule slots_alive)
  have "tables_ok w" using base by (simp add: grp_base_def)
  then have idr: "id_ready a w" using ne by (rule id_ready_member)
  obtain sub w1 t w' where am: "AddMember a p name w = (True, w')" "has_room sub ?g"
    and j: "joined a \<lparr>ms_guid = p, ms_name = name, ms_group = sub, ms_assistant = False\<rparr> w w1" (is "joined a ?s w w1")
    and s: "same (upd_group a (\<lambda>g. g\<lparr>g_team := t\<rparr>) w1) w'"
    using AddMember_joined [OF base p al nf] by blast
  have b1: "grp_base w1" using base_joined [OF base j] p al am(2) idr by simp
  have g1: "this_group b w1 = (if b = a then refs_add p (with_member ?s ?g) else this_group b w)" for b
    using j by (simp add: joined_def)
  have rest: "alive b w1 = alive b w" "gw_rows w1 = gw_rows w" "gw_groupMap w1 = gw_groupMap w" for b
    using j by (simp_all add: joined_def)
  have "settled b w1" for b
  proof (cases "b = a")
    case True
    then show ?thesis using ok_parts(2) [OF ok, of a] ne by (auto simp: settled_def Let_def g1 rest row_ok_def)
  next
    case False
    have "settled b w1 = settled b w" by (rule settled_cong) (use False in \<open>simp_all add: g1 rest\<close>)
    with ok_parts(2) [OF ok] show ?thesis by simp
  qed
  moreover have "rows_ok w1" using ok_parts(3) [OF ok] by (simp add: rows_ok_def rest)
  ultimately have "grp_ok w1" using b1 by (simp add: grp_ok_def)
  then have "grp_ok (upd_group a (\<lambda>g. g\<lparr>g_team := t\<rparr>) w1)"
    using base_group [OF b1, of a] by (intro ok_upd_group) (simp_all add: group_ok_def counts_ok_def)
  then show ?thesis using ok_same [OF s] am(1) by simp
qed

lemma forming_uninvited:
  assumes f: "forming a w" and i: "invite_of p w = Some a" and u: "uninvited a p w w'"
  shows "forming a w'"
proof -
  have base: "grp_base w" using f by (simp add: forming_def)
  have "settled b w'" if "b \<noteq> a" for b
  proof -
    have "settled b w' = settled b w" by (rule settled_cong) (use u that in \<open>simp_all add: uninvited_def\<close>)
    with f that show ?thesis by (simp add: forming_def)
  qed
  moreover have "gw_rows w' = gw_rows w" "gw_groupMap w' = gw_groupMap w" "alive a w' = alive a w"
    "g_slots (this_group a w') = g_slots (this_group a w)" "g_raid (this_group a w') = g_raid (this_group a w)"
    "g_mainTankGuid (this_group a w') = g_mainTankGuid (this_group a w)"
    "g_mainAssistantGuid (this_group a w') = g_mainAssistantGuid (this_group a w)"
    using u by (simp_all add: uninvited_def)
  ultimately show ?thesis using f base_uninvited [OF base u i] by (simp add: forming_def rows_ok_def)
qed

text \<open>The first acceptance creates the group.\<close>

lemma accept_created_ok:
  assumes ok: "grp_ok w" and al: "alive a w" and nf: "\<not> IsFull (this_group a w)" and n: "gw_nextId w < gw_nextId w + 1"
    and p: "online p w" "GetGroup p w = None" "invite_of p w = None"
  shows "\<exists>w2. accept_created env a w = (True, w2) \<and> grp_ok (snd (AddMember a p name w2))"
proof (cases "g_slots (this_group a w) = []")
  case False
  then have "accept_created env a w = (True, w)"
    by (simp add: accept_created_def IsCreated_def GetMembersCount_def)
  then show ?thesis using ok_AddMember [OF ok False nf p] by simp
next
  case True
  let ?g = "this_group a w" and ?l = "g_leaderGuid (this_group a w)" and ?n = "g_leaderName (this_group a w)"
  have f: "forming a w" and l: "?l \<in> set (g_invitees ?g)" using forming_settled [OF ok al True] by simp_all
  have base: "grp_base w" using ok by (rule ok_parts)
  have il: "invite_of ?l w = Some a" using l base_invites(1) [OF base] by blast
  have onl: "online ?l w" using il by (rule invite_online)
  have lp: "?l \<noteq> p" using il p(3) by auto
  define w1 where "w1 = RemoveInvite a ?l w"
  have u: "uninvited a ?l w w1" unfolding w1_def by (rule RemoveInvite_uninvited [OF base il])
  have f1: "forming a w1" by (rule forming_uninvited [OF f il u])
  have v1: "online q w1 = online q w" "GetGroup q w1 = GetGroup q w" "invite_of q w1 = (if q = ?l then None else invite_of q w)"
    "gw_nextId w1 = gw_nextId w" "g_slots (this_group a w1) = []" "alive a w1" for q
    using u al True by (simp_all add: uninvited_def)
  define w2 where "w2 = created a ?l ?n (ge_time env) w1"
  have c: "create_rows a (create_fields env a ?l ?n w1) = w2" unfolding w2_def by (rule create_eq [OF f1])
  have st2: "stage a w2" unfolding w2_def using n by (intro stage_created [OF f1]) (simp add: v1)
  note cv = created_views [OF v1(6), where l = ?l and name = ?n and t = "ge_time env", folded w2_def]
  note q2 = views_quiet [OF cv(3)]
  have "online ?l w2" "GetGroup ?l w2 = None" "invite_of ?l w2 = None"
    using onl base_invites(2) [OF base, of ?l] il by (simp_all add: q2 v1)
  then obtain w3 s where am: "AddMember a ?l ?n w2 = (True, w3)" and st3: "stage a w3" and s: "ms_guid s = ?l" "ms_name s = ?n"
    and g3: "g_slots (this_group a w3) = g_slots (this_group a w2) @ [s]" "g_leaderGuid (this_group a w3) = g_leaderGuid (this_group a w2)"
      "g_leaderName (this_group a w3) = g_leaderName (this_group a w2)" "g_Id (this_group a w3) = g_Id (this_group a w2)"
    and v3: "\<forall>q. online q w3 = online q w2" "\<forall>q. q \<noteq> ?l \<longrightarrow> GetGroup q w3 = GetGroup q w2"
      "\<forall>q. invite_of q w3 = invite_of q w2" "gw_groupMap w3 = gw_groupMap w2"
    using stage_AddMember [OF st2, of ?l ?n] by (auto simp: Let_def cv v1)
  define w4 where "w4 = updateLeaderFlag a False w3"
  have s4: "same w3 w4" by (simp add: w4_def)
  have st4: "stage a w4" using st3 stage_same [OF s4] by simp
  define w5 where "w5 = AddGroup a w4"
  have st5: "stage a w5" unfolding w5_def by (rule stage_AddGroup [OF st4])
  have g5: "this_group b w5 = this_group b w3" for b using s4 by (simp add: w5_def AddGroup_def same_def)
  have pl5: "online q w5 = online q w3" "GetGroup q w5 = GetGroup q w3" "invite_of q w5 = invite_of q w3" for q
    using s4 by (simp_all add: w5_def AddGroup_def same_def)
  have m5: "gw_groupMap w5 = (gw_groupMap w2)(g_Id (this_group a w2) \<mapsto> a)"
    using s4 v3(4) g3(4) by (simp add: w5_def AddGroup_def same_def)
  have "FindPlayer w ?l \<noteq> None" using onl by (simp add: base_FindPlayer [OF base] online_def)
  then have ac: "accept_created env a w = (True, w5)"
    using True by (auto simp: accept_created_def IsCreated_def GetMembersCount_def Let_def w1_def [symmetric] Create_def c am w4_def [symmetric] w5_def)
  have "online p w5" "GetGroup p w5 = None" "invite_of p w5 = None"
    using p lp v3 by (simp_all add: pl5 q2 v1)
  moreover have slots5: "g_slots (this_group a w5) = [s]" by (simp add: g5 g3 cv v1)
  ultimately obtain w6 s' where am6: "AddMember a p name w5 = (True, w6)" and st6: "stage a w6"
    and g6: "g_slots (this_group a w6) = [s, s']" "g_leaderGuid (this_group a w6) = ?l"
      "g_leaderName (this_group a w6) = ?n" "g_Id (this_group a w6) = g_Id (this_group a w2)" "gw_groupMap w6 = gw_groupMap w5"
    using stage_AddMember [OF st5, of p name] by (auto simp: Let_def g5 g3 cv)
  have "gw_groupMap w2 i \<noteq> Some a" for i using f1 by (simp add: cv forming_def)
  then have "grp_ok w6"
    by (intro stage_ok [OF st6]) (use g6 s m5 in auto)
  with ac am6 show ?thesis by simp
qed

lemma ok_HandleGroupAccept:
  assumes ok: "grp_ok w" and n: "gw_nextId w < gw_nextId w + 1"
  shows "grp_ok (HandleGroupAcceptOpcode env p w)"
proof (cases "invite_of p w")
  case None
  with ok show ?thesis by (auto simp: HandleGroupAcceptOpcode_def invite_of_def split: option.splits)
next
  case (Some a)
  then obtain pl where pl: "gw_players w p = Some pl" "gp_invite pl = Some a"
    by (auto simp: invite_of_def split: option.splits)
  have base: "grp_base w" using ok by (rule ok_parts)
  have "p \<in> set (g_invitees (this_group a w))" using Some base_invites(1) [OF base] by blast
  then have al: "alive a w" by (rule invitee_alive)
  show ?thesis
  proof (cases "g_leaderGuid (this_group a w) = p")
    case True
    then show ?thesis using ok pl al by (auto simp: HandleGroupAcceptOpcode_def alive_def)
  next
    case False
    define w1 where "w1 = RemoveInvite a p w"
    have u: "uninvited a p w w1" unfolding w1_def by (rule RemoveInvite_uninvited [OF base Some])
    have ok1: "grp_ok w1" using False by (intro ok_uninvited [OF ok Some u]) simp
    have v: "online p w1" "GetGroup p w1 = None" "invite_of p w1 = None" "alive a w1" "gw_nextId w1 = gw_nextId w"
      using u al invite_online [OF Some] base_invites(2) [OF base, of p] Some by (simp_all add: uninvited_def)
    have H: "HandleGroupAcceptOpcode env p w =
        (if IsFull (this_group a w1) then SendPartyResult PARTY_OP_INVITE [] ERR_GROUP_FULL p w1
         else (case accept_created env a w1 of (False, w2) \<Rightarrow> w2 | (True, w2) \<Rightarrow> snd (AddMember a p (gp_name pl) w2)))"
      using pl al False by (auto simp: HandleGroupAcceptOpcode_def w1_def Let_def alive_def)
    show ?thesis
    proof (cases "IsFull (this_group a w1)")
      case True
      then show ?thesis using H ok_result [OF ok1] by simp
    next
      case nf: False
      have "gw_nextId w1 < gw_nextId w1 + 1" using n by (simp add: v)
      then obtain w2 where "accept_created env a w1 = (True, w2)" "grp_ok (snd (AddMember a p (gp_name pl) w2))"
        using accept_created_ok [OF ok1 v(4) nf _ v(1-3)] by blast
      then show ?thesis using H nf by simp
    qed
  qed
qed

end
