(* ===== verification/GroupSession.thy ===== *)
theory GroupSession
  imports GroupJoin
begin

text \<open>
  Players coming and going, the leaders they leave behind, and the requests that change the
  leader.
\<close>

section \<open>Login\<close>

text \<open>A player appears, linked to the group the tables put him in.\<close>

definition arrived :: "object_guid \<Rightarrow> grp_world \<Rightarrow> grp_world \<Rightarrow> bool" where
  "arrived p w w' \<longleftrightarrow>
     (\<forall>b. this_group b w' = (if member b p w then refs_add p (this_group b w) else this_group b w)) \<and>
     (\<forall>b. alive b w' = alive b w) \<and> (\<forall>q. online q w' \<longleftrightarrow> q = p \<or> online q w) \<and>
     (\<forall>q. inWorld q w' \<longleftrightarrow> q = p \<or> inWorld q w) \<and>
     (\<forall>q. invite_of q w' = invite_of q w) \<and> (\<forall>q. GetOriginalGroup q w' = GetOriginalGroup q w) \<and>
     (\<forall>q. q \<noteq> p \<longrightarrow> GetGroup q w' = GetGroup q w) \<and> (\<forall>b. GetGroup p w' = Some b \<longleftrightarrow> member b p w) \<and>
     (\<forall>q. q \<noteq> p \<longrightarrow> ref_subgroup MainRef q w' = ref_subgroup MainRef q w) \<and>
     (\<forall>b s. s \<in> set (g_slots (this_group b w)) \<longrightarrow> ms_guid s = p \<longrightarrow> ref_subgroup MainRef p w' = ms_group s) \<and>
     gw_fresh w' = gw_fresh w \<and> gw_groupMap w' = gw_groupMap w \<and> gw_nextId w' = gw_nextId w \<and>
     gw_rows w' = gw_rows w \<and> gw_loots w' = gw_loots w \<and> gw_fault w' = gw_fault w \<and> gw_members w' = gw_members w"

lemma ok_arrived:
  assumes ok: "grp_ok w" and p: "\<not> online p w" "player_guid p" and a: "arrived p w w'"
  shows "grp_ok w'"
proof -
  have base: "grp_base w" using ok by (rule ok_parts)
  have this': "this_group b w' = (if member b p w then refs_add p (this_group b w) else this_group b w)" for b
    using a by (simp add: arrived_def)
  have fields: "g_slots (this_group b w') = g_slots (this_group b w)" "g_invitees (this_group b w') = g_invitees (this_group b w)"
    "g_Id (this_group b w') = g_Id (this_group b w)" "g_rolls (this_group b w') = g_rolls (this_group b w)"
    "g_leaderGuid (this_group b w') = g_leaderGuid (this_group b w)" "g_leaderName (this_group b w') = g_leaderName (this_group b w)"
    "g_raid (this_group b w') = g_raid (this_group b w)" "g_mainTankGuid (this_group b w') = g_mainTankGuid (this_group b w)"
    "g_mainAssistantGuid (this_group b w') = g_mainAssistantGuid (this_group b w)" for b
    by (simp_all add: this')
  have mem: "member b q w' = member b q w" for b q by (simp add: member_def fields)
  have mr: "mrow (this_group b w') t = mrow (this_group b w) t" for b t by (simp add: mrow_def fields)
  have rest: "alive b w' = alive b w" "gw_fresh w' = gw_fresh w" "gw_groupMap w' = gw_groupMap w" "gw_nextId w' = gw_nextId w"
     "gw_rows w' = gw_rows w" "gw_loots w' = gw_loots w" "gw_fault w' = gw_fault w" "gw_members w' = gw_members w" for b
    using a by (simp_all add: arrived_def)
  have v: "online q w' \<longleftrightarrow> q = p \<or> online q w" "inWorld q w' \<longleftrightarrow> q = p \<or> inWorld q w" "invite_of q w' = invite_of q w"
    "GetOriginalGroup q w' = GetOriginalGroup q w" "q \<noteq> p \<Longrightarrow> GetGroup q w' = GetGroup q w"
    "GetGroup p w' = Some b \<longleftrightarrow> member b p w" "q \<noteq> p \<Longrightarrow> ref_subgroup MainRef q w' = ref_subgroup MainRef q w"
    "s \<in> set (g_slots (this_group b w)) \<Longrightarrow> ms_guid s = p \<Longrightarrow> ref_subgroup MainRef p w' = ms_group s" for q b s
    using a by (simp_all add: arrived_def)
  have off: "GetOriginalGroup p w = None" "invite_of p w = None" "GetGroup p w = None"
    using p(1) by (simp_all add: GetOriginalGroup_def GetGroup_def ref_target_def invite_of_def online_def)
  have "group_ok (this_group b w')" for b using base_group [OF base] by (simp add: this')
  moreover have "players_ok w'" using base_online [OF base] p(2) off by (auto simp: players_ok_def v)
  moreover have "links_ok w'"
  proof -
    have "GetGroup q w' = Some b \<longleftrightarrow> online q w' \<and> member b q w'" for q b
      using base_links(1) [OF base, of q b] by (cases "q = p") (simp_all add: v mem)
    moreover have "ref_subgroup MainRef (ms_guid t) w' = ms_group t"
      if "t \<in> set (g_slots (this_group b w'))" "online (ms_guid t) w'" for t b
    proof (cases "ms_guid t = p")
      case True
      then show ?thesis using v(8) [of t b] that(1) unfolding fields by metis
    next
      case False
      then have "ref_subgroup MainRef (ms_guid t) w = ms_group t"
        using base_subs [OF base, of t b] that by (simp add: v(1) fields)
      then show ?thesis using v(7) [OF False] by metis
    qed
    moreover have nr: "(p, MainRef) \<notin> set (g_refs (this_group b w))" for b
      using base_refs(2) [OF base, of p MainRef b] off by simp
    moreover have "distinct (g_refs (this_group b w'))" for b
      using base_refs(1) [OF base] nr by (simp add: this')
    moreover have "(q, k) \<in> set (g_refs (this_group b w')) \<longleftrightarrow> k = MainRef \<and> GetGroup q w' = Some b" for q k b
    proof (cases "q = p")
      case True
      have "(p, k) \<notin> set (g_refs (this_group b w))" using base_refs(2) [OF base, of p k b] off(3) by simp
      then show ?thesis using True by (simp add: this' v(6))
    next
      case False
      then show ?thesis using base_refs(2) [OF base, of q k b] by (simp add: this' v(5))
    qed
    moreover have "b = c" if "member b q w'" "member c q w'" for b c q
      using that base_links(2) [OF base] by (simp add: mem)
    ultimately show ?thesis by (simp add: links_ok_def)
  qed
  moreover have "invites_ok w'"
  proof -
    have "invite_of q w' = Some b \<longleftrightarrow> q \<in> set (g_invitees (this_group b w'))" for q b
      using base_invites(1) [OF base, of q b] by (simp add: v fields)
    moreover have "GetGroup q w' = None" if "invite_of q w' \<noteq> None" for q
      using that off(2) base_invites(2) [OF base, of q] by (cases "q = p") (simp_all add: v)
    ultimately show ?thesis by (simp add: invites_ok_def)
  qed
  moreover have "tables_ok w'" using base unfolding grp_base_def tables_ok_def mr by (simp add: fields rest)
  moreover have "rolls_ok w'" by (rule rolls_ok_from [OF base]) (auto simp: rest fields)
  ultimately have "grp_base w'" using base_rest [OF base] by (simp add: grp_base_def rest)
  moreover have "settled b w'" for b
    using ok_parts(2) [OF ok, of b] by (simp add: settled_def Let_def fields rest row_ok_def)
  ultimately show ?thesis using ok_parts(3) [OF ok] by (simp add: grp_ok_def rows_ok_def rest)
qed

text \<open>The row of a member names his group.\<close>

lemma member_row_find:
  assumes ok: "grp_ok w" and p: "player_guid p"
  shows "find (\<lambda>r. mr_memberGuid r = GetCounter p) (gw_members w) = None \<Longrightarrow> \<not> member a p w"
    and "find (\<lambda>r. mr_memberGuid r = GetCounter p) (gw_members w) = Some r \<Longrightarrow>
      \<exists>a s. s \<in> set (g_slots (this_group a w)) \<and> ms_guid s = p \<and> gw_groupMap w (mr_groupId r) = Some a"
proof -
  have base: "grp_base w" using ok by (rule ok_parts)
  show "\<not> member a p w" if "find (\<lambda>r. mr_memberGuid r = GetCounter p) (gw_members w) = None"
  proof
    assume "member a p w"
    then obtain s where "s \<in> set (g_slots (this_group a w))" "ms_guid s = p" by (auto simp: member_def)
    then have "mrow (this_group a w) s \<in> set (gw_members w)" "mr_memberGuid (mrow (this_group a w) s) = GetCounter p"
      using base_tables(1) [OF base] by (auto simp: mrow_def)
    with that show False by (auto simp: find_None_iff)
  qed
  assume f: "find (\<lambda>r. mr_memberGuid r = GetCounter p) (gw_members w) = Some r"
  obtain a s where s: "s \<in> set (g_slots (this_group a w))" "ms_guid s = p" and r: "r = mrow (this_group a w) s"
    using row_member [OF base p] find_set [OF f] by blast
  have ne: "g_slots (this_group a w) \<noteq> []" using s(1) by (metis empty_iff empty_set)
  then have "gw_groupMap w (g_Id (this_group a w)) = Some a" using settled_map [OF ok_parts(2) [OF ok]] by blast
  with s r show "\<exists>a s. s \<in> set (g_slots (this_group a w)) \<and> ms_guid s = p \<and> gw_groupMap w (mr_groupId r) = Some a"
    by (auto simp: mrow_def)
qed

definition new_player :: "object_guid \<Rightarrow> grp_player \<Rightarrow> grp_world \<Rightarrow> grp_world" where
  "new_player p pl w =
     w\<lparr>gw_players := (gw_players w)(p \<mapsto> pl\<lparr>gp_invite := None, gp_group := GroupReference_new, gp_orig := GroupReference_new\<rparr>)\<rparr>"

lemma new_player_views:
  "this_group b (new_player p pl w) = this_group b w" "alive b (new_player p pl w) = alive b w"
  "online q (new_player p pl w) \<longleftrightarrow> q = p \<or> online q w"
  "inWorld q (new_player p pl w) \<longleftrightarrow> (if q = p then gp_inWorld pl else inWorld q w)"
  "invite_of q (new_player p pl w) = (if q = p then None else invite_of q w)"
  "ref_target k q (new_player p pl w) = (if q = p then None else ref_target k q w)"
  "q \<noteq> p \<Longrightarrow> ref_subgroup k q (new_player p pl w) = ref_subgroup k q w"
  "gw_fresh (new_player p pl w) = gw_fresh w" "gw_groupMap (new_player p pl w) = gw_groupMap w"
  "gw_nextId (new_player p pl w) = gw_nextId w" "gw_rows (new_player p pl w) = gw_rows w"
  "gw_loots (new_player p pl w) = gw_loots w" "gw_fault (new_player p pl w) = gw_fault w"
  "gw_members (new_player p pl w) = gw_members w"
  by (auto simp: new_player_def view_defs get_ref_def GroupReference_new_def split: ref_kind.split)

lemma LoadGroup_arrived:
  assumes ok: "grp_ok w" and p: "\<not> online p w" "player_guid p" and pl: "gp_inWorld pl"
  shows "arrived p w (LoadGroup p (new_player p pl w))"
proof -
  have base: "grp_base w" using ok by (rule ok_parts)
  let ?w0 = "new_player p pl w"
  have off: "ref_target k p w = None" "invite_of p w = None" for k
    using p(1) by (simp_all add: ref_target_def invite_of_def online_def)
  note nv = new_player_views [where p = p and pl = pl and w = w]
  have leaderFlag: "arrived p w w1 \<Longrightarrow> arrived p w (UpdateGroupLeaderFlag False p w1)" for w1
    by (simp add: arrived_def)
  show ?thesis
  proof (cases "find (\<lambda>r. mr_memberGuid r = GetCounter p) (gw_members w)")
    case None
    then have no: "\<not> member b p w" for b using member_row_find(1) [OF ok p(2)] by blast
    have "s \<in> set (g_slots (this_group b w)) \<Longrightarrow> ms_guid s \<noteq> p" for b s using no [of b] by (auto simp: member_def)
    then have "arrived p w ?w0"
      using no off pl by (auto simp: arrived_def nv GetGroup_def GetOriginalGroup_def)
    then show ?thesis using None by (simp add: LoadGroup_def nv leaderFlag)
  next
    case (Some r)
    obtain a s where s: "s \<in> set (g_slots (this_group a w))" "ms_guid s = p" and m: "gw_groupMap w (mr_groupId r) = Some a"
      using member_row_find(2) [OF ok p(2) Some] by blast
    have mem: "member b p w \<longleftrightarrow> b = a" for b using s base_links(2) [OF base, of b p a] by (auto simp: member_def)
    have al: "alive a w" using mem member_alive by blast
    have gm: "GetMemberGroup p (this_group a w) = ms_group s"
      using find_slot_eq [OF base_group [OF base] s(1)] s(2) by (simp add: GetMemberGroup_def)
    have "unat (ms_group s) < 8"
      using base_group [OF base, of a] s(1) by (auto simp: group_ok_def counts_ok_def tally_def split: if_splits)
    then have lt: "\<not> 128 \<le> ms_group s" by (simp add: word_le_nat_alt)
    define w1 where "w1 = set_ref_subgroup MainRef (ms_group s) p (link_ref MainRef a p ?w0)"
    have on: "online p ?w0" by (simp add: nv)
    have uniq: "ms_group t = ms_group s" if "t \<in> set (g_slots (this_group b w))" "ms_guid t = p" for b t
    proof -
      have "b = a" using that mem by (auto simp: member_def)
      with that s slot_unique [OF base_group [OF base]] show ?thesis by metis
    qed
    have g1: "this_group b w1 = (if b = a then refs_add p (this_group a w) else this_group b w)" for b
      using al on by (simp add: w1_def this_link nv refs_add_def off)
    have v1: "alive b w1 = alive b w" "online q w1 \<longleftrightarrow> q = p \<or> online q w" "inWorld q w1 \<longleftrightarrow> q = p \<or> inWorld q w"
      "invite_of q w1 = invite_of q w" "GetOriginalGroup q w1 = GetOriginalGroup q w"
      "GetGroup q w1 = (if q = p then Some a else GetGroup q w)"
      "ref_subgroup MainRef q w1 = (if q = p then ms_group s else ref_subgroup MainRef q w)"
      "gw_fresh w1 = gw_fresh w" "gw_groupMap w1 = gw_groupMap w" "gw_nextId w1 = gw_nextId w"
      "gw_rows w1 = gw_rows w" "gw_loots w1 = gw_loots w" "gw_fault w1 = gw_fault w" "gw_members w1 = gw_members w" for b q
      using pl on off by (auto simp: w1_def nv GetGroup_def GetOriginalGroup_def)
    have "arrived p w w1"
      unfolding arrived_def g1 v1 mem using uniq by auto
    then show ?thesis using Some m gm lt by (simp add: LoadGroup_def nv SetGroupRef_def w1_def leaderFlag)
  qed
qed

lemma same_outOfRange [simp, intro]: "same w (UpdatePlayerOutOfRange env a p w)"
  by (auto simp: UpdatePlayerOutOfRange_def intro: same_out split: option.split)

lemma ok_UpdatePlayerOnlineStatus:
  assumes ok: "grp_ok w"
  shows "grp_ok (UpdatePlayerOnlineStatus env a p on w)"
proof -
  have s: "grp_ok (SendUpdate a w)" using ok_same [OF same_SendUpdate ok] .
  have "group_ok ((this_group a (SendUpdate a w))\<lparr>g_leaderLastOnline := t\<rparr>)" for t
    using base_group [OF ok_parts(1) [OF s], of a] by (simp add: group_ok_def counts_ok_def)
  then have "grp_ok (upd_group a (\<lambda>g. g\<lparr>g_leaderLastOnline := t\<rparr>) (SendUpdate a w))" for t
    by (intro ok_upd_group [OF s]) simp_all
  moreover have "grp_ok (UpdatePlayerOutOfRange env a p (upd_player p (\<lambda>pl. pl\<lparr>gp_updateMask := gp_updateMask pl OR GROUP_UPDATE_FULL\<rparr>) (SendUpdate a w)))"
    by (rule ok_same [OF same_trans [OF same_mask same_outOfRange] s])
  ultimately show ?thesis using ok s by (auto simp: UpdatePlayerOnlineStatus_def Let_def)
qed

lemma ok_login:
  assumes ok: "grp_ok w" and p: "\<not> online p w" "player_guid p" and pl: "gp_inWorld pl"
  shows "grp_ok (Player_login env p pl w)"
proof -
  let ?w1 = "LoadGroup p (new_player p pl w)"
  have ok1: "grp_ok ?w1" by (rule ok_arrived [OF ok p LoadGroup_arrived [OF ok p pl]])
  have "gw_groups ?w1 a \<noteq> None" if "GetGroup p ?w1 = Some a" for a
    using GetGroup_alive [OF ok_parts(1) [OF ok1] that] by (simp add: alive_def)
  then show ?thesis
    using ok1 ok_UpdatePlayerOnlineStatus by (auto simp: Player_login_def Let_def new_player_def split: option.split)
qed

section \<open>Logout\<close>

definition gone :: "object_guid \<Rightarrow> grp_world \<Rightarrow> grp_world \<Rightarrow> bool" where
  "gone p w w' \<longleftrightarrow>
     (\<forall>b. this_group b w' = (this_group b w)\<lparr>g_refs := remove1 (p, MainRef) (g_refs (this_group b w))\<rparr>) \<and>
     (\<forall>b. alive b w' = alive b w) \<and> (\<forall>q. online q w' \<longleftrightarrow> q \<noteq> p \<and> online q w) \<and>
     (\<forall>q. inWorld q w' \<longleftrightarrow> q \<noteq> p \<and> inWorld q w) \<and>
     (\<forall>q. invite_of q w' = (if q = p then None else invite_of q w)) \<and>
     (\<forall>q. GetOriginalGroup q w' = (if q = p then None else GetOriginalGroup q w)) \<and>
     (\<forall>q. GetGroup q w' = (if q = p then None else GetGroup q w)) \<and>
     (\<forall>q. q \<noteq> p \<longrightarrow> ref_subgroup MainRef q w' = ref_subgroup MainRef q w) \<and>
     gw_fresh w' = gw_fresh w \<and> gw_groupMap w' = gw_groupMap w \<and> gw_nextId w' = gw_nextId w \<and>
     gw_rows w' = gw_rows w \<and> gw_loots w' = gw_loots w \<and> gw_fault w' = gw_fault w \<and> gw_members w' = gw_members w"

lemma ok_gone:
  assumes ok: "grp_ok w" and p: "invite_of p w = None" and a: "gone p w w'"
  shows "grp_ok w'"
proof -
  have base: "grp_base w" using ok by (rule ok_parts)
  have this': "this_group b w' = (this_group b w)\<lparr>g_refs := remove1 (p, MainRef) (g_refs (this_group b w))\<rparr>" for b
    using a by (simp add: gone_def)
  have mem: "member b q w' = member b q w" for b q by (simp add: member_def this')
  have mr: "mrow (this_group b w') t = mrow (this_group b w) t" for b t by (simp add: mrow_def this')
  have rest: "alive b w' = alive b w" "gw_fresh w' = gw_fresh w" "gw_groupMap w' = gw_groupMap w" "gw_nextId w' = gw_nextId w"
     "gw_rows w' = gw_rows w" "gw_loots w' = gw_loots w" "gw_fault w' = gw_fault w" "gw_members w' = gw_members w" for b
    using a by (simp_all add: gone_def)
  have v: "online q w' \<longleftrightarrow> q \<noteq> p \<and> online q w" "inWorld q w' \<longleftrightarrow> q \<noteq> p \<and> inWorld q w"
    "invite_of q w' = (if q = p then None else invite_of q w)" "GetOriginalGroup q w' = (if q = p then None else GetOriginalGroup q w)"
    "GetGroup q w' = (if q = p then None else GetGroup q w)" "q \<noteq> p \<Longrightarrow> ref_subgroup MainRef q w' = ref_subgroup MainRef q w" for q
    using a by (simp_all add: gone_def)
  have "group_ok (this_group b w')" for b using base_group [OF base] by (simp add: this')
  moreover have "players_ok w'" using base_online [OF base] by (simp add: players_ok_def v)
  moreover have "links_ok w'"
  proof -
    have "GetGroup q w' = Some b \<longleftrightarrow> online q w' \<and> member b q w'" for q b
      using base_links(1) [OF base, of q b] by (simp add: v mem)
    moreover have "ref_subgroup MainRef (ms_guid t) w' = ms_group t"
      if "t \<in> set (g_slots (this_group b w'))" "online (ms_guid t) w'" for t b
    proof -
      have "ms_guid t \<noteq> p" "online (ms_guid t) w" using that(2) by (simp_all add: v)
      then show ?thesis using that(1) base_subs [OF base, of t b] v(6) by (simp add: this')
    qed
    moreover have "distinct (g_refs (this_group b w'))" for b using base_refs(1) [OF base] by (simp add: this')
    moreover have "(q, k) \<in> set (g_refs (this_group b w')) \<longleftrightarrow> k = MainRef \<and> GetGroup q w' = Some b" for q k b
    proof -
      have "(q, k) \<in> set (remove1 (p, MainRef) (g_refs (this_group b w))) \<longleftrightarrow>
          (q, k) \<noteq> (p, MainRef) \<and> (q, k) \<in> set (g_refs (this_group b w))"
        using base_refs(1) [OF base, of b] by (simp add: set_remove1_eq) blast
      then show ?thesis using base_refs(2) [OF base, of q k b] by (auto simp: this' v(5))
    qed
    moreover have "b = c" if "member b q w'" "member c q w'" for b c q
      using that base_links(2) [OF base] by (simp add: mem)
    ultimately show ?thesis by (simp add: links_ok_def)
  qed
  moreover have "invites_ok w'"
  proof -
    have "invite_of q w' = Some b \<longleftrightarrow> q \<in> set (g_invitees (this_group b w'))" for q b
      using base_invites(1) [OF base, of q b] p by (auto simp: v this')
    moreover have "GetGroup q w' = None" if "invite_of q w' \<noteq> None" for q
      using that base_invites(2) [OF base, of q] by (simp add: v split: if_splits)
    ultimately show ?thesis by (simp add: invites_ok_def)
  qed
  moreover have "tables_ok w'" using base unfolding grp_base_def tables_ok_def mr by (simp add: this' rest)
  moreover have "rolls_ok w'" by (rule rolls_ok_from [OF base]) (auto simp: rest this')
  ultimately have "grp_base w'" using base_rest [OF base] by (simp add: grp_base_def rest)
  moreover have "settled b w'" for b
    using ok_parts(2) [OF ok, of b] by (simp add: settled_def Let_def this' rest row_ok_def)
  ultimately show ?thesis using ok_parts(3) [OF ok] by (simp add: grp_ok_def rows_ok_def rest)
qed

lemma ok_logout:
  assumes ok: "grp_ok w"
  shows "grp_ok (Player_logout env p socket w)"
proof -
  define w1 where "w1 = UninviteFromGroup p w"
  have ok1: "grp_ok w1" and i1: "invite_of p w1 = None"
    unfolding w1_def by (rule ok_UninviteFromGroup [OF ok], rule UninviteFromGroup_invite [OF ok])
  define w2 where "w2 = (case GetGroup p w1 of
      None \<Rightarrow> w1 | Some a \<Rightarrow> if \<not> g_raid (this_group a w1) \<and> socket then RemoveFromGroup env (Some a) p w1 else w1)"
  have "grp_ok w2 \<and> invite_of p w2 = None"
  proof (cases "GetGroup p w1")
    case (Some a)
    then have "member a p w1" using GetGroup_alive [OF ok_parts(1) [OF ok1]] by blast
    then show ?thesis using Some ok1 i1 ok_RemoveFromGroup [OF ok1] RemoveFromGroup_invite [OF ok1] by (simp add: w2_def)
  qed (simp add: w2_def ok1 i1)
  then have ok2: "grp_ok w2" and i2: "invite_of p w2 = None" by simp_all
  define w3 where "w3 = (case GetGroup p w2 of None \<Rightarrow> w2 | Some a \<Rightarrow> UpdatePlayerOnlineStatus env a p False w2)"
  have ok3: "grp_ok w3" using ok2 ok_UpdatePlayerOnlineStatus by (auto simp: w3_def split: option.split)
  have i3: "invite_of p w3 = None"
    using i2 by (auto simp: w3_def UpdatePlayerOnlineStatus_def Let_def split: option.split) (simp_all add: SendUpdate_def)
  have base3: "grp_base w3" using ok3 by (rule ok_parts)
  define w4 where "w4 = unlink_ref OriginalRef p (unlink_ref MainRef p w3)"
  define w5 where "w5 = w4\<lparr>gw_players := (gw_players w4)(p := None)\<rparr>"
  have orig: "ref_target OriginalRef p w3 = None"
    using base_online(3) [OF base3, of p] by (cases "online p w3") (simp_all add: GetOriginalGroup_def ref_target_def online_def)
  then have w4: "w4 = unlink_ref MainRef p w3" by (simp add: w4_def unlink_ref_def [of OriginalRef])
  have g4: "this_group b w4 = (this_group b w3)\<lparr>g_refs := remove1 (p, MainRef) (g_refs (this_group b w3))\<rparr>" for b
  proof (cases "GetGroup p w3 = Some b")
    case True
    then show ?thesis using GetGroup_alive [OF base3 True] by (simp add: w4 this_unlink GetGroup_def)
  next
    case False
    then have "(p, MainRef) \<notin> set (g_refs (this_group b w3))" using base_refs(2) [OF base3] by blast
    with False show ?thesis by (simp add: w4 this_unlink GetGroup_def remove1_idem)
  qed
  have v5: "this_group b w5 = this_group b w4" "alive b w5 = alive b w4" "online q w5 \<longleftrightarrow> q \<noteq> p \<and> online q w4"
    "inWorld q w5 \<longleftrightarrow> q \<noteq> p \<and> inWorld q w4" "invite_of q w5 = (if q = p then None else invite_of q w4)"
    "ref_target k q w5 = (if q = p then None else ref_target k q w4)"
    "q \<noteq> p \<Longrightarrow> ref_subgroup k q w5 = ref_subgroup k q w4" for b q k
    by (auto simp: w5_def view_defs)
  have rest5: "gw_fresh w5 = gw_fresh w3" "gw_groupMap w5 = gw_groupMap w3" "gw_nextId w5 = gw_nextId w3"
     "gw_rows w5 = gw_rows w3" "gw_loots w5 = gw_loots w3" "gw_fault w5 = gw_fault w3" "gw_members w5 = gw_members w3"
    by (simp_all add: w5_def w4)
  have "gone p w3 w5"
    unfolding gone_def by (simp add: v5(1) g4) (auto simp: v5 rest5 GetGroup_def GetOriginalGroup_def w4)
  then have "grp_ok w5" by (rule ok_gone [OF ok3 i3])
  then show ?thesis
    unfolding Player_logout_def Let_def w5_def w4_def w3_def w2_def w1_def .
qed

section \<open>Leaders\<close>

lemma ok_led_member:
  assumes ok: "grp_ok w" and s: "s \<in> set (g_slots (this_group a w))" and l: "led a s w w'"
  shows "grp_ok w'"
proof -
  have ne: "g_slots (this_group a w) \<noteq> []" using s by (metis empty_iff empty_set)
  then have "stored a w" using ok_parts(2) [OF ok] settled_iff_stored by blast
  then show ?thesis using ok_led [OF ok_parts(1) [OF ok] _ ok_parts(2) [OF ok] ok_parts(3) [OF ok] s l] by blast
qed

lemma ok_ChangeLeader:
  assumes ok: "grp_ok w" and m: "member a p w"
  shows "grp_ok (ChangeLeader env a p w)"
proof -
  obtain s where s: "s \<in> set (g_slots (this_group a w))" "ms_guid s = p" using m by (auto simp: member_def)
  have "led a s w (ChangeLeader env a (ms_guid s) w)" by (rule ChangeLeader_led [OF ok_parts(1) [OF ok] s(1)])
  then show ?thesis using ok_led_member [OF ok s(1)] s(2) by simp
qed

lemma pick_leader_in: "pick_leader a w ss first \<in> insert first (ms_guid ` set ss)"
  by (induction a w ss first rule: pick_leader.induct) auto

lemma pick_leader_member:
  assumes "pick_leader a w ss 0 \<noteq> 0"
  shows "\<exists>s \<in> set ss. ms_guid s = pick_leader a w ss 0"
  using assms pick_leader_in [of a w ss 0] by auto

lemma ok_UpdateOfflineLeader:
  assumes ok: "grp_ok w"
  shows "grp_ok (UpdateOfflineLeader env a time delay w)"
proof -
  let ?g = "this_group a w" and ?c = "pick_leader a w (g_slots (this_group a w)) 0"
  have "chooseLeader env a True w = w \<or> (\<exists>s \<in> set (g_slots ?g). chooseLeader env a True w = ChangeLeader env a (ms_guid s) w)"
  proof (cases "?c = 0 \<or> GetMembersCount ?g < GetMembersMinCount ?g")
    case True
    then show ?thesis by (auto simp: chooseLeader_def Let_def guid_IsEmpty_def)
  next
    case False
    then obtain s where "s \<in> set (g_slots ?g)" "ms_guid s = ?c" using pick_leader_member by blast
    with False show ?thesis by (intro disjI2 bexI [of _ s]) (simp_all add: chooseLeader_def Let_def guid_IsEmpty_def)
  qed
  then have "grp_ok (chooseLeader env a True w)"
    using ok ok_ChangeLeader [OF ok] by (auto simp: member_def)
  then show ?thesis using ok by (simp add: UpdateOfflineLeader_def Let_def)
qed

end
