(* ===== verification/GroupRequests.thy ===== *)
theory GroupRequests
  imports GroupRolls GroupSub GroupSession
begin

text \<open>
  Every request of \<^verbatim>\<open>GroupHandler.cpp\<close> and every other event about groups keeps the invariant;
  the step relation and its machine come last.
\<close>

section \<open>Requests\<close>

lemma IsLeader_this: "IsLeader p (this_group a w) \<longleftrightarrow> g_leaderGuid (this_group a w) = p"
  by (simp add: IsLeader_def)

lemma group_slots: "grp_ok w \<Longrightarrow> GetGroup p w = Some a \<Longrightarrow> g_slots (this_group a w) \<noteq> []"
  using GetGroup_alive [OF ok_parts(1), of w p a] by (auto simp: member_def)

lemma party_of_ok: "grp_ok w \<Longrightarrow> party_of p w = GetGroup p w"
proof -
  assume ok: "grp_ok w"
  have "GetOriginalGroup p w = None"
    using base_online(3) [OF ok_parts(1) [OF ok], of p]
    by (cases "online p w") (auto simp: GetOriginalGroup_def ref_target_def online_def)
  then show ?thesis using ok_nobg [OF ok] by (auto simp: party_of_def split: option.split)
qed

lemma ok_decline:
  assumes "grp_ok w"
  shows "grp_ok (HandleGroupDeclineOpcode p w)"
proof -
  have al: "gw_groups w a \<noteq> None" if "gw_players w p = Some pl" "gp_invite pl = Some a" for a pl
  proof -
    have "invite_of p w = Some a" using that by (simp add: invite_of_def)
    then have "p \<in> set (g_invitees (this_group a w))" using base_invites(1) [OF ok_parts(1) [OF assms]] by blast
    then show ?thesis using invitee_alive alive_def by blast
  qed
  have "grp_ok (UninviteFromGroup p w)" using assms by (rule ok_UninviteFromGroup)
  then show ?thesis
    using assms by (auto simp: HandleGroupDeclineOpcode_def Let_def split: option.split intro: ok_gsend dest: al)
qed

lemma ok_uninvite_guid:
  assumes "grp_ok w"
  shows "grp_ok (HandleGroupUninviteGuidOpcode env p guid w)"
  using assms
  by (auto simp: HandleGroupUninviteGuidOpcode_def Let_def ok_result ok_RemoveFromGroup ok_UninviteFromGroup split: option.split)

lemma GetMemberGuid_member:
  assumes "GetMemberGuid name (this_group a w) \<noteq> 0"
  shows "member a (GetMemberGuid name (this_group a w)) w"
proof -
  obtain s where s: "find (\<lambda>s. ms_name s = name) (g_slots (this_group a w)) = Some s"
    using assms by (cases "find (\<lambda>s. ms_name s = name) (g_slots (this_group a w))") (simp_all add: GetMemberGuid_def)
  then show ?thesis using find_set [OF s] by (simp add: GetMemberGuid_def member_def)
qed

lemma ok_uninvite_name:
  assumes "grp_ok w"
  shows "grp_ok (HandleGroupUninviteOpcode env p name w)"
proof -
  have "grp_ok (RemoveFromGroup env (Some a) (GetMemberGuid n (this_group a w)) w)" if "GetMemberGuid n (this_group a w) \<noteq> 0" for n a
    using ok_RemoveFromGroup [OF assms GetMemberGuid_member [OF that]] .
  then show ?thesis
    using assms by (auto simp: HandleGroupUninviteOpcode_def Let_def ok_result ok_UninviteFromGroup split: option.split)
qed

lemma ok_set_leader:
  assumes "grp_ok w"
  shows "grp_ok (HandleGroupSetLeaderOpcode env p guid w)"
proof -
  have "member a guid w" if "GetGroup guid w = Some a" for a
    using GetGroup_alive [OF ok_parts(1) [OF assms] that] by blast
  then show ?thesis
    using assms ok_ChangeLeader by (auto simp: HandleGroupSetLeaderOpcode_def split: option.split)
qed

lemma ok_leave:
  assumes ok: "grp_ok w"
  shows "grp_ok (HandleGroupDisbandOpcode env p w)"
proof -
  let ?w1 = "SendPartyResult PARTY_OP_LEAVE (name_of p w) ERR_PARTY_RESULT_OK p w"
  have ok1: "grp_ok ?w1" using ok by (rule ok_result)
  have "grp_ok (RemoveFromGroup env (GetGroup p ?w1) p ?w1)"
  proof (cases "GetGroup p ?w1")
    case None
    then show ?thesis using ok1 by (simp add: RemoveFromGroup_def)
  next
    case (Some a)
    then show ?thesis using GetGroup_alive [OF ok_parts(1) [OF ok1] Some] ok_RemoveFromGroup [OF ok1] by simp
  qed
  then show ?thesis using ok by (simp add: HandleGroupDisbandOpcode_def Let_def)
qed

lemma ok_loot_method:
  assumes ok: "grp_ok w"
  shows "grp_ok (HandleLootMethodOpcode p m master th w)"
proof -
  have "grp_ok (upd_group a (\<lambda>g. g\<lparr>g_lootMethod := m, g_looterGuid := master, g_lootThreshold := th\<rparr>) w)" for a
    using base_group [OF ok_parts(1) [OF ok], of a]
    by (intro ok_upd_group [OF ok]) (simp_all add: group_ok_def counts_ok_def)
  then show ?thesis using ok by (auto simp: HandleLootMethodOpcode_def intro: ok_SendUpdate split: option.split)
qed

lemma ok_loot_roll: "grp_ok w \<Longrightarrow> grp_ok (HandleLootRoll env p t s c w)"
  by (auto simp: HandleLootRoll_def intro: ok_CountRollVote split: option.split)

lemma ok_ping: "grp_ok w \<Longrightarrow> grp_ok (HandleMinimapPingOpcode p x y w)"
  by (auto simp: HandleMinimapPingOpcode_def split: option.split)

lemma ok_random_roll: "grp_ok w \<Longrightarrow> grp_ok (HandleRandomRollOpcode env p lo hi w)"
proof -
  assume ok: "grp_ok w"
  have "same w (w\<lparr>gw_draws := n\<rparr>)" for n by (simp add: same_def view_defs)
  then have "grp_ok (w\<lparr>gw_draws := n\<rparr>)" for n using ok by (rule ok_same)
  with ok show ?thesis
    by (auto simp: HandleRandomRollOpcode_def urand_def Let_def split: option.split)
qed

lemma ok_raid_target: "grp_ok w \<Longrightarrow> grp_ok (HandleRaidTargetUpdateOpcode p x guid w)"
proof -
  assume ok: "grp_ok w"
  have "alive a w" if "GetGroup p w = Some a" for a using GetGroup_alive [OF ok_parts(1) [OF ok] that] by blast
  then show ?thesis
    using ok by (auto simp: HandleRaidTargetUpdateOpcode_def party_of_ok [OF ok] SendTargetIconList_def Let_def
        intro: ok_SetTargetIcon split: option.split)
qed

lemma ok_raid_convert: "grp_ok w \<Longrightarrow> grp_ok (HandleGroupRaidConvertOpcode p w)"
proof -
  assume ok: "grp_ok w"
  have "grp_ok (ConvertToRaid a (SendPartyResult PARTY_OP_INVITE [] ERR_PARTY_RESULT_OK p w))" if "GetGroup p w = Some a" for a
  proof (rule ok_ConvertToRaid [OF ok_result [OF ok]])
    show "g_slots (this_group a (SendPartyResult PARTY_OP_INVITE [] ERR_PARTY_RESULT_OK p w)) \<noteq> []"
      using group_slots [OF ok that] same_SendPartyResult [of w] by (simp add: same_def)
  qed
  then show ?thesis using ok by (auto simp: HandleGroupRaidConvertOpcode_def Let_def split: option.split)
qed

lemma ok_change_subgroup: "grp_ok w \<Longrightarrow> grp_ok (HandleGroupChangeSubGroupOpcode env p name nr w)"
proof -
  assume ok: "grp_ok w"
  have "unat nr < 8" if "\<not> of_nat MAX_RAID_SUBGROUPS \<le> nr"
    using that by (simp add: group_limits word_le_nat_alt)
  then show ?thesis
    using ok ok_ChangeMembersGroup [OF ok]
    by (auto simp: HandleGroupChangeSubGroupOpcode_def Let_def split: option.split prod.split)
qed

lemma ok_assistant: "grp_ok w \<Longrightarrow> grp_ok (HandleGroupAssistantLeaderOpcode p guid flag w)"
  by (auto simp: HandleGroupAssistantLeaderOpcode_def intro: ok_SetAssistant split: option.split)

lemma SetMainAssistant_slots:
  assumes "grp_ok w" and "g_slots (this_group a w) \<noteq> []"
  shows "g_slots (this_group a (SetMainAssistant a guid w)) \<noteq> []"
proof -
  have t: "g_slots (this_group a (snd (setMainTank a 0 w))) = g_slots (this_group a w)" for w by (simp add: setMain_zero)
  have "g_slots (this_group a (snd (setMainAssistant a guid w))) = g_slots (this_group a w)"
    by (simp add: setMainAssistant.simps [of a guid] t)
  moreover have "g_slots (this_group a (SendUpdate a v)) = g_slots (this_group a v)" for v
    using same_SendUpdate [of v a] by (simp add: same_def)
  ultimately show ?thesis
    using assms(2) by (cases "setMainAssistant a guid w") (auto simp: SetMainAssistant_def split: bool.split)
qed

lemma ok_assignment: "grp_ok w \<Longrightarrow> grp_ok (HandlePartyAssignmentOpcode p f1 f2 guid w)"
proof -
  assume ok: "grp_ok w"
  have "grp_ok (SetMainTank a guid (if f1 = 1 then SetMainAssistant a guid w else w)) \<and> grp_ok (if f1 = 1 then SetMainAssistant a guid w else w)"
    if "GetGroup p w = Some a" for a
    using ok group_slots [OF ok that] ok_SetMain SetMainAssistant_slots by simp
  then show ?thesis using ok by (auto simp: HandlePartyAssignmentOpcode_def Let_def split: option.split)
qed

lemma ok_ready: "grp_ok w \<Longrightarrow> grp_ok (HandleRaidReadyCheckOpcode p ans w)"
  by (auto simp: HandleRaidReadyCheckOpcode_def Let_def split: option.split)

section \<open>Other events\<close>

lemma ok_player_changes:
  assumes ok: "grp_ok w" and f: "keeps_links f" "\<And>pl. gp_invite (f pl) = gp_invite pl"
  shows "grp_ok (upd_player p f w)"
proof -
  have "same w (upd_player p f w)"
    by (simp add: same_def links_upd_player [OF f(1)] invite_upd_player f(2))
  then show ?thesis using ok by (rule ok_same)
qed

lemma ok_new_loot:
  assumes ok: "grp_ok w" and l: "gw_loots w l = None"
  shows "grp_ok (w\<lparr>gw_loots := (gw_loots w)(l \<mapsto> lo)\<rparr>)"
proof -
  let ?w' = "w\<lparr>gw_loots := (gw_loots w)(l \<mapsto> lo)\<rparr>"
  have c: "same_core w ?w'" by (simp add: same_core_def)
  have old: "rolls_ok w" using ok by (rule ok_rolls)
  have "r_loot r \<noteq> Some l" if r: "r \<in> set (g_rolls (this_group a w))" for r a
  proof
    assume "r_loot r = Some l"
    then have "unat (r_itemSlot r) < length (loot_items l w)" using old r by (simp add: rolls_ok_def)
    with l show False by (simp add: loot_items_def)
  qed
  then have "rolls_ok ?w'"
    using old by (auto simp: rolls_ok_def loot_items_def this_group_def)
  then show ?thesis by (intro ok_same_core [OF ok c]) simp_all
qed

lemma ok_Loot_clear:
  assumes ok: "grp_ok w"
  shows "grp_ok (Loot_clear l w)"
proof -
  let ?w' = "Loot_clear l w"
  have "map_option core (gw_groups ?w' a) = map_option core (gw_groups w a)" for a
    by (cases "gw_groups w a") (simp_all add: Loot_clear_def Let_def upd_loot_def core_def)
  then have c: "same_core w ?w'"
    by (simp add: same_core_def fun_eq_iff) (simp add: Loot_clear_def Let_def upd_loot_def)
  have g: "g_rolls (this_group a ?w') = map (unlink_loot l) (g_rolls (this_group a w))" for a
    by (auto simp: Loot_clear_def Let_def upd_loot_def this_group_def Group_new_def split: option.split)
  have items: "k \<noteq> l \<Longrightarrow> loot_items k ?w' = loot_items k w" for k
    by (simp add: Loot_clear_def Let_def upd_loot_def loot_items_def)
  have "rolls_ok ?w'"
    unfolding rolls_ok_def
  proof (intro allI ballI impI)
    fix a r k assume "r \<in> set (g_rolls (this_group a ?w'))" and k: "r_loot r = Some k"
    then obtain r0 where r0: "r0 \<in> set (g_rolls (this_group a w))" "r = unlink_loot l r0" unfolding g by auto
    then have "k \<noteq> l" "r = r0" using k by (auto simp: unlink_loot_def split: if_splits)
    then show "unat (r_itemSlot r) < length (loot_items k ?w')"
      using ok_rolls [OF ok] r0(1) k by (simp add: rolls_ok_def items)
  qed
  moreover have "gw_fault ?w' = gw_fault w" by (simp add: Loot_clear_def Let_def upd_loot_def)
  ultimately show ?thesis by (intro ok_same_core [OF ok c])
qed

lemma ok_StopGroupLoot: "grp_ok w \<Longrightarrow> grp_ok (StopGroupLoot env i l w)"
  by (auto simp: StopGroupLoot_def ok_EndRoll split: option.split)

section \<open>The machine\<close>

text \<open>
  The events: players are in the world while they exist, the id generator has not run out, and
  the raids of battlegrounds are left out.
\<close>

inductive grp_step :: "grp_world \<Rightarrow> grp_world \<Rightarrow> bool" where
  gs_login: "\<not> online p w \<Longrightarrow> player_guid p \<Longrightarrow> gp_inWorld pl \<Longrightarrow> grp_step w (Player_login env p pl w)"
| gs_logout: "grp_step w (Player_logout env p socket w)"
| gs_player: "keeps_links f \<Longrightarrow> (\<And>pl. gp_invite (f pl) = gp_invite pl) \<Longrightarrow> grp_step w (upd_player p f w)"
| gs_invite: "grp_step w (HandleGroupInviteOpcode env p name w)"
| gs_accept: "gw_nextId w < gw_nextId w + 1 \<Longrightarrow> grp_step w (HandleGroupAcceptOpcode env p w)"
| gs_decline: "grp_step w (HandleGroupDeclineOpcode p w)"
| gs_uninvite_guid: "grp_step w (HandleGroupUninviteGuidOpcode env p guid w)"
| gs_uninvite: "grp_step w (HandleGroupUninviteOpcode env p name w)"
| gs_set_leader: "grp_step w (HandleGroupSetLeaderOpcode env p guid w)"
| gs_leave: "grp_step w (HandleGroupDisbandOpcode env p w)"
| gs_loot_method: "grp_step w (HandleLootMethodOpcode p m master th w)"
| gs_loot_roll: "grp_step w (HandleLootRoll env p t s c w)"
| gs_ping: "grp_step w (HandleMinimapPingOpcode p x y w)"
| gs_random_roll: "grp_step w (HandleRandomRollOpcode env p lo hi w)"
| gs_raid_target: "grp_step w (HandleRaidTargetUpdateOpcode p i guid w)"
| gs_raid_convert: "grp_step w (HandleGroupRaidConvertOpcode p w)"
| gs_change_subgroup: "grp_step w (HandleGroupChangeSubGroupOpcode env p name nr w)"
| gs_assistant: "grp_step w (HandleGroupAssistantLeaderOpcode p guid flag w)"
| gs_assignment: "grp_step w (HandlePartyAssignmentOpcode p f1 f2 guid w)"
| gs_ready: "grp_step w (HandleRaidReadyCheckOpcode p ans w)"
| gs_offline_leader: "grp_step w (UpdateOfflineLeader env a time delay w)"
| gs_deleted: "member a p w \<Longrightarrow> grp_step w (RemoveFromGroup env (Some a) p w)"
| gs_new_loot: "gw_loots w l = None \<Longrightarrow> grp_step w (w\<lparr>gw_loots := (gw_loots w)(l \<mapsto> lo)\<rparr>)"
| gs_clear_loot: "grp_step w (Loot_clear l w)"
| gs_group_loot: "env_ok env \<Longrightarrow> grp_step w (GroupLoot env a target l w)"
| gs_need_before_greed: "env_ok env \<Longrightarrow> grp_step w (NeedBeforeGreed env a target l w)"
| gs_master_loot: "grp_step w (MasterLoot env a target l w)"
| gs_stop_loot: "grp_step w (StopGroupLoot env i l w)"

inductive_cases grp_stepE: "grp_step w w'"

lemma ok_step: "grp_step w w' \<Longrightarrow> grp_ok w \<Longrightarrow> grp_ok w'"
  by (erule grp_stepE)
     (auto intro: ok_login ok_logout ok_player_changes ok_HandleGroupInvite ok_HandleGroupAccept ok_decline
       ok_uninvite_guid ok_uninvite_name ok_set_leader ok_leave ok_loot_method ok_loot_roll ok_ping ok_random_roll
       ok_raid_target ok_raid_convert ok_change_subgroup ok_assistant ok_assignment ok_ready ok_UpdateOfflineLeader
       ok_RemoveFromGroup ok_new_loot ok_Loot_clear ok_GroupLoot ok_MasterLoot ok_StopGroupLoot)

text \<open>A server without players and groups.\<close>

definition grp_fresh :: "grp_world \<Rightarrow> bool" where
  "grp_fresh w \<longleftrightarrow>
     gw_players w = (\<lambda>_. None) \<and> gw_groups w = (\<lambda>_. None) \<and> gw_groupMap w = (\<lambda>_. None) \<and> gw_rows w = (\<lambda>_. None) \<and>
     gw_members w = [] \<and> \<not> gw_fault w"

lemma ok_fresh: "grp_fresh w \<Longrightarrow> grp_ok w"
proof -
  assume f: "grp_fresh w"
  then have na: "\<not> alive a w" for a by (simp add: grp_fresh_def alive_def)
  then have g: "this_group a w = Group_new" for a by (rule not_alive_this)
  have p: "\<not> online p w" "GetGroup p w = None" "invite_of p w = None" for p
    using f by (simp_all add: grp_fresh_def online_def GetGroup_def ref_target_def invite_of_def)
  have "\<not> member a p w" for a p by (simp add: member_def g Group_new_def)
  then have "grp_base w"
    using f na p by (simp add: grp_base_def base_defs g grp_fresh_def) (simp add: Group_new_def)
  moreover have "settled a w" "rows_ok w" for a
    using f na by (simp_all add: settled_def rows_ok_def g grp_fresh_def) (simp add: Group_new_def)
  ultimately show ?thesis by (simp add: grp_ok_def)
qed

interpretation gr: machine grp_fresh grp_step grp_ok
  by unfold_locales (auto intro: ok_fresh ok_step)

end
