(* ===== verification/GroupProps.thy ===== *)
theory GroupProps
  imports GroupRequests
begin

text \<open>
  Properties of parties and raids, over every sequence of requests, logins, timers and loot
  events, with runs of three players as witnesses. In the runs the players are in the world as
  long as they exist, ids do not run out and no battleground raid is involved.
\<close>

section \<open>A server with three players\<close>

definition sample_gp :: "u8 \<Rightarrow> grp_player" where
  "sample_gp n =
     \<lparr>gp_name = [n], gp_team = 469, gp_inWorld = True, gp_session = True, gp_logout = False, gp_inBG = False,
      gp_pvp = False, gp_dead = False, gp_ghost = False, gp_ffa = False, gp_afk = False, gp_dnd = False,
      gp_mapId = 0, gp_instanceId = 0, gp_leaderFlag = False, gp_updateMask = 0, gp_invite = None,
      gp_group = GroupReference_new, gp_orig = GroupReference_new\<rparr>"

definition sample_genv :: grp_env where
  "sample_genv =
     \<lparr>ge_time = 1000, ge_two_side = False, ge_normalize = Some,
      ge_byName = (\<lambda>n. case n of [c] \<Rightarrow> Some (ucast c) | _ \<Rightarrow> None),
      ge_cacheGuid = (\<lambda>n. case n of [c] \<Rightarrow> ucast c | _ \<Rightarrow> 0), ge_cache = (\<lambda>g. Some ([ucast g], 469)),
      ge_social = (\<lambda>_. PlayerSocial_new), ge_stats = (\<lambda>_. []), ge_sees = (\<lambda>_ _. True),
      ge_urand = (\<lambda>n lo hi. lo + of_nat n), ge_quality = (\<lambda>_. Some 2), ge_canUse = (\<lambda>_ _. True),
      ge_allowed = (\<lambda>_ _ _. True), ge_within = (\<lambda>_ _. True), ge_canStore = (\<lambda>_ _ _ _. 0),
      ge_requiredLevel = (\<lambda>_. 1), ge_tableOrder = (\<lambda>v. v)\<rparr>"

definition sample_gfresh :: grp_world where
  "sample_gfresh =
     \<lparr>gw_players = (\<lambda>_. None), gw_groups = (\<lambda>_. None), gw_fresh = 0, gw_groupMap = (\<lambda>_. None), gw_nextId = 1,
      gw_rows = (\<lambda>_. None), gw_members = [], gw_loots = (\<lambda>_. None), gw_stored = [], gw_draws = 0, gw_out = [],
      gw_fault = False\<rparr>"

definition sample_players :: grp_world where
  "sample_players =
     Player_login sample_genv 3 (sample_gp 3) (Player_login sample_genv 2 (sample_gp 2)
       (Player_login sample_genv 1 (sample_gp 1) sample_gfresh))"

definition sample_pair :: grp_world where
  "sample_pair = HandleGroupAcceptOpcode sample_genv 2 (HandleGroupInviteOpcode sample_genv 1 [2] sample_players)"

definition sample_trio :: grp_world where
  "sample_trio = HandleGroupAcceptOpcode sample_genv 3 (HandleGroupInviteOpcode sample_genv 1 [3] sample_pair)"

definition sample_raid :: grp_world where
  "sample_raid = HandleGroupRaidConvertOpcode 1 sample_trio"

lemma sample_guids: "player_guid 1" "player_guid 2" "player_guid 3"
  by code_simp+

lemma sample_gstart: "grp_fresh sample_gfresh"
  by (simp add: grp_fresh_def sample_gfresh_def)

lemma sample_logins: "grp_step\<^sup>*\<^sup>* sample_gfresh sample_players"
proof -
  let ?w1 = "Player_login sample_genv 1 (sample_gp 1) sample_gfresh"
  let ?w2 = "Player_login sample_genv 2 (sample_gp 2) ?w1"
  have off: "\<not> online 1 sample_gfresh" "\<not> online 2 ?w1" "\<not> online 3 ?w2"
    unfolding online_def by code_simp+
  have world: "gp_inWorld (sample_gp n)" for n by (simp add: sample_gp_def)
  have "grp_step sample_gfresh ?w1" by (rule gs_login [OF off(1) sample_guids(1) world])
  moreover have "grp_step ?w1 ?w2" by (rule gs_login [OF off(2) sample_guids(2) world])
  moreover have "grp_step ?w2 sample_players"
    unfolding sample_players_def by (rule gs_login [OF off(3) sample_guids(3) world])
  ultimately show ?thesis by (meson r_into_rtranclp rtranclp_trans)
qed

lemma sample_trio_steps: "grp_step\<^sup>*\<^sup>* sample_gfresh sample_trio"
proof -
  have "gw_nextId (HandleGroupInviteOpcode sample_genv 1 [2] sample_players) = 1"
    "gw_nextId (HandleGroupInviteOpcode sample_genv 1 [3] sample_pair) = 2"
    by code_simp+
  then have a: "grp_step (HandleGroupInviteOpcode sample_genv 1 [2] sample_players) sample_pair"
    "grp_step (HandleGroupInviteOpcode sample_genv 1 [3] sample_pair) sample_trio"
    by (subst sample_pair_def sample_trio_def, intro gs_accept, simp)+
  have i: "grp_step w (HandleGroupInviteOpcode sample_genv 1 name w)" for w name by (rule gs_invite)
  show ?thesis
    using rtranclp.rtrancl_into_rtrancl [OF rtranclp.rtrancl_into_rtrancl [OF rtranclp.rtrancl_into_rtrancl
        [OF rtranclp.rtrancl_into_rtrancl [OF sample_logins i] a(1)] i] a(2)] .
qed

lemma sample_raid_steps: "grp_step\<^sup>*\<^sup>* sample_gfresh sample_raid"
  unfolding sample_raid_def using sample_trio_steps by (rule rtranclp.rtrancl_into_rtrancl) (rule gs_raid_convert)

section \<open>Groups, players and tables agree\<close>

lemma leader_member:
  assumes "grp_ok w" and "g_slots (this_group a w) \<noteq> []"
  shows "IsMember (g_leaderGuid (this_group a w)) (this_group a w)"
proof -
  obtain s where "s \<in> set (g_slots (this_group a w))" "ms_guid s = g_leaderGuid (this_group a w)"
    using ok_parts(2) [OF assms(1), of a] assms(2) unfolding settled_def Let_def by blast
  then show ?thesis unfolding IsMember_iff by (metis image_eqI)
qed

text \<open>
  C4: in every state the server reaches (no player between two maps, no battleground raid, the
  counter of ids not at its end), a player who is logged in has a group exactly when he is in its
  member list, nobody is in two groups, every group with members has at least two, one of them
  its leader, and no request has followed a dead pointer or left an array.
\<close>

theorem groups_consistent:
  assumes "grp_fresh w0" and "grp_step\<^sup>*\<^sup>* w0 w"
  shows "(GetGroup p w = Some a \<longleftrightarrow> gw_players w p \<noteq> None \<and> IsMember p (this_group a w)) \<and>
    (IsMember p (this_group a w) \<longrightarrow> IsMember p (this_group b w) \<longrightarrow> a = b) \<and>
    (g_slots (this_group a w) \<noteq> [] \<longrightarrow>
       2 \<le> GetMembersCount (this_group a w) \<and> IsMember (g_leaderGuid (this_group a w)) (this_group a w)) \<and>
    \<not> gw_fault w"
proof -
  have ok: "grp_ok w" using assms by (rule gr.inv_reachable)
  have base: "grp_base w" using ok by (rule ok_parts)
  show ?thesis
  proof (intro conjI impI)
    show "GetGroup p w = Some a \<longleftrightarrow> gw_players w p \<noteq> None \<and> IsMember p (this_group a w)"
      using base_links(1) [OF base, of p a] by (simp add: online_def)
    show "a = b" if "IsMember p (this_group a w)" "IsMember p (this_group b w)"
      using that base_links(2) [OF base, of a p b] by simp
    assume "g_slots (this_group a w) \<noteq> []"
    then show "2 \<le> GetMembersCount (this_group a w)" "IsMember (g_leaderGuid (this_group a w)) (this_group a w)"
      using ok_parts(2) [OF ok, of a] leader_member [OF ok] by (simp_all add: settled_def Let_def GetMembersCount_def)
  next
    show "\<not> gw_fault w" by (rule base_rest(2) [OF base])
  qed
qed

theorem groups_consistent_witness:
  "GetGroup 2 sample_trio = Some 0 \<and> 2 \<le> GetMembersCount (this_group 0 sample_trio) \<and>
    IsMember (g_leaderGuid (this_group 0 sample_trio)) (this_group 0 sample_trio) \<and> \<not> gw_fault sample_trio"
proof -
  have "gw_players sample_trio 2 \<noteq> None" "IsMember 2 (this_group 0 sample_trio)" "g_slots (this_group 0 sample_trio) \<noteq> []"
    by code_simp+
  then show ?thesis using groups_consistent [OF sample_gstart sample_trio_steps, of 2 0] by blast
qed

text \<open>
  C13: a party has at most five members; a raid has at most forty, at most five in each of its
  eight subgroups, and the counter of each subgroup is the number of members in it. This holds in
  the states that the runs of \<open>grp_step\<close> reach: a player in memory is in the world, not between two
  maps, and there are no battleground raids. A request about a player between two maps leaves a
  stale subgroup in his reference and then miscounts, as \<open>GroupFindings\<close> shows.
\<close>

theorem group_sizes_bounded:
  assumes "grp_fresh w0" and "grp_step\<^sup>*\<^sup>* w0 w"
  shows "GetMembersCount (this_group a w) \<le> (if g_raid (this_group a w) then MAX_RAID_SIZE else MAX_GROUP_SIZE) \<and>
    (g_raid (this_group a w) \<longrightarrow> (\<forall>i < MAX_RAID_SUBGROUPS.
       unat (the (g_counts (this_group a w)) ! i) = length (filter (\<lambda>s. unat (ms_group s) = i) (g_slots (this_group a w))) \<and>
       unat (the (g_counts (this_group a w)) ! i) \<le> MAX_GROUP_SIZE))"
proof -
  let ?g = "this_group a w"
  have "grp_ok w" using assms by (rule gr.inv_reachable)
  then have ok: "counts_ok ?g" using base_group [OF ok_parts(1), of w a] by (simp add: group_ok_def)
  show ?thesis
  proof (cases "g_raid ?g")
    case True
    then have t: "tally (the (g_counts ?g)) (g_slots ?g)" using ok by (simp add: counts_ok_def)
    then have "(\<Sum>i<8. in_sub i (g_slots ?g)) \<le> (\<Sum>i<8::nat. 5)" by (intro sum_mono) (simp add: tally_def)
    moreover have "(\<Sum>i<8. in_sub i (g_slots ?g)) = length (g_slots ?g)" using t by (intro sum_in_sub) (simp add: tally_def)
    ultimately show ?thesis using True t by (simp add: group_limits GetMembersCount_def tally_def in_sub_def)
  next
    case False
    then show ?thesis using ok by (simp add: group_limits GetMembersCount_def counts_ok_def)
  qed
qed

theorem group_sizes_bounded_witness:
  "g_raid (this_group 0 sample_raid) \<and> GetMembersCount (this_group 0 sample_raid) \<le> MAX_RAID_SIZE \<and>
    unat (the (g_counts (this_group 0 sample_raid)) ! 0) =
      length (filter (\<lambda>s. unat (ms_group s) = 0) (g_slots (this_group 0 sample_raid))) \<and>
    unat (the (g_counts (this_group 0 sample_raid)) ! 0) \<le> MAX_GROUP_SIZE"
proof -
  have r: "g_raid (this_group 0 sample_raid)" by code_simp
  have z: "0 < MAX_RAID_SUBGROUPS" by code_simp
  note b = group_sizes_bounded [OF sample_gstart sample_raid_steps, of 0]
  show ?thesis
    using conjunct1 [OF b] mp [OF conjunct2 [OF b] r, rule_format, OF z] r unfolding if_P [OF r] by blast
qed

text \<open>
  C32: the values in a group have their types: every member is a player GUID, every subgroup
  number is below eight and is the one in the player's own reference, a raid has eight counters
  and a party none, and there are eight target icons. The runs are those in which every player in
  memory is in the world, not between two maps, and there are no battleground raids; the reference
  of a player who is moved between two maps keeps his old subgroup, as \<open>GroupFindings\<close> shows.
\<close>

theorem group_fields_well_formed:
  assumes "grp_fresh w0" and "grp_step\<^sup>*\<^sup>* w0 w" and "s \<in> set (g_slots (this_group a w))"
  shows "guid_IsPlayer (ms_guid s) \<and> unat (ms_group s) < MAX_RAID_SUBGROUPS \<and>
    (g_raid (this_group a w) \<longleftrightarrow> g_counts (this_group a w) \<noteq> None) \<and>
    (\<forall>c. g_counts (this_group a w) = Some c \<longrightarrow> length c = MAX_RAID_SUBGROUPS) \<and>
    length (g_icons (this_group a w)) = TARGET_ICON_COUNT \<and>
    (gw_players w (ms_guid s) \<noteq> None \<longrightarrow> ref_subgroup MainRef (ms_guid s) w = ms_group s)"
proof -
  have base: "grp_base w" using assms(1,2) by (rule ok_parts(1) [OF gr.inv_reachable])
  have g: "group_ok (this_group a w)" using base by (rule base_group)
  have p: "player_guid (ms_guid s)" using base_slot_guid [OF base assms(3)] .
  have "GetCounter (ms_guid s) \<noteq> 0" using p by (auto simp: player_guid_def guid_of_counter_def)
  then have "GetHigh (ms_guid s) = HIGHGUID_PLAYER"
    using p GetHigh_of_counter [of HIGHGUID_PLAYER "GetCounter (ms_guid s)"] by (simp add: player_guid_def HIGHGUID_PLAYER_def)
  then show ?thesis
    using g p assms(3) base_subs [OF base assms(3)]
    by (auto simp: group_ok_def counts_ok_def tally_def group_limits icons_ok_def online_def guid_IsPlayer_def
        guid_IsEmpty_def player_guid_def split: if_splits)
qed

theorem group_fields_well_formed_witness:
  "let s = hd (g_slots (this_group 0 sample_raid))
   in guid_IsPlayer (ms_guid s) \<and> unat (ms_group s) < MAX_RAID_SUBGROUPS \<and>
      g_counts (this_group 0 sample_raid) \<noteq> None \<and> length (g_icons (this_group 0 sample_raid)) = TARGET_ICON_COUNT"
proof -
  have "g_slots (this_group 0 sample_raid) \<noteq> []" "g_raid (this_group 0 sample_raid)" by code_simp+
  then show ?thesis
    using group_fields_well_formed [OF sample_gstart sample_raid_steps, of "hd (g_slots (this_group 0 sample_raid))" 0]
    unfolding Let_def by simp
qed

text \<open>The members of a group, as they are live and as the table has them.\<close>

definition live_members :: "group \<Rightarrow> (u32 \<times> u8 \<times> bool) set" where
  "live_members g = (\<lambda>s. (GetCounter (ms_guid s), ms_group s, ms_assistant s)) ` set (g_slots g)"

definition stored_members :: "u32 \<Rightarrow> grp_world \<Rightarrow> (u32 \<times> u8 \<times> bool) set" where
  "stored_members i w =
     (\<lambda>r. (mr_memberGuid r, mr_subgroup r, mr_assistant r)) ` {r \<in> set (gw_members w). mr_groupId r = i}"

text \<open>
  C7: the tables always describe the groups: each row of the table of groups belongs to one
  group with members, with its leader, raid flag, main tank and main assistant, the rows of
  its members are exactly its members with their subgroups and assistant flags, and each group
  with members has a row.
\<close>

theorem group_tables_mirror:
  assumes "grp_fresh w0" and "grp_step\<^sup>*\<^sup>* w0 w"
  shows "(\<forall>i row. gw_rows w i = Some row \<longrightarrow> (\<exists>a. gw_groupMap w i = Some a \<and>
      (let g = this_group a w
       in g_slots g \<noteq> [] \<and> g_Id g = i \<and> stored_members i w = live_members g \<and>
          row_leaderGuid row = GetCounter (g_leaderGuid g) \<and> row_isRaid row = g_raid g \<and>
          row_mainTank row = GetCounter (g_mainTankGuid g) \<and> row_mainAssistant row = GetCounter (g_mainAssistantGuid g)))) \<and>
    (\<forall>a. g_slots (this_group a w) \<noteq> [] \<longrightarrow> gw_rows w (g_Id (this_group a w)) \<noteq> None)"
proof -
  have ok: "grp_ok w" using assms by (rule gr.inv_reachable)
  have base: "grp_base w" using ok by (rule ok_parts)
  have members: "stored_members (g_Id (this_group a w)) w = live_members (this_group a w)"
    if ne: "g_slots (this_group a w) \<noteq> []" for a
  proof -
    let ?g = "this_group a w"
    have "r \<in> set (gw_members w) \<and> mr_groupId r = g_Id ?g \<longleftrightarrow> (\<exists>s \<in> set (g_slots ?g). r = mrow ?g s)" for r
    proof
      assume r: "r \<in> set (gw_members w) \<and> mr_groupId r = g_Id ?g"
      then obtain b s where s: "s \<in> set (g_slots (this_group b w))" "r = mrow (this_group b w) s"
        using base_tables(1) [OF base] by blast
      then have "g_Id (this_group b w) = g_Id ?g" using r by (simp add: mrow_def)
      moreover have "g_slots (this_group b w) \<noteq> []" using s(1) by (metis empty_iff empty_set)
      ultimately have "b = a" using base_tables(2) [OF base _ ne] by blast
      with s show "\<exists>s \<in> set (g_slots ?g). r = mrow ?g s" by blast
    next
      assume "\<exists>s \<in> set (g_slots ?g). r = mrow ?g s"
      then show "r \<in> set (gw_members w) \<and> mr_groupId r = g_Id ?g"
        using base_tables(1) [OF base] by (auto simp: mrow_def)
    qed
    then have "{r \<in> set (gw_members w). mr_groupId r = g_Id ?g} = mrow ?g ` set (g_slots ?g)" by blast
    then show ?thesis by (simp add: stored_members_def live_members_def image_image mrow_def)
  qed
  show ?thesis
  proof (intro conjI allI impI)
    fix i row assume row: "gw_rows w i = Some row"
    then obtain a where a: "gw_groupMap w i = Some a" using ok_parts(3) [OF ok] by (auto simp: rows_ok_def)
    then have g: "g_slots (this_group a w) \<noteq> []" "g_Id (this_group a w) = i"
      using settled_map [OF ok_parts(2) [OF ok]] by blast+
    have "row_ok row (this_group a w)"
      using ok_parts(2) [OF ok, of a] g row by (simp add: settled_def Let_def)
    then show "\<exists>a. gw_groupMap w i = Some a \<and>
      (let g = this_group a w
       in g_slots g \<noteq> [] \<and> g_Id g = i \<and> stored_members i w = live_members g \<and>
          row_leaderGuid row = GetCounter (g_leaderGuid g) \<and> row_isRaid row = g_raid g \<and>
          row_mainTank row = GetCounter (g_mainTankGuid g) \<and> row_mainAssistant row = GetCounter (g_mainAssistantGuid g))"
      using a g members [OF g(1)] by (intro exI [of _ a]) (simp add: Let_def row_ok_def)
  next
    fix a assume "g_slots (this_group a w) \<noteq> []"
    then show "gw_rows w (g_Id (this_group a w)) \<noteq> None"
      using ok_parts(2) [OF ok, of a] by (simp add: settled_def Let_def)
  qed
qed

theorem group_tables_mirror_witness:
  "(\<exists>a. gw_groupMap sample_trio 1 = Some a \<and> stored_members 1 sample_trio = live_members (this_group a sample_trio)) \<and>
   gw_rows sample_trio 1 \<noteq> None"
proof -
  have r: "gw_rows sample_trio 1 \<noteq> None" by code_simp
  then obtain row where row: "gw_rows sample_trio 1 = Some row" by blast
  have "\<exists>a. gw_groupMap sample_trio 1 = Some a \<and>
      (let g = this_group a sample_trio
       in g_slots g \<noteq> [] \<and> g_Id g = 1 \<and> stored_members 1 sample_trio = live_members g \<and>
          row_leaderGuid row = GetCounter (g_leaderGuid g) \<and> row_isRaid row = g_raid g \<and>
          row_mainTank row = GetCounter (g_mainTankGuid g) \<and> row_mainAssistant row = GetCounter (g_mainAssistantGuid g))"
    using conjunct1 [OF group_tables_mirror [OF sample_gstart sample_trio_steps]] row by (elim allE impE)
  then show ?thesis using r unfolding Let_def by blast
qed

section \<open>Leaders\<close>

text \<open>What \<^verbatim>\<open>_chooseLeader\<close> prefers: an online member of the group with a session, in a raid an assistant.\<close>

definition here :: "gaddr \<Rightarrow> object_guid \<Rightarrow> grp_world \<Rightarrow> bool" where
  "here a p w \<longleftrightarrow> (case FindPlayer w p of None \<Rightarrow> False | Some pl \<Rightarrow> gp_session pl) \<and> GetGroup p w = Some a"

lemma candidate_here:
  "candidate a w s \<longleftrightarrow> ms_guid s \<noteq> g_leaderGuid (this_group a w) \<and> here a (ms_guid s) w"
  by (auto simp: candidate_def here_def GetGroup_def ref_target_def get_ref_def dest: FindPlayer_Some split: option.splits)

lemma pick_leader_best:
  assumes nz: "\<forall>s \<in> set ss. ms_guid s \<noteq> 0" and s: "s \<in> set ss" "candidate a w s"
  shows "\<exists>t \<in> set ss. pick_leader a w ss 0 = ms_guid t \<and> candidate a w t \<and>
    (g_raid (this_group a w) \<longrightarrow> (\<exists>u \<in> set ss. candidate a w u \<and> ms_assistant u) \<longrightarrow> ms_assistant t)"
proof -
  let ?P = "\<lambda>s. candidate a w s \<and> (g_raid (this_group a w) \<longrightarrow> ms_assistant s)"
  show ?thesis
  proof (cases "find ?P ss")
    case (Some t)
    then show ?thesis using find_set [OF Some] pick_leader_eq [OF nz, of a w 0] by (intro bexI [of _ t]) auto
  next
    case None
    then have no: "\<not> ?P u" if "u \<in> set ss" for u using that unfolding find_None_iff by blast
    obtain t where t: "find (candidate a w) ss = Some t"
      using s unfolding find_None_iff by (cases "find (candidate a w) ss") (auto simp: find_None_iff)
    have "pick_leader a w ss 0 = ms_guid t" using pick_leader_eq [OF nz, of a w 0] by (simp add: None t)
    with find_set [OF t] no show ?thesis by (intro bexI [of _ t]) blast+
  qed
qed

text \<open>
  C23: a group whose leader has been offline for the configured delay does not stay without
  one: if any other member is online, the next update makes an online member leader, in a raid
  an assistant if one is online, and the table of groups has him as leader.
\<close>

theorem offline_leader_replaced:
  assumes "grp_fresh w0" and "grp_step\<^sup>*\<^sup>* w0 w" and s: "s \<in> set (g_slots (this_group a w))" "here a (ms_guid s) w"
    and off: "FindPlayer w (g_leaderGuid (this_group a w)) = None"
      "uint delay \<le> time - g_leaderLastOnline (this_group a w)"
  shows "\<exists>t \<in> set (g_slots (this_group a w)). here a (ms_guid t) w \<and>
    (g_raid (this_group a w) \<longrightarrow>
      (\<exists>u \<in> set (g_slots (this_group a w)). here a (ms_guid u) w \<and> ms_assistant u) \<longrightarrow> ms_assistant t) \<and>
    g_leaderGuid (this_group a (UpdateOfflineLeader env a time delay w)) = ms_guid t \<and>
    row_leaderGuid (the (gw_rows (UpdateOfflineLeader env a time delay w) (g_Id (this_group a w)))) = GetCounter (ms_guid t)"
proof -
  let ?g = "this_group a w"
  have ok: "grp_ok w" using assms(1,2) by (rule gr.inv_reachable)
  have base: "grp_base w" using ok by (rule ok_parts)
  have ne: "g_slots ?g \<noteq> []" using s(1) by (metis empty_iff empty_set)
  have al: "alive a w" using ne by (rule slots_alive)
  have nz: "\<forall>s \<in> set (g_slots ?g). ms_guid s \<noteq> 0" using base_slot_guid [OF base] by (auto simp: player_guid_def)
  have cand: "candidate a w u \<longleftrightarrow> here a (ms_guid u) w" for u
    using off(1) by (auto simp: candidate_here here_def)
  obtain t where t: "t \<in> set (g_slots ?g)" "pick_leader a w (g_slots ?g) 0 = ms_guid t" "here a (ms_guid t) w"
    "g_raid ?g \<longrightarrow> (\<exists>u \<in> set (g_slots ?g). here a (ms_guid u) w \<and> ms_assistant u) \<longrightarrow> ms_assistant t"
    using pick_leader_best [OF nz s(1), of a w, unfolded cand, OF s(2)] by blast
  have "2 \<le> length (g_slots ?g)" using ok_parts(2) [OF ok, of a] ne by (simp add: settled_def Let_def)
  then have "chooseLeader env a True w = ChangeLeader env a (ms_guid t) w"
    using t nz ok_nobg [OF ok, of a] by (simp add: chooseLeader_def Let_def guid_IsEmpty_def GetMembersCount_def GetMembersMinCount_def)
  then have u: "UpdateOfflineLeader env a time delay w = ChangeLeader env a (ms_guid t) w"
    using off ok_nobg [OF ok, of a] by (simp add: UpdateOfflineLeader_def Let_def)
  have led: "led a t w (ChangeLeader env a (ms_guid t) w)" by (rule ChangeLeader_led [OF base t(1)])
  have "gw_rows w (g_Id ?g) \<noteq> None" using ok_parts(2) [OF ok, of a] ne by (simp add: settled_def Let_def)
  then have "g_leaderGuid (this_group a (ChangeLeader env a (ms_guid t) w)) = ms_guid t"
    "row_leaderGuid (the (gw_rows (ChangeLeader env a (ms_guid t) w) (g_Id ?g))) = GetCounter (ms_guid t)"
    using led al by (auto simp: led_def same_def)
  with t show ?thesis unfolding u by blast
qed

definition sample_left_alone :: grp_world where
  "sample_left_alone = Player_logout sample_genv 1 False sample_raid"

lemma sample_left_alone_steps: "grp_step\<^sup>*\<^sup>* sample_gfresh sample_left_alone"
  unfolding sample_left_alone_def using sample_raid_steps by (rule rtranclp.rtrancl_into_rtrancl) (rule gs_logout)

definition leader_away :: "grp_world \<Rightarrow> bool" where
  "leader_away w \<longleftrightarrow>
     length (g_slots (this_group 0 w)) = 3 \<and> ms_guid (g_slots (this_group 0 w) ! 1) = 2 \<and> here 0 2 w \<and>
     FindPlayer w (g_leaderGuid (this_group 0 w)) = None \<and>
     uint (300 :: u32) \<le> 1300 - g_leaderLastOnline (this_group 0 w) \<and> g_leaderGuid (this_group 0 w) = 1"

theorem offline_leader_replaced_witness:
  "\<exists>t \<in> set (g_slots (this_group 0 sample_left_alone)).
     g_leaderGuid (this_group 0 (UpdateOfflineLeader sample_genv 0 1300 300 sample_left_alone)) = ms_guid t \<and>
     here 0 (ms_guid t) sample_left_alone \<and> g_leaderGuid (this_group 0 sample_left_alone) = 1"
proof -
  let ?s = "g_slots (this_group 0 sample_left_alone) ! 1"
  have "leader_away sample_left_alone" by code_simp
  note f = this [unfolded leader_away_def, THEN conjunct1]
    this [unfolded leader_away_def, THEN conjunct2, THEN conjunct1]
    this [unfolded leader_away_def, THEN conjunct2, THEN conjunct2, THEN conjunct1]
    this [unfolded leader_away_def, THEN conjunct2, THEN conjunct2, THEN conjunct2, THEN conjunct1]
    this [unfolded leader_away_def, THEN conjunct2, THEN conjunct2, THEN conjunct2, THEN conjunct2, THEN conjunct1]
    this [unfolded leader_away_def, THEN conjunct2, THEN conjunct2, THEN conjunct2, THEN conjunct2, THEN conjunct2]
  have "1 < length (g_slots (this_group 0 sample_left_alone))" unfolding f(1) by simp
  then have s1: "?s \<in> set (g_slots (this_group 0 sample_left_alone))" by (rule nth_mem)
  have s2: "here 0 (ms_guid ?s) sample_left_alone" unfolding f(2) by (rule f(3))
  show ?thesis
  proof (rule bexE [OF offline_leader_replaced [OF sample_gstart sample_left_alone_steps s1 s2 f(4,5), of sample_genv]], elim conjE)
    fix t assume t: "t \<in> set (g_slots (this_group 0 sample_left_alone))" and h: "here 0 (ms_guid t) sample_left_alone"
      and g: "g_leaderGuid (this_group 0 (UpdateOfflineLeader sample_genv 0 1300 300 sample_left_alone)) = ms_guid t"
    show ?thesis by (intro bexI [OF _ t] conjI g h f(6))
  qed
qed

text \<open>
  C25: leaving a group, for a player who is not in a battleground, in a state reached without
  players between two maps and battleground raids. Out of a pair the group ends: its row, the rows
  of its members and every invitation to it are gone, and nobody is linked to it. Out of a larger
  one exactly the player who left is missing, his link is cut, and if he was the leader, one of the
  others leads now; otherwise the leader stays.
\<close>

theorem leaving_effect:
  assumes "grp_fresh w0" and "grp_step\<^sup>*\<^sup>* w0 w" and g: "GetGroup p w = Some a" and bg: "\<not> in_battleground p w"
  shows "let w' = HandleGroupDisbandOpcode env p w; gr = this_group a w; gr' = this_group a w'
    in GetGroup p w' = None \<and>
       (if GetMembersCount gr = 2
        then gw_groups w' a = None \<and> gw_rows w' (g_Id gr) = None \<and> (\<forall>r \<in> set (gw_members w'). mr_groupId r \<noteq> g_Id gr) \<and> (\<forall>q. IsMember q gr \<longrightarrow> GetGroup q w' = None) \<and>
             (\<forall>q. invite_of q w' \<noteq> Some a)
        else map ms_guid (g_slots gr') = remove1 p (map ms_guid (g_slots gr)) \<and> IsMember (g_leaderGuid gr') gr' \<and>
             (g_leaderGuid gr \<noteq> p \<longrightarrow> g_leaderGuid gr' = g_leaderGuid gr))"
proof -
  have ok: "grp_ok w" using assms(1,2) by (rule gr.inv_reachable)
  define w1 where "w1 = SendPartyResult PARTY_OP_LEAVE (name_of p w) ERR_PARTY_RESULT_OK p w"
  have s: "same w w1" by (simp add: w1_def)
  have ok1: "grp_ok w1" using s ok by (rule ok_same)
  have g1: "GetGroup p w1 = Some a" and t1: "this_group a w1 = this_group a w" and i1: "gw_rows w1 = gw_rows w"
    "invite_of q w1 = invite_of q w" "GetGroup q w1 = GetGroup q w" for q using s g by (simp_all add: same_def)
  have m: "member a p w1" using GetGroup_alive [OF ok_parts(1) [OF ok1] g1] by blast
  have H: "HandleGroupDisbandOpcode env p w = RemoveFromGroup env (Some a) p w1"
    using g bg g1 by (simp add: HandleGroupDisbandOpcode_def w1_def Let_def)
  have okR: "grp_ok (RemoveFromGroup env (Some a) p w1)" by (rule ok_RemoveFromGroup [OF ok1 m])
  have rem: "map ms_guid (remove1 s xs) = remove1 (ms_guid s) (map ms_guid xs)" if "distinct (map ms_guid xs)" "s \<in> set xs" for s xs
    using that by (induction xs) (auto simp: image_iff)
  have dist: "distinct (map ms_guid (g_slots (this_group a w1)))"
    using base_group [OF ok_parts(1) [OF ok1], of a] by (simp add: group_ok_def)
  note leader = leader_member
  from ok1 m show ?thesis
  proof (cases rule: RemoveFromGroup_cases [where env = env])
    case (1 s w2)
    have slots: "g_slots (this_group a (RemoveFromGroup env (Some a) p w1)) = remove1 s (g_slots (this_group a w))"
      "GetGroup p (RemoveFromGroup env (Some a) p w1) = None"
      "g_leaderGuid (this_group a (RemoveFromGroup env (Some a) p w1)) = g_leaderGuid (this_group a w)"
      using 1 t1 by (simp_all add: left_def same_def)
    have "remove1 s (g_slots (this_group a w)) \<noteq> []" using 1(1,3) by (simp add: t1) (metis length_remove1 length_0_conv One_nat_def diff_is_0_eq not_less_eq_eq Suc_1 less_imp_le)
    then show ?thesis
      using slots 1(1-3) rem [OF dist 1(1)] leader [OF okR, of a] unfolding H by (simp add: Let_def GetMembersCount_def t1)
  next
    case (2 s w2 t)
    have al: "alive a w2" using 2(6) by (metis slots_alive empty_iff empty_set)
    have slots: "g_slots (this_group a (RemoveFromGroup env (Some a) p w1)) = remove1 s (g_slots (this_group a w))"
      using 2(4,7) al t1 by (auto simp: led_def same_def left_def)
    have "GetGroup p (RemoveFromGroup env (Some a) p w1) = None"
      using led_invite(2) [OF 2(7), of p] 2(2,4) by (simp add: left_def)
    moreover have "remove1 s (g_slots (this_group a w)) \<noteq> []" using 2(4,6) t1 by (auto simp: left_def)
    ultimately show ?thesis
      using slots 2(1-3,5) rem [OF dist 2(1)] leader [OF okR, of a] unfolding H by (simp add: Let_def GetMembersCount_def t1)
  next
    case 3
    have links: "GetGroup q w1 = Some a \<or> GetGroup q w1 = None" if "IsMember q (this_group a w)" for q
      using that base_links(1) [OF ok_parts(1) [OF ok1], of q a] t1
      by (cases "online q w1") (auto simp: member_def IsMember_iff GetGroup_def ref_target_def online_def)
    have ne: "g_slots (this_group a w1) \<noteq> []" using 3(1) by auto
    have e: "GetGroup q (RemoveFromGroup env (Some a) p w1) = (if GetGroup q w1 = Some a then None else GetGroup q w1)"
      "invite_of q (RemoveFromGroup env (Some a) p w1) = (if invite_of q w1 = Some a then None else invite_of q w1)"
      "gw_rows (RemoveFromGroup env (Some a) p w1) (g_Id (this_group a w1)) = None"
      "\<not> alive a (RemoveFromGroup env (Some a) p w1)"
      "gw_members (RemoveFromGroup env (Some a) p w1) = filter (\<lambda>r. mr_groupId r \<noteq> g_Id (this_group a w1)) (gw_members w1)" for q
      using 3(2) ne by (simp_all add: ended_def Let_def)
    have "GetGroup q (RemoveFromGroup env (Some a) p w1) = None" if "IsMember q (this_group a w)" for q
      using links [OF that] e(1) [of q] by (elim disjE) simp_all
    then show ?thesis
      using 3(1) e g1 unfolding H by (simp add: Let_def GetMembersCount_def t1 alive_def)
  qed
qed

theorem leaving_effect_witness:
  "let w' = HandleGroupDisbandOpcode sample_genv 1 sample_trio
   in GetGroup 1 w' = None \<and> IsMember (g_leaderGuid (this_group 0 w')) (this_group 0 w') \<and> g_leaderGuid (this_group 0 w') \<noteq> 1"
proof -
  have c: "GetGroup 1 sample_trio = Some 0" "\<not> in_battleground 1 sample_trio"
    "map ms_guid (g_slots (this_group 0 sample_trio)) = [1, 2, 3]"
    by code_simp+
  then have "GetMembersCount (this_group 0 sample_trio) = 3" unfolding GetMembersCount_def by (metis length_map list.size(3,4) numeral_3_eq_3 One_nat_def add_0 add_Suc plus_1_eq_Suc)
  moreover have "remove1 (1 :: 64 word) [1, 2, 3] = [2, 3]" by simp
  ultimately have "GetGroup 1 (HandleGroupDisbandOpcode sample_genv 1 sample_trio) = None"
    "map ms_guid (g_slots (this_group 0 (HandleGroupDisbandOpcode sample_genv 1 sample_trio))) = [2, 3]"
    "IsMember (g_leaderGuid (this_group 0 (HandleGroupDisbandOpcode sample_genv 1 sample_trio)))
       (this_group 0 (HandleGroupDisbandOpcode sample_genv 1 sample_trio))"
    using leaving_effect [OF sample_gstart sample_trio_steps c(1,2), of sample_genv] c(3) by (simp_all add: Let_def)
  note r = this
  have "g_leaderGuid (this_group 0 (HandleGroupDisbandOpcode sample_genv 1 sample_trio)) \<in> set [2, 3]"
    using r(3) unfolding IsMember_iff list.set_map [symmetric] r(2) .
  moreover have "(1 :: 64 word) \<notin> set [2, 3]" by simp
  ultimately show ?thesis using r(1,3) unfolding Let_def by metis
qed

end
