(* ===== verification/GroupPlay.thy ===== *)
theory GroupPlay
  imports GroupProps
begin

text \<open>
  Further properties of groups: who may change a group, target icons, and loot rolls.
\<close>

section \<open>Rank\<close>

text \<open>Nothing but packets.\<close>

definition only_sent :: "grp_world \<Rightarrow> grp_world \<Rightarrow> bool" where
  "only_sent w w' \<longleftrightarrow> w'\<lparr>gw_out := gw_out w\<rparr> = w"

lemma only_sent_refl [simp]: "only_sent w w"
  by (simp add: only_sent_def)

lemma only_sent_gsend [simp]: "only_sent w (gsend p pkt w)"
  by (simp add: only_sent_def gsend_def)

lemma only_sent_result [simp]: "only_sent w (SendPartyResult op name r p w)"
  by (simp add: SendPartyResult_def)

text \<open>
  C9: a member of a party or raid who is neither its leader nor an assistant cannot invite or
  remove anybody, set target icons, or move members between subgroups: such a request sends
  packets at most and changes nothing. One who is not the leader cannot change the leader, the
  loot rules, the assistants or the main tank, or convert the group.
\<close>

theorem requests_need_rank:
  assumes g: "GetGroup p w = Some a" and bg: "\<not> g_bg (this_group a w)" and l: "\<not> IsLeader p (this_group a w)"
  shows "(\<not> IsAssistant p (this_group a w) \<longrightarrow>
       only_sent w (HandleGroupInviteOpcode env p name w) \<and>
       only_sent w (HandleGroupUninviteGuidOpcode env p guid w) \<and> only_sent w (HandleGroupUninviteOpcode env p name w) \<and>
       only_sent w (HandleRaidTargetUpdateOpcode p i guid w) \<and> only_sent w (HandleGroupChangeSubGroupOpcode env p name nr w)) \<and>
    only_sent w (HandleGroupSetLeaderOpcode env p guid w) \<and> only_sent w (HandleLootMethodOpcode p m guid th w) \<and>
    only_sent w (HandleGroupRaidConvertOpcode p w) \<and> only_sent w (HandleGroupAssistantLeaderOpcode p guid flag w) \<and>
    only_sent w (HandlePartyAssignmentOpcode p f1 f2 guid w)"
proof -
  have party: "party_of p w = Some a" "own_group p w = Some a" using g bg by (simp_all add: party_of_def own_group_def)
  have can: "\<not> IsAssistant p (this_group a w) \<Longrightarrow> CanUninviteFromGroup p q w = ERR_NOT_LEADER" for q
    using g l by (simp add: CanUninviteFromGroup_def Let_def)
  have nl: "ERR_NOT_LEADER \<noteq> ERR_PARTY_RESULT_OK" by (simp add: party_results)
  have "only_sent w (invite_checked p me q target n w)" if "\<not> IsAssistant p (this_group a w)" for me q target n
    using that l by (simp add: invite_checked_def party)
  then have "\<not> IsAssistant p (this_group a w) \<longrightarrow> only_sent w (HandleGroupInviteOpcode env p name w)"
    by (auto simp: HandleGroupInviteOpcode_def split: option.split)
  moreover have "\<not> IsAssistant p (this_group a w) \<longrightarrow> only_sent w (HandleGroupUninviteGuidOpcode env p guid w)"
    using can nl by (simp add: HandleGroupUninviteGuidOpcode_def Let_def)
  moreover have "\<not> IsAssistant p (this_group a w) \<longrightarrow> only_sent w (HandleGroupUninviteOpcode env p name w)"
    using can nl g by (auto simp: HandleGroupUninviteOpcode_def Let_def split: option.split)
  moreover have "\<not> IsAssistant p (this_group a w) \<longrightarrow> only_sent w (HandleRaidTargetUpdateOpcode p i guid w)"
    using l by (simp add: HandleRaidTargetUpdateOpcode_def party SendTargetIconList_def Let_def)
  moreover have "\<not> IsAssistant p (this_group a w) \<longrightarrow> only_sent w (HandleGroupChangeSubGroupOpcode env p name nr w)"
    using l g by (simp add: HandleGroupChangeSubGroupOpcode_def)
  moreover have "only_sent w (HandleGroupSetLeaderOpcode env p guid w)" "only_sent w (HandleLootMethodOpcode p m guid th w)"
    "only_sent w (HandleGroupRaidConvertOpcode p w)" "only_sent w (HandleGroupAssistantLeaderOpcode p guid flag w)"
    "only_sent w (HandlePartyAssignmentOpcode p f1 f2 guid w)"
    using l g
    by (simp_all add: HandleGroupSetLeaderOpcode_def HandleLootMethodOpcode_def party HandleGroupRaidConvertOpcode_def
        HandleGroupAssistantLeaderOpcode_def HandlePartyAssignmentOpcode_def Let_def)
  ultimately show ?thesis by blast
qed

theorem requests_need_rank_witness:
  "only_sent sample_raid (HandleGroupUninviteGuidOpcode sample_genv 2 3 sample_raid) \<and>
   only_sent sample_raid (HandleGroupSetLeaderOpcode sample_genv 2 2 sample_raid)"
proof -
  have "(\<lambda>w. GetGroup 2 w = Some 0 \<and> \<not> g_bg (this_group 0 w) \<and> \<not> IsLeader 2 (this_group 0 w) \<and> \<not> IsAssistant 2 (this_group 0 w)) sample_raid"
    by code_simp
  then have c: "GetGroup 2 sample_raid = Some 0" "\<not> g_bg (this_group 0 sample_raid)" "\<not> IsLeader 2 (this_group 0 sample_raid)"
    "\<not> IsAssistant 2 (this_group 0 sample_raid)" by blast+
  show ?thesis
    using requests_need_rank [OF c(1-3), of sample_genv _ 3] requests_need_rank [OF c(1-3), of sample_genv _ 2] c(4) by blast
qed

section \<open>Target icons\<close>

text \<open>
  Setting icon \<open>i\<close> on a target puts it there, takes the icon the target had off it, and
  leaves the other icons; so in every state a target has at most one icon.
\<close>

theorem target_icon_marks_once:
  assumes "grp_fresh w0" and "grp_step\<^sup>*\<^sup>* w0 w" and "gw_groups w a \<noteq> None" and i: "i < TARGET_ICON_COUNT"
  shows "(\<forall>j < TARGET_ICON_COUNT. g_icons (this_group a (SetTargetIcon a i t w)) ! j =
      (if j = i then t else if g_icons (this_group a w) ! j = t \<and> t \<noteq> 0 then 0 else g_icons (this_group a w) ! j)) \<and>
    (\<forall>j < TARGET_ICON_COUNT. \<forall>k < TARGET_ICON_COUNT. g_icons (this_group a w) ! j = g_icons (this_group a w) ! k \<longrightarrow>
       g_icons (this_group a w) ! j \<noteq> 0 \<longrightarrow> j = k)"
proof -
  let ?ic = "g_icons (this_group a w)"
  have "grp_ok w" using assms(1,2) by (rule gr.inv_reachable)
  then have ok: "icons_ok ?ic" using base_group [OF ok_parts(1), of w a] by (simp add: group_ok_def)
  have len: "length ?ic = 8" using ok by (simp add: icons_ok_def)
  have d: "distinct (filter (\<lambda>x. x \<noteq> 0) ?ic)" using ok by (simp add: icons_ok_def)
  have i8: "i < 8" using i by (simp add: TARGET_ICON_COUNT_def)
  have "g_icons (this_group a (SetTargetIcon a i t w)) = icons_with i t ?ic"
    using SetTargetIcon_same [OF len i8, of t] assms(3) by (simp add: same_def alive_def)
  then have "\<forall>j < TARGET_ICON_COUNT. g_icons (this_group a (SetTargetIcon a i t w)) ! j =
      (if j = i then t else if ?ic ! j = t \<and> t \<noteq> 0 then 0 else ?ic ! j)"
    using len by (simp add: icons_with_def TARGET_ICON_COUNT_def nth_list_update)
  moreover have "j = k" if "j < 8" "k < 8" "?ic ! j = ?ic ! k" "?ic ! j \<noteq> 0" for j k
  proof (rule ccontr)
    have once: "distinct (filter (\<lambda>x. x \<noteq> 0) xs) \<Longrightarrow> j < length xs \<Longrightarrow> k < length xs \<Longrightarrow> j < k \<Longrightarrow> xs ! j = xs ! k \<Longrightarrow> xs ! j = 0"
      for xs :: "object_guid list" and j k
    proof (induction xs arbitrary: j k)
      case (Cons x xs)
      show ?case
      proof (cases j)
        case 0
        then have "x \<in> set xs" using Cons.prems by (cases k) auto
        then show ?thesis using Cons.prems(1) 0 by (auto split: if_splits)
      next
        case (Suc j')
        then obtain k' where "k = Suc k'" using Cons.prems(4) by (cases k) auto
        then show ?thesis using Suc Cons.IH [of j' k'] Cons.prems by (auto split: if_splits)
      qed
    qed simp
    assume "j \<noteq> k"
    then consider "j < k" | "k < j" by linarith
    then show False
    proof cases
      case 1
      then show ?thesis using once [OF d _ _ 1 that(3)] that len by simp
    next
      case 2
      then show ?thesis using once [OF d _ _ 2 that(3) [symmetric]] that len by simp
    qed
  qed
  ultimately show ?thesis unfolding TARGET_ICON_COUNT_def by blast
qed

theorem target_icon_marks_once_witness:
  "g_icons (this_group 0 (SetTargetIcon 0 2 77 sample_raid)) ! 2 = 77"
proof -
  have "gw_groups sample_raid 0 \<noteq> None" by code_simp
  from target_icon_marks_once [OF sample_gstart sample_raid_steps this, of 2 77]
  have "\<forall>j < TARGET_ICON_COUNT. g_icons (this_group 0 (SetTargetIcon 0 2 77 sample_raid)) ! j =
      (if j = 2 then 77 else if g_icons (this_group 0 sample_raid) ! j = 77 \<and> (77 :: object_guid) \<noteq> 0 then 0 else g_icons (this_group 0 sample_raid) ! j)"
    by (simp add: TARGET_ICON_COUNT_def)
  then show ?thesis by (simp add: TARGET_ICON_COUNT_def)
qed

section \<open>Rolls\<close>

text \<open>The number the \<open>j\<close>-th voter of the winning kind draws.\<close>

definition draw :: "grp_env \<Rightarrow> grp_world \<Rightarrow> nat \<Rightarrow> u8" where
  "draw env w j = ucast (ge_urand env (gw_draws w + j) 1 100)"

lemma draw_after: "gw_draws w' = gw_draws w + 1 \<Longrightarrow> draw env w' j = draw env w (Suc j)"
  by (simp add: draw_def)

lemma roll_loop_highest:
  assumes "roll_loop env kind r votes m g w = (best, winner, w')"
    and "ps = map fst (filter (\<lambda>e. snd e = kind) votes)"
  shows "m \<le> best \<and> (\<forall>j < length ps. draw env w j \<le> best) \<and>
    (best = m \<and> winner = g \<or> (\<exists>j < length ps. winner = ps ! j \<and> best = draw env w j \<and> m < best \<and> (\<forall>k < j. draw env w k < best)))"
  using assms
proof (induction env kind r votes m g w arbitrary: ps rule: roll_loop.induct)
  case (2 env kind r p v votes m g w)
  show ?case
  proof (cases "v = kind")
    case False
    then have "ps = map fst (filter (\<lambda>e. snd e = kind) votes)" using 2(5) by simp
    then show ?thesis using 2(1) [OF False] 2(4) False by simp
  next
    case True
    let ?n = "ge_urand env (gw_draws w) 1 100"
    let ?w2 = "SendLootRoll p (ucast ?n) (vote_code v) r (w\<lparr>gw_draws := gw_draws w + 1\<rparr>)"
    let ?ps = "map fst (filter (\<lambda>e. snd e = kind) votes)"
    have d0: "draw env w 0 = ucast ?n" by (simp add: draw_def)
    have ds: "draw env ?w2 j = draw env w (Suc j)" for j
      by (rule draw_after) (simp add: SendLootRoll_def send_voters_def)
    have ps: "ps = p # ?ps" using True 2(5) by simp
    have all: "(\<forall>j < length ps. draw env w j \<le> b) \<longleftrightarrow> draw env w 0 \<le> b \<and> (\<forall>j < length ?ps. draw env w (Suc j) \<le> b)" for b
      unfolding ps by (auto simp: less_Suc_eq_0_disj)
    show ?thesis
    proof (cases "m < ucast ?n")
      case lt: True
      have R: "roll_loop env kind r votes (ucast ?n) p ?w2 = (best, winner, w')"
        using 2(4) True lt by (simp add: urand_def Let_def)
      have IH: "ucast ?n \<le> best \<and> (\<forall>j < length ?ps. draw env w (Suc j) \<le> best) \<and>
          (best = ucast ?n \<and> winner = p \<or> (\<exists>j < length ?ps. winner = ?ps ! j \<and> best = draw env w (Suc j) \<and> ucast ?n < best \<and>
             (\<forall>k < j. draw env w (Suc k) < best)))"
        using 2(2) [OF _ _ _ _ _ _ R refl] True lt unfolding ds by (simp add: urand_def)
      then consider "best = ucast ?n" "winner = p" | j where "j < length ?ps" "winner = ?ps ! j" "best = draw env w (Suc j)"
          "ucast ?n < best" "\<forall>k < j. draw env w (Suc k) < best" by blast
      then have "\<exists>j < length ps. winner = ps ! j \<and> best = draw env w j \<and> m < best \<and> (\<forall>k < j. draw env w k < best)"
      proof cases
        case 1
        then show ?thesis using lt by (intro exI [of _ 0]) (simp add: ps d0)
      next
        case 2
        then show ?thesis using lt by (intro exI [of _ "Suc j"]) (auto simp: ps d0 less_Suc_eq_0_disj)
      qed
      then show ?thesis using IH lt unfolding all d0 by auto
    next
      case ge: False
      have R: "roll_loop env kind r votes m g ?w2 = (best, winner, w')"
        using 2(4) True ge by (simp add: urand_def Let_def)
      have IH: "m \<le> best \<and> (\<forall>j < length ?ps. draw env w (Suc j) \<le> best) \<and>
          (best = m \<and> winner = g \<or> (\<exists>j < length ?ps. winner = ?ps ! j \<and> best = draw env w (Suc j) \<and> m < best \<and>
             (\<forall>k < j. draw env w (Suc k) < best)))"
        using 2(3) [OF _ _ _ _ _ _ R refl] True ge unfolding ds by (simp add: urand_def)
      have d0m: "draw env w 0 \<le> m" using ge by (simp add: d0 not_less)
      have "\<exists>j < length ps. winner = ps ! j \<and> best = draw env w j \<and> m < best \<and> (\<forall>k < j. draw env w k < best)"
        if "j < length ?ps" "winner = ?ps ! j" "best = draw env w (Suc j)" "m < best" "\<forall>k < j. draw env w (Suc k) < best" for j
        using that d0m by (intro exI [of _ "Suc j"]) (auto simp: ps less_Suc_eq_0_disj)
      then show ?thesis using IH d0m unfolding all by (auto intro: order_trans)
    qed
  qed
qed simp

lemma draw_positive:
  assumes "1 \<le> ge_urand env (gw_draws w + j) 1 100" and "ge_urand env (gw_draws w + j) 1 100 \<le> 100"
  shows "0 < draw env w j"
proof -
  let ?n = "ge_urand env (gw_draws w + j) 1 100"
  have "unat ?n \<le> 100" "0 < unat ?n" using assms by (simp_all add: word_le_nat_alt)
  then have "unat (draw env w j) = unat ?n" by (simp add: draw_def unsigned_ucast_eq take_bit_eq_mod)
  then show ?thesis using \<open>0 < unat ?n\<close> by (simp add: word_gt_0_no word_less_nat_alt)
qed

text \<open>Those who voted so, in the order of the votes.\<close>

definition candidates :: "roll_vote \<Rightarrow> roll \<Rightarrow> object_guid list" where
  "candidates kind r = map fst (filter (\<lambda>e. snd e = kind) (r_playerVote r))"

text \<open>The player is in the world and the item of the roll fits into his bags.\<close>

definition receives :: "grp_env \<Rightarrow> laddr \<Rightarrow> roll \<Rightarrow> object_guid \<Rightarrow> grp_world \<Rightarrow> bool" where
  "receives env l r p w \<longleftrightarrow>
     unat (r_itemSlot r) < length (loot_items l w) \<and>
     (case FindPlayer w p of None \<Rightarrow> False | Some pl \<Rightarrow> gp_session pl) \<and>
     ge_canStore env (gw_stored w) p (r_itemid r) (li_count (loot_items l w ! unat (r_itemSlot r))) = EQUIP_ERR_OK"

definition same_goods :: "grp_world \<Rightarrow> grp_world \<Rightarrow> bool" where
  "same_goods w w' \<longleftrightarrow> gw_stored w' = gw_stored w \<and> gw_loots w' = gw_loots w \<and> gw_players w' = gw_players w"

lemma goods_sent [simp]: "same_goods w (SendLootRoll p n v r w') \<longleftrightarrow> same_goods w w'" "same_goods w (SendLootRollWon p n k r w') \<longleftrightarrow> same_goods w w'"
  "same_goods w (SendLootAllPassed r w') \<longleftrightarrow> same_goods w w'" "same_goods w (w'\<lparr>gw_draws := d\<rparr>) \<longleftrightarrow> same_goods w w'" "same_goods w w"
  by (simp_all add: same_goods_def SendLootRoll_def SendLootRollWon_def SendLootAllPassed_def send_voters_def)

lemma goods_roll_loop: "same_goods w0 w \<Longrightarrow> same_goods w0 (snd (snd (roll_loop env kind r votes m g w)))"
  by (induction env kind r votes m g w rule: roll_loop.induct) (simp_all add: urand_def Let_def)

lemma goods_views:
  assumes "same_goods w w'"
  shows "loot_items l w' = loot_items l w" "receives env l r p w' = receives env l r p w" "gw_stored w' = gw_stored w"
  using assms by (simp_all add: same_goods_def loot_items_def receives_def FindPlayer_def)

lemma stored_upd [simp]: "gw_stored (upd_loot l f w) = gw_stored w" "gw_stored (upd_item l i g w) = gw_stored w"
  "gw_stored (NotifyItemRemoved l s w) = gw_stored w" "gw_stored (SendEquipError env m it p w) = gw_stored w" "gw_stored (fault w) = gw_stored w"
  by (simp_all add: upd_loot_def upd_item_def NotifyItemRemoved_def Let_def SendEquipError_def gsend_def fault_def)

lemma items_item: "loot_items l (upd_item l i f w) = (if i < length (loot_items l w) then (loot_items l w)[i := f (loot_items l w ! i)] else loot_items l w)"
  by (auto simp: upd_item_def fault_def loot_items_def upd_loot_def split: option.splits)

lemma items_rest [simp]: "loot_items l (NotifyItemRemoved l s w) = loot_items l w" "loot_items l (SendEquipError env m it p w) = loot_items l w"
  "loot_items l (w\<lparr>gw_stored := x\<rparr>) = loot_items l w" "loot_items l (upd_loot l (\<lambda>lo. lo\<lparr>l_unlootedCount := h lo\<rparr>) w) = loot_items l w"
  by (auto simp: NotifyItemRemoved_def Let_def loot_items_def upd_loot_def SendEquipError_def gsend_def split: option.splits)

lemma award_goods:
  fixes env l r p w k
  defines "w' \<equiv> (if k then award_need else award_greed) env l r p w" and "i \<equiv> unat (r_itemSlot r)"
  shows "gw_stored w' = gw_stored w @ (if receives env l r p w then [(p, r_itemid r, li_count (loot_items l w ! i))] else [])"
    and "receives env l r p w \<Longrightarrow> loot_items l w' = (loot_items l w)[i := (loot_items l w ! i)\<lparr>li_is_looted := True\<rparr>]"
    and "k \<Longrightarrow> \<not> receives env l r p w \<Longrightarrow> i < length (loot_items l w) \<Longrightarrow> li_lootOwner (loot_items l w' ! i) = p \<and> li_is_looted (loot_items l w' ! i) = li_is_looted (loot_items l w ! i)"
  by (auto simp: w'_def i_def award_need_def award_greed_def receives_def Let_def give_item_def items_item split: option.splits)

lemma settle_kind:
  assumes votes: "r_playerVote r \<noteq> []" and kind: "0 < r_totalNeed r \<or> 0 < r_totalGreed r" "kind = (if 0 < r_totalNeed r then ROLL_NEED else ROLL_GREED)"
    and R: "roll_loop env kind r (r_playerVote r) 0 (fst (hd (r_playerVote r))) w = (best, winner, w1)"
  shows "settle_roll env l r w =
      (if 0 < r_totalNeed r then award_need else award_greed) env l r winner (SendLootRollWon winner best kind r w1)"
proof -
  obtain first v vs where v: "r_playerVote r = (first, v) # vs" using votes by (cases "r_playerVote r") auto
  show ?thesis
  proof (cases "0 < r_totalNeed r")
    case True
    then have L: "roll_loop env ROLL_NEED r ((first, v) # vs) 0 first w = (best, winner, w1)" using R kind(2) by (simp only: v list.sel fst_conv if_True)
    show ?thesis unfolding settle_roll_def v if_P [OF True] kind(2) list.case prod.case Let_def L ..
  next
    case False
    have greed: "0 < r_totalGreed r" using kind(1) False by blast
    have L: "roll_loop env ROLL_GREED r ((first, v) # vs) 0 first w = (best, winner, w1)" using R kind(2) False by (simp only: v list.sel fst_conv if_False)
    show ?thesis unfolding settle_roll_def v if_not_P [OF False] if_P [OF greed] kind(2) list.case prod.case Let_def L ..
  qed
qed

text \<open>
  C19: what comes of a settled roll, whatever its votes and counters are. With both counters 0, or
  no voters, nobody gets anything. Otherwise the players considered are those who have chosen need
  when the counter of need is positive, and those who have chosen greed else. The winner is the one
  of them with the highest number, of equal numbers the first drawn; when there is none, the first
  voter, with the number 0. He is announced with his number, and he gets the item, which is then
  looted, if he is in the world and can store it, and nobody else gets anything; a winner by need
  who cannot get it becomes the owner of the item. Random numbers are taken to be between 1 and 100,
  as asked for. The counters are those of the roll: a sole candidate, whose need is not counted, gets
  nothing, and a changed vote is counted twice, as \<open>GroupFindings\<close> shows.
\<close>

theorem roll_winner_highest:
  assumes urand: "\<And>n. 1 \<le> ge_urand env n 1 100 \<and> ge_urand env n 1 100 \<le> 100"
  shows "let need = (0 < r_totalNeed r); kind = (if need then ROLL_NEED else ROLL_GREED); ps = candidates kind r;
      i = unat (r_itemSlot r); items = loot_items l w; w' = settle_roll env l r w
    in if r_playerVote r = [] \<or> \<not> need \<and> r_totalGreed r = 0 then gw_stored w' = gw_stored w
       else \<exists>p n w1.
         (if ps = [] then p = fst (hd (r_playerVote r)) \<and> n = 0
          else \<exists>j < length ps. p = ps ! j \<and> n = draw env w j \<and>
                 (\<forall>k < length ps. draw env w k \<le> n) \<and> (\<forall>k < j. draw env w k < n)) \<and>
         w' = (if need then award_need else award_greed) env l r p (SendLootRollWon p n kind r w1) \<and>
         gw_stored w' = gw_stored w @ (if receives env l r p w then [(p, r_itemid r, li_count (items ! i))] else []) \<and>
         (receives env l r p w \<longrightarrow> loot_items l w' = items[i := (items ! i)\<lparr>li_is_looted := True\<rparr>]) \<and>
         (need \<longrightarrow> \<not> receives env l r p w \<longrightarrow> i < length items \<longrightarrow>
            li_lootOwner (loot_items l w' ! i) = p \<and> li_is_looted (loot_items l w' ! i) = li_is_looted (items ! i))"
proof -
  define need where "need = (0 < r_totalNeed r)"
  define kind where "kind = (if need then ROLL_NEED else ROLL_GREED)"
  define ps where "ps = candidates kind r"
  let ?w = "settle_roll env l r w" and ?i = "unat (r_itemSlot r)"
  show ?thesis
  proof (cases "r_playerVote r = [] \<or> \<not> need \<and> r_totalGreed r = 0")
    case True
    have "gw_stored ?w = gw_stored w"
      using True goods_views(3) [of w "SendLootAllPassed r w"] by (auto simp: settle_roll_def need_def word_gt_0)
    then show ?thesis using True unfolding Let_def need_def by simp
  next
    case False
    then have votes: "r_playerVote r \<noteq> []" and some: "0 < r_totalNeed r \<or> 0 < r_totalGreed r" by (auto simp: need_def word_gt_0)
    obtain n p w2 where R: "roll_loop env kind r (r_playerVote r) 0 (fst (hd (r_playerVote r))) w = (n, p, w2)" by (metis prod_cases3)
    let ?won = "SendLootRollWon p n kind r w2"
    have e: "?w = (if need then award_need else award_greed) env l r p ?won"
      using settle_kind [OF votes some _ R] by (simp add: kind_def need_def)
    have g: "same_goods w ?won" using goods_roll_loop [of w w env kind r "r_playerVote r" 0 "fst (hd (r_playerVote r))"] R by simp
    note v = goods_views(1) [OF g, of l] goods_views(2) [OF g, of env l r p] goods_views(3) [OF g]
    have w: "gw_stored ?w = gw_stored w @ (if receives env l r p w then [(p, r_itemid r, li_count (loot_items l w ! ?i))] else [])"
      "receives env l r p w \<Longrightarrow> loot_items l ?w = (loot_items l w)[?i := (loot_items l w ! ?i)\<lparr>li_is_looted := True\<rparr>]"
      "need \<Longrightarrow> \<not> receives env l r p w \<Longrightarrow> ?i < length (loot_items l w) \<Longrightarrow>
         li_lootOwner (loot_items l ?w ! ?i) = p \<and> li_is_looted (loot_items l ?w ! ?i) = li_is_looted (loot_items l w ! ?i)"
      unfolding e using award_goods [where k = need and env = env and l = l and r = r and p = p and w = ?won] unfolding v by blast+
    have H: "(\<forall>j < length ps. draw env w j \<le> n) \<and>
      (n = 0 \<and> p = fst (hd (r_playerVote r)) \<or> (\<exists>j < length ps. p = ps ! j \<and> n = draw env w j \<and> 0 < n \<and> (\<forall>k < j. draw env w k < n)))"
      using roll_loop_highest [OF R, of ps] by (simp add: ps_def candidates_def)
    have who: "if ps = [] then p = fst (hd (r_playerVote r)) \<and> n = 0
       else \<exists>j < length ps. p = ps ! j \<and> n = draw env w j \<and> (\<forall>k < length ps. draw env w k \<le> n) \<and> (\<forall>k < j. draw env w k < n)"
    proof (cases "ps = []")
      case True
      then show ?thesis using H by simp
    next
      case no: False
      have "0 < draw env w 0" using urand by (intro draw_positive) simp_all
      then have "n \<noteq> 0" using H no by fastforce
      then show ?thesis using H no by auto
    qed
    show ?thesis
      unfolding Let_def need_def [symmetric] kind_def [symmetric] ps_def [symmetric] if_not_P [OF False]
      by (intro exI conjI impI) (rule who e w(1,2) w(3) [THEN conjunct1] w(3) [THEN conjunct2] | assumption)+
  qed
qed

definition sample_vote_roll :: roll where
  "sample_vote_roll =
     \<lparr>r_lootedTargetGUID = 9, r_itemid = 50, r_itemRandomPropId = 0,
      r_playerVote = [(1, ROLL_GREED), (2, ROLL_NEED), (3, ROLL_NEED)], r_totalPlayersRolling = 3, r_totalNeed = 2,
      r_totalGreed = 1, r_totalPass = 0, r_itemSlot = 0, r_loot = Some 0\<rparr>"

definition sample_dice :: grp_env where
  "sample_dice = sample_genv\<lparr>ge_urand := \<lambda>n lo hi. if n = 0 then 40 else 60\<rparr>"

definition sample_chest :: grp_world where
  "sample_chest = sample_trio\<lparr>gw_loots := (\<lambda>l. if l = 0 then Some
     \<lparr>l_items = [\<lparr>li_itemid = 50, li_randomPropertyId = 0, li_count = 2, li_is_looted = False, li_is_blocked = True,
                     li_freeforall = False, li_is_underthreshold = False, li_lootOwner = 0\<rparr>],
      l_unlootedCount = 1, l_playersLooting = []\<rparr> else None)\<rparr>"

theorem roll_winner_highest_witness:
  "gw_stored (settle_roll sample_dice 0 sample_vote_roll sample_chest) = [(3, 50, 2)] \<and>
   map li_is_looted (loot_items 0 (settle_roll sample_dice 0 sample_vote_roll sample_chest)) = [True]"
proof -
  have rand: "1 \<le> ge_urand sample_dice n 1 100 \<and> ge_urand sample_dice n 1 100 \<le> 100" for n by (simp add: sample_dice_def)
  have c: "candidates ROLL_NEED sample_vote_roll = [2, 3]" "0 < r_totalNeed sample_vote_roll" "r_playerVote sample_vote_roll \<noteq> []"
    "r_itemid sample_vote_roll = 50" "r_itemSlot sample_vote_roll = 0"
    by (simp_all add: sample_vote_roll_def candidates_def)
  have items: "map (\<lambda>it. (li_count it, li_is_looted it)) (loot_items 0 sample_chest) = [(2, False)]"
    by (simp add: sample_chest_def loot_items_def)
  have draws: "gw_draws sample_chest = 0" by code_simp
  have stored: "gw_stored sample_chest = []" by code_simp
  have rec: "receives sample_dice 0 sample_vote_roll 3 sample_chest" by code_simp
  have d: "draw sample_dice sample_chest 0 = 40" "draw sample_dice sample_chest (Suc 0) = 60"
    using draws by (simp_all add: draw_def sample_dice_def)
  let ?w = "settle_roll sample_dice 0 sample_vote_roll sample_chest"
  obtain it where it: "loot_items 0 sample_chest = [it]" "li_count it = 2" using items by auto
  from roll_winner_highest [OF rand, of sample_vote_roll 0 sample_chest]
  obtain p n j where p: "j < length [2, 3 :: object_guid]" "p = [2, 3] ! j" "n = draw sample_dice sample_chest j"
      "\<forall>k < length [2, 3 :: object_guid]. draw sample_dice sample_chest k \<le> n"
    and w: "gw_stored ?w = gw_stored sample_chest @ (if receives sample_dice 0 sample_vote_roll p sample_chest
          then [(p, 50, li_count (loot_items 0 sample_chest ! 0))] else [])"
      "receives sample_dice 0 sample_vote_roll p sample_chest \<Longrightarrow>
         loot_items 0 ?w = (loot_items 0 sample_chest)[0 := (loot_items 0 sample_chest ! 0)\<lparr>li_is_looted := True\<rparr>]"
    by (simp only: Let_def c simp_thms if_True if_False list.simps unsigned_0) blast
  have "draw sample_dice sample_chest (Suc 0) \<le> n" using p(4) by simp
  then have "j \<noteq> 0" using d p(3) by (cases "j = 0") simp_all
  then have "p = 3" using p(1,2) by (cases j) simp_all
  then show ?thesis using w rec stored it by simp
qed

text \<open>What is left of a list of rolls when the first one of the loot is taken out.\<close>

definition drop_due :: "laddr \<Rightarrow> roll list \<Rightarrow> roll list" where
  "drop_due l rs = takeWhile (\<lambda>r. r_loot r \<noteq> Some l) rs @ tl (dropWhile (\<lambda>r. r_loot r \<noteq> Some l) rs)"

lemma due_first:
  assumes "i < length rs" "r_loot (rs ! i) = Some l" "\<forall>j < i. r_loot (rs ! j) \<noteq> Some l"
  shows "drop_due l rs = take i rs @ drop (Suc i) rs"
    "filter (\<lambda>r. r_loot r = Some l) rs = rs ! i # filter (\<lambda>r. r_loot r = Some l) (take i rs @ drop (Suc i) rs)"
proof -
  have rs: "rs = take i rs @ rs ! i # drop (Suc i) rs" using assms(1) by (rule id_take_nth_drop)
  have no: "\<forall>r \<in> set (take i rs). r_loot r \<noteq> Some l" using assms(1,3) by (auto simp: in_set_conv_nth)
  show "drop_due l rs = take i rs @ drop (Suc i) rs"
    by (subst rs) (simp add: drop_due_def no assms(2))
  have "filter (\<lambda>r. r_loot r = Some l) rs = filter (\<lambda>r. r_loot r = Some l) (take i rs @ rs ! i # drop (Suc i) rs)"
    using rs by (rule arg_cong)
  then show "filter (\<lambda>r. r_loot r = Some l) rs = rs ! i # filter (\<lambda>r. r_loot r = Some l) (take i rs @ drop (Suc i) rs)"
    using no assms(2) by simp
qed

definition end_roll_of :: "grp_env \<Rightarrow> gaddr \<Rightarrow> laddr \<Rightarrow> roll \<Rightarrow> grp_world \<Rightarrow> grp_world" where
  "end_roll_of env a l r w = upd_group a (\<lambda>g. g\<lparr>g_rolls := drop_due l (g_rolls g)\<rparr>) (settle_roll env l r w)"

lemma CountTheRoll_due:
  assumes "i < length (g_rolls (this_group a w))" "r_loot (the_roll a i w) = Some l"
    "\<forall>j < i. r_loot (the_roll a j w) \<noteq> Some l"
  shows "CountTheRoll env a i w = end_roll_of env a l (the_roll a i w) w"
proof -
  have e: "drop_due l (g_rolls g) = take i (g_rolls g) @ drop (Suc i) (g_rolls g)" if "gw_groups (settle_roll env l r w) a = Some g" for g r
  proof -
    have "g = this_group a (settle_roll env l r w)" using that by (simp add: this_group_def)
    then show ?thesis using due_first(1) [of i "g_rolls (this_group a w)" l] assms by (simp add: the_roll_def)
  qed
  show ?thesis using assms(2) by (simp add: CountTheRoll_def end_roll_of_def erase_roll_def) (intro upd_group_cong, simp add: e)
qed

lemma EndRoll_loop_fold:
  "(\<forall>j < i. j < length (g_rolls (this_group a w)) \<longrightarrow> r_loot (the_roll a j w) \<noteq> Some l) \<Longrightarrow>
   EndRoll_loop env a l i w = fold (end_roll_of env a l) (filter (\<lambda>r. r_loot r = Some l) (g_rolls (this_group a w))) w"
proof (induction env a l i w rule: EndRoll_loop.induct)
  case (1 env a l i w)
  let ?rs = "g_rolls (this_group a w)"
  show ?case
  proof (cases "length ?rs \<le> i")
    case True
    then have "EndRoll_loop env a l i w = w" by (subst EndRoll_loop.simps) simp
    moreover have "filter (\<lambda>r. r_loot r = Some l) ?rs = []" using 1(3) True by (auto simp: in_set_conv_nth the_roll_def filter_empty_conv)
    ultimately show ?thesis by simp
  next
    case in_range: False
    show ?thesis
    proof (cases "r_loot (the_roll a i w) = Some l")
      case True
      have first: "\<forall>j < i. r_loot (the_roll a j w) \<noteq> Some l" using 1(3) in_range by simp
      have "EndRoll_loop env a l i w = EndRoll_loop env a l 0 (CountTheRoll env a i w)"
        using True in_range by (subst EndRoll_loop.simps) simp
      also have "\<dots> = fold (end_roll_of env a l) (filter (\<lambda>r. r_loot r = Some l) (take i ?rs @ drop (Suc i) ?rs)) (CountTheRoll env a i w)"
        using 1(1) [OF in_range True] by (simp add: rolls_CountTheRoll)
      also have "\<dots> = fold (end_roll_of env a l) (filter (\<lambda>r. r_loot r = Some l) ?rs) w"
        using CountTheRoll_due [OF _ True first, of env] due_first(2) [of i ?rs l] True first in_range
        by (simp add: the_roll_def)
      finally show ?thesis .
    next
      case no: False
      have "EndRoll_loop env a l i w = EndRoll_loop env a l (Suc i) w"
        using no in_range by (subst EndRoll_loop.simps) simp
      moreover have "\<forall>j < Suc i. j < length ?rs \<longrightarrow> r_loot (the_roll a j w) \<noteq> Some l"
        using 1(3) no less_Suc_eq by auto
      ultimately show ?thesis using 1(2) [OF in_range no] by simp
    qed
  qed
qed

lemma fold_rolls:
  "g_rolls (this_group a (end_roll_of env a l r w)) = drop_due l (g_rolls (this_group a w))"
proof (cases "gw_groups (settle_roll env l r w) a")
  case None
  then have "g_rolls (this_group a w) = []" using no_rolls unfolding this_group_settle [of a env l r w, symmetric] by blast
  then show ?thesis using None by (simp add: end_roll_of_def drop_due_def)
qed (simp add: end_roll_of_def alive_def)

lemma drop_due_filter: "filter (\<lambda>r. r_loot r \<noteq> Some l) (drop_due l rs) = filter (\<lambda>r. r_loot r \<noteq> Some l) rs"
  "length (filter (\<lambda>r. r_loot r = Some l) (drop_due l rs)) = length (filter (\<lambda>r. r_loot r = Some l) rs) - 1"
  by (induction rs) (auto simp: drop_due_def)

lemma fold_ends:
  "length (filter (\<lambda>r. r_loot r = Some l) (g_rolls (this_group a w))) = length rs \<Longrightarrow>
   g_rolls (this_group a (fold (end_roll_of env a l) rs w)) = filter (\<lambda>r. r_loot r \<noteq> Some l) (g_rolls (this_group a w))"
proof (induction rs arbitrary: w)
  case Nil
  then show ?case by (simp add: filter_id_conv filter_empty_conv)
next
  case (Cons r rs)
  then show ?case using Cons.IH [of "end_roll_of env a l r w"] by (simp add: fold_rolls drop_due_filter)
qed

text \<open>
  C30: when the time for a loot is over, the rolls of that loot are settled one after the other, in
  their order, and each is taken off the list when it has been settled; this ends, no roll of the
  loot is left, and the rolls of other loots stay as they are.
\<close>

theorem end_roll_settles_loot:
  "EndRoll env a l w =
     fold (\<lambda>r v. upd_group a (\<lambda>g. g\<lparr>g_rolls := drop_due l (g_rolls g)\<rparr>) (settle_roll env l r v))
       (filter (\<lambda>r. r_loot r = Some l) (g_rolls (this_group a w))) w \<and>
   g_rolls (this_group a (EndRoll env a l w)) = filter (\<lambda>r. r_loot r \<noteq> Some l) (g_rolls (this_group a w))"
proof -
  have e: "(\<lambda>r v. upd_group a (\<lambda>g. g\<lparr>g_rolls := drop_due l (g_rolls g)\<rparr>) (settle_roll env l r v)) = end_roll_of env a l"
    by (simp add: fun_eq_iff end_roll_of_def)
  show ?thesis using EndRoll_loop_fold [of 0 a w l env] fold_ends unfolding e by (simp add: EndRoll_def)
qed


end
