(* ===== verification/GroupFindings.thy ===== *)
theory GroupFindings
  imports GroupPlay
begin

text \<open>
  Runs of the group model in which the code does not do what it seems to mean to: players
  between two maps, repeated votes, rolls that nobody is left to end, and values that outlive
  the member or the request they came from. Each lemma evaluates the requests on a party or
  raid of three players, written out here as the requests of the sample runs build it.
\<close>

section \<open>The party\<close>

definition sample_loot :: loot where
  "sample_loot =
     \<lparr>l_items = [\<lparr>li_itemid = 50, li_randomPropertyId = 0, li_count = 1, li_is_looted = False, li_is_blocked = False,
                 li_freeforall = False, li_is_underthreshold = False, li_lootOwner = 0\<rparr>],
      l_unlootedCount = 1, l_playersLooting = []\<rparr>"

definition three_player :: "u8 \<Rightarrow> grp_player" where
  "three_player n = (sample_gp n)\<lparr>gp_leaderFlag := n = 1, gp_group := \<lparr>gr_target = Some 0, gr_subGroup = 0\<rparr>\<rparr>"

definition three_slots :: "member_slot list" where
  "three_slots = map (\<lambda>n. \<lparr>ms_guid = ucast n, ms_name = [n], ms_group = 0, ms_assistant = False\<rparr>) [1, 2, 3]"

definition three_group :: "bool \<Rightarrow> group" where
  "three_group raid = Group_new\<lparr>g_Id := 1, g_slots := three_slots, g_refs := [(3, MainRef), (2, MainRef), (1, MainRef)],
     g_leaderGuid := 1, g_leaderName := [1], g_leaderLastOnline := 1000, g_raid := raid, g_lootMethod := GROUP_LOOT,
     g_looterGuid := 1, g_counts := (if raid then Some (init_counts three_slots) else None), g_team := 469\<rparr>"

definition three :: "bool \<Rightarrow> grp_world" where
  "three raid = sample_gfresh\<lparr>
     gw_players := (\<lambda>p. if p = 1 \<or> p = 2 \<or> p = 3 then Some (three_player (ucast p)) else None),
     gw_groups := [0 \<mapsto> three_group raid], gw_fresh := 1, gw_groupMap := [1 \<mapsto> 0], gw_nextId := 2,
     gw_rows := [1 \<mapsto> group_row_of (three_group raid)],
     gw_members := map (\<lambda>s. \<lparr>mr_groupId = 1, mr_memberGuid = GetCounter (ms_guid s), mr_assistant = False, mr_subgroup = 0\<rparr>)
                     three_slots,
     gw_loots := [0 \<mapsto> sample_loot]\<rparr>"

section \<open>A player between two maps\<close>

text \<open>
  A player who is changing maps is not in the world and is not found. When he is removed from
  his party then, he leaves the member list but keeps his reference to the group.
\<close>

definition between_maps :: "object_guid \<Rightarrow> grp_world \<Rightarrow> grp_world" where
  "between_maps p w = upd_player p (\<lambda>pl. pl\<lparr>gp_inWorld := False\<rparr>) w"

lemma removed_between_maps_keeps_group:
  "(\<lambda>w. GetGroup 3 w = Some 0 \<and> \<not> IsMember 3 (this_group 0 w) \<and> IsMember 1 (this_group 0 w))
     (HandleGroupUninviteGuidOpcode sample_genv 1 3 (between_maps 3 (three False)))"
  by code_simp

text \<open>Moved to another subgroup then, his reference keeps the number of the old one.\<close>

lemma moved_between_maps_keeps_subgroup:
  "(\<lambda>w. GetMemberGroup 3 (this_group 0 w) = 4 \<and> ref_subgroup MainRef 3 w = 0)
     (HandleGroupChangeSubGroupOpcode sample_genv 1 [3] 4 (between_maps 3 (three True)))"
  by code_simp

section \<open>Rolls\<close>

definition sample_rolling :: grp_world where
  "sample_rolling = GroupLoot sample_genv 0 9 0 (three False)"

definition sample_vote :: "object_guid \<Rightarrow> roll_vote \<Rightarrow> grp_world \<Rightarrow> grp_world" where
  "sample_vote p v = HandleLootRoll sample_genv p 9 0 (vote_code v)"

text \<open>
  A vote is counted as often as it is sent: a player who answers need three times ends the roll
  of three players at once and gets the item.
\<close>

lemma repeated_votes_win_the_roll:
  "(\<lambda>w. length (g_rolls (this_group 0 sample_rolling)) = 1 \<and> g_rolls (this_group 0 w) = [] \<and> gw_stored w = [(2, 50, 1)])
     (sample_vote 2 ROLL_NEED (sample_vote 2 ROLL_NEED (sample_vote 2 ROLL_NEED sample_rolling)))"
  by code_simp

text \<open>
  When the last player who has not voted leaves, his entry is removed before the vote is
  counted, and the roll goes on although nobody is left to vote.
\<close>

lemma leaving_last_voter_does_not_end_the_roll:
  "(\<lambda>w. map (\<lambda>r. (r_totalPass r, r_totalPlayersRolling r)) (g_rolls (this_group 0 w)) = [(2, 2)] \<and>
        roll_over (the_roll 0 0 w))
     (HandleGroupDisbandOpcode sample_genv 3 (sample_vote 2 ROLL_PASS (sample_vote 1 ROLL_PASS sample_rolling)))"
  by code_simp

text \<open>
  A need winner who is not in the world has the item kept for him; a greed winner has not, and
  the item stays blocked for everybody.
\<close>

lemma absent_greed_winner_blocks_the_item:
  "(\<lambda>w. map (\<lambda>it. (li_is_blocked it, li_is_looted it, li_lootOwner it)) (loot_items 0 w) = [(True, False, 0)] \<and>
        g_rolls (this_group 0 w) = [])
     (StopGroupLoot sample_genv 1 0 (between_maps 2 (sample_vote 2 ROLL_GREED sample_rolling)))"
  "(\<lambda>w. map li_lootOwner (loot_items 0 w) = [2])
     (StopGroupLoot sample_genv 1 0 (between_maps 2 (sample_vote 2 ROLL_NEED sample_rolling)))"
  by code_simp+

text \<open>
  With a single candidate his vote is set to need, but no need is counted: at the end the roll
  counts as passed by all.
\<close>

lemma single_candidate_counts_as_passed:
  "(\<lambda>w. map (\<lambda>r. (r_playerVote r, r_totalNeed r)) (g_rolls (this_group 0 w)) = [([(2, ROLL_NEED)], 0)] \<and>
        gw_stored (StopGroupLoot sample_genv 1 0 w) = [])
     (GroupLoot (sample_genv\<lparr>ge_within := (\<lambda>p _. p = 2)\<rparr>) 0 9 0 (three False))"
  by code_simp

section \<open>Values that stay behind\<close>

text \<open>The main tank of a raid stays the main tank after he has left it.\<close>

lemma main_tank_outlives_membership:
  "(\<lambda>w. g_mainTankGuid (this_group 0 w) = 2 \<and> \<not> IsMember 2 (this_group 0 w))
     (HandleGroupDisbandOpcode sample_genv 2 (HandlePartyAssignmentOpcode 1 0 1 2 (three True)))"
  by code_simp

text \<open>
  The loot rules a leader sets are never written to the table of groups: after a restart the
  group has the rules it was created with.
\<close>

lemma loot_rules_are_not_stored:
  "(\<lambda>w. g_lootMethod (this_group 0 w) = MASTER_LOOT \<and> map_option row_lootMethod (gw_rows w 1) = Some GROUP_LOOT)
     (HandleLootMethodOpcode 1 MASTER_LOOT 1 2 (three False))"
  by code_simp

end
