(* ===== verification/GuildModel.thy ===== *)
theory GuildModel
  imports Channel Auction
begin

text \<open>
  Guilds: \<^verbatim>\<open>src/game/Guild/Guild.{h,cpp}\<close> and \<^verbatim>\<open>GuildMgr\<close>. All GUIDs here are of players, which the
  code stores and compares by their counter; the model keeps the counter. A guild is a record, a
  member function maps the guild and the rest of the server to their values after the call; the
  guild is in the map of the manager after \<^verbatim>\<open>AddGuild\<close> only. Strings are bytes, packets are
  appended to \<open>gu_out\<close> with their receiver, tables are functions on their unique keys.
\<close>

section \<open>Data\<close>

definition GUILD_RANKS_MIN_COUNT :: nat where "GUILD_RANKS_MIN_COUNT = 5"
definition GUILD_RANKS_MAX_COUNT :: nat where "GUILD_RANKS_MAX_COUNT = 10"
definition GUILD_NOTE_MAX_LENGTH :: nat where "GUILD_NOTE_MAX_LENGTH = 31"
definition GUILD_INFO_MAX_LENGTH :: nat where "GUILD_INFO_MAX_LENGTH = 500"
definition GUILD_MOTD_MAX_LENGTH :: nat where "GUILD_MOTD_MAX_LENGTH = 128"

definition GUILD_MAX_MEMBERS :: nat where
  "GUILD_MAX_MEMBERS = (0x8000 - 10 - GUILD_RANKS_MAX_COUNT - GUILD_INFO_MAX_LENGTH - GUILD_MOTD_MAX_LENGTH) div 100"

definition GUILD_EVENTLOG_MAX_RECORDS :: nat where "GUILD_EVENTLOG_MAX_RECORDS = 100"
definition DEFAULT_MAX_LEVEL :: nat where "DEFAULT_MAX_LEVEL = 60"

definition GR_GUILDMASTER :: u32 where "GR_GUILDMASTER = 0"
definition GR_OFFICER :: u32 where "GR_OFFICER = 1"

definition GR_RIGHT_EMPTY :: u32 where "GR_RIGHT_EMPTY = 0x40"
definition GR_RIGHT_GCHATLISTEN :: u32 where "GR_RIGHT_GCHATLISTEN = 0x41"
definition GR_RIGHT_GCHATSPEAK :: u32 where "GR_RIGHT_GCHATSPEAK = 0x42"
definition GR_RIGHT_OFFCHATLISTEN :: u32 where "GR_RIGHT_OFFCHATLISTEN = 0x44"
definition GR_RIGHT_OFFCHATSPEAK :: u32 where "GR_RIGHT_OFFCHATSPEAK = 0x48"
definition GR_RIGHT_PROMOTE :: u32 where "GR_RIGHT_PROMOTE = 0xC0"
definition GR_RIGHT_DEMOTE :: u32 where "GR_RIGHT_DEMOTE = 0x140"
definition GR_RIGHT_INVITE :: u32 where "GR_RIGHT_INVITE = 0x50"
definition GR_RIGHT_REMOVE :: u32 where "GR_RIGHT_REMOVE = 0x60"
definition GR_RIGHT_SETMOTD :: u32 where "GR_RIGHT_SETMOTD = 0x1040"
definition GR_RIGHT_EPNOTE :: u32 where "GR_RIGHT_EPNOTE = 0x2040"
definition GR_RIGHT_EOFFNOTE :: u32 where "GR_RIGHT_EOFFNOTE = 0x8040"
definition GR_RIGHT_MODIFY_GUILD_INFO :: u32 where "GR_RIGHT_MODIFY_GUILD_INFO = 0x10040"
definition GR_RIGHT_ALL :: u32 where "GR_RIGHT_ALL = 0xFF1FF"

datatype guild_event =
  GE_PROMOTION | GE_DEMOTION | GE_MOTD | GE_JOINED | GE_LEFT | GE_REMOVED | GE_LEADER_IS | GE_LEADER_CHANGED
| GE_DISBANDED | GE_TABARDCHANGE | GE_UNK1 | GE_UNK2 | GE_SIGNED_ON | GE_SIGNED_OFF

primrec event_code :: "guild_event \<Rightarrow> u8" where
  "event_code GE_PROMOTION = 0" | "event_code GE_DEMOTION = 1" | "event_code GE_MOTD = 2" | "event_code GE_JOINED = 3"
| "event_code GE_LEFT = 4" | "event_code GE_REMOVED = 5" | "event_code GE_LEADER_IS = 6" | "event_code GE_LEADER_CHANGED = 7"
| "event_code GE_DISBANDED = 8" | "event_code GE_TABARDCHANGE = 9" | "event_code GE_UNK1 = 10" | "event_code GE_UNK2 = 11"
| "event_code GE_SIGNED_ON = 12" | "event_code GE_SIGNED_OFF = 13"

datatype guild_log_type = LOG_INVITE_PLAYER | LOG_JOIN_GUILD | LOG_PROMOTE_PLAYER | LOG_DEMOTE_PLAYER | LOG_UNINVITE_PLAYER | LOG_LEAVE_GUILD

primrec log_code :: "guild_log_type \<Rightarrow> u8" where
  "log_code LOG_INVITE_PLAYER = 1" | "log_code LOG_JOIN_GUILD = 2" | "log_code LOG_PROMOTE_PLAYER = 3"
| "log_code LOG_DEMOTE_PLAYER = 4" | "log_code LOG_UNINVITE_PLAYER = 5" | "log_code LOG_LEAVE_GUILD = 6"

record guild_log_entry =
  le_EventType :: u8
  le_PlayerGuid1 :: u32
  le_PlayerGuid2 :: u32
  le_NewRank :: u8
  le_TimeStamp :: u64

record guild_member =
  gm_guid :: u32
  gm_accountId :: u32
  gm_Name :: "u8 list"
  gm_RankId :: u32
  gm_Level :: u8
  gm_Class :: u8
  gm_ZoneId :: u32
  gm_LogoutTime :: u64
  gm_Pnote :: "u8 list"
  gm_OFFnote :: "u8 list"

record rank_info =
  ri_Name :: "u8 list"
  ri_Rights :: u32

text \<open>The five emblem values are in the order style, colour, border style, border colour, background.\<close>

record guild =
  gd_Id :: u32
  gd_Name :: "u8 list"
  gd_LeaderGuid :: u32
  gd_MOTD :: "u8 list"
  gd_GINFO :: "u8 list"
  gd_Created :: "u32 \<times> u32 \<times> u32"
  gd_Emblem :: "u32 list"
  gd_accountsNumber :: u32
  gd_Ranks :: "rank_info list"
  gd_members :: "(u32 \<times> guild_member) list"
  gd_log :: "guild_log_entry list"
  gd_logNext :: u32

definition Guild_new :: guild where
  "Guild_new =
     \<lparr>gd_Id = 0, gd_Name = [], gd_LeaderGuid = 0, gd_MOTD = [], gd_GINFO = [], gd_Created = (0, 0, 0),
      gd_Emblem = [0, 0, 0, 0, 0], gd_accountsNumber = 0, gd_Ranks = [], gd_members = [], gd_log = [], gd_logNext = 0\<rparr>"

text \<open>
  A player in memory. \<open>pl_master\<close> is what the part of him that chats remembers: guild and rank
  when the session was last updated with his map.
\<close>

record guild_player =
  pl_name :: "u8 list"
  pl_account :: u32
  pl_level :: u32
  pl_class :: u8
  pl_zone :: u32
  pl_team :: u32
  pl_inWorld :: bool
  pl_guildId :: u32
  pl_rank :: u32
  pl_invited :: u32
  pl_master :: "u32 \<times> u32"
  pl_money :: u32

record guild_row =
  gr_name :: "u8 list"
  gr_leaderguid :: u32
  gr_info :: "u8 list"
  gr_motd :: "u8 list"
  gr_createdate :: u64
  gr_emblem :: "u32 list"

record guild_member_row =
  gmr_guildid :: u32
  gmr_rank :: u32
  gmr_pnote :: "u8 list"
  gmr_offnote :: "u8 list"

datatype guild_opcode =
  SMSG_GUILD_EVENT | SMSG_GUILD_COMMAND_RESULT | SMSG_GUILD_ROSTER | SMSG_GUILD_QUERY_RESPONSE | SMSG_GUILD_INVITE
| SMSG_GUILD_INFO | SMSG_TURN_IN_PETITION_RESULTS | MSG_SAVE_GUILD_EMBLEM | SMSG_MESSAGECHAT

type_synonym guild_packet = "guild_opcode \<times> u8 list"

text \<open>
  The state: players in memory, the manager's map of guilds in the order of its table, its cache
  from member to guild, the id counter, the tables \<^verbatim>\<open>guild\<close>, \<^verbatim>\<open>guild_member\<close> (unique by player),
  \<^verbatim>\<open>guild_rank\<close>, \<^verbatim>\<open>guild_eventlog\<close>, \<^verbatim>\<open>petition\<close> (owner and name) and \<^verbatim>\<open>petition_sign\<close> (petition,
  owner, signer), and the packets sent. \<open>gu_stopped\<close> is set when the id counter is at its end.
\<close>

record guild_world =
  gu_players :: "u32 \<Rightarrow> guild_player option"
  gu_map :: "(u32 \<times> guild) list"
  gu_cache :: "u32 \<Rightarrow> u32 option"
  gu_nextId :: u32
  gu_rows :: "u32 \<Rightarrow> guild_row option"
  gu_member_rows :: "u32 \<Rightarrow> guild_member_row option"
  gu_rank_rows :: "u32 \<Rightarrow> u32 \<Rightarrow> rank_info option"
  gu_log_rows :: "u32 \<Rightarrow> u32 \<Rightarrow> guild_log_entry option"
  gu_petitions :: "u32 \<Rightarrow> (u32 \<times> u8 list) option"
  gu_signs :: "(u32 \<times> u32 \<times> u32) list"
  gu_out :: "(u32 \<times> guild_packet) list"
  gu_stopped :: bool

text \<open>The character cache; the team of a character is asked for by \<open>ue_team\<close>.\<close>

record guild_cache =
  gc_name :: "u8 list"
  gc_level :: u8
  gc_class :: u8
  gc_zone :: u32
  gc_account :: u32

text \<open>
  What the code reads besides: clock and calendar, configuration, names, texts, social lists.
  \<open>ge_hash\<close> orders the entries of the hash tables, \<open>ge_days\<close> gives the bits of the binary32
  quotient of a time in seconds and a day.
\<close>

record guild_env =
  ue_time :: u64
  ue_localtime :: "u64 \<Rightarrow> u32 \<times> u32 \<times> u32"
  ue_normalize :: "u8 list \<Rightarrow> u8 list option"
  ue_byName :: "u8 list \<Rightarrow> u32 option"
  ue_cache :: "u32 \<Rightarrow> guild_cache option"
  ue_team :: "u32 \<Rightarrow> u32"
  ue_ignores :: "u32 \<Rightarrow> u32 \<Rightarrow> bool"
  ue_two_side :: bool
  ue_spam :: "u8 list \<Rightarrow> bool"
  ue_rankName :: "nat \<Rightarrow> u8 list"
  ue_logCount :: u32
  ue_minSigns :: u32
  ue_hash :: "u32 \<Rightarrow> nat"
  ue_days :: "u64 \<Rightarrow> u32"
  ue_chat :: "u32 \<Rightarrow> u8 list \<Rightarrow> u8 list"

section \<open>The stores\<close>

definition player_low :: "u32 \<Rightarrow> object_guid" where
  "player_low low = guid_of_counter HIGHGUID_PLAYER low"

definition find_gplayer :: "guild_world \<Rightarrow> u32 \<Rightarrow> guild_player option" where
  "find_gplayer w p =
     (if p = 0 then None
      else case gu_players w p of None \<Rightarrow> None | Some pl \<Rightarrow> if pl_inWorld pl then Some pl else None)"

definition upd_gplayer :: "u32 \<Rightarrow> (guild_player \<Rightarrow> guild_player) \<Rightarrow> guild_world \<Rightarrow> guild_world" where
  "upd_gplayer p f w = w\<lparr>gu_players := (gu_players w)(p := map_option f (gu_players w p))\<rparr>"

definition usend :: "u32 \<Rightarrow> guild_packet \<Rightarrow> guild_world \<Rightarrow> guild_world" where
  "usend p pkt w = w\<lparr>gu_out := gu_out w @ [(p, pkt)]\<rparr>"

definition GetGuildById :: "u32 \<Rightarrow> guild_world \<Rightarrow> guild option" where
  "GetGuildById i w = map_of (gu_map w) i"

definition GetGuildByName :: "u8 list \<Rightarrow> guild_world \<Rightarrow> guild option" where
  "GetGuildByName name w = find (\<lambda>g. gd_Name g = name) (map snd (gu_map w))"

definition GetGuildByLeader :: "u32 \<Rightarrow> guild_world \<Rightarrow> guild option" where
  "GetGuildByLeader p w = find (\<lambda>g. gd_LeaderGuid g = p) (map snd (gu_map w))"

definition GetGuildNameById :: "u32 \<Rightarrow> guild_world \<Rightarrow> u8 list" where
  "GetGuildNameById i w = (case GetGuildById i w of None \<Rightarrow> [] | Some g \<Rightarrow> gd_Name g)"

text \<open>A hash table keeps one entry for a key, in an order the environment decides.\<close>

definition table_put :: "guild_env \<Rightarrow> u32 \<Rightarrow> 'v \<Rightarrow> (u32 \<times> 'v) list \<Rightarrow> (u32 \<times> 'v) list" where
  "table_put env k v t =
     (if map_of t k = None then sort_key (\<lambda>e. ue_hash env (fst e)) (t @ [(k, v)])
      else map (\<lambda>e. if fst e = k then (k, v) else e) t)"

definition table_erase :: "u32 \<Rightarrow> (u32 \<times> 'v) list \<Rightarrow> (u32 \<times> 'v) list" where
  "table_erase k t = filter (\<lambda>e. fst e \<noteq> k) t"

definition table_adjust :: "u32 \<Rightarrow> ('v \<Rightarrow> 'v) \<Rightarrow> (u32 \<times> 'v) list \<Rightarrow> (u32 \<times> 'v) list" where
  "table_adjust k f t = map (\<lambda>e. if fst e = k then (k, f (snd e)) else e) t"

definition AddGuild :: "guild_env \<Rightarrow> guild \<Rightarrow> guild_world \<Rightarrow> guild_world" where
  "AddGuild env g w = w\<lparr>gu_map := table_put env (gd_Id g) g (gu_map w)\<rparr>"

definition RemoveGuild :: "u32 \<Rightarrow> guild_world \<Rightarrow> guild_world" where
  "RemoveGuild i w = w\<lparr>gu_map := table_erase i (gu_map w)\<rparr>"

text \<open>A change of a guild in the map is seen by everybody who looks it up afterwards.\<close>

definition put_guild :: "guild \<Rightarrow> guild_world \<Rightarrow> guild_world" where
  "put_guild g w = w\<lparr>gu_map := table_adjust (gd_Id g) (\<lambda>_. g) (gu_map w)\<rparr>"

definition GuildMemberAdded :: "u32 \<Rightarrow> u32 \<Rightarrow> guild_world \<Rightarrow> guild_world" where
  "GuildMemberAdded i low w = w\<lparr>gu_cache := (gu_cache w)(low \<mapsto> i)\<rparr>"

definition GuildMemberRemoved :: "u32 \<Rightarrow> guild_world \<Rightarrow> guild_world" where
  "GuildMemberRemoved low w = w\<lparr>gu_cache := (gu_cache w)(low := None)\<rparr>"

definition GetPlayerGuild :: "u32 \<Rightarrow> guild_world \<Rightarrow> guild option" where
  "GetPlayerGuild low w = (case gu_cache w low of None \<Rightarrow> None | Some i \<Rightarrow> GetGuildById i w)"

section \<open>Statements\<close>

definition sql_member :: "u32 \<Rightarrow> (guild_member_row \<Rightarrow> guild_member_row) \<Rightarrow> guild_world \<Rightarrow> guild_world" where
  "sql_member low f w = w\<lparr>gu_member_rows := (gu_member_rows w)(low := map_option f (gu_member_rows w low))\<rparr>"

definition sql_new_member :: "u32 \<Rightarrow> guild_member_row \<Rightarrow> guild_world \<Rightarrow> guild_world" where
  "sql_new_member low r w =
     (if gu_member_rows w low = None then w\<lparr>gu_member_rows := (gu_member_rows w)(low \<mapsto> r)\<rparr> else w)"

definition sql_del_member :: "u32 \<Rightarrow> guild_world \<Rightarrow> guild_world" where
  "sql_del_member low w = w\<lparr>gu_member_rows := (gu_member_rows w)(low := None)\<rparr>"

definition sql_del_members :: "u32 \<Rightarrow> guild_world \<Rightarrow> guild_world" where
  "sql_del_members i w =
     w\<lparr>gu_member_rows := (\<lambda>k. case gu_member_rows w k of
                                None \<Rightarrow> None | Some r \<Rightarrow> if gmr_guildid r = i then None else Some r)\<rparr>"

definition sql_guild :: "u32 \<Rightarrow> (guild_row \<Rightarrow> guild_row) \<Rightarrow> guild_world \<Rightarrow> guild_world" where
  "sql_guild i f w = w\<lparr>gu_rows := (gu_rows w)(i := map_option f (gu_rows w i))\<rparr>"

definition sql_new_rank :: "u32 \<Rightarrow> u32 \<Rightarrow> rank_info \<Rightarrow> guild_world \<Rightarrow> guild_world" where
  "sql_new_rank i rid r w =
     (if gu_rank_rows w i rid = None
      then w\<lparr>gu_rank_rows := (gu_rank_rows w)(i := (gu_rank_rows w i)(rid \<mapsto> r))\<rparr> else w)"

definition sql_rank :: "u32 \<Rightarrow> u32 \<Rightarrow> (rank_info \<Rightarrow> rank_info) \<Rightarrow> guild_world \<Rightarrow> guild_world" where
  "sql_rank i rid f w =
     w\<lparr>gu_rank_rows := (gu_rank_rows w)(i := (gu_rank_rows w i)(rid := map_option f (gu_rank_rows w i rid)))\<rparr>"

definition sql_del_ranks :: "u32 \<Rightarrow> u32 \<Rightarrow> guild_world \<Rightarrow> guild_world" where
  "sql_del_ranks from i w =
     w\<lparr>gu_rank_rows := (gu_rank_rows w)(i := (\<lambda>rid. if from \<le> rid then None else gu_rank_rows w i rid))\<rparr>"

section \<open>Accessors\<close>

definition GetMemberSlot :: "u32 \<Rightarrow> guild \<Rightarrow> guild_member option" where
  "GetMemberSlot low g = map_of (gd_members g) low"

definition GetMemberSlot_name :: "u8 list \<Rightarrow> guild \<Rightarrow> guild_member option" where
  "GetMemberSlot_name name g = find (\<lambda>s. gm_Name s = name) (map snd (gd_members g))"

definition GetMemberSize :: "guild \<Rightarrow> nat" where
  "GetMemberSize g = length (gd_members g)"

definition GetRanksSize :: "guild \<Rightarrow> nat" where
  "GetRanksSize g = length (gd_Ranks g)"

definition GetLowestRank :: "guild \<Rightarrow> u32" where
  "GetLowestRank g = of_nat (length (gd_Ranks g)) - 1"

definition guild_GetRank :: "u32 \<Rightarrow> guild \<Rightarrow> int" where
  "guild_GetRank low g = (case GetMemberSlot low g of None \<Rightarrow> -1 | Some s \<Rightarrow> sint (gm_RankId s))"

definition GetRankName :: "u32 \<Rightarrow> guild \<Rightarrow> u8 list" where
  "GetRankName r g =
     (if length (gd_Ranks g) \<le> unat r then [60, 117, 110, 107, 110, 111, 119, 110, 62] else ri_Name (gd_Ranks g ! unat r))"

definition GetRankRights :: "u32 \<Rightarrow> guild \<Rightarrow> u32" where
  "GetRankRights r g = (if length (gd_Ranks g) \<le> unat r then 0 else ri_Rights (gd_Ranks g ! unat r))"

definition HasRankRight :: "u32 \<Rightarrow> u32 \<Rightarrow> guild \<Rightarrow> bool" where
  "HasRankRight r right g \<longleftrightarrow> GetRankRights r g AND right \<noteq> GR_RIGHT_EMPTY"

text \<open>The number is 0 when it has to be counted anew.\<close>

definition GetAccountsNumber :: "guild \<Rightarrow> u32 \<times> guild" where
  "GetAccountsNumber g =
     (if gd_accountsNumber g \<noteq> 0 then (gd_accountsNumber g, g)
      else (let n = of_nat (card (set (map (gm_accountId \<circ> snd) (gd_members g)))) in (n, g\<lparr>gd_accountsNumber := n\<rparr>)))"

definition UpdateAccountsNumber :: "guild \<Rightarrow> guild" where
  "UpdateAccountsNumber g = g\<lparr>gd_accountsNumber := 0\<rparr>"

end
