(* ===== verification/GuildOps.thy ===== *)
theory GuildOps
  imports GuildModel
begin

text \<open>
  The operations of \<^verbatim>\<open>src/game/Guild/Guild.cpp\<close>. Each takes the guild it runs on and the server
  and returns both; \<open>low\<close> is the counter of a player's GUID.
\<close>

section \<open>Packets to the members\<close>

definition BroadcastPacket_guild :: "guild_packet \<Rightarrow> guild \<Rightarrow> guild_world \<Rightarrow> guild_world" where
  "BroadcastPacket_guild pkt g w =
     w\<lparr>gu_out := gu_out w @ map (\<lambda>k. (k, pkt)) (filter (\<lambda>k. find_gplayer w k \<noteq> None) (map fst (gd_members g)))\<rparr>"

definition BroadcastPacketToRank :: "guild_packet \<Rightarrow> u32 \<Rightarrow> guild \<Rightarrow> guild_world \<Rightarrow> guild_world" where
  "BroadcastPacketToRank pkt rankId g w =
     w\<lparr>gu_out := gu_out w @ map (\<lambda>e. (fst e, pkt))
        (filter (\<lambda>e. gm_RankId (snd e) = rankId \<and> find_gplayer w (fst e) \<noteq> None) (gd_members g))\<rparr>"

text \<open>The strings that are given, at most three, and the GUID unless it is empty.\<close>

definition BroadcastEvent :: "guild_event \<Rightarrow> u32 \<Rightarrow> u8 list list \<Rightarrow> guild \<Rightarrow> guild_world \<Rightarrow> guild_world" where
  "BroadcastEvent ev low strs g w =
     BroadcastPacket_guild
       (SMSG_GUILD_EVENT, [event_code ev, of_nat (length strs)] @ concat (map pstr strs) @
          (if low = 0 then [] else pguid (player_low low))) g w"

definition roster_entry :: "guild_env \<Rightarrow> guild_world \<Rightarrow> u32 \<times> guild_member \<Rightarrow> u8 list" where
  "roster_entry env w e =
     (case find_gplayer w (fst e) of
        Some pl \<Rightarrow>
          pguid (player_low (fst e)) @ [1] @ pstr (pl_name pl) @ p32 (gm_RankId (snd e)) @ [ucast (pl_level pl)] @
          [pl_class pl] @ p32 (pl_zone pl) @ pstr (gm_Pnote (snd e)) @ pstr (gm_OFFnote (snd e))
      | None \<Rightarrow>
          pguid (player_low (fst e)) @ [0] @ pstr (gm_Name (snd e)) @ p32 (gm_RankId (snd e)) @ [gm_Level (snd e)] @
          [gm_Class (snd e)] @ p32 (gm_ZoneId (snd e)) @ p32 (ue_days env (ue_time env - gm_LogoutTime (snd e))) @
          pstr (gm_Pnote (snd e)) @ pstr (gm_OFFnote (snd e)))"

definition roster_bytes :: "guild_env \<Rightarrow> guild_world \<Rightarrow> guild \<Rightarrow> u8 list" where
  "roster_bytes env w g =
     (let count = min (length (gd_members g)) GUILD_MAX_MEMBERS
      in p32 (of_nat count) @ pstr (gd_MOTD g) @ pstr (gd_GINFO g) @ p32 (of_nat (length (gd_Ranks g))) @
         concat (map (p32 \<circ> ri_Rights) (gd_Ranks g)) @
         concat (map (roster_entry env w) (take count (gd_members g))))"

definition Roster :: "guild_env \<Rightarrow> u32 option \<Rightarrow> guild \<Rightarrow> guild_world \<Rightarrow> guild_world" where
  "Roster env session g w =
     (case session of
        Some p \<Rightarrow> usend p (SMSG_GUILD_ROSTER, roster_bytes env w g) w
      | None \<Rightarrow> BroadcastPacket_guild (SMSG_GUILD_ROSTER, roster_bytes env w g) g w)"

definition query_bytes :: "guild \<Rightarrow> u8 list" where
  "query_bytes g =
     p32 (gd_Id g) @ pstr (gd_Name g) @
     concat (map (\<lambda>i. if i < length (gd_Ranks g) then pstr (ri_Name (gd_Ranks g ! i)) else [0]) [0..<GUILD_RANKS_MAX_COUNT]) @
     concat (map p32 (gd_Emblem g))"

definition Query :: "u32 \<Rightarrow> guild \<Rightarrow> guild_world \<Rightarrow> guild_world" where
  "Query p g w = usend p (SMSG_GUILD_QUERY_RESPONSE, query_bytes g) w"

text \<open>Guild chat goes by the ranks remembered since the last update of each session.\<close>

definition chat_receivers :: "guild_env \<Rightarrow> u32 \<Rightarrow> u32 \<Rightarrow> guild \<Rightarrow> guild_world \<Rightarrow> u32 list" where
  "chat_receivers env listen p g w =
     filter (\<lambda>k. case gu_players w k of
                   None \<Rightarrow> False | Some pl \<Rightarrow> HasRankRight (snd (pl_master pl)) listen g \<and> \<not> ue_ignores env k p)
       (map fst (gd_members g))"

definition guild_chat :: "guild_env \<Rightarrow> u32 \<Rightarrow> u32 \<Rightarrow> u32 \<Rightarrow> u8 list \<Rightarrow> guild \<Rightarrow> guild_world \<Rightarrow> guild_world" where
  "guild_chat env speak listen p msg g w =
     (case gu_players w p of
        None \<Rightarrow> w
      | Some me \<Rightarrow>
          if HasRankRight (snd (pl_master me)) speak g
          then w\<lparr>gu_out := gu_out w @ map (\<lambda>k. (k, SMSG_MESSAGECHAT, ue_chat env p msg)) (chat_receivers env listen p g w)\<rparr>
          else w)"

definition BroadcastToGuild :: "guild_env \<Rightarrow> u32 \<Rightarrow> u8 list \<Rightarrow> guild \<Rightarrow> guild_world \<Rightarrow> guild_world" where
  "BroadcastToGuild env = guild_chat env GR_RIGHT_GCHATSPEAK GR_RIGHT_GCHATLISTEN"

definition BroadcastToOfficers :: "guild_env \<Rightarrow> u32 \<Rightarrow> u8 list \<Rightarrow> guild \<Rightarrow> guild_world \<Rightarrow> guild_world" where
  "BroadcastToOfficers env = guild_chat env GR_RIGHT_OFFCHATSPEAK GR_RIGHT_OFFCHATLISTEN"

section \<open>Member entries\<close>

definition SetMemberStats :: "guild_player \<Rightarrow> guild_member \<Rightarrow> guild_member" where
  "SetMemberStats pl s =
     s\<lparr>gm_Name := pl_name pl, gm_Level := ucast (pl_level pl), gm_Class := pl_class pl, gm_ZoneId := pl_zone pl\<rparr>"

definition UpdateLogoutTime :: "guild_env \<Rightarrow> guild_member \<Rightarrow> guild_member" where
  "UpdateLogoutTime env s = s\<lparr>gm_LogoutTime := ue_time env\<rparr>"

definition upd_member :: "u32 \<Rightarrow> (guild_member \<Rightarrow> guild_member) \<Rightarrow> guild \<Rightarrow> guild" where
  "upd_member low f g = g\<lparr>gd_members := table_adjust low f (gd_members g)\<rparr>"

definition SetPNOTE :: "u32 \<Rightarrow> u8 list \<Rightarrow> guild \<Rightarrow> guild_world \<Rightarrow> guild \<times> guild_world" where
  "SetPNOTE low pnote g w =
     (upd_member low (\<lambda>s. s\<lparr>gm_Pnote := pnote\<rparr>) g, sql_member low (\<lambda>r. r\<lparr>gmr_pnote := pnote\<rparr>) w)"

definition SetOFFNOTE :: "u32 \<Rightarrow> u8 list \<Rightarrow> guild \<Rightarrow> guild_world \<Rightarrow> guild \<times> guild_world" where
  "SetOFFNOTE low offnote g w =
     (upd_member low (\<lambda>s. s\<lparr>gm_OFFnote := offnote\<rparr>) g, sql_member low (\<lambda>r. r\<lparr>gmr_offnote := offnote\<rparr>) w)"

definition set_player_rank :: "u32 \<Rightarrow> u32 \<Rightarrow> guild_world \<Rightarrow> guild_world" where
  "set_player_rank low rank w =
     (if find_gplayer w low = None then w else upd_gplayer low (\<lambda>pl. pl\<lparr>pl_rank := rank\<rparr>) w)"

definition ChangeRank :: "u32 \<Rightarrow> u32 \<Rightarrow> guild \<Rightarrow> guild_world \<Rightarrow> guild \<times> guild_world" where
  "ChangeRank low newRank g w =
     (upd_member low (\<lambda>s. s\<lparr>gm_RankId := newRank\<rparr>) g,
      sql_member low (\<lambda>r. r\<lparr>gmr_rank := newRank\<rparr>) (set_player_rank low newRank w))"

section \<open>Ranks\<close>

definition AddRank :: "u8 list \<Rightarrow> u32 \<Rightarrow> guild \<Rightarrow> guild" where
  "AddRank name rights g = g\<lparr>gd_Ranks := gd_Ranks g @ [\<lparr>ri_Name = name, ri_Rights = rights\<rparr>]\<rparr>"

definition CreateRank :: "u8 list \<Rightarrow> u32 \<Rightarrow> guild \<Rightarrow> guild_world \<Rightarrow> guild \<times> guild_world" where
  "CreateRank name rights g w =
     (if GUILD_RANKS_MAX_COUNT \<le> length (gd_Ranks g) then (g, w)
      else (AddRank name rights g,
            sql_new_rank (gd_Id g) (of_nat (length (gd_Ranks g))) \<lparr>ri_Name = name, ri_Rights = rights\<rparr> w))"

definition DelRank :: "guild \<Rightarrow> guild_world \<Rightarrow> guild \<times> guild_world" where
  "DelRank g w =
     (if length (gd_Ranks g) \<le> GUILD_RANKS_MIN_COUNT then (g, w)
      else (g\<lparr>gd_Ranks := butlast (gd_Ranks g)\<rparr>, sql_del_ranks (GetLowestRank g) (gd_Id g) w))"

definition upd_rank :: "u32 \<Rightarrow> (rank_info \<Rightarrow> rank_info) \<Rightarrow> guild \<Rightarrow> guild_world \<Rightarrow> guild \<times> guild_world" where
  "upd_rank r f g w =
     (if length (gd_Ranks g) \<le> unat r then (g, w)
      else (g\<lparr>gd_Ranks := (gd_Ranks g)[unat r := f (gd_Ranks g ! unat r)]\<rparr>, sql_rank (gd_Id g) r f w))"

definition SetRankName :: "u32 \<Rightarrow> u8 list \<Rightarrow> guild \<Rightarrow> guild_world \<Rightarrow> guild \<times> guild_world" where
  "SetRankName r name = upd_rank r (\<lambda>ri. ri\<lparr>ri_Name := name\<rparr>)"

definition SetRankRights :: "u32 \<Rightarrow> u32 \<Rightarrow> guild \<Rightarrow> guild_world \<Rightarrow> guild \<times> guild_world" where
  "SetRankRights r rights = upd_rank r (\<lambda>ri. ri\<lparr>ri_Rights := rights\<rparr>)"

definition CreateDefaultGuildRanks :: "guild_env \<Rightarrow> guild \<Rightarrow> guild_world \<Rightarrow> guild \<times> guild_world" where
  "CreateDefaultGuildRanks env g w =
     fold (\<lambda>(i, rights) (g1, w1). CreateRank (ue_rankName env i) rights g1 w1)
       [(0, GR_RIGHT_ALL), (1, GR_RIGHT_ALL), (2, GR_RIGHT_GCHATLISTEN OR GR_RIGHT_GCHATSPEAK),
        (3, GR_RIGHT_GCHATLISTEN OR GR_RIGHT_GCHATSPEAK), (4, GR_RIGHT_GCHATLISTEN OR GR_RIGHT_GCHATSPEAK)]
       (g, sql_del_ranks 0 (gd_Id g) w)"

section \<open>Texts, emblem, log\<close>

definition SetMOTD :: "u8 list \<Rightarrow> guild \<Rightarrow> guild_world \<Rightarrow> guild \<times> guild_world" where
  "SetMOTD motd g w = (g\<lparr>gd_MOTD := motd\<rparr>, sql_guild (gd_Id g) (\<lambda>r. r\<lparr>gr_motd := motd\<rparr>) w)"

definition SetGINFO :: "u8 list \<Rightarrow> guild \<Rightarrow> guild_world \<Rightarrow> guild \<times> guild_world" where
  "SetGINFO ginfo g w = (g\<lparr>gd_GINFO := ginfo\<rparr>, sql_guild (gd_Id g) (\<lambda>r. r\<lparr>gr_info := ginfo\<rparr>) w)"

definition SetEmblem :: "u32 list \<Rightarrow> guild \<Rightarrow> guild_world \<Rightarrow> guild \<times> guild_world" where
  "SetEmblem emblem g w = (g\<lparr>gd_Emblem := emblem\<rparr>, sql_guild (gd_Id g) (\<lambda>r. r\<lparr>gr_emblem := emblem\<rparr>) w)"

text \<open>
  The number of records in the configuration is at least a hundred (\<^verbatim>\<open>World::LoadConfigSettings\<close> takes
  \<^verbatim>\<open>GUILD_EVENTLOG_MAX_RECORDS\<close> as its minimum), so that nothing is taken modulo zero.
\<close>

definition LogGuildEvent ::
  "guild_env \<Rightarrow> guild_log_type \<Rightarrow> u32 \<Rightarrow> u32 \<Rightarrow> u32 \<Rightarrow> guild \<Rightarrow> guild_world \<Rightarrow> guild \<times> guild_world" where
  "LogGuildEvent env ty p1 p2 newRank g w =
     (let e = \<lparr>le_EventType = log_code ty, le_PlayerGuid1 = p1, le_PlayerGuid2 = p2, le_NewRank = ucast newRank,
               le_TimeStamp = ucast (ucast (ue_time env) :: u32)\<rparr>;
          next = (gd_logNext g + 1) mod ue_logCount env;
          kept = (if GUILD_EVENTLOG_MAX_RECORDS \<le> length (gd_log g) then tl (gd_log g) else gd_log g)
      in (g\<lparr>gd_logNext := next, gd_log := kept @ [e]\<rparr>,
          w\<lparr>gu_log_rows := (gu_log_rows w)(gd_Id g := (gu_log_rows w (gd_Id g))(next \<mapsto> e))\<rparr>))"

section \<open>Members\<close>

definition RemovePetitionsAndSigns :: "u32 \<Rightarrow> guild_world \<Rightarrow> guild_world" where
  "RemovePetitionsAndSigns low w =
     w\<lparr>gu_petitions := (\<lambda>i. case gu_petitions w i of
                              None \<Rightarrow> None | Some (owner, name) \<Rightarrow> if owner = low then None else Some (owner, name)),
       gu_signs := filter (\<lambda>(_, owner, _). owner \<noteq> low) (gu_signs w)\<rparr>"

definition playable_class :: "u8 \<Rightarrow> bool" where
  "playable_class c \<longleftrightarrow> c \<in> set [1, 2, 3, 4, 5, 7, 8, 9, 11]"

definition member_data :: "guild_env \<Rightarrow> u32 \<Rightarrow> u32 \<Rightarrow> guild_world \<Rightarrow> guild_member option" where
  "member_data env low rank w =
     (case find_gplayer w low of
        Some pl \<Rightarrow>
          Some \<lparr>gm_guid = low, gm_accountId = pl_account pl, gm_Name = pl_name pl, gm_RankId = rank,
                gm_Level = ucast (pl_level pl), gm_Class = pl_class pl, gm_ZoneId = pl_zone pl,
                gm_LogoutTime = ue_time env, gm_Pnote = [], gm_OFFnote = []\<rparr>
      | None \<Rightarrow>
          (case ue_cache env low of
             None \<Rightarrow> None
           | Some c \<Rightarrow>
               if unat (gc_level c) < 1 \<or> DEFAULT_MAX_LEVEL < unat (gc_level c) \<or> \<not> playable_class (gc_class c) then None
               else Some \<lparr>gm_guid = low, gm_accountId = gc_account c, gm_Name = gc_name c, gm_RankId = rank,
                          gm_Level = gc_level c, gm_Class = gc_class c, gm_ZoneId = gc_zone c,
                          gm_LogoutTime = ue_time env, gm_Pnote = [], gm_OFFnote = []\<rparr>))"

definition joined_guild :: "u32 \<Rightarrow> u32 \<Rightarrow> u32 \<Rightarrow> guild_world \<Rightarrow> guild_world" where
  "joined_guild i low rank w =
     (if find_gplayer w low = None then w
      else upd_gplayer low (\<lambda>pl. pl\<lparr>pl_guildId := i, pl_rank := rank, pl_invited := 0\<rparr>) w)"

definition guild_AddMember :: "guild_env \<Rightarrow> u32 \<Rightarrow> u32 \<Rightarrow> guild \<Rightarrow> guild_world \<Rightarrow> bool \<times> guild \<times> guild_world" where
  "guild_AddMember env low rank g w =
     (if GUILD_MAX_MEMBERS \<le> length (gd_members g) then (False, g, w)
      else if (case find_gplayer w low of
                 Some pl \<Rightarrow> pl_guildId pl \<noteq> 0 | None \<Rightarrow> GetMemberSlot low g \<noteq> None) then (False, g, w)
      else (let w1 = RemovePetitionsAndSigns low w
            in case member_data env low rank w1 of
                 None \<Rightarrow> (False, g, w1)
               | Some s \<Rightarrow>
                   (let g1 = g\<lparr>gd_members := table_put env low s (gd_members g)\<rparr>;
                        w2 = sql_new_member low \<lparr>gmr_guildid = gd_Id g, gmr_rank = rank, gmr_pnote = [], gmr_offnote = []\<rparr>
                               (GuildMemberAdded (gd_Id g) low w1)
                    in (True, UpdateAccountsNumber g1, joined_guild (gd_Id g) low rank w2))))"

definition SetLeader :: "u32 \<Rightarrow> guild \<Rightarrow> guild_world \<Rightarrow> guild \<times> guild_world" where
  "SetLeader low g w =
     (if GetMemberSlot low g = None then (g, w)
      else (let (g1, w1) = ChangeRank low GR_GUILDMASTER (g\<lparr>gd_LeaderGuid := low\<rparr>) w
            in (g1, sql_guild (gd_Id g) (\<lambda>r. r\<lparr>gr_leaderguid := low\<rparr>) w1)))"

text \<open>The member of the lowest rank number, the first one of them in the table.\<close>

fun best_member :: "u32 \<Rightarrow> (u32 \<times> guild_member) list \<Rightarrow> (u32 \<times> guild_member) option \<Rightarrow> (u32 \<times> guild_member) option" where
  "best_member low [] best = best"
| "best_member low (e # es) best =
     (if fst e = low then best_member low es best
      else best_member low es
             (case best of None \<Rightarrow> Some e | Some b \<Rightarrow> if gm_RankId (snd e) < gm_RankId (snd b) then Some e else best))"

definition left_guild :: "u32 \<Rightarrow> guild_world \<Rightarrow> guild_world" where
  "left_guild low w =
     (if find_gplayer w low = None then w else upd_gplayer low (\<lambda>pl. pl\<lparr>pl_guildId := 0, pl_rank := 0\<rparr>) w)"

definition erase_member :: "u32 \<Rightarrow> guild \<Rightarrow> guild_world \<Rightarrow> guild \<times> guild_world" where
  "erase_member low g w =
     (g\<lparr>gd_members := table_erase low (gd_members g)\<rparr>,
      sql_del_member low (left_guild low (GuildMemberRemoved low w)))"

definition replace_leader :: "u32 \<Rightarrow> u32 \<times> guild_member \<Rightarrow> guild \<Rightarrow> guild_world \<Rightarrow> guild \<times> guild_world" where
  "replace_leader low best g w =
     (let (g1, w1) = SetLeader (fst best) g w;
          w2 = set_player_rank (fst best) GR_GUILDMASTER w1
      in case GetMemberSlot low g of
           None \<Rightarrow> (g1, w2)
         | Some old \<Rightarrow>
             (g1, BroadcastEvent GE_LEFT low [gm_Name old] g1
                    (BroadcastEvent GE_LEADER_CHANGED 0 [gm_Name old, gm_Name (snd best)] g1 w2)))"

definition DelMember :: "u32 \<Rightarrow> bool \<Rightarrow> guild \<Rightarrow> guild_world \<Rightarrow> bool \<times> guild \<times> guild_world" where
  "DelMember low isDisbanding g w =
     (if gd_LeaderGuid g = low \<and> \<not> isDisbanding
      then (case best_member low (gd_members g) None of
              None \<Rightarrow> (True, g, w)
            | Some best \<Rightarrow>
                (let (g1, w1) = replace_leader low best g w; (g2, w2) = erase_member low g1 w1
                 in (gd_members g2 = [], UpdateAccountsNumber g2, w2)))
      else (let (g2, w2) = erase_member low g w
            in (gd_members g2 = [], if isDisbanding then g2 else UpdateAccountsNumber g2, w2)))"

function Disband_loop :: "guild \<Rightarrow> guild_world \<Rightarrow> guild \<times> guild_world" where
  "Disband_loop g w =
     (case gd_members g of
        [] \<Rightarrow> (g, w)
      | e # _ \<Rightarrow> Disband_loop (fst (snd (DelMember (fst e) True g w))) (snd (snd (DelMember (fst e) True g w))))"
  by pat_completeness auto

termination
  by (relation "measure (\<lambda>(g, w). length (gd_members g))")
    (auto simp: DelMember_def erase_member_def table_erase_def le_imp_less_Suc split: prod.split)

declare Disband_loop.simps [simp del]

definition Disband_guild :: "guild \<Rightarrow> guild_world \<Rightarrow> guild_world" where
  "Disband_guild g w =
     (let w1 = snd (Disband_loop g (BroadcastEvent GE_DISBANDED 0 [] g w)); i = gd_Id g
      in RemoveGuild i (w1\<lparr>gu_rows := (gu_rows w1)(i := None), gu_rank_rows := (gu_rank_rows w1)(i := (\<lambda>_. None)),
                          gu_log_rows := (gu_log_rows w1)(i := (\<lambda>_. None))\<rparr>))"

section \<open>A new guild\<close>

definition GenerateGuildId :: "guild_world \<Rightarrow> u32 \<times> guild_world" where
  "GenerateGuildId w =
     (gu_nextId w, w\<lparr>gu_stopped := gu_stopped w \<or> 0xFFFFFFFE \<le> gu_nextId w, gu_nextId := gu_nextId w + 1\<rparr>)"

text \<open>"No message set."\<close>

definition no_message :: "u8 list" where
  "no_message = [78, 111, 32, 109, 101, 115, 115, 97, 103, 101, 32, 115, 101, 116, 46]"

definition guild_row_of :: "u64 \<Rightarrow> guild \<Rightarrow> guild_row" where
  "guild_row_of now g =
     \<lparr>gr_name = gd_Name g, gr_leaderguid = gd_LeaderGuid g, gr_info = gd_GINFO g, gr_motd = gd_MOTD g,
      gr_createdate = now, gr_emblem = gd_Emblem g\<rparr>"

definition new_guild :: "guild_env \<Rightarrow> u32 \<Rightarrow> u8 list \<Rightarrow> guild_world \<Rightarrow> guild \<times> guild_world" where
  "new_guild env leader gname w =
     (let (i, w1) = GenerateGuildId w;
          g = Guild_new\<lparr>gd_LeaderGuid := leader, gd_Name := gname, gd_MOTD := no_message, gd_Id := i,
                        gd_Created := ue_localtime env (ue_time env)\<rparr>;
          w2 = sql_del_members i w1;
          w3 = (if gu_rows w2 i = None then w2\<lparr>gu_rows := (gu_rows w2)(i \<mapsto> guild_row_of (ue_time env) g)\<rparr> else w2)
      in CreateDefaultGuildRanks env g w3)"

definition Guild_Create :: "guild_env \<Rightarrow> u32 \<Rightarrow> u8 list \<Rightarrow> guild_world \<Rightarrow> bool \<times> guild \<times> guild_world" where
  "Guild_Create env leader gname w =
     (if GetGuildByName gname w \<noteq> None \<or> ue_spam env gname then (False, Guild_new, w)
      else (let (g, w1) = new_guild env leader gname w in guild_AddMember env leader GR_GUILDMASTER g w1))"

end
