(* ===== verification/GuildHandlers.thy ===== *)
theory GuildHandlers
  imports GuildOps
begin

text \<open>
  The requests of \<^verbatim>\<open>src/game/Handlers/GuildHandler.cpp\<close>. \<open>p\<close> is the player of the session; the
  packet has been read. The query of the guild log, which only reads, is left out.
\<close>

section \<open>Answers\<close>

definition GUILD_CREATE_S :: u32 where "GUILD_CREATE_S = 0"
definition GUILD_INVITE_S :: u32 where "GUILD_INVITE_S = 1"
definition GUILD_QUIT_S :: u32 where "GUILD_QUIT_S = 3"

definition ERR_PLAYER_NO_MORE_IN_GUILD :: u32 where "ERR_PLAYER_NO_MORE_IN_GUILD = 0"
definition ERR_ALREADY_IN_GUILD_S :: u32 where "ERR_ALREADY_IN_GUILD_S = 3"
definition ERR_ALREADY_INVITED_TO_GUILD_S :: u32 where "ERR_ALREADY_INVITED_TO_GUILD_S = 5"
definition ERR_GUILD_NAME_INVALID :: u32 where "ERR_GUILD_NAME_INVALID = 6"
definition ERR_GUILD_NAME_EXISTS_S :: u32 where "ERR_GUILD_NAME_EXISTS_S = 7"
definition ERR_GUILD_LEADER_LEAVE :: u32 where "ERR_GUILD_LEADER_LEAVE = 8"
definition ERR_GUILD_PERMISSIONS :: u32 where "ERR_GUILD_PERMISSIONS = 8"
definition ERR_GUILD_PLAYER_NOT_IN_GUILD :: u32 where "ERR_GUILD_PLAYER_NOT_IN_GUILD = 9"
definition ERR_GUILD_PLAYER_NOT_IN_GUILD_S :: u32 where "ERR_GUILD_PLAYER_NOT_IN_GUILD_S = 10"
definition ERR_GUILD_PLAYER_NOT_FOUND_S :: u32 where "ERR_GUILD_PLAYER_NOT_FOUND_S = 11"
definition ERR_GUILD_NOT_ALLIED :: u32 where "ERR_GUILD_NOT_ALLIED = 12"
definition ERR_GUILD_RANK_TOO_HIGH_S :: u32 where "ERR_GUILD_RANK_TOO_HIGH_S = 13"
definition ERR_GUILD_RANK_TOO_LOW_S :: u32 where "ERR_GUILD_RANK_TOO_LOW_S = 14"

definition SendGuildCommandResult :: "u32 \<Rightarrow> u8 list \<Rightarrow> u32 \<Rightarrow> u32 \<Rightarrow> guild_world \<Rightarrow> guild_world" where
  "SendGuildCommandResult typecmd str cmdresult p w =
     usend p (SMSG_GUILD_COMMAND_RESULT, p32 typecmd @ pstr str @ p32 cmdresult) w"

definition not_in_guild :: "u32 \<Rightarrow> guild_world \<Rightarrow> guild_world" where
  "not_in_guild = SendGuildCommandResult GUILD_CREATE_S [] ERR_GUILD_PLAYER_NOT_IN_GUILD"

definition no_permission :: "u32 \<Rightarrow> guild_world \<Rightarrow> guild_world" where
  "no_permission = SendGuildCommandResult GUILD_INVITE_S [] ERR_GUILD_PERMISSIONS"

text \<open>The usual end of a request: the guild's part of an operation is written back.\<close>

definition store_guild :: "guild \<times> guild_world \<Rightarrow> guild_world" where
  "store_guild gw = put_guild (fst gw) (snd gw)"

text \<open>After \<^verbatim>\<open>DelMember\<close>: a guild that has to go is disbanded and deleted, another goes on.\<close>

definition end_or :: "bool \<times> guild \<times> guild_world \<Rightarrow> (guild \<Rightarrow> guild_world \<Rightarrow> guild_world) \<Rightarrow> guild_world" where
  "end_or r k = (case r of (True, g, w) \<Rightarrow> Disband_guild g w | (False, g, w) \<Rightarrow> k g w)"

section \<open>Queries\<close>

definition HandleGuildQueryOpcode :: "u32 \<Rightarrow> u32 \<Rightarrow> guild_world \<Rightarrow> guild_world" where
  "HandleGuildQueryOpcode p guildId w =
     (case GetGuildById guildId w of None \<Rightarrow> not_in_guild p w | Some g \<Rightarrow> Query p g w)"

definition own_guild :: "guild_player \<Rightarrow> guild_world \<Rightarrow> guild option" where
  "own_guild me w = GetGuildById (pl_guildId me) w"

definition HandleGuildInfoOpcode :: "u32 \<Rightarrow> guild_world \<Rightarrow> guild_world" where
  "HandleGuildInfoOpcode p w =
     (case gu_players w p of
        None \<Rightarrow> w
      | Some me \<Rightarrow>
          (case own_guild me w of
             None \<Rightarrow> not_in_guild p w
           | Some g \<Rightarrow>
               (let (accounts, g1) = GetAccountsNumber g; (y, m, d) = gd_Created g
                in usend p (SMSG_GUILD_INFO, pstr (gd_Name g) @ p32 d @ p32 m @ p32 y @
                     p32 (of_nat (GetMemberSize g)) @ p32 accounts) (put_guild g1 w))))"

definition HandleGuildRosterOpcode :: "guild_env \<Rightarrow> u32 \<Rightarrow> guild_world \<Rightarrow> guild_world" where
  "HandleGuildRosterOpcode env p w =
     (case gu_players w p of
        None \<Rightarrow> w
      | Some me \<Rightarrow> (case own_guild me w of None \<Rightarrow> w | Some g \<Rightarrow> Roster env (Some p) g w))"

section \<open>Joining\<close>

definition HandleGuildCreateOpcode :: "guild_env \<Rightarrow> u32 \<Rightarrow> u8 list \<Rightarrow> guild_world \<Rightarrow> guild_world" where
  "HandleGuildCreateOpcode env p gname w =
     (case gu_players w p of
        None \<Rightarrow> w
      | Some me \<Rightarrow>
          if pl_guildId me \<noteq> 0 then w
          else (case Guild_Create env p gname w of
                  (False, _, w1) \<Rightarrow> w1 | (True, g, w1) \<Rightarrow> AddGuild env g w1))"

definition guild_invite ::
  "guild_env \<Rightarrow> u32 \<Rightarrow> guild_player \<Rightarrow> u32 \<Rightarrow> guild_player \<Rightarrow> u8 list \<Rightarrow> guild \<Rightarrow> guild_world \<Rightarrow> guild_world" where
  "guild_invite env p me q target name g w =
     (if ue_ignores env q p then w
      else if \<not> ue_two_side env \<and> pl_team target \<noteq> pl_team me
      then SendGuildCommandResult GUILD_INVITE_S name ERR_GUILD_NOT_ALLIED p w
      else if pl_guildId target \<noteq> 0 then SendGuildCommandResult GUILD_INVITE_S (pl_name target) ERR_ALREADY_IN_GUILD_S p w
      else if pl_invited target \<noteq> 0
      then SendGuildCommandResult GUILD_INVITE_S (pl_name target) ERR_ALREADY_INVITED_TO_GUILD_S p w
      else if \<not> HasRankRight (pl_rank me) GR_RIGHT_INVITE g then no_permission p w
      else usend q (SMSG_GUILD_INVITE, pstr (pl_name me) @ pstr (gd_Name g))
             (store_guild (LogGuildEvent env LOG_INVITE_PLAYER p q 0 g
                (upd_gplayer q (\<lambda>pl. pl\<lparr>pl_invited := pl_guildId me\<rparr>) w))))"

definition HandleGuildInviteOpcode :: "guild_env \<Rightarrow> u32 \<Rightarrow> u8 list \<Rightarrow> guild_world \<Rightarrow> guild_world" where
  "HandleGuildInviteOpcode env p Invitedname w =
     (case gu_players w p of
        None \<Rightarrow> w
      | Some me \<Rightarrow>
          (let name = (case ue_normalize env Invitedname of None \<Rightarrow> Invitedname | Some n \<Rightarrow> n);
               found = (case ue_normalize env Invitedname of
                          None \<Rightarrow> None
                        | Some n \<Rightarrow> (case ue_byName env n of
                                     None \<Rightarrow> None | Some q \<Rightarrow> map_option (Pair q) (find_gplayer w q)))
           in case found of
                None \<Rightarrow> SendGuildCommandResult GUILD_INVITE_S name ERR_GUILD_PLAYER_NOT_FOUND_S p w
              | Some (q, target) \<Rightarrow>
                  (case own_guild me w of
                     None \<Rightarrow> not_in_guild p w | Some g \<Rightarrow> guild_invite env p me q target name g w)))"

definition HandleGuildAcceptOpcode :: "guild_env \<Rightarrow> u32 \<Rightarrow> guild_world \<Rightarrow> guild_world" where
  "HandleGuildAcceptOpcode env p w =
     (case gu_players w p of
        None \<Rightarrow> w
      | Some me \<Rightarrow>
          (case GetGuildById (pl_invited me) w of
             None \<Rightarrow> w
           | Some g \<Rightarrow>
               if pl_guildId me \<noteq> 0 then w
               else if \<not> ue_two_side env \<and> pl_team me \<noteq> ue_team env (gd_LeaderGuid g) then w
               else (case guild_AddMember env p (GetLowestRank g) g w of
                       (False, g1, w1) \<Rightarrow> store_guild (g1, w1)
                     | (True, g1, w1) \<Rightarrow>
                         (let (g2, w2) = LogGuildEvent env LOG_JOIN_GUILD p 0 0 g1 w1
                          in store_guild (g2, BroadcastEvent GE_JOINED p [pl_name me] g2 w2)))))"

definition HandleGuildDeclineOpcode :: "u32 \<Rightarrow> guild_world \<Rightarrow> guild_world" where
  "HandleGuildDeclineOpcode p w = upd_gplayer p (\<lambda>pl. pl\<lparr>pl_invited := 0, pl_guildId := 0\<rparr>) w"

section \<open>Leaving\<close>

definition HandleGuildRemoveOpcode :: "guild_env \<Rightarrow> u32 \<Rightarrow> u8 list \<Rightarrow> guild_world \<Rightarrow> guild_world" where
  "HandleGuildRemoveOpcode env p plName w =
     (case gu_players w p of
        None \<Rightarrow> w
      | Some me \<Rightarrow>
          (case ue_normalize env plName of
             None \<Rightarrow> w
           | Some name \<Rightarrow>
               if \<not> pl_inWorld me then w
               else (case own_guild me w of
                       None \<Rightarrow> not_in_guild p w
                     | Some g \<Rightarrow>
                         if \<not> HasRankRight (pl_rank me) GR_RIGHT_REMOVE g then no_permission p w
                         else (case GetMemberSlot_name name g of
                                 None \<Rightarrow> SendGuildCommandResult GUILD_INVITE_S name ERR_GUILD_PLAYER_NOT_IN_GUILD_S p w
                               | Some slot \<Rightarrow>
                                   if gm_RankId slot = GR_GUILDMASTER
                                   then SendGuildCommandResult GUILD_QUIT_S [] ERR_GUILD_LEADER_LEAVE p w
                                   else if gm_RankId slot \<le> pl_rank me
                                   then SendGuildCommandResult GUILD_QUIT_S name ERR_GUILD_RANK_TOO_HIGH_S p w
                                   else end_or (DelMember (gm_guid slot) False g w)
                                          (\<lambda>g1 w1. let (g2, w2) = LogGuildEvent env LOG_UNINVITE_PLAYER p (gm_guid slot) 0 g1 w1
                                                   in store_guild (g2, BroadcastEvent GE_REMOVED 0 [name, pl_name me] g2 w2))))))"

definition HandleGuildLeaveOpcode :: "guild_env \<Rightarrow> u32 \<Rightarrow> guild_world \<Rightarrow> guild_world" where
  "HandleGuildLeaveOpcode env p w =
     (case gu_players w p of
        None \<Rightarrow> w
      | Some me \<Rightarrow>
          (case own_guild me w of
             None \<Rightarrow> not_in_guild p w
           | Some g \<Rightarrow>
               if p = gd_LeaderGuid g \<and> 1 < GetMemberSize g
               then SendGuildCommandResult GUILD_QUIT_S [] ERR_GUILD_LEADER_LEAVE p w
               else if p = gd_LeaderGuid g then Disband_guild g w
               else end_or (DelMember p False g (SendGuildCommandResult GUILD_QUIT_S (gd_Name g) ERR_PLAYER_NO_MORE_IN_GUILD p w))
                      (\<lambda>g1 w1. let (g2, w2) = LogGuildEvent env LOG_LEAVE_GUILD p 0 0 g1 w1
                               in store_guild (g2, BroadcastEvent GE_LEFT p [pl_name me] g2 w2))))"

definition HandleGuildDisbandOpcode :: "u32 \<Rightarrow> guild_world \<Rightarrow> guild_world" where
  "HandleGuildDisbandOpcode p w =
     (case gu_players w p of
        None \<Rightarrow> w
      | Some me \<Rightarrow>
          (case own_guild me w of
             None \<Rightarrow> not_in_guild p w
           | Some g \<Rightarrow> if p \<noteq> gd_LeaderGuid g then no_permission p w else Disband_guild g w))"

section \<open>Ranks of members\<close>

definition change_rank ::
  "guild_env \<Rightarrow> guild_log_type \<Rightarrow> guild_event \<Rightarrow> u32 \<Rightarrow> guild_player \<Rightarrow> u8 list \<Rightarrow> guild_member \<Rightarrow> u32 \<Rightarrow> guild \<Rightarrow>
     guild_world \<Rightarrow> guild_world" where
  "change_rank env ty ev p me name slot newRank g w =
     (let (g1, w1) = ChangeRank (gm_guid slot) newRank g w;
          (g2, w2) = LogGuildEvent env ty p (gm_guid slot) newRank g1 w1
      in store_guild (g2, BroadcastEvent ev 0 [pl_name me, name, GetRankName newRank g2] g2 w2))"

text \<open>Promotion and demotion up to the comparison of ranks.\<close>

definition on_member ::
  "guild_env \<Rightarrow> u32 \<Rightarrow> u32 \<Rightarrow> u8 list \<Rightarrow> (guild_player \<Rightarrow> u8 list \<Rightarrow> guild_member \<Rightarrow> guild \<Rightarrow> guild_world) \<Rightarrow>
     guild_world \<Rightarrow> guild_world" where
  "on_member env right p plName k w =
     (case gu_players w p of
        None \<Rightarrow> w
      | Some me \<Rightarrow>
          (case ue_normalize env plName of
             None \<Rightarrow> w
           | Some name \<Rightarrow>
               (case own_guild me w of
                  None \<Rightarrow> not_in_guild p w
                | Some g \<Rightarrow>
                    if \<not> HasRankRight (pl_rank me) right g then no_permission p w
                    else (case GetMemberSlot_name name g of
                            None \<Rightarrow> SendGuildCommandResult GUILD_INVITE_S name ERR_GUILD_PLAYER_NOT_IN_GUILD_S p w
                          | Some slot \<Rightarrow> k me name slot g))))"

definition HandleGuildPromoteOpcode :: "guild_env \<Rightarrow> u32 \<Rightarrow> u8 list \<Rightarrow> guild_world \<Rightarrow> guild_world" where
  "HandleGuildPromoteOpcode env p plName w =
     on_member env GR_RIGHT_PROMOTE p plName (\<lambda>me name slot g.
       if gm_guid slot = p then SendGuildCommandResult GUILD_INVITE_S [] ERR_GUILD_NAME_INVALID p w
       else if gm_RankId slot \<le> pl_rank me + 1 then SendGuildCommandResult GUILD_INVITE_S name ERR_GUILD_RANK_TOO_HIGH_S p w
       else change_rank env LOG_PROMOTE_PLAYER GE_PROMOTION p me name slot (gm_RankId slot - 1) g w) w"

definition HandleGuildDemoteOpcode :: "guild_env \<Rightarrow> u32 \<Rightarrow> u8 list \<Rightarrow> guild_world \<Rightarrow> guild_world" where
  "HandleGuildDemoteOpcode env p plName w =
     on_member env GR_RIGHT_DEMOTE p plName (\<lambda>me name slot g.
       if gm_guid slot = p then SendGuildCommandResult GUILD_INVITE_S [] ERR_GUILD_NAME_INVALID p w
       else if gm_RankId slot \<le> pl_rank me then SendGuildCommandResult GUILD_INVITE_S name ERR_GUILD_RANK_TOO_HIGH_S p w
       else if GetLowestRank g \<le> gm_RankId slot then SendGuildCommandResult GUILD_INVITE_S name ERR_GUILD_RANK_TOO_LOW_S p w
       else change_rank env LOG_DEMOTE_PLAYER GE_DEMOTION p me name slot (gm_RankId slot + 1) g w) w"

definition HandleGuildSetPublicNoteOpcode :: "guild_env \<Rightarrow> u32 \<Rightarrow> u8 list \<Rightarrow> u8 list \<Rightarrow> guild_world \<Rightarrow> guild_world" where
  "HandleGuildSetPublicNoteOpcode env p plName pnote w =
     on_member env GR_RIGHT_EPNOTE p plName (\<lambda>me name slot g.
       if GUILD_NOTE_MAX_LENGTH < length pnote then w
       else (let (g1, w1) = SetPNOTE (gm_guid slot) pnote g w in store_guild (g1, Roster env (Some p) g1 w1))) w"

definition HandleGuildSetOfficerNoteOpcode :: "guild_env \<Rightarrow> u32 \<Rightarrow> u8 list \<Rightarrow> u8 list \<Rightarrow> guild_world \<Rightarrow> guild_world" where
  "HandleGuildSetOfficerNoteOpcode env p plName offnote w =
     on_member env GR_RIGHT_EOFFNOTE p plName (\<lambda>me name slot g.
       if GUILD_NOTE_MAX_LENGTH < length offnote then w
       else (let (g1, w1) = SetOFFNOTE (gm_guid slot) offnote g w in store_guild (g1, Roster env (Some p) g1 w1))) w"

section \<open>Requests of the leader\<close>

definition on_own_guild ::
  "u32 \<Rightarrow> (guild_player \<Rightarrow> guild \<Rightarrow> guild_world) \<Rightarrow> guild_world \<Rightarrow> guild_world" where
  "on_own_guild p k w =
     (case gu_players w p of
        None \<Rightarrow> w
      | Some me \<Rightarrow> (case own_guild me w of None \<Rightarrow> not_in_guild p w | Some g \<Rightarrow> k me g))"

definition HandleGuildLeaderOpcode :: "guild_env \<Rightarrow> u32 \<Rightarrow> u8 list \<Rightarrow> guild_world \<Rightarrow> guild_world" where
  "HandleGuildLeaderOpcode env p plName w =
     (case ue_normalize env plName of
        None \<Rightarrow> w
      | Some name \<Rightarrow>
          on_own_guild p (\<lambda>me g.
            if p \<noteq> gd_LeaderGuid g then no_permission p w
            else if GetMemberSlot p g = None then no_permission p w
            else (case GetMemberSlot_name name g of
                    None \<Rightarrow> SendGuildCommandResult GUILD_INVITE_S name ERR_GUILD_PLAYER_NOT_IN_GUILD_S p w
                  | Some slot \<Rightarrow>
                      (let (g1, w1) = SetLeader (gm_guid slot) g w;
                           (g2, w2) = ChangeRank p GR_OFFICER g1 w1
                       in store_guild (g2, BroadcastEvent GE_LEADER_CHANGED 0 [pl_name me, name] g2 w2)))) w)"

definition HandleGuildMOTDOpcode :: "u32 \<Rightarrow> u8 list \<Rightarrow> guild_world \<Rightarrow> guild_world" where
  "HandleGuildMOTDOpcode p motd w =
     (if GUILD_MOTD_MAX_LENGTH < length motd then w
      else on_own_guild p (\<lambda>me g.
             if \<not> HasRankRight (pl_rank me) GR_RIGHT_SETMOTD g then no_permission p w
             else (let (g1, w1) = SetMOTD motd g w in store_guild (g1, BroadcastEvent GE_MOTD 0 [motd] g1 w1))) w)"

definition HandleGuildChangeInfoTextOpcode :: "u32 \<Rightarrow> u8 list \<Rightarrow> guild_world \<Rightarrow> guild_world" where
  "HandleGuildChangeInfoTextOpcode p ginfo w =
     (if GUILD_INFO_MAX_LENGTH < length ginfo then w
      else on_own_guild p (\<lambda>me g.
             if \<not> HasRankRight (pl_rank me) GR_RIGHT_MODIFY_GUILD_INFO g
             then SendGuildCommandResult GUILD_CREATE_S [] ERR_GUILD_PERMISSIONS p w
             else store_guild (SetGINFO ginfo g w)) w)"

definition announce_ranks :: "guild_env \<Rightarrow> u32 \<Rightarrow> guild \<times> guild_world \<Rightarrow> guild_world" where
  "announce_ranks env p gw = store_guild (fst gw, Roster env None (fst gw) (Query p (fst gw) (snd gw)))"

definition HandleGuildRankOpcode :: "guild_env \<Rightarrow> u32 \<Rightarrow> u32 \<Rightarrow> u32 \<Rightarrow> u8 list \<Rightarrow> guild_world \<Rightarrow> guild_world" where
  "HandleGuildRankOpcode env p rankId rights rankname w =
     on_own_guild p (\<lambda>me g.
       if p \<noteq> gd_LeaderGuid g then no_permission p w
       else (let (g1, w1) = SetRankName rankId rankname g w
             in announce_ranks env p (SetRankRights rankId (if rankId = GR_GUILDMASTER then GR_RIGHT_ALL else rights) g1 w1))) w"

definition HandleGuildAddRankOpcode :: "guild_env \<Rightarrow> u32 \<Rightarrow> u8 list \<Rightarrow> guild_world \<Rightarrow> guild_world" where
  "HandleGuildAddRankOpcode env p rankname w =
     on_own_guild p (\<lambda>me g.
       if p \<noteq> gd_LeaderGuid g then no_permission p w
       else if GUILD_RANKS_MAX_COUNT \<le> GetRanksSize g then w
       else announce_ranks env p (CreateRank rankname (GR_RIGHT_GCHATLISTEN OR GR_RIGHT_GCHATSPEAK) g w)) w"

definition HandleGuildDelRankOpcode :: "guild_env \<Rightarrow> u32 \<Rightarrow> guild_world \<Rightarrow> guild_world" where
  "HandleGuildDelRankOpcode env p w =
     on_own_guild p (\<lambda>me g.
       if p \<noteq> gd_LeaderGuid g then no_permission p w else announce_ranks env p (DelRank g w)) w"

definition ERR_GUILDEMBLEM_SUCCESS :: u32 where "ERR_GUILDEMBLEM_SUCCESS = 0"
definition ERR_GUILDEMBLEM_NOGUILD :: u32 where "ERR_GUILDEMBLEM_NOGUILD = 2"
definition ERR_GUILDEMBLEM_NOTGUILDMASTER :: u32 where "ERR_GUILDEMBLEM_NOTGUILDMASTER = 3"
definition ERR_GUILDEMBLEM_NOTENOUGHMONEY :: u32 where "ERR_GUILDEMBLEM_NOTENOUGHMONEY = 4"
definition ERR_GUILDEMBLEM_INVALIDVENDOR :: u32 where "ERR_GUILDEMBLEM_INVALIDVENDOR = 5"

definition SendSaveGuildEmblem :: "u32 \<Rightarrow> u32 \<Rightarrow> guild_world \<Rightarrow> guild_world" where
  "SendSaveGuildEmblem msg p w = usend p (MSG_SAVE_GUILD_EMBLEM, p32 msg) w"

text \<open>\<open>vendor\<close> tells whether the tabard designer is there; ten gold are 100000 copper.\<close>

definition HandleSaveGuildEmblemOpcode :: "bool \<Rightarrow> u32 \<Rightarrow> u32 list \<Rightarrow> guild_world \<Rightarrow> guild_world" where
  "HandleSaveGuildEmblemOpcode vendor p emblem w =
     (case gu_players w p of
        None \<Rightarrow> w
      | Some me \<Rightarrow>
          if \<not> vendor then SendSaveGuildEmblem ERR_GUILDEMBLEM_INVALIDVENDOR p w
          else (case own_guild me w of
                  None \<Rightarrow> SendSaveGuildEmblem ERR_GUILDEMBLEM_NOGUILD p w
                | Some g \<Rightarrow>
                    if gd_LeaderGuid g \<noteq> p then SendSaveGuildEmblem ERR_GUILDEMBLEM_NOTGUILDMASTER p w
                    else if pl_money me < 100000 then SendSaveGuildEmblem ERR_GUILDEMBLEM_NOTENOUGHMONEY p w
                    else (let (g1, w1) = SetEmblem emblem g
                                (upd_gplayer p (\<lambda>pl. pl\<lparr>pl_money := money_after (-100000) (pl_money pl)\<rparr>) w)
                          in store_guild (g1, Query p g1 (SendSaveGuildEmblem ERR_GUILDEMBLEM_SUCCESS p w1)))))"

end
