(* ===== verification/GuildLife.thy ===== *)
theory GuildLife
  imports GuildHandlers
begin

text \<open>
  What else changes guilds: the end of a petition (\<^verbatim>\<open>PetitionsHandler.cpp\<close>), guild chat, login,
  logout and deletion of a character, the guild commands of game masters, and the loading of all
  guilds at the start of the server.
\<close>

section \<open>Petitions\<close>

definition PETITION_TURN_OK :: u32 where "PETITION_TURN_OK = 0"
definition PETITION_TURN_ALREADY_IN_GUILD :: u32 where "PETITION_TURN_ALREADY_IN_GUILD = 2"
definition PETITION_TURN_NEED_MORE_SIGNATURES :: u32 where "PETITION_TURN_NEED_MORE_SIGNATURES = 4"

definition petition_result :: "u32 \<Rightarrow> u32 \<Rightarrow> guild_world \<Rightarrow> guild_world" where
  "petition_result msg p w = usend p (SMSG_TURN_IN_PETITION_RESULTS, p32 msg) w"

definition petition_signers :: "u32 \<Rightarrow> guild_world \<Rightarrow> u32 list" where
  "petition_signers petition w = map (\<lambda>(_, _, signer). signer) (filter (\<lambda>(i, _, _). i = petition) (gu_signs w))"

text \<open>As many turns as there are signatures; a turn with an empty GUID does not move to the next row.\<close>

fun add_signers :: "guild_env \<Rightarrow> nat \<Rightarrow> u32 list \<Rightarrow> guild \<Rightarrow> guild_world \<Rightarrow> guild \<times> guild_world" where
  "add_signers env 0 rows g w = (g, w)"
| "add_signers env (Suc n) [] g w = (g, w)"
| "add_signers env (Suc n) (low # rows) g w =
     (if low = 0 then add_signers env n (low # rows) g w
      else (let (_, g1, w1) = guild_AddMember env low (GetLowestRank g) g w in add_signers env n rows g1 w1))"

definition sql_del_petition :: "u32 \<Rightarrow> guild_world \<Rightarrow> guild_world" where
  "sql_del_petition petition w =
     w\<lparr>gu_petitions := (gu_petitions w)(petition := None), gu_signs := filter (\<lambda>(i, _, _). i \<noteq> petition) (gu_signs w)\<rparr>"

text \<open>\<open>charter\<close>: the player has the charter item, which is destroyed before the guild is created.\<close>

definition found_guild :: "guild_env \<Rightarrow> u32 \<Rightarrow> u32 \<Rightarrow> u8 list \<Rightarrow> guild_world \<Rightarrow> guild_world" where
  "found_guild env p petition name w =
     (case Guild_Create env p name w of
        (False, _, w1) \<Rightarrow> w1
      | (True, g, w1) \<Rightarrow>
          (let signers = petition_signers petition w;
               (g2, w2) = add_signers env (unat (of_nat (length signers) :: u8)) signers g (AddGuild env g w1)
           in petition_result PETITION_TURN_OK p (sql_del_petition petition (store_guild (g2, w2)))))"

definition HandleTurnInPetitionOpcode :: "guild_env \<Rightarrow> bool \<Rightarrow> u32 \<Rightarrow> u32 \<Rightarrow> guild_world \<Rightarrow> guild_world" where
  "HandleTurnInPetitionOpcode env charter p petition w =
     (case gu_players w p of
        None \<Rightarrow> w
      | Some me \<Rightarrow>
          (case gu_petitions w petition of
             None \<Rightarrow> w
           | Some (owner, name) \<Rightarrow>
               if pl_guildId me \<noteq> 0 then petition_result PETITION_TURN_ALREADY_IN_GUILD p w
               else if p \<noteq> owner then w
               else if (ucast (of_nat (length (petition_signers petition w)) :: u8) :: u32) < ue_minSigns env
               then petition_result PETITION_TURN_NEED_MORE_SIGNATURES p w
               else if GetGuildByName name w \<noteq> None
               then SendGuildCommandResult GUILD_CREATE_S name ERR_GUILD_NAME_EXISTS_S p w
               else if \<not> charter then w
               else found_guild env p petition name w))"

section \<open>Guild chat\<close>

definition HandleGuildChat ::
  "(guild_env \<Rightarrow> u32 \<Rightarrow> u8 list \<Rightarrow> guild \<Rightarrow> guild_world \<Rightarrow> guild_world) \<Rightarrow> guild_env \<Rightarrow> u32 \<Rightarrow> u8 list \<Rightarrow> guild_world \<Rightarrow> guild_world" where
  "HandleGuildChat say env p msg w =
     (case gu_players w p of
        None \<Rightarrow> w
      | Some me \<Rightarrow>
          if fst (pl_master me) = 0 then w
          else (case GetGuildById (fst (pl_master me)) w of None \<Rightarrow> w | Some g \<Rightarrow> say env p msg g w))"

section \<open>Login, logout, deletion\<close>

text \<open>
  The chat part of the player copies guild and rank from the new player object, before these are
  taken from the table of members.
\<close>

definition guild_login :: "u32 \<Rightarrow> guild_player \<Rightarrow> guild_world \<Rightarrow> guild_world" where
  "guild_login p pl w =
     (let (i, rank) = (case gu_member_rows w p of None \<Rightarrow> (0, 0) | Some r \<Rightarrow> (gmr_guildid r, gmr_rank r));
          pl1 = pl\<lparr>pl_master := (0, 0), pl_invited := 0, pl_guildId := i, pl_rank := rank\<rparr>;
          w1 = w\<lparr>gu_players := (gu_players w)(p \<mapsto> pl1)\<rparr>
      in if i = 0 then w1
         else (case GetGuildById i w1 of
                 None \<Rightarrow> upd_gplayer p (\<lambda>pl. pl\<lparr>pl_guildId := 0\<rparr>) w1
               | Some g \<Rightarrow>
                   BroadcastEvent GE_SIGNED_ON p [pl_name pl1] g
                     (usend p (SMSG_GUILD_EVENT, [event_code GE_MOTD, 1] @ pstr (gd_MOTD g)) w1)))"

text \<open>The update of a session with the map of its player refreshes the part that chats.\<close>

definition session_update :: "u32 \<Rightarrow> guild_world \<Rightarrow> guild_world" where
  "session_update p w = upd_gplayer p (\<lambda>pl. pl\<lparr>pl_master := (pl_guildId pl, pl_rank pl)\<rparr>) w"

definition guild_logout :: "guild_env \<Rightarrow> u32 \<Rightarrow> guild_world \<Rightarrow> guild_world" where
  "guild_logout env p w =
     (case gu_players w p of
        None \<Rightarrow> w
      | Some me \<Rightarrow>
          (let w1 = (case own_guild me w of
                       None \<Rightarrow> w
                     | Some g \<Rightarrow>
                         (let g1 = upd_member p (\<lambda>s. UpdateLogoutTime env (SetMemberStats me s)) g
                          in store_guild (g1, BroadcastEvent GE_SIGNED_OFF p [pl_name me] g1 w)))
           in w1\<lparr>gu_players := (gu_players w1)(p := None)\<rparr>))"

definition delete_character :: "u32 \<Rightarrow> guild_world \<Rightarrow> guild_world" where
  "delete_character low w =
     RemovePetitionsAndSigns low
       (case GetPlayerGuild low w of
          None \<Rightarrow> w
        | Some g \<Rightarrow> end_or (DelMember low False g w) (\<lambda>g1 w1. store_guild (g1, w1)))"

section \<open>Commands of game masters\<close>

text \<open>The target has been parsed; a target who is not in memory is found in the table.\<close>

definition target_guild :: "u32 \<Rightarrow> guild_world \<Rightarrow> guild option" where
  "target_guild low w =
     (let i = (case find_gplayer w low of
                 Some pl \<Rightarrow> pl_guildId pl
               | None \<Rightarrow> (case gu_member_rows w low of None \<Rightarrow> 0 | Some r \<Rightarrow> gmr_guildid r))
      in if i = 0 then None else GetGuildById i w)"

definition HandleGuildCreateCommand :: "guild_env \<Rightarrow> u32 \<Rightarrow> u8 list \<Rightarrow> guild_world \<Rightarrow> guild_world" where
  "HandleGuildCreateCommand env target gname w =
     (case find_gplayer w target of
        None \<Rightarrow> w
      | Some pl \<Rightarrow>
          if pl_guildId pl \<noteq> 0 then w
          else (case Guild_Create env target gname w of (False, _, w1) \<Rightarrow> w1 | (True, g, w1) \<Rightarrow> AddGuild env g w1))"

definition HandleGuildInviteCommand :: "guild_env \<Rightarrow> u32 \<Rightarrow> u8 list \<Rightarrow> guild_world \<Rightarrow> bool \<times> guild_world" where
  "HandleGuildInviteCommand env target gname w =
     (case GetGuildByName gname w of
        None \<Rightarrow> (False, w)
      | Some g \<Rightarrow> (case guild_AddMember env target (GetLowestRank g) g w of (ok, g1, w1) \<Rightarrow> (ok, store_guild (g1, w1))))"

definition HandleGuildUninviteCommand :: "u32 \<Rightarrow> guild_world \<Rightarrow> bool \<times> guild_world" where
  "HandleGuildUninviteCommand target w =
     (case target_guild target w of
        None \<Rightarrow> (False, w)
      | Some g \<Rightarrow> (True, end_or (DelMember target False g w) (\<lambda>g1 w1. store_guild (g1, w1))))"

definition HandleGuildRankCommand :: "u32 \<Rightarrow> u32 \<Rightarrow> guild_world \<Rightarrow> bool \<times> guild_world" where
  "HandleGuildRankCommand target newrank w =
     (case target_guild target w of
        None \<Rightarrow> (False, w)
      | Some g \<Rightarrow>
          if GetLowestRank g < newrank then (False, w)
          else if GetMemberSlot target g = None then (False, w)
          else (True, store_guild (ChangeRank target newrank g w)))"

definition HandleGuildDeleteCommand :: "u8 list \<Rightarrow> guild_world \<Rightarrow> bool \<times> guild_world" where
  "HandleGuildDeleteCommand gname w =
     (case GetGuildByName gname w of None \<Rightarrow> (False, w) | Some g \<Rightarrow> (True, Disband_guild g w))"

section \<open>Loading\<close>

text \<open>
  The three result sets are ordered by guild; a guild reads on from where the one before it
  stopped. Rows of a guild that does not exist are deleted when the next guild comes to them.
\<close>

type_synonym rank_row = "u32 \<times> u32 \<times> rank_info"

definition LoadGuildFromDB :: "guild_env \<Rightarrow> u32 \<Rightarrow> guild_row \<Rightarrow> guild" where
  "LoadGuildFromDB env i r =
     Guild_new\<lparr>gd_Id := i, gd_Name := gr_name r, gd_LeaderGuid := gr_leaderguid r, gd_Emblem := gr_emblem r,
               gd_GINFO := gr_info r, gd_MOTD := gr_motd r,
               gd_Created := (if gr_createdate r = 0 then (0, 0, 0) else ue_localtime env (gr_createdate r))\<rparr>"

fun read_ranks :: "rank_row list \<Rightarrow> bool \<Rightarrow> guild \<Rightarrow> guild_world \<Rightarrow> rank_row list \<times> bool \<times> guild \<times> guild_world" where
  "read_ranks [] broken g w = ([], broken, g, w)"
| "read_ranks ((i, rid, ri) # rows) broken g w =
     (if i < gd_Id g then read_ranks rows broken g (sql_del_ranks 0 i w)
      else if gd_Id g < i then ((i, rid, ri) # rows, broken, g, w)
      else read_ranks rows (broken \<or> rid \<noteq> of_nat (length (gd_Ranks g)))
             (AddRank (ri_Name ri) (if gd_Ranks g = [] then ri_Rights ri OR GR_RIGHT_ALL else ri_Rights ri) g) w)"

definition rewrite_ranks :: "guild \<Rightarrow> guild_world \<Rightarrow> guild_world" where
  "rewrite_ranks g w =
     fold (\<lambda>(k, ri). sql_new_rank (gd_Id g) (of_nat k) ri) (enumerate 0 (gd_Ranks g)) (sql_del_ranks 0 (gd_Id g) w)"

definition LoadRanksFromDB ::
  "guild_env \<Rightarrow> rank_row list option \<Rightarrow> guild \<Rightarrow> guild_world \<Rightarrow> rank_row list option \<times> guild \<times> guild_world" where
  "LoadRanksFromDB env rows g w =
     (case rows of
        None \<Rightarrow> (let (g1, w1) = CreateDefaultGuildRanks env g w in (None, g1, w1))
      | Some rs \<Rightarrow>
          (case read_ranks rs False g w of
             (rest, broken, g1, w1) \<Rightarrow>
               if length (gd_Ranks g1) < GUILD_RANKS_MIN_COUNT
               then (let (g2, w2) = CreateDefaultGuildRanks env (g1\<lparr>gd_Ranks := []\<rparr>) w1 in (Some rest, g2, w2))
               else (Some rest, g1, if broken then rewrite_ranks g1 w1 else w1)))"

text \<open>A row of the members joined with the row of the character; \<open>None\<close> where there is no character.\<close>

record char_row =
  cr_name :: "u8 list"
  cr_level :: u8
  cr_class :: u8
  cr_zone :: u32
  cr_logout :: u64
  cr_account :: u32

type_synonym member_join = "u32 \<times> u32 \<times> guild_member_row \<times> char_row"

definition loaded_member :: "(u32 \<Rightarrow> u32) \<Rightarrow> guild \<Rightarrow> u32 \<Rightarrow> guild_member_row \<Rightarrow> char_row \<Rightarrow> guild_member" where
  "loaded_member zone_of g low r c =
     \<lparr>gm_guid = low, gm_accountId = cr_account c, gm_Name = cr_name c,
      gm_RankId = (if length (gd_Ranks g) \<le> unat (gmr_rank r) then GetLowestRank g else gmr_rank r),
      gm_Level = cr_level c, gm_Class = cr_class c, gm_ZoneId = (if cr_zone c = 0 then zone_of low else cr_zone c),
      gm_LogoutTime = cr_logout c, gm_Pnote = gmr_pnote r, gm_OFFnote = gmr_offnote r\<rparr>"

fun read_guild_members ::
  "guild_env \<Rightarrow> (u32 \<Rightarrow> u32) \<Rightarrow> member_join list \<Rightarrow> guild \<Rightarrow> guild_world \<Rightarrow> member_join list \<times> guild \<times> guild_world" where
  "read_guild_members env zone_of [] g w = ([], g, w)"
| "read_guild_members env zone_of ((i, low, r, c) # rows) g w =
     (if i < gd_Id g then read_guild_members env zone_of rows g (sql_del_members i w)
      else if gd_Id g < i then ((i, low, r, c) # rows, g, w)
      else if unat (cr_level c) < 1 \<or> DEFAULT_MAX_LEVEL < unat (cr_level c) then read_guild_members env zone_of rows g (sql_del_member low w)
      else if \<not> playable_class (cr_class c) then read_guild_members env zone_of rows g (sql_del_member low w)
      else read_guild_members env zone_of rows
             (g\<lparr>gd_members := table_put env low (loaded_member zone_of g low r c) (gd_members g)\<rparr>)
             (GuildMemberAdded (gd_Id g) low w))"

definition LoadMembersFromDB ::
  "guild_env \<Rightarrow> (u32 \<Rightarrow> u32) \<Rightarrow> member_join list option \<Rightarrow> guild \<Rightarrow> guild_world \<Rightarrow>
     bool \<times> member_join list option \<times> guild \<times> guild_world" where
  "LoadMembersFromDB env zone_of rows g w =
     (case rows of
        None \<Rightarrow> (False, None, g, w)
      | Some rs \<Rightarrow>
          (case read_guild_members env zone_of rs g w of
             (rest, g1, w1) \<Rightarrow>
               if gd_members g1 = [] then (False, Some rest, g1, w1) else (True, Some rest, UpdateAccountsNumber g1, w1)))"

text \<open>Nobody but the leader keeps rank 0.\<close>

definition demote_others :: "guild \<Rightarrow> guild_world \<Rightarrow> guild \<times> guild_world" where
  "demote_others g w =
     fold (\<lambda>e (g1, w1). if gm_RankId (snd e) = GR_GUILDMASTER \<and> gd_LeaderGuid g1 \<noteq> gm_guid (snd e)
                         then ChangeRank (fst e) GR_OFFICER g1 w1 else (g1, w1)) (gd_members g) (g, w)"

definition CheckGuildStructure :: "guild \<Rightarrow> guild_world \<Rightarrow> bool \<times> guild \<times> guild_world" where
  "CheckGuildStructure g w =
     (if guild_GetRank (gd_LeaderGuid g) g = -1
      then (case DelMember (gd_LeaderGuid g) False g w of
              (True, g1, w1) \<Rightarrow> (False, g1, w1)
            | (False, g1, w1) \<Rightarrow> (True, demote_others g1 w1))
      else if guild_GetRank (gd_LeaderGuid g) g \<noteq> 0
      then (let (g1, w1) = SetLeader (gd_LeaderGuid g) g w in (True, demote_others g1 w1))
      else (True, demote_others g w))"

definition LoadGuildEventLogFromDB :: "(u32 \<times> guild_log_entry) list \<Rightarrow> guild \<Rightarrow> guild" where
  "LoadGuildEventLogFromDB newest_first g =
     (case take GUILD_EVENTLOG_MAX_RECORDS newest_first of
        [] \<Rightarrow> g
      | (n, e) # rows \<Rightarrow> g\<lparr>gd_logNext := n, gd_log := rev (e # map snd rows)\<rparr>)"

text \<open>\<open>logs\<close> are the logged events of each guild, the newest first.\<close>

fun load_guilds ::
  "guild_env \<Rightarrow> (u32 \<Rightarrow> u32) \<Rightarrow> (u32 \<Rightarrow> (u32 \<times> guild_log_entry) list) \<Rightarrow> (u32 \<times> guild_row) list \<Rightarrow> rank_row list option \<Rightarrow>
     member_join list option \<Rightarrow> guild_world \<Rightarrow> guild_world" where
  "load_guilds env zone_of logs [] ranks mems w = w"
| "load_guilds env zone_of logs ((i, r) # rows) ranks mems w =
     (case LoadRanksFromDB env ranks (LoadGuildFromDB env i r) w of
        (ranks1, g1, w1) \<Rightarrow>
          (case LoadMembersFromDB env zone_of mems g1 w1 of
             (False, mems1, g2, w2) \<Rightarrow> load_guilds env zone_of logs rows ranks1 mems1 (Disband_guild g2 w2)
           | (True, mems1, g2, w2) \<Rightarrow>
               (case CheckGuildStructure g2 w2 of
                  (False, g3, w3) \<Rightarrow> load_guilds env zone_of logs rows ranks1 mems1 (Disband_guild g3 w3)
                | (True, g3, w3) \<Rightarrow>
                    load_guilds env zone_of logs rows ranks1 mems1
                      (AddGuild env (LoadGuildEventLogFromDB (logs (gd_Id g3)) g3) w3))))"

definition LoadGuilds ::
  "guild_env \<Rightarrow> (u32 \<Rightarrow> u32) \<Rightarrow> (u32 \<Rightarrow> (u32 \<times> guild_log_entry) list) \<Rightarrow> (u32 \<times> guild_row) list \<Rightarrow> rank_row list option \<Rightarrow>
     member_join list option \<Rightarrow> guild_world \<Rightarrow> guild_world" where
  "LoadGuilds env zone_of logs rows ranks mems w =
     (if rows = [] then w
      else (let w1 = load_guilds env zone_of logs rows ranks mems w
            in w1\<lparr>gu_log_rows := (\<lambda>i n. if ue_logCount env < n then None else gu_log_rows w1 i n)\<rparr>))"

end
