(* ===== verification/GuildInv.thy ===== *)
theory GuildInv
  imports GuildLife
begin

text \<open>
  The invariant of guilds: each guild is well formed (\<open>gd_ok\<close>), and the guilds agree with the
  cache of members, the players in memory and the tables (\<open>coh\<close>). Coherence is stated for any map
  of guilds, so that it is kept by each operation on one guild before the guild is written back.
\<close>

section \<open>Tables of the program\<close>

named_theorems tables

declare map_of_eq_Some_iff [simp del]

lemma distinct_sorted_keys: "distinct (map fst (sort_key h xs)) \<longleftrightarrow> distinct (map fst xs)"
  by (simp add: distinct_map)

lemma map_of_table_put [tables]:
  "distinct (map fst t) \<Longrightarrow> map_of (table_put env k v t) = (map_of t)(k \<mapsto> v)"
proof (cases "map_of t k")
  case None
  assume d: "distinct (map fst t)"
  have "distinct (map fst (t @ [(k, v)]))" using d None by (simp add: map_of_eq_None_iff)
  then have "map_of (sort_key (\<lambda>e. ue_hash env (fst e)) (t @ [(k, v)])) = map_of (t @ [(k, v)])"
    by (intro map_of_inject_set [THEN iffD2]) (simp_all add: distinct_sorted_keys del: map_append)
  then show ?thesis using None by (auto simp: table_put_def fun_eq_iff map_add_def split: option.split)
next
  case (Some x)
  have "map_of (map (\<lambda>e. if fst e = k then (k, v) else e) t) = (\<lambda>a. if a = k \<and> map_of t k \<noteq> None then Some v else map_of t a)"
    by (induction t) (auto simp: fun_eq_iff)
  then show ?thesis using Some by (auto simp: table_put_def)
qed

lemma map_of_table_erase [tables]: "map_of (table_erase k t) = (map_of t)(k := None)"
  by (induction t) (auto simp: table_erase_def fun_eq_iff)

lemma map_of_table_adjust [tables]: "map_of (table_adjust k f t) = (map_of t)(k := map_option f (map_of t k))"
  by (induction t) (auto simp: table_adjust_def fun_eq_iff)

lemma fst_table_adjust [tables]: "map fst (table_adjust k f t) = map fst t"
  by (induction t) (auto simp: table_adjust_def)

lemma distinct_table_erase [tables]: "distinct (map fst t) \<Longrightarrow> distinct (map fst (table_erase k t))"
  by (simp add: table_erase_def distinct_map_filter)

lemma set_table_put [tables]: "set (table_put env k v t) = (if map_of t k = None then insert (k, v) (set t)
    else (\<lambda>e. if fst e = k then (k, v) else e) ` set t)"
  by (auto simp: table_put_def)

lemma fst_set_put: "distinct (map fst t) \<Longrightarrow> fst ` set (table_put env k v t) = insert k (fst ` set t)"
  by (simp only: dom_map_of_conv_image_fst [symmetric] map_of_table_put dom_fun_upd) simp

lemma distinct_table_put [tables]: "distinct (map fst t) \<Longrightarrow> distinct (map fst (table_put env k v t))"
proof (cases "map_of t k")
  case None
  assume "distinct (map fst t)"
  then have "distinct (map fst (t @ [(k, v)]))" using None by (simp add: map_of_eq_None_iff)
  then show ?thesis using None by (simp add: table_put_def distinct_sorted_keys del: map_append)
next
  case (Some x)
  assume d: "distinct (map fst t)"
  have "map fst (map (\<lambda>e. if fst e = k then (k, v) else e) t) = map fst t" by (induction t) auto
  then show ?thesis using Some d by (simp add: table_put_def del: map_map map_eq_conv)
qed

lemma length_table_put [tables]:
  "length (table_put env k v t) = length t + (if map_of t k = None then 1 else 0)"
  by (simp add: table_put_def)

lemma length_table_erase: "length (table_erase k t) \<le> length t"
  by (simp add: table_erase_def)

lemma map_of_in_keys: "map_of t k = Some v \<Longrightarrow> k \<in> fst ` set t"
  by (metis domI dom_map_of_conv_image_fst)

lemma key_map_of: "k \<in> fst ` set t \<Longrightarrow> \<exists>v. map_of t k = Some v"
  by (metis dom_map_of_conv_image_fst domD)

section \<open>The invariant\<close>

definition rank_sound :: "guild \<Rightarrow> u32 \<Rightarrow> guild_member \<Rightarrow> bool" where
  "rank_sound g k s \<longleftrightarrow>
     gm_guid s = k \<and> unat (gm_RankId s) < GUILD_RANKS_MAX_COUNT \<and> (gm_RankId s = GR_GUILDMASTER \<longleftrightarrow> k = gd_LeaderGuid g)"

definition guild_members_ok :: "guild \<Rightarrow> bool" where
  "guild_members_ok g \<longleftrightarrow>
     distinct (map fst (gd_members g)) \<and> (\<exists>s. map_of (gd_members g) (gd_LeaderGuid g) = Some s) \<and>
     (\<forall>k s. map_of (gd_members g) k = Some s \<longrightarrow> rank_sound g k s) \<and> length (gd_members g) \<le> GUILD_MAX_MEMBERS"

definition ranks_ok :: "guild \<Rightarrow> bool" where
  "ranks_ok g \<longleftrightarrow>
     GUILD_RANKS_MIN_COUNT \<le> length (gd_Ranks g) \<and> length (gd_Ranks g) \<le> GUILD_RANKS_MAX_COUNT \<and>
     ri_Rights (gd_Ranks g ! 0) = GR_RIGHT_ALL"

definition accounts_ok :: "guild \<Rightarrow> bool" where
  "accounts_ok g \<longleftrightarrow>
     gd_accountsNumber g = 0 \<or> gd_accountsNumber g = of_nat (card (set (map (gm_accountId \<circ> snd) (gd_members g))))"

definition gd_ok :: "u32 \<Rightarrow> guild \<Rightarrow> bool" where
  "gd_ok i g \<longleftrightarrow>
     gd_Id g = i \<and> guild_members_ok g \<and> ranks_ok g \<and> accounts_ok g \<and> length (gd_log g) \<le> GUILD_EVENTLOG_MAX_RECORDS"

definition guild_member_row_of :: "u32 \<Rightarrow> guild_member \<Rightarrow> guild_member_row" where
  "guild_member_row_of i s = \<lparr>gmr_guildid = i, gmr_rank = gm_RankId s, gmr_pnote = gm_Pnote s, gmr_offnote = gm_OFFnote s\<rparr>"

definition rank_at :: "guild \<Rightarrow> u32 \<Rightarrow> rank_info option" where
  "rank_at g r = (if unat r < length (gd_Ranks g) then Some (gd_Ranks g ! unat r) else None)"

text \<open>The entry of player \<open>k\<close> in guild \<open>i\<close>.\<close>

definition slot_of :: "(u32 \<Rightarrow> guild option) \<Rightarrow> u32 \<Rightarrow> u32 \<Rightarrow> guild_member option" where
  "slot_of G k i = (case G i of None \<Rightarrow> None | Some g \<Rightarrow> map_of (gd_members g) k)"

text \<open>A player is in the guild the cache tells and in no other; his row is the row of that entry.\<close>

definition person_ok :: "(u32 \<Rightarrow> guild_member option) \<Rightarrow> u32 option \<Rightarrow> guild_member_row option \<Rightarrow> bool" where
  "person_ok sl c row \<longleftrightarrow>
     (\<forall>i. sl i \<noteq> None \<longleftrightarrow> c = Some i) \<and> row = (case c of None \<Rightarrow> None | Some i \<Rightarrow> map_option (guild_member_row_of i) (sl i))"

text \<open>What a player in memory knows of his guild.\<close>

definition player_sees :: "u32 \<Rightarrow> (u32 \<Rightarrow> guild_member option) \<Rightarrow> u32 option \<Rightarrow> guild_player \<Rightarrow> bool" where
  "player_sees k sl c pl \<longleftrightarrow>
     k \<noteq> 0 \<and> pl_inWorld pl \<and>
     (case c of None \<Rightarrow> pl_guildId pl = 0
      | Some i \<Rightarrow> pl_guildId pl = i \<and> (\<forall>s. sl i = Some s \<longrightarrow> pl_rank pl = gm_RankId s))"

text \<open>The rows of a guild.\<close>

definition house_ok :: "u32 \<Rightarrow> guild option \<Rightarrow> guild_row option \<Rightarrow> (u32 \<Rightarrow> rank_info option) \<Rightarrow> u32 \<Rightarrow> bool" where
  "house_ok i og row ranks next \<longleftrightarrow>
     (case og of None \<Rightarrow> row = None \<and> ranks = (\<lambda>_. None)
      | Some g \<Rightarrow> (\<exists>now. row = Some (guild_row_of now g)) \<and> ranks = rank_at g \<and> 0 < i \<and> i < next)"

definition coh :: "(u32 \<Rightarrow> guild option) \<Rightarrow> guild_world \<Rightarrow> bool" where
  "coh G w \<longleftrightarrow>
     (\<forall>k. person_ok (slot_of G k) (gu_cache w k) (gu_member_rows w k)) \<and>
     (\<forall>k pl. gu_players w k = Some pl \<longrightarrow> player_sees k (slot_of G k) (gu_cache w k) pl) \<and>
     (\<forall>i. house_ok i (G i) (gu_rows w i) (gu_rank_rows w i) (gu_nextId w)) \<and> 0 < gu_nextId w"

definition guild_ok :: "guild_world \<Rightarrow> bool" where
  "guild_ok w \<longleftrightarrow>
     distinct (map fst (gu_map w)) \<and> (\<forall>i g. map_of (gu_map w) i = Some g \<longrightarrow> gd_ok i g) \<and>
     (\<forall>i j g h. map_of (gu_map w) i = Some g \<longrightarrow> map_of (gu_map w) j = Some h \<longrightarrow> gd_Name g = gd_Name h \<longrightarrow> i = j) \<and>
     coh (map_of (gu_map w)) w"

text \<open>One guild has been taken out to be changed.\<close>

definition opened :: "u32 \<Rightarrow> guild \<Rightarrow> guild_world \<Rightarrow> bool" where
  "opened i g w \<longleftrightarrow>
     distinct (map fst (gu_map w)) \<and>
     (\<forall>j h. map_of (gu_map w) j = Some h \<longrightarrow> j \<noteq> i \<longrightarrow> gd_ok j h \<and> gd_Name h \<noteq> gd_Name g) \<and>
     (\<forall>j l h h'. map_of (gu_map w) j = Some h \<longrightarrow> map_of (gu_map w) l = Some h' \<longrightarrow> gd_Name h = gd_Name h' \<longrightarrow> j = l) \<and>
     gd_Id g = i \<and> coh ((map_of (gu_map w))(i \<mapsto> g)) w"

lemma open_guild: "guild_ok w \<Longrightarrow> GetGuildById i w = Some g \<Longrightarrow> opened i g w \<and> gd_ok i g"
  unfolding guild_ok_def opened_def GetGuildById_def
  by (metis fun_upd_triv gd_ok_def)

lemma store_opened:
  assumes o: "opened i g w" and k: "gd_ok i g" and i: "map_of (gu_map w) i \<noteq> None"
  shows "guild_ok (store_guild (g, w))"
proof -
  let ?w = "store_guild (g, w)"
  have id: "gd_Id g = i" using o by (simp add: opened_def)
  have M: "map_of (gu_map ?w) = (map_of (gu_map w))(i \<mapsto> g)" using i
    by (auto simp: store_guild_def put_guild_def id map_of_table_adjust)
  have D: "distinct (map fst (gu_map ?w))" using o by (simp add: store_guild_def put_guild_def fst_table_adjust opened_def)
  have C: "coh (map_of (gu_map ?w)) ?w" unfolding M using o by (simp add: opened_def coh_def store_guild_def put_guild_def)
  show ?thesis unfolding guild_ok_def
  proof (intro conjI allI impI D C)
    fix j h assume "map_of (gu_map ?w) j = Some h"
    then show "gd_ok j h" using o k unfolding M opened_def by (auto split: if_splits)
  next
    fix j l h h' assume a: "map_of (gu_map ?w) j = Some h" "map_of (gu_map ?w) l = Some h'" "gd_Name h = gd_Name h'"
    show "j = l"
    proof (cases "j = i \<or> l = i")
      case True then show ?thesis using a o unfolding M opened_def by (fastforce split: if_splits)
    next
      case False then show ?thesis using a o unfolding M opened_def by (auto split: if_splits)
    qed
  qed
qed

lemma add_opened:
  assumes o: "opened i g w" and k: "gd_ok i g"
  shows "guild_ok (AddGuild env g w)"
proof -
  let ?w = "AddGuild env g w"
  have id: "gd_Id g = i" and d: "distinct (map fst (gu_map w))" using o by (simp_all add: opened_def)
  have M: "map_of (gu_map ?w) = (map_of (gu_map w))(i \<mapsto> g)" using d by (simp add: AddGuild_def id map_of_table_put)
  have D: "distinct (map fst (gu_map ?w))" using d by (simp add: AddGuild_def distinct_table_put)
  have C: "coh (map_of (gu_map ?w)) ?w" unfolding M using o by (simp add: opened_def coh_def AddGuild_def)
  show ?thesis unfolding guild_ok_def
  proof (intro conjI allI impI D C)
    fix j h assume "map_of (gu_map ?w) j = Some h"
    then show "gd_ok j h" using o k unfolding M opened_def by (auto split: if_splits)
  next
    fix j l h h' assume a: "map_of (gu_map ?w) j = Some h" "map_of (gu_map ?w) l = Some h'" "gd_Name h = gd_Name h'"
    show "j = l"
    proof (cases "j = i \<or> l = i")
      case True then show ?thesis using a o unfolding M opened_def by (fastforce split: if_splits)
    next
      case False then show ?thesis using a o unfolding M opened_def by (auto split: if_splits)
    qed
  qed
qed

section \<open>What coherence reads\<close>

definition same_view :: "guild_world \<Rightarrow> guild_world \<Rightarrow> bool" where
  "same_view w w' \<longleftrightarrow>
     gu_players w' = gu_players w \<and> gu_map w' = gu_map w \<and> gu_cache w' = gu_cache w \<and> gu_nextId w' = gu_nextId w \<and>
     gu_rows w' = gu_rows w \<and> gu_member_rows w' = gu_member_rows w \<and> gu_rank_rows w' = gu_rank_rows w \<and>
     gu_stopped w' = gu_stopped w"

lemma same_view_refl [simp]: "same_view w w" by (simp add: same_view_def)

lemma same_view_trans: "same_view w w1 \<Longrightarrow> same_view w1 w2 \<Longrightarrow> same_view w w2" by (simp add: same_view_def)

lemma coh_view: "same_view w w' \<Longrightarrow> coh G w' = coh G w"
  by (simp add: same_view_def coh_def)

lemma opened_view: "same_view w w' \<Longrightarrow> opened i g w' = opened i g w"
  by (simp add: opened_def coh_view) (simp add: same_view_def)

lemma guild_ok_view: "same_view w w' \<Longrightarrow> guild_ok w' = guild_ok w"
  by (simp add: guild_ok_def coh_view) (simp add: same_view_def)

lemma view_sends [simp]:
  "same_view w (usend p pkt w)" "same_view w (BroadcastPacket_guild pkt g w)" "same_view w (BroadcastPacketToRank pkt r g w)"
  "same_view w (BroadcastEvent ev low strs g w)" "same_view w (Roster env ses g w)" "same_view w (Query p g w)"
  "same_view w (guild_chat env sp li p msg g w)" "same_view w (SendGuildCommandResult c str r p w)"
  "same_view w (not_in_guild p w)" "same_view w (no_permission p w)" "same_view w (RemovePetitionsAndSigns low w)"
  "same_view w (SendSaveGuildEmblem m p w)" "same_view w (petition_result m p w)" "same_view w (sql_del_petition petition w)"
  "same_view w (snd (LogGuildEvent env ty p1 p2 r g w))" "same_view w (w\<lparr>gu_log_rows := lr\<rparr>)"
  by (simp_all add: same_view_def usend_def BroadcastPacket_guild_def BroadcastPacketToRank_def BroadcastEvent_def Roster_def
      Query_def guild_chat_def SendGuildCommandResult_def not_in_guild_def no_permission_def RemovePetitionsAndSigns_def
      SendSaveGuildEmblem_def petition_result_def sql_del_petition_def LogGuildEvent_def Let_def split: option.split)

lemmas coh_sends [simp] = view_sends [THEN coh_view]
lemmas opened_sends [simp] = view_sends [THEN opened_view]
lemmas guild_ok_sends [simp] = view_sends [THEN guild_ok_view]

lemma slot_of_upd [simp]: "slot_of (G(i \<mapsto> g)) k = (slot_of G k)(i := map_of (gd_members g) k)"
  by (auto simp: slot_of_def fun_eq_iff)

lemma slot_of_none [simp]: "slot_of (G(i := None)) k = (slot_of G k)(i := None)"
  by (auto simp: slot_of_def fun_eq_iff)

text \<open>A change of one guild and at most one player.\<close>

lemma coh_local:
  assumes c: "coh (G(i \<mapsto> g)) w"
    and m: "\<And>k. k \<noteq> low \<Longrightarrow> map_of (gd_members g') k = map_of (gd_members g) k"
    and r: "\<And>k. k \<noteq> low \<Longrightarrow> gu_cache w' k = gu_cache w k \<and> gu_member_rows w' k = gu_member_rows w k \<and> gu_players w' k = gu_players w k"
    and p: "person_ok ((slot_of G low)(i := map_of (gd_members g') low)) (gu_cache w' low) (gu_member_rows w' low)"
    and s: "\<And>pl. gu_players w' low = Some pl \<Longrightarrow>
      player_sees low ((slot_of G low)(i := map_of (gd_members g') low)) (gu_cache w' low) pl"
    and h: "\<And>j. j \<noteq> i \<Longrightarrow> gu_rows w' j = gu_rows w j \<and> gu_rank_rows w' j = gu_rank_rows w j"
    and n: "gu_nextId w' = gu_nextId w"
    and i: "house_ok i (Some g') (gu_rows w' i) (gu_rank_rows w' i) (gu_nextId w)"
  shows "coh (G(i \<mapsto> g')) w'"
  unfolding coh_def
proof (intro conjI allI impI)
  fix k show "person_ok (slot_of (G(i \<mapsto> g')) k) (gu_cache w' k) (gu_member_rows w' k)"
    using c m [of k] r [of k] p by (cases "k = low") (simp_all add: coh_def)
next
  fix k pl assume "gu_players w' k = Some pl"
  then show "player_sees k (slot_of (G(i \<mapsto> g')) k) (gu_cache w' k) pl"
    using c m [of k] r [of k] s by (cases "k = low") (simp_all add: coh_def)
next
  fix j show "house_ok j ((G(i \<mapsto> g')) j) (gu_rows w' j) (gu_rank_rows w' j) (gu_nextId w')"
  proof (cases "j = i")
    case True then show ?thesis using i by (simp add: n)
  next
    case False
    have "house_ok j ((G(i \<mapsto> g)) j) (gu_rows w j) (gu_rank_rows w j) (gu_nextId w)" using c unfolding coh_def by blast
    then show ?thesis using False h [of j] by (simp add: n)
  qed
next
  show "0 < gu_nextId w'" using c by (simp add: coh_def n)
qed

end
