(* ===== verification/GuildCoh.thy ===== *)
theory GuildCoh
  imports GuildInv
begin

text \<open>
  Every operation of a guild keeps the coherence of guilds with cache, players and tables.
\<close>

section \<open>Facts of coherence\<close>

lemma coh_house: "coh (G(i \<mapsto> g)) w \<Longrightarrow> house_ok i (Some g) (gu_rows w i) (gu_rank_rows w i) (gu_nextId w)"
  unfolding coh_def by (metis fun_upd_same)

lemma coh_person: "coh G w \<Longrightarrow> person_ok (slot_of G k) (gu_cache w k) (gu_member_rows w k)"
  unfolding coh_def by blast

lemma coh_sees: "coh G w \<Longrightarrow> gu_players w k = Some pl \<Longrightarrow> player_sees k (slot_of G k) (gu_cache w k) pl"
  unfolding coh_def by blast

lemma coh_find: "coh G w \<Longrightarrow> find_gplayer w k = gu_players w k"
  using coh_sees [of G w k] by (cases "gu_players w k") (auto simp: find_gplayer_def player_sees_def)

lemma coh_cache: "coh (G(i \<mapsto> g)) w \<Longrightarrow> map_of (gd_members g) k = Some s \<Longrightarrow> gu_cache w k = Some i"
  using coh_person [of "G(i \<mapsto> g)" w k] by (fastforce simp: person_ok_def)

lemma coh_row: "coh (G(i \<mapsto> g)) w \<Longrightarrow> map_of (gd_members g) k = Some s \<Longrightarrow> gu_member_rows w k = Some (guild_member_row_of i s)"
  using coh_person [of "G(i \<mapsto> g)" w k] coh_cache [of G i g w k s] by (simp add: person_ok_def)

lemma coh_elsewhere:
  "coh (G(i \<mapsto> g)) w \<Longrightarrow> map_of (gd_members g) k = Some s \<Longrightarrow> j \<noteq> i \<Longrightarrow> slot_of G k j = None"
  using coh_person [of "G(i \<mapsto> g)" w k] coh_cache [of G i g w k s]
  by (cases "slot_of G k j") (auto simp: person_ok_def split: if_splits)

lemma unat_count: "n < 0x1000 \<Longrightarrow> unat (of_nat n :: u32) = n"
  by (simp add: unsigned_of_nat take_bit_nat_eq_self)

lemma lowest_rank: "ranks_ok g \<Longrightarrow> unat (GetLowestRank g) = length (gd_Ranks g) - 1"
proof -
  assume r: "ranks_ok g"
  then have "of_nat (length (gd_Ranks g)) - 1 = (of_nat (length (gd_Ranks g) - 1) :: u32)"
    by (simp add: ranks_ok_def GUILD_RANKS_MIN_COUNT_def)
  moreover have "length (gd_Ranks g) - 1 < 0x1000" using r unfolding ranks_ok_def GUILD_RANKS_MAX_COUNT_def by linarith
  ultimately show ?thesis unfolding GetLowestRank_def by (simp only: unat_count)
qed

lemma find_same: "gu_players w' = gu_players w \<Longrightarrow> find_gplayer w' k = find_gplayer w k"
  by (simp add: find_gplayer_def)

text \<open>A member of the guild: only his entry has to fit.\<close>

lemma coh_member_change:
  assumes c: "coh (G(i \<mapsto> g)) w" and s: "map_of (gd_members g) low = Some s"
    and m: "map_of (gd_members g') = (map_of (gd_members g))(low \<mapsto> s')"
    and ca: "gu_cache w' = gu_cache w" and r: "gu_member_rows w' = (gu_member_rows w)(low \<mapsto> guild_member_row_of i s')"
    and p: "\<And>k. k \<noteq> low \<Longrightarrow> gu_players w' k = gu_players w k"
    and pl: "\<And>pl. gu_players w' low = Some pl \<Longrightarrow> pl_inWorld pl \<and> low \<noteq> 0 \<and> pl_guildId pl = i \<and> pl_rank pl = gm_RankId s'"
    and h: "\<And>j. j \<noteq> i \<Longrightarrow> gu_rows w' j = gu_rows w j" "gu_rank_rows w' = gu_rank_rows w" "gu_nextId w' = gu_nextId w"
    and hi: "house_ok i (Some g') (gu_rows w' i) (gu_rank_rows w i) (gu_nextId w)"
  shows "coh (G(i \<mapsto> g')) w'"
proof (rule coh_local [OF c])
  have cl: "gu_cache w low = Some i" by (rule coh_cache [OF c s])
  have e: "\<And>j. j \<noteq> i \<Longrightarrow> slot_of G low j = None" by (rule coh_elsewhere [OF c s])
  show "person_ok ((slot_of G low)(i := map_of (gd_members g') low)) (gu_cache w' low) (gu_member_rows w' low)"
    using e by (auto simp: person_ok_def m ca cl r)
  show "player_sees low ((slot_of G low)(i := map_of (gd_members g') low)) (gu_cache w' low) p0"
    if "gu_players w' low = Some p0" for p0
    using pl [OF that] by (simp add: player_sees_def m ca cl)
qed (use m ca r p h hi in auto)

lemma member_seen:
  assumes c: "coh (G(i \<mapsto> g)) w" and s: "map_of (gd_members g) low = Some s" and p: "gu_players w low = Some pl"
  shows "pl_inWorld pl \<and> low \<noteq> 0 \<and> pl_guildId pl = i \<and> pl_rank pl = gm_RankId s"
  using coh_sees [OF c p] coh_cache [OF c s] s by (simp add: player_sees_def)

lemma house_same:
  "house_ok i (Some g) row ranks next \<Longrightarrow> (\<And>now. guild_row_of now g' = guild_row_of now g) \<Longrightarrow> gd_Ranks g' = gd_Ranks g \<Longrightarrow>
    house_ok i (Some g') row ranks next"
  by (simp add: house_ok_def rank_at_def fun_eq_iff)

text \<open>Nobody's membership changes.\<close>

lemma coh_guild_change:
  assumes c: "coh (G(i \<mapsto> g)) w" and m: "gd_members g' = gd_members g"
    and w: "gu_cache w' = gu_cache w" "gu_member_rows w' = gu_member_rows w" "gu_players w' = gu_players w"
    and h: "\<And>j. j \<noteq> i \<Longrightarrow> gu_rows w' j = gu_rows w j" "\<And>j. j \<noteq> i \<Longrightarrow> gu_rank_rows w' j = gu_rank_rows w j" "gu_nextId w' = gu_nextId w"
    and hi: "house_ok i (Some g') (gu_rows w' i) (gu_rank_rows w' i) (gu_nextId w)"
  shows "coh (G(i \<mapsto> g')) w'"
proof (rule coh_local [OF c, where low = 0])
  show "person_ok ((slot_of G 0)(i := map_of (gd_members g') 0)) (gu_cache w' 0) (gu_member_rows w' 0)"
    using coh_person [OF c, of 0] by (simp add: m w)
  show "player_sees 0 ((slot_of G 0)(i := map_of (gd_members g') 0)) (gu_cache w' 0) p0"
    if "gu_players w' 0 = Some p0" for p0
    using coh_sees [OF c, of 0 p0] that by (simp add: m w)
qed (use m w h hi in auto)

section \<open>Member entries\<close>

lemma coh_ChangeRank:
  assumes c: "coh (G(i \<mapsto> g)) w" and s: "map_of (gd_members g) low = Some s"
  shows "coh (G(i \<mapsto> fst (ChangeRank low r g w))) (snd (ChangeRank low r g w))"
proof (rule coh_member_change [OF c s, where s' = "s\<lparr>gm_RankId := r\<rparr>"])
  show "gu_member_rows (snd (ChangeRank low r g w)) = (gu_member_rows w)(low \<mapsto> guild_member_row_of i (s\<lparr>gm_RankId := r\<rparr>))"
    using coh_row [OF c s] by (simp add: ChangeRank_def sql_member_def set_player_rank_def upd_gplayer_def guild_member_row_of_def)
  fix pl assume "gu_players (snd (ChangeRank low r g w)) low = Some pl"
  then show "pl_inWorld pl \<and> low \<noteq> 0 \<and> pl_guildId pl = i \<and> pl_rank pl = gm_RankId (s\<lparr>gm_RankId := r\<rparr>)"
    using member_seen [OF c s] coh_find [OF c, of low]
    by (auto simp: ChangeRank_def sql_member_def set_player_rank_def upd_gplayer_def split: if_splits)
next
  show "house_ok i (Some (fst (ChangeRank low r g w))) (gu_rows (snd (ChangeRank low r g w)) i) (gu_rank_rows w i) (gu_nextId w)"
    using house_same [OF coh_house [OF c], of "fst (ChangeRank low r g w)"]
    by (simp add: ChangeRank_def upd_member_def guild_row_of_def sql_member_def set_player_rank_def upd_gplayer_def)
qed (simp_all add: ChangeRank_def upd_member_def map_of_table_adjust s sql_member_def set_player_rank_def upd_gplayer_def)

lemma coh_note:
  assumes c: "coh (G(i \<mapsto> g)) w" and s: "map_of (gd_members g) low = Some s"
  shows "coh (G(i \<mapsto> fst (SetPNOTE low n g w))) (snd (SetPNOTE low n g w))"
    and "coh (G(i \<mapsto> fst (SetOFFNOTE low n g w))) (snd (SetOFFNOTE low n g w))"
proof -
  note h = house_same [OF coh_house [OF c]] and sees = member_seen [OF c s]
  show "coh (G(i \<mapsto> fst (SetPNOTE low n g w))) (snd (SetPNOTE low n g w))"
    by (rule coh_member_change [OF c s, where s' = "s\<lparr>gm_Pnote := n\<rparr>"])
      (use coh_row [OF c s] sees h in
       \<open>simp_all add: SetPNOTE_def sql_member_def upd_member_def map_of_table_adjust s guild_member_row_of_def guild_row_of_def\<close>)
  show "coh (G(i \<mapsto> fst (SetOFFNOTE low n g w))) (snd (SetOFFNOTE low n g w))"
    by (rule coh_member_change [OF c s, where s' = "s\<lparr>gm_OFFnote := n\<rparr>"])
      (use coh_row [OF c s] sees h in
       \<open>simp_all add: SetOFFNOTE_def sql_member_def upd_member_def map_of_table_adjust s guild_member_row_of_def guild_row_of_def\<close>)
qed

text \<open>Name, level, class, zone and logout time are not in the row.\<close>

lemma coh_upd_member:
  assumes c: "coh (G(i \<mapsto> g)) w" and s: "map_of (gd_members g) low = Some s" and f: "guild_member_row_of i (f s) = guild_member_row_of i s"
  shows "coh (G(i \<mapsto> upd_member low f g)) w"
proof (rule coh_member_change [OF c s, where s' = "f s"])
  show "gu_member_rows w = (gu_member_rows w)(low \<mapsto> guild_member_row_of i (f s))" using coh_row [OF c s] by (simp add: f fun_upd_idem)
  show "\<And>pl. gu_players w low = Some pl \<Longrightarrow> pl_inWorld pl \<and> low \<noteq> 0 \<and> pl_guildId pl = i \<and> pl_rank pl = gm_RankId (f s)"
    using member_seen [OF c s] f by (simp add: guild_member_row_of_def)
qed (use house_same [OF coh_house [OF c]] in \<open>simp_all add: upd_member_def map_of_table_adjust s guild_row_of_def\<close>)

section \<open>Texts, emblem, ranks\<close>

lemma coh_texts:
  assumes c: "coh (G(i \<mapsto> g)) w" and i: "gd_Id g = i"
  shows "coh (G(i \<mapsto> fst (SetMOTD t g w))) (snd (SetMOTD t g w))"
    and "coh (G(i \<mapsto> fst (SetGINFO t g w))) (snd (SetGINFO t g w))"
    and "coh (G(i \<mapsto> fst (SetEmblem e g w))) (snd (SetEmblem e g w))"
  using coh_house [OF c]
  by (auto intro!: coh_guild_change [OF c] simp: SetMOTD_def SetGINFO_def SetEmblem_def sql_guild_def i house_ok_def
      guild_row_of_def rank_at_def fun_eq_iff)

lemma coh_leader_name:
  assumes c: "coh (G(i \<mapsto> g)) w" and i: "gd_Id g = i"
  shows "coh (G(i \<mapsto> g\<lparr>gd_LeaderGuid := low\<rparr>)) (sql_guild i (\<lambda>r. r\<lparr>gr_leaderguid := low\<rparr>) w)"
  using coh_house [OF c]
  by (auto intro!: coh_guild_change [OF c] simp: sql_guild_def i house_ok_def guild_row_of_def rank_at_def fun_eq_iff)

lemma coh_CreateRank:
  assumes c: "coh (G(i \<mapsto> g)) w" and i: "gd_Id g = i"
  shows "coh (G(i \<mapsto> fst (CreateRank n r g w))) (snd (CreateRank n r g w))"
proof (cases "GUILD_RANKS_MAX_COUNT \<le> length (gd_Ranks g)")
  case False
  then have u: "unat (of_nat (length (gd_Ranks g)) :: u32) = length (gd_Ranks g)"
    by (simp add: GUILD_RANKS_MAX_COUNT_def unat_count)
  have "rank_at (AddRank n r g) = (rank_at g)(of_nat (length (gd_Ranks g)) \<mapsto> \<lparr>ri_Name = n, ri_Rights = r\<rparr>)"
    using u by (auto simp: rank_at_def AddRank_def fun_eq_iff nth_append less_Suc_eq word_unat_eq_iff)
  moreover have "rank_at g (of_nat (length (gd_Ranks g))) = None" by (simp add: rank_at_def u)
  ultimately show ?thesis using False coh_house [OF c]
    by (intro coh_guild_change [OF c]) (auto simp: CreateRank_def AddRank_def sql_new_rank_def i house_ok_def guild_row_of_def)
qed (simp add: CreateRank_def c)

lemma coh_DelRank:
  assumes c: "coh (G(i \<mapsto> g)) w" and i: "gd_Id g = i" and l: "ranks_ok g"
  shows "coh (G(i \<mapsto> fst (DelRank g w))) (snd (DelRank g w))"
proof (cases "length (gd_Ranks g) \<le> GUILD_RANKS_MIN_COUNT")
  case False
  note u = lowest_rank [OF l]
  have "rank_at (g\<lparr>gd_Ranks := butlast (gd_Ranks g)\<rparr>) = (\<lambda>rid. if GetLowestRank g \<le> rid then None else rank_at g rid)"
    by (auto simp: rank_at_def fun_eq_iff word_le_nat_alt u nth_butlast)
  then show ?thesis using False coh_house [OF c]
    by (intro coh_guild_change [OF c]) (auto simp: DelRank_def sql_del_ranks_def i house_ok_def guild_row_of_def)
qed (simp add: DelRank_def c)

lemma coh_upd_rank:
  assumes c: "coh (G(i \<mapsto> g)) w" and i: "gd_Id g = i"
  shows "coh (G(i \<mapsto> fst (upd_rank r f g w))) (snd (upd_rank r f g w))"
proof (cases "length (gd_Ranks g) \<le> unat r")
  case False
  have "rank_at (g\<lparr>gd_Ranks := (gd_Ranks g)[unat r := f (gd_Ranks g ! unat r)]\<rparr>) = (rank_at g)(r := map_option f (rank_at g r))"
    using False by (auto simp: rank_at_def fun_eq_iff nth_list_update word_unat_eq_iff)
  then show ?thesis using False coh_house [OF c]
    by (intro coh_guild_change [OF c]) (auto simp: upd_rank_def sql_rank_def i house_ok_def guild_row_of_def)
qed (simp add: upd_rank_def c)

lemma coh_Log:
  assumes c: "coh (G(i \<mapsto> g)) w"
  shows "coh (G(i \<mapsto> fst (LogGuildEvent env ty p1 p2 r g w))) (snd (LogGuildEvent env ty p1 p2 r g w))"
  using house_same [OF coh_house [OF c]]
  by (intro coh_guild_change [OF c]) (simp_all add: LogGuildEvent_def Let_def guild_row_of_def)

lemma coh_accounts:
  assumes c: "coh (G(i \<mapsto> g)) w"
  shows "coh (G(i \<mapsto> UpdateAccountsNumber g)) w" "coh (G(i \<mapsto> snd (GetAccountsNumber g))) w"
  using house_same [OF coh_house [OF c]]
  by (auto intro!: coh_guild_change [OF c] simp: UpdateAccountsNumber_def GetAccountsNumber_def Let_def guild_row_of_def)

section \<open>Members come and go\<close>

lemma SetLeader_same: "sql_guild i f (snd (ChangeRank low r g w)) = snd (ChangeRank low r g (sql_guild i f w))"
  by (simp add: ChangeRank_def sql_guild_def sql_member_def set_player_rank_def find_gplayer_def upd_gplayer_def)

lemma coh_SetLeader:
  assumes c: "coh (G(i \<mapsto> g)) w" and i: "gd_Id g = i"
  shows "coh (G(i \<mapsto> fst (SetLeader low g w))) (snd (SetLeader low g w))"
proof (cases "map_of (gd_members g) low")
  case (Some s)
  have "fst (SetLeader low g w) = fst (ChangeRank low GR_GUILDMASTER (g\<lparr>gd_LeaderGuid := low\<rparr>) (sql_guild i (\<lambda>r. r\<lparr>gr_leaderguid := low\<rparr>) w))"
    "snd (SetLeader low g w) = snd (ChangeRank low GR_GUILDMASTER (g\<lparr>gd_LeaderGuid := low\<rparr>) (sql_guild i (\<lambda>r. r\<lparr>gr_leaderguid := low\<rparr>) w))"
    by (simp_all add: SetLeader_def GetMemberSlot_def Some i SetLeader_same [symmetric] split_beta Let_def) (simp add: ChangeRank_def)
  then show ?thesis using coh_ChangeRank [OF coh_leader_name [OF c i, of low], of low s] Some by simp
qed (simp add: SetLeader_def GetMemberSlot_def c)

lemma coh_erase:
  assumes c: "coh (G(i \<mapsto> g)) w" and s: "map_of (gd_members g) low = Some s"
  shows "coh (G(i \<mapsto> fst (erase_member low g w))) (snd (erase_member low g w))"
proof (rule coh_local [OF c, where low = low])
  have e: "\<And>j. j \<noteq> i \<Longrightarrow> slot_of G low j = None" by (rule coh_elsewhere [OF c s])
  let ?g = "fst (erase_member low g w)" and ?w = "snd (erase_member low g w)"
  show "person_ok ((slot_of G low)(i := map_of (gd_members ?g) low)) (gu_cache ?w low) (gu_member_rows ?w low)"
    using e by (simp add: person_ok_def erase_member_def map_of_table_erase sql_del_member_def left_guild_def upd_gplayer_def
      GuildMemberRemoved_def)
  show "player_sees low ((slot_of G low)(i := map_of (gd_members ?g) low)) (gu_cache ?w low) pl"
    if p: "gu_players ?w low = Some pl" for pl
  proof -
    have f: "find_gplayer (GuildMemberRemoved low w) low = gu_players w low"
      using coh_find [OF c, of low] find_same [of "GuildMemberRemoved low w" w low] by (simp add: GuildMemberRemoved_def)
    show ?thesis using p member_seen [OF c s]
      by (auto simp: player_sees_def erase_member_def sql_del_member_def left_guild_def f [unfolded GuildMemberRemoved_def]
        upd_gplayer_def GuildMemberRemoved_def split: if_splits)
  qed
  show "house_ok i (Some ?g) (gu_rows ?w i) (gu_rank_rows ?w i) (gu_nextId w)"
    using house_same [OF coh_house [OF c], of ?g]
    by (simp add: erase_member_def sql_del_member_def left_guild_def upd_gplayer_def GuildMemberRemoved_def guild_row_of_def)
qed (simp_all add: erase_member_def map_of_table_erase sql_del_member_def left_guild_def upd_gplayer_def GuildMemberRemoved_def)

text \<open>What \<open>AddMember\<close> does when it succeeds.\<close>

definition member_added :: "guild_env \<Rightarrow> u32 \<Rightarrow> guild_member \<Rightarrow> guild \<Rightarrow> guild" where
  "member_added env low s g = g\<lparr>gd_members := table_put env low s (gd_members g), gd_accountsNumber := 0\<rparr>"

lemma AddMember_cases:
  assumes "guild_AddMember env low rank g w = (ok, g', w')"
  obtains (refused) "\<not> ok" "g' = g" "same_view w w'"
  | (added) s wr where "ok" "length (gd_members g) < GUILD_MAX_MEMBERS" "member_data env low rank wr = Some s"
      "g' = member_added env low s g" "wr = RemovePetitionsAndSigns low w"
      "w' = joined_guild (gd_Id g) low rank (sql_new_member low \<lparr>gmr_guildid = gd_Id g, gmr_rank = rank, gmr_pnote = [], gmr_offnote = []\<rparr>
              (GuildMemberAdded (gd_Id g) low wr))"
proof (cases "GUILD_MAX_MEMBERS \<le> length (gd_members g) \<or>
    (case find_gplayer w low of Some pl \<Rightarrow> pl_guildId pl \<noteq> 0 | None \<Rightarrow> GetMemberSlot low g \<noteq> None)")
  case True
  then have "guild_AddMember env low rank g w = (False, g, w)" by (auto simp: guild_AddMember_def)
  then show thesis using assms refused by simp
next
  case False
  then have e: "guild_AddMember env low rank g w = (case member_data env low rank (RemovePetitionsAndSigns low w) of
      None \<Rightarrow> (False, g, RemovePetitionsAndSigns low w)
    | Some s \<Rightarrow> (True, member_added env low s g, joined_guild (gd_Id g) low rank
        (sql_new_member low \<lparr>gmr_guildid = gd_Id g, gmr_rank = rank, gmr_pnote = [], gmr_offnote = []\<rparr>
          (GuildMemberAdded (gd_Id g) low (RemovePetitionsAndSigns low w)))))"
    by (simp add: guild_AddMember_def Let_def member_added_def UpdateAccountsNumber_def split: option.split)
  show thesis
  proof (cases "member_data env low rank (RemovePetitionsAndSigns low w)")
    case None
    then show thesis using assms e view_sends(11) [of w low] by (intro refused) (simp_all del: view_sends)
  next
    case (Some s)
    then show thesis using assms e False added [where s = s and wr = "RemovePetitionsAndSigns low w"] by simp
  qed
qed

lemma member_data_fields:
  "member_data env low rank w = Some s \<Longrightarrow> gm_guid s = low \<and> gm_RankId s = rank \<and> gm_Pnote s = [] \<and> gm_OFFnote s = []"
  by (auto simp: member_data_def split: option.splits if_splits)

lemma coh_AddMember:
  assumes c: "coh (G(i \<mapsto> g)) w" and i: "gd_Id g = i" and d: "distinct (map fst (gd_members g))"
    and n: "gu_cache w low = None" and a: "guild_AddMember env low rank g w = (ok, g', w')"
  shows "coh (G(i \<mapsto> g')) w'"
  using a
proof (cases rule: AddMember_cases)
  case refused
  then show ?thesis using c by (simp add: coh_view)
next
  case (added s w1)
  have c1: "coh (G(i \<mapsto> g)) w1" using c by (simp add: added)
  have n1: "gu_cache w1 low = None" using n by (simp add: added RemovePetitionsAndSigns_def)
  have p: "person_ok ((slot_of G low)(i := map_of (gd_members g) low)) None (gu_member_rows w1 low)"
    using coh_person [OF c1, of low] n1 by simp
  let ?w = "sql_new_member low \<lparr>gmr_guildid = i, gmr_rank = rank, gmr_pnote = [], gmr_offnote = []\<rparr> (GuildMemberAdded i low w1)"
  have w': "w' = joined_guild i low rank ?w" by (simp add: added i)
  have r: "gu_member_rows w1 low = None" using p by (simp add: person_ok_def)
  have e: "\<And>j. j \<noteq> i \<Longrightarrow> slot_of G low j = None" using p by (auto simp: person_ok_def split: if_splits)
  have f: "find_gplayer ?w low = gu_players w1 low"
    using coh_find [OF c1, of low] find_same [of ?w w1 low] by (simp add: GuildMemberAdded_def sql_new_member_def)
  have P: "gu_players w' low = map_option (\<lambda>pl. pl\<lparr>pl_guildId := i, pl_rank := rank, pl_invited := 0\<rparr>) (gu_players w1 low)"
  proof -
    have "gu_players ?w = gu_players w1" by (simp add: sql_new_member_def GuildMemberAdded_def)
    then show ?thesis unfolding w' joined_guild_def f by (simp add: upd_gplayer_def)
  qed
  have M: "map_of (gd_members g') = (map_of (gd_members g))(low \<mapsto> s)" by (simp add: added member_added_def map_of_table_put d)
  note fs = member_data_fields [OF added(3)]
  show ?thesis
  proof (rule coh_local [OF c1, where low = low])
    show "person_ok ((slot_of G low)(i := map_of (gd_members g') low)) (gu_cache w' low) (gu_member_rows w' low)"
      using e fs by (auto simp: person_ok_def M w' joined_guild_def sql_new_member_def r GuildMemberAdded_def upd_gplayer_def guild_member_row_of_def)
    show "player_sees low ((slot_of G low)(i := map_of (gd_members g') low)) (gu_cache w' low) pl"
      if q: "gu_players w' low = Some pl" for pl
    proof -
      have "gu_cache w' low = Some i" by (simp add: w' joined_guild_def sql_new_member_def GuildMemberAdded_def upd_gplayer_def)
      then show ?thesis using q fs coh_sees [OF c1, of low] by (auto simp: player_sees_def M P)
    qed
    show "house_ok i (Some g') (gu_rows w' i) (gu_rank_rows w' i) (gu_nextId w1)"
      using house_same [OF coh_house [OF c1], of g']
      by (simp add: w' joined_guild_def sql_new_member_def r GuildMemberAdded_def upd_gplayer_def guild_row_of_def added member_added_def)
  qed (simp_all add: M w' joined_guild_def sql_new_member_def r GuildMemberAdded_def upd_gplayer_def)
qed

end
