(* ===== verification/GuildMove.thy ===== *)
theory GuildMove
  imports GuildCoh
begin

text \<open>
  The larger operations keep guilds well formed: changes of an entry, a member who joins, a member
  who leaves (the leader too), the end of a guild, and a new guild.
\<close>

section \<open>Well-formed guilds\<close>

lemma gd_ok_fields:
  assumes "gd_ok i g" "gd_Id g' = gd_Id g" "gd_members g' = gd_members g" "gd_LeaderGuid g' = gd_LeaderGuid g" "ranks_ok g'"
    "accounts_ok g'" "length (gd_log g') \<le> GUILD_EVENTLOG_MAX_RECORDS"
  shows "gd_ok i g'"
  using assms by (simp add: gd_ok_def guild_members_ok_def rank_sound_def)

lemma gd_ok_same:
  assumes "gd_ok i g" "gd_Id g' = gd_Id g" "gd_members g' = gd_members g" "gd_LeaderGuid g' = gd_LeaderGuid g"
    "gd_Ranks g' = gd_Ranks g" "gd_accountsNumber g' = gd_accountsNumber g" "gd_log g' = gd_log g"
  shows "gd_ok i g'"
  by (rule gd_ok_fields [OF assms(1)]) (use assms in \<open>simp_all add: gd_ok_def ranks_ok_def accounts_ok_def\<close>)

lemma gd_ok_texts:
  assumes "gd_ok i g"
  shows "gd_ok i (fst (SetMOTD t g w))" "gd_ok i (fst (SetGINFO t g w))" "gd_ok i (fst (SetEmblem e g w))"
  by (rule gd_ok_same [OF assms]; simp add: SetMOTD_def SetGINFO_def SetEmblem_def)+

lemma gd_ok_Log:
  assumes "gd_ok i g" shows "gd_ok i (fst (LogGuildEvent env ty p1 p2 r g w))"
  by (rule gd_ok_fields [OF assms])
    (use assms in \<open>auto simp: LogGuildEvent_def Let_def gd_ok_def ranks_ok_def accounts_ok_def GUILD_EVENTLOG_MAX_RECORDS_def\<close>)

lemma gd_ok_ranks:
  assumes "gd_ok i g"
  shows "gd_ok i (fst (CreateRank n r g w))" "gd_ok i (fst (DelRank g w))" "gd_ok i (fst (SetRankName k n g w))"
    "(k = GR_GUILDMASTER \<Longrightarrow> r = GR_RIGHT_ALL) \<Longrightarrow> gd_ok i (fst (SetRankRights k r g w))"
proof -
  note h = assms [unfolded gd_ok_def ranks_ok_def accounts_ok_def]
  show "gd_ok i (fst (CreateRank n r g w))"
    by (rule gd_ok_fields [OF assms])
      (use h in \<open>auto simp: CreateRank_def AddRank_def ranks_ok_def accounts_ok_def GUILD_RANKS_MIN_COUNT_def nth_append\<close>)
  show "gd_ok i (fst (DelRank g w))"
    by (rule gd_ok_fields [OF assms])
      (use h in \<open>auto simp: DelRank_def ranks_ok_def accounts_ok_def GUILD_RANKS_MIN_COUNT_def nth_butlast\<close>)
  show "gd_ok i (fst (SetRankName k n g w))"
    by (rule gd_ok_fields [OF assms])
      (use h in \<open>auto simp: SetRankName_def upd_rank_def ranks_ok_def accounts_ok_def nth_list_update\<close>)
  show "gd_ok i (fst (SetRankRights k r g w))" if "k = GR_GUILDMASTER \<Longrightarrow> r = GR_RIGHT_ALL"
    by (rule gd_ok_fields [OF assms])
      (use h that in \<open>auto simp: SetRankRights_def upd_rank_def ranks_ok_def accounts_ok_def nth_list_update GR_GUILDMASTER_def
         unat_eq_zero\<close>)
qed

lemma gd_ok_accounts:
  assumes "gd_ok i g" shows "gd_ok i (UpdateAccountsNumber g)" "gd_ok i (snd (GetAccountsNumber g))"
  by (rule gd_ok_fields [OF assms];
      use assms in \<open>auto simp: UpdateAccountsNumber_def GetAccountsNumber_def Let_def gd_ok_def ranks_ok_def accounts_ok_def\<close>)+

lemma gd_member: "gd_ok i g \<Longrightarrow> map_of (gd_members g) k = Some s \<Longrightarrow> rank_sound g k s"
  by (simp add: gd_ok_def guild_members_ok_def)

lemma gd_ok_adjust:
  assumes ok: "gd_ok i g" and s: "map_of (gd_members g) low = Some s" and f: "\<And>s. gm_accountId (f s) = gm_accountId s"
    and r: "rank_sound g low (f s)"
  shows "gd_ok i (upd_member low f g)"
proof -
  have a: "map (gm_accountId \<circ> snd) (gd_members (upd_member low f g)) = map (gm_accountId \<circ> snd) (gd_members g)"
    by (simp add: upd_member_def table_adjust_def f)
  have l: "length (gd_members (upd_member low f g)) = length (gd_members g)" by (simp add: upd_member_def table_adjust_def)
  have m: "guild_members_ok (upd_member low f g)" using ok r s
    unfolding guild_members_ok_def l by (auto simp: gd_ok_def guild_members_ok_def upd_member_def fst_table_adjust map_of_table_adjust rank_sound_def)
  have "accounts_ok (upd_member low f g)" using ok unfolding accounts_ok_def a gd_ok_def by (simp add: upd_member_def)
  then show ?thesis using ok m by (simp add: gd_ok_def ranks_ok_def) (simp add: upd_member_def)
qed

lemma gd_ok_ChangeRank:
  assumes ok: "gd_ok i g" and s: "map_of (gd_members g) low = Some s" and n: "low \<noteq> gd_LeaderGuid g" "r \<noteq> GR_GUILDMASTER"
    "unat r < GUILD_RANKS_MAX_COUNT"
  shows "gd_ok i (fst (ChangeRank low r g w))"
  unfolding ChangeRank_def fst_conv
  by (rule gd_ok_adjust [OF ok s]) (use gd_member [OF ok s] n in \<open>simp_all add: rank_sound_def\<close>)

lemma gd_ok_notes:
  assumes ok: "gd_ok i g" and s: "map_of (gd_members g) low = Some s"
  shows "gd_ok i (fst (SetPNOTE low n g w))" "gd_ok i (fst (SetOFFNOTE low n g w))"
  unfolding SetPNOTE_def SetOFFNOTE_def fst_conv
  by (rule gd_ok_adjust [OF ok s]; use gd_member [OF ok s] in \<open>simp add: rank_sound_def\<close>)+

lemma gd_ok_added:
  assumes ok: "gd_ok i g" and n: "map_of (gd_members g) low = None" and l: "length (gd_members g) < GUILD_MAX_MEMBERS"
    and s: "gm_guid s = low" "gm_RankId s \<noteq> GR_GUILDMASTER" "unat (gm_RankId s) < GUILD_RANKS_MAX_COUNT"
  shows "gd_ok i (member_added env low s g)"
proof -
  have d: "distinct (map fst (gd_members g))" and ld: "\<exists>s. map_of (gd_members g) (gd_LeaderGuid g) = Some s"
    using ok by (simp_all add: gd_ok_def guild_members_ok_def)
  have "guild_members_ok (member_added env low s g)"
    using ok n l s ld
    by (auto simp: guild_members_ok_def member_added_def distinct_table_put map_of_table_put d length_table_put gd_ok_def rank_sound_def)
  then show ?thesis using ok by (simp add: gd_ok_def member_added_def ranks_ok_def accounts_ok_def)
qed

section \<open>Leaving\<close>

lemma best_member_in:
  "best_member low es best = Some b \<Longrightarrow> best = Some b \<or> b \<in> set es \<and> fst b \<noteq> low"
proof (induction es arbitrary: best)
  case (Cons e es)
  show ?case
  proof (cases "fst e = low")
    case True
    then show ?thesis using Cons.IH [of best] Cons.prems by auto
  next
    case False
    let ?n = "case best of None \<Rightarrow> Some e | Some b \<Rightarrow> if gm_RankId (snd e) < gm_RankId (snd b) then Some e else best"
    have "?n = Some e \<or> ?n = best" by (cases best) auto
    moreover have "best_member low es ?n = Some b" using Cons.prems False by simp
    ultimately show ?thesis using Cons.IH [of ?n] False by auto
  qed
qed simp

lemma best_member_none: "best_member low es best = None \<Longrightarrow> best = None \<and> (\<forall>e \<in> set es. fst e = low)"
proof (induction es arbitrary: best)
  case (Cons e es)
  show ?case
  proof (cases "fst e = low")
    case True
    then show ?thesis using Cons.IH [of best] Cons.prems by auto
  next
    case False
    let ?n = "case best of None \<Rightarrow> Some e | Some b \<Rightarrow> if gm_RankId (snd e) < gm_RankId (snd b) then Some e else best"
    have "?n \<noteq> None" by (cases best) auto
    moreover have "best_member low es ?n = None" using Cons.prems False by simp
    ultimately show ?thesis using Cons.IH [of ?n] by auto
  qed
qed simp

lemma best_member_least:
  "best_member low es best = Some b \<Longrightarrow>
   (\<forall>e \<in> set es. fst e \<noteq> low \<longrightarrow> gm_RankId (snd b) \<le> gm_RankId (snd e)) \<and> (\<forall>c. best = Some c \<longrightarrow> gm_RankId (snd b) \<le> gm_RankId (snd c))"
proof (induction es arbitrary: best)
  case (Cons e es)
  show ?case
  proof (cases "fst e = low")
    case True
    then show ?thesis using Cons by auto
  next
    case False
    let ?n = "case best of None \<Rightarrow> Some e | Some b \<Rightarrow> if gm_RankId (snd e) < gm_RankId (snd b) then Some e else best"
    have "best_member low es ?n = Some b" using Cons.prems False by simp
    note ih = Cons.IH [OF this]
    have n: "\<And>c. ?n = Some c \<Longrightarrow> gm_RankId (snd b) \<le> gm_RankId (snd c)" using ih by blast
    have "gm_RankId (snd b) \<le> gm_RankId (snd e) \<and> (\<forall>c. best = Some c \<longrightarrow> gm_RankId (snd b) \<le> gm_RankId (snd c))"
    proof (cases best)
      case None
      then show ?thesis using n [of e] by simp
    next
      case (Some c)
      show ?thesis
      proof (cases "gm_RankId (snd e) < gm_RankId (snd c)")
        case True
        then have "gm_RankId (snd b) \<le> gm_RankId (snd e)" using n [of e] Some by simp
        then show ?thesis using True Some by auto
      next
        case False
        then have "gm_RankId (snd b) \<le> gm_RankId (snd c)" using n [of c] Some by simp
        then show ?thesis using False Some by auto
      qed
    qed
    then show ?thesis using ih by auto
  qed
qed simp

lemma erase_fields [simp]:
  "gd_Id (fst (erase_member low g w)) = gd_Id g" "gd_Name (fst (erase_member low g w)) = gd_Name g"
  "gu_map (snd (erase_member low g w)) = gu_map w" "gd_members (fst (erase_member low g w)) = table_erase low (gd_members g)"
  "gu_nextId (snd (erase_member low g w)) = gu_nextId w"
  by (simp_all add: erase_member_def sql_del_member_def left_guild_def upd_gplayer_def GuildMemberRemoved_def)

lemma gd_ok_erase:
  assumes ok: "guild_members_ok g" and l: "low \<noteq> gd_LeaderGuid g"
  shows "guild_members_ok (fst (erase_member low g w))"
  using ok l length_table_erase [of low "gd_members g"]
  by (auto simp: guild_members_ok_def rank_sound_def distinct_table_erase map_of_table_erase erase_member_def)

lemma SetLeader_fields [simp]:
  "gd_Id (fst (SetLeader low g w)) = gd_Id g" "gd_Name (fst (SetLeader low g w)) = gd_Name g"
  "gd_Ranks (fst (SetLeader low g w)) = gd_Ranks g" "gd_log (fst (SetLeader low g w)) = gd_log g"
  "gu_map (snd (SetLeader low g w)) = gu_map w" "gu_nextId (snd (SetLeader low g w)) = gu_nextId w"
  by (simp_all add: SetLeader_def ChangeRank_def upd_member_def sql_guild_def sql_member_def set_player_rank_def upd_gplayer_def
      Let_def split_beta)

lemma SetLeader_members:
  "map_of (gd_members g) low = Some s \<Longrightarrow>
   gd_LeaderGuid (fst (SetLeader low g w)) = low \<and>
   gd_members (fst (SetLeader low g w)) = table_adjust low (\<lambda>s. s\<lparr>gm_RankId := GR_GUILDMASTER\<rparr>) (gd_members g)"
  by (simp add: SetLeader_def GetMemberSlot_def ChangeRank_def upd_member_def split_beta Let_def)

lemma set_rank_again:
  assumes c: "coh (G(i \<mapsto> g)) w" and s: "map_of (gd_members g) low = Some s" and r: "gm_RankId s = r"
  shows "coh (G(i \<mapsto> g)) (set_player_rank low r w)"
proof (rule coh_member_change [OF c s, where s' = s])
  show "gu_member_rows (set_player_rank low r w) = (gu_member_rows w)(low \<mapsto> guild_member_row_of i s)"
    using coh_row [OF c s] by (simp add: set_player_rank_def upd_gplayer_def fun_upd_idem)
  show "\<And>pl. gu_players (set_player_rank low r w) low = Some pl \<Longrightarrow>
      pl_inWorld pl \<and> low \<noteq> 0 \<and> pl_guildId pl = i \<and> pl_rank pl = gm_RankId s"
    using member_seen [OF c s] r coh_find [OF c, of low] by (auto simp: set_player_rank_def upd_gplayer_def split: if_splits)
qed (use s coh_house [OF c] in \<open>simp_all add: set_player_rank_def upd_gplayer_def fun_upd_idem\<close>)

lemma replace_leader_fst: "fst (replace_leader low b g w) = fst (SetLeader (fst b) g w)"
  by (simp add: replace_leader_def split_beta Let_def split: option.split)

lemma replace_leader_map [simp]:
  "gu_map (snd (replace_leader low b g w)) = gu_map w" "gu_nextId (snd (replace_leader low b g w)) = gu_nextId w"
  by (simp_all add: replace_leader_def split_beta Let_def set_player_rank_def upd_gplayer_def BroadcastEvent_def
      BroadcastPacket_guild_def split: option.split)

lemma coh_replace_leader:
  assumes c: "coh (G(i \<mapsto> g)) w" and i: "gd_Id g = i" and b: "map_of (gd_members g) (fst b) = Some s"
  shows "coh (G(i \<mapsto> fst (replace_leader low b g w))) (snd (replace_leader low b g w))"
proof -
  have "coh (G(i \<mapsto> fst (SetLeader (fst b) g w))) (set_player_rank (fst b) GR_GUILDMASTER (snd (SetLeader (fst b) g w)))"
    by (rule set_rank_again [OF coh_SetLeader [OF c i], where s = "s\<lparr>gm_RankId := GR_GUILDMASTER\<rparr>"])
      (use SetLeader_members [OF b] b in \<open>simp_all add: map_of_table_adjust\<close>)
  then show ?thesis by (simp add: replace_leader_def split_beta Let_def split: option.split)
qed

lemma leaves_no_accounts: "accounts_ok (UpdateAccountsNumber g)"
  by (simp add: UpdateAccountsNumber_def accounts_ok_def)

text \<open>A member leaves: somebody else leads a guild that lost its leader.\<close>

lemma guild_members_ok_replace:
  assumes ok: "guild_members_ok g" and l: "gd_LeaderGuid g = low" and b: "map_of (gd_members g) b = Some s" "b \<noteq> low"
    and m: "gd_members g' = table_erase low (table_adjust b (\<lambda>s. s\<lparr>gm_RankId := GR_GUILDMASTER\<rparr>) (gd_members g))"
    and l': "gd_LeaderGuid g' = b"
  shows "guild_members_ok g'"
proof -
  have "length (gd_members g') \<le> length (gd_members g)" unfolding m
    by (rule order_trans [OF length_table_erase]) (simp add: table_adjust_def)
  then show ?thesis using ok b l
    by (auto simp: guild_members_ok_def m l' map_of_table_erase map_of_table_adjust distinct_table_erase fst_table_adjust rank_sound_def
        GUILD_RANKS_MAX_COUNT_def GR_GUILDMASTER_def split: if_splits)
qed

lemma del_member_ok:
  assumes c: "coh (G(i \<mapsto> g)) w" and ok: "gd_ok i g" and s: "map_of (gd_members g) low = Some s"
    and d: "DelMember low False g w = (e, g', w')"
  shows "coh (G(i \<mapsto> g')) w' \<and> gd_Id g' = i \<and> gd_Name g' = gd_Name g \<and> gu_map w' = gu_map w \<and> gu_nextId w' = gu_nextId w \<and>
    distinct (map fst (gd_members g')) \<and> (\<not> e \<longrightarrow> gd_ok i g')"
proof (cases "gd_LeaderGuid g = low")
  case False
  have e: "g' = UpdateAccountsNumber (fst (erase_member low g w))" "w' = snd (erase_member low g w)"
    using d False by (auto simp: DelMember_def split_beta Let_def)
  have "guild_members_ok (fst (erase_member low g w))" by (rule gd_ok_erase) (use ok False in \<open>simp_all add: gd_ok_def\<close>)
  then have m: "guild_members_ok g'" unfolding e UpdateAccountsNumber_def guild_members_ok_def rank_sound_def by simp
  have "gd_ok i g'" using ok m leaves_no_accounts unfolding gd_ok_def e
    by (simp add: ranks_ok_def) (simp add: UpdateAccountsNumber_def erase_member_def)
  then show ?thesis using coh_accounts(1) [OF coh_erase [OF c s]]
    by (simp add: e gd_ok_def guild_members_ok_def) (simp add: UpdateAccountsNumber_def)
next
  case True
  have id: "gd_Id g = i" and mo: "guild_members_ok g" and dm: "distinct (map fst (gd_members g))"
    using ok by (simp_all add: gd_ok_def guild_members_ok_def)
  show ?thesis
  proof (cases "best_member low (gd_members g) None")
    case None
    then have "e" "g' = g" "w' = w" using d True by (auto simp: DelMember_def)
    then show ?thesis using c id dm by simp
  next
    case (Some b)
    let ?g = "fst (replace_leader low b g w)" and ?w = "snd (replace_leader low b g w)"
    have e: "g' = UpdateAccountsNumber (fst (erase_member low ?g ?w))" "w' = snd (erase_member low ?g ?w)"
      using d True Some by (auto simp: DelMember_def split_beta Let_def)
    have "b \<in> set (gd_members g) \<and> fst b \<noteq> low" using best_member_in [OF Some] by simp
    then have b: "map_of (gd_members g) (fst b) = Some (snd b)" "fst b \<noteq> low" using dm by (auto simp: map_of_eq_Some_iff)
    note L = SetLeader_members [OF b(1), of w]
    have s2: "map_of (gd_members ?g) low = Some s" using L s b(2) by (simp add: replace_leader_fst map_of_table_adjust)
    have m: "guild_members_ok g'"
      by (rule guild_members_ok_replace [OF mo True b])
        (use L in \<open>simp_all add: e UpdateAccountsNumber_def erase_member_def replace_leader_fst\<close>)
    have "gd_ok i g'" using ok m leaves_no_accounts unfolding gd_ok_def e
      by (simp add: ranks_ok_def) (simp add: UpdateAccountsNumber_def erase_member_def replace_leader_fst)
    then show ?thesis using coh_accounts(1) [OF coh_erase [OF coh_replace_leader [OF c id b(1), of low] s2]]
      by (simp add: e gd_ok_def guild_members_ok_def) (simp add: UpdateAccountsNumber_def replace_leader_fst)
  qed
qed

end
