(* ===== verification/GuildEnds.thy ===== *)
theory GuildEnds
  imports GuildMove
begin

text \<open>
  Joining a guild, the end of a guild and a new guild: each gives a coherent server.
\<close>

section \<open>Joining\<close>

lemma not_member_none: "coh (G(i \<mapsto> g)) w \<Longrightarrow> gu_cache w k = None \<Longrightarrow> map_of (gd_members g) k = None"
  by (cases "map_of (gd_members g) k") (auto dest: coh_cache)

lemma lowest_not_master: "ranks_ok g \<Longrightarrow> GetLowestRank g \<noteq> GR_GUILDMASTER \<and> unat (GetLowestRank g) < GUILD_RANKS_MAX_COUNT"
proof -
  assume r: "ranks_ok g"
  then have l: "5 \<le> length (gd_Ranks g)" "length (gd_Ranks g) \<le> 10"
    unfolding ranks_ok_def GUILD_RANKS_MIN_COUNT_def GUILD_RANKS_MAX_COUNT_def by blast+
  have "unat (GetLowestRank g) = length (gd_Ranks g) - 1" by (rule lowest_rank [OF r])
  then have u: "0 < unat (GetLowestRank g)" "unat (GetLowestRank g) < 10" using l by linarith+
  show ?thesis unfolding GR_GUILDMASTER_def GUILD_RANKS_MAX_COUNT_def
    using u by (metis less_not_refl unsigned_0)
qed

lemma AddMember_fields:
  assumes "guild_AddMember env low rank g w = (ok, g', w')"
  shows "gd_Id g' = gd_Id g" "gd_Name g' = gd_Name g" "gu_map w' = gu_map w" "gu_nextId w' = gu_nextId w"
    "gu_stopped w' = gu_stopped w" "gd_Ranks g' = gd_Ranks g" "gd_LeaderGuid g' = gd_LeaderGuid g"
    "\<And>k. k \<noteq> low \<Longrightarrow> gu_cache w' k = gu_cache w k"
  using assms
  by (cases rule: AddMember_cases;
      simp add: same_view_def member_added_def joined_guild_def upd_gplayer_def sql_new_member_def GuildMemberAdded_def
        RemovePetitionsAndSigns_def)+

lemma AddMember_ok:
  assumes c: "coh (G(i \<mapsto> g)) w" and ok: "gd_ok i g" and n: "gu_cache w low = None"
    and a: "guild_AddMember env low (GetLowestRank g) g w = (b, g', w')"
  shows "coh (G(i \<mapsto> g')) w' \<and> gd_ok i g'"
proof -
  have id: "gd_Id g = i" and r: "ranks_ok g" and d: "distinct (map fst (gd_members g))"
    using ok by (simp_all add: gd_ok_def guild_members_ok_def)
  have "gd_ok i g'" using a
  proof (cases rule: AddMember_cases)
    case (added s w1)
    then show ?thesis using gd_ok_added [OF ok not_member_none [OF c n], of s env] member_data_fields [OF added(3)] lowest_not_master [OF r]
      by simp
  qed (simp add: ok)
  then show ?thesis using coh_AddMember [OF c id d n a] by blast
qed

section \<open>The end of a guild\<close>

lemma Disband_loop_end: "gd_members (fst (Disband_loop g w)) = []"
proof (induction g w rule: Disband_loop.induct)
  case (1 g w)
  then show ?case by (subst Disband_loop.simps) (auto split: list.split)
qed

lemma DelMember_disbanding:
  "DelMember low True g w = (table_erase low (gd_members g) = [], fst (erase_member low g w), snd (erase_member low g w))"
  by (simp add: DelMember_def split_beta Let_def)

lemma Disband_loop_coh:
  "coh (G(i \<mapsto> g)) w \<Longrightarrow> gd_Id g = i \<Longrightarrow> distinct (map fst (gd_members g)) \<Longrightarrow>
   coh (G(i \<mapsto> fst (Disband_loop g w))) (snd (Disband_loop g w)) \<and> gd_Id (fst (Disband_loop g w)) = i \<and>
   gu_map (snd (Disband_loop g w)) = gu_map w"
proof (induction g w rule: Disband_loop.induct)
  case (1 g w)
  show ?case
  proof (cases "gd_members g")
    case Nil
    have "Disband_loop g w = (g, w)" by (subst Disband_loop.simps) (simp add: Nil)
    then show ?thesis using 1(2,3) by simp
  next
    case (Cons e es)
    let ?g = "fst (snd (DelMember (fst e) True g w))" and ?w = "snd (snd (DelMember (fst e) True g w))"
    have eq: "Disband_loop g w = Disband_loop ?g ?w" by (subst Disband_loop.simps) (simp add: Cons)
    have s: "map_of (gd_members g) (fst e) = Some (snd e)" using Cons by (cases e) simp
    have c: "coh (G(i \<mapsto> ?g)) ?w" unfolding DelMember_disbanding fst_conv snd_conv by (rule coh_erase [OF 1(2) s])
    have f: "gd_Id ?g = i" "distinct (map fst (gd_members ?g))" "gu_map ?w = gu_map w"
      using 1(3,4) unfolding DelMember_disbanding by (simp_all add: distinct_table_erase)
    show ?thesis using 1(1) [OF Cons c f(1,2)] f(3) unfolding eq by simp
  qed
qed

lemma coh_drop:
  assumes c: "coh (G(i \<mapsto> g)) w" and m: "gd_members g = []"
    and w: "gu_cache w' = gu_cache w" "gu_member_rows w' = gu_member_rows w" "gu_players w' = gu_players w"
      "gu_rows w' = (gu_rows w)(i := None)" "gu_rank_rows w' = (gu_rank_rows w)(i := (\<lambda>_. None))" "gu_nextId w' = gu_nextId w"
  shows "coh (G(i := None)) w'"
  unfolding coh_def
proof (intro conjI allI impI)
  fix k show "person_ok (slot_of (G(i := None)) k) (gu_cache w' k) (gu_member_rows w' k)"
    using coh_person [OF c, of k] by (simp add: w m)
next
  fix k pl assume "gu_players w' k = Some pl"
  then show "player_sees k (slot_of (G(i := None)) k) (gu_cache w' k) pl"
    using coh_sees [OF c, of k pl] by (simp add: w m)
next
  fix j show "house_ok j ((G(i := None)) j) (gu_rows w' j) (gu_rank_rows w' j) (gu_nextId w')"
  proof (cases "j = i")
    case False
    have "house_ok j ((G(i \<mapsto> g)) j) (gu_rows w j) (gu_rank_rows w j) (gu_nextId w)" using c unfolding coh_def by blast
    then show ?thesis using False by (simp add: w)
  qed (simp add: house_ok_def w)
next
  show "0 < gu_nextId w'" using c by (simp add: coh_def w)
qed

lemma Disband_coh:
  assumes c: "coh (G(i \<mapsto> g)) w" and i: "gd_Id g = i" and d: "distinct (map fst (gd_members g))"
  shows "coh (G(i := None)) (Disband_guild g w) \<and> gu_map (Disband_guild g w) = table_erase i (gu_map w)"
proof -
  let ?w = "BroadcastEvent GE_DISBANDED 0 [] g w"
  have "coh (G(i \<mapsto> g)) ?w" using c by simp
  note L = Disband_loop_coh [OF this i d]
  have m: "gu_map ?w = gu_map w" using view_sends(4) [of w] unfolding same_view_def by blast
  show ?thesis using coh_drop [OF conjunct1 [OF L] Disband_loop_end] L
    by (simp add: Disband_guild_def Let_def i RemoveGuild_def m)
qed

lemma disband_ok:
  assumes o: "opened i g w" and d: "distinct (map fst (gd_members g))"
  shows "guild_ok (Disband_guild g w)"
proof -
  have c: "coh ((map_of (gu_map w))(i \<mapsto> g)) w" "gd_Id g = i" "distinct (map fst (gu_map w))" using o by (simp_all add: opened_def)
  note D = Disband_coh [OF c(1,2) d]
  have M: "map_of (gu_map (Disband_guild g w)) = (map_of (gu_map w))(i := None)" using D by (simp add: map_of_table_erase)
  show ?thesis unfolding guild_ok_def M
    using D o by (auto simp: opened_def distinct_table_erase)
qed

section \<open>Leaving, for the requests\<close>

lemma end_or_ok:
  assumes o: "opened i g w" and ok: "gd_ok i g" and s: "map_of (gd_members g) low = Some s"
    and k: "\<And>g' w'. opened i g' w' \<Longrightarrow> gd_ok i g' \<Longrightarrow> gu_map w' = gu_map w \<Longrightarrow> guild_ok (k g' w')"
  shows "guild_ok (end_or (DelMember low False g w) k)"
proof (cases "DelMember low False g w")
  case (fields e g' w')
  have c: "coh ((map_of (gu_map w))(i \<mapsto> g)) w" using o by (simp add: opened_def)
  note D = del_member_ok [OF c ok s fields]
  have o': "opened i g' w'" using o D by (simp add: opened_def)
  show ?thesis
  proof (cases e)
    case True
    then show ?thesis using disband_ok [OF o'] D by (simp add: end_or_def fields)
  next
    case False
    then show ?thesis using k [OF o'] D by (simp add: end_or_def fields)
  qed
qed

end
