(* ===== verification/GuildFound.thy ===== *)
theory GuildFound
  imports GuildEnds
begin

text \<open>
  A new guild: its id is fresh, it has the five default ranks, and its leader is its first member.
\<close>

section \<open>The default ranks\<close>

definition rank_steps :: "(nat \<times> u32) list \<Rightarrow> guild_env \<Rightarrow> guild \<times> guild_world \<Rightarrow> guild \<times> guild_world" where
  "rank_steps rs env = fold (\<lambda>(i, rights) (g1, w1). CreateRank (ue_rankName env i) rights g1 w1) rs"

lemma CreateRank_fields:
  "gd_Id (fst (CreateRank n r g w)) = gd_Id g" "gd_Name (fst (CreateRank n r g w)) = gd_Name g"
  "gd_LeaderGuid (fst (CreateRank n r g w)) = gd_LeaderGuid g" "gd_members (fst (CreateRank n r g w)) = gd_members g"
  "gd_log (fst (CreateRank n r g w)) = gd_log g" "gd_accountsNumber (fst (CreateRank n r g w)) = gd_accountsNumber g"
  "gu_map (snd (CreateRank n r g w)) = gu_map w" "gu_players (snd (CreateRank n r g w)) = gu_players w"
  "gu_cache (snd (CreateRank n r g w)) = gu_cache w" "gu_nextId (snd (CreateRank n r g w)) = gu_nextId w"
  "gu_signs (snd (CreateRank n r g w)) = gu_signs w"
  by (simp_all add: CreateRank_def AddRank_def sql_new_rank_def)

text \<open>What the steps leave alone.\<close>

definition same_but_ranks :: "guild \<times> guild_world \<Rightarrow> guild \<times> guild_world \<Rightarrow> bool" where
  "same_but_ranks a b \<longleftrightarrow>
     gd_Id (fst b) = gd_Id (fst a) \<and> gd_Name (fst b) = gd_Name (fst a) \<and> gd_LeaderGuid (fst b) = gd_LeaderGuid (fst a) \<and>
     gd_members (fst b) = gd_members (fst a) \<and> gd_log (fst b) = gd_log (fst a) \<and>
     gd_accountsNumber (fst b) = gd_accountsNumber (fst a) \<and> gu_map (snd b) = gu_map (snd a) \<and>
     gu_players (snd b) = gu_players (snd a) \<and> gu_cache (snd b) = gu_cache (snd a) \<and> gu_nextId (snd b) = gu_nextId (snd a) \<and>
     gu_signs (snd b) = gu_signs (snd a)"

lemma same_but_ranks_trans: "same_but_ranks a b \<Longrightarrow> same_but_ranks b c \<Longrightarrow> same_but_ranks a c"
  by (simp add: same_but_ranks_def)

lemma rank_steps_ok:
  "coh (G(i \<mapsto> fst gw)) (snd gw) \<Longrightarrow> gd_Id (fst gw) = i \<Longrightarrow>
   coh (G(i \<mapsto> fst (rank_steps rs env gw))) (snd (rank_steps rs env gw)) \<and> same_but_ranks gw (rank_steps rs env gw)"
proof (induction rs arbitrary: gw)
  case Nil
  then show ?case by (simp add: rank_steps_def same_but_ranks_def)
next
  case (Cons r rs)
  obtain n x where r: "r = (n, x)" by (cases r)
  let ?gw = "CreateRank (ue_rankName env n) x (fst gw) (snd gw)"
  have s: "rank_steps (r # rs) env gw = rank_steps rs env ?gw" by (cases gw) (simp add: rank_steps_def r)
  have c: "coh (G(i \<mapsto> fst ?gw)) (snd ?gw)" by (rule coh_CreateRank [OF Cons.prems])
  have i: "gd_Id (fst ?gw) = i" using Cons.prems by (simp add: CreateRank_fields)
  have "same_but_ranks gw ?gw" by (simp add: same_but_ranks_def CreateRank_fields)
  then show ?case using Cons.IH [OF c i] unfolding s by (blast intro: same_but_ranks_trans)
qed

lemma rank_steps_ranks:
  "length (gd_Ranks (fst gw)) + length rs \<le> GUILD_RANKS_MAX_COUNT \<Longrightarrow>
   gd_Ranks (fst (rank_steps rs env gw)) =
     gd_Ranks (fst gw) @ map (\<lambda>(n, x). \<lparr>ri_Name = ue_rankName env n, ri_Rights = x\<rparr>) rs"
proof (induction rs arbitrary: gw)
  case Nil
  then show ?case by (simp add: rank_steps_def)
next
  case (Cons r rs)
  obtain n x where r: "r = (n, x)" by (cases r)
  let ?gw = "CreateRank (ue_rankName env n) x (fst gw) (snd gw)"
  have s: "rank_steps (r # rs) env gw = rank_steps rs env ?gw" by (cases gw) (simp add: rank_steps_def r)
  have "gd_Ranks (fst ?gw) = gd_Ranks (fst gw) @ [\<lparr>ri_Name = ue_rankName env n, ri_Rights = x\<rparr>]"
    using Cons.prems by (simp add: CreateRank_def AddRank_def)
  then show ?case using Cons.IH [of ?gw] Cons.prems unfolding s by (simp add: r)
qed

section \<open>A fresh id\<close>

lemma fresh_id:
  assumes c: "coh G w"
  shows "G (gu_nextId w) = None" "gu_rows w (gu_nextId w) = None" "gu_rank_rows w (gu_nextId w) = (\<lambda>_. None)"
proof -
  have h: "house_ok (gu_nextId w) (G (gu_nextId w)) (gu_rows w (gu_nextId w)) (gu_rank_rows w (gu_nextId w)) (gu_nextId w)"
    using c unfolding coh_def by blast
  then show n: "G (gu_nextId w) = None" by (cases "G (gu_nextId w)") (auto simp: house_ok_def)
  show "gu_rows w (gu_nextId w) = None" "gu_rank_rows w (gu_nextId w) = (\<lambda>_. None)"
    using h unfolding n house_ok_def option.case by blast+
qed

lemma no_rows_of_none:
  assumes c: "coh G w" and n: "G i = None" and r: "gu_member_rows w' = gu_member_rows w"
  shows "sql_del_members i w' = w'"
proof -
  have "gu_member_rows (sql_del_members i w') k = gu_member_rows w' k" for k
  proof (cases "gu_member_rows w k")
    case (Some m)
    have p: "person_ok (slot_of G k) (gu_cache w k) (Some m)" using coh_person [OF c, of k] Some by simp
    then obtain j where j: "gu_cache w k = Some j" "Some m = map_option (guild_member_row_of j) (slot_of G k j)"
      by (cases "gu_cache w k") (auto simp: person_ok_def)
    then obtain s where s: "slot_of G k j = Some s" "m = guild_member_row_of j s" by (cases "slot_of G k j") auto
    have "j \<noteq> i" using s(1) n by (auto simp: slot_of_def)
    then have "gmr_guildid m \<noteq> i" using s(2) by (simp add: guild_member_row_of_def)
    then show ?thesis using Some by (simp add: sql_del_members_def r)
  qed (simp add: sql_del_members_def r)
  then have "gu_member_rows (sql_del_members i w') = gu_member_rows w'" by (rule ext)
  then show ?thesis by (simp add: sql_del_members_def)
qed

text \<open>An empty guild with the fresh id, with its row and no ranks.\<close>

lemma coh_new:
  assumes c: "coh G w" and n: "gu_nextId w < 0xFFFFFFFE" and g: "gd_members g = []" "gd_Ranks g = []" and i: "i = gu_nextId w"
    and w: "gu_cache w' = gu_cache w" "gu_member_rows w' = gu_member_rows w" "gu_players w' = gu_players w"
      "gu_rows w' = (gu_rows w)(i \<mapsto> guild_row_of now g)" "gu_rank_rows w' = gu_rank_rows w" "gu_nextId w' = gu_nextId w + 1"
  shows "coh (G(i \<mapsto> g)) w'"
proof -
  note f = fresh_id [OF c, folded i]
  have s: "slot_of (G(i \<mapsto> g)) k = slot_of G k" for k by (simp add: slot_of_def fun_eq_iff g f)
  have lt: "gu_nextId w < gu_nextId w + 1" using n by (simp add: word_less_nat_alt unat_word_ariths)
  show ?thesis unfolding coh_def
  proof (intro conjI allI impI)
    fix k show "person_ok (slot_of (G(i \<mapsto> g)) k) (gu_cache w' k) (gu_member_rows w' k)"
      using coh_person [OF c, of k] by (simp add: w s del: slot_of_upd)
  next
    fix k pl assume "gu_players w' k = Some pl"
    then show "player_sees k (slot_of (G(i \<mapsto> g)) k) (gu_cache w' k) pl"
      using coh_sees [OF c, of k pl] by (simp add: w s del: slot_of_upd)
  next
    fix j show "house_ok j ((G(i \<mapsto> g)) j) (gu_rows w' j) (gu_rank_rows w' j) (gu_nextId w')"
    proof (cases "j = i")
      case False
      have "house_ok j (G j) (gu_rows w j) (gu_rank_rows w j) (gu_nextId w)" using c unfolding coh_def by blast
      then show ?thesis using False lt by (auto simp: house_ok_def w split: option.splits)
    next
      case True
      have "0 < i" using c by (simp add: coh_def i)
      moreover have "gu_rank_rows w i = rank_at g" by (simp add: f rank_at_def g fun_eq_iff)
      ultimately show ?thesis using lt by (auto simp: True house_ok_def w) (simp add: i)
    qed
  next
    show "0 < gu_nextId w'" using lt unfolding w by (metis word_neq_0_conv not_less_zero word_not_simps(1))
  qed
qed

section \<open>Creation\<close>

definition default_ranks :: "guild_env \<Rightarrow> rank_info list" where
  "default_ranks env =
     map (\<lambda>(n, x). \<lparr>ri_Name = ue_rankName env n, ri_Rights = x\<rparr>)
       [(0, GR_RIGHT_ALL), (1, GR_RIGHT_ALL), (2, GR_RIGHT_GCHATLISTEN OR GR_RIGHT_GCHATSPEAK),
        (3, GR_RIGHT_GCHATLISTEN OR GR_RIGHT_GCHATSPEAK), (4, GR_RIGHT_GCHATLISTEN OR GR_RIGHT_GCHATSPEAK)]"

lemma new_guild_ok:
  assumes c: "coh G w" and n: "gu_nextId w < 0xFFFFFFFE" and i: "i = gu_nextId w"
    and g: "new_guild env low name w = (g, w')"
  shows "coh (G(i \<mapsto> g)) w'" "gd_Id g = i" "gd_Name g = name" "gd_LeaderGuid g = low" "gd_members g = []" "gd_log g = []"
    "gd_accountsNumber g = 0" "gd_Ranks g = default_ranks env" "gu_map w' = gu_map w" "gu_players w' = gu_players w"
    "gu_cache w' = gu_cache w" "gu_signs w' = gu_signs w"
proof -
  note f = fresh_id [OF c, folded i]
  let ?g = "Guild_new\<lparr>gd_LeaderGuid := low, gd_Name := name, gd_MOTD := no_message, gd_Id := i,
      gd_Created := ue_localtime env (ue_time env)\<rparr>"
  let ?w = "(snd (GenerateGuildId w))\<lparr>gu_rows := (gu_rows w)(i \<mapsto> guild_row_of (ue_time env) ?g)\<rparr>"
  have s: "sql_del_members i (snd (GenerateGuildId w)) = snd (GenerateGuildId w)"
    by (rule no_rows_of_none [OF c f(1)]) (simp add: GenerateGuildId_def)
  have d: "sql_del_ranks 0 i ?w = ?w" by (simp add: sql_del_ranks_def GenerateGuildId_def fun_upd_idem f(3))
  let ?rs = "[(0, GR_RIGHT_ALL), (1, GR_RIGHT_ALL), (2, GR_RIGHT_GCHATLISTEN OR GR_RIGHT_GCHATSPEAK),
        (3, GR_RIGHT_GCHATLISTEN OR GR_RIGHT_GCHATSPEAK), (4, GR_RIGHT_GCHATLISTEN OR GR_RIGHT_GCHATSPEAK)]"
  have e: "(g, w') = rank_steps ?rs env (?g, ?w)"
  proof -
    have "gu_rows (snd (GenerateGuildId w)) = gu_rows w" by (simp add: GenerateGuildId_def)
    then have "new_guild env low name w = CreateDefaultGuildRanks env ?g ?w"
      using s f(2) by (simp add: new_guild_def Let_def split_beta) (simp add: GenerateGuildId_def i)
    also have "\<dots> = rank_steps ?rs env (?g, sql_del_ranks 0 i ?w)" by (simp add: CreateDefaultGuildRanks_def rank_steps_def)
    finally show ?thesis unfolding g d .
  qed
  have c1: "coh (G(i \<mapsto> fst (?g, ?w))) (snd (?g, ?w))" unfolding fst_conv snd_conv
    by (rule coh_new [OF c n _ _ i, where now = "ue_time env"]) (simp_all add: Guild_new_def GenerateGuildId_def)
  have R: "coh (G(i \<mapsto> fst (g, w'))) (snd (g, w')) \<and> same_but_ranks (?g, ?w) (g, w')" unfolding e
    by (rule rank_steps_ok [OF c1]) simp
  have sr: "same_but_ranks (?g, ?w) (g, w')" using R by (rule conjunct2)
  show "coh (G(i \<mapsto> g)) w'" using R by simp
  show "gd_Id g = i" "gd_Name g = name" "gd_LeaderGuid g = low" "gd_members g = []" "gd_log g = []" "gd_accountsNumber g = 0"
    using sr by (simp_all add: same_but_ranks_def Guild_new_def)
  show "gu_map w' = gu_map w" "gu_players w' = gu_players w" "gu_cache w' = gu_cache w" "gu_signs w' = gu_signs w"
    using sr by (simp_all add: same_but_ranks_def GenerateGuildId_def)
  have "gd_Ranks (fst (g, w')) = gd_Ranks (fst (?g, ?w)) @ default_ranks env" unfolding e default_ranks_def
    by (rule rank_steps_ranks) (simp add: Guild_new_def GUILD_RANKS_MAX_COUNT_def)
  then show "gd_Ranks g = default_ranks env" by (simp add: Guild_new_def)
qed

text \<open>The founder is in memory and has no guild: he gets in, and the guild is in order.\<close>

lemma Create_ok:
  assumes ok: "guild_ok w" and n: "gu_nextId w < 0xFFFFFFFE" and i: "i = gu_nextId w" and p: "gu_players w low = Some pl"
    and z: "pl_guildId pl = 0" and name: "GetGuildByName name w = None" "\<not> ue_spam env name"
  obtains g w' where "Guild_Create env low name w = (True, g, w')" "opened i g w'" "gd_ok i g" "map_of (gu_map w') i = None"
    "gd_Name g = name" "gu_cache w' = (gu_cache w)(low \<mapsto> i)" "gd_LeaderGuid g = low" "map fst (gd_members g) = [low]"
proof -
  let ?M = "map_of (gu_map w)"
  obtain g w1 where g: "new_guild env low name w = (g, w1)" by (cases "new_guild env low name w")
  have c: "coh ?M w" using ok by (simp add: guild_ok_def)
  note N = new_guild_ok [OF c n i g]
  obtain b g' w' where a: "guild_AddMember env low GR_GUILDMASTER g w1 = (b, g', w')" by (cases "guild_AddMember env low GR_GUILDMASTER g w1")
  have cr: "Guild_Create env low name w = (b, g', w')" using name by (simp add: Guild_Create_def g a)
  have sees: "player_sees low (slot_of ?M low) (gu_cache w low) pl" by (rule coh_sees [OF c p])
  have none: "gu_cache w low = None"
  proof (cases "gu_cache w low")
    case (Some j)
    have P: "person_ok (slot_of ?M low) (gu_cache w low) (gu_member_rows w low)" by (rule coh_person [OF c])
    then have "slot_of ?M low j \<noteq> None" using Some by (auto simp: person_ok_def)
    then have "?M j \<noteq> None" by (cases "?M j") (simp_all add: slot_of_def)
    then have "0 < j" using c unfolding coh_def house_ok_def by (auto split: option.splits)
    then show ?thesis using sees Some z by (simp add: player_sees_def)
  qed
  have f: "find_gplayer w1 low = Some pl" using sees p by (simp add: find_gplayer_def N player_sees_def)
  have fr: "find_gplayer (RemovePetitionsAndSigns low w1) low = Some pl"
    using f find_same [of "RemovePetitionsAndSigns low w1" w1 low] by (simp add: RemovePetitionsAndSigns_def)
  have b: "b" using a f fr z N by (auto simp: guild_AddMember_def member_data_def GUILD_MAX_MEMBERS_def GUILD_RANKS_MAX_COUNT_def
      GUILD_INFO_MAX_LENGTH_def GUILD_MOTD_MAX_LENGTH_def Let_def)
  from a obtain s wr where s: "member_data env low GR_GUILDMASTER wr = Some s" "g' = member_added env low s g" "wr = RemovePetitionsAndSigns low w1"
    and w': "w' = joined_guild (gd_Id g) low GR_GUILDMASTER (sql_new_member low \<lparr>gmr_guildid = gd_Id g, gmr_rank = GR_GUILDMASTER,
               gmr_pnote = [], gmr_offnote = []\<rparr> (GuildMemberAdded (gd_Id g) low wr))"
    by (cases rule: AddMember_cases) (use b in auto)
  have c2: "coh (?M(i \<mapsto> g')) w'"
    by (rule coh_AddMember [OF N(1,2) _ _ a]) (simp_all add: N none)
  have members: "gd_members g' = [(low, s)]" by (simp add: s member_added_def N table_put_def)
  note fs = member_data_fields [OF s(1)]
  note F = AddMember_fields [OF a]
  have gok: "gd_ok i g'" unfolding gd_ok_def guild_members_ok_def members using fs
    by (simp add: F N rank_sound_def GUILD_RANKS_MAX_COUNT_def GR_GUILDMASTER_def GUILD_MAX_MEMBERS_def GUILD_INFO_MAX_LENGTH_def
        GUILD_MOTD_MAX_LENGTH_def) (simp add: ranks_ok_def F N default_ranks_def GUILD_RANKS_MIN_COUNT_def GUILD_RANKS_MAX_COUNT_def s
        member_added_def accounts_ok_def)
  have map_w': "gu_map w' = gu_map w" by (simp add: F N)
  have other: "gd_Name h \<noteq> name" if "?M j = Some h" for j h
  proof -
    have "h \<in> set (map snd (gu_map w))" using map_of_SomeD [OF that] by force
    then show ?thesis using name(1) by (auto simp: GetGuildByName_def find_None_iff)
  qed
  have o: "opened i g' w'" using ok c2 other unfolding opened_def map_w' guild_ok_def by (auto simp: F N)
  have cache: "gu_cache w' = (gu_cache w)(low \<mapsto> i)"
    by (simp add: w' joined_guild_def sql_new_member_def upd_gplayer_def GuildMemberAdded_def s RemovePetitionsAndSigns_def N)
  show thesis
    by (rule that [of g' w']) (use cr b o gok cache in \<open>simp_all add: map_w' fresh_id(1) [OF c, folded i] F N members\<close>)
qed

end
