(* ===== verification/GuildRequests.thy ===== *)
theory GuildRequests
  imports GuildFound
begin

text \<open>
  The requests of members about their own guild keep the invariant: queries, ranks of members, notes,
  leader, texts, ranks, emblem.
\<close>

section \<open>The guild of a player\<close>

lemma house_positive: "coh G w \<Longrightarrow> G i = Some g \<Longrightarrow> 0 < i"
proof -
  assume c: "coh G w" and g: "G i = Some g"
  have "house_ok i (G i) (gu_rows w i) (gu_rank_rows w i) (gu_nextId w)" using c unfolding coh_def by blast
  then show ?thesis by (simp add: house_ok_def g)
qed

lemma find_in: "find P xs = Some x \<Longrightarrow> x \<in> set xs \<and> P x"
  by (induction xs) (auto split: if_splits)

lemma own_opened:
  assumes ok: "guild_ok w" and p: "gu_players w p = Some me" and g: "own_guild me w = Some g"
  obtains s where "opened (pl_guildId me) g w" "gd_ok (pl_guildId me) g" "map_of (gd_members g) p = Some s" "pl_rank me = gm_RankId s"
    "map_of (gu_map w) (pl_guildId me) = Some g"
proof -
  let ?i = "pl_guildId me"
  have M: "map_of (gu_map w) ?i = Some g" using g by (simp add: own_guild_def GetGuildById_def)
  have c: "coh (map_of (gu_map w)) w" using ok by (simp add: guild_ok_def)
  have pos: "0 < ?i" by (rule house_positive [OF c M])
  have sees: "player_sees p (slot_of (map_of (gu_map w)) p) (gu_cache w p) me" by (rule coh_sees [OF c p])
  have ca: "gu_cache w p = Some ?i" using sees pos by (auto simp: player_sees_def split: option.splits)
  have "slot_of (map_of (gu_map w)) p ?i \<noteq> None" using coh_person [OF c, of p] ca by (auto simp: person_ok_def)
  then obtain s where s: "map_of (gd_members g) p = Some s" by (auto simp: slot_of_def M)
  have "pl_rank me = gm_RankId s" using sees s by (simp add: player_sees_def ca slot_of_def M)
  then show thesis using that open_guild [OF ok g [unfolded own_guild_def]] s M by blast
qed

lemma named_member:
  assumes ok: "gd_ok i g" and s: "GetMemberSlot_name name g = Some slot"
  shows "map_of (gd_members g) (gm_guid slot) = Some slot"
proof -
  have d: "distinct (map fst (gd_members g))" using ok by (simp add: gd_ok_def guild_members_ok_def)
  have "slot \<in> snd ` set (gd_members g)" using find_in [OF s [unfolded GetMemberSlot_name_def]] by simp
  then obtain k where k: "map_of (gd_members g) k = Some slot" using d by (auto simp: map_of_eq_Some_iff)
  then have "gm_guid slot = k" using gd_member [OF ok k] by (simp add: rank_sound_def)
  then show ?thesis using k by simp
qed

lemma store_ok:
  assumes o: "opened i g w" and m: "map_of (gu_map w) i = Some g0" and c: "coh ((map_of (gu_map w))(i \<mapsto> g')) w'"
    and k: "gd_ok i g'" and n: "gd_Name g' = gd_Name g" and mw: "gu_map w' = gu_map w"
  shows "guild_ok (store_guild (g', w'))"
proof (rule store_opened [OF _ k])
  have id: "gd_Id g' = i" using k by (simp add: gd_ok_def)
  show "opened i g' w'" unfolding opened_def mw n id using o c unfolding opened_def by blast
  show "map_of (gu_map w') i \<noteq> None" using m by (simp add: mw)
qed

lemma view_map: "same_view w w' \<Longrightarrow> gu_map w' = gu_map w" by (simp add: same_view_def)

lemmas map_sends [simp] = view_sends [THEN view_map]

lemma op_map [simp]:
  "gu_map (snd (ChangeRank low r g w)) = gu_map w" "gu_map (snd (SetPNOTE low n g w)) = gu_map w"
  "gu_map (snd (SetOFFNOTE low n g w)) = gu_map w" "gu_map (snd (SetMOTD t g w)) = gu_map w"
  "gu_map (snd (SetGINFO t g w)) = gu_map w" "gu_map (snd (SetEmblem e g w)) = gu_map w"
  "gu_map (snd (CreateRank n x g w)) = gu_map w" "gu_map (snd (DelRank g w)) = gu_map w"
  "gu_map (snd (SetRankName r n g w)) = gu_map w" "gu_map (snd (SetRankRights r x g w)) = gu_map w"
  "gu_map (upd_gplayer q f w) = gu_map w" "gu_map (set_player_rank low r w) = gu_map w"
  by (simp_all add: ChangeRank_def SetPNOTE_def SetOFFNOTE_def SetMOTD_def SetGINFO_def SetEmblem_def CreateRank_def DelRank_def
      SetRankName_def SetRankRights_def upd_rank_def sql_member_def sql_guild_def sql_new_rank_def sql_del_ranks_def sql_rank_def
      set_player_rank_def upd_gplayer_def)

lemma op_name [simp]:
  "gd_Name (fst (ChangeRank low r g w)) = gd_Name g" "gd_Name (fst (SetPNOTE low n g w)) = gd_Name g"
  "gd_Name (fst (SetOFFNOTE low n g w)) = gd_Name g" "gd_Name (fst (SetMOTD t g w)) = gd_Name g"
  "gd_Name (fst (SetGINFO t g w)) = gd_Name g" "gd_Name (fst (SetEmblem e g w)) = gd_Name g"
  "gd_Name (fst (CreateRank n x g w)) = gd_Name g" "gd_Name (fst (DelRank g w)) = gd_Name g"
  "gd_Name (fst (SetRankName r n g w)) = gd_Name g" "gd_Name (fst (SetRankRights r x g w)) = gd_Name g"
  "gd_Name (fst (LogGuildEvent env ty p1 p2 y g w)) = gd_Name g" "gd_Name (upd_member low f g) = gd_Name g"
  "gd_Name (snd (GetAccountsNumber g)) = gd_Name g"
  by (simp_all add: ChangeRank_def upd_member_def SetPNOTE_def SetOFFNOTE_def SetMOTD_def SetGINFO_def SetEmblem_def CreateRank_def
      AddRank_def DelRank_def SetRankName_def SetRankRights_def upd_rank_def LogGuildEvent_def Let_def GetAccountsNumber_def)

lemma coh_upd_player:
  assumes c: "coh G w" and f: "\<And>pl. pl_inWorld (f pl) = pl_inWorld pl \<and> pl_guildId (f pl) = pl_guildId pl \<and> pl_rank (f pl) = pl_rank pl"
  shows "coh G (upd_gplayer q f w)"
proof -
  have "player_sees k (slot_of G k) (gu_cache w k) (f pl)" if "gu_players w k = Some pl" for k pl
    using coh_sees [OF c that] f [of pl] by (auto simp: player_sees_def split: option.splits)
  moreover have "player_sees k (slot_of G k) (gu_cache w k) pl" if "gu_players w k = Some pl" for k pl
    by (rule coh_sees [OF c that])
  ultimately have "\<forall>k pl. gu_players (upd_gplayer q f w) k = Some pl \<longrightarrow> player_sees k (slot_of G k) (gu_cache w k) pl"
    by (auto simp: upd_gplayer_def)
  then show ?thesis using c unfolding coh_def by (simp add: upd_gplayer_def)
qed

lemma guild_ok_upd_player:
  assumes c: "guild_ok w" and f: "\<And>pl. pl_inWorld (f pl) = pl_inWorld pl \<and> pl_guildId (f pl) = pl_guildId pl \<and> pl_rank (f pl) = pl_rank pl"
  shows "guild_ok (upd_gplayer q f w)"
  using c coh_upd_player [OF _ f] by (simp add: guild_ok_def)

section \<open>Queries, texts, notes and ranks\<close>

lemma kept_query: "guild_ok w \<Longrightarrow> guild_ok (HandleGuildQueryOpcode p i w)"
  by (simp add: HandleGuildQueryOpcode_def split: option.split)

lemma kept_roster: "guild_ok w \<Longrightarrow> guild_ok (HandleGuildRosterOpcode env p w)"
  by (simp add: HandleGuildRosterOpcode_def split: option.split)

lemma kept_info: "guild_ok w \<Longrightarrow> guild_ok (HandleGuildInfoOpcode p w)"
proof (cases "gu_players w p")
  case (Some me)
  assume ok: "guild_ok w"
  show ?thesis
  proof (cases "own_guild me w")
    case g: (Some g)
    obtain s where o: "opened (pl_guildId me) g w" "gd_ok (pl_guildId me) g" "map_of (gu_map w) (pl_guildId me) = Some g"
      by (rule own_opened [OF ok Some g])
    have "guild_ok (store_guild (snd (GetAccountsNumber g), w))"
      by (rule store_ok [OF o(1,3)])
        (use o coh_accounts(2) [of _ _ g w] gd_ok_accounts(2) [OF o(2)] in \<open>simp_all add: opened_def\<close>)
    then show ?thesis by (simp add: HandleGuildInfoOpcode_def Some g split_beta store_guild_def)
  qed (simp add: HandleGuildInfoOpcode_def Some ok)
qed (simp add: HandleGuildInfoOpcode_def)

text \<open>Requests on the player's own guild that end with writing it back.\<close>

lemma own_change:
  assumes ok: "guild_ok w"
    and k: "\<And>me g s. gu_players w p = Some me \<Longrightarrow> own_guild me w = Some g \<Longrightarrow> opened (pl_guildId me) g w \<Longrightarrow> gd_ok (pl_guildId me) g \<Longrightarrow>
      map_of (gd_members g) p = Some s \<Longrightarrow> pl_rank me = gm_RankId s \<Longrightarrow> coh ((map_of (gu_map w))(pl_guildId me \<mapsto> g)) w \<Longrightarrow>
      gd_Id g = pl_guildId me \<Longrightarrow> map_of (gu_map w) (pl_guildId me) = Some g \<Longrightarrow> guild_ok (k me g)"
  shows "guild_ok (on_own_guild p k w)"
proof (cases "gu_players w p")
  case (Some me)
  show ?thesis
  proof (cases "own_guild me w")
    case g: (Some g)
    obtain s where o: "opened (pl_guildId me) g w" "gd_ok (pl_guildId me) g" "map_of (gd_members g) p = Some s" "pl_rank me = gm_RankId s"
      "map_of (gu_map w) (pl_guildId me) = Some g" by (rule own_opened [OF ok Some g])
    have "coh ((map_of (gu_map w))(pl_guildId me \<mapsto> g)) w" "gd_Id g = pl_guildId me" using o by (simp_all add: opened_def)
    then show ?thesis using k [OF Some g o(1-4) _ _ o(5)] by (simp add: on_own_guild_def Some g)
  qed (simp add: on_own_guild_def Some ok)
qed (simp add: on_own_guild_def ok)

lemma kept_motd: "guild_ok w \<Longrightarrow> guild_ok (HandleGuildMOTDOpcode p motd w)"
  unfolding HandleGuildMOTDOpcode_def
  by (auto intro!: own_change store_ok coh_texts gd_ok_texts simp: split_beta Let_def)

lemma store_pair:
  assumes "opened i g w" "map_of (gu_map w) i = Some g0" "coh ((map_of (gu_map w))(i \<mapsto> fst x)) (snd x)" "gd_ok i (fst x)"
    "gd_Name (fst x) = gd_Name g" "gu_map (snd x) = gu_map w"
  shows "guild_ok (store_guild x)"
  using store_ok [OF assms] by simp

lemma kept_info_text: "guild_ok w \<Longrightarrow> guild_ok (HandleGuildChangeInfoTextOpcode p t w)"
  unfolding HandleGuildChangeInfoTextOpcode_def
  by (auto intro!: own_change store_pair coh_texts gd_ok_texts)

lemma announced:
  assumes "opened i g w" "map_of (gu_map w) i = Some g0" "coh ((map_of (gu_map w))(i \<mapsto> fst x)) (snd x)" "gd_ok i (fst x)"
    "gd_Name (fst x) = gd_Name g" "gu_map (snd x) = gu_map w"
  shows "guild_ok (announce_ranks env p x)"
  unfolding announce_ranks_def by (rule store_ok [OF assms(1,2)]) (use assms in simp_all)

lemma kept_add_rank: "guild_ok w \<Longrightarrow> guild_ok (HandleGuildAddRankOpcode env p n w)"
  unfolding HandleGuildAddRankOpcode_def
  by (auto intro!: own_change announced coh_CreateRank gd_ok_ranks)

lemma kept_del_rank: "guild_ok w \<Longrightarrow> guild_ok (HandleGuildDelRankOpcode env p w)"
  unfolding HandleGuildDelRankOpcode_def
  by (auto intro!: own_change announced coh_DelRank gd_ok_ranks simp: gd_ok_def)

lemma upd_rank_id: "gd_Id (fst (upd_rank r f g w)) = gd_Id g"
  by (simp add: upd_rank_def)

lemma kept_rank: "guild_ok w \<Longrightarrow> guild_ok (HandleGuildRankOpcode env p r x n w)"
  unfolding HandleGuildRankOpcode_def
proof (rule own_change, assumption)
  fix me g s
  let ?i = "pl_guildId me" and ?x = "if r = GR_GUILDMASTER then GR_RIGHT_ALL else x"
  let ?a = "SetRankName r n g w"
  assume a: "guild_ok w" "opened ?i g w" "gd_ok ?i g" "coh ((map_of (gu_map w))(?i \<mapsto> g)) w" "gd_Id g = ?i" "map_of (gu_map w) ?i = Some g"
  have c1: "coh ((map_of (gu_map w))(?i \<mapsto> fst ?a)) (snd ?a)" unfolding SetRankName_def by (rule coh_upd_rank [OF a(4,5)])
  have i1: "gd_Id (fst ?a) = ?i" using a(5) by (simp add: SetRankName_def upd_rank_id)
  have k1: "gd_ok ?i (fst ?a)" by (rule gd_ok_ranks(3) [OF a(3)])
  have "guild_ok (announce_ranks env p (SetRankRights r ?x (fst ?a) (snd ?a)))"
  proof (rule announced [OF a(2,6)])
    show "coh ((map_of (gu_map w))(?i \<mapsto> fst (SetRankRights r ?x (fst ?a) (snd ?a)))) (snd (SetRankRights r ?x (fst ?a) (snd ?a)))"
      unfolding SetRankRights_def by (rule coh_upd_rank [OF c1 i1])
    show "gd_ok ?i (fst (SetRankRights r ?x (fst ?a) (snd ?a)))" by (rule gd_ok_ranks(4) [OF k1]) simp
  qed simp_all
  then show "guild_ok (if p \<noteq> gd_LeaderGuid g then no_permission p w
      else let (g1, w1) = SetRankName r n g w in announce_ranks env p (SetRankRights r ?x g1 w1))"
    unfolding split_beta Let_def using a(1) by (cases "p = gd_LeaderGuid g") (simp_all split del: if_split)
qed

section \<open>Ranks of members\<close>

lemma own_member_change:
  assumes ok: "guild_ok w"
    and k: "\<And>me g s name slot. gu_players w p = Some me \<Longrightarrow> own_guild me w = Some g \<Longrightarrow> opened (pl_guildId me) g w \<Longrightarrow>
      gd_ok (pl_guildId me) g \<Longrightarrow> map_of (gd_members g) p = Some s \<Longrightarrow> pl_rank me = gm_RankId s \<Longrightarrow>
      coh ((map_of (gu_map w))(pl_guildId me \<mapsto> g)) w \<Longrightarrow> map_of (gu_map w) (pl_guildId me) = Some g \<Longrightarrow>
      map_of (gd_members g) (gm_guid slot) = Some slot \<Longrightarrow> HasRankRight (pl_rank me) right g \<Longrightarrow> guild_ok (k me name slot g)"
  shows "guild_ok (on_member env right p plName k w)"
proof (cases "gu_players w p")
  case (Some me)
  show ?thesis
  proof (cases "own_guild me w")
    case g: (Some g)
    obtain s where o: "opened (pl_guildId me) g w" "gd_ok (pl_guildId me) g" "map_of (gd_members g) p = Some s" "pl_rank me = gm_RankId s"
      "map_of (gu_map w) (pl_guildId me) = Some g" by (rule own_opened [OF ok Some g])
    have c: "coh ((map_of (gu_map w))(pl_guildId me \<mapsto> g)) w" using o by (simp add: opened_def)
    show ?thesis
      using k [OF Some g o(1-4) c o(5) named_member [OF o(2)]] ok
      by (simp add: on_member_def Some g split: option.split)
  qed (simp add: on_member_def Some ok split: option.split)
qed (simp add: on_member_def ok)

lemma changed_rank:
  assumes o: "opened i g w" and m: "map_of (gu_map w) i = Some g0" and k: "gd_ok i g"
    and s: "map_of (gd_members g) (gm_guid slot) = Some slot"
    and n: "gm_guid slot \<noteq> gd_LeaderGuid g" "r \<noteq> GR_GUILDMASTER" "unat r < GUILD_RANKS_MAX_COUNT"
  shows "guild_ok (change_rank env ty ev p me name slot r g w)"
proof -
  have c: "coh ((map_of (gu_map w))(i \<mapsto> g)) w" using o by (simp add: opened_def)
  show ?thesis unfolding change_rank_def Let_def split_beta
    by (rule store_ok [OF o m])
      (use coh_Log [OF coh_ChangeRank [OF c s], of env ty p "gm_guid slot" r] in \<open>simp_all add: gd_ok_Log gd_ok_ChangeRank [OF k s n]\<close>)
qed

lemma not_leader:
  "gd_ok i g \<Longrightarrow> map_of (gd_members g) k = Some s \<Longrightarrow> gm_RankId s \<noteq> GR_GUILDMASTER \<Longrightarrow> k \<noteq> gd_LeaderGuid g"
  using gd_member by (fastforce simp: rank_sound_def)

lemma rank_lt: "gd_ok i g \<Longrightarrow> map_of (gd_members g) k = Some s \<Longrightarrow> unat (gm_RankId s) < 10"
  using gd_member by (fastforce simp: rank_sound_def GUILD_RANKS_MAX_COUNT_def)

lemma kept_promote: "guild_ok w \<Longrightarrow> guild_ok (HandleGuildPromoteOpcode env p n w)"
  unfolding HandleGuildPromoteOpcode_def
proof (rule own_member_change, assumption)
  fix me :: guild_player and g s name and slot :: guild_member
  assume ok: "guild_ok w" and o: "opened (pl_guildId me) g w" "map_of (gu_map w) (pl_guildId me) = Some g" "gd_ok (pl_guildId me) g"
    and s: "map_of (gd_members g) (gm_guid slot) = Some slot" and p: "map_of (gd_members g) p = Some s" "pl_rank me = gm_RankId s"
  have lt: "unat (gm_RankId slot) < 10" "unat (gm_RankId s) < 10" by (rule rank_lt [OF o(3) s], rule rank_lt [OF o(3) p(1)])
  have u: "unat (pl_rank me + 1) = unat (gm_RankId s) + 1" using lt(2) unfolding p(2) by (simp add: unat_word_ariths)
  show "guild_ok (if gm_guid slot = p then SendGuildCommandResult GUILD_INVITE_S [] ERR_GUILD_NAME_INVALID p w
       else if gm_RankId slot \<le> pl_rank me + 1 then SendGuildCommandResult GUILD_INVITE_S name ERR_GUILD_RANK_TOO_HIGH_S p w
       else change_rank env LOG_PROMOTE_PLAYER GE_PROMOTION p me name slot (gm_RankId slot - 1) g w)"
  proof (cases "gm_RankId slot \<le> pl_rank me + 1")
    case False
    then have g: "unat (gm_RankId s) + 1 < unat (gm_RankId slot)" unfolding word_le_nat_alt u by simp
    then have u1: "unat (gm_RankId slot - 1) = unat (gm_RankId slot) - 1" by (intro unat_minus_one) (auto simp del: unat_eq_zero)
    have n: "gm_RankId slot \<noteq> GR_GUILDMASTER" using g by (auto simp: GR_GUILDMASTER_def)
    have n1: "gm_RankId slot - 1 \<noteq> GR_GUILDMASTER"
    proof
      assume "gm_RankId slot - 1 = GR_GUILDMASTER"
      then have "unat (gm_RankId slot - 1) = 0" by (simp add: GR_GUILDMASTER_def)
      then show False using g u1 by linarith
    qed
    have "guild_ok (change_rank env LOG_PROMOTE_PLAYER GE_PROMOTION p me name slot (gm_RankId slot - 1) g w)"
      by (rule changed_rank [OF o s not_leader [OF o(3) s n] n1]) (use u1 lt in \<open>simp add: GUILD_RANKS_MAX_COUNT_def\<close>)
    then show ?thesis using False ok by simp
  qed (use ok in simp)
qed

lemma kept_demote: "guild_ok w \<Longrightarrow> guild_ok (HandleGuildDemoteOpcode env p n w)"
  unfolding HandleGuildDemoteOpcode_def
proof (rule own_member_change, assumption)
  fix me :: guild_player and g s name and slot :: guild_member
  assume ok: "guild_ok w" and o: "opened (pl_guildId me) g w" "map_of (gu_map w) (pl_guildId me) = Some g" "gd_ok (pl_guildId me) g"
    and s: "map_of (gd_members g) (gm_guid slot) = Some slot"
  have lt: "unat (gm_RankId slot) < 10" by (rule rank_lt [OF o(3) s])
  show "guild_ok (if gm_guid slot = p then SendGuildCommandResult GUILD_INVITE_S [] ERR_GUILD_NAME_INVALID p w
       else if gm_RankId slot \<le> pl_rank me then SendGuildCommandResult GUILD_INVITE_S name ERR_GUILD_RANK_TOO_HIGH_S p w
       else if GetLowestRank g \<le> gm_RankId slot then SendGuildCommandResult GUILD_INVITE_S name ERR_GUILD_RANK_TOO_LOW_S p w
       else change_rank env LOG_DEMOTE_PLAYER GE_DEMOTION p me name slot (gm_RankId slot + 1) g w)"
  proof (cases "gm_RankId slot \<le> pl_rank me \<or> GetLowestRank g \<le> gm_RankId slot")
    case False
    have u1: "unat (gm_RankId slot + 1) = unat (gm_RankId slot) + 1" using lt by (simp add: unat_word_ariths)
    have r: "ranks_ok g" using o(3) by (simp add: gd_ok_def)
    have below: "unat (gm_RankId slot) < unat (GetLowestRank g)" using False by (simp add: word_le_nat_alt)
    have n: "gm_RankId slot \<noteq> GR_GUILDMASTER" using False by (auto simp: GR_GUILDMASTER_def word_le_nat_alt)
    have n1: "gm_RankId slot + 1 \<noteq> GR_GUILDMASTER"
    proof
      assume "gm_RankId slot + 1 = GR_GUILDMASTER"
      then have "unat (gm_RankId slot + 1) = 0" by (simp add: GR_GUILDMASTER_def)
      then show False using u1 by linarith
    qed
    have b: "unat (gm_RankId slot + 1) < GUILD_RANKS_MAX_COUNT" using below lowest_not_master [OF r] unfolding u1 by linarith
    have "guild_ok (change_rank env LOG_DEMOTE_PLAYER GE_DEMOTION p me name slot (gm_RankId slot + 1) g w)"
      by (rule changed_rank [OF o s not_leader [OF o(3) s n] n1 b])
    then show ?thesis using False ok by simp
  qed (use ok in auto)
qed

lemma note_stored:
  assumes o: "opened i g w" and m: "map_of (gu_map w) i = Some g0" and k: "gd_ok i g" and s: "map_of (gd_members g) low = Some s"
  shows "guild_ok (store_guild (fst (SetPNOTE low n g w), Roster env ses (fst (SetPNOTE low n g w)) (snd (SetPNOTE low n g w))))"
    "guild_ok (store_guild (fst (SetOFFNOTE low n g w), Roster env ses (fst (SetOFFNOTE low n g w)) (snd (SetOFFNOTE low n g w))))"
proof -
  have c: "coh ((map_of (gu_map w))(i \<mapsto> g)) w" using o by (simp add: opened_def)
  show "guild_ok (store_guild (fst (SetPNOTE low n g w), Roster env ses (fst (SetPNOTE low n g w)) (snd (SetPNOTE low n g w))))"
    by (rule store_ok [OF o m]) (simp_all add: coh_note [OF c s] gd_ok_notes [OF k s])
  show "guild_ok (store_guild (fst (SetOFFNOTE low n g w), Roster env ses (fst (SetOFFNOTE low n g w)) (snd (SetOFFNOTE low n g w))))"
    by (rule store_ok [OF o m]) (simp_all add: coh_note [OF c s] gd_ok_notes [OF k s])
qed

lemma kept_public_note: "guild_ok w \<Longrightarrow> guild_ok (HandleGuildSetPublicNoteOpcode env p n t w)"
  unfolding HandleGuildSetPublicNoteOpcode_def split_beta Let_def
  by (rule own_member_change, assumption) (use note_stored(1) in auto)

lemma kept_officer_note: "guild_ok w \<Longrightarrow> guild_ok (HandleGuildSetOfficerNoteOpcode env p n t w)"
  unfolding HandleGuildSetOfficerNoteOpcode_def split_beta Let_def
  by (rule own_member_change, assumption) (use note_stored(2) in auto)

section \<open>Leader and emblem\<close>

text \<open>The new leader is another member; the old one becomes an officer.\<close>

lemma guild_members_ok_passed:
  assumes ok: "guild_members_ok g" and l: "gd_LeaderGuid g = p" and s: "map_of (gd_members g) q = Some s" "q \<noteq> p"
    and t: "map_of (gd_members g) p = Some t"
    and m: "gd_members g' = table_adjust p (\<lambda>s. s\<lparr>gm_RankId := GR_OFFICER\<rparr>)
      (table_adjust q (\<lambda>s. s\<lparr>gm_RankId := GR_GUILDMASTER\<rparr>) (gd_members g))" and l': "gd_LeaderGuid g' = q"
  shows "guild_members_ok g'"
proof -
  have len: "length (gd_members g') = length (gd_members g)" unfolding m by (simp add: table_adjust_def)
  show ?thesis using ok s l t unfolding guild_members_ok_def len
    by (auto simp: m l' fst_table_adjust map_of_table_adjust rank_sound_def GR_OFFICER_def GR_GUILDMASTER_def
        GUILD_RANKS_MAX_COUNT_def split: if_splits)
qed

lemma leader_passed:
  assumes o: "opened i g w" and m: "map_of (gu_map w) i = Some g0" and k: "gd_ok i g" and s: "map_of (gd_members g) q = Some s"
    and l: "gd_LeaderGuid g = p" and n: "q \<noteq> p"
  shows "guild_ok (let (g1, w1) = SetLeader q g w; (g2, w2) = ChangeRank p GR_OFFICER g1 w1
      in store_guild (g2, BroadcastEvent GE_LEADER_CHANGED 0 strs g2 w2))"
proof -
  have c: "coh ((map_of (gu_map w))(i \<mapsto> g)) w" "gd_Id g = i" using o by (simp_all add: opened_def)
  let ?a = "SetLeader q g w" and ?b = "ChangeRank p GR_OFFICER (fst (SetLeader q g w)) (snd (SetLeader q g w))"
  obtain t where t: "map_of (gd_members g) p = Some t" using k l by (auto simp: gd_ok_def guild_members_ok_def)
  note L = SetLeader_members [OF s, of w]
  have t2: "map_of (gd_members (fst ?a)) p = Some t" using L t n by (simp add: map_of_table_adjust)
  have c2: "coh ((map_of (gu_map w))(i \<mapsto> fst ?b)) (snd ?b)" by (rule coh_ChangeRank [OF coh_SetLeader [OF c] t2])
  have mem: "gd_members (fst ?b) = table_adjust p (\<lambda>s. s\<lparr>gm_RankId := GR_OFFICER\<rparr>)
      (table_adjust q (\<lambda>s. s\<lparr>gm_RankId := GR_GUILDMASTER\<rparr>) (gd_members g))" using L by (simp add: ChangeRank_def upd_member_def)
  have fields: "gd_Id (fst ?b) = i" "gd_LeaderGuid (fst ?b) = q" "gd_Ranks (fst ?b) = gd_Ranks g" "gd_log (fst ?b) = gd_log g"
    "gd_accountsNumber (fst ?b) = gd_accountsNumber g"
    using L c(2) by (simp_all add: ChangeRank_def upd_member_def) (simp add: SetLeader_def ChangeRank_def upd_member_def split_beta Let_def)
  have acc: "map (gm_accountId \<circ> snd) (gd_members (fst ?b)) = map (gm_accountId \<circ> snd) (gd_members g)"
    unfolding mem by (simp add: table_adjust_def)
  have mo: "guild_members_ok (fst ?b)" by (rule guild_members_ok_passed [OF _ l s n t mem fields(2)]) (use k in \<open>simp add: gd_ok_def\<close>)
  have "gd_ok i (fst ?b)" using k mo unfolding gd_ok_def accounts_ok_def acc ranks_ok_def fields by blast
  then have "guild_ok (store_guild (fst ?b, BroadcastEvent GE_LEADER_CHANGED 0 strs (fst ?b) (snd ?b)))"
    by (intro store_ok [OF o m]) (use c2 in simp_all)
  then show ?thesis by (simp add: split_beta Let_def)
qed

lemma kept_leader:
  assumes ok: "guild_ok w"
    and other: "\<And>me g name slot. gu_players w p = Some me \<Longrightarrow> own_guild me w = Some g \<Longrightarrow> ue_normalize env n = Some name \<Longrightarrow>
      GetMemberSlot_name name g = Some slot \<Longrightarrow> gm_guid slot \<noteq> p"
  shows "guild_ok (HandleGuildLeaderOpcode env p n w)"
proof (cases "ue_normalize env n")
  case (Some name)
  show ?thesis unfolding HandleGuildLeaderOpcode_def Some option.case
  proof (rule own_change [OF ok])
    fix me g s
    assume a: "gu_players w p = Some me" "own_guild me w = Some g" "opened (pl_guildId me) g w" "gd_ok (pl_guildId me) g"
      "map_of (gu_map w) (pl_guildId me) = Some g"
    show "guild_ok (if p \<noteq> gd_LeaderGuid g then no_permission p w
            else if GetMemberSlot p g = None then no_permission p w
            else (case GetMemberSlot_name name g of
                    None \<Rightarrow> SendGuildCommandResult GUILD_INVITE_S name ERR_GUILD_PLAYER_NOT_IN_GUILD_S p w
                  | Some slot \<Rightarrow>
                      (let (g1, w1) = SetLeader (gm_guid slot) g w;
                           (g2, w2) = ChangeRank p GR_OFFICER g1 w1
                       in store_guild (g2, BroadcastEvent GE_LEADER_CHANGED 0 [pl_name me, name] g2 w2))))"
    proof (cases "p = gd_LeaderGuid g \<and> GetMemberSlot p g \<noteq> None")
      case True
      show ?thesis
      proof (cases "GetMemberSlot_name name g")
        case None
        then show ?thesis using True ok by auto
      next
        case sl: (Some slot)
        show ?thesis
          using leader_passed [OF a(3,5,4) named_member [OF a(4) sl], of p "[pl_name me, name]"] other [OF a(1,2) Some sl] True sl
          by auto
      qed
    qed (use ok in auto)
  qed
qed (simp add: HandleGuildLeaderOpcode_def ok)

lemma opened_upd_player:
  assumes "opened i g w" and "\<And>pl. pl_inWorld (f pl) = pl_inWorld pl \<and> pl_guildId (f pl) = pl_guildId pl \<and> pl_rank (f pl) = pl_rank pl"
  shows "opened i g (upd_gplayer q f w)"
  using assms(1) coh_upd_player [OF _ assms(2)] by (simp add: opened_def)

lemma kept_emblem: "guild_ok w \<Longrightarrow> guild_ok (HandleSaveGuildEmblemOpcode vendor p e w)"
proof (cases "gu_players w p")
  case (Some me)
  assume ok: "guild_ok w"
  show ?thesis
  proof (cases "own_guild me w")
    case g: (Some g)
    obtain s where o: "opened (pl_guildId me) g w" "gd_ok (pl_guildId me) g" "map_of (gu_map w) (pl_guildId me) = Some g"
      by (rule own_opened [OF ok Some g])
    let ?w = "upd_gplayer p (\<lambda>pl. pl\<lparr>pl_money := money_after (-100000) (pl_money pl)\<rparr>) w" and ?a = "SetEmblem e g"
    have o1: "opened (pl_guildId me) g ?w" by (rule opened_upd_player [OF o(1)]) simp
    then have c1: "coh ((map_of (gu_map ?w))(pl_guildId me \<mapsto> g)) ?w" "gd_Id g = pl_guildId me" by (simp_all add: opened_def)
    have "guild_ok (store_guild (fst (?a ?w), Query p (fst (?a ?w)) (SendSaveGuildEmblem ERR_GUILDEMBLEM_SUCCESS p (snd (?a ?w)))))"
      by (rule store_ok [OF o1]) (use coh_texts(3) [OF c1] gd_ok_texts(3) [OF o(2)] o(3) in simp_all)
    then show ?thesis using ok by (simp add: HandleSaveGuildEmblemOpcode_def Some g split_beta Let_def)
  qed (simp add: HandleSaveGuildEmblemOpcode_def Some ok)
qed (simp add: HandleSaveGuildEmblemOpcode_def)

end
