(* ===== verification/GuildComings.thy ===== *)
theory GuildComings
  imports GuildRequests
begin

text \<open>
  The requests by which players join and leave guilds keep the invariant, as do petitions, login,
  logout, deletion of a character and the commands of game masters.
\<close>

section \<open>Joining\<close>

lemma free_player:
  assumes c: "coh G w" and p: "gu_players w p = Some me" and z: "pl_guildId me = 0"
  shows "gu_cache w p = None"
proof (cases "gu_cache w p")
  case (Some j)
  have "slot_of G p j \<noteq> None" using coh_person [OF c, of p] Some by (auto simp: person_ok_def)
  then obtain g where "G j = Some g" by (cases "G j") (auto simp: slot_of_def)
  then have "0 < j" by (rule house_positive [OF c])
  then show ?thesis using coh_sees [OF c p] Some z by (simp add: player_sees_def)
qed

lemma kept_created:
  assumes ok: "guild_ok w" and n: "gu_nextId w < 0xFFFFFFFE" and p: "gu_players w p = Some me" and z: "pl_guildId me = 0"
  shows "guild_ok (case Guild_Create env p gname w of (False, _, w1) \<Rightarrow> w1 | (True, g, w1) \<Rightarrow> AddGuild env g w1)"
proof (cases "GetGuildByName gname w \<noteq> None \<or> ue_spam env gname")
  case True
  then show ?thesis using ok by (simp add: Guild_Create_def)
next
  case False
  then have f: "GetGuildByName gname w = None" "\<not> ue_spam env gname" by blast+
  obtain g w' where "Guild_Create env p gname w = (True, g, w')" "opened (gu_nextId w) g w'" "gd_ok (gu_nextId w) g"
    by (rule Create_ok [OF ok n refl p z f]) blast
  then show ?thesis using add_opened by simp
qed

lemma kept_create: "guild_ok w \<Longrightarrow> gu_nextId w < 0xFFFFFFFE \<Longrightarrow> guild_ok (HandleGuildCreateOpcode env p gname w)"
  using kept_created by (simp add: HandleGuildCreateOpcode_def split: option.split)

lemma kept_create_command: "guild_ok w \<Longrightarrow> gu_nextId w < 0xFFFFFFFE \<Longrightarrow> guild_ok (HandleGuildCreateCommand env p gname w)"
  using kept_created by (auto simp: HandleGuildCreateCommand_def find_gplayer_def split: option.split)

lemma invited_ok:
  assumes o: "opened i g w" and m: "map_of (gu_map w) i = Some g0" and k: "gd_ok i g"
  shows "guild_ok (store_guild (LogGuildEvent env ty p q r g (upd_gplayer q (\<lambda>pl. pl\<lparr>pl_invited := x\<rparr>) w)))"
proof -
  let ?w = "upd_gplayer q (\<lambda>pl. pl\<lparr>pl_invited := x\<rparr>) w"
  have o1: "opened i g ?w" by (rule opened_upd_player [OF o]) simp
  then have c: "coh ((map_of (gu_map ?w))(i \<mapsto> g)) ?w" by (simp add: opened_def)
  show ?thesis by (rule store_pair [OF o1]) (use coh_Log [OF c] m in \<open>simp_all add: gd_ok_Log [OF k]\<close>)
qed

lemma kept_invite: "guild_ok w \<Longrightarrow> guild_ok (HandleGuildInviteOpcode env p n w)"
proof (cases "gu_players w p")
  case (Some me)
  assume ok: "guild_ok w"
  show ?thesis
  proof (cases "own_guild me w")
    case g: (Some g)
    obtain s where o: "opened (pl_guildId me) g w" "gd_ok (pl_guildId me) g" "map_of (gu_map w) (pl_guildId me) = Some g"
      by (rule own_opened [OF ok Some g])
    have "guild_ok (guild_invite env p me q target name g w)" for q target name
      using ok invited_ok [OF o(1,3,2)] by (simp add: guild_invite_def)
    then show ?thesis using ok by (simp add: HandleGuildInviteOpcode_def Some g Let_def split: option.split)
  qed (use ok in \<open>simp add: HandleGuildInviteOpcode_def Some Let_def split: option.split\<close>)
qed (simp add: HandleGuildInviteOpcode_def)

text \<open>The result of \<open>AddMember\<close> in a guild of the map, with what is logged and sent.\<close>

lemma added_stored:
  assumes o: "opened i g w" and m: "map_of (gu_map w) i = Some g0" and k: "gd_ok i g" and n: "gu_cache w low = None"
    and a: "guild_AddMember env low (GetLowestRank g) g w = (b, g', w')"
  shows "opened i g' w'" "gd_ok i g'" "map_of (gu_map w') i = Some g0" "guild_ok (store_guild (g', w'))"
proof -
  have c: "coh ((map_of (gu_map w))(i \<mapsto> g)) w" using o by (simp add: opened_def)
  note A = AddMember_ok [OF c k n a] and F = AddMember_fields [OF a]
  show s: "guild_ok (store_guild (g', w'))" by (rule store_ok [OF o m]) (use A F in simp_all)
  show kg: "gd_ok i g'" using A by blast
  show mg: "map_of (gu_map w') i = Some g0" using m F by simp
  have "coh ((map_of (gu_map w))(i \<mapsto> g')) w'" using A by blast
  then show "opened i g' w'" using o kg unfolding opened_def F gd_ok_def by blast
qed

lemma kept_accept: "guild_ok w \<Longrightarrow> guild_ok (HandleGuildAcceptOpcode env p w)"
proof (cases "gu_players w p")
  case (Some me)
  assume ok: "guild_ok w"
  show ?thesis
  proof (cases "GetGuildById (pl_invited me) w")
    case g: (Some g)
    let ?i = "pl_invited me"
    have m: "map_of (gu_map w) ?i = Some g" using g by (simp add: GetGuildById_def)
    have o: "opened ?i g w" "gd_ok ?i g" using open_guild [OF ok g] by blast+
    have c: "coh (map_of (gu_map w)) w" using ok by (simp add: guild_ok_def)
    obtain b g1 w1 where a: "guild_AddMember env p (GetLowestRank g) g w = (b, g1, w1)" by (cases "guild_AddMember env p (GetLowestRank g) g w")
    have r: "guild_ok (case (b, g1, w1) of (False, g1, w1) \<Rightarrow> store_guild (g1, w1)
                     | (True, g1, w1) \<Rightarrow> (let (g2, w2) = LogGuildEvent env LOG_JOIN_GUILD p 0 0 g1 w1
                          in store_guild (g2, BroadcastEvent GE_JOINED p [pl_name me] g2 w2)))" if z: "pl_guildId me = 0"
    proof -
      note S = added_stored [OF o(1) m o(2) free_player [OF c Some z] a]
      have c1: "coh ((map_of (gu_map w1))(?i \<mapsto> g1)) w1" using S(1) by (simp add: opened_def)
      let ?l = "LogGuildEvent env LOG_JOIN_GUILD p 0 0 g1 w1"
      have "guild_ok (store_guild (fst ?l, BroadcastEvent GE_JOINED p [pl_name me] (fst ?l) (snd ?l)))"
        by (rule store_ok [OF S(1,3)]) (use coh_Log [OF c1] in \<open>simp_all add: gd_ok_Log [OF S(2)]\<close>)
      then show ?thesis using S(4) by (cases b) (simp_all add: split_beta Let_def)
    qed
    show ?thesis using r ok by (simp add: HandleGuildAcceptOpcode_def Some g a)
  qed (simp add: HandleGuildAcceptOpcode_def Some ok)
qed (simp add: HandleGuildAcceptOpcode_def)

lemma kept_decline:
  assumes ok: "guild_ok w" and n: "\<And>me. gu_players w p = Some me \<Longrightarrow> pl_guildId me = 0"
  shows "guild_ok (HandleGuildDeclineOpcode p w)"
proof -
  have "HandleGuildDeclineOpcode p w = upd_gplayer p (\<lambda>pl. pl\<lparr>pl_invited := 0\<rparr>) w"
    using n by (cases "gu_players w p") (auto simp: HandleGuildDeclineOpcode_def upd_gplayer_def fun_eq_iff intro!: guild_player.equality)
  then show ?thesis using guild_ok_upd_player [OF ok] by simp
qed

section \<open>Leaving\<close>

lemma logged_out_ok:
  assumes o: "opened i g w" and k: "gd_ok i g" and m: "map_of (gu_map w) i = Some g0"
  shows "guild_ok (let (g2, w2) = LogGuildEvent env ty p q r g w in store_guild (g2, BroadcastEvent ev x strs g2 w2))"
proof -
  have c: "coh ((map_of (gu_map w))(i \<mapsto> g)) w" using o by (simp add: opened_def)
  let ?l = "LogGuildEvent env ty p q r g w"
  have "guild_ok (store_guild (fst ?l, BroadcastEvent ev x strs (fst ?l) (snd ?l)))"
    by (rule store_ok [OF o m]) (use coh_Log [OF c] in \<open>simp_all add: gd_ok_Log [OF k]\<close>)
  then show ?thesis by (simp add: split_beta Let_def)
qed

lemma kept_remove: "guild_ok w \<Longrightarrow> guild_ok (HandleGuildRemoveOpcode env p n w)"
proof (cases "gu_players w p")
  case (Some me)
  assume ok: "guild_ok w"
  show ?thesis
  proof (cases "own_guild me w")
    case g: (Some g)
    obtain s where o: "opened (pl_guildId me) g w" "gd_ok (pl_guildId me) g" "map_of (gu_map w) (pl_guildId me) = Some g"
      by (rule own_opened [OF ok Some g])
    have "guild_ok (end_or (DelMember (gm_guid slot) False g w)
        (\<lambda>g1 w1. let (g2, w2) = LogGuildEvent env LOG_UNINVITE_PLAYER p (gm_guid slot) 0 g1 w1
                 in store_guild (g2, BroadcastEvent GE_REMOVED 0 [name, pl_name me] g2 w2)))"
      if "GetMemberSlot_name name g = Some slot" for name slot
      by (rule end_or_ok [OF o(1,2) named_member [OF o(2) that]], rule logged_out_ok) (use o(3) in simp_all)
    then show ?thesis using ok by (simp add: HandleGuildRemoveOpcode_def Some g split: option.split)
  qed (use ok in \<open>simp add: HandleGuildRemoveOpcode_def Some split: option.split\<close>)
qed (simp add: HandleGuildRemoveOpcode_def)

lemma distinct_members: "gd_ok i g \<Longrightarrow> distinct (map fst (gd_members g))"
  by (simp add: gd_ok_def guild_members_ok_def)

lemma kept_leave: "guild_ok w \<Longrightarrow> guild_ok (HandleGuildLeaveOpcode env p w)"
proof (cases "gu_players w p")
  case (Some me)
  assume ok: "guild_ok w"
  show ?thesis
  proof (cases "own_guild me w")
    case g: (Some g)
    obtain s where o: "opened (pl_guildId me) g w" "gd_ok (pl_guildId me) g" "map_of (gd_members g) p = Some s"
      "map_of (gu_map w) (pl_guildId me) = Some g" by (rule own_opened [OF ok Some g])
    let ?w = "SendGuildCommandResult GUILD_QUIT_S (gd_Name g) ERR_PLAYER_NO_MORE_IN_GUILD p w"
    have o1: "opened (pl_guildId me) g ?w" using o by simp
    have "guild_ok (end_or (DelMember p False g ?w)
        (\<lambda>g1 w1. let (g2, w2) = LogGuildEvent env LOG_LEAVE_GUILD p 0 0 g1 w1 in store_guild (g2, BroadcastEvent GE_LEFT p [pl_name me] g2 w2)))"
      by (rule end_or_ok [OF o1 o(2,3)], rule logged_out_ok) (use o(4) in simp_all)
    then show ?thesis using ok disband_ok [OF o(1) distinct_members [OF o(2)]] by (simp add: HandleGuildLeaveOpcode_def Some g)
  qed (use ok in \<open>simp add: HandleGuildLeaveOpcode_def Some\<close>)
qed (simp add: HandleGuildLeaveOpcode_def)

lemma kept_disband: "guild_ok w \<Longrightarrow> guild_ok (HandleGuildDisbandOpcode p w)"
proof (cases "gu_players w p")
  case (Some me)
  assume ok: "guild_ok w"
  show ?thesis
  proof (cases "own_guild me w")
    case g: (Some g)
    obtain s where o: "opened (pl_guildId me) g w" "gd_ok (pl_guildId me) g" by (rule own_opened [OF ok Some g])
    show ?thesis using ok disband_ok [OF o(1) distinct_members [OF o(2)]] by (simp add: HandleGuildDisbandOpcode_def Some g)
  qed (use ok in \<open>simp add: HandleGuildDisbandOpcode_def Some\<close>)
qed (simp add: HandleGuildDisbandOpcode_def)

end
