(* ===== verification/GuildSteps.thy ===== *)
theory GuildSteps
  imports GuildComings
begin

text \<open>
  Petitions, login, logout, deletion and the commands of game masters keep the
  invariant.
\<close>

section \<open>Petitions\<close>

text \<open>A signer who is not in memory is in no guild but this one.\<close>

definition signer_free :: "guild \<Rightarrow> guild_world \<Rightarrow> u32 \<Rightarrow> bool" where
  "signer_free g w low \<longleftrightarrow> gu_players w low \<noteq> None \<or> gu_cache w low = None \<or> map_of (gd_members g) low \<noteq> None"

lemma AddMember_refuses:
  assumes o: "opened i g w" and f: "signer_free g w low" and n: "gu_cache w low \<noteq> None"
  shows "guild_AddMember env low r g w = (False, g, w)"
proof -
  have c: "coh ((map_of (gu_map w))(i \<mapsto> g)) w" using o by (simp add: opened_def)
  have "case find_gplayer w low of Some pl \<Rightarrow> pl_guildId pl \<noteq> 0 | None \<Rightarrow> GetMemberSlot low g \<noteq> None"
  proof (cases "gu_players w low")
    case None
    then have "map_of (gd_members g) low \<noteq> None" using f n unfolding signer_free_def by blast
    then show ?thesis using coh_find [OF c, of low] None unfolding GetMemberSlot_def by simp
  next
    case (Some pl)
    have "pl_guildId pl \<noteq> 0" using free_player [OF c Some] n by blast
    then show ?thesis using coh_find [OF c, of low] Some by simp
  qed
  then show ?thesis by (simp add: guild_AddMember_def)
qed

lemma AddMember_players:
  assumes a: "guild_AddMember env low r g w = (b, g', w')"
  shows "(gu_players w' k = None) = (gu_players w k = None)" "map_of (gd_members g) k \<noteq> None \<Longrightarrow> map_of (gd_members g') k \<noteq> None"
proof -
  show "(gu_players w' k = None) = (gu_players w k = None)" using a
    by (cases rule: AddMember_cases)
      (auto simp: same_view_def joined_guild_def upd_gplayer_def sql_new_member_def GuildMemberAdded_def RemovePetitionsAndSigns_def)
  have put: "k \<in> fst ` set t \<Longrightarrow> k \<in> fst ` set (table_put env low s t)" for s :: guild_member and t
  proof -
    assume "k \<in> fst ` set t"
    then obtain e where e: "e \<in> set t" "k = fst e" by blast
    have "(if fst e = low then (low, s) else e) \<in> (\<lambda>e. if fst e = low then (low, s) else e) ` set t" using e(1) by (rule imageI)
    moreover have "fst (if fst e = low then (low, s) else e) = k" using e(2) by simp
    ultimately have i: "k \<in> fst ` (\<lambda>e. if fst e = low then (low, s) else e) ` set t" by (rule rev_image_eqI [OF _ sym])
    show ?thesis
    proof (cases "map_of t low = None")
      case True
      then show ?thesis using e by (simp add: set_table_put)
    next
      case False
      show ?thesis unfolding set_table_put if_not_P [OF False] by (rule i)
    qed
  qed
  show "map_of (gd_members g) k \<noteq> None \<Longrightarrow> map_of (gd_members g') k \<noteq> None" using a
    by (cases rule: AddMember_cases) (auto simp: member_added_def map_of_eq_None_iff put)
qed

lemma one_signer:
  assumes o: "opened i g w" and m: "map_of (gu_map w) i = Some g0" and k: "gd_ok i g" and f: "signer_free g w low"
    and a: "guild_AddMember env low (GetLowestRank g) g w = (b, g', w')"
  shows "opened i g' w' \<and> map_of (gu_map w') i = Some g0 \<and> gd_ok i g'" "signer_free g w x \<Longrightarrow> signer_free g' w' x"
proof -
  show "opened i g' w' \<and> map_of (gu_map w') i = Some g0 \<and> gd_ok i g'"
  proof (cases "gu_cache w low")
    case None
    then show ?thesis using added_stored [OF o m k None a] by blast
  next
    case (Some j)
    then have "guild_AddMember env low (GetLowestRank g) g w = (False, g, w)" by (intro AddMember_refuses [OF o f]) simp
    then show ?thesis using a o m k by simp
  qed
  have d: "distinct (map fst (gd_members g))" by (rule distinct_members [OF k])
  assume x: "signer_free g w x"
  show "signer_free g' w' x"
  proof (cases "x = low")
    case False
    then show ?thesis using x AddMember_players [OF a, of x] AddMember_fields(8) [OF a False] unfolding signer_free_def by auto
  next
    case True
    show ?thesis using a
    proof (cases rule: AddMember_cases)
      case refused
      then show ?thesis using x by (simp add: signer_free_def same_view_def)
    next
      case (added s w1)
      have "map_of (gd_members g') low = Some s" by (simp add: added member_added_def map_of_table_put d)
      then show ?thesis by (simp add: signer_free_def True)
    qed
  qed
qed

lemma add_signers_ok:
  "opened i g w \<Longrightarrow> map_of (gu_map w) i = Some g0 \<Longrightarrow> gd_ok i g \<Longrightarrow> (\<And>x. x \<in> set rows \<Longrightarrow> signer_free g w x) \<Longrightarrow>
   guild_ok (store_guild (add_signers env n rows g w))"
proof (induction env n rows g w rule: add_signers.induct)
  case (1 env rows g w)
  then show ?case using store_opened by simp
next
  case (2 env n g w)
  then show ?case using store_opened by simp
next
  case (3 env n low rows g w)
  show ?case
  proof (cases "low = 0")
    case True
    then show ?thesis using 3 by simp
  next
    case False
    obtain b g' w' where a: "guild_AddMember env low (GetLowestRank g) g w = (b, g', w')" by (cases "guild_AddMember env low (GetLowestRank g) g w")
    note S = one_signer [OF 3(3-5) 3(6) a]
    have "guild_ok (store_guild (add_signers env n rows g' w'))"
      by (rule 3(2) [OF False a [symmetric] refl]) (use S 3(6) in auto)
    then show ?thesis using False by (simp add: a)
  qed
qed

lemma kept_turn_in:
  assumes ok: "guild_ok w" and n: "gu_nextId w < 0xFFFFFFFE"
    and s: "\<And>x. x \<in> set (petition_signers petition w) \<Longrightarrow> gu_players w x = None \<Longrightarrow> gu_cache w x = None"
  shows "guild_ok (HandleTurnInPetitionOpcode env charter p petition w)"
proof -
  have found: "guild_ok (found_guild env p petition name w)" if p: "gu_players w p = Some me" and z: "pl_guildId me = 0" for me name
  proof (cases "GetGuildByName name w \<noteq> None \<or> ue_spam env name")
    case True
    then show ?thesis using ok by (simp add: found_guild_def Guild_Create_def)
  next
    case False
    then have f: "GetGuildByName name w = None" "\<not> ue_spam env name" by blast+
    obtain g w1 where c: "Guild_Create env p name w = (True, g, w1)" "opened (gu_nextId w) g w1" "gd_ok (gu_nextId w) g"
      "gu_cache w1 = (gu_cache w)(p \<mapsto> gu_nextId w)" "map fst (gd_members g) = [p]"
      by (rule Create_ok [OF ok n refl p z f], rule that; assumption)
    let ?w = "AddGuild env g w1" and ?i = "gu_nextId w"
    have ok1: "guild_ok ?w" by (rule add_opened [OF c(2,3)])
    have id: "gd_Id g = ?i" "distinct (map fst (gu_map w1))" using c(2) by (simp_all add: opened_def)
    have l: "GetGuildById ?i ?w = Some g" using id by (simp add: GetGuildById_def AddGuild_def map_of_table_put)
    then have m: "map_of (gu_map ?w) ?i = Some g" by (simp add: GetGuildById_def)
    have o: "opened ?i g ?w" using open_guild [OF ok1 l] by blast
    have pl: "(gu_players w1 x = None) = (gu_players w x = None)" for x
    proof -
      obtain g0 w0 where g0: "new_guild env p name w = (g0, w0)" by (cases "new_guild env p name w")
      then have "guild_AddMember env p GR_GUILDMASTER g0 w0 = (True, g, w1)" using c(1) f by (simp add: Guild_Create_def)
      moreover have "gu_players w0 = gu_players w"
        by (rule new_guild_ok(10) [OF _ n refl g0, of "map_of (gu_map w)"]) (use ok in \<open>simp add: guild_ok_def\<close>)
      ultimately show ?thesis using AddMember_players(1) [of env p GR_GUILDMASTER g0 w0 True g w1 x] by simp
    qed
    have fr: "signer_free g ?w x" if "x \<in> set (petition_signers petition w)" for x
    proof (cases "x = p")
      case True
      have "p \<in> fst ` set (gd_members g)" using c(5) by (metis list.set_intros(1) set_map)
      then have "map_of (gd_members g) p \<noteq> None" by (simp add: map_of_eq_None_iff)
      then show ?thesis by (simp add: signer_free_def True)
    next
      case False
      then show ?thesis using s [OF that] pl [of x] by (auto simp: signer_free_def AddGuild_def c(4))
    qed
    have "guild_ok (store_guild (add_signers env (unat (of_nat (length (petition_signers petition w)) :: u8)) (petition_signers petition w) g ?w))"
      by (rule add_signers_ok [OF o m c(3) fr])
    then show ?thesis by (simp add: found_guild_def c(1) split_beta Let_def)
  qed
  show ?thesis using ok found
    by (auto simp: HandleTurnInPetitionOpcode_def split: option.split)
qed

section \<open>Login, logout, deletion\<close>

lemma coh_other_player:
  assumes c: "coh G w" and p: "\<And>k. k \<noteq> p \<Longrightarrow> gu_players w' k = gu_players w k"
    and s: "\<And>pl. gu_players w' p = Some pl \<Longrightarrow> player_sees p (slot_of G p) (gu_cache w p) pl"
    and w: "gu_cache w' = gu_cache w" "gu_member_rows w' = gu_member_rows w" "gu_rows w' = gu_rows w"
      "gu_rank_rows w' = gu_rank_rows w" "gu_nextId w' = gu_nextId w"
  shows "coh G w'"
proof -
  have "player_sees k (slot_of G k) (gu_cache w k) pl" if "gu_players w' k = Some pl" for k pl
    using that p s coh_sees [OF c] by (cases "k = p") auto
  then show ?thesis using c unfolding coh_def w by blast
qed

lemma kept_login:
  assumes ok: "guild_ok w" and p: "p \<noteq> 0" "pl_inWorld pl"
  shows "guild_ok (guild_login p pl w)"
proof -
  have c: "coh (map_of (gu_map w)) w" using ok by (simp add: guild_ok_def)
  note P = coh_person [OF c, of p]
  let ?r = "case gu_member_rows w p of None \<Rightarrow> (0, 0) | Some r \<Rightarrow> (gmr_guildid r, gmr_rank r)"
  let ?pl = "pl\<lparr>pl_master := (0, 0), pl_invited := 0, pl_guildId := fst ?r, pl_rank := snd ?r\<rparr>"
  let ?w = "w\<lparr>gu_players := (gu_players w)(p \<mapsto> ?pl)\<rparr>"
  have sees: "player_sees p (slot_of (map_of (gu_map w)) p) (gu_cache w p) ?pl"
  proof (cases "gu_cache w p")
    case None
    then have "gu_member_rows w p = None" using P by (simp add: person_ok_def)
    then show ?thesis using p None by (simp add: player_sees_def)
  next
    case (Some j)
    then obtain s where s: "slot_of (map_of (gu_map w)) p j = Some s" using P by (auto simp: person_ok_def)
    then have "gu_member_rows w p = Some (guild_member_row_of j s)" using P Some by (simp add: person_ok_def)
    then show ?thesis using p Some s by (simp add: player_sees_def guild_member_row_of_def)
  qed
  have "coh (map_of (gu_map w)) ?w" by (rule coh_other_player [OF c, where p = p]) (use sees in auto)
  then have ok1: "guild_ok ?w" using ok by (simp add: guild_ok_def)
  show ?thesis
  proof (cases "fst ?r = 0")
    case True
    then show ?thesis using ok1 by (simp add: guild_login_def split_beta Let_def)
  next
    case False
    obtain j where j: "gu_cache w p = Some j" using P False by (cases "gu_cache w p") (auto simp: person_ok_def)
    then obtain s where s: "slot_of (map_of (gu_map w)) p j = Some s" using P by (auto simp: person_ok_def)
    then have "fst ?r = j" using P j by (simp add: person_ok_def guild_member_row_of_def)
    moreover obtain g where "map_of (gu_map w) j = Some g" using s by (cases "map_of (gu_map w) j") (auto simp: slot_of_def)
    ultimately have "GetGuildById (fst ?r) ?w = Some g" by (simp add: GetGuildById_def)
    then show ?thesis using ok1 False by (simp add: guild_login_def split_beta Let_def)
  qed
qed

lemma kept_gone: "guild_ok w \<Longrightarrow> guild_ok (w\<lparr>gu_players := (gu_players w)(p := None)\<rparr>)"
proof -
  assume ok: "guild_ok w"
  have "coh (map_of (gu_map w)) (w\<lparr>gu_players := (gu_players w)(p := None)\<rparr>)"
    by (rule coh_other_player [of _ w p]) (use ok in \<open>simp_all add: guild_ok_def\<close>)
  then show ?thesis using ok by (simp add: guild_ok_def)
qed

lemma kept_logout: "guild_ok w \<Longrightarrow> guild_ok (guild_logout env p w)"
proof (cases "gu_players w p")
  case (Some me)
  assume ok: "guild_ok w"
  show ?thesis
  proof (cases "own_guild me w")
    case None
    then show ?thesis using kept_gone [OF ok, of p] by (simp add: guild_logout_def Some)
  next
    case g: (Some g)
    obtain s where o: "opened (pl_guildId me) g w" "gd_ok (pl_guildId me) g" "map_of (gd_members g) p = Some s"
      "map_of (gu_map w) (pl_guildId me) = Some g" by (rule own_opened [OF ok Some g])
    let ?f = "\<lambda>s. UpdateLogoutTime env (SetMemberStats me s)"
    let ?g = "upd_member p ?f g"
    have c: "coh ((map_of (gu_map w))(pl_guildId me \<mapsto> g)) w" using o by (simp add: opened_def)
    have "coh ((map_of (gu_map w))(pl_guildId me \<mapsto> ?g)) w"
      by (rule coh_upd_member [OF c o(3)]) (simp add: guild_member_row_of_def UpdateLogoutTime_def SetMemberStats_def)
    moreover have "gd_ok (pl_guildId me) ?g"
      by (rule gd_ok_adjust [OF o(2,3)])
        (use gd_member [OF o(2,3)] in \<open>simp_all add: rank_sound_def UpdateLogoutTime_def SetMemberStats_def\<close>)
    ultimately have "guild_ok (store_guild (?g, BroadcastEvent GE_SIGNED_OFF p [pl_name me] ?g w))"
      by (intro store_ok [OF o(1,4)]) simp_all
    then show ?thesis using kept_gone by (simp add: guild_logout_def Some g Let_def)
  qed
qed (simp add: guild_logout_def)

lemma end_or_stored:
  assumes "opened i g w" "gd_ok i g" "map_of (gd_members g) low = Some s" "map_of (gu_map w) i = Some g0"
  shows "guild_ok (end_or (DelMember low False g w) (\<lambda>g1 w1. store_guild (g1, w1)))"
  by (rule end_or_ok [OF assms(1-3)]) (use store_opened assms(4) in fastforce)

lemma cached_guild:
  assumes ok: "guild_ok w" and c: "gu_cache w low = Some i"
  obtains g s where "map_of (gu_map w) i = Some g" "map_of (gd_members g) low = Some s" "opened i g w" "gd_ok i g"
proof -
  have "coh (map_of (gu_map w)) w" using ok by (simp add: guild_ok_def)
  then have "slot_of (map_of (gu_map w)) low i \<noteq> None" using coh_person [of "map_of (gu_map w)" w low] c by (auto simp: person_ok_def)
  then obtain g s where g: "map_of (gu_map w) i = Some g" "map_of (gd_members g) low = Some s"
    by (cases "map_of (gu_map w) i") (auto simp: slot_of_def)
  then show thesis using that open_guild [OF ok, of i g] by (simp add: GetGuildById_def)
qed

lemma kept_delete: "guild_ok w \<Longrightarrow> guild_ok (delete_character low w)"
proof (cases "gu_cache w low")
  case (Some i)
  assume ok: "guild_ok w"
  obtain g s where g: "map_of (gu_map w) i = Some g" "map_of (gd_members g) low = Some s" "opened i g w" "gd_ok i g"
    by (rule cached_guild [OF ok Some])
  show ?thesis using end_or_stored [OF g(3,4,2,1)] by (simp add: delete_character_def GetPlayerGuild_def Some GetGuildById_def g(1))
qed (simp add: delete_character_def GetPlayerGuild_def)

section \<open>Game masters\<close>

lemma target_cached:
  assumes ok: "guild_ok w" and t: "target_guild low w = Some g"
  obtains i s where "map_of (gu_map w) i = Some g" "map_of (gd_members g) low = Some s" "opened i g w" "gd_ok i g"
proof -
  have c: "coh (map_of (gu_map w)) w" using ok by (simp add: guild_ok_def)
  let ?i = "case find_gplayer w low of
                 Some pl \<Rightarrow> pl_guildId pl
               | None \<Rightarrow> (case gu_member_rows w low of None \<Rightarrow> 0 | Some r \<Rightarrow> gmr_guildid r)"
  have i: "?i \<noteq> 0" "map_of (gu_map w) ?i = Some g" using t unfolding target_guild_def Let_def GetGuildById_def by (auto split: if_splits)
  have "gu_cache w low = Some ?i"
  proof (cases "gu_players w low")
    case (Some pl)
    then show ?thesis using coh_sees [OF c Some] coh_find [OF c, of low] i(1) by (auto simp: player_sees_def split: option.splits)
  next
    case None
    have f: "find_gplayer w low = None" using coh_find [OF c, of low] None by simp
    note P = coh_person [OF c, of low]
    obtain a where a: "gu_cache w low = Some a" using P i(1) by (cases "gu_cache w low") (auto simp: person_ok_def f)
    then obtain s where "slot_of (map_of (gu_map w)) low a = Some s" using P by (auto simp: person_ok_def)
    then have "gu_member_rows w low = Some (guild_member_row_of a s)" using P a by (simp add: person_ok_def)
    then show ?thesis using a by (simp add: f guild_member_row_of_def)
  qed
  from cached_guild [OF ok this] that i(2) show thesis by auto
qed

lemma kept_uninvite_command: "guild_ok w \<Longrightarrow> guild_ok (snd (HandleGuildUninviteCommand low w))"
proof (cases "target_guild low w")
  case (Some g)
  assume ok: "guild_ok w"
  obtain i s where "map_of (gu_map w) i = Some g" "map_of (gd_members g) low = Some s" "opened i g w" "gd_ok i g"
    by (rule target_cached [OF ok Some])
  then show ?thesis using end_or_stored by (simp add: HandleGuildUninviteCommand_def Some)
qed (simp add: HandleGuildUninviteCommand_def)

lemma named_guild:
  assumes ok: "guild_ok w" and g: "GetGuildByName n w = Some g"
  obtains i where "map_of (gu_map w) i = Some g" "opened i g w" "gd_ok i g"
proof -
  have "g \<in> snd ` set (gu_map w)" using find_in [OF g [unfolded GetGuildByName_def]] by simp
  then obtain i where "(i, g) \<in> set (gu_map w)" by auto
  moreover have "distinct (map fst (gu_map w))" using ok by (simp add: guild_ok_def)
  ultimately have m: "map_of (gu_map w) i = Some g" by (simp add: map_of_eq_Some_iff)
  then show thesis using that open_guild [OF ok, of i g] by (simp add: GetGuildById_def)
qed

lemma kept_invite_command:
  assumes ok: "guild_ok w" and f: "\<And>g. GetGuildByName n w = Some g \<Longrightarrow> signer_free g w low"
  shows "guild_ok (snd (HandleGuildInviteCommand env low n w))"
proof (cases "GetGuildByName n w")
  case (Some g)
  obtain i where o: "map_of (gu_map w) i = Some g" "opened i g w" "gd_ok i g" by (rule named_guild [OF ok Some])
  obtain b g' w' where a: "guild_AddMember env low (GetLowestRank g) g w = (b, g', w')" by (cases "guild_AddMember env low (GetLowestRank g) g w")
  have "guild_ok (store_guild (g', w'))"
    using one_signer(1) [OF o(2,1,3) f [OF Some] a] store_opened by blast
  then show ?thesis by (simp add: HandleGuildInviteCommand_def Some a)
qed (simp add: HandleGuildInviteCommand_def ok)

lemma kept_delete_command: "guild_ok w \<Longrightarrow> guild_ok (snd (HandleGuildDeleteCommand n w))"
proof (cases "GetGuildByName n w")
  case (Some g)
  assume ok: "guild_ok w"
  obtain i where o: "opened i g w" "gd_ok i g" by (rule named_guild [OF ok Some])
  show ?thesis using disband_ok [OF o(1) distinct_members [OF o(2)]] by (simp add: HandleGuildDeleteCommand_def Some)
qed (simp add: HandleGuildDeleteCommand_def)

lemma kept_rank_command:
  assumes ok: "guild_ok w" and r: "r \<noteq> GR_GUILDMASTER" and l: "\<And>g. target_guild low w = Some g \<Longrightarrow> gd_LeaderGuid g \<noteq> low"
  shows "guild_ok (snd (HandleGuildRankCommand low r w))"
proof (cases "target_guild low w")
  case (Some g)
  obtain i s where o: "map_of (gu_map w) i = Some g" "map_of (gd_members g) low = Some s" "opened i g w" "gd_ok i g"
    by (rule target_cached [OF ok Some])
  have c: "coh ((map_of (gu_map w))(i \<mapsto> g)) w" using o by (simp add: opened_def)
  have "guild_ok (store_guild (ChangeRank low r g w))" if "\<not> GetLowestRank g < r"
  proof (rule store_pair [OF o(3,1)])
    have rk: "ranks_ok g" using o(4) by (simp add: gd_ok_def)
    have "unat r < GUILD_RANKS_MAX_COUNT" using that lowest_not_master [OF rk] unfolding word_less_nat_alt by linarith
    then show "gd_ok i (fst (ChangeRank low r g w))" by (intro gd_ok_ChangeRank [OF o(4,2)] r) (use l [OF Some] in simp_all)
  qed (use coh_ChangeRank [OF c o(2)] in simp_all)
  then show ?thesis using ok by (simp add: HandleGuildRankCommand_def Some)
qed (simp add: HandleGuildRankCommand_def ok)

end
