(* ===== verification/GuildReach.thy ===== *)
theory GuildReach
  imports GuildSteps
begin

text \<open>
  The steps of the server as far as guilds are concerned, and the invariant of its reachable states.
\<close>

text \<open>
  Left out are: a member who declines an invitation, a leader who hands the guild to himself, a
  game master who gives or takes rank 0, a player who is taken into a guild while he is not in
  memory and in another guild, and a new guild when the ids run out. What the first two and
  the fourth of these do is shown in \<^verbatim>\<open>GuildFindings\<close>. Players in memory are in the world, as when no
  map change is going on. Petitions and their signatures come from requests outside this part,
  so any of them may appear.
\<close>

inductive guild_step :: "guild_world \<Rightarrow> guild_world \<Rightarrow> bool" where
  us_query: "guild_step w (HandleGuildQueryOpcode p i w)"
| us_info: "guild_step w (HandleGuildInfoOpcode p w)"
| us_roster: "guild_step w (HandleGuildRosterOpcode env p w)"
| us_create: "gu_nextId w < 0xFFFFFFFE \<Longrightarrow> guild_step w (HandleGuildCreateOpcode env p name w)"
| us_invite: "guild_step w (HandleGuildInviteOpcode env p name w)"
| us_accept: "guild_step w (HandleGuildAcceptOpcode env p w)"
| us_decline: "(\<And>me. gu_players w p = Some me \<Longrightarrow> pl_guildId me = 0) \<Longrightarrow> guild_step w (HandleGuildDeclineOpcode p w)"
| us_remove: "guild_step w (HandleGuildRemoveOpcode env p name w)"
| us_leave: "guild_step w (HandleGuildLeaveOpcode env p w)"
| us_disband: "guild_step w (HandleGuildDisbandOpcode p w)"
| us_promote: "guild_step w (HandleGuildPromoteOpcode env p name w)"
| us_demote: "guild_step w (HandleGuildDemoteOpcode env p name w)"
| us_note: "guild_step w (HandleGuildSetPublicNoteOpcode env p name note w)"
| us_officer_note: "guild_step w (HandleGuildSetOfficerNoteOpcode env p name note w)"
| us_leader: "(\<And>me g nm slot. gu_players w p = Some me \<Longrightarrow> own_guild me w = Some g \<Longrightarrow> ue_normalize env name = Some nm \<Longrightarrow>
      GetMemberSlot_name nm g = Some slot \<Longrightarrow> gm_guid slot \<noteq> p) \<Longrightarrow> guild_step w (HandleGuildLeaderOpcode env p name w)"
| us_motd: "guild_step w (HandleGuildMOTDOpcode p motd w)"
| us_info_text: "guild_step w (HandleGuildChangeInfoTextOpcode p ginfo w)"
| us_rank: "guild_step w (HandleGuildRankOpcode env p r rights name w)"
| us_add_rank: "guild_step w (HandleGuildAddRankOpcode env p name w)"
| us_del_rank: "guild_step w (HandleGuildDelRankOpcode env p w)"
| us_emblem: "guild_step w (HandleSaveGuildEmblemOpcode vendor p emblem w)"
| us_turn_in: "gu_nextId w < 0xFFFFFFFE \<Longrightarrow>
    (\<And>x. x \<in> set (petition_signers petition w) \<Longrightarrow> gu_players w x = None \<Longrightarrow> gu_cache w x = None) \<Longrightarrow>
    guild_step w (HandleTurnInPetitionOpcode env charter p petition w)"
| us_chat: "guild_step w (HandleGuildChat BroadcastToGuild env p msg w)"
| us_officer_chat: "guild_step w (HandleGuildChat BroadcastToOfficers env p msg w)"
| us_login: "p \<noteq> 0 \<Longrightarrow> pl_inWorld pl \<Longrightarrow> guild_step w (guild_login p pl w)"
| us_session: "guild_step w (session_update p w)"
| us_logout: "guild_step w (guild_logout env p w)"
| us_delete: "guild_step w (delete_character p w)"
| us_gm_create: "gu_nextId w < 0xFFFFFFFE \<Longrightarrow> guild_step w (HandleGuildCreateCommand env p name w)"
| us_gm_invite: "(\<And>g. GetGuildByName name w = Some g \<Longrightarrow> signer_free g w p) \<Longrightarrow>
    guild_step w (snd (HandleGuildInviteCommand env p name w))"
| us_gm_uninvite: "guild_step w (snd (HandleGuildUninviteCommand p w))"
| us_gm_rank: "r \<noteq> GR_GUILDMASTER \<Longrightarrow> (\<And>g. target_guild p w = Some g \<Longrightarrow> gd_LeaderGuid g \<noteq> p) \<Longrightarrow>
    guild_step w (snd (HandleGuildRankCommand p r w))"
| us_gm_delete: "guild_step w (snd (HandleGuildDeleteCommand name w))"
| us_petitions: "guild_step w (w\<lparr>gu_petitions := ps, gu_signs := ss\<rparr>)"
| us_player: "(\<And>pl. pl_inWorld (f pl) = pl_inWorld pl \<and> pl_guildId (f pl) = pl_guildId pl \<and> pl_rank (f pl) = pl_rank pl) \<Longrightarrow>
    guild_step w (upd_gplayer p f w)"

text \<open>A server without guilds and players.\<close>

definition guild_start :: "guild_world \<Rightarrow> bool" where
  "guild_start w \<longleftrightarrow>
     gu_players w = (\<lambda>_. None) \<and> gu_map w = [] \<and> gu_cache w = (\<lambda>_. None) \<and> gu_nextId w = 1 \<and> gu_rows w = (\<lambda>_. None) \<and>
     gu_member_rows w = (\<lambda>_. None) \<and> gu_rank_rows w = (\<lambda>_ _. None)"

lemma guild_start_ok: "guild_start w \<Longrightarrow> guild_ok w"
  by (simp add: guild_start_def guild_ok_def coh_def person_ok_def house_ok_def slot_of_def)

lemma kept_chat: "guild_ok w \<Longrightarrow> guild_ok (HandleGuildChat BroadcastToGuild env p msg w)"
  "guild_ok w \<Longrightarrow> guild_ok (HandleGuildChat BroadcastToOfficers env p msg w)"
  by (simp_all add: HandleGuildChat_def BroadcastToGuild_def BroadcastToOfficers_def split: option.split)

lemma kept_petitions: "guild_ok w \<Longrightarrow> guild_ok (w\<lparr>gu_petitions := ps, gu_signs := ss\<rparr>)"
  by (subst guild_ok_view [of w]) (simp_all add: same_view_def)

lemma kept_guild_step: "guild_step w w' \<Longrightarrow> guild_ok w \<Longrightarrow> guild_ok w'"
proof (induction rule: guild_step.induct)
  case (us_decline w p)
  show ?case by (rule kept_decline [OF us_decline(2) us_decline(1)])
next
  case (us_leader w p env name)
  show ?case by (rule kept_leader [OF us_leader(2) us_leader(1)])
next
  case (us_turn_in w petition env charter p)
  show ?case by (rule kept_turn_in [OF us_turn_in(3,1,2)])
next
  case (us_gm_invite name w p env)
  show ?case by (rule kept_invite_command [OF us_gm_invite(2,1)])
next
  case (us_gm_rank r p w)
  show ?case by (rule kept_rank_command [OF us_gm_rank(3,1,2)])
next
  case (us_session w p)
  show ?case unfolding session_update_def by (rule guild_ok_upd_player [OF us_session]) simp
next
  case (us_player f w p)
  show ?case by (rule guild_ok_upd_player [OF us_player(2,1)])
qed (simp_all add: kept_query kept_info kept_roster kept_create kept_invite kept_accept kept_remove kept_leave kept_disband kept_promote kept_demote
    kept_public_note kept_officer_note kept_motd kept_info_text kept_rank kept_add_rank kept_del_rank kept_emblem kept_chat kept_login kept_logout
    kept_delete kept_create_command kept_uninvite_command kept_delete_command kept_petitions)

interpretation gl: machine guild_start guild_step guild_ok
  by unfold_locales (auto intro: guild_start_ok kept_guild_step)

end
