(* ===== verification/GuildProps.thy ===== *)
theory GuildProps
  imports GuildReach
begin

text \<open>
  Properties of guilds over every sequence of requests, logins, petitions and commands, with a
  server of three players as witness: the first has founded a guild, the others have joined, and
  the second has been promoted once.
\<close>

section \<open>A server with a guild\<close>

definition sample_upl :: "u8 \<Rightarrow> guild_player" where
  "sample_upl n =
     \<lparr>pl_name = [n], pl_account = ucast n, pl_level = 10, pl_class = 1, pl_zone = 12, pl_team = 469, pl_inWorld = True,
      pl_guildId = 0, pl_rank = 0, pl_invited = 0, pl_master = (0, 0), pl_money = 200000\<rparr>"

definition sample_uenv :: guild_env where
  "sample_uenv =
     \<lparr>ue_time = 1000, ue_localtime = (\<lambda>_. (126, 0, 1)), ue_normalize = Some,
      ue_byName = (\<lambda>n. case n of [c] \<Rightarrow> Some (ucast c) | _ \<Rightarrow> None), ue_cache = (\<lambda>_. None), ue_team = (\<lambda>_. 469),
      ue_ignores = (\<lambda>_ _. False), ue_two_side = False, ue_spam = (\<lambda>_. False), ue_rankName = (\<lambda>n. [of_nat n]),
      ue_logCount = 100, ue_minSigns = 9, ue_hash = unat, ue_days = (\<lambda>_. 0), ue_chat = (\<lambda>_ m. m)\<rparr>"

definition sample_ufresh :: guild_world where
  "sample_ufresh =
     \<lparr>gu_players = (\<lambda>_. None), gu_map = [], gu_cache = (\<lambda>_. None), gu_nextId = 1, gu_rows = (\<lambda>_. None),
      gu_member_rows = (\<lambda>_. None), gu_rank_rows = (\<lambda>_ _. None), gu_log_rows = (\<lambda>_ _. None),
      gu_petitions = (\<lambda>_. None), gu_signs = [], gu_out = [], gu_stopped = False\<rparr>"

definition sample_founded :: guild_world where
  "sample_founded = HandleGuildCreateOpcode sample_uenv 1 [71]
     (guild_login 3 (sample_upl 3) (guild_login 2 (sample_upl 2) (guild_login 1 (sample_upl 1) sample_ufresh)))"

definition sample_joined :: "u8 \<Rightarrow> guild_world \<Rightarrow> guild_world" where
  "sample_joined n w = HandleGuildAcceptOpcode sample_uenv (ucast n) (HandleGuildInviteOpcode sample_uenv 1 [n] w)"

definition sample_guild_world :: guild_world where
  "sample_guild_world = HandleGuildPromoteOpcode sample_uenv 1 [2] (sample_joined 3 (sample_joined 2 sample_founded))"

text \<open>The definitions a run of requests needs; packets stay unevaluated.\<close>

lemmas guild_eval =
  sample_upl_def sample_uenv_def sample_ufresh_def guild_login_def HandleGuildCreateOpcode_def Guild_Create_def GetGuildByName_def
  new_guild_def GenerateGuildId_def sql_del_members_def CreateDefaultGuildRanks_def CreateRank_def AddRank_def sql_new_rank_def
  sql_del_ranks_def guild_AddMember_def find_gplayer_def upd_gplayer_def RemovePetitionsAndSigns_def member_data_def
  table_put_def GuildMemberAdded_def sql_new_member_def UpdateAccountsNumber_def joined_guild_def AddGuild_def Guild_new_def
  guild_row_of_def GUILD_RANKS_MAX_COUNT_def GUILD_MAX_MEMBERS_def GUILD_INFO_MAX_LENGTH_def GUILD_MOTD_MAX_LENGTH_def
  GR_RIGHT_ALL_def GR_RIGHT_GCHATLISTEN_def GR_RIGHT_GCHATSPEAK_def GR_GUILDMASTER_def
  HandleGuildInviteOpcode_def own_guild_def GetGuildById_def guild_invite_def HasRankRight_def GetRankRights_def
  GR_RIGHT_INVITE_def GR_RIGHT_EMPTY_def usend_def store_guild_def LogGuildEvent_def put_guild_def table_adjust_def
  GUILD_EVENTLOG_MAX_RECORDS_def HandleGuildAcceptOpcode_def GetLowestRank_def BroadcastEvent_def BroadcastPacket_guild_def
  GetMemberSlot_def HandleGuildPromoteOpcode_def on_member_def GR_RIGHT_PROMOTE_def GetMemberSlot_name_def change_rank_def
  ChangeRank_def upd_member_def sql_member_def set_player_rank_def

lemma sample_ustart: "guild_start sample_ufresh"
  by (simp add: guild_start_def sample_ufresh_def)

lemma step_then: "guild_step\<^sup>*\<^sup>* w0 w \<Longrightarrow> guild_step w w' \<Longrightarrow> guild_step\<^sup>*\<^sup>* w0 w'"
  by (rule rtranclp.rtrancl_into_rtrancl)

lemma sample_founded_steps: "guild_step\<^sup>*\<^sup>* sample_ufresh sample_founded"
proof -
  let ?w = "guild_login 3 (sample_upl 3) (guild_login 2 (sample_upl 2) (guild_login 1 (sample_upl 1) sample_ufresh))"
  have world: "pl_inWorld (sample_upl n)" for n by (simp add: sample_upl_def)
  have "guild_step\<^sup>*\<^sup>* sample_ufresh ?w"
    by (intro step_then [OF _ us_login] world) simp_all
  moreover have "gu_nextId ?w < 0xFFFFFFFE" by code_simp
  ultimately show ?thesis unfolding sample_founded_def by (intro step_then [OF _ us_create])
qed

lemma sample_world_steps: "guild_step\<^sup>*\<^sup>* sample_ufresh sample_guild_world"
  unfolding sample_guild_world_def sample_joined_def
  by (intro step_then [OF _ us_promote] step_then [OF _ us_accept] step_then [OF _ us_invite] sample_founded_steps)

section \<open>The state\<close>

lemma reached_ok: "guild_start w0 \<Longrightarrow> guild_step\<^sup>*\<^sup>* w0 w \<Longrightarrow> guild_ok w"
  by (rule gl.inv_reachable)

lemma lookup_coh: "guild_ok w \<Longrightarrow> GetGuildById i w = Some g \<Longrightarrow> coh ((map_of (gu_map w))(i \<mapsto> g)) w"
  using open_guild opened_def by blast

text \<open>
  C3: in every state the server reaches (uses excepted that the step relation names), every guild
  has exactly one member with the rank of the guild master, its leader; a member of a guild is in
  no other, the manager finds his guild by his GUID, and when he is in memory he carries the
  guild's id and his rank there; conversely, a player who carries a guild id is a member of that
  guild; no two guilds have the same name.
\<close>

theorem guilds_consistent:
  assumes "guild_start w0" and "guild_step\<^sup>*\<^sup>* w0 w"
  shows "(\<forall>i g. GetGuildById i w = Some g \<longrightarrow>
      gd_Id g = i \<and> GetMemberSlot (gd_LeaderGuid g) g \<noteq> None \<and>
      (\<forall>j h. GetGuildById j w = Some h \<longrightarrow> gd_Name h = gd_Name g \<longrightarrow> j = i) \<and>
      (\<forall>k s. GetMemberSlot k g = Some s \<longrightarrow>
        gm_guid s = k \<and> (gm_RankId s = GR_GUILDMASTER \<longleftrightarrow> k = gd_LeaderGuid g) \<and> GetPlayerGuild k w = Some g \<and>
        (\<forall>j h. GetGuildById j w = Some h \<longrightarrow> GetMemberSlot k h \<noteq> None \<longrightarrow> j = i) \<and>
        (\<forall>pl. gu_players w k = Some pl \<longrightarrow> pl_guildId pl = i \<and> pl_rank pl = gm_RankId s))) \<and>
    (\<forall>k pl. gu_players w k = Some pl \<longrightarrow> pl_guildId pl \<noteq> 0 \<longrightarrow>
      (\<exists>g. GetGuildById (pl_guildId pl) w = Some g \<and> GetMemberSlot k g \<noteq> None))"
proof -
  have ok: "guild_ok w" by (rule reached_ok [OF assms])
  have c: "coh (map_of (gu_map w)) w" using ok by (simp add: guild_ok_def)
  show ?thesis
  proof (intro conjI allI impI)
    fix i g assume g: "GetGuildById i w = Some g"
    note o = open_guild [OF ok g] and ci = lookup_coh [OF ok g]
    show "gd_Id g = i" "GetMemberSlot (gd_LeaderGuid g) g \<noteq> None"
      using o by (auto simp: gd_ok_def guild_members_ok_def GetMemberSlot_def)
    show "j = i" if "GetGuildById j w = Some h" "gd_Name h = gd_Name g" for j h
      using that g ok unfolding guild_ok_def GetGuildById_def by blast
    fix k s assume s: "GetMemberSlot k g = Some s"
    note m = s [unfolded GetMemberSlot_def]
    show "gm_guid s = k" "gm_RankId s = GR_GUILDMASTER \<longleftrightarrow> k = gd_LeaderGuid g"
      using gd_member [OF conjunct2 [OF o] m] by (simp_all add: rank_sound_def)
    have ca: "gu_cache w k = Some i" by (rule coh_cache [OF ci m])
    then show "GetPlayerGuild k w = Some g" by (simp add: GetPlayerGuild_def g)
    show "j = i" if h: "GetGuildById j w = Some h" "GetMemberSlot k h \<noteq> None" for j h
    proof -
      obtain t where "map_of (gd_members h) k = Some t" using h(2) by (auto simp: GetMemberSlot_def)
      then have "gu_cache w k = Some j" by (rule coh_cache [OF lookup_coh [OF ok h(1)]])
      then show "j = i" using ca by simp
    qed
    show "pl_guildId pl = i" "pl_rank pl = gm_RankId s" if "gu_players w k = Some pl" for pl
      using member_seen [OF ci m that] by blast+
  next
    fix k pl assume p: "gu_players w k = Some pl" and n: "pl_guildId pl \<noteq> 0"
    have ca: "gu_cache w k = Some (pl_guildId pl)"
      using coh_sees [OF c p] n by (auto simp: player_sees_def split: option.splits)
    show "\<exists>g. GetGuildById (pl_guildId pl) w = Some g \<and> GetMemberSlot k g \<noteq> None"
      by (rule cached_guild [OF ok ca]) (auto simp: GetGuildById_def GetMemberSlot_def)
  qed
qed

definition founded_and_joined :: "guild_world \<Rightarrow> bool" where
  "founded_and_joined w \<longleftrightarrow>
     (case GetGuildById 1 w of
        None \<Rightarrow> False
      | Some g \<Rightarrow> map fst (gd_members g) = [1, 2, 3] \<and> map (gm_RankId \<circ> snd) (gd_members g) = [0, 3, 4] \<and> gd_LeaderGuid g = 1)"


lemma sample_facts: "founded_and_joined sample_guild_world"
  by (simp add: sample_guild_world_def sample_joined_def sample_founded_def founded_and_joined_def guild_eval Let_def
      word_le_nat_alt)

lemma sample_guild:
  obtains g where "GetGuildById 1 sample_guild_world = Some g" "map fst (gd_members g) = [1, 2, 3]"
    "map (gm_RankId \<circ> snd) (gd_members g) = [0, 3, 4]" "gd_LeaderGuid g = 1"
  using sample_facts by (auto simp: founded_and_joined_def split: option.splits)

lemma sample_member_ranks:
  "map fst t = [1, 2, 3] \<Longrightarrow> map (gm_RankId \<circ> snd) t = [0, 3, 4] \<Longrightarrow>
    \<exists>a b c. map_of t (1 :: u32) = Some a \<and> map_of t 2 = Some b \<and> map_of t 3 = Some c \<and>
      gm_RankId a = 0 \<and> gm_RankId b = 3 \<and> gm_RankId c = 4"
  by (auto simp: map_eq_Cons_conv)

theorem guilds_consistent_witness:
  "case GetGuildById 1 sample_guild_world of None \<Rightarrow> False
   | Some g \<Rightarrow> GetMemberSlot (gd_LeaderGuid g) g \<noteq> None \<and> GetPlayerGuild 2 sample_guild_world = Some g \<and>
      (case GetMemberSlot 2 g of None \<Rightarrow> False | Some s \<Rightarrow> gm_RankId s = 3 \<and> gm_RankId s \<noteq> GR_GUILDMASTER)"
proof -
  obtain g where g: "GetGuildById 1 sample_guild_world = Some g" "map fst (gd_members g) = [1, 2, 3]"
    "map (gm_RankId \<circ> snd) (gd_members g) = [0, 3, 4]" "gd_LeaderGuid g = 1" by (rule sample_guild)
  obtain s where s: "GetMemberSlot 2 g = Some s" "gm_RankId s = 3"
    using sample_member_ranks [OF g(2,3)] by (auto simp: GetMemberSlot_def)
  note C = conjunct1 [OF guilds_consistent [OF sample_ustart sample_world_steps], rule_format, OF g(1)]
  have "GetPlayerGuild 2 sample_guild_world = Some g" "GetMemberSlot (gd_LeaderGuid g) g \<noteq> None"
    "gm_RankId s \<noteq> GR_GUILDMASTER" using C s(1) g(4) by auto
  then show ?thesis by (simp add: g(1) s)
qed

text \<open>
  C5: in every state that is reached without the five uses that \<open>guild_step\<close> leaves out, the tables
  describe the guilds: the rows of members are exactly the members of the guilds, with rank and
  notes; there is a row for each guild and for nothing else, with its name, leader, texts and
  emblem; and the rows of ranks are exactly the ranks, in their order. The uses left out are a
  member who declines an invitation, a leader who hands the guild to himself, a game master who
  gives or takes the rank of the guild master, a new member who is in another guild and not in
  memory, and a new guild when the ids have run out; \<open>GuildReach\<close> and \<open>GuildFindings\<close> show what they do.
\<close>

theorem guild_tables_mirror:
  assumes "guild_start w0" and "guild_step\<^sup>*\<^sup>* w0 w"
  shows "(\<forall>k r. gu_member_rows w k = Some r \<longleftrightarrow>
      (\<exists>g s. GetGuildById (gmr_guildid r) w = Some g \<and> GetMemberSlot k g = Some s \<and>
         gmr_rank r = gm_RankId s \<and> gmr_pnote r = gm_Pnote s \<and> gmr_offnote r = gm_OFFnote s)) \<and>
    (\<forall>i. gu_rows w i = None \<longleftrightarrow> GetGuildById i w = None) \<and>
    (\<forall>i g row. GetGuildById i w = Some g \<longrightarrow> gu_rows w i = Some row \<longrightarrow>
      gr_name row = gd_Name g \<and> gr_leaderguid row = gd_LeaderGuid g \<and> gr_info row = gd_GINFO g \<and> gr_motd row = gd_MOTD g \<and>
      gr_emblem row = gd_Emblem g) \<and>
    (\<forall>i r ri. gu_rank_rows w i r = Some ri \<longleftrightarrow>
      (\<exists>g. GetGuildById i w = Some g \<and> unat r < length (gd_Ranks g) \<and> gd_Ranks g ! unat r = ri))"
proof -
  have ok: "guild_ok w" by (rule reached_ok [OF assms])
  have c: "coh (map_of (gu_map w)) w" using ok by (simp add: guild_ok_def)
  have house: "house_ok i (GetGuildById i w) (gu_rows w i) (gu_rank_rows w i) (gu_nextId w)" for i
    using c unfolding coh_def GetGuildById_def by blast
  show ?thesis
  proof (intro conjI allI)
    fix k r
    show "gu_member_rows w k = Some r \<longleftrightarrow>
      (\<exists>g s. GetGuildById (gmr_guildid r) w = Some g \<and> GetMemberSlot k g = Some s \<and>
         gmr_rank r = gm_RankId s \<and> gmr_pnote r = gm_Pnote s \<and> gmr_offnote r = gm_OFFnote s)" (is "?l \<longleftrightarrow> ?r")
    proof
      assume l: ?l
      obtain i where i: "gu_cache w k = Some i" using coh_person [OF c, of k] l by (auto simp: person_ok_def split: option.splits)
      obtain g s where g: "map_of (gu_map w) i = Some g" "map_of (gd_members g) k = Some s" by (rule cached_guild [OF ok i])
      then have "r = guild_member_row_of i s" using coh_row [OF lookup_coh [OF ok], of i g k s] l by (simp add: GetGuildById_def)
      then show ?r using g by (auto simp: guild_member_row_of_def GetGuildById_def GetMemberSlot_def)
    next
      assume ?r
      then obtain g s where g: "GetGuildById (gmr_guildid r) w = Some g" "map_of (gd_members g) k = Some s" "r = guild_member_row_of (gmr_guildid r) s"
        by (auto simp: guild_member_row_of_def GetMemberSlot_def)
      show ?l using coh_row [OF lookup_coh [OF ok g(1)] g(2)] g(3) by simp
    qed
  next
    fix i show "gu_rows w i = None \<longleftrightarrow> GetGuildById i w = None" using house [of i] by (auto simp: house_ok_def split: option.splits)
  next
    fix i g row show "GetGuildById i w = Some g \<longrightarrow> gu_rows w i = Some row \<longrightarrow>
      gr_name row = gd_Name g \<and> gr_leaderguid row = gd_LeaderGuid g \<and> gr_info row = gd_GINFO g \<and> gr_motd row = gd_MOTD g \<and>
      gr_emblem row = gd_Emblem g"
      using house [of i] by (auto simp: house_ok_def guild_row_of_def)
  next
    fix i r ri show "gu_rank_rows w i r = Some ri \<longleftrightarrow>
      (\<exists>g. GetGuildById i w = Some g \<and> unat r < length (gd_Ranks g) \<and> gd_Ranks g ! unat r = ri)"
      using house [of i] by (auto simp: house_ok_def rank_at_def split: option.splits)
  qed
qed

theorem guild_tables_mirror_witness:
  "(case gu_member_rows sample_guild_world 2 of None \<Rightarrow> False | Some r \<Rightarrow> gmr_guildid r = 1 \<and> gmr_rank r = 3) \<and>
   gu_rows sample_guild_world 1 \<noteq> None \<and> gu_rows sample_guild_world 2 = None"
proof -
  obtain g where g: "GetGuildById 1 sample_guild_world = Some g" "map fst (gd_members g) = [1, 2, 3]"
    "map (gm_RankId \<circ> snd) (gd_members g) = [0, 3, 4]" by (rule sample_guild)
  obtain s where s: "GetMemberSlot 2 g = Some s" "gm_RankId s = 3"
    using sample_member_ranks [OF g(2,3)] by (auto simp: GetMemberSlot_def)
  note T = guild_tables_mirror [OF sample_ustart sample_world_steps]
  let ?r = "\<lparr>gmr_guildid = 1, gmr_rank = 3, gmr_pnote = gm_Pnote s, gmr_offnote = gm_OFFnote s\<rparr>"
  have "gu_member_rows sample_guild_world 2 = Some ?r" using conjunct1 [OF T] g(1) s by simp
  moreover have "GetGuildById 2 sample_guild_world = None"
    by (simp add: sample_guild_world_def sample_joined_def sample_founded_def guild_eval Let_def word_le_nat_alt)
  ultimately show ?thesis using conjunct1 [OF conjunct2 [OF T]] g(1) by simp
qed

section \<open>Bounds\<close>

text \<open>
  C17: a guild has at most 321 members, so that its roster names all of them; it has between five
  and ten ranks, the first of which keeps all rights; no member has a rank number above nine, the
  event log holds at most a hundred entries, and the number of accounts a guild reports is the
  number of different accounts of its members.
\<close>

theorem guild_bounds:
  assumes "guild_start w0" and "guild_step\<^sup>*\<^sup>* w0 w" and "GetGuildById i w = Some g"
  shows "GetMemberSize g \<le> GUILD_MAX_MEMBERS \<and> min (length (gd_members g)) GUILD_MAX_MEMBERS = GetMemberSize g \<and>
    GUILD_RANKS_MIN_COUNT \<le> GetRanksSize g \<and> GetRanksSize g \<le> GUILD_RANKS_MAX_COUNT \<and>
    GetRankRights GR_GUILDMASTER g = GR_RIGHT_ALL \<and> unat (GetLowestRank g) = GetRanksSize g - 1 \<and>
    (\<forall>k s. GetMemberSlot k g = Some s \<longrightarrow> unat (gm_RankId s) < GUILD_RANKS_MAX_COUNT) \<and>
    length (gd_log g) \<le> GUILD_EVENTLOG_MAX_RECORDS \<and>
    unat (fst (GetAccountsNumber g)) = card (set (map (gm_accountId \<circ> snd) (gd_members g)))"
proof -
  have ok: "gd_ok i g" using open_guild [OF reached_ok [OF assms(1,2)] assms(3)] by blast
  then have m: "guild_members_ok g" and r: "ranks_ok g" and a: "accounts_ok g" by (simp_all add: gd_ok_def)
  let ?n = "card (set (map (gm_accountId \<circ> snd) (gd_members g)))"
  have "?n \<le> length (gd_members g)" by (metis card_length length_map)
  then have "?n < 0x1000" using m by (simp add: guild_members_ok_def GUILD_MAX_MEMBERS_def GUILD_RANKS_MAX_COUNT_def
      GUILD_INFO_MAX_LENGTH_def GUILD_MOTD_MAX_LENGTH_def)
  moreover have "fst (GetAccountsNumber g) = of_nat ?n" using a by (auto simp: accounts_ok_def GetAccountsNumber_def Let_def)
  ultimately have acc: "unat (fst (GetAccountsNumber g)) = ?n" by (simp only: unat_count)
  have len: "0 < length (gd_Ranks g)" using r by (auto simp: ranks_ok_def GUILD_RANKS_MIN_COUNT_def)
  show ?thesis using ok m r acc lowest_rank [OF r] gd_member [OF ok] len
    by (auto simp: gd_ok_def guild_members_ok_def ranks_ok_def GetMemberSize_def GetRanksSize_def GetRankRights_def GR_GUILDMASTER_def
        GetMemberSlot_def rank_sound_def)
qed

theorem guild_bounds_witness:
  "case GetGuildById 1 sample_guild_world of None \<Rightarrow> False
   | Some g \<Rightarrow> GetMemberSize g = 3 \<and> GetMemberSize g \<le> GUILD_MAX_MEMBERS \<and> GetRankRights GR_GUILDMASTER g = GR_RIGHT_ALL \<and>
      unat (fst (GetAccountsNumber g)) = card (set (map (gm_accountId \<circ> snd) (gd_members g)))"
proof -
  obtain g where g: "GetGuildById 1 sample_guild_world = Some g" "map fst (gd_members g) = [1, 2, 3]" by (rule sample_guild)
  have "length (map fst (gd_members g)) = 3" unfolding g(2) by simp
  then have "GetMemberSize g = 3" by (simp add: GetMemberSize_def)
  then show ?thesis using guild_bounds [OF sample_ustart sample_world_steps g(1)] by (simp add: g(1))
qed

end
