(* ===== verification/GuildPower.thy ===== *)
theory GuildPower
  imports GuildProps
begin

text \<open>
  What the rights and ranks of a guild mean for its members: who can change what, who can touch
  whom, what the end of a guild and the end of its leader's character leave behind.
\<close>

section \<open>Rights\<close>

definition only_sends :: "guild_world \<Rightarrow> guild_world \<Rightarrow> bool" where
  "only_sends w w' \<longleftrightarrow> (\<exists>out. w' = w\<lparr>gu_out := out\<rparr>)"

lemma sends_refl [simp]: "only_sends w w"
proof -
  have "w = w\<lparr>gu_out := gu_out w\<rparr>" by simp
  then show ?thesis unfolding only_sends_def by blast
qed

lemma sends_answers [simp]:
  "only_sends w (SendGuildCommandResult c str r p w)" "only_sends w (not_in_guild p w)" "only_sends w (no_permission p w)"
  "only_sends w (SendSaveGuildEmblem m p w)"
  by (auto simp: only_sends_def SendGuildCommandResult_def not_in_guild_def no_permission_def SendSaveGuildEmblem_def usend_def)

text \<open>The player is in a guild that exists, with a rank that has the right; he leads his guild.\<close>

definition may :: "u32 \<Rightarrow> u32 \<Rightarrow> guild_world \<Rightarrow> bool" where
  "may p right w \<longleftrightarrow>
     (case gu_players w p of
        None \<Rightarrow> False
      | Some me \<Rightarrow> (case own_guild me w of None \<Rightarrow> False | Some g \<Rightarrow> HasRankRight (pl_rank me) right g))"

definition leads :: "u32 \<Rightarrow> guild_world \<Rightarrow> bool" where
  "leads p w \<longleftrightarrow>
     (case gu_players w p of
        None \<Rightarrow> False | Some me \<Rightarrow> (case own_guild me w of None \<Rightarrow> False | Some g \<Rightarrow> gd_LeaderGuid g = p))"

lemma member_needs: "\<not> may p right w \<Longrightarrow> only_sends w (on_member env right p n k w)"
  by (auto simp: may_def on_member_def split: option.splits)

lemma own_needs:
  assumes "\<And>me g. gu_players w p = Some me \<Longrightarrow> own_guild me w = Some g \<Longrightarrow> only_sends w (k me g)"
  shows "only_sends w (on_own_guild p k w)"
  using assms by (simp add: on_own_guild_def split: option.split)

text \<open>
  The player is in no guild, or in one where he has a rank that exists and that does not grant the
  right: none of the right's own bits is set in it. The bit of \<^verbatim>\<open>GR_RIGHT_EMPTY\<close> is set, as in the
  ranks a guild is made with and in those added to it; without it the test of the code lets
  everybody through, see \<open>GuildFindings\<close>.
\<close>

definition denied :: "u32 \<Rightarrow> u32 \<Rightarrow> guild_world \<Rightarrow> bool" where
  "denied p right w \<longleftrightarrow>
     (case gu_players w p of
        None \<Rightarrow> True
      | Some me \<Rightarrow>
          (case own_guild me w of
             None \<Rightarrow> True
           | Some g \<Rightarrow>
               unat (pl_rank me) < length (gd_Ranks g) \<and>
               (let granted = ri_Rights (gd_Ranks g ! unat (pl_rank me))
                in granted AND GR_RIGHT_EMPTY = GR_RIGHT_EMPTY \<and> granted AND right AND NOT GR_RIGHT_EMPTY = 0)))"

lemma no_bit_empty:
  fixes x r e :: u32
  assumes "x AND e = e" "r AND e = e" "x AND r AND NOT e = 0"
  shows "x AND r = e"
proof -
  have "x AND r = (x AND r AND e) OR (x AND r AND NOT e)" by (simp add: bit_eq_iff bit_simps) blast
  then show ?thesis using assms by (simp add: and.assoc)
qed

lemma rights_mark:
  "GR_RIGHT_INVITE AND GR_RIGHT_EMPTY = GR_RIGHT_EMPTY" "GR_RIGHT_REMOVE AND GR_RIGHT_EMPTY = GR_RIGHT_EMPTY"
  "GR_RIGHT_PROMOTE AND GR_RIGHT_EMPTY = GR_RIGHT_EMPTY" "GR_RIGHT_DEMOTE AND GR_RIGHT_EMPTY = GR_RIGHT_EMPTY"
  "GR_RIGHT_EPNOTE AND GR_RIGHT_EMPTY = GR_RIGHT_EMPTY" "GR_RIGHT_EOFFNOTE AND GR_RIGHT_EMPTY = GR_RIGHT_EMPTY"
  "GR_RIGHT_SETMOTD AND GR_RIGHT_EMPTY = GR_RIGHT_EMPTY" "GR_RIGHT_MODIFY_GUILD_INFO AND GR_RIGHT_EMPTY = GR_RIGHT_EMPTY"
  by (simp_all add: GR_RIGHT_INVITE_def GR_RIGHT_EMPTY_def GR_RIGHT_REMOVE_def GR_RIGHT_PROMOTE_def GR_RIGHT_DEMOTE_def
      GR_RIGHT_EPNOTE_def GR_RIGHT_EOFFNOTE_def GR_RIGHT_SETMOTD_def GR_RIGHT_MODIFY_GUILD_INFO_def)

lemma denied_may: "denied p right w \<Longrightarrow> right AND GR_RIGHT_EMPTY = GR_RIGHT_EMPTY \<Longrightarrow> \<not> may p right w"
  using no_bit_empty [of _ GR_RIGHT_EMPTY right]
  by (cases "gu_players w p"; cases "own_guild (the (gu_players w p)) w")
    (simp_all add: denied_def may_def HasRankRight_def GetRankRights_def Let_def and.assoc)

text \<open>
  C10: nothing but an answer comes of a request the member has not been granted. A player whose
  rank exists, has the bit of the empty right as every newly made rank has, and sets none of the
  bits of the right to invite, remove, promote, demote, edit notes, set the message of the day
  or the guild text, or who is in no guild, leaves every guild, player and table as it was by such
  a request; and only the leader can disband the guild, hand it over, add, delete or change ranks,
  or change the emblem. Left out are members whose rank has been deleted, and ranks that a leader
  has set to rights without that bit: the code grants them every right, as \<open>GuildFindings\<close> shows.
\<close>

theorem guild_requests_need_rights:
  "(denied p GR_RIGHT_INVITE w \<longrightarrow> only_sends w (HandleGuildInviteOpcode env p n w)) \<and>
   (denied p GR_RIGHT_REMOVE w \<longrightarrow> only_sends w (HandleGuildRemoveOpcode env p n w)) \<and>
   (denied p GR_RIGHT_PROMOTE w \<longrightarrow> only_sends w (HandleGuildPromoteOpcode env p n w)) \<and>
   (denied p GR_RIGHT_DEMOTE w \<longrightarrow> only_sends w (HandleGuildDemoteOpcode env p n w)) \<and>
   (denied p GR_RIGHT_EPNOTE w \<longrightarrow> only_sends w (HandleGuildSetPublicNoteOpcode env p n t w)) \<and>
   (denied p GR_RIGHT_EOFFNOTE w \<longrightarrow> only_sends w (HandleGuildSetOfficerNoteOpcode env p n t w)) \<and>
   (denied p GR_RIGHT_SETMOTD w \<longrightarrow> only_sends w (HandleGuildMOTDOpcode p t w)) \<and>
   (denied p GR_RIGHT_MODIFY_GUILD_INFO w \<longrightarrow> only_sends w (HandleGuildChangeInfoTextOpcode p t w)) \<and>
   (\<not> leads p w \<longrightarrow> only_sends w (HandleGuildDisbandOpcode p w)) \<and>
   (\<not> leads p w \<longrightarrow> only_sends w (HandleGuildLeaderOpcode env p n w)) \<and>
   (\<not> leads p w \<longrightarrow> only_sends w (HandleGuildRankOpcode env p r x n w)) \<and>
   (\<not> leads p w \<longrightarrow> only_sends w (HandleGuildAddRankOpcode env p n w)) \<and>
   (\<not> leads p w \<longrightarrow> only_sends w (HandleGuildDelRankOpcode env p w)) \<and>
   (\<not> leads p w \<longrightarrow> only_sends w (HandleSaveGuildEmblemOpcode vendor p e w))"
proof (intro conjI impI)
  show "only_sends w (HandleGuildInviteOpcode env p n w)" if "denied p GR_RIGHT_INVITE w"
    using denied_may [OF that] rights_mark by (auto simp: may_def HandleGuildInviteOpcode_def guild_invite_def Let_def split: option.split)
  show "only_sends w (HandleGuildRemoveOpcode env p n w)" if "denied p GR_RIGHT_REMOVE w"
    using denied_may [OF that] rights_mark by (auto simp: may_def HandleGuildRemoveOpcode_def split: option.split)
  show "only_sends w (HandleGuildPromoteOpcode env p n w)" if "denied p GR_RIGHT_PROMOTE w"
    using denied_may [OF that] rights_mark by (simp add: HandleGuildPromoteOpcode_def member_needs)
  show "only_sends w (HandleGuildDemoteOpcode env p n w)" if "denied p GR_RIGHT_DEMOTE w"
    using denied_may [OF that] rights_mark by (simp add: HandleGuildDemoteOpcode_def member_needs)
  show "only_sends w (HandleGuildSetPublicNoteOpcode env p n t w)" if "denied p GR_RIGHT_EPNOTE w"
    using denied_may [OF that] rights_mark by (simp add: HandleGuildSetPublicNoteOpcode_def member_needs)
  show "only_sends w (HandleGuildSetOfficerNoteOpcode env p n t w)" if "denied p GR_RIGHT_EOFFNOTE w"
    using denied_may [OF that] rights_mark by (simp add: HandleGuildSetOfficerNoteOpcode_def member_needs)
  show "only_sends w (HandleGuildMOTDOpcode p t w)" if "denied p GR_RIGHT_SETMOTD w"
    using denied_may [OF that] rights_mark by (auto simp: HandleGuildMOTDOpcode_def may_def intro!: own_needs)
  show "only_sends w (HandleGuildChangeInfoTextOpcode p t w)" if "denied p GR_RIGHT_MODIFY_GUILD_INFO w"
    using denied_may [OF that] rights_mark by (auto simp: HandleGuildChangeInfoTextOpcode_def may_def intro!: own_needs)
  show "only_sends w (HandleGuildDisbandOpcode p w)" if "\<not> leads p w"
    using that by (auto simp: leads_def HandleGuildDisbandOpcode_def split: option.split)
  show "only_sends w (HandleGuildLeaderOpcode env p n w)" if "\<not> leads p w"
    using that by (auto simp: HandleGuildLeaderOpcode_def leads_def intro!: own_needs split: option.split)
  show "only_sends w (HandleGuildRankOpcode env p r x n w)" if "\<not> leads p w"
    using that by (auto simp: HandleGuildRankOpcode_def leads_def intro!: own_needs split: option.split)
  show "only_sends w (HandleGuildAddRankOpcode env p n w)" if "\<not> leads p w"
    using that by (auto simp: HandleGuildAddRankOpcode_def leads_def intro!: own_needs split: option.split)
  show "only_sends w (HandleGuildDelRankOpcode env p w)" if "\<not> leads p w"
    using that by (auto simp: HandleGuildDelRankOpcode_def leads_def intro!: own_needs split: option.split)
  show "only_sends w (HandleSaveGuildEmblemOpcode vendor p e w)" if "\<not> leads p w"
    using that by (auto simp: leads_def HandleSaveGuildEmblemOpcode_def split: option.split)
qed

theorem guild_requests_need_rights_witness:
  "only_sends sample_guild_world (HandleGuildRemoveOpcode sample_uenv 2 [3] sample_guild_world) \<and>
   only_sends sample_guild_world (HandleGuildDisbandOpcode 2 sample_guild_world)"
proof -
  have m: "denied 2 GR_RIGHT_REMOVE sample_guild_world"
    by (simp add: denied_def GR_RIGHT_REMOVE_def GR_RIGHT_EMPTY_def sample_guild_world_def sample_joined_def sample_founded_def guild_eval Let_def word_le_nat_alt)
  have l: "\<not> leads 2 sample_guild_world"
    by (simp add: leads_def sample_guild_world_def sample_joined_def sample_founded_def guild_eval Let_def word_le_nat_alt)
  show ?thesis using guild_requests_need_rights [of 2 sample_guild_world] m l by blast
qed

section \<open>Ranks\<close>

text \<open>The rank number of player \<open>k\<close> in guild \<open>i\<close>; a smaller number is a higher rank.\<close>

definition rank_in :: "u32 \<Rightarrow> u32 \<Rightarrow> guild_world \<Rightarrow> u32 option" where
  "rank_in i k w = (case GetGuildById i w of None \<Rightarrow> None | Some g \<Rightarrow> map_option gm_RankId (GetMemberSlot k g))"

lemma rank_in_sends [simp]: "same_view w w' \<Longrightarrow> rank_in i k w' = rank_in i k w"
  by (simp add: rank_in_def GetGuildById_def same_view_def)

lemma rank_in_own: "own_guild me w = Some g \<Longrightarrow> rank_in (pl_guildId me) k w = map_option gm_RankId (GetMemberSlot k g)"
  by (simp add: rank_in_def own_guild_def)

lemma rank_in_stored:
  assumes "gd_Id g' = i" "map_of (gu_map w') i \<noteq> None"
  shows "rank_in i k (store_guild (g', w')) = map_option gm_RankId (GetMemberSlot k g')"
  using assms by (auto simp: rank_in_def GetGuildById_def store_guild_def put_guild_def map_of_table_adjust)

lemma change_rank_effect:
  assumes o: "opened i g w" and m: "map_of (gu_map w) i = Some g0" and s: "map_of (gd_members g) (gm_guid slot) = Some slot"
  shows "rank_in i k (change_rank env ty ev p me name slot r g w) =
    (if k = gm_guid slot then Some r else map_option gm_RankId (GetMemberSlot k g))"
proof -
  let ?a = "ChangeRank (gm_guid slot) r g w"
  let ?b = "LogGuildEvent env ty p (gm_guid slot) r (fst ?a) (snd ?a)"
  have "gd_Id g = i" using o by (simp add: opened_def)
  then have id: "gd_Id (fst ?b) = i" by (simp add: LogGuildEvent_def ChangeRank_def upd_member_def Let_def)
  have mem: "gd_members (fst ?b) = table_adjust (gm_guid slot) (\<lambda>s. s\<lparr>gm_RankId := r\<rparr>) (gd_members g)"
    by (simp add: LogGuildEvent_def ChangeRank_def upd_member_def Let_def)
  have "rank_in i k (store_guild (fst ?b, BroadcastEvent ev 0 [pl_name me, name, GetRankName r (fst ?b)] (fst ?b) (snd ?b))) =
      map_option gm_RankId (GetMemberSlot k (fst ?b))"
    by (rule rank_in_stored [OF id]) (simp add: m)
  then show ?thesis by (simp add: change_rank_def split_beta Let_def GetMemberSlot_def mem map_of_table_adjust s)
qed

text \<open>A request on a member by name changes nothing or comes to its last part.\<close>

lemma on_member_cases:
  assumes "gu_players w p = Some me" "own_guild me w = Some g"
  obtains "same_view w (on_member env right p n kk w)"
  | name slot where "GetMemberSlot_name name g = Some slot" "on_member env right p n kk w = kk me name slot g"
      "HasRankRight (pl_rank me) right g"
proof -
  have "same_view w (on_member env right p n kk w) \<or> (\<exists>name slot. GetMemberSlot_name name g = Some slot \<and>
      on_member env right p n kk w = kk me name slot g \<and> HasRankRight (pl_rank me) right g)"
    using assms by (cases "ue_normalize env n"; cases "GetMemberSlot_name (the (ue_normalize env n)) g")
      (auto simp: on_member_def)
  then show thesis using that by blast
qed

lemma rank_kept:
  "own_guild me w = Some g \<Longrightarrow> GetMemberSlot k g = Some s \<Longrightarrow> same_view w w' \<Longrightarrow> rank_in (pl_guildId me) k w' = Some (gm_RankId s)"
  using rank_in_own [of me w g k] by simp

text \<open>Promotion and demotion, as changes of one rank number.\<close>

lemma promote_effect:
  assumes ok: "guild_ok w" and p: "gu_players w p = Some me" and g: "own_guild me w = Some g" and s: "GetMemberSlot k g = Some s"
  shows "rank_in (pl_guildId me) k (HandleGuildPromoteOpcode env p n w) = Some (gm_RankId s) \<or>
    rank_in (pl_guildId me) k (HandleGuildPromoteOpcode env p n w) = Some (gm_RankId s - 1) \<and> pl_rank me + 1 < gm_RankId s"
proof (cases rule: on_member_cases [OF p g, of env GR_RIGHT_PROMOTE n "\<lambda>me name slot g.
    if gm_guid slot = p then SendGuildCommandResult GUILD_INVITE_S [] ERR_GUILD_NAME_INVALID p w
    else if gm_RankId slot \<le> pl_rank me + 1 then SendGuildCommandResult GUILD_INVITE_S name ERR_GUILD_RANK_TOO_HIGH_S p w
    else change_rank env LOG_PROMOTE_PLAYER GE_PROMOTION p me name slot (gm_RankId slot - 1) g w"])
  case 1
  then show ?thesis unfolding HandleGuildPromoteOpcode_def by (intro disjI1 rank_kept [OF g s])
next
  case (2 name slot)
  let ?i = "pl_guildId me"
  obtain s0 where o: "opened ?i g w" "gd_ok ?i g" "map_of (gu_map w) ?i = Some g" by (rule own_opened [OF ok p g])
  have m: "map_of (gd_members g) (gm_guid slot) = Some slot" by (rule named_member [OF o(2) 2(1)])
  show ?thesis
  proof (cases "gm_guid slot = p \<or> gm_RankId slot \<le> pl_rank me + 1")
    case True
    then show ?thesis unfolding HandleGuildPromoteOpcode_def 2(2) by (intro disjI1 rank_kept [OF g s]) auto
  next
    case False
    have "s = slot" if "k = gm_guid slot" using s m that by (simp add: GetMemberSlot_def)
    then show ?thesis unfolding HandleGuildPromoteOpcode_def 2(2) using False s by (auto simp: change_rank_effect [OF o(1,3) m])
  qed
qed

lemma demote_effect:
  assumes ok: "guild_ok w" and p: "gu_players w p = Some me" and g: "own_guild me w = Some g" and s: "GetMemberSlot k g = Some s"
  shows "rank_in (pl_guildId me) k (HandleGuildDemoteOpcode env p n w) = Some (gm_RankId s) \<or>
    rank_in (pl_guildId me) k (HandleGuildDemoteOpcode env p n w) = Some (gm_RankId s + 1) \<and> pl_rank me < gm_RankId s"
proof (cases rule: on_member_cases [OF p g, of env GR_RIGHT_DEMOTE n "\<lambda>me name slot g.
    if gm_guid slot = p then SendGuildCommandResult GUILD_INVITE_S [] ERR_GUILD_NAME_INVALID p w
    else if gm_RankId slot \<le> pl_rank me then SendGuildCommandResult GUILD_INVITE_S name ERR_GUILD_RANK_TOO_HIGH_S p w
    else if GetLowestRank g \<le> gm_RankId slot then SendGuildCommandResult GUILD_INVITE_S name ERR_GUILD_RANK_TOO_LOW_S p w
    else change_rank env LOG_DEMOTE_PLAYER GE_DEMOTION p me name slot (gm_RankId slot + 1) g w"])
  case 1
  then show ?thesis unfolding HandleGuildDemoteOpcode_def by (intro disjI1 rank_kept [OF g s])
next
  case (2 name slot)
  let ?i = "pl_guildId me"
  obtain s0 where o: "opened ?i g w" "gd_ok ?i g" "map_of (gu_map w) ?i = Some g" by (rule own_opened [OF ok p g])
  have m: "map_of (gd_members g) (gm_guid slot) = Some slot" by (rule named_member [OF o(2) 2(1)])
  show ?thesis
  proof (cases "gm_guid slot = p \<or> gm_RankId slot \<le> pl_rank me \<or> GetLowestRank g \<le> gm_RankId slot")
    case True
    then show ?thesis unfolding HandleGuildDemoteOpcode_def 2(2) by (intro disjI1 rank_kept [OF g s]) auto
  next
    case False
    have "s = slot" if "k = gm_guid slot" using s m that by (simp add: GetMemberSlot_def)
    then show ?thesis unfolding HandleGuildDemoteOpcode_def 2(2) using False s by (auto simp: change_rank_effect [OF o(1,3) m])
  qed
qed

text \<open>A removal takes one member of a lower rank, and the guild goes on.\<close>

lemma DelMember_other:
  assumes "gd_LeaderGuid g \<noteq> low" "guild_members_ok g"
  shows "DelMember low False g w = (False, UpdateAccountsNumber (fst (erase_member low g w)), snd (erase_member low g w))"
proof -
  have "map_of (table_erase low (gd_members g)) (gd_LeaderGuid g) \<noteq> None"
    using assms by (auto simp: guild_members_ok_def map_of_table_erase)
  then have "table_erase low (gd_members g) \<noteq> []" by auto
  then show ?thesis using assms(1) by (simp add: DelMember_def split_beta Let_def)
qed

lemma remove_effect:
  assumes ok: "guild_ok w" and p: "gu_players w p = Some me" and g: "own_guild me w = Some g" and s: "GetMemberSlot k g = Some s"
  shows "rank_in (pl_guildId me) k (HandleGuildRemoveOpcode env p n w) = Some (gm_RankId s) \<or>
    rank_in (pl_guildId me) k (HandleGuildRemoveOpcode env p n w) = None \<and> pl_rank me < gm_RankId s"
proof -
  let ?i = "pl_guildId me"
  obtain s0 where o: "opened ?i g w" "gd_ok ?i g" "map_of (gu_map w) ?i = Some g" by (rule own_opened [OF ok p g])
  have id: "gd_Id g = ?i" and mo: "guild_members_ok g" using o(2) by (simp_all add: gd_ok_def)
  let ?k = "\<lambda>slot name g1 w1. let (g2, w2) = LogGuildEvent env LOG_UNINVITE_PLAYER p (gm_guid slot) 0 g1 w1
      in store_guild (g2, BroadcastEvent GE_REMOVED 0 [name, pl_name me] g2 w2)"
  have removed: "rank_in ?i k (end_or (DelMember (gm_guid slot) False g w) (?k slot name)) =
      (if k = gm_guid slot then None else Some (gm_RankId s))"
    if n: "GetMemberSlot_name name g = Some slot" and r: "gm_RankId slot \<noteq> GR_GUILDMASTER" for slot name
  proof -
    have m: "map_of (gd_members g) (gm_guid slot) = Some slot" by (rule named_member [OF o(2) n])
    have "gd_LeaderGuid g \<noteq> gm_guid slot" using not_leader [OF o(2) m r] by simp
    note D = DelMember_other [OF this mo]
    let ?e = "erase_member (gm_guid slot) g w"
    let ?l = "LogGuildEvent env LOG_UNINVITE_PLAYER p (gm_guid slot) 0 (UpdateAccountsNumber (fst ?e)) (snd ?e)"
    have lg: "gd_Id (fst ?l) = ?i" "gd_members (fst ?l) = table_erase (gm_guid slot) (gd_members g)"
      by (simp_all add: LogGuildEvent_def UpdateAccountsNumber_def Let_def id)
    have "rank_in ?i k (store_guild (fst ?l, BroadcastEvent GE_REMOVED 0 [name, pl_name me] (fst ?l) (snd ?l))) =
        map_option gm_RankId (GetMemberSlot k (fst ?l))"
      by (rule rank_in_stored [OF lg(1)]) (simp add: o(3))
    then show ?thesis using s by (simp add: D end_or_def split_beta Let_def GetMemberSlot_def lg map_of_table_erase)
  qed
  have same: "same_view w w' \<Longrightarrow> rank_in ?i k w' = Some (gm_RankId s)" for w' by (rule rank_kept [OF g s])
  show ?thesis
  proof (cases "\<exists>name slot. ue_normalize env n = Some name \<and> pl_inWorld me \<and> HasRankRight (pl_rank me) GR_RIGHT_REMOVE g \<and>
      GetMemberSlot_name name g = Some slot \<and> gm_RankId slot \<noteq> GR_GUILDMASTER \<and> \<not> gm_RankId slot \<le> pl_rank me")
    case True
    then obtain name slot where t: "ue_normalize env n = Some name" "pl_inWorld me" "HasRankRight (pl_rank me) GR_RIGHT_REMOVE g"
      "GetMemberSlot_name name g = Some slot" "gm_RankId slot \<noteq> GR_GUILDMASTER" "\<not> gm_RankId slot \<le> pl_rank me" by blast
    have e: "HandleGuildRemoveOpcode env p n w = end_or (DelMember (gm_guid slot) False g w) (?k slot name)"
      using t by (simp add: HandleGuildRemoveOpcode_def p g)
    have "s = slot" if "k = gm_guid slot"
      using s named_member [OF o(2) t(4)] that by (simp add: GetMemberSlot_def)
    then show ?thesis unfolding e removed [OF t(4,5)] using t(6) by auto
  next
    case False
    then have "same_view w (HandleGuildRemoveOpcode env p n w)"
      by (auto simp: HandleGuildRemoveOpcode_def p g split: option.split)
    then show ?thesis using same by blast
  qed
qed

text \<open>
  C15: ranks are respected. Whoever promotes, demotes or removes by any request, a member whose
  rank is as high as his or higher (so also the leader, and he himself) stays a member with the
  same rank; and a promotion by one member never lifts another to his own rank or above it.
\<close>

theorem rank_order_respected:
  assumes "guild_start w0" and "guild_step\<^sup>*\<^sup>* w0 w" and "gu_players w p = Some me" and "own_guild me w = Some g"
    and "GetMemberSlot k g = Some s"
  shows "(gm_RankId s \<le> pl_rank me \<longrightarrow>
      rank_in (pl_guildId me) k (HandleGuildPromoteOpcode env p n w) = Some (gm_RankId s) \<and>
      rank_in (pl_guildId me) k (HandleGuildDemoteOpcode env p n w) = Some (gm_RankId s) \<and>
      rank_in (pl_guildId me) k (HandleGuildRemoveOpcode env p n w) = Some (gm_RankId s)) \<and>
    (pl_rank me < gm_RankId s \<longrightarrow>
      (case rank_in (pl_guildId me) k (HandleGuildPromoteOpcode env p n w) of None \<Rightarrow> False | Some r \<Rightarrow> pl_rank me < r))"
proof -
  have ok: "guild_ok w" by (rule reached_ok [OF assms(1,2)])
  obtain s0 where o: "gd_ok (pl_guildId me) g" "map_of (gd_members g) p = Some s0" "pl_rank me = gm_RankId s0"
    by (rule own_opened [OF ok assms(3,4)])
  have lt: "unat (pl_rank me) < 10" using rank_lt [OF o(1,2)] o(3) by simp
  have u: "unat (pl_rank me + 1) = unat (pl_rank me) + 1" using lt by (simp add: unat_word_ariths)
  have u1: "unat (gm_RankId s - 1) = unat (gm_RankId s) - 1" if "pl_rank me + 1 < gm_RankId s"
    using that by (intro unat_minus_one) (auto simp: word_less_nat_alt)
  note E = promote_effect [OF ok assms(3-5), of env n] demote_effect [OF ok assms(3-5), of env n] remove_effect [OF ok assms(3-5), of env n]
  show ?thesis
  proof (intro conjI impI)
    assume le: "gm_RankId s \<le> pl_rank me"
    then have "\<not> pl_rank me < gm_RankId s" "\<not> pl_rank me + 1 < gm_RankId s" by (auto simp: word_less_nat_alt word_le_nat_alt u)
    then show "rank_in (pl_guildId me) k (HandleGuildPromoteOpcode env p n w) = Some (gm_RankId s)"
      "rank_in (pl_guildId me) k (HandleGuildDemoteOpcode env p n w) = Some (gm_RankId s)"
      "rank_in (pl_guildId me) k (HandleGuildRemoveOpcode env p n w) = Some (gm_RankId s)"
      using E by blast+
  next
    assume lt: "pl_rank me < gm_RankId s"
    show "case rank_in (pl_guildId me) k (HandleGuildPromoteOpcode env p n w) of None \<Rightarrow> False | Some r \<Rightarrow> pl_rank me < r"
    proof (cases "rank_in (pl_guildId me) k (HandleGuildPromoteOpcode env p n w) = Some (gm_RankId s)")
      case True
      then show ?thesis using lt by simp
    next
      case False
      then have r: "rank_in (pl_guildId me) k (HandleGuildPromoteOpcode env p n w) = Some (gm_RankId s - 1)" "pl_rank me + 1 < gm_RankId s"
        using E(1) by blast+
      then have "pl_rank me < gm_RankId s - 1" using u1 u by (simp add: word_less_nat_alt)
      then show ?thesis using r(1) by simp
    qed
  qed
qed

definition sample_seen :: "u32 \<Rightarrow> u32 \<Rightarrow> bool" where
  "sample_seen p r \<longleftrightarrow>
     (case gu_players sample_guild_world p of None \<Rightarrow> False | Some me \<Rightarrow> pl_guildId me = 1 \<and> pl_rank me = r)"

lemma sample_seen: "sample_seen 1 0" "sample_seen 2 3"
  by (simp_all add: sample_seen_def sample_guild_world_def sample_joined_def sample_founded_def guild_eval Let_def word_le_nat_alt)

lemma sample_player:
  assumes "sample_seen p r"
  obtains me where "gu_players sample_guild_world p = Some me" "pl_guildId me = 1" "pl_rank me = r"
    "own_guild me sample_guild_world = GetGuildById 1 sample_guild_world"
  using assms by (auto simp: sample_seen_def own_guild_def split: option.splits)

theorem rank_order_respected_witness:
  "rank_in 1 1 (HandleGuildRemoveOpcode sample_uenv 2 [1] sample_guild_world) = Some 0 \<and>
   (case rank_in 1 3 (HandleGuildPromoteOpcode sample_uenv 1 [3] sample_guild_world) of None \<Rightarrow> False | Some r \<Rightarrow> 0 < r)"
proof -
  obtain g where g: "GetGuildById 1 sample_guild_world = Some g" "map fst (gd_members g) = [1, 2, 3]"
    "map (gm_RankId \<circ> snd) (gd_members g) = [0, 3, 4]" by (rule sample_guild)
  obtain a c where s: "GetMemberSlot 1 g = Some a" "gm_RankId a = 0" "GetMemberSlot 3 g = Some c" "gm_RankId c = 4"
    using sample_member_ranks [OF g(2,3)] by (auto simp: GetMemberSlot_def)
  obtain me where me: "gu_players sample_guild_world 1 = Some me" "pl_guildId me = 1" "pl_rank me = 0"
    "own_guild me sample_guild_world = Some g" using sample_player [OF sample_seen(1)] g(1) by metis
  obtain him where him: "gu_players sample_guild_world 2 = Some him" "pl_guildId him = 1" "pl_rank him = 3"
    "own_guild him sample_guild_world = Some g" using sample_player [OF sample_seen(2)] g(1) by metis
  note R = rank_order_respected [OF sample_ustart sample_world_steps]
  have "rank_in 1 1 (HandleGuildRemoveOpcode sample_uenv 2 [1] sample_guild_world) = Some 0"
    using R [OF him(1,4) s(1), of sample_uenv "[1]"] by (simp add: him s)
  moreover have "case rank_in 1 3 (HandleGuildPromoteOpcode sample_uenv 1 [3] sample_guild_world) of None \<Rightarrow> False | Some r \<Rightarrow> 0 < r"
    using R [OF me(1,4) s(3), of sample_uenv "[3]"] unfolding me(2,3) s(4) by simp
  ultimately show ?thesis by blast
qed

section \<open>Endings\<close>

lemma Disband_lookup:
  assumes ok: "guild_ok w" and g: "GetGuildById i w = Some g"
  shows "guild_ok (Disband_guild g w)" "GetGuildById j (Disband_guild g w) = (if j = i then None else GetGuildById j w)"
proof -
  note o = open_guild [OF ok g]
  have d: "distinct (map fst (gd_members g))" using o distinct_members by blast
  show "guild_ok (Disband_guild g w)" using disband_ok o d by blast
  have c: "coh ((map_of (gu_map w))(i \<mapsto> g)) w" "gd_Id g = i" using o by (simp_all add: opened_def)
  show "GetGuildById j (Disband_guild g w) = (if j = i then None else GetGuildById j w)"
    using Disband_coh [OF c d] by (simp add: GetGuildById_def map_of_table_erase)
qed

lemma row_cached: "coh G w \<Longrightarrow> gu_member_rows w k = Some r \<Longrightarrow> gu_cache w k = Some (gmr_guildid r)"
proof -
  assume c: "coh G w" and r: "gu_member_rows w k = Some r"
  have P: "person_ok (slot_of G k) (gu_cache w k) (Some r)" using coh_person [OF c, of k] r by simp
  then obtain j where j: "gu_cache w k = Some j" by (cases "gu_cache w k") (auto simp: person_ok_def)
  then obtain s where "slot_of G k j = Some s" using P by (auto simp: person_ok_def)
  then have "r = guild_member_row_of j s" using P j by (simp add: person_ok_def)
  then show ?thesis using j by (simp add: guild_member_row_of_def)
qed

lemma cache_iff: "guild_ok w \<Longrightarrow> gu_cache w k = Some i \<longleftrightarrow> (\<exists>g. GetGuildById i w = Some g \<and> GetMemberSlot k g \<noteq> None)"
proof -
  assume ok: "guild_ok w"
  then have "person_ok (slot_of (map_of (gu_map w)) k) (gu_cache w k) (gu_member_rows w k)"
    by (intro coh_person) (simp add: guild_ok_def)
  then have "gu_cache w k = Some i \<longleftrightarrow> slot_of (map_of (gu_map w)) k i \<noteq> None" by (simp add: person_ok_def)
  then show ?thesis by (auto simp: slot_of_def GetGuildById_def GetMemberSlot_def split: option.splits)
qed

text \<open>
  C20: a guild that its leader disbands, in a state that is reached without the uses that
  \<open>guild_step\<close> leaves out, is gone for good: neither the manager nor the tables of guilds, ranks and
  log entries have it, no player in memory, no row of a member and no entry of the cache refers to
  it, and the other guilds and the memberships in them are what they were.
\<close>

theorem disband_frees_everybody:
  assumes "guild_start w0" and "guild_step\<^sup>*\<^sup>* w0 w" and p: "gu_players w p = Some me" and g: "own_guild me w = Some g"
    and l: "gd_LeaderGuid g = p"
  shows "let i = pl_guildId me; w' = HandleGuildDisbandOpcode p w
    in GetGuildById i w' = None \<and> gu_rows w' i = None \<and> gu_rank_rows w' i = (\<lambda>_. None) \<and> gu_log_rows w' i = (\<lambda>_. None) \<and>
       (\<forall>k. gu_cache w' k \<noteq> Some i \<and> (\<forall>r. gu_member_rows w' k = Some r \<longrightarrow> gmr_guildid r \<noteq> i) \<and>
            (\<forall>pl. gu_players w' k = Some pl \<longrightarrow> pl_guildId pl \<noteq> i)) \<and>
       (\<forall>j. j \<noteq> i \<longrightarrow> GetGuildById j w' = GetGuildById j w \<and> (\<forall>k. gu_cache w' k = Some j \<longleftrightarrow> gu_cache w k = Some j))"
proof -
  let ?i = "pl_guildId me" and ?w = "HandleGuildDisbandOpcode p w"
  have ok: "guild_ok w" by (rule reached_ok [OF assms(1,2)])
  have gi: "GetGuildById ?i w = Some g" using g by (simp add: own_guild_def)
  have e: "?w = Disband_guild g w" by (simp add: HandleGuildDisbandOpcode_def p g l)
  have ok': "guild_ok ?w" and lookup: "\<And>j. GetGuildById j ?w = (if j = ?i then None else GetGuildById j w)"
    unfolding e by (rule Disband_lookup [OF ok gi])+
  have c': "coh (map_of (gu_map ?w)) ?w" using ok' by (simp add: guild_ok_def)
  have none: "map_of (gu_map ?w) ?i = None" using lookup [of ?i] by (simp add: GetGuildById_def)
  have "house_ok ?i (map_of (gu_map ?w) ?i) (gu_rows ?w ?i) (gu_rank_rows ?w ?i) (gu_nextId ?w)" using c' unfolding coh_def by blast
  then have h: "gu_rows ?w ?i = None" "gu_rank_rows ?w ?i = (\<lambda>_. None)" unfolding none house_ok_def option.case by blast+
  have lg: "gu_log_rows ?w ?i = (\<lambda>_. None)"
    unfolding e using open_guild [OF ok gi] by (simp add: Disband_guild_def RemoveGuild_def Let_def opened_def)
  have cache: "gu_cache ?w k \<noteq> Some ?i" for k using cache_iff [OF ok', of k ?i] lookup by simp
  have row: "gmr_guildid r \<noteq> ?i" if "gu_member_rows ?w k = Some r" for k r
    using row_cached [OF c' that] cache [of k] by auto
  have z: "?i \<noteq> 0"
    using house_positive [of "map_of (gu_map w)" w ?i g] ok gi by (auto simp: guild_ok_def GetGuildById_def)
  have pl: "pl_guildId pl \<noteq> ?i" if "gu_players ?w k = Some pl" for k pl
    using coh_sees [OF c' that] cache [of k] z by (auto simp: player_sees_def split: option.splits)
  have other: "gu_cache ?w k = Some j \<longleftrightarrow> gu_cache w k = Some j" if "j \<noteq> ?i" for j k
    unfolding cache_iff [OF ok'] cache_iff [OF ok] using lookup that by simp
  show ?thesis unfolding Let_def using lookup h lg cache row pl other by auto
qed

theorem disband_frees_everybody_witness:
  "let w' = HandleGuildDisbandOpcode 1 sample_guild_world
   in GetGuildById 1 w' = None \<and> gu_rows w' 1 = None \<and> gu_cache w' 2 \<noteq> Some 1 \<and> gu_cache sample_guild_world 2 = Some 1"
proof -
  obtain g where g: "GetGuildById 1 sample_guild_world = Some g" "map fst (gd_members g) = [1, 2, 3]"
    "map (gm_RankId \<circ> snd) (gd_members g) = [0, 3, 4]" "gd_LeaderGuid g = 1" by (rule sample_guild)
  obtain me where me: "gu_players sample_guild_world 1 = Some me" "pl_guildId me = 1"
    "own_guild me sample_guild_world = Some g" using sample_player [OF sample_seen(1)] g(1) by metis
  have "gu_cache sample_guild_world 2 = Some 1"
    unfolding cache_iff [OF reached_ok [OF sample_ustart sample_world_steps]]
    using g(1) sample_member_ranks [OF g(2,3)] by (auto simp: GetMemberSlot_def)
  then show ?thesis
    using disband_frees_everybody [OF sample_ustart sample_world_steps me(1,3) g(4)] unfolding Let_def me(2) by blast
qed



end
