(* ===== verification/GuildRestart.thy ===== *)
theory GuildRestart
  imports GuildPower
begin

text \<open>
  The server stops and starts again: what \<^verbatim>\<open>LoadGuilds\<close> makes of the tables of a reachable state.
\<close>

section \<open>The result sets\<close>

text \<open>
  \<open>ids\<close> are the guilds in ascending order, \<open>mems i\<close> the members of guild \<open>i\<close> in the order of their
  rows, \<open>chars\<close> the rows of the characters.
\<close>

definition db_guilds :: "guild_world \<Rightarrow> u32 list \<Rightarrow> (u32 \<times> guild_row) list" where
  "db_guilds w ids = map (\<lambda>i. (i, the (gu_rows w i))) ids"

definition ranks_at :: "guild_world \<Rightarrow> u32 \<Rightarrow> rank_info list" where
  "ranks_at w i = (case GetGuildById i w of None \<Rightarrow> [] | Some g \<Rightarrow> gd_Ranks g)"

definition db_ranks_of :: "guild_world \<Rightarrow> u32 \<Rightarrow> nat \<Rightarrow> rank_row list" where
  "db_ranks_of w i from = map (\<lambda>k. (i, of_nat k, the (gu_rank_rows w i (of_nat k)))) [from..<length (ranks_at w i)]"

definition db_ranks :: "guild_world \<Rightarrow> u32 list \<Rightarrow> rank_row list" where
  "db_ranks w ids = concat (map (\<lambda>i. db_ranks_of w i 0) ids)"

definition db_members_of :: "guild_world \<Rightarrow> (u32 \<Rightarrow> char_row) \<Rightarrow> u32 \<Rightarrow> u32 list \<Rightarrow> member_join list" where
  "db_members_of w chars i lows = map (\<lambda>low. (i, low, the (gu_member_rows w low), chars low)) lows"

definition db_members :: "guild_world \<Rightarrow> (u32 \<Rightarrow> char_row) \<Rightarrow> (u32 \<Rightarrow> u32 list) \<Rightarrow> u32 list \<Rightarrow> member_join list" where
  "db_members w chars mems ids = concat (map (\<lambda>i. db_members_of w chars i (mems i)) ids)"

definition char_ok :: "char_row \<Rightarrow> bool" where
  "char_ok c \<longleftrightarrow> 1 \<le> unat (cr_level c) \<and> unat (cr_level c) \<le> DEFAULT_MAX_LEVEL \<and> playable_class (cr_class c)"

definition from_later :: "u32 \<Rightarrow> (u32 \<times> 'a) list \<Rightarrow> bool" where
  "from_later i rows \<longleftrightarrow> (\<forall>e \<in> set (take 1 rows). i < fst e)"

section \<open>One guild\<close>

lemma read_ranks_stop: "from_later (gd_Id g) rest \<Longrightarrow> read_ranks rest b g v = (rest, b, g, v)"
  by (cases "(rest, b, g, v)" rule: read_ranks.cases) (auto simp: from_later_def)

lemma read_ranks_all:
  assumes R: "\<And>k. k < length R \<Longrightarrow> the (rows (of_nat k)) = R ! k" and len: "length R \<le> GUILD_RANKS_MAX_COUNT"
    and first: "R \<noteq> [] \<Longrightarrow> ri_Rights (R ! 0) = GR_RIGHT_ALL" and k: "k \<le> length R" and later: "from_later (gd_Id g) rest"
    and g: "gd_Ranks g = take k R"
  shows "read_ranks (map (\<lambda>k. (gd_Id g, of_nat k, the (rows (of_nat k)))) [k..<length R] @ rest) False g v =
    (rest, False, g\<lparr>gd_Ranks := R\<rparr>, v)"
  using k later g
proof (induction "length R - k" arbitrary: k g)
  case 0
  then have "g\<lparr>gd_Ranks := R\<rparr> = g" by simp
  then show ?case using 0 by (simp add: read_ranks_stop)
next
  case (Suc n)
  then have lt: "k < length R" by simp
  let ?r = "R ! k"
  have l: "length (gd_Ranks g) = k" using Suc.prems lt by simp
  let ?g = "AddRank (ri_Name ?r) (if gd_Ranks g = [] then ri_Rights ?r OR GR_RIGHT_ALL else ri_Rights ?r) g"
  have rights: "(if gd_Ranks g = [] then ri_Rights ?r OR GR_RIGHT_ALL else ri_Rights ?r) = ri_Rights ?r"
    using l first lt by (cases "k = 0") auto
  have rk: "gd_Ranks ?g = take (Suc k) R" using Suc.prems(3) lt unfolding rights by (simp add: AddRank_def take_Suc_conv_app_nth)
  have ids: "gd_Id ?g = gd_Id g" "?g\<lparr>gd_Ranks := R\<rparr> = g\<lparr>gd_Ranks := R\<rparr>" by (simp_all add: AddRank_def)
  have ih: "read_ranks (map (\<lambda>k. (gd_Id ?g, of_nat k, the (rows (of_nat k)))) [Suc k..<length R] @ rest) False ?g v =
      (rest, False, ?g\<lparr>gd_Ranks := R\<rparr>, v)"
    by (rule Suc.hyps(1)) (use Suc.hyps(2) Suc.prems lt rk ids in simp_all)
  have "[k..<length R] = k # [Suc k..<length R]" using lt by (rule upt_conv_Cons)
  then show ?case using ih unfolding ids by (simp add: l R [OF lt])
qed

definition loaded_table ::
  "guild_env \<Rightarrow> (u32 \<Rightarrow> u32) \<Rightarrow> guild_world \<Rightarrow> (u32 \<Rightarrow> char_row) \<Rightarrow> guild \<Rightarrow> u32 list \<Rightarrow> (u32 \<times> guild_member) list \<Rightarrow>
     (u32 \<times> guild_member) list" where
  "loaded_table env zone_of w chars g =
     fold (\<lambda>low. table_put env low (loaded_member zone_of g low (the (gu_member_rows w low)) (chars low)))"

lemma read_members_stop: "from_later (gd_Id g) rest \<Longrightarrow> read_guild_members env zone_of rest g v = (rest, g, v)"
  by (cases "(env, zone_of, rest, g, v)" rule: read_guild_members.cases) (auto simp: from_later_def)

lemma loaded_member_ranks: "loaded_member z (g\<lparr>gd_members := m\<rparr>) low r c = loaded_member z g low r c"
  by (simp add: loaded_member_def GetLowestRank_def)

definition cached_in :: "u32 \<Rightarrow> u32 list \<Rightarrow> (u32 \<Rightarrow> u32 option) \<Rightarrow> u32 \<Rightarrow> u32 option" where
  "cached_in i lows c = (\<lambda>k. if k \<in> set lows then Some i else c k)"

lemma cached_in_simps [simp]: "cached_in i [] c = c" "cached_in i lows (c(low \<mapsto> i)) = cached_in i (low # lows) c"
  by (auto simp: cached_in_def fun_eq_iff)

lemma read_members_all:
  "(\<And>low. low \<in> set lows \<Longrightarrow> char_ok (chars low)) \<Longrightarrow> from_later (gd_Id g) rest \<Longrightarrow>
   read_guild_members env zone_of (db_members_of w chars (gd_Id g) lows @ rest) g v =
     (rest, g\<lparr>gd_members := loaded_table env zone_of w chars g lows (gd_members g)\<rparr>,
      v\<lparr>gu_cache := cached_in (gd_Id g) lows (gu_cache v)\<rparr>)"
proof (induction lows arbitrary: g v)
  case Nil
  then show ?case by (simp add: db_members_of_def read_members_stop loaded_table_def)
next
  case (Cons low lows)
  let ?s = "loaded_member zone_of g low (the (gu_member_rows w low)) (chars low)"
  let ?g = "g\<lparr>gd_members := table_put env low ?s (gd_members g)\<rparr>"
  have "char_ok (chars low)" using Cons.prems(1) by simp
  then have step: "read_guild_members env zone_of (db_members_of w chars (gd_Id g) (low # lows) @ rest) g v =
      read_guild_members env zone_of (db_members_of w chars (gd_Id ?g) lows @ rest) ?g (GuildMemberAdded (gd_Id g) low v)"
    by (auto simp: db_members_of_def char_ok_def)
  have "read_guild_members env zone_of (db_members_of w chars (gd_Id ?g) lows @ rest) ?g (GuildMemberAdded (gd_Id g) low v) =
      (rest, ?g\<lparr>gd_members := loaded_table env zone_of w chars ?g lows (gd_members ?g)\<rparr>,
       (GuildMemberAdded (gd_Id g) low v)\<lparr>gu_cache := cached_in (gd_Id ?g) lows (gu_cache (GuildMemberAdded (gd_Id g) low v))\<rparr>)"
    by (rule Cons.IH) (use Cons.prems in simp_all)
  then show ?case unfolding step by (simp add: loaded_table_def loaded_member_ranks GuildMemberAdded_def)
qed

lemma loaded_table_keys:
  "distinct (map fst t) \<Longrightarrow>
   distinct (map fst (loaded_table env zone_of w chars g lows t)) \<and>
   map_of (loaded_table env zone_of w chars g lows t) k =
     (if k \<in> set lows then Some (loaded_member zone_of g k (the (gu_member_rows w k)) (chars k)) else map_of t k)"
  unfolding loaded_table_def
  by (induction lows arbitrary: t) (simp_all add: distinct_table_put map_of_table_put)

text \<open>The guild that is loaded from the rows of guild \<open>i\<close>.\<close>

definition loaded_guild ::
  "guild_env \<Rightarrow> (u32 \<Rightarrow> u32) \<Rightarrow> guild_world \<Rightarrow> (u32 \<Rightarrow> char_row) \<Rightarrow> (u32 \<Rightarrow> u32 list) \<Rightarrow> u32 \<Rightarrow> guild" where
  "loaded_guild env zone_of w chars mems i =
     (let g = (LoadGuildFromDB env i (the (gu_rows w i)))\<lparr>gd_Ranks := ranks_at w i\<rparr>
      in g\<lparr>gd_members := loaded_table env zone_of w chars g (mems i) []\<rparr>)"

text \<open>A guild whose rows can be loaded: what a reachable state has, with members of existing ranks.\<close>

definition loadable :: "guild_world \<Rightarrow> (u32 \<Rightarrow> char_row) \<Rightarrow> (u32 \<Rightarrow> u32 list) \<Rightarrow> u32 \<Rightarrow> bool" where
  "loadable w chars mems i \<longleftrightarrow>
     (case GetGuildById i w of
        None \<Rightarrow> False
      | Some g \<Rightarrow>
          set (mems i) = fst ` set (gd_members g) \<and> (\<forall>low \<in> set (mems i). char_ok (chars low)) \<and>
          (\<forall>e \<in> set (gd_members g). unat (gm_RankId (snd e)) < length (gd_Ranks g)))"

definition loading :: "guild_world \<Rightarrow> (u32 \<Rightarrow> char_row) \<Rightarrow> (u32 \<Rightarrow> u32 list) \<Rightarrow> u32 \<Rightarrow> guild \<Rightarrow> bool" where
  "loading w chars mems i g \<longleftrightarrow> guild_ok w \<and> GetGuildById i w = Some g \<and> loadable w chars mems i"

text \<open>A member who was loaded: rank and notes of the guild, the rest of the character.\<close>

definition restored :: "(u32 \<Rightarrow> u32) \<Rightarrow> (u32 \<Rightarrow> char_row) \<Rightarrow> u32 \<Rightarrow> guild_member \<Rightarrow> guild_member" where
  "restored zone_of chars k s =
     \<lparr>gm_guid = k, gm_accountId = cr_account (chars k), gm_Name = cr_name (chars k), gm_RankId = gm_RankId s,
       gm_Level = cr_level (chars k), gm_Class = cr_class (chars k),
       gm_ZoneId = (if cr_zone (chars k) = 0 then zone_of k else cr_zone (chars k)), gm_LogoutTime = cr_logout (chars k),
       gm_Pnote = gm_Pnote s, gm_OFFnote = gm_OFFnote s\<rparr>"

lemma loadingD:
  assumes "loading w chars mems i g"
  shows "guild_ok w" "GetGuildById i w = Some g" "set (mems i) = fst ` set (gd_members g)"
    "low \<in> set (mems i) \<Longrightarrow> char_ok (chars low)" "(k, s) \<in> set (gd_members g) \<Longrightarrow> unat (gm_RankId s) < length (gd_Ranks g)"
proof -
  show ok: "guild_ok w" and g: "GetGuildById i w = Some g" using assms by (simp_all add: loading_def)
  have l: "set (mems i) = fst ` set (gd_members g) \<and> (\<forall>low \<in> set (mems i). char_ok (chars low)) \<and>
      (\<forall>e \<in> set (gd_members g). unat (gm_RankId (snd e)) < length (gd_Ranks g))"
    using assms unfolding loading_def loadable_def by (simp add: g)
  then show "set (mems i) = fst ` set (gd_members g)" by blast
  show "low \<in> set (mems i) \<Longrightarrow> char_ok (chars low)" using l by blast
  show "(k, s) \<in> set (gd_members g) \<Longrightarrow> unat (gm_RankId s) < length (gd_Ranks g)" using l by force
qed

lemma load_coh: "loading w chars mems i g \<Longrightarrow> coh ((map_of (gu_map w))(i \<mapsto> g)) w"
  unfolding loading_def using lookup_coh by blast

lemma load_gd: "loading w chars mems i g \<Longrightarrow> gd_ok i g"
  unfolding loading_def using open_guild by blast

lemma load_row:
  assumes L: "loading w chars mems i g"
  shows "gu_rows w i = Some (the (gu_rows w i))" "gu_rank_rows w i = rank_at g"
  "gr_name (the (gu_rows w i)) = gd_Name g" "gr_leaderguid (the (gu_rows w i)) = gd_LeaderGuid g"
  "gr_info (the (gu_rows w i)) = gd_GINFO g" "gr_motd (the (gu_rows w i)) = gd_MOTD g" "gr_emblem (the (gu_rows w i)) = gd_Emblem g"
  using coh_house [OF load_coh [OF L]] by (auto simp: house_ok_def guild_row_of_def)

lemma load_members:
  assumes L: "loading w chars mems i g"
  shows "low \<in> set (mems i) \<longleftrightarrow> (\<exists>s. map_of (gd_members g) low = Some s)"
proof -
  have "set (mems i) = fst ` set (gd_members g)" by (rule loadingD [OF L])
  then show ?thesis by (metis domI domD dom_map_of_conv_image_fst)
qed

lemma load_member:
  assumes L: "loading w chars mems i g" and s: "map_of (gd_members g) low = Some s"
  shows "the (gu_member_rows w low) = guild_member_row_of i s" "unat (gm_RankId s) < length (gd_Ranks g)"
  using coh_row [OF load_coh [OF L] s] loadingD(5) [OF L map_of_SomeD [OF s]] by simp_all

lemma load_ranks:
  assumes L: "loading w chars mems i g" and later: "from_later i rest"
  shows "LoadRanksFromDB env (Some (db_ranks_of w i 0 @ rest)) (LoadGuildFromDB env i (the (gu_rows w i))) v =
    (Some rest, (LoadGuildFromDB env i (the (gu_rows w i)))\<lparr>gd_Ranks := ranks_at w i\<rparr>, v)"
proof -
  let ?g = "LoadGuildFromDB env i (the (gu_rows w i))"
  have R: "ranks_at w i = gd_Ranks g" using L by (simp add: ranks_at_def loading_def)
  have rk: "ranks_ok g" using load_gd [OF L] by (simp add: gd_ok_def)
  then have len: "length (gd_Ranks g) \<le> GUILD_RANKS_MAX_COUNT" "\<not> length (gd_Ranks g) < GUILD_RANKS_MIN_COUNT"
    by (simp_all add: ranks_ok_def)
  have id: "gd_Id ?g = i" "gd_Ranks ?g = []" by (simp_all add: LoadGuildFromDB_def Guild_new_def)
  have "read_ranks (map (\<lambda>k. (gd_Id ?g, of_nat k, the (gu_rank_rows w i (of_nat k)))) [0..<length (gd_Ranks g)] @ rest) False ?g v =
      (rest, False, ?g\<lparr>gd_Ranks := gd_Ranks g\<rparr>, v)"
  proof (rule read_ranks_all)
    fix k assume k: "k < length (gd_Ranks g)"
    then have "unat (of_nat k :: u32) = k" using len(1) by (intro unat_count) (simp add: GUILD_RANKS_MAX_COUNT_def)
    then show "the (gu_rank_rows w i (of_nat k)) = gd_Ranks g ! k" using k by (simp add: load_row [OF L] rank_at_def)
  qed (use len rk later id in \<open>simp_all add: ranks_ok_def\<close>)
  then show ?thesis using len(2) by (simp add: LoadRanksFromDB_def db_ranks_of_def id R)
qed

lemma load_table:
  assumes L: "loading w chars mems i g"
  shows "map_of (gd_members (loaded_guild env zone_of w chars mems i)) k =
     map_option (restored zone_of chars k) (map_of (gd_members g) k)"
  "distinct (map fst (gd_members (loaded_guild env zone_of w chars mems i)))"
proof -
  let ?g = "(LoadGuildFromDB env i (the (gu_rows w i)))\<lparr>gd_Ranks := ranks_at w i\<rparr>"
  have T: "distinct (map fst (loaded_table env zone_of w chars ?g (mems i) []))"
    "map_of (loaded_table env zone_of w chars ?g (mems i) []) k =
      (if k \<in> set (mems i) then Some (loaded_member zone_of ?g k (the (gu_member_rows w k)) (chars k)) else None)"
    using loaded_table_keys [of "[]" env zone_of w chars ?g "mems i" k] by simp_all
  show "distinct (map fst (gd_members (loaded_guild env zone_of w chars mems i)))" using T(1) by (simp add: loaded_guild_def Let_def)
  have m: "map_of (gd_members (loaded_guild env zone_of w chars mems i)) k =
      (if k \<in> set (mems i) then Some (loaded_member zone_of ?g k (the (gu_member_rows w k)) (chars k)) else None)"
    using T(2) by (simp add: loaded_guild_def Let_def)
  show "map_of (gd_members (loaded_guild env zone_of w chars mems i)) k =
     map_option (restored zone_of chars k) (map_of (gd_members g) k)"
  proof (cases "map_of (gd_members g) k")
    case None
    then show ?thesis using load_members [OF L, of k] by (simp add: m)
  next
    case (Some s)
    then have "k \<in> set (mems i)" using load_members [OF L, of k] by blast
    then show ?thesis using load_member [OF L Some] L
      by (simp add: m Some restored_def loaded_member_def guild_member_row_of_def ranks_at_def loading_def)
  qed
qed

lemma load_leader:
  assumes L: "loading w chars mems i g"
  shows "\<exists>s. map_of (gd_members g) (gd_LeaderGuid g) = Some s \<and> gm_RankId s = GR_GUILDMASTER"
proof -
  note ok = load_gd [OF L]
  obtain s where s: "map_of (gd_members g) (gd_LeaderGuid g) = Some s"
    using ok unfolding gd_ok_def guild_members_ok_def by blast
  show ?thesis using s gd_member [OF ok s] unfolding rank_sound_def by blast
qed

lemma loaded_fields:
  assumes L: "loading w chars mems i g"
  shows "gd_Id (loaded_guild env zone_of w chars mems i) = i" "gd_Name (loaded_guild env zone_of w chars mems i) = gd_Name g"
  "gd_LeaderGuid (loaded_guild env zone_of w chars mems i) = gd_LeaderGuid g"
  "gd_MOTD (loaded_guild env zone_of w chars mems i) = gd_MOTD g" "gd_GINFO (loaded_guild env zone_of w chars mems i) = gd_GINFO g"
  "gd_Emblem (loaded_guild env zone_of w chars mems i) = gd_Emblem g" "gd_Ranks (loaded_guild env zone_of w chars mems i) = gd_Ranks g"
  "gd_accountsNumber (loaded_guild env zone_of w chars mems i) = 0"
  using loadingD(2) [OF L] load_row(3-) [OF L]
  by (simp_all add: loaded_guild_def Let_def LoadGuildFromDB_def ranks_at_def Guild_new_def)

text \<open>Nothing has to be repaired.\<close>

lemma fold_idle: "(\<And>e. e \<in> set es \<Longrightarrow> f e x = x) \<Longrightarrow> fold f es x = x"
  by (induction es) simp_all

lemma load_structure:
  assumes L: "loading w chars mems i g"
  shows "CheckGuildStructure (loaded_guild env zone_of w chars mems i) v = (True, loaded_guild env zone_of w chars mems i, v)"
proof -
  let ?g = "loaded_guild env zone_of w chars mems i"
  have r: "guild_GetRank (gd_LeaderGuid ?g) ?g = 0"
  proof -
    obtain s where s: "map_of (gd_members g) (gd_LeaderGuid g) = Some s" "gm_RankId s = GR_GUILDMASTER" using load_leader [OF L] by blast
    then have "GetMemberSlot (gd_LeaderGuid ?g) ?g = Some (restored zone_of chars (gd_LeaderGuid g) s)"
      by (simp add: GetMemberSlot_def load_table [OF L] loaded_fields [OF L])
    then show ?thesis using s(2) by (simp add: guild_GetRank_def restored_def GR_GUILDMASTER_def)
  qed
  have no: "\<not> (gm_RankId (snd e) = GR_GUILDMASTER \<and> gd_LeaderGuid ?g \<noteq> gm_guid (snd e))" if "e \<in> set (gd_members ?g)" for e
  proof -
    have m: "map_of (gd_members ?g) (fst e) = Some (snd e)" using that load_table(2) [OF L] by (simp add: map_of_eq_Some_iff)
    have "map_option (restored zone_of chars (fst e)) (map_of (gd_members g) (fst e)) = Some (snd e)"
      using m unfolding load_table(1) [OF L] .
    then obtain s where s: "map_of (gd_members g) (fst e) = Some s" "snd e = restored zone_of chars (fst e) s"
      by (cases "map_of (gd_members g) (fst e)") simp_all
    show ?thesis using gd_member [OF load_gd [OF L] s(1)] s(2) by (simp add: restored_def rank_sound_def loaded_fields [OF L])
  qed
  have "(case (?g, v) of (g1, w1) \<Rightarrow> if gm_RankId (snd e) = GR_GUILDMASTER \<and> gd_LeaderGuid g1 \<noteq> gm_guid (snd e)
      then ChangeRank (fst e) GR_OFFICER g1 w1 else (g1, w1)) = (?g, v)" if "e \<in> set (gd_members ?g)" for e
    unfolding prod.case by (rule if_not_P [OF no [OF that]])
  then have "demote_others ?g v = (?g, v)" unfolding demote_others_def by (rule fold_idle)
  moreover have "guild_GetRank (gd_LeaderGuid ?g) ?g \<noteq> -1" "\<not> guild_GetRank (gd_LeaderGuid ?g) ?g \<noteq> 0" unfolding r by simp_all
  ultimately show ?thesis unfolding CheckGuildStructure_def by (simp only: if_False)
qed

section \<open>All guilds\<close>

lemma from_laterI: "(\<And>e. e \<in> set rows \<Longrightarrow> i < fst e) \<Longrightarrow> from_later i rows"
  by (cases rows) (simp_all add: from_later_def)

lemma later_rows:
  assumes "\<And>j. j \<in> set ids \<Longrightarrow> i < j"
  shows "from_later i (db_ranks w ids)" "from_later i (db_members w chars mems ids)"
  using assms by (auto intro!: from_laterI simp: db_ranks_def db_ranks_of_def db_members_def db_members_of_def)

lemma no_accounts: "gd_accountsNumber g = 0 \<Longrightarrow> UpdateAccountsNumber g = g"
  by (cases g) (simp add: UpdateAccountsNumber_def)

definition loaded_logged ::
  "guild_env \<Rightarrow> (u32 \<Rightarrow> u32) \<Rightarrow> (u32 \<Rightarrow> (u32 \<times> guild_log_entry) list) \<Rightarrow> guild_world \<Rightarrow> (u32 \<Rightarrow> char_row) \<Rightarrow> (u32 \<Rightarrow> u32 list) \<Rightarrow>
     u32 \<Rightarrow> guild" where
  "loaded_logged env zone_of logs w chars mems i = LoadGuildEventLogFromDB (logs i) (loaded_guild env zone_of w chars mems i)"

lemma logged_fields:
  "gd_Id (LoadGuildEventLogFromDB l g) = gd_Id g" "gd_Name (LoadGuildEventLogFromDB l g) = gd_Name g"
  "gd_LeaderGuid (LoadGuildEventLogFromDB l g) = gd_LeaderGuid g" "gd_MOTD (LoadGuildEventLogFromDB l g) = gd_MOTD g"
  "gd_GINFO (LoadGuildEventLogFromDB l g) = gd_GINFO g" "gd_Emblem (LoadGuildEventLogFromDB l g) = gd_Emblem g"
  "gd_Ranks (LoadGuildEventLogFromDB l g) = gd_Ranks g" "gd_members (LoadGuildEventLogFromDB l g) = gd_members g"
  by (simp_all add: LoadGuildEventLogFromDB_def split: list.split)

text \<open>One guild is read, and the three result sets stand at the next one.\<close>

definition guild_added ::
  "guild_env \<Rightarrow> (u32 \<Rightarrow> u32) \<Rightarrow> (u32 \<Rightarrow> (u32 \<times> guild_log_entry) list) \<Rightarrow> guild_world \<Rightarrow> (u32 \<Rightarrow> char_row) \<Rightarrow> (u32 \<Rightarrow> u32 list) \<Rightarrow>
     u32 \<Rightarrow> guild_world \<Rightarrow> guild_world" where
  "guild_added env zone_of logs w chars mems i v =
     AddGuild env (loaded_logged env zone_of logs w chars mems i) (v\<lparr>gu_cache := cached_in i (mems i) (gu_cache v)\<rparr>)"

lemma load_one:
  assumes L: "loading w chars mems i g" and later: "from_later i restR" "from_later i restM"
  shows "load_guilds env zone_of logs ((i, the (gu_rows w i)) # rows) (Some (db_ranks_of w i 0 @ restR))
      (Some (db_members_of w chars i (mems i) @ restM)) v =
    load_guilds env zone_of logs rows (Some restR) (Some restM) (guild_added env zone_of logs w chars mems i v)"
proof -
  let ?g1 = "(LoadGuildFromDB env i (the (gu_rows w i)))\<lparr>gd_Ranks := ranks_at w i\<rparr>"
  let ?g2 = "loaded_guild env zone_of w chars mems i" and ?v = "v\<lparr>gu_cache := cached_in i (mems i) (gu_cache v)\<rparr>"
  have id: "gd_Id ?g1 = i" "gd_members ?g1 = []" by (simp_all add: LoadGuildFromDB_def Guild_new_def)
  have "read_guild_members env zone_of (db_members_of w chars (gd_Id ?g1) (mems i) @ restM) ?g1 v =
      (restM, ?g1\<lparr>gd_members := loaded_table env zone_of w chars ?g1 (mems i) (gd_members ?g1)\<rparr>,
       v\<lparr>gu_cache := cached_in (gd_Id ?g1) (mems i) (gu_cache v)\<rparr>)"
    by (rule read_members_all) (use loadingD(4) [OF L] later(2) id(1) in simp_all)
  then have rd: "read_guild_members env zone_of (db_members_of w chars i (mems i) @ restM) ?g1 v = (restM, ?g2, ?v)"
    unfolding id by (simp add: loaded_guild_def Let_def)
  obtain s where "map_of (gd_members g) (gd_LeaderGuid g) = Some s" using load_leader [OF L] by blast
  then have "map_of (gd_members ?g2) (gd_LeaderGuid g) \<noteq> None" by (simp add: load_table(1) [OF L])
  then have ne: "gd_members ?g2 \<noteq> []" by auto
  have acc: "UpdateAccountsNumber ?g2 = ?g2" by (rule no_accounts [OF loaded_fields(8) [OF L]])
  have mem: "LoadMembersFromDB env zone_of (Some (db_members_of w chars i (mems i) @ restM)) ?g1 v = (True, Some restM, ?g2, ?v)"
    by (simp add: LoadMembersFromDB_def rd ne acc)
  have fid: "gd_Id ?g2 = i" by (rule loaded_fields(1) [OF L])
  show ?thesis
    by (simp add: load_ranks [OF L later(1)] mem load_structure [OF L] fid guild_added_def loaded_logged_def)
qed

lemma db_cons:
  "db_guilds w (i # ids) = (i, the (gu_rows w i)) # db_guilds w ids" "db_ranks w (i # ids) = db_ranks_of w i 0 @ db_ranks w ids"
  "db_members w chars mems (i # ids) = db_members_of w chars i (mems i) @ db_members w chars mems ids"
  by (simp_all add: db_guilds_def db_ranks_def db_members_def)

lemma load_all:
  "sorted_wrt (<) ids \<Longrightarrow> (\<And>i. i \<in> set ids \<Longrightarrow> \<exists>g. loading w chars mems i g) \<Longrightarrow>
   load_guilds env zone_of logs (db_guilds w ids) (Some (db_ranks w ids)) (Some (db_members w chars mems ids)) v =
     fold (guild_added env zone_of logs w chars mems) ids v"
proof (induction ids arbitrary: v)
  case Nil
  then show ?case by (simp add: db_guilds_def)
next
  case (Cons i ids)
  obtain g where L: "loading w chars mems i g" using Cons.prems(2) by auto
  have later: "from_later i (db_ranks w ids)" "from_later i (db_members w chars mems ids)"
    using later_rows [of ids i] Cons.prems(1) by auto
  show ?case unfolding db_cons load_one [OF L later]
    using Cons.IH [of "guild_added env zone_of logs w chars mems i v"] Cons.prems by simp
qed

text \<open>What the fold leaves.\<close>

lemma fold_added:
  "distinct (map fst (gu_map v)) \<Longrightarrow> (\<And>i. i \<in> set ids \<Longrightarrow> \<exists>g. loading w chars mems i g) \<Longrightarrow> distinct ids \<Longrightarrow>
   (let v' = fold (guild_added env zone_of logs w chars mems) ids v
    in gu_rows v' = gu_rows v \<and> gu_member_rows v' = gu_member_rows v \<and> gu_rank_rows v' = gu_rank_rows v \<and>
       map_of (gu_map v') = (\<lambda>j. if j \<in> set ids then Some (loaded_logged env zone_of logs w chars mems j) else map_of (gu_map v) j) \<and>
       gu_cache v' = fold (\<lambda>i. cached_in i (mems i)) ids (gu_cache v))"
proof (induction ids arbitrary: v)
  case Nil
  then show ?case by simp
next
  case (Cons i ids)
  obtain g where L: "loading w chars mems i g" using Cons.prems(2) by auto
  let ?v = "guild_added env zone_of logs w chars mems i v"
  have id: "gd_Id (loaded_logged env zone_of logs w chars mems i) = i"
    by (simp add: loaded_logged_def logged_fields loaded_fields(1) [OF L])
  have v: "gu_rows ?v = gu_rows v" "gu_member_rows ?v = gu_member_rows v" "gu_rank_rows ?v = gu_rank_rows v"
    "gu_cache ?v = cached_in i (mems i) (gu_cache v)" by (simp_all add: guild_added_def AddGuild_def)
  have m: "map_of (gu_map ?v) = (map_of (gu_map v))(i \<mapsto> loaded_logged env zone_of logs w chars mems i)"
    "distinct (map fst (gu_map ?v))"
    using Cons.prems(1) by (simp_all add: guild_added_def AddGuild_def id map_of_table_put distinct_table_put)
  have ih: "let v' = fold (guild_added env zone_of logs w chars mems) ids ?v
    in gu_rows v' = gu_rows ?v \<and> gu_member_rows v' = gu_member_rows ?v \<and> gu_rank_rows v' = gu_rank_rows ?v \<and>
       map_of (gu_map v') = (\<lambda>j. if j \<in> set ids then Some (loaded_logged env zone_of logs w chars mems j) else map_of (gu_map ?v) j) \<and>
       gu_cache v' = fold (\<lambda>i. cached_in i (mems i)) ids (gu_cache ?v)"
    by (rule Cons.IH [OF m(2)]) (use Cons.prems in auto)
  have "(\<lambda>j. if j \<in> set ids then Some (loaded_logged env zone_of logs w chars mems j) else map_of (gu_map ?v) j) =
      (\<lambda>j. if j \<in> set (i # ids) then Some (loaded_logged env zone_of logs w chars mems j) else map_of (gu_map v) j)"
    by (auto simp: fun_eq_iff m(1))
  then show ?case using ih unfolding Let_def v by simp
qed

lemma fold_cached_none: "(\<And>i. i \<in> set ids \<Longrightarrow> k \<notin> set (mems i)) \<Longrightarrow> fold (\<lambda>i. cached_in i (mems i)) ids c k = c k"
  by (induction ids arbitrary: c) (simp_all add: cached_in_def)

lemma fold_cached_some:
  "i \<in> set ids \<Longrightarrow> k \<in> set (mems i) \<Longrightarrow> (\<And>j. j \<in> set ids \<Longrightarrow> k \<in> set (mems j) \<Longrightarrow> j = i) \<Longrightarrow>
   fold (\<lambda>i. cached_in i (mems i)) ids c k = Some i"
proof (induction ids arbitrary: c)
  case (Cons j ids)
  show ?case
  proof (cases "i \<in> set ids")
    case True
    have "fold (\<lambda>i. cached_in i (mems i)) ids (cached_in j (mems j) c) k = Some i"
      by (rule Cons.IH [OF True Cons.prems(2)]) (rule Cons.prems(3); simp)
    then show ?thesis by simp
  next
    case False
    have "j = i" using False Cons.prems(1) by simp
    moreover have "k \<notin> set (mems l)" if "l \<in> set ids" for l
      using that False Cons.prems(3) [of l] by (metis list.set_intros(2))
    ultimately have "j = i" "\<And>l. l \<in> set ids \<Longrightarrow> k \<notin> set (mems l)" .
    then have "fold (\<lambda>i. cached_in i (mems i)) ids (cached_in j (mems j) c) k = cached_in j (mems j) c k"
      by (intro fold_cached_none)
    moreover have "cached_in j (mems j) c k = Some i" using \<open>j = i\<close> Cons.prems(2) by (simp add: cached_in_def)
    ultimately show ?thesis unfolding fold_simps by simp
  qed
qed simp

section \<open>The restart\<close>

text \<open>
  C11: guilds survive a restart. When every member has a rank that exists and a character the
  server accepts, loading the tables of a reachable state repairs and deletes nothing and gives
  back the same guilds: the same ids, names, leaders, texts, emblems and ranks, the same members
  with their ranks and notes (the rest of an entry comes from the character), and the cache of
  memberships. The result sets are those of the queries: ordered by guild, members and their
  characters in any order.
\<close>

theorem guilds_survive_restart:
  assumes "guild_start w0" and "guild_step\<^sup>*\<^sup>* w0 w"
    and ids: "sorted_wrt (<) ids" "set ids = {i. GetGuildById i w \<noteq> None}" and ld: "\<forall>i \<in> set ids. loadable w chars mems i"
    and v: "gu_map v = []" "gu_cache v = (\<lambda>_. None)" "gu_rows v = gu_rows w" "gu_member_rows v = gu_member_rows w"
      "gu_rank_rows v = gu_rank_rows w"
  shows "let v' = LoadGuilds env zone_of logs (db_guilds w ids) (Some (db_ranks w ids)) (Some (db_members w chars mems ids)) v
    in gu_rows v' = gu_rows w \<and> gu_member_rows v' = gu_member_rows w \<and> gu_rank_rows v' = gu_rank_rows w \<and> gu_cache v' = gu_cache w \<and>
       (\<forall>i. GetGuildById i w = None \<longleftrightarrow> GetGuildById i v' = None) \<and>
       (\<forall>i g g'. GetGuildById i w = Some g \<longrightarrow> GetGuildById i v' = Some g' \<longrightarrow>
          gd_Id g' = i \<and> gd_Name g' = gd_Name g \<and> gd_LeaderGuid g' = gd_LeaderGuid g \<and> gd_MOTD g' = gd_MOTD g \<and>
          gd_GINFO g' = gd_GINFO g \<and> gd_Emblem g' = gd_Emblem g \<and> gd_Ranks g' = gd_Ranks g \<and>
          (\<forall>k. GetMemberSlot k g' = map_option (restored zone_of chars k) (GetMemberSlot k g)))"
proof -
  let ?F = "fold (guild_added env zone_of logs w chars mems) ids v"
  let ?v = "LoadGuilds env zone_of logs (db_guilds w ids) (Some (db_ranks w ids)) (Some (db_members w chars mems ids)) v"
  have ok: "guild_ok w" by (rule reached_ok [OF assms(1,2)])
  have L: "\<exists>g. loading w chars mems i g" if "i \<in> set ids" for i using that ids(2) ld ok by (auto simp: loading_def)
  have d: "distinct ids" using ids(1) by (induction ids) auto
  have F: "let v' = ?F
    in gu_rows v' = gu_rows v \<and> gu_member_rows v' = gu_member_rows v \<and> gu_rank_rows v' = gu_rank_rows v \<and>
       map_of (gu_map v') = (\<lambda>j. if j \<in> set ids then Some (loaded_logged env zone_of logs w chars mems j) else map_of (gu_map v) j) \<and>
       gu_cache v' = fold (\<lambda>i. cached_in i (mems i)) ids (gu_cache v)"
    by (rule fold_added [OF _ L d]) (simp_all add: v)
  have same: "gu_rows ?v = gu_rows ?F" "gu_member_rows ?v = gu_member_rows ?F" "gu_rank_rows ?v = gu_rank_rows ?F" "gu_map ?v = gu_map ?F"
    "gu_cache ?v = gu_cache ?F"
    using load_all [OF ids(1) L] by (cases ids; simp add: LoadGuilds_def Let_def db_guilds_def)+
  have look: "GetGuildById i ?v = (if i \<in> set ids then Some (loaded_logged env zone_of logs w chars mems i) else None)" for i
    using F unfolding GetGuildById_def same Let_def v by simp
  have cache: "gu_cache ?v k = gu_cache w k" for k
  proof -
    have fc: "gu_cache ?v k = fold (\<lambda>i. cached_in i (mems i)) ids (\<lambda>_. None) k" using F unfolding same Let_def v by simp
    have mem: "k \<in> set (mems i) \<longleftrightarrow> gu_cache w k = Some i" if i: "i \<in> set ids" for i
    proof -
      obtain g where l: "loading w chars mems i g" using L [OF i] by blast
      show ?thesis using load_members [OF l, of k] cache_iff [OF ok, of k i] loadingD(2) [OF l] by (simp add: GetMemberSlot_def)
    qed
    show ?thesis
    proof (cases "gu_cache w k")
      case None
      then show ?thesis using fc fold_cached_none [of ids k mems "\<lambda>_. None"] mem by simp
    next
      case (Some i)
      then have i: "i \<in> set ids" using cache_iff [OF ok, of k i] ids(2) by auto
      have "fold (\<lambda>i. cached_in i (mems i)) ids (\<lambda>_. None) k = Some i"
        by (rule fold_cached_some [OF i]) (use mem i Some in auto)
      then show ?thesis using fc Some by simp
    qed
  qed
  have guild: "gd_Id g' = i \<and> gd_Name g' = gd_Name g \<and> gd_LeaderGuid g' = gd_LeaderGuid g \<and> gd_MOTD g' = gd_MOTD g \<and>
      gd_GINFO g' = gd_GINFO g \<and> gd_Emblem g' = gd_Emblem g \<and> gd_Ranks g' = gd_Ranks g \<and>
      (\<forall>k. GetMemberSlot k g' = map_option (restored zone_of chars k) (GetMemberSlot k g))"
    if g: "GetGuildById i w = Some g" "GetGuildById i ?v = Some g'" for i g g'
  proof -
    have i: "i \<in> set ids" using g(1) ids(2) by simp
    then have l: "loading w chars mems i g" using L [OF i] g(1) by (auto simp: loading_def)
    have e: "g' = LoadGuildEventLogFromDB (logs i) (loaded_guild env zone_of w chars mems i)"
      using g(2) i by (simp add: look loaded_logged_def)
    show ?thesis unfolding e GetMemberSlot_def logged_fields loaded_fields [OF l] load_table(1) [OF l] by blast
  qed
  have none: "GetGuildById i w = None \<longleftrightarrow> GetGuildById i ?v = None" for i using ids(2) look [of i] by auto
  have tables: "gu_rows ?v = gu_rows w" "gu_member_rows ?v = gu_member_rows w" "gu_rank_rows ?v = gu_rank_rows w"
    using F unfolding same Let_def v by blast+
  have c: "gu_cache ?v = gu_cache w" by (rule ext) (rule cache)
  show ?thesis unfolding Let_def
    by (rule conjI, rule tables, rule conjI, rule tables, rule conjI, rule tables, rule conjI, rule c, rule conjI)
      (intro allI none, intro allI impI guild)
qed

definition sample_chars :: "u32 \<Rightarrow> char_row" where
  "sample_chars k = \<lparr>cr_name = [ucast k], cr_level = 12, cr_class = 1, cr_zone = 12, cr_logout = 900, cr_account = k\<rparr>"

definition sample_restarted :: guild_world where
  "sample_restarted =
     LoadGuilds sample_uenv (\<lambda>_. 0) (\<lambda>_. []) (db_guilds sample_guild_world [1]) (Some (db_ranks sample_guild_world [1]))
       (Some (db_members sample_guild_world sample_chars (\<lambda>_. [3, 1, 2]) [1]))
       (sample_guild_world\<lparr>gu_map := [], gu_cache := (\<lambda>_. None)\<rparr>)"

lemma sample_only_guild: "i \<noteq> 1 \<Longrightarrow> GetGuildById i sample_guild_world = None"
  by (simp add: sample_guild_world_def sample_joined_def sample_founded_def guild_eval Let_def word_le_nat_alt)

theorem guilds_survive_restart_witness:
  "gu_cache sample_restarted = gu_cache sample_guild_world \<and>
   (case GetGuildById 1 sample_restarted of None \<Rightarrow> False
    | Some g' \<Rightarrow> gd_LeaderGuid g' = 1 \<and> (case GetMemberSlot 2 g' of None \<Rightarrow> False | Some s \<Rightarrow> gm_RankId s = 3 \<and> gm_Level s = 12))"
proof -
  let ?W = sample_guild_world
  obtain g where g: "GetGuildById 1 ?W = Some g" "map fst (gd_members g) = [1, 2, 3]"
    "map (gm_RankId \<circ> snd) (gd_members g) = [0, 3, 4]" "gd_LeaderGuid g = 1" by (rule sample_guild)
  obtain a b c where m: "gd_members g = [(1, a), (2, b), (3, c)]" "gm_RankId a = 0" "gm_RankId b = 3" "gm_RankId c = 4"
    using g(2,3) by (auto simp: map_eq_Cons_conv)
  have ids: "sorted_wrt (<) [1 :: u32]" "set [1] = {i. GetGuildById i ?W \<noteq> None}"
  proof -
    have "i = 1" if "GetGuildById i ?W \<noteq> None" for i using sample_only_guild [of i] that by blast
    then show "set [1] = {i. GetGuildById i ?W \<noteq> None}" using g(1) by auto
  qed simp
  have rk: "5 \<le> length (gd_Ranks g)"
    using guild_bounds [OF sample_ustart sample_world_steps g(1)] by (simp add: GetRanksSize_def GUILD_RANKS_MIN_COUNT_def)
  have ld: "\<forall>i \<in> set [1]. loadable ?W sample_chars (\<lambda>_. [3, 1, 2]) i"
    using rk by (auto simp: loadable_def g(1) m sample_chars_def char_ok_def playable_class_def DEFAULT_MAX_LEVEL_def)
  note R = guilds_survive_restart [OF sample_ustart sample_world_steps ids ld, of "?W\<lparr>gu_map := [], gu_cache := (\<lambda>_. None)\<rparr>"
      sample_uenv "\<lambda>_. 0" "\<lambda>_. []", unfolded Let_def, folded sample_restarted_def, simplified]
  have "GetGuildById 1 ?W = None \<longleftrightarrow> GetGuildById 1 sample_restarted = None" using R by blast
  then have "GetGuildById 1 sample_restarted \<noteq> None" unfolding g(1) by blast
  then obtain g' where g': "GetGuildById 1 sample_restarted = Some g'" by blast
  have "gd_LeaderGuid g' = 1" "GetMemberSlot 2 g' = map_option (restored (\<lambda>_. 0) sample_chars 2) (GetMemberSlot 2 g)"
    using R g(1,4) g' by metis+
  then show ?thesis using R by (simp add: g' GetMemberSlot_def m restored_def sample_chars_def)
qed

end
