(* ===== verification/GuildFindings.thy ===== *)
theory GuildFindings
  imports GuildRestart
begin

text \<open>
  Behaviour of the guild code that is not what it means to do, as runs and short lemmas. The runs
  start from the guild of \<^verbatim>\<open>GuildProps\<close>.
\<close>

lemmas sample_run = sample_guild_world_def sample_joined_def sample_founded_def guild_eval Let_def word_le_nat_alt

section \<open>Rights\<close>

text \<open>
  A right is tested by \<^verbatim>\<open>(rights & right) != GR_RIGHT_EMPTY\<close>, and the constant has bit 6 set: a rank
  without that bit has every right. That is so for a rank that does not exist any more (its rights
  are 0), and for a rank whose rights the leader's client sends as 0.
\<close>

lemma missing_rank_has_every_right: "length (gd_Ranks g) \<le> unat r \<Longrightarrow> HasRankRight r right g"
  by (simp add: HasRankRight_def GetRankRights_def GR_RIGHT_EMPTY_def)

lemma rank_without_rights_has_every_right: "GetRankRights r g = 0 \<Longrightarrow> HasRankRight r right g"
  by (simp add: HasRankRight_def GR_RIGHT_EMPTY_def)

text \<open>
  So a member who joined with the lowest of six ranks may do anything after that rank was deleted:
  here he has the right to invite, which a member of the next rank above does not have.
\<close>

definition sample_deleted_rank :: guild_world where
  "sample_deleted_rank =
     HandleGuildDelRankOpcode sample_uenv 1
       (sample_joined 3 (HandleGuildAddRankOpcode sample_uenv 1 [6] (sample_joined 2 sample_founded)))"

lemma member_of_deleted_rank_may_invite: "may 3 GR_RIGHT_INVITE sample_deleted_rank \<and> \<not> may 2 GR_RIGHT_INVITE sample_deleted_rank"
  by (simp add: sample_deleted_rank_def may_def HandleGuildDelRankOpcode_def HandleGuildAddRankOpcode_def on_own_guild_def
      announce_ranks_def Roster_def Query_def DelRank_def GetRanksSize_def GUILD_RANKS_MIN_COUNT_def sample_run)

section \<open>Membership\<close>

text \<open>
  The handler that declines an invitation also clears the guild of a player who is in one. He
  stays a member in the list and in the table, and can found or join another guild.
\<close>

definition in_guild :: "u32 \<Rightarrow> u32 \<Rightarrow> guild_world \<Rightarrow> bool" where
  "in_guild k i w \<longleftrightarrow> (case GetGuildById i w of None \<Rightarrow> False | Some g \<Rightarrow> GetMemberSlot k g \<noteq> None)"

lemma declining_member_joins_twice:
  "let w = HandleGuildCreateOpcode sample_uenv 2 [72] (HandleGuildDeclineOpcode 2 sample_guild_world)
   in in_guild 2 1 w \<and> in_guild 2 2 w"
  by (simp add: in_guild_def HandleGuildDeclineOpcode_def sample_run)

text \<open>
  A leader who names himself as the new leader becomes an officer and stays the leader: the guild
  has no guild master.
\<close>

lemma leader_to_himself_is_officer:
  "case GetGuildById 1 (HandleGuildLeaderOpcode sample_uenv 1 [1] sample_guild_world) of None \<Rightarrow> False
   | Some g \<Rightarrow> gd_LeaderGuid g = 1 \<and> list_all (\<lambda>e. gm_RankId (snd e) \<noteq> GR_GUILDMASTER) (gd_members g)"
  by (simp add: HandleGuildLeaderOpcode_def on_own_guild_def SetLeader_def sql_guild_def GR_OFFICER_def sample_run)

text \<open>
  \<^verbatim>\<open>AddMember\<close> means to remove the new member's signatures from other petitions, which only removes
  his own petitions. Somebody who has signed a petition, has joined another guild since and is
  not in memory when it is turned in, is added to a second guild.
\<close>

definition sample_offline_env :: guild_env where
  "sample_offline_env = sample_uenv\<lparr>ue_minSigns := 1,
     ue_cache := (\<lambda>k. Some \<lparr>gc_name = [ucast k], gc_level = 10, gc_class = 1, gc_zone = 12, gc_account = k\<rparr>)\<rparr>"

definition sample_signed :: guild_world where
  "sample_signed = guild_logout sample_offline_env 3
     ((guild_login 4 (sample_upl 4) sample_guild_world)\<lparr>gu_petitions := [9 \<mapsto> (4, [72])], gu_signs := [(9, 4, 3)]\<rparr>)"

lemma offline_signer_joins_twice:
  "let w = HandleTurnInPetitionOpcode sample_offline_env True 4 9 sample_signed in in_guild 3 1 w \<and> in_guild 3 2 w"
  by (simp add: in_guild_def sample_offline_env_def sample_signed_def guild_logout_def UpdateLogoutTime_def SetMemberStats_def
      HandleTurnInPetitionOpcode_def petition_signers_def found_guild_def add_signers.simps sql_del_petition_def petition_result_def
      playable_class_def DEFAULT_MAX_LEVEL_def sample_run)

end
