(* ===== verification/Spec2Isabelle.thy ===== *)
theory Spec2Isabelle
  imports Wire Guids Containers Timers Events Formulas AuctionProps Reputation SocialProps ChannelProps GroupFindings GuildFindings
begin

text \<open>
  A verification library for the core of a World of Warcraft 1.12 server (MaNGOS family,
  \<^verbatim>\<open>src/\<close> below stands for \<^verbatim>\<open>src/src/\<close> of the repository).

  The program. \<^verbatim>\<open>mangosd\<close> is one process: sessions receive packets and call a handler for each
  opcode (\<^verbatim>\<open>src/game/Handlers\<close>); handlers change the state of long-lived managers (auctions,
  reputation, friends, chat channels, groups, guilds) and of players, write to the character database and
  send packets; a world loop calls the managers with the elapsed time. The managers rest on a few shared
  parts: the packet buffer, object identifiers, containers, timers and the event processor.

  Theories and the code they model.
    \<^item> \<^verbatim>\<open>Prelude\<close>: machine integers at their width, \<^verbatim>\<open>std::map\<close> as sorted association list
      (\<open>sm_put\<close>, \<open>sm_find\<close>, ...), outcomes of calls (value, exception, undefined behaviour),
      packet bytes; the locales \<open>ordered_map\<close> (contract of a dictionary, with the counting lemmas) and
      \<open>machine\<close>/\<open>metered_machine\<close> (invariants of reachable states).
    \<^item> \<^verbatim>\<open>Wire\<close>: \<^verbatim>\<open>src/shared/ByteBuffer.h\<close>. Storage and two cursors; each operator is one
      definition; the codec locale gives the round trips; readers never leave the storage.
    \<^item> \<^verbatim>\<open>Guids\<close>: \<^verbatim>\<open>src/game/ObjectGuid.{h,cpp}\<close>, fields, streaming, generator.
    \<^item> \<^verbatim>\<open>Containers\<close>: \<^verbatim>\<open>LinkedList.h\<close> on an explicit store of nodes, \<^verbatim>\<open>LockedQueue.h\<close>.
    \<^item> \<^verbatim>\<open>Timers\<close>: \<^verbatim>\<open>src/shared/Timer.h\<close> and the clock of \<^verbatim>\<open>src/shared/Util.cpp\<close>.
    \<^item> \<^verbatim>\<open>Events\<close>: \<^verbatim>\<open>src/framework/Utilities/EventProcessor\<close>; the handlers are a parameter.
    \<^item> \<^verbatim>\<open>Float32\<close>: binary32 arithmetic as exact rationals with rounding, a part of the
      language the next theories need.
    \<^item> \<^verbatim>\<open>Formulas\<close>: \<^verbatim>\<open>src/game/Formulas.h\<close>, the damage counters of \<^verbatim>\<open>Creature.h\<close>, the group
      data of a kill in \<^verbatim>\<open>src/game/Group/Group.cpp\<close>.
    \<^item> \<^verbatim>\<open>Auction\<close> (model), \<^verbatim>\<open>AuctionLaws\<close> (what each step does to money and goods),
      \<^verbatim>\<open>AuctionProps\<close>: \<^verbatim>\<open>AuctionHouseMgr\<close> and \<^verbatim>\<open>AuctionHouseHandler\<close>.
    \<^item> \<^verbatim>\<open>Reputation\<close>: \<^verbatim>\<open>src/game/ReputationMgr\<close>.
    \<^item> \<^verbatim>\<open>Social\<close>, \<^verbatim>\<open>SocialProps\<close>: \<^verbatim>\<open>src/game/SocialMgr\<close>, the friend requests of
      \<^verbatim>\<open>MiscHandler.cpp\<close>, and the rows of the table \<^verbatim>\<open>character_social\<close>.
    \<^item> \<^verbatim>\<open>Channel\<close>, \<^verbatim>\<open>ChannelHandlers\<close>, \<^verbatim>\<open>ChannelProps\<close>: \<^verbatim>\<open>src/game/Chat/Channel\<close>,
      \<^verbatim>\<open>ChannelMgr.cpp\<close> and \<^verbatim>\<open>ChannelHandler.cpp\<close>; a channel uses the ignore lists of \<^verbatim>\<open>Social\<close>.
    \<^item> \<^verbatim>\<open>GroupModel\<close> (\<^verbatim>\<open>src/game/Group/Group.h\<close>, references, packets, tables), \<^verbatim>\<open>GroupLoot\<close> (the rolls),
      \<^verbatim>\<open>GroupOps\<close> (the rest of \<^verbatim>\<open>Group.cpp\<close> and the group operations of a player), \<^verbatim>\<open>GroupHandlers\<close>
      (\<^verbatim>\<open>GroupHandler.cpp\<close>, login, logout, loading). Groups live at addresses, players link to them by
      intrusive references; invitations use the ignore lists of \<^verbatim>\<open>Social\<close>.
    \<^item> The proofs about groups: \<^verbatim>\<open>GroupLaws\<close> (views of the state and how the primitives change
      them), \<^verbatim>\<open>GroupInv\<close> (the invariant), \<^verbatim>\<open>GroupSteps\<close> and \<^verbatim>\<open>GroupMoves\<close> (joining, leaving, ending,
      leading), \<^verbatim>\<open>GroupOk\<close>, \<^verbatim>\<open>GroupChange\<close>, \<^verbatim>\<open>GroupRolls\<close>, \<^verbatim>\<open>GroupSub\<close>, \<^verbatim>\<open>GroupJoin\<close>, \<^verbatim>\<open>GroupSession\<close> (each
      operation keeps the invariant), \<^verbatim>\<open>GroupRequests\<close> (the requests and the machine), \<^verbatim>\<open>GroupProps\<close>
      and \<^verbatim>\<open>GroupPlay\<close> (the properties), \<^verbatim>\<open>GroupFindings\<close> (runs that surprise).
    \<^item> \<^verbatim>\<open>GuildModel\<close> (\<^verbatim>\<open>src/game/Guild/Guild.h\<close>, \<^verbatim>\<open>GuildMgr\<close>, the statements on the guild tables),
      \<^verbatim>\<open>GuildOps\<close> (\<^verbatim>\<open>Guild.cpp\<close>), \<^verbatim>\<open>GuildHandlers\<close> (\<^verbatim>\<open>GuildHandler.cpp\<close>), \<^verbatim>\<open>GuildLife\<close> (the end of a
      petition, guild chat, login, logout and deletion of a character, the commands of game masters,
      the loading of all guilds).
    \<^item> The proofs about guilds: \<^verbatim>\<open>GuildInv\<close> (\<open>coh\<close>, what the map of guilds, the cache, the players
      and the tables say of each other, and \<open>gd_ok\<close>, the invariant of one guild), \<^verbatim>\<open>GuildCoh\<close>,
      \<^verbatim>\<open>GuildMove\<close>, \<^verbatim>\<open>GuildEnds\<close> and \<^verbatim>\<open>GuildFound\<close> (each operation on a guild that is taken out of
      the map, changed and put back; a new guild; the end of one), \<^verbatim>\<open>GuildRequests\<close>, \<^verbatim>\<open>GuildComings\<close> and
      \<^verbatim>\<open>GuildSteps\<close> (each request keeps \<open>guild_ok\<close>), \<^verbatim>\<open>GuildReach\<close> (the machine), \<^verbatim>\<open>GuildProps\<close>,
      \<^verbatim>\<open>GuildPower\<close> and \<^verbatim>\<open>GuildRestart\<close> (the properties), \<^verbatim>\<open>GuildFindings\<close> (runs that surprise).

  How state and effects are kept. A C++ object is a record, an operation a function from the
  state before to the state after; packets are appended to a list in the state; a failed
  \<^verbatim>\<open>ASSERT\<close> or a thrown exception is \<open>Throw\<close>, a null dereference or out-of-range access is
  \<open>Undefined\<close>. What an operation reads of other components (players online, configuration,
  DBC stores, text conversion) is a record passed in, which may differ at every step of a run.

  What the lemmas show. Round trips and memory safety of the wire formats; the list and the
  queue implement sequences; the clock and the timers lose no time; events due are handled
  once, in order, and an update ends; the experience formula and the colours agree; no money
  is created and no item doubled by the auction house; over changes, saves and loads reputations
  stay in range and hidden factions hidden; friend lists keep their limits and agree with the
  database; a channel has one owner, changes only for moderators, and a ban keeps out while it stands; in every run of requests, logins
  and loot events a group, its players and its rows in the database agree, sizes and subgroup
  counters are right, an offline leader is replaced, and rolls are settled one by one and go to the best draw; in every
  run a guild has one guild master, a player is in one guild at most, memory and tables agree and
  a restart gives back the same guilds, requests need their right and respect the ranks. Where the code departs from
  what it means to do, a lemma shows a concrete run.

  Bounds. \<^verbatim>\<open>uint32\<close> counters of map entries are words; their theorems assume sizes that fit.
  Loops are structural recursions over the container walked, or carry a fuel that a lemma
  shows to be enough (\<^verbatim>\<open>Events\<close>); the counting walk of the intrusive list is a partial
  function, since on a corrupted list it does not end.

  Groups in runs. A player is in the world while he exists, group ids do not run out, and
  battleground raids are modelled but not part of the runs; \<^verbatim>\<open>GroupFindings\<close> shows what happens
  to a player between two maps. Left out of the group operations: binds to instances and the
  home teleport, quest objects, aura masks, the redraw of members' fields, the looter rotation.

  Rights in guilds. A request is refused to a member whose rank exists, has the bit of the empty
  right and none of the right's own; for other ranks \<^verbatim>\<open>HasRankRight\<close> grants everything, as
  \<^verbatim>\<open>GuildFindings\<close> shows, and the properties say so.

  Reputations in runs. The faction store is taken to be well formed (\<open>rep_store_ok\<close>); a login loads
  rows with the standings that were saved, in any order and with any flags.

  Guilds in runs. The step relation leaves out the uses that break the invariant, which are listed in
  \<^verbatim>\<open>GuildReach\<close>, and a new guild when the ids run out. The query of the guild log, which only reads,
  and the requests that buy, rename, offer and sign a petition are not modelled; petitions and
  signatures may change in any way between two steps. The escaping of strings in statements is the
  database's. The order of the entries of a hash table is a parameter.

  Not modelled. Players, units, spells, maps, battlegrounds, scripts and commands (game rules
  over large tables), sessions, sockets and threads, the database layer, and third-party code.
\<close>

end
